(* ===== verification/Prelude.thy ===== *)
theory Prelude
  imports "HOL-Library.Word"
begin

unbundle bit_operations_syntax

text \<open>
  Shared vocabulary of the development: the C integer types, reads from a byte buffer that
  may fail, C \<open>while\<close> loops with an explicit bound on the number of rounds, and the predicate
  \<open>bytes_at\<close> ("these bytes lie in the buffer from this position on") that the round-trip
  proofs of every protocol layer use.

  A computation of the C code that may leave the defined part of the language has the type
  \<open>'a run\<close>: \<open>Inr v\<close> is a normal result, \<open>Inl Out_of_bounds\<close> an access outside of the buffer
  that was handed to the function, \<open>Inl Uninitialised\<close> the use of a local variable that was
  never assigned, \<open>Inl Null_pointer\<close> the access through a null pointer, \<open>Inl Undefined_operation\<close> an operation C leaves undefined for its operands (an
  oversized shift), and \<open>Inl Out_of_fuel\<close> a loop that has not ended within the given number of
  rounds.
\<close>

section \<open>C integer types\<close>

type_synonym byte = "8 word"
type_synonym u16 = "16 word"
type_synonym u32 = "32 word"
type_synonym u64 = "64 word"

text \<open>
  A C \<open>int\<close> is an \<open>int\<close> of HOL together with an explicit wrap-around to 32 bit wherever the
  code can leave the range (two's complement, what the supported compilers do).
\<close>

definition i32 :: "int \<Rightarrow> int" where
  "i32 x = signed_take_bit 31 x"

lemma i32_id [simp]: "- (2 ^ 31) \<le> x \<Longrightarrow> x < 2 ^ 31 \<Longrightarrow> i32 x = x"
  unfolding i32_def by (rule signed_take_bit_int_eq_self) simp_all

lemma i32_range: "- (2 ^ 31) \<le> i32 x \<and> i32 x < 2 ^ 31"
  unfolding i32_def
  using signed_take_bit_int_greater_eq_minus_exp [of 31 x] signed_take_bit_int_less_exp [of 31 x]
  by simp

lemma uint_byte_bounds [simp]: "0 \<le> uint (b :: byte)" "uint (b :: byte) < 256" "uint (b :: byte) \<le> 255"
proof -
  show "0 \<le> uint b" by simp
  have "uint b < 2 ^ LENGTH(8)" by (rule uint_lt2p)
  then show "uint b < 256" and "uint b \<le> 255" by simp_all
qed

lemma uint_of_int_byte [simp]: "0 \<le> x \<Longrightarrow> x < 256 \<Longrightarrow> uint (word_of_int x :: byte) = x"
  by (simp add: uint_word_of_int)

text \<open>The bytes of a 32 bit value in the memory of a little-endian machine.\<close>

definition le_bytes32 :: "u32 \<Rightarrow> byte list" where
  "le_bytes32 w = [ucast w, ucast (drop_bit 8 w), ucast (drop_bit 16 w), ucast (drop_bit 24 w)]"

lemma length_le_bytes32 [simp]: "length (le_bytes32 w) = 4"
  by (simp add: le_bytes32_def)


section \<open>Faults and sequencing\<close>

datatype fault = Out_of_bounds | Uninitialised | Null_pointer | Undefined_operation | Out_of_fuel

type_synonym 'a run = "fault + 'a"

fun rbind :: "'a run \<Rightarrow> ('a \<Rightarrow> 'b run) \<Rightarrow> 'b run" where
  "rbind (Inl e) f = Inl e"
| "rbind (Inr x) f = f x"

lemma rbind_Inr_iff: "rbind m f = Inr y \<longleftrightarrow> (\<exists>x. m = Inr x \<and> f x = Inr y)"
  by (cases m) auto

lemma rbind_pair_Inr_iff:
  "rbind m (\<lambda>(x, y). f x y) = Inr z \<longleftrightarrow> (\<exists>x y. m = Inr (x, y) \<and> f x y = Inr z)"
  "rbind m' (\<lambda>(x, y, w). g x y w) = Inr z \<longleftrightarrow> (\<exists>x y w. m' = Inr (x, y, w) \<and> g x y w = Inr z)"
  by (cases m; cases m'; auto)+

lemma rbind_Inl_iff: "rbind m f = Inl e \<longleftrightarrow> m = Inl e \<or> (\<exists>x. m = Inr x \<and> f x = Inl e)"
  by (cases m) auto

text \<open>Reading the local variable \<open>v\<close>: \<open>None\<close> is a variable that has not been assigned.\<close>

fun use_var :: "'a option \<Rightarrow> 'a run" where
  "use_var None = Inl Uninitialised"
| "use_var (Some x) = Inr x"

text \<open>\<open>rd b i\<close> is the C expression \<open>b[i]\<close> for a buffer \<open>b\<close> of \<open>length b\<close> octets.\<close>

definition rd :: "byte list \<Rightarrow> int \<Rightarrow> byte run" where
  "rd b i = (if 0 \<le> i \<and> i < int (length b) then Inr (b ! nat i) else Inl Out_of_bounds)"

fun rd_n :: "byte list \<Rightarrow> int \<Rightarrow> nat \<Rightarrow> byte list run" where
  "rd_n b i 0 = Inr []"
| "rd_n b i (Suc n) = rbind (rd b i) (\<lambda>x. rbind (rd_n b (i + 1) n) (\<lambda>xs. Inr (x # xs)))"

lemma rd_Inr_iff: "rd b i = Inr x \<longleftrightarrow> 0 \<le> i \<and> i < int (length b) \<and> x = b ! nat i"
  by (auto simp: rd_def)

lemma rd_n_length: "rd_n b i n = Inr xs \<Longrightarrow> length xs = n"
  by (induction n arbitrary: i xs) (auto simp: rbind_Inr_iff)


section \<open>Bytes at a position\<close>

fun bytes_at :: "byte list \<Rightarrow> int \<Rightarrow> byte list \<Rightarrow> bool" where
  "bytes_at b p [] = True"
| "bytes_at b p (x # xs) = (rd b p = Inr x \<and> bytes_at b (p + 1) xs)"

lemma bytes_at_append:
  "bytes_at b p (xs @ ys) \<longleftrightarrow> bytes_at b p xs \<and> bytes_at b (p + int (length xs)) ys"
  by (induction xs arbitrary: p) (auto simp: algebra_simps)

lemma rd_Cons_shift: "0 \<le> p \<Longrightarrow> rd (x # b) (p + 1) = rd b p"
  by (auto simp: rd_def nat_add_distrib)

lemma bytes_at_Cons_shift: "0 \<le> p \<Longrightarrow> bytes_at (x # b) (p + 1) xs = bytes_at b p xs"
proof (induction xs arbitrary: p)
  case Nil
  then show ?case by simp
next
  case (Cons y ys)
  then show ?case using Cons.IH [of "p + 1"] rd_Cons_shift [of p x b] by simp
qed

lemma bytes_at_self: "bytes_at (xs @ ys) 0 xs"
proof (induction xs)
  case Nil
  then show ?case by simp
next
  case (Cons x xs)
  have "bytes_at ((x # xs) @ ys) (0 + 1) xs"
    using Cons bytes_at_Cons_shift [of 0 x "xs @ ys" xs] by simp
  then show ?case by (simp add: rd_def)
qed

lemma bytes_at_app_shift: "0 \<le> p \<Longrightarrow> bytes_at (zs @ b) (int (length zs) + p) xs = bytes_at b p xs"
proof (induction zs)
  case Nil
  then show ?case by simp
next
  case (Cons z zs)
  have "bytes_at ((z # zs) @ b) (int (length (z # zs)) + p) xs
        = bytes_at (z # (zs @ b)) ((int (length zs) + p) + 1) xs" by (simp add: algebra_simps)
  also have "\<dots> = bytes_at (zs @ b) (int (length zs) + p) xs"
    using Cons.prems by (intro bytes_at_Cons_shift) simp
  finally show ?case using Cons by simp
qed

lemma bytes_at_whole: "bytes_at xs 0 xs"
  using bytes_at_self [of xs "[]"] by simp

lemma bytes_at_middle: "bytes_at (pre @ xs @ post) (int (length pre)) xs"
  using bytes_at_app_shift [of 0 pre "xs @ post" xs] by (simp add: bytes_at_self)

lemma bytes_at_bounds: "bytes_at b p xs \<Longrightarrow> xs \<noteq> [] \<Longrightarrow> 0 \<le> p \<and> p + int (length xs) \<le> int (length b)"
proof (induction xs arbitrary: p)
  case Nil
  then show ?case by simp
next
  case (Cons x xs)
  then show ?case using Cons.IH [of "p + 1"] by (cases xs) (auto simp: rd_Inr_iff)
qed

lemma rd_n_bytes_at: "bytes_at b p xs \<Longrightarrow> rd_n b p (length xs) = Inr xs"
  by (induction xs arbitrary: p) auto

lemma rd_n_front: "n \<le> length b \<Longrightarrow> rd_n b 0 n = Inr (take n b)"
  using rd_n_bytes_at [OF bytes_at_self, of "take n b" "drop n b"] by simp

lemma bytes_at_eq_take_drop:
  "bytes_at b p xs \<Longrightarrow> 0 \<le> p \<Longrightarrow> take (length xs) (drop (nat p) b) = xs"
proof (induction xs arbitrary: p)
  case Nil
  then show ?case by simp
next
  case (Cons x xs)
  then have "nat p < length b" and "b ! nat p = x" by (auto simp: rd_Inr_iff)
  then have "drop (nat p) b = x # drop (Suc (nat p)) b" by (auto simp: Cons_nth_drop_Suc)
  moreover have "nat (p + 1) = Suc (nat p)" using Cons.prems by simp
  ultimately show ?case using Cons.IH [of "p + 1"] Cons.prems by simp
qed


section \<open>C loops\<close>

text \<open>
  A round of a loop either goes on with a new state or leaves the function with a result.
  \<open>c_while n c f s\<close> runs at most \<open>n\<close> rounds of \<open>while (c) f\<close>.
\<close>

datatype ('s, 'r) ctl = Continue 's | Return 'r

fun c_while :: "nat \<Rightarrow> ('s \<Rightarrow> bool) \<Rightarrow> ('s \<Rightarrow> ('s, 'r) ctl run) \<Rightarrow> 's \<Rightarrow> ('s, 'r) ctl run" where
  "c_while 0 c f s = (if c s then Inl Out_of_fuel else Inr (Continue s))"
| "c_while (Suc n) c f s =
     (if c s then
        (case f s of
           Inl e \<Rightarrow> Inl e
         | Inr (Return r) \<Rightarrow> Inr (Return r)
         | Inr (Continue s') \<Rightarrow> c_while n c f s')
      else Inr (Continue s))"

lemma c_while_done: "\<not> c s \<Longrightarrow> c_while n c f s = Inr (Continue s)"
  by (cases n) auto

lemma c_while_step:
  "c s \<Longrightarrow> f s = Inr (Continue s') \<Longrightarrow> c_while (Suc n) c f s = c_while n c f s'"
  by simp

lemma c_while_mono:
  "c_while n c f s = Inr r \<Longrightarrow> n \<le> m \<Longrightarrow> c_while m c f s = Inr r"
proof (induction n arbitrary: s m)
  case 0
  then show ?case by (cases m) (auto split: if_splits)
next
  case (Suc n)
  then obtain m' where m: "m = Suc m'" by (cases m) auto
  with Suc.prems have "n \<le> m'" by simp
  with Suc show ?case
    by (auto simp: m split: if_splits sum.splits ctl.splits)
qed

lemma c_while_mono_fault:
  "c_while n c f s = r \<Longrightarrow> r \<noteq> Inl Out_of_fuel \<Longrightarrow> n \<le> m \<Longrightarrow> c_while m c f s = r"
proof (induction n arbitrary: s m)
  case 0
  then show ?case by (cases m) (auto split: if_splits)
next
  case (Suc n)
  then obtain m' where m: "m = Suc m'" by (cases m) auto
  with Suc.prems have "n \<le> m'" by simp
  with Suc show ?case
    by (auto simp: m split: if_splits sum.splits ctl.splits)
qed

text \<open>A loop whose rounds keep an invariant and do not fail: only the fuel can be short.\<close>

lemma c_while_safe:
  assumes "\<And>s. I s \<Longrightarrow> c s \<Longrightarrow> \<exists>r. f s = Inr r \<and> (case r of Continue s' \<Rightarrow> I s' | Return x \<Rightarrow> Q x)"
  shows "I s \<Longrightarrow> c_while n c f s = Inl Out_of_fuel
      \<or> (\<exists>r. c_while n c f s = Inr r \<and> (case r of Continue s' \<Rightarrow> I s' \<and> \<not> c s' | Return x \<Rightarrow> Q x))"
proof (induction n arbitrary: s)
  case 0
  then show ?case by simp
next
  case (Suc n)
  show ?case
  proof (cases "c s")
    case True
    with assms [OF Suc.prems] obtain r where r: "f s = Inr r"
      "case r of Continue s' \<Rightarrow> I s' | Return x \<Rightarrow> Q x" by blast
    with True Suc.IH show ?thesis by (cases r) auto
  qed (use Suc.prems in simp)
qed

text \<open>An invariant of the rounds holds when the loop is done.\<close>

lemma c_while_invariant:
  assumes "\<And>s s'. I s \<Longrightarrow> c s \<Longrightarrow> f s = Inr (Continue s') \<Longrightarrow> I s'"
  shows "I s \<Longrightarrow> c_while n c f s = Inr (Continue t) \<Longrightarrow> I t"
proof (induction n arbitrary: s)
  case 0
  then show ?case by (auto split: if_splits)
next
  case (Suc n)
  show ?case
  proof (cases "c s")
    case True
    with Suc.prems(2) obtain s' where "f s = Inr (Continue s')" "c_while n c f s' = Inr (Continue t)"
      by (auto split: sum.splits ctl.splits)
    with assms [OF Suc.prems(1) True] Suc.IH show ?thesis by blast
  qed (use Suc.prems in simp)
qed

lemma c_while_return:
  "c_while n c f s = Inr (Return r) \<Longrightarrow> \<exists>s'. f s' = Inr (Return r)"
  by (induction n arbitrary: s) (auto split: if_splits sum.splits ctl.splits)

text \<open>The result of a loop, without the number of rounds: two runs with enough of them agree.\<close>

definition loop_ends :: "('s \<Rightarrow> bool) \<Rightarrow> ('s \<Rightarrow> ('s, 'r) ctl run) \<Rightarrow> 's \<Rightarrow> ('s, 'r) ctl \<Rightarrow> bool" where
  "loop_ends c f s r \<longleftrightarrow> (\<exists>n. c_while n c f s = Inr r)"

lemma loop_ends_done: "\<not> c s \<Longrightarrow> loop_ends c f s (Continue s)"
  by (auto simp: loop_ends_def c_while_done)

lemma loop_ends_step: "c s \<Longrightarrow> f s = Inr (Continue s') \<Longrightarrow> loop_ends c f s' r \<Longrightarrow> loop_ends c f s r"
  unfolding loop_ends_def by (metis c_while_step)

lemma loop_ends_return: "c s \<Longrightarrow> f s = Inr (Return r) \<Longrightarrow> loop_ends c f s (Return r)"
  unfolding loop_ends_def by (rule exI [of _ 1]) simp

lemma loop_ends_run:
  assumes "loop_ends c f s r" and "c_while n c f s \<noteq> Inl Out_of_fuel"
  shows "c_while n c f s = Inr r"
proof -
  obtain k where k: "c_while k c f s = Inr r" using assms(1) by (auto simp: loop_ends_def)
  have "c_while (max n k) c f s = Inr r" using k by (rule c_while_mono) simp
  moreover have "c_while (max n k) c f s = c_while n c f s"
    by (rule c_while_mono_fault) (use assms(2) in auto)
  ultimately show ?thesis by simp
qed

text \<open>A loop whose state never changes and never leaves does not end, however many rounds it gets.\<close>

lemma c_while_diverges:
  "c s \<Longrightarrow> f s = Inr (Continue s) \<Longrightarrow> c_while n c f s = Inl Out_of_fuel"
  by (induction n) auto

text \<open>
  The contract of a loop that ends: a measure into the natural numbers that every round of
  the loop decreases while the invariant holds.
\<close>

locale measured_loop =
  fixes cond :: "'s \<Rightarrow> bool"
    and body :: "'s \<Rightarrow> ('s, 'r) ctl run"
    and meas :: "'s \<Rightarrow> nat"
    and invar :: "'s \<Rightarrow> bool"
  assumes invar_step: "invar s \<Longrightarrow> cond s \<Longrightarrow> body s = Inr (Continue s') \<Longrightarrow> invar s'"
    and meas_step: "invar s \<Longrightarrow> cond s \<Longrightarrow> body s = Inr (Continue s') \<Longrightarrow> meas s' < meas s"
    and body_fuel_free: "invar s \<Longrightarrow> cond s \<Longrightarrow> body s \<noteq> Inl Out_of_fuel"
begin

lemma enough_fuel: "invar s \<Longrightarrow> meas s < n \<Longrightarrow> c_while n cond body s \<noteq> Inl Out_of_fuel"
proof (induction n arbitrary: s)
  case 0
  then show ?case by simp
next
  case (Suc n)
  show ?case
  proof (cases "cond s")
    case True
    show ?thesis
    proof (cases "body s")
      case (Inl e)
      with True body_fuel_free [OF Suc.prems(1) True] show ?thesis by simp
    next
      case (Inr r)
      show ?thesis
      proof (cases r)
        case (Continue s')
        with Inr have "body s = Inr (Continue s')" by simp
        from invar_step [OF Suc.prems(1) True this] meas_step [OF Suc.prems(1) True this]
        have "c_while n cond body s' \<noteq> Inl Out_of_fuel"
          using Suc.IH Suc.prems(2) by simp
        with True Inr Continue show ?thesis by simp
      qed (use True Inr in simp)
    qed
  qed simp
qed

lemma run_ends: "invar s \<Longrightarrow> meas s < n \<Longrightarrow> loop_ends cond body s r \<Longrightarrow> c_while n cond body s = Inr r"
  by (rule loop_ends_run) (auto dest: enough_fuel)

lemma invar_end: "invar s \<Longrightarrow> c_while n cond body s = Inr (Continue t) \<Longrightarrow> invar t \<and> \<not> cond t"
proof (induction n arbitrary: s)
  case 0
  then show ?case by (auto split: if_splits)
next
  case (Suc n)
  show ?case
  proof (cases "cond s")
    case True
    with Suc.prems(2) obtain s' where s': "body s = Inr (Continue s')"
      and rest: "c_while n cond body s' = Inr (Continue t)"
      by (auto split: sum.splits ctl.splits)
    from invar_step [OF Suc.prems(1) True s'] rest show ?thesis by (rule Suc.IH)
  next
    case False
    with Suc.prems show ?thesis by simp
  qed
qed

end


section \<open>Loops over encoded items\<close>

fun opt_fold :: "('a \<Rightarrow> 'i \<Rightarrow> 'a option) \<Rightarrow> 'a \<Rightarrow> 'i list \<Rightarrow> 'a option" where
  "opt_fold f a [] = Some a"
| "opt_fold f a (i # is) = (case f a i of None \<Rightarrow> None | Some a' \<Rightarrow> opt_fold f a' is)"

lemma opt_fold_append:
  "opt_fold f a (is @ js) = (case opt_fold f a is of None \<Rightarrow> None | Some a' \<Rightarrow> opt_fold f a' js)"
  by (induction "is" arbitrary: a) (auto split: option.splits)

text \<open>
  The contract of a parser loop that takes one encoded item per round: a round on the octets of an item
  simulates the meaning \<open>eff\<close> of the item and goes on behind it, or leaves with a result that
  \<open>refused\<close> describes when the meaning is \<open>None\<close>. The loop then simulates the list of items.
\<close>

locale item_loop_from =
  fixes round :: "int \<times> 's \<Rightarrow> (int \<times> 's, 'r) ctl run"
    and b :: "byte list"
    and e :: int
    and octets :: "'i \<Rightarrow> byte list"
    and item_ok :: "'i \<Rightarrow> bool"
    and eff :: "'a \<Rightarrow> 'i \<Rightarrow> 'a option"
    and rel :: "'s \<Rightarrow> 'a \<Rightarrow> bool"
    and refused :: "'r \<Rightarrow> bool"
    and lo :: int
  assumes octets_nonempty: "item_ok i \<Longrightarrow> octets i \<noteq> []"
    and round_item: "item_ok i \<Longrightarrow> lo \<le> p \<Longrightarrow> bytes_at b p (octets i) \<Longrightarrow> p + int (length (octets i)) \<le> e \<Longrightarrow>
      e < 2 ^ 31 \<Longrightarrow> rel s a \<Longrightarrow>
      (case eff a i of
         Some a' \<Rightarrow> \<exists>s'. round (p, s) = Inr (Continue (p + int (length (octets i)), s')) \<and> rel s' a'
       | None \<Rightarrow> \<exists>r. round (p, s) = Inr (Return r) \<and> refused r)"
begin

lemma loop_items:
  "list_all item_ok is \<Longrightarrow> lo \<le> p \<Longrightarrow> bytes_at b p (concat (map octets is)) \<Longrightarrow>
   e = p + int (length (concat (map octets is))) \<Longrightarrow> e < 2 ^ 31 \<Longrightarrow> rel s a \<Longrightarrow> length is \<le> n \<Longrightarrow>
   (case opt_fold eff a is of
      Some a' \<Rightarrow> \<exists>s'. c_while n (\<lambda>(p, _). p < e) round (p, s) = Inr (Continue (e, s')) \<and> rel s' a'
    | None \<Rightarrow> \<exists>r. c_while n (\<lambda>(p, _). p < e) round (p, s) = Inr (Return r) \<and> refused r)"
proof (induction "is" arbitrary: p s a n)
  case Nil
  then show ?case by (auto simp: c_while_done)
next
  case (Cons i "is")
  let ?q = "p + int (length (octets i))"
  from Cons.prems have i: "item_ok i" "lo \<le> p" "bytes_at b p (octets i)" "?q \<le> e"
    and rest: "list_all item_ok is" "lo \<le> ?q" "bytes_at b ?q (concat (map octets is))"
      "e = ?q + int (length (concat (map octets is)))"
    by (simp_all add: bytes_at_append)
  from octets_nonempty [OF i(1)] have "0 < int (length (octets i))" by simp
  with i(4) have c: "p < e" by linarith
  obtain k where n: "n = Suc k" "length is \<le> k" using Cons.prems(7) by (cases n) auto
  note round = round_item [OF i Cons.prems(5,6)]
  show ?case
  proof (cases "eff a i")
    case None
    with round c show ?thesis by (auto simp: n)
  next
    case (Some a')
    with round obtain s' where s': "round (p, s) = Inr (Continue (?q, s'))" "rel s' a'" by auto
    have "c_while n (\<lambda>(p, _). p < e) round (p, s) = c_while k (\<lambda>(p, _). p < e) round (?q, s')"
      using c s'(1) by (simp add: n(1))
    moreover have "opt_fold eff a (i # is) = opt_fold eff a' is" by (simp add: Some)
    ultimately show ?thesis
      using Cons.IH [OF rest Cons.prems(5) s'(2) n(2)] by (simp only:)
  qed
qed

end

text \<open>Positions that count from the beginning of the buffer.\<close>

locale item_loop = item_loop_from round b e octets item_ok eff rel refused 0
  for round :: "int \<times> 's \<Rightarrow> (int \<times> 's, 'r) ctl run"
    and b :: "byte list"
    and e :: int
    and octets :: "'i \<Rightarrow> byte list"
    and item_ok :: "'i \<Rightarrow> bool"
    and eff :: "'a \<Rightarrow> 'i \<Rightarrow> 'a option"
    and rel :: "'s \<Rightarrow> 'a \<Rightarrow> bool"
    and refused :: "'r \<Rightarrow> bool"
begin

end

end
