(* ===== verification/Linked_List.thy ===== *)
theory Linked_List
  imports Prelude
begin

text \<open>
  The singly linked list of \<open>libiec61850/src/common/linked_list.c\<close> over an explicit store: a
  cell has a data pointer and a next pointer, a list is the address of a header cell whose data
  is unused. The operations read and write cells as the C code does (a \<open>NULL\<close> or dangling
  pointer is \<open>Out_of_bounds\<close>, a loop over a cyclic list runs out of fuel), and the lemmas
  show that on a well-formed list they are the operations on the sequence of its elements.
  Allocation is a counter of addresses that are never reused and never fails.
\<close>

section \<open>Store and cells\<close>

type_synonym addr = nat

record 'd cell =
  c_data :: "'d option"
  c_next :: "addr option"

record 'd heap =
  mem :: "addr \<Rightarrow> 'd cell option"
  brk :: addr

definition deref :: "'d heap \<Rightarrow> addr \<Rightarrow> 'd cell run" where
  "deref h a = (case mem h a of None \<Rightarrow> Inl Out_of_bounds | Some c \<Rightarrow> Inr c)"

definition put_cell :: "'d heap \<Rightarrow> addr \<Rightarrow> 'd cell \<Rightarrow> 'd heap" where
  "put_cell h a c = h\<lparr>mem := (mem h)(a := Some c)\<rparr>"

definition free_cell :: "'d heap \<Rightarrow> addr \<Rightarrow> 'd heap" where
  "free_cell h a = h\<lparr>mem := (mem h)(a := None)\<rparr>"

definition set_next :: "'d heap \<Rightarrow> addr \<Rightarrow> addr option \<Rightarrow> 'd heap run" where
  "set_next h a q = rbind (deref h a) (\<lambda>c. Inr (put_cell h a (c\<lparr>c_next := q\<rparr>)))"


section \<open>Operations\<close>

fun LinkedList_getLastElement :: "nat \<Rightarrow> 'd heap \<Rightarrow> addr \<Rightarrow> addr run" where
  "LinkedList_getLastElement 0 h l = Inl Out_of_fuel"
| "LinkedList_getLastElement (Suc n) h l =
     rbind (deref h l) (\<lambda>c.
       case c_next c of None \<Rightarrow> Inr l | Some q \<Rightarrow> LinkedList_getLastElement n h q)"

definition LinkedList_create :: "'d heap \<Rightarrow> 'd heap \<times> addr" where
  "LinkedList_create h =
     (put_cell (h\<lparr>brk := Suc (brk h)\<rparr>) (brk h) \<lparr>c_data = None, c_next = None\<rparr>, brk h)"

fun LinkedList_destroyDeep :: "nat \<Rightarrow> 'd heap \<Rightarrow> addr \<Rightarrow> ('d heap \<times> 'd list) run" where
  "LinkedList_destroyDeep 0 h l = Inl Out_of_fuel"
| "LinkedList_destroyDeep (Suc n) h l =
     rbind (deref h l) (\<lambda>c.
       let deleted = (case c_data c of None \<Rightarrow> [] | Some d \<Rightarrow> [d]); h' = free_cell h l
       in case c_next c of
            None \<Rightarrow> Inr (h', deleted)
          | Some q \<Rightarrow> rbind (LinkedList_destroyDeep n h' q) (\<lambda>(h'', ds). Inr (h'', deleted @ ds)))"

fun LinkedList_destroyStatic :: "nat \<Rightarrow> 'd heap \<Rightarrow> addr \<Rightarrow> 'd heap run" where
  "LinkedList_destroyStatic 0 h l = Inl Out_of_fuel"
| "LinkedList_destroyStatic (Suc n) h l =
     rbind (deref h l) (\<lambda>c.
       let h' = free_cell h l
       in case c_next c of None \<Rightarrow> Inr h' | Some q \<Rightarrow> LinkedList_destroyStatic n h' q)"

fun LinkedList_size :: "nat \<Rightarrow> 'd heap \<Rightarrow> addr \<Rightarrow> int run" where
  "LinkedList_size 0 h l = Inl Out_of_fuel"
| "LinkedList_size (Suc n) h l =
     rbind (deref h l) (\<lambda>c.
       case c_next c of None \<Rightarrow> Inr 0
       | Some q \<Rightarrow> rbind (LinkedList_size n h q) (\<lambda>k. Inr (k + 1)))"

definition LinkedList_add :: "nat \<Rightarrow> 'd heap \<Rightarrow> addr \<Rightarrow> 'd \<Rightarrow> 'd heap run" where
  "LinkedList_add n h l d =
     (let (h1, new) = LinkedList_create h;
          h2 = put_cell h1 new \<lparr>c_data = Some d, c_next = None\<rparr>
      in rbind (LinkedList_getLastElement n h2 l) (\<lambda>e. set_next h2 e (Some new)))"

fun LinkedList_remove_from :: "nat \<Rightarrow> 'd heap \<Rightarrow> addr \<Rightarrow> addr option \<Rightarrow> 'd \<Rightarrow> ('d heap \<times> bool) run" where
  "LinkedList_remove_from 0 h lastE cur d = Inl Out_of_fuel"
| "LinkedList_remove_from (Suc n) h lastE None d = Inr (h, False)"
| "LinkedList_remove_from (Suc n) h lastE (Some a) d =
     rbind (deref h a) (\<lambda>c.
       if c_data c = Some d
       then rbind (set_next h lastE (c_next c)) (\<lambda>h'. Inr (free_cell h' a, True))
       else LinkedList_remove_from n h a (c_next c) d)"

definition LinkedList_remove :: "nat \<Rightarrow> 'd heap \<Rightarrow> addr \<Rightarrow> 'd \<Rightarrow> ('d heap \<times> bool) run" where
  "LinkedList_remove n h l d = rbind (deref h l) (\<lambda>c. LinkedList_remove_from n h l (c_next c) d)"

definition LinkedList_getNext :: "'d heap \<Rightarrow> addr \<Rightarrow> addr option run" where
  "LinkedList_getNext h l = rbind (deref h l) (\<lambda>c. Inr (c_next c))"

definition LinkedList_insertAfter :: "'d heap \<Rightarrow> addr \<Rightarrow> 'd \<Rightarrow> ('d heap \<times> addr) run" where
  "LinkedList_insertAfter h l d =
     rbind (LinkedList_getNext h l) (\<lambda>orig.
       let (h1, new) = LinkedList_create h;
           h2 = put_cell h1 new \<lparr>c_data = Some d, c_next = orig\<rparr>
       in rbind (set_next h2 l (Some new)) (\<lambda>h3. Inr (h3, new)))"

text \<open>
  \<open>LinkedList_get\<close>: the element is fetched with \<open>getNext\<close> before the test for \<open>NULL\<close>, so the
  walk dereferences \<open>NULL\<close> when the list is empty and the index is positive.
\<close>

fun LinkedList_get_walk :: "'d heap \<Rightarrow> nat \<Rightarrow> addr option \<Rightarrow> addr option run" where
  "LinkedList_get_walk h 0 e = Inr e"
| "LinkedList_get_walk h (Suc k) None = Inl Out_of_bounds"
| "LinkedList_get_walk h (Suc k) (Some a) =
     rbind (LinkedList_getNext h a) (\<lambda>e.
       case e of None \<Rightarrow> Inr None | Some q \<Rightarrow> LinkedList_get_walk h k (Some q))"

definition LinkedList_get :: "'d heap \<Rightarrow> addr \<Rightarrow> int \<Rightarrow> addr option run" where
  "LinkedList_get h l index =
     rbind (LinkedList_getNext h l) (\<lambda>e. LinkedList_get_walk h (nat index) e)"

definition LinkedList_getData :: "'d heap \<Rightarrow> addr \<Rightarrow> 'd option run" where
  "LinkedList_getData h l = rbind (deref h l) (\<lambda>c. Inr (c_data c))"


section \<open>The sequence a list stands for\<close>

fun chain :: "'d heap \<Rightarrow> addr option \<Rightarrow> (addr \<times> 'd) list \<Rightarrow> bool" where
  "chain h p [] = (p = None)"
| "chain h p ((a, d) # ns) =
     (p = Some a \<and> (case mem h a of None \<Rightarrow> False
        | Some c \<Rightarrow> c_data c = Some d \<and> chain h (c_next c) ns))"

definition list_rep :: "'d heap \<Rightarrow> addr \<Rightarrow> (addr \<times> 'd) list \<Rightarrow> bool" where
  "list_rep h l ns =
     (case mem h l of None \<Rightarrow> False
      | Some c \<Rightarrow> chain h (c_next c) ns \<and> distinct (l # map fst ns))"

definition heap_ok :: "'d heap \<Rightarrow> bool" where
  "heap_ok h \<longleftrightarrow> (\<forall>a. a \<ge> brk h \<longrightarrow> mem h a = None)"

text \<open>A store with one list, the header at address 0 and two elements behind it.\<close>

definition demo_heap :: "int heap" where
  "demo_heap = \<lparr>mem = (\<lambda>a. None)(0 := Some \<lparr>c_data = None, c_next = Some 1\<rparr>,
      1 := Some \<lparr>c_data = Some 7, c_next = Some 2\<rparr>, 2 := Some \<lparr>c_data = Some 8, c_next = None\<rparr>), brk = 3\<rparr>"

lemma demo_heap_rep: "heap_ok demo_heap" "list_rep demo_heap 0 [(1, 7), (2, 8)]"
  by (auto simp: heap_ok_def list_rep_def demo_heap_def)

lemma chain_frame:
  "(\<And>a. a \<in> fst ` set ns \<Longrightarrow> mem h' a = mem h a) \<Longrightarrow> chain h' p ns = chain h p ns"
proof (induction ns arbitrary: p)
  case Nil
  then show ?case by simp
next
  case (Cons n ns)
  obtain a d where n: "n = (a, d)" by (cases n)
  with Cons.prems have "mem h' a = mem h a" by simp
  with Cons n show ?case by (auto split: option.splits)
qed

lemma put_cell_put_cell [simp]: "put_cell (put_cell h a c) a c' = put_cell h a c'"
  by (simp add: put_cell_def)

lemma mem_put_cell: "mem (put_cell h a c) b = (if b = a then Some c else mem h b)"
  by (simp add: put_cell_def)

lemma brk_put_cell [simp]: "brk (put_cell h a c) = brk h"
  by (simp add: put_cell_def)

lemma mem_free_cell: "mem (free_cell h a) b = (if b = a then None else mem h b)"
  by (simp add: free_cell_def)


lemma chain_put [simp]: "a \<notin> fst ` set ns \<Longrightarrow> chain (put_cell h a c) p ns = chain h p ns"
  by (rule chain_frame) (auto simp: mem_put_cell)

lemma chain_free [simp]: "a \<notin> fst ` set ns \<Longrightarrow> chain (free_cell h a) p ns = chain h p ns"
  by (rule chain_frame) (auto simp: mem_free_cell)

lemma chain_brk [simp]: "chain (h\<lparr>brk := k\<rparr>) p ns = chain h p ns"
  by (rule chain_frame) simp

lemma chain_mem: "chain h p ns \<Longrightarrow> a \<in> fst ` set ns \<Longrightarrow> mem h a \<noteq> None"
  by (induction h p ns rule: chain.induct) (auto split: option.splits)

lemma list_rep_mem: "list_rep h l ns \<Longrightarrow> a \<in> insert l (fst ` set ns) \<Longrightarrow> mem h a \<noteq> None"
  unfolding list_rep_def by (auto split: option.splits dest: chain_mem)

lemma list_rep_below_brk:
  "heap_ok h \<Longrightarrow> list_rep h l ns \<Longrightarrow> a \<in> insert l (fst ` set ns) \<Longrightarrow> a < brk h"
  using list_rep_mem [of h l ns a] unfolding heap_ok_def by (meson not_le)

lemma chain_split: "chain h p (ms @ ns) \<Longrightarrow> \<exists>q. chain h q ns"
  by (induction h p ms rule: chain.induct) (auto split: option.splits)

text \<open>Walking to the last cell.\<close>

fun last_addr :: "addr \<Rightarrow> (addr \<times> 'd) list \<Rightarrow> addr" where
  "last_addr l [] = l"
| "last_addr l ((a, d) # ns) = last_addr a ns"

lemma last_addr_in: "last_addr l ns \<in> insert l (fst ` set ns)"
  by (induction l ns rule: last_addr.induct) auto

lemma getLastElement_chain:
  "mem h l = Some c \<Longrightarrow> chain h (c_next c) ns \<Longrightarrow> length ns < n
   \<Longrightarrow> LinkedList_getLastElement n h l = Inr (last_addr l ns)"
proof (induction ns arbitrary: n l c)
  case Nil
  then show ?case by (cases n) (auto simp: deref_def)
next
  case (Cons m ns)
  obtain a d where m: "m = (a, d)" by (cases m)
  from Cons.prems m obtain c' where c': "mem h a = Some c'" "chain h (c_next c') ns" "c_next c = Some a"
    by (auto split: option.splits)
  from Cons.prems(3) obtain k where n: "n = Suc k" by (cases n) auto
  with Cons c' m show ?case by (simp add: deref_def)
qed

text \<open>Linking a new cell behind the last one appends.\<close>

lemma chain_append:
  assumes "mem h l = Some c" and "chain h (c_next c) ns" and "distinct (l # map fst ns)"
    and "e = last_addr l ns" and "new \<notin> insert l (fst ` set ns)"
    and "mem h new = Some \<lparr>c_data = Some d, c_next = None\<rparr>" and "mem h e = Some ce"
  shows "\<exists>c'. mem (put_cell h e (ce\<lparr>c_next := Some new\<rparr>)) l = Some c' \<and>
              chain (put_cell h e (ce\<lparr>c_next := Some new\<rparr>)) (c_next c') (ns @ [(new, d)])"
  using assms
proof (induction ns arbitrary: l c)
  case Nil
  then show ?case by (auto simp: put_cell_def)
next
  case (Cons m ns)
  obtain a da where m: "m = (a, da)" by (cases m)
  let ?h = "put_cell h e (ce\<lparr>c_next := Some new\<rparr>)"
  from Cons.prems m obtain c1 where c1: "mem h a = Some c1" "c_data c1 = Some da"
      "chain h (c_next c1) ns" "c_next c = Some a"
    by (auto split: option.splits)
  have e: "e = last_addr a ns" using Cons.prems m by simp
  from Cons.IH [OF c1(1,3)] Cons.prems m e
  obtain c2 where c2: "mem ?h a = Some c2" "chain ?h (c_next c2) (ns @ [(new, d)])"
    by auto
  have "e \<noteq> l"
  proof
    assume "e = l"
    with e last_addr_in [of a ns] have "l \<in> insert a (fst ` set ns)" by simp
    with Cons.prems(3) m show False by auto
  qed
  then have "mem ?h l = Some c" using Cons.prems(1) by (simp add: put_cell_def)
  moreover have "c_data c2 = Some da"
    using c2(1) c1 Cons.prems(7) by (auto simp: put_cell_def split: if_splits)
  ultimately show ?case using c1(4) c2 m by simp
qed

lemma distinct_new: "list_rep h l ns \<Longrightarrow> new \<notin> insert l (fst ` set ns)
  \<Longrightarrow> distinct (l # map fst (ns @ [(new, d)]))"
  unfolding list_rep_def by (auto split: option.splits)

lemma heap_ok_put: "heap_ok h \<Longrightarrow> a < brk h \<Longrightarrow> heap_ok (put_cell h a c)"
  by (auto simp: heap_ok_def put_cell_def)

lemma heap_ok_new: "heap_ok h \<Longrightarrow> heap_ok (put_cell (h\<lparr>brk := Suc (brk h)\<rparr>) (brk h) c)"
  by (auto simp: heap_ok_def put_cell_def)

section \<open>Refinement of the operations\<close>

lemma getLastElement_rep:
  "list_rep h l ns \<Longrightarrow> length ns < n \<Longrightarrow> LinkedList_getLastElement n h l = Inr (last_addr l ns)"
  unfolding list_rep_def by (auto split: option.splits intro: getLastElement_chain)

text \<open>
  \<open>LinkedList_add\<close> appends: on a well-formed list the new element is the last one, every
  cell of the list keeps its address, and the store stays well formed.
\<close>

theorem LinkedList_add_appends:
  assumes ok: "heap_ok h" and rep: "list_rep h l ns" and fuel: "length ns < n"
  shows "\<exists>h'. LinkedList_add n h l d = Inr h' \<and> heap_ok h' \<and> list_rep h' l (ns @ [(brk h, d)])"
proof -
  let ?h = "put_cell (h\<lparr>brk := Suc (brk h)\<rparr>) (brk h) \<lparr>c_data = Some d, c_next = None\<rparr>"
  from rep obtain c where c: "mem h l = Some c" "chain h (c_next c) ns" "distinct (l # map fst ns)"
    unfolding list_rep_def by (auto split: option.splits)
  have new: "brk h \<notin> insert l (fst ` set ns)"
    using list_rep_below_brk [OF ok rep] by blast
  have memnew: "mem ?h (brk h) = Some \<lparr>c_data = Some d, c_next = None\<rparr>"
    by (simp add: mem_put_cell)
  have c': "mem ?h l = Some c" using c(1) new by (auto simp: mem_put_cell)
  have chain': "chain ?h (c_next c) ns" using c(2) new by simp
  have last: "LinkedList_getLastElement n ?h l = Inr (last_addr l ns)"
    using c' chain' fuel by (rule getLastElement_chain)
  have lin: "last_addr l ns \<in> insert l (fst ` set ns)" by (rule last_addr_in)
  obtain ce where ce: "mem ?h (last_addr l ns) = Some ce"
  proof -
    have "mem h (last_addr l ns) \<noteq> None" by (rule list_rep_mem [OF rep lin])
    then have "mem ?h (last_addr l ns) \<noteq> None" by (simp add: mem_put_cell)
    then show ?thesis using that by blast
  qed
  let ?h' = "put_cell ?h (last_addr l ns) (ce\<lparr>c_next := Some (brk h)\<rparr>)"
  have add: "LinkedList_add n h l d = Inr ?h'"
    using last ce by (simp add: LinkedList_add_def LinkedList_create_def set_next_def deref_def)
  have "list_rep ?h' l (ns @ [(brk h, d)])"
  proof -
    from chain_append [OF c' chain' c(3) refl new memnew ce] obtain c2
      where "mem ?h' l = Some c2" "chain ?h' (c_next c2) (ns @ [(brk h, d)])" by blast
    then show ?thesis
      using distinct_new [OF rep new, of d] unfolding list_rep_def by simp
  qed
  moreover have "heap_ok ?h'"
  proof (rule heap_ok_put)
    show "heap_ok ?h" by (rule heap_ok_new [OF ok])
    show "last_addr l ns < brk ?h" using list_rep_below_brk [OF ok rep lin] by simp
  qed
  ultimately show ?thesis using add by blast
qed

theorem LinkedList_add_appends_witness:
  "\<exists>h'. LinkedList_add 3 demo_heap 0 9 = Inr h' \<and> heap_ok h' \<and> list_rep h' 0 [(1, 7), (2, 8), (3, 9)]"
  using LinkedList_add_appends [OF demo_heap_rep, of 3 9] by (simp add: demo_heap_def)

lemma size_chain:
  "mem h l = Some c \<Longrightarrow> chain h (c_next c) ns \<Longrightarrow> length ns < n
   \<Longrightarrow> LinkedList_size n h l = Inr (int (length ns))"
proof (induction ns arbitrary: n l c)
  case Nil
  then show ?case by (cases n) (auto simp: deref_def)
next
  case (Cons m ns)
  obtain a d where m: "m = (a, d)" by (cases m)
  from Cons.prems m obtain c' where c': "mem h a = Some c'" "chain h (c_next c') ns" "c_next c = Some a"
    by (auto split: option.splits)
  from Cons.prems(3) obtain k where n: "n = Suc k" by (cases n) auto
  with Cons c' m show ?case by (simp add: deref_def)
qed

lemma LinkedList_size_rep:
  "list_rep h l ns \<Longrightarrow> length ns < n \<Longrightarrow> LinkedList_size n h l = Inr (int (length ns))"
  unfolding list_rep_def by (auto split: option.splits intro: size_chain)


text \<open>Removing the first cell whose data pointer is \<open>d\<close>.\<close>

fun remove_first :: "'d \<Rightarrow> (addr \<times> 'd) list \<Rightarrow> (addr \<times> 'd) list" where
  "remove_first d [] = []"
| "remove_first d ((a, x) # ns) = (if x = d then ns else (a, x) # remove_first d ns)"

lemma remove_first_subset: "set (remove_first d ns) \<subseteq> set ns"
  by (induction d ns rule: remove_first.induct) auto

lemma remove_first_distinct:
  "distinct (l # map fst ns) \<Longrightarrow> distinct (l # map fst (remove_first d ns))"
proof (induction d ns rule: remove_first.induct)
  case (2 d a x ns)
  then show ?case using remove_first_subset [of d ns] by (auto simp: image_iff)
qed simp

lemma remove_from_chain:
  assumes "mem h l = Some c" and "chain h (c_next c) ns" and "distinct (l # map fst ns)"
    and "length ns < n"
  shows "\<exists>h' c'. LinkedList_remove_from n h l (c_next c) d = Inr (h', d \<in> snd ` set ns)
           \<and> mem h' l = Some c' \<and> c_data c' = c_data c \<and> chain h' (c_next c') (remove_first d ns)
           \<and> (\<forall>a. a \<notin> insert l (fst ` set ns) \<longrightarrow> mem h' a = mem h a)"
  using assms
proof (induction ns arbitrary: n l c)
  case Nil
  then show ?case by (cases n) auto
next
  case (Cons m ns)
  obtain a x where m: "m = (a, x)" by (cases m)
  from Cons.prems m obtain c1 where c1: "mem h a = Some c1" "c_data c1 = Some x"
      "chain h (c_next c1) ns" "c_next c = Some a"
    by (auto split: option.splits)
  from Cons.prems(4) obtain k where n: "n = Suc k" "length ns < k" by (cases n) auto
  show ?case
  proof (cases "x = d")
    case True
    let ?h = "free_cell (put_cell h l (c\<lparr>c_next := c_next c1\<rparr>)) a"
    have "LinkedList_remove_from n h l (c_next c) d = Inr (?h, True)"
      using True c1 n Cons.prems(1) by (simp add: deref_def set_next_def)
    moreover have "mem ?h l = Some (c\<lparr>c_next := c_next c1\<rparr>)"
      using Cons.prems(3) m by (simp add: mem_free_cell mem_put_cell)
    moreover have "chain ?h (c_next c1) ns"
      using c1(3) Cons.prems(3) m by simp
    ultimately show ?thesis using True m by (auto simp: mem_free_cell mem_put_cell)
  next
    case False
    from Cons.prems(3) m have dist: "distinct (a # map fst ns)" by simp
    from Cons.IH [OF c1(1,3) dist n(2)] obtain h' c' where IH:
      "LinkedList_remove_from k h a (c_next c1) d = Inr (h', d \<in> snd ` set ns)"
      "mem h' a = Some c'" "c_data c' = c_data c1" "chain h' (c_next c') (remove_first d ns)"
      "\<forall>b. b \<notin> insert a (fst ` set ns) \<longrightarrow> mem h' b = mem h b" by blast
    have "LinkedList_remove_from n h l (c_next c) d = Inr (h', d \<in> snd ` set (m # ns))"
      using False c1 n IH(1) m by (auto simp: deref_def)
    moreover have "mem h' l = Some c" using IH(5) Cons.prems(1,3) m by auto
    ultimately show ?thesis using False IH c1 m by auto
  qed
qed

text \<open>
  \<open>LinkedList_remove\<close> reports whether the element occurs and unlinks its first occurrence
  only; the rest of the list keeps its order and its cells.
\<close>

theorem LinkedList_remove_first:
  assumes rep: "list_rep h l ns" and fuel: "length ns < n"
  shows "\<exists>h'. LinkedList_remove n h l d = Inr (h', d \<in> snd ` set ns)
              \<and> list_rep h' l (remove_first d ns)"
proof -
  from rep obtain c where c: "mem h l = Some c" "chain h (c_next c) ns" "distinct (l # map fst ns)"
    unfolding list_rep_def by (auto split: option.splits)
  from remove_from_chain [OF c fuel, of d] obtain h' c' where
    r: "LinkedList_remove_from n h l (c_next c) d = Inr (h', d \<in> snd ` set ns)"
       "mem h' l = Some c'" "chain h' (c_next c') (remove_first d ns)" by blast
  have "distinct (l # map fst (remove_first d ns))"
    using c(3) by (rule remove_first_distinct)
  then have "list_rep h' l (remove_first d ns)" using r by (simp add: list_rep_def)
  then show ?thesis using r c by (simp add: LinkedList_remove_def deref_def)
qed

theorem LinkedList_remove_first_witness:
  "\<exists>h'. LinkedList_remove 3 demo_heap 0 8 = Inr (h', True) \<and> list_rep h' 0 [(1, 7)]"
  using LinkedList_remove_first [OF demo_heap_rep(2), of 3 8] by simp

text \<open>The two destructors visit every cell once and free it.\<close>

lemma destroyDeep_chain:
  "mem h l = Some c \<Longrightarrow> chain h (c_next c) ns \<Longrightarrow> distinct (l # map fst ns) \<Longrightarrow> length ns < n
   \<Longrightarrow> \<exists>h'. LinkedList_destroyDeep n h l
             = Inr (h', (case c_data c of None \<Rightarrow> [] | Some d \<Rightarrow> [d]) @ map snd ns)
        \<and> (\<forall>a. mem h' a = (if a \<in> insert l (fst ` set ns) then None else mem h a))"
proof (induction ns arbitrary: n l c h)
  case Nil
  then show ?case by (cases n) (auto simp: deref_def mem_free_cell)
next
  case (Cons m ns)
  obtain a x where m: "m = (a, x)" by (cases m)
  from Cons.prems m obtain c1 where c1: "mem h a = Some c1" "c_data c1 = Some x"
      "chain h (c_next c1) ns" "c_next c = Some a"
    by (auto split: option.splits)
  from Cons.prems(4) obtain k where n: "n = Suc k" "length ns < k" by (cases n) auto
  have m1: "mem (free_cell h l) a = Some c1" using c1 Cons.prems(3) m by (auto simp: mem_free_cell)
  have "chain (free_cell h l) (c_next c1) ns"
    using c1(3) Cons.prems(3) m by simp
  from Cons.IH [OF m1 this _ n(2)] Cons.prems(3) m c1 obtain h' where
    "LinkedList_destroyDeep k (free_cell h l) a = Inr (h', x # map snd ns)"
    "\<forall>b. mem h' b = (if b \<in> insert a (fst ` set ns) then None else mem (free_cell h l) b)" by auto
  then show ?case using n c1 Cons.prems(1) m by (auto simp: deref_def mem_free_cell Let_def)
qed

lemma destroyStatic_same_store:
  "LinkedList_destroyDeep n h l = Inr (h', ds) \<Longrightarrow> LinkedList_destroyStatic n h l = Inr h'"
proof (induction n arbitrary: h l h' ds)
  case (Suc n)
  then show ?case
    by (cases "deref h l") (auto simp: rbind_Inr_iff Let_def split: option.splits)
qed simp

text \<open>
  C40: \<open>LinkedList_destroyDeep\<close> frees the header and every cell exactly once, leaves every other
  cell of the store alone and calls the delete function on the elements in list order; with
  \<open>LinkedList_destroyStatic\<close> the store ends up the same.
\<close>

theorem LinkedList_destroy_frees_all:
  assumes rep: "list_rep h l ns" and hdr: "LinkedList_getData h l = Inr None"
    and fuel: "length ns < n"
  shows "\<exists>h'. LinkedList_destroyDeep n h l = Inr (h', map snd ns)
              \<and> LinkedList_destroyStatic n h l = Inr h'
              \<and> (\<forall>a. mem h' a = (if a \<in> insert l (fst ` set ns) then None else mem h a))"
proof -
  from rep obtain c where c: "mem h l = Some c" "chain h (c_next c) ns" "distinct (l # map fst ns)"
    unfolding list_rep_def by (auto split: option.splits)
  from hdr c have "c_data c = None" by (simp add: LinkedList_getData_def deref_def)
  with destroyDeep_chain [OF c fuel] show ?thesis by (auto dest: destroyStatic_same_store)
qed

theorem LinkedList_destroy_frees_all_witness:
  "\<exists>h'. LinkedList_destroyDeep 3 demo_heap 0 = Inr (h', [7, 8])
      \<and> LinkedList_destroyStatic 3 demo_heap 0 = Inr h' \<and> (\<forall>a. mem h' a = None)"
  using LinkedList_destroy_frees_all [OF demo_heap_rep(2), of 3]
  by (auto simp: demo_heap_def LinkedList_getData_def deref_def)

lemma get_walk_chain:
  "chain h p ns \<Longrightarrow> k < length ns \<Longrightarrow> LinkedList_get_walk h k p = Inr (Some (fst (ns ! k)))"
proof (induction ns arbitrary: p k)
  case Nil
  then show ?case by simp
next
  case (Cons m ns)
  obtain a x where m: "m = (a, x)" by (cases m)
  from Cons.prems m obtain c1 where c1: "mem h a = Some c1" "chain h (c_next c1) ns" "p = Some a"
    by (auto split: option.splits)
  show ?case
  proof (cases k)
    case 0
    then show ?thesis using c1 m by simp
  next
    case (Suc j)
    with Cons.IH [OF c1(2), of j] Cons.prems(2) have
      IH: "LinkedList_get_walk h j (c_next c1) = Inr (Some (fst (ns ! j)))" by simp
    obtain q where "c_next c1 = Some q"
      using c1(2) Suc Cons.prems(2) by (cases ns) auto
    with Suc c1 IH show ?thesis by (simp add: LinkedList_getNext_def deref_def)
  qed
qed

lemma LinkedList_get_rep:
  "list_rep h l ns \<Longrightarrow> 0 \<le> i \<Longrightarrow> i < int (length ns)
   \<Longrightarrow> LinkedList_get h l i = Inr (Some (fst (ns ! nat i)))"
  unfolding list_rep_def LinkedList_get_def LinkedList_getNext_def
  by (auto split: option.splits simp: deref_def intro!: get_walk_chain)

lemma LinkedList_get_empty_faults:
  "list_rep h l [] \<Longrightarrow> 0 < i \<Longrightarrow> LinkedList_get h l i = Inl Out_of_bounds"
  unfolding list_rep_def LinkedList_get_def LinkedList_getNext_def
  by (cases "nat i") (auto split: option.splits simp: deref_def)

end
