(* ===== verification/Byte_Buffer.thy ===== *)
theory Byte_Buffer
  imports Prelude
begin

text \<open>
  Byte buffers (\<open>libiec61850/src/common/byte_buffer.c\<close>) and chains of buffer parts
  (\<open>buffer_chain.c\<close>), the two containers in which the protocol layers hand messages up and
  down, and the interface \<open>payload_sink\<close> of a bounded buffer that only grows at its end.
\<close>

section \<open>Byte buffers\<close>

record ByteBuffer =
  buffer :: "byte list"
  bsize :: int
  maxSize :: int

text \<open>
  \<open>memcpy(dst + pos, src, n)\<close>: both areas have to lie in their buffers, and a negative count is
  a huge \<open>size_t\<close>.
\<close>

definition memcpy_to :: "byte list \<Rightarrow> int \<Rightarrow> byte list \<Rightarrow> int \<Rightarrow> byte list run" where
  "memcpy_to dst pos src n =
     (if n < 0 \<or> pos < 0 \<or> int (length src) < n \<or> int (length dst) < pos + n
      then Inl Out_of_bounds
      else Inr (take (nat pos) dst @ take (nat n) src @ drop (nat (pos + n)) dst))"

definition ByteBuffer_create :: "int \<Rightarrow> ByteBuffer" where
  "ByteBuffer_create n = \<lparr>buffer = replicate (nat n) 0, bsize = 0, maxSize = n\<rparr>"

definition ByteBuffer_wrap :: "ByteBuffer \<Rightarrow> byte list \<Rightarrow> int \<Rightarrow> int \<Rightarrow> ByteBuffer" where
  "ByteBuffer_wrap self buf sz mx = self\<lparr>buffer := buf, bsize := sz, maxSize := mx\<rparr>"

definition ByteBuffer_append :: "ByteBuffer \<Rightarrow> byte list \<Rightarrow> int \<Rightarrow> (ByteBuffer \<times> int) run" where
  "ByteBuffer_append self d dataSize =
     (if bsize self + dataSize \<le> maxSize self
      then rbind (memcpy_to (buffer self) (bsize self) d dataSize) (\<lambda>b.
             Inr (self\<lparr>buffer := b, bsize := bsize self + dataSize\<rparr>, dataSize))
      else Inr (self, -1))"

definition ByteBuffer_appendByte :: "ByteBuffer \<Rightarrow> byte \<Rightarrow> (ByteBuffer \<times> int) run" where
  "ByteBuffer_appendByte self x =
     (if bsize self < maxSize self
      then rbind (memcpy_to (buffer self) (bsize self) [x] 1) (\<lambda>b.
             Inr (self\<lparr>buffer := b, bsize := bsize self + 1\<rparr>, 1))
      else Inr (self, 0))"

definition ByteBuffer_getBuffer :: "ByteBuffer \<Rightarrow> byte list" where
  "ByteBuffer_getBuffer self = buffer self"

definition ByteBuffer_getMaxSize :: "ByteBuffer \<Rightarrow> int" where
  "ByteBuffer_getMaxSize self = maxSize self"

definition ByteBuffer_getSize :: "ByteBuffer \<Rightarrow> int" where
  "ByteBuffer_getSize self = bsize self"

definition ByteBuffer_setSize :: "ByteBuffer \<Rightarrow> int \<Rightarrow> ByteBuffer \<times> int" where
  "ByteBuffer_setSize self sz =
     (let self' = (if sz \<le> maxSize self then self\<lparr>bsize := sz\<rparr> else self) in (self', bsize self'))"

definition buffer_ok :: "ByteBuffer \<Rightarrow> bool" where
  "buffer_ok b \<longleftrightarrow> 0 \<le> bsize b \<and> bsize b \<le> maxSize b \<and> int (length (buffer b)) = maxSize b"

definition contents :: "ByteBuffer \<Rightarrow> byte list" where
  "contents b = take (nat (bsize b)) (buffer b)"

lemma length_contents: "buffer_ok b \<Longrightarrow> int (length (contents b)) = bsize b"
  by (auto simp: buffer_ok_def contents_def min_def)

lemma buffer_ok_create: "0 \<le> n \<Longrightarrow> buffer_ok (ByteBuffer_create n)"
  by (simp add: buffer_ok_def ByteBuffer_create_def)

lemma memcpy_to_end:
  assumes "buffer_ok b" and "bsize b + int (length xs) \<le> maxSize b"
  shows "memcpy_to (buffer b) (bsize b) xs (int (length xs))
         = Inr (contents b @ xs @ drop (nat (bsize b) + length xs) (buffer b))"
  using assms by (simp add: memcpy_to_def buffer_ok_def contents_def nat_add_distrib)

lemma grown_buffer:
  assumes "buffer_ok b" and "bsize b + int (length xs) \<le> maxSize b"
  defines "b' \<equiv> b\<lparr>buffer := contents b @ xs @ drop (nat (bsize b) + length xs) (buffer b),
                   bsize := bsize b + int (length xs)\<rparr>"
  shows "buffer_ok b' \<and> contents b' = contents b @ xs \<and> maxSize b' = maxSize b"
proof -
  have l: "int (length (contents b)) = bsize b" using assms(1) by (rule length_contents)
  have "nat (bsize b + int (length xs)) = length (contents b @ xs)" using l by simp
  then have "contents b' = contents b @ xs" by (simp add: b'_def contents_def)
  moreover have "buffer_ok b'"
    using assms(1,2) l by (auto simp: b'_def buffer_ok_def)
  ultimately show ?thesis by (simp add: b'_def)
qed

text \<open>
  The interface of a bounded buffer that is filled at its end: a chunk that fits is appended, a
  chunk that does not fit changes nothing and is reported.
\<close>

locale payload_sink =
  fixes sink_ok :: "'b \<Rightarrow> bool"
    and sink_bytes :: "'b \<Rightarrow> byte list"
    and sink_cap :: "'b \<Rightarrow> int"
    and sink_put :: "'b \<Rightarrow> byte list \<Rightarrow> ('b \<times> bool) run"
  assumes put_fits: "sink_ok b \<Longrightarrow> int (length (sink_bytes b) + length xs) \<le> sink_cap b \<Longrightarrow>
      \<exists>b'. sink_put b xs = Inr (b', True) \<and> sink_ok b' \<and> sink_bytes b' = sink_bytes b @ xs
         \<and> sink_cap b' = sink_cap b"
    and put_full: "sink_ok b \<Longrightarrow> sink_cap b < int (length (sink_bytes b) + length xs) \<Longrightarrow>
      sink_put b xs = Inr (b, False)"
    and put_cap: "sink_ok b \<Longrightarrow> int (length (sink_bytes b)) \<le> sink_cap b"
begin

fun put_all :: "'b \<Rightarrow> byte list list \<Rightarrow> ('b \<times> bool) run" where
  "put_all b [] = Inr (b, True)"
| "put_all b (xs # xss) =
     rbind (sink_put b xs) (\<lambda>(b', ok). if ok then put_all b' xss else Inr (b', False))"

lemma put_total: "sink_ok b \<Longrightarrow> \<exists>b' r. sink_put b xs = Inr (b', r) \<and> sink_ok b'"
  using put_fits [of b xs] put_full [of b xs]
  by (cases "int (length (sink_bytes b) + length xs) \<le> sink_cap b") auto

lemma put_all_concat:
  "sink_ok b \<Longrightarrow> int (length (sink_bytes b) + length (concat xss)) \<le> sink_cap b \<Longrightarrow>
   \<exists>b'. put_all b xss = Inr (b', True) \<and> sink_ok b' \<and> sink_bytes b' = sink_bytes b @ concat xss
      \<and> sink_cap b' = sink_cap b"
proof (induction xss arbitrary: b)
  case Nil
  then show ?case by simp
next
  case (Cons xs xss)
  from Cons.prems have "int (length (sink_bytes b) + length xs) \<le> sink_cap b" by simp
  from put_fits [OF Cons.prems(1) this] obtain b1 where b1: "sink_put b xs = Inr (b1, True)"
    "sink_ok b1" "sink_bytes b1 = sink_bytes b @ xs" "sink_cap b1 = sink_cap b" by blast
  with Cons.IH [OF b1(2)] Cons.prems(2) show ?case by (auto simp: add.assoc)
qed

lemma put_all_within:
  "sink_ok b \<Longrightarrow> put_all b xss = Inr (b', r) \<Longrightarrow> sink_ok b' \<and> int (length (sink_bytes b')) \<le> sink_cap b'"
proof (induction xss arbitrary: b)
  case Nil
  then show ?case using put_cap by auto
next
  case (Cons xs xss)
  from put_total [OF Cons.prems(1), of xs] obtain b1 s where
    b1: "sink_put b xs = Inr (b1, s)" "sink_ok b1" by blast
  with Cons show ?case using put_cap [of b1] by (cases s) auto
qed

end

definition append_bool :: "ByteBuffer \<Rightarrow> byte list \<Rightarrow> (ByteBuffer \<times> bool) run" where
  "append_bool b xs = rbind (ByteBuffer_append b xs (int (length xs))) (\<lambda>(b', n). Inr (b', n \<noteq> -1))"

interpretation bb: payload_sink buffer_ok contents maxSize append_bool
proof unfold_locales
  fix b :: ByteBuffer and xs :: "byte list"
  assume ok: "buffer_ok b" and fits: "int (length (contents b) + length xs) \<le> maxSize b"
  then have "bsize b + int (length xs) \<le> maxSize b" using length_contents by simp
  with ok grown_buffer [OF ok this] memcpy_to_end [OF ok this]
  show "\<exists>b'. append_bool b xs = Inr (b', True) \<and> buffer_ok b' \<and> contents b' = contents b @ xs
         \<and> maxSize b' = maxSize b"
    by (simp add: append_bool_def ByteBuffer_append_def)
next
  fix b :: ByteBuffer and xs :: "byte list"
  assume ok: "buffer_ok b" and "maxSize b < int (length (contents b) + length xs)"
  then show "append_bool b xs = Inr (b, False)"
    using length_contents [OF ok] by (simp add: append_bool_def ByteBuffer_append_def)
next
  fix b :: ByteBuffer
  assume "buffer_ok b"
  then show "int (length (contents b)) \<le> maxSize b"
    using length_contents [of b] by (simp add: buffer_ok_def)
qed

text \<open>
  \<open>ByteBuffer_append\<close> never writes past the buffer: on a well-formed buffer it either
  appends all the bytes and returns their number, or changes nothing and returns -1, exactly
  when they do not fit.
\<close>

theorem ByteBuffer_append_bounded:
  assumes "buffer_ok b"
  shows "if bsize b + int (length xs) \<le> maxSize b
         then \<exists>b'. ByteBuffer_append b xs (int (length xs)) = Inr (b', int (length xs))
                 \<and> buffer_ok b' \<and> contents b' = contents b @ xs \<and> maxSize b' = maxSize b
         else ByteBuffer_append b xs (int (length xs)) = Inr (b, -1)"
  using grown_buffer [OF assms, of xs] memcpy_to_end [OF assms, of xs]
  by (simp add: ByteBuffer_append_def)

theorem ByteBuffer_append_bounded_witness:
  "ByteBuffer_append (ByteBuffer_create 2) [7, 8, 9] 3 = Inr (ByteBuffer_create 2, -1)"
  using ByteBuffer_append_bounded [OF buffer_ok_create [of 2], of "[7, 8, 9]"]
  by (simp add: ByteBuffer_create_def)

lemma ByteBuffer_appendByte_ok:
  assumes "buffer_ok b" and "bsize b < maxSize b"
  shows "\<exists>b'. ByteBuffer_appendByte b x = Inr (b', 1) \<and> buffer_ok b' \<and> contents b' = contents b @ [x]"
  using grown_buffer [OF assms(1), of "[x]"] memcpy_to_end [OF assms(1), of "[x]"] assms(2)
  by (simp add: ByteBuffer_appendByte_def)

lemma ByteBuffer_setSize_ok:
  "buffer_ok b \<Longrightarrow> 0 \<le> n \<Longrightarrow> buffer_ok (fst (ByteBuffer_setSize b n))"
  by (simp add: ByteBuffer_setSize_def buffer_ok_def)


section \<open>Chains of buffer parts\<close>

datatype BufferChain = BufferChain
  (chain_length: int) (partLength: int) (partMaxLength: int)
  (nextPart: "BufferChain option") (chain_buffer: "byte list")

definition BufferChain_init :: "int \<Rightarrow> int \<Rightarrow> BufferChain option \<Rightarrow> byte list \<Rightarrow> BufferChain" where
  "BufferChain_init len partLen nxt buf = BufferChain len partLen partLen nxt buf"

text \<open>The bytes a chain stands for, and the chains whose length fields are right.\<close>

fun chain_bytes :: "BufferChain \<Rightarrow> byte list" where
  "chain_bytes (BufferChain l p m None b) = take (nat p) b"
| "chain_bytes (BufferChain l p m (Some nx) b) = take (nat p) b @ chain_bytes nx"

fun chain_ok :: "BufferChain \<Rightarrow> bool" where
  "chain_ok (BufferChain l p m None b) \<longleftrightarrow> 0 \<le> p \<and> p \<le> int (length b) \<and> l = p"
| "chain_ok (BufferChain l p m (Some nx) b) \<longleftrightarrow>
     0 \<le> p \<and> p \<le> int (length b) \<and> l = p + chain_length nx \<and> chain_ok nx"

lemma chain_length_bytes: "chain_ok c \<Longrightarrow> int (length (chain_bytes c)) = chain_length c"
  by (induction c rule: chain_bytes.induct) auto

lemma chain_length_nonneg: "chain_ok c \<Longrightarrow> 0 \<le> chain_length c"
  using chain_length_bytes [of c] by linarith

text \<open>
  \<open>BufferChain_dumpToBuffer\<close>: the inner loop reads \<open>self->partLength\<close> and \<open>self->buffer\<close>, while
  the outer loop walks with \<open>currentChain\<close>.
\<close>

fun dump_parts :: "BufferChain \<Rightarrow> BufferChain option \<Rightarrow> byte list \<Rightarrow> int \<Rightarrow> (byte list \<times> int) run" where
  "dump_parts self None dst i = Inr (dst, i)"
| "dump_parts self (Some (BufferChain l p m nx b)) dst i =
     rbind (memcpy_to dst i (chain_buffer self) (max 0 (partLength self))) (\<lambda>dst'.
       dump_parts self nx dst' (i + max 0 (partLength self)))"

definition BufferChain_dumpToBuffer :: "BufferChain \<Rightarrow> byte list \<Rightarrow> int \<Rightarrow> (byte list \<times> int) run" where
  "BufferChain_dumpToBuffer self dst bufferMaxSize =
     (if bufferMaxSize < chain_length self then Inr (dst, 0)
      else dump_parts self (Some self) dst 0)"

fun parts :: "BufferChain option \<Rightarrow> nat" where
  "parts None = 0"
| "parts (Some (BufferChain l p m nx b)) = Suc (parts nx)"

lemma dump_parts_repeats:
  "0 \<le> partLength self \<Longrightarrow> partLength self \<le> int (length (chain_buffer self)) \<Longrightarrow> 0 \<le> i \<Longrightarrow> i + int (parts c) * partLength self \<le> int (length dst) \<Longrightarrow>
   \<exists>dst'. dump_parts self c dst i = Inr (dst', i + int (parts c) * partLength self)
      \<and> take (nat (i + int (parts c) * partLength self)) dst'
        = take (nat i) dst @ concat (replicate (parts c) (take (nat (partLength self)) (chain_buffer self)))
      \<and> length dst' = length dst"
proof (induction self c dst i rule: dump_parts.induct)
  case (1 self dst i)
  then show ?case by simp
next
  case (2 self l p m nx b dst i)
  note assms = 2(2,3)
  let ?p = "partLength self" and ?x = "take (nat (partLength self)) (chain_buffer self)"
  let ?dst = "take (nat i) dst @ ?x @ drop (nat (i + ?p)) dst"
  have "nat ?p \<le> length (chain_buffer self)" using assms by (simp add: nat_le_iff)
  then have lenx: "length ?x = nat ?p" by simp
  have nonneg: "0 \<le> int (parts nx) * ?p" using assms by simp
  have bound: "i + ?p + int (parts nx) * ?p \<le> int (length dst)"
    using 2(5) by (simp add: algebra_simps)
  with nonneg have ip: "i + ?p \<le> int (length dst)" by linarith
  have cpy: "memcpy_to dst i (chain_buffer self) (max 0 ?p) = Inr ?dst"
    using assms 2(4) ip by (simp add: memcpy_to_def)
  have len: "length ?dst = length dst"
    using ip lenx 2(4) assms by (simp add: nat_add_distrib)
  have take: "take (nat (i + ?p)) ?dst = take (nat i) dst @ ?x"
    using ip lenx 2(4) assms by (simp add: nat_add_distrib)
  have m: "max 0 ?p = ?p" using assms by simp
  have nn: "0 \<le> i + ?p" using assms 2(4) by simp
  from 2(1) [of ?dst, unfolded m len take, OF assms nn bound] obtain dst' where
    "dump_parts self nx ?dst (i + ?p) = Inr (dst', i + ?p + int (parts nx) * ?p)"
    "take (nat (i + ?p + int (parts nx) * ?p)) dst'
      = (take (nat i) dst @ ?x) @ concat (replicate (parts nx) ?x)"
    "length dst' = length dst" by blast
  with cpy show ?case by (simp add: m algebra_simps)
qed

text \<open>
  What \<open>BufferChain_dumpToBuffer\<close> writes when it has room: the FIRST part once per part of
  the chain. For a chain of one part these are the bytes of the chain; for a longer chain the
  later parts never reach the buffer.
\<close>

theorem BufferChain_dumpToBuffer_first_part:
  assumes "chain_ok c" and "chain_length c \<le> mx"
    and "int (parts (Some c)) * partLength c \<le> int (length dst)"
  shows "\<exists>dst'. BufferChain_dumpToBuffer c dst mx = Inr (dst', int (parts (Some c)) * partLength c)
      \<and> take (nat (int (parts (Some c)) * partLength c)) dst'
        = concat (replicate (parts (Some c)) (take (nat (partLength c)) (chain_buffer c)))
      \<and> (nextPart c = None \<longrightarrow> take (nat (chain_length c)) dst' = chain_bytes c)"
proof -
  have p: "0 \<le> partLength c" "partLength c \<le> int (length (chain_buffer c))"
    using assms(1) by (induction c rule: chain_ok.induct) auto
  from dump_parts_repeats [OF p, of 0 "Some c" dst] assms(3) obtain dst' where
    d: "dump_parts c (Some c) dst 0 = Inr (dst', int (parts (Some c)) * partLength c)"
    "take (nat (int (parts (Some c)) * partLength c)) dst'
        = concat (replicate (parts (Some c)) (take (nat (partLength c)) (chain_buffer c)))" by auto
  have "take (nat (chain_length c)) dst' = chain_bytes c" if "nextPart c = None"
    using that assms(1) d(2) by (cases c) auto
  with d assms(2) show ?thesis by (simp add: BufferChain_dumpToBuffer_def)
qed

theorem BufferChain_dumpToBuffer_first_part_witness:
  "BufferChain_dumpToBuffer (BufferChain 3 2 2 (Some (BufferChain 1 1 1 None [9])) [1, 2])
     (replicate 4 0) 4 = Inr ([1, 2, 1, 2], 4)"
proof -
  let ?c = "BufferChain 3 2 2 (Some (BufferChain 1 1 1 None [9])) [1, 2]"
  have "\<exists>dst'. BufferChain_dumpToBuffer ?c (replicate 4 0) 4 = Inr (dst', 4) \<and> take 4 dst' = [1, 2, 1, 2]"
    using BufferChain_dumpToBuffer_first_part [of ?c 4 "replicate 4 0"] by (simp add: numeral_eq_Suc)
  then show ?thesis
    by (simp add: BufferChain_dumpToBuffer_def memcpy_to_def numeral_eq_Suc)
qed

text \<open>Memory areas hand out blocks of a fixed piece of memory in order.\<close>

record MemoryArea =
  area_size :: int
  currentPos :: int

definition MemoryArea_initialize :: "int \<Rightarrow> MemoryArea" where
  "MemoryArea_initialize n = \<lparr>area_size = n, currentPos = 0\<rparr>"

definition MemoryArea_getNextBlock :: "MemoryArea \<Rightarrow> int \<Rightarrow> MemoryArea \<times> int option" where
  "MemoryArea_getNextBlock self n =
     (if area_size self - currentPos self \<ge> n
      then (self\<lparr>currentPos := currentPos self + n\<rparr>, Some (currentPos self))
      else (self, None))"

fun area_blocks :: "MemoryArea \<Rightarrow> int list \<Rightarrow> (int \<times> int) list" where
  "area_blocks a [] = []"
| "area_blocks a (n # ns) =
     (case MemoryArea_getNextBlock a n of
        (a', None) \<Rightarrow> area_blocks a' ns
      | (a', Some p) \<Rightarrow> (p, n) # area_blocks a' ns)"

lemma area_blocks_from:
  "\<forall>n \<in> set ns. 0 \<le> n \<Longrightarrow> (p, n) \<in> set (area_blocks a ns)
   \<Longrightarrow> currentPos a \<le> p \<and> p + n \<le> area_size a \<and> 0 \<le> n"
proof (induction ns arbitrary: a)
  case Nil
  then show ?case by simp
next
  case (Cons k ns)
  then show ?case
    by (fastforce simp: MemoryArea_getNextBlock_def split: if_splits prod.splits option.splits)
qed

lemma area_blocks_disjoint:
  "\<forall>n \<in> set ns. 0 \<le> n \<Longrightarrow>
   sorted_wrt (\<lambda>(p, n) (q, m). p + n \<le> q) (area_blocks a ns)"
proof (induction ns arbitrary: a)
  case Nil
  then show ?case by simp
next
  case (Cons k ns)
  show ?case
  proof (cases "area_size a - currentPos a \<ge> k")
    case True
    let ?a = "a\<lparr>currentPos := currentPos a + k\<rparr>"
    have "\<forall>(q, m) \<in> set (area_blocks ?a ns). currentPos a + k \<le> q"
      using area_blocks_from [of ns _ _ ?a] Cons.prems by fastforce
    with True Cons show ?thesis by (auto simp: MemoryArea_getNextBlock_def)
  next
    case False
    with Cons show ?thesis by (simp add: MemoryArea_getNextBlock_def)
  qed
qed

end
