(* ===== verification/Ber.thy ===== *)
theory Ber
  imports Byte_Buffer
begin

text \<open>
  BER encoding and decoding: \<open>libiec61850/src/mms/asn1/ber_encoder.c\<close> and \<open>ber_decode.c\<close>.
  An encoder of the C code writes at \<open>bufPos++\<close> only, so the pair \<open>(buffer, bufPos)\<close> of the
  code is the list of the bytes written so far (the octets \<open>0..<bufPos\<close>), and the capacity that
  a caller has to provide is the length of that list. Machine: little endian, as
  \<open>ORDER_LITTLE_ENDIAN == 1\<close>. A decoder works on a buffer and positions, as in the code; the
  position -1 is the code's error result.
\<close>

unbundle bit_operations_syntax

section \<open>Encoder\<close>

definition BerEncoder_encodeLength :: "u32 \<Rightarrow> byte list \<Rightarrow> byte list" where
  "BerEncoder_encodeLength len out =
     (if len < 128 then out @ [ucast len]
      else if len < 256 then out @ [0x81, ucast len]
      else out @ [0x82, ucast (len div 256), ucast (len mod 256)])"

definition BerEncoder_encodeTL :: "byte \<Rightarrow> int \<Rightarrow> byte list \<Rightarrow> byte list" where
  "BerEncoder_encodeTL tag len out = BerEncoder_encodeLength (word_of_int len) (out @ [tag])"

definition BerEncoder_encodeBoolean :: "byte \<Rightarrow> bool \<Rightarrow> byte list \<Rightarrow> byte list" where
  "BerEncoder_encodeBoolean tag v out = out @ [tag, 1, (if v then 0xff else 0x00)]"

definition BerEncoder_encodeStringWithTag :: "byte \<Rightarrow> byte list option \<Rightarrow> byte list \<Rightarrow> byte list" where
  "BerEncoder_encodeStringWithTag tag str out =
     (case str of
        Some s \<Rightarrow> BerEncoder_encodeLength (word_of_int (int (length s))) (out @ [tag]) @ s
      | None \<Rightarrow> out @ [tag, 0])"

definition BerEncoder_encodeOctetString ::
    "byte \<Rightarrow> byte list \<Rightarrow> u32 \<Rightarrow> byte list \<Rightarrow> byte list run" where
  "BerEncoder_encodeOctetString tag octetString octetStringSize out =
     rbind (rd_n octetString 0 (unat octetStringSize)) (\<lambda>os.
       Inr (BerEncoder_encodeLength octetStringSize (out @ [tag]) @ os))"

text \<open>Bit strings: the unused bits of the last octet are cleared.\<close>

fun padding_sum :: "nat \<Rightarrow> byte" where
  "padding_sum 0 = 0"
| "padding_sum (Suc i) = padding_sum i + push_bit i 1"

definition and_last :: "byte list \<Rightarrow> byte \<Rightarrow> byte list" where
  "and_last out m = butlast out @ [last out AND m]"

definition bit_byteSize :: "nat \<Rightarrow> nat" where
  "bit_byteSize bits = bits div 8 + (if bits mod 8 \<noteq> 0 then 1 else 0)"

definition BerEncoder_encodeBitString ::
    "byte \<Rightarrow> nat \<Rightarrow> byte list \<Rightarrow> byte list \<Rightarrow> byte list run" where
  "BerEncoder_encodeBitString tag bitStringSize bitString out =
     (let byteSize = bit_byteSize bitStringSize;
          padding = byteSize * 8 - bitStringSize;
          out1 = BerEncoder_encodeLength (word_of_int (int (byteSize + 1))) (out @ [tag])
                 @ [of_nat padding]
      in rbind (rd_n bitString 0 byteSize) (\<lambda>bs.
           Inr (and_last (out1 @ bs) (NOT (padding_sum padding)))))"

definition BerEncoder_determineLengthSize :: "u32 \<Rightarrow> int" where
  "BerEncoder_determineLengthSize len = (if len < 128 then 1 else if len < 256 then 2 else 3)"

definition BerEncoder_determineEncodedBitStringSize :: "nat \<Rightarrow> int" where
  "BerEncoder_determineEncodedBitStringSize bitStringSize =
     2 + BerEncoder_determineLengthSize (word_of_int (int (bit_byteSize bitStringSize)))
       + int (bit_byteSize bitStringSize)"

definition BerEncoder_determineEncodedStringSize :: "byte list option \<Rightarrow> int" where
  "BerEncoder_determineEncodedStringSize str =
     (case str of
        Some s \<Rightarrow> 1 + BerEncoder_determineLengthSize (word_of_int (int (length s))) + int (length s)
      | None \<Rightarrow> 2)"

text \<open>\<open>BerEncoder_revertByteOrder\<close>: swap the octets i and size-1-i for i below size/2.\<close>

definition swap_octets :: "nat \<Rightarrow> nat \<Rightarrow> byte list \<Rightarrow> byte list" where
  "swap_octets sz i xs = xs[i := xs ! (sz - 1 - i), sz - 1 - i := xs ! i]"

definition BerEncoder_revertByteOrder :: "byte list \<Rightarrow> nat \<Rightarrow> byte list" where
  "BerEncoder_revertByteOrder octets sz = fold (swap_octets sz) [0..<sz div 2] octets"

text \<open>\<open>BerEncoder_compressInteger\<close>: how many leading octets only repeat the sign.\<close>

fun redundant_octets :: "byte list \<Rightarrow> nat" where
  "redundant_octets (x # y # zs) =
     (if x = 0x00 then
        (if y AND 0x80 = 0 then Suc (redundant_octets (y # zs)) else 0)
      else if x = 0xff then
        (if y AND 0x80 \<noteq> 0 then Suc (redundant_octets (y # zs)) else 0)
      else 0)"
| "redundant_octets xs = 0"

definition BerEncoder_compressInteger :: "byte list \<Rightarrow> byte list \<times> nat" where
  "BerEncoder_compressInteger xs =
     (let bytesToDelete = redundant_octets xs; newSize = length xs - bytesToDelete
      in (drop bytesToDelete xs @ drop newSize xs, newSize))"

definition uint32_octets :: "u32 \<Rightarrow> byte list" where
  "uint32_octets v =
     (let (b, sz) = BerEncoder_compressInteger (0 # BerEncoder_revertByteOrder (le_bytes32 v) 4)
      in take sz b)"

definition BerEncoder_encodeUInt32 :: "u32 \<Rightarrow> byte list \<Rightarrow> byte list" where
  "BerEncoder_encodeUInt32 v out = out @ uint32_octets v"

definition BerEncoder_encodeUInt32WithTL :: "byte \<Rightarrow> u32 \<Rightarrow> byte list \<Rightarrow> byte list" where
  "BerEncoder_encodeUInt32WithTL tag v out =
     out @ [tag, of_nat (length (uint32_octets v))] @ uint32_octets v"

definition BerEncoder_UInt32determineEncodedSize :: "u32 \<Rightarrow> int" where
  "BerEncoder_UInt32determineEncodedSize v = int (length (uint32_octets v))"

definition BerEncoder_encodeFloat :: "byte list \<Rightarrow> byte \<Rightarrow> byte \<Rightarrow> byte list \<Rightarrow> byte list run" where
  "BerEncoder_encodeFloat floatValue formatWidth exponentWidth out =
     (let byteSize = unat formatWidth div 8
      in if 8 < byteSize then Inl Out_of_bounds
         else rbind (rd_n floatValue 0 byteSize) (\<lambda>v.
                Inr (out @ [exponentWidth] @ BerEncoder_revertByteOrder v byteSize)))"


section \<open>Decoder\<close>

text \<open>
  The octets of the long form. The accumulator is a C \<open>int\<close>: more than three octets can wrap it
  around to a negative length.
\<close>

fun decode_length_octets :: "byte list \<Rightarrow> nat \<Rightarrow> int \<Rightarrow> int \<Rightarrow> int \<Rightarrow> (int \<times> int) run" where
  "decode_length_octets b 0 len p mx = Inr (p, len)"
| "decode_length_octets b (Suc n) len p mx =
     (if p \<ge> mx then Inr (-1, len)
      else rbind (rd b p) (\<lambda>x. decode_length_octets b n (i32 (i32 (len * 256) + uint x)) (p + 1) mx))"

text \<open>
  \<open>BerDecoder_decodeLength(buffer, &length, bufPos, maxBufPos)\<close>: the new position and the value
  of \<open>*length\<close> afterwards; \<open>None\<close> stands for an unassigned variable.
\<close>

definition BerDecoder_decodeLength ::
    "byte list \<Rightarrow> int option \<Rightarrow> int \<Rightarrow> int \<Rightarrow> (int \<times> int option) run" where
  "BerDecoder_decodeLength b len p mx =
     (if p \<ge> mx then Inr (-1, len)
      else rbind (rd b p) (\<lambda>len1.
        if len1 AND 0x80 \<noteq> 0 then
          (let lenLength = unat (len1 AND 0x7f)
           in if lenLength = 0 then Inr (p + 1, Some (-1))
              else rbind (decode_length_octets b lenLength 0 (p + 1) mx) (\<lambda>(q, l). Inr (q, Some l)))
        else Inr (p + 1, Some (uint len1))))"

definition BerDecoder_decodeString :: "byte list \<Rightarrow> nat \<Rightarrow> int \<Rightarrow> byte list run" where
  "BerDecoder_decodeString b strlen p = rd_n b p strlen"

definition BerDecoder_decodeUint32 :: "byte list \<Rightarrow> int \<Rightarrow> int \<Rightarrow> u32 run" where
  "BerDecoder_decodeUint32 b intlen p =
     rbind (rd_n b p (nat intlen)) (\<lambda>xs. Inr (foldl (\<lambda>v x. push_bit 8 v + ucast x) 0 xs))"

text \<open>Floating point values are their IEEE 754 bit patterns.\<close>

definition BerDecoder_decodeFloat :: "byte list \<Rightarrow> int \<Rightarrow> u32 run" where
  "BerDecoder_decodeFloat b p =
     rbind (rd_n b (p + 1) 4) (\<lambda>xs. Inr (foldl (\<lambda>v x. push_bit 8 v OR ucast x) 0 xs))"

definition BerDecoder_decodeDouble :: "byte list \<Rightarrow> int \<Rightarrow> u64 run" where
  "BerDecoder_decodeDouble b p =
     rbind (rd_n b (p + 1) 8) (\<lambda>xs. Inr (foldl (\<lambda>v x. push_bit 8 v OR ucast x) 0 xs))"

definition BerDecoder_decodeBoolean :: "byte list \<Rightarrow> int \<Rightarrow> bool run" where
  "BerDecoder_decodeBoolean b p = rbind (rd b p) (\<lambda>x. Inr (x \<noteq> 0))"


section \<open>Length fields\<close>

text \<open>The length octets of a length below 65536, as integers.\<close>

definition len_bytes :: "int \<Rightarrow> byte list" where
  "len_bytes n = (if n < 128 then [word_of_int n]
                  else if n < 256 then [0x81, word_of_int n]
                  else [0x82, word_of_int (n div 256), word_of_int (n mod 256)])"

definition len_size :: "int \<Rightarrow> int" where
  "len_size n = (if n < 128 then 1 else if n < 256 then 2 else 3)"

lemma length_len_bytes [simp]: "int (length (len_bytes n)) = len_size n"
  by (simp add: len_bytes_def len_size_def)

lemma len_size_pos [simp]: "0 < len_size n" "len_size n \<le> 3"
  by (simp_all add: len_size_def)

lemma ucast_word_of_int_byte: "0 \<le> n \<Longrightarrow> n < 4294967296 \<Longrightarrow>
   (ucast (word_of_int n :: u32) :: byte) = word_of_int n"
  by (simp add: ucast_eq uint_word_of_int)

lemma word_of_int_less_iff:
  "0 \<le> n \<Longrightarrow> n < 4294967296 \<Longrightarrow> 0 \<le> m \<Longrightarrow> m < 4294967296 \<Longrightarrow>
   ((word_of_int n :: u32) < word_of_int m) = (n < m)"
  by (simp add: word_less_def uint_word_of_int)

lemma encodeLength_bytes:
  assumes "0 \<le> n" and "n < 65536"
  shows "BerEncoder_encodeLength (word_of_int n) out = out @ len_bytes n"
proof -
  have c: "((word_of_int n :: u32) < 128) = (n < 128)" "((word_of_int n :: u32) < 256) = (n < 256)"
    using word_of_int_less_iff [of n 128] word_of_int_less_iff [of n 256] assms by simp_all
  have dm: "(word_of_int n :: u32) div 256 = word_of_int (n div 256)"
           "(word_of_int n :: u32) mod 256 = word_of_int (n mod 256)"
    using assms by (simp_all add: word_div_def word_mod_def uint_word_of_int)
  have "0 \<le> n div 256" "n div 256 < 256" "0 \<le> n mod 256" "n mod 256 < 256" using assms by auto
  then show ?thesis
    using assms
    by (simp add: BerEncoder_encodeLength_def len_bytes_def c dm ucast_word_of_int_byte)
qed

lemma encodeTL_bytes:
  "0 \<le> n \<Longrightarrow> n < 65536 \<Longrightarrow> BerEncoder_encodeTL tag n out = out @ [tag] @ len_bytes n"
  by (simp add: BerEncoder_encodeTL_def encodeLength_bytes)

lemma determineLengthSize_eq:
  "0 \<le> n \<Longrightarrow> n < 65536 \<Longrightarrow> BerEncoder_determineLengthSize (word_of_int n) = len_size n"
  using word_of_int_less_iff [of n 128] word_of_int_less_iff [of n 256]
  by (simp add: BerEncoder_determineLengthSize_def len_size_def)

lemma high_bit_iff: "(b :: byte) AND 0x80 = 0 \<longleftrightarrow> uint b < 128"
proof -
  have "(b AND 2 ^ 7 = 0) = (\<not> bit b 7)" by (rule and_exp_eq_0_iff_not_bit)
  moreover have "bit b 7 = bit (uint b) 7" by (simp add: bit_uint_iff)
  moreover have "bit (uint b) 7 = odd (uint b div 2 ^ 7)" by (rule bit_iff_odd)
  moreover have "even (u div 2 ^ 7) = (u < 128)" if "0 \<le> u" "u < 256" for u :: int
  proof (cases "u < 128")
    case True
    with that show ?thesis by simp
  next
    case False
    with that have "u div 2 ^ 7 = 1" by simp
    with False show ?thesis by simp
  qed
  ultimately show ?thesis by simp
qed

lemma and_7f: "unat ((b :: byte) AND 0x7f) = nat (uint b mod 128)"
proof -
  have "b AND 0x7f = take_bit 7 b" by (simp add: take_bit_eq_mask mask_eq_decr_exp)
  then have "uint (b AND 0x7f) = uint b mod 128"
    by (simp add: take_bit_eq_mod uint_mod)
  then show ?thesis by (metis unat_eq_nat_uint)
qed

lemma decodeLength_short:
  "rd b p = Inr x \<Longrightarrow> uint x < 128 \<Longrightarrow> p < mx \<Longrightarrow>
   BerDecoder_decodeLength b l p mx = Inr (p + 1, Some (uint x))"
  by (simp add: BerDecoder_decodeLength_def high_bit_iff)

lemma decodeLength_at:
  assumes "0 \<le> n" and "n < 65536" and at: "bytes_at b p (len_bytes n)" and "p + len_size n \<le> mx"
  shows "BerDecoder_decodeLength b l p mx = Inr (p + len_size n, Some n)"
proof -
  consider "n < 128" | "128 \<le> n" "n < 256" | "256 \<le> n" by linarith
  then show ?thesis
  proof cases
    case 1
    then have "uint (word_of_int n :: byte) = n" using assms by simp
    with 1 at assms show ?thesis
      using decodeLength_short [of b p "word_of_int n" mx l] by (simp add: len_bytes_def len_size_def)
  next
    case 2
    then have "rd b p = Inr 0x81" "rd b (p + 1) = Inr (word_of_int n)"
      using at by (simp_all add: len_bytes_def)
    moreover have "unat ((0x81 :: byte) AND 0x7f) = 1" "(0x81 :: byte) AND 0x80 \<noteq> 0" by simp_all
    moreover have "uint (word_of_int n :: byte) = n" using 2 by simp
    ultimately show ?thesis using 2 assms(4)
      by (simp add: BerDecoder_decodeLength_def len_size_def)
  next
    case 3
    then have r: "rd b p = Inr 0x82" "rd b (p + 1) = Inr (word_of_int (n div 256))"
        "rd b (p + 2) = Inr (word_of_int (n mod 256))"
      using at by (simp_all add: len_bytes_def add.assoc)
    have m: "unat ((0x82 :: byte) AND 0x7f) = 2" "(0x82 :: byte) AND 0x80 \<noteq> 0" by simp_all
    have u: "uint (word_of_int (n div 256) :: byte) = n div 256"
            "uint (word_of_int (n mod 256) :: byte) = n mod 256"
      using 3 assms by (auto intro!: uint_of_int_byte)
    have i: "i32 (n div 256) = n div 256" "i32 (n div 256 * 256) = n div 256 * 256"
        "i32 (n div 256 * 256 + n mod 256) = n div 256 * 256 + n mod 256"
      using 3 assms by (auto intro!: i32_id)
    have "decode_length_octets b 2 0 (p + 1) mx = Inr (p + 3, n)"
      using 3 assms(4) r u i by (simp add: numeral_2_eq_2 len_size_def add.assoc)
    with 3 assms(4) r m show ?thesis
      by (simp add: BerDecoder_decodeLength_def len_size_def)
  qed
qed

text \<open>
  The decoder reads every length field the encoder writes for a length below 65536: it
  returns the length and the position after the field, wherever the field lies in the message.
\<close>

theorem decodeLength_encodeLength:
  assumes "0 \<le> n" and "n < 65536"
    and "bytes_at b p (BerEncoder_encodeLength (word_of_int n) [])"
    and "p + int (length (BerEncoder_encodeLength (word_of_int n) [])) \<le> mx"
  shows "BerDecoder_decodeLength b l p mx
         = Inr (p + int (length (BerEncoder_encodeLength (word_of_int n) [])), Some n)"
  using assms decodeLength_at [of n b p mx l] encodeLength_bytes [of n "[]"] by simp

theorem decodeLength_encodeLength_witness:
  "BerDecoder_decodeLength [0x30, 0x82, 1, 44] None 1 4 = Inr (4, Some 300)"
proof -
  have e: "BerEncoder_encodeLength (word_of_int 300) [] = [0x82, 1, 44]"
    by (simp add: BerEncoder_encodeLength_def)
  show ?thesis
    using decodeLength_encodeLength [of 300 "[0x30, 0x82, 1, 44]" 1 4 None, unfolded e]
    by (simp add: rd_def)
qed


section \<open>Integers\<close>

text \<open>The value of octets in big-endian order: unsigned from a start value, and two's complement.\<close>

definition be_from :: "int \<Rightarrow> byte list \<Rightarrow> int" where
  "be_from a xs = foldl (\<lambda>v x. v * 256 + uint x) a xs"

definition be_sint :: "byte list \<Rightarrow> int" where
  "be_sint xs = (case xs of [] \<Rightarrow> 0 | x # _ \<Rightarrow> be_from (if x AND 0x80 \<noteq> 0 then -1 else 0) xs)"

lemma be_from_Nil [simp]: "be_from a [] = a"
  and be_from_Cons [simp]: "be_from a (x # xs) = be_from (a * 256 + uint x) xs"
  and be_from_append: "be_from a (xs @ ys) = be_from (be_from a xs) ys"
  by (simp_all add: be_from_def)

lemma be_from_bounds: "0 \<le> a \<Longrightarrow> 0 \<le> be_from a xs \<and> be_from a xs < (a + 1) * 256 ^ length xs"
proof (induction xs arbitrary: a)
  case Nil
  then show ?case by simp
next
  case (Cons x xs)
  have n: "0 \<le> a * 256 + uint x" using Cons.prems by simp
  have u: "uint x < 256" by simp
  have "be_from (a * 256 + uint x) xs < (a * 256 + uint x + 1) * 256 ^ length xs"
    using Cons.IH [OF n] by blast
  also have "\<dots> \<le> ((a + 1) * 256) * 256 ^ length xs"
  proof (rule mult_right_mono)
    show "a * 256 + uint x + 1 \<le> (a + 1) * 256" using u by (simp add: algebra_simps del: uint_byte_bounds)
  qed simp
  finally have "be_from (a * 256 + uint x) xs < (a + 1) * 256 ^ length (x # xs)"
    by (simp add: algebra_simps)
  with Cons.IH [OF n] show ?case by simp
qed

lemma redundant_le: "redundant_octets xs \<le> length xs - 1"
  by (induction xs rule: redundant_octets.induct) auto

lemma redundant_drop: "redundant_octets (drop (redundant_octets xs) xs) = 0"
  by (induction xs rule: redundant_octets.induct) auto

lemma be_sint_skip:
  assumes "(x = 0 \<and> y AND 0x80 = 0) \<or> (x = 0xff \<and> y AND 0x80 \<noteq> 0)"
  shows "be_sint (x # y # zs) = be_sint (y # zs)"
  using assms by (auto simp: be_sint_def)

lemma be_sint_drop_redundant: "be_sint (drop (redundant_octets xs) xs) = be_sint xs"
proof (induction xs rule: redundant_octets.induct)
  case (1 x y zs)
  then show ?case using be_sint_skip [of x y zs] by auto
qed simp_all

lemma compress_take:
  "take (snd (BerEncoder_compressInteger xs)) (fst (BerEncoder_compressInteger xs))
   = drop (redundant_octets xs) xs"
  by (simp add: BerEncoder_compressInteger_def Let_def)

text \<open>
  \<open>BerEncoder_compressInteger\<close> keeps the two's complement value of the octets, leaves a
  shortest encoding (no octet that only repeats the sign) and never deletes the last octet.
\<close>

theorem compressInteger_minimal:
  assumes "BerEncoder_compressInteger xs = (ys, n)"
  shows "be_sint (take n ys) = be_sint xs \<and> redundant_octets (take n ys) = 0
       \<and> n \<le> length xs \<and> (xs \<noteq> [] \<longrightarrow> 0 < n) \<and> length ys = length xs"
proof -
  have t: "take n ys = drop (redundant_octets xs) xs" using compress_take [of xs] assms by simp
  moreover have "n = length xs - redundant_octets xs"
    and "ys = drop (redundant_octets xs) xs @ drop n xs"
    using assms by (auto simp: BerEncoder_compressInteger_def Let_def)
  ultimately show ?thesis
    using redundant_le [of xs] redundant_drop [of xs] be_sint_drop_redundant [of xs]
    by (cases xs) (auto simp: t)
qed

theorem compressInteger_minimal_witness:
  "be_sint (take 2 [0, 0x80, 0, 0x80]) = be_sint [0, 0, 0, 0x80]"
  using compressInteger_minimal [of "[0, 0, 0, 0x80]" "[0, 0x80, 0, 0x80]" 2]
  by (simp add: BerEncoder_compressInteger_def)

text \<open>The in-place swap reverses the octets.\<close>

lemma swap_fold_nth:
  assumes "m \<le> sz div 2" and "sz \<le> length xs"
  shows "length (fold (swap_octets sz) [0..<m] xs) = length xs \<and>
    (\<forall>j < length xs. fold (swap_octets sz) [0..<m] xs ! j =
       (if j < m \<or> (sz - m \<le> j \<and> j < sz) then xs ! (sz - 1 - j) else xs ! j))"
  using assms(1)
proof (induction m)
  case 0
  then show ?case by auto
next
  case (Suc m)
  let ?ys = "fold (swap_octets sz) [0..<m] xs"
  have IH: "length ?ys = length xs"
    "\<And>j. j < length xs \<Longrightarrow> ?ys ! j = (if j < m \<or> (sz - m \<le> j \<and> j < sz) then xs ! (sz - 1 - j) else xs ! j)"
    using Suc by auto
  have m: "m < sz div 2" "m < sz - 1 - m" "sz - 1 - m < length xs" "m < length xs"
    using Suc.prems assms(2) by auto
  have "?ys ! m = xs ! m" "?ys ! (sz - 1 - m) = xs ! (sz - 1 - m)"
    using IH(2) [of m] IH(2) [of "sz - 1 - m"] m by auto
  then have "fold (swap_octets sz) [0..<Suc m] xs
      = ?ys[m := xs ! (sz - 1 - m), sz - 1 - m := xs ! m]"
    by (simp add: swap_octets_def)
  moreover have "\<forall>j < length xs. ?ys[m := xs ! (sz - 1 - m), sz - 1 - m := xs ! m] ! j =
       (if j < Suc m \<or> (sz - Suc m \<le> j \<and> j < sz) then xs ! (sz - 1 - j) else xs ! j)"
    using IH m by (auto simp: nth_list_update less_Suc_eq)
  ultimately show ?case using IH(1) by simp
qed

lemma revertByteOrder_rev: "BerEncoder_revertByteOrder xs (length xs) = rev xs"
proof (rule nth_equalityI)
  note f = swap_fold_nth [of "length xs div 2" "length xs" xs]
  show "length (BerEncoder_revertByteOrder xs (length xs)) = length (rev xs)"
    using f by (simp add: BerEncoder_revertByteOrder_def)
  fix i assume i: "i < length (BerEncoder_revertByteOrder xs (length xs))"
  then have il: "i < length xs" using f by (simp add: BerEncoder_revertByteOrder_def)
  have "i = length xs - 1 - i" if "\<not> i < length xs div 2" "\<not> length xs - length xs div 2 \<le> i"
    using that il by linarith
  then show "BerEncoder_revertByteOrder xs (length xs) ! i = rev xs ! i"
    using f il by (auto simp: BerEncoder_revertByteOrder_def rev_nth)
qed


text \<open>The same values in machine arithmetic.\<close>

lemma push_or_add: "push_bit 8 (v :: 'a :: len word) OR ucast (x :: byte) = push_bit 8 v + ucast x"
  by (rule disjunctive_add [symmetric]) (auto simp: bit_simps dest: bit_imp_le_length)

lemma push_add_word:
  "push_bit 8 (word_of_int a :: 'a :: len word) + ucast (x :: byte) = word_of_int (a * 256 + uint x)"
  by (simp add: push_bit_eq_mult)

lemma foldl_add_word:
  "foldl (\<lambda>v x. push_bit 8 v + ucast x) (word_of_int a :: 'a :: len word) xs = word_of_int (be_from a xs)"
proof (induction xs arbitrary: a)
  case Nil
  then show ?case by simp
next
  case (Cons x xs)
  show ?case unfolding foldl_Cons push_add_word be_from_Cons by (rule Cons.IH)
qed

lemma foldl_or_word:
  "foldl (\<lambda>v x. push_bit 8 v OR ucast x) (word_of_int a :: 'a :: len word) xs = word_of_int (be_from a xs)"
  by (simp add: push_or_add foldl_add_word)

lemma rev_le_bytes32: "rev (le_bytes32 v) =
    [ucast (drop_bit 24 v), ucast (drop_bit 16 v), ucast (drop_bit 8 v), ucast v]"
  by (simp add: le_bytes32_def)

lemma foldl_or_octets32:
  "foldl (\<lambda>v x. push_bit 8 v OR ucast x) (a :: u32) (rev (le_bytes32 v)) = v"
  unfolding rev_le_bytes32 foldl.simps
proof (rule bit_word_eqI)
  fix n :: nat
  assume "n < LENGTH(32)"
  then consider "n < 8" | "8 \<le> n" "n < 16" | "16 \<le> n" "n < 24" | "24 \<le> n" "n < 32" by fastforce
  then show "bit (push_bit 8 (push_bit 8 (push_bit 8 (push_bit 8 a OR
        ucast (ucast (drop_bit 24 v) :: byte)) OR ucast (ucast (drop_bit 16 v) :: byte)) OR
        ucast (ucast (drop_bit 8 v) :: byte)) OR ucast (ucast v :: byte)) n = bit v n"
    by cases (auto simp: bit_simps)
qed

lemma be_from_octets32: "(word_of_int (be_from a (rev (le_bytes32 v))) :: u32) = v"
  using foldl_or_octets32 [of "word_of_int a" v] foldl_or_word [where 'a = 32, of a "rev (le_bytes32 v)"]
  by simp

lemma be_from_octets32_uint: "be_from 0 (rev (le_bytes32 v)) = uint v"
proof -
  have "0 \<le> be_from 0 (rev (le_bytes32 v))" "be_from 0 (rev (le_bytes32 v)) < 2 ^ 32"
    using be_from_bounds [of 0 "rev (le_bytes32 v)"] by simp_all
  then have "uint (word_of_int (be_from 0 (rev (le_bytes32 v))) :: u32) = be_from 0 (rev (le_bytes32 v))"
    by (simp add: uint_word_of_int)
  then show ?thesis by (simp add: be_from_octets32)
qed

lemma uint32_octets_eq:
  "uint32_octets v = drop (redundant_octets (0 # rev (le_bytes32 v))) (0 # rev (le_bytes32 v))"
  using compress_take [of "0 # rev (le_bytes32 v)"] revertByteOrder_rev [of "le_bytes32 v"]
  by (simp add: uint32_octets_def split_beta)

lemma uint32_octets_length: "0 < length (uint32_octets v) \<and> length (uint32_octets v) \<le> 5"
  using redundant_le [of "0 # rev (le_bytes32 v)"] by (simp add: uint32_octets_eq)

lemma be_from_unsigned: "be_sint xs = be_from a xs \<or> be_sint xs = be_from 0 xs \<or> be_sint xs = be_from (-1) xs"
  by (cases xs) (auto simp: be_sint_def)

lemma be_from_congr: "be_from a xs - be_from b xs = (a - b) * 256 ^ length xs"
proof (induction xs arbitrary: a b)
  case Nil
  then show ?case by simp
next
  case (Cons x xs)
  have "be_from (a * 256 + uint x) xs - be_from (b * 256 + uint x) xs
        = ((a - b) * 256) * 256 ^ length xs"
    by (subst Cons.IH) (simp add: algebra_simps)
  then show ?case by (simp add: mult.assoc)
qed

lemma be_sint_uint32_octets: "be_sint (uint32_octets v) = uint v"
  by (simp add: uint32_octets_eq be_sint_drop_redundant) (simp add: be_sint_def be_from_octets32_uint)

text \<open>An encoding of a non-negative value starts with a clear sign bit.\<close>

lemma be_sint_nonneg_hd:
  assumes "xs \<noteq> []" and "0 \<le> be_sint xs"
  shows "be_from 0 xs = be_sint xs"
proof (cases xs)
  case Nil
  with assms show ?thesis by simp
next
  case (Cons x zs)
  show ?thesis
  proof (cases "x AND 0x80 = 0")
    case True
    with Cons show ?thesis by (simp add: be_sint_def)
  next
    case False
    then have "be_sint xs = be_from (-1) xs" using Cons by (simp add: be_sint_def)
    moreover have "be_from 0 xs - be_from (-1) xs = 256 ^ length xs"
      using be_from_congr [of 0 xs "-1"] by simp
    moreover have "be_from 0 xs < 256 ^ length xs" using be_from_bounds [of 0 xs] by simp
    ultimately show ?thesis using assms(2) by simp
  qed
qed

lemma be_from_uint32_octets: "be_from 0 (uint32_octets v) = uint v"
proof -
  have "uint32_octets v \<noteq> []" using uint32_octets_length [of v] by auto
  then show ?thesis using be_sint_nonneg_hd [of "uint32_octets v"] by (simp add: be_sint_uint32_octets)
qed

lemma decodeUint32_at:
  "bytes_at b p xs \<Longrightarrow> n = int (length xs) \<Longrightarrow>
   BerDecoder_decodeUint32 b n p = Inr (word_of_int (be_from 0 xs))"
  using foldl_add_word [where 'a = 32, of 0 xs]
  by (simp add: BerDecoder_decodeUint32_def rd_n_bytes_at)

text \<open>
  An unsigned value survives the BER encoding: \<open>BerDecoder_decodeUint32\<close> on the octets of
  \<open>BerEncoder_encodeUInt32\<close>, wherever they lie, returns the value; there are one to five of
  them, as many as \<open>BerEncoder_UInt32determineEncodedSize\<close> announces.
\<close>

theorem decodeUint32_encodeUInt32:
  assumes "bytes_at b p (BerEncoder_encodeUInt32 v [])"
  shows "BerDecoder_decodeUint32 b (BerEncoder_UInt32determineEncodedSize v) p = Inr v
       \<and> 1 \<le> BerEncoder_UInt32determineEncodedSize v \<and> BerEncoder_UInt32determineEncodedSize v \<le> 5"
  using decodeUint32_at [of b p "uint32_octets v"] assms uint32_octets_length [of v]
  by (simp add: BerEncoder_encodeUInt32_def BerEncoder_UInt32determineEncodedSize_def be_from_uint32_octets
      Suc_le_eq)

theorem decodeUint32_encodeUInt32_witness:
  "BerDecoder_decodeUint32 [0, 0x80] (BerEncoder_UInt32determineEncodedSize 0x80) 0 = Inr 0x80"
proof -
  have "BerEncoder_encodeUInt32 0x80 [] = [0, 0x80]"
    by (simp add: BerEncoder_encodeUInt32_def uint32_octets_eq le_bytes32_def)
  then have "bytes_at [0, 0x80] 0 (BerEncoder_encodeUInt32 0x80 [])" by (simp add: rd_def)
  from decodeUint32_encodeUInt32 [OF this] show ?thesis by simp
qed


section \<open>Bit strings, strings and booleans\<close>

lemma padding_sum_mask: "padding_sum n = mask n"
  by (induction n) (simp_all add: mask_eq_exp_minus_1)

lemma bit_byteSize_bounds: "bits \<le> bit_byteSize bits * 8" "bit_byteSize bits * 8 - bits < 8"
proof -
  define q r where "q = bits div 8" and "r = bits mod 8"
  have b: "bits = 8 * q + r" and r: "r < 8" by (simp_all add: q_def r_def)
  have "bit_byteSize bits = q + (if r \<noteq> 0 then 1 else 0)"
    by (simp add: bit_byteSize_def q_def r_def)
  then show "bits \<le> bit_byteSize bits * 8" "bit_byteSize bits * 8 - bits < 8"
    using r unfolding b by simp_all
qed

lemma bit_byteSize_pos: "0 < bits \<Longrightarrow> 0 < bit_byteSize bits"
  using bit_byteSize_bounds [of bits] by linarith

lemma bit_byteSize_le: "bits \<le> 8 * m \<Longrightarrow> bit_byteSize bits \<le> m"
  using bit_byteSize_bounds [of bits] by linarith

lemma and_last_snoc: "xs \<noteq> [] \<Longrightarrow> and_last (out @ xs) m = out @ butlast xs @ [last xs AND m]"
  by (simp add: and_last_def butlast_append)

text \<open>
  The octets of an encoded bit string: tag, length, number of unused bits, then the octets of
  the value with exactly the unused low bits of the last octet cleared.
\<close>

theorem encodeBitString_octets:
  assumes "0 < bits" and "bits \<le> 8 * length bs" and "bit_byteSize bits < 65535"
  defines "n \<equiv> bit_byteSize bits"
  defines "padding \<equiv> n * 8 - bits"
  shows "BerEncoder_encodeBitString tag bits bs out =
           Inr (out @ [tag] @ len_bytes (int n + 1) @ [of_nat padding] @ butlast (take n bs)
                @ [last (take n bs) AND NOT (mask padding)])
         \<and> padding < 8"
proof -
  have n: "0 < n" "n \<le> length bs"
    using assms(1,2) unfolding n_def by (auto intro: bit_byteSize_pos bit_byteSize_le)
  have "rd_n bs 0 (length (take n bs)) = Inr (take n bs)"
    by (rule rd_n_bytes_at) (use bytes_at_self [of "take n bs" "drop n bs"] in simp)
  with n have rd: "rd_n bs 0 n = Inr (take n bs)" by simp
  have ne: "take n bs \<noteq> []" using n by auto
  have "BerEncoder_encodeLength (word_of_int (int (n + 1))) (out @ [tag]) = (out @ [tag]) @ len_bytes (int (n + 1))"
    using assms(3) by (intro encodeLength_bytes) (simp_all add: n_def)
  then show ?thesis
    using rd ne bit_byteSize_bounds [of bits]
    by (simp add: BerEncoder_encodeBitString_def padding_sum_mask Let_def n_def padding_def
        and_last_snoc flip: append_assoc) (simp add: add.commute)
qed

theorem encodeBitString_octets_witness:
  "BerEncoder_encodeBitString 0x84 13 [0xff, 0xff] [] = Inr [0x84, 3, 3, 0xff, 0xf8]"
  using encodeBitString_octets [where bits = 13 and bs = "[0xff, 0xff]" and tag = "0x84" and out = "[]"]
  by (simp add: bit_byteSize_def len_bytes_def mask_eq_exp_minus_1)

text \<open>
  The size a caller is told to reserve for a bit string. The length field covers the value
  octets and the padding octet, while \<open>BerEncoder_determineEncodedBitStringSize\<close> sizes it for
  the value octets alone, so the announced size is one octet short exactly when the value has
  127 or 255 octets, and right otherwise.
\<close>

theorem determineEncodedBitStringSize_off_by_one:
  assumes "0 < bits" and "bits \<le> 8 * length bs" and "bit_byteSize bits < 65535"
    and "BerEncoder_encodeBitString tag bits bs [] = Inr enc"
  shows "int (length enc) = BerEncoder_determineEncodedBitStringSize bits
           + (if bit_byteSize bits = 127 \<or> bit_byteSize bits = 255 then 1 else 0)"
proof -
  let ?n = "bit_byteSize bits"
  have n: "0 < ?n" "?n \<le> length bs"
    using assms(1,2) by (auto intro: bit_byteSize_pos bit_byteSize_le)
  have "rd_n bs 0 (length (take ?n bs)) = Inr (take ?n bs)"
    by (rule rd_n_bytes_at) (use bytes_at_self [of "take ?n bs" "drop ?n bs"] in simp)
  with n have rd: "rd_n bs 0 ?n = Inr (take ?n bs)" by simp
  have el: "BerEncoder_encodeLength (word_of_int (int (?n + 1))) [tag] = [tag] @ len_bytes (int (?n + 1))"
    using assms(3) by (intro encodeLength_bytes) simp_all
  have "enc = and_last ([tag] @ len_bytes (int (?n + 1)) @ [of_nat (?n * 8 - bits)] @ take ?n bs)
                (NOT (padding_sum (?n * 8 - bits)))"
    using assms(4) rd el by (simp add: BerEncoder_encodeBitString_def Let_def)
  then have "int (length enc) = 1 + len_size (int (?n + 1)) + 1 + int ?n"
    using n length_len_bytes [of "int (?n + 1)"] by (simp add: and_last_def)
  moreover have "BerEncoder_determineLengthSize (word_of_int (int ?n)) = len_size (int ?n)"
    using assms(3) by (intro determineLengthSize_eq) simp_all
  ultimately show ?thesis
    by (auto simp: BerEncoder_determineEncodedBitStringSize_def len_size_def)
qed

theorem determineEncodedBitStringSize_off_by_one_witness:
  "\<exists>enc. BerEncoder_encodeBitString 0x84 1016 (replicate 127 0) [] = Inr enc
       \<and> int (length enc) = BerEncoder_determineEncodedBitStringSize 1016 + 1"
proof -
  have n: "bit_byteSize 1016 = 127" by (simp add: bit_byteSize_def)
  have "\<exists>xs. rd_n (replicate 127 0) 0 127 = Inr xs"
    using rd_n_bytes_at [OF bytes_at_whole [of "replicate 127 0"]] by simp
  then obtain enc where e: "BerEncoder_encodeBitString 0x84 1016 (replicate 127 0) [] = Inr enc"
    by (auto simp: BerEncoder_encodeBitString_def n Let_def)
  from determineEncodedBitStringSize_off_by_one [OF _ _ _ e] e n show ?thesis by simp
qed

lemma encodeStringWithTag_size:
  assumes "\<forall>s. str = Some s \<longrightarrow> length s < 65536"
  shows "int (length (BerEncoder_encodeStringWithTag tag str [])) = BerEncoder_determineEncodedStringSize str"
proof (cases str)
  case None
  then show ?thesis
    by (simp add: BerEncoder_encodeStringWithTag_def BerEncoder_determineEncodedStringSize_def)
next
  case (Some s)
  with assms have s: "length s < 65536" by simp
  have "BerEncoder_encodeLength (word_of_int (int (length s))) [tag] = [tag] @ len_bytes (int (length s))"
    using s by (intro encodeLength_bytes) simp_all
  moreover have "BerEncoder_determineLengthSize (word_of_int (int (length s))) = len_size (int (length s))"
    using s by (intro determineLengthSize_eq) simp_all
  ultimately show ?thesis using Some
    by (simp add: BerEncoder_encodeStringWithTag_def BerEncoder_determineEncodedStringSize_def
        flip: length_len_bytes)
qed

lemma decodeBoolean_encodeBoolean:
  "bytes_at b p (BerEncoder_encodeBoolean tag v []) \<Longrightarrow> BerDecoder_decodeBoolean b (p + 2) = Inr v"
  by (auto simp: BerEncoder_encodeBoolean_def BerDecoder_decodeBoolean_def add.assoc split: if_splits)


section \<open>Object identifiers\<close>

text \<open>The parts of the C library the encoder uses, on the characters of a string.\<close>

definition isspace :: "char \<Rightarrow> bool" where
  "isspace c = (c \<in> set [CHR 0x20, CHR 0x09, CHR 0x0A, CHR 0x0B, CHR 0x0C, CHR 0x0D])"

definition digit_of :: "char \<Rightarrow> int option" where
  "digit_of c = (let i = (of_char c :: int) in if 48 \<le> i \<and> i \<le> 57 then Some (i - 48) else None)"

fun leading_digits :: "int \<Rightarrow> string \<Rightarrow> int" where
  "leading_digits v [] = v"
| "leading_digits v (c # cs) =
     (case digit_of c of None \<Rightarrow> v | Some d \<Rightarrow> leading_digits (v * 10 + d) cs)"

definition atoi :: "string \<Rightarrow> int" where
  "atoi s = i32 (case dropWhile isspace s of
                   [] \<Rightarrow> 0
                 | c # cs \<Rightarrow> if c = CHR ''-'' then - leading_digits 0 cs
                            else if c = CHR ''+'' then leading_digits 0 cs
                            else leading_digits 0 (c # cs))"

fun strchr :: "string \<Rightarrow> char \<Rightarrow> string option" where
  "strchr [] c = None"
| "strchr (x # xs) c = (if x = c then Some (x # xs) else strchr xs c)"

lemma strchr_length: "strchr s c = Some t \<Longrightarrow> t \<noteq> [] \<and> length t \<le> length s"
  by (induction s c rule: strchr.induct) (auto split: if_splits)

fun oid_requiredBytes :: "int \<Rightarrow> nat" where
  "oid_requiredBytes v = (if v > 0 then Suc (oid_requiredBytes (v div 128)) else 0)"

declare oid_requiredBytes.simps [simp del]

text \<open>The octets of one arc, most significant first; \<open>k\<close> counts \<open>requiredBytes\<close> down.\<close>

fun oid_arc :: "int \<Rightarrow> nat \<Rightarrow> byte list" where
  "oid_arc v 0 = []"
| "oid_arc v (Suc k) =
     word_of_int ((v div 128 ^ k) mod 128 + (if k > 0 then 128 else 0)) # oid_arc v k"

text \<open>The loop over the remaining arcs: the octets written so far, and the result of the call.\<close>

function oid_arcs :: "string \<Rightarrow> byte list \<Rightarrow> int \<Rightarrow> byte list \<times> int" where
  "oid_arcs separator out maxBufLen =
     (case strchr (drop 1 separator) (CHR ''.'') of
        None \<Rightarrow> (out, int (length out))
      | Some sep \<Rightarrow>
          (let val = atoi (drop 1 sep); octets = oid_arc val (oid_requiredBytes val);
               room = nat (maxBufLen - int (length out))
           in if length octets \<le> room then oid_arcs sep (out @ octets) maxBufLen
              else (out @ take room octets, 0)))"
  by pat_completeness auto
termination
proof (relation "measure (\<lambda>(s, out, m). length s)", goal_cases)
  case (2 separator out maxBufLen sep)
  then have "sep \<noteq> []" "length sep \<le> length (drop 1 separator)"
    using strchr_length by fastforce+
  then show ?case by (cases separator) auto
qed simp

declare oid_arcs.simps [simp del]

definition BerEncoder_encodeOIDToBuffer :: "string \<Rightarrow> int \<Rightarrow> byte list \<times> int" where
  "BerEncoder_encodeOIDToBuffer oidString maxBufLen =
     (case strchr oidString (CHR ''.'') of
        None \<Rightarrow> ([], 0)
      | Some separator \<Rightarrow>
          (let val = atoi oidString * 40 + atoi (drop 1 separator)
           in if 0 < maxBufLen then oid_arcs separator [word_of_int val] maxBufLen else ([], 0)))"

text \<open>Reading one arc back: seven bits per octet, the high bit marks all octets but the last.\<close>

definition arc_value :: "byte list \<Rightarrow> int" where
  "arc_value os = foldl (\<lambda>v b. v * 128 + uint b mod 128) 0 os"

lemma arc_value_foldl:
  "0 \<le> v \<Longrightarrow> foldl (\<lambda>w b. w * 128 + uint b mod 128) (v div 128 ^ k) (oid_arc v k) = v"
proof (induction k)
  case 0
  then show ?case by simp
next
  case (Suc k)
  let ?d = "(v div 128 ^ k) mod 128"
  have "0 \<le> ?d" "?d < 128" by simp_all
  moreover from this have "uint (word_of_int (?d + c) :: byte) = ?d + c" if "0 \<le> c" "c \<le> 128" for c
    using that by (intro uint_of_int_byte) linarith+
  ultimately have "uint (word_of_int (?d + (if k > 0 then 128 else 0)) :: byte) mod 128 = ?d" by auto
  moreover have "v div 128 ^ Suc k * 128 + ?d = v div 128 ^ k"
  proof -
    have "v div 128 ^ Suc k = (v div 128 ^ k) div 128"
      by (simp add: mult.commute [of 128]) (rule zdiv_zmult2_eq, simp)
    then show ?thesis by simp
  qed
  ultimately show ?case using Suc by simp
qed

lemma oid_requiredBytes_covers: "0 \<le> v \<Longrightarrow> v div 128 ^ oid_requiredBytes v = 0"
proof (induction v rule: oid_requiredBytes.induct)
  case (1 v)
  show ?case
  proof (cases "v > 0")
    case True
    then have "v div 128 div 128 ^ oid_requiredBytes (v div 128) = 0" using 1 by simp
    with True show ?thesis by (simp add: oid_requiredBytes.simps [of v] zdiv_zmult2_eq)
  next
    case False
    with 1 show ?thesis by (simp add: oid_requiredBytes.simps [of v])
  qed
qed

text \<open>
  One arc of an object identifier: the octets the encoder writes for a non-negative arc give
  the arc back, seven bits each; but an arc that is zero gets no octet at all.
\<close>

theorem oid_arc_octets:
  "(0 \<le> v \<longrightarrow> arc_value (oid_arc v (oid_requiredBytes v)) = v)
   \<and> (oid_arc v (oid_requiredBytes v) = [] \<longleftrightarrow> v \<le> 0)"
proof -
  have "oid_arc v (oid_requiredBytes v) = [] \<longleftrightarrow> v \<le> 0"
    by (cases "oid_requiredBytes v") (auto simp: oid_requiredBytes.simps [of v] split: if_splits)
  then show ?thesis
    using arc_value_foldl [of v "oid_requiredBytes v"] oid_requiredBytes_covers [of v]
    by (simp add: arc_value_def)
qed

theorem oid_arc_octets_witness:
  "arc_value (oid_arc 9506 (oid_requiredBytes 9506)) = 9506"
  using oid_arc_octets [of 9506] by simp

lemma encodeOID_mms: "BerEncoder_encodeOIDToBuffer ''1.0.9506.2.3'' 10 = ([0x28, 0xca, 0x22, 2, 3], 5)"
  by code_simp

lemma oid_arcs_within:
  "int (length out) \<le> mx \<Longrightarrow> oid_arcs sep out mx = (res, r)
   \<Longrightarrow> int (length res) \<le> mx \<and> (r = 0 \<or> r = int (length res))"
proof (induction sep out mx rule: oid_arcs.induct)
  case (1 separator out mx)
  show ?case
  proof (cases "strchr (drop 1 separator) (CHR ''.'')")
    case None
    with 1 show ?thesis by (auto simp: oid_arcs.simps [of separator])
  next
    case (Some sep)
    let ?o = "oid_arc (atoi (drop 1 sep)) (oid_requiredBytes (atoi (drop 1 sep)))"
    show ?thesis
    proof (cases "length ?o \<le> nat (mx - int (length out))")
      case True
      then have eq: "oid_arcs separator out mx = oid_arcs sep (out @ ?o) mx"
        using Some by (simp add: oid_arcs.simps [of separator] Let_def)
      have "int (length (out @ ?o)) \<le> mx" using True 1(2) by simp
      from 1(1) [OF Some refl refl refl True this] 1(3) eq show ?thesis by simp
    next
      case False
      then have "res = out @ take (nat (mx - int (length out))) ?o" "r = 0"
        using 1(3) Some by (simp_all add: oid_arcs.simps [of separator] Let_def)
      moreover have "length (take (nat (mx - int (length out))) ?o) \<le> nat (mx - int (length out))"
        by simp
      ultimately show ?thesis using 1(2) by (simp add: nat_le_iff del: length_take)
    qed
  qed
qed

text \<open>\<open>BerEncoder_encodeOIDToBuffer\<close> never writes more than \<open>maxBufLen\<close> octets.\<close>

theorem encodeOIDToBuffer_bounded:
  assumes "0 \<le> maxBufLen"
  shows "int (length (fst (BerEncoder_encodeOIDToBuffer oid maxBufLen))) \<le> maxBufLen"
proof (cases "strchr oid (CHR ''.'')")
  case None
  with assms show ?thesis by (simp add: BerEncoder_encodeOIDToBuffer_def)
next
  case (Some sep)
  let ?out = "[word_of_int (atoi oid * 40 + atoi (drop 1 sep))]"
  obtain res r where r: "oid_arcs sep ?out maxBufLen = (res, r)" by (cases "oid_arcs sep ?out maxBufLen")
  show ?thesis
    using Some assms r oid_arcs_within [of ?out maxBufLen sep res r]
    by (auto simp: BerEncoder_encodeOIDToBuffer_def Let_def)
qed

theorem encodeOIDToBuffer_bounded_witness:
  "int (length (fst (BerEncoder_encodeOIDToBuffer ''1.3.9999.33'' 3))) \<le> 3"
  using encodeOIDToBuffer_bounded [of 3 "''1.3.9999.33''"] by simp

end
