(* ===== verification/Ber_Integer.thy ===== *)
theory Ber_Integer
  imports Ber
begin

text \<open>
  BER integer objects: \<open>libiec61850/src/mms/asn1/asn1_ber_primitive_value.c\<close> and
  \<open>ber_integer.c\<close>. An \<open>Asn1PrimitiveValue\<close> owns \<open>maxSize\<close> octets of which the first \<open>size\<close> are
  the big-endian two's complement encoding of the value.
\<close>

unbundle bit_operations_syntax

section \<open>Primitive values\<close>

record Asn1PrimitiveValue =
  psize :: int
  pmaxSize :: int
  octets :: "byte list"

definition Asn1PrimitiveValue_create :: "int \<Rightarrow> Asn1PrimitiveValue" where
  "Asn1PrimitiveValue_create n = \<lparr>psize = 1, pmaxSize = n, octets = replicate (nat n) 0\<rparr>"

definition Asn1PrimitiveValue_clone :: "Asn1PrimitiveValue \<Rightarrow> Asn1PrimitiveValue" where
  "Asn1PrimitiveValue_clone self =
     \<lparr>psize = psize self, pmaxSize = pmaxSize self, octets = take (nat (pmaxSize self)) (octets self)\<rparr>"

definition Asn1PrimitivaValue_compare :: "Asn1PrimitiveValue \<Rightarrow> Asn1PrimitiveValue \<Rightarrow> bool run" where
  "Asn1PrimitivaValue_compare self other =
     (if psize self = psize other
      then rbind (rd_n (octets self) 0 (nat (psize self))) (\<lambda>a.
             rbind (rd_n (octets other) 0 (nat (psize self))) (\<lambda>b. Inr (a = b)))
      else Inr False)"

definition Asn1PrimitiveValue_getSize :: "Asn1PrimitiveValue \<Rightarrow> int" where
  "Asn1PrimitiveValue_getSize self = psize self"

definition Asn1PrimitiveValue_getMaxSize :: "Asn1PrimitiveValue \<Rightarrow> int" where
  "Asn1PrimitiveValue_getMaxSize self = pmaxSize self"

definition BerEncoder_encodeAsn1PrimitiveValue ::
    "byte \<Rightarrow> Asn1PrimitiveValue \<Rightarrow> byte list \<Rightarrow> byte list run" where
  "BerEncoder_encodeAsn1PrimitiveValue tag v out =
     rbind (rd_n (octets v) 0 (nat (psize v))) (\<lambda>os.
       Inr (BerEncoder_encodeLength (word_of_int (psize v)) (out @ [tag]) @ os))"

definition value_ok :: "Asn1PrimitiveValue \<Rightarrow> bool" where
  "value_ok v \<longleftrightarrow> 0 < psize v \<and> psize v \<le> pmaxSize v \<and> int (length (octets v)) = pmaxSize v"

definition value_octets :: "Asn1PrimitiveValue \<Rightarrow> byte list" where
  "value_octets v = take (nat (psize v)) (octets v)"


section \<open>Setting and reading integers\<close>

text \<open>
  \<open>setIntegerValue\<close>: the octets come in memory order (little endian); they are reversed,
  shortened, and stored if the value object has room.
\<close>

definition setIntegerValue :: "Asn1PrimitiveValue \<Rightarrow> byte list \<Rightarrow> (Asn1PrimitiveValue \<times> int) run" where
  "setIntegerValue self valueBuffer =
     (let (b, n) = BerEncoder_compressInteger (BerEncoder_revertByteOrder valueBuffer (length valueBuffer))
      in if int n \<le> pmaxSize self
         then rbind (memcpy_to (octets self) 0 b (int n)) (\<lambda>os.
                Inr (self\<lparr>psize := int n, octets := os\<rparr>, 1))
         else Inr (self, 0))"

definition BerInteger_createInt32 :: "Asn1PrimitiveValue" where
  "BerInteger_createInt32 = Asn1PrimitiveValue_create 5"

definition BerInteger_createFromBuffer :: "byte list \<Rightarrow> int \<Rightarrow> Asn1PrimitiveValue run" where
  "BerInteger_createFromBuffer buf n =
     (let mx = (if n > 8 then n else 8); self = Asn1PrimitiveValue_create mx
      in rbind (memcpy_to (octets self) 0 buf n) (\<lambda>os. Inr (self\<lparr>octets := os, psize := n\<rparr>)))"

definition BerInteger_setFromBerInteger ::
    "Asn1PrimitiveValue \<Rightarrow> Asn1PrimitiveValue \<Rightarrow> (Asn1PrimitiveValue \<times> int) run" where
  "BerInteger_setFromBerInteger self v =
     (if psize v \<le> pmaxSize self
      then rbind (memcpy_to (octets self) 0 (octets v) (psize v)) (\<lambda>os.
             Inr (self\<lparr>psize := psize v, octets := os\<rparr>, 1))
      else Inr (self, 0))"

text \<open>The memory image of a machine integer of \<open>n\<close> octets (little endian).\<close>

definition le_octets :: "nat \<Rightarrow> 'a :: len word \<Rightarrow> byte list" where
  "le_octets n v = map (\<lambda>i. ucast (drop_bit (8 * i) v)) [0..<n]"

definition BerInteger_setInt32 :: "Asn1PrimitiveValue \<Rightarrow> u32 \<Rightarrow> (Asn1PrimitiveValue \<times> int) run" where
  "BerInteger_setInt32 self v = setIntegerValue self (le_octets 4 v)"

definition BerInteger_createFromInt32 :: "u32 \<Rightarrow> Asn1PrimitiveValue run" where
  "BerInteger_createFromInt32 v =
     rbind (BerInteger_setInt32 BerInteger_createInt32 v) (\<lambda>(self, _). Inr self)"

definition BerInteger_setUint16 :: "Asn1PrimitiveValue \<Rightarrow> u16 \<Rightarrow> (Asn1PrimitiveValue \<times> int) run" where
  "BerInteger_setUint16 self v = setIntegerValue self (le_octets 2 v)"

definition BerInteger_setUint8 :: "Asn1PrimitiveValue \<Rightarrow> byte \<Rightarrow> (Asn1PrimitiveValue \<times> int) run" where
  "BerInteger_setUint8 self v = setIntegerValue self (le_octets 1 v)"

definition BerInteger_setUint32 :: "Asn1PrimitiveValue \<Rightarrow> u32 \<Rightarrow> (Asn1PrimitiveValue \<times> int) run" where
  "BerInteger_setUint32 self v = setIntegerValue self (le_octets 4 v @ [0])"

definition BerInteger_createFromUint32 :: "u32 \<Rightarrow> Asn1PrimitiveValue run" where
  "BerInteger_createFromUint32 v =
     rbind (BerInteger_setUint32 BerInteger_createInt32 v) (\<lambda>(self, _). Inr self)"

definition BerInteger_createInt64 :: "Asn1PrimitiveValue" where
  "BerInteger_createInt64 = Asn1PrimitiveValue_create 9"

definition BerInteger_setInt64 :: "Asn1PrimitiveValue \<Rightarrow> u64 \<Rightarrow> (Asn1PrimitiveValue \<times> int) run" where
  "BerInteger_setInt64 self v = setIntegerValue self (le_octets 8 v)"

definition BerInteger_createFromInt64 :: "u64 \<Rightarrow> Asn1PrimitiveValue run" where
  "BerInteger_createFromInt64 v =
     rbind (BerInteger_setInt64 BerInteger_createInt64 v) (\<lambda>(self, _). Inr self)"

text \<open>
  The readers return the value, or \<open>None\<close> where the code returns 0 (out of range). A negative
  number fits \<open>int32_t\<close> exactly when it has at most four octets; signed results are bit patterns.
\<close>

definition read_octets :: "'a :: len word \<Rightarrow> Asn1PrimitiveValue \<Rightarrow> 'a word run" where
  "read_octets start self =
     rbind (rd_n (octets self) 0 (nat (psize self))) (\<lambda>xs.
       Inr (foldl (\<lambda>v x. push_bit 8 v OR ucast x) start xs))"

definition BerInteger_toInt32 :: "Asn1PrimitiveValue \<Rightarrow> u32 option run" where
  "BerInteger_toInt32 self =
     (if psize self < 5
      then rbind (rd (octets self) 0) (\<lambda>b0.
             rbind (read_octets (if b0 AND 0x80 \<noteq> 0 then 0xffffffff else 0) self) (\<lambda>v. Inr (Some v)))
      else Inr None)"

definition BerInteger_toUint32 :: "Asn1PrimitiveValue \<Rightarrow> u32 option run" where
  "BerInteger_toUint32 self =
     (if psize self < 6 then rbind (read_octets 0 self) (\<lambda>v. Inr (Some v)) else Inr None)"

definition BerInteger_toInt64 :: "Asn1PrimitiveValue \<Rightarrow> u64 option run" where
  "BerInteger_toInt64 self =
     (if psize self < 9
      then rbind (rd (octets self) 0) (\<lambda>b0.
             rbind (read_octets (if b0 AND 0x80 \<noteq> 0 then 0xffffffffffffffff else 0) self) (\<lambda>v.
               Inr (Some v)))
      else Inr None)"


section \<open>Correctness\<close>

lemma setIntegerValue_spec:
  assumes ok: "value_ok self" and len: "0 < length vb" "int (length vb) \<le> pmaxSize self"
  defines "be \<equiv> rev vb"
  defines "res \<equiv> drop (redundant_octets be) be"
  shows "\<exists>self'. setIntegerValue self vb = Inr (self', 1) \<and> value_ok self'
       \<and> pmaxSize self' = pmaxSize self \<and> value_octets self' = res"
proof -
  obtain b n where c: "BerEncoder_compressInteger be = (b, n)"
    by (cases "BerEncoder_compressInteger be")
  have n: "n = length be - redundant_octets be" and tk: "take n b = res" and lb: "length b = length be"
    using c compress_take [of be] redundant_le [of be]
    by (auto simp: BerEncoder_compressInteger_def Let_def res_def)
  have n0: "0 < n" "n \<le> length vb"
    using n redundant_le [of be] len by (cases vb; force simp: be_def)+
  have os: "length (octets self) = nat (pmaxSize self)" using ok by (auto simp: value_ok_def)
  let ?os = "take n b @ drop n (octets self)"
  have cpy: "memcpy_to (octets self) 0 b (int n) = Inr ?os"
    using n0 len os lb by (simp add: memcpy_to_def be_def)
  let ?self = "self\<lparr>psize := int n, octets := ?os\<rparr>"
  have "setIntegerValue self vb = Inr (?self, 1)"
    using c n0 len cpy by (simp add: setIntegerValue_def revertByteOrder_rev be_def)
  moreover have lt: "length (take n b) = n" using lb n0 by (simp add: be_def)
  then have "value_ok ?self" using n0 len os ok by (auto simp: value_ok_def)
  moreover have "value_octets ?self = res" using tk lt by (simp add: value_octets_def)
  ultimately show ?thesis by auto
qed

lemma rd_n_value: "value_ok v \<Longrightarrow> rd_n (octets v) 0 (nat (psize v)) = Inr (value_octets v)"
proof -
  assume ok: "value_ok v"
  then have "length (value_octets v) = nat (psize v)" by (auto simp: value_ok_def value_octets_def)
  moreover have "bytes_at (octets v) 0 (value_octets v)"
    using bytes_at_self [of "value_octets v" "drop (nat (psize v)) (octets v)"]
    by (simp add: value_octets_def)
  ultimately show ?thesis using rd_n_bytes_at by fastforce
qed

lemma rd_first_value: "value_ok v \<Longrightarrow> rd (octets v) 0 = Inr (hd (value_octets v))"
  by (cases "octets v") (auto simp: value_ok_def value_octets_def rd_def hd_conv_nth)

lemma read_octets_word:
  "value_ok v \<Longrightarrow> read_octets (word_of_int a) v = Inr (word_of_int (be_from a (value_octets v)))"
  by (simp add: read_octets_def rd_n_value foldl_or_word)

lemma read_signed:
  assumes "value_ok v"
  shows "rbind (rd (octets v) 0) (\<lambda>b0.
           read_octets (if b0 AND 0x80 \<noteq> 0 then word_of_int (-1) else word_of_int 0) v)
         = Inr (word_of_int (be_sint (value_octets v)))"
proof -
  have "value_octets v \<noteq> []" using assms by (auto simp: value_ok_def value_octets_def)
  then obtain x xs where x: "value_octets v = x # xs" by (cases "value_octets v") auto
  show ?thesis
    using assms by (simp only: rd_first_value rbind.simps read_octets_word if_distrib [of "\<lambda>s. read_octets s v"])
      (simp add: x be_sint_def)
qed

text \<open>The memory image of a word is its value.\<close>

lemma ucast_ucast_byte: "(ucast (ucast v :: byte) :: 'a :: len word) = take_bit 8 (v :: 'a word)"
  by (rule bit_word_eqI) (auto simp: bit_simps)

lemma rev_le_octets_Suc: "rev (le_octets (Suc n) v) = ucast (drop_bit (8 * n) v) # rev (le_octets n v)"
  by (simp add: le_octets_def)

lemma be_from_octets: "(word_of_int (be_from a (rev (le_octets n v))) :: 'a :: len word)
    = push_bit (8 * n) (word_of_int a) + take_bit (8 * n) v"
proof (induction n arbitrary: a)
  case 0
  then show ?case by (simp add: le_octets_def)
next
  case (Suc n)
  let ?top = "ucast (drop_bit (8 * n) v) :: byte" and ?w = "take_bit (8 * n + 8) v"
  have top: "(ucast ?top :: 'a word) = drop_bit (8 * n) ?w"
    by (simp add: ucast_ucast_byte drop_bit_take_bit)
  have "push_bit (8 * n) (drop_bit (8 * n) ?w) + take_bit (8 * n) ?w = ?w" by (rule bits_ident)
  then have w: "push_bit (8 * n) (ucast ?top) + take_bit (8 * n) v = ?w" by (simp add: top)
  have "word_of_int (be_from a (rev (le_octets (Suc n) v)))
        = push_bit (8 * n) (push_bit 8 (word_of_int a) + ucast ?top :: 'a word) + take_bit (8 * n) v"
    by (simp only: rev_le_octets_Suc be_from_Cons Suc push_add_word)
  also have "\<dots> = push_bit (8 * n + 8) (word_of_int a) + ?w"
    by (simp only: push_bit_add push_bit_push_bit add.assoc w)
  finally show ?case by (simp add: add.commute)
qed

lemma word_of_octets:
  "8 * n = LENGTH('a) \<Longrightarrow> (word_of_int (be_sint (rev (le_octets n v))) :: 'a :: len word) = v"
proof -
  assume n: "8 * n = LENGTH('a)"
  have "word_of_int (be_from a (rev (le_octets n v))) = v" for a
    unfolding be_from_octets n by (simp add: push_bit_eq_mult)
  then show ?thesis using be_from_unsigned [of "rev (le_octets n v)" 0] by auto
qed

lemma length_le_octets [simp]: "length (le_octets n v) = n"
  by (simp add: le_octets_def)

lemma le_octets_4: "le_octets 4 (v :: u32) = le_bytes32 v"
  by (simp add: le_octets_def le_bytes32_def upt_rec numeral_eq_Suc)

lemma psize_value_octets: "value_ok v \<Longrightarrow> psize v = int (length (value_octets v))"
  by (auto simp: value_ok_def value_octets_def min_def)

lemma setInteger_roundtrip:
  assumes ok: "value_ok self" and n: "8 * n = LENGTH('a :: len)" "int n \<le> pmaxSize self"
  shows "\<exists>self'. setIntegerValue self (le_octets n (v :: 'a word)) = Inr (self', 1) \<and> value_ok self'
       \<and> psize self' \<le> int n \<and> word_of_int (be_sint (value_octets self')) = v
       \<and> redundant_octets (value_octets self') = 0"
proof -
  have "0 < n" using n(1) by (cases n) auto
  then have l: "0 < length (le_octets n v)" "int (length (le_octets n v)) \<le> pmaxSize self"
    using n by simp_all
  from setIntegerValue_spec [OF ok l] obtain self' where
    s: "setIntegerValue self (le_octets n v) = Inr (self', 1)" "value_ok self'"
    "value_octets self' = drop (redundant_octets (rev (le_octets n v))) (rev (le_octets n v))"
    by blast
  then show ?thesis
    using word_of_octets [OF n(1), of v] psize_value_octets [OF s(2)]
    by (auto simp: be_sint_drop_redundant redundant_drop)
qed

lemma all_ones: "(0xffffffff :: u32) = -1" "(0xffffffffffffffff :: u64) = -1"
  by simp_all

text \<open>
  Writing a signed 32 bit value into a BER integer and reading it back gives the same value,
  for every value and every value object with room for four octets; the stored encoding is a
  shortest one.
\<close>

theorem BerInteger_int32_roundtrip:
  assumes "value_ok self" and "4 \<le> pmaxSize self"
  shows "\<exists>self'. BerInteger_setInt32 self v = Inr (self', 1) \<and> BerInteger_toInt32 self' = Inr (Some v)
       \<and> value_ok self' \<and> redundant_octets (value_octets self') = 0"
proof -
  from setInteger_roundtrip [OF assms(1), of 4 v] assms(2) obtain self' where
    s: "setIntegerValue self (le_octets 4 v) = Inr (self', 1)" "value_ok self'" "psize self' \<le> 4"
    "word_of_int (be_sint (value_octets self')) = v" "redundant_octets (value_octets self') = 0" by auto
  have "rbind (rd (octets self') 0) (\<lambda>b0.
          rbind (read_octets (if b0 AND 0x80 \<noteq> 0 then 0xffffffff else 0) self') (\<lambda>v. Inr (Some v)))
        = Inr (Some v)"
    using read_signed [where 'a = 32, OF s(2)] s(4)
    by (cases "rd (octets self') 0") (auto simp: rd_first_value [OF s(2)] all_ones)
  then show ?thesis using s by (auto simp: BerInteger_setInt32_def BerInteger_toInt32_def)
qed

theorem BerInteger_int32_roundtrip_witness:
  "\<exists>self'. BerInteger_setInt32 BerInteger_createInt32 (-2) = Inr (self', 1)
         \<and> BerInteger_toInt32 self' = Inr (Some (-2))"
  using BerInteger_int32_roundtrip [of BerInteger_createInt32 "-2"]
  by (auto simp: BerInteger_createInt32_def Asn1PrimitiveValue_create_def value_ok_def)

text \<open>
  The same for signed 64 bit values in an object made by \<open>BerInteger_createInt64\<close> or larger.
\<close>

theorem BerInteger_int64_roundtrip:
  assumes "value_ok self" and "8 \<le> pmaxSize self"
  shows "\<exists>self'. BerInteger_setInt64 self v = Inr (self', 1) \<and> BerInteger_toInt64 self' = Inr (Some v)
       \<and> value_ok self' \<and> redundant_octets (value_octets self') = 0"
proof -
  from setInteger_roundtrip [OF assms(1), of 8 v] assms(2) obtain self' where
    s: "setIntegerValue self (le_octets 8 v) = Inr (self', 1)" "value_ok self'" "psize self' \<le> 8"
    "word_of_int (be_sint (value_octets self')) = v" "redundant_octets (value_octets self') = 0" by auto
  have "rbind (rd (octets self') 0) (\<lambda>b0.
          rbind (read_octets (if b0 AND 0x80 \<noteq> 0 then 0xffffffffffffffff else 0) self') (\<lambda>v. Inr (Some v)))
        = Inr (Some v)"
    using read_signed [where 'a = 64, OF s(2)] s(4)
    by (cases "rd (octets self') 0") (auto simp: rd_first_value [OF s(2)] all_ones)
  then show ?thesis using s by (auto simp: BerInteger_setInt64_def BerInteger_toInt64_def)
qed

theorem BerInteger_int64_roundtrip_witness:
  "\<exists>self'. BerInteger_setInt64 BerInteger_createInt64 (-2) = Inr (self', 1)
         \<and> BerInteger_toInt64 self' = Inr (Some (-2))"
  using BerInteger_int64_roundtrip [of BerInteger_createInt64 "-2"]
  by (auto simp: BerInteger_createInt64_def Asn1PrimitiveValue_create_def value_ok_def)

lemma BerInteger_uint32_roundtrip:
  assumes ok: "value_ok self" and mx: "5 \<le> pmaxSize self"
  shows "\<exists>self'. BerInteger_setUint32 self v = Inr (self', 1) \<and> BerInteger_toUint32 self' = Inr (Some v)
       \<and> value_ok self' \<and> be_sint (value_octets self') = uint v"
proof -
  have l: "0 < length (le_octets 4 v @ [0])" "int (length (le_octets 4 v @ [0])) \<le> pmaxSize self"
    using mx by simp_all
  from setIntegerValue_spec [OF ok l] obtain self' where
    s: "setIntegerValue self (le_octets 4 v @ [0]) = Inr (self', 1)" "value_ok self'"
    "value_octets self' = uint32_octets v"
    by (auto simp: le_octets_4 uint32_octets_eq)
  have "psize self' < 6" using psize_value_octets [OF s(2)] uint32_octets_length [of v] s(3) by simp
  moreover have "read_octets 0 self' = Inr v"
    using read_octets_word [OF s(2), where 'a = 32, of 0] s(3) by (simp add: be_from_uint32_octets)
  ultimately show ?thesis using s
    by (auto simp: BerInteger_setUint32_def BerInteger_toUint32_def be_sint_uint32_octets)
qed

text \<open>
  A value object keeps its shape whatever is stored: a value that does not fit is refused and
  leaves the object alone.
\<close>

lemma setIntegerValue_ok:
  assumes "value_ok self" and "0 < length vb" and "setIntegerValue self vb = Inr (self', r)"
  shows "value_ok self' \<and> pmaxSize self' = pmaxSize self \<and> (r = 0 \<longrightarrow> self' = self)"
proof -
  obtain b n where c: "BerEncoder_compressInteger (rev vb) = (b, n)"
    by (cases "BerEncoder_compressInteger (rev vb)")
  then have n: "n = length vb - redundant_octets (rev vb)" "length b = length vb"
    using redundant_le [of "rev vb"] by (auto simp: BerEncoder_compressInteger_def Let_def)
  then have "0 < n" using redundant_le [of "rev vb"] assms(2) by (cases vb; force)
  then show ?thesis
    using assms(1,3) c n
    by (auto simp: setIntegerValue_def revertByteOrder_rev value_ok_def memcpy_to_def split: if_splits)
qed

text \<open>Comparing a value with a clone of itself succeeds.\<close>

lemma compare_clone:
  "value_ok v \<Longrightarrow> Asn1PrimitivaValue_compare v (Asn1PrimitiveValue_clone v) = Inr True"
proof -
  assume ok: "value_ok v"
  then have "Asn1PrimitiveValue_clone v = v"
    by (cases v) (auto simp: Asn1PrimitiveValue_clone_def value_ok_def)
  with ok show ?thesis by (simp add: Asn1PrimitivaValue_compare_def rd_n_value)
qed

end
