(* ===== verification/Cotp.thy ===== *)
theory Cotp
  imports Byte_Buffer "HOL-Library.Signed_Division"
begin

text \<open>
  The transport layer, \<open>libiec61850/src/mms/iso_cotp/cotp.c\<close>: TPKT framing (RFC 1006) and the
  class 0 COTP protocol (ISO 8073). The socket is outside of the model: its state is a type
  variable, and the two operations the code uses are arguments.
\<close>

unbundle bit_operations_syntax

section \<open>State\<close>

text \<open>\<open>TSelector\<close>: a length octet and an array of four octets.\<close>

record TSelector =
  tsel_size :: byte
  tsel_value :: "byte list"

record CotpOptions =
  tSelSrc :: TSelector
  tSelDst :: TSelector
  tpduSize :: byte

record CotpConnection =
  srcRef :: int
  dstRef :: int
  protocolClass :: int
  options :: CotpOptions
  isLastDataUnit :: bool
  payload :: ByteBuffer
  writeBuffer :: ByteBuffer
  readBuffer :: ByteBuffer
  packetSize :: u16

datatype CotpIndication =
    COTP_OK | COTP_ERROR | COTP_CONNECT_INDICATION | COTP_DATA_INDICATION
  | COTP_DISCONNECT_INDICATION | COTP_MORE_FRAGMENTS_FOLLOW

datatype TpktState = TPKT_PACKET_COMPLETE | TPKT_WAITING | TPKT_ERROR

text \<open>
  The socket operations: \<open>sock_write s bs\<close> is the new state and the number of octets
  written (-1 on error); \<open>sock_read s n\<close> with a count \<open>n\<close> (a \<open>size_t\<close>) is the new state, the result
  of the call (-1 on error or end of stream) and the octets put into the caller's buffer.
\<close>

record 's socket_ops =
  sock_write :: "'s \<Rightarrow> byte list \<Rightarrow> 's \<times> int"
  sock_read :: "'s \<Rightarrow> nat \<Rightarrow> 's \<times> int \<times> byte list"

definition COTP_MAX_TPDU_SIZE :: int where
  "COTP_MAX_TPDU_SIZE = 8192"

definition COTP_DATA_HEADER_SIZE :: int where
  "COTP_DATA_HEADER_SIZE = 3"


section \<open>TPDU size\<close>

definition CotpConnection_getTpduSize :: "CotpConnection \<Rightarrow> int" where
  "CotpConnection_getTpduSize self = 2 ^ unat (tpduSize (options self))"

function tpdu_exponent :: "nat \<Rightarrow> int \<Rightarrow> nat" where
  "tpdu_exponent n t = (if 2 ^ n < t then tpdu_exponent (Suc n) t else n)"
  by pat_completeness auto
termination
proof (relation "measure (\<lambda>(n, t). nat (t - int n))", goal_cases)
  case (2 n t)
  have "int n < int (2 ^ n)" by (simp only: of_nat_less_iff less_exp)
  then have "int n < 2 ^ n" by (simp only: of_nat_power of_nat_numeral)
  from this 2 have "int n < t" by linarith
  then show ?case by simp
qed simp

declare tpdu_exponent.simps [simp del]

definition CotpConnection_setTpduSize :: "CotpConnection \<Rightarrow> int \<Rightarrow> CotpConnection" where
  "CotpConnection_setTpduSize self t0 =
     (let t = (if t0 > COTP_MAX_TPDU_SIZE then COTP_MAX_TPDU_SIZE else t0);
          n = tpdu_exponent 1 t;
          newTpduSize = (if 2 ^ n > t then n - 1 else n)
      in self\<lparr>options := (options self)\<lparr>tpduSize := of_nat newTpduSize\<rparr>\<rparr>)"


section \<open>Writing\<close>

text \<open>Writing octets into the write buffer at a position and setting its size behind them.\<close>

definition put_at :: "CotpConnection \<Rightarrow> int \<Rightarrow> byte list \<Rightarrow> CotpConnection run" where
  "put_at self pos bs =
     rbind (memcpy_to (buffer (writeBuffer self)) pos bs (int (length bs))) (\<lambda>b.
       Inr (self\<lparr>writeBuffer := (writeBuffer self)\<lparr>buffer := b, bsize := pos + int (length bs)\<rparr>\<rparr>))"

definition selector_option :: "byte \<Rightarrow> TSelector \<Rightarrow> byte list run" where
  "selector_option code sel =
     (if tsel_size sel \<noteq> 0
      then rbind (rd_n (tsel_value sel) 0 (unat (tsel_size sel))) (\<lambda>v. Inr ([code, tsel_size sel] @ v))
      else Inr [])"

definition writeOptions :: "CotpConnection \<Rightarrow> CotpConnection run" where
  "writeOptions self =
     (let opt = options self;
          o1 = (if tpduSize opt \<noteq> 0 then [0xc0, 0x01, tpduSize opt] else [])
      in rbind (selector_option 0xc2 (tSelDst opt)) (\<lambda>o2.
         rbind (selector_option 0xc1 (tSelSrc opt)) (\<lambda>o3.
           put_at self (bsize (writeBuffer self)) (o1 @ o2 @ o3))))"

definition getOptionsLength :: "CotpConnection \<Rightarrow> int" where
  "getOptionsLength self =
     (let opt = options self
      in (if tpduSize opt \<noteq> 0 then 3 else 0)
       + (if tsel_size (tSelDst opt) \<noteq> 0 then 2 + uint (tsel_size (tSelDst opt)) else 0)
       + (if tsel_size (tSelSrc opt) \<noteq> 0 then 2 + uint (tsel_size (tSelSrc opt)) else 0))"

definition writeStaticConnectResponseHeader :: "CotpConnection \<Rightarrow> int \<Rightarrow> CotpConnection run" where
  "writeStaticConnectResponseHeader self optionsLength =
     put_at self 4 [word_of_int (6 + optionsLength), 0xd0,
                    word_of_int (srcRef self sdiv 0x100), word_of_int (srcRef self),
                    word_of_int (dstRef self sdiv 0x100), word_of_int (dstRef self),
                    word_of_int (protocolClass self)]"

definition writeRfc1006Header :: "CotpConnection \<Rightarrow> int \<Rightarrow> CotpConnection run" where
  "writeRfc1006Header self len =
     put_at self 0 [0x03, 0x00, word_of_int (len div 0x100), word_of_int len]"

definition writeDataTpduHeader :: "CotpConnection \<Rightarrow> bool \<Rightarrow> CotpConnection run" where
  "writeDataTpduHeader self isLastUnit =
     put_at self 4 [0x02, 0xf0, (if isLastUnit then 0x80 else 0x00)]"

text \<open>\<open>sendBuffer\<close> repeats the write while the socket takes nothing.\<close>

fun sendBuffer :: "nat \<Rightarrow> 's socket_ops \<Rightarrow> 's \<Rightarrow> CotpConnection \<Rightarrow> ('s \<times> CotpConnection \<times> bool) run" where
  "sendBuffer 0 ops s self = Inl Out_of_fuel"
| "sendBuffer (Suc n) ops s self =
     (let (s', sentBytes) = sock_write ops s (take (nat (bsize (writeBuffer self))) (buffer (writeBuffer self)))
      in if sentBytes = -1 then Inr (s', self, False)
         else if sentBytes = 0 then sendBuffer n ops s' self
         else Inr (s', self\<lparr>writeBuffer := fst (ByteBuffer_setSize (writeBuffer self) 0)\<rparr>, True))"

text \<open>
  The octets of a fragment are fetched one by one from the chain of buffer parts; the code goes
  to the next part when the index has reached the end of the current one.
\<close>

definition chain_fetch :: "BufferChain \<times> int \<Rightarrow> (byte \<times> BufferChain \<times> int) run" where
  "chain_fetch ci =
     rbind (if snd ci \<ge> partLength (fst ci)
            then (case nextPart (fst ci) of None \<Rightarrow> Inl Out_of_bounds | Some nx \<Rightarrow> Inr (nx, 0))
            else Inr ci)
       (\<lambda>(c, i). rbind (rd (chain_buffer c) i) (\<lambda>x. Inr (x, c, i + 1)))"

fun chain_fetch_n :: "nat \<Rightarrow> BufferChain \<times> int \<Rightarrow> (byte list \<times> BufferChain \<times> int) run" where
  "chain_fetch_n 0 ci = Inr ([], ci)"
| "chain_fetch_n (Suc n) ci =
     rbind (chain_fetch ci) (\<lambda>(x, ci').
       rbind (chain_fetch_n n ci') (\<lambda>(xs, ci''). Inr (x # xs, ci'')))"

text \<open>The loop of \<open>CotpConnection_sendDataMessage\<close> over the fragments that are left.\<close>

fun send_fragments ::
    "nat \<Rightarrow> 's socket_ops \<Rightarrow> int \<Rightarrow> int \<Rightarrow> nat \<Rightarrow> int \<Rightarrow> BufferChain \<times> int \<Rightarrow> 's \<Rightarrow> CotpConnection
     \<Rightarrow> ('s \<times> CotpConnection \<times> CotpIndication) run" where
  "send_fragments n ops fps totalLen 0 pos ci s self = Inr (s, self, COTP_OK)"
| "send_fragments n ops fps totalLen (Suc fragments) pos ci s self =
     (let lastUnit = (fragments = 0);
          currentLimit = (if lastUnit then totalLen else pos + fps)
      in rbind (writeRfc1006Header self (7 + (currentLimit - pos))) (\<lambda>self1.
         rbind (writeDataTpduHeader self1 lastUnit) (\<lambda>self2.
         rbind (chain_fetch_n (nat (currentLimit - pos)) ci) (\<lambda>(bs, ci').
         rbind (put_at self2 7 bs) (\<lambda>self3.
         rbind (sendBuffer n ops s self3) (\<lambda>(s', self4, ok).
           if ok then send_fragments n ops fps totalLen fragments (max pos currentLimit) ci' s' self4
           else Inr (s', self4, COTP_ERROR)))))))"

definition CotpConnection_sendDataMessage ::
    "nat \<Rightarrow> 's socket_ops \<Rightarrow> 's \<Rightarrow> CotpConnection \<Rightarrow> BufferChain
     \<Rightarrow> ('s \<times> CotpConnection \<times> CotpIndication) run" where
  "CotpConnection_sendDataMessage n ops s self chain =
     (let fps = CotpConnection_getTpduSize self - COTP_DATA_HEADER_SIZE;
          totalLen = chain_length chain;
          fragments = (if totalLen > fps
                       then totalLen sdiv fps + (if totalLen smod fps \<noteq> 0 then 1 else 0)
                       else 1)
      in send_fragments n ops fps totalLen (nat fragments) 0 (chain, 0) s self)"

text \<open>Connection request (client) and connection response (server).\<close>

definition CotpConnection_sendConnectionRequestMessage ::
    "nat \<Rightarrow> 's socket_ops \<Rightarrow> 's \<Rightarrow> CotpConnection \<Rightarrow> TSelector \<Rightarrow> TSelector
     \<Rightarrow> ('s \<times> CotpConnection \<times> CotpIndication) run" where
  "CotpConnection_sendConnectionRequestMessage n ops s self remoteTSelector localTSelector =
     (let self1 = self\<lparr>options := (options self)\<lparr>tSelDst := remoteTSelector, tSelSrc := localTSelector\<rparr>\<rparr>;
          cotpRequestSize = getOptionsLength self1 + 6;
          conRequestSize = cotpRequestSize + 5
      in if maxSize (writeBuffer self1) < conRequestSize then Inr (s, self1, COTP_ERROR)
         else rbind (writeRfc1006Header self1 conRequestSize) (\<lambda>self2.
              rbind (put_at self2 4 [word_of_int cotpRequestSize, 0xe0, 0x00, 0x00, 0x00, 0x02, 0x00]) (\<lambda>self3.
              rbind (writeOptions self3) (\<lambda>self4.
              rbind (sendBuffer n ops s self4) (\<lambda>(s', self5, ok).
                Inr (s', self5, if ok then COTP_OK else COTP_ERROR))))))"

definition CotpConnection_sendConnectionResponseMessage ::
    "nat \<Rightarrow> 's socket_ops \<Rightarrow> 's \<Rightarrow> CotpConnection \<Rightarrow> ('s \<times> CotpConnection \<times> CotpIndication) run" where
  "CotpConnection_sendConnectionResponseMessage n ops s self =
     (let optionsLength = getOptionsLength self
      in rbind (writeRfc1006Header self (11 + optionsLength)) (\<lambda>self1.
         rbind (writeStaticConnectResponseHeader self1 optionsLength) (\<lambda>self2.
         rbind (writeOptions self2) (\<lambda>self3.
         rbind (sendBuffer n ops s self3) (\<lambda>(s', self4, ok).
           Inr (s', self4, if ok then COTP_OK else COTP_ERROR))))))"


section \<open>Reading\<close>

text \<open>
  \<open>1 << v\<close> for an octet \<open>v\<close>: undefined from 32 on; 31 gives the most negative \<open>int\<close>.
\<close>

definition shift_one :: "byte \<Rightarrow> int run" where
  "shift_one v = (if uint v < 32 then Inr (i32 (2 ^ unat v)) else Inl Undefined_operation)"

definition set_selector :: "byte list \<Rightarrow> byte \<Rightarrow> TSelector \<Rightarrow> TSelector" where
  "set_selector v n old = \<lparr>tsel_size = n, tsel_value = v @ drop (length v) (tsel_value old)\<rparr>"

text \<open>
  One round of \<open>parseOptions\<close>; the options start at index \<open>base\<close> of the read buffer. \<open>Return\<close> is
  the jump to \<open>cpo_error\<close>.
\<close>

definition option_round ::
    "byte list \<Rightarrow> int \<Rightarrow> int \<Rightarrow> int \<times> CotpConnection \<Rightarrow> (int \<times> CotpConnection, CotpConnection) ctl run" where
  "option_round b base bufLen st =
     (case st of (bufPos, self) \<Rightarrow>
       rbind (rd b (base + bufPos)) (\<lambda>optionType.
       rbind (rd b (base + bufPos + 1)) (\<lambda>optionLen.
         let p = bufPos + 2; n = uint optionLen
         in if n > bufLen - p then Inr (Return self)
            else if optionType = 0xc0 then
              (if n = 1
               then rbind (rd b (base + p)) (\<lambda>v. rbind (shift_one v) (\<lambda>requestedTpduSize.
                      Inr (Continue (p + 1, CotpConnection_setTpduSize self requestedTpduSize))))
               else Inr (Return self))
            else if optionType = 0xc1 then
              (if n < 5
               then rbind (rd_n b (base + p) (nat n)) (\<lambda>v.
                      Inr (Continue (p + n, self\<lparr>options := (options self)
                        \<lparr>tSelSrc := set_selector v optionLen (tSelSrc (options self))\<rparr>\<rparr>)))
               else Inr (Return self))
            else if optionType = 0xc2 then
              (if n < 5
               then rbind (rd_n b (base + p) (nat n)) (\<lambda>v.
                      Inr (Continue (p + n, self\<lparr>options := (options self)
                        \<lparr>tSelDst := set_selector v optionLen (tSelDst (options self))\<rparr>\<rparr>)))
               else Inr (Return self))
            else if optionType = 0xc6 then
              (if n = 1 then Inr (Continue (p + 1, self)) else Inr (Return self))
            else Inr (Continue (p + n, self)))))"

definition parseOptions :: "CotpConnection \<Rightarrow> byte list \<Rightarrow> int \<Rightarrow> int \<Rightarrow> (CotpConnection \<times> bool) run" where
  "parseOptions self b base bufLen =
     rbind (c_while (Suc (nat bufLen)) (\<lambda>(bufPos, _). bufPos < bufLen) (option_round b base bufLen) (0, self))
       (\<lambda>r. case r of Return self' \<Rightarrow> Inr (self', False)
                    | Continue (_, self') \<Rightarrow> Inr (self', True))"

definition getUint16 :: "byte list \<Rightarrow> int \<Rightarrow> int run" where
  "getUint16 b i = rbind (rd b i) (\<lambda>x. rbind (rd b (i + 1)) (\<lambda>y. Inr (uint x * 0x100 + uint y)))"

definition getUint8 :: "byte list \<Rightarrow> int \<Rightarrow> int run" where
  "getUint8 b i = rbind (rd b i) (\<lambda>x. Inr (uint x))"

text \<open>The TPDU parsers; \<open>base\<close> is the index of the octet behind the TPDU code.\<close>

definition parseConnectRequestTpdu ::
    "CotpConnection \<Rightarrow> byte list \<Rightarrow> int \<Rightarrow> int \<Rightarrow> (CotpConnection \<times> bool) run" where
  "parseConnectRequestTpdu self b base len =
     (if len < 6 then Inr (self, False)
      else rbind (getUint16 b base) (\<lambda>d. rbind (getUint16 b (base + 2)) (\<lambda>r. rbind (getUint8 b (base + 4)) (\<lambda>c.
             parseOptions (self\<lparr>dstRef := d, srcRef := r, protocolClass := c\<rparr>) b (base + 5) (len - 6)))))"

definition parseConnectConfirmTpdu ::
    "CotpConnection \<Rightarrow> byte list \<Rightarrow> int \<Rightarrow> int \<Rightarrow> (CotpConnection \<times> bool) run" where
  "parseConnectConfirmTpdu self b base len =
     (if len < 6 then Inr (self, False)
      else rbind (getUint16 b base) (\<lambda>r. rbind (getUint16 b (base + 2)) (\<lambda>d. rbind (getUint8 b (base + 4)) (\<lambda>c.
             parseOptions (self\<lparr>srcRef := r, dstRef := d, protocolClass := c\<rparr>) b (base + 5) (len - 6)))))"

definition parseDataTpdu ::
    "CotpConnection \<Rightarrow> byte list \<Rightarrow> int \<Rightarrow> int \<Rightarrow> (CotpConnection \<times> bool) run" where
  "parseDataTpdu self b base len =
     (if len \<noteq> 2 then Inr (self, False)
      else rbind (rd b base) (\<lambda>flowControl.
             Inr (self\<lparr>isLastDataUnit := (flowControl AND 0x80 \<noteq> 0)\<rparr>, True)))"

definition addPayloadToBuffer :: "CotpConnection \<Rightarrow> byte list \<Rightarrow> int \<Rightarrow> (CotpConnection \<times> bool) run" where
  "addPayloadToBuffer self src payloadLength =
     (if bsize (payload self) + payloadLength > maxSize (payload self) then Inr (self, False)
      else rbind (memcpy_to (buffer (payload self)) (bsize (payload self)) src payloadLength) (\<lambda>b.
             Inr (self\<lparr>payload := (payload self)\<lparr>buffer := b, bsize := bsize (payload self) + payloadLength\<rparr>\<rparr>,
                  True)))"

definition parseCotpMessage :: "CotpConnection \<Rightarrow> (CotpConnection \<times> CotpIndication) run" where
  "parseCotpMessage self =
     (let b = buffer (readBuffer self); tpduLength = bsize (readBuffer self) - 4
      in rbind (rd b 4) (\<lambda>len8.
           let len = uint len8
           in if len > tpduLength then Inr (self, COTP_ERROR)
              else rbind (rd b 5) (\<lambda>tpduType.
                if tpduType = 0xe0 then
                  rbind (parseConnectRequestTpdu self b 6 len) (\<lambda>(self', ok).
                    Inr (self', if ok then COTP_CONNECT_INDICATION else COTP_ERROR))
                else if tpduType = 0xd0 then
                  rbind (parseConnectConfirmTpdu self b 6 len) (\<lambda>(self', ok).
                    Inr (self', if ok then COTP_CONNECT_INDICATION else COTP_ERROR))
                else if tpduType = 0xf0 then
                  rbind (parseDataTpdu self b 6 len) (\<lambda>(self', ok).
                    if ok
                    then rbind (addPayloadToBuffer self' (drop 7 b) (tpduLength - 3)) (\<lambda>(self'', fits).
                           Inr (self'', if \<not> fits then COTP_ERROR
                                        else if isLastDataUnit self'' then COTP_DATA_INDICATION
                                        else COTP_MORE_FRAGMENTS_FOLLOW))
                    else Inr (self', COTP_ERROR))
                else Inr (self, COTP_ERROR))))"

definition CotpConnection_parseIncomingMessage :: "CotpConnection \<Rightarrow> (CotpConnection \<times> CotpIndication) run" where
  "CotpConnection_parseIncomingMessage self =
     rbind (parseCotpMessage self) (\<lambda>(self', ind).
       Inr (self'\<lparr>readBuffer := (readBuffer self')\<lparr>bsize := 0\<rparr>, packetSize := 0\<rparr>, ind))"

definition CotpConnection_resetPayload :: "CotpConnection \<Rightarrow> CotpConnection" where
  "CotpConnection_resetPayload self = self\<lparr>payload := (payload self)\<lparr>bsize := 0\<rparr>\<rparr>"

text \<open>
  \<open>Socket_read(socket, buffer + bufPos, n)\<close>: the count is converted to \<open>size_t\<close>, and the octets
  that arrive are stored in the read buffer.
\<close>

definition socket_read_at :: "'s socket_ops \<Rightarrow> 's \<Rightarrow> byte list \<Rightarrow> int \<Rightarrow> int \<Rightarrow> ('s \<times> byte list \<times> int) run" where
  "socket_read_at ops s b pos n =
     (let (s', k, bs) = sock_read ops s (nat (n mod 2 ^ 64))
      in if k \<le> 0 then Inr (s', b, k)
         else rbind (memcpy_to b pos bs k) (\<lambda>b'. Inr (s', b', k)))"

definition read_body :: "'s socket_ops \<Rightarrow> 's \<Rightarrow> CotpConnection \<Rightarrow> byte list \<Rightarrow> int
    \<Rightarrow> ('s \<times> CotpConnection \<times> TpktState) run" where
  "read_body ops s self b bufPos =
     (let self0 = self\<lparr>readBuffer := (readBuffer self)\<lparr>buffer := b\<rparr>\<rparr>
      in rbind (socket_read_at ops s b bufPos (uint (packetSize self) - bufPos)) (\<lambda>(s', b', k).
           let self' = self0\<lparr>readBuffer := (readBuffer self0)\<lparr>buffer := b'\<rparr>\<rparr>
           in if k < 0 then Inr (s', self', TPKT_ERROR)
              else Inr (s', self'\<lparr>readBuffer := (readBuffer self')\<lparr>bsize := bufPos + k\<rparr>\<rparr>,
                        if bufPos + k < uint (packetSize self) then TPKT_WAITING else TPKT_PACKET_COMPLETE)))"

definition CotpConnection_readToTpktBuffer ::
    "'s socket_ops \<Rightarrow> 's \<Rightarrow> CotpConnection \<Rightarrow> ('s \<times> CotpConnection \<times> TpktState) run" where
  "CotpConnection_readToTpktBuffer ops s self =
     (let rb = readBuffer self; b = buffer rb; bufPos = bsize rb
      in if bufPos < 4
         then rbind (socket_read_at ops s b bufPos (4 - bufPos)) (\<lambda>(s', b', k).
                let self' = self\<lparr>readBuffer := rb\<lparr>buffer := b'\<rparr>\<rparr>
                in if k < 0 then Inr (s', self', TPKT_ERROR)
                   else if bufPos + k = 4
                   then rbind (rd_n b' 0 4) (\<lambda>h.
                          if h ! 0 = 3 \<and> h ! 1 = 0
                          then (let self'' = self'\<lparr>packetSize := word_of_int (uint (h ! 2) * 0x100 + uint (h ! 3))\<rparr>
                                in if uint (packetSize self'') > maxSize rb then Inr (s', self'', TPKT_ERROR)
                                   else read_body ops s' self'' b' 4)
                          else Inr (s', self', TPKT_ERROR))
                   else Inr (s', self'\<lparr>readBuffer := (readBuffer self')\<lparr>bsize := bufPos + k\<rparr>\<rparr>, TPKT_WAITING))
         else read_body ops s self b bufPos)"

end
