(* ===== verification/Iso_Parameters.thy ===== *)
theory Iso_Parameters
  imports Cotp Ber
begin

text \<open>
  The parameters of an ISO connection, \<open>libiec61850/src/mms/iso_common/iso_connection_parameters.c\<close>: addresses of the
  two sides at every layer, application titles and the authentication of the association.
\<close>

text \<open>\<open>SSelector\<close>: a length octet and an array of 16 octets.\<close>

record SSelector =
  ssel_size :: byte
  ssel_value :: "byte list"

datatype AcseAuthenticationMechanism = ACSE_AUTH_NONE | ACSE_AUTH_PASSWORD

text \<open>The password: its octets behind the pointer (\<open>None\<close>: a null pointer) and its length.\<close>

record AcseAuthenticationParameter =
  mechanism :: AcseAuthenticationMechanism
  octetString :: "byte list option"
  passwordLength :: int

record IsoConnectionParameters =
  acseAuthParameter :: "AcseAuthenticationParameter option"
  tcp_hostname :: "string option"
  tcpPort :: int
  remoteApTitle :: "byte list"
  remoteApTitleLen :: int
  remoteAEQualifier :: int
  remotePSelector :: u32
  remoteSSelector :: SSelector
  remoteTSelector :: TSelector
  localApTitle :: "byte list"
  localApTitleLen :: int
  localAEQualifier :: int
  localPSelector :: u32
  localSSelector :: SSelector
  localTSelector :: TSelector

definition AcseAuthenticationParameter_create :: AcseAuthenticationParameter where
  "AcseAuthenticationParameter_create = \<lparr>mechanism = ACSE_AUTH_NONE, octetString = None, passwordLength = 0\<rparr>"

text \<open>The password is copied with its terminating NUL; its length does not count the NUL.\<close>

definition AcseAuthenticationParameter_setPassword ::
    "AcseAuthenticationParameter \<Rightarrow> byte list \<Rightarrow> AcseAuthenticationParameter" where
  "AcseAuthenticationParameter_setPassword self password =
     self\<lparr>octetString := Some (takeWhile (\<lambda>x. x \<noteq> 0) password @ [0]),
          passwordLength := int (length (takeWhile (\<lambda>x. x \<noteq> 0) password))\<rparr>"

definition AcseAuthenticationParameter_setAuthMechanism ::
    "AcseAuthenticationParameter \<Rightarrow> AcseAuthenticationMechanism \<Rightarrow> AcseAuthenticationParameter" where
  "AcseAuthenticationParameter_setAuthMechanism self mech = self\<lparr>mechanism := mech\<rparr>"

definition zero_ssel :: SSelector where
  "zero_ssel = \<lparr>ssel_size = 0, ssel_value = replicate 16 0\<rparr>"

definition zero_tsel :: TSelector where
  "zero_tsel = \<lparr>tsel_size = 0, tsel_value = replicate 4 0\<rparr>"

definition IsoConnectionParameters_create :: IsoConnectionParameters where
  "IsoConnectionParameters_create =
     \<lparr>acseAuthParameter = None, tcp_hostname = None, tcpPort = 0,
      remoteApTitle = replicate 10 0, remoteApTitleLen = 0, remoteAEQualifier = 0, remotePSelector = 0,
      remoteSSelector = zero_ssel, remoteTSelector = zero_tsel,
      localApTitle = replicate 10 0, localApTitleLen = 0, localAEQualifier = 0, localPSelector = 0,
      localSSelector = zero_ssel, localTSelector = zero_tsel\<rparr>"

definition IsoConnectionParameters_setAcseAuthenticationParameter ::
    "IsoConnectionParameters \<Rightarrow> AcseAuthenticationParameter option \<Rightarrow> IsoConnectionParameters" where
  "IsoConnectionParameters_setAcseAuthenticationParameter self p = self\<lparr>acseAuthParameter := p\<rparr>"

definition IsoConnectionParameters_setTcpParameters ::
    "IsoConnectionParameters \<Rightarrow> string option \<Rightarrow> int \<Rightarrow> IsoConnectionParameters" where
  "IsoConnectionParameters_setTcpParameters self hn port = self\<lparr>tcp_hostname := hn, tcpPort := port\<rparr>"

text \<open>The octets of the OID go into the ten octets of the array.\<close>

definition ap_title :: "byte list \<Rightarrow> string \<Rightarrow> byte list \<times> int" where
  "ap_title arr oid =
     (let (octets, len) = BerEncoder_encodeOIDToBuffer oid 10
      in (octets @ drop (length octets) arr, len))"

definition IsoConnectionParameters_setRemoteApTitle ::
    "IsoConnectionParameters \<Rightarrow> string option \<Rightarrow> int \<Rightarrow> IsoConnectionParameters" where
  "IsoConnectionParameters_setRemoteApTitle self apTitle aeQualifier =
     (case apTitle of
        None \<Rightarrow> self\<lparr>remoteApTitleLen := 0\<rparr>
      | Some t \<Rightarrow>
          (let (arr, len) = ap_title (remoteApTitle self) t
           in self\<lparr>remoteApTitle := arr, remoteApTitleLen := len, remoteAEQualifier := aeQualifier\<rparr>))"

definition IsoConnectionParameters_setLocalApTitle ::
    "IsoConnectionParameters \<Rightarrow> string option \<Rightarrow> int \<Rightarrow> IsoConnectionParameters" where
  "IsoConnectionParameters_setLocalApTitle self apTitle aeQualifier =
     (case apTitle of
        None \<Rightarrow> self\<lparr>localApTitleLen := 0\<rparr>
      | Some t \<Rightarrow>
          (let (arr, len) = ap_title (localApTitle self) t
           in self\<lparr>localApTitle := arr, localApTitleLen := len, localAEQualifier := aeQualifier\<rparr>))"

definition IsoConnectionParameters_setRemoteAddresses ::
    "IsoConnectionParameters \<Rightarrow> u32 \<Rightarrow> SSelector \<Rightarrow> TSelector \<Rightarrow> IsoConnectionParameters" where
  "IsoConnectionParameters_setRemoteAddresses self pSelector sSelector tSelector =
     self\<lparr>remotePSelector := pSelector, remoteSSelector := sSelector, remoteTSelector := tSelector\<rparr>"

definition IsoConnectionParameters_setLocalAddresses ::
    "IsoConnectionParameters \<Rightarrow> u32 \<Rightarrow> SSelector \<Rightarrow> TSelector \<Rightarrow> IsoConnectionParameters" where
  "IsoConnectionParameters_setLocalAddresses self pSelector sSelector tSelector =
     self\<lparr>localPSelector := pSelector, localSSelector := sSelector, localTSelector := tSelector\<rparr>"

end
