(* ===== verification/Session.thy ===== *)
theory Session
  imports Iso_Parameters
begin

text \<open>
  The ISO session layer, \<open>libiec61850/src/mms/iso_session/iso_session.c\<close>: the session PDUs are
  a list of parameters in front of the data of the layer above. The theory holds the parser and
  the encoders as the code has them, and the list of parameters a session PDU stands for
  (\<open>session_param\<close>) with its meaning, which the parser is shown to implement in theory
  \<open>Session_Correct\<close>.
\<close>

unbundle bit_operations_syntax

section \<open>State\<close>

record IsoSession =
  callingSessionSelector :: SSelector
  calledSessionSelector :: SSelector
  sessionRequirement :: u16
  protocolOptions :: byte
  ss_userData :: ByteBuffer

datatype IsoSessionIndication =
    SESSION_OK | SESSION_ERROR | SESSION_CONNECT | SESSION_GIVE_TOKEN | SESSION_DATA
  | SESSION_ABORT | SESSION_FINISH | SESSION_DISCONNECT | SESSION_NOT_FINISHED

definition default_selector :: SSelector where
  "default_selector = \<lparr>ssel_size = 2, ssel_value = 0 # 1 # replicate 14 0\<rparr>"

definition IsoSession_init :: IsoSession where
  "IsoSession_init =
     \<lparr>callingSessionSelector = default_selector, calledSessionSelector = default_selector,
      sessionRequirement = 0x0002, protocolOptions = 0,
      ss_userData = \<lparr>buffer = [], bsize = 0, maxSize = 0\<rparr>\<rparr>"

definition IsoSession_getUserData :: "IsoSession \<Rightarrow> ByteBuffer" where
  "IsoSession_getUserData self = ss_userData self"


section \<open>Parsing\<close>

text \<open>
  A round of the loop over the connect/accept item. The state is the offset, the two flags
  \<open>hasProtocolOptions\<close> and \<open>hasProtocolVersion\<close>, and the session. Leaving with -1 keeps what has
  been stored.
\<close>

definition accept_round ::
    "ByteBuffer \<Rightarrow> int \<times> bool \<times> bool \<times> IsoSession
     \<Rightarrow> (int \<times> bool \<times> bool \<times> IsoSession, IsoSession \<times> int) ctl run" where
  "accept_round message = (\<lambda>(offset, opts, vers, s).
     rbind (rd (buffer message) offset) (\<lambda>pi.
     rbind (rd (buffer message) (offset + 1)) (\<lambda>param_len.
       let offset = offset + 2
       in if pi = 19 then
            (if param_len \<noteq> 1 then Inr (Return (s, -1))
             else rbind (rd (buffer message) offset) (\<lambda>v.
                    Inr (Continue (offset + 1, True, vers, s\<lparr>protocolOptions := v\<rparr>))))
          else if pi = 21 then Inr (Continue (offset + 4, opts, vers, s))
          else if pi = 22 then
            rbind (rd (buffer message) offset) (\<lambda>v.
              if v \<noteq> 2 then Inr (Return (s, -1)) else Inr (Continue (offset + 1, opts, True, s)))
          else if pi = 26 then
            rbind (rd (buffer message) offset) (\<lambda>v. Inr (Continue (offset + 1, opts, vers, s)))
          else if pi \<in> {23, 55, 56, 57, 58} then Inr (Continue (offset + uint param_len, opts, vers, s))
          else Inr (Continue (offset, opts, vers, s)))))"

definition parseAcceptParameters ::
    "IsoSession \<Rightarrow> ByteBuffer \<Rightarrow> int \<Rightarrow> int \<Rightarrow> (IsoSession \<times> int) run" where
  "parseAcceptParameters session message startOffset parameterLength =
     rbind (c_while (Suc (nat parameterLength)) (\<lambda>(offset, _). offset < startOffset + parameterLength)
              (accept_round message) (startOffset, False, False, session))
       (\<lambda>r. case r of
          Return (s, v) \<Rightarrow> Inr (s, v)
        | Continue (offset, opts, vers, s) \<Rightarrow>
            Inr (s, if opts \<and> vers then offset - startOffset else -1))"

definition store_selector :: "SSelector \<Rightarrow> byte \<Rightarrow> byte list \<Rightarrow> SSelector" where
  "store_selector sel n v =
     \<lparr>ssel_size = n, ssel_value = v @ drop (length v) (ssel_value sel)\<rparr>"

definition header_round ::
    "ByteBuffer \<Rightarrow> int \<times> IsoSession
     \<Rightarrow> (int \<times> IsoSession, IsoSession \<times> IsoSessionIndication) ctl run" where
  "header_round message = (\<lambda>(offset, s).
     rbind (rd (buffer message) offset) (\<lambda>pgi.
     rbind (rd (buffer message) (offset + 1)) (\<lambda>parameterLength.
       let offset = offset + 2
       in if pgi \<in> {1, 17, 25, 49, 60} then Inr (Continue (offset + uint parameterLength, s))
          else if pgi = 5 then
            rbind (parseAcceptParameters s message offset (uint parameterLength)) (\<lambda>(s', connectAcceptLen).
              if connectAcceptLen = -1 then Inr (Return (s', SESSION_ERROR))
              else Inr (Continue (offset + connectAcceptLen, s')))
          else if pgi = 20 then
            (if parameterLength \<noteq> 2 then Inr (Return (s, SESSION_ERROR))
             else rbind (rd (buffer message) offset) (\<lambda>hi.
                  rbind (rd (buffer message) (offset + 1)) (\<lambda>lo.
                    Inr (Continue (offset + 2,
                           s\<lparr>sessionRequirement := ucast hi * 0x100 + ucast lo\<rparr>)))))
          else if pgi = 51 then
            (if parameterLength > 16 then Inr (Return (s, SESSION_ERROR))
             else rbind (rd_n (buffer message) offset (unat parameterLength)) (\<lambda>v.
                    Inr (Continue (offset + uint parameterLength,
                      s\<lparr>callingSessionSelector := store_selector (callingSessionSelector s) parameterLength v\<rparr>))))
          else if pgi = 52 then
            (if parameterLength > 16 then Inr (Return (s, SESSION_ERROR))
             else rbind (rd_n (buffer message) offset (unat parameterLength)) (\<lambda>v.
                    Inr (Continue (offset + uint parameterLength,
                      s\<lparr>calledSessionSelector := store_selector (calledSessionSelector s) parameterLength v\<rparr>))))
          else if pgi = 193 then
            Inr (Return
              (s\<lparr>ss_userData := ByteBuffer_wrap (ss_userData s) (drop (nat offset) (buffer message))
                                (bsize message - offset) (maxSize message - offset)\<rparr>, SESSION_OK))
          else Inr (Continue (offset, s)))))"

definition parseSessionHeaderParameters ::
    "IsoSession \<Rightarrow> ByteBuffer \<Rightarrow> int \<Rightarrow> (IsoSession \<times> IsoSessionIndication) run" where
  "parseSessionHeaderParameters session message parametersOctets =
     rbind (c_while (Suc (nat parametersOctets)) (\<lambda>(offset, _). offset < parametersOctets + 2)
              (header_round message) (2, session))
       (\<lambda>r. case r of Return x \<Rightarrow> Inr x | Continue (_, s) \<Rightarrow> Inr (s, SESSION_ERROR))"

text \<open>The SPDUs with parameters share their check of the length octet.\<close>

definition parse_parameters ::
    "IsoSession \<Rightarrow> ByteBuffer \<Rightarrow> byte \<Rightarrow> IsoSessionIndication \<Rightarrow> (IsoSession \<times> IsoSessionIndication) run" where
  "parse_parameters session message len ind =
     (if uint len \<noteq> bsize message - 2 then Inr (session, SESSION_ERROR)
      else rbind (parseSessionHeaderParameters session message (uint len)) (\<lambda>(s, r).
             Inr (s, if r = SESSION_OK then ind else SESSION_ERROR)))"

definition IsoSession_parseMessage ::
    "IsoSession \<Rightarrow> ByteBuffer \<Rightarrow> (IsoSession \<times> IsoSessionIndication) run" where
  "IsoSession_parseMessage session message =
     (if \<not> bsize message > 1 then Inr (session, SESSION_ERROR)
      else
        rbind (rd (buffer message) 0) (\<lambda>id.
        rbind (rd (buffer message) 1) (\<lambda>len.
          if id = 13 then parse_parameters session message len SESSION_CONNECT
          else if id = 14 then parse_parameters session message len SESSION_CONNECT
          else if id = 1 then
            (if bsize message < 4 then Inr (session, SESSION_ERROR)
             else if len \<noteq> 0 then Inr (session, SESSION_ERROR)
             else rbind (rd (buffer message) 2) (\<lambda>x.
                    if x \<noteq> 1 then Inr (session, SESSION_ERROR)
                    else rbind (rd (buffer message) 3) (\<lambda>y.
                      if y \<noteq> 0 then Inr (session, SESSION_ERROR)
                      else Inr (session\<lparr>ss_userData := ByteBuffer_wrap (ss_userData session)
                                   (drop 4 (buffer message)) (bsize message - 4) (maxSize message - 4)\<rparr>,
                                SESSION_DATA))))
          else if id = 8 then Inr (session, SESSION_NOT_FINISHED)
          else if id = 9 then parse_parameters session message len SESSION_FINISH
          else if id = 10 then parse_parameters session message len SESSION_DISCONNECT
          else if id = 25 then Inr (session, SESSION_ABORT)
          else Inr (session, SESSION_ERROR))))"


section \<open>Encoding\<close>

text \<open>
  The \<open>encode\<close> functions append to the octets written so far; a header that is complete is put
  at the start of the part \<open>chain\<close> that was handed in and linked in front of the payload.
\<close>

definition put_part :: "BufferChain \<Rightarrow> byte list \<Rightarrow> BufferChain \<Rightarrow> BufferChain run" where
  "put_part chain header payld =
     rbind (memcpy_to (chain_buffer chain) 0 header (int (length header))) (\<lambda>b.
       Inr (BufferChain (int (length header) + chain_length payld) (int (length header))
              (partMaxLength chain) (Some payld) b))"

definition encodeConnectAcceptItem :: "byte list \<Rightarrow> byte \<Rightarrow> byte list" where
  "encodeConnectAcceptItem buf opts = buf @ [5, 6, 0x13, 1, opts, 0x16, 1, 2]"

definition encodeSessionRequirement :: "IsoSession \<Rightarrow> byte list \<Rightarrow> byte list" where
  "encodeSessionRequirement self buf =
     buf @ [0x14, 2, ucast (sessionRequirement self div 0x100), ucast (sessionRequirement self AND 0xff)]"

definition encode_selector :: "byte \<Rightarrow> SSelector \<Rightarrow> byte list \<Rightarrow> byte list run" where
  "encode_selector code sel buf =
     rbind (rd_n (ssel_value sel) 0 (unat (ssel_size sel))) (\<lambda>v. Inr (buf @ [code, ssel_size sel] @ v))"

definition encodeCallingSessionSelector :: "IsoSession \<Rightarrow> byte list \<Rightarrow> byte list run" where
  "encodeCallingSessionSelector self buf = encode_selector 0x33 (callingSessionSelector self) buf"

definition encodeCalledSessionSelector :: "IsoSession \<Rightarrow> byte list \<Rightarrow> byte list run" where
  "encodeCalledSessionSelector self buf = encode_selector 0x34 (calledSessionSelector self) buf"

definition encodeSessionUserData :: "byte list \<Rightarrow> byte \<Rightarrow> byte list" where
  "encodeSessionUserData buf payloadLength = buf @ [0xc1, payloadLength]"

text \<open>The octet at offset 1 is filled in when the rest of the header is known.\<close>

definition fill_length :: "byte list \<Rightarrow> int \<Rightarrow> byte list" where
  "fill_length hdr payloadLength = hdr[1 := word_of_int (int (length hdr) - 1 - 1 + payloadLength)]"

definition dataSpdu :: "byte list" where
  "dataSpdu = [0x01, 0x00, 0x01, 0x00]"

definition IsoSession_createDataSpdu :: "IsoSession \<Rightarrow> BufferChain \<Rightarrow> BufferChain \<Rightarrow> BufferChain" where
  "IsoSession_createDataSpdu session chain payld =
     BufferChain (4 + chain_length payld) 4 (partMaxLength chain) (Some payld) dataSpdu"

definition IsoSession_createConnectSpdu ::
    "IsoSession \<Rightarrow> IsoConnectionParameters \<Rightarrow> BufferChain \<Rightarrow> BufferChain \<Rightarrow> (IsoSession \<times> BufferChain) run" where
  "IsoSession_createConnectSpdu self isoParameters chain payld =
     (let self = self\<lparr>calledSessionSelector := remoteSSelector isoParameters,
                      callingSessionSelector := localSSelector isoParameters\<rparr>;
          buf = encodeConnectAcceptItem [13, 0] 0;
          buf = encodeSessionRequirement self buf
      in rbind (encodeCallingSessionSelector self buf) (\<lambda>buf.
         rbind (encodeCalledSessionSelector self buf) (\<lambda>buf.
           let buf = encodeSessionUserData buf (word_of_int (chain_length payld))
           in rbind (put_part chain (fill_length buf (chain_length payld)) payld) (\<lambda>c. Inr (self, c)))))"

definition IsoSession_createAcceptSpdu :: "IsoSession \<Rightarrow> BufferChain \<Rightarrow> BufferChain \<Rightarrow> BufferChain run" where
  "IsoSession_createAcceptSpdu self chain payld =
     (let buf = encodeConnectAcceptItem [14, 0] (protocolOptions self);
          buf = encodeSessionRequirement self buf
      in rbind (encodeCalledSessionSelector self buf) (\<lambda>buf.
           let buf = encodeSessionUserData buf (word_of_int (chain_length payld))
           in put_part chain (fill_length buf (chain_length payld)) payld))"

definition IsoSession_createAbortSpdu :: "IsoSession \<Rightarrow> BufferChain \<Rightarrow> BufferChain \<Rightarrow> BufferChain run" where
  "IsoSession_createAbortSpdu self chain payld =
     put_part chain [25, word_of_int (5 + chain_length payld), 17, 1, 11, 193, word_of_int (chain_length payld)] payld"

definition IsoSession_createFinishSpdu :: "IsoSession \<Rightarrow> BufferChain \<Rightarrow> BufferChain \<Rightarrow> BufferChain run" where
  "IsoSession_createFinishSpdu self chain payld =
     put_part chain [9, word_of_int (2 + chain_length payld), 193, word_of_int (chain_length payld)] payld"

definition IsoSession_createDisconnectSpdu :: "IsoSession \<Rightarrow> BufferChain \<Rightarrow> BufferChain \<Rightarrow> BufferChain run" where
  "IsoSession_createDisconnectSpdu self chain payld =
     put_part chain [10, word_of_int (2 + chain_length payld), 193, word_of_int (chain_length payld)] payld"


section \<open>The parameters of a session PDU\<close>

text \<open>
  What a parameter list means, without buffers and offsets: the items of the connect/accept
  parameter, the parameters of the PDU, and the session they leave behind (\<open>None\<close>: the PDU is
  refused).
\<close>

datatype accept_item =
    Protocol_options byte
  | Tsdu_size byte "byte list"
  | Version byte byte
  | Token_item byte byte
  | Serial_number byte "byte list"

datatype session_param =
    Skipped byte "byte list"
  | Connect_accept "accept_item list"
  | Requirement byte byte
  | Calling "byte list"
  | Called "byte list"

fun item_ok :: "accept_item \<Rightarrow> bool" where
  "item_ok (Protocol_options v) = True"
| "item_ok (Tsdu_size l v) = (length v = 4)"
| "item_ok (Version l v) = True"
| "item_ok (Token_item l v) = True"
| "item_ok (Serial_number c v) = (c \<in> {23, 55, 56, 57, 58} \<and> length v < 256)"

fun item_octets :: "accept_item \<Rightarrow> byte list" where
  "item_octets (Protocol_options v) = [19, 1, v]"
| "item_octets (Tsdu_size l v) = [21, l] @ v"
| "item_octets (Version l v) = [22, l, v]"
| "item_octets (Token_item l v) = [26, l, v]"
| "item_octets (Serial_number c v) = [c, of_nat (length v)] @ v"

fun param_ok :: "session_param \<Rightarrow> bool" where
  "param_ok (Skipped c v) = (c \<in> {1, 17, 25, 49, 60} \<and> length v < 256)"
| "param_ok (Connect_accept its) = (list_all item_ok its \<and> length (concat (map item_octets its)) < 256)"
| "param_ok (Requirement hi lo) = True"
| "param_ok (Calling v) = (length v < 256)"
| "param_ok (Called v) = (length v < 256)"

fun param_octets :: "session_param \<Rightarrow> byte list" where
  "param_octets (Skipped c v) = [c, of_nat (length v)] @ v"
| "param_octets (Connect_accept its) =
     [5, of_nat (length (concat (map item_octets its)))] @ concat (map item_octets its)"
| "param_octets (Requirement hi lo) = [20, 2, hi, lo]"
| "param_octets (Calling v) = [51, of_nat (length v)] @ v"
| "param_octets (Called v) = [52, of_nat (length v)] @ v"

text \<open>The items of a connect/accept parameter: the options they set, \<open>None\<close> for a wrong version.\<close>

fun item_effects :: "bool \<times> bool \<times> IsoSession \<Rightarrow> accept_item list \<Rightarrow> (bool \<times> bool \<times> IsoSession) option" where
  "item_effects st [] = Some st"
| "item_effects (o1, v1, s) (Protocol_options v # its) = item_effects (True, v1, s\<lparr>protocolOptions := v\<rparr>) its"
| "item_effects (o1, v1, s) (Version l v # its) = (if v = 2 then item_effects (o1, True, s) its else None)"
| "item_effects st (Tsdu_size l v # its) = item_effects st its"
| "item_effects st (Token_item l v # its) = item_effects st its"
| "item_effects st (Serial_number c v # its) = item_effects st its"

fun param_effects :: "IsoSession \<Rightarrow> session_param list \<Rightarrow> IsoSession option" where
  "param_effects s [] = Some s"
| "param_effects s (Skipped c v # ps) = param_effects s ps"
| "param_effects s (Connect_accept its # ps) =
     (case item_effects (False, False, s) its of
        Some (True, True, s') \<Rightarrow> param_effects s' ps
      | _ \<Rightarrow> None)"
| "param_effects s (Requirement hi lo # ps) =
     param_effects (s\<lparr>sessionRequirement := ucast hi * 0x100 + ucast lo\<rparr>) ps"
| "param_effects s (Calling v # ps) =
     (if length v \<le> 16
      then param_effects (s\<lparr>callingSessionSelector :=
             store_selector (callingSessionSelector s) (of_nat (length v)) v\<rparr>) ps
      else None)"
| "param_effects s (Called v # ps) =
     (if length v \<le> 16
      then param_effects (s\<lparr>calledSessionSelector :=
             store_selector (calledSessionSelector s) (of_nat (length v)) v\<rparr>) ps
      else None)"

end
