(* ===== verification/Presentation.thy ===== *)
theory Presentation
  imports Session
begin

text \<open>
  The ISO presentation layer, \<open>libiec61850/src/mms/iso_presentation/iso_presentation.c\<close>: nested BER elements
  around the data of the layer above. The parsers work on the octets of the message and an \<open>int\<close>
  position; the loops get a bound \<open>n\<close> on their rounds, since a decoded length may be negative.
\<close>

unbundle bit_operations_syntax

section \<open>State\<close>

record IsoPresentation =
  callingPresentationSelector :: u32
  calledPresentationSelector :: u32
  nextContextId :: byte
  acseContextId :: byte
  mmsContextId :: byte
  nextPayload :: ByteBuffer

definition responding_selector :: "byte list" where
  "responding_selector = [0x00, 0x00, 0x00, 0x01]"

definition asn_id_as_acse :: "byte list" where
  "asn_id_as_acse = [0x52, 0x01, 0x00, 0x01]"

definition asn_id_mms :: "byte list" where
  "asn_id_mms = [0x28, 0xca, 0x22, 0x02, 0x01]"

definition ber_id :: "byte list" where
  "ber_id = [0x51, 0x01]"

definition IsoPresentation_init :: "IsoPresentation \<Rightarrow> IsoPresentation" where
  "IsoPresentation_init self = self"


section \<open>Encoding\<close>

definition encodeAcceptBer :: "byte list \<Rightarrow> byte list" where
  "encodeAcceptBer buf =
     (let buf = BerEncoder_encodeTL 0x30 7 buf;
          buf = BerEncoder_encodeTL 0x80 1 buf @ [0];
          buf = BerEncoder_encodeTL 0x81 2 buf
      in buf @ [0x51, 0x01])"

text \<open>
  \<open>encodeUserData\<close>: the lengths of the two outer elements, the size without encoding
  (\<open>encode == false\<close>) and the encoding of everything in front of the payload.
\<close>

definition userdata_lengths :: "int \<Rightarrow> int \<times> int" where
  "userdata_lengths payloadLength =
     (let encodedDataSetLength =
            3 + (payloadLength + 1) + BerEncoder_determineLengthSize (word_of_int payloadLength);
          fullyEncodedDataLength =
            encodedDataSetLength + (BerEncoder_determineLengthSize (word_of_int encodedDataSetLength) + 1)
      in (encodedDataSetLength, fullyEncodedDataLength))"

definition encodeUserData_size :: "int \<Rightarrow> int" where
  "encodeUserData_size payloadLength =
     (let (_, fullyEncodedDataLength) = userdata_lengths payloadLength
      in fullyEncodedDataLength + 1 + BerEncoder_determineLengthSize (word_of_int fullyEncodedDataLength))"

definition encodeUserData :: "byte list \<Rightarrow> int \<Rightarrow> byte \<Rightarrow> byte list" where
  "encodeUserData buf payloadLength contextId =
     (let (encodedDataSetLength, fullyEncodedDataLength) = userdata_lengths payloadLength;
          buf = BerEncoder_encodeTL 0x61 fullyEncodedDataLength buf;
          buf = BerEncoder_encodeTL 0x30 encodedDataSetLength buf;
          buf = BerEncoder_encodeTL 0x02 1 buf @ [contextId]
      in BerEncoder_encodeTL 0xa0 payloadLength buf)"

definition selector_octets :: "u32 \<Rightarrow> byte list" where
  "selector_octets v = [ucast (drop_bit 24 v AND 0xff), ucast (drop_bit 16 v AND 0xff),
                        ucast (drop_bit 8 v AND 0xff), ucast (v AND 0xff)]"

definition createConnectPdu :: "IsoPresentation \<Rightarrow> BufferChain \<Rightarrow> BufferChain \<Rightarrow> BufferChain run" where
  "createConnectPdu self wbuf payld =
     (let pclLength = 35;
          normalModeLength = 12 + pclLength + encodeUserData_size (chain_length payld) + 2;
          contentLength = 5 + normalModeLength
                          + (1 + BerEncoder_determineLengthSize (word_of_int normalModeLength));
          buf = BerEncoder_encodeTL 0x31 contentLength [];
          buf = BerEncoder_encodeTL 0xa0 3 buf;
          buf = BerEncoder_encodeTL 0x80 1 buf @ [1];
          buf = BerEncoder_encodeTL 0xa2 normalModeLength buf;
          buf = BerEncoder_encodeTL 0x81 4 buf @ selector_octets (callingPresentationSelector self);
          buf = BerEncoder_encodeTL 0x82 4 buf @ selector_octets (calledPresentationSelector self);
          buf = BerEncoder_encodeTL 0xa4 35 buf;
          buf = BerEncoder_encodeTL 0x30 15 buf;
          buf = BerEncoder_encodeTL 0x02 1 buf @ [1];
          buf = BerEncoder_encodeTL 0x06 4 buf @ asn_id_as_acse;
          buf = BerEncoder_encodeTL 0x30 4 buf;
          buf = BerEncoder_encodeTL 0x06 2 buf @ ber_id;
          buf = BerEncoder_encodeTL 0x30 16 buf;
          buf = BerEncoder_encodeTL 0x02 1 buf @ [3];
          buf = BerEncoder_encodeTL 0x06 5 buf @ asn_id_mms;
          buf = BerEncoder_encodeTL 0x30 4 buf;
          buf = BerEncoder_encodeTL 0x06 2 buf @ ber_id;
          buf = encodeUserData buf (chain_length payld) (acseContextId self)
      in put_part wbuf buf payld)"

definition IsoPresentation_createConnectPdu ::
    "IsoPresentation \<Rightarrow> IsoConnectionParameters \<Rightarrow> BufferChain \<Rightarrow> BufferChain
     \<Rightarrow> (IsoPresentation \<times> BufferChain) run" where
  "IsoPresentation_createConnectPdu self parameters wbuf payld =
     (let self = self\<lparr>acseContextId := 1, mmsContextId := 3,
                      callingPresentationSelector := localPSelector parameters,
                      calledPresentationSelector := remotePSelector parameters\<rparr>
      in rbind (createConnectPdu self wbuf payld) (\<lambda>c. Inr (self, c)))"

definition IsoPresentation_createCpaMessage ::
    "IsoPresentation \<Rightarrow> BufferChain \<Rightarrow> BufferChain \<Rightarrow> BufferChain run" where
  "IsoPresentation_createCpaMessage self wbuf payld =
     (let normalModeLength = 6 + 20 + encodeUserData_size (chain_length payld);
          contentLength = 5 + normalModeLength
                          + (BerEncoder_determineLengthSize (word_of_int normalModeLength) + 1);
          buf = BerEncoder_encodeTL 0x31 contentLength [];
          buf = BerEncoder_encodeTL 0xa0 3 buf;
          buf = BerEncoder_encodeTL 0x80 1 buf @ [1];
          buf = BerEncoder_encodeTL 0xa2 normalModeLength buf;
          buf = BerEncoder_encodeTL 0x83 4 buf @ responding_selector;
          buf = BerEncoder_encodeTL 0xa5 18 buf;
          buf = encodeAcceptBer buf;
          buf = encodeAcceptBer buf;
          buf = encodeUserData buf (chain_length payld) (acseContextId self)
      in put_part wbuf buf payld)"

definition user_data_header :: "int \<Rightarrow> byte \<Rightarrow> byte list" where
  "user_data_header payloadLength contextId =
     (let userDataLengthFieldSize = BerEncoder_determineLengthSize (word_of_int payloadLength);
          pdvListLength = payloadLength + (userDataLengthFieldSize + 4);
          pdvListLengthFieldSize = BerEncoder_determineLengthSize (word_of_int pdvListLength);
          presentationLength = pdvListLength + (pdvListLengthFieldSize + 1);
          buf = BerEncoder_encodeTL 0x61 presentationLength [];
          buf = BerEncoder_encodeTL 0x30 pdvListLength buf @ [0x02, 0x01, contextId]
      in BerEncoder_encodeTL 0xa0 payloadLength buf)"

definition IsoPresentation_createUserData ::
    "IsoPresentation \<Rightarrow> BufferChain \<Rightarrow> BufferChain \<Rightarrow> BufferChain run" where
  "IsoPresentation_createUserData self wbuf payld =
     put_part wbuf (user_data_header (chain_length payld) (mmsContextId self)) payld"

definition IsoPresentation_createUserDataACSE ::
    "IsoPresentation \<Rightarrow> BufferChain \<Rightarrow> BufferChain \<Rightarrow> BufferChain run" where
  "IsoPresentation_createUserDataACSE self wbuf payld =
     put_part wbuf (user_data_header (chain_length payld) (acseContextId self)) payld"

definition IsoPresentation_createAbortUserMessage ::
    "IsoPresentation \<Rightarrow> BufferChain \<Rightarrow> BufferChain \<Rightarrow> BufferChain run" where
  "IsoPresentation_createAbortUserMessage self wbuf payld =
     (let contentLength = encodeUserData_size (chain_length payld);
          contentLength = contentLength + (BerEncoder_determineLengthSize (word_of_int contentLength) + 1);
          buf = BerEncoder_encodeTL 0xa0 contentLength []
      in put_part wbuf (encodeUserData buf (chain_length payld) (acseContextId self)) payld)"


section \<open>Parsing\<close>

text \<open>
  A tag octet and the length behind it; the length variable of the loops is declared in the body, so
  it has no value unless the decoder assigns one. A position is advanced in C \<open>int\<close> arithmetic.
\<close>

definition read_tl :: "byte list \<Rightarrow> int \<Rightarrow> int \<Rightarrow> (byte \<times> int \<times> int option) run" where
  "read_tl b p mx =
     rbind (rd b p) (\<lambda>tag. rbind (BerDecoder_decodeLength b None (p + 1) mx) (\<lambda>(q, l). Inr (tag, q, l)))"

definition fed_round ::
    "byte list \<Rightarrow> int \<Rightarrow> int \<times> bool \<times> IsoPresentation
     \<Rightarrow> (int \<times> bool \<times> IsoPresentation, IsoPresentation \<times> int) ctl run" where
  "fed_round b endPos = (\<lambda>(bufPos, userDataPresent, self).
     rbind (read_tl b bufPos endPos) (\<lambda>(tag, bufPos, l).
       if bufPos < 0 then Inr (Return (self, -1))
       else rbind (use_var l) (\<lambda>len.
         if tag = 0x02 then
           rbind (BerDecoder_decodeUint32 b len bufPos) (\<lambda>v.
             Inr (Continue (i32 (bufPos + len), userDataPresent, self\<lparr>nextContextId := ucast v\<rparr>)))
         else if tag = 0xa0 then
           Inr (Continue (i32 (bufPos + len), True,
             self\<lparr>nextPayload := (nextPayload self)\<lparr>buffer := drop (nat bufPos) b, bsize := len\<rparr>\<rparr>))
         else Inr (Continue (i32 (bufPos + len), userDataPresent, self)))))"

definition parseFullyEncodedData ::
    "nat \<Rightarrow> IsoPresentation \<Rightarrow> byte list \<Rightarrow> int \<Rightarrow> int \<Rightarrow> (IsoPresentation \<times> int) run" where
  "parseFullyEncodedData n self b len bufPos =
     (let endPos = i32 (bufPos + len)
      in rbind (rd b bufPos) (\<lambda>tag.
           if tag \<noteq> 0x30 then Inr (self, -1)
           else rbind (BerDecoder_decodeLength b (Some len) (bufPos + 1) endPos) (\<lambda>(bufPos, l).
             rbind (use_var l) (\<lambda>len.
               let endPos = i32 (bufPos + len)
               in if bufPos < 0 then Inr (self, -1)
                  else rbind (c_while n (\<lambda>(bufPos, _). bufPos < endPos) (fed_round b endPos) (bufPos, False, self))
                    (\<lambda>r. case r of
                        Return x \<Rightarrow> Inr x
                      | Continue (bufPos, userDataPresent, self) \<Rightarrow>
                          Inr (self, if userDataPresent then bufPos else -1))))))"

text \<open>The state of \<open>parsePCDLEntry\<close>: the context id (an \<open>int\<close>, at first -1) and the two flags.\<close>

definition pcdl_entry_round ::
    "byte list \<Rightarrow> int \<Rightarrow> int \<times> int \<times> bool \<times> bool
     \<Rightarrow> (int \<times> int \<times> bool \<times> bool, unit) ctl run" where
  "pcdl_entry_round b endPos = (\<lambda>(bufPos, contextId, isAcse, isMms).
     rbind (read_tl b bufPos endPos) (\<lambda>(tag, bufPos, l). rbind (use_var l) (\<lambda>len.
       if tag = 0x02 then
         rbind (BerDecoder_decodeUint32 b len bufPos) (\<lambda>v.
           Inr (Continue (i32 (bufPos + len), sint v, isAcse, isMms)))
       else if tag = 0x06 then
         (if len = 5 then
            rbind (rd_n b bufPos 5) (\<lambda>v.
              Inr (Continue (i32 (bufPos + len), contextId, isAcse, isMms \<or> v = asn_id_mms)))
          else if len = 4 then
            rbind (rd_n b bufPos 4) (\<lambda>v.
              Inr (Continue (i32 (bufPos + len), contextId, isAcse \<or> v = asn_id_as_acse, isMms)))
          else Inr (Continue (i32 (bufPos + len), contextId, isAcse, isMms)))
       else Inr (Continue (i32 (bufPos + len), contextId, isAcse, isMms)))))"

definition parsePCDLEntry ::
    "nat \<Rightarrow> IsoPresentation \<Rightarrow> byte list \<Rightarrow> int \<Rightarrow> int \<Rightarrow> (IsoPresentation \<times> int) run" where
  "parsePCDLEntry n self b totalLength bufPos =
     (let endPos = i32 (bufPos + totalLength)
      in rbind (c_while n (\<lambda>(bufPos, _). bufPos < endPos) (pcdl_entry_round b endPos) (bufPos, -1, False, False))
           (\<lambda>r. case r of
               Return _ \<Rightarrow> Inr (self, -1)
             | Continue (bufPos, contextId, isAcse, isMms) \<Rightarrow>
                 if contextId < 0 then Inr (self, -1)
                 else if \<not> isAcse \<and> \<not> isMms then Inr (self, -1)
                 else if isMms then Inr (self\<lparr>mmsContextId := word_of_int contextId\<rparr>, bufPos)
                 else Inr (self\<lparr>acseContextId := word_of_int contextId\<rparr>, bufPos)))"

definition pcdl_round ::
    "nat \<Rightarrow> byte list \<Rightarrow> int \<Rightarrow> int \<times> IsoPresentation
     \<Rightarrow> (int \<times> IsoPresentation, IsoPresentation \<times> int) ctl run" where
  "pcdl_round n b endPos = (\<lambda>(bufPos, self).
     rbind (read_tl b bufPos endPos) (\<lambda>(tag, bufPos, l). rbind (use_var l) (\<lambda>len.
       if tag = 0x30 then
         rbind (parsePCDLEntry n self b len bufPos) (\<lambda>(self, bufPos).
           if bufPos < 0 then Inr (Return (self, -1)) else Inr (Continue (bufPos, self)))
       else Inr (Continue (i32 (bufPos + len), self)))))"

definition parsePresentationContextDefinitionList ::
    "nat \<Rightarrow> IsoPresentation \<Rightarrow> byte list \<Rightarrow> int \<Rightarrow> int \<Rightarrow> (IsoPresentation \<times> int) run" where
  "parsePresentationContextDefinitionList n self b totalLength bufPos =
     (let endPos = i32 (bufPos + totalLength)
      in rbind (c_while n (\<lambda>(bufPos, _). bufPos < endPos) (pcdl_round n b endPos) (bufPos, self))
           (\<lambda>r. case r of Return x \<Rightarrow> Inr x | Continue (bufPos, self) \<Rightarrow> Inr (self, bufPos)))"

text \<open>The result of the context definition list is not looked at: a failure goes on with the position -1.\<close>

definition normal_round ::
    "nat \<Rightarrow> byte list \<Rightarrow> int \<Rightarrow> int \<times> IsoPresentation
     \<Rightarrow> (int \<times> IsoPresentation, IsoPresentation \<times> int) ctl run" where
  "normal_round n b endPos = (\<lambda>(bufPos, self).
     rbind (read_tl b bufPos endPos) (\<lambda>(tag, bufPos, l).
       if bufPos < 0 then Inr (Return (self, -1))
       else rbind (use_var l) (\<lambda>len.
         if tag = 0x81 \<or> tag = 0x82 then Inr (Continue (i32 (bufPos + len), self))
         else if tag = 0xa4 then
           rbind (parsePresentationContextDefinitionList n self b len bufPos) (\<lambda>(self, bufPos).
             Inr (Continue (bufPos, self)))
         else if tag = 0x61 then
           rbind (parseFullyEncodedData n self b len bufPos) (\<lambda>(self, bufPos).
             if bufPos < 0 then Inr (Return (self, -1)) else Inr (Continue (bufPos, self)))
         else Inr (Continue (i32 (bufPos + len), self)))))"

definition parseNormalModeParameters ::
    "nat \<Rightarrow> IsoPresentation \<Rightarrow> byte list \<Rightarrow> int \<Rightarrow> int \<Rightarrow> (IsoPresentation \<times> int) run" where
  "parseNormalModeParameters n self b totalLength bufPos =
     (let endPos = i32 (bufPos + totalLength)
      in rbind (c_while n (\<lambda>(bufPos, _). bufPos < endPos) (normal_round n b endPos) (bufPos, self))
           (\<lambda>r. case r of Return x \<Rightarrow> Inr x | Continue (bufPos, self) \<Rightarrow> Inr (self, bufPos)))"

text \<open>
  The two outer parsers. Their length variable is declared once, so a failed decoding leaves the
  old value; the first position is not checked.
\<close>

definition accept_message_round ::
    "nat \<Rightarrow> byte list \<Rightarrow> int \<Rightarrow> int \<times> IsoPresentation
     \<Rightarrow> (int \<times> IsoPresentation, IsoPresentation \<times> int) ctl run" where
  "accept_message_round n b maxBufPos = (\<lambda>(bufPos, self).
     rbind (read_tl b bufPos maxBufPos) (\<lambda>(tag, bufPos, l).
       if bufPos < 0 then Inr (Return (self, 0))
       else rbind (use_var l) (\<lambda>len.
         if tag = 0xa2 then
           rbind (parseNormalModeParameters n self b len bufPos) (\<lambda>(self, bufPos).
             if bufPos < 0 then Inr (Return (self, 0)) else Inr (Continue (bufPos, self)))
         else Inr (Continue (i32 (bufPos + len), self)))))"

definition IsoPresentation_parseAcceptMessage ::
    "nat \<Rightarrow> IsoPresentation \<Rightarrow> ByteBuffer \<Rightarrow> (IsoPresentation \<times> int) run" where
  "IsoPresentation_parseAcceptMessage n self byteBuffer =
     (let b = buffer byteBuffer; maxBufPos = bsize byteBuffer
      in rbind (rd b 0) (\<lambda>cpTag.
           if cpTag \<noteq> 0x31 then Inr (self, 0)
           else rbind (BerDecoder_decodeLength b None 1 maxBufPos) (\<lambda>(bufPos, _).
             rbind (c_while n (\<lambda>(bufPos, _). bufPos < maxBufPos) (accept_message_round n b maxBufPos) (bufPos, self))
               (\<lambda>r. case r of Return x \<Rightarrow> Inr x | Continue (_, self) \<Rightarrow> Inr (self, 1)))))"

definition connect_round ::
    "nat \<Rightarrow> byte list \<Rightarrow> int \<Rightarrow> int \<times> IsoPresentation
     \<Rightarrow> (int \<times> IsoPresentation, IsoPresentation \<times> int) ctl run" where
  "connect_round n b maxBufPos = (\<lambda>(bufPos, self).
     rbind (read_tl b bufPos maxBufPos) (\<lambda>(tag, bufPos, l).
       if bufPos < 0 then Inr (Return (self, 0))
       else rbind (use_var l) (\<lambda>len.
         if tag = 0xa0 then
           rbind (rd b bufPos) (\<lambda>x.
             if x \<noteq> 0x80 then Inr (Return (self, 0))
             else rbind (BerDecoder_decodeLength b (Some len) (bufPos + 1) maxBufPos) (\<lambda>(bufPos, l).
               rbind (use_var l) (\<lambda>len.
               rbind (BerDecoder_decodeUint32 b len bufPos) (\<lambda>modeSelector.
                 Inr (Continue (i32 (bufPos + len), self))))))
         else if tag = 0xa2 then
           rbind (parseNormalModeParameters n self b len bufPos) (\<lambda>(self, bufPos).
             if bufPos < 0 then Inr (Return (self, 0)) else Inr (Continue (bufPos, self)))
         else Inr (Continue (i32 (bufPos + len), self)))))"

definition IsoPresentation_parseConnect ::
    "nat \<Rightarrow> IsoPresentation \<Rightarrow> ByteBuffer \<Rightarrow> (IsoPresentation \<times> int) run" where
  "IsoPresentation_parseConnect n self byteBuffer =
     (let b = buffer byteBuffer; maxBufPos = bsize byteBuffer
      in rbind (rd b 0) (\<lambda>cpTag.
           if cpTag \<noteq> 0x31 then Inr (self, 0)
           else rbind (BerDecoder_decodeLength b None 1 maxBufPos) (\<lambda>(bufPos, _).
             rbind (c_while n (\<lambda>(bufPos, _). bufPos < maxBufPos) (connect_round n b maxBufPos) (bufPos, self))
               (\<lambda>r. case r of Return x \<Rightarrow> Inr x | Continue (_, self) \<Rightarrow> Inr (self, 1)))))"

text \<open>User data of an established association: no loop.\<close>

definition expect :: "byte list \<Rightarrow> int \<Rightarrow> byte \<Rightarrow> IsoPresentation \<Rightarrow> (IsoPresentation \<times> int) run
     \<Rightarrow> (IsoPresentation \<times> int) run" where
  "expect b p v self k = rbind (rd b p) (\<lambda>x. if x \<noteq> v then Inr (self, 0) else k)"

definition IsoPresentation_parseUserData ::
    "IsoPresentation \<Rightarrow> ByteBuffer \<Rightarrow> (IsoPresentation \<times> int) run" where
  "IsoPresentation_parseUserData self rbuf =
     (let len = bsize rbuf; b = buffer rbuf
      in if len < 9 then Inr (self, 0)
         else expect b 0 0x61 self
           (rbind (BerDecoder_decodeLength b None 1 len) (\<lambda>(p, _).
            expect b p 0x30 self
             (rbind (BerDecoder_decodeLength b None (p + 1) len) (\<lambda>(p, _).
              expect b p 0x02 self (expect b (p + 1) 0x01 self
               (rbind (rd b (p + 2)) (\<lambda>contextId.
                let self = self\<lparr>nextContextId := contextId\<rparr>
                in expect b (p + 3) 0xa0 self
                  (rbind (BerDecoder_decodeLength b None (p + 4) len) (\<lambda>(p, l).
                   rbind (use_var l) (\<lambda>userDataLength.
                     Inr (self\<lparr>nextPayload := ByteBuffer_wrap (nextPayload self) (drop (nat p) b)
                                               userDataLength userDataLength\<rparr>, 1))))))))))))"

end
