(* ===== verification/Acse.thy ===== *)
theory Acse
  imports Presentation
begin

text \<open>
  The association control service, \<open>libiec61850/src/mms/iso_acse/acse.c\<close>: association requests and responses with
  an optional password, release and abort. The authenticator of the application is a function in the
  state; as in theory \<open>Presentation\<close> the parser loops get a bound \<open>n\<close> on their rounds.
\<close>

unbundle bit_operations_syntax

section \<open>State\<close>

datatype AcseConnectionState = idle | requestIndicated | connected

datatype AcseIndication =
    ACSE_ERROR | ACSE_ASSOCIATE | ACSE_ASSOCIATE_FAILED | ACSE_OK | ACSE_ABORT
  | ACSE_RELEASE_REQUEST | ACSE_RELEASE_RESPONSE

text \<open>
  The authenticator (applied to the parameter it was registered with) gives its verdict and the
  security token it stores; tokens are addresses, \<open>None\<close> is the null pointer.
\<close>

type_synonym authenticator_fun = "AcseAuthenticationParameter \<Rightarrow> bool \<times> nat option"

record AcseConnection =
  acse_state :: AcseConnectionState
  nextReference :: int
  userDataBuffer :: "byte list option"
  userDataBufferSize :: int
  authenticator :: "authenticator_fun option"
  securityToken :: "nat option"

definition appContextNameMms :: "byte list" where
  "appContextNameMms = [0x28, 0xca, 0x22, 0x02, 0x03]"

definition auth_mech_password_oid :: "byte list" where
  "auth_mech_password_oid = [0x52, 0x03, 0x01]"

definition ACSE_RESULT_ACCEPT :: byte where "ACSE_RESULT_ACCEPT = 0"
definition ACSE_RESULT_REJECT_PERMANENT :: byte where "ACSE_RESULT_REJECT_PERMANENT = 1"

definition AcseConnection_init :: "AcseConnection \<Rightarrow> authenticator_fun option \<Rightarrow> AcseConnection" where
  "AcseConnection_init self auth =
     self\<lparr>acse_state := idle, nextReference := 0, userDataBuffer := None, userDataBufferSize := 0,
          authenticator := auth\<rparr>"


section \<open>Authentication\<close>

text \<open>A pointer into the message with a length: the octets from the pointer on, \<open>None\<close> the null pointer.\<close>

definition checkAuthMechanismName :: "byte list option \<Rightarrow> int \<Rightarrow> AcseAuthenticationMechanism run" where
  "checkAuthMechanismName authMechanism authMechLen =
     (case authMechanism of
        None \<Rightarrow> Inr ACSE_AUTH_NONE
      | Some m \<Rightarrow>
          if authMechLen = 3
          then rbind (rd_n m 0 3) (\<lambda>v. Inr (if v = auth_mech_password_oid then ACSE_AUTH_PASSWORD else ACSE_AUTH_NONE))
          else Inr ACSE_AUTH_NONE)"

definition authenticateClient ::
    "AcseConnection \<Rightarrow> authenticator_fun \<Rightarrow> AcseAuthenticationMechanism \<Rightarrow> byte list option \<Rightarrow> int \<Rightarrow> AcseConnection \<times> bool" where
  "authenticateClient self auth mech authValue authValueLen =
     (let authParameter =
            (if mech = ACSE_AUTH_PASSWORD
             then \<lparr>mechanism = mech, octetString = authValue, passwordLength = authValueLen\<rparr>
             else \<lparr>mechanism = mech, octetString = None, passwordLength = 0\<rparr>);
          (accepted, token) = auth authParameter
      in (self\<lparr>securityToken := token\<rparr>, accepted))"

definition checkAuthentication ::
    "AcseConnection \<Rightarrow> byte list option \<Rightarrow> int \<Rightarrow> byte list option \<Rightarrow> int \<Rightarrow> (AcseConnection \<times> bool) run" where
  "checkAuthentication self authMechanism authMechLen authValue authValueLen =
     (let self = self\<lparr>securityToken := None\<rparr>
      in case authenticator self of
           Some auth \<Rightarrow>
             rbind (checkAuthMechanismName authMechanism authMechLen) (\<lambda>mech.
               Inr (authenticateClient self auth mech authValue authValueLen))
         | None \<Rightarrow> Inr (self, True))"


section \<open>Parsing\<close>

text \<open>The user information; neither this loop nor that of the AARE looks at a failed length.\<close>

definition user_info_round ::
    "byte list \<Rightarrow> int \<Rightarrow> int \<times> bool \<times> bool \<times> AcseConnection
     \<Rightarrow> (int \<times> bool \<times> bool \<times> AcseConnection, unit) ctl run" where
  "user_info_round b maxBufPos = (\<lambda>(bufPos, hasindirectReference, isDataValid, self).
     rbind (read_tl b bufPos maxBufPos) (\<lambda>(tag, bufPos, l). rbind (use_var l) (\<lambda>len.
       if tag = 0x02 then
         rbind (BerDecoder_decodeUint32 b len bufPos) (\<lambda>v.
           Inr (Continue (i32 (bufPos + len), True, isDataValid, self\<lparr>nextReference := uint v\<rparr>)))
       else if tag = 0xa0 then
         Inr (Continue (i32 (bufPos + len), hasindirectReference, True,
           self\<lparr>userDataBufferSize := len, userDataBuffer := Some (drop (nat bufPos) b)\<rparr>))
       else Inr (Continue (i32 (bufPos + len), hasindirectReference, isDataValid, self)))))"

definition parseUserInformation ::
    "nat \<Rightarrow> AcseConnection \<Rightarrow> byte list \<Rightarrow> int \<Rightarrow> int \<Rightarrow> (AcseConnection \<times> bool \<times> int) run" where
  "parseUserInformation n self b bufPos maxBufPos =
     rbind (c_while n (\<lambda>(bufPos, _). bufPos < maxBufPos) (user_info_round b maxBufPos) (bufPos, False, False, self))
       (\<lambda>r. case r of
           Return _ \<Rightarrow> Inr (self, False, bufPos)
         | Continue (bufPos, hasindirectReference, isDataValid, self) \<Rightarrow>
             Inr (self, hasindirectReference \<and> isDataValid, bufPos))"

text \<open>The user information element, common to the request and the response.\<close>

definition user_information ::
    "nat \<Rightarrow> byte list \<Rightarrow> int \<Rightarrow> int \<Rightarrow> int option \<Rightarrow> AcseConnection \<Rightarrow> bool \<Rightarrow> (AcseConnection \<times> bool \<times> int) run" where
  "user_information n b maxBufPos bufPos l self userInfoValid =
     rbind (rd b bufPos) (\<lambda>x.
       if x \<noteq> 0x28 then rbind (use_var l) (\<lambda>len. Inr (self, userInfoValid, i32 (bufPos + len)))
       else rbind (BerDecoder_decodeLength b l (bufPos + 1) maxBufPos) (\<lambda>(bufPos, l). rbind (use_var l) (\<lambda>len.
              parseUserInformation n self b bufPos (i32 (bufPos + len)))))"

definition aare_round ::
    "nat \<Rightarrow> byte list \<Rightarrow> int \<Rightarrow> int \<times> bool \<times> u32 \<times> AcseConnection
     \<Rightarrow> (int \<times> bool \<times> u32 \<times> AcseConnection, unit) ctl run" where
  "aare_round n b maxBufPos = (\<lambda>(bufPos, userInfoValid, result, self).
     rbind (read_tl b bufPos maxBufPos) (\<lambda>(tag, bufPos, l).
       if tag = 0xa2 then
         rbind (BerDecoder_decodeLength b l (bufPos + 1) maxBufPos) (\<lambda>(bufPos, l). rbind (use_var l) (\<lambda>len.
         rbind (BerDecoder_decodeUint32 b len bufPos) (\<lambda>result.
           Inr (Continue (i32 (bufPos + len), userInfoValid, result, self)))))
       else if tag = 0xbe then
         rbind (user_information n b maxBufPos bufPos l self userInfoValid) (\<lambda>(self, userInfoValid, bufPos).
           Inr (Continue (bufPos, userInfoValid, result, self)))
       else rbind (use_var l) (\<lambda>len. Inr (Continue (i32 (bufPos + len), userInfoValid, result, self)))))"

definition parseAarePdu ::
    "nat \<Rightarrow> AcseConnection \<Rightarrow> byte list \<Rightarrow> int \<Rightarrow> int \<Rightarrow> (AcseConnection \<times> AcseIndication) run" where
  "parseAarePdu n self b bufPos maxBufPos =
     rbind (c_while n (\<lambda>(bufPos, _). bufPos < maxBufPos) (aare_round n b maxBufPos) (bufPos, False, 99, self))
       (\<lambda>r. case r of
           Return _ \<Rightarrow> Inr (self, ACSE_ERROR)
         | Continue (bufPos, userInfoValid, result, self) \<Rightarrow>
             Inr (self, if \<not> userInfoValid then ACSE_ERROR
                        else if result \<noteq> 0 then ACSE_ASSOCIATE_FAILED else ACSE_ASSOCIATE))"

text \<open>The local variables of \<open>parseAarqPdu\<close>.\<close>

record aarq_vars =
  authMechanism :: "byte list option"
  authMechLen :: int
  authValue :: "byte list option"
  authValueLen :: int
  userInfoValid :: bool

definition aarq_round ::
    "nat \<Rightarrow> byte list \<Rightarrow> int \<Rightarrow> int \<times> aarq_vars \<times> AcseConnection
     \<Rightarrow> (int \<times> aarq_vars \<times> AcseConnection, AcseConnection \<times> AcseIndication) ctl run" where
  "aarq_round n b maxBufPos = (\<lambda>(bufPos, v, self).
     rbind (read_tl b bufPos maxBufPos) (\<lambda>(tag, bufPos, l).
       if bufPos < 0 then Inr (Return (self, ACSE_ASSOCIATE_FAILED))
       else rbind (use_var l) (\<lambda>len.
         if tag = 0x8b then
           Inr (Continue (i32 (bufPos + len), v\<lparr>authMechLen := len, authMechanism := Some (drop (nat bufPos) b)\<rparr>, self))
         else if tag = 0xac then
           rbind (BerDecoder_decodeLength b l (bufPos + 1) maxBufPos) (\<lambda>(bufPos, l). rbind (use_var l) (\<lambda>len.
             Inr (Continue (i32 (bufPos + len), v\<lparr>authValueLen := len, authValue := Some (drop (nat bufPos) b)\<rparr>, self))))
         else if tag = 0xbe then
           rbind (user_information n b maxBufPos bufPos l self (userInfoValid v)) (\<lambda>(self, valid, bufPos).
             Inr (Continue (bufPos, v\<lparr>userInfoValid := valid\<rparr>, self)))
         else Inr (Continue (i32 (bufPos + len), v, self)))))"

definition parseAarqPdu ::
    "nat \<Rightarrow> AcseConnection \<Rightarrow> byte list \<Rightarrow> int \<Rightarrow> int \<Rightarrow> (AcseConnection \<times> AcseIndication) run" where
  "parseAarqPdu n self b bufPos maxBufPos =
     rbind (c_while n (\<lambda>(bufPos, _). bufPos < maxBufPos) (aarq_round n b maxBufPos)
              (bufPos, \<lparr>authMechanism = None, authMechLen = 0, authValue = None, authValueLen = 0, userInfoValid = False\<rparr>, self))
       (\<lambda>r. case r of
           Return x \<Rightarrow> Inr x
         | Continue (_, v, self) \<Rightarrow>
             rbind (checkAuthentication self (authMechanism v) (authMechLen v) (authValue v) (authValueLen v))
               (\<lambda>(self, accepted).
                 Inr (self, if \<not> accepted then ACSE_ASSOCIATE_FAILED
                            else if \<not> userInfoValid v then ACSE_ASSOCIATE_FAILED
                            else ACSE_ASSOCIATE)))"

definition AcseConnection_parseMessage ::
    "nat \<Rightarrow> AcseConnection \<Rightarrow> ByteBuffer \<Rightarrow> (AcseConnection \<times> AcseIndication) run" where
  "AcseConnection_parseMessage n self message =
     (let b = buffer message; messageSize = bsize message
      in rbind (rd b 0) (\<lambda>messageType.
         rbind (BerDecoder_decodeLength b None 1 messageSize) (\<lambda>(bufPos, _).
           if bufPos < 0 then Inr (self, ACSE_ERROR)
           else if messageType = 0x60 then parseAarqPdu n self b bufPos messageSize
           else if messageType = 0x61 then parseAarePdu n self b bufPos messageSize
           else if messageType = 0x62 then Inr (self, ACSE_RELEASE_REQUEST)
           else if messageType = 0x63 then Inr (self, ACSE_RELEASE_RESPONSE)
           else if messageType = 0x64 then Inr (self, ACSE_ABORT)
           else Inr (self, ACSE_ERROR))))"


section \<open>Encoding\<close>

text \<open>A null payload is \<open>None\<close>: its length is read first.\<close>

definition AcseConnection_createAssociateResponseMessage ::
    "AcseConnection \<Rightarrow> byte \<Rightarrow> BufferChain \<Rightarrow> BufferChain option \<Rightarrow> BufferChain run" where
  "AcseConnection_createAssociateResponseMessage self acseResult wbuf payld =
     (case payld of
        None \<Rightarrow> Inl Null_pointer
      | Some pl \<Rightarrow>
          (let fixedContentLength = 9 + 5 + 5;
               payloadLength = chain_length pl;
               nextRefLength = BerEncoder_UInt32determineEncodedSize (word_of_int (nextReference self));
               assocDataLength = payloadLength + 1 + BerEncoder_determineLengthSize (word_of_int payloadLength)
                                 + nextRefLength + 2;
               userInfoLength = assocDataLength + BerEncoder_determineLengthSize (word_of_int assocDataLength) + 1;
               variableContentLength =
                 userInfoLength + BerEncoder_determineLengthSize (word_of_int userInfoLength) + 1 + 2;
               contentLength = fixedContentLength + variableContentLength;
               buf = BerEncoder_encodeTL 0x61 contentLength [];
               buf = BerEncoder_encodeTL 0xa1 7 buf;
               buf = BerEncoder_encodeTL 0x06 5 buf @ appContextNameMms;
               buf = BerEncoder_encodeTL 0xa2 3 buf;
               buf = BerEncoder_encodeTL 0x02 1 buf @ [acseResult];
               buf = BerEncoder_encodeTL 0xa3 5 buf;
               buf = BerEncoder_encodeTL 0xa1 3 buf;
               buf = BerEncoder_encodeTL 0x02 1 buf @ [0];
               buf = BerEncoder_encodeTL 0xbe userInfoLength buf;
               buf = BerEncoder_encodeTL 0x28 assocDataLength buf;
               buf = BerEncoder_encodeTL 0x02 nextRefLength buf;
               buf = BerEncoder_encodeUInt32 (word_of_int (nextReference self)) buf;
               buf = BerEncoder_encodeTL 0xa0 payloadLength buf
           in put_part wbuf buf pl))"

definition AcseConnection_createAssociateFailedMessage :: "AcseConnection \<Rightarrow> BufferChain \<Rightarrow> BufferChain run" where
  "AcseConnection_createAssociateFailedMessage self wbuf =
     AcseConnection_createAssociateResponseMessage self ACSE_RESULT_REJECT_PERMANENT wbuf None"

text \<open>An application title with its AE qualifier: the lengths that are added up, and the octets.\<close>

definition ap_title_length :: "int \<Rightarrow> int \<Rightarrow> int" where
  "ap_title_length titleLen aeQualifier =
     (if titleLen > 0 then (4 + titleLen) + (4 + BerEncoder_UInt32determineEncodedSize (word_of_int aeQualifier)) else 0)"

definition encode_ap_title :: "byte \<Rightarrow> byte \<Rightarrow> byte list \<Rightarrow> int \<Rightarrow> int \<Rightarrow> byte list \<Rightarrow> byte list run" where
  "encode_ap_title titleTag qualifierTag title titleLen aeQualifier buf =
     (if titleLen > 0
      then (let qualifierLength = BerEncoder_UInt32determineEncodedSize (word_of_int aeQualifier);
                buf = BerEncoder_encodeTL titleTag (titleLen + 2) buf;
                buf = BerEncoder_encodeTL 0x06 titleLen buf
            in rbind (rd_n title 0 (nat titleLen)) (\<lambda>t.
               let buf = BerEncoder_encodeTL qualifierTag (qualifierLength + 2) (buf @ t);
                   buf = BerEncoder_encodeTL 0x02 qualifierLength buf
               in Inr (BerEncoder_encodeUInt32 (word_of_int aeQualifier) buf)))
      else Inr buf)"

text \<open>The authentication part of the request: the length that is added up, and the octets.\<close>

definition auth_length :: "AcseAuthenticationParameter option \<Rightarrow> int" where
  "auth_length authParameter =
     (case authParameter of
        None \<Rightarrow> 0
      | Some a \<Rightarrow>
          4 + 5 +
          (if mechanism a = ACSE_AUTH_PASSWORD
           then (let authValueStringLength = BerEncoder_determineLengthSize (word_of_int (passwordLength a))
                 in 2 + (passwordLength a + authValueStringLength)
                    + BerEncoder_determineLengthSize (word_of_int (passwordLength a + authValueStringLength + 1)))
           else 2))"

definition encode_auth :: "AcseAuthenticationParameter option \<Rightarrow> byte list \<Rightarrow> byte list run" where
  "encode_auth authParameter buf =
     (case authParameter of
        None \<Rightarrow> Inr buf
      | Some a \<Rightarrow>
          (let buf = BerEncoder_encodeTL 0x8a 2 buf @ [0x04]
           in if mechanism a = ACSE_AUTH_PASSWORD
              then (let authValueStringLength = BerEncoder_determineLengthSize (word_of_int (passwordLength a));
                        buf = BerEncoder_encodeTL 0x8b 3 (buf @ [0x80]) @ auth_mech_password_oid;
                        buf = BerEncoder_encodeTL 0xac (authValueStringLength + passwordLength a + 1) buf;
                        buf = BerEncoder_encodeTL 0x80 (passwordLength a) buf
                    in case octetString a of
                         None \<Rightarrow> if passwordLength a = 0 then Inr buf else Inl Null_pointer
                       | Some p \<Rightarrow> if passwordLength a < 0 then Inl Out_of_bounds
                                   else rbind (rd_n p 0 (nat (passwordLength a))) (\<lambda>v. Inr (buf @ v)))
              else Inr (buf @ [0])))"

definition AcseConnection_createAssociateRequestMessage ::
    "AcseConnection \<Rightarrow> IsoConnectionParameters \<Rightarrow> BufferChain \<Rightarrow> BufferChain
     \<Rightarrow> AcseAuthenticationParameter option \<Rightarrow> BufferChain run" where
  "AcseConnection_createAssociateRequestMessage self isoParameters wbuf payld authParameter =
     (let payloadLength = chain_length payld;
          contentLength = 9 + ap_title_length (remoteApTitleLen isoParameters) (remoteAEQualifier isoParameters)
            + ap_title_length (localApTitleLen isoParameters) (localAEQualifier isoParameters)
            + auth_length authParameter;
          assocDataLength = payloadLength + 1 + BerEncoder_determineLengthSize (word_of_int payloadLength) + 1 + 2;
          userInfoLen = assocDataLength + BerEncoder_determineLengthSize (word_of_int assocDataLength) + 1;
          userInfoLength = userInfoLen + BerEncoder_determineLengthSize (word_of_int userInfoLen) + 1;
          contentLength = contentLength + userInfoLength;
          buf = BerEncoder_encodeTL 0x60 contentLength [];
          buf = BerEncoder_encodeTL 0xa1 7 buf;
          buf = BerEncoder_encodeTL 0x06 5 buf @ appContextNameMms
      in rbind (encode_ap_title 0xa2 0xa3 (remoteApTitle isoParameters) (remoteApTitleLen isoParameters)
                  (remoteAEQualifier isoParameters) buf) (\<lambda>buf.
         rbind (encode_ap_title 0xa6 0xa7 (localApTitle isoParameters) (localApTitleLen isoParameters)
                  (localAEQualifier isoParameters) buf) (\<lambda>buf.
         rbind (encode_auth authParameter buf) (\<lambda>buf.
           let buf = BerEncoder_encodeTL 0xbe userInfoLen buf;
               buf = BerEncoder_encodeTL 0x28 assocDataLength buf;
               buf = BerEncoder_encodeTL 0x02 1 buf @ [3];
               buf = BerEncoder_encodeTL 0xa0 payloadLength buf
           in put_part wbuf buf payld))))"

text \<open>The short messages have no payload.\<close>

definition put_message :: "BufferChain \<Rightarrow> byte list \<Rightarrow> BufferChain run" where
  "put_message wbuf bs =
     rbind (memcpy_to (chain_buffer wbuf) 0 bs (int (length bs))) (\<lambda>b.
       Inr (BufferChain (int (length bs)) (int (length bs)) (partMaxLength wbuf) None b))"

definition AcseConnection_createAbortMessage :: "AcseConnection \<Rightarrow> BufferChain \<Rightarrow> bool \<Rightarrow> BufferChain run" where
  "AcseConnection_createAbortMessage self wbuf isProvider =
     put_message wbuf [0x64, 3, 0x80, 1, if isProvider then 1 else 0]"

definition AcseConnection_createReleaseRequestMessage :: "AcseConnection \<Rightarrow> BufferChain \<Rightarrow> BufferChain run" where
  "AcseConnection_createReleaseRequestMessage self wbuf = put_message wbuf [0x62, 3, 0x80, 1, 0]"

definition AcseConnection_createReleaseResponseMessage :: "AcseConnection \<Rightarrow> BufferChain \<Rightarrow> BufferChain run" where
  "AcseConnection_createReleaseResponseMessage self wbuf = put_message wbuf [0x63, 0]"

end
