(* ===== verification/Session_Correct.thy ===== *)
theory Session_Correct
  imports Session
begin

text \<open>
  The session parser of theory \<open>Session\<close> ends for every message, stays near the message, and
  implements the meaning of the parameter list; the encoders produce such lists, so that every
  session PDU is understood by the other side.
\<close>

unbundle bit_operations_syntax

section \<open>The loops end\<close>

lemma rd_fuel_free: "rd b i \<noteq> Inl Out_of_fuel"
  by (simp add: rd_def)

lemma rd_n_fuel_free: "rd_n b i n \<noteq> Inl Out_of_fuel"
  by (induction n arbitrary: i) (auto simp: rbind_Inl_iff rd_fuel_free)

lemma accept_round_progress:
  "accept_round m (p, st) = Inr (Continue (p', st')) \<Longrightarrow> p + 2 \<le> p'"
  by (cases st) (auto simp: accept_round_def Let_def rbind_Inr_iff split: if_splits)

lemma accept_round_fuel_free: "accept_round m st \<noteq> Inl Out_of_fuel"
  by (cases st) (auto simp: accept_round_def Let_def rbind_Inl_iff rd_fuel_free split: if_splits)

lemma accept_round_return: "accept_round m st = Inr (Return r) \<Longrightarrow> snd r = -1"
  by (cases st) (auto simp: accept_round_def Let_def rbind_Inr_iff split: if_splits)

interpretation accept_loop: measured_loop
  "\<lambda>(offset, _). offset < e" "accept_round m" "\<lambda>(offset, _). nat (e - offset)" "\<lambda>_. True"
  for m :: ByteBuffer and e :: int
proof unfold_locales
  fix s s' :: "int \<times> bool \<times> bool \<times> IsoSession"
  assume "case s of (offset, _) \<Rightarrow> offset < e" and "accept_round m s = Inr (Continue s')"
  then show "(case s' of (offset, _) \<Rightarrow> nat (e - offset)) < (case s of (offset, _) \<Rightarrow> nat (e - offset))"
    using accept_round_progress [of m "fst s" "snd s" "fst s'" "snd s'"] by (auto split: prod.splits)
qed (simp_all add: accept_round_fuel_free)

lemma accept_fuel:
  "c_while (Suc (nat n)) (\<lambda>(offset, _). offset < p + n) (accept_round m) (p, st) \<noteq> Inl Out_of_fuel"
  by (rule accept_loop.enough_fuel) simp_all

lemma parseAcceptParameters_fuel_free: "parseAcceptParameters s m p n \<noteq> Inl Out_of_fuel"
proof
  assume "parseAcceptParameters s m p n = Inl Out_of_fuel"
  then have "c_while (Suc (nat n)) (\<lambda>(offset, _). offset < p + n) (accept_round m) (p, False, False, s)
             = Inl Out_of_fuel"
    unfolding parseAcceptParameters_def rbind_Inl_iff
    by (elim disjE exE conjE) (simp, case_tac x, auto simp del: c_while.simps)
  with accept_fuel show False by contradiction
qed

lemma accept_end_ge:
  "c_while k (\<lambda>(offset, _). offset < e) (accept_round m) st = Inr (Continue st') \<Longrightarrow> fst st \<le> fst st'"
proof (induction k arbitrary: st)
  case 0
  then show ?case by (auto split: if_splits)
next
  case (Suc k)
  show ?case
  proof (cases "case st of (offset, _) \<Rightarrow> offset < e")
    case True
    with Suc.prems obtain t where t: "accept_round m st = Inr (Continue t)"
      "c_while k (\<lambda>(offset, _). offset < e) (accept_round m) t = Inr (Continue st')"
      by (auto split: sum.splits ctl.splits)
    from Suc.IH [OF t(2)] accept_round_progress [of m "fst st" "snd st" "fst t" "snd t"] t(1)
    show ?thesis by simp
  qed (use Suc.prems in simp)
qed

lemma parseAcceptParameters_len:
  "parseAcceptParameters s m p n = Inr (s', v) \<Longrightarrow> v = -1 \<or> 0 \<le> v"
proof -
  assume a: "parseAcceptParameters s m p n = Inr (s', v)"
  let ?w = "c_while (Suc (nat n)) (\<lambda>(offset, _). offset < p + n) (accept_round m) (p, False, False, s)"
  from a obtain r where w: "?w = Inr r" by (auto simp: parseAcceptParameters_def rbind_Inr_iff)
  show ?thesis
  proof (cases r)
    case (Continue t)
    with w accept_end_ge [of "Suc (nat n)" "p + n" m "(p, False, False, s)" t] have "p \<le> fst t" by simp
    with a w Continue show ?thesis
      by (auto simp: parseAcceptParameters_def rbind_Inr_iff split: prod.splits if_splits)
  next
    case (Return x)
    have "snd x = -1"
    proof -
      have "snd x = -1" if "c_while k c (accept_round m) st = Inr (Return x)" for k c st
        using that by (induction k arbitrary: st)
          (auto split: if_splits sum.splits ctl.splits dest: accept_round_return)
      then show ?thesis using w Return by blast
    qed
    with a w Return show ?thesis
      by (auto simp: parseAcceptParameters_def rbind_Inr_iff split: prod.splits)
  qed
qed

lemma header_round_progress:
  "header_round m (p, s) = Inr (Continue (p', s')) \<Longrightarrow> p + 2 \<le> p'"
  by (auto simp: header_round_def Let_def rbind_Inr_iff split: if_splits dest: parseAcceptParameters_len)

lemma header_round_fuel_free: "header_round m st \<noteq> Inl Out_of_fuel"
  by (cases st) (auto simp: header_round_def Let_def rbind_Inl_iff rd_fuel_free rd_n_fuel_free
      parseAcceptParameters_fuel_free split: if_splits)

interpretation header_loop: measured_loop
  "\<lambda>(offset, _). offset < e" "header_round m" "\<lambda>(offset, _). nat (e - offset)" "\<lambda>_. True"
  for m :: ByteBuffer and e :: int
proof unfold_locales
  fix s s' :: "int \<times> IsoSession"
  assume "case s of (offset, _) \<Rightarrow> offset < e" and "header_round m s = Inr (Continue s')"
  then show "(case s' of (offset, _) \<Rightarrow> nat (e - offset)) < (case s of (offset, _) \<Rightarrow> nat (e - offset))"
    using header_round_progress [of m "fst s" "snd s" "fst s'" "snd s'"] by (auto split: prod.splits)
qed (simp_all add: header_round_fuel_free)

lemma header_fuel:
  "c_while (Suc (nat n)) (\<lambda>(offset, _). offset < n + 2) (header_round m) (2, s) \<noteq> Inl Out_of_fuel"
  by (rule header_loop.enough_fuel) simp_all


section \<open>The loops implement the parameter list\<close>

lemma uint_of_nat_byte: "n < 256 \<Longrightarrow> uint (of_nat n :: byte) = int n"
  by (simp add: unsigned_of_nat take_bit_nat_eq_self flip: uint_nat)

lemma unat_of_nat_byte: "n < 256 \<Longrightarrow> unat (of_nat n :: byte) = n"
  by (simp add: unsigned_of_nat take_bit_nat_eq_self)

lemma accept_round_item:
  assumes "item_ok it" and "bytes_at (buffer m) p (item_octets it)"
  shows "(case item_effects st [it] of
            Some st' \<Rightarrow> accept_round m (p, st) = Inr (Continue (p + int (length (item_octets it)), st'))
          | None \<Rightarrow> \<exists>s'. accept_round m (p, st) = Inr (Return (s', -1)))"
  using assms
  by (cases st; cases it) (auto simp: accept_round_def Let_def bytes_at_append uint_of_nat_byte add.assoc)

lemma item_effects_Cons:
  "item_effects st (it # its) = (case item_effects st [it] of None \<Rightarrow> None | Some st' \<Rightarrow> item_effects st' its)"
  by (cases st; cases it) auto

lemma accept_loop_items:
  "list_all item_ok its \<Longrightarrow> bytes_at (buffer m) p (concat (map item_octets its)) \<Longrightarrow>
   e = p + int (length (concat (map item_octets its))) \<Longrightarrow>
   (case item_effects st its of
      Some st' \<Rightarrow> loop_ends (\<lambda>(offset, _). offset < e) (accept_round m) (p, st) (Continue (e, st'))
    | None \<Rightarrow> \<exists>s'. loop_ends (\<lambda>(offset, _). offset < e) (accept_round m) (p, st) (Return (s', -1)))"
proof (induction its arbitrary: p st)
  case Nil
  then show ?case by (simp add: loop_ends_done)
next
  case (Cons it its)
  let ?c = "\<lambda>(offset, _). offset < e"
  let ?q = "p + int (length (item_octets it))"
  have len: "0 < length (item_octets it)" by (cases it) auto
  have "0 < int (length (item_octets it)) + int (length (concat (map item_octets its)))"
    by (rule add_pos_nonneg) (use len in simp_all)
  with Cons.prems(3) have c: "?c (p, st)" by simp
  from Cons.prems have it: "item_ok it" "bytes_at (buffer m) p (item_octets it)"
    and rest: "list_all item_ok its" "bytes_at (buffer m) ?q (concat (map item_octets its))"
      "e = ?q + int (length (concat (map item_octets its)))"
    by (simp_all add: bytes_at_append)
  note round = accept_round_item [OF it, of st]
  show ?case
  proof (cases "item_effects st [it]")
    case None
    with round c loop_ends_return [of ?c "(p, st)" "accept_round m"] show ?thesis
      by (auto simp: item_effects_Cons [of st it its])
  next
    case (Some st')
    with round have r: "accept_round m (p, st) = Inr (Continue (?q, st'))" by simp
    have step: "loop_ends ?c (accept_round m) (p, st) r" if "loop_ends ?c (accept_round m) (?q, st') r" for r
      using c r that by (rule loop_ends_step)
    show ?thesis
    proof (cases "item_effects st' its")
      case None
      with Cons.IH [OF rest, of st'] step show ?thesis
        by (auto simp: item_effects_Cons [of st it its] Some)
    next
      case (Some st'')
      with Cons.IH [OF rest, of st'] have "loop_ends ?c (accept_round m) (?q, st') (Continue (e, st''))" by simp
      then have "loop_ends ?c (accept_round m) (p, st) (Continue (e, st''))" by (rule step)
      then show ?thesis by (simp only: item_effects_Cons [of st it its] Some \<open>item_effects st [it] = Some st'\<close> option.case)
    qed
  qed
qed

lemma parseAcceptParameters_items:
  assumes "list_all item_ok its" and "bytes_at (buffer m) p (concat (map item_octets its))"
    and n: "n = int (length (concat (map item_octets its)))"
  shows "(case item_effects (False, False, s) its of
            Some (True, True, s') \<Rightarrow> parseAcceptParameters s m p n = Inr (s', n)
          | _ \<Rightarrow> \<exists>s'. parseAcceptParameters s m p n = Inr (s', -1))"
proof -
  let ?w = "c_while (Suc (nat n)) (\<lambda>(offset, _). offset < p + n) (accept_round m) (p, False, False, s)"
  have run: "?w = Inr r" if "loop_ends (\<lambda>(offset, _). offset < p + n) (accept_round m) (p, False, False, s) r" for r
    by (rule accept_loop.run_ends) (use that in auto)
  have l: "p + n = p + int (length (concat (map item_octets its)))" by (simp only: n)
  show ?thesis
  proof (cases "item_effects (False, False, s) its")
    case None
    with accept_loop_items [OF assms(1,2) l, of "(False, False, s)"] obtain s' where "?w = Inr (Return (s', -1))"
      using run by auto
    with None show ?thesis by (simp add: parseAcceptParameters_def)
  next
    case (Some st')
    with accept_loop_items [OF assms(1,2) l, of "(False, False, s)"] have "?w = Inr (Continue (p + n, st'))"
      using run by simp
    with Some show ?thesis by (cases st') (auto simp: parseAcceptParameters_def split: bool.splits)
  qed
qed

lemma header_round_param:
  assumes "param_ok pr" and "bytes_at (buffer m) p (param_octets pr)"
  shows "(case param_effects s [pr] of
            Some s' \<Rightarrow> header_round m (p, s) = Inr (Continue (p + int (length (param_octets pr)), s'))
          | None \<Rightarrow> \<exists>s'. header_round m (p, s) = Inr (Return (s', SESSION_ERROR)))"
proof (cases pr)
  case (Skipped c v)
  with assms show ?thesis by (auto simp: header_round_def Let_def uint_of_nat_byte)
next
  case (Connect_accept its)
  let ?bs = "concat (map item_octets its)"
  from assms Connect_accept have its: "list_all item_ok its" "length ?bs < 256"
    and b: "rd (buffer m) p = Inr 5" "rd (buffer m) (p + 1) = Inr (of_nat (length ?bs))"
      "bytes_at (buffer m) (p + 2) ?bs"
    by (auto simp: add.assoc)
  from b have r: "header_round m (p, s)
      = rbind (parseAcceptParameters s m (p + 2) (int (length ?bs))) (\<lambda>(s', connectAcceptLen).
              if connectAcceptLen = -1 then Inr (Return (s', SESSION_ERROR))
              else Inr (Continue (p + 2 + connectAcceptLen, s')))"
    by (simp add: header_round_def Let_def uint_of_nat_byte [OF its(2)])
  show ?thesis
    using parseAcceptParameters_items [OF its(1) b(3) refl, of s] unfolding r
    by (auto simp: Connect_accept split: option.splits bool.splits)
next
  case (Requirement hi lo)
  with assms show ?thesis by (simp add: header_round_def Let_def add.assoc)
next
  case (Calling v)
  with assms have v: "length v < 256" and b: "rd (buffer m) p = Inr 51" "rd (buffer m) (p + 1) = Inr (of_nat (length v))"
    "rd_n (buffer m) (p + 2) (length v) = Inr v" by (auto simp: add.assoc rd_n_bytes_at)
  have "(of_nat (length v) :: byte) > 16 \<longleftrightarrow> length v > 16"
    using v by (simp add: word_less_nat_alt unat_of_nat_byte)
  with b v show ?thesis
    by (simp add: header_round_def Let_def Calling uint_of_nat_byte unat_of_nat_byte)
next
  case (Called v)
  with assms have v: "length v < 256" and b: "rd (buffer m) p = Inr 52" "rd (buffer m) (p + 1) = Inr (of_nat (length v))"
    "rd_n (buffer m) (p + 2) (length v) = Inr v" by (auto simp: add.assoc rd_n_bytes_at)
  have "(of_nat (length v) :: byte) > 16 \<longleftrightarrow> length v > 16"
    using v by (simp add: word_less_nat_alt unat_of_nat_byte)
  with b v show ?thesis
    by (simp add: header_round_def Let_def Called uint_of_nat_byte unat_of_nat_byte)
qed

lemma param_effects_Cons:
  "param_effects s (pr # ps) = (case param_effects s [pr] of None \<Rightarrow> None | Some s' \<Rightarrow> param_effects s' ps)"
  by (cases pr) (auto split: option.splits prod.splits bool.splits)

lemma header_loop_params:
  "list_all param_ok ps \<Longrightarrow> bytes_at (buffer m) p (concat (map param_octets ps) @ [193, l]) \<Longrightarrow>
   p + int (length (concat (map param_octets ps))) < e \<Longrightarrow>
   (case param_effects s ps of
      Some s' \<Rightarrow> let q = p + int (length (concat (map param_octets ps))) + 2
        in loop_ends (\<lambda>(offset, _). offset < e) (header_round m) (p, s)
             (Return (s'\<lparr>ss_userData := ByteBuffer_wrap (ss_userData s') (drop (nat q) (buffer m))
                                         (bsize m - q) (maxSize m - q)\<rparr>, SESSION_OK))
    | None \<Rightarrow> \<exists>s'. loop_ends (\<lambda>(offset, _). offset < e) (header_round m) (p, s) (Return (s', SESSION_ERROR)))"
proof (induction ps arbitrary: p s)
  case Nil
  then have "header_round m (p, s) = Inr (Return
      (s\<lparr>ss_userData := ByteBuffer_wrap (ss_userData s) (drop (nat (p + 2)) (buffer m))
             (bsize m - (p + 2)) (maxSize m - (p + 2))\<rparr>, SESSION_OK))"
    by (simp add: header_round_def Let_def)
  with Nil show ?case by (simp add: Let_def loop_ends_return)
next
  case (Cons pr ps)
  let ?c = "\<lambda>(offset, _). offset < e"
  let ?q = "p + int (length (param_octets pr))"
  have "0 \<le> int (length (param_octets pr)) + int (length (concat (map param_octets ps)))" by simp
  with Cons.prems(3) have c: "?c (p, s)" by simp
  from Cons.prems have pr: "param_ok pr" "bytes_at (buffer m) p (param_octets pr)"
    and rest: "list_all param_ok ps" "bytes_at (buffer m) ?q (concat (map param_octets ps) @ [193, l])"
      "?q + int (length (concat (map param_octets ps))) < e"
    by (simp_all add: bytes_at_append add.assoc)
  note round = header_round_param [OF pr, of s]
  show ?case
  proof (cases "param_effects s [pr]")
    case None
    with round obtain s' where "header_round m (p, s) = Inr (Return (s', SESSION_ERROR))" by auto
    with c have "loop_ends ?c (header_round m) (p, s) (Return (s', SESSION_ERROR))"
      by (rule loop_ends_return)
    with None show ?thesis by (auto simp: param_effects_Cons [of s pr ps])
  next
    case (Some s1)
    with round have r: "header_round m (p, s) = Inr (Continue (?q, s1))" by simp
    have step: "loop_ends ?c (header_round m) (p, s) r" if "loop_ends ?c (header_round m) (?q, s1) r" for r
      using c r that by (rule loop_ends_step)
    have eff: "param_effects s (pr # ps) = param_effects s1 ps"
      by (simp only: param_effects_Cons [of s pr ps] Some option.case)
    have len: "p + int (length (concat (map param_octets (pr # ps)))) + 2
             = ?q + int (length (concat (map param_octets ps))) + 2" by simp
    show ?thesis
    proof (cases "param_effects s1 ps")
      case None
      with Cons.IH [OF rest, of s1] step show ?thesis unfolding eff by auto
    next
      case (Some s2)
      with Cons.IH [OF rest, of s1] show ?thesis
        unfolding eff len Let_def by (simp only: option.case) (rule step)
    qed
  qed
qed

lemma parseSessionHeaderParameters_params:
  assumes "list_all param_ok ps"
    and "bytes_at (buffer m) 2 (concat (map param_octets ps) @ [193, l])"
    and n: "int (length (concat (map param_octets ps))) < n"
  defines "q \<equiv> int (length (concat (map param_octets ps))) + 4"
  shows "(case param_effects s ps of
      Some s' \<Rightarrow> parseSessionHeaderParameters s m n
             = Inr (s'\<lparr>ss_userData := ByteBuffer_wrap (ss_userData s') (drop (nat q) (buffer m))
                                         (bsize m - q) (maxSize m - q)\<rparr>, SESSION_OK)
    | None \<Rightarrow> \<exists>s'. parseSessionHeaderParameters s m n = Inr (s', SESSION_ERROR))"
proof -
  let ?w = "c_while (Suc (nat n)) (\<lambda>(offset, _). offset < n + 2) (header_round m) (2, s)"
  have run: "?w = Inr r" if "loop_ends (\<lambda>(offset, _). offset < n + 2) (header_round m) (2, s) r" for r
    by (rule header_loop.run_ends) (use that in auto)
  have e: "2 + int (length (concat (map param_octets ps))) < n + 2" using n by simp
  have q: "2 + int (length (concat (map param_octets ps))) + 2 = q" by (simp add: q_def)
  note ends = header_loop_params [OF assms(1,2) e, of s, unfolded q Let_def]
  show ?thesis
  proof (cases "param_effects s ps")
    case None
    with ends run obtain s' where "?w = Inr (Return (s', SESSION_ERROR))" by auto
    with None show ?thesis by (simp add: parseSessionHeaderParameters_def del: c_while.simps)
  next
    case (Some s')
    from ends [unfolded Some option.case] have "?w = Inr (Return
        (s'\<lparr>ss_userData := ByteBuffer_wrap (ss_userData s') (drop (nat q) (buffer m))
                            (bsize m - q) (maxSize m - q)\<rparr>, SESSION_OK))" by (rule run)
    with Some show ?thesis by (simp add: parseSessionHeaderParameters_def del: c_while.simps)
  qed
qed


section \<open>Whole session PDUs\<close>

text \<open>The octets of a session PDU, and a buffer that holds a message.\<close>

definition spdu_octets :: "byte \<Rightarrow> session_param list \<Rightarrow> byte list \<Rightarrow> byte list" where
  "spdu_octets si ps payld =
     (let body = concat (map param_octets ps) @ [193, of_nat (length payld)]
      in [si, of_nat (length body + length payld)] @ body @ payld)"

definition holds :: "ByteBuffer \<Rightarrow> byte list \<Rightarrow> bool" where
  "holds m bs \<longleftrightarrow> bsize m = int (length bs) \<and> take (length bs) (buffer m) = bs"

lemma holds_bytes_at: "holds m bs \<Longrightarrow> bytes_at (buffer m) 0 bs"
  using bytes_at_self [of bs "drop (length bs) (buffer m)"] append_take_drop_id [of "length bs" "buffer m"]
  by (simp add: holds_def)

lemma holds_rest:
  assumes "holds m (xs @ ys)" and "q = int (length xs)"
  shows "holds (ByteBuffer_wrap u (drop (nat q) (buffer m)) (bsize m - q) mx) ys"
proof -
  from assms have "take (length xs + length ys) (buffer m) = xs @ ys" by (simp add: holds_def)
  then have "take (length ys) (drop (length xs) (buffer m)) = ys"
    by (metis add.commute append_eq_conv_conj take_drop drop_take add_diff_cancel_left')
  with assms show ?thesis by (simp add: holds_def ByteBuffer_wrap_def)
qed

lemma length_spdu_octets:
  "length (spdu_octets si ps payld) = 4 + length (concat (map param_octets ps)) + length payld"
  by (simp add: spdu_octets_def Let_def)

text \<open>Which indication a PDU with parameters is reported as.\<close>

definition spdu_indication :: "byte \<Rightarrow> IsoSessionIndication option" where
  "spdu_indication si =
     (if si = 13 \<or> si = 14 then Some SESSION_CONNECT
      else if si = 9 then Some SESSION_FINISH
      else if si = 10 then Some SESSION_DISCONNECT else None)"

lemma parseMessage_parameters:
  assumes "spdu_indication si = Some ind" and "rd (buffer m) 0 = Inr si" and "rd (buffer m) 1 = Inr len"
    and "1 < bsize m"
  shows "IsoSession_parseMessage s m = parse_parameters s m len ind"
  using assms by (auto simp: IsoSession_parseMessage_def spdu_indication_def split: if_splits)

lemma parseMessage_spdu:
  assumes ind: "spdu_indication si = Some ind" and ok: "list_all param_ok ps"
    and len: "length (spdu_octets si ps payld) \<le> 257" and m: "holds m (spdu_octets si ps payld)"
  shows "case param_effects s ps of
      Some s' \<Rightarrow> \<exists>u. IsoSession_parseMessage s m = Inr (s'\<lparr>ss_userData := u\<rparr>, ind) \<and> holds u payld
    | None \<Rightarrow> \<exists>s'. IsoSession_parseMessage s m = Inr (s', SESSION_ERROR)"
proof -
  let ?pp = "concat (map param_octets ps)" and ?l = "of_nat (length payld) :: byte"
  let ?n = "length ?pp + 2 + length payld"
  from len have n: "?n < 256" by (simp add: length_spdu_octets)
  have split: "spdu_octets si ps payld = ([si, of_nat ?n] @ ?pp @ [193, ?l]) @ payld"
    by (simp add: spdu_octets_def Let_def add.assoc)
  from m have b: "bytes_at (buffer m) 0 ([si, of_nat ?n] @ ?pp @ [193, ?l])"
    using holds_bytes_at bytes_at_append unfolding split by blast
  then have hd: "rd (buffer m) 0 = Inr si" "rd (buffer m) 1 = Inr (of_nat ?n)"
    and pp: "bytes_at (buffer m) 2 (?pp @ [193, ?l])" by simp_all
  from m have sz: "bsize m = 4 + int (length ?pp) + int (length payld)"
    by (simp add: holds_def length_spdu_octets)
  have "1 < bsize m" unfolding sz by simp
  from parseMessage_parameters [OF ind hd this] have
    "IsoSession_parseMessage s m = parse_parameters s m (of_nat ?n) ind" .
  moreover have u: "uint (of_nat ?n :: byte) = int ?n" using n by (rule uint_of_nat_byte)
  ultimately have r: "IsoSession_parseMessage s m
      = rbind (parseSessionHeaderParameters s m (int ?n)) (\<lambda>(s, r).
             Inr (s, if r = SESSION_OK then ind else SESSION_ERROR))"
    by (simp add: parse_parameters_def sz del: of_nat_add)
  let ?q = "int (length ?pp) + 4"
  have h: "holds (ByteBuffer_wrap u (drop (nat ?q) (buffer m)) (bsize m - ?q) mx) payld" for u mx
    by (rule holds_rest [OF m [unfolded split]]) simp
  have "int (length ?pp) < int ?n" by simp
  note params = parseSessionHeaderParameters_params [OF ok pp this, of s]
  show ?thesis
  proof (cases "param_effects s ps")
    case None
    with params show ?thesis by (auto simp: r)
  next
    case (Some s')
    with params h show ?thesis by (auto simp: r)
  qed
qed

lemma parseMessage_wrong_length:
  assumes "spdu_indication si = Some ind" and "bytes_at (buffer m) 0 [si, len]" and "1 < bsize m"
    and "uint len \<noteq> bsize m - 2"
  shows "IsoSession_parseMessage s m = Inr (s, SESSION_ERROR)"
  using parseMessage_parameters [OF assms(1), of m len s] assms by (simp add: parse_parameters_def)

text \<open>
  C28: The parser of the parameter SPDUs (CONNECT, ACCEPT, FINISH, DISCONNECT) implements the meaning of the
  parameter list: on the octets of any well-formed list followed by user data it succeeds exactly
  when the list is acceptable, leaves the session the list describes and hands up the user data.
\<close>

theorem session_parser_refines:
  assumes "spdu_indication si = Some ind" and "list_all param_ok ps"
    and "length (spdu_octets si ps payld) \<le> 257" and "holds m (spdu_octets si ps payld)"
  shows "case param_effects s ps of
      Some s' \<Rightarrow> \<exists>u. IsoSession_parseMessage s m = Inr (s'\<lparr>ss_userData := u\<rparr>, ind) \<and> holds u payld
    | None \<Rightarrow> \<exists>s'. IsoSession_parseMessage s m = Inr (s', SESSION_ERROR)"
  using assms by (rule parseMessage_spdu)

theorem session_parser_refines_witness:
  "\<exists>u. IsoSession_parseMessage IsoSession_init
         \<lparr>buffer = [13, 12, 5, 6, 19, 1, 3, 22, 1, 2, 193, 2, 7, 8], bsize = 14, maxSize = 14\<rparr>
       = Inr (IsoSession_init\<lparr>protocolOptions := 3, ss_userData := u\<rparr>, SESSION_CONNECT) \<and> holds u [7, 8]"
  using session_parser_refines [of 13 SESSION_CONNECT "[Connect_accept [Protocol_options 3, Version 1 2]]" "[7, 8]"
      "\<lparr>buffer = [13, 12, 5, 6, 19, 1, 3, 22, 1, 2, 193, 2, 7, 8], bsize = 14, maxSize = 14\<rparr>" IsoSession_init]
  by (simp add: spdu_indication_def spdu_octets_def Let_def holds_def)


section \<open>Encoders\<close>

lemma put_part_ok:
  assumes "length hdr \<le> length (chain_buffer c)" and "chain_ok payld"
  shows "\<exists>c'. put_part c hdr payld = Inr c' \<and> chain_ok c' \<and> chain_bytes c' = hdr @ chain_bytes payld"
  using assms by (simp add: put_part_def memcpy_to_def)

lemma word_of_int_length: "chain_ok c \<Longrightarrow> (word_of_int (chain_length c) :: byte) = of_nat (length (chain_bytes c))"
  by (simp flip: chain_length_bytes)

text \<open>A selector that may be sent: its length is at most 16 and the array is there.\<close>

definition ssel_ok :: "SSelector \<Rightarrow> bool" where
  "ssel_ok sel \<longleftrightarrow> ssel_size sel \<le> 16 \<and> length (ssel_value sel) = 16"

definition ssel_octets :: "SSelector \<Rightarrow> byte list" where
  "ssel_octets sel = take (unat (ssel_size sel)) (ssel_value sel)"

lemma ssel_octets_length: "ssel_ok sel \<Longrightarrow> length (ssel_octets sel) = unat (ssel_size sel) \<and> unat (ssel_size sel) \<le> 16"
  by (simp add: ssel_ok_def ssel_octets_def word_le_nat_alt)

lemma sel_size_word: "ssel_ok sel \<Longrightarrow> of_nat (length (ssel_octets sel)) = ssel_size sel"
  using ssel_octets_length [of sel] by simp

lemma encode_selector_ok:
  assumes "ssel_ok sel"
  shows "encode_selector code sel buf = Inr (buf @ [code, of_nat (length (ssel_octets sel))] @ ssel_octets sel)"
proof -
  have "bytes_at (ssel_value sel) 0 (ssel_octets sel)"
    unfolding ssel_octets_def by (metis append_take_drop_id bytes_at_self)
  from rd_n_bytes_at [OF this] show ?thesis
    using ssel_octets_length [OF assms] sel_size_word [OF assms] by (simp add: encode_selector_def)
qed

lemma store_selector_all:
  assumes "ssel_ok sel" and "ssel_ok old"
  shows "ssel_size (store_selector old (of_nat (length (ssel_octets sel))) (ssel_octets sel)) = ssel_size sel
    \<and> ssel_octets (store_selector old (of_nat (length (ssel_octets sel))) (ssel_octets sel)) = ssel_octets sel"
  using ssel_octets_length [OF assms(1)] sel_size_word [OF assms(1)]
  by (simp add: store_selector_def ssel_octets_def)

lemma store_selector_ok:
  "length v \<le> 16 \<Longrightarrow> ssel_ok old \<Longrightarrow> ssel_ok (store_selector old (of_nat (length v)) v)"
  by (simp add: ssel_ok_def store_selector_def word_le_nat_alt unat_of_nat_byte)

definition req_hi :: "IsoSession \<Rightarrow> byte" where
  "req_hi s = ucast (sessionRequirement s div 0x100)"

definition req_lo :: "IsoSession \<Rightarrow> byte" where
  "req_lo s = ucast (sessionRequirement s AND 0xff)"

lemma req_octets: "ucast (req_hi s) * 0x100 + ucast (req_lo s) = sessionRequirement s"
proof -
  let ?r = "sessionRequirement s"
  have r: "unat ?r < 2 ^ 16" using unsigned_less [of ?r] by simp
  have hi: "unat (ucast (req_hi s) :: u16) = unat ?r div 256"
    using r by (simp add: req_hi_def unsigned_ucast_eq take_bit_eq_mod unat_div unat_mod)
  have "?r AND 0xff = take_bit 8 ?r" by (simp add: take_bit_eq_mask mask_eq_decr_exp)
  then have "unat (?r AND 0xff) = unat ?r mod 256"
    by (simp only: unsigned_take_bit_eq) (simp add: take_bit_eq_mod)
  then have lo: "unat (ucast (req_lo s) :: u16) = unat ?r mod 256"
    by (simp add: req_lo_def unsigned_ucast_eq take_bit_eq_mod unat_mod)
  have "unat (ucast (req_hi s) * 0x100 + ucast (req_lo s) :: u16) = unat ?r"
  proof -
    have "(unat ?r div 256) * 256 + unat ?r mod 256 = unat ?r" by simp
    with r show ?thesis by (simp add: unat_word_ariths hi lo)
  qed
  then show ?thesis by (simp add: word_unat_eq_iff)
qed

lemma default_selector_ok: "ssel_ok default_selector" "ssel_octets default_selector = [0, 1]"
  by (simp_all add: ssel_ok_def default_selector_def ssel_octets_def)

lemma init_fields:
  "callingSessionSelector IsoSession_init = default_selector"
  "calledSessionSelector IsoSession_init = default_selector"
  "sessionRequirement IsoSession_init = 2" "protocolOptions IsoSession_init = 0"
  by (simp_all add: IsoSession_init_def)

definition default_parameters :: IsoConnectionParameters where
  "default_parameters = IsoConnectionParameters_create
     \<lparr>remoteSSelector := default_selector, localSSelector := default_selector\<rparr>"

text \<open>The parameter lists of the PDUs that are sent.\<close>

definition connect_params :: "IsoSession \<Rightarrow> SSelector \<Rightarrow> SSelector \<Rightarrow> session_param list" where
  "connect_params s remote local =
     [Connect_accept [Protocol_options 0, Version 1 2], Requirement (req_hi s) (req_lo s),
      Calling (ssel_octets local), Called (ssel_octets remote)]"

definition accept_params :: "IsoSession \<Rightarrow> session_param list" where
  "accept_params s =
     [Connect_accept [Protocol_options (protocolOptions s), Version 1 2], Requirement (req_hi s) (req_lo s),
      Called (ssel_octets (calledSessionSelector s))]"

lemma createConnectSpdu_octets:
  assumes "ssel_ok (remoteSSelector ps)" and "ssel_ok (localSSelector ps)" and "chain_ok payld" and "64 \<le> length (chain_buffer c)"
  shows "\<exists>c'. IsoSession_createConnectSpdu s ps c payld
        = Inr (s\<lparr>calledSessionSelector := remoteSSelector ps, callingSessionSelector := localSSelector ps\<rparr>, c')
      \<and> chain_ok c' \<and> chain_bytes c' = spdu_octets 13 (connect_params s (remoteSSelector ps) (localSSelector ps)) (chain_bytes payld)"
proof -
  let ?r = "ssel_octets (remoteSSelector ps)" and ?l = "ssel_octets (localSSelector ps)"
  let ?rest = "[5, 6, 0x13, 1, 0, 0x16, 1, 2, 0x14, 2, req_hi s, req_lo s]
     @ [0x33, of_nat (length ?l)] @ ?l @ [0x34, of_nat (length ?r)] @ ?r @ [0xc1, word_of_int (chain_length payld)]"
  let ?hdr = "[13, word_of_int (int (length ?rest) + chain_length payld)] @ ?rest"
  have len: "length ?hdr \<le> length (chain_buffer c)"
    using ssel_octets_length [OF assms(1)] ssel_octets_length [OF assms(2)] assms(4) by simp
  have "IsoSession_createConnectSpdu s ps c payld
      = rbind (put_part c ?hdr payld) (\<lambda>c. Inr (s\<lparr>calledSessionSelector := remoteSSelector ps, callingSessionSelector := localSSelector ps\<rparr>, c))"
    using assms(1,2)
    by (simp add: IsoSession_createConnectSpdu_def Let_def encodeCallingSessionSelector_def
        encodeCalledSessionSelector_def encode_selector_ok encodeConnectAcceptItem_def
        encodeSessionRequirement_def encodeSessionUserData_def fill_length_def
        req_hi_def req_lo_def add.assoc)
  moreover have "?hdr @ chain_bytes payld = spdu_octets 13 (connect_params s (remoteSSelector ps) (localSSelector ps)) (chain_bytes payld)"
  proof -
    have "chain_length payld = int (length (chain_bytes payld))" using chain_length_bytes [OF assms(3)] by simp
    then show ?thesis
      by (simp add: spdu_octets_def connect_params_def Let_def add.assoc)
  qed
  ultimately show ?thesis using put_part_ok [OF len assms(3)] by auto
qed

lemma createAcceptSpdu_octets:
  assumes "ssel_ok (calledSessionSelector s)" and "chain_ok payld" and "64 \<le> length (chain_buffer c)"
  shows "\<exists>c'. IsoSession_createAcceptSpdu s c payld = Inr c'
      \<and> chain_ok c' \<and> chain_bytes c' = spdu_octets 14 (accept_params s) (chain_bytes payld)"
proof -
  let ?r = "ssel_octets (calledSessionSelector s)"
  let ?rest = "[5, 6, 0x13, 1, protocolOptions s, 0x16, 1, 2, 0x14, 2, req_hi s, req_lo s]
     @ [0x34, of_nat (length ?r)] @ ?r @ [0xc1, word_of_int (chain_length payld)]"
  let ?hdr = "[14, word_of_int (int (length ?rest) + chain_length payld)] @ ?rest"
  have len: "length ?hdr \<le> length (chain_buffer c)"
    using ssel_octets_length [OF assms(1)] assms(3) by simp
  have "IsoSession_createAcceptSpdu s c payld = put_part c ?hdr payld"
    using assms(1)
    by (simp add: IsoSession_createAcceptSpdu_def Let_def encodeCalledSessionSelector_def encode_selector_ok
        encodeConnectAcceptItem_def encodeSessionRequirement_def encodeSessionUserData_def fill_length_def
        req_hi_def req_lo_def add.assoc)
  moreover have "?hdr @ chain_bytes payld = spdu_octets 14 (accept_params s) (chain_bytes payld)"
  proof -
    have "chain_length payld = int (length (chain_bytes payld))" using chain_length_bytes [OF assms(2)] by simp
    then show ?thesis by (simp add: spdu_octets_def accept_params_def Let_def add.assoc)
  qed
  ultimately show ?thesis using put_part_ok [OF len assms(2)] by auto
qed

lemma createFinishSpdu_octets:
  assumes "chain_ok payld" and "4 \<le> length (chain_buffer c)"
  shows "\<exists>c'. IsoSession_createFinishSpdu s c payld = Inr c' \<and> chain_ok c'
      \<and> chain_bytes c' = spdu_octets 9 [] (chain_bytes payld)"
  using put_part_ok [of "[9, word_of_int (2 + chain_length payld), 193, word_of_int (chain_length payld)]" c payld] assms
  by (auto simp: IsoSession_createFinishSpdu_def spdu_octets_def Let_def simp flip: chain_length_bytes)

lemma createDisconnectSpdu_octets:
  assumes "chain_ok payld" and "4 \<le> length (chain_buffer c)"
  shows "\<exists>c'. IsoSession_createDisconnectSpdu s c payld = Inr c' \<and> chain_ok c'
      \<and> chain_bytes c' = spdu_octets 10 [] (chain_bytes payld)"
  using put_part_ok [of "[10, word_of_int (2 + chain_length payld), 193, word_of_int (chain_length payld)]" c payld] assms
  by (auto simp: IsoSession_createDisconnectSpdu_def spdu_octets_def Let_def simp flip: chain_length_bytes)

lemma parseMessage_overlong:
  assumes "spdu_indication si = Some ind" and "\<not> length (spdu_octets si ps payld) \<le> 257"
    and "holds m (spdu_octets si ps payld)"
  shows "IsoSession_parseMessage s m = Inr (s, SESSION_ERROR)"
proof -
  obtain l rest where so: "spdu_octets si ps payld = [si, l] @ rest" by (auto simp: spdu_octets_def Let_def)
  from assms(3) have sz: "bsize m = int (length (spdu_octets si ps payld))"
    and b: "bytes_at (buffer m) 0 [si, l]"
    using holds_bytes_at [OF assms(3)] unfolding so by (simp_all add: holds_def)
  show ?thesis
    by (rule parseMessage_wrong_length [OF assms(1) b]) (use sz assms(2) uint_byte_bounds(3) [of l] in linarith)+
qed

lemma parseMessage_data:
  assumes "holds m (dataSpdu @ payld)"
  shows "\<exists>u. IsoSession_parseMessage s m = Inr (s\<lparr>ss_userData := u\<rparr>, SESSION_DATA) \<and> holds u payld"
proof -
  have b: "bytes_at (buffer m) 0 dataSpdu" and sz: "bsize m = 4 + int (length payld)"
    using holds_bytes_at [OF assms] assms by (simp_all add: bytes_at_append holds_def dataSpdu_def)
  have "holds (ByteBuffer_wrap (ss_userData s) (drop (nat 4) (buffer m)) (bsize m - 4) (maxSize m - 4)) payld"
    by (rule holds_rest [OF assms]) (simp add: dataSpdu_def)
  with b sz show ?thesis by (auto simp: IsoSession_parseMessage_def dataSpdu_def)
qed

lemma requirement_again: "ucast (req_hi s) * (256 :: u16) + ucast (req_lo s) = sessionRequirement s"
  using req_octets [of s] by simp

lemma connect_params_effect:
  assumes "ssel_ok remote" and "ssel_ok local" and "ssel_ok (callingSessionSelector r)" and "ssel_ok (calledSessionSelector r)"
  shows "list_all param_ok (connect_params s remote local)
    \<and> (\<exists>r'. param_effects r (connect_params s remote local) = Some r'
        \<and> sessionRequirement r' = sessionRequirement s \<and> protocolOptions r' = 0
        \<and> ssel_ok (callingSessionSelector r') \<and> ssel_ok (calledSessionSelector r')
        \<and> ssel_octets (callingSessionSelector r') = ssel_octets local
        \<and> ssel_octets (calledSessionSelector r') = ssel_octets remote)"
  using assms ssel_octets_length [OF assms(1)] ssel_octets_length [OF assms(2)]
    store_selector_all [OF assms(2,3)] store_selector_all [OF assms(1,4)]
    store_selector_ok [of "ssel_octets local", OF _ assms(3)] store_selector_ok [of "ssel_octets remote", OF _ assms(4)]
  by (simp add: connect_params_def requirement_again)

lemma accept_params_effect:
  assumes "ssel_ok (calledSessionSelector s)" and "ssel_ok (calledSessionSelector r)"
  shows "list_all param_ok (accept_params s)
    \<and> (\<exists>r'. param_effects r (accept_params s) = Some r'
        \<and> sessionRequirement r' = sessionRequirement s \<and> protocolOptions r' = protocolOptions s
        \<and> ssel_octets (calledSessionSelector r') = ssel_octets (calledSessionSelector s))"
  using assms ssel_octets_length [OF assms(1)] store_selector_all [OF assms(1,2)]
  by (simp add: accept_params_def requirement_again)

text \<open>
  What a session client sends as CONNECT is understood by the server, for every payload that fits
  the one-octet length of the PDU: the user data, the selectors and the requirements arrive. A
  longer payload is sent with a length octet that wrapped around, and the server refuses the PDU.
\<close>

theorem connect_spdu_roundtrip:
  assumes "ssel_ok (remoteSSelector ps)" and "ssel_ok (localSSelector ps)" and "chain_ok payld" and "64 \<le> length (chain_buffer c)"
    and "ssel_ok (callingSessionSelector r)" and "ssel_ok (calledSessionSelector r)"
  shows "\<exists>s' c'. IsoSession_createConnectSpdu s ps c payld = Inr (s', c')
    \<and> (\<forall>m. holds m (chain_bytes c') \<longrightarrow>
         (if length (chain_bytes c') \<le> 257
          then \<exists>r'. IsoSession_parseMessage r m = Inr (r', SESSION_CONNECT)
             \<and> holds (IsoSession_getUserData r') (chain_bytes payld)
             \<and> sessionRequirement r' = sessionRequirement s \<and> protocolOptions r' = 0
             \<and> ssel_octets (callingSessionSelector r') = ssel_octets (localSSelector ps)
             \<and> ssel_octets (calledSessionSelector r') = ssel_octets (remoteSSelector ps)
          else IsoSession_parseMessage r m = Inr (r, SESSION_ERROR)))"
proof -
  let ?prs = "connect_params s (remoteSSelector ps) (localSSelector ps)"
  let ?s = "s\<lparr>calledSessionSelector := remoteSSelector ps, callingSessionSelector := localSSelector ps\<rparr>"
  from createConnectSpdu_octets [OF assms(1-4)] obtain c' where
    c': "IsoSession_createConnectSpdu s ps c payld = Inr (?s, c')"
    "chain_bytes c' = spdu_octets 13 ?prs (chain_bytes payld)" by blast
  from connect_params_effect [OF assms(1,2,5,6)] obtain r' where ok: "list_all param_ok ?prs"
    and eff: "param_effects r ?prs = Some r'" "sessionRequirement r' = sessionRequirement s"
      "protocolOptions r' = 0" "ssel_octets (callingSessionSelector r') = ssel_octets (localSSelector ps)"
      "ssel_octets (calledSessionSelector r') = ssel_octets (remoteSSelector ps)" by blast
  have ind: "spdu_indication 13 = Some SESSION_CONNECT" by (simp add: spdu_indication_def)
  from parseMessage_spdu [OF ind ok, of "chain_bytes payld" _ r] parseMessage_overlong [OF ind, of ?prs "chain_bytes payld" _ r]
  show ?thesis
    using c' eff by (fastforce simp: IsoSession_getUserData_def)
qed

theorem connect_spdu_roundtrip_witness:
  "\<exists>s' c'. IsoSession_createConnectSpdu IsoSession_init default_parameters
       (BufferChain 0 0 64 None (replicate 64 0)) (BufferChain 2 2 2 None [7, 8]) = Inr (s', c')
    \<and> (\<forall>m. holds m (chain_bytes c') \<longrightarrow>
         (if length (chain_bytes c') \<le> 257
          then \<exists>r'. IsoSession_parseMessage IsoSession_init m = Inr (r', SESSION_CONNECT)
             \<and> holds (IsoSession_getUserData r') [7, 8]
             \<and> sessionRequirement r' = 2 \<and> protocolOptions r' = 0
             \<and> ssel_octets (callingSessionSelector r') = [0, 1]
             \<and> ssel_octets (calledSessionSelector r') = [0, 1]
          else IsoSession_parseMessage IsoSession_init m = Inr (IsoSession_init, SESSION_ERROR)))"
  using connect_spdu_roundtrip [of default_parameters "BufferChain 2 2 2 None [7, 8]"
      "BufferChain 0 0 64 None (replicate 64 0)" IsoSession_init IsoSession_init]
  by (simp add: default_selector_ok init_fields default_parameters_def split del: if_split cong: if_cong)

text \<open>
  The other PDUs with user data: what a session sends as ACCEPT, FINISH, DISCONNECT or data is
  reported as such by the other side with the same user data, the ACCEPT with the options and
  requirements of the sender; data PDUs have no length limit.
\<close>

theorem session_spdus_roundtrip:
  assumes "ssel_ok (calledSessionSelector s)" and "ssel_ok (calledSessionSelector r)"
    and "chain_ok payld" and "length (chain_bytes payld) \<le> 200" and "64 \<le> length (chain_buffer c)"
  shows "(\<exists>a. IsoSession_createAcceptSpdu s c payld = Inr a \<and> (\<forall>m. holds m (chain_bytes a) \<longrightarrow>
           (\<exists>r'. IsoSession_parseMessage r m = Inr (r', SESSION_CONNECT)
              \<and> holds (ss_userData r') (chain_bytes payld)
              \<and> sessionRequirement r' = sessionRequirement s \<and> protocolOptions r' = protocolOptions s)))
    \<and> (\<exists>f. IsoSession_createFinishSpdu s c payld = Inr f \<and> (\<forall>m. holds m (chain_bytes f) \<longrightarrow>
           (\<exists>u. IsoSession_parseMessage r m = Inr (r\<lparr>ss_userData := u\<rparr>, SESSION_FINISH) \<and> holds u (chain_bytes payld))))
    \<and> (\<exists>d. IsoSession_createDisconnectSpdu s c payld = Inr d \<and> (\<forall>m. holds m (chain_bytes d) \<longrightarrow>
           (\<exists>u. IsoSession_parseMessage r m = Inr (r\<lparr>ss_userData := u\<rparr>, SESSION_DISCONNECT) \<and> holds u (chain_bytes payld))))
    \<and> (\<forall>p m. holds m (chain_bytes (IsoSession_createDataSpdu s c p)) \<longrightarrow>
           (\<exists>u. IsoSession_parseMessage r m = Inr (r\<lparr>ss_userData := u\<rparr>, SESSION_DATA) \<and> holds u (chain_bytes p)))"
proof (intro conjI)
  have ind: "spdu_indication 14 = Some SESSION_CONNECT" "spdu_indication 9 = Some SESSION_FINISH"
    "spdu_indication 10 = Some SESSION_DISCONNECT" by (simp_all add: spdu_indication_def)
  from accept_params_effect [OF assms(1,2)] obtain r' where ok: "list_all param_ok (accept_params s)"
    and eff: "param_effects r (accept_params s) = Some r'" "sessionRequirement r' = sessionRequirement s"
      "protocolOptions r' = protocolOptions s" by blast
  have len: "length (spdu_octets 14 (accept_params s) (chain_bytes payld)) \<le> 257"
    using ssel_octets_length [OF assms(1)] assms(4) by (simp add: length_spdu_octets accept_params_def)
  from createAcceptSpdu_octets [OF assms(1,3,5)] parseMessage_spdu [OF ind(1) ok len, of _ r]
  show "\<exists>a. IsoSession_createAcceptSpdu s c payld = Inr a \<and> (\<forall>m. holds m (chain_bytes a) \<longrightarrow>
           (\<exists>r'. IsoSession_parseMessage r m = Inr (r', SESSION_CONNECT)
              \<and> holds (ss_userData r') (chain_bytes payld)
              \<and> sessionRequirement r' = sessionRequirement s \<and> protocolOptions r' = protocolOptions s))"
    using eff by fastforce
  have room: "4 \<le> length (chain_buffer c)" using assms(5) by simp
  have short: "length (spdu_octets k [] (chain_bytes payld)) \<le> 257" for k
    using assms(4) by (simp add: length_spdu_octets)
  from createFinishSpdu_octets [OF assms(3) room, of s] parseMessage_spdu [OF ind(2) _ short, of _ r]
  show "\<exists>f. IsoSession_createFinishSpdu s c payld = Inr f \<and> (\<forall>m. holds m (chain_bytes f) \<longrightarrow>
           (\<exists>u. IsoSession_parseMessage r m = Inr (r\<lparr>ss_userData := u\<rparr>, SESSION_FINISH) \<and> holds u (chain_bytes payld)))"
    by fastforce
  from createDisconnectSpdu_octets [OF assms(3) room, of s] parseMessage_spdu [OF ind(3) _ short, of _ r]
  show "\<exists>d. IsoSession_createDisconnectSpdu s c payld = Inr d \<and> (\<forall>m. holds m (chain_bytes d) \<longrightarrow>
           (\<exists>u. IsoSession_parseMessage r m = Inr (r\<lparr>ss_userData := u\<rparr>, SESSION_DISCONNECT) \<and> holds u (chain_bytes payld)))"
    by fastforce
  have "chain_bytes (IsoSession_createDataSpdu s c p) = dataSpdu @ chain_bytes p" for p
    by (simp add: IsoSession_createDataSpdu_def dataSpdu_def)
  then show "\<forall>p m. holds m (chain_bytes (IsoSession_createDataSpdu s c p)) \<longrightarrow>
           (\<exists>u. IsoSession_parseMessage r m = Inr (r\<lparr>ss_userData := u\<rparr>, SESSION_DATA) \<and> holds u (chain_bytes p))"
    using parseMessage_data [of _ _ r] by simp
qed

theorem session_spdus_roundtrip_witness:
  "\<exists>f. IsoSession_createFinishSpdu IsoSession_init (BufferChain 0 0 64 None (replicate 64 0))
         (BufferChain 1 1 1 None [7]) = Inr f
     \<and> (\<forall>m. holds m (chain_bytes f) \<longrightarrow>
          (\<exists>u. IsoSession_parseMessage IsoSession_init m
              = Inr (IsoSession_init\<lparr>ss_userData := u\<rparr>, SESSION_FINISH) \<and> holds u [7]))"
  using session_spdus_roundtrip [of IsoSession_init IsoSession_init "BufferChain 1 1 1 None [7]"
      "BufferChain 0 0 64 None (replicate 64 0)"]
  by (simp add: default_selector_ok init_fields)


section \<open>Every message\<close>

lemma rd_in: "0 \<le> i \<Longrightarrow> i < int (length b) \<Longrightarrow> rd b i = Inr (b ! nat i)"
  by (simp add: rd_def)

lemma rd_n_in: "0 \<le> i \<Longrightarrow> i + int n \<le> int (length b) \<Longrightarrow> \<exists>v. rd_n b i n = Inr v"
proof (induction n arbitrary: i)
  case (Suc n)
  from Suc.IH [of "i + 1"] Suc.prems obtain v where "rd_n b (i + 1) n = Inr v" by auto
  with Suc.prems show ?case by (simp add: rd_in)
qed simp

lemma accept_round_in:
  assumes "0 \<le> p" and "p + 2 < int (length (buffer m))"
  shows "\<exists>r. accept_round m (p, st) = Inr r \<and> (case r of Continue (p', _) \<Rightarrow> 0 \<le> p' | Return _ \<Rightarrow> True)"
  using assms by (cases st) (auto simp: accept_round_def Let_def rd_in)

lemma parseAcceptParameters_in:
  assumes "0 \<le> p" and "p + n + 1 < int (length (buffer m))"
  shows "\<exists>s' v. parseAcceptParameters s m p n = Inr (s', v)"
proof -
  let ?c = "\<lambda>(offset, _). offset < p + n" and ?st = "(p, False, False, s)"
  let ?I = "\<lambda>(offset, _). 0 \<le> (offset :: int)"
  have "\<exists>r. accept_round m st = Inr r \<and> (case r of Continue st' \<Rightarrow> ?I st' | Return _ \<Rightarrow> True)"
    if "?I st" and "?c st" for st
    using accept_round_in [of "fst st" m "snd st"] that assms by (cases st) auto
  from c_while_safe [of ?I ?c "accept_round m" "\<lambda>_. True" ?st "Suc (nat n)", OF this]
    accept_fuel [of n p m "(False, False, s)"] assms(1)
  obtain r where "c_while (Suc (nat n)) ?c (accept_round m) ?st = Inr r"
    by (auto simp del: c_while.simps)
  then show ?thesis
    by (cases r) (auto simp: parseAcceptParameters_def simp del: c_while.simps split: prod.splits)
qed

definition userdata_near :: "ByteBuffer \<Rightarrow> IsoSession \<Rightarrow> bool" where
  "userdata_near m s \<longleftrightarrow> -1 \<le> bsize (ss_userData s) \<and> bsize (ss_userData s) \<le> bsize m - 4"

lemma header_round_in:
  assumes "2 \<le> p" and "p < bsize m" and "bsize m + 258 \<le> int (length (buffer m))"
  shows "\<exists>r. header_round m (p, s) = Inr r
    \<and> (case r of Continue (p', _) \<Rightarrow> 2 \<le> p' | Return (s', ind) \<Rightarrow> ind = SESSION_OK \<longrightarrow> userdata_near m s')"
proof -
  let ?b = "buffer m"
  obtain pgi l where r: "rd ?b p = Inr pgi" "rd ?b (p + 1) = Inr l" using assms by (simp add: rd_in)
  have l: "0 \<le> uint l" "uint l \<le> 255" by simp_all
  obtain s' v where acc: "parseAcceptParameters s m (p + 2) (uint l) = Inr (s', v)"
    using parseAcceptParameters_in [of "p + 2" "uint l" m s] assms l by auto
  obtain hi lo where req: "rd ?b (p + 2) = Inr hi" "rd ?b (p + 2 + 1) = Inr lo" using assms by (simp add: rd_in)
  have "int (unat l) = uint l" by simp
  with assms l have "0 \<le> p + 2" "p + 2 + int (unat l) \<le> int (length ?b)" by linarith+
  from rd_n_in [OF this] obtain v' where sel: "rd_n ?b (p + 2) (unat l) = Inr v'" by blast
  have v: "v = -1 \<or> 0 \<le> v" using acc by (rule parseAcceptParameters_len)
  note round = header_round_def Let_def r
  consider "pgi \<in> {1, 17, 25, 49, 60}" | "pgi = 5" | "pgi = 20" | "pgi = 51" | "pgi = 52" | "pgi = 193"
    | "pgi \<notin> {1, 17, 25, 49, 60, 5, 20, 51, 52, 193}" by auto
  then show ?thesis
  proof cases
    case 1
    then show ?thesis using assms(1) l by (auto simp: round)
  next
    case 2
    then show ?thesis using assms(1) v by (simp add: round acc) linarith
  next
    case 3
    then show ?thesis using assms(1) req by (simp add: round)
  next
    case 4
    then show ?thesis using assms(1) l sel by (simp add: round)
  next
    case 5
    then show ?thesis using assms(1) l sel by (simp add: round)
  next
    case 6
    then show ?thesis using assms(1,2) by (simp add: round userdata_near_def ByteBuffer_wrap_def)
  next
    case 7
    then show ?thesis using assms(1) by (simp add: round)
  qed
qed

lemma parse_parameters_in:
  assumes "1 < bsize m" and "bsize m + 258 \<le> int (length (buffer m))"
  shows "\<exists>s' i. parse_parameters s m l ind = Inr (s', i)
    \<and> (i = SESSION_ERROR \<or> (i = ind \<and> userdata_near m s'))"
proof (cases "uint l = bsize m - 2")
  case True
  let ?c = "\<lambda>(offset, _). offset < uint l + 2" and ?st = "(2, s)"
  let ?I = "\<lambda>(offset, _). 2 \<le> (offset :: int)" and ?Q = "\<lambda>(s', ind). ind = SESSION_OK \<longrightarrow> userdata_near m s'"
  have "\<exists>r. header_round m st = Inr r \<and> (case r of Continue st' \<Rightarrow> ?I st' | Return x \<Rightarrow> ?Q x)"
    if "?I st" and "?c st" for st
    using header_round_in [of "fst st" m "snd st"] that assms True by (cases st) auto
  from c_while_safe [of ?I ?c "header_round m" ?Q ?st "Suc (nat (uint l))", OF this]
    header_fuel [of "uint l" m s]
  obtain r where r: "c_while (Suc (nat (uint l))) ?c (header_round m) ?st = Inr r"
    "case r of Continue st' \<Rightarrow> ?I st' \<and> \<not> ?c st' | Return x \<Rightarrow> ?Q x"
    by (auto simp del: c_while.simps)
  then obtain s' i where "parseSessionHeaderParameters s m (uint l) = Inr (s', i)"
    "i = SESSION_OK \<longrightarrow> userdata_near m s'"
    by (cases r) (auto simp: parseSessionHeaderParameters_def simp del: c_while.simps)
  with True show ?thesis by (auto simp: parse_parameters_def)
qed (simp add: parse_parameters_def)

text \<open>
  C30: The session parser returns for every message, provided the receive buffer goes on for 258
  octets behind it: a length octet inside the PDU is believed without a look at what is left. The
  user data it hands up may be said to have the size -1 (a user data parameter whose length
  octet is missing).
\<close>

theorem parseMessage_total:
  assumes "bsize m + 258 \<le> int (length (buffer m))"
  shows "\<exists>s' ind. IsoSession_parseMessage s m = Inr (s', ind)
    \<and> (ind \<in> {SESSION_CONNECT, SESSION_DATA, SESSION_FINISH, SESSION_DISCONNECT}
       \<longrightarrow> -1 \<le> bsize (ss_userData s') \<and> bsize (ss_userData s') \<le> bsize m - 4)"
proof (cases "1 < bsize m")
  case True
  let ?b = "buffer m"
  have r: "rd ?b 0 = Inr (?b ! 0)" "rd ?b 1 = Inr (?b ! 1)" "rd ?b 2 = Inr (?b ! 2)" "rd ?b 3 = Inr (?b ! 3)"
    using True assms by (auto simp: rd_def)
  have "\<exists>s' i. parse_parameters s m (?b ! 1) ind = Inr (s', i)
    \<and> (i = SESSION_ERROR \<or> (i = ind \<and> userdata_near m s'))" for ind
    using True assms by (rule parse_parameters_in)
  then show ?thesis
    using True unfolding IsoSession_parseMessage_def userdata_near_def
    by (fastforce simp: r ByteBuffer_wrap_def)
qed (simp add: IsoSession_parseMessage_def)

theorem parseMessage_total_witness:
  "\<exists>s'. IsoSession_parseMessage IsoSession_init \<lparr>buffer = [9, 1, 193] @ replicate 258 0, bsize = 3, maxSize = 261\<rparr>
       = Inr (s', SESSION_FINISH) \<and> bsize (ss_userData s') = -1"
proof -
  let ?m = "\<lparr>buffer = [9, 1, 193] @ replicate 258 0, bsize = 3, maxSize = 261\<rparr>"
  from parseMessage_total [of ?m IsoSession_init] obtain s' ind where
    r: "IsoSession_parseMessage IsoSession_init ?m = Inr (s', ind)"
    "ind = SESSION_FINISH \<longrightarrow> -1 \<le> bsize (ss_userData s') \<and> bsize (ss_userData s') \<le> -1" by auto
  have "map_sum id snd (IsoSession_parseMessage IsoSession_init ?m) = Inr SESSION_FINISH" by code_simp
  with r show ?thesis by auto
qed

end
