(* ===== verification/Ber_Elements.thy ===== *)
theory Ber_Elements
  imports Ber
begin

text \<open>
  BER elements: tag, length and contents as a list of octets, where the decoder finds them, and how the encoder writes them. The round trips
  of the upper layers and of GOOSE are about lists of such elements.
\<close>

section \<open>BER elements\<close>

definition tlv :: "byte \<Rightarrow> byte list \<Rightarrow> byte list" where
  "tlv t v = [t] @ len_bytes (int (length v)) @ v"

definition tlv_size :: "byte list \<Rightarrow> int" where
  "tlv_size v = 1 + len_size (int (length v)) + int (length v)"

lemma length_tlv: "int (length (tlv t v)) = tlv_size v"
  by (simp add: tlv_def tlv_size_def)

lemma tlv_nonempty [simp]: "tlv t v \<noteq> []"
  by (simp add: tlv_def)

fun tlv_octets :: "byte \<times> byte list \<Rightarrow> byte list" where
  "tlv_octets (t, v) = tlv t v"

fun tlv_ok :: "byte \<times> byte list \<Rightarrow> bool" where
  "tlv_ok (t, v) = (length v < 65536)"

text \<open>Where the contents of an element begin.\<close>

definition inside :: "int \<Rightarrow> byte list \<Rightarrow> int" where
  "inside p v = p + 1 + len_size (int (length v))"

lemma inside_gt: "p < inside p v"
  using len_size_pos(1) [of "int (length v)"] unfolding inside_def by linarith

lemma inside_end: "inside p v + int (length v) = p + int (length (tlv t v))"
  by (simp add: inside_def length_tlv tlv_size_def)

lemma bytes_at_tlv:
  "bytes_at b p (tlv t v) \<longleftrightarrow> rd b p = Inr t \<and> bytes_at b (p + 1) (len_bytes (int (length v))) \<and> bytes_at b (inside p v) v"
  by (simp add: tlv_def bytes_at_append inside_def)

lemma decodeLength_tlv:
  assumes "length v < 65536" and "bytes_at b p (tlv t v)" and "p + int (length (tlv t v)) \<le> mx"
  shows "BerDecoder_decodeLength b l (p + 1) mx = Inr (inside p v, Some (int (length v)))"
  using assms decodeLength_at [of "int (length v)" b "p + 1" mx l]
  by (simp add: bytes_at_tlv inside_def length_tlv tlv_size_def)

text \<open>A parser position behind the element: the C addition does not overflow.\<close>

lemma behind_tlv:
  assumes "0 \<le> p" and "p + int (length (tlv t v)) \<le> e" and "e < 2 ^ 31"
  shows "i32 (inside p v + int (length v)) = p + int (length (tlv t v))" "0 \<le> inside p v" "\<not> inside p v < 0"
proof -
  have "i32 (p + int (length (tlv t v))) = p + int (length (tlv t v))" using assms by (intro i32_id) auto
  then show "i32 (inside p v + int (length v)) = p + int (length (tlv t v))" by (simp only: inside_end [of p v t])
  show "0 \<le> inside p v" "\<not> inside p v < 0" using assms(1) inside_gt [of p v] by linarith+
qed


section \<open>What the encoder writes\<close>

lemma len_bytes_small: "n < 128 \<Longrightarrow> len_bytes n = [word_of_int n]"
  by (simp add: len_bytes_def)

lemma small_tlv: "length v < 128 \<Longrightarrow> tlv t v = [t, of_nat (length v)] @ v"
  by (simp add: tlv_def len_bytes_small)

lemma encode_length_octets: "n < 65536 \<Longrightarrow> BerEncoder_encodeLength (word_of_int (int n)) out = out @ len_bytes (int n)"
  by (rule encodeLength_bytes) simp_all

lemma length_size: "n < 65536 \<Longrightarrow> BerEncoder_determineLengthSize (word_of_int (int n)) = int (length (len_bytes (int n)))"
  using determineLengthSize_eq [of "int n"] by simp

lemma encodeTL_tlv: "length v < 65536 \<Longrightarrow> BerEncoder_encodeTL t (int (length v)) out @ v = out @ tlv t v"
  by (simp add: encodeTL_bytes tlv_def)

lemma encodeStringWithTag_tlv:
  "length (case str of None \<Rightarrow> [] | Some s \<Rightarrow> s) < 65536 \<Longrightarrow>
   BerEncoder_encodeStringWithTag t str out = out @ tlv t (case str of None \<Rightarrow> [] | Some s \<Rightarrow> s)"
  using encode_length_octets [of "length (the str)" "out @ [t]"]
  by (cases str) (simp_all add: BerEncoder_encodeStringWithTag_def tlv_def, simp add: len_bytes_def)

lemma encodedStringSize_tlv:
  "length (case str of None \<Rightarrow> [] | Some s \<Rightarrow> s) < 65536 \<Longrightarrow>
   BerEncoder_determineEncodedStringSize str = int (length (tlv t (case str of None \<Rightarrow> [] | Some s \<Rightarrow> s)))"
  using length_size [of "length (the str)"]
  by (cases str) (simp_all add: BerEncoder_determineEncodedStringSize_def tlv_def, simp add: len_size_def)

lemma encodeUInt32_tlv: "BerEncoder_encodeUInt32WithTL t v out = out @ tlv t (uint32_octets v)"
  using small_tlv [of "uint32_octets v" t] uint32_octets_length [of v] by (simp add: BerEncoder_encodeUInt32WithTL_def)

lemma encodedUInt32Size_tlv: "2 + BerEncoder_UInt32determineEncodedSize v = int (length (tlv t (uint32_octets v)))"
  using small_tlv [of "uint32_octets v" t] uint32_octets_length [of v] by (simp add: BerEncoder_UInt32determineEncodedSize_def)

lemma encodeBoolean_tlv: "BerEncoder_encodeBoolean t b out = out @ tlv t [if b then 0xff else 0]"
  by (simp add: BerEncoder_encodeBoolean_def small_tlv)

lemma encodeOctetString_tlv:
  "unat n = length b \<Longrightarrow> length b < 65536 \<Longrightarrow> BerEncoder_encodeOctetString t b n out = Inr (out @ tlv t b)"
proof -
  assume n: "unat n = length b" "length b < 65536"
  have "n = word_of_int (int (length b))" using n(1) by (simp flip: n(1))
  moreover have "BerEncoder_encodeLength (word_of_int (int (length b))) (out @ [t]) = (out @ [t]) @ len_bytes (int (length b))"
    using n(2) by (intro encodeLength_bytes) simp_all
  moreover have "rd_n b 0 (length b) = Inr b" using rd_n_front [of "length b" b] by simp
  ultimately show ?thesis using n(1) by (simp add: BerEncoder_encodeOctetString_def tlv_def)
qed

end
