(* ===== verification/Presentation_Correct.thy ===== *)
theory Presentation_Correct
  imports Presentation Session_Correct Ber_Elements
begin

text \<open>
  What the presentation parsers of theory \<open>Presentation\<close> do: every loop over BER elements simulates the meaning
  of the list of elements (instances of \<open>item_loop\<close>).
\<close>

unbundle bit_operations_syntax

section \<open>Reading elements\<close>

lemma read_tl_at:
  assumes "length v < 65536" and "bytes_at b p (tlv t v)" and "p + int (length (tlv t v)) \<le> mx"
  shows "read_tl b p mx = Inr (t, inside p v, Some (int (length v)))"
  using decodeLength_tlv [OF assms] assms(2) by (simp add: read_tl_def bytes_at_tlv)

lemma holds_drop:
  assumes "bytes_at b p v" and "0 \<le> p"
  shows "holds (u\<lparr>buffer := drop (nat p) b, bsize := int (length v)\<rparr>) v"
  using bytes_at_eq_take_drop [OF assms] by (simp add: holds_def)


section \<open>The meaning of the elements\<close>

text \<open>What the layer above sees of an \<open>IsoPresentation\<close>.\<close>

record pres_view =
  v_next :: byte
  v_acse :: byte
  v_mms :: byte
  v_payload :: "byte list option"

definition pres_rel :: "IsoPresentation \<Rightarrow> pres_view \<Rightarrow> bool" where
  "pres_rel self a \<longleftrightarrow> nextContextId self = v_next a \<and> acseContextId self = v_acse a \<and> mmsContextId self = v_mms a
     \<and> (\<forall>v. v_payload a = Some v \<longrightarrow> holds (nextPayload self) v)"

definition ber_unsigned :: "byte list \<Rightarrow> u32" where
  "ber_unsigned v = word_of_int (be_from 0 v)"

text \<open>The elements of fully encoded data.\<close>

fun fed_eff :: "bool \<times> pres_view \<Rightarrow> byte \<times> byte list \<Rightarrow> (bool \<times> pres_view) option" where
  "fed_eff (present, a) (t, v) =
     Some (if t = 0x02 then (present, a\<lparr>v_next := ucast (ber_unsigned v)\<rparr>)
           else if t = 0xa0 then (True, a\<lparr>v_payload := Some v\<rparr>)
           else (present, a))"

text \<open>The elements of an entry of the context definition list.\<close>

fun entry_eff :: "int \<times> bool \<times> bool \<Rightarrow> byte \<times> byte list \<Rightarrow> (int \<times> bool \<times> bool) option" where
  "entry_eff (ctx, isAcse, isMms) (t, v) =
     Some (if t = 0x02 then (sint (ber_unsigned v), isAcse, isMms)
           else if t = 0x06 then (ctx, isAcse \<or> v = asn_id_as_acse, isMms \<or> v = asn_id_mms)
           else (ctx, isAcse, isMms))"

definition entry_meaning :: "pres_view \<Rightarrow> (byte \<times> byte list) list \<Rightarrow> pres_view option" where
  "entry_meaning a its =
     (case opt_fold entry_eff (-1, False, False) its of
        None \<Rightarrow> None
      | Some (ctx, isAcse, isMms) \<Rightarrow>
          if ctx < 0 \<or> (\<not> isAcse \<and> \<not> isMms) then None
          else if isMms then Some (a\<lparr>v_mms := word_of_int ctx\<rparr>)
          else Some (a\<lparr>v_acse := word_of_int ctx\<rparr>))"

datatype pcdl_item = Entry "(byte \<times> byte list) list" | Other_entry byte "byte list"

fun pcdl_octets :: "pcdl_item \<Rightarrow> byte list" where
  "pcdl_octets (Entry its) = tlv 0x30 (concat (map tlv_octets its))"
| "pcdl_octets (Other_entry t v) = tlv t v"

fun pcdl_ok :: "pcdl_item \<Rightarrow> bool" where
  "pcdl_ok (Entry its) = (list_all tlv_ok its \<and> length (concat (map tlv_octets its)) < 65536)"
| "pcdl_ok (Other_entry t v) = (t \<noteq> 0x30 \<and> length v < 65536)"

fun pcdl_eff :: "pres_view \<Rightarrow> pcdl_item \<Rightarrow> pres_view option" where
  "pcdl_eff a (Entry its) = entry_meaning a its"
| "pcdl_eff a (Other_entry t v) = Some a"

datatype normal_param =
    Context_list "pcdl_item list"
  | User_data "(byte \<times> byte list) list"
  | Other_param byte "byte list"

fun normal_octets :: "normal_param \<Rightarrow> byte list" where
  "normal_octets (Context_list its) = tlv 0xa4 (concat (map pcdl_octets its))"
| "normal_octets (User_data its) = tlv 0x61 (tlv 0x30 (concat (map tlv_octets its)))"
| "normal_octets (Other_param t v) = tlv t v"

text \<open>A context list is well-formed here when its entries are acceptable; \<open>Presentation_Outcome\<close> covers the others.\<close>

fun normal_ok :: "normal_param \<Rightarrow> bool" where
  "normal_ok (Context_list its) = (list_all pcdl_ok its \<and> length (concat (map pcdl_octets its)) < 65536
     \<and> (\<forall>a. opt_fold pcdl_eff a its \<noteq> None))"
| "normal_ok (User_data its) = (list_all tlv_ok its \<and> length (tlv 0x30 (concat (map tlv_octets its))) < 65536)"
| "normal_ok (Other_param t v) = (t \<noteq> 0xa4 \<and> t \<noteq> 0x61 \<and> length v < 65536)"

fun normal_eff :: "pres_view \<Rightarrow> normal_param \<Rightarrow> pres_view option" where
  "normal_eff a (Context_list its) = opt_fold pcdl_eff a its"
| "normal_eff a (User_data its) =
     (case opt_fold fed_eff (False, a) its of Some (True, a') \<Rightarrow> Some a' | _ \<Rightarrow> None)"
| "normal_eff a (Other_param t v) = Some a"

datatype cp_item = Mode byte "byte list" | Normal_mode "normal_param list" | Other_item byte "byte list"

fun cp_octets :: "cp_item \<Rightarrow> byte list" where
  "cp_octets (Mode t v) = tlv 0xa0 (tlv t v)"
| "cp_octets (Normal_mode its) = tlv 0xa2 (concat (map normal_octets its))"
| "cp_octets (Other_item t v) = tlv t v"

fun cp_ok :: "cp_item \<Rightarrow> bool" where
  "cp_ok (Mode t v) = (length (tlv t v) < 65536)"
| "cp_ok (Normal_mode its) = (list_all normal_ok its \<and> length (concat (map normal_octets its)) < 65536)"
| "cp_ok (Other_item t v) = (t \<noteq> 0xa0 \<and> t \<noteq> 0xa2 \<and> length v < 65536)"

fun cp_eff :: "pres_view \<Rightarrow> cp_item \<Rightarrow> pres_view option" where
  "cp_eff a (Mode t v) = (if t = 0x80 then Some a else None)"
| "cp_eff a (Normal_mode its) = opt_fold normal_eff a its"
| "cp_eff a (Other_item t v) = Some a"

text \<open>The answer of the server: the mode is not looked at.\<close>

fun cpa_eff :: "pres_view \<Rightarrow> cp_item \<Rightarrow> pres_view option" where
  "cpa_eff a (Mode t v) = Some a"
| "cpa_eff a (Normal_mode its) = opt_fold normal_eff a its"
| "cpa_eff a (Other_item t v) = Some a"


section \<open>The loops\<close>

fun fed_rel :: "bool \<times> IsoPresentation \<Rightarrow> bool \<times> pres_view \<Rightarrow> bool" where
  "fed_rel (present, self) (present', a) \<longleftrightarrow> present = present' \<and> pres_rel self a"

lemma fed_round_tlv:
  assumes "length v < 65536" and "0 \<le> p" and at: "bytes_at b p (tlv t v)" and "p + int (length (tlv t v)) \<le> e"
    and "e < 2 ^ 31" and "fed_rel s a"
  shows "\<exists>s'. fed_round b e (p, s) = Inr (Continue (p + int (length (tlv t v)), s')) \<and> fed_rel s' (the (fed_eff a (t, v)))"
proof -
  obtain present self where s: "s = (present, self)" by fastforce
  obtain present' a' where a: "a = (present', a')" by fastforce
  have at': "bytes_at b (inside p v) v" using at by (simp add: bytes_at_tlv)
  note behind = behind_tlv [OF assms(2,4,5)]
  show ?thesis
    using assms(6) decodeUint32_at [OF at' refl] holds_drop [OF at' behind(2)] behind
    by (auto simp: fed_round_def read_tl_at [OF assms(1) at assms(4)] s a pres_rel_def ber_unsigned_def)
qed

interpretation fed_loop: item_loop "fed_round b e" b e tlv_octets tlv_ok fed_eff fed_rel "\<lambda>_. False"
  for b :: "byte list" and e :: int
proof unfold_locales
  fix i p s a
  assume i: "tlv_ok i" "0 \<le> p" "bytes_at b p (tlv_octets i)" "p + int (length (tlv_octets i)) \<le> e" "e < 2 ^ 31" "fed_rel s a"
  obtain t v where tv: "i = (t, v)" by fastforce
  from i fed_round_tlv [of v p b t e s a] have "\<exists>s'. fed_round b e (p, s)
      = Inr (Continue (p + int (length (tlv t v)), s')) \<and> fed_rel s' (the (fed_eff a (t, v)))" by (simp add: tv)
  moreover obtain a' where "fed_eff a (t, v) = Some a'" by (cases a) simp
  ultimately show "case fed_eff a i of
         Some a' \<Rightarrow> \<exists>s'. fed_round b e (p, s) = Inr (Continue (p + int (length (tlv_octets i)), s')) \<and> fed_rel s' a'
       | None \<Rightarrow> \<exists>r. fed_round b e (p, s) = Inr (Return r) \<and> False"
    by (simp add: tv)
qed auto

text \<open>As many items as octets are enough rounds.\<close>

lemma length_concat_ge:
  "(\<And>i. i \<in> set is \<Longrightarrow> octets i \<noteq> []) \<Longrightarrow> length is \<le> length (concat (map octets is))"
proof (induction "is")
  case (Cons i "is")
  then have "length is \<le> length (concat (map octets is))" "0 < length (octets i)" by auto
  then show ?case by (simp only: list.map concat.simps length_append list.size)
qed simp

lemma tlvs_rounds: "length (concat (map tlv_octets its)) \<le> n \<Longrightarrow> length its \<le> n"
  using length_concat_ge [of its tlv_octets] by (fastforce intro: order_trans)

lemma parseFullyEncodedData_items:
  fixes its :: "(byte \<times> byte list) list"
  defines "c \<equiv> concat (map tlv_octets its)"
  assumes ok: "list_all tlv_ok its" and c: "length (tlv 0x30 c) < 65536" and p: "0 \<le> p"
    and at: "bytes_at b p (tlv 0x30 c)" and e: "p + int (length (tlv 0x30 c)) < 2 ^ 31"
    and rel: "pres_rel self a" and n: "length c \<le> n"
  shows "case opt_fold fed_eff (False, a) its of
      Some (True, a') \<Rightarrow> \<exists>self'. parseFullyEncodedData n self b (int (length (tlv 0x30 c))) p
          = Inr (self', p + int (length (tlv 0x30 c))) \<and> pres_rel self' a'
    | _ \<Rightarrow> \<exists>self'. parseFullyEncodedData n self b (int (length (tlv 0x30 c))) p = Inr (self', -1)"
proof -
  let ?e = "p + int (length (tlv 0x30 c))"
  have lc: "length c < 65536" using c by (simp add: tlv_def)
  have i32e: "i32 ?e = ?e" using e p by (intro i32_id) auto
  note behind = behind_tlv [OF p order_refl e]
  have tag: "rd b p = Inr 0x30" and at': "bytes_at b (inside p c) c" using at by (simp_all add: bytes_at_tlv)
  have run: "parseFullyEncodedData n self b (int (length (tlv 0x30 c))) p
      = rbind (c_while n (\<lambda>(bufPos, _). bufPos < ?e) (fed_round b ?e) (inside p c, False, self))
          (\<lambda>r. case r of Return x \<Rightarrow> Inr x
             | Continue (bufPos, userDataPresent, self) \<Rightarrow> Inr (self, if userDataPresent then bufPos else -1))"
    using decodeLength_tlv [OF lc at order_refl, of "Some (int (length (tlv 0x30 c)))"] behind
    by (simp add: parseFullyEncodedData_def tag i32e Let_def)
  have "?e = inside p c + int (length c)" by (simp only: inside_end [of p c "0x30"])
  then have e': "?e = inside p c + int (length (concat (map tlv_octets its)))" by (simp only: c_def)
  have "fed_rel (False, self) (False, a)" using rel by simp
  moreover have "bytes_at b (inside p c) (concat (map tlv_octets its))" using at' unfolding c_def .
  ultimately show ?thesis
    using fed_loop.loop_items [OF ok behind(2) _ e' e _ tlvs_rounds [OF n [unfolded c_def]], of b "(False, self)" "(False, a)"]
    by (auto simp: run split: option.splits bool.splits)
qed

lemma entry_round_tlv:
  assumes "length v < 65536" and "0 \<le> p" and at: "bytes_at b p (tlv t v)" and "p + int (length (tlv t v)) \<le> e"
    and "e < 2 ^ 31"
  shows "pcdl_entry_round b e (p, s) = Inr (Continue (p + int (length (tlv t v)), the (entry_eff s (t, v))))"
proof -
  obtain ctx isAcse isMms where s: "s = (ctx, isAcse, isMms)" by (cases s) blast
  have at': "bytes_at b (inside p v) v" using at by (simp add: bytes_at_tlv)
  have "v = asn_id_mms \<Longrightarrow> length v = 5" "v = asn_id_as_acse \<Longrightarrow> length v = 4"
    by (simp_all add: asn_id_mms_def asn_id_as_acse_def)
  moreover have "rd_n b (inside p v) 5 = Inr v" if "length v = 5" using rd_n_bytes_at [OF at'] that by simp
  moreover have "rd_n b (inside p v) 4 = Inr v" if "length v = 4" using rd_n_bytes_at [OF at'] that by simp
  ultimately show ?thesis
    using decodeUint32_at [OF at' refl] behind_tlv [OF assms(2,4,5)]
    by (auto simp: pcdl_entry_round_def read_tl_at [OF assms(1) at assms(4)] s ber_unsigned_def)
qed

interpretation entry_loop: item_loop "pcdl_entry_round b e" b e tlv_octets tlv_ok entry_eff "(=)" "\<lambda>_. False"
  for b :: "byte list" and e :: int
proof unfold_locales
  fix i p and s a :: "int \<times> bool \<times> bool"
  assume i: "tlv_ok i" "0 \<le> p" "bytes_at b p (tlv_octets i)" "p + int (length (tlv_octets i)) \<le> e" "e < 2 ^ 31" "s = a"
  obtain t v where tv: "i = (t, v)" by fastforce
  obtain a' where "entry_eff a (t, v) = Some a'" by (cases a) simp
  with i entry_round_tlv [of v p b t e s] show "case entry_eff a i of
         Some a' \<Rightarrow> \<exists>s'. pcdl_entry_round b e (p, s) = Inr (Continue (p + int (length (tlv_octets i)), s')) \<and> s' = a'
       | None \<Rightarrow> \<exists>r. pcdl_entry_round b e (p, s) = Inr (Return r) \<and> False"
    by (simp add: tv)
qed auto

lemma entry_eff_total: "opt_fold entry_eff s its \<noteq> None"
proof (induction its arbitrary: s)
  case (Cons i its)
  obtain t v where i: "i = (t, v)" by fastforce
  obtain a b c where s: "s = (a, b, c)" by (cases s)
  show ?case by (simp add: i s Cons.IH del: not_None_eq)
qed simp

lemma parsePCDLEntry_items:
  fixes its :: "(byte \<times> byte list) list"
  defines "c \<equiv> concat (map tlv_octets its)"
  assumes ok: "list_all tlv_ok its" and p: "0 \<le> p" and at: "bytes_at b p c" and e: "p + int (length c) < 2 ^ 31"
    and rel: "pres_rel self a" and n: "length c \<le> n"
  shows "case entry_meaning a its of
      Some a' \<Rightarrow> \<exists>self'. parsePCDLEntry n self b (int (length c)) p = Inr (self', p + int (length c)) \<and> pres_rel self' a'
    | None \<Rightarrow> parsePCDLEntry n self b (int (length c)) p = Inr (self, -1)"
proof -
  let ?e = "p + int (length c)"
  have i32e: "i32 ?e = ?e" using e p by (intro i32_id) auto
  obtain ctx isAcse isMms where f: "opt_fold entry_eff (-1, False, False) its = Some (ctx, isAcse, isMms)"
    using entry_eff_total [of "(-1, False, False)" its] by auto
  have "c_while n (\<lambda>(p, _). p < ?e) (pcdl_entry_round b ?e) (p, -1, False, False) = Inr (Continue (?e, ctx, isAcse, isMms))"
    using entry_loop.loop_items [OF ok p _ _ e refl tlvs_rounds [OF n [unfolded c_def]], of b "(-1, False, False)"] at
    by (simp add: f c_def)
  then have run: "parsePCDLEntry n self b (int (length c)) p =
      (if ctx < 0 then Inr (self, -1)
       else if \<not> isAcse \<and> \<not> isMms then Inr (self, -1)
       else if isMms then Inr (self\<lparr>mmsContextId := word_of_int ctx\<rparr>, ?e)
       else Inr (self\<lparr>acseContextId := word_of_int ctx\<rparr>, ?e))"
    by (simp add: parsePCDLEntry_def i32e)
  show ?thesis using rel by (auto simp: run entry_meaning_def f pres_rel_def)
qed

lemma pcdl_round_item:
  assumes "pcdl_ok i" and "0 \<le> p" and at: "bytes_at b p (pcdl_octets i)" and e: "p + int (length (pcdl_octets i)) \<le> e"
    and "e < 2 ^ 31" and "pres_rel self a" and n: "length (pcdl_octets i) \<le> n"
  shows "case pcdl_eff a i of
      Some a' \<Rightarrow> \<exists>self'. pcdl_round n b e (p, self) = Inr (Continue (p + int (length (pcdl_octets i)), self')) \<and> pres_rel self' a'
    | None \<Rightarrow> \<exists>r. pcdl_round n b e (p, self) = Inr (Return r) \<and> snd r = -1"
proof (cases i)
  case (Entry its)
  let ?c = "concat (map tlv_octets its)"
  have at: "bytes_at b p (tlv 0x30 ?c)" and e: "p + int (length (tlv 0x30 ?c)) \<le> e"
    and ok: "list_all tlv_ok its" and l: "length ?c < 65536"
    using assms(1,3,4) by (simp_all add: Entry)
  have at': "bytes_at b (inside p ?c) ?c" using at by (simp add: bytes_at_tlv)
  have ie: "inside p ?c + int (length ?c) = p + int (length (tlv 0x30 ?c))" by (rule inside_end)
  note behind = behind_tlv [OF assms(2) e assms(5)]
  have lt: "inside p ?c + int (length ?c) < 2 ^ 31" using e assms(5) by (simp only: ie)
  have n': "length ?c \<le> n" using n by (simp add: Entry tlv_def)
  have e0: "0 \<le> p + int (length (tlv 0x30 ?c))" using assms(2) by simp
  show ?thesis
    using parsePCDLEntry_items [OF ok behind(2) at' lt assms(6) n'] e0
    by (auto simp: Entry pcdl_round_def read_tl_at [OF l at e] ie split: option.splits)
next
  case (Other_entry t v)
  with assms behind_tlv [of p t v e] read_tl_at [of v b p t e] show ?thesis
    by (simp add: pcdl_round_def)
qed

text \<open>The rounds of the outer loops hand their bound \<open>n\<close> on, so the items have to be no longer than \<open>n\<close>.\<close>

interpretation pcdl_loop: item_loop "pcdl_round n b e" b e pcdl_octets "\<lambda>i. pcdl_ok i \<and> length (pcdl_octets i) \<le> n"
  pcdl_eff pres_rel "\<lambda>r. snd r = -1"
  for n :: nat and b :: "byte list" and e :: int
proof unfold_locales
  fix i assume "pcdl_ok i \<and> length (pcdl_octets i) \<le> n" then show "pcdl_octets i \<noteq> []" by (cases i) simp_all
next
  fix i p s a
  assume "pcdl_ok i \<and> length (pcdl_octets i) \<le> n" "0 \<le> p" "bytes_at b p (pcdl_octets i)"
    "p + int (length (pcdl_octets i)) \<le> e" "e < 2 ^ 31" "pres_rel s a"
  then show "case pcdl_eff a i of
         Some a' \<Rightarrow> \<exists>s'. pcdl_round n b e (p, s) = Inr (Continue (p + int (length (pcdl_octets i)), s')) \<and> pres_rel s' a'
       | None \<Rightarrow> \<exists>r. pcdl_round n b e (p, s) = Inr (Return r) \<and> snd r = -1"
    by (intro pcdl_round_item) simp_all
qed

lemma items_within:
  "length (concat (map octets is)) \<le> n \<Longrightarrow> list_all ok is \<Longrightarrow> list_all (\<lambda>i. ok i \<and> length (octets i) \<le> n) is"
  by (induction "is") auto

lemma pcdl_octets_nonempty: "pcdl_octets i \<noteq> []"
  by (cases i) simp_all

lemma parsePCDL_items:
  fixes its :: "pcdl_item list"
  defines "c \<equiv> concat (map pcdl_octets its)"
  assumes ok: "list_all pcdl_ok its" and p: "0 \<le> p" and at: "bytes_at b p c" and e: "p + int (length c) < 2 ^ 31"
    and rel: "pres_rel self a" and n: "length c \<le> n"
  shows "case opt_fold pcdl_eff a its of
      Some a' \<Rightarrow> \<exists>self'. parsePresentationContextDefinitionList n self b (int (length c)) p
          = Inr (self', p + int (length c)) \<and> pres_rel self' a'
    | None \<Rightarrow> \<exists>self'. parsePresentationContextDefinitionList n self b (int (length c)) p = Inr (self', -1)"
proof -
  let ?e = "p + int (length c)"
  have i32e: "i32 ?e = ?e" using e p by (intro i32_id) auto
  have rounds: "length its \<le> n"
    using length_concat_ge [of its pcdl_octets, OF pcdl_octets_nonempty] n unfolding c_def by simp
  have "bytes_at b p (concat (map pcdl_octets its))" "?e = p + int (length (concat (map pcdl_octets its)))"
    using at unfolding c_def by simp_all
  from pcdl_loop.loop_items [OF items_within [OF n [unfolded c_def] ok] p this e rel rounds]
  show ?thesis
    by (auto simp: parsePresentationContextDefinitionList_def i32e split: option.splits)
qed

lemma fed_items_cases:
  assumes "case opt_fold fed_eff (False, a) its of
      Some (True, a') \<Rightarrow> \<exists>self'. x = Inr (self', q) \<and> pres_rel self' a' | _ \<Rightarrow> \<exists>self'. x = Inr (self', -1)"
  shows "case normal_eff a (User_data its) of
      Some a' \<Rightarrow> \<exists>self'. x = Inr (self', q) \<and> pres_rel self' a' | None \<Rightarrow> \<exists>self'. x = Inr (self', -1)"
  using assms by (auto split: option.splits bool.splits)

lemma normal_round_item:
  assumes "normal_ok i" and "0 \<le> p" and at: "bytes_at b p (normal_octets i)"
    and e: "p + int (length (normal_octets i)) \<le> e"
    and "e < 2 ^ 31" and rel: "pres_rel self a" and n: "length (normal_octets i) \<le> n"
  shows "case normal_eff a i of
      Some a' \<Rightarrow> \<exists>self'. normal_round n b e (p, self) = Inr (Continue (p + int (length (normal_octets i)), self')) \<and> pres_rel self' a'
    | None \<Rightarrow> \<exists>r. normal_round n b e (p, self) = Inr (Return r) \<and> snd r = -1"
proof (cases i)
  case (Context_list its)
  let ?c = "concat (map pcdl_octets its)"
  have at: "bytes_at b p (tlv 0xa4 ?c)" and e: "p + int (length (tlv 0xa4 ?c)) \<le> e"
    and ok: "list_all pcdl_ok its" and l: "length ?c < 65536" and acc: "opt_fold pcdl_eff a its \<noteq> None"
    using assms(1,3,4) by (simp_all add: Context_list)
  have at': "bytes_at b (inside p ?c) ?c" using at by (simp add: bytes_at_tlv)
  have ie: "inside p ?c + int (length ?c) = p + int (length (tlv 0xa4 ?c))" by (rule inside_end)
  note behind = behind_tlv [OF assms(2) e assms(5)]
  have lt: "inside p ?c + int (length ?c) < 2 ^ 31" using e assms(5) by (simp only: ie)
  have n': "length ?c \<le> n" using n by (simp add: Context_list tlv_def)
  obtain a' where a': "opt_fold pcdl_eff a its = Some a'" using acc by blast
  from parsePCDL_items [OF ok behind(2) at' lt rel n', unfolded a'] obtain self' where
    "parsePresentationContextDefinitionList n self b (int (length ?c)) (inside p ?c)
       = Inr (self', p + int (length (tlv 0xa4 ?c)))" "pres_rel self' a'" by (auto simp: ie)
  with behind show ?thesis by (simp add: Context_list normal_round_def read_tl_at [OF l at e] a')
next
  case (User_data its)
  let ?d = "tlv 0x30 (concat (map tlv_octets its))"
  have at: "bytes_at b p (tlv 0x61 ?d)" and e: "p + int (length (tlv 0x61 ?d)) \<le> e"
    and ok: "list_all tlv_ok its" and l: "length ?d < 65536"
    using assms(1,3,4) by (simp_all add: User_data)
  have at': "bytes_at b (inside p ?d) ?d" using at by (simp add: bytes_at_tlv [of b p])
  have ie: "inside p ?d + int (length ?d) = p + int (length (tlv 0x61 ?d))" by (rule inside_end)
  note behind = behind_tlv [OF assms(2) e assms(5)]
  have lt: "inside p ?d + int (length ?d) < 2 ^ 31" using e assms(5) by (simp only: ie)
  have n': "length (concat (map tlv_octets its)) \<le> n" using n by (simp add: User_data tlv_def)
  have q: "0 \<le> p + int (length (tlv 0x61 ?d))" using assms(2) by simp
  have run: "normal_round n b e (p, self) = rbind (parseFullyEncodedData n self b (int (length ?d)) (inside p ?d))
      (\<lambda>(self, bufPos). if bufPos < 0 then Inr (Return (self, -1)) else Inr (Continue (bufPos, self)))"
    using behind by (simp add: normal_round_def read_tl_at [OF l at e])
  note user = fed_items_cases [OF parseFullyEncodedData_items [OF ok l behind(2) at' lt rel n', unfolded ie]]
  show ?thesis
  proof (cases "normal_eff a (User_data its)")
    case None
    from user [unfolded None option.case] obtain self' where
      "parseFullyEncodedData n self b (int (length ?d)) (inside p ?d) = Inr (self', -1)" by blast
    then have "normal_round n b e (p, self) = Inr (Return (self', -1))" by (simp only: run) simp
    then show ?thesis unfolding User_data None by simp
  next
    case (Some a')
    from user [unfolded Some option.case] obtain self' where
      "parseFullyEncodedData n self b (int (length ?d)) (inside p ?d) = Inr (self', p + int (length (tlv 0x61 ?d)))"
      "pres_rel self' a'" by blast
    with q have "normal_round n b e (p, self) = Inr (Continue (p + int (length (tlv 0x61 ?d)), self'))"
      by (simp only: run) simp
    with \<open>pres_rel self' a'\<close> show ?thesis unfolding User_data Some by simp
  qed
next
  case (Other_param t v)
  with assms behind_tlv [of p t v e] read_tl_at [of v b p t e] show ?thesis
    by (simp add: normal_round_def)
qed

lemma normal_octets_nonempty: "normal_octets i \<noteq> []"
  by (cases i) simp_all

interpretation normal_loop: item_loop "normal_round n b e" b e normal_octets
  "\<lambda>i. normal_ok i \<and> length (normal_octets i) \<le> n" normal_eff pres_rel "\<lambda>r. snd r = -1"
  for n :: nat and b :: "byte list" and e :: int
proof unfold_locales
  fix i p s a
  assume "normal_ok i \<and> length (normal_octets i) \<le> n" "0 \<le> p" "bytes_at b p (normal_octets i)"
    "p + int (length (normal_octets i)) \<le> e" "e < 2 ^ 31" "pres_rel s a"
  then show "case normal_eff a i of
         Some a' \<Rightarrow> \<exists>s'. normal_round n b e (p, s) = Inr (Continue (p + int (length (normal_octets i)), s')) \<and> pres_rel s' a'
       | None \<Rightarrow> \<exists>r. normal_round n b e (p, s) = Inr (Return r) \<and> snd r = -1"
    by (intro normal_round_item) simp_all
qed (rule normal_octets_nonempty)

lemma parseNormalModeParameters_items:
  fixes its :: "normal_param list"
  defines "c \<equiv> concat (map normal_octets its)"
  assumes ok: "list_all normal_ok its" and p: "0 \<le> p" and at: "bytes_at b p c" and e: "p + int (length c) < 2 ^ 31"
    and rel: "pres_rel self a" and n: "length c \<le> n"
  shows "case opt_fold normal_eff a its of
      Some a' \<Rightarrow> \<exists>self'. parseNormalModeParameters n self b (int (length c)) p
          = Inr (self', p + int (length c)) \<and> pres_rel self' a'
    | None \<Rightarrow> \<exists>self'. parseNormalModeParameters n self b (int (length c)) p = Inr (self', -1)"
proof -
  let ?e = "p + int (length c)"
  have i32e: "i32 ?e = ?e" using e p by (intro i32_id) auto
  have rounds: "length its \<le> n"
    using length_concat_ge [of its normal_octets, OF normal_octets_nonempty] n unfolding c_def by simp
  have "bytes_at b p (concat (map normal_octets its))" "?e = p + int (length (concat (map normal_octets its)))"
    using at unfolding c_def by simp_all
  from normal_loop.loop_items [OF items_within [OF n [unfolded c_def] ok] p this e rel rounds]
  show ?thesis
    by (auto simp: parseNormalModeParameters_def i32e split: option.splits)
qed

text \<open>The normal mode parameters as an element of the two outer messages.\<close>

lemma normal_mode_element:
  fixes its :: "normal_param list"
  defines "c \<equiv> concat (map normal_octets its)"
  assumes "cp_ok (Normal_mode its)" and "0 \<le> p" and "bytes_at b p (tlv 0xa2 c)"
    and "p + int (length (tlv 0xa2 c)) \<le> e" and "e < 2 ^ 31" and "pres_rel self a" and "length (tlv 0xa2 c) \<le> n"
  shows "read_tl b p e = Inr (0xa2, inside p c, Some (int (length c))) \<and>
    (case opt_fold normal_eff a its of
      Some a' \<Rightarrow> \<exists>self'. parseNormalModeParameters n self b (int (length c)) (inside p c)
          = Inr (self', p + int (length (tlv 0xa2 c))) \<and> pres_rel self' a'
    | None \<Rightarrow> \<exists>self'. parseNormalModeParameters n self b (int (length c)) (inside p c) = Inr (self', -1))"
proof
  from assms(2) have l: "length c < 65536" and ok: "list_all normal_ok its" by (simp_all add: c_def)
  show "read_tl b p e = Inr (0xa2, inside p c, Some (int (length c)))" using l assms(4,5) by (rule read_tl_at)
  have ie: "inside p c + int (length c) = p + int (length (tlv 0xa2 c))" by (rule inside_end)
  have lt: "inside p c + int (length c) < 2 ^ 31" using assms(5,6) by (simp only: ie)
  have n': "length c \<le> n" using assms(8) by (simp add: tlv_def)
  have at': "bytes_at b (inside p c) c" using assms(4) by (simp add: bytes_at_tlv)
  show "case opt_fold normal_eff a its of
      Some a' \<Rightarrow> \<exists>self'. parseNormalModeParameters n self b (int (length c)) (inside p c)
          = Inr (self', p + int (length (tlv 0xa2 c))) \<and> pres_rel self' a'
    | None \<Rightarrow> \<exists>self'. parseNormalModeParameters n self b (int (length c)) (inside p c) = Inr (self', -1)"
    using parseNormalModeParameters_items [OF ok behind_tlv(2) [OF assms(3,5,6)], folded c_def, OF at' lt assms(7) n']
    unfolding ie .
qed

lemma connect_round_item:
  assumes "cp_ok i" and "0 \<le> p" and at: "bytes_at b p (cp_octets i)" and e: "p + int (length (cp_octets i)) \<le> e"
    and "e < 2 ^ 31" and rel: "pres_rel self a" and n: "length (cp_octets i) \<le> n"
  shows "case cp_eff a i of
      Some a' \<Rightarrow> \<exists>self'. connect_round n b e (p, self) = Inr (Continue (p + int (length (cp_octets i)), self')) \<and> pres_rel self' a'
    | None \<Rightarrow> \<exists>r. connect_round n b e (p, self) = Inr (Return r) \<and> snd r = 0"
proof (cases i)
  case (Mode t v)
  have at: "bytes_at b p (tlv 0xa0 (tlv t v))" and e: "p + int (length (tlv 0xa0 (tlv t v))) \<le> e"
    and l: "length (tlv t v) < 65536" using assms(1,3,4) by (simp_all add: Mode)
  have lv: "length v < 65536" using l by (simp add: tlv_def)
  have at': "bytes_at b (inside p (tlv t v)) (tlv t v)" using at by (simp add: bytes_at_tlv [of b p])
  have ie: "inside p (tlv t v) + int (length (tlv t v)) = p + int (length (tlv 0xa0 (tlv t v)))" by (rule inside_end)
  note behind = behind_tlv [OF assms(2) e assms(5)]
  have e': "inside p (tlv t v) + int (length (tlv t v)) \<le> e" using e by (simp only: ie)
  have at'': "rd b (inside p (tlv t v)) = Inr t" "bytes_at b (inside (inside p (tlv t v)) v) v"
    using at' by (simp_all add: bytes_at_tlv [of b "inside p (tlv t v)"])
  show ?thesis
  proof (cases "t = 0x80")
    case True
    then have "connect_round n b e (p, self) = Inr (Continue (p + int (length (tlv 0xa0 (tlv t v))), self))"
      using decodeLength_tlv [OF lv at' e'] decodeUint32_at [OF at''(2) refl] behind_tlv(1) [OF behind(2) e' assms(5)]
        behind(3) at''(1) ie by (simp add: connect_round_def read_tl_at [OF l at e])
    with True rel show ?thesis by (simp add: Mode)
  next
    case False
    with behind(3) at''(1) show ?thesis by (simp add: Mode connect_round_def read_tl_at [OF l at e])
  qed
next
  case (Normal_mode its)
  let ?c = "concat (map normal_octets its)"
  have q: "\<not> p + int (length (tlv 0xa2 ?c)) < 0" using assms(2) by simp
  have tlv: "bytes_at b p (tlv 0xa2 ?c)" "p + int (length (tlv 0xa2 ?c)) \<le> e" "length (tlv 0xa2 ?c) \<le> n"
    using at e n by (simp_all add: Normal_mode)
  note el = normal_mode_element [OF assms(1) [unfolded Normal_mode] assms(2) tlv(1,2) assms(5) rel tlv(3)]
  from el behind_tlv(3) [OF assms(2) tlv(2) assms(5)] q show ?thesis
    by (cases "opt_fold normal_eff a its") (auto simp: Normal_mode connect_round_def)
next
  case (Other_item t v)
  with assms behind_tlv [of p t v e] read_tl_at [of v b p t e] show ?thesis
    by (simp add: connect_round_def)
qed

lemma accept_message_round_item:
  assumes "cp_ok i" and "0 \<le> p" and at: "bytes_at b p (cp_octets i)" and e: "p + int (length (cp_octets i)) \<le> e"
    and "e < 2 ^ 31" and rel: "pres_rel self a" and n: "length (cp_octets i) \<le> n"
  shows "case cpa_eff a i of
      Some a' \<Rightarrow> \<exists>self'. accept_message_round n b e (p, self) = Inr (Continue (p + int (length (cp_octets i)), self')) \<and> pres_rel self' a'
    | None \<Rightarrow> \<exists>r. accept_message_round n b e (p, self) = Inr (Return r) \<and> snd r = 0"
proof (cases i)
  case (Mode t v)
  with assms behind_tlv [of p "0xa0" "tlv t v" e] read_tl_at [of "tlv t v" b p "0xa0" e] show ?thesis
    by (simp add: accept_message_round_def)
next
  case (Normal_mode its)
  let ?c = "concat (map normal_octets its)"
  have q: "\<not> p + int (length (tlv 0xa2 ?c)) < 0" using assms(2) by simp
  have tlv: "bytes_at b p (tlv 0xa2 ?c)" "p + int (length (tlv 0xa2 ?c)) \<le> e" "length (tlv 0xa2 ?c) \<le> n"
    using at e n by (simp_all add: Normal_mode)
  note el = normal_mode_element [OF assms(1) [unfolded Normal_mode] assms(2) tlv(1,2) assms(5) rel tlv(3)]
  from el behind_tlv(3) [OF assms(2) tlv(2) assms(5)] q show ?thesis
    by (cases "opt_fold normal_eff a its") (auto simp: Normal_mode accept_message_round_def)
next
  case (Other_item t v)
  with assms behind_tlv [of p t v e] read_tl_at [of v b p t e] show ?thesis
    by (simp add: accept_message_round_def)
qed

lemma cp_octets_nonempty: "cp_octets i \<noteq> []"
  by (cases i) simp_all

interpretation connect_loop: item_loop "connect_round n b e" b e cp_octets
  "\<lambda>i. cp_ok i \<and> length (cp_octets i) \<le> n" cp_eff pres_rel "\<lambda>r. snd r = 0"
  for n :: nat and b :: "byte list" and e :: int
proof unfold_locales
  fix i p s a
  assume "cp_ok i \<and> length (cp_octets i) \<le> n" "0 \<le> p" "bytes_at b p (cp_octets i)"
    "p + int (length (cp_octets i)) \<le> e" "e < 2 ^ 31" "pres_rel s a"
  then show "case cp_eff a i of
         Some a' \<Rightarrow> \<exists>s'. connect_round n b e (p, s) = Inr (Continue (p + int (length (cp_octets i)), s')) \<and> pres_rel s' a'
       | None \<Rightarrow> \<exists>r. connect_round n b e (p, s) = Inr (Return r) \<and> snd r = 0"
    by (intro connect_round_item) simp_all
qed (rule cp_octets_nonempty)

interpretation accept_message_loop: item_loop "accept_message_round n b e" b e cp_octets
  "\<lambda>i. cp_ok i \<and> length (cp_octets i) \<le> n" cpa_eff pres_rel "\<lambda>r. snd r = 0"
  for n :: nat and b :: "byte list" and e :: int
proof unfold_locales
  fix i p s a
  assume "cp_ok i \<and> length (cp_octets i) \<le> n" "0 \<le> p" "bytes_at b p (cp_octets i)"
    "p + int (length (cp_octets i)) \<le> e" "e < 2 ^ 31" "pres_rel s a"
  then show "case cpa_eff a i of
         Some a' \<Rightarrow> \<exists>s'. accept_message_round n b e (p, s) = Inr (Continue (p + int (length (cp_octets i)), s')) \<and> pres_rel s' a'
       | None \<Rightarrow> \<exists>r. accept_message_round n b e (p, s) = Inr (Return r) \<and> snd r = 0"
    by (intro accept_message_round_item) simp_all
qed (rule cp_octets_nonempty)

definition cp_message :: "cp_item list \<Rightarrow> byte list" where
  "cp_message its = tlv 0x31 (concat (map cp_octets its))"

lemma parseConnect_items:
  assumes ok: "list_all cp_ok its" and l: "length (cp_message its) \<le> 65536" and m: "holds m (cp_message its)"
    and rel: "pres_rel self a" and n: "length (cp_message its) \<le> n"
  shows "case opt_fold cp_eff a its of
      Some a' \<Rightarrow> \<exists>self'. IsoPresentation_parseConnect n self m = Inr (self', 1) \<and> pres_rel self' a'
    | None \<Rightarrow> \<exists>self'. IsoPresentation_parseConnect n self m = Inr (self', 0)"
proof -
  let ?c = "concat (map cp_octets its)" and ?b = "buffer m" and ?e = "bsize m"
  have at: "bytes_at ?b 0 (tlv 0x31 ?c)" using holds_bytes_at [OF m] by (simp add: cp_message_def)
  have sz: "?e = int (length (tlv 0x31 ?c))" using m by (simp add: holds_def cp_message_def)
  have lc: "length ?c < 65536" "length ?c \<le> n" using l n by (simp_all add: cp_message_def tlv_def)
  have at': "bytes_at ?b (inside 0 ?c) ?c" and tag: "rd ?b 0 = Inr 0x31" using at by (simp_all add: bytes_at_tlv)
  have ie: "?e = inside 0 ?c + int (length ?c)" using inside_end [of 0 ?c "0x31"] by (simp add: sz)
  have lt: "?e < 2 ^ 31" using l by (simp add: sz cp_message_def)
  have p: "0 \<le> inside 0 ?c" using inside_gt [of 0 ?c] by simp
  have rounds: "length its \<le> n"
    using length_concat_ge [of its cp_octets, OF cp_octets_nonempty] lc(2) by simp
  have d: "BerDecoder_decodeLength ?b None 1 ?e = Inr (inside 0 ?c, Some (int (length ?c)))"
    using decodeLength_tlv [OF lc(1) at, of ?e] by (simp add: sz)
  from connect_loop.loop_items [OF items_within [OF lc(2) ok] p at' ie lt rel rounds]
  show ?thesis
    by (auto simp: IsoPresentation_parseConnect_def Let_def tag d split: option.splits)
qed

lemma parseAcceptMessage_items:
  assumes ok: "list_all cp_ok its" and l: "length (cp_message its) \<le> 65536" and m: "holds m (cp_message its)"
    and rel: "pres_rel self a" and n: "length (cp_message its) \<le> n"
  shows "case opt_fold cpa_eff a its of
      Some a' \<Rightarrow> \<exists>self'. IsoPresentation_parseAcceptMessage n self m = Inr (self', 1) \<and> pres_rel self' a'
    | None \<Rightarrow> \<exists>self'. IsoPresentation_parseAcceptMessage n self m = Inr (self', 0)"
proof -
  let ?c = "concat (map cp_octets its)" and ?b = "buffer m" and ?e = "bsize m"
  have at: "bytes_at ?b 0 (tlv 0x31 ?c)" using holds_bytes_at [OF m] by (simp add: cp_message_def)
  have sz: "?e = int (length (tlv 0x31 ?c))" using m by (simp add: holds_def cp_message_def)
  have lc: "length ?c < 65536" "length ?c \<le> n" using l n by (simp_all add: cp_message_def tlv_def)
  have at': "bytes_at ?b (inside 0 ?c) ?c" and tag: "rd ?b 0 = Inr 0x31" using at by (simp_all add: bytes_at_tlv)
  have ie: "?e = inside 0 ?c + int (length ?c)" using inside_end [of 0 ?c "0x31"] by (simp add: sz)
  have lt: "?e < 2 ^ 31" using l by (simp add: sz cp_message_def)
  have p: "0 \<le> inside 0 ?c" using inside_gt [of 0 ?c] by simp
  have rounds: "length its \<le> n"
    using length_concat_ge [of its cp_octets, OF cp_octets_nonempty] lc(2) by simp
  have d: "BerDecoder_decodeLength ?b None 1 ?e = Inr (inside 0 ?c, Some (int (length ?c)))"
    using decodeLength_tlv [OF lc(1) at, of ?e] by (simp add: sz)
  from accept_message_loop.loop_items [OF items_within [OF lc(2) ok] p at' ie lt rel rounds]
  show ?thesis
    by (auto simp: IsoPresentation_parseAcceptMessage_def Let_def tag d split: option.splits)
qed

end
