(* ===== verification/Presentation_Messages.thy ===== *)
theory Presentation_Messages
  imports Presentation_Correct
begin

text \<open>
  The messages of the presentation layer: the octets the encoders write are elements in the sense of theory
  \<open>Presentation_Correct\<close>, so that they are read back by the other side; and a message on which
  the parser does not end.
\<close>

unbundle bit_operations_syntax

section \<open>What the encoders write\<close>

text \<open>The user data element: context identifier and payload.\<close>

definition user_items :: "byte \<Rightarrow> byte list \<Rightarrow> (byte \<times> byte list) list" where
  "user_items ctx pl = [(0x02, [ctx]), (0xa0, pl)]"

definition user_element :: "byte \<Rightarrow> byte list \<Rightarrow> byte list" where
  "user_element ctx pl = tlv 0x61 (tlv 0x30 (concat (map tlv_octets (user_items ctx pl))))"

lemma tlv_size_bounds: "int (length v) + 2 \<le> tlv_size v" "tlv_size v \<le> int (length v) + 4"
  by (simp_all add: tlv_size_def len_size_def)

lemma encodeUserData_octets:
  assumes "length pl \<le> 65000"
  shows "encodeUserData buf (int (length pl)) ctx @ pl = buf @ user_element ctx pl"
    and "encodeUserData_size (int (length pl)) = int (length (user_element ctx pl))"
    and "int (length (user_element ctx pl)) \<le> int (length pl) + 16"
    and "length (encodeUserData buf (int (length pl)) ctx) \<le> length buf + 16"
proof -
  let ?l = "int (length pl)"
  let ?c = "concat (map tlv_octets (user_items ctx pl))"
  define d where "d = ?l + 4 + len_size ?l"
  define f where "f = d + len_size d + 1"
  have s: "len_size n \<le> 3" "0 < len_size n" for n by simp_all
  have c: "int (length ?c) = d"
    by (simp add: user_items_def length_tlv tlv_size_def len_size_def [of 1] d_def)
  have d: "int (length (tlv 0x30 ?c)) = f" by (simp add: length_tlv tlv_size_def c f_def)
  have b: "0 \<le> ?l" "?l < 65536" "0 \<le> d" "d < 65536" "0 \<le> f" "f < 65536"
    using assms s(1) [of ?l] s(2) [of ?l] s(1) [of d] s(2) [of d] unfolding d_def f_def by linarith+
  have lens: "userdata_lengths ?l = (d, f)"
  proof -
    have "3 + (?l + 1) + BerEncoder_determineLengthSize (word_of_int ?l) = d"
      using determineLengthSize_eq [OF b(1,2)] by (simp add: d_def)
    then show ?thesis
      using determineLengthSize_eq [OF b(3,4)] unfolding userdata_lengths_def Let_def by (simp add: f_def)
  qed
  have u: "user_element ctx pl = [0x61] @ len_bytes f @ [0x30] @ len_bytes d @ [0x02] @ len_bytes 1 @ [ctx] @ [0xa0] @ len_bytes ?l @ pl"
    unfolding user_element_def tlv_def [of "0x61"] d unfolding tlv_def [of "0x30"] c
    by (simp add: user_items_def tlv_def)
  show all: "encodeUserData buf ?l ctx @ pl = buf @ user_element ctx pl"
    unfolding encodeUserData_def lens u
    by (simp add: encodeTL_bytes [OF b(1,2)] encodeTL_bytes [OF b(3,4)] encodeTL_bytes [OF b(5,6)] encodeTL_bytes)
  have "int (length (user_element ctx pl)) = 1 + len_size f + f"
    unfolding user_element_def length_tlv [of "0x61"] tlv_size_def [of "tlv 0x30 ?c"] d ..
  then show "encodeUserData_size ?l = int (length (user_element ctx pl))"
    using determineLengthSize_eq [OF b(5,6)] by (simp add: encodeUserData_size_def lens)
  show le: "int (length (user_element ctx pl)) \<le> int (length pl) + 16"
    using \<open>int (length (user_element ctx pl)) = 1 + len_size f + f\<close> assms s(1) [of ?l] s(1) [of d] s(1) [of f] unfolding d_def f_def by linarith
  have "length (encodeUserData buf ?l ctx) + length pl = length buf + length (user_element ctx pl)"
    using arg_cong [OF all, of length] by simp
  with le show "length (encodeUserData buf ?l ctx) \<le> length buf + 16" by linarith
qed

lemma user_data_header_octets:
  assumes "length pl \<le> 65000"
  shows "user_data_header (int (length pl)) ctx @ pl = user_element ctx pl"
proof -
  have "user_data_header (int (length pl)) ctx = encodeUserData [] (int (length pl)) ctx"
  proof -
    have "BerEncoder_encodeTL 2 1 out @ [ctx] = out @ [2, 1, ctx]" for out
      using encodeTL_bytes [of 1 2 out] by (simp add: len_bytes_small)
    then show ?thesis
      by (simp add: user_data_header_def encodeUserData_def userdata_lengths_def Let_def algebra_simps)
  qed
  then show ?thesis using encodeUserData_octets(1) [OF assms, of "[]" ctx] by simp
qed

definition acse_entry :: "(byte \<times> byte list) list" where
  "acse_entry = [(0x02, [1]), (0x06, asn_id_as_acse), (0x30, tlv 0x06 ber_id)]"

definition mms_entry :: "(byte \<times> byte list) list" where
  "mms_entry = [(0x02, [3]), (0x06, asn_id_mms), (0x30, tlv 0x06 ber_id)]"

definition connect_items :: "IsoPresentation \<Rightarrow> byte list \<Rightarrow> cp_item list" where
  "connect_items self pl =
     [Mode 0x80 [1],
      Normal_mode [Other_param 0x81 (selector_octets (callingPresentationSelector self)),
                   Other_param 0x82 (selector_octets (calledPresentationSelector self)),
                   Context_list [Entry acse_entry, Entry mms_entry],
                   User_data (user_items (acseContextId self) pl)]]"

definition cpa_items :: "IsoPresentation \<Rightarrow> byte list \<Rightarrow> cp_item list" where
  "cpa_items self pl =
     [Mode 0x80 [1],
      Normal_mode [Other_param 0x83 responding_selector,
                   Other_param 0xa5 (encodeAcceptBer (encodeAcceptBer [])),
                   User_data (user_items (acseContextId self) pl)]]"

lemma encodeAcceptBer_octets:
  "encodeAcceptBer buf = buf @ [0x30, 7, 0x80, 1, 0, 0x81, 2, 0x51, 1]"
  by (simp add: encodeAcceptBer_def Let_def encodeTL_bytes len_bytes_small)

lemma createConnectPdu_octets:
  assumes "chain_ok payld" and "length (chain_bytes payld) \<le> 65000" and "128 \<le> length (chain_buffer c)"
  shows "\<exists>c'. createConnectPdu self c payld = Inr c' \<and> chain_ok c'
      \<and> chain_bytes c' = cp_message (connect_items self (chain_bytes payld))"
proof -
  let ?pl = "chain_bytes payld" and ?ctx = "acseContextId self"
  let ?u = "user_element ?ctx ?pl"
  have l: "chain_length payld = int (length ?pl)" using chain_length_bytes [OF assms(1)] by simp
  note user = encodeUserData_octets [OF assms(2)]
  let ?fix = "[0x81, 4] @ selector_octets (callingPresentationSelector self)
     @ [0x82, 4] @ selector_octets (calledPresentationSelector self)
     @ [0xa4, 35, 0x30, 15, 2, 1, 1, 6, 4] @ asn_id_as_acse @ [0x30, 4, 6, 2] @ ber_id
     @ [0x30, 16, 2, 1, 3, 6, 5] @ asn_id_mms @ [0x30, 4, 6, 2] @ ber_id"
  define nml where "nml = 49 + int (length ?u)"
  define cl where "cl = 6 + len_size nml + nml"
  have s: "len_size nml \<le> 3" "0 < len_size nml" by simp_all
  have b: "0 \<le> nml" "nml < 65536" "0 \<le> cl" "cl < 65536"
    using user(3) [of ?ctx] assms(2) s unfolding nml_def cl_def by linarith+
  let ?front = "[0x31] @ len_bytes cl @ [0xa0, 3, 0x80, 1, 1, 0xa2] @ len_bytes nml @ ?fix"
  have e: "12 + 35 + int (length ?u) + 2 = nml"
    "5 + nml + (1 + BerEncoder_determineLengthSize (word_of_int nml)) = cl"
    using determineLengthSize_eq [OF b(1,2)] by (simp_all add: nml_def cl_def)
  have hdr: "createConnectPdu self c payld = put_part c (encodeUserData ?front (int (length ?pl)) ?ctx) payld"
    unfolding createConnectPdu_def Let_def l user(2) [of ?ctx] e
    by (simp add: encodeTL_bytes [OF b(1,2)] encodeTL_bytes [OF b(3,4)] encodeTL_bytes len_bytes_small)
  have "encodeUserData ?front (int (length ?pl)) ?ctx @ ?pl = cp_message (connect_items self ?pl)"
  proof -
    have fix_len: "length ?fix = 49" by (simp add: selector_octets_def asn_id_as_acse_def asn_id_mms_def ber_id_def)
    have n: "concat (map normal_octets [Other_param 0x81 (selector_octets (callingPresentationSelector self)),
                   Other_param 0x82 (selector_octets (calledPresentationSelector self)),
                   Context_list [Entry acse_entry, Entry mms_entry],
                   User_data (user_items ?ctx ?pl)]) = ?fix @ ?u"
      by (simp add: user_element_def) (simp add: tlv_def acse_entry_def mms_entry_def selector_octets_def
          asn_id_as_acse_def asn_id_mms_def ber_id_def len_bytes_small)
    have nl: "int (length (?fix @ ?u)) = nml" using fix_len by (simp add: nml_def)
    have "cp_octets (Normal_mode [Other_param 0x81 (selector_octets (callingPresentationSelector self)),
                   Other_param 0x82 (selector_octets (calledPresentationSelector self)),
                   Context_list [Entry acse_entry, Entry mms_entry],
                   User_data (user_items ?ctx ?pl)]) = [0xa2] @ len_bytes nml @ ?fix @ ?u"
      by (simp only: cp_octets.simps n tlv_def nl)
    then have c: "concat (map cp_octets (connect_items self ?pl))
        = [0xa0, 3, 0x80, 1, 1] @ [0xa2] @ len_bytes nml @ ?fix @ ?u"
      by (simp add: connect_items_def) (simp add: tlv_def len_bytes_small)
    have "int (length ([0xa0, 3, 0x80, 1, 1] @ [0xa2] @ len_bytes nml @ ?fix @ ?u)) = cl"
      using nl by (simp add: cl_def)
    then show ?thesis unfolding cp_message_def c tlv_def user(1) by simp
  qed
  moreover have "length (encodeUserData ?front (int (length ?pl)) ?ctx) \<le> length (chain_buffer c)"
  proof -
    have "int (length ?front) = 56 + len_size cl + len_size nml"
      by (simp add: selector_octets_def asn_id_as_acse_def asn_id_mms_def ber_id_def)
    then have "length ?front \<le> 62" using s(1) len_size_pos(2) [of cl] by linarith
    with user(4) [of ?front ?ctx] assms(3) show ?thesis by linarith
  qed
  ultimately show ?thesis using put_part_ok [OF _ assms(1), of "encodeUserData ?front (int (length ?pl)) ?ctx" c] by (simp only: hdr)
qed

lemma createCpaMessage_octets:
  assumes "chain_ok payld" and "length (chain_bytes payld) \<le> 65000" and "128 \<le> length (chain_buffer c)"
  shows "\<exists>c'. IsoPresentation_createCpaMessage self c payld = Inr c' \<and> chain_ok c'
      \<and> chain_bytes c' = cp_message (cpa_items self (chain_bytes payld))"
proof -
  let ?pl = "chain_bytes payld" and ?ctx = "acseContextId self"
  let ?u = "user_element ?ctx ?pl"
  have l: "chain_length payld = int (length ?pl)" using chain_length_bytes [OF assms(1)] by simp
  note user = encodeUserData_octets [OF assms(2)]
  let ?acc = "[0x30, 7, 0x80, 1, 0, 0x81, 2, 0x51, 1] :: byte list"
  let ?fix = "[0x83, 4] @ responding_selector @ [0xa5, 18] @ ?acc @ ?acc"
  define nml where "nml = 26 + int (length ?u)"
  define cl where "cl = 6 + len_size nml + nml"
  have s: "len_size nml \<le> 3" "0 < len_size nml" by simp_all
  have b: "0 \<le> nml" "nml < 65536" "0 \<le> cl" "cl < 65536"
    using user(3) [of ?ctx] assms(2) s unfolding nml_def cl_def by linarith+
  let ?front = "[0x31] @ len_bytes cl @ [0xa0, 3, 0x80, 1, 1, 0xa2] @ len_bytes nml @ ?fix"
  have e: "6 + 20 + int (length ?u) = nml"
    "5 + nml + (BerEncoder_determineLengthSize (word_of_int nml) + 1) = cl"
    using determineLengthSize_eq [OF b(1,2)] by (simp_all add: nml_def cl_def)
  have hdr: "IsoPresentation_createCpaMessage self c payld = put_part c (encodeUserData ?front (int (length ?pl)) ?ctx) payld"
    unfolding IsoPresentation_createCpaMessage_def Let_def l user(2) [of ?ctx] e
    by (simp add: encodeTL_bytes [OF b(1,2)] encodeTL_bytes [OF b(3,4)] encodeTL_bytes len_bytes_small
        encodeAcceptBer_octets responding_selector_def)
  have "encodeUserData ?front (int (length ?pl)) ?ctx @ ?pl = cp_message (cpa_items self ?pl)"
  proof -
    have n: "concat (map normal_octets [Other_param 0x83 responding_selector,
                   Other_param 0xa5 (encodeAcceptBer (encodeAcceptBer [])),
                   User_data (user_items ?ctx ?pl)]) = ?fix @ ?u"
      by (simp add: user_element_def)
        (simp add: tlv_def encodeAcceptBer_octets responding_selector_def len_bytes_small)
    have nl: "int (length (?fix @ ?u)) = nml" by (simp add: nml_def responding_selector_def)
    have "cp_octets (Normal_mode [Other_param 0x83 responding_selector,
                   Other_param 0xa5 (encodeAcceptBer (encodeAcceptBer [])),
                   User_data (user_items ?ctx ?pl)]) = [0xa2] @ len_bytes nml @ ?fix @ ?u"
      by (simp only: cp_octets.simps n tlv_def nl)
    then have c: "concat (map cp_octets (cpa_items self ?pl)) = [0xa0, 3, 0x80, 1, 1] @ [0xa2] @ len_bytes nml @ ?fix @ ?u"
      by (simp add: cpa_items_def) (simp add: tlv_def len_bytes_small)
    have "int (length ([0xa0, 3, 0x80, 1, 1] @ [0xa2] @ len_bytes nml @ ?fix @ ?u)) = cl"
      using nl by (simp add: cl_def)
    then show ?thesis unfolding cp_message_def c tlv_def user(1) by simp
  qed
  moreover have "length (encodeUserData ?front (int (length ?pl)) ?ctx) \<le> length (chain_buffer c)"
  proof -
    have "int (length ?front) = 33 + len_size cl + len_size nml" by (simp add: responding_selector_def)
    then have "length ?front \<le> 39" using s(1) len_size_pos(2) [of cl] by linarith
    with user(4) [of ?front ?ctx] assms(3) show ?thesis by linarith
  qed
  ultimately show ?thesis using put_part_ok [OF _ assms(1), of "encodeUserData ?front (int (length ?pl)) ?ctx" c] by (simp only: hdr)
qed

lemma user_items_ok:
  assumes "length pl \<le> 65000"
  shows "list_all tlv_ok (user_items ctx pl)" "length (tlv 0x30 (concat (map tlv_octets (user_items ctx pl)))) < 65536"
proof -
  show "list_all tlv_ok (user_items ctx pl)" using assms by (simp add: user_items_def)
  have "int (length (user_element ctx pl)) \<ge> int (length (tlv 0x30 (concat (map tlv_octets (user_items ctx pl))))) + 2"
    unfolding user_element_def length_tlv [of "0x61"] by (rule tlv_size_bounds(1))
  with encodeUserData_octets(3) [OF assms, of ctx] assms
  show "length (tlv 0x30 (concat (map tlv_octets (user_items ctx pl)))) < 65536" by linarith
qed

lemma user_items_eff:
  "opt_fold fed_eff (False, a) (user_items ctx pl) = Some (True, a\<lparr>v_next := ctx, v_payload := Some pl\<rparr>)"
proof -
  have "(ucast (ucast ctx :: u32) :: byte) = ctx" by (auto intro!: bit_word_eqI simp: bit_simps)
  then show ?thesis by (simp add: user_items_def ber_unsigned_def)
qed

lemma normal_user_items: "normal_octets (User_data (user_items ctx pl)) = user_element ctx pl"
  by (simp add: user_element_def)

lemma context_entries:
  "entry_meaning a acse_entry = Some (a\<lparr>v_acse := 1\<rparr>)" "entry_meaning a mms_entry = Some (a\<lparr>v_mms := 3\<rparr>)"
  by (simp_all add: entry_meaning_def acse_entry_def mms_entry_def asn_id_as_acse_def asn_id_mms_def ber_unsigned_def)

lemma entries_ok: "pcdl_ok (Entry acse_entry)" "pcdl_ok (Entry mms_entry)"
  "length (concat (map pcdl_octets [Entry acse_entry, Entry mms_entry])) = 35"
  by (simp_all add: acse_entry_def mms_entry_def asn_id_as_acse_def asn_id_mms_def ber_id_def tlv_def len_bytes_small)

text \<open>A message whose normal mode parameters are known to be short is short.\<close>

lemma message_length:
  assumes "int (length (concat (map normal_octets nps))) \<le> n"
  shows "int (length (cp_message [Mode 0x80 [1], Normal_mode nps])) \<le> n + 13"
proof -
  have "int (length (cp_octets (Mode 0x80 [1]))) = 5" by (simp add: tlv_def len_bytes_small)
  moreover have "int (length (cp_octets (Normal_mode nps))) \<le> n + 4"
    using tlv_size_bounds(2) [of "concat (map normal_octets nps)"] assms by (simp add: length_tlv)
  ultimately have "int (length (concat (map cp_octets [Mode 0x80 [1], Normal_mode nps]))) \<le> n + 9"
    by (simp only: list.map concat.simps length_append append_Nil2 of_nat_add)
  then show ?thesis
    using tlv_size_bounds(2) [of "concat (map cp_octets [Mode 0x80 [1], Normal_mode nps])"]
    unfolding cp_message_def length_tlv [of "0x31"] by linarith
qed

lemma connect_items_ok:
  assumes "length pl \<le> 65000"
  shows "list_all cp_ok (connect_items self pl)" "length (cp_message (connect_items self pl)) \<le> length pl + 128"
    "opt_fold cp_eff a (connect_items self pl)
     = Some (a\<lparr>v_acse := 1, v_mms := 3, v_next := acseContextId self, v_payload := Some pl\<rparr>)"
proof -
  let ?N = "[Other_param 0x81 (selector_octets (callingPresentationSelector self)),
             Other_param 0x82 (selector_octets (calledPresentationSelector self)),
             Context_list [Entry acse_entry, Entry mms_entry],
             User_data (user_items (acseContextId self) pl)]"
  have "int (length (concat (map normal_octets ?N))) = 49 + int (length (user_element (acseContextId self) pl))"
    using entries_ok(3) by (simp add: normal_user_items length_tlv tlv_size_def selector_octets_def len_size_def
        del: normal_octets.simps(2) pcdl_octets.simps)
  then have n: "int (length (concat (map normal_octets ?N))) \<le> int (length pl) + 65"
    using encodeUserData_octets(3) [OF assms, of "acseContextId self"] by linarith
  then have short: "length (concat (map normal_octets ?N)) < 65536" using assms by linarith
  have "list_all normal_ok ?N"
    using user_items_ok [OF assms, of "acseContextId self"] entries_ok
    by (simp add: selector_octets_def context_entries del: pcdl_octets.simps pcdl_ok.simps)
  with short show "list_all cp_ok (connect_items self pl)"
    by (simp add: connect_items_def tlv_def len_bytes_small del: normal_ok.simps normal_octets.simps)
  show "length (cp_message (connect_items self pl)) \<le> length pl + 128"
    using message_length [OF n] by (simp add: connect_items_def)
  show "opt_fold cp_eff a (connect_items self pl)
     = Some (a\<lparr>v_acse := 1, v_mms := 3, v_next := acseContextId self, v_payload := Some pl\<rparr>)"
    by (simp add: connect_items_def context_entries user_items_eff)
qed

lemma cpa_items_ok:
  assumes "length pl \<le> 65000"
  shows "list_all cp_ok (cpa_items self pl)" "length (cp_message (cpa_items self pl)) \<le> length pl + 55"
    "opt_fold cpa_eff a (cpa_items self pl) = Some (a\<lparr>v_next := acseContextId self, v_payload := Some pl\<rparr>)"
proof -
  let ?N = "[Other_param 0x83 responding_selector, Other_param 0xa5 (encodeAcceptBer (encodeAcceptBer [])),
             User_data (user_items (acseContextId self) pl)]"
  have "int (length (concat (map normal_octets ?N))) = 26 + int (length (user_element (acseContextId self) pl))"
    by (simp add: normal_user_items length_tlv tlv_size_def responding_selector_def encodeAcceptBer_octets
        len_size_def del: normal_octets.simps(2))
  then have n: "int (length (concat (map normal_octets ?N))) \<le> int (length pl) + 42"
    using encodeUserData_octets(3) [OF assms, of "acseContextId self"] by linarith
  then have short: "length (concat (map normal_octets ?N)) < 65536" using assms by linarith
  have "list_all normal_ok ?N"
    using user_items_ok [OF assms, of "acseContextId self"]
    by (simp add: responding_selector_def encodeAcceptBer_octets)
  with short show "list_all cp_ok (cpa_items self pl)"
    by (simp add: cpa_items_def tlv_def len_bytes_small del: normal_ok.simps normal_octets.simps)
  show "length (cp_message (cpa_items self pl)) \<le> length pl + 55"
    using message_length [OF n] by (simp add: cpa_items_def)
  show "opt_fold cpa_eff a (cpa_items self pl) = Some (a\<lparr>v_next := acseContextId self, v_payload := Some pl\<rparr>)"
    by (simp add: cpa_items_def user_items_eff)
qed


section \<open>Properties\<close>

definition fresh_presentation :: IsoPresentation where
  "fresh_presentation = \<lparr>callingPresentationSelector = 0, calledPresentationSelector = 0, nextContextId = 0,
     acseContextId = 0, mmsContextId = 0, nextPayload = \<lparr>buffer = [], bsize = 0, maxSize = 0\<rparr>\<rparr>"

definition fresh_view :: pres_view where
  "fresh_view = \<lparr>v_next = 0, v_acse = 0, v_mms = 0, v_payload = None\<rparr>"

lemma fresh_rel: "pres_rel fresh_presentation fresh_view"
  by (simp add: pres_rel_def fresh_presentation_def fresh_view_def)

text \<open>
  Client and server agree on an association: the server reads from the connect message of a client
  the context identifiers 1 and 3 and the ACSE payload, and the client reads from the answer of a server
  the identifier and the payload it was sent, whatever the lengths of the payloads up to 65000.
\<close>

theorem presentation_association_roundtrip:
  assumes "chain_ok payld" and "length (chain_bytes payld) \<le> 65000" and "128 \<le> length (chain_buffer c)"
    and "length (chain_bytes payld) + 128 \<le> n"
  shows "(\<exists>s' c'. IsoPresentation_createConnectPdu s ps c payld = Inr (s', c') \<and> chain_ok c'
      \<and> (\<forall>m r. holds m (chain_bytes c') \<longrightarrow>
           (\<exists>r'. IsoPresentation_parseConnect n r m = Inr (r', 1) \<and> acseContextId r' = 1 \<and> mmsContextId r' = 3
              \<and> nextContextId r' = 1 \<and> holds (nextPayload r') (chain_bytes payld))))
    \<and> (\<exists>c'. IsoPresentation_createCpaMessage s c payld = Inr c' \<and> chain_ok c'
      \<and> (\<forall>m r. holds m (chain_bytes c') \<longrightarrow>
           (\<exists>r'. IsoPresentation_parseAcceptMessage n r m = Inr (r', 1) \<and> acseContextId r' = acseContextId r
              \<and> mmsContextId r' = mmsContextId r \<and> nextContextId r' = acseContextId s
              \<and> holds (nextPayload r') (chain_bytes payld))))" (is "?A \<and> ?B")
proof
  let ?pl = "chain_bytes payld"
  let ?view = "\<lambda>r. \<lparr>v_next = nextContextId r, v_acse = acseContextId r, v_mms = mmsContextId r, v_payload = None\<rparr>"
  have rel: "pres_rel r (?view r)" for r by (simp add: pres_rel_def)
  let ?s = "s\<lparr>acseContextId := 1, mmsContextId := 3, callingPresentationSelector := localPSelector ps,
               calledPresentationSelector := remotePSelector ps\<rparr>"
  from createConnectPdu_octets [OF assms(1-3), of ?s] obtain c' where
    c': "IsoPresentation_createConnectPdu s ps c payld = Inr (?s, c')" "chain_ok c'"
      "chain_bytes c' = cp_message (connect_items ?s ?pl)" by (auto simp: IsoPresentation_createConnectPdu_def)
  note ok = connect_items_ok [OF assms(2), where self = ?s]
  have len: "length (cp_message (connect_items ?s ?pl)) \<le> 65536" "length (cp_message (connect_items ?s ?pl)) \<le> n"
    using ok(2) assms(2,4) by linarith+
  have "\<exists>r'. IsoPresentation_parseConnect n r m = Inr (r', 1) \<and> acseContextId r' = 1 \<and> mmsContextId r' = 3
              \<and> nextContextId r' = 1 \<and> holds (nextPayload r') ?pl" if "holds m (chain_bytes c')" for m r
    using parseConnect_items [OF ok(1) len(1) that [unfolded c'(3)] rel [of r] len(2)] ok(3) [of "?view r"]
    by (auto simp: pres_rel_def)
  with c' show ?A by blast
next
  let ?pl = "chain_bytes payld"
  let ?view = "\<lambda>r. \<lparr>v_next = nextContextId r, v_acse = acseContextId r, v_mms = mmsContextId r, v_payload = None\<rparr>"
  have rel: "pres_rel r (?view r)" for r by (simp add: pres_rel_def)
  from createCpaMessage_octets [OF assms(1-3), of s] obtain d where
    d: "IsoPresentation_createCpaMessage s c payld = Inr d" "chain_ok d"
      "chain_bytes d = cp_message (cpa_items s ?pl)" by blast
  note ok = cpa_items_ok [OF assms(2), where self = s]
  have len: "length (cp_message (cpa_items s ?pl)) \<le> 65536" "length (cp_message (cpa_items s ?pl)) \<le> n"
    using ok(2) assms(2,4) by linarith+
  have "\<exists>r'. IsoPresentation_parseAcceptMessage n r m = Inr (r', 1) \<and> acseContextId r' = acseContextId r
              \<and> mmsContextId r' = mmsContextId r \<and> nextContextId r' = acseContextId s
              \<and> holds (nextPayload r') ?pl" if "holds m (chain_bytes d)" for m r
    using parseAcceptMessage_items [OF ok(1) len(1) that [unfolded d(3)] rel [of r] len(2)] ok(3) [of "?view r"]
    by (auto simp: pres_rel_def)
  with d show ?B by blast
qed

theorem presentation_association_roundtrip_witness:
  "\<exists>c'. IsoPresentation_createCpaMessage fresh_presentation (BufferChain 0 0 128 None (replicate 128 0))
         (BufferChain 2 2 2 None [7, 8]) = Inr c'
     \<and> (\<forall>m. holds m (chain_bytes c') \<longrightarrow>
          (\<exists>r'. IsoPresentation_parseAcceptMessage 200 fresh_presentation m = Inr (r', 1) \<and> holds (nextPayload r') [7, 8]))"
  using presentation_association_roundtrip [of "BufferChain 2 2 2 None [7, 8]" "BufferChain 0 0 128 None (replicate 128 0)"
      200 fresh_presentation default_parameters]
  by fastforce

lemma parseUserData_element:
  assumes "length pl \<le> 65000" and m: "holds m (user_element ctx pl)"
  shows "\<exists>r'. IsoPresentation_parseUserData r m = Inr (r', 1) \<and> nextContextId r' = ctx \<and> holds (nextPayload r') pl
      \<and> maxSize (nextPayload r') = int (length pl)"
proof -
  let ?c = "concat (map tlv_octets (user_items ctx pl))" and ?b = "buffer m" and ?e = "bsize m"
  let ?d = "tlv 0x30 ?c" let ?q = "inside 0 ?d" let ?q2 = "inside ?q ?c" let ?a = "?q2 + 3"
  have c: "?c = tlv 0x02 [ctx] @ tlv 0xa0 pl" by (simp add: user_items_def)
  have ld: "length ?d < 65536" using user_items_ok(2) [OF assms(1)] .
  have lc: "length ?c < 65536" using ld tlv_size_bounds(1) [of ?c] length_tlv [of "0x30" ?c] by linarith
  have at: "bytes_at ?b 0 (tlv 0x61 ?d)" using holds_bytes_at [OF m] by (simp add: user_element_def)
  have sz: "?e = int (length (tlv 0x61 ?d))" using m by (simp add: holds_def user_element_def)
  have at1: "bytes_at ?b ?q (tlv 0x30 ?c)" and t1: "rd ?b 0 = Inr 0x61" using at by (simp_all add: bytes_at_tlv [of ?b 0])
  have e1: "?q + int (length ?d) = ?e" using inside_end [of 0 ?d "0x61"] by (simp add: sz)
  have at2: "bytes_at ?b ?q2 (tlv 0x02 [ctx] @ tlv 0xa0 pl)" and t2: "rd ?b ?q = Inr 0x30"
    using at1 unfolding bytes_at_tlv [of ?b ?q] by (simp_all add: c)
  have l2: "length (tlv 0x02 [ctx]) = 3" by (simp add: tlv_def len_bytes_small)
  have e2: "?q2 + int (length ?c) = ?e" using inside_end [of ?q ?c "0x30"] e1 by simp
  then have e3: "?a + int (length (tlv 0xa0 pl)) = ?e" by (simp add: c l2)
  have at3: "bytes_at ?b ?q2 (tlv 0x02 [ctx])" "bytes_at ?b ?a (tlv 0xa0 pl)"
    using at2 by (simp_all add: bytes_at_append l2)
  have t3: "rd ?b ?q2 = Inr 2" "rd ?b (?q2 + 1) = Inr 1" "rd ?b (?q2 + 2) = Inr ctx" "rd ?b ?a = Inr 0xa0"
    using at3 by (simp_all add: tlv_def len_bytes_small add.assoc)
  have len9: "\<not> ?e < 9"
    using tlv_size_bounds(1) [of pl] tlv_size_bounds(1) [of ?c] tlv_size_bounds(1) [of ?d] e3 e2 e1
    by (simp add: sz length_tlv c l2)
  have p: "0 \<le> ?q2" using inside_gt [of 0 ?d] inside_gt [of ?q ?c] by linarith
  have pl: "length pl < 65536" using assms(1) by simp
  have d1: "BerDecoder_decodeLength ?b None 1 ?e = Inr (?q, Some (int (length ?d)))"
    using decodeLength_tlv [OF ld at, of ?e None] sz by simp
  have d2: "BerDecoder_decodeLength ?b None (?q + 1) ?e = Inr (?q2, Some (int (length ?c)))"
    using decodeLength_tlv [OF lc at1, of ?e] e1 by simp
  have "BerDecoder_decodeLength ?b None (?a + 1) ?e = Inr (inside ?a pl, Some (int (length pl)))"
    using decodeLength_tlv [OF pl at3(2), of ?e] e3 by simp
  then have d3: "BerDecoder_decodeLength ?b None (?q2 + 4) ?e = Inr (inside ?a pl, Some (int (length pl)))"
    by (simp add: add.assoc)
  have "bytes_at ?b (inside ?a pl) pl" using at3(2) by (simp add: bytes_at_tlv)
  moreover have "0 \<le> inside ?a pl" using p inside_gt [of ?a pl] by linarith
  ultimately have "take (length pl) (drop (nat (inside ?a pl)) ?b) = pl" by (rule bytes_at_eq_take_drop)
  then show ?thesis
    by (auto simp: IsoPresentation_parseUserData_def Let_def len9 expect_def t1 t2 t3 d1 d2 d3 holds_def ByteBuffer_wrap_def)
qed

text \<open>
  User data of an established association: what createUserData and createUserDataACSE send is
  read back by parseUserData, with the context identifier of the layer it is for and the same payload.
\<close>

theorem presentation_userdata_roundtrip:
  assumes "chain_ok payld" and "length (chain_bytes payld) \<le> 65000" and "16 \<le> length (chain_buffer c)"
  shows "\<exists>d a. IsoPresentation_createUserData s c payld = Inr d \<and> IsoPresentation_createUserDataACSE s c payld = Inr a
    \<and> (\<forall>m r. (holds m (chain_bytes d) \<longrightarrow> (\<exists>r'. IsoPresentation_parseUserData r m = Inr (r', 1)
          \<and> nextContextId r' = mmsContextId s \<and> holds (nextPayload r') (chain_bytes payld)))
        \<and> (holds m (chain_bytes a) \<longrightarrow> (\<exists>r'. IsoPresentation_parseUserData r m = Inr (r', 1)
          \<and> nextContextId r' = acseContextId s \<and> holds (nextPayload r') (chain_bytes payld))))"
proof -
  let ?pl = "chain_bytes payld"
  have l: "chain_length payld = int (length ?pl)" using chain_length_bytes [OF assms(1)] by simp
  have "\<exists>d. put_part c (user_data_header (chain_length payld) ctx) payld = Inr d \<and> chain_bytes d = user_element ctx ?pl" for ctx
  proof -
    have h: "user_data_header (chain_length payld) ctx @ ?pl = user_element ctx ?pl"
      using user_data_header_octets [OF assms(2)] by (simp add: l)
    have "length (user_data_header (chain_length payld) ctx) + length ?pl = length (user_element ctx ?pl)"
      using arg_cong [OF h, of length] by simp
    then have "length (user_data_header (chain_length payld) ctx) \<le> length (chain_buffer c)"
      using encodeUserData_octets(3) [OF assms(2), of ctx] assms(3) by linarith
    from put_part_ok [OF this assms(1)] show ?thesis by (auto simp: h)
  qed
  from this [of "mmsContextId s"] this [of "acseContextId s"] show ?thesis
    unfolding IsoPresentation_createUserData_def IsoPresentation_createUserDataACSE_def
    using parseUserData_element [OF assms(2)] by metis
qed

theorem presentation_userdata_roundtrip_witness:
  "\<exists>d. IsoPresentation_createUserData (fresh_presentation\<lparr>mmsContextId := 3\<rparr>) (BufferChain 0 0 16 None (replicate 16 0))
         (BufferChain 1 1 1 None [7]) = Inr d
     \<and> (\<forall>m. holds m (chain_bytes d) \<longrightarrow> (\<exists>r'. IsoPresentation_parseUserData fresh_presentation m = Inr (r', 1)
          \<and> nextContextId r' = 3 \<and> holds (nextPayload r') [7]))"
  using presentation_userdata_roundtrip [of "BufferChain 1 1 1 None [7]" "BufferChain 0 0 16 None (replicate 16 0)"
      "fresh_presentation\<lparr>mmsContextId := 3\<rparr>"]
  by fastforce

text \<open>
  A decoded length may be negative, and the loops add it to the position. An element whose four
  length octets say -6 takes the loop of the connect parser back to the tag of the element: the server
  never returns from such a message of eight octets, with any tag the loop does not know.
\<close>

theorem negative_length_never_ends:
  assumes "t \<noteq> 0xa0" and "t \<noteq> 0xa2" and "holds m [0x31, l, t, 0x84, 0xff, 0xff, 0xff, 0xfa]" and "l AND 0x80 = 0"
  shows "IsoPresentation_parseConnect n self m = Inl Out_of_fuel"
proof -
  let ?b = "buffer m"
  have sz: "bsize m = 8" using assms(3) by (simp add: holds_def)
  have r: "rd ?b 0 = Inr 0x31" "rd ?b 1 = Inr l" "rd ?b 2 = Inr t" "rd ?b 3 = Inr 0x84" "rd ?b 4 = Inr 0xff"
    "rd ?b 5 = Inr 0xff" "rd ?b 6 = Inr 0xff" "rd ?b 7 = Inr 0xfa"
    using holds_bytes_at [OF assms(3)] by simp_all
  have d: "BerDecoder_decodeLength ?b None 1 8 = Inr (2, Some (uint l))"
    using assms(4) by (simp add: BerDecoder_decodeLength_def r)
  have wrap: "i32 4294967040 = -256" by (simp add: i32_def)
  have "decode_length_octets ?b (Suc (Suc (Suc (Suc 0)))) 0 4 8 = Inr (8, -6)"
    by (simp add: r wrap)
  then have four: "decode_length_octets ?b 4 0 4 8 = Inr (8, -6)" by (simp add: numeral_eq_Suc)
  have "BerDecoder_decodeLength ?b None 3 8 = Inr (8, Some (-6))"
    by (simp add: BerDecoder_decodeLength_def r four)
  then have "read_tl ?b 2 8 = Inr (t, 8, Some (-6))" by (simp add: read_tl_def r)
  then have "connect_round n ?b 8 (2, self) = Inr (Continue (2, self))"
    using assms(1,2) by (simp add: connect_round_def)
  then have "c_while n (\<lambda>(bufPos, _). bufPos < 8) (connect_round n ?b 8) (2, self) = Inl Out_of_fuel"
    by (intro c_while_diverges) simp_all
  then show ?thesis by (simp add: IsoPresentation_parseConnect_def Let_def r sz d)
qed

theorem negative_length_never_ends_witness:
  "IsoPresentation_parseConnect 1000 fresh_presentation
     \<lparr>buffer = [0x31, 6, 0x99, 0x84, 0xff, 0xff, 0xff, 0xfa], bsize = 8, maxSize = 8\<rparr> = Inl Out_of_fuel"
  by (rule negative_length_never_ends [of "0x99" _ 6]) (simp_all add: holds_def)

end
