(* ===== verification/Acse_Correct.thy ===== *)
theory Acse_Correct
  imports Acse Presentation_Messages
begin

text \<open>
  The association control of theory \<open>Acse\<close>: the parsers implement the meaning of the elements of a request
  and of a response (instances of \<open>item_loop\<close>), requests and responses are read back by the other side,
  and what the authenticator of the server guards and what it does not.
\<close>

unbundle bit_operations_syntax

section \<open>The meaning of the elements\<close>

text \<open>What the layers above see of an \<open>AcseConnection\<close>.\<close>

record acse_view =
  a_ref :: int
  a_data :: "byte list option"

text \<open>The octets behind a pointer with a length.\<close>

fun points_to :: "byte list option \<Rightarrow> int \<Rightarrow> byte list option \<Rightarrow> bool" where
  "points_to q n None \<longleftrightarrow> q = None \<and> n = 0"
| "points_to q n (Some v) \<longleftrightarrow> n = int (length v) \<and> (\<exists>m. q = Some m \<and> take (length v) m = v)"

lemma points_to_drop: "bytes_at b p v \<Longrightarrow> 0 \<le> p \<Longrightarrow> points_to (Some (drop (nat p) b)) (int (length v)) (Some v)"
  using bytes_at_eq_take_drop by auto

definition acse_rel :: "authenticator_fun option \<Rightarrow> AcseConnection \<Rightarrow> acse_view \<Rightarrow> bool" where
  "acse_rel auth self a \<longleftrightarrow> authenticator self = auth \<and> nextReference self = a_ref a
     \<and> (\<forall>v. a_data a = Some v \<longrightarrow> points_to (userDataBuffer self) (userDataBufferSize self) (Some v))"

fun info_eff :: "bool \<times> bool \<times> acse_view \<Rightarrow> byte \<times> byte list \<Rightarrow> (bool \<times> bool \<times> acse_view) option" where
  "info_eff (hasRef, valid, a) (t, v) =
     Some (if t = 0x02 then (True, valid, a\<lparr>a_ref := uint (ber_unsigned v)\<rparr>)
           else if t = 0xa0 then (hasRef, True, a\<lparr>a_data := Some v\<rparr>)
           else (hasRef, valid, a))"

definition info_meaning :: "acse_view \<Rightarrow> (byte \<times> byte list) list \<Rightarrow> bool \<times> acse_view" where
  "info_meaning a its =
     (case opt_fold info_eff (False, False, a) its of
        None \<Rightarrow> (False, a) | Some (hasRef, valid, a') \<Rightarrow> (hasRef \<and> valid, a'))"

fun info_rel :: "authenticator_fun option \<Rightarrow> bool \<times> bool \<times> AcseConnection \<Rightarrow> bool \<times> bool \<times> acse_view \<Rightarrow> bool" where
  "info_rel auth (h, d, self) (h', d', a) \<longleftrightarrow> h = h' \<and> d = d' \<and> acse_rel auth self a"

lemma info_round_tlv:
  assumes "length v < 65536" and "0 \<le> p" and at: "bytes_at b p (tlv t v)" and "p + int (length (tlv t v)) \<le> e"
    and "e < 2 ^ 31" and "info_rel auth s a"
  shows "\<exists>s'. user_info_round b e (p, s) = Inr (Continue (p + int (length (tlv t v)), s')) \<and> info_rel auth s' (the (info_eff a (t, v)))"
proof -
  obtain h d self where s: "s = (h, d, self)" by (cases s)
  obtain h' d' a' where a: "a = (h', d', a')" by (cases a)
  have at': "bytes_at b (inside p v) v" using at by (simp add: bytes_at_tlv)
  note behind = behind_tlv [OF assms(2,4,5)]
  show ?thesis
    using assms(6) decodeUint32_at [OF at' refl] points_to_drop [OF at' behind(2)] behind
    by (auto simp: user_info_round_def read_tl_at [OF assms(1) at assms(4)] s a acse_rel_def ber_unsigned_def)
qed

interpretation info_loop: item_loop "user_info_round b e" b e tlv_octets tlv_ok info_eff "info_rel auth" "\<lambda>_. False"
  for b :: "byte list" and e :: int and auth :: "authenticator_fun option"
proof unfold_locales
  fix i p s a
  assume i: "tlv_ok i" "0 \<le> p" "bytes_at b p (tlv_octets i)" "p + int (length (tlv_octets i)) \<le> e" "e < 2 ^ 31" "info_rel auth s a"
  obtain t v where tv: "i = (t, v)" by fastforce
  from i info_round_tlv [of v p b t e auth s a] have "\<exists>s'. user_info_round b e (p, s)
      = Inr (Continue (p + int (length (tlv t v)), s')) \<and> info_rel auth s' (the (info_eff a (t, v)))" by (simp add: tv)
  moreover obtain a' where "info_eff a (t, v) = Some a'" by (cases a) simp
  ultimately show "case info_eff a i of
         Some a' \<Rightarrow> \<exists>s'. user_info_round b e (p, s) = Inr (Continue (p + int (length (tlv_octets i)), s')) \<and> info_rel auth s' a'
       | None \<Rightarrow> \<exists>r. user_info_round b e (p, s) = Inr (Return r) \<and> False"
    by (simp add: tv)
qed auto

lemma info_eff_total: "opt_fold info_eff s its \<noteq> None"
proof (induction its arbitrary: s)
  case (Cons i its)
  obtain t v where i: "i = (t, v)" by fastforce
  obtain a b c where s: "s = (a, b, c)" by (cases s)
  show ?case by (simp add: i s Cons.IH del: not_None_eq)
qed simp

lemma parseUserInformation_items:
  assumes ok: "list_all tlv_ok its" and p: "0 \<le> p" and at: "bytes_at b p (concat (map tlv_octets its))"
    and e: "e = p + int (length (concat (map tlv_octets its)))" and lt: "e < 2 ^ 31"
    and rel: "acse_rel auth self a" and n: "length (concat (map tlv_octets its)) \<le> n"
  shows "\<exists>self'. parseUserInformation n self b p e = Inr (self', fst (info_meaning a its), e)
      \<and> acse_rel auth self' (snd (info_meaning a its))"
proof -
  obtain h d a' where f: "opt_fold info_eff (False, False, a) its = Some (h, d, a')"
    using info_eff_total [of "(False, False, a)" its] by auto
  have "info_rel auth (False, False, self) (False, False, a)" using rel by simp
  from info_loop.loop_items [OF ok p at e lt this tlvs_rounds [OF n]] f
  show ?thesis by (auto simp: parseUserInformation_def info_meaning_def)
qed

text \<open>The user information element of a request or a response.\<close>

definition info_octets :: "(byte \<times> byte list) list \<Rightarrow> byte list" where
  "info_octets its = tlv 0xbe (tlv 0x28 (concat (map tlv_octets its)))"

definition info_ok :: "(byte \<times> byte list) list \<Rightarrow> bool" where
  "info_ok its \<longleftrightarrow> list_all tlv_ok its \<and> length (tlv 0x28 (concat (map tlv_octets its))) < 65536"

lemma user_information_items:
  fixes its :: "(byte \<times> byte list) list"
  defines "c \<equiv> concat (map tlv_octets its)"
  assumes ok: "info_ok its" and p: "0 \<le> p" and at: "bytes_at b p (info_octets its)"
    and e: "p + int (length (info_octets its)) \<le> e" and lt: "e < 2 ^ 31"
    and rel: "acse_rel auth self a" and n: "length (info_octets its) \<le> n"
  shows "\<exists>q l. read_tl b p e = Inr (0xbe, q, Some l) \<and> 0 \<le> q \<and>
    (\<exists>self'. user_information n b e q (Some l) self w = Inr (self', fst (info_meaning a its), p + int (length (info_octets its)))
      \<and> acse_rel auth self' (snd (info_meaning a its)))"
proof -
  let ?d = "tlv 0x28 c" let ?q = "inside p ?d" let ?q2 = "inside ?q c"
  have ld: "length ?d < 65536" and its: "list_all tlv_ok its" using ok by (simp_all add: info_ok_def c_def)
  have lc: "length c < 65536" using ld by (simp add: tlv_def)
  have at0: "bytes_at b p (tlv 0xbe ?d)" and e0: "p + int (length (tlv 0xbe ?d)) \<le> e"
    using at e by (simp_all add: info_octets_def c_def)
  have at1: "bytes_at b ?q (tlv 0x28 c)" using at0 by (simp add: bytes_at_tlv [of b p])
  have at2: "bytes_at b ?q2 c" and tag: "rd b ?q = Inr 0x28" using at1 by (simp_all add: bytes_at_tlv [of b ?q])
  note behind = behind_tlv [OF p e0 lt]
  have e1: "?q + int (length ?d) = p + int (length (info_octets its))"
    using inside_end [of p ?d "0xbe"] by (simp add: info_octets_def c_def)
  then have e1': "?q + int (length (tlv 0x28 c)) \<le> e" using e by simp
  have e2: "?q2 + int (length c) = p + int (length (info_octets its))" using inside_end [of ?q c "0x28"] e1 by simp
  note behind2 = behind_tlv [OF behind(2) e1' lt]
  have lt2: "?q2 + int (length c) < 2 ^ 31" using e2 e lt by linarith
  have i32e: "i32 (?q2 + int (length c)) = ?q2 + int (length c)" using lt2 behind2(2) by (intro i32_id) auto
  have nc: "length (concat (map tlv_octets its)) \<le> n" using n by (simp add: info_octets_def tlv_def [of "0xbe"] tlv_def [of "0x28"])
  have at2': "bytes_at b ?q2 (concat (map tlv_octets its))" using at2 unfolding c_def .
  have ee: "?q2 + int (length c) = ?q2 + int (length (concat (map tlv_octets its)))" unfolding c_def ..
  from parseUserInformation_items [OF its behind2(2) at2' ee lt2 rel nc]
  have "\<exists>self'. user_information n b e ?q (Some (int (length ?d))) self w
      = Inr (self', fst (info_meaning a its), p + int (length (info_octets its))) \<and> acse_rel auth self' (snd (info_meaning a its))"
    using decodeLength_tlv [OF lc at1 e1'] by (simp add: user_information_def tag i32e [unfolded e2] e2)
  with read_tl_at [OF ld at0 e0] behind(2) show ?thesis by blast
qed

text \<open>The elements of a request.\<close>

datatype aarq_item =
    Mechanism "byte list"
  | Auth_value byte "byte list"
  | User_info "(byte \<times> byte list) list"
  | Other_aarq byte "byte list"

fun aarq_octets :: "aarq_item \<Rightarrow> byte list" where
  "aarq_octets (Mechanism v) = tlv 0x8b v"
| "aarq_octets (Auth_value t v) = tlv 0xac (tlv t v)"
| "aarq_octets (User_info its) = info_octets its"
| "aarq_octets (Other_aarq t v) = tlv t v"

fun aarq_ok :: "aarq_item \<Rightarrow> bool" where
  "aarq_ok (Mechanism v) = (length v < 65536)"
| "aarq_ok (Auth_value t v) = (length (tlv t v) < 65536)"
| "aarq_ok (User_info its) = info_ok its"
| "aarq_ok (Other_aarq t v) = (t \<notin> {0x8b, 0xac, 0xbe} \<and> length v < 65536)"

text \<open>Mechanism, authentication value, validity of the user information, and the view.\<close>

type_synonym aarq_meaning = "byte list option \<times> byte list option \<times> bool \<times> acse_view"

fun aarq_eff :: "aarq_meaning \<Rightarrow> aarq_item \<Rightarrow> aarq_meaning option" where
  "aarq_eff (m, w, ok, a) (Mechanism v) = Some (Some v, w, ok, a)"
| "aarq_eff (m, w, ok, a) (Auth_value t v) = Some (m, Some v, ok, a)"
| "aarq_eff (m, w, ok, a) (User_info its) = Some (m, w, info_meaning a its)"
| "aarq_eff (m, w, ok, a) (Other_aarq t v) = Some (m, w, ok, a)"

fun aarq_rel :: "authenticator_fun option \<Rightarrow> aarq_vars \<times> AcseConnection \<Rightarrow> aarq_meaning \<Rightarrow> bool" where
  "aarq_rel auth (v, self) (m, w, ok, a) \<longleftrightarrow>
     points_to (authMechanism v) (authMechLen v) m \<and> points_to (authValue v) (authValueLen v) w
     \<and> userInfoValid v = ok \<and> acse_rel auth self a"

lemma aarq_round_item:
  assumes "aarq_ok i" and p: "0 \<le> p" and at: "bytes_at b p (aarq_octets i)"
    and e: "p + int (length (aarq_octets i)) \<le> e" and lt: "e < 2 ^ 31" and rel: "aarq_rel auth s a"
    and n: "length (aarq_octets i) \<le> n"
  shows "\<exists>s'. aarq_round n b e (p, s) = Inr (Continue (p + int (length (aarq_octets i)), s')) \<and> aarq_rel auth s' (the (aarq_eff a i))"
proof -
  obtain v self where s: "s = (v, self)" by (cases s)
  obtain m w ok a' where a: "a = (m, w, ok, a')" by (cases a)
  show ?thesis
  proof (cases i)
    case (Mechanism x)
    have at: "bytes_at b p (tlv 0x8b x)" and e: "p + int (length (tlv 0x8b x)) \<le> e" and l: "length x < 65536"
      using assms(1) at e by (simp_all add: Mechanism)
    note behind = behind_tlv [OF p e lt]
    have "bytes_at b (inside p x) x" using at by (simp add: bytes_at_tlv)
    from points_to_drop [OF this behind(2)] rel behind show ?thesis
      by (simp add: Mechanism aarq_round_def read_tl_at [OF l at e] s a)
  next
    case (Auth_value t x)
    let ?d = "tlv t x" let ?q = "inside p ?d"
    have at: "bytes_at b p (tlv 0xac ?d)" and e: "p + int (length (tlv 0xac ?d)) \<le> e" and l: "length ?d < 65536"
      using assms(1) at e by (simp_all add: Auth_value)
    have lx: "length x < 65536" using l by (simp add: tlv_def)
    have at1: "bytes_at b ?q (tlv t x)" using at by (simp add: bytes_at_tlv [of b p])
    have e1: "?q + int (length ?d) = p + int (length (tlv 0xac ?d))" by (rule inside_end)
    then have e1': "?q + int (length ?d) \<le> e" using e by simp
    note behind = behind_tlv [OF p e lt]
    note behind2 = behind_tlv [OF behind(2) e1' lt]
    have "bytes_at b (inside ?q x) x" using at1 by (simp add: bytes_at_tlv)
    from points_to_drop [OF this behind2(2)] rel behind behind2 decodeLength_tlv [OF lx at1 e1'] show ?thesis
      by (simp add: Auth_value aarq_round_def read_tl_at [OF l at e] s a e1)
  next
    case (User_info its)
    have "info_ok its" "bytes_at b p (info_octets its)" "p + int (length (info_octets its)) \<le> e"
      "acse_rel auth self a'" "length (info_octets its) \<le> n"
      using assms(1) at e rel n by (simp_all add: User_info s a)
    from user_information_items [OF this(1) p this(2,3) lt this(4,5), of "userInfoValid v"] rel show ?thesis
      by (cases "info_meaning a' its") (auto simp: User_info aarq_round_def s a)
  next
    case (Other_aarq t x)
    have at: "bytes_at b p (tlv t x)" and e: "p + int (length (tlv t x)) \<le> e" and l: "length x < 65536"
      and t: "t \<notin> {0x8b, 0xac, 0xbe}"
      using assms(1) at e by (simp_all add: Other_aarq)
    from behind_tlv [OF p e lt] rel t show ?thesis
      by (simp add: Other_aarq aarq_round_def read_tl_at [OF l at e] s a)
  qed
qed

lemma aarq_octets_nonempty: "aarq_octets i \<noteq> []"
  by (cases i) (simp_all add: info_octets_def)

interpretation aarq_loop: item_loop "aarq_round n b e" b e aarq_octets "\<lambda>i. aarq_ok i \<and> length (aarq_octets i) \<le> n"
  aarq_eff "aarq_rel auth" "\<lambda>_. False"
  for n :: nat and b :: "byte list" and e :: int and auth :: "authenticator_fun option"
proof unfold_locales
  fix i p s a
  assume i: "aarq_ok i \<and> length (aarq_octets i) \<le> n" "0 \<le> p" "bytes_at b p (aarq_octets i)"
    "p + int (length (aarq_octets i)) \<le> e" "e < 2 ^ 31" "aarq_rel auth s a"
  obtain a' where a': "aarq_eff a i = Some a'" by (cases a; cases i) auto
  with aarq_round_item [of i p b e auth s a n] i show "case aarq_eff a i of
         Some a' \<Rightarrow> \<exists>s'. aarq_round n b e (p, s) = Inr (Continue (p + int (length (aarq_octets i)), s')) \<and> aarq_rel auth s' a'
       | None \<Rightarrow> \<exists>r. aarq_round n b e (p, s) = Inr (Return r) \<and> False"
    by simp
qed (rule aarq_octets_nonempty)

text \<open>The elements of a response.\<close>

datatype aare_item =
    Result byte "byte list"
  | Aare_info "(byte \<times> byte list) list"
  | Other_aare byte "byte list"

fun aare_octets :: "aare_item \<Rightarrow> byte list" where
  "aare_octets (Result t v) = tlv 0xa2 (tlv t v)"
| "aare_octets (Aare_info its) = info_octets its"
| "aare_octets (Other_aare t v) = tlv t v"

fun aare_ok :: "aare_item \<Rightarrow> bool" where
  "aare_ok (Result t v) = (length (tlv t v) < 65536)"
| "aare_ok (Aare_info its) = info_ok its"
| "aare_ok (Other_aare t v) = (t \<notin> {0xa2, 0xbe} \<and> length v < 65536)"

fun aare_eff :: "bool \<times> u32 \<times> acse_view \<Rightarrow> aare_item \<Rightarrow> (bool \<times> u32 \<times> acse_view) option" where
  "aare_eff (ok, res, a) (Result t v) = Some (ok, ber_unsigned v, a)"
| "aare_eff (ok, res, a) (Aare_info its) = Some (fst (info_meaning a its), res, snd (info_meaning a its))"
| "aare_eff (ok, res, a) (Other_aare t v) = Some (ok, res, a)"

fun aare_rel :: "authenticator_fun option \<Rightarrow> bool \<times> u32 \<times> AcseConnection \<Rightarrow> bool \<times> u32 \<times> acse_view \<Rightarrow> bool" where
  "aare_rel auth (ok, res, self) (ok', res', a) \<longleftrightarrow> ok = ok' \<and> res = res' \<and> acse_rel auth self a"

lemma aare_round_item:
  assumes "aare_ok i" and p: "0 \<le> p" and at: "bytes_at b p (aare_octets i)"
    and e: "p + int (length (aare_octets i)) \<le> e" and lt: "e < 2 ^ 31" and rel: "aare_rel auth s a"
    and n: "length (aare_octets i) \<le> n"
  shows "\<exists>s'. aare_round n b e (p, s) = Inr (Continue (p + int (length (aare_octets i)), s')) \<and> aare_rel auth s' (the (aare_eff a i))"
proof -
  obtain ok res self where s: "s = (ok, res, self)" by (cases s)
  obtain ok' res' a' where a: "a = (ok', res', a')" by (cases a)
  show ?thesis
  proof (cases i)
    case (Result t x)
    let ?d = "tlv t x" let ?q = "inside p ?d"
    have at: "bytes_at b p (tlv 0xa2 ?d)" and e: "p + int (length (tlv 0xa2 ?d)) \<le> e" and l: "length ?d < 65536"
      using assms(1) at e by (simp_all add: Result)
    have lx: "length x < 65536" using l by (simp add: tlv_def)
    have at1: "bytes_at b ?q (tlv t x)" using at by (simp add: bytes_at_tlv [of b p])
    have at2: "bytes_at b (inside ?q x) x" using at1 by (simp add: bytes_at_tlv)
    have e1: "?q + int (length ?d) = p + int (length (tlv 0xa2 ?d))" by (rule inside_end)
    then have e1': "?q + int (length ?d) \<le> e" using e by simp
    note behind2 = behind_tlv [OF behind_tlv(2) [OF p e lt] e1' lt]
    from decodeUint32_at [OF at2 refl] rel behind2 decodeLength_tlv [OF lx at1 e1'] show ?thesis
      by (simp add: Result aare_round_def read_tl_at [OF l at e] s a e1 ber_unsigned_def)
  next
    case (Aare_info its)
    have "info_ok its" "bytes_at b p (info_octets its)" "p + int (length (info_octets its)) \<le> e"
      "acse_rel auth self a'" "length (info_octets its) \<le> n"
      using assms(1) at e rel n by (simp_all add: Aare_info s a)
    from user_information_items [OF this(1) p this(2,3) lt this(4,5), of ok] rel show ?thesis
      by (auto simp: Aare_info aare_round_def s a)
  next
    case (Other_aare t x)
    have at: "bytes_at b p (tlv t x)" and e: "p + int (length (tlv t x)) \<le> e" and l: "length x < 65536"
      and t: "t \<notin> {0xa2, 0xbe}"
      using assms(1) at e by (simp_all add: Other_aare)
    from behind_tlv [OF p e lt] rel t show ?thesis
      by (simp add: Other_aare aare_round_def read_tl_at [OF l at e] s a)
  qed
qed

lemma aare_octets_nonempty: "aare_octets i \<noteq> []"
  by (cases i) (simp_all add: info_octets_def)

interpretation aare_loop: item_loop "aare_round n b e" b e aare_octets "\<lambda>i. aare_ok i \<and> length (aare_octets i) \<le> n"
  aare_eff "aare_rel auth" "\<lambda>_. False"
  for n :: nat and b :: "byte list" and e :: int and auth :: "authenticator_fun option"
proof unfold_locales
  fix i p s a
  assume i: "aare_ok i \<and> length (aare_octets i) \<le> n" "0 \<le> p" "bytes_at b p (aare_octets i)"
    "p + int (length (aare_octets i)) \<le> e" "e < 2 ^ 31" "aare_rel auth s a"
  obtain a' where a': "aare_eff a i = Some a'" by (cases a; cases i) auto
  with aare_round_item [of i p b e auth s a n] i show "case aare_eff a i of
         Some a' \<Rightarrow> \<exists>s'. aare_round n b e (p, s) = Inr (Continue (p + int (length (aare_octets i)), s')) \<and> aare_rel auth s' a'
       | None \<Rightarrow> \<exists>r. aare_round n b e (p, s) = Inr (Return r) \<and> False"
    by simp
qed (rule aare_octets_nonempty)


section \<open>Requests and responses\<close>

text \<open>
  The authenticator is handed a pointer and a length. It is expected to look at that many octets
  only; then what it is asked is determined by the octets of the request.
\<close>

definition reads_length_only :: "authenticator_fun \<Rightarrow> bool" where
  "reads_length_only auth \<longleftrightarrow> (\<forall>m q r n. take (nat n) q = take (nat n) r \<longrightarrow>
     auth \<lparr>mechanism = m, octetString = Some q, passwordLength = n\<rparr>
     = auth \<lparr>mechanism = m, octetString = Some r, passwordLength = n\<rparr>)"

definition password_parameter :: "byte list option \<Rightarrow> byte list option \<Rightarrow> AcseAuthenticationParameter" where
  "password_parameter m w =
     (if m = Some auth_mech_password_oid
      then \<lparr>mechanism = ACSE_AUTH_PASSWORD, octetString = w, passwordLength = (case w of None \<Rightarrow> 0 | Some v \<Rightarrow> int (length v))\<rparr>
      else \<lparr>mechanism = ACSE_AUTH_NONE, octetString = None, passwordLength = 0\<rparr>)"

definition accepts :: "authenticator_fun option \<Rightarrow> byte list option \<Rightarrow> byte list option \<Rightarrow> bool" where
  "accepts auth m w = (case auth of None \<Rightarrow> True | Some f \<Rightarrow> fst (f (password_parameter m w)))"

lemma checkAuthentication_meaning:
  assumes "points_to mp mn m" and "points_to wp wn w" and "\<forall>f. authenticator self = Some f \<longrightarrow> reads_length_only f"
  shows "\<exists>self'. checkAuthentication self mp mn wp wn = Inr (self', accepts (authenticator self) m w)
      \<and> (\<forall>auth a. acse_rel auth self a \<longrightarrow> acse_rel auth self' a)"
proof (cases "authenticator self")
  case None
  then show ?thesis by (auto simp: checkAuthentication_def accepts_def acse_rel_def)
next
  case (Some f)
  have mech: "checkAuthMechanismName mp mn
      = Inr (if m = Some auth_mech_password_oid then ACSE_AUTH_PASSWORD else ACSE_AUTH_NONE)"
  proof (cases m)
    case None
    then show ?thesis using assms(1) by (simp add: checkAuthMechanismName_def)
  next
    case (Some v)
    then obtain q where q: "mp = Some q" "mn = int (length v)" "take (length v) q = v" using assms(1) by auto
    have l: "length auth_mech_password_oid = 3" by (simp add: auth_mech_password_oid_def)
    have "rd_n q 0 (length v) = Inr v"
      using rd_n_bytes_at [of q 0 v] bytes_at_self [of v "drop (length v) q"] append_take_drop_id [of "length v" q] q(3)
      by simp
    then show ?thesis using q(1,2) l by (auto simp: checkAuthMechanismName_def Some)
  qed
  have "f \<lparr>mechanism = ACSE_AUTH_PASSWORD, octetString = wp, passwordLength = wn\<rparr>
      = f \<lparr>mechanism = ACSE_AUTH_PASSWORD, octetString = w, passwordLength = (case w of None \<Rightarrow> 0 | Some v \<Rightarrow> int (length v))\<rparr>"
  proof (cases w)
    case None
    then show ?thesis using assms(2) by simp
  next
    case (Some v)
    then obtain q where q: "wp = Some q" "wn = int (length v)" "take (length v) q = v" using assms(2) by auto
    have "reads_length_only f" using assms(3) \<open>authenticator self = Some f\<close> by simp
    with q show ?thesis by (simp add: Some reads_length_only_def)
  qed
  then show ?thesis
    using mech Some
    by (auto simp: checkAuthentication_def accepts_def password_parameter_def authenticateClient_def acse_rel_def
        split: prod.splits)
qed

definition acse_message :: "byte \<Rightarrow> int \<Rightarrow> byte list \<Rightarrow> byte list" where
  "acse_message t announced c = [t] @ len_bytes announced @ c"

text \<open>The announced length of the PDU is decoded but not used: the message ends with the buffer.\<close>

lemma parseMessage_content:
  assumes l: "0 \<le> k" "k < 65536" and m: "holds m (acse_message t k c)" and c: "c \<noteq> []"
  defines "p \<equiv> 1 + len_size k"
  shows "rd (buffer m) 0 = Inr t" "BerDecoder_decodeLength (buffer m) None 1 (bsize m) = Inr (p, Some k)"
    "bytes_at (buffer m) p c" "bsize m = p + int (length c)" "0 \<le> p" "\<not> p < 0"
proof -
  have b: "bytes_at (buffer m) 0 (acse_message t k c)" using m by (rule holds_bytes_at)
  then have b': "rd (buffer m) 0 = Inr t" "bytes_at (buffer m) 1 (len_bytes k)" "bytes_at (buffer m) p c"
    by (simp_all add: acse_message_def bytes_at_append p_def)
  have sz: "bsize m = p + int (length c)" using m by (simp add: holds_def acse_message_def p_def)
  show "rd (buffer m) 0 = Inr t" "bytes_at (buffer m) p c" "bsize m = p + int (length c)" using b' sz by simp_all
  show "BerDecoder_decodeLength (buffer m) None 1 (bsize m) = Inr (p, Some k)"
    using decodeLength_at [OF l b'(2), of "bsize m" None] sz by (simp add: p_def)
  show "0 \<le> p" "\<not> p < 0" using len_size_pos(1) [of k] unfolding p_def by linarith+
qed

lemma parse_request_items:
  assumes ok: "list_all aarq_ok its" and k: "0 \<le> k" "k < 65536" and l: "length (concat (map aarq_octets its)) < 65536"
    and ne: "its \<noteq> []" and m: "holds m (acse_message 0x60 k (concat (map aarq_octets its)))"
    and n: "length (concat (map aarq_octets its)) \<le> n" and rel: "acse_rel auth self a"
    and auth: "\<forall>f. auth = Some f \<longrightarrow> reads_length_only f"
  defines "r \<equiv> the (opt_fold aarq_eff (None, None, False, a) its)"
  shows "\<exists>self'. AcseConnection_parseMessage n self m
      = Inr (self', if accepts auth (fst r) (fst (snd r)) \<and> fst (snd (snd r)) then ACSE_ASSOCIATE else ACSE_ASSOCIATE_FAILED)
    \<and> acse_rel auth self' (snd (snd (snd r)))"
proof -
  let ?c = "concat (map aarq_octets its)" and ?b = "buffer m" and ?e = "bsize m" and ?p = "1 + len_size k"
  let ?v = "\<lparr>authMechanism = None, authMechLen = 0, authValue = None, authValueLen = 0, userInfoValid = False\<rparr>"
  have "?c \<noteq> []" using ne aarq_octets_nonempty by (cases its) auto
  note msg = parseMessage_content [OF k m this]
  have "int (length ?c) < 65536" using l by simp
  then have "?e < 2147483648" using len_size_pos(2) [of k] unfolding msg(4) by linarith
  then have lt: "?e < 2 ^ 31" by simp
  have rounds: "length its \<le> n"
    using length_concat_ge [of its aarq_octets, OF aarq_octets_nonempty] n by simp
  have tot: "opt_fold aarq_eff s its \<noteq> None" for s
  proof (induction its arbitrary: s)
    case (Cons i "is")
    obtain s' where "aarq_eff s i = Some s'" by (cases s; cases i) auto
    then show ?case by (simp add: Cons.IH del: not_None_eq)
  qed simp
  then obtain mm w vv a' where f: "opt_fold aarq_eff (None, None, False, a) its = Some (mm, w, vv, a')"
    by (metis not_None_eq surj_pair)
  have "aarq_rel auth (?v, self) (None, None, False, a)" using rel by simp
  from aarq_loop.loop_items [OF items_within [OF n ok] msg(5,3,4) lt this rounds, unfolded f]
  obtain v self1 where loop: "c_while n (\<lambda>(bufPos, _). bufPos < ?e) (aarq_round n ?b ?e) (?p, ?v, self) = Inr (Continue (?e, v, self1))"
    and r1: "aarq_rel auth (v, self1) (mm, w, vv, a')" by auto
  have au: "authenticator self1 = auth" using r1 by (simp add: acse_rel_def)
  from checkAuthentication_meaning [of "authMechanism v" "authMechLen v" mm "authValue v" "authValueLen v" w self1] r1 auth au
  obtain self2 where chk: "checkAuthentication self1 (authMechanism v) (authMechLen v) (authValue v) (authValueLen v)
      = Inr (self2, accepts auth mm w)" and r2: "acse_rel auth self2 a'" by auto
  have "AcseConnection_parseMessage n self m = parseAarqPdu n self ?b ?p ?e"
    using msg(6) by (simp add: AcseConnection_parseMessage_def Let_def msg(1,2))
  also have "\<dots> = Inr (self2, if \<not> accepts auth mm w then ACSE_ASSOCIATE_FAILED
                            else if \<not> userInfoValid v then ACSE_ASSOCIATE_FAILED else ACSE_ASSOCIATE)"
    by (simp add: parseAarqPdu_def loop chk)
  finally show ?thesis using r1 r2 by (auto simp: r_def f)
qed

lemma parse_response_items:
  assumes ok: "list_all aare_ok its" and k: "0 \<le> k" "k < 65536" and l: "length (concat (map aare_octets its)) < 65536"
    and ne: "its \<noteq> []" and m: "holds m (acse_message 0x61 k (concat (map aare_octets its)))"
    and n: "length (concat (map aare_octets its)) \<le> n" and rel: "acse_rel auth self a"
  defines "r \<equiv> the (opt_fold aare_eff (False, 99, a) its)"
  shows "\<exists>self'. AcseConnection_parseMessage n self m
      = Inr (self', if \<not> fst r then ACSE_ERROR else if fst (snd r) \<noteq> 0 then ACSE_ASSOCIATE_FAILED else ACSE_ASSOCIATE)
    \<and> acse_rel auth self' (snd (snd r))"
proof -
  let ?c = "concat (map aare_octets its)" and ?b = "buffer m" and ?e = "bsize m" and ?p = "1 + len_size k"
  have "?c \<noteq> []" using ne aare_octets_nonempty by (cases its) auto
  note msg = parseMessage_content [OF k m this]
  have "int (length ?c) < 65536" using l by simp
  then have "?e < 2147483648" using len_size_pos(2) [of k] unfolding msg(4) by linarith
  then have lt: "?e < 2 ^ 31" by simp
  have rounds: "length its \<le> n"
    using length_concat_ge [of its aare_octets, OF aare_octets_nonempty] n by simp
  have tot: "opt_fold aare_eff s its \<noteq> None" for s
  proof (induction its arbitrary: s)
    case (Cons i "is")
    obtain s' where "aare_eff s i = Some s'" by (cases s; cases i) auto
    then show ?case by (simp add: Cons.IH del: not_None_eq)
  qed simp
  then obtain ok' res a' where f: "opt_fold aare_eff (False, 99, a) its = Some (ok', res, a')"
    by (metis not_None_eq surj_pair)
  have "aare_rel auth (False, 99, self) (False, 99, a)" using rel by simp
  from aare_loop.loop_items [OF items_within [OF n ok] msg(5,3,4) lt this rounds, unfolded f]
  obtain self1 where loop: "c_while n (\<lambda>(bufPos, _). bufPos < ?e) (aare_round n ?b ?e) (?p, False, 99, self)
      = Inr (Continue (?e, ok', res, self1))" and r1: "acse_rel auth self1 a'" by auto
  have "AcseConnection_parseMessage n self m = parseAarePdu n self ?b ?p ?e"
    using msg(6) by (simp add: AcseConnection_parseMessage_def Let_def msg(1,2))
  also have "\<dots> = Inr (self1, if \<not> ok' then ACSE_ERROR else if res \<noteq> 0 then ACSE_ASSOCIATE_FAILED else ACSE_ASSOCIATE)"
    by (simp add: parseAarePdu_def loop)
  finally show ?thesis using r1 by (simp add: r_def f)
qed

end
