(* ===== verification/Acse_Messages.thy ===== *)
theory Acse_Messages
  imports Acse_Correct
begin

text \<open>
  The messages of the association control: what the encoders of theory \<open>Acse\<close> write, what the other side
  reads, and what the authenticator of a server decides.
\<close>

unbundle bit_operations_syntax

section \<open>What the encoders write\<close>

definition info_items :: "byte list \<Rightarrow> byte list \<Rightarrow> (byte \<times> byte list) list" where
  "info_items x pl = [(0x02, x), (0xa0, pl)]"

lemma info_items_meaning:
  "info_meaning a (info_items x pl) = (True, a\<lparr>a_ref := uint (ber_unsigned x), a_data := Some pl\<rparr>)"
  by (simp add: info_meaning_def info_items_def)

lemma info_element:
  assumes "length x \<le> 5" and "length pl \<le> 64000"
  defines "d \<equiv> int (length pl) + 1 + len_size (int (length pl)) + int (length x) + 2"
  defines "u \<equiv> d + len_size d + 1"
  shows "info_octets (info_items x pl) = [0xbe] @ len_bytes u @ [0x28] @ len_bytes d @ [0x02, of_nat (length x)] @ x
           @ [0xa0] @ len_bytes (int (length pl)) @ pl"
    and "int (length (info_octets (info_items x pl))) = 1 + len_size u + u"
    and "0 \<le> d" "d < 65536" "0 \<le> u" "u < 65536" "1 + len_size u + u \<le> int (length pl) + 24"
    and "info_ok (info_items x pl)"
proof -
  let ?c = "concat (map tlv_octets (info_items x pl))"
  have s: "len_size n \<le> 3" "0 < len_size n" for n by simp_all
  have x: "len_bytes (int (length x)) = [of_nat (length x)]" "len_size (int (length x)) = 1"
    using assms(1) by (simp_all add: len_bytes_small len_size_def)
  have cs: "int (length ?c) = d"
    by (simp add: info_items_def length_tlv tlv_size_def x d_def)
  have us: "int (length (tlv 0x28 ?c)) = u" unfolding length_tlv tlv_size_def cs by (simp add: u_def)
  show "info_octets (info_items x pl) = [0xbe] @ len_bytes u @ [0x28] @ len_bytes d @ [0x02, of_nat (length x)] @ x
           @ [0xa0] @ len_bytes (int (length pl)) @ pl"
    unfolding info_octets_def tlv_def [of "0xbe"] us unfolding tlv_def [of "0x28"] cs
    by (simp add: info_items_def tlv_def x)
  show "int (length (info_octets (info_items x pl))) = 1 + len_size u + u"
    unfolding info_octets_def length_tlv [of "0xbe"] tlv_size_def us ..
  have "int (length pl) \<le> 64000" "int (length x) \<le> 5" using assms(1,2) by simp_all
  then show b: "0 \<le> d" "d < 65536" "0 \<le> u" "u < 65536" "1 + len_size u + u \<le> int (length pl) + 24"
    unfolding u_def d_def using s [of "int (length pl)"] s [of d] s [of u] unfolding u_def d_def by linarith+
  have "length (tlv 0x28 ?c) < 65536" using us b(4) by simp
  then show "info_ok (info_items x pl)" using assms(1,2) by (simp add: info_ok_def info_items_def)
qed

definition response_items :: "AcseConnection \<Rightarrow> byte \<Rightarrow> byte list \<Rightarrow> aare_item list" where
  "response_items self res pl =
     [Other_aare 0xa1 (tlv 0x06 appContextNameMms), Result 0x02 [res], Other_aare 0xa3 (tlv 0xa1 (tlv 0x02 [0])),
      Aare_info (info_items (uint32_octets (word_of_int (nextReference self))) pl)]"

lemma response_octets:
  fixes self :: AcseConnection and res :: byte
  assumes "chain_ok payld" and "length (chain_bytes payld) \<le> 64000" and "64 \<le> length (chain_buffer c)"
  defines "content \<equiv> concat (map aare_octets (response_items self res (chain_bytes payld)))"
  shows "\<exists>c'. AcseConnection_createAssociateResponseMessage self res c (Some payld) = Inr c' \<and> chain_ok c'
      \<and> chain_bytes c' = acse_message 0x61 (int (length content)) content"
    and "length content \<le> length (chain_bytes payld) + 50"
proof -
  let ?pl = "chain_bytes payld" and ?x = "uint32_octets (word_of_int (nextReference self))"
  define L where "L = int (length ?pl)"
  define X where "X = int (length ?x)"
  define d where "d = L + 1 + len_size L + X + 2"
  define u where "u = d + len_size d + 1"
  have x5: "length ?x \<le> 5" using uint32_octets_length by simp
  note el = info_element [OF x5 assms(2), folded L_def X_def, folded d_def, folded u_def]
  have l: "chain_length payld = L" using chain_length_bytes [OF assms(1)] by (simp add: L_def)
  have bL: "0 \<le> L" "L < 65536" "0 \<le> X" "X < 128" using assms(2) x5 by (simp_all add: L_def X_def)
  have bX: "0 \<le> X" "X < 65536" using bL by simp_all
  let ?fix = "[0xa1, 7, 0x06, 5] @ appContextNameMms @ [0xa2, 3, 0x02, 1, res, 0xa3, 5, 0xa1, 3, 0x02, 1, 0]"
  have fx: "length ?fix = 21" by (simp add: appContextNameMms_def)
  have content: "content = ?fix @ info_octets (info_items ?x ?pl)"
    unfolding content_def response_items_def
    by (simp add: tlv_def appContextNameMms_def len_bytes_small)
  have clen: "int (length content) = 21 + (1 + len_size u + u)"
    unfolding content length_append using fx el(2) by simp
  show short: "length content \<le> length ?pl + 50"
    using clen el(7) by (simp add: L_def)
  have b: "0 \<le> int (length content)" "int (length content) < 65536" using short assms(2) by simp_all
  have sizes: "BerEncoder_UInt32determineEncodedSize (word_of_int (nextReference self)) = X"
    "BerEncoder_determineLengthSize (word_of_int L) = len_size L"
    "BerEncoder_determineLengthSize (word_of_int d) = len_size d"
    "BerEncoder_determineLengthSize (word_of_int u) = len_size u"
    using determineLengthSize_eq [OF bL(1,2)] determineLengthSize_eq [OF el(3,4)] determineLengthSize_eq [OF el(5,6)]
    by (simp_all add: BerEncoder_UInt32determineEncodedSize_def X_def)
  have cl: "9 + 5 + 5 + (u + len_size u + 1 + 2) = int (length content)" using clen by simp
  have dd: "L + 1 + len_size L + X + 2 = d" and uu: "d + len_size d + 1 = u" by (simp_all add: d_def u_def)
  let ?hdr = "[0x61] @ len_bytes (int (length content)) @ ?fix @ [0xbe] @ len_bytes u @ [0x28] @ len_bytes d
      @ [0x02, of_nat (length ?x)] @ ?x @ [0xa0] @ len_bytes L"
  have xs: "len_bytes X = [of_nat (length ?x)]" using bL(4) by (simp add: X_def len_bytes_small)
  have "AcseConnection_createAssociateResponseMessage self res c (Some payld) = put_part c ?hdr payld"
    unfolding AcseConnection_createAssociateResponseMessage_def option.case Let_def l sizes dd uu sizes cl
      BerEncoder_encodeUInt32_def
    by (simp add: encodeTL_bytes [OF bL(1,2)] encodeTL_bytes [OF bX] encodeTL_bytes [OF el(3,4)]
        encodeTL_bytes [OF el(5,6)] encodeTL_bytes [OF b] encodeTL_bytes len_bytes_small xs)
  moreover have "?hdr @ ?pl = acse_message 0x61 (int (length content)) content"
    unfolding acse_message_def content el(1) by (simp add: L_def)
  moreover have "length ?hdr \<le> length (chain_buffer c)"
  proof -
    have "length ?hdr + length ?pl = 1 + nat (len_size (int (length content))) + length content"
      using arg_cong [OF calculation(2), of length] by (simp add: acse_message_def flip: length_len_bytes)
    then show ?thesis using short assms(3) len_size_pos(2) [of "int (length content)"] by linarith
  qed
  ultimately show "\<exists>c'. AcseConnection_createAssociateResponseMessage self res c (Some payld) = Inr c' \<and> chain_ok c'
      \<and> chain_bytes c' = acse_message 0x61 (int (length content)) content"
    using put_part_ok [OF _ assms(1), of ?hdr c] by simp
qed

definition title_items :: "byte \<Rightarrow> byte \<Rightarrow> byte list \<Rightarrow> int \<Rightarrow> int \<Rightarrow> aarq_item list" where
  "title_items tt qt title titleLen q =
     (if titleLen > 0
      then [Other_aarq tt (tlv 0x06 (take (nat titleLen) title)), Other_aarq qt (tlv 0x02 (uint32_octets (word_of_int q)))]
      else [])"

lemma encodeTL_small: "n < 128 \<Longrightarrow> BerEncoder_encodeTL t (int n) out = out @ [t, of_nat n]"
  using encodeTL_bytes [of "int n" t out] by (simp add: len_bytes_small)

lemma encodeTL_plus2: "n + 2 < 128 \<Longrightarrow> BerEncoder_encodeTL t (int n + 2) out = out @ [t, of_nat (n + 2)]"
  using encodeTL_small [of "n + 2" t out] by (simp add: add.commute)

lemma title_encoding:
  assumes "titleLen \<le> 10" and "length title = 10"
  shows "encode_ap_title tt qt title titleLen q buf = Inr (buf @ concat (map aarq_octets (title_items tt qt title titleLen q)))"
    and "ap_title_length titleLen q = int (length (concat (map aarq_octets (title_items tt qt title titleLen q))))"
    and "length (concat (map aarq_octets (title_items tt qt title titleLen q))) \<le> 23"
    and "tt \<notin> {0x8b, 0xac, 0xbe} \<Longrightarrow> qt \<notin> {0x8b, 0xac, 0xbe} \<Longrightarrow> list_all aarq_ok (title_items tt qt title titleLen q)"
proof -
  let ?q = "uint32_octets (word_of_int q)"
  let ?items = "title_items tt qt title titleLen q"
  have q: "length ?q \<le> 5" using uint32_octets_length by simp
  have *: "encode_ap_title tt qt title titleLen q buf = Inr (buf @ concat (map aarq_octets ?items))
    \<and> ap_title_length titleLen q = int (length (concat (map aarq_octets ?items)))
    \<and> length (concat (map aarq_octets ?items)) \<le> 23
    \<and> (tt \<notin> {0x8b, 0xac, 0xbe} \<longrightarrow> qt \<notin> {0x8b, 0xac, 0xbe} \<longrightarrow> list_all aarq_ok ?items)"
  proof (cases "titleLen > 0")
    case True
    then obtain n where n: "titleLen = int n" "0 < n" "n \<le> 10" using assms(1) by (cases titleLen) auto
    have t: "rd_n title 0 n = Inr (take n title)"
      using rd_n_bytes_at [of title 0 "take n title"] bytes_at_self [of "take n title" "drop n title"] n(3) assms(2) by simp
    have l: "length (take n title) = n" using n assms(2) by simp
    have oct: "concat (map aarq_octets ?items) = [tt, of_nat (n + 2), 0x06, of_nat n] @ take n title
        @ [qt, of_nat (length ?q + 2), 0x02, of_nat (length ?q)] @ ?q"
      using n q l True by (simp add: title_items_def small_tlv)
    have enc: "encode_ap_title tt qt title titleLen q buf = Inr (buf @ concat (map aarq_octets ?items))"
      unfolding oct using True n q t encodeTL_plus2 [of n] encodeTL_small [of n]
        encodeTL_plus2 [of "length ?q"] encodeTL_small [of "length ?q"]
      by (simp add: encode_ap_title_def Let_def BerEncoder_UInt32determineEncodedSize_def BerEncoder_encodeUInt32_def)
    have "ap_title_length titleLen q = int (length (concat (map aarq_octets ?items)))"
      unfolding oct using n l True by (simp add: ap_title_length_def BerEncoder_UInt32determineEncodedSize_def)
    moreover have "length (concat (map aarq_octets ?items)) \<le> 23" unfolding oct using l n q by simp
    ultimately show ?thesis using enc n q l True by (simp add: title_items_def small_tlv)
  qed (simp add: encode_ap_title_def ap_title_length_def title_items_def)
  then show "encode_ap_title tt qt title titleLen q buf = Inr (buf @ concat (map aarq_octets ?items))"
    "ap_title_length titleLen q = int (length (concat (map aarq_octets ?items)))"
    "length (concat (map aarq_octets ?items)) \<le> 23"
    "tt \<notin> {0x8b, 0xac, 0xbe} \<Longrightarrow> qt \<notin> {0x8b, 0xac, 0xbe} \<Longrightarrow> list_all aarq_ok ?items" by blast+
qed

text \<open>The password that is sent, and the elements of the authentication part.\<close>

definition auth_ok :: "AcseAuthenticationParameter option \<Rightarrow> bool" where
  "auth_ok ap \<longleftrightarrow> (\<forall>a. ap = Some a \<longrightarrow> mechanism a = ACSE_AUTH_PASSWORD \<longrightarrow>
     (\<exists>p. octetString a = Some p \<and> 0 \<le> passwordLength a \<and> passwordLength a \<le> int (length p) \<and> passwordLength a \<le> 1000))"

definition sent_password :: "AcseAuthenticationParameter \<Rightarrow> byte list" where
  "sent_password a = take (nat (passwordLength a)) (the (octetString a))"

definition auth_items :: "AcseAuthenticationParameter option \<Rightarrow> aarq_item list" where
  "auth_items ap = (case ap of None \<Rightarrow> []
     | Some a \<Rightarrow> if mechanism a = ACSE_AUTH_PASSWORD
         then [Other_aarq 0x8a [4, 0x80], Mechanism auth_mech_password_oid, Auth_value 0x80 (sent_password a)]
         else [Other_aarq 0x8a [4, 0]])"

text \<open>Without a password the length that is announced counts a mechanism and a value that are not sent.\<close>

definition not_sent :: "AcseAuthenticationParameter option \<Rightarrow> int" where
  "not_sent ap = (case ap of Some a \<Rightarrow> if mechanism a = ACSE_AUTH_PASSWORD then 0 else 7 | None \<Rightarrow> 0)"

lemma auth_encoding:
  assumes "auth_ok ap"
  shows "encode_auth ap buf = Inr (buf @ concat (map aarq_octets (auth_items ap)))"
    and "auth_length ap = int (length (concat (map aarq_octets (auth_items ap)))) + not_sent ap"
    and "length (concat (map aarq_octets (auth_items ap))) \<le> 1020"
    and "list_all aarq_ok (auth_items ap)"
proof -
  have *: "encode_auth ap buf = Inr (buf @ concat (map aarq_octets (auth_items ap)))
    \<and> auth_length ap = int (length (concat (map aarq_octets (auth_items ap)))) + not_sent ap
    \<and> length (concat (map aarq_octets (auth_items ap))) \<le> 1020 \<and> list_all aarq_ok (auth_items ap)"
  proof (cases ap)
    case None
    then show ?thesis by (simp add: encode_auth_def auth_length_def auth_items_def not_sent_def)
  next
    case (Some a)
    have e2: "BerEncoder_encodeTL 0x8a 2 buf = buf @ [0x8a, 2]" using encodeTL_small [of 2 "0x8a" buf] by simp
    show ?thesis
    proof (cases "mechanism a = ACSE_AUTH_PASSWORD")
      case True
      with assms obtain p where p: "octetString a = Some p" "0 \<le> passwordLength a" "passwordLength a \<le> int (length p)"
        "passwordLength a \<le> 1000" by (auto simp: auth_ok_def Some)
      define pw where "pw = sent_password a"
      have lp: "int (length pw) = passwordLength a" using p by (simp add: pw_def sent_password_def)
      have n: "length pw = nat (passwordLength a)" using lp by simp
      have r: "rd_n p 0 (nat (passwordLength a)) = Inr pw"
        using rd_n_bytes_at [of p 0 pw] bytes_at_self [of pw "drop (nat (passwordLength a)) p"] p
        by (simp add: pw_def sent_password_def)
      let ?l = "passwordLength a"
      have b: "0 \<le> ?l" "?l < 65536" "0 \<le> len_size ?l + ?l + 1" "len_size ?l + ?l + 1 < 65536"
        using p(2,4) len_size_pos [of ?l] by linarith+
      have ds: "BerEncoder_determineLengthSize (word_of_int ?l) = len_size ?l"
        "BerEncoder_determineLengthSize (word_of_int (?l + len_size ?l + 1)) = len_size (len_size ?l + ?l + 1)"
        using determineLengthSize_eq [OF b(1,2)] determineLengthSize_eq [OF b(3,4)] by (simp_all add: add.commute add.left_commute)
      have t: "int (length (tlv 0x80 pw)) = len_size ?l + ?l + 1" by (simp add: length_tlv tlv_size_def lp)
      have oct: "concat (map aarq_octets (auth_items ap)) = [0x8a, 2, 4, 0x80, 0x8b, 3] @ auth_mech_password_oid
          @ [0xac] @ len_bytes (len_size ?l + ?l + 1) @ [0x80] @ len_bytes ?l @ pw"
      proof -
        have "tlv 0xac (tlv 0x80 pw) = [0xac] @ len_bytes (len_size ?l + ?l + 1) @ [0x80] @ len_bytes ?l @ pw"
          unfolding tlv_def [of "0xac"] t by (simp add: tlv_def lp)
        then show ?thesis
          using True by (simp add: auth_items_def Some pw_def [symmetric] small_tlv auth_mech_password_oid_def)
      qed
      have e3: "BerEncoder_encodeTL 0x8b 3 out = out @ [0x8b, 3]" for out using encodeTL_small [of 3 "0x8b" out] by simp
      have enc: "encode_auth ap buf = Inr (buf @ concat (map aarq_octets (auth_items ap)))"
        unfolding oct
        by (simp add: encode_auth_def Some Let_def e2 True e3 lp ds p(2) leD encodeTL_bytes [OF b(1,2)]
            encodeTL_bytes [OF b(3,4)] p(1) r)
      have len: "auth_length ap = int (length (concat (map aarq_octets (auth_items ap)))) + not_sent ap"
        unfolding oct using True
        by (simp add: auth_length_def Some not_sent_def Let_def lp ds ds(2) [simplified] auth_mech_password_oid_def)
      have "int (length (concat (map aarq_octets (auth_items ap)))) = 11 + len_size (len_size ?l + ?l + 1) + len_size ?l + ?l"
        unfolding oct by (simp add: auth_mech_password_oid_def lp)
      then have "length (concat (map aarq_octets (auth_items ap))) \<le> 1020"
        using p(4) len_size_pos(2) [of ?l] len_size_pos(2) [of "len_size ?l + ?l + 1"] by linarith
      moreover have "length (tlv 0x80 pw) < 65536" using t b(4) by simp
      then have "list_all aarq_ok (auth_items ap)"
        using True by (simp add: auth_items_def Some pw_def [symmetric] auth_mech_password_oid_def)
      ultimately show ?thesis using enc len by simp
    next
      case False
      then show ?thesis
        by (simp add: encode_auth_def auth_length_def auth_items_def not_sent_def Some e2 Let_def small_tlv)
    qed
  qed
  then show "encode_auth ap buf = Inr (buf @ concat (map aarq_octets (auth_items ap)))"
    "auth_length ap = int (length (concat (map aarq_octets (auth_items ap)))) + not_sent ap"
    "length (concat (map aarq_octets (auth_items ap))) \<le> 1020" "list_all aarq_ok (auth_items ap)" by blast+
qed

definition request_items ::
    "IsoConnectionParameters \<Rightarrow> AcseAuthenticationParameter option \<Rightarrow> byte list \<Rightarrow> aarq_item list" where
  "request_items ps ap pl =
     [Other_aarq 0xa1 (tlv 0x06 appContextNameMms)]
     @ title_items 0xa2 0xa3 (remoteApTitle ps) (remoteApTitleLen ps) (remoteAEQualifier ps)
     @ title_items 0xa6 0xa7 (localApTitle ps) (localApTitleLen ps) (localAEQualifier ps)
     @ auth_items ap @ [User_info (info_items [3] pl)]"

definition titles_ok :: "IsoConnectionParameters \<Rightarrow> bool" where
  "titles_ok ps \<longleftrightarrow> remoteApTitleLen ps \<le> 10 \<and> length (remoteApTitle ps) = 10
     \<and> localApTitleLen ps \<le> 10 \<and> length (localApTitle ps) = 10"

lemma request_octets:
  fixes ps :: IsoConnectionParameters and ap :: "AcseAuthenticationParameter option"
  assumes "titles_ok ps" and "auth_ok ap" and "chain_ok payld" and "length (chain_bytes payld) \<le> 60000"
    and "1200 \<le> length (chain_buffer c)"
  defines "content \<equiv> concat (map aarq_octets (request_items ps ap (chain_bytes payld)))"
  shows "\<exists>c'. AcseConnection_createAssociateRequestMessage self ps c payld ap = Inr c' \<and> chain_ok c'
      \<and> chain_bytes c' = acse_message 0x60 (int (length content) + not_sent ap) content"
    and "length content \<le> length (chain_bytes payld) + 1100"
    and "list_all aarq_ok (request_items ps ap (chain_bytes payld))"
proof -
  let ?pl = "chain_bytes payld"
  define L where "L = int (length ?pl)"
  define d where "d = L + 1 + len_size L + 1 + 2"
  define u where "u = d + len_size d + 1"
  have x: "length [3 :: byte] \<le> 5" "length ?pl \<le> 64000" using assms(4) by simp_all
  have one: "int (length [3 :: byte]) = 1" by simp
  note el = info_element [OF x, unfolded one, folded L_def, folded d_def, folded u_def]
  have l: "chain_length payld = L" using chain_length_bytes [OF assms(3)] by (simp add: L_def)
  have bL: "0 \<le> L" "L < 65536" using assms(4) by (simp_all add: L_def)
  note rt = title_encoding [where titleLen = "remoteApTitleLen ps" and title = "remoteApTitle ps" and tt = "0xa2" and qt = "0xa3"
      and q = "remoteAEQualifier ps"]
  note lt = title_encoding [where titleLen = "localApTitleLen ps" and title = "localApTitle ps" and tt = "0xa6" and qt = "0xa7"
      and q = "localAEQualifier ps"]
  note au = auth_encoding [OF assms(2)]
  have tok: "remoteApTitleLen ps \<le> 10" "length (remoteApTitle ps) = 10"
    "localApTitleLen ps \<le> 10" "length (localApTitle ps) = 10" using assms(1) by (simp_all add: titles_ok_def)
  define R where "R = concat (map aarq_octets (title_items 0xa2 0xa3 (remoteApTitle ps) (remoteApTitleLen ps) (remoteAEQualifier ps)))"
  define T where "T = concat (map aarq_octets (title_items 0xa6 0xa7 (localApTitle ps) (localApTitleLen ps) (localAEQualifier ps)))"
  define A where "A = concat (map aarq_octets (auth_items ap))"
  let ?app = "[0xa1, 7, 0x06, 5] @ appContextNameMms"
  have content: "content = ?app @ R @ T @ A @ info_octets (info_items [3] ?pl)"
    by (simp add: content_def request_items_def R_def T_def A_def small_tlv appContextNameMms_def)
  have app: "length ?app = 9" by (simp add: appContextNameMms_def)
  have lens: "length R \<le> 23" "length T \<le> 23" "length A \<le> 1020"
    using rt(3) lt(3) au(3) tok by (simp_all add: R_def T_def A_def)
  have clen: "int (length content) = 9 + int (length R) + int (length T) + int (length A) + (1 + len_size u + u)"
    unfolding content length_append using app el(2) by simp
  show short: "length content \<le> length ?pl + 1100" using clen el(7) lens by (simp add: L_def)
  show "list_all aarq_ok (request_items ps ap ?pl)"
    using rt(4) lt(4) au(4) tok el(8) by (simp add: request_items_def small_tlv appContextNameMms_def)
  have ns: "0 \<le> not_sent ap" "not_sent ap \<le> 7" by (simp_all add: not_sent_def split: option.splits)
  let ?k = "int (length content) + not_sent ap"
  have b: "0 \<le> ?k" "?k < 65536" using short assms(4) ns by linarith+
  have sizes: "BerEncoder_determineLengthSize (word_of_int L) = len_size L"
    "BerEncoder_determineLengthSize (word_of_int d) = len_size d"
    "BerEncoder_determineLengthSize (word_of_int u) = len_size u"
    using determineLengthSize_eq [OF bL] determineLengthSize_eq [OF el(3,4)] determineLengthSize_eq [OF el(5,6)] by simp_all
  have dd: "L + 1 + len_size L + 1 + 2 = d" and uu: "d + len_size d + 1 = u" by (simp_all add: d_def u_def)
  have kk: "9 + int (length R) + int (length T) + (int (length A) + not_sent ap) + (u + len_size u + 1) = ?k"
    using clen by simp
  let ?front = "[0x60] @ len_bytes ?k @ ?app"
  let ?hdr = "?front @ R @ T @ A @ [0xbe] @ len_bytes u @ [0x28] @ len_bytes d @ [0x02, 1, 3, 0xa0] @ len_bytes L"
  have head_enc: "BerEncoder_encodeTL 0x06 5 (BerEncoder_encodeTL 0xa1 7 (BerEncoder_encodeTL 0x60 ?k [])) @ appContextNameMms = ?front"
    using encodeTL_small [of 5 6] encodeTL_small [of 7 "0xa1"] by (simp add: encodeTL_bytes [OF b])
  have tail_enc: "BerEncoder_encodeTL 0xa0 L (BerEncoder_encodeTL 0x02 1 (BerEncoder_encodeTL 0x28 d (BerEncoder_encodeTL 0xbe u buf)) @ [3])
      = buf @ [0xbe] @ len_bytes u @ [0x28] @ len_bytes d @ [0x02, 1, 3, 0xa0] @ len_bytes L" for buf
    using encodeTL_small [of 1 2] by (simp add: encodeTL_bytes [OF bL] encodeTL_bytes [OF el(3,4)] encodeTL_bytes [OF el(5,6)])
  have "AcseConnection_createAssociateRequestMessage self ps c payld ap = put_part c ?hdr payld"
    unfolding AcseConnection_createAssociateRequestMessage_def Let_def l sizes dd uu sizes
      rt(2) [OF tok(1,2)] lt(2) [OF tok(3,4)] au(2) R_def [symmetric] T_def [symmetric] A_def [symmetric] kk head_enc
    by (simp only: rt(1) [OF tok(1,2)] lt(1) [OF tok(3,4)] au(1) rbind.simps R_def [symmetric] T_def [symmetric]
        A_def [symmetric] tail_enc append_assoc)
  moreover have "?hdr @ ?pl = acse_message 0x60 ?k content"
    unfolding acse_message_def content el(1) by (simp add: L_def)
  moreover have "length ?hdr \<le> length (chain_buffer c)"
  proof -
    have "length ?hdr + length ?pl = 1 + nat (len_size ?k) + length content"
      using arg_cong [OF calculation(2), of length] by (simp add: acse_message_def flip: length_len_bytes)
    then show ?thesis using short assms(5) len_size_pos(2) [of ?k] by linarith
  qed
  ultimately show "\<exists>c'. AcseConnection_createAssociateRequestMessage self ps c payld ap = Inr c' \<and> chain_ok c'
      \<and> chain_bytes c' = acse_message 0x60 ?k content"
    using put_part_ok [OF _ assms(3), of ?hdr c] by simp
qed


section \<open>Properties\<close>

lemma opt_fold_others:
  "list_all (\<lambda>i. \<forall>s. aarq_eff s i = Some s) is \<Longrightarrow> opt_fold aarq_eff s (is @ js) = opt_fold aarq_eff s js"
  by (induction "is" arbitrary: s) auto

lemma title_items_skipped: "list_all (\<lambda>i. \<forall>s. aarq_eff s i = Some s) (title_items tt qt t n q)"
  by (auto simp: title_items_def)

definition offered_mechanism :: "AcseAuthenticationParameter option \<Rightarrow> byte list option" where
  "offered_mechanism ap =
     (case ap of Some a \<Rightarrow> if mechanism a = ACSE_AUTH_PASSWORD then Some auth_mech_password_oid else None | None \<Rightarrow> None)"

definition offered_value :: "AcseAuthenticationParameter option \<Rightarrow> byte list option" where
  "offered_value ap =
     (case ap of Some a \<Rightarrow> if mechanism a = ACSE_AUTH_PASSWORD then Some (sent_password a) else None | None \<Rightarrow> None)"

lemma request_meaning:
  "opt_fold aarq_eff (None, None, False, a) (request_items ps ap pl)
   = Some (offered_mechanism ap, offered_value ap, True, a\<lparr>a_ref := 3, a_data := Some pl\<rparr>)"
proof -
  have "aarq_eff s (Other_aarq t v) = Some s" for s t v by (cases s) simp
  moreover have "opt_fold aarq_eff (None, None, False, a) (auth_items ap @ [User_info (info_items [3] pl)])
      = Some (offered_mechanism ap, offered_value ap, True, a\<lparr>a_ref := 3, a_data := Some pl\<rparr>)"
    by (auto simp: auth_items_def offered_mechanism_def offered_value_def info_items_meaning ber_unsigned_def split: option.splits)
  ultimately show ?thesis
    unfolding request_items_def by (simp add: opt_fold_others [OF title_items_skipped])
qed

text \<open>
  An association request arrives as it was sent: the server reads the payload and the reference, and its
  authenticator is asked about the password of the client, if one is offered; the association is
  indicated exactly when the authenticator accepts (without an authenticator always).
\<close>

theorem associate_request_roundtrip:
  assumes "titles_ok ps" and "auth_ok ap" and "chain_ok payld" and "length (chain_bytes payld) \<le> 60000"
    and "1200 \<le> length (chain_buffer c)" and "length (chain_bytes payld) + 1100 \<le> n"
    and "\<forall>f. authenticator r = Some f \<longrightarrow> reads_length_only f"
  shows "\<exists>c'. AcseConnection_createAssociateRequestMessage self ps c payld ap = Inr c' \<and> chain_ok c'
    \<and> (\<forall>m. holds m (chain_bytes c') \<longrightarrow>
         (\<exists>r'. AcseConnection_parseMessage n r m
              = Inr (r', if accepts (authenticator r) (offered_mechanism ap) (offered_value ap)
                         then ACSE_ASSOCIATE else ACSE_ASSOCIATE_FAILED)
            \<and> nextReference r' = 3
            \<and> points_to (userDataBuffer r') (userDataBufferSize r') (Some (chain_bytes payld))))"
proof -
  let ?pl = "chain_bytes payld" and ?its = "request_items ps ap (chain_bytes payld)"
  let ?content = "concat (map aarq_octets ?its)" and ?a = "\<lparr>a_ref = nextReference r, a_data = None\<rparr>"
  note req = request_octets [OF assms(1-5)]
  then obtain c' where c': "AcseConnection_createAssociateRequestMessage self ps c payld ap = Inr c'" "chain_ok c'"
    "chain_bytes c' = acse_message 0x60 (int (length ?content) + not_sent ap) ?content" by blast
  have ns: "0 \<le> not_sent ap" "not_sent ap \<le> 7" by (simp_all add: not_sent_def split: option.splits)
  have k: "0 \<le> int (length ?content) + not_sent ap" "int (length ?content) + not_sent ap < 65536"
    using req(2) assms(4) ns by linarith+
  have l: "length ?content < 65536" "length ?content \<le> n" using req(2) assms(4,6) by linarith+
  have ne: "?its \<noteq> []" by (simp add: request_items_def)
  have rel: "acse_rel (authenticator r) r ?a" by (simp add: acse_rel_def)
  have "\<exists>r'. AcseConnection_parseMessage n r m
              = Inr (r', if accepts (authenticator r) (offered_mechanism ap) (offered_value ap)
                         then ACSE_ASSOCIATE else ACSE_ASSOCIATE_FAILED)
            \<and> nextReference r' = 3 \<and> points_to (userDataBuffer r') (userDataBufferSize r') (Some ?pl)"
    if "holds m (chain_bytes c')" for m
    using parse_request_items [OF req(3) k l(1) ne that [unfolded c'(3)] l(2) rel assms(7)]
    unfolding request_meaning by (auto simp: acse_rel_def)
  with c' show ?thesis by blast
qed

definition fresh_acse :: AcseConnection where
  "fresh_acse = \<lparr>acse_state = idle, nextReference = 0, userDataBuffer = None, userDataBufferSize = 0,
     authenticator = None, securityToken = None\<rparr>"

definition password_check :: "byte list \<Rightarrow> authenticator_fun" where
  "password_check secret p =
     (mechanism p = ACSE_AUTH_PASSWORD
        \<and> (\<exists>q. octetString p = Some q \<and> take (nat (passwordLength p)) q = secret), None)"

lemma password_check_reads: "reads_length_only (password_check secret)"
  by (simp add: reads_length_only_def password_check_def)

definition some_password :: "AcseAuthenticationParameter" where
  "some_password = \<lparr>mechanism = ACSE_AUTH_PASSWORD, octetString = Some [97, 98, 0], passwordLength = 2\<rparr>"

theorem associate_request_roundtrip_witness:
  "\<exists>c'. AcseConnection_createAssociateRequestMessage fresh_acse IsoConnectionParameters_create
       (BufferChain 0 0 1200 None (replicate 1200 0)) (BufferChain 1 1 1 None [7]) (Some some_password) = Inr c'
    \<and> (\<forall>m. holds m (chain_bytes c') \<longrightarrow>
         (\<exists>r'. AcseConnection_parseMessage 2000 (fresh_acse\<lparr>authenticator := Some (password_check [97, 98])\<rparr>) m
              = Inr (r', ACSE_ASSOCIATE)))"
proof -
  let ?r = "fresh_acse\<lparr>authenticator := Some (password_check [97, 98])\<rparr>"
  have ps: "titles_ok IsoConnectionParameters_create" by (simp add: titles_ok_def IsoConnectionParameters_create_def)
  have ap: "auth_ok (Some some_password)" by (simp add: auth_ok_def some_password_def)
  have acc: "accepts (authenticator ?r) (offered_mechanism (Some some_password)) (offered_value (Some some_password))"
    by (simp add: accepts_def password_parameter_def offered_mechanism_def offered_value_def password_check_def
        sent_password_def some_password_def)
  have reads: "\<forall>f. authenticator ?r = Some f \<longrightarrow> reads_length_only f" by (simp add: password_check_reads)
  show ?thesis
    using associate_request_roundtrip [OF ps ap _ _ _ _ reads, of "BufferChain 1 1 1 None [7]"
        "BufferChain 0 0 1200 None (replicate 1200 0)" 2000 fresh_acse] acc by fastforce
qed

text \<open>The octets of a response and what the parser of the other side makes of them.\<close>

lemma associate_response_read:
  assumes "chain_ok payld" and "length (chain_bytes payld) \<le> 64000" and "64 \<le> length (chain_buffer c)"
    and "length (chain_bytes payld) + 50 \<le> n" and "0 \<le> nextReference self" and "nextReference self < 2 ^ 32"
  shows "\<exists>c'. AcseConnection_createAssociateResponseMessage self res c (Some payld) = Inr c' \<and> chain_ok c'
    \<and> chain_bytes c' = (let content = concat (map aare_octets (response_items self res (chain_bytes payld)))
          in acse_message 0x61 (int (length content)) content)
    \<and> (\<forall>m r. holds m (chain_bytes c') \<longrightarrow>
         (\<exists>r'. AcseConnection_parseMessage n r m
              = Inr (r', if res = 0 then ACSE_ASSOCIATE else ACSE_ASSOCIATE_FAILED)
            \<and> nextReference r' = nextReference self
            \<and> points_to (userDataBuffer r') (userDataBufferSize r') (Some (chain_bytes payld))))"
proof -
  let ?pl = "chain_bytes payld" and ?its = "response_items self res (chain_bytes payld)"
  let ?content = "concat (map aare_octets ?its)" and ?a = "\<lambda>r. \<lparr>a_ref = nextReference r, a_data = None\<rparr>"
  let ?x = "uint32_octets (word_of_int (nextReference self))"
  note resp = response_octets [OF assms(1-3), of self res]
  then obtain c' where c': "AcseConnection_createAssociateResponseMessage self res c (Some payld) = Inr c'" "chain_ok c'"
    "chain_bytes c' = acse_message 0x61 (int (length ?content)) ?content" by blast
  have k: "0 \<le> int (length ?content)" "int (length ?content) < 65536" using resp(2) assms(2) by linarith+
  have l: "length ?content < 65536" "length ?content \<le> n" using resp(2) assms(2,4) by linarith+
  have ne: "?its \<noteq> []" by (simp add: response_items_def)
  have x5: "length ?x \<le> 5" using uint32_octets_length by simp
  have ok: "list_all aare_ok ?its"
    using info_element(8) [OF x5 assms(2)] by (simp add: response_items_def small_tlv appContextNameMms_def)
  have ref: "uint (ber_unsigned ?x) = nextReference self"
    using assms(5,6) by (simp add: ber_unsigned_def be_from_uint32_octets uint_word_of_int)
  have "(ucast (ucast res :: u32) :: byte) = res" by (auto intro!: bit_word_eqI simp: bit_simps)
  then have "(ucast res :: u32) = 0 \<longleftrightarrow> res = 0" by (metis unsigned_0)
  then have res: "(ber_unsigned [res] = 0) = (res = 0)" by (simp add: ber_unsigned_def)
  have meaning: "opt_fold aare_eff (False, 99, a) ?its
      = Some (True, ber_unsigned [res], a\<lparr>a_ref := nextReference self, a_data := Some ?pl\<rparr>)" for a
    by (simp add: response_items_def info_items_meaning ref)
  have "\<exists>r'. AcseConnection_parseMessage n r m = Inr (r', if res = 0 then ACSE_ASSOCIATE else ACSE_ASSOCIATE_FAILED)
      \<and> nextReference r' = nextReference self
      \<and> points_to (userDataBuffer r') (userDataBufferSize r') (Some ?pl)" if "holds m (chain_bytes c')" for m r
  proof -
    have rel: "acse_rel (authenticator r) r (?a r)" by (simp add: acse_rel_def)
    show ?thesis
      using parse_response_items [OF ok k l(1) ne that [unfolded c'(3)] l(2) rel]
      unfolding meaning by (auto simp: acse_rel_def res)
  qed
  with c' show ?thesis by (auto simp: Let_def)
qed

text \<open>
  The client reads from the answer of a server the payload, the reference and the verdict: associated
  for the result 0, failed for any other.
\<close>

theorem associate_response_roundtrip:
  assumes "chain_ok payld" and "length (chain_bytes payld) \<le> 64000" and "64 \<le> length (chain_buffer c)"
    and "length (chain_bytes payld) + 50 \<le> n" and "0 \<le> nextReference self" and "nextReference self < 2 ^ 32"
  shows "\<exists>c'. AcseConnection_createAssociateResponseMessage self res c (Some payld) = Inr c' \<and> chain_ok c'
    \<and> (\<forall>m r. holds m (chain_bytes c') \<longrightarrow>
         (\<exists>r'. AcseConnection_parseMessage n r m
              = Inr (r', if res = 0 then ACSE_ASSOCIATE else ACSE_ASSOCIATE_FAILED)
            \<and> nextReference r' = nextReference self
            \<and> points_to (userDataBuffer r') (userDataBufferSize r') (Some (chain_bytes payld))))"
  using associate_response_read [OF assms] by blast

theorem associate_response_roundtrip_witness:
  "\<exists>c'. AcseConnection_createAssociateResponseMessage (fresh_acse\<lparr>nextReference := 3\<rparr>) ACSE_RESULT_REJECT_PERMANENT
         (BufferChain 0 0 64 None (replicate 64 0)) (Some (BufferChain 1 1 1 None [7])) = Inr c'
    \<and> (\<forall>m. holds m (chain_bytes c') \<longrightarrow>
         (\<exists>r'. AcseConnection_parseMessage 100 fresh_acse m = Inr (r', ACSE_ASSOCIATE_FAILED)))"
  using associate_response_roundtrip [of "BufferChain 1 1 1 None [7]" "BufferChain 0 0 64 None (replicate 64 0)" 100
      "fresh_acse\<lparr>nextReference := 3\<rparr>" ACSE_RESULT_REJECT_PERMANENT]
  by (fastforce simp: ACSE_RESULT_REJECT_PERMANENT_def fresh_acse_def)

text \<open>Parsing does not change which authenticator a connection has.\<close>

lemma parseUserInformation_authenticator:
  assumes "parseUserInformation n self b p e = Inr (self', w, q)"
  shows "authenticator self' = authenticator self"
proof -
  have "authenticator t' = authenticator self"
    if "c_while n (\<lambda>(bufPos, _). bufPos < e) (user_info_round b e) (p, False, False, self) = Inr (Continue (q', h, d, t'))" for q' h d t'
  proof -
    let ?I = "\<lambda>(_, _, _, s). authenticator s = authenticator self"
    have "?I s'" if "?I s" and "user_info_round b e s = Inr (Continue s')" for s s'
      using that by (cases s) (auto simp: user_info_round_def rbind_Inr_iff split: if_splits)
    from c_while_invariant [of ?I, OF this _ that] show ?thesis by simp
  qed
  moreover from assms obtain r where "c_while n (\<lambda>(bufPos, _). bufPos < e) (user_info_round b e) (p, False, False, self) = Inr r"
    "(case r of Return _ \<Rightarrow> Inr (self, False, p) | Continue (q, h, d, s) \<Rightarrow> Inr (s, h \<and> d, q)) = (Inr (self', w, q) :: _ run)"
    unfolding parseUserInformation_def rbind_Inr_iff by blast
  ultimately show ?thesis by (cases r) auto
qed

lemma user_information_authenticator:
  "user_information n b e p l self w = Inr (self', w', q) \<Longrightarrow> authenticator self' = authenticator self"
  unfolding user_information_def rbind_Inr_iff
  by (auto simp: rbind_Inr_iff dest: parseUserInformation_authenticator split: if_splits)

lemma aarq_round_authenticator:
  "aarq_round n b e (p, v, self) = Inr (Continue (p', v', self')) \<Longrightarrow> authenticator self' = authenticator self"
  unfolding aarq_round_def
  by (auto simp: rbind_Inr_iff dest: user_information_authenticator split: if_splits)

lemma aarq_round_refuses: "aarq_round n b e st = Inr (Return (self', ind)) \<Longrightarrow> ind = ACSE_ASSOCIATE_FAILED"
  by (cases st) (auto simp: aarq_round_def rbind_Inr_iff split: if_splits)

lemma checkAuthentication_accepts:
  assumes "checkAuthentication self mp mn wp wn = Inr (self', True)" and "authenticator self = Some f"
  shows "\<exists>ap. f ap = (True, securityToken self')"
proof -
  from assms obtain mech where "authenticateClient (self\<lparr>securityToken := None\<rparr>) f mech wp wn = (self', True)"
    by (auto simp: checkAuthentication_def Let_def rbind_Inr_iff)
  then obtain ap token where "f ap = (True, token)" "self' = self\<lparr>securityToken := token\<rparr>"
    by (auto simp: authenticateClient_def Let_def split: prod.splits)
  then show ?thesis by auto
qed

lemma parseAarqPdu_accepts:
  assumes "parseAarqPdu n self b p e = Inr (self', ACSE_ASSOCIATE)" and "authenticator self = Some f"
  shows "\<exists>ap. f ap = (True, securityToken self')"
proof -
  let ?v = "\<lparr>authMechanism = None, authMechLen = 0, authValue = None, authValueLen = 0, userInfoValid = False\<rparr>"
  let ?w = "c_while n (\<lambda>(bufPos, _). bufPos < e) (aarq_round n b e) (p, ?v, self)"
  from assms(1) obtain r where r: "?w = Inr r"
    "(case r of Return x \<Rightarrow> Inr x
       | Continue (_, v, self) \<Rightarrow>
           rbind (checkAuthentication self (authMechanism v) (authMechLen v) (authValue v) (authValueLen v))
             (\<lambda>(self, accepted). Inr (self, if \<not> accepted then ACSE_ASSOCIATE_FAILED
                else if \<not> userInfoValid v then ACSE_ASSOCIATE_FAILED else ACSE_ASSOCIATE))) = Inr (self', ACSE_ASSOCIATE)"
    unfolding parseAarqPdu_def rbind_Inr_iff by blast
  show ?thesis
  proof (cases r)
    case (Return x)
    from c_while_return [OF r(1) [unfolded Return]] obtain s' where "aarq_round n b e s' = Inr (Return x)" by auto
    with aarq_round_refuses [of n b e s' "fst x" "snd x"] have "snd x = ACSE_ASSOCIATE_FAILED" by simp
    with r(2) Return show ?thesis by simp
  next
    case (Continue t)
    obtain q v self1 where t: "t = (q, v, self1)" by (cases t)
    let ?I = "\<lambda>(_, _, s). authenticator s = Some f"
    have step: "?I s'" if "?I s" and "aarq_round n b e s = Inr (Continue s')" for s s'
      using that aarq_round_authenticator [of n b e "fst s" "fst (snd s)" "snd (snd s)" "fst s'" "fst (snd s')" "snd (snd s')"]
      by (cases s; cases s') simp
    have "?I (p, ?v, self)" using assms(2) by simp
    from c_while_invariant [of ?I, OF step this r(1) [unfolded Continue t]] have au: "authenticator self1 = Some f" by simp
    from r(2) Continue t obtain self2 where
      "checkAuthentication self1 (authMechanism v) (authMechLen v) (authValue v) (authValueLen v) = Inr (self2, True)"
      "self2 = self'"
      by (auto simp: rbind_Inr_iff split: if_splits)
    with checkAuthentication_accepts [OF _ au] show ?thesis by blast
  qed
qed

text \<open>
  C27: Whatever the octets of an association request are, the server indicates an association only after its
  authenticator has accepted, and keeps the security token the authenticator gave.
\<close>

theorem request_needs_authenticator:
  assumes "AcseConnection_parseMessage n self m = Inr (self', ACSE_ASSOCIATE)" and "rd (buffer m) 0 = Inr 0x60"
    and "authenticator self = Some f"
  shows "\<exists>ap. f ap = (True, securityToken self')"
  using assms(1,2) parseAarqPdu_accepts [OF _ assms(3)]
  by (auto simp: AcseConnection_parseMessage_def Let_def rbind_Inr_iff split: if_splits)

definition plain_request :: "byte list" where
  "plain_request = [0x60, 10, 0xbe, 8, 0x28, 6, 2, 1, 3, 0xa0, 1, 7]"

theorem request_needs_authenticator_witness:
  "\<exists>self'. AcseConnection_parseMessage 20 (fresh_acse\<lparr>authenticator := Some (\<lambda>_. (True, Some 5))\<rparr>)
         \<lparr>buffer = plain_request, bsize = 12, maxSize = 12\<rparr> = Inr (self', ACSE_ASSOCIATE)
     \<and> securityToken self' = Some 5"
proof -
  let ?r = "fresh_acse\<lparr>authenticator := Some (\<lambda>_. (True, Some 5))\<rparr>"
    and ?m = "\<lparr>buffer = plain_request, bsize = 12, maxSize = 12\<rparr>"
  let ?its = "[User_info (info_items [3] [7])]" and ?a = "\<lparr>a_ref = 0, a_data = None\<rparr>"
  have c: "concat (map aarq_octets ?its) = drop 2 plain_request"
    by (simp add: info_octets_def info_items_def small_tlv plain_request_def)
  have ok: "list_all aarq_ok ?its" by (simp add: info_ok_def info_items_def small_tlv)
  have m: "holds ?m (acse_message 0x60 10 (concat (map aarq_octets ?its)))"
    unfolding c by (simp add: holds_def acse_message_def len_bytes_small plain_request_def)
  have len: "length (concat (map aarq_octets ?its)) = 10" unfolding c by (simp add: plain_request_def)
  have rel: "acse_rel (authenticator ?r) ?r ?a" by (simp add: acse_rel_def fresh_acse_def)
  have reads: "\<forall>f. authenticator ?r = Some f \<longrightarrow> reads_length_only f" by (simp add: reads_length_only_def)
  have n: "length (concat (map aarq_octets ?its)) \<le> 20" "length (concat (map aarq_octets ?its)) < 65536"
    using len by simp_all
  from parse_request_items [OF ok _ _ n(2) _ m n(1) rel reads] obtain self' where
    s': "AcseConnection_parseMessage 20 ?r ?m = Inr (self', ACSE_ASSOCIATE)"
    by (auto simp: info_items_meaning accepts_def)
  have "rd (buffer ?m) 0 = Inr 0x60" by (simp add: rd_def plain_request_def)
  from request_needs_authenticator [OF s' this, of "\<lambda>_. (True, Some 5)"] s' show ?thesis by auto
qed

text \<open>
  C26: The server does not look at which PDU it is sent: a client that sends an association response instead of
  a request is indicated as associated without any question to the authenticator, even one that refuses
  everybody.
\<close>

theorem response_bypasses_authenticator:
  assumes "list_all aare_ok its" and "opt_fold aare_eff (False, 99, \<lparr>a_ref = nextReference self, a_data = None\<rparr>) its = Some (True, 0, a)"
    and "0 \<le> k" and "k < 65536" and "length (concat (map aare_octets its)) < 65536"
    and "holds m (acse_message 0x61 k (concat (map aare_octets its)))" and "length (concat (map aare_octets its)) \<le> n"
  shows "\<exists>self'. AcseConnection_parseMessage n (self\<lparr>authenticator := Some (\<lambda>_. (False, None))\<rparr>) m = Inr (self', ACSE_ASSOCIATE)"
proof -
  let ?s = "self\<lparr>authenticator := Some (\<lambda>_. (False, None))\<rparr>"
  have ne: "its \<noteq> []" using assms(2) by auto
  have "acse_rel (authenticator ?s) ?s \<lparr>a_ref = nextReference self, a_data = None\<rparr>" by (simp add: acse_rel_def)
  from parse_response_items [OF assms(1,3-5) ne assms(6,7) this] assms(2) show ?thesis by auto
qed

theorem response_bypasses_authenticator_witness:
  "\<exists>self'. AcseConnection_parseMessage 20 (fresh_acse\<lparr>authenticator := Some (\<lambda>_. (False, None))\<rparr>)
     \<lparr>buffer = [0x61, 15, 0xa2, 3, 2, 1, 0, 0xbe, 8, 0x28, 6, 2, 1, 3, 0xa0, 1, 7], bsize = 17, maxSize = 17\<rparr>
   = Inr (self', ACSE_ASSOCIATE)"
proof -
  let ?its = "[Result 2 [0], Aare_info (info_items [3] [7])]"
  have c: "concat (map aare_octets ?its) = [0xa2, 3, 2, 1, 0, 0xbe, 8, 0x28, 6, 2, 1, 3, 0xa0, 1, 7]"
    by (simp add: info_octets_def info_items_def small_tlv)
  have ok: "list_all aare_ok ?its" by (simp add: info_ok_def info_items_def small_tlv)
  have eff: "opt_fold aare_eff (False, 99, \<lparr>a_ref = nextReference fresh_acse, a_data = None\<rparr>) ?its
      = Some (True, 0, \<lparr>a_ref = 3, a_data = Some [7]\<rparr>)"
    by (simp add: info_items_meaning ber_unsigned_def fresh_acse_def)
  show ?thesis
    by (rule response_bypasses_authenticator [OF ok eff, of 15])
      (simp_all only: c, simp_all add: holds_def acse_message_def len_bytes_small)
qed

end
