(* ===== verification/Cotp_Correct.thy ===== *)
theory Cotp_Correct
  imports Cotp
begin

text \<open>
  What the transport layer of theory \<open>Cotp\<close> guarantees: the TPDU size it settles on, the
  segmentation of a message into TPDUs and its reassembly, the framing of the incoming byte
  stream, and the connection TPDUs.
\<close>

unbundle bit_operations_syntax

text \<open>A socket that records what is written, a connection and a chain of two parts, for the examples.\<close>

definition demo_socket :: "byte list list socket_ops" where
  "demo_socket = \<lparr>sock_write = (\<lambda>s bs. (s @ [bs], int (length bs))), sock_read = (\<lambda>s n. (s, 0, []))\<rparr>"

definition demo_connection :: CotpConnection where
  "demo_connection = \<lparr>srcRef = 1, dstRef = 2, protocolClass = 0,
     options = \<lparr>tSelSrc = \<lparr>tsel_size = 2, tsel_value = [0, 1, 0, 0]\<rparr>,
                tSelDst = \<lparr>tsel_size = 2, tsel_value = [0, 7, 0, 0]\<rparr>, tpduSize = 3\<rparr>,
     isLastDataUnit = False, payload = ByteBuffer_create 12, writeBuffer = ByteBuffer_create 40,
     readBuffer = ByteBuffer_create 40, packetSize = 0\<rparr>"

definition demo_chain :: BufferChain where
  "demo_chain = BufferChain 7 3 3 (Some (BufferChain 4 4 4 None [4, 5, 6, 7])) [1, 2, 3]"


section \<open>TPDU size\<close>

lemma tpdu_exponent_spec:
  "t \<le> 2 ^ tpdu_exponent n t \<and> n \<le> tpdu_exponent n t
   \<and> (n < tpdu_exponent n t \<longrightarrow> 2 ^ (tpdu_exponent n t - 1) < t)"
proof (induction n t rule: tpdu_exponent.induct)
  case (1 n t)
  show ?case
  proof (cases "2 ^ n < t")
    case True
    then have e: "tpdu_exponent n t = tpdu_exponent (Suc n) t" by (simp add: tpdu_exponent.simps [of n])
    show ?thesis
    proof (cases "tpdu_exponent (Suc n) t = Suc n")
      case eq: True
      then show ?thesis using True 1 e by simp
    next
      case False
      then show ?thesis using True 1 e by simp
    qed
  next
    case False
    then show ?thesis by (simp add: tpdu_exponent.simps [of n])
  qed
qed

lemma tpdu_exponent_le_13: "t \<le> 8192 \<Longrightarrow> tpdu_exponent 1 t \<le> 13"
proof (rule ccontr)
  assume t: "t \<le> 8192" and "\<not> tpdu_exponent 1 t \<le> 13"
  then have "13 \<le> tpdu_exponent 1 t - 1" and "1 < tpdu_exponent 1 t" by simp_all
  then have "(2 :: int) ^ 13 \<le> 2 ^ (tpdu_exponent 1 t - 1)" by (intro power_increasing) simp_all
  moreover have "2 ^ (tpdu_exponent 1 t - 1) < t"
    using tpdu_exponent_spec [of t 1] \<open>1 < tpdu_exponent 1 t\<close> by simp
  ultimately show False using t by simp
qed

lemma setTpduSize_exponent:
  defines "n \<equiv> \<lambda>self t. unat (tpduSize (options (CotpConnection_setTpduSize self t)))"
  shows "n self t \<le> 13 \<and> (1 \<le> t \<longrightarrow> 2 ^ n self t \<le> min t 8192 \<and> min t 8192 < 2 * 2 ^ n self t)
       \<and> (t \<le> 1 \<longrightarrow> n self t = 0)"
proof -
  let ?t = "min t 8192" and ?e = "tpdu_exponent 1 (min t 8192)"
  have sp: "?t \<le> 2 ^ ?e" "1 \<le> ?e" "1 < ?e \<longrightarrow> 2 ^ (?e - 1) < ?t"
    using tpdu_exponent_spec [of ?t 1] by auto
  have e13: "?e \<le> 13" by (rule tpdu_exponent_le_13) simp
  have w: "unat (of_nat k :: byte) = k" if "k \<le> 13" for k
    using that by (simp add: unat_of_nat)
  have nt: "n self t = (if 2 ^ ?e > ?t then ?e - 1 else ?e)"
  proof -
    have m: "(if t > COTP_MAX_TPDU_SIZE then COTP_MAX_TPDU_SIZE else t) = ?t"
      by (simp add: COTP_MAX_TPDU_SIZE_def)
    have "n self t = unat (of_nat (if 2 ^ ?e > ?t then ?e - 1 else ?e) :: byte)"
      unfolding n_def CotpConnection_setTpduSize_def Let_def m by simp
    also have "\<dots> = (if 2 ^ ?e > ?t then ?e - 1 else ?e)" by (rule w) (use e13 in auto)
    finally show ?thesis .
  qed
  have dbl: "(2 :: int) ^ ?e = 2 * 2 ^ (?e - 1)"
    using sp(2) by (metis Suc_diff_le diff_Suc_1 power_Suc One_nat_def Suc_pred le_eq_less_or_eq not_less_eq_eq)
  show ?thesis
  proof (cases "2 ^ ?e > ?t")
    case True
    have "1 \<le> t \<longrightarrow> 2 ^ (?e - 1) \<le> ?t"
    proof (cases "1 < ?e")
      case False
      with sp(2) have "?e = 1" by simp
      then show ?thesis by simp
    qed (use sp in simp)
    moreover have "t \<le> 1 \<longrightarrow> ?e = 1"
    proof
      assume "t \<le> 1"
      then have "\<not> 2 ^ 1 < ?t" by simp
      then show "?e = 1" by (subst tpdu_exponent.simps) simp
    qed
    moreover have "?e - 1 \<le> 13" using e13 by simp
    ultimately show ?thesis using True nt dbl by auto
  next
    case False
    with sp(1) have eq: "2 ^ ?e = ?t" by simp
    moreover have "(2 :: int) ^ 1 \<le> 2 ^ ?e" using sp(2) by (intro power_increasing) simp_all
    ultimately show ?thesis using False nt e13 by auto
  qed
qed

text \<open>
  \<open>CotpConnection_setTpduSize\<close> settles on the largest power of two that is not above the
  requested size and not above 8192 octets.
\<close>

theorem setTpduSize_largest_power:
  assumes "1 \<le> t"
  shows "let size = CotpConnection_getTpduSize (CotpConnection_setTpduSize self t)
         in size \<le> t \<and> size \<le> 8192 \<and> min t 8192 < 2 * size"
  using setTpduSize_exponent [where self = self and t = t] assms
  by (simp add: CotpConnection_getTpduSize_def Let_def)

theorem setTpduSize_largest_power_witness:
  "let size = CotpConnection_getTpduSize (CotpConnection_setTpduSize demo_connection 3000)
   in size \<le> 3000 \<and> size \<le> 8192 \<and> min 3000 8192 < 2 * size"
  using setTpduSize_largest_power [of 3000 demo_connection] by simp


section \<open>Segmentation\<close>

function segments :: "nat \<Rightarrow> 'a list \<Rightarrow> 'a list list" where
  "segments k xs = (if k = 0 \<or> length xs \<le> k then [xs] else take k xs # segments k (drop k xs))"
  by pat_completeness auto
termination by (relation "measure (\<lambda>(k, xs). length xs)") auto

declare segments.simps [simp del]

definition frame :: "bool \<Rightarrow> byte list \<Rightarrow> byte list" where
  "frame isLast bs =
     [0x03, 0x00, word_of_int ((7 + int (length bs)) div 0x100), word_of_int (7 + int (length bs)),
      0x02, 0xf0, (if isLast then 0x80 else 0x00)] @ bs"

fun frames :: "byte list list \<Rightarrow> byte list list" where
  "frames [] = []"
| "frames [x] = [frame True x]"
| "frames (x # y # ys) = frame False x # frames (y # ys)"

lemma segments_ne: "segments k xs \<noteq> []"
  by (simp add: segments.simps)

lemma concat_segments: "concat (segments k xs) = xs"
  by (induction k xs rule: segments.induct) (simp add: segments.simps)

lemma segments_bound: "0 < k \<Longrightarrow> ys \<in> set (segments k xs) \<Longrightarrow> length ys \<le> k"
proof (induction k xs rule: segments.induct)
  case (1 k xs)
  then show ?case by (cases "length xs \<le> k") (auto simp: segments.simps [of k xs])
qed

lemma length_segments:
  "0 < k \<Longrightarrow> 0 < length xs \<Longrightarrow>
   length (segments k xs) = length xs div k + (if length xs mod k \<noteq> 0 then 1 else 0)"
proof (induction k xs rule: segments.induct)
  case (1 k xs)
  show ?case
  proof (cases "length xs \<le> k")
    case True
    with 1 show ?thesis
      by (cases "length xs = k") (auto simp: segments.simps [of k xs])
  next
    case False
    with 1 have "length (segments k (drop k xs)) = (length xs - k) div k + (if (length xs - k) mod k \<noteq> 0 then 1 else 0)"
      by simp
    with False 1(2) show ?thesis
      by (simp add: segments.simps [of k xs] le_div_geq le_mod_geq)
  qed
qed

text \<open>The octets a pair of chain part and index still delivers.\<close>

fun yields :: "BufferChain \<times> int \<Rightarrow> byte list \<Rightarrow> bool" where
  "yields ci [] = True"
| "yields ci (x # xs) = (case chain_fetch ci of Inl e \<Rightarrow> False | Inr (y, ci') \<Rightarrow> y = x \<and> yields ci' xs)"

lemma fetch_n_yields:
  "yields ci (xs @ ys) \<Longrightarrow> \<exists>ci'. chain_fetch_n (length xs) ci = Inr (xs, ci') \<and> yields ci' ys"
proof (induction xs arbitrary: ci)
  case Nil
  then show ?case by simp
next
  case (Cons x xs)
  then obtain ci' where "chain_fetch ci = Inr (x, ci')" "yields ci' (xs @ ys)"
    by (auto split: sum.splits prod.splits)
  with Cons.IH [of ci'] show ?case by auto
qed

text \<open>The chains the fetch loop can walk: no part but the first may be empty.\<close>

fun later_parts_nonempty :: "BufferChain \<Rightarrow> bool" where
  "later_parts_nonempty (BufferChain l p m None b) = True"
| "later_parts_nonempty (BufferChain l p m (Some nx) b) \<longleftrightarrow> 0 < partLength nx \<and> later_parts_nonempty nx"

lemma yields_part:
  assumes "c = BufferChain l p m nx b" and "p \<le> int (length b)"
    and "yields (c, p) rest"
  shows "0 \<le> i \<Longrightarrow> i \<le> p \<Longrightarrow> yields (c, i) (drop (nat i) (take (nat p) b) @ rest)"
proof (induction "nat (p - i)" arbitrary: i)
  case 0
  then show ?case using assms(3) by simp
next
  case (Suc k)
  then have ip: "i < p" by simp
  then have "nat i < length b" using assms(2) Suc by simp
  then have "drop (nat i) (take (nat p) b) = b ! nat i # drop (nat (i + 1)) (take (nat p) b)"
    using ip Suc(3) by (subst Cons_nth_drop_Suc [symmetric]) (auto simp: nat_add_distrib)
  moreover have "chain_fetch (c, i) = Inr (b ! nat i, c, i + 1)"
    using ip Suc(3) assms(2) by (simp add: chain_fetch_def assms(1) rd_def)
  moreover have "yields (c, i + 1) (drop (nat (i + 1)) (take (nat p) b) @ rest)"
    using Suc ip by simp
  ultimately show ?case by simp
qed

lemma yields_chain: "chain_ok c \<Longrightarrow> later_parts_nonempty c \<Longrightarrow> yields (c, 0) (chain_bytes c)"
proof (induction c rule: chain_bytes.induct)
  case (1 l p m b)
  then show ?case using yields_part [of "BufferChain l p m None b" l p m None b "[]" 0] by simp
next
  case (2 l p m nx b)
  let ?c = "BufferChain l p m (Some nx) b"
  have nx: "yields (nx, 0) (chain_bytes nx)" "0 < partLength nx" using 2 by auto
  have "chain_fetch (?c, p) = chain_fetch (nx, 0)"
    using nx(2) by (simp add: chain_fetch_def)
  then have "yields (?c, p) (chain_bytes nx)" using nx(1) by (cases "chain_bytes nx") auto
  from yields_part [OF refl _ this, of 0] 2 show ?case by simp
qed

text \<open>One frame: the header, the TPDU header and the fragment land in front of the write buffer.\<close>

lemma put_at_extends:
  assumes "buffer (writeBuffer self) = w @ junk" and "length bs \<le> length junk" and "pos = int (length w)"
  shows "put_at self pos bs = Inr (self\<lparr>writeBuffer := (writeBuffer self)
           \<lparr>buffer := w @ bs @ drop (length bs) junk, bsize := int (length w + length bs)\<rparr>\<rparr>)"
  using assms by (simp add: put_at_def memcpy_to_def nat_add_distrib)

text \<open>A connection whose write buffer holds exactly \<open>bs\<close>.\<close>

definition holding :: "CotpConnection \<Rightarrow> byte list \<Rightarrow> CotpConnection \<Rightarrow> bool" where
  "holding self bs self' \<longleftrightarrow>
     (\<exists>junk. length bs + length junk = length (buffer (writeBuffer self)) \<and>
        self' = self\<lparr>writeBuffer := (writeBuffer self)\<lparr>buffer := bs @ junk, bsize := int (length bs)\<rparr>\<rparr>)"

lemma put_at_start:
  assumes "length bs \<le> length (buffer (writeBuffer self))"
  shows "\<exists>self'. put_at self 0 bs = Inr self' \<and> holding self bs self'"
  using put_at_extends [of self "[]" "buffer (writeBuffer self)" bs 0] assms
  by (auto simp: holding_def intro!: exI [of _ "drop (length bs) (buffer (writeBuffer self))"])

lemma put_at_holding:
  assumes h: "holding self w self1" and l: "length w + length bs \<le> length (buffer (writeBuffer self))"
    and "pos = int (length w)"
  shows "\<exists>self2. put_at self1 pos bs = Inr self2 \<and> holding self (w @ bs) self2"
proof -
  from h obtain junk where j: "length w + length junk = length (buffer (writeBuffer self))"
    and s1: "self1 = self\<lparr>writeBuffer := (writeBuffer self)\<lparr>buffer := w @ junk, bsize := int (length w)\<rparr>\<rparr>"
    by (auto simp: holding_def)
  have "put_at self1 pos bs = Inr (self1\<lparr>writeBuffer := (writeBuffer self1)
           \<lparr>buffer := w @ bs @ drop (length bs) junk, bsize := int (length w + length bs)\<rparr>\<rparr>)"
    by (rule put_at_extends) (use j l s1 assms(3) in simp_all)
  moreover have "holding self (w @ bs) (self1\<lparr>writeBuffer := (writeBuffer self1)
           \<lparr>buffer := w @ bs @ drop (length bs) junk, bsize := int (length w + length bs)\<rparr>\<rparr>)"
    using j l by (auto simp: holding_def s1 intro!: exI [of _ "drop (length bs) junk"])
  ultimately show ?thesis by blast
qed

text \<open>The sockets for which the message gets through: every write takes all of its octets.\<close>

definition accepts_all :: "'s socket_ops \<Rightarrow> ('s \<Rightarrow> byte list list) \<Rightarrow> bool" where
  "accepts_all ops sent \<longleftrightarrow>
     (\<forall>s bs. snd (sock_write ops s bs) = int (length bs) \<and> sent (fst (sock_write ops s bs)) = sent s @ [bs])"

lemma sendBuffer_holding:
  assumes "accepts_all ops sent" and "holding self bs self1" and "bs \<noteq> []"
  shows "\<exists>s' self2. sendBuffer (Suc n) ops s self1 = Inr (s', self2, True) \<and> sent s' = sent s @ [bs]
       \<and> length (buffer (writeBuffer self2)) = length (buffer (writeBuffer self))
       \<and> (\<exists>wb. self2 = self\<lparr>writeBuffer := wb\<rparr>)"
proof -
  obtain s' k where w: "sock_write ops s bs = (s', k)" by fastforce
  from assms(1) have "snd (sock_write ops s bs) = int (length bs)"
    "sent (fst (sock_write ops s bs)) = sent s @ [bs]" by (simp_all add: accepts_all_def)
  with w have "k = int (length bs)" "sent s' = sent s @ [bs]" by simp_all
  with assms(2,3) w show ?thesis
    by (auto simp: holding_def ByteBuffer_setSize_def Let_def)
qed

lemma send_fragments_step:
  assumes ok: "accepts_all ops sent" and y: "yields ci (bs @ rest)"
    and room: "7 + length bs \<le> length (buffer (writeBuffer self))"
    and lim: "(if frs = 0 then total_len else pos + fps) = pos + int (length bs)"
  shows "\<exists>ci' s' self'.
     send_fragments (Suc n) ops fps total_len (Suc frs) pos ci s self
       = send_fragments (Suc n) ops fps total_len frs (pos + int (length bs)) ci' s' self'
     \<and> sent s' = sent s @ [frame (frs = 0) bs] \<and> yields ci' rest
     \<and> length (buffer (writeBuffer self')) = length (buffer (writeBuffer self))
     \<and> (\<exists>wb. self' = self\<lparr>writeBuffer := wb\<rparr>)"
proof -
  let ?h = "[0x03, 0x00, word_of_int ((7 + int (length bs)) div 0x100), word_of_int (7 + int (length bs))] :: byte list"
  let ?d = "[0x02, 0xf0, (if frs = 0 then 0x80 else 0x00)] :: byte list"
  obtain self1 where 1: "writeRfc1006Header self (7 + int (length bs)) = Inr self1" "holding self ?h self1"
    using put_at_start [of ?h self] room by (auto simp: writeRfc1006Header_def)
  obtain self2 where 2: "writeDataTpduHeader self1 (frs = 0) = Inr self2" "holding self (?h @ ?d) self2"
    using put_at_holding [OF 1(2), of ?d 4] room by (auto simp: writeDataTpduHeader_def)
  obtain ci' where f: "chain_fetch_n (length bs) ci = Inr (bs, ci')" "yields ci' rest"
    using fetch_n_yields [OF y] by blast
  obtain self3 where 3: "put_at self2 7 bs = Inr self3" "holding self ((?h @ ?d) @ bs) self3"
    using put_at_holding [OF 2(2), of bs 7] room by auto
  obtain s' self4 where 4: "sendBuffer (Suc n) ops s self3 = Inr (s', self4, True)"
    "sent s' = sent s @ [(?h @ ?d) @ bs]"
    "length (buffer (writeBuffer self4)) = length (buffer (writeBuffer self))"
    "\<exists>wb. self4 = self\<lparr>writeBuffer := wb\<rparr>"
    using sendBuffer_holding [OF ok 3(2), of n s] by auto
  have fr: "(?h @ ?d) @ bs = frame (frs = 0) bs" by (simp add: frame_def)
  have "send_fragments (Suc n) ops fps total_len (Suc frs) pos ci s self
        = send_fragments (Suc n) ops fps total_len frs (pos + int (length bs)) ci' s' self4"
    using lim 1(1) 2(1) f(1) 3(1) 4(1) by (simp add: Let_def del: sendBuffer.simps)
  with 4 f(2) fr show ?thesis by metis
qed

lemma send_fragments_all:
  assumes ok: "accepts_all ops sent" and fps: "0 < fps"
  shows "yields ci rest \<Longrightarrow> total_len = pos + int (length rest) \<Longrightarrow>
     7 + nat fps \<le> length (buffer (writeBuffer self)) \<Longrightarrow>
     \<exists>s' self'. send_fragments (Suc n) ops fps total_len (length (segments (nat fps) rest)) pos ci s self
                  = Inr (s', self', COTP_OK)
       \<and> sent s' = sent s @ frames (segments (nat fps) rest) \<and> (\<exists>wb. self' = self\<lparr>writeBuffer := wb\<rparr>)"
proof (induction "nat fps" rest arbitrary: pos ci s self rule: segments.induct)
  case (1 rest)
  let ?k = "nat fps"
  show ?case
  proof (cases "length rest \<le> ?k")
    case True
    then have seg: "segments ?k rest = [rest]" by (simp add: segments.simps [of ?k])
    from True 1 have "7 + length rest \<le> length (buffer (writeBuffer self))" by simp
    from send_fragments_step [OF ok _ this, of ci "[]" 0 total_len pos fps n s] 1(2,3) seg
    show ?thesis by (auto simp del: send_fragments.simps(2))
  next
    case False
    let ?bs = "take ?k rest" and ?r = "drop ?k rest"
    have seg: "segments ?k rest = ?bs # segments ?k ?r" using False fps by (simp add: segments.simps [of ?k rest])
    obtain m where m: "length (segments ?k ?r) = Suc m" using segments_ne [of ?k ?r] by (cases "segments ?k ?r") auto
    have l: "int (length ?bs) = fps" using False fps by simp
    from 1(4) False have room: "7 + length ?bs \<le> length (buffer (writeBuffer self))" by simp
    have y: "yields ci (?bs @ ?r)" using 1(2) by simp
    have lim: "(if Suc m = 0 then total_len else pos + fps) = pos + int (length ?bs)" using l by simp
    note step = send_fragments_step [OF ok y room lim, of n s, unfolded l]
    have fl: "frame (Suc m = 0) ?bs = frame False ?bs" by simp
    from step [unfolded fl] obtain ci' s' self' where st:
      "send_fragments (Suc n) ops fps total_len (Suc (Suc m)) pos ci s self
         = send_fragments (Suc n) ops fps total_len (Suc m) (pos + fps) ci' s' self'"
      "sent s' = sent s @ [frame False ?bs]" "yields ci' ?r"
      "length (buffer (writeBuffer self')) = length (buffer (writeBuffer self))"
      "\<exists>wb. self' = self\<lparr>writeBuffer := wb\<rparr>"
      by blast
    have tot: "total_len = pos + fps + int (length ?r)" using 1(3) False fps by simp
    have "\<exists>s'' self''. send_fragments (Suc n) ops fps total_len (length (segments ?k ?r)) (pos + fps) ci' s' self'
                  = Inr (s'', self'', COTP_OK)
       \<and> sent s'' = sent s' @ frames (segments ?k ?r) \<and> (\<exists>wb. self'' = self'\<lparr>writeBuffer := wb\<rparr>)"
      by (rule 1(1) [OF _ st(3) tot]) (use False fps 1(4) st(4) in auto)
    then obtain s'' self'' where fin:
      "send_fragments (Suc n) ops fps total_len (Suc m) (pos + fps) ci' s' self' = Inr (s'', self'', COTP_OK)"
      "sent s'' = sent s' @ frames (segments ?k ?r)" "\<exists>wb. self'' = self'\<lparr>writeBuffer := wb\<rparr>"
      unfolding m by blast
    have fr: "frames (?bs # segments ?k ?r) = frame False ?bs # frames (segments ?k ?r)"
      using m by (cases "segments ?k ?r") auto
    have len: "length (segments ?k rest) = Suc (Suc m)" using seg m by simp
    show ?thesis unfolding len unfolding seg fr st(1) fin(1) using st(2,5) fin(2,3) by auto
  qed
qed

lemma fragment_count:
  assumes "0 < fps" and "0 \<le> l" and "l = int (length xs)"
  shows "nat (if l > fps then l sdiv fps + (if l smod fps \<noteq> 0 then 1 else 0) else 1)
         = length (segments (nat fps) xs)"
proof (cases "l > fps")
  case True
  have "l sdiv fps = l div fps" "l smod fps = l mod fps"
    using assms by (simp_all add: signed_divide_int_def signed_modulo_int_def sgn_if)
  moreover have "l div fps = int (length xs div nat fps)" "l mod fps = int (length xs mod nat fps)"
    using assms by (simp_all add: zdiv_int zmod_int)
  moreover have "0 < nat fps" "0 < length xs" using True assms by linarith+
  ultimately show ?thesis
    using True assms length_segments [of "nat fps" xs] by (simp add: nat_add_distrib split: if_splits)
next
  case False
  then show ?thesis using assms by (simp add: segments.simps)
qed

lemma sendDataMessage_pieces:
  assumes "accepts_all ops sent" and "chain_ok c" and "later_parts_nonempty c"
    and "2 \<le> unat (tpduSize (options self))"
    and "CotpConnection_getTpduSize self + 4 \<le> int (length (buffer (writeBuffer self)))"
  shows "\<exists>s' self' pieces.
     CotpConnection_sendDataMessage (Suc n) ops s self c = Inr (s', self', COTP_OK)
     \<and> sent s' = sent s @ frames pieces
     \<and> pieces \<noteq> [] \<and> concat pieces = chain_bytes c
     \<and> (\<forall>x \<in> set pieces. int (length x) \<le> CotpConnection_getTpduSize self - 3)
     \<and> options self' = options self"
proof -
  let ?fps = "CotpConnection_getTpduSize self - 3"
  have "(2 :: int) ^ 2 \<le> CotpConnection_getTpduSize self"
    unfolding CotpConnection_getTpduSize_def using assms(4) by (intro power_increasing) simp_all
  then have fps: "0 < ?fps" by simp
  have len: "chain_length c = int (length (chain_bytes c))" using chain_length_bytes assms(2) by simp
  have "7 + nat ?fps \<le> length (buffer (writeBuffer self))" using fps assms(5) by linarith
  from send_fragments_all [OF assms(1) fps yields_chain [OF assms(2,3)] _ this, of "chain_length c" 0 n s] len
  have "\<exists>s' self'. send_fragments (Suc n) ops ?fps (chain_length c) (length (segments (nat ?fps) (chain_bytes c)))
          0 (c, 0) s self = Inr (s', self', COTP_OK)
        \<and> sent s' = sent s @ frames (segments (nat ?fps) (chain_bytes c)) \<and> (\<exists>wb. self' = self\<lparr>writeBuffer := wb\<rparr>)"
    by simp
  then obtain s' self' where r:
    "send_fragments (Suc n) ops ?fps (chain_length c) (length (segments (nat ?fps) (chain_bytes c)))
          0 (c, 0) s self = Inr (s', self', COTP_OK)"
    "sent s' = sent s @ frames (segments (nat ?fps) (chain_bytes c))" "options self' = options self" by auto
  have "\<forall>x \<in> set (segments (nat ?fps) (chain_bytes c)). int (length x) \<le> ?fps"
    using segments_bound [of "nat ?fps"] fps by fastforce
  with r fragment_count [OF fps _ len] chain_length_nonneg [OF assms(2)] show ?thesis
    by (simp add: CotpConnection_sendDataMessage_def COTP_DATA_HEADER_SIZE_def concat_segments Let_def) (metis concat_segments segments_ne)
qed

text \<open>
  C38: \<open>CotpConnection_sendDataMessage\<close> puts the message on the wire as DT TPDUs: the octets of
  the whole buffer chain, cut into pieces of at most \<open>tpduSize - 3\<close> octets, each framed with a
  TPKT header that holds its length, the last one (and only it) with the EOT bit, and nothing
  else. The chain may have any number of parts, none but the first empty.
\<close>

theorem sendDataMessage_segments:
  assumes "accepts_all ops sent" and "chain_ok c" and "later_parts_nonempty c"
    and "2 \<le> unat (tpduSize (options self))"
    and "CotpConnection_getTpduSize self + 4 \<le> int (length (buffer (writeBuffer self)))"
  shows "\<exists>s' self' pieces.
     CotpConnection_sendDataMessage (Suc n) ops s self c = Inr (s', self', COTP_OK)
     \<and> sent s' = sent s @ frames pieces
     \<and> concat pieces = chain_bytes c
     \<and> (\<forall>x \<in> set pieces. int (length x) \<le> CotpConnection_getTpduSize self - 3)
     \<and> options self' = options self"
  using sendDataMessage_pieces [OF assms] by blast

theorem sendDataMessage_segments_witness:
  "\<exists>s' self' pieces.
     CotpConnection_sendDataMessage 1 demo_socket [] demo_connection demo_chain = Inr (s', self', COTP_OK)
     \<and> s' = frames pieces \<and> concat pieces = [1, 2, 3, 4, 5, 6, 7]
     \<and> (\<forall>x \<in> set pieces. length x \<le> 5)"
  using sendDataMessage_segments [of demo_socket "\<lambda>s. s" demo_chain demo_connection 0 "[]"]
  by (auto simp: accepts_all_def demo_socket_def demo_chain_def demo_connection_def
        CotpConnection_getTpduSize_def ByteBuffer_create_def)

text \<open>
  The size a peer proposes is not checked from below: the option \<open>c0 01 01\<close> leaves a TPDU size of
  2, below the TPDU header, and then \<open>CotpConnection_sendDataMessage\<close> sends nothing of
  any message and still returns \<open>COTP_OK\<close>.
\<close>

theorem tiny_tpdu_sends_nothing:
  assumes "chain_ok c"
  shows "\<exists>self'. parseOptions self [0xc0, 0x01, 0x01] 0 3 = Inr (self', True)
           \<and> CotpConnection_sendDataMessage n ops s self' c = Inr (s, self', COTP_OK)"
proof -
  let ?self = "CotpConnection_setTpduSize self 2"
  have "tpdu_exponent 1 2 = 1" by (subst tpdu_exponent.simps) simp
  then have e: "tpduSize (options ?self) = 1"
    by (simp add: CotpConnection_setTpduSize_def COTP_MAX_TPDU_SIZE_def Let_def)
  have p: "parseOptions self [0xc0, 0x01, 0x01] 0 3 = Inr (?self, True)"
    by (simp add: parseOptions_def option_round_def rd_def shift_one_def numeral_3_eq_3 nat_numeral eval_nat_numeral)
  have "chain_length c sdiv -1 = - chain_length c" by (simp add: signed_divide_int_def sgn_mult_abs)
  moreover have "chain_length c smod -1 = 0" by (simp add: signed_modulo_int_def signed_divide_int_def sgn_mult_abs)
  ultimately have "CotpConnection_sendDataMessage n ops s ?self c = Inr (s, ?self, COTP_OK)"
    using chain_length_nonneg [OF assms] e
    by (simp add: CotpConnection_sendDataMessage_def CotpConnection_getTpduSize_def COTP_DATA_HEADER_SIZE_def Let_def)
  with p show ?thesis by blast
qed

theorem tiny_tpdu_sends_nothing_witness:
  "\<exists>self'. parseOptions demo_connection [0xc0, 0x01, 0x01] 0 3 = Inr (self', True)
     \<and> CotpConnection_sendDataMessage 1 demo_socket [] self' demo_chain = Inr ([], self', COTP_OK)"
  using tiny_tpdu_sends_nothing [of demo_chain demo_connection 1 demo_socket "[]"]
  by (simp add: demo_chain_def)

section \<open>Framing of the incoming stream\<close>

text \<open>
  A socket as a stream: \<open>incoming s\<close> are the octets the peer still delivers; a read takes some of
  them, possibly none, and never more than it asked for.
\<close>

definition stream_socket :: "'s socket_ops \<Rightarrow> ('s \<Rightarrow> byte list) \<Rightarrow> bool" where
  "stream_socket ops incoming \<longleftrightarrow>
     (\<forall>s n. 0 < n \<longrightarrow> (case sock_read ops s n of (s', k, bs) \<Rightarrow>
        k = int (length bs) \<and> length bs \<le> n \<and> incoming s = bs @ incoming s'))"

definition tpkt :: "byte list \<Rightarrow> bool" where
  "tpkt pk \<longleftrightarrow> (\<exists>hi lo body. pk = [0x03, 0x00, hi, lo] @ body \<and> body \<noteq> []
                \<and> int (length pk) = uint hi * 0x100 + uint lo)"

lemma socket_read_at_stream:
  assumes "stream_socket ops incoming" and n: "0 < n" "n < 2 ^ 64" and m: "int m + n \<le> int (length b)"
  shows "\<exists>s' bs. socket_read_at ops s b (int m) n = Inr (s', take m b @ bs @ drop (m + length bs) b, int (length bs))
       \<and> int (length bs) \<le> n \<and> incoming s = bs @ incoming s'"
proof -
  obtain s' k bs where r: "sock_read ops s (nat n) = (s', k, bs)" by (cases "sock_read ops s (nat n)") auto
  have "0 < nat n" using n by simp
  then have "case sock_read ops s (nat n) of (s', k, bs) \<Rightarrow>
        k = int (length bs) \<and> length bs \<le> nat n \<and> incoming s = bs @ incoming s'"
    using assms(1) [unfolded stream_socket_def, THEN spec [of _ s], THEN spec [of _ "nat n"]] by (rule mp [rotated])
  then have k: "k = int (length bs)" "length bs \<le> nat n" "incoming s = bs @ incoming s'"
    unfolding r prod.case by blast+
  have "n mod 2 ^ 64 = n" using n by simp
  have l: "int (length bs) \<le> n" using k(2) n by simp
  have "memcpy_to b (int m) bs k = Inr (take m b @ bs @ drop (m + length bs) b)"
    using l m k(1) by (simp add: memcpy_to_def nat_add_distrib)
  then have "socket_read_at ops s b (int m) n = Inr (s', take m b @ bs @ drop (m + length bs) b, int (length bs))"
    unfolding socket_read_at_def \<open>n mod 2 ^ 64 = n\<close> r using k(1) by (cases bs) simp_all
  with l k(3) show ?thesis by blast
qed

text \<open>The read buffer holds a proper beginning of the packet, and the size is known behind the header.\<close>

definition reading :: "CotpConnection \<Rightarrow> byte list \<Rightarrow> bool" where
  "reading self pk \<longleftrightarrow> buffer_ok (readBuffer self) \<and> int (length pk) \<le> maxSize (readBuffer self)
     \<and> bsize (readBuffer self) < int (length pk)
     \<and> (4 \<le> bsize (readBuffer self) \<longrightarrow> uint (packetSize self) = int (length pk))"

lemma read_body_stream:
  assumes "stream_socket ops incoming" and pk: "uint (packetSize self) = int (length pk)"
    and b: "length b = nat (maxSize (readBuffer self))" "int (length pk) \<le> maxSize (readBuffer self)"
    and m: "m < length pk" "take m b @ incoming s = pk @ rest" "4 \<le> m"
  shows "\<exists>s' self' st. read_body ops s self b (int m) = Inr (s', self', st)
     \<and> buffer_ok (readBuffer self') \<and> contents (readBuffer self') @ incoming s' = pk @ rest
     \<and> (st = TPKT_PACKET_COMPLETE \<and> contents (readBuffer self') = pk
        \<or> st = TPKT_WAITING \<and> reading self' pk)"
proof -
  have "int (length pk) < 2 ^ 16" using pk uint_lt2p [of "packetSize self"] by simp
  then have n: "0 < int (length pk) - int m" "int (length pk) - int m < 2 ^ 64" using m by simp_all
  have "int m + (int (length pk) - int m) \<le> int (length b)" using b by simp
  from socket_read_at_stream [OF assms(1) n this, of s] obtain s' bs where
    r: "socket_read_at ops s b (int m) (int (length pk) - int m)
          = Inr (s', take m b @ bs @ drop (m + length bs) b, int (length bs))"
       "int (length bs) \<le> int (length pk) - int m" "incoming s = bs @ incoming s'" by blast
  have mb: "m \<le> length b" using m b by simp
  have cat: "(take m b @ bs) @ incoming s' = pk @ rest" using m r(3) by simp
  have l: "length (take m b @ bs) = m + length bs" using mb by simp
  have full: "take m b @ bs = pk" if "m + length bs = length pk"
    using cat l that by (metis append_eq_append_conv)
  let ?self = "self\<lparr>readBuffer := readBuffer self\<lparr>buffer := take m b @ bs @ drop (m + length bs) b,
      bsize := int m + int (length bs)\<rparr>\<rparr>"
  have c: "contents (readBuffer ?self) = take m b @ bs"
    using mb by (simp add: contents_def nat_add_distrib)
  have ok: "buffer_ok (readBuffer ?self)" using r(2) b mb by (auto simp: buffer_ok_def)
  show ?thesis
  proof (cases "m + length bs = length pk")
    case True
    then have "read_body ops s self b (int m) = Inr (s', ?self, TPKT_PACKET_COMPLETE)"
      using r(1) pk by (simp add: read_body_def Let_def)
    with c ok cat full [OF True] show ?thesis by auto
  next
    case False
    then have lt: "int m + int (length bs) < int (length pk)" using r(2) by simp
    then have "read_body ops s self b (int m) = Inr (s', ?self, TPKT_WAITING)"
      using r(1) pk by (simp add: read_body_def Let_def)
    moreover have "reading ?self pk" using ok lt pk b by (simp add: reading_def)
    ultimately show ?thesis using c ok cat by auto
  qed
qed

text \<open>
  C32: \<open>CotpConnection_readToTpktBuffer\<close> frames the stream: however the octets of a TPKT packet arrive,
  every call keeps the octets read so far in the read buffer, takes none behind
  the packet from the socket, reports neither an error nor a fault, and reports a complete packet exactly
  when the buffer holds the packet; until then the next call goes on from there.
\<close>

theorem readToTpktBuffer_frames:
  assumes "stream_socket ops incoming" and "tpkt pk" and "reading self pk"
    and "contents (readBuffer self) @ incoming s = pk @ rest"
  shows "\<exists>s' self' st. CotpConnection_readToTpktBuffer ops s self = Inr (s', self', st)
     \<and> buffer_ok (readBuffer self') \<and> contents (readBuffer self') @ incoming s' = pk @ rest
     \<and> (st = TPKT_PACKET_COMPLETE \<and> contents (readBuffer self') = pk
        \<or> st = TPKT_WAITING \<and> reading self' pk)"
proof -
  let ?rb = "readBuffer self"
  define m where "m = nat (bsize ?rb)"
  have rb: "buffer_ok ?rb" "int (length pk) \<le> maxSize ?rb" "int m < int (length pk)" "bsize ?rb = int m"
    and psz: "4 \<le> m \<longrightarrow> uint (packetSize self) = int (length pk)"
    using assms(3) by (auto simp: reading_def buffer_ok_def m_def)
  have len: "length (buffer ?rb) = nat (maxSize ?rb)" using rb(1) unfolding buffer_ok_def by linarith
  have cont: "take m (buffer ?rb) @ incoming s = pk @ rest" using assms(4) by (simp add: contents_def m_def)
  show ?thesis
  proof (cases "m < 4")
    case False
    then have "\<not> bsize ?rb < 4" using rb(4) by simp
    then have "CotpConnection_readToTpktBuffer ops s self = read_body ops s self (buffer ?rb) (int m)"
      using rb(4) by (simp add: CotpConnection_readToTpktBuffer_def Let_def)
    moreover note read_body_stream [OF assms(1) _ len rb(2) _ cont] psz rb(3) False
    ultimately show ?thesis by simp
  next
    case True
    obtain hi lo body where pk: "pk = [3, 0, hi, lo] @ body" "body \<noteq> []"
      "int (length pk) = uint hi * 0x100 + uint lo" using assms(2) by (auto simp: tpkt_def)
    have n: "0 < 4 - int m" "4 - int m < 2 ^ 64" using True by simp_all
    have "int m + (4 - int m) \<le> int (length (buffer ?rb))" using len rb(2) pk(1) by simp
    from socket_read_at_stream [OF assms(1) n this, of s] obtain s' bs where
      r: "socket_read_at ops s (buffer ?rb) (int m) (4 - int m)
            = Inr (s', take m (buffer ?rb) @ bs @ drop (m + length bs) (buffer ?rb), int (length bs))"
         "int (length bs) \<le> 4 - int m" "incoming s = bs @ incoming s'" by blast
    let ?b = "take m (buffer ?rb) @ bs @ drop (m + length bs) (buffer ?rb)"
    have mb: "m \<le> length (buffer ?rb)" using rb len by simp
    have cat: "(take m (buffer ?rb) @ bs) @ incoming s' = pk @ rest" using cont r(3) by simp
    have l: "length (take m (buffer ?rb) @ bs) = m + length bs" using mb by simp
    have lb: "length ?b = nat (maxSize ?rb)" using mb r(2) len rb(2) pk(1) by simp
    show ?thesis
    proof (cases "m + length bs = 4")
      case False
      let ?self = "self\<lparr>readBuffer := ?rb\<lparr>buffer := ?b, bsize := int m + int (length bs)\<rparr>\<rparr>"
      from False r(2) have lt: "m + length bs < 4" by simp
      have "CotpConnection_readToTpktBuffer ops s self = Inr (s', ?self, TPKT_WAITING)"
        using True False r(1) rb(4) by (simp add: CotpConnection_readToTpktBuffer_def Let_def)
      moreover have "reading ?self pk"
        using rb lb lt pk(1) by (auto simp: reading_def buffer_ok_def)
      moreover have "contents (readBuffer ?self) = take m (buffer ?rb) @ bs"
        using mb by (simp add: contents_def nat_add_distrib)
      ultimately show ?thesis using cat by (auto simp: reading_def)
    next
      case f: True
      have t4: "take 4 ?b = [3, 0, hi, lo]"
      proof -
        have "take 4 ?b = take m (buffer ?rb) @ bs" using f l by (simp add: take_append)
        also have "\<dots> = take 4 ((take m (buffer ?rb) @ bs) @ incoming s')" using f l by simp
        also have "\<dots> = [3, 0, hi, lo]" unfolding cat pk(1) by simp
        finally show ?thesis .
      qed
      have h: "rd_n ?b 0 4 = Inr [3, 0, hi, lo]"
      proof -
        have "?b = [3, 0, hi, lo] @ drop 4 ?b" using t4 by (metis append_take_drop_id)
        then have "bytes_at ?b 0 [3, 0, hi, lo]" by (metis bytes_at_self)
        from rd_n_bytes_at [OF this] have "rd_n ?b 0 (length [3, 0, hi, lo]) = Inr [3, 0, hi, lo]" .
        moreover have "length [3, 0, hi, lo] = 4" by simp
        ultimately show ?thesis by (simp only:)
      qed
      have sz: "uint (word_of_int (uint hi * 0x100 + uint lo) :: u16) = int (length pk)"
      proof -
        have "uint hi * 0x100 + uint lo < 2 ^ 16" using uint_byte_bounds(3) [of hi] uint_byte_bounds(3) [of lo] by (simp del: uint_byte_bounds)
        then have "(uint hi * 0x100 + uint lo) mod 2 ^ 16 = uint hi * 0x100 + uint lo" by (intro mod_pos_pos_trivial) simp_all
        then show ?thesis unfolding uint_word_of_int pk(3) by simp
      qed
      let ?self = "self\<lparr>readBuffer := ?rb\<lparr>buffer := ?b\<rparr>, packetSize := word_of_int (uint hi * 0x100 + uint lo)\<rparr>"
      have fm: "int m + int (length bs) = 4" using f by simp
      have "CotpConnection_readToTpktBuffer ops s self = read_body ops s' ?self ?b (int 4)"
        using True r(1) rb(2,4) h sz fm by (simp add: CotpConnection_readToTpktBuffer_def Let_def)
      moreover have "take 4 ?b @ incoming s' = pk @ rest"
        using cat f l by (simp add: take_append)
      moreover note read_body_stream [OF assms(1), of ?self pk ?b 4 s' rest]
      ultimately show ?thesis using sz lb rb(2) pk(1,2) by (cases body) auto
    qed
  qed
qed

definition demo_stream :: "byte list list socket_ops" where
  "demo_stream = \<lparr>sock_write = (\<lambda>s bs. (s, -1)),
     sock_read = (\<lambda>s n. case s of [] \<Rightarrow> ([], 0, [])
        | c # cs \<Rightarrow> (drop n c # cs, int (length (take n c)), take n c))\<rparr>"

lemma demo_stream_ok: "stream_socket demo_stream concat"
  by (auto simp: stream_socket_def demo_stream_def split: list.splits)

theorem readToTpktBuffer_frames_witness:
  "\<exists>s' self' st. CotpConnection_readToTpktBuffer demo_stream [[3], [0, 0, 8, 2, 0xf0, 0x80, 9, 3]] demo_connection
       = Inr (s', self', st)
     \<and> contents (readBuffer self') @ concat s' = [3, 0, 0, 8, 2, 0xf0, 0x80, 9] @ [3]
     \<and> (st = TPKT_PACKET_COMPLETE \<and> contents (readBuffer self') = [3, 0, 0, 8, 2, 0xf0, 0x80, 9]
        \<or> st = TPKT_WAITING \<and> reading self' [3, 0, 0, 8, 2, 0xf0, 0x80, 9])"
  using readToTpktBuffer_frames [OF demo_stream_ok, of "[3, 0, 0, 8, 2, 0xf0, 0x80, 9]" demo_connection
      "[[3], [0, 0, 8, 2, 0xf0, 0x80, 9, 3]]" "[3]"]
  by (auto simp: tpkt_def reading_def buffer_ok_def demo_connection_def ByteBuffer_create_def contents_def)


section \<open>Reassembly\<close>

text \<open>The payload buffer of a connection is a bounded buffer that is filled at its end.\<close>

definition payload_ok :: "CotpConnection \<Rightarrow> bool" where
  "payload_ok self = buffer_ok (payload self)"

definition payload_bytes :: "CotpConnection \<Rightarrow> byte list" where
  "payload_bytes self = contents (payload self)"

definition payload_put :: "CotpConnection \<Rightarrow> byte list \<Rightarrow> (CotpConnection \<times> bool) run" where
  "payload_put self xs = addPayloadToBuffer self xs (int (length xs))"

interpretation cotp_payload: payload_sink payload_ok payload_bytes "\<lambda>self. maxSize (payload self)" payload_put
proof unfold_locales
  fix self :: CotpConnection and xs :: "byte list"
  assume ok: "payload_ok self" and fits: "int (length (payload_bytes self) + length xs) \<le> maxSize (payload self)"
  then have ok': "buffer_ok (payload self)" and f: "bsize (payload self) + int (length xs) \<le> maxSize (payload self)"
    using length_contents [of "payload self"] by (simp_all add: payload_ok_def payload_bytes_def)
  from grown_buffer [OF ok' f] memcpy_to_end [OF ok' f] f
  show "\<exists>b'. payload_put self xs = Inr (b', True) \<and> payload_ok b' \<and> payload_bytes b' = payload_bytes self @ xs
         \<and> maxSize (payload b') = maxSize (payload self)"
    by (simp add: payload_put_def addPayloadToBuffer_def payload_ok_def payload_bytes_def)
next
  fix self :: CotpConnection and xs :: "byte list"
  assume "payload_ok self" and "maxSize (payload self) < int (length (payload_bytes self) + length xs)"
  then show "payload_put self xs = Inr (self, False)"
    using length_contents [of "payload self"] by (simp add: payload_put_def addPayloadToBuffer_def payload_ok_def payload_bytes_def)
next
  fix self :: CotpConnection
  assume "payload_ok self"
  then show "int (length (payload_bytes self)) \<le> maxSize (payload self)"
    using length_contents [of "payload self"] by (simp add: payload_ok_def payload_bytes_def buffer_ok_def)
qed

text \<open>Only the first octets of the source area count for \<open>addPayloadToBuffer\<close>.\<close>

lemma addPayloadToBuffer_area:
  "addPayloadToBuffer self (xs @ ys) (int (length xs)) = payload_put self xs"
  by (simp add: payload_put_def addPayloadToBuffer_def memcpy_to_def)

text \<open>A frame in the read buffer: what \<open>CotpConnection_parseIncomingMessage\<close> makes of it.\<close>

definition with_packet :: "byte list \<Rightarrow> CotpConnection \<Rightarrow> CotpConnection" where
  "with_packet pk self = self\<lparr>readBuffer := (readBuffer self)
      \<lparr>buffer := pk @ drop (length pk) (buffer (readBuffer self)), bsize := int (length pk)\<rparr>,
      packetSize := word_of_int (int (length pk))\<rparr>"

definition after_frame :: "bool \<Rightarrow> byte list \<Rightarrow> CotpConnection \<Rightarrow> CotpConnection" where
  "after_frame isLast bs self = (with_packet (frame isLast bs) self)\<lparr>isLastDataUnit := isLast\<rparr>"

lemma parse_frame:
  assumes "payload_ok self"
  shows "\<exists>self' fits. payload_put (after_frame isLast bs self) bs = Inr (self', fits) \<and> payload_ok self'
     \<and> CotpConnection_parseIncomingMessage (with_packet (frame isLast bs) self)
       = Inr (self'\<lparr>readBuffer := (readBuffer self')\<lparr>bsize := 0\<rparr>, packetSize := 0\<rparr>,
              if \<not> fits then COTP_ERROR else if isLast then COTP_DATA_INDICATION else COTP_MORE_FRAGMENTS_FOLLOW)"
proof -
  let ?s = "with_packet (frame isLast bs) self"
  let ?b = "buffer (readBuffer ?s)"
  let ?t = "after_frame isLast bs self"
  have "payload_ok ?t" using assms by (simp add: payload_ok_def after_frame_def with_packet_def)
  from cotp_payload.put_total [OF this, of bs] obtain self' fits where
    put: "payload_put ?t bs = Inr (self', fits)" "payload_ok self'" by blast
  then have last: "isLastDataUnit self' = isLast"
    by (auto simp: payload_put_def addPayloadToBuffer_def after_frame_def rbind_Inr_iff split: if_splits)
  have b: "?b = frame isLast bs @ drop (length (frame isLast bs)) (buffer (readBuffer self))"
    by (simp add: with_packet_def)
  have sz: "bsize (readBuffer ?s) = 7 + int (length bs)" by (simp add: with_packet_def frame_def)
  have r: "rd ?b 4 = Inr 2" "rd ?b 5 = Inr 0xf0" "rd ?b 6 = Inr (if isLast then 0x80 else 0)"
    unfolding b by (simp_all add: frame_def rd_def)
  have d: "drop 7 ?b = bs @ drop (length (frame isLast bs)) (buffer (readBuffer self))"
    unfolding b by (simp add: frame_def)
  have dt: "parseDataTpdu ?s ?b 6 2 = Inr (?t, True)"
    using r(3) by (simp add: parseDataTpdu_def after_frame_def)
  have "parseCotpMessage ?s = Inr (self', if \<not> fits then COTP_ERROR
      else if isLast then COTP_DATA_INDICATION else COTP_MORE_FRAGMENTS_FOLLOW)"
    using r(1,2) dt put(1) last
    by (simp add: parseCotpMessage_def sz Let_def d addPayloadToBuffer_area)
  with put show ?thesis by (auto simp: CotpConnection_parseIncomingMessage_def)
qed

text \<open>Receiving one packet after the other, as the loop of the connection does; the indications in order.\<close>

fun receive_packets :: "CotpConnection \<Rightarrow> byte list list \<Rightarrow> (CotpConnection \<times> CotpIndication list) run" where
  "receive_packets self [] = Inr (self, [])"
| "receive_packets self (pk # pks) =
     rbind (CotpConnection_parseIncomingMessage (with_packet pk self)) (\<lambda>(self', ind).
       rbind (receive_packets self' pks) (\<lambda>(self'', inds). Inr (self'', ind # inds)))"

lemma frame_received:
  assumes "payload_ok self" and "int (length (payload_bytes self) + length bs) \<le> maxSize (payload self)"
  shows "\<exists>self'. CotpConnection_parseIncomingMessage (with_packet (frame isLast bs) self)
      = Inr (self', if isLast then COTP_DATA_INDICATION else COTP_MORE_FRAGMENTS_FOLLOW)
    \<and> payload_ok self' \<and> payload_bytes self' = payload_bytes self @ bs \<and> maxSize (payload self') = maxSize (payload self)"
proof -
  let ?t = "after_frame isLast bs self"
  have pl: "payload ?t = payload self" by (simp add: after_frame_def with_packet_def)
  then have t: "payload_ok ?t" "int (length (payload_bytes ?t) + length bs) \<le> maxSize (payload ?t)"
    using assms by (simp_all add: payload_ok_def payload_bytes_def)
  from cotp_payload.put_fits [OF t] obtain self1 where
    1: "payload_put ?t bs = Inr (self1, True)" "payload_ok self1" "payload_bytes self1 = payload_bytes ?t @ bs"
       "maxSize (payload self1) = maxSize (payload ?t)" by blast
  from parse_frame [OF assms(1), of isLast bs] 1 pl show ?thesis
    by (auto simp: payload_ok_def payload_bytes_def)
qed

lemma receive_frames:
  "payload_ok self \<Longrightarrow> int (length (payload_bytes self) + length (concat pieces)) \<le> maxSize (payload self) \<Longrightarrow>
   pieces \<noteq> [] \<Longrightarrow>
   \<exists>self'. receive_packets self (frames pieces)
       = Inr (self', replicate (length pieces - 1) COTP_MORE_FRAGMENTS_FOLLOW @ [COTP_DATA_INDICATION])
     \<and> payload_ok self' \<and> payload_bytes self' = payload_bytes self @ concat pieces
     \<and> maxSize (payload self') = maxSize (payload self)"
proof (induction pieces arbitrary: self rule: frames.induct)
  case 1
  then show ?case by simp
next
  case (2 x)
  then show ?case using frame_received [of self x True] by auto
next
  case (3 x y ys)
  then have "int (length (payload_bytes self) + length x) \<le> maxSize (payload self)" by simp
  from frame_received [OF 3(2) this, of False] obtain self1 where
    s1: "CotpConnection_parseIncomingMessage (with_packet (frame False x) self) = Inr (self1, COTP_MORE_FRAGMENTS_FOLLOW)"
      "payload_ok self1" "payload_bytes self1 = payload_bytes self @ x" "maxSize (payload self1) = maxSize (payload self)"
    by auto
  from 3(1) [OF s1(2)] 3(3) s1(3,4) obtain self2 where
    "receive_packets self1 (frames (y # ys))
       = Inr (self2, replicate (length ys) COTP_MORE_FRAGMENTS_FOLLOW @ [COTP_DATA_INDICATION])"
    "payload_ok self2" "payload_bytes self2 = payload_bytes self1 @ concat (y # ys)"
    "maxSize (payload self2) = maxSize (payload self1)" by auto
  with s1 show ?case by simp
qed

text \<open>A message goes through: the packets in order give the indications and the payload of the other side.\<close>

lemma message_goes_through:
  assumes "accepts_all ops sent" and "chain_ok c" and "later_parts_nonempty c"
    and "2 \<le> unat (tpduSize (options self))"
    and "CotpConnection_getTpduSize self + 4 \<le> int (length (buffer (writeBuffer self)))"
    and "sent s = []"
    and "buffer_ok (payload peer)" and "chain_length c \<le> maxSize (payload peer)"
  shows "\<exists>s' self' peer' k.
     CotpConnection_sendDataMessage (Suc n) ops s self c = Inr (s', self', COTP_OK)
     \<and> receive_packets (CotpConnection_resetPayload peer) (sent s')
         = Inr (peer', replicate k COTP_MORE_FRAGMENTS_FOLLOW @ [COTP_DATA_INDICATION])
     \<and> contents (payload peer') = chain_bytes c"
proof -
  from sendDataMessage_pieces [OF assms(1-5), of n s] obtain s' self' pieces where
    p: "CotpConnection_sendDataMessage (Suc n) ops s self c = Inr (s', self', COTP_OK)"
       "sent s' = frames pieces" "pieces \<noteq> []" "concat pieces = chain_bytes c" using assms(6) by auto
  let ?peer = "CotpConnection_resetPayload peer"
  have pe: "payload_ok ?peer" "payload_bytes ?peer = []" "maxSize (payload ?peer) = maxSize (payload peer)"
    using assms(7) by (auto simp: payload_ok_def payload_bytes_def CotpConnection_resetPayload_def buffer_ok_def contents_def)
  have "int (length (payload_bytes ?peer) + length (concat pieces)) \<le> maxSize (payload ?peer)"
    using pe p(4) assms(2,8) chain_length_bytes by simp
  from receive_frames [OF pe(1) this p(3)] p pe(2) show ?thesis by (auto simp: payload_bytes_def)
qed

text \<open>
  C2: a message that \<open>CotpConnection_sendDataMessage\<close> cuts into TPDUs is put together again on the
  other side: parsing the packets in order gives \<open>COTP_MORE_FRAGMENTS_FOLLOW\<close> for every one but the
  last, \<open>COTP_DATA_INDICATION\<close> for the last, and a payload buffer that holds the octets
  of the chain, whatever the two TPDU sizes are, as long as the payload buffer can hold them.
\<close>

theorem data_message_reassembled:
  assumes "accepts_all ops sent" and "chain_ok c" and "later_parts_nonempty c"
    and "2 \<le> unat (tpduSize (options self))"
    and "CotpConnection_getTpduSize self + 4 \<le> int (length (buffer (writeBuffer self)))"
    and "sent s = []"
    and "buffer_ok (payload peer)" and "chain_length c \<le> maxSize (payload peer)"
  shows "\<exists>s' self' peer' k.
     CotpConnection_sendDataMessage (Suc n) ops s self c = Inr (s', self', COTP_OK)
     \<and> receive_packets (CotpConnection_resetPayload peer) (sent s')
         = Inr (peer', replicate k COTP_MORE_FRAGMENTS_FOLLOW @ [COTP_DATA_INDICATION])
     \<and> contents (payload peer') = chain_bytes c"
  using assms by (rule message_goes_through)

theorem data_message_reassembled_witness:
  "\<exists>s' self' peer' k.
     CotpConnection_sendDataMessage 1 demo_socket [] demo_connection demo_chain = Inr (s', self', COTP_OK)
     \<and> receive_packets (CotpConnection_resetPayload demo_connection) s'
         = Inr (peer', replicate k COTP_MORE_FRAGMENTS_FOLLOW @ [COTP_DATA_INDICATION])
     \<and> contents (payload peer') = [1, 2, 3, 4, 5, 6, 7]"
  using data_message_reassembled [of demo_socket "\<lambda>s. s" demo_chain demo_connection "[]" demo_connection 0]
  by (auto simp: accepts_all_def demo_socket_def demo_chain_def demo_connection_def
        CotpConnection_getTpduSize_def ByteBuffer_create_def buffer_ok_def)


section \<open>Short packets\<close>

text \<open>
  The length of the payload is not checked from below: a TPKT packet of six octets whose TPDU
  announces a two-octet DT header (\<open>03 00 00 06 02 f0\<close>) is taken as complete, and parsing it ends in a
  \<open>memcpy\<close> with the count -1, an access outside of both buffers.
\<close>

theorem short_dt_packet_overruns:
  assumes "7 \<le> length (buffer (readBuffer self))" and "0 \<le> bsize (payload self)"
    and "bsize (payload self) \<le> maxSize (payload self)"
  shows "CotpConnection_parseIncomingMessage (with_packet [0x03, 0x00, 0x00, 0x06, 0x02, 0xf0] self)
         = Inl Out_of_bounds"
proof -
  let ?s = "with_packet [0x03, 0x00, 0x00, 0x06, 0x02, 0xf0] self"
  have "drop 6 (buffer (readBuffer self)) \<noteq> []" using assms(1) by simp
  then obtain x r where d: "drop 6 (buffer (readBuffer self)) = x # r" by (meson neq_Nil_conv)
  have b: "buffer (readBuffer ?s) = [3, 0, 0, 6, 2, 0xf0, x] @ r" using d by (simp add: with_packet_def eval_nat_numeral)
  have "parseCotpMessage ?s = Inl Out_of_bounds"
    unfolding parseCotpMessage_def b Let_def using assms(2,3)
    by (simp add: rd_def with_packet_def parseDataTpdu_def addPayloadToBuffer_def memcpy_to_def)
  then show ?thesis by (simp add: CotpConnection_parseIncomingMessage_def)
qed

theorem short_dt_packet_overruns_witness:
  "CotpConnection_parseIncomingMessage (with_packet [0x03, 0x00, 0x00, 0x06, 0x02, 0xf0] demo_connection)
   = Inl Out_of_bounds"
  by (rule short_dt_packet_overruns) (simp_all add: demo_connection_def ByteBuffer_create_def)

end
