(* ===== verification/Cotp_Connect.thy ===== *)
theory Cotp_Connect
  imports Cotp_Correct
begin

text \<open>
  The connection TPDUs of theory \<open>Cotp\<close>: the loop over the options always ends and stays within the
  packet, and a connection request is understood by the other side.
\<close>

unbundle bit_operations_syntax

section \<open>The option loop\<close>

lemma option_round_progress:
  "option_round b base bufLen (p, self) = Inr (Continue (p', self')) \<Longrightarrow> p + 2 \<le> p'"
  by (auto simp: option_round_def Let_def rbind_Inr_iff split: if_splits)

lemma rd_fault: "rd b i = Inl e \<Longrightarrow> e = Out_of_bounds"
  by (auto simp: rd_def split: if_splits)

lemma rd_n_fault: "rd_n b i n = Inl e \<Longrightarrow> e = Out_of_bounds"
  by (induction n arbitrary: i) (auto simp: rbind_Inl_iff dest: rd_fault)

lemma shift_one_fault: "shift_one v = Inl e \<Longrightarrow> e = Undefined_operation"
  by (auto simp: shift_one_def split: if_splits)

lemma option_round_fault:
  "option_round b base bufLen (p, self) = Inl e \<Longrightarrow> e = Out_of_bounds \<or> e = Undefined_operation"
  by (auto simp: option_round_def Let_def rbind_Inl_iff
      dest: rd_fault rd_n_fault shift_one_fault split: if_splits)

interpretation cotp_options: measured_loop
  "\<lambda>(bufPos, _). bufPos < bufLen" "option_round b base bufLen" "\<lambda>(bufPos, _). nat (bufLen - bufPos)" "\<lambda>_. True"
  for b :: "byte list" and base bufLen :: int
proof unfold_locales
  fix s s' :: "int \<times> CotpConnection"
  assume "case s of (bufPos, _) \<Rightarrow> bufPos < bufLen" and "option_round b base bufLen s = Inr (Continue s')"
  then show "(case s' of (bufPos, _) \<Rightarrow> nat (bufLen - bufPos)) < (case s of (bufPos, _) \<Rightarrow> nat (bufLen - bufPos))"
    using option_round_progress [of b base bufLen "fst s" "snd s" "fst s'" "snd s'"]
    by (auto split: prod.splits)
next
  fix s :: "int \<times> CotpConnection"
  show "option_round b base bufLen s \<noteq> Inl Out_of_fuel"
    using option_round_fault [of b base bufLen "fst s" "snd s" Out_of_fuel] by auto
qed simp

text \<open>The reads of a round stay within the options and one octet behind them.\<close>

lemma rd_ok: "0 \<le> i \<Longrightarrow> i < int (length b) \<Longrightarrow> rd b i \<noteq> Inl e"
  by (simp add: rd_def)

lemma rd_n_ok: "0 \<le> i \<Longrightarrow> i + int n \<le> int (length b) \<Longrightarrow> rd_n b i n \<noteq> Inl e"
  by (induction n arbitrary: i) (auto simp: rbind_Inl_iff rd_ok)

lemma option_round_within:
  assumes "0 \<le> base" and "base + bufLen < int (length b)" and "0 \<le> p" and "p < bufLen"
  shows "option_round b base bufLen (p, self) \<noteq> Inl Out_of_bounds"
proof
  assume e: "option_round b base bufLen (p, self) = Inl Out_of_bounds"
  have "rd b (base + p) \<noteq> Inl Out_of_bounds" "rd b (base + p + 1) \<noteq> Inl Out_of_bounds"
    using assms by (simp_all add: rd_def)
  with e obtain t l where tl: "rd b (base + p) = Inr t" "rd b (base + p + 1) = Inr l"
    by (cases "rd b (base + p)"; cases "rd b (base + p + 1)") (auto simp: option_round_def dest: rd_fault)
  have "rd_n b (base + (p + 2)) (nat (uint l)) \<noteq> Inl Out_of_bounds" if "\<not> uint l > bufLen - (p + 2)"
    using that assms by (intro rd_n_ok) auto
  moreover have "rd b (base + (p + 2)) \<noteq> Inl Out_of_bounds" if "\<not> uint l > bufLen - (p + 2)" "uint l = 1"
    using that assms by (intro rd_ok) auto
  ultimately show False
    using e tl by (auto simp: option_round_def Let_def rbind_Inl_iff dest: shift_one_fault split: if_splits)
qed

lemma option_loop_within:
  "0 \<le> base \<Longrightarrow> base + bufLen < int (length b) \<Longrightarrow> 0 \<le> fst st \<Longrightarrow>
   c_while n (\<lambda>(bufPos, _). bufPos < bufLen) (option_round b base bufLen) st \<noteq> Inl Out_of_bounds"
proof (induction n arbitrary: st)
  case 0
  then show ?case by simp
next
  case (Suc n)
  show ?case
  proof (cases st)
    case (Pair p self)
    show ?thesis
    proof (cases "p < bufLen")
      case True
      then have w: "option_round b base bufLen (p, self) \<noteq> Inl Out_of_bounds"
        using option_round_within Suc.prems Pair by simp
      show ?thesis
      proof (cases "option_round b base bufLen (p, self)")
        case (Inr r)
        show ?thesis
        proof (cases r)
          case (Continue st')
          obtain p' self' where st': "st' = (p', self')" by fastforce
          then have "0 \<le> fst st'" using option_round_progress Inr Continue Pair Suc.prems(3) by fastforce
          with Suc.IH [OF Suc.prems(1,2) this] show ?thesis using Inr Continue Pair True by simp
        qed (use Inr Pair True in simp)
      qed (use w Pair True in auto)
    qed (use Pair in simp)
  qed
qed

text \<open>
  C39: the option loop of a connection TPDU ends for every input, and if the octet behind the options
  is still in the buffer then the only thing that can go wrong in it is the shift \<open>1 << x\<close> by a
  TPDU size exponent of 32 or more.
\<close>

theorem parseOptions_ends_within:
  assumes "0 \<le> base" and "base + bufLen < int (length b)"
  shows "(\<exists>r. parseOptions self b base bufLen = Inr r) \<or> parseOptions self b base bufLen = Inl Undefined_operation"
proof -
  let ?w = "c_while (Suc (nat bufLen)) (\<lambda>(bufPos, _). bufPos < bufLen) (option_round b base bufLen) (0, self)"
  have f: "?w \<noteq> Inl Out_of_fuel" by (rule cotp_options.enough_fuel) auto
  have w: "?w \<noteq> Inl Out_of_bounds" by (rule option_loop_within) (use assms in auto)
  have u: "?w \<noteq> Inl Uninitialised" "?w \<noteq> Inl Null_pointer"
  proof -
    have "c_while n (\<lambda>(bufPos, _). bufPos < bufLen) (option_round b base bufLen) st \<noteq> Inl e"
      if "e = Uninitialised \<or> e = Null_pointer" for n st e
      using that by (induction n arbitrary: st)
        (auto split: sum.splits ctl.splits dest: option_round_fault)
    then show "?w \<noteq> Inl Uninitialised" "?w \<noteq> Inl Null_pointer" by blast+
  qed
  show ?thesis
  proof (cases ?w)
    case (Inl e)
    with f w u have "e = Undefined_operation" by (cases e) auto
    with Inl show ?thesis by (simp add: parseOptions_def del: c_while.simps)
  next
    case (Inr r)
    then show ?thesis by (cases r) (auto simp: parseOptions_def simp del: c_while.simps)
  qed
qed

theorem parseOptions_ends_within_witness:
  "(\<exists>r. parseOptions demo_connection [0xc0, 0x01, 0x0a, 0xc1, 0x02, 0, 1, 0] 0 7 = Inr r)
   \<or> parseOptions demo_connection [0xc0, 0x01, 0x0a, 0xc1, 0x02, 0, 1, 0] 0 7 = Inl Undefined_operation"
  by (rule parseOptions_ends_within) simp_all

section \<open>A connection request\<close>

definition sel_ok :: "TSelector \<Rightarrow> bool" where
  "sel_ok s \<longleftrightarrow> uint (tsel_size s) \<le> 4 \<and> length (tsel_value s) = 4"

definition sel_bytes :: "TSelector \<Rightarrow> byte list" where
  "sel_bytes s = take (unat (tsel_size s)) (tsel_value s)"

text \<open>What a side knows of a selector once it has received the option; an empty selector is not sent.\<close>

definition received :: "TSelector \<Rightarrow> TSelector \<Rightarrow> TSelector" where
  "received s old = (if tsel_size s = 0 then old else set_selector (sel_bytes s) (tsel_size s) old)"

definition size_opt :: "byte \<Rightarrow> byte list" where
  "size_opt e = (if e = 0 then [] else [0xc0, 0x01, e])"

definition sel_opt :: "byte \<Rightarrow> TSelector \<Rightarrow> byte list" where
  "sel_opt code s = (if tsel_size s = 0 then [] else [code, tsel_size s] @ sel_bytes s)"

definition options_bytes :: "CotpOptions \<Rightarrow> byte list" where
  "options_bytes opt = size_opt (tpduSize opt) @ sel_opt 0xc2 (tSelDst opt) @ sel_opt 0xc1 (tSelSrc opt)"

lemma unat_sel_size: "sel_ok s \<Longrightarrow> unat (tsel_size s) \<le> 4"
  by (simp add: sel_ok_def flip: uint_nat) (metis nat_le_iff nat_numeral unat_eq_nat_uint of_nat_numeral)

lemma length_sel_bytes: "sel_ok s \<Longrightarrow> int (length (sel_bytes s)) = uint (tsel_size s)"
  using unat_sel_size [of s] by (simp add: sel_ok_def sel_bytes_def min_def)

lemma selector_option_bytes: "sel_ok s \<Longrightarrow> selector_option code s = Inr (sel_opt code s)"
  using rd_n_front [of "unat (tsel_size s)" "tsel_value s"] unat_sel_size [of s]
  by (simp add: selector_option_def sel_opt_def sel_bytes_def sel_ok_def)

lemma length_options_bytes:
  "sel_ok (tSelDst (options self)) \<Longrightarrow> sel_ok (tSelSrc (options self)) \<Longrightarrow>
   int (length (options_bytes (options self))) = getOptionsLength self"
  using length_sel_bytes
  by (simp add: options_bytes_def size_opt_def sel_opt_def getOptionsLength_def Let_def)

lemma getOptionsLength_bounds:
  "sel_ok (tSelDst (options self)) \<Longrightarrow> sel_ok (tSelSrc (options self)) \<Longrightarrow>
   0 \<le> getOptionsLength self \<and> getOptionsLength self \<le> 15"
  by (simp add: getOptionsLength_def sel_ok_def Let_def)

text \<open>The rounds of the option loop over such options.\<close>

lemma round_tpdu_size:
  assumes "bytes_at b (base + p) [0xc0, 0x01, e]" and "p + 3 \<le> bufLen" and "uint e < 32"
  shows "option_round b base bufLen (p, self)
         = Inr (Continue (p + 3, CotpConnection_setTpduSize self (i32 (2 ^ unat e))))"
  using assms by (simp add: option_round_def Let_def shift_one_def add.assoc)

lemma round_selector:
  assumes b: "bytes_at b (base + p) ([code, n] @ v)" and l: "int (length v) = uint n" "uint n \<le> 4"
    and "p + 2 + uint n \<le> bufLen" and c: "code = 0xc1 \<or> code = 0xc2"
  shows "option_round b base bufLen (p, self)
         = Inr (Continue (p + 2 + uint n, self\<lparr>options :=
             (if code = 0xc1 then (options self)\<lparr>tSelSrc := set_selector v n (tSelSrc (options self))\<rparr>
              else (options self)\<lparr>tSelDst := set_selector v n (tSelDst (options self))\<rparr>)\<rparr>))"
proof -
  have v: "bytes_at b (base + (p + 2)) v" and h: "rd b (base + p) = Inr code" "rd b (base + p + 1) = Inr n"
    using b by (simp_all add: add.assoc)
  have "rd_n b (base + (p + 2)) (nat (uint n)) = Inr v"
    using rd_n_bytes_at [OF v] l(1) by (metis nat_int)
  then show ?thesis using assms(2-4) h c by (auto simp: option_round_def Let_def)
qed

abbreviation options_left :: "int \<Rightarrow> int \<times> CotpConnection \<Rightarrow> bool" where
  "options_left bufLen \<equiv> \<lambda>(bufPos, _). bufPos < bufLen"

lemma option_size_received:
  assumes "bytes_at b (base + p) (size_opt e)" and "p + int (length (size_opt e)) \<le> bufLen" and "uint e \<le> 13"
    and "loop_ends (options_left bufLen) (option_round b base bufLen)
           (p + int (length (size_opt e)),
            self\<lparr>options := (options self)\<lparr>tpduSize := (if e = 0 then tpduSize (options self) else e)\<rparr>\<rparr>) r"
  shows "loop_ends (options_left bufLen) (option_round b base bufLen) (p, self) r"
proof (cases "e = 0")
  case True
  then show ?thesis using assms(4) by (simp add: size_opt_def)
next
  case False
  have u: "1 \<le> unat e" "unat e \<le> 13"
  proof -
    have "unat e \<noteq> 0" using False by (metis unat_eq_zero)
    then show "1 \<le> unat e" by simp
    have "int (unat e) = uint e" by simp
    then show "unat e \<le> 13" using assms(3) by linarith
  qed
  have pw: "(2 :: int) ^ unat e \<le> 2 ^ 13" using u by (intro power_increasing) simp_all
  have "- (2 ^ 31) \<le> (2 :: int) ^ unat e" by (rule order_trans [of _ 0]) simp_all
  moreover have "(2 :: int) ^ unat e < 2 ^ 31" using pw by simp
  ultimately have i: "i32 (2 ^ unat e) = 2 ^ unat e" by (rule i32_id)
  let ?n = "unat (tpduSize (options (CotpConnection_setTpduSize self (2 ^ unat e))))"
  have "2 ^ ?n \<le> (2 :: int) ^ unat e \<and> (2 :: int) ^ unat e < 2 ^ Suc ?n"
    using setTpduSize_exponent [of self "2 ^ unat e"] pw by (simp add: min_def split: if_splits)
  then have lo: "2 ^ ?n \<le> (2 :: int) ^ unat e" and hi: "(2 :: int) ^ unat e < 2 ^ Suc ?n" by blast+
  have "?n \<le> unat e" by (rule power_le_imp_le_exp [OF _ lo]) simp
  moreover have "unat e < Suc ?n" by (rule power_less_imp_less_exp [OF _ hi]) simp
  ultimately have "unat e = ?n" by simp
  then have "tpduSize (options (CotpConnection_setTpduSize self (2 ^ unat e))) = e"
    by (metis word_unat_eq_iff)
  then have st: "CotpConnection_setTpduSize self (2 ^ unat e) = self\<lparr>options := (options self)\<lparr>tpduSize := e\<rparr>\<rparr>"
    by (simp add: CotpConnection_setTpduSize_def Let_def)
  have "option_round b base bufLen (p, self) = Inr (Continue (p + 3, self\<lparr>options := (options self)\<lparr>tpduSize := e\<rparr>\<rparr>))"
    using round_tpdu_size [of b base p e bufLen self] assms(1-3) False st i by (simp add: size_opt_def)
  moreover have "p < bufLen" using assms(2) False by (simp add: size_opt_def)
  moreover have "loop_ends (options_left bufLen) (option_round b base bufLen)
      (p + 3, self\<lparr>options := (options self)\<lparr>tpduSize := e\<rparr>\<rparr>) r" using assms(4) False by (simp add: size_opt_def)
  ultimately show ?thesis by (intro loop_ends_step [where s = "(p, self)"]) simp_all
qed

lemma option_selector_received:
  assumes "bytes_at b (base + p) (sel_opt code s)" and "p + int (length (sel_opt code s)) \<le> bufLen" and s: "sel_ok s"
    and c: "code = 0xc1 \<or> code = 0xc2"
    and "loop_ends (options_left bufLen) (option_round b base bufLen)
           (p + int (length (sel_opt code s)), self\<lparr>options :=
             (if code = 0xc1 then (options self)\<lparr>tSelSrc := received s (tSelSrc (options self))\<rparr>
              else (options self)\<lparr>tSelDst := received s (tSelDst (options self))\<rparr>)\<rparr>) r"
  shows "loop_ends (options_left bufLen) (option_round b base bufLen) (p, self) r"
proof (cases "tsel_size s = 0")
  case True
  then show ?thesis using assms(5) c by (auto simp: sel_opt_def received_def split: if_splits)
next
  case False
  have l: "int (length (sel_bytes s)) = uint (tsel_size s)" using s by (rule length_sel_bytes)
  have le: "uint (tsel_size s) \<le> 4" using s by (simp add: sel_ok_def)
  have b: "bytes_at b (base + p) ([code, tsel_size s] @ sel_bytes s)" using assms(1) False by (simp add: sel_opt_def)
  have len: "int (length (sel_opt code s)) = 2 + uint (tsel_size s)" using False l by (simp add: sel_opt_def)
  have "p + 2 + uint (tsel_size s) \<le> bufLen" using assms(2) len by simp
  note round = round_selector [OF b l le this c, of self]
  have lt: "p < bufLen" using assms(2) len uint_byte_bounds(1) [of "tsel_size s"] by linarith
  have rc: "received s x = set_selector (sel_bytes s) (tsel_size s) x" for x using False by (simp add: received_def)
  have rest: "loop_ends (options_left bufLen) (option_round b base bufLen) (p + 2 + uint (tsel_size s), self\<lparr>options :=
             (if code = 0xc1 then (options self)\<lparr>tSelSrc := set_selector (sel_bytes s) (tsel_size s) (tSelSrc (options self))\<rparr>
              else (options self)\<lparr>tSelDst := set_selector (sel_bytes s) (tsel_size s) (tSelDst (options self))\<rparr>)\<rparr>) r"
    using assms(5) unfolding len rc by (simp only: add.assoc)
  show ?thesis by (rule loop_ends_step [OF _ round rest]) (use lt in simp)
qed

text \<open>The options of a side whose request has been received.\<close>

definition options_received :: "CotpOptions \<Rightarrow> CotpOptions \<Rightarrow> CotpOptions" where
  "options_received opt old =
     old\<lparr>tpduSize := (if tpduSize opt = 0 then tpduSize old else tpduSize opt),
         tSelDst := received (tSelDst opt) (tSelDst old), tSelSrc := received (tSelSrc opt) (tSelSrc old)\<rparr>"

lemma parseOptions_received:
  assumes "bytes_at b base (options_bytes opt)" and "bufLen = int (length (options_bytes opt))"
    and "sel_ok (tSelDst opt)" and "sel_ok (tSelSrc opt)" and "uint (tpduSize opt) \<le> 13"
  shows "parseOptions self b base bufLen
         = Inr (self\<lparr>options := options_received opt (options self)\<rparr>, True)"
proof -
  let ?p1 = "int (length (size_opt (tpduSize opt)))"
  let ?p2 = "?p1 + int (length (sel_opt 0xc2 (tSelDst opt)))"
  let ?self = "self\<lparr>options := options_received opt (options self)\<rparr>"
  have at: "bytes_at b base (size_opt (tpduSize opt))" "bytes_at b (base + ?p1) (sel_opt 0xc2 (tSelDst opt))"
    "bytes_at b (base + ?p2) (sel_opt 0xc1 (tSelSrc opt))"
    using assms(1) by (simp_all add: options_bytes_def bytes_at_append add.assoc)
  have len: "bufLen = ?p2 + int (length (sel_opt 0xc1 (tSelSrc opt)))"
    using assms(2) by (simp add: options_bytes_def)
  have "loop_ends (options_left bufLen) (option_round b base bufLen) (bufLen, ?self) (Continue (bufLen, ?self))"
    by (rule loop_ends_done) simp
  then have "loop_ends (options_left bufLen) (option_round b base bufLen) (?p2, self\<lparr>options := (options self)
      \<lparr>tpduSize := (if tpduSize opt = 0 then tpduSize (options self) else tpduSize opt),
       tSelDst := received (tSelDst opt) (tSelDst (options self))\<rparr>\<rparr>) (Continue (bufLen, ?self))"
    by (intro option_selector_received [OF at(3) _ assms(4)]) (simp_all add: len options_received_def)
  then have "loop_ends (options_left bufLen) (option_round b base bufLen) (?p1, self\<lparr>options := (options self)
      \<lparr>tpduSize := (if tpduSize opt = 0 then tpduSize (options self) else tpduSize opt)\<rparr>\<rparr>) (Continue (bufLen, ?self))"
    by (intro option_selector_received [OF at(2) _ assms(3)]) (simp_all add: len)
  note e1 = this
  have at0: "bytes_at b (base + 0) (size_opt (tpduSize opt))" using at(1) by simp
  have e: "loop_ends (options_left bufLen) (option_round b base bufLen) (0, self) (Continue (bufLen, ?self))"
    by (rule option_size_received [where p = 0, OF at0 _ assms(5)]) (use len e1 in simp_all)
  have "c_while (Suc (nat bufLen)) (options_left bufLen) (option_round b base bufLen) (0, self)
        = Inr (Continue (bufLen, ?self))"
    by (rule cotp_options.run_ends [OF _ _ e]) simp_all
  then show ?thesis by (simp add: parseOptions_def del: c_while.simps)
qed

text \<open>The packet of a connection request.\<close>

definition request_packet :: "CotpOptions \<Rightarrow> byte list" where
  "request_packet opt =
     (let n = int (length (options_bytes opt))
      in [0x03, 0x00, word_of_int ((11 + n) div 0x100), word_of_int (11 + n),
          word_of_int (6 + n), 0xe0, 0x00, 0x00, 0x00, 0x02, 0x00] @ options_bytes opt)"

lemma sendConnectionRequest_packet:
  assumes "accepts_all ops sent" and "buffer_ok (writeBuffer self)" and "26 \<le> maxSize (writeBuffer self)"
    and "sel_ok remote" and "sel_ok local"
  shows "\<exists>s' self'. CotpConnection_sendConnectionRequestMessage (Suc n) ops s self remote local = Inr (s', self', COTP_OK)
     \<and> sent s' = sent s @ [request_packet ((options self)\<lparr>tSelDst := remote, tSelSrc := local\<rparr>)]"
proof -
  let ?self = "self\<lparr>options := (options self)\<lparr>tSelDst := remote, tSelSrc := local\<rparr>\<rparr>"
  let ?opt = "options ?self" and ?n = "getOptionsLength ?self"
  have n: "int (length (options_bytes ?opt)) = ?n" using assms(4,5) by (intro length_options_bytes) simp_all
  have nb: "0 \<le> ?n" "?n \<le> 15" using getOptionsLength_bounds [of ?self] assms(4,5) by simp_all
  have room: "11 + length (options_bytes ?opt) \<le> length (buffer (writeBuffer ?self))"
    using n nb assms(2,3) by (simp add: buffer_ok_def)
  let ?h = "[0x03, 0x00, word_of_int ((?n + 6 + 5) div 0x100), word_of_int (?n + 6 + 5)] :: byte list"
  let ?r = "[word_of_int (?n + 6), 0xe0, 0x00, 0x00, 0x00, 0x02, 0x00] :: byte list"
  obtain self1 where 1: "writeRfc1006Header ?self (?n + 6 + 5) = Inr self1" "holding ?self ?h self1"
    using put_at_start [of ?h ?self] room by (auto simp: writeRfc1006Header_def)
  obtain self2 where 2: "put_at self1 4 ?r = Inr self2" "holding ?self (?h @ ?r) self2"
  proof -
    have "length ?h + length ?r \<le> length (buffer (writeBuffer ?self))" "(4 :: int) = int (length ?h)"
      using room by simp_all
    from put_at_holding [OF 1(2) this] that show thesis by blast
  qed
  have o2: "options self2 = ?opt" "bsize (writeBuffer self2) = 11" using 2(2) by (auto simp: holding_def)
  obtain self3 where 3: "put_at self2 11 (options_bytes ?opt) = Inr self3"
    "holding ?self ((?h @ ?r) @ options_bytes ?opt) self3"
  proof -
    have "length (?h @ ?r) + length (options_bytes ?opt) \<le> length (buffer (writeBuffer ?self))"
      "(11 :: int) = int (length (?h @ ?r))"
      using room by simp_all
    from put_at_holding [OF 2(2) this] that show thesis by blast
  qed
  have w: "writeOptions self2 = Inr self3"
    using 3(1) o2 assms(4,5)
    by (cases "tpduSize (options self) = 0")
      (simp_all add: writeOptions_def selector_option_bytes options_bytes_def size_opt_def Let_def)
  obtain s' self4 where 4: "sendBuffer (Suc n) ops s self3 = Inr (s', self4, True)"
    "sent s' = sent s @ [(?h @ ?r) @ options_bytes ?opt]"
    using sendBuffer_holding [OF assms(1) 3(2), of n s] by auto
  have "(?h @ ?r) @ options_bytes ?opt = request_packet ?opt"
    using n by (simp add: request_packet_def Let_def add.commute)
  moreover have "\<not> maxSize (writeBuffer ?self) < ?n + 6 + 5" using nb assms(3) by simp
  ultimately show ?thesis
    using 1(1) 2(1) w 4 by (simp add: CotpConnection_sendConnectionRequestMessage_def Let_def del: sendBuffer.simps)
qed

text \<open>
  C36: the connection request of a client is understood by the server: the packet that
  \<open>CotpConnection_sendConnectionRequestMessage\<close> sends is parsed as a connect
  indication that stores the client's reference, class 0, the TPDU size, and the called and
  calling T-selectors (a selector of length 0 is not sent and leaves the stored one).
\<close>

theorem connection_request_received:
  assumes "accepts_all ops sent" and "sent s = []"
    and "buffer_ok (writeBuffer self)" and "26 \<le> maxSize (writeBuffer self)"
    and "sel_ok remote" and "sel_ok local" and "uint (tpduSize (options self)) \<le> 13"
  shows "\<exists>s' self' pk peer'.
     CotpConnection_sendConnectionRequestMessage (Suc n) ops s self remote local = Inr (s', self', COTP_OK)
     \<and> sent s' = [pk] \<and> tpkt pk
     \<and> CotpConnection_parseIncomingMessage (with_packet pk peer) = Inr (peer', COTP_CONNECT_INDICATION)
     \<and> srcRef peer' = 2 \<and> dstRef peer' = 0 \<and> protocolClass peer' = 0
     \<and> options peer' = options_received ((options self)\<lparr>tSelDst := remote, tSelSrc := local\<rparr>) (options peer)"
proof -
  let ?opt = "(options self)\<lparr>tSelDst := remote, tSelSrc := local\<rparr>" and ?pk = "request_packet ((options self)\<lparr>tSelDst := remote, tSelSrc := local\<rparr>)"
  let ?n = "int (length (options_bytes ?opt))"
  have n: "0 \<le> ?n" "?n \<le> 15"
    using length_options_bytes [of "self\<lparr>options := ?opt\<rparr>"] getOptionsLength_bounds [of "self\<lparr>options := ?opt\<rparr>"] assms(5,6)
    by simp_all
  let ?s = "with_packet ?pk peer"
  let ?b = "buffer (readBuffer ?s)"
  have b: "?b = ?pk @ drop (length ?pk) (buffer (readBuffer peer))" by (simp add: with_packet_def)
  have sz: "bsize (readBuffer ?s) = 11 + ?n" by (simp add: with_packet_def request_packet_def Let_def)
  have at: "bytes_at ?b 0 ?pk" unfolding b by (rule bytes_at_self)
  have li: "uint (word_of_int (6 + ?n) :: byte) = 6 + ?n" by (rule uint_of_int_byte) (use n in simp_all)
  have r: "rd ?b 4 = Inr (word_of_int (6 + ?n))" "rd ?b 5 = Inr 0xe0" "rd ?b 6 = Inr 0" "rd ?b 7 = Inr 0"
     "rd ?b 8 = Inr 0" "rd ?b 9 = Inr 2" "rd ?b 10 = Inr 0" "bytes_at ?b 11 (options_bytes ?opt)"
    using at by (simp_all add: request_packet_def Let_def)
  let ?s1 = "?s\<lparr>dstRef := 0, srcRef := 2, protocolClass := 0\<rparr>"
  have po: "parseOptions ?s1 ?b 11 ?n = Inr (?s1\<lparr>options := options_received ?opt (options ?s1)\<rparr>, True)"
    by (rule parseOptions_received) (use r assms(5-7) in simp_all)
  have "parseConnectRequestTpdu ?s ?b 6 (6 + ?n) = Inr (?s1\<lparr>options := options_received ?opt (options ?s1)\<rparr>, True)"
    using r po by (simp add: parseConnectRequestTpdu_def getUint16_def getUint8_def)
  then have "parseCotpMessage ?s = Inr (?s1\<lparr>options := options_received ?opt (options ?s1)\<rparr>, COTP_CONNECT_INDICATION)"
    using r li sz n by (simp add: parseCotpMessage_def Let_def)
  moreover have "options ?s1 = options peer" by (simp add: with_packet_def)
  moreover have "tpkt ?pk"
  proof -
    have "uint (word_of_int (11 + ?n) :: byte) = 11 + ?n" by (rule uint_of_int_byte) (use n in simp_all)
    moreover have "(11 + ?n) div 0x100 = 0" using n by simp
    ultimately have "int (length ?pk) = uint (word_of_int ((11 + ?n) div 0x100) :: byte) * 0x100 + uint (word_of_int (11 + ?n) :: byte)"
      unfolding request_packet_def Let_def by (simp only: length_append) simp
    then show ?thesis unfolding tpkt_def request_packet_def Let_def by fastforce
  qed
  moreover obtain s' self' where "CotpConnection_sendConnectionRequestMessage (Suc n) ops s self remote local = Inr (s', self', COTP_OK)"
     "sent s' = [?pk]"
    using sendConnectionRequest_packet [OF assms(1,3-6), of n s] assms(2) by auto
  ultimately show ?thesis
    by (intro exI conjI) (assumption | simp add: CotpConnection_parseIncomingMessage_def)+
qed

theorem connection_request_received_witness:
  "\<exists>s' self' pk peer'.
     CotpConnection_sendConnectionRequestMessage 1 demo_socket [] demo_connection
       \<lparr>tsel_size = 2, tsel_value = [0, 5, 0, 0]\<rparr> \<lparr>tsel_size = 0, tsel_value = [0, 0, 0, 0]\<rparr> = Inr (s', self', COTP_OK)
     \<and> s' = [pk]
     \<and> CotpConnection_parseIncomingMessage (with_packet pk demo_connection) = Inr (peer', COTP_CONNECT_INDICATION)
     \<and> tSelDst (options peer') = \<lparr>tsel_size = 2, tsel_value = [0, 5, 0, 0]\<rparr>
     \<and> tSelSrc (options peer') = tSelSrc (options demo_connection)"
  using connection_request_received [of demo_socket "\<lambda>s. s" "[]" demo_connection
      "\<lparr>tsel_size = 2, tsel_value = [0, 5, 0, 0]\<rparr>" "\<lparr>tsel_size = 0, tsel_value = [0, 0, 0, 0]\<rparr>" 0 demo_connection]
  by (auto simp: accepts_all_def demo_socket_def demo_connection_def ByteBuffer_create_def buffer_ok_def
      sel_ok_def options_received_def received_def set_selector_def sel_bytes_def)

end
