(* ===== verification/Iso_Connection.thy ===== *)
theory Iso_Connection
  imports Acse_Messages Cotp_Connect
begin

text \<open>
  The connection objects that put the layers together: the server's
  \<open>libiec61850/src/mms/iso_server/iso_connection.c\<close> and the client's
  \<open>libiec61850/src/mms/iso_client/iso_client_connection.c\<close>. The MMS layer above is a function in the state of
  the server; the callbacks of the client are the events it returns. The semaphores that guard the buffers
  between threads and the memory that is freed with a connection are left out. Every loop and the repeated
  write get the same bound \<open>n\<close>.
\<close>

unbundle bit_operations_syntax

section \<open>Transport connection of either side\<close>

definition CotpConnection_init ::
    "CotpConnection \<Rightarrow> ByteBuffer \<Rightarrow> ByteBuffer \<Rightarrow> ByteBuffer \<Rightarrow> CotpConnection" where
  "CotpConnection_init self payloadBuffer rbuf wbuf =
     (let tsel = \<lambda>old. \<lparr>tsel_size = 2, tsel_value = [0, 1] @ drop 2 (tsel_value old)\<rparr>;
          self = self\<lparr>srcRef := -1, dstRef := -1, protocolClass := -1,
                      options := (options self)\<lparr>tpduSize := 0, tSelSrc := tsel (tSelSrc (options self)),
                                               tSelDst := tsel (tSelDst (options self))\<rparr>,
                      payload := payloadBuffer\<rparr>;
          self = CotpConnection_setTpduSize self COTP_MAX_TPDU_SIZE
      in self\<lparr>writeBuffer := wbuf, readBuffer := rbuf, packetSize := 0\<rparr>)"

definition CotpConnection_getPayload :: "CotpConnection \<Rightarrow> ByteBuffer" where
  "CotpConnection_getPayload self = payload self"


section \<open>Server\<close>

text \<open>
  The handler of the layer above (applied to its parameter): a step of the application state \<open>'h\<close> that
  reads the request and fills the response buffer.
\<close>

type_synonym 'h message_handler = "'h \<Rightarrow> ByteBuffer \<Rightarrow> ByteBuffer \<Rightarrow> ('h \<times> ByteBuffer) run"

record 'h IsoConnection =
  ic_sendBuffer :: "byte list"
  msgRcvdHandler :: "'h message_handler option"
  ic_running :: bool
  ic_session :: IsoSession
  ic_presentation :: IsoPresentation
  cotpConnection :: CotpConnection
  acseConnection :: AcseConnection

definition SEND_BUF_SIZE :: int where
  "SEND_BUF_SIZE = 65000 + 100"

text \<open>
  A part of a buffer chain in the send buffer from the offset \<open>off\<close> on, with the fields the code leaves
  unassigned as 0, and the send buffer after an encoder has filled the part.
\<close>

definition part_at :: "byte list \<Rightarrow> int \<Rightarrow> int \<Rightarrow> BufferChain" where
  "part_at sb off mx = BufferChain 0 0 mx None (drop (nat off) sb)"

definition store_part :: "byte list \<Rightarrow> int \<Rightarrow> BufferChain \<Rightarrow> byte list" where
  "store_part sb off part = take (nat off) sb @ chain_buffer part"

text \<open>The handler gets the request and a response buffer over the whole send buffer.\<close>

definition call_handler ::
    "'h \<Rightarrow> 'h IsoConnection \<Rightarrow> ByteBuffer \<Rightarrow> ('h \<times> 'h IsoConnection \<times> ByteBuffer) run" where
  "call_handler h self mmsRequest =
     (let mmsResponseBuffer = \<lparr>buffer = ic_sendBuffer self, bsize = 0, maxSize = SEND_BUF_SIZE\<rparr>
      in case msgRcvdHandler self of
           None \<Rightarrow> Inr (h, self, mmsResponseBuffer)
         | Some f \<Rightarrow> rbind (f h mmsRequest mmsResponseBuffer) (\<lambda>(h, resp).
                       Inr (h, self\<lparr>ic_sendBuffer := buffer resp\<rparr>, resp)))"

definition send_chain ::
    "nat \<Rightarrow> 's socket_ops \<Rightarrow> 's \<Rightarrow> 'h IsoConnection \<Rightarrow> BufferChain \<Rightarrow> ('s \<times> 'h IsoConnection) run" where
  "send_chain n ops s self chain =
     rbind (CotpConnection_sendDataMessage n ops s (cotpConnection self) chain) (\<lambda>(s, cotp, _).
       Inr (s, self\<lparr>cotpConnection := cotp\<rparr>))"

text \<open>The branch \<open>ACSE_ASSOCIATE\<close>: the user data of the request goes to the handler, its answer back as an accept.\<close>

definition associate_response :: "'h IsoConnection \<Rightarrow> ByteBuffer \<Rightarrow> ('h IsoConnection \<times> BufferChain) run" where
  "associate_response self mmsResponseBuffer =
     (let mmsBufferPart = BufferChain_init (bsize mmsResponseBuffer) (bsize mmsResponseBuffer) None (ic_sendBuffer self);
          sb = ic_sendBuffer self;
          off = chain_length mmsBufferPart
      in rbind (AcseConnection_createAssociateResponseMessage (acseConnection self) ACSE_RESULT_ACCEPT
                  (part_at sb off (SEND_BUF_SIZE - off)) (Some mmsBufferPart)) (\<lambda>acseBufferPart.
         let sb = store_part sb off acseBufferPart; off = chain_length acseBufferPart
         in rbind (IsoPresentation_createCpaMessage (ic_presentation self) (part_at sb off (SEND_BUF_SIZE - off))
                     acseBufferPart) (\<lambda>presentationBufferPart.
         let sb = store_part sb off presentationBufferPart; off = chain_length presentationBufferPart
         in rbind (IsoSession_createAcceptSpdu (ic_session self) (part_at sb off (SEND_BUF_SIZE - off))
                     presentationBufferPart) (\<lambda>sessionBufferPart.
              Inr (self\<lparr>ic_sendBuffer := store_part sb off sessionBufferPart\<rparr>, sessionBufferPart)))))"

definition on_associate ::
    "nat \<Rightarrow> 's socket_ops \<Rightarrow> 's \<Rightarrow> 'h \<Rightarrow> 'h IsoConnection \<Rightarrow> ('s \<times> 'h \<times> 'h IsoConnection) run" where
  "on_associate n ops s h self =
     (let size = userDataBufferSize (acseConnection self);
          octs = (case userDataBuffer (acseConnection self) of None \<Rightarrow> [] | Some b \<Rightarrow> b);
          mmsRequest = \<lparr>buffer = octs, bsize = size, maxSize = size\<rparr>
      in rbind (call_handler h self mmsRequest) (\<lambda>(h, self, mmsResponseBuffer).
           if bsize mmsResponseBuffer > 0
           then rbind (associate_response self mmsResponseBuffer) (\<lambda>(self, sessionBufferPart).
                rbind (send_chain n ops s self sessionBufferPart) (\<lambda>(s, self). Inr (s, h, self)))
           else Inr (s, h, self)))"

definition on_session_connect ::
    "nat \<Rightarrow> 's socket_ops \<Rightarrow> 's \<Rightarrow> 'h \<Rightarrow> 'h IsoConnection \<Rightarrow> ('s \<times> 'h \<times> 'h IsoConnection) run" where
  "on_session_connect n ops s h self =
     rbind (IsoPresentation_parseConnect n (ic_presentation self) (IsoSession_getUserData (ic_session self))) (\<lambda>(pres, ok).
       let self = self\<lparr>ic_presentation := pres\<rparr>
       in if ok = 0 then Inr (s, h, self)
          else rbind (AcseConnection_parseMessage n (acseConnection self) (nextPayload pres)) (\<lambda>(acse, aIndication).
                 let self = self\<lparr>acseConnection := acse\<rparr>
                 in if aIndication = ACSE_ASSOCIATE then on_associate n ops s h self
                    else Inr (s, h, self\<lparr>ic_running := False\<rparr>)))"

text \<open>The branch \<open>SESSION_DATA\<close>.\<close>

definition data_response :: "'h IsoConnection \<Rightarrow> ByteBuffer \<Rightarrow> ('h IsoConnection \<times> BufferChain) run" where
  "data_response self mmsResponseBuffer =
     (let mmsBufferPart = BufferChain_init (bsize mmsResponseBuffer) (bsize mmsResponseBuffer) None (ic_sendBuffer self);
          sb = ic_sendBuffer self;
          off = chain_length mmsBufferPart
      in rbind (IsoPresentation_createUserData (ic_presentation self) (part_at sb off (SEND_BUF_SIZE - off))
                  mmsBufferPart) (\<lambda>presentationBufferPart.
         let sb = store_part sb off presentationBufferPart; off = chain_length presentationBufferPart;
             sessionBufferPart = IsoSession_createDataSpdu (ic_session self) (part_at sb off (SEND_BUF_SIZE - off))
                                   presentationBufferPart
         in Inr (self\<lparr>ic_sendBuffer := sb\<rparr>, sessionBufferPart)))"

definition on_session_data ::
    "nat \<Rightarrow> 's socket_ops \<Rightarrow> 's \<Rightarrow> 'h \<Rightarrow> 'h IsoConnection \<Rightarrow> ('s \<times> 'h \<times> 'h IsoConnection) run" where
  "on_session_data n ops s h self =
     rbind (IsoPresentation_parseUserData (ic_presentation self) (IsoSession_getUserData (ic_session self))) (\<lambda>(pres, ok).
       let self = self\<lparr>ic_presentation := pres\<rparr>
       in if ok = 0 then Inr (s, h, self\<lparr>ic_running := False\<rparr>)
          else if nextContextId pres = mmsContextId pres
          then rbind (call_handler h self (nextPayload pres)) (\<lambda>(h, self, mmsResponseBuffer).
                 if bsize mmsResponseBuffer > 0
                 then rbind (data_response self mmsResponseBuffer) (\<lambda>(self, sessionBufferPart).
                      rbind (send_chain n ops s self sessionBufferPart) (\<lambda>(s, self). Inr (s, h, self)))
                 else Inr (s, h, self))
          else Inr (s, h, self))"

text \<open>The branch \<open>SESSION_FINISH\<close>: a release response if the presentation layer understands the PDU, then the end.\<close>

definition release_response :: "'h IsoConnection \<Rightarrow> ('h IsoConnection \<times> BufferChain) run" where
  "release_response self =
     (let sb = ic_sendBuffer self
      in rbind (AcseConnection_createReleaseResponseMessage (acseConnection self) (part_at sb 0 SEND_BUF_SIZE))
           (\<lambda>acseBufferPart.
         let sb = store_part sb 0 acseBufferPart; off = chain_length acseBufferPart
         in rbind (IsoPresentation_createUserDataACSE (ic_presentation self) (part_at sb off (SEND_BUF_SIZE - off))
                     acseBufferPart) (\<lambda>presentationBufferPart.
         let sb = store_part sb off presentationBufferPart; off = chain_length presentationBufferPart
         in rbind (IsoSession_createDisconnectSpdu (ic_session self) (part_at sb off (SEND_BUF_SIZE - off))
                     presentationBufferPart) (\<lambda>sessionBufferPart.
              Inr (self\<lparr>ic_sendBuffer := store_part sb off sessionBufferPart\<rparr>, sessionBufferPart)))))"

definition on_session_finish ::
    "nat \<Rightarrow> 's socket_ops \<Rightarrow> 's \<Rightarrow> 'h \<Rightarrow> 'h IsoConnection \<Rightarrow> ('s \<times> 'h \<times> 'h IsoConnection) run" where
  "on_session_finish n ops s h self =
     rbind (IsoPresentation_parseUserData (ic_presentation self) (IsoSession_getUserData (ic_session self))) (\<lambda>(pres, ok).
       let self = self\<lparr>ic_presentation := pres\<rparr>
       in rbind (if ok = 0 then Inr (s, self)
                 else rbind (release_response self) (\<lambda>(self, sessionBufferPart). send_chain n ops s self sessionBufferPart))
            (\<lambda>(s, self). Inr (s, h, self\<lparr>ic_running := False\<rparr>)))"

definition on_data_indication ::
    "nat \<Rightarrow> 's socket_ops \<Rightarrow> 's \<Rightarrow> 'h \<Rightarrow> 'h IsoConnection \<Rightarrow> ('s \<times> 'h \<times> 'h IsoConnection) run" where
  "on_data_indication n ops s h self =
     rbind (IsoSession_parseMessage (ic_session self) (CotpConnection_getPayload (cotpConnection self)))
       (\<lambda>(sess, sIndication).
         let self = self\<lparr>ic_session := sess\<rparr>
         in rbind (case sIndication of
                SESSION_CONNECT \<Rightarrow> on_session_connect n ops s h self
              | SESSION_DATA \<Rightarrow> on_session_data n ops s h self
              | SESSION_FINISH \<Rightarrow> on_session_finish n ops s h self
              | _ \<Rightarrow> Inr (s, h, self\<lparr>ic_running := False\<rparr>))
            (\<lambda>(s, h, self). Inr (s, h, self\<lparr>cotpConnection := CotpConnection_resetPayload (cotpConnection self)\<rparr>)))"

definition IsoConnection_handleTcpConnection ::
    "nat \<Rightarrow> 's socket_ops \<Rightarrow> 's \<Rightarrow> 'h \<Rightarrow> 'h IsoConnection \<Rightarrow> ('s \<times> 'h \<times> 'h IsoConnection) run" where
  "IsoConnection_handleTcpConnection n ops s h self =
     rbind (CotpConnection_readToTpktBuffer ops s (cotpConnection self)) (\<lambda>(s, cotp, tpktState).
       let self = self\<lparr>cotpConnection := cotp\<rparr>
       in if tpktState = TPKT_ERROR then Inr (s, h, self\<lparr>ic_running := False\<rparr>)
          else if tpktState \<noteq> TPKT_PACKET_COMPLETE then Inr (s, h, self)
          else rbind (CotpConnection_parseIncomingMessage cotp) (\<lambda>(cotp, cotpIndication).
                 let self = self\<lparr>cotpConnection := cotp\<rparr>
                 in case cotpIndication of
                      COTP_MORE_FRAGMENTS_FOLLOW \<Rightarrow> Inr (s, h, self)
                    | COTP_CONNECT_INDICATION \<Rightarrow>
                        rbind (CotpConnection_sendConnectionResponseMessage n ops s cotp) (\<lambda>(s, cotp, _).
                          Inr (s, h, self\<lparr>cotpConnection := cotp\<rparr>))
                    | COTP_DATA_INDICATION \<Rightarrow> on_data_indication n ops s h self
                    | _ \<Rightarrow> Inr (s, h, self\<lparr>ic_running := False\<rparr>)))"

definition empty_buffer :: "int \<Rightarrow> ByteBuffer" where
  "empty_buffer n = \<lparr>buffer = replicate (nat n) 0, bsize = 0, maxSize = n\<rparr>"

definition zero_cotp :: CotpConnection where
  "zero_cotp =
     \<lparr>srcRef = 0, dstRef = 0, protocolClass = 0,
      options = \<lparr>tSelSrc = \<lparr>tsel_size = 0, tsel_value = replicate 4 0\<rparr>,
                 tSelDst = \<lparr>tsel_size = 0, tsel_value = replicate 4 0\<rparr>, tpduSize = 0\<rparr>,
      isLastDataUnit = False, payload = \<lparr>buffer = [], bsize = 0, maxSize = 0\<rparr>,
      writeBuffer = \<lparr>buffer = [], bsize = 0, maxSize = 0\<rparr>, readBuffer = \<lparr>buffer = [], bsize = 0, maxSize = 0\<rparr>,
      packetSize = 0\<rparr>"

text \<open>\<open>fresh_presentation\<close> and \<open>fresh_acse\<close> are the zeroed objects; buffers from \<open>malloc\<close> have arbitrary contents, here zeros.\<close>

definition IsoConnection_create :: "authenticator_fun option \<Rightarrow> 'h IsoConnection" where
  "IsoConnection_create auth =
     \<lparr>ic_sendBuffer = replicate (nat SEND_BUF_SIZE) 0, msgRcvdHandler = None, ic_running = True,
      ic_session = IsoSession_init,
      ic_presentation = IsoPresentation_init fresh_presentation,
      cotpConnection = CotpConnection_init zero_cotp (empty_buffer SEND_BUF_SIZE)
                         (empty_buffer (COTP_MAX_TPDU_SIZE + 4)) (empty_buffer (COTP_MAX_TPDU_SIZE + 4)),
      acseConnection = AcseConnection_init fresh_acse auth\<rparr>"

definition IsoConnection_installListener :: "'h IsoConnection \<Rightarrow> 'h message_handler \<Rightarrow> 'h IsoConnection" where
  "IsoConnection_installListener self handler = self\<lparr>msgRcvdHandler := Some handler\<rparr>"

definition IsoConnection_isRunning :: "'h IsoConnection \<Rightarrow> bool" where
  "IsoConnection_isRunning self = ic_running self"

definition IsoConnection_close :: "'h IsoConnection \<Rightarrow> 'h IsoConnection" where
  "IsoConnection_close self = (if ic_running self then self\<lparr>ic_running := False\<rparr> else self)"

definition IsoConnection_getSecurityToken :: "'h IsoConnection \<Rightarrow> nat option" where
  "IsoConnection_getSecurityToken self = securityToken (acseConnection self)"

text \<open>Unsolicited messages: the send buffer holds the headers only.\<close>

definition IsoConnection_sendMessage ::
    "nat \<Rightarrow> 's socket_ops \<Rightarrow> 's \<Rightarrow> 'h IsoConnection \<Rightarrow> ByteBuffer \<Rightarrow> ('s \<times> 'h IsoConnection) run" where
  "IsoConnection_sendMessage n ops s self message =
     (if \<not> ic_running self then Inr (s, self)
      else
        let payloadBuffer = BufferChain (bsize message) (bsize message) (bsize message) None (buffer message);
            sb = ic_sendBuffer self
        in rbind (IsoPresentation_createUserData (ic_presentation self) (part_at sb 0 SEND_BUF_SIZE) payloadBuffer)
             (\<lambda>presentationBuffer.
           let sb = store_part sb 0 presentationBuffer;
               sessionBuffer = IsoSession_createDataSpdu (ic_session self)
                                 (part_at sb (partLength presentationBuffer) 0) presentationBuffer
           in send_chain n ops s (self\<lparr>ic_sendBuffer := sb\<rparr>) sessionBuffer))"

end
