(* ===== verification/Iso_Client.thy ===== *)
theory Iso_Client
  imports Iso_Connection
begin

text \<open>
  The client's connection object, \<open>libiec61850/src/mms/iso_client/iso_client_connection.c\<close>. The socket state \<open>'s\<close>
  also carries the time of the system: sleeping and reading move it. The callbacks into the MMS client are the
  events a function returns; the thread that handles an established connection is a function from the state
  of the connection to these events. The semaphores and the flags that start and stop the thread are left out.
\<close>

section \<open>State\<close>

datatype IsoClientState = STATE_IDLE | STATE_ASSOCIATED | STATE_ERROR

datatype IsoClientEvent =
    ISO_IND_ASSOCIATION_SUCCESS ByteBuffer | ISO_IND_ASSOCIATION_FAILED | ISO_IND_CLOSED | ISO_IND_DATA ByteBuffer

text \<open>
  The three buffers the client hands to its transport connection are only used through it, so they are
  the fields \<open>payload\<close>, \<open>readBuffer\<close> and \<open>writeBuffer\<close> of \<open>icl_cotp\<close> from the start.
\<close>

record IsoClientConnection =
  icl_state :: IsoClientState
  icl_cotp :: CotpConnection
  icl_presentation :: IsoPresentation
  icl_session :: IsoSession
  icl_acse :: AcseConnection
  icl_sendBuffer :: "byte list"
  transmitPayloadBuffer :: ByteBuffer

definition ISO_CLIENT_BUFFER_SIZE :: int where
  "ISO_CLIENT_BUFFER_SIZE = 65000 + 100"

definition CONFIG_TCP_READ_TIMEOUT_MS :: int where
  "CONFIG_TCP_READ_TIMEOUT_MS = 1000"

definition IsoClientConnection_create :: IsoClientConnection where
  "IsoClientConnection_create =
     \<lparr>icl_state = STATE_IDLE,
      icl_cotp = zero_cotp\<lparr>payload := empty_buffer ISO_CLIENT_BUFFER_SIZE,
                           readBuffer := empty_buffer (COTP_MAX_TPDU_SIZE + 4),
                           writeBuffer := empty_buffer (COTP_MAX_TPDU_SIZE + 4)\<rparr>,
      icl_presentation = fresh_presentation,
      icl_session = IsoSession_init\<lparr>callingSessionSelector := zero_ssel, calledSessionSelector := zero_ssel,
                                    sessionRequirement := 0\<rparr>,
      icl_acse = fresh_acse,
      icl_sendBuffer = replicate (nat ISO_CLIENT_BUFFER_SIZE) 0,
      transmitPayloadBuffer = empty_buffer ISO_CLIENT_BUFFER_SIZE\<rparr>"

definition IsoClientConnection_allocateTransmitBuffer :: "IsoClientConnection \<Rightarrow> IsoClientConnection" where
  "IsoClientConnection_allocateTransmitBuffer self =
     self\<lparr>transmitPayloadBuffer := (transmitPayloadBuffer self)\<lparr>bsize := 0, maxSize := ISO_CLIENT_BUFFER_SIZE\<rparr>\<rparr>"


section \<open>Association\<close>

text \<open>
  The association request through the three layers. The payload lies at the start of the send buffer, the
  parts of the headers behind it.
\<close>

definition association_request ::
    "IsoClientConnection \<Rightarrow> IsoConnectionParameters \<Rightarrow> ByteBuffer \<Rightarrow> (IsoClientConnection \<times> BufferChain) run" where
  "association_request self params payld =
     (let acsePayload = BufferChain (bsize payld) (bsize payld) 0 None (buffer payld);
          self = self\<lparr>icl_acse := AcseConnection_init (icl_acse self) None\<rparr>;
          sb = icl_sendBuffer self; off = bsize payld
      in rbind (AcseConnection_createAssociateRequestMessage (icl_acse self) params
                  (part_at sb off (ISO_CLIENT_BUFFER_SIZE - off)) acsePayload (acseAuthParameter params)) (\<lambda>acseBuffer.
         let sb = store_part sb off acseBuffer; off = chain_length acseBuffer;
             pres = IsoPresentation_init (icl_presentation self)
         in rbind (IsoPresentation_createConnectPdu pres params (part_at sb off (ISO_CLIENT_BUFFER_SIZE - off)) acseBuffer)
              (\<lambda>(pres, presentationBuffer).
         let sb = store_part sb off presentationBuffer; off = chain_length presentationBuffer
         in rbind (IsoSession_createConnectSpdu IsoSession_init params (part_at sb off 0) presentationBuffer)
              (\<lambda>(sess, sessionBuffer).
           Inr (self\<lparr>icl_presentation := pres, icl_session := sess,
                     icl_sendBuffer := store_part sb off sessionBuffer\<rparr>, sessionBuffer)))))"

text \<open>The answer of the server: the payload of the MMS layer, or \<open>None\<close> for the jump to \<open>returnError\<close>.\<close>

definition association_answer ::
    "nat \<Rightarrow> IsoClientConnection \<Rightarrow> (IsoClientConnection \<times> ByteBuffer option) run" where
  "association_answer n self =
     rbind (IsoSession_parseMessage (icl_session self) (CotpConnection_getPayload (icl_cotp self))) (\<lambda>(sess, ind).
       let self = self\<lparr>icl_session := sess\<rparr>
       in if ind \<noteq> SESSION_CONNECT then Inr (self, None)
          else rbind (IsoPresentation_parseAcceptMessage n (icl_presentation self) (IsoSession_getUserData sess))
                 (\<lambda>(pres, ok).
            let self = self\<lparr>icl_presentation := pres\<rparr>
            in if ok = 0 then Inr (self, None)
               else rbind (AcseConnection_parseMessage n (icl_acse self) (nextPayload pres)) (\<lambda>(acse, ind).
                 let self = self\<lparr>icl_acse := acse\<rparr>
                 in if ind \<noteq> ACSE_ASSOCIATE then Inr (self, None)
                    else let size = userDataBufferSize acse;
                             octs = (case userDataBuffer acse of None \<Rightarrow> [] | Some b \<Rightarrow> b)
                         in Inr (self, Some \<lparr>buffer = octs, bsize = size, maxSize = size\<rparr>))))"

text \<open>Waiting for a packet; \<open>expired\<close> tells from the state whether the time is over.\<close>

fun await_packet ::
    "nat \<Rightarrow> 's socket_ops \<Rightarrow> ('s \<Rightarrow> bool) \<Rightarrow> 's \<Rightarrow> CotpConnection \<Rightarrow> ('s \<times> CotpConnection \<times> TpktState) run" where
  "await_packet 0 ops expired s cotp = Inl Out_of_fuel"
| "await_packet (Suc n) ops expired s cotp =
     rbind (CotpConnection_readToTpktBuffer ops s cotp) (\<lambda>(s, cotp, packetState).
       if packetState = TPKT_WAITING \<and> \<not> expired s then await_packet n ops expired s cotp
       else Inr (s, cotp, packetState))"

text \<open>The jump target \<open>returnError\<close>.\<close>

definition association_failed :: "'s \<Rightarrow> IsoClientConnection \<Rightarrow> ('s \<times> IsoClientConnection \<times> IsoClientEvent list) run" where
  "association_failed s self = Inr (s, self\<lparr>icl_state := STATE_ERROR\<rparr>, [ISO_IND_ASSOCIATION_FAILED])"

text \<open>
  \<open>connect\<close> is \<open>Socket_connect\<close> with the host name and the port, \<open>now\<close> is \<open>Hal_getTimeInMs\<close>. The result
  of sending the connection request is overwritten, and the state of the second packet is not looked at.
\<close>

definition IsoClientConnection_associate ::
    "nat \<Rightarrow> 's socket_ops \<Rightarrow> (string option \<Rightarrow> int \<Rightarrow> 's \<Rightarrow> 's \<times> bool) \<Rightarrow> ('s \<Rightarrow> int) \<Rightarrow> 's
     \<Rightarrow> IsoClientConnection \<Rightarrow> IsoConnectionParameters \<Rightarrow> ByteBuffer
     \<Rightarrow> ('s \<times> IsoClientConnection \<times> IsoClientEvent list) run" where
  "IsoClientConnection_associate n ops connect now s self params payld =
     (case connect (tcp_hostname params) (tcpPort params) s of (s, ok) \<Rightarrow>
        if \<not> ok then association_failed s self
        else
          let c = icl_cotp self; c = CotpConnection_init c (payload c) (readBuffer c) (writeBuffer c)
          in rbind (CotpConnection_sendConnectionRequestMessage n ops s c (remoteTSelector params) (localTSelector params))
               (\<lambda>(s, c, _).
             let timeout = now s + CONFIG_TCP_READ_TIMEOUT_MS
             in rbind (await_packet n ops (\<lambda>s. \<not> now s < timeout) s c) (\<lambda>(s, c, packetState).
                  if packetState \<noteq> TPKT_PACKET_COMPLETE then association_failed s (self\<lparr>icl_cotp := c\<rparr>)
                  else rbind (CotpConnection_parseIncomingMessage c) (\<lambda>(c, cotpIndication).
                    let self = self\<lparr>icl_cotp := c\<rparr>
                    in if cotpIndication \<noteq> COTP_CONNECT_INDICATION then association_failed s self
                       else rbind (association_request self params payld) (\<lambda>(self, sessionBuffer).
                            rbind (CotpConnection_sendDataMessage n ops s (icl_cotp self) sessionBuffer) (\<lambda>(s, c, _).
                            rbind (await_packet n ops (\<lambda>s. False) s c) (\<lambda>(s, c, packetState).
                            rbind (CotpConnection_parseIncomingMessage c) (\<lambda>(c, cotpIndication).
                              let self = self\<lparr>icl_cotp := c\<rparr>
                              in if cotpIndication \<noteq> COTP_DATA_INDICATION then association_failed s self
                                 else rbind (association_answer n self) (\<lambda>(self, answer).
                                   case answer of
                                     None \<Rightarrow> association_failed s self
                                   | Some b \<Rightarrow> Inr (s, self\<lparr>icl_state := STATE_ASSOCIATED\<rparr>,
                                                    [ISO_IND_ASSOCIATION_SUCCESS b]))))))))))"


section \<open>Data\<close>

definition client_chain ::
    "IsoClientConnection \<Rightarrow> ByteBuffer \<Rightarrow> (IsoClientConnection \<times> BufferChain) run" where
  "client_chain self payloadBuffer =
     (let payld = BufferChain_init (bsize payloadBuffer) (bsize payloadBuffer) None (buffer payloadBuffer);
          sb = icl_sendBuffer self; off = chain_length payld
      in rbind (IsoPresentation_createUserData (icl_presentation self) (part_at sb off ISO_CLIENT_BUFFER_SIZE) payld)
           (\<lambda>presentationBuffer.
             Inr (self\<lparr>icl_sendBuffer := store_part sb off presentationBuffer\<rparr>,
                  IsoSession_createDataSpdu (icl_session self) (BufferChain 0 0 0 None []) presentationBuffer)))"

definition client_send ::
    "nat \<Rightarrow> 's socket_ops \<Rightarrow> 's \<Rightarrow> IsoClientConnection \<Rightarrow> BufferChain \<Rightarrow> ('s \<times> IsoClientConnection) run" where
  "client_send n ops s self chain =
     rbind (CotpConnection_sendDataMessage n ops s (icl_cotp self) chain) (\<lambda>(s, c, _). Inr (s, self\<lparr>icl_cotp := c\<rparr>))"

definition IsoClientConnection_sendMessage ::
    "nat \<Rightarrow> 's socket_ops \<Rightarrow> 's \<Rightarrow> IsoClientConnection \<Rightarrow> ByteBuffer \<Rightarrow> ('s \<times> IsoClientConnection) run" where
  "IsoClientConnection_sendMessage n ops s self payloadBuffer =
     rbind (client_chain self payloadBuffer) (\<lambda>(self, sessionBuffer). client_send n ops s self sessionBuffer)"

text \<open>
  What the handling thread does with a complete TPDU; \<open>True\<close> in the result says that it goes on, \<open>False\<close> that it
  leaves its loop. The payload is reset in the branch that goes on only.
\<close>

definition client_message ::
    "IsoClientConnection \<Rightarrow> (IsoClientConnection \<times> IsoClientEvent list \<times> bool) run" where
  "client_message self =
     rbind (CotpConnection_parseIncomingMessage (icl_cotp self)) (\<lambda>(c, cotpIndication).
       let self = self\<lparr>icl_cotp := c\<rparr>
       in if cotpIndication = COTP_MORE_FRAGMENTS_FOLLOW then Inr (self, [], True)
          else if cotpIndication \<noteq> COTP_DATA_INDICATION then Inr (self, [], False)
          else rbind (IsoSession_parseMessage (icl_session self) (CotpConnection_getPayload c)) (\<lambda>(sess, ind).
            let self = self\<lparr>icl_session := sess\<rparr>
            in if ind \<noteq> SESSION_DATA then Inr (self, [], False)
               else rbind (IsoPresentation_parseUserData (icl_presentation self) (IsoSession_getUserData sess)) (\<lambda>(pres, ok).
                 let self = self\<lparr>icl_presentation := pres\<rparr>
                 in if ok = 0 then Inr (self, [], False)
                    else Inr (self\<lparr>icl_cotp := CotpConnection_resetPayload (icl_cotp self)\<rparr>,
                              [ISO_IND_DATA (nextPayload pres)], True))))"

text \<open>The end of the thread.\<close>

definition client_closed :: "IsoClientConnection \<Rightarrow> IsoClientConnection \<times> IsoClientEvent list" where
  "client_closed self = (self\<lparr>icl_state := STATE_IDLE\<rparr>, [ISO_IND_CLOSED])"

text \<open>\<open>connectionHandlingThread\<close>; \<open>stop\<close> is the flag that another thread sets.\<close>

fun handling_loop ::
    "nat \<Rightarrow> 's socket_ops \<Rightarrow> ('s \<Rightarrow> bool) \<Rightarrow> 's \<Rightarrow> IsoClientConnection
     \<Rightarrow> ('s \<times> IsoClientConnection \<times> IsoClientEvent list) run" where
  "handling_loop 0 ops stop s self = Inl Out_of_fuel"
| "handling_loop (Suc n) ops stop s self =
     rbind (CotpConnection_readToTpktBuffer ops s (icl_cotp self)) (\<lambda>(s, c, packetState).
       let self = self\<lparr>icl_cotp := c\<rparr>
       in if packetState = TPKT_WAITING \<and> \<not> stop s then handling_loop n ops stop s self
          else if packetState \<noteq> TPKT_PACKET_COMPLETE
          then (case client_closed self of (self, evs) \<Rightarrow> Inr (s, self, evs))
          else rbind (client_message self) (\<lambda>(self, evs, goes_on).
                 if goes_on
                 then rbind (handling_loop n ops stop s self) (\<lambda>(s, self, evs'). Inr (s, self, evs @ evs'))
                 else (case client_closed self of (self, evs') \<Rightarrow> Inr (s, self, evs @ evs'))))"

definition connectionHandlingThread ::
    "nat \<Rightarrow> 's socket_ops \<Rightarrow> ('s \<Rightarrow> bool) \<Rightarrow> 's \<Rightarrow> IsoClientConnection
     \<Rightarrow> ('s \<times> IsoClientConnection \<times> IsoClientEvent list) run" where
  "connectionHandlingThread n ops stop s self =
     handling_loop n ops stop s (self\<lparr>icl_cotp := CotpConnection_resetPayload (icl_cotp self)\<rparr>)"

text \<open>Abort and release: the short ACSE messages from the start of the send buffer.\<close>

definition IsoClientConnection_abort ::
    "nat \<Rightarrow> 's socket_ops \<Rightarrow> 's \<Rightarrow> IsoClientConnection \<Rightarrow> ('s \<times> IsoClientConnection) run" where
  "IsoClientConnection_abort n ops s self =
     (let self = IsoClientConnection_allocateTransmitBuffer self; sb = icl_sendBuffer self
      in rbind (AcseConnection_createAbortMessage (icl_acse self) (part_at sb 0 ISO_CLIENT_BUFFER_SIZE) False) (\<lambda>acseBuffer.
         let sb = store_part sb 0 acseBuffer; off = chain_length acseBuffer
         in rbind (IsoPresentation_createAbortUserMessage (icl_presentation self)
                     (part_at sb off (ISO_CLIENT_BUFFER_SIZE - off)) acseBuffer) (\<lambda>presentationBuffer.
         let sb = store_part sb off presentationBuffer; off = chain_length presentationBuffer
         in rbind (IsoSession_createAbortSpdu (icl_session self) (part_at sb off (ISO_CLIENT_BUFFER_SIZE - off))
                     presentationBuffer) (\<lambda>sessionBuffer.
              client_send n ops s (self\<lparr>icl_sendBuffer := store_part sb off sessionBuffer\<rparr>) sessionBuffer))))"

definition release_request :: "IsoClientConnection \<Rightarrow> (IsoClientConnection \<times> BufferChain) run" where
  "release_request self =
     (let sb = icl_sendBuffer self
      in rbind (AcseConnection_createReleaseRequestMessage (icl_acse self) (part_at sb 0 ISO_CLIENT_BUFFER_SIZE)) (\<lambda>acseBuffer.
         let sb = store_part sb 0 acseBuffer; off = chain_length acseBuffer
         in rbind (IsoPresentation_createUserDataACSE (icl_presentation self)
                     (part_at sb off (ISO_CLIENT_BUFFER_SIZE - off)) acseBuffer) (\<lambda>presentationBuffer.
         let sb = store_part sb off presentationBuffer; off = chain_length presentationBuffer
         in rbind (IsoSession_createFinishSpdu (icl_session self) (part_at sb off (ISO_CLIENT_BUFFER_SIZE - off))
                     presentationBuffer) (\<lambda>sessionBuffer.
              Inr (self\<lparr>icl_sendBuffer := store_part sb off sessionBuffer\<rparr>, sessionBuffer)))))"

definition IsoClientConnection_release ::
    "nat \<Rightarrow> 's socket_ops \<Rightarrow> 's \<Rightarrow> IsoClientConnection \<Rightarrow> ('s \<times> IsoClientConnection) run" where
  "IsoClientConnection_release n ops s self =
     rbind (release_request (IsoClientConnection_allocateTransmitBuffer self)) (\<lambda>(self, sessionBuffer).
       client_send n ops s self sessionBuffer)"

end
