(* ===== verification/Iso_Correct.thy ===== *)
theory Iso_Correct
  imports Iso_Client
begin

text \<open>
  The layers put together: what a client hands to its connection object arrives at the handler of the server,
  and the answer of the handler at the client, through ACSE, presentation, session and transport layer.
\<close>

unbundle bit_operations_syntax

section \<open>Chains built from part to part\<close>

text \<open>\<open>put_front c payld c'\<close>: \<open>c'\<close> is the part \<open>c\<close> with a header that is not empty, linked in front of \<open>payld\<close>.\<close>

definition put_front :: "BufferChain \<Rightarrow> BufferChain \<Rightarrow> BufferChain \<Rightarrow> bool" where
  "put_front c payld c' \<longleftrightarrow> (\<exists>hdr. hdr \<noteq> [] \<and> put_part c hdr payld = Inr c')"

lemma put_frontI: "put_part c hdr payld = Inr c' \<Longrightarrow> hdr \<noteq> [] \<Longrightarrow> put_front c payld c'"
  by (auto simp: put_front_def)

lemma put_front_parts:
  assumes "put_front c payld c'"
  shows "length (chain_buffer c') = length (chain_buffer c)"
    and "later_parts_nonempty c' \<longleftrightarrow> 0 < partLength payld \<and> later_parts_nonempty payld"
    and "0 < partLength c'"
  using assms by (auto simp: put_front_def put_part_def rbind_Inr_iff memcpy_to_def split: if_splits)

lemma encodeTL_nonempty [simp]: "BerEncoder_encodeTL t l buf \<noteq> []"
  by (simp add: BerEncoder_encodeTL_def BerEncoder_encodeLength_def)

lemma response_front:
  "AcseConnection_createAssociateResponseMessage self res c (Some payld) = Inr c' \<Longrightarrow> put_front c payld c'"
  unfolding AcseConnection_createAssociateResponseMessage_def Let_def option.case
  by (erule put_frontI) simp

lemma request_front:
  "AcseConnection_createAssociateRequestMessage self ps c payld ap = Inr c' \<Longrightarrow> put_front c payld c'"
  unfolding AcseConnection_createAssociateRequestMessage_def Let_def
  by (auto simp: rbind_Inr_iff elim!: put_frontI)

lemma connectPdu_front:
  "IsoPresentation_createConnectPdu self ps c payld = Inr (self', c') \<Longrightarrow> put_front c payld c'
    \<and> self' = self\<lparr>acseContextId := 1, mmsContextId := 3,
                    callingPresentationSelector := localPSelector ps, calledPresentationSelector := remotePSelector ps\<rparr>"
  unfolding IsoPresentation_createConnectPdu_def createConnectPdu_def encodeUserData_def Let_def prod.case_eq_if
  by (auto simp: rbind_Inr_iff elim!: put_frontI)

lemma cpa_front: "IsoPresentation_createCpaMessage self c payld = Inr c' \<Longrightarrow> put_front c payld c'"
  unfolding IsoPresentation_createCpaMessage_def encodeUserData_def Let_def prod.case_eq_if
  by (erule put_frontI) simp

lemma userData_front:
  "IsoPresentation_createUserData self c payld = Inr c' \<Longrightarrow> put_front c payld c'"
  "IsoPresentation_createUserDataACSE self c payld = Inr c' \<Longrightarrow> put_front c payld c'"
  unfolding IsoPresentation_createUserData_def IsoPresentation_createUserDataACSE_def user_data_header_def Let_def
  by (erule put_frontI, simp)+

lemma fill_length_nonempty [simp]: "fill_length hdr k = [] \<longleftrightarrow> hdr = []"
  by (simp add: fill_length_def)

lemma connectSpdu_front: "IsoSession_createConnectSpdu self ps c payld = Inr (self', c') \<Longrightarrow> put_front c payld c'"
  unfolding IsoSession_createConnectSpdu_def Let_def encodeSessionUserData_def
  by (auto simp: rbind_Inr_iff elim!: put_frontI)

lemma acceptSpdu_front: "IsoSession_createAcceptSpdu self c payld = Inr c' \<Longrightarrow> put_front c payld c'"
  unfolding IsoSession_createAcceptSpdu_def Let_def encodeSessionUserData_def
  by (auto simp: rbind_Inr_iff elim!: put_frontI)

lemmas front_rules = response_front request_front connectPdu_front cpa_front userData_front connectSpdu_front acceptSpdu_front

lemma dataSpdu_parts:
  assumes "chain_ok payld"
  shows "chain_ok (IsoSession_createDataSpdu s c payld)"
    and "chain_bytes (IsoSession_createDataSpdu s c payld) = dataSpdu @ chain_bytes payld"
    and "later_parts_nonempty (IsoSession_createDataSpdu s c payld) \<longleftrightarrow> 0 < partLength payld \<and> later_parts_nonempty payld"
  using assms by (simp_all add: IsoSession_createDataSpdu_def dataSpdu_def)

text \<open>Parts in the send buffer: room is what lies behind the offset.\<close>

lemma part_at_buffer [simp]: "chain_buffer (part_at sb off mx) = drop (nat off) sb"
  by (simp add: part_at_def)

lemma store_part_length:
  "put_front (part_at sb off mx) payld c \<Longrightarrow> off \<le> int (length sb) \<Longrightarrow> length (store_part sb off c) = length sb"
  using put_front_parts(1) [of "part_at sb off mx" payld c] by (auto simp: store_part_def)

text \<open>The part with the octets of the layer above.\<close>

lemma payload_part:
  assumes "holds b bs" and "bs \<noteq> []"
  shows "chain_ok (BufferChain (bsize b) (bsize b) mx None (buffer b))"
    and "chain_bytes (BufferChain (bsize b) (bsize b) mx None (buffer b)) = bs"
    and "later_parts_nonempty (BufferChain (bsize b) (bsize b) mx None (buffer b))"
    and "0 < partLength (BufferChain (bsize b) (bsize b) mx None (buffer b))"
proof -
  have t: "take (length bs) (buffer b) = bs" and s: "bsize b = int (length bs)" using assms by (simp_all add: holds_def)
  from t have "length bs \<le> length (buffer b)" by (metis length_take min.absorb_iff2 nat_le_linear take_all)
  with t s assms(2) show "chain_ok (BufferChain (bsize b) (bsize b) mx None (buffer b))"
    "chain_bytes (BufferChain (bsize b) (bsize b) mx None (buffer b)) = bs"
    "later_parts_nonempty (BufferChain (bsize b) (bsize b) mx None (buffer b))"
    "0 < partLength (BufferChain (bsize b) (bsize b) mx None (buffer b))" by simp_all
qed

section \<open>The association request\<close>

definition request_message :: "IsoConnectionParameters \<Rightarrow> byte list \<Rightarrow> byte list" where
  "request_message ps bs =
     (let ap = acseAuthParameter ps; content = concat (map aarq_octets (request_items ps ap bs))
      in acse_message 0x60 (int (length content) + not_sent ap) content)"

definition parameters_ok :: "IsoConnectionParameters \<Rightarrow> bool" where
  "parameters_ok ps \<longleftrightarrow> titles_ok ps \<and> auth_ok (acseAuthParameter ps)
     \<and> ssel_ok (remoteSSelector ps) \<and> ssel_ok (localSSelector ps)"

definition connect_message :: "IsoConnectionParameters \<Rightarrow> byte list \<Rightarrow> byte list" where
  "connect_message ps bs =
     (let P = fresh_presentation\<lparr>acseContextId := 1, mmsContextId := 3, callingPresentationSelector := localPSelector ps,
                                 calledPresentationSelector := remotePSelector ps\<rparr>
      in spdu_octets 13 (connect_params IsoSession_init (remoteSSelector ps) (localSSelector ps))
           (cp_message (connect_items P (request_message ps bs))))"

lemma connect_items_cong:
  "callingPresentationSelector p = callingPresentationSelector q \<Longrightarrow>
   calledPresentationSelector p = calledPresentationSelector q \<Longrightarrow> acseContextId p = acseContextId q \<Longrightarrow>
   connect_items p bs = connect_items q bs"
  by (simp add: connect_items_def)

lemma request_message_length:
  assumes "titles_ok ps" and "auth_ok (acseAuthParameter ps)" and "length bs \<le> 60000"
  shows "length (request_message ps bs) \<le> length bs + 1110"
proof -
  let ?ap = "acseAuthParameter ps"
  let ?c = "BufferChain (int (length bs)) (int (length bs)) 0 None bs"
  have c: "chain_ok ?c" "chain_bytes ?c = bs" by simp_all
  define content where "content = concat (map aarq_octets (request_items ps ?ap bs))"
  have "length content \<le> length bs + 1100"
    using request_octets(2) [of ps ?ap ?c "BufferChain 0 0 0 None (replicate 1200 0)"] assms c by (simp add: content_def)
  moreover have "length (acse_message t k x) \<le> length x + 4" for t k x
    by (simp add: acse_message_def len_bytes_def)
  moreover have "request_message ps bs = acse_message 0x60 (int (length content) + not_sent ?ap) content"
    by (simp add: request_message_def content_def Let_def)
  ultimately have "length (request_message ps bs) \<le> length content + 4" "length content \<le> length bs + 1100" by simp_all
  then show ?thesis by linarith
qed

lemma association_request_sent:
  assumes ps: "parameters_ok ps" and pl: "holds pl bs" "bs \<noteq> []" "length bs \<le> 60000"
    and sb: "length (icl_sendBuffer cl) = 65100"
  shows "\<exists>cl' chain. association_request cl ps pl = Inr (cl', chain) \<and> chain_ok chain \<and> later_parts_nonempty chain
    \<and> chain_bytes chain = connect_message ps bs \<and> icl_cotp cl' = icl_cotp cl
    \<and> mmsContextId (icl_presentation cl') = 3 \<and> acseContextId (icl_presentation cl') = 1
    \<and> length (icl_sendBuffer cl') = 65100
    \<and> ssel_ok (calledSessionSelector (icl_session cl')) \<and> ssel_ok (callingSessionSelector (icl_session cl'))
    \<and> authenticator (icl_acse cl') = None"
proof -
  let ?ap = "acseAuthParameter ps" and ?c0 = "BufferChain (bsize pl) (bsize pl) 0 None (buffer pl)"
  let ?sb = "icl_sendBuffer cl"
  note ps' = ps [unfolded parameters_ok_def]
  note c0 = payload_part [OF pl(1,2), of 0]
  have bs: "bsize pl = int (length bs)" using pl(1) by (simp add: holds_def)
  let ?a = "AcseConnection_init (icl_acse cl) None" and ?w1 = "part_at ?sb (bsize pl) (ISO_CLIENT_BUFFER_SIZE - bsize pl)"
  have "1200 \<le> length (chain_buffer ?w1)" using sb bs pl(3) by simp
  from request_octets(1) [OF _ _ c0(1), of ps ?ap ?w1 ?a] ps' c0(2) pl(3) this obtain c1 where
    c1: "AcseConnection_createAssociateRequestMessage ?a ps ?w1 ?c0 ?ap = Inr c1" "chain_ok c1"
      "chain_bytes c1 = request_message ps bs" by (auto simp: request_message_def Let_def)
  note f1 = request_front [OF c1(1)]
  have l1: "length (request_message ps bs) \<le> 61110" using request_message_length [of ps bs] ps' pl(3) by simp
  have o1: "chain_length c1 = int (length (request_message ps bs))" using chain_length_bytes [OF c1(2)] c1(3) by simp
  let ?sb1 = "store_part ?sb (bsize pl) c1"
  have s1: "length ?sb1 = 65100" using store_part_length [OF f1] sb bs pl(3) by simp
  let ?w2 = "part_at ?sb1 (chain_length c1) (ISO_CLIENT_BUFFER_SIZE - chain_length c1)"
  let ?P = "(icl_presentation cl)\<lparr>acseContextId := 1, mmsContextId := 3, callingPresentationSelector := localPSelector ps,
                 calledPresentationSelector := remotePSelector ps\<rparr>"
  have w2: "128 \<le> length (chain_buffer ?w2)" using s1 o1 l1 by simp
  have lc1: "length (chain_bytes c1) \<le> 65000" using c1(3) l1 by simp
  from createConnectPdu_octets [OF c1(2) lc1 w2, of ?P] obtain c2 where
    c2: "IsoPresentation_createConnectPdu (icl_presentation cl) ps ?w2 c1 = Inr (?P, c2)" "chain_ok c2"
      "chain_bytes c2 = cp_message (connect_items ?P (request_message ps bs))"
    using c1(3) by (auto simp: IsoPresentation_createConnectPdu_def)
  have f2: "put_front ?w2 c1 c2" using connectPdu_front [OF c2(1)] by blast
  have l2: "length (chain_bytes c2) \<le> 61238" using connect_items_ok(2) [of "request_message ps bs" ?P] c2(3) l1 by simp
  have o2: "chain_length c2 = int (length (chain_bytes c2))" using chain_length_bytes [OF c2(2)] by simp
  let ?sb2 = "store_part ?sb1 (chain_length c1) c2"
  have s2: "length ?sb2 = 65100" using store_part_length [OF f2] s1 o1 l1 by simp
  let ?w3 = "part_at ?sb2 (chain_length c2) 0"
  let ?S = "IsoSession_init\<lparr>calledSessionSelector := remoteSSelector ps, callingSessionSelector := localSSelector ps\<rparr>"
  have "64 \<le> length (chain_buffer ?w3)" using s2 o2 l2 by simp
  from createConnectSpdu_octets [OF _ _ c2(2) this, of ps IsoSession_init] ps' obtain c3 where
    c3: "IsoSession_createConnectSpdu IsoSession_init ps ?w3 c2 = Inr (?S, c3)" "chain_ok c3"
      "chain_bytes c3 = connect_message ps bs"
    using c2(3) by (auto simp: connect_message_def Let_def connect_items_def)
  have f3: "put_front ?w3 c2 c3" using connectSpdu_front [OF c3(1)] .
  have s3: "length (store_part ?sb2 (chain_length c2) c3) = 65100" using store_part_length [OF f3] s2 o2 l2 by simp
  have "association_request cl ps pl
      = Inr (cl\<lparr>icl_acse := ?a, icl_presentation := ?P, icl_session := ?S, icl_sendBuffer := store_part ?sb2 (chain_length c2) c3\<rparr>, c3)"
    using c1(1) c2(1) c3(1) by (simp add: association_request_def Let_def IsoPresentation_init_def)
  moreover have "later_parts_nonempty c3"
    using put_front_parts [OF f1] put_front_parts [OF f2] put_front_parts [OF f3] c0(3,4) by simp
  ultimately show ?thesis using c3(2,3) s3 ps' by (simp add: AcseConnection_init_def)
qed

lemma connect_understood:
  fixes m :: ByteBuffer and a :: AcseConnection
  assumes ps: "parameters_ok ps" and m: "holds m (connect_message ps bs)" and short: "length (connect_message ps bs) \<le> 257"
    and bs: "length bs \<le> 60000" and r: "ssel_ok (callingSessionSelector r)" "ssel_ok (calledSessionSelector r)"
    and n: "length bs + 1300 \<le> n" and auth: "\<forall>f. authenticator a = Some f \<longrightarrow> reads_length_only f"
  shows "\<exists>r' p' a'. IsoSession_parseMessage r m = Inr (r', SESSION_CONNECT)
    \<and> ssel_ok (calledSessionSelector r')
    \<and> IsoPresentation_parseConnect n p (IsoSession_getUserData r') = Inr (p', 1)
    \<and> acseContextId p' = 1 \<and> mmsContextId p' = 3
    \<and> AcseConnection_parseMessage n a (nextPayload p')
        = Inr (a', if accepts (authenticator a) (offered_mechanism (acseAuthParameter ps)) (offered_value (acseAuthParameter ps))
                   then ACSE_ASSOCIATE else ACSE_ASSOCIATE_FAILED)
    \<and> nextReference a' = 3 \<and> points_to (userDataBuffer a') (userDataBufferSize a') (Some bs)"
proof -
  let ?ap = "acseAuthParameter ps" and ?acse = "request_message ps bs"
  let ?P = "fresh_presentation\<lparr>acseContextId := 1, mmsContextId := 3, callingPresentationSelector := localPSelector ps,
                                 calledPresentationSelector := remotePSelector ps\<rparr>"
  let ?prs = "connect_params IsoSession_init (remoteSSelector ps) (localSSelector ps)"
  let ?its = "connect_items ?P ?acse"
  note ps' = ps [unfolded parameters_ok_def]
  have msg: "connect_message ps bs = spdu_octets 13 ?prs (cp_message ?its)" by (simp add: connect_message_def Let_def)
  from connect_params_effect [OF _ _ r, of "remoteSSelector ps" "localSSelector ps" IsoSession_init] ps' obtain r1 where
    ok: "list_all param_ok ?prs" and eff: "param_effects r ?prs = Some r1" "ssel_ok (calledSessionSelector r1)" by blast
  have ind: "spdu_indication 13 = Some SESSION_CONNECT" by (simp add: spdu_indication_def)
  from parseMessage_spdu [OF ind ok short [unfolded msg] m [unfolded msg], of r] eff obtain u where
    s: "IsoSession_parseMessage r m = Inr (r1\<lparr>ss_userData := u\<rparr>, SESSION_CONNECT)" "holds u (cp_message ?its)" by auto
  have l1: "length ?acse \<le> length bs + 1110" using request_message_length [of ps bs] ps' bs by simp
  then have l65: "length ?acse \<le> 65000" using bs by simp
  note cok = connect_items_ok [OF l65, where self = ?P]
  have l2: "length (cp_message ?its) \<le> 65536" "length (cp_message ?its) \<le> n" using cok(2) l1 bs n by linarith+
  let ?view = "\<lparr>v_next = nextContextId p, v_acse = acseContextId p, v_mms = mmsContextId p, v_payload = None\<rparr>"
  have rel: "pres_rel p ?view" by (simp add: pres_rel_def)
  from parseConnect_items [OF cok(1) l2(1) s(2) rel l2(2)] cok(3) [of ?view] obtain p' where
    p': "IsoPresentation_parseConnect n p u = Inr (p', 1)" "acseContextId p' = 1" "mmsContextId p' = 3"
      "holds (nextPayload p') ?acse" by (auto simp: pres_rel_def)
  let ?rits = "request_items ps ?ap bs" and ?arel = "\<lparr>a_ref = nextReference a, a_data = None\<rparr>"
  let ?content = "concat (map aarq_octets ?rits)"
  let ?c = "BufferChain (int (length bs)) (int (length bs)) 0 None bs"
  note req = request_octets [of ps ?ap ?c "BufferChain 0 0 0 None (replicate 1200 0)", simplified]
  have rq: "length ?content \<le> length bs + 1100" "list_all aarq_ok ?rits" using req(2,3) ps' bs by simp_all
  have ns: "0 \<le> not_sent ?ap" "not_sent ?ap \<le> 7" by (simp_all add: not_sent_def split: option.splits)
  have k: "0 \<le> int (length ?content) + not_sent ?ap" "int (length ?content) + not_sent ?ap < 65536"
    using rq(1) bs ns by linarith+
  have l: "length ?content < 65536" "length ?content \<le> n" using rq(1) bs n by linarith+
  have ne: "?rits \<noteq> []" by (simp add: request_items_def)
  have arel: "acse_rel (authenticator a) a ?arel" by (simp add: acse_rel_def)
  have h: "holds (nextPayload p') (acse_message 0x60 (int (length ?content) + not_sent ?ap) ?content)"
    using p'(4) by (simp add: request_message_def Let_def)
  from parse_request_items [OF rq(2) k l(1) ne h l(2) arel auth] obtain a' where
    "AcseConnection_parseMessage n a (nextPayload p')
        = Inr (a', if accepts (authenticator a) (offered_mechanism ?ap) (offered_value ?ap)
                   then ACSE_ASSOCIATE else ACSE_ASSOCIATE_FAILED)"
    "nextReference a' = 3" "points_to (userDataBuffer a') (userDataBufferSize a') (Some bs)"
    unfolding request_meaning by (auto simp: acse_rel_def)
  with s p' eff(2) show ?thesis by (auto simp: IsoSession_getUserData_def intro!: exI)
qed

section \<open>The association response\<close>

definition response_message :: "AcseConnection \<Rightarrow> byte list \<Rightarrow> byte list" where
  "response_message a bs =
     (let content = concat (map aare_octets (response_items a ACSE_RESULT_ACCEPT bs))
      in acse_message 0x61 (int (length content)) content)"

definition accept_message :: "AcseConnection \<Rightarrow> IsoPresentation \<Rightarrow> IsoSession \<Rightarrow> byte list \<Rightarrow> byte list" where
  "accept_message a p s bs = spdu_octets 14 (accept_params s) (cp_message (cpa_items p (response_message a bs)))"

lemma response_message_length:
  assumes "length bs \<le> 64000"
  shows "length (response_message a bs) \<le> length bs + 54"
proof -
  define content where "content = concat (map aare_octets (response_items a ACSE_RESULT_ACCEPT bs))"
  let ?c = "BufferChain (int (length bs)) (int (length bs)) 0 None bs"
  have "length content \<le> length bs + 50"
    using response_octets(2) [of ?c "BufferChain 0 0 0 None (replicate 64 0)" a ACSE_RESULT_ACCEPT] assms
    by (simp add: content_def)
  moreover have "length (acse_message t k x) \<le> length x + 4" for t k x
    by (simp add: acse_message_def len_bytes_def)
  moreover have "response_message a bs = acse_message 0x61 (int (length content)) content"
    by (simp add: response_message_def content_def Let_def)
  ultimately have "length (response_message a bs) \<le> length content + 4" "length content \<le> length bs + 50" by simp_all
  then show ?thesis by linarith
qed

lemma association_response_sent:
  assumes resp: "holds resp bs" "bs \<noteq> []" "length bs \<le> 60000" "buffer resp = ic_sendBuffer srv"
    and sb: "length (ic_sendBuffer srv) = 65100" and sel: "ssel_ok (calledSessionSelector (ic_session srv))"
  shows "\<exists>sb' chain. associate_response srv resp = Inr (srv\<lparr>ic_sendBuffer := sb'\<rparr>, chain) \<and> length sb' = 65100
    \<and> chain_ok chain \<and> later_parts_nonempty chain
    \<and> chain_bytes chain = accept_message (acseConnection srv) (ic_presentation srv) (ic_session srv) bs"
proof -
  let ?sb = "ic_sendBuffer srv" and ?c0 = "BufferChain (bsize resp) (bsize resp) (bsize resp) None (ic_sendBuffer srv)"
  let ?a = "acseConnection srv" and ?P = "ic_presentation srv" and ?S = "ic_session srv"
  note c0 = payload_part [OF resp(1,2), of "bsize resp", unfolded resp(4)]
  have init: "BufferChain_init (bsize resp) (bsize resp) None ?sb = ?c0" by (simp add: BufferChain_init_def)
  have bs: "bsize resp = int (length bs)" using resp(1) by (simp add: holds_def)
  let ?w1 = "part_at ?sb (bsize resp) (SEND_BUF_SIZE - bsize resp)"
  have "64 \<le> length (chain_buffer ?w1)" using sb bs resp(3) by simp
  from response_octets(1) [OF c0(1) _ this, of ?a ACSE_RESULT_ACCEPT] c0(2) resp(3) obtain c1 where
    c1: "AcseConnection_createAssociateResponseMessage ?a ACSE_RESULT_ACCEPT ?w1 (Some ?c0) = Inr c1" "chain_ok c1"
      "chain_bytes c1 = response_message ?a bs" by (auto simp: response_message_def Let_def)
  note f1 = response_front [OF c1(1)]
  have l1: "length (response_message ?a bs) \<le> 60054" using response_message_length [of bs ?a] resp(3) by simp
  have o1: "chain_length c1 = int (length (response_message ?a bs))" using chain_length_bytes [OF c1(2)] c1(3) by simp
  let ?sb1 = "store_part ?sb (bsize resp) c1"
  have s1: "length ?sb1 = 65100" using store_part_length [OF f1] sb bs resp(3) by simp
  let ?w2 = "part_at ?sb1 (chain_length c1) (SEND_BUF_SIZE - chain_length c1)"
  have w2: "128 \<le> length (chain_buffer ?w2)" using s1 o1 l1 by simp
  have lc1: "length (chain_bytes c1) \<le> 65000" using c1(3) l1 by simp
  from createCpaMessage_octets [OF c1(2) lc1 w2, of ?P] obtain c2 where
    c2: "IsoPresentation_createCpaMessage ?P ?w2 c1 = Inr c2" "chain_ok c2"
      "chain_bytes c2 = cp_message (cpa_items ?P (response_message ?a bs))" using c1(3) by auto
  note f2 = cpa_front [OF c2(1)]
  have l2: "length (chain_bytes c2) \<le> 60182" using cpa_items_ok(2) [of "response_message ?a bs" ?P] c2(3) l1 by simp
  have o2: "chain_length c2 = int (length (chain_bytes c2))" using chain_length_bytes [OF c2(2)] by simp
  let ?sb2 = "store_part ?sb1 (chain_length c1) c2"
  have s2: "length ?sb2 = 65100" using store_part_length [OF f2] s1 o1 l1 by simp
  let ?w3 = "part_at ?sb2 (chain_length c2) (SEND_BUF_SIZE - chain_length c2)"
  have "64 \<le> length (chain_buffer ?w3)" using s2 o2 l2 by simp
  from createAcceptSpdu_octets [OF sel c2(2) this] obtain c3 where
    c3: "IsoSession_createAcceptSpdu ?S ?w3 c2 = Inr c3" "chain_ok c3" "chain_bytes c3 = accept_message ?a ?P ?S bs"
    using c2(3) by (auto simp: accept_message_def)
  note f3 = acceptSpdu_front [OF c3(1)]
  have s3: "length (store_part ?sb2 (chain_length c2) c3) = 65100" using store_part_length [OF f3] s2 o2 l2 by simp
  have "associate_response srv resp = Inr (srv\<lparr>ic_sendBuffer := store_part ?sb2 (chain_length c2) c3\<rparr>, c3)"
    using c1(1) c2(1) c3(1) unfolding associate_response_def init by (simp add: Let_def)
  moreover have "later_parts_nonempty c3"
    using put_front_parts [OF f1] put_front_parts [OF f2] put_front_parts [OF f3] c0(3,4) by simp
  ultimately show ?thesis using c3(2,3) s3 by blast
qed

lemma accept_understood:
  assumes m: "holds (payload (icl_cotp cl)) (accept_message a p s bs)" and short: "length (accept_message a p s bs) \<le> 257"
    and bs: "length bs \<le> 60000" and n: "length bs + 200 \<le> n"
    and sel: "ssel_ok (calledSessionSelector s)" "ssel_ok (calledSessionSelector (icl_session cl))"
    and ref: "0 \<le> nextReference a" "nextReference a < 2 ^ 32"
  shows "\<exists>cl' b. association_answer n cl = Inr (cl', Some b) \<and> holds b bs \<and> icl_cotp cl' = icl_cotp cl
    \<and> acseContextId (icl_presentation cl') = acseContextId (icl_presentation cl)
    \<and> mmsContextId (icl_presentation cl') = mmsContextId (icl_presentation cl)
    \<and> icl_sendBuffer cl' = icl_sendBuffer cl"
proof -
  let ?acse = "response_message a bs"
  let ?its = "cpa_items p ?acse" and ?S = "icl_session cl" and ?P = "icl_presentation cl" and ?A = "icl_acse cl"
  from accept_params_effect [OF sel] obtain r1 where
    ok: "list_all param_ok (accept_params s)" and eff: "param_effects ?S (accept_params s) = Some r1" by blast
  have ind: "spdu_indication 14 = Some SESSION_CONNECT" by (simp add: spdu_indication_def)
  from parseMessage_spdu [OF ind ok short [unfolded accept_message_def] m [unfolded accept_message_def], of ?S] eff obtain u where
    s: "IsoSession_parseMessage ?S (payload (icl_cotp cl)) = Inr (r1\<lparr>ss_userData := u\<rparr>, SESSION_CONNECT)"
      "holds u (cp_message ?its)" by auto
  have l1: "length ?acse \<le> length bs + 54" using response_message_length [of bs a] bs by simp
  then have l65: "length ?acse \<le> 65000" using bs by simp
  note cok = cpa_items_ok [OF l65, where self = p]
  have l2: "length (cp_message ?its) \<le> 65536" "length (cp_message ?its) \<le> n" using cok(2) l1 bs n by linarith+
  let ?view = "\<lparr>v_next = nextContextId ?P, v_acse = acseContextId ?P, v_mms = mmsContextId ?P, v_payload = None\<rparr>"
  have rel: "pres_rel ?P ?view" by (simp add: pres_rel_def)
  from parseAcceptMessage_items [OF cok(1) l2(1) s(2) rel l2(2)] cok(3) [of ?view] obtain p' where
    p': "IsoPresentation_parseAcceptMessage n ?P u = Inr (p', 1)" "acseContextId p' = acseContextId ?P"
      "mmsContextId p' = mmsContextId ?P" "holds (nextPayload p') ?acse" by (auto simp: pres_rel_def)
  let ?c = "BufferChain (int (length bs)) (int (length bs)) 0 None bs"
  have h: "holds (nextPayload p') (response_message a (chain_bytes ?c))" using p'(4) by simp
  have "\<exists>r'. AcseConnection_parseMessage n ?A (nextPayload p') = Inr (r', ACSE_ASSOCIATE)
      \<and> points_to (userDataBuffer r') (userDataBufferSize r') (Some bs)"
  proof -
    have "chain_ok ?c" "length (chain_bytes ?c) \<le> 64000" "64 \<le> length (chain_buffer (BufferChain 0 0 0 None (replicate 64 0)))"
      "length (chain_bytes ?c) + 50 \<le> n" using bs n by simp_all
    from associate_response_read [OF this ref, of ACSE_RESULT_ACCEPT] obtain c' where
      c': "chain_bytes c' = response_message a bs"
      "\<forall>m r. holds m (chain_bytes c') \<longrightarrow>
         (\<exists>r'. AcseConnection_parseMessage n r m
              = Inr (r', if ACSE_RESULT_ACCEPT = 0 then ACSE_ASSOCIATE else ACSE_ASSOCIATE_FAILED)
            \<and> nextReference r' = nextReference a
            \<and> points_to (userDataBuffer r') (userDataBufferSize r') (Some bs))" by (auto simp: response_message_def Let_def)
    from p'(4) have "holds (nextPayload p') (chain_bytes c')" by (simp add: c'(1))
    from c'(2) [rule_format, OF this, of ?A] show ?thesis by (auto simp: ACSE_RESULT_ACCEPT_def)
  qed
  then obtain a' where a': "AcseConnection_parseMessage n ?A (nextPayload p') = Inr (a', ACSE_ASSOCIATE)"
      "points_to (userDataBuffer a') (userDataBufferSize a') (Some bs)" by blast
  let ?b = "\<lparr>buffer = case userDataBuffer a' of None \<Rightarrow> [] | Some b \<Rightarrow> b, bsize = userDataBufferSize a', maxSize = userDataBufferSize a'\<rparr>"
  have "association_answer n cl = Inr (cl\<lparr>icl_session := r1\<lparr>ss_userData := u\<rparr>, icl_presentation := p', icl_acse := a'\<rparr>, Some ?b)"
    using s(1) p'(1) a'(1)
    by (simp add: association_answer_def CotpConnection_getPayload_def IsoSession_getUserData_def Let_def)
  moreover have "holds ?b bs" using a'(2) by (auto simp: holds_def split: option.splits)
  ultimately show ?thesis using p'(2,3) by auto
qed

section \<open>The server\<close>

text \<open>
  \<open>serves f g\<close>: the handler \<open>f\<close> reads the octets of its request only and leaves the octets \<open>g\<close> says in the
  response buffer.
\<close>

definition serves :: "'h message_handler \<Rightarrow> ('h \<Rightarrow> byte list \<Rightarrow> 'h \<times> byte list) \<Rightarrow> bool" where
  "serves f g \<longleftrightarrow> (\<forall>h req resp bs. holds req bs \<longrightarrow> length bs \<le> 60000 \<longrightarrow> length (buffer resp) = 65100 \<longrightarrow>
     (\<exists>resp'. f h req resp = Inr (fst (g h bs), resp') \<and> holds resp' (snd (g h bs)) \<and> length (buffer resp') = 65100))"

definition transport_ready :: "CotpConnection \<Rightarrow> bool" where
  "transport_ready c \<longleftrightarrow> 2 \<le> unat (tpduSize (options c))
     \<and> CotpConnection_getTpduSize c + 4 \<le> int (length (buffer (writeBuffer c)))"

definition server_ready :: "'h message_handler \<Rightarrow> 'h IsoConnection \<Rightarrow> bool" where
  "server_ready f srv \<longleftrightarrow> msgRcvdHandler srv = Some f \<and> ic_running srv \<and> length (ic_sendBuffer srv) = 65100
     \<and> ssel_ok (callingSessionSelector (ic_session srv)) \<and> ssel_ok (calledSessionSelector (ic_session srv))
     \<and> (\<forall>v. authenticator (acseConnection srv) = Some v \<longrightarrow> reads_length_only v)
     \<and> transport_ready (cotpConnection srv)"

text \<open>The connection object when the transport layer has put a message together.\<close>

definition with_message :: "ByteBuffer \<Rightarrow> 'h IsoConnection \<Rightarrow> 'h IsoConnection" where
  "with_message m srv = srv\<lparr>cotpConnection := (cotpConnection srv)\<lparr>payload := m\<rparr>\<rparr>"

lemma call_handler_serves:
  assumes "serves f g" and "msgRcvdHandler srv = Some f" and "length (ic_sendBuffer srv) = 65100"
    and "holds req bs" and "length bs \<le> 60000"
  shows "\<exists>resp. call_handler h srv req = Inr (fst (g h bs), srv\<lparr>ic_sendBuffer := buffer resp\<rparr>, resp)
     \<and> holds resp (snd (g h bs)) \<and> length (buffer resp) = 65100"
proof -
  have "length (buffer \<lparr>buffer = ic_sendBuffer srv, bsize = 0, maxSize = SEND_BUF_SIZE\<rparr>) = 65100" using assms(3) by simp
  with assms(1,4,5) obtain resp where
    "f h req \<lparr>buffer = ic_sendBuffer srv, bsize = 0, maxSize = SEND_BUF_SIZE\<rparr> = Inr (fst (g h bs), resp)"
    "holds resp (snd (g h bs))" "length (buffer resp) = 65100" unfolding serves_def by blast
  with assms(2) show ?thesis by (auto simp: call_handler_def)
qed

lemma send_chain_frames:
  assumes "accepts_all ops sent" and "transport_ready (cotpConnection srv)" and "chain_ok c" and "later_parts_nonempty c"
  shows "\<exists>s' cotp' pieces. send_chain (Suc k) ops s srv c = Inr (s', srv\<lparr>cotpConnection := cotp'\<rparr>)
     \<and> sent s' = sent s @ frames pieces \<and> pieces \<noteq> [] \<and> concat pieces = chain_bytes c"
proof -
  from sendDataMessage_pieces [OF assms(1,3,4), of "cotpConnection srv" k s] assms(2) obtain s' c' pieces where
    "CotpConnection_sendDataMessage (Suc k) ops s (cotpConnection srv) c = Inr (s', c', COTP_OK)"
    "sent s' = sent s @ frames pieces" "pieces \<noteq> []" "concat pieces = chain_bytes c"
    by (auto simp: transport_ready_def)
  then show ?thesis by (auto simp: send_chain_def simp del: CotpConnection_sendDataMessage_def)
qed

lemma server_refuses_session:
  assumes "IsoSession_parseMessage (ic_session srv) m = Inr (r', SESSION_ERROR)"
  shows "\<exists>srv'. on_data_indication n ops s h (with_message m srv) = Inr (s, h, srv') \<and> \<not> ic_running srv'"
  using assms by (simp add: on_data_indication_def with_message_def CotpConnection_getPayload_def Let_def)

lemma server_answers_request:
  fixes srv :: "'h IsoConnection" and h :: 'h
  assumes ok: "accepts_all ops sent" and f: "serves f g" and srv: "server_ready f srv" and ps: "parameters_ok ps"
    and m: "holds m (connect_message ps bs)" and short: "length (connect_message ps bs) \<le> 257" and bs: "length bs \<le> 60000"
    and n: "n = Suc k" "length bs + 1300 \<le> n" and ans: "snd (g h bs) \<noteq> []" "length (snd (g h bs)) \<le> 60000"
  shows "if accepts (authenticator (acseConnection srv)) (offered_mechanism (acseAuthParameter ps)) (offered_value (acseAuthParameter ps))
    then \<exists>s' srv' pieces a p r. on_data_indication n ops s h (with_message m srv) = Inr (s', fst (g h bs), srv')
       \<and> ic_running srv' \<and> mmsContextId (ic_presentation srv') = 3
       \<and> msgRcvdHandler srv' = Some f \<and> length (ic_sendBuffer srv') = 65100
       \<and> sent s' = sent s @ frames pieces \<and> concat pieces = accept_message a p r (snd (g h bs))
       \<and> nextReference a = 3 \<and> ssel_ok (calledSessionSelector r)
    else \<exists>srv'. on_data_indication n ops s h (with_message m srv) = Inr (s, h, srv') \<and> \<not> ic_running srv'"
proof -
  let ?acc = "accepts (authenticator (acseConnection srv)) (offered_mechanism (acseAuthParameter ps)) (offered_value (acseAuthParameter ps))"
  let ?S = "with_message m srv"
  note srv' = srv [unfolded server_ready_def]
  from connect_understood [OF ps m short bs _ _ n(2), of "ic_session srv" "acseConnection srv" "ic_presentation srv"] srv'
  obtain r' p' a' where
    1: "IsoSession_parseMessage (ic_session srv) m = Inr (r', SESSION_CONNECT)" "ssel_ok (calledSessionSelector r')"
    and 2: "IsoPresentation_parseConnect n (ic_presentation srv) (IsoSession_getUserData r') = Inr (p', 1)"
      "acseContextId p' = 1" "mmsContextId p' = 3"
    and 3: "AcseConnection_parseMessage n (acseConnection srv) (nextPayload p')
              = Inr (a', if ?acc then ACSE_ASSOCIATE else ACSE_ASSOCIATE_FAILED)"
      "nextReference a' = 3" "points_to (userDataBuffer a') (userDataBufferSize a') (Some bs)" by metis
  let ?S1 = "?S\<lparr>ic_session := r', ic_presentation := p', acseConnection := a'\<rparr>"
  have payl: "payload (cotpConnection ?S) = m" by (simp add: with_message_def)
  have fld: "ic_session ?S = ic_session srv" "ic_presentation ?S = ic_presentation srv" "acseConnection ?S = acseConnection srv"
    by (simp_all add: with_message_def)
  have red: "on_data_indication n ops s h ?S
      = rbind (if ?acc then on_associate n ops s h ?S1 else Inr (s, h, ?S1\<lparr>ic_running := False\<rparr>))
         (\<lambda>(s, h, self). Inr (s, h, self\<lparr>cotpConnection := CotpConnection_resetPayload (cotpConnection self)\<rparr>))"
    using 1(1) 2(1) 3(1) unfolding on_data_indication_def CotpConnection_getPayload_def payl fld
    by (simp add: on_session_connect_def fld Let_def)
  show ?thesis
  proof (cases ?acc)
    case False
    with red show ?thesis by simp
  next
    case True
    let ?req = "\<lparr>buffer = case userDataBuffer a' of None \<Rightarrow> [] | Some b \<Rightarrow> b, bsize = userDataBufferSize a', maxSize = userDataBufferSize a'\<rparr>"
    have req: "holds ?req bs" using 3(3) by (auto simp: holds_def split: option.splits)
    have S1: "msgRcvdHandler ?S1 = Some f" "length (ic_sendBuffer ?S1) = 65100" using srv' by (simp_all add: with_message_def)
    from call_handler_serves [OF f S1 req bs, of h] obtain resp where
      c: "call_handler h ?S1 ?req = Inr (fst (g h bs), ?S1\<lparr>ic_sendBuffer := buffer resp\<rparr>, resp)"
        "holds resp (snd (g h bs))" "length (buffer resp) = 65100" by blast
    let ?S2 = "?S1\<lparr>ic_sendBuffer := buffer resp\<rparr>"
    have S2: "buffer resp = ic_sendBuffer ?S2" "length (ic_sendBuffer ?S2) = 65100"
      "ssel_ok (calledSessionSelector (ic_session ?S2))" using c(3) 1(2) by simp_all
    from association_response_sent [OF c(2) ans S2] obtain sb' chain where
      a: "associate_response ?S2 resp = Inr (?S2\<lparr>ic_sendBuffer := sb'\<rparr>, chain)" "length sb' = 65100" "chain_ok chain"
        "later_parts_nonempty chain"
        "chain_bytes chain = accept_message (acseConnection ?S2) (ic_presentation ?S2) (ic_session ?S2) (snd (g h bs))" by blast
    let ?S3 = "?S2\<lparr>ic_sendBuffer := sb'\<rparr>"
    have tr: "transport_ready (cotpConnection ?S3)"
      using srv' by (simp add: transport_ready_def with_message_def CotpConnection_getTpduSize_def)
    from send_chain_frames [OF ok tr a(3,4), of k s] obtain s' cotp' pieces where
      d: "send_chain n ops s ?S3 chain = Inr (s', ?S3\<lparr>cotpConnection := cotp'\<rparr>)" "sent s' = sent s @ frames pieces"
        "concat pieces = chain_bytes chain" unfolding n(1) by blast
    have pos: "0 < bsize resp" using c(2) ans(1) by (simp add: holds_def)
    have "on_associate n ops s h ?S1 = Inr (s', fst (g h bs), ?S3\<lparr>cotpConnection := cotp'\<rparr>)"
      unfolding on_associate_def Let_def using c(1) pos a(1) d(1) by simp
    with red True have "on_data_indication n ops s h ?S
        = Inr (s', fst (g h bs), ?S3\<lparr>cotpConnection := CotpConnection_resetPayload cotp'\<rparr>)" by simp
    moreover have "ic_running ?S3" "msgRcvdHandler ?S3 = Some f" using srv' by (simp_all add: with_message_def)
    ultimately show ?thesis using True d(2,3) a(2,5) 1(2) 2(3) 3(2) by auto
  qed
qed

section \<open>Data\<close>

definition data_message :: "byte \<Rightarrow> byte list \<Rightarrow> byte list" where
  "data_message ctx bs = dataSpdu @ user_element ctx bs"

lemma createUserData_octets:
  assumes "chain_ok payld" and "length (chain_bytes payld) \<le> 65000" and "16 \<le> length (chain_buffer c)"
  shows "\<exists>d. IsoPresentation_createUserData p c payld = Inr d \<and> chain_ok d
     \<and> chain_bytes d = user_element (mmsContextId p) (chain_bytes payld)"
proof -
  let ?pl = "chain_bytes payld" and ?h = "user_data_header (chain_length payld) (mmsContextId p)"
  have h: "?h @ ?pl = user_element (mmsContextId p) ?pl"
    using user_data_header_octets [OF assms(2)] chain_length_bytes [OF assms(1)] by simp
  have "length ?h + length ?pl = length (user_element (mmsContextId p) ?pl)" using arg_cong [OF h, of length] by simp
  then have "length ?h \<le> length (chain_buffer c)"
    using encodeUserData_octets(3) [OF assms(2), of "mmsContextId p"] assms(3) by linarith
  from put_part_ok [OF this assms(1)] show ?thesis by (simp add: IsoPresentation_createUserData_def h)
qed

lemma data_understood:
  assumes "holds m (data_message ctx bs)" and "length bs \<le> 65000"
  shows "\<exists>u p'. IsoSession_parseMessage r m = Inr (r\<lparr>ss_userData := u\<rparr>, SESSION_DATA)
    \<and> IsoPresentation_parseUserData p u = Inr (p', 1) \<and> nextContextId p' = ctx \<and> holds (nextPayload p') bs
    \<and> mmsContextId p' = mmsContextId p"
proof -
  from parseMessage_data [OF assms(1) [unfolded data_message_def], of r] obtain u where
    u: "IsoSession_parseMessage r m = Inr (r\<lparr>ss_userData := u\<rparr>, SESSION_DATA)" "holds u (user_element ctx bs)" by blast
  from parseUserData_element [OF assms(2) u(2), of p] obtain p' where
    p': "IsoPresentation_parseUserData p u = Inr (p', 1)" "nextContextId p' = ctx" "holds (nextPayload p') bs" by blast
  have "mmsContextId p' = mmsContextId p"
    using p'(1) by (auto simp: IsoPresentation_parseUserData_def expect_def Let_def rbind_Inr_iff split: if_splits prod.splits)
  with u(1) p' show ?thesis by blast
qed

lemma data_response_sent:
  assumes resp: "holds resp bs" "bs \<noteq> []" "length bs \<le> 60000" "buffer resp = ic_sendBuffer srv"
    and sb: "length (ic_sendBuffer srv) = 65100"
  shows "\<exists>sb' chain. data_response srv resp = Inr (srv\<lparr>ic_sendBuffer := sb'\<rparr>, chain) \<and> length sb' = 65100
    \<and> chain_ok chain \<and> later_parts_nonempty chain
    \<and> chain_bytes chain = data_message (mmsContextId (ic_presentation srv)) bs"
proof -
  let ?sb = "ic_sendBuffer srv" and ?c0 = "BufferChain (bsize resp) (bsize resp) (bsize resp) None (ic_sendBuffer srv)"
  let ?P = "ic_presentation srv" and ?S = "ic_session srv"
  note c0 = payload_part [OF resp(1,2), of "bsize resp", unfolded resp(4)]
  have init: "BufferChain_init (bsize resp) (bsize resp) None ?sb = ?c0" by (simp add: BufferChain_init_def)
  have bs: "bsize resp = int (length bs)" using resp(1) by (simp add: holds_def)
  let ?w1 = "part_at ?sb (bsize resp) (SEND_BUF_SIZE - bsize resp)"
  have "16 \<le> length (chain_buffer ?w1)" using sb bs resp(3) by simp
  from createUserData_octets [OF c0(1) _ this, of ?P] c0(2) resp(3) obtain c1 where
    c1: "IsoPresentation_createUserData ?P ?w1 ?c0 = Inr c1" "chain_ok c1"
      "chain_bytes c1 = user_element (mmsContextId ?P) bs" by auto
  note f1 = userData_front(1) [OF c1(1)]
  let ?sb1 = "store_part ?sb (bsize resp) c1"
  have s1: "length ?sb1 = 65100" using store_part_length [OF f1] sb bs resp(3) by simp
  let ?c2 = "IsoSession_createDataSpdu ?S (part_at ?sb1 (chain_length c1) (SEND_BUF_SIZE - chain_length c1)) c1"
  have "data_response srv resp = Inr (srv\<lparr>ic_sendBuffer := ?sb1\<rparr>, ?c2)"
    using c1(1) unfolding data_response_def init by (simp add: Let_def)
  moreover have "later_parts_nonempty ?c2"
    using put_front_parts [OF f1] c0(3,4) dataSpdu_parts(3) [OF c1(2)] by simp
  ultimately show ?thesis using s1 dataSpdu_parts(1,2) [OF c1(2)] c1(3) by (auto simp: data_message_def)
qed

lemma server_answers_data:
  fixes srv :: "'h IsoConnection" and h :: 'h
  assumes ok: "accepts_all ops sent" and f: "serves f g"
    and srv: "msgRcvdHandler srv = Some f" "length (ic_sendBuffer srv) = 65100" "transport_ready (cotpConnection srv)"
    and m: "holds m (data_message (mmsContextId (ic_presentation srv)) bs)" and bs: "length bs \<le> 60000"
    and ans: "length (snd (g h bs)) \<le> 60000"
  shows "\<exists>s' srv'. on_data_indication (Suc k) ops s h (with_message m srv) = Inr (s', fst (g h bs), srv')
     \<and> ic_running srv' = ic_running srv
     \<and> (if snd (g h bs) = [] then s' = s
        else \<exists>pieces. sent s' = sent s @ frames pieces
          \<and> concat pieces = data_message (mmsContextId (ic_presentation srv)) (snd (g h bs)))"
proof -
  let ?S = "with_message m srv"
  from data_understood [OF m, of "ic_session srv" "ic_presentation srv"] bs obtain u p' where
    1: "IsoSession_parseMessage (ic_session srv) m = Inr (ic_session srv\<lparr>ss_userData := u\<rparr>, SESSION_DATA)"
      "IsoPresentation_parseUserData (ic_presentation srv) u = Inr (p', 1)"
      "nextContextId p' = mmsContextId (ic_presentation srv)" "holds (nextPayload p') bs"
      "mmsContextId p' = mmsContextId (ic_presentation srv)" by auto
  let ?S1 = "?S\<lparr>ic_session := ic_session srv\<lparr>ss_userData := u\<rparr>, ic_presentation := p'\<rparr>"
  have payl: "payload (cotpConnection ?S) = m" by (simp add: with_message_def)
  have fld: "ic_session ?S = ic_session srv" "ic_presentation ?S = ic_presentation srv" by (simp_all add: with_message_def)
  have S1: "msgRcvdHandler ?S1 = Some f" "length (ic_sendBuffer ?S1) = 65100" using srv by (simp_all add: with_message_def)
  from call_handler_serves [OF f S1 1(4) bs, of h] obtain resp where
    c: "call_handler h ?S1 (nextPayload p') = Inr (fst (g h bs), ?S1\<lparr>ic_sendBuffer := buffer resp\<rparr>, resp)"
      "holds resp (snd (g h bs))" "length (buffer resp) = 65100" by blast
  let ?S2 = "?S1\<lparr>ic_sendBuffer := buffer resp\<rparr>"
  have red: "on_data_indication (Suc k) ops s h ?S
      = rbind (if bsize resp > 0
               then rbind (data_response ?S2 resp) (\<lambda>(self, sessionBufferPart).
                      rbind (send_chain (Suc k) ops s self sessionBufferPart) (\<lambda>(s, self). Inr (s, fst (g h bs), self)))
               else Inr (s, fst (g h bs), ?S2))
         (\<lambda>(s, h, self). Inr (s, h, self\<lparr>cotpConnection := CotpConnection_resetPayload (cotpConnection self)\<rparr>))"
    using 1 c(1) unfolding on_data_indication_def CotpConnection_getPayload_def payl fld
    by (simp add: on_session_data_def fld Let_def IsoSession_getUserData_def)
  have run: "ic_running ?S2 = ic_running srv" by (simp add: with_message_def)
  show ?thesis
  proof (cases "snd (g h bs) = []")
    case True
    then have "\<not> bsize resp > 0" using c(2) by (simp add: holds_def)
    with red run True show ?thesis by simp
  next
    case False
    then have pos: "bsize resp > 0" using c(2) by (simp add: holds_def)
    have S2: "buffer resp = ic_sendBuffer ?S2" "length (ic_sendBuffer ?S2) = 65100" using c(3) by simp_all
    from data_response_sent [OF c(2) False ans S2] obtain sb' chain where
      a: "data_response ?S2 resp = Inr (?S2\<lparr>ic_sendBuffer := sb'\<rparr>, chain)" "chain_ok chain" "later_parts_nonempty chain"
        "chain_bytes chain = data_message (mmsContextId (ic_presentation srv)) (snd (g h bs))" using 1(5) by auto
    let ?S3 = "?S2\<lparr>ic_sendBuffer := sb'\<rparr>"
    have tr: "transport_ready (cotpConnection ?S3)"
      using srv by (simp add: transport_ready_def with_message_def CotpConnection_getTpduSize_def)
    from send_chain_frames [OF ok tr a(2,3), of k s] obtain s' cotp' pieces where
      d: "send_chain (Suc k) ops s ?S3 chain = Inr (s', ?S3\<lparr>cotpConnection := cotp'\<rparr>)" "sent s' = sent s @ frames pieces"
        "concat pieces = chain_bytes chain" by blast
    from red pos a(1) d(1) have "on_data_indication (Suc k) ops s h ?S
      = Inr (s', fst (g h bs), ?S3\<lparr>cotpConnection := CotpConnection_resetPayload cotp'\<rparr>)" by simp
    with run False d(2,3) a(4) show ?thesis by auto
  qed
qed

text \<open>The client's side: what it sends, and what it makes of a data message.\<close>

lemma client_chain_octets:
  assumes pl: "holds pl bs" "bs \<noteq> []" "length bs \<le> 60000" and sb: "length (icl_sendBuffer cl) = 65100"
  shows "\<exists>cl' chain. client_chain cl pl = Inr (cl', chain) \<and> chain_ok chain \<and> later_parts_nonempty chain
    \<and> chain_bytes chain = data_message (mmsContextId (icl_presentation cl)) bs \<and> length (icl_sendBuffer cl') = 65100
    \<and> icl_cotp cl' = icl_cotp cl"
proof -
  let ?c0 = "BufferChain (bsize pl) (bsize pl) (bsize pl) None (buffer pl)" and ?sb = "icl_sendBuffer cl"
  note c0 = payload_part [OF pl(1,2), of "bsize pl"]
  have init: "BufferChain_init (bsize pl) (bsize pl) None (buffer pl) = ?c0" by (simp add: BufferChain_init_def)
  have bs: "bsize pl = int (length bs)" using pl(1) by (simp add: holds_def)
  let ?w1 = "part_at ?sb (chain_length ?c0) ISO_CLIENT_BUFFER_SIZE"
  have "16 \<le> length (chain_buffer ?w1)" using sb bs pl(3) by simp
  from createUserData_octets [OF c0(1) _ this, of "icl_presentation cl"] c0(2) pl(3) obtain c1 where
    c1: "IsoPresentation_createUserData (icl_presentation cl) ?w1 ?c0 = Inr c1" "chain_ok c1"
      "chain_bytes c1 = user_element (mmsContextId (icl_presentation cl)) bs" by auto
  note f1 = userData_front(1) [OF c1(1)]
  let ?sb1 = "store_part ?sb (chain_length ?c0) c1"
  let ?c2 = "IsoSession_createDataSpdu (icl_session cl) (BufferChain 0 0 0 None []) c1"
  have "client_chain cl pl = Inr (cl\<lparr>icl_sendBuffer := ?sb1\<rparr>, ?c2)"
    using c1(1) unfolding client_chain_def init by (simp add: Let_def)
  moreover have "later_parts_nonempty ?c2"
    using put_front_parts [OF f1] c0(3,4) dataSpdu_parts(3) [OF c1(2)] by simp
  moreover have "length ?sb1 = 65100" using store_part_length [OF f1] sb bs pl(3) by simp
  ultimately show ?thesis using dataSpdu_parts(1,2) [OF c1(2)] c1(3) by (auto simp: data_message_def)
qed

lemma client_message_data:
  assumes "CotpConnection_parseIncomingMessage (icl_cotp cl) = Inr (c, COTP_DATA_INDICATION)"
    and "holds (payload c) (data_message ctx bs)" and "length bs \<le> 65000"
  shows "\<exists>cl' b. client_message cl = Inr (cl', [ISO_IND_DATA b], True) \<and> holds b bs \<and> bsize (payload (icl_cotp cl')) = 0"
proof -
  from data_understood [OF assms(2,3), of "icl_session cl" "icl_presentation cl"] obtain u p' where
    "IsoSession_parseMessage (icl_session cl) (payload c) = Inr (icl_session cl\<lparr>ss_userData := u\<rparr>, SESSION_DATA)"
    "IsoPresentation_parseUserData (icl_presentation cl) u = Inr (p', 1)" "holds (nextPayload p') bs" by blast
  with assms(1) show ?thesis
    by (simp add: client_message_def CotpConnection_getPayload_def Let_def IsoSession_getUserData_def
        CotpConnection_resetPayload_def)
qed

text \<open>Messages the server sends on its own.\<close>

lemma server_message_sent:
  assumes ok: "accepts_all ops sent" and run: "ic_running srv" and sb: "length (ic_sendBuffer srv) = 65100"
    and tr: "transport_ready (cotpConnection srv)" and m: "holds m bs" "bs \<noteq> []" "length bs \<le> 60000"
  shows "\<exists>s' srv' pieces. IsoConnection_sendMessage (Suc k) ops s srv m = Inr (s', srv')
    \<and> sent s' = sent s @ frames pieces \<and> concat pieces = data_message (mmsContextId (ic_presentation srv)) bs"
proof -
  let ?c0 = "BufferChain (bsize m) (bsize m) (bsize m) None (buffer m)" and ?sb = "ic_sendBuffer srv"
  note c0 = payload_part [OF m(1,2), of "bsize m"]
  let ?w1 = "part_at ?sb 0 SEND_BUF_SIZE"
  have "16 \<le> length (chain_buffer ?w1)" using sb by simp
  from createUserData_octets [OF c0(1) _ this, of "ic_presentation srv"] c0(2) m(3) obtain c1 where
    c1: "IsoPresentation_createUserData (ic_presentation srv) ?w1 ?c0 = Inr c1" "chain_ok c1"
      "chain_bytes c1 = user_element (mmsContextId (ic_presentation srv)) bs" by auto
  note f1 = userData_front(1) [OF c1(1)]
  let ?sb1 = "store_part ?sb 0 c1"
  let ?c2 = "IsoSession_createDataSpdu (ic_session srv) (part_at ?sb1 (partLength c1) 0) c1"
  have "later_parts_nonempty ?c2" using put_front_parts [OF f1] c0(3,4) dataSpdu_parts(3) [OF c1(2)] by simp
  from send_chain_frames [OF ok _ dataSpdu_parts(1) [OF c1(2)] this, of "srv\<lparr>ic_sendBuffer := ?sb1\<rparr>" k s] tr
  obtain s' cotp' pieces where
    "send_chain (Suc k) ops s (srv\<lparr>ic_sendBuffer := ?sb1\<rparr>) ?c2 = Inr (s', srv\<lparr>ic_sendBuffer := ?sb1, cotpConnection := cotp'\<rparr>)"
    "sent s' = sent s @ frames pieces" "concat pieces = chain_bytes ?c2" by auto
  then show ?thesis using run c1(1,3) dataSpdu_parts(2) [OF c1(2)]
    by (auto simp: IsoConnection_sendMessage_def Let_def data_message_def)
qed

end
