(* ===== verification/Iso_Association.thy ===== *)
theory Iso_Association
  imports Iso_Correct
begin

text \<open>
  What holds from end to end of an ISO connection: the association, the exchange of data, and two flaws of the
  composition that no layer shows on its own.
\<close>

unbundle bit_operations_syntax

section \<open>Examples\<close>

text \<open>A handler that answers with the request and remembers it, a server with it, and a client payload.\<close>

definition echo_handler :: "byte list list message_handler" where
  "echo_handler h req resp =
     rbind (memcpy_to (buffer resp) 0 (buffer req) (bsize req)) (\<lambda>b.
       Inr (h @ [contents req], resp\<lparr>buffer := b, bsize := bsize req\<rparr>))"

definition echo :: "byte list list \<Rightarrow> byte list \<Rightarrow> byte list list \<times> byte list" where
  "echo h bs = (h @ [bs], bs)"

lemma echo_serves: "serves echo_handler echo"
proof -
  have "\<exists>resp'. echo_handler h req resp = Inr (h @ [bs], resp') \<and> holds resp' bs \<and> length (buffer resp') = 65100"
    if "holds req bs" and "length bs \<le> 60000" and "length (buffer resp) = 65100" for h req resp bs
  proof -
    have t: "take (length bs) (buffer req) = bs" and s: "bsize req = int (length bs)" using that(1) by (simp_all add: holds_def)
    from t have l: "length bs \<le> length (buffer req)" by (metis length_take min.absorb_iff2 nat_le_linear take_all)
    have "contents req = bs" using t s by (simp add: contents_def)
    with s l that(2,3) t show ?thesis
      by (simp add: echo_handler_def memcpy_to_def holds_def)
  qed
  then show ?thesis by (simp add: serves_def echo_def)
qed

definition echo_server :: "authenticator_fun option \<Rightarrow> byte list list IsoConnection" where
  "echo_server auth = IsoConnection_installListener (IsoConnection_create auth) echo_handler"

lemma full_tpdu_size: "CotpConnection_setTpduSize c COTP_MAX_TPDU_SIZE = c\<lparr>options := (options c)\<lparr>tpduSize := 13\<rparr>\<rparr>"
proof -
  have "tpdu_exponent 1 8192 = 13" by (simp add: tpdu_exponent.simps)
  then show ?thesis by (simp add: CotpConnection_setTpduSize_def COTP_MAX_TPDU_SIZE_def)
qed

lemma created_ready:
  assumes "\<forall>v. auth = Some v \<longrightarrow> reads_length_only v"
  shows "server_ready echo_handler (echo_server auth)"
  using assms
  by (simp add: server_ready_def echo_server_def IsoConnection_installListener_def IsoConnection_create_def
      SEND_BUF_SIZE_def init_fields default_selector_ok transport_ready_def CotpConnection_init_def Let_def
      full_tpdu_size [unfolded COTP_MAX_TPDU_SIZE_def] CotpConnection_getTpduSize_def empty_buffer_def COTP_MAX_TPDU_SIZE_def AcseConnection_init_def)

lemma default_parameters_ok: "parameters_ok default_parameters"
  by (simp add: parameters_ok_def titles_ok_def auth_ok_def default_parameters_def default_selector_ok
      IsoConnectionParameters_create_def)

lemma created_client: "length (icl_sendBuffer IsoClientConnection_create) = 65100"
  by (simp add: IsoClientConnection_create_def ISO_CLIENT_BUFFER_SIZE_def)


section \<open>Association\<close>

definition with_answer :: "ByteBuffer \<Rightarrow> IsoClientConnection \<Rightarrow> IsoClientConnection" where
  "with_answer m cl = cl\<lparr>icl_cotp := (icl_cotp cl)\<lparr>payload := m\<rparr>\<rparr>"

text \<open>
  What the client makes of the frames with the answer: it reads exactly the answer if the message in them has at most 257 octets,
  otherwise the association fails.
\<close>

definition client_reads :: "nat \<Rightarrow> IsoClientConnection \<Rightarrow> byte list \<Rightarrow> byte list list \<Rightarrow> bool" where
  "client_reads n cl ans pieces \<longleftrightarrow>
     (\<forall>m. holds m (concat pieces) \<longrightarrow>
        (if length (concat pieces) \<le> 257
         then \<exists>cl' b. association_answer n (with_answer m cl) = Inr (cl', Some b) \<and> holds b ans
         else \<exists>cl'. association_answer n (with_answer m cl) = Inr (cl', None)))"

text \<open>The message with the answer to an association is at most 143 octets longer than the answer.\<close>

lemma accept_message_length:
  assumes "length bs \<le> 60000" and "ssel_ok (calledSessionSelector r)"
  shows "length (accept_message a p r bs) \<le> length bs + 143"
proof -
  let ?m = "response_message a bs"
  have r: "length ?m \<le> length bs + 54" by (rule response_message_length) (use assms(1) in simp)
  then have "length (cp_message (cpa_items p ?m)) \<le> length ?m + 55" by (intro cpa_items_ok(2)) (use assms(1) in simp)
  moreover have "length (ssel_octets (calledSessionSelector r)) \<le> 16" using ssel_octets_length [OF assms(2)] by simp
  ultimately show ?thesis using r by (simp add: accept_message_def length_spdu_octets accept_params_def)
qed

text \<open>An answer that does not fit the length octet of the session layer: the association fails.\<close>

lemma accept_overlong:
  assumes "holds (payload (icl_cotp cl)) (accept_message a p r bs)" and "\<not> length (accept_message a p r bs) \<le> 257"
  shows "\<exists>cl'. association_answer n cl = Inr (cl', None)"
proof -
  have "spdu_indication 14 = Some SESSION_CONNECT" by (simp add: spdu_indication_def)
  from parseMessage_overlong [OF this assms(2)[unfolded accept_message_def] assms(1)[unfolded accept_message_def]]
  show ?thesis by (simp add: association_answer_def CotpConnection_getPayload_def Let_def)
qed

text \<open>
  C12: An association from end to end, for a handler that answers with at least one octet. If the connect message of a client
  has at most 257 octets, which is what the length octet of the session layer can tell, and the authenticator of the server accepts
  what the client offers, the handler of the server gets exactly the payload of the client, and the server sends its
  answer in frames; otherwise the handler is not called, nothing is sent, and the connection stops. From the frames the client reads
  exactly the answer of the handler if the whole accept message has at most 257 octets, which it has for every answer of up to
  114 octets; a longer accept message makes the association fail.
\<close>

theorem association_end_to_end:
  assumes "parameters_ok ps" and "holds pl bs" and "bs \<noteq> []" and "length bs \<le> 60000"
    and "length (icl_sendBuffer cl) = 65100" and "accepts_all ops sent" and "serves f g" and "server_ready f srv"
    and "length bs + 1300 \<le> k" and "snd (g h bs) \<noteq> []" and "length (snd (g h bs)) \<le> 60000"
    and "length (snd (g h bs)) + 200 \<le> k"
  shows "\<exists>cl' chain. association_request cl ps pl = Inr (cl', chain) \<and> chain_ok chain \<and> later_parts_nonempty chain
    \<and> chain_bytes chain = connect_message ps bs
    \<and> (\<forall>m. holds m (chain_bytes chain) \<longrightarrow>
        (if length (chain_bytes chain) \<le> 257
            \<and> accepts (authenticator (acseConnection srv)) (offered_mechanism (acseAuthParameter ps))
                (offered_value (acseAuthParameter ps))
         then \<exists>s' srv' pieces. on_data_indication (Suc k) ops s h (with_message m srv) = Inr (s', fst (g h bs), srv')
            \<and> ic_running srv' \<and> sent s' = sent s @ frames pieces
            \<and> (length (snd (g h bs)) \<le> 114 \<longrightarrow> length (concat pieces) \<le> 257)
            \<and> client_reads (Suc k) cl' (snd (g h bs)) pieces
         else \<exists>srv'. on_data_indication (Suc k) ops s h (with_message m srv) = Inr (s, h, srv') \<and> \<not> ic_running srv'))"
proof -
  let ?ans = "snd (g h bs)"
  let ?acc = "accepts (authenticator (acseConnection srv)) (offered_mechanism (acseAuthParameter ps))
                (offered_value (acseAuthParameter ps))"
  from association_request_sent [OF assms(1-5)] obtain cl' chain where
    1: "association_request cl ps pl = Inr (cl', chain)" "chain_ok chain" "later_parts_nonempty chain"
      "chain_bytes chain = connect_message ps bs" "ssel_ok (calledSessionSelector (icl_session cl'))" by blast
  have n: "length bs + 1300 \<le> Suc k" "length ?ans + 200 \<le> Suc k" using assms(9,12) by simp_all
  have answer: "if length (accept_message a p r ?ans) \<le> 257
      then \<exists>cl'' b. association_answer (Suc k) (with_answer m' cl') = Inr (cl'', Some b) \<and> holds b ?ans
      else \<exists>cl''. association_answer (Suc k) (with_answer m' cl') = Inr (cl'', None)"
    if "holds m' (accept_message a p r ?ans)" "nextReference a = 3" "ssel_ok (calledSessionSelector r)" for m' a p r
  proof -
    have h: "holds (payload (icl_cotp (with_answer m' cl'))) (accept_message a p r ?ans)" using that(1) by (simp add: with_answer_def)
    have sel: "ssel_ok (calledSessionSelector (icl_session (with_answer m' cl')))" using 1(5) by (simp add: with_answer_def)
    show ?thesis
      using accept_understood [OF h _ assms(11) n(2) that(3) sel] accept_overlong [OF h] that(2) by auto
  qed
  have "if length (chain_bytes chain) \<le> 257 \<and> ?acc
         then \<exists>s' srv' pieces. on_data_indication (Suc k) ops s h (with_message m srv) = Inr (s', fst (g h bs), srv')
            \<and> ic_running srv' \<and> sent s' = sent s @ frames pieces
            \<and> (length ?ans \<le> 114 \<longrightarrow> length (concat pieces) \<le> 257)
            \<and> client_reads (Suc k) cl' ?ans pieces
         else \<exists>srv'. on_data_indication (Suc k) ops s h (with_message m srv) = Inr (s, h, srv') \<and> \<not> ic_running srv'"
    if m: "holds m (connect_message ps bs)" for m
  proof (cases "length (connect_message ps bs) \<le> 257")
    case False
    have "spdu_indication 13 = Some SESSION_CONNECT" by (simp add: spdu_indication_def)
    from parseMessage_overlong [OF this, of _ _ m "ic_session srv"] False m
    have "IsoSession_parseMessage (ic_session srv) m = Inr (ic_session srv, SESSION_ERROR)"
      by (simp add: connect_message_def Let_def)
    from server_refuses_session [OF this] False 1(4) show ?thesis by simp
  next
    case short: True
    note srv = server_answers_request [OF assms(6-8,1) m short assms(4) refl n(1) assms(10,11), of s]
    show ?thesis
    proof (cases ?acc)
      case False
      with srv show ?thesis by simp
    next
      case True
      with srv obtain s' srv' pieces a p r where
        2: "on_data_indication (Suc k) ops s h (with_message m srv) = Inr (s', fst (g h bs), srv')" "ic_running srv'"
          "sent s' = sent s @ frames pieces" "concat pieces = accept_message a p r ?ans"
          "nextReference a = 3" "ssel_ok (calledSessionSelector r)" by auto
      have "length ?ans \<le> 114 \<longrightarrow> length (concat pieces) \<le> 257"
        using accept_message_length [OF assms(11) 2(6), of a p] 2(4) by simp
      moreover have "client_reads (Suc k) cl' ?ans pieces"
        using answer [OF _ 2(5,6)] unfolding client_reads_def 2(4) by blast
      moreover have "length (chain_bytes chain) \<le> 257 \<and> ?acc" using short True 1(4) by simp
      ultimately show ?thesis using 2(1-3) by auto
    qed
  qed
  with 1(1-4) show ?thesis by metis
qed

text \<open>
  A client with the default parameters and the payload \<open>7 8\<close>: its request has 216 octets; a server without an authenticator
  associates it, and the client reads the echo of its payload; a server that refuses everyone sends nothing and stops.
\<close>

lemma demo_connect_length: "length (connect_message default_parameters [7, 8]) \<le> 257"
  by code_simp

theorem association_end_to_end_witness:
  "\<exists>cl' chain. association_request IsoClientConnection_create default_parameters \<lparr>buffer = [7, 8], bsize = 2, maxSize = 2\<rparr>
       = Inr (cl', chain)
    \<and> (\<forall>m. holds m (chain_bytes chain) \<longrightarrow>
        (\<exists>s' srv' pieces. on_data_indication 1501 demo_socket [] [] (with_message m (echo_server None)) = Inr (s', [[7, 8]], srv')
           \<and> ic_running srv' \<and> s' = frames pieces
           \<and> (\<forall>m'. holds m' (concat pieces) \<longrightarrow>
                (\<exists>cl'' b. association_answer 1501 (with_answer m' cl') = Inr (cl'', Some b) \<and> holds b [7, 8])))
        \<and> (\<exists>srv'. on_data_indication 1501 demo_socket [] [] (with_message m (echo_server (Some (\<lambda>p. (False, None)))))
             = Inr ([], [], srv') \<and> \<not> ic_running srv'))"
proof -
  let ?pl = "\<lparr>buffer = [7, 8], bsize = 2, maxSize = 2\<rparr> :: ByteBuffer" and ?no = "Some (\<lambda>p. (False, None)) :: authenticator_fun option"
  have sock: "accepts_all demo_socket (\<lambda>s. s)" by (simp add: accepts_all_def demo_socket_def)
  have srv: "server_ready echo_handler (echo_server None)" "server_ready echo_handler (echo_server ?no)"
    by (rule created_ready; simp add: reads_length_only_def)+
  have auth: "authenticator (acseConnection (echo_server v)) = v" for v
    by (simp add: echo_server_def IsoConnection_installListener_def IsoConnection_create_def AcseConnection_init_def)
  have pl: "holds ?pl [7, 8]" by (simp add: holds_def)
  have len: "length [7 :: byte, 8] \<le> 60000" "length [7 :: byte, 8] + 1300 \<le> 1500" "[7 :: byte, 8] \<noteq> []"
    "snd (echo [] [7, 8]) \<noteq> []" "length (snd (echo [] [7, 8])) \<le> 60000" "length (snd (echo [] [7, 8])) + 200 \<le> 1500"
    by (simp_all add: echo_def)
  have e: "echo [] [7, 8] = ([[7, 8]], [7, 8])" by (simp add: echo_def)
  have acc: "accepts (authenticator (acseConnection (echo_server None))) u v"
    "\<not> accepts (authenticator (acseConnection (echo_server ?no))) u v" for u v by (simp_all add: auth accepts_def)
  from association_end_to_end [OF default_parameters_ok pl len(3,1) created_client sock echo_serves srv(1) len(2,4-6), of "[]"]
  obtain cl' chain where 1: "association_request IsoClientConnection_create default_parameters ?pl = Inr (cl', chain)"
    "chain_bytes chain = connect_message default_parameters [7, 8]"
    "\<forall>m. holds m (chain_bytes chain) \<longrightarrow>
        (if length (chain_bytes chain) \<le> 257
            \<and> accepts (authenticator (acseConnection (echo_server None))) (offered_mechanism (acseAuthParameter default_parameters))
                (offered_value (acseAuthParameter default_parameters))
         then \<exists>s' srv' pieces. on_data_indication (Suc 1500) demo_socket [] [] (with_message m (echo_server None))
              = Inr (s', fst (echo [] [7, 8]), srv')
            \<and> ic_running srv' \<and> s' = [] @ frames pieces
            \<and> (length (snd (echo [] [7, 8])) \<le> 114 \<longrightarrow> length (concat pieces) \<le> 257)
            \<and> client_reads (Suc 1500) cl' (snd (echo [] [7, 8])) pieces
         else \<exists>srv'. on_data_indication (Suc 1500) demo_socket [] [] (with_message m (echo_server None)) = Inr ([], [], srv')
            \<and> \<not> ic_running srv')"
    by (elim exE conjE) (rule that)
  from association_end_to_end [OF default_parameters_ok pl len(3,1) created_client sock echo_serves srv(2) len(2,4-6), of "[]"]
  obtain cl2 chain2 where 2: "association_request IsoClientConnection_create default_parameters ?pl = Inr (cl2, chain2)"
    "chain_bytes chain2 = connect_message default_parameters [7, 8]"
    "\<forall>m. holds m (chain_bytes chain2) \<longrightarrow>
        (if length (chain_bytes chain2) \<le> 257
            \<and> accepts (authenticator (acseConnection (echo_server ?no))) (offered_mechanism (acseAuthParameter default_parameters))
                (offered_value (acseAuthParameter default_parameters))
         then \<exists>s' srv' pieces. on_data_indication (Suc 1500) demo_socket [] [] (with_message m (echo_server ?no))
              = Inr (s', fst (echo [] [7, 8]), srv')
            \<and> ic_running srv' \<and> s' = [] @ frames pieces
            \<and> (length (snd (echo [] [7, 8])) \<le> 114 \<longrightarrow> length (concat pieces) \<le> 257)
            \<and> client_reads (Suc 1500) cl2 (snd (echo [] [7, 8])) pieces
         else \<exists>srv'. on_data_indication (Suc 1500) demo_socket [] [] (with_message m (echo_server ?no)) = Inr ([], [], srv')
            \<and> \<not> ic_running srv')"
    by (elim exE conjE) (rule that)
  have c: "length (chain_bytes chain) \<le> 257" "chain2 = chain" using 1(1,2) 2(1) demo_connect_length by simp_all
  have 4: "\<exists>s' srv' pieces. on_data_indication (Suc 1500) demo_socket [] [] (with_message m (echo_server None)) = Inr (s', [[7, 8]], srv')
      \<and> ic_running srv' \<and> s' = frames pieces \<and> length (concat pieces) \<le> 257 \<and> client_reads (Suc 1500) cl' [7, 8] pieces"
    if "holds m (chain_bytes chain)" for m
    using 1(3) [rule_format, OF that] unfolding e by (simp add: acc c(1) del: ex_simps)
  have 5: "\<exists>srv'. on_data_indication (Suc 1500) demo_socket [] [] (with_message m (echo_server ?no)) = Inr ([], [], srv') \<and> \<not> ic_running srv'"
    if "holds m (chain_bytes chain)" for m
    using 2(3) [rule_format, unfolded c(2), OF that] by (simp add: acc)
  have 3: "\<exists>cl'' b. association_answer (Suc 1500) (with_answer m' cl') = Inr (cl'', Some b) \<and> holds b [7, 8]"
    if "length (concat pieces) \<le> 257" "client_reads (Suc 1500) cl' [7, 8] pieces" "holds m' (concat pieces)" for pieces m'
    using that unfolding client_reads_def by simp
  have 6: "\<exists>s' srv' pieces. on_data_indication (Suc 1500) demo_socket [] [] (with_message m (echo_server None)) = Inr (s', [[7, 8]], srv')
      \<and> ic_running srv' \<and> s' = frames pieces
      \<and> (\<forall>m'. holds m' (concat pieces) \<longrightarrow>
           (\<exists>cl'' b. association_answer (Suc 1500) (with_answer m' cl') = Inr (cl'', Some b) \<and> holds b [7, 8]))"
    if m: "holds m (chain_bytes chain)" for m
  proof -
    from 4 [OF m] obtain s' srv' pieces where
      r: "on_data_indication (Suc 1500) demo_socket [] [] (with_message m (echo_server None)) = Inr (s', [[7, 8]], srv')"
        "ic_running srv'" "s' = frames pieces" "length (concat pieces) \<le> 257" "client_reads (Suc 1500) cl' [7, 8] pieces"
      by (elim exE conjE) (rule that)
    show ?thesis
      by (rule exI [of _ s'], rule exI [of _ srv'], rule exI [of _ pieces], intro conjI r(1-3) allI impI) (rule 3 [OF r(4,5)])
  qed
  have k: "Suc 1500 = 1501" by simp
  show ?thesis
    by (rule exI [of _ cl'], rule exI [of _ chain], intro conjI 1(1) allI impI) (erule 6 [unfolded k], erule 5 [unfolded k])
qed

section \<open>Data\<close>

text \<open>
  C13: Requests, responses and reports on an established association (both sides have the same context identifier
  for MMS). What the client sends reaches the handler as it is, whatever its length up to 60000; the answer of the
  handler, when it gives one, and the messages the server sends on its own reach the callback of the client as
  they are.
\<close>

theorem data_end_to_end:
  assumes "holds pl bs" and "bs \<noteq> []" and "length bs \<le> 60000" and "length (icl_sendBuffer cl) = 65100"
    and "accepts_all ops sent" and "serves f g" and "msgRcvdHandler srv = Some f" and "length (ic_sendBuffer srv) = 65100"
    and "transport_ready (cotpConnection srv)" and "ic_running srv"
    and "mmsContextId (icl_presentation cl) = mmsContextId (ic_presentation srv)"
    and "length (snd (g h bs)) \<le> 60000"
  shows "\<exists>cl' chain. client_chain cl pl = Inr (cl', chain) \<and> chain_ok chain \<and> later_parts_nonempty chain
    \<and> (\<forall>m. holds m (chain_bytes chain) \<longrightarrow>
        (\<exists>s' srv'. on_data_indication (Suc k) ops s h (with_message m srv) = Inr (s', fst (g h bs), srv') \<and> ic_running srv'
          \<and> (if snd (g h bs) = [] then s' = s
             else \<exists>pieces. sent s' = sent s @ frames pieces
               \<and> (\<forall>c c1. CotpConnection_parseIncomingMessage (icl_cotp c) = Inr (c1, COTP_DATA_INDICATION) \<longrightarrow>
                    holds (payload c1) (concat pieces) \<longrightarrow>
                    (\<exists>c2 b. client_message c = Inr (c2, [ISO_IND_DATA b], True) \<and> holds b (snd (g h bs)))))))
    \<and> (\<exists>s' srv' pieces. IsoConnection_sendMessage (Suc k) ops s srv pl = Inr (s', srv') \<and> sent s' = sent s @ frames pieces
          \<and> (\<forall>c c1. CotpConnection_parseIncomingMessage (icl_cotp c) = Inr (c1, COTP_DATA_INDICATION) \<longrightarrow>
               holds (payload c1) (concat pieces) \<longrightarrow>
               (\<exists>c2 b. client_message c = Inr (c2, [ISO_IND_DATA b], True) \<and> holds b bs)))"
proof -
  let ?ctx = "mmsContextId (ic_presentation srv)" and ?ans = "snd (g h bs)"
  have read: "\<exists>c2 b. client_message c = Inr (c2, [ISO_IND_DATA b], True) \<and> holds b xs"
    if "CotpConnection_parseIncomingMessage (icl_cotp c) = Inr (c1, COTP_DATA_INDICATION)"
      "holds (payload c1) (concat pieces)" "concat pieces = data_message ?ctx xs" "length xs \<le> 60000" for c c1 pieces xs
    using client_message_data [of c c1 ?ctx xs] that by auto
  from client_chain_octets [OF assms(1-4)] obtain cl' chain where
    1: "client_chain cl pl = Inr (cl', chain)" "chain_ok chain" "later_parts_nonempty chain"
      "chain_bytes chain = data_message ?ctx bs" using assms(11) by auto
  have 2: "\<exists>s' srv'. on_data_indication (Suc k) ops s h (with_message m srv) = Inr (s', fst (g h bs), srv') \<and> ic_running srv'
          \<and> (if ?ans = [] then s' = s
             else \<exists>pieces. sent s' = sent s @ frames pieces
               \<and> (\<forall>c c1. CotpConnection_parseIncomingMessage (icl_cotp c) = Inr (c1, COTP_DATA_INDICATION) \<longrightarrow>
                    holds (payload c1) (concat pieces) \<longrightarrow>
                    (\<exists>c2 b. client_message c = Inr (c2, [ISO_IND_DATA b], True) \<and> holds b ?ans)))"
    if "holds m (chain_bytes chain)" for m
    using server_answers_data [OF assms(5-9) that [unfolded 1(4)] assms(3,12), of k s] assms(10,12) read
    by (cases "?ans = []") force+
  from server_message_sent [OF assms(5,10,8,9,1-3), of k s] obtain s' srv' pieces where
    "IsoConnection_sendMessage (Suc k) ops s srv pl = Inr (s', srv')" "sent s' = sent s @ frames pieces"
    "concat pieces = data_message ?ctx bs" by blast
  with read [OF _ _ _ assms(3)] 1(1-3) 2 show ?thesis by blast
qed

theorem data_end_to_end_witness:
  "\<exists>cl' chain. client_chain IsoClientConnection_create \<lparr>buffer = [7, 8], bsize = 2, maxSize = 2\<rparr> = Inr (cl', chain)
    \<and> (\<forall>m. holds m (chain_bytes chain) \<longrightarrow>
        (\<exists>s' srv'. on_data_indication 1 demo_socket [] [] (with_message m (echo_server None)) = Inr (s', [[7, 8]], srv')
           \<and> ic_running srv'))"
proof -
  let ?pl = "\<lparr>buffer = [7, 8], bsize = 2, maxSize = 2\<rparr> :: ByteBuffer"
  have sock: "accepts_all demo_socket (\<lambda>s. s)" by (simp add: accepts_all_def demo_socket_def)
  have "server_ready echo_handler (echo_server None)" by (rule created_ready) simp
  then have srv: "msgRcvdHandler (echo_server None) = Some echo_handler" "length (ic_sendBuffer (echo_server None)) = 65100"
    "transport_ready (cotpConnection (echo_server None))" "ic_running (echo_server None)" by (simp_all add: server_ready_def)
  have ctx: "mmsContextId (icl_presentation IsoClientConnection_create) = mmsContextId (ic_presentation (echo_server None))"
    by (simp add: echo_server_def IsoConnection_installListener_def IsoConnection_create_def IsoClientConnection_create_def
        IsoPresentation_init_def)
  have pl: "holds ?pl [7, 8]" by (simp add: holds_def)
  have len: "[7 :: byte, 8] \<noteq> []" "length [7 :: byte, 8] \<le> 60000" "length (snd (echo [] [7, 8])) \<le> 60000"
    by (simp_all add: echo_def)
  have h: "fst (echo [] [7, 8]) = [[7, 8]]" by (simp add: echo_def)
  from data_end_to_end [OF pl len(1,2) created_client sock echo_serves srv ctx len(3), of 0 "[]"] show ?thesis
    unfolding h by fastforce
qed


section \<open>Flaws of the composition\<close>

text \<open>
  C14: A server hands MMS messages to its handler without an association: on a connection object as it was just
  created, for every authenticator, a data PDU with the context identifier 0 reaches the handler, since
  the identifier the server compares it with has not been set. The connection stays open.
\<close>

theorem mms_before_association:
  assumes "accepts_all ops sent" and "serves f g" and "holds m (data_message 0 bs)" and "length bs \<le> 60000"
    and "length (snd (g h bs)) \<le> 60000"
  shows "\<exists>s' srv'. on_data_indication (Suc k) ops s h
       (with_message m (IsoConnection_installListener (IsoConnection_create auth) f)) = Inr (s', fst (g h bs), srv')
     \<and> IsoConnection_isRunning srv'"
proof -
  let ?srv = "IsoConnection_installListener (IsoConnection_create auth) f"
  have "msgRcvdHandler ?srv = Some f" "length (ic_sendBuffer ?srv) = 65100" "mmsContextId (ic_presentation ?srv) = 0"
    "ic_running ?srv" "transport_ready (cotpConnection ?srv)"
    by (simp_all add: IsoConnection_installListener_def IsoConnection_create_def SEND_BUF_SIZE_def IsoPresentation_init_def
      fresh_presentation_def transport_ready_def CotpConnection_init_def Let_def full_tpdu_size [unfolded COTP_MAX_TPDU_SIZE_def]
      CotpConnection_getTpduSize_def empty_buffer_def COTP_MAX_TPDU_SIZE_def)
  then show ?thesis
    using server_answers_data [OF assms(1,2), of ?srv m bs h k s] assms(3-5) by (auto simp: IsoConnection_isRunning_def)
qed

theorem mms_before_association_witness:
  "\<exists>s' srv'. on_data_indication 1 demo_socket [] []
       (with_message \<lparr>buffer = data_message 0 [7], bsize = int (length (data_message 0 [7])), maxSize = 100\<rparr>
         (IsoConnection_installListener (IsoConnection_create (Some (\<lambda>p. (False, None)))) echo_handler)) = Inr (s', [[7]], srv')
     \<and> IsoConnection_isRunning srv'"
proof -
  have "accepts_all demo_socket (\<lambda>s. s)" by (simp add: accepts_all_def demo_socket_def)
  from mms_before_association [OF this echo_serves, of
      "\<lparr>buffer = data_message 0 [7], bsize = int (length (data_message 0 [7])), maxSize = 100\<rparr>" "[7]" "[]" 0 "[]"
      "Some (\<lambda>p. (False, None))"]
  show ?thesis by (simp add: holds_def echo_def)
qed

text \<open>
  Further associations with the same client object: for each one the transport connection is set up again over the old buffers and
  the frames with the answer of the server arrive.
\<close>

fun attempts :: "CotpConnection \<Rightarrow> byte list list list \<Rightarrow> CotpConnection run" where
  "attempts c [] = Inr c"
| "attempts c (pieces # answers) =
     rbind (receive_packets (CotpConnection_init c (payload c) (readBuffer c) (writeBuffer c)) (frames pieces)) (\<lambda>(c', _).
       attempts c' answers)"

lemma attempts_append_payload:
  "payload_ok c \<Longrightarrow> (\<forall>pieces \<in> set answers. concat pieces \<noteq> []) \<Longrightarrow>
   int (length (payload_bytes c) + length (concat (map concat answers))) \<le> maxSize (payload c) \<Longrightarrow>
   \<exists>c'. attempts c answers = Inr c' \<and> payload_ok c' \<and> payload_bytes c' = payload_bytes c @ concat (map concat answers)"
proof (induction answers arbitrary: c)
  case (Cons pieces answers)
  let ?c1 = "CotpConnection_init c (payload c) (readBuffer c) (writeBuffer c)"
  have pl: "payload ?c1 = payload c"
    by (simp add: CotpConnection_init_def Let_def full_tpdu_size [unfolded COTP_MAX_TPDU_SIZE_def] COTP_MAX_TPDU_SIZE_def)
  then have p1: "payload_ok ?c1" "payload_bytes ?c1 = payload_bytes c" "maxSize (payload ?c1) = maxSize (payload c)"
    using Cons.prems(1) by (simp_all add: payload_ok_def payload_bytes_def)
  have "pieces \<noteq> []" using Cons.prems(2) by auto
  from receive_frames [OF p1(1) _ this] p1(2,3) Cons.prems(3) obtain c2 inds where
    r: "receive_packets ?c1 (frames pieces) = Inr (c2, inds)" "payload_ok c2" "payload_bytes c2 = payload_bytes c @ concat pieces"
      "maxSize (payload c2) = maxSize (payload c)"
    by auto
  with Cons.IH [OF r(2)] Cons.prems(2,3) show ?case by (auto simp: add.assoc)
qed simp

text \<open>
  C15: A client cannot use its connection object again after the server has ended the session: the thread leaves
  the disconnect PDU in the payload buffer, a new transport connection keeps the buffer as it is, the answers to all later
  associations are put behind it, and each of these associations fails, whatever the answers: for every number of
  attempts, as long as their answers fit into the payload buffer together.
\<close>

theorem stale_payload_blocks_reconnect:
  assumes "CotpConnection_parseIncomingMessage (icl_cotp cl) = Inr (c, COTP_DATA_INDICATION)"
    and "contents (payload c) = spdu_octets 10 [] bs" and "length (spdu_octets 10 [] bs) \<le> 257"
    and "buffer_ok (payload c)" and "\<forall>pieces \<in> set answers. concat pieces \<noteq> []" and "answers \<noteq> []"
    and "int (length (spdu_octets 10 [] bs) + length (concat (map concat answers))) \<le> maxSize (payload c)"
  shows "\<exists>cl'. client_message cl = Inr (cl', [], False)
    \<and> (\<exists>c'. attempts (icl_cotp cl') answers = Inr c'
         \<and> (\<forall>n cl2. \<exists>cl3. association_answer n (cl2\<lparr>icl_cotp := c'\<rparr>) = Inr (cl3, None)))"
proof -
  let ?d = "spdu_octets 10 [] bs" and ?as = "concat (map concat answers)"
  have sz: "bsize (payload c) = int (length ?d)"
    using length_contents [OF assms(4)] assms(2) by simp
  have m: "holds (payload c) ?d" using assms(2) sz by (simp add: holds_def contents_def)
  have ind: "spdu_indication 10 = Some SESSION_DISCONNECT" by (simp add: spdu_indication_def)
  from parseMessage_spdu [OF ind _ assms(3) m, of "icl_session cl"] obtain u where
    "IsoSession_parseMessage (icl_session cl) (payload c) = Inr (icl_session cl\<lparr>ss_userData := u\<rparr>, SESSION_DISCONNECT)" by auto
  then have cm: "client_message cl = Inr (cl\<lparr>icl_cotp := c, icl_session := icl_session cl\<lparr>ss_userData := u\<rparr>\<rparr>, [], False)"
    using assms(1) by (simp add: client_message_def CotpConnection_getPayload_def Let_def)
  have p: "payload_ok c" "payload_bytes c = ?d" using assms(2,4) by (simp_all add: payload_ok_def payload_bytes_def)
  from attempts_append_payload [OF p(1) assms(5)] p(2) assms(7) obtain c2 where
    r: "attempts c answers = Inr c2" "payload_ok c2" "payload_bytes c2 = ?d @ ?as" by auto
  have ne: "?as \<noteq> []" using assms(5,6) by (cases answers) auto
  have sz2: "bsize (payload c2) = int (length ?d) + int (length ?as)"
    using length_contents [of "payload c2"] r(2,3) by (simp add: payload_ok_def payload_bytes_def)
  obtain l rest where d: "?d = [10, l] @ rest" by (simp add: spdu_octets_def Let_def)
  have "holds (payload c2) (?d @ ?as)"
    using r(3) sz2 by (simp add: holds_def payload_bytes_def contents_def nat_add_distrib)
  from holds_bytes_at [OF this] have at: "bytes_at (buffer (payload c2)) 0 [10, l]" unfolding d by simp
  have "uint l = int (length ?d) - 2"
  proof -
    have "length bs + 2 < 256" using assms(3) by (simp add: length_spdu_octets)
    moreover have "l = of_nat (2 + length bs)" using d by (simp add: spdu_octets_def Let_def)
    ultimately show ?thesis using uint_of_nat_byte [of "2 + length bs"] by (simp add: length_spdu_octets)
  qed
  moreover have "0 < int (length ?as)" using ne by (simp only: of_nat_0_less_iff length_greater_0_conv not_False_eq_True)
  ultimately have wrong: "uint l \<noteq> bsize (payload c2) - 2" "1 < bsize (payload c2)" using sz2 d by simp_all
  have "IsoSession_parseMessage s (payload c2) = Inr (s, SESSION_ERROR)" for s
    by (rule parseMessage_wrong_length [OF ind at wrong(2,1)])
  then have "\<exists>cl3. association_answer n (cl2\<lparr>icl_cotp := c2\<rparr>) = Inr (cl3, None)" for n cl2
    by (simp add: association_answer_def CotpConnection_getPayload_def Let_def)
  with cm r(1) show ?thesis by auto
qed

theorem stale_payload_blocks_reconnect_witness:
  "\<exists>cl'. client_message (IsoClientConnection_create
           \<lparr>icl_cotp := with_packet (frame True (spdu_octets 10 [] [1, 2])) (icl_cotp IsoClientConnection_create)\<rparr>)
         = Inr (cl', [], False)
    \<and> (\<exists>c'. attempts (icl_cotp cl') (replicate 3 [accept_message fresh_acse fresh_presentation IsoSession_init [7]]) = Inr c'
         \<and> (\<forall>n cl2. \<exists>cl3. association_answer n (cl2\<lparr>icl_cotp := c'\<rparr>) = Inr (cl3, None)))"
proof -
  let ?d = "spdu_octets 10 [] [1, 2]" and ?a = "accept_message fresh_acse fresh_presentation IsoSession_init [7]"
  let ?c0 = "icl_cotp IsoClientConnection_create"
  let ?cl = "IsoClientConnection_create\<lparr>icl_cotp := with_packet (frame True ?d) ?c0\<rparr>"
  have d: "length ?d = 6" by (simp add: length_spdu_octets)
  have pay: "payload ?c0 = empty_buffer 65100" by (simp add: IsoClientConnection_create_def ISO_CLIENT_BUFFER_SIZE_def)
  have b: "payload_ok ?c0" "payload_bytes ?c0 = []" "maxSize (payload ?c0) = 65100"
    unfolding payload_ok_def payload_bytes_def pay by (simp_all add: empty_buffer_def buffer_ok_def contents_def)
  from frame_received [OF b(1), of ?d True] b(2,3) d obtain c where
    c: "CotpConnection_parseIncomingMessage (with_packet (frame True ?d) ?c0) = Inr (c, COTP_DATA_INDICATION)"
      "payload_ok c" "payload_bytes c = ?d" "maxSize (payload c) = 65100" by auto
  have p: "CotpConnection_parseIncomingMessage (icl_cotp ?cl) = Inr (c, COTP_DATA_INDICATION)"
    "contents (payload c) = ?d" "length ?d \<le> 257" "buffer_ok (payload c)"
    using c d by (simp_all add: payload_ok_def payload_bytes_def)
  have ne: "?a \<noteq> []" by (simp add: accept_message_def spdu_octets_def Let_def)
  have "length ?a \<le> 500"
  proof -
    let ?r = "response_message fresh_acse [7]"
    have r: "length ?r \<le> 55" using response_message_length [of "[7]" fresh_acse] by simp
    then have "length (cp_message (cpa_items fresh_presentation ?r)) \<le> 183"
      using cpa_items_ok(2) [of ?r fresh_presentation] by simp
    then show ?thesis
      by (simp add: accept_message_def length_spdu_octets accept_params_def init_fields default_selector_ok)
  qed
  moreover have three: "replicate 3 [x] = [[x], [x], [x]]" for x :: "byte list" by (simp add: eval_nat_numeral)
  have "length (concat (map concat (replicate 3 [x]))) = 3 * length x" for x :: "byte list" unfolding three by simp
  ultimately have len: "\<forall>pieces \<in> set (replicate 3 [?a]). concat pieces \<noteq> []" "replicate 3 [?a] \<noteq> []"
    "int (length ?d + length (concat (map concat (replicate 3 [?a])))) \<le> maxSize (payload c)"
    using ne d c(4) by simp_all
  show ?thesis by (rule stale_payload_blocks_reconnect [OF p len])
qed

end
