(* ===== verification/Presentation_Outcome.thy ===== *)
theory Presentation_Outcome
  imports Presentation_Messages
begin

text \<open>
  The meaning of every well-formed connect message, refused context definition lists included: the parser of the presentation
  layer accepts the message, rejects it, or reads in front of it, because it does not look at the result of the list.
\<close>

section \<open>Three outcomes\<close>

datatype 'a outcome = Accepted 'a | Rejected | Reads_before_message

fun outcome_fold :: "('a \<Rightarrow> 'i \<Rightarrow> 'a outcome) \<Rightarrow> 'a \<Rightarrow> 'i list \<Rightarrow> 'a outcome" where
  "outcome_fold f a [] = Accepted a"
| "outcome_fold f a (i # is) =
     (case f a i of Accepted a' \<Rightarrow> outcome_fold f a' is | Rejected \<Rightarrow> Rejected | Reads_before_message \<Rightarrow> Reads_before_message)"

text \<open>Well-formed parameters, with context lists of any content.\<close>

fun normal_shape :: "normal_param \<Rightarrow> bool" where
  "normal_shape (Context_list its) = (list_all pcdl_ok its \<and> length (concat (map pcdl_octets its)) < 65536)"
| "normal_shape (User_data its) = (list_all tlv_ok its \<and> length (tlv 0x30 (concat (map tlv_octets its))) < 65536)"
| "normal_shape (Other_param t v) = (t \<noteq> 0xa4 \<and> t \<noteq> 0x61 \<and> length v < 65536)"

fun cp_shape :: "cp_item \<Rightarrow> bool" where
  "cp_shape (Normal_mode its) = (list_all normal_shape its \<and> length (concat (map normal_octets its)) < 65536)"
| "cp_shape (Mode t v) = (length (tlv t v) < 65536)"
| "cp_shape (Other_item t v) = (t \<noteq> 0xa0 \<and> t \<noteq> 0xa2 \<and> length v < 65536)"

text \<open>
  A list with an entry that is refused (no identifier, or neither the syntax of the association control nor that of MMS) has no
  meaning: the parser goes on at the position -1. Fully encoded data without user data is rejected.
\<close>

fun normal_outcome :: "pres_view \<Rightarrow> normal_param \<Rightarrow> pres_view outcome" where
  "normal_outcome a (Context_list its) =
     (case opt_fold pcdl_eff a its of Some a' \<Rightarrow> Accepted a' | None \<Rightarrow> Reads_before_message)"
| "normal_outcome a i = (case normal_eff a i of Some a' \<Rightarrow> Accepted a' | None \<Rightarrow> Rejected)"

fun cp_outcome :: "pres_view \<Rightarrow> cp_item \<Rightarrow> pres_view outcome" where
  "cp_outcome a (Normal_mode its) = outcome_fold normal_outcome a its"
| "cp_outcome a i = (case cp_eff a i of Some a' \<Rightarrow> Accepted a' | None \<Rightarrow> Rejected)"


section \<open>Loops with three outcomes\<close>

text \<open>
  A loop over elements of which one may make it read in front of the buffer, in the same round or in the next one. One round more than
  there are elements is enough to see it.
\<close>

locale outcome_loop =
  fixes round :: "int \<times> 's \<Rightarrow> (int \<times> 's, 'r) ctl run"
    and b :: "byte list"
    and e :: int
    and octets :: "'i \<Rightarrow> byte list"
    and item_ok :: "'i \<Rightarrow> bool"
    and out :: "'a \<Rightarrow> 'i \<Rightarrow> 'a outcome"
    and rel :: "'s \<Rightarrow> 'a \<Rightarrow> bool"
    and refused :: "'r \<Rightarrow> bool"
  assumes octets_nonempty: "octets i \<noteq> []"
    and round_item: "item_ok i \<Longrightarrow> 0 \<le> p \<Longrightarrow> bytes_at b p (octets i) \<Longrightarrow> p + int (length (octets i)) \<le> e \<Longrightarrow>
      e < 2 ^ 31 \<Longrightarrow> rel s a \<Longrightarrow>
      (case out a i of
         Accepted a' \<Rightarrow> \<exists>s'. round (p, s) = Inr (Continue (p + int (length (octets i)), s')) \<and> rel s' a'
       | Rejected \<Rightarrow> \<exists>r. round (p, s) = Inr (Return r) \<and> refused r
       | Reads_before_message \<Rightarrow> round (p, s) = Inl Out_of_bounds
           \<or> (\<exists>s'. round (p, s) = Inr (Continue (-1, s')) \<and> round (-1, s') = Inl Out_of_bounds))"
begin

lemma loop_outcome:
  "list_all item_ok is \<Longrightarrow> 0 \<le> p \<Longrightarrow> bytes_at b p (concat (map octets is)) \<Longrightarrow>
   e = p + int (length (concat (map octets is))) \<Longrightarrow> e < 2 ^ 31 \<Longrightarrow> rel s a \<Longrightarrow> length is < n \<Longrightarrow>
   (case outcome_fold out a is of
      Accepted a' \<Rightarrow> \<exists>s'. c_while n (\<lambda>(p, _). p < e) round (p, s) = Inr (Continue (e, s')) \<and> rel s' a'
    | Rejected \<Rightarrow> \<exists>r. c_while n (\<lambda>(p, _). p < e) round (p, s) = Inr (Return r) \<and> refused r
    | Reads_before_message \<Rightarrow> c_while n (\<lambda>(p, _). p < e) round (p, s) = Inl Out_of_bounds)"
proof (induction "is" arbitrary: p s a n)
  case Nil
  then show ?case by (auto simp: c_while_done)
next
  case (Cons i "is")
  let ?q = "p + int (length (octets i))"
  from Cons.prems have i: "item_ok i" "0 \<le> p" "bytes_at b p (octets i)" "?q \<le> e"
    and rest: "list_all item_ok is" "0 \<le> ?q" "bytes_at b ?q (concat (map octets is))"
      "e = ?q + int (length (concat (map octets is)))"
    by (simp_all add: bytes_at_append)
  from octets_nonempty [of i] have "0 < int (length (octets i))" by simp
  with i(4) have c: "p < e" by linarith
  then have c': "-1 < e" using i(2) by linarith
  obtain k where n: "n = Suc k" "length is < k" using Cons.prems(7) by (cases n) auto
  then obtain j where k: "k = Suc j" by (cases k) auto
  note round = round_item [OF i Cons.prems(5,6)]
  show ?case
  proof (cases "out a i")
    case Rejected
    with round c show ?thesis by (auto simp: n)
  next
    case Reads_before_message
    with round c c' show ?thesis by (auto simp: n k)
  next
    case (Accepted a')
    with round obtain s' where s': "round (p, s) = Inr (Continue (?q, s'))" "rel s' a'" by auto
    have "c_while n (\<lambda>(p, _). p < e) round (p, s) = c_while k (\<lambda>(p, _). p < e) round (?q, s')"
      using c s'(1) by (simp add: n(1))
    moreover have "outcome_fold out a (i # is) = outcome_fold out a' is" by (simp add: Accepted)
    ultimately show ?thesis
      using Cons.IH [OF rest Cons.prems(5) s'(2) n(2)] by (simp only:)
  qed
qed

end


section \<open>The normal mode parameters\<close>

text \<open>Whether a context list is refused does not depend on what was read before.\<close>

lemma entry_meaning_refused: "entry_meaning a its = None \<longleftrightarrow> entry_meaning a' its = None"
  by (auto simp: entry_meaning_def split: option.splits)

lemma pcdl_refused: "opt_fold pcdl_eff a its = None \<Longrightarrow> opt_fold pcdl_eff a' its = None"
proof (induction its arbitrary: a a')
  case (Cons i its)
  have none: "pcdl_eff a i = None \<longleftrightarrow> pcdl_eff a' i = None" by (cases i) (simp_all add: entry_meaning_refused [of a _ a'])
  show ?case
  proof (cases "pcdl_eff a i")
    case (Some x)
    then obtain y where "pcdl_eff a' i = Some y" using none by fastforce
    with Some Cons show ?thesis by auto
  qed (use none in auto)
qed simp

lemma accepted_list_ok:
  assumes "normal_shape i" and "\<And>its. i = Context_list its \<Longrightarrow> opt_fold pcdl_eff a its \<noteq> None"
  shows "normal_ok i"
proof (cases i)
  case (Context_list its)
  have "opt_fold pcdl_eff x its \<noteq> None" for x using pcdl_refused [of x its a] assms(2) [OF Context_list] by blast
  with assms(1) show ?thesis unfolding Context_list normal_ok.simps normal_shape.simps by blast
qed (use assms(1) in simp_all)

lemma refused_list_round:
  assumes "normal_shape (Context_list its)" and "0 \<le> p" and "bytes_at b p (normal_octets (Context_list its))"
    and "p + int (length (normal_octets (Context_list its))) \<le> e" and "e < 2 ^ 31" and "pres_rel self a"
    and n: "length (normal_octets (Context_list its)) \<le> n" and none: "opt_fold pcdl_eff a its = None"
  shows "\<exists>self'. normal_round n b e (p, self) = Inr (Continue (-1, self')) \<and> normal_round n b e (-1, self') = Inl Out_of_bounds"
proof -
  let ?c = "concat (map pcdl_octets its)"
  have at: "bytes_at b p (tlv 0xa4 ?c)" and e: "p + int (length (tlv 0xa4 ?c)) \<le> e"
    and ok: "list_all pcdl_ok its" and l: "length ?c < 65536" using assms(1,3,4) by simp_all
  have at': "bytes_at b (inside p ?c) ?c" using at by (simp add: bytes_at_tlv)
  have ie: "inside p ?c + int (length ?c) = p + int (length (tlv 0xa4 ?c))" by (rule inside_end)
  note behind = behind_tlv [OF assms(2) e assms(5)]
  have lt: "inside p ?c + int (length ?c) < 2 ^ 31" using e assms(5) by (simp only: ie)
  have n': "length ?c \<le> n" using n by (simp add: tlv_def)
  from parsePCDL_items [OF ok behind(2) at' lt assms(6) n', unfolded none] obtain self' where
    "parsePresentationContextDefinitionList n self b (int (length ?c)) (inside p ?c) = Inr (self', -1)" by auto
  with behind have "normal_round n b e (p, self) = Inr (Continue (-1, self'))"
    by (simp add: normal_round_def read_tl_at [OF l at e])
  moreover have "normal_round n b e (-1, self') = Inl Out_of_bounds" by (simp add: normal_round_def read_tl_def rd_def)
  ultimately show ?thesis by blast
qed

interpretation normal_outcomes: outcome_loop "normal_round n b e" b e normal_octets
  "\<lambda>i. normal_shape i \<and> length (normal_octets i) \<le> n" normal_outcome pres_rel "\<lambda>r. snd r = -1"
  for n :: nat and b :: "byte list" and e :: int
proof unfold_locales
  fix i p s a
  assume h: "normal_shape i \<and> length (normal_octets i) \<le> n" "0 \<le> p" "bytes_at b p (normal_octets i)"
    "p + int (length (normal_octets i)) \<le> e" "e < 2 ^ 31" "pres_rel s a"
  show "case normal_outcome a i of
         Accepted a' \<Rightarrow> \<exists>s'. normal_round n b e (p, s) = Inr (Continue (p + int (length (normal_octets i)), s')) \<and> pres_rel s' a'
       | Rejected \<Rightarrow> \<exists>r. normal_round n b e (p, s) = Inr (Return r) \<and> snd r = -1
       | Reads_before_message \<Rightarrow> normal_round n b e (p, s) = Inl Out_of_bounds
           \<or> (\<exists>s'. normal_round n b e (p, s) = Inr (Continue (-1, s')) \<and> normal_round n b e (-1, s') = Inl Out_of_bounds)"
  proof (cases "\<exists>its. i = Context_list its \<and> opt_fold pcdl_eff a its = None")
    case True
    then obtain its where i: "i = Context_list its" "opt_fold pcdl_eff a its = None" by blast
    note h' = h [unfolded i(1)]
    from refused_list_round [OF h'(1) [THEN conjunct1] h'(2-6) h'(1) [THEN conjunct2] i(2)]
    have "normal_round n b e (p, s) = Inl Out_of_bounds
        \<or> (\<exists>s'. normal_round n b e (p, s) = Inr (Continue (-1, s')) \<and> normal_round n b e (-1, s') = Inl Out_of_bounds)" by (rule disjI2)
    then show ?thesis unfolding i(1) normal_outcome.simps(1) i(2) option.case outcome.case .
  next
    case False
    have "normal_ok i" by (rule accepted_list_ok [OF h(1) [THEN conjunct1], of a]) (use False in simp)
    with h have "case normal_eff a i of
        Some a' \<Rightarrow> \<exists>s'. normal_round n b e (p, s) = Inr (Continue (p + int (length (normal_octets i)), s')) \<and> pres_rel s' a'
      | None \<Rightarrow> \<exists>r. normal_round n b e (p, s) = Inr (Return r) \<and> snd r = -1"
      by (intro normal_round_item) simp_all
    moreover have "normal_outcome a i = (case normal_eff a i of Some a' \<Rightarrow> Accepted a' | None \<Rightarrow> Rejected)"
      using False by (cases i) (auto split: option.splits)
    ultimately show ?thesis by (auto split: option.splits)
  qed
qed (rule normal_octets_nonempty)

lemma normal_mode_outcome:
  fixes its :: "normal_param list"
  defines "c \<equiv> concat (map normal_octets its)"
  assumes "list_all normal_shape its" and p: "0 \<le> p" and at: "bytes_at b p c" and e: "p + int (length c) < 2 ^ 31"
    and rel: "pres_rel self a" and n: "length c < n"
  shows "case outcome_fold normal_outcome a its of
      Accepted a' \<Rightarrow> \<exists>self'. parseNormalModeParameters n self b (int (length c)) p = Inr (self', p + int (length c)) \<and> pres_rel self' a'
    | Rejected \<Rightarrow> \<exists>self'. parseNormalModeParameters n self b (int (length c)) p = Inr (self', -1)
    | Reads_before_message \<Rightarrow> parseNormalModeParameters n self b (int (length c)) p = Inl Out_of_bounds"
proof -
  let ?e = "p + int (length c)"
  have i32e: "i32 ?e = ?e" using e p by (intro i32_id) auto
  have rounds: "length its < n"
    using length_concat_ge [of its normal_octets, OF normal_octets_nonempty] n unfolding c_def by simp
  have within: "list_all (\<lambda>i. normal_shape i \<and> length (normal_octets i) \<le> n) its"
    using items_within [of normal_octets its n normal_shape] assms(2) n unfolding c_def by simp
  have "bytes_at b p (concat (map normal_octets its))" "?e = p + int (length (concat (map normal_octets its)))"
    using at unfolding c_def by simp_all
  from normal_outcomes.loop_outcome [OF within p this e rel rounds]
  show ?thesis
    by (auto simp: parseNormalModeParameters_def i32e split: outcome.splits)
qed


section \<open>The connect message\<close>

lemma connect_round_outcome:
  assumes "cp_shape i" and "0 \<le> p" and at: "bytes_at b p (cp_octets i)" and e: "p + int (length (cp_octets i)) \<le> e"
    and "e < 2 ^ 31" and rel: "pres_rel self a" and n: "length (cp_octets i) \<le> n"
  shows "case cp_outcome a i of
      Accepted a' \<Rightarrow> \<exists>self'. connect_round n b e (p, self) = Inr (Continue (p + int (length (cp_octets i)), self')) \<and> pres_rel self' a'
    | Rejected \<Rightarrow> \<exists>r. connect_round n b e (p, self) = Inr (Return r) \<and> snd r = 0
    | Reads_before_message \<Rightarrow> connect_round n b e (p, self) = Inl Out_of_bounds"
proof (cases i)
  case (Normal_mode its)
  let ?c = "concat (map normal_octets its)"
  have q: "\<not> p + int (length (tlv 0xa2 ?c)) < 0" using assms(2) by simp
  have tlv: "bytes_at b p (tlv 0xa2 ?c)" "p + int (length (tlv 0xa2 ?c)) \<le> e" and l: "length ?c < 65536"
    and ok: "list_all normal_shape its" and n': "length ?c < n"
    using at e n assms(1) by (simp_all add: Normal_mode tlv_def)
  have at': "bytes_at b (inside p ?c) ?c" using tlv(1) by (simp add: bytes_at_tlv)
  have ie: "inside p ?c + int (length ?c) = p + int (length (tlv 0xa2 ?c))" by (rule inside_end)
  note behind = behind_tlv [OF assms(2) tlv(2) assms(5)]
  have lt: "inside p ?c + int (length ?c) < 2 ^ 31" using tlv(2) assms(5) by (simp only: ie)
  note el = normal_mode_outcome [OF ok behind(2) at' lt rel n', unfolded ie]
  from el behind(3) q show ?thesis
    by (cases "outcome_fold normal_outcome a its") (auto simp: Normal_mode connect_round_def read_tl_at [OF l tlv])
next
  case (Mode t v)
  with connect_round_item [OF _ assms(2-7)] assms(1) show ?thesis by (auto split: option.splits)
next
  case (Other_item t v)
  with connect_round_item [OF _ assms(2-7)] assms(1) show ?thesis by (auto split: option.splits)
qed

interpretation connect_outcomes: outcome_loop "connect_round n b e" b e cp_octets
  "\<lambda>i. cp_shape i \<and> length (cp_octets i) \<le> n" cp_outcome pres_rel "\<lambda>r. snd r = 0"
  for n :: nat and b :: "byte list" and e :: int
proof unfold_locales
  fix i p s a
  assume "cp_shape i \<and> length (cp_octets i) \<le> n" "0 \<le> p" "bytes_at b p (cp_octets i)"
    "p + int (length (cp_octets i)) \<le> e" "e < 2 ^ 31" "pres_rel s a"
  then have "case cp_outcome a i of
      Accepted a' \<Rightarrow> \<exists>s'. connect_round n b e (p, s) = Inr (Continue (p + int (length (cp_octets i)), s')) \<and> pres_rel s' a'
    | Rejected \<Rightarrow> \<exists>r. connect_round n b e (p, s) = Inr (Return r) \<and> snd r = 0
    | Reads_before_message \<Rightarrow> connect_round n b e (p, s) = Inl Out_of_bounds"
    by (intro connect_round_outcome) simp_all
  then show "case cp_outcome a i of
         Accepted a' \<Rightarrow> \<exists>s'. connect_round n b e (p, s) = Inr (Continue (p + int (length (cp_octets i)), s')) \<and> pres_rel s' a'
       | Rejected \<Rightarrow> \<exists>r. connect_round n b e (p, s) = Inr (Return r) \<and> snd r = 0
       | Reads_before_message \<Rightarrow> connect_round n b e (p, s) = Inl Out_of_bounds
           \<or> (\<exists>s'. connect_round n b e (p, s) = Inr (Continue (-1, s')) \<and> connect_round n b e (-1, s') = Inl Out_of_bounds)"
    by (auto split: outcome.splits)
qed (rule cp_octets_nonempty)

text \<open>
  C29: The parser of the presentation connect message implements the meaning of the message, for any well-formed list of
  elements, nested in any order and number and with any context definition lists. It accepts exactly when the meaning is
  defined and leaves the context identifiers and the payload the elements describe; it rejects a wrong mode and data without
  user data; and it reads in front of the message when it comes to a context definition list with a refused entry. Rounds as
  many as the message has octets are enough for all its loops.
\<close>

theorem parseConnect_outcome:
  assumes "list_all cp_shape its" and "length (cp_message its) \<le> 65536" and "holds m (cp_message its)"
    and "pres_rel self a" and "length (cp_message its) \<le> n"
  shows "case outcome_fold cp_outcome a its of
      Accepted a' \<Rightarrow> \<exists>self'. IsoPresentation_parseConnect n self m = Inr (self', 1) \<and> pres_rel self' a'
    | Rejected \<Rightarrow> \<exists>self'. IsoPresentation_parseConnect n self m = Inr (self', 0)
    | Reads_before_message \<Rightarrow> IsoPresentation_parseConnect n self m = Inl Out_of_bounds"
proof -
  let ?c = "concat (map cp_octets its)" and ?b = "buffer m" and ?e = "bsize m"
  have at: "bytes_at ?b 0 (tlv 0x31 ?c)" using holds_bytes_at [OF assms(3)] by (simp add: cp_message_def)
  have sz: "?e = int (length (tlv 0x31 ?c))" using assms(3) by (simp add: holds_def cp_message_def)
  have lc: "length ?c < 65536" "length ?c < n" using assms(2,5) by (simp_all add: cp_message_def tlv_def)
  have at': "bytes_at ?b (inside 0 ?c) ?c" and tag: "rd ?b 0 = Inr 0x31" using at by (simp_all add: bytes_at_tlv)
  have ie: "?e = inside 0 ?c + int (length ?c)" using inside_end [of 0 ?c "0x31"] by (simp add: sz)
  have lt: "?e < 2 ^ 31" using assms(2) by (simp add: sz cp_message_def)
  have p: "0 \<le> inside 0 ?c" using inside_gt [of 0 ?c] by simp
  have rounds: "length its < n" using length_concat_ge [of its cp_octets, OF cp_octets_nonempty] lc(2) by simp
  have within: "list_all (\<lambda>i. cp_shape i \<and> length (cp_octets i) \<le> n) its"
    using items_within [of cp_octets its n cp_shape] assms(1) lc(2) by simp
  have d: "BerDecoder_decodeLength ?b None 1 ?e = Inr (inside 0 ?c, Some (int (length ?c)))"
    using decodeLength_tlv [OF lc(1) at, of ?e] by (simp add: sz)
  from connect_outcomes.loop_outcome [OF within p at' ie lt assms(4) rounds]
  show ?thesis
    by (auto simp: IsoPresentation_parseConnect_def Let_def tag d split: outcome.splits)
qed

text \<open>
  A message with the context definition list of a client is accepted, the same one with an entry without a syntax makes the parser
  read in front of it, and data without user data is rejected.
\<close>

definition demo_contexts :: "(byte \<times> byte list) list \<Rightarrow> cp_item list" where
  "demo_contexts entry =
     [Mode 0x80 [1], Normal_mode [Context_list [Entry [(2, [1]), (6, asn_id_as_acse)], Entry entry], User_data [(2, [1]), (0xa0, [7, 8])]]]"

definition demo_buffer :: "byte list \<Rightarrow> ByteBuffer" where
  "demo_buffer bs = \<lparr>buffer = bs, bsize = int (length bs), maxSize = int (length bs)\<rparr>"

theorem parseConnect_outcome_witness:
  "(\<exists>self'. IsoPresentation_parseConnect 100 fresh_presentation (demo_buffer (cp_message (demo_contexts [(2, [3]), (6, asn_id_mms)])))
       = Inr (self', 1) \<and> acseContextId self' = 1 \<and> mmsContextId self' = 3 \<and> holds (nextPayload self') [7, 8])
   \<and> IsoPresentation_parseConnect 100 fresh_presentation (demo_buffer (cp_message (demo_contexts [(2, [3])]))) = Inl Out_of_bounds
   \<and> (\<exists>self'. IsoPresentation_parseConnect 100 fresh_presentation (demo_buffer (cp_message [Normal_mode [User_data [(2, [1])]]]))
       = Inr (self', 0))"
proof (intro conjI)
  have held: "holds (demo_buffer bs) bs" for bs by (simp add: holds_def demo_buffer_def)
  have run: "case outcome_fold cp_outcome fresh_view its of
      Accepted a' \<Rightarrow> \<exists>self'. IsoPresentation_parseConnect 100 fresh_presentation (demo_buffer (cp_message its)) = Inr (self', 1) \<and> pres_rel self' a'
    | Rejected \<Rightarrow> \<exists>self'. IsoPresentation_parseConnect 100 fresh_presentation (demo_buffer (cp_message its)) = Inr (self', 0)
    | Reads_before_message \<Rightarrow> IsoPresentation_parseConnect 100 fresh_presentation (demo_buffer (cp_message its)) = Inl Out_of_bounds"
    if "list_all cp_shape its" "length (cp_message its) \<le> 100" for its
    using parseConnect_outcome [OF that(1) _ held fresh_rel that(2)] that(2) by simp
  let ?good = "demo_contexts [(2, [3]), (6, asn_id_mms)]" and ?bad = "demo_contexts [(2, [3])]" and ?none = "[Normal_mode [User_data [(2, [1])]]]"
  have ok: "list_all cp_shape ?good" "list_all cp_shape ?bad" "list_all cp_shape ?none"
    by (simp_all add: demo_contexts_def tlv_def len_bytes_small asn_id_as_acse_def asn_id_mms_def)
  have len: "length (cp_message ?good) \<le> 100" "length (cp_message ?bad) \<le> 100" "length (cp_message ?none) \<le> 100"
    by (simp_all add: demo_contexts_def cp_message_def tlv_def len_bytes_small asn_id_as_acse_def asn_id_mms_def)
  have out: "outcome_fold cp_outcome fresh_view ?good = Accepted \<lparr>v_next = 1, v_acse = 1, v_mms = 3, v_payload = Some [7, 8]\<rparr>"
    "outcome_fold cp_outcome fresh_view ?bad = Reads_before_message" "outcome_fold cp_outcome fresh_view ?none = Rejected"
    by code_simp+
  show "\<exists>self'. IsoPresentation_parseConnect 100 fresh_presentation (demo_buffer (cp_message ?good))
       = Inr (self', 1) \<and> acseContextId self' = 1 \<and> mmsContextId self' = 3 \<and> holds (nextPayload self') [7, 8]"
    using run [OF ok(1) len(1)] out(1) by (auto simp: pres_rel_def)
  show "IsoPresentation_parseConnect 100 fresh_presentation (demo_buffer (cp_message ?bad)) = Inl Out_of_bounds"
    using run [OF ok(2) len(2)] out(2) by simp
  show "\<exists>self'. IsoPresentation_parseConnect 100 fresh_presentation (demo_buffer (cp_message ?none)) = Inr (self', 0)"
    using run [OF ok(3) len(3)] out(3) by simp
qed

end
