(* ===== verification/C_Strings.thy ===== *)
theory C_Strings
  imports Byte_Buffer "HOL-Library.Signed_Division"
begin

text \<open>
  NUL-terminated strings in a buffer, and the part of the C library's \<open>sscanf\<close> the code uses:
  \<open>%<w>d\<close> and \<open>%<w>u\<close> conversions (both store into an \<open>int\<close>) and literal characters.
  The functions of \<open>string_utilities.c\<close> on digits are at the end.
\<close>

section \<open>Strings\<close>

text \<open>The string that starts at index \<open>p\<close> of the buffer; without a NUL the reader leaves the buffer.\<close>

definition cstr :: "byte list \<Rightarrow> int \<Rightarrow> byte list run" where
  "cstr b p =
     (if 0 \<le> p \<and> p < int (length b) \<and> 0 \<in> set (drop (nat p) b)
      then Inr (takeWhile (\<lambda>x. x \<noteq> 0) (drop (nat p) b)) else Inl Out_of_bounds)"

text \<open>The octets of a text.\<close>

definition ascii :: "string \<Rightarrow> byte list" where
  "ascii s = map (\<lambda>c. of_nat (of_char c)) s"

definition is_digit :: "byte \<Rightarrow> bool" where
  "is_digit x \<longleftrightarrow> 48 \<le> uint x \<and> uint x \<le> 57"

definition is_space :: "byte \<Rightarrow> bool" where
  "is_space x \<longleftrightarrow> x = 32 \<or> (9 \<le> uint x \<and> uint x \<le> 13)"

text \<open>At most \<open>w\<close> digits from the front of the text.\<close>

fun scan_digits :: "nat \<Rightarrow> int \<Rightarrow> byte list \<Rightarrow> int \<times> byte list" where
  "scan_digits (Suc w) acc (x # xs) =
     (if is_digit x then scan_digits w (10 * acc + (uint x - 48)) xs else (acc, x # xs))"
| "scan_digits _ acc xs = (acc, xs)"

definition starts_digit :: "byte list \<Rightarrow> bool" where
  "starts_digit xs \<longleftrightarrow> xs \<noteq> [] \<and> is_digit (hd xs)"

text \<open>A numeric conversion of width \<open>w\<close>: white space, a sign that counts for the width, digits.\<close>

definition scan_int :: "nat \<Rightarrow> byte list \<Rightarrow> (int \<times> byte list) option" where
  "scan_int w text0 =
     (let t = dropWhile is_space text0
      in if t \<noteq> [] \<and> (hd t = 43 \<or> hd t = 45)
         then (if 1 < w \<and> starts_digit (drop 1 t)
               then (let (v, rest) = scan_digits (w - 1) 0 (drop 1 t)
                     in Some (if hd t = 45 then - v else v, rest))
               else None)
         else if 0 < w \<and> starts_digit t then Some (scan_digits w 0 t) else None)"

datatype conversion = Num nat | Lit byte

text \<open>The values of the conversions that succeeded before the first failure.\<close>

fun sscanf :: "conversion list \<Rightarrow> byte list \<Rightarrow> int list" where
  "sscanf [] t = []"
| "sscanf (Num w # fs) t = (case scan_int w t of None \<Rightarrow> [] | Some (v, rest) \<Rightarrow> v # sscanf fs rest)"
| "sscanf (Lit c # fs) t = (if t \<noteq> [] \<and> hd t = c then sscanf fs (drop 1 t) else [])"


section \<open>Digits\<close>

definition StringUtils_isDigit :: "byte \<Rightarrow> bool" where
  "StringUtils_isDigit c \<longleftrightarrow> sint c > 47 \<and> sint c < 58"

definition StringUtils_digitToInt :: "byte \<Rightarrow> int" where
  "StringUtils_digitToInt c = (if StringUtils_isDigit c then sint c - 48 else -1)"

text \<open>The loop of \<open>StringUtils_digitsToInt\<close> at the digit with index \<open>p\<close>, with \<open>count\<close> of them left.\<close>

fun digits_from :: "byte list \<Rightarrow> int \<Rightarrow> nat \<Rightarrow> int \<Rightarrow> int run" where
  "digits_from b p 0 v = Inr v"
| "digits_from b p (Suc n) v =
     rbind (rd b p) (\<lambda>c.
       if StringUtils_digitToInt c = -1 then Inr (-1)
       else digits_from b (p + 1) n (i32 (i32 (v * 10) + StringUtils_digitToInt c)))"

definition StringUtils_digitsToInt :: "byte list \<Rightarrow> int \<Rightarrow> nat \<Rightarrow> int run" where
  "StringUtils_digitsToInt b p count = digits_from b p count 0"

lemma sint_byte: "sint (x :: byte) = (if uint x < 128 then uint x else uint x - 256)"
proof -
  have "sint x = signed_take_bit 7 (uint x)" by (simp add: sint_uint)
  also have "\<dots> = (uint x + 128) mod 256 - 128" by (simp add: signed_take_bit_eq_take_bit_shift take_bit_eq_mod)
  finally have s: "sint x = (uint x + 128) mod 256 - 128" .
  show ?thesis
  proof (cases "uint x < 128")
    case True
    then show ?thesis unfolding s by (simp add: mod_pos_pos_trivial)
  next
    case False
    have "(uint x + 128) mod 256 = uint x - 128"
      by (rule int_mod_pos_eq [where q = 1]) (use False uint_byte_bounds(2) [of x] in linarith)+
    then show ?thesis unfolding s using False by simp
  qed
qed

lemma isDigit_eq: "StringUtils_isDigit x = is_digit x"
  using uint_byte_bounds [of x] unfolding StringUtils_isDigit_def is_digit_def sint_byte
  by (cases "uint x < 128") (auto simp del: uint_byte_bounds)

lemma digitToInt_eq: "StringUtils_digitToInt x = (if is_digit x then uint x - 48 else -1)"
  by (simp add: StringUtils_digitToInt_def isDigit_eq) (simp add: is_digit_def sint_byte)


section \<open>Printed numbers\<close>

text \<open>The \<open>n\<close> decimal digits of a number, most significant first.\<close>

fun decimal :: "nat \<Rightarrow> int \<Rightarrow> byte list" where
  "decimal 0 v = []"
| "decimal (Suc n) v = word_of_int (v div 10 ^ n + 48) # decimal n (v mod 10 ^ n)"

lemma length_decimal [simp]: "length (decimal n v) = n"
  by (induction n arbitrary: v) auto

lemma digit_char:
  assumes "0 \<le> d" and "d < 10"
  shows "uint (word_of_int (d + 48) :: byte) = d + 48" "is_digit (word_of_int (d + 48))"
proof -
  show u: "uint (word_of_int (d + 48) :: byte) = d + 48" by (rule uint_of_int_byte) (use assms in simp_all)
  show "is_digit (word_of_int (d + 48))" unfolding is_digit_def u using assms by simp
qed

lemma lead_digit:
  assumes "0 \<le> v" and "v < 10 ^ Suc n"
  shows "0 \<le> v div 10 ^ n \<and> v div 10 ^ n < (10 :: int)"
proof
  show "0 \<le> v div 10 ^ n" using assms(1) by (simp add: pos_imp_zdiv_nonneg_iff)
  have "v div 10 ^ n * 10 ^ n + v mod 10 ^ n = v" by (rule div_mult_mod_eq)
  moreover have "0 \<le> v mod 10 ^ n" by simp
  ultimately have "v div 10 ^ n * 10 ^ n < 10 * 10 ^ n" using assms(2) unfolding power_Suc by linarith
  then show "v div 10 ^ n < 10" by (rule mult_right_less_imp_less) simp
qed

lemma scan_decimal:
  "0 \<le> v \<Longrightarrow> v < 10 ^ n \<Longrightarrow> scan_digits n acc (decimal n v @ rest) = (acc * 10 ^ n + v, rest)"
proof (induction n arbitrary: v acc)
  case 0
  then show ?case by (cases rest) auto
next
  case (Suc n)
  let ?d = "v div 10 ^ n"
  have d: "0 \<le> ?d" "?d < 10" using lead_digit Suc.prems by blast+
  have "scan_digits n (10 * acc + ?d) (decimal n (v mod 10 ^ n) @ rest)
        = ((10 * acc + ?d) * 10 ^ n + v mod 10 ^ n, rest)"
    by (rule Suc.IH) simp_all
  moreover have "(10 * acc + ?d) * 10 ^ n + v mod 10 ^ n = acc * 10 ^ Suc n + v"
    using div_mult_mod_eq [of v "10 ^ n"] by (simp add: distrib_right)
  ultimately show ?case using digit_char [OF d] by simp
qed

lemma decimal_head:
  assumes "0 \<le> v" and "v < 10 ^ n" and "0 < n"
  shows "\<exists>x xs. decimal n v = x # xs \<and> is_digit x"
proof -
  obtain m where "n = Suc m" using assms(3) by (cases n) auto
  with lead_digit assms have d: "0 \<le> v div 10 ^ m" "v div 10 ^ m < 10" by blast+
  from digit_char(2) [OF d] \<open>n = Suc m\<close> show ?thesis by auto
qed

lemma digit_no_space: "is_digit x \<Longrightarrow> \<not> is_space x \<and> x \<noteq> 43 \<and> x \<noteq> 45 \<and> x \<noteq> 0"
  by (auto simp: is_digit_def is_space_def)

lemma scan_int_decimal:
  assumes "0 \<le> v" and "v < 10 ^ n" and "0 < n"
  shows "scan_int n (decimal n v @ rest) = Some (v, rest)"
proof -
  from decimal_head [OF assms] obtain x xs where x: "decimal n v = x # xs" "is_digit x" by blast
  then have "dropWhile is_space (decimal n v @ rest) = decimal n v @ rest" using digit_no_space by simp
  with x digit_no_space [OF x(2)] scan_decimal [OF assms(1,2), of 0 rest] show ?thesis
    using assms(3) by (simp add: scan_int_def Let_def starts_digit_def)
qed

lemma digits_from_decimal:
  "0 \<le> v \<Longrightarrow> v < 10 ^ n \<Longrightarrow> 0 \<le> acc \<Longrightarrow> acc * 10 ^ n + v < 2 ^ 31 \<Longrightarrow> bytes_at b p (decimal n v) \<Longrightarrow>
   digits_from b p n acc = Inr (acc * 10 ^ n + v)"
proof (induction n arbitrary: v acc p)
  case 0
  then show ?case by simp
next
  case (Suc n)
  let ?d = "v div 10 ^ n" and ?m = "v mod 10 ^ n"
  have d: "0 \<le> ?d" "?d < 10" using lead_digit Suc.prems(1,2) by blast+
  have at: "rd b p = Inr (word_of_int (?d + 48))" "bytes_at b (p + 1) (decimal n ?m)"
    using Suc.prems(5) by simp_all
  have tot: "(acc * 10 + ?d) * 10 ^ n + ?m = acc * 10 ^ Suc n + v"
    using div_mult_mod_eq [of v "10 ^ n"] by (simp add: distrib_right)
  have m: "0 \<le> ?m" by simp
  have p1: "(1 :: int) \<le> 10 ^ n" by simp
  have nn: "0 \<le> acc * 10 + ?d" using d Suc.prems(3) by simp
  have "acc * 10 + ?d \<le> (acc * 10 + ?d) * 10 ^ n" using nn p1 by (simp add: mult_le_cancel_left1)
  then have lt: "acc * 10 + ?d < 2 ^ 31" using tot m Suc.prems(4) by linarith
  have i: "i32 (i32 (acc * 10) + ?d) = acc * 10 + ?d"
  proof -
    have "i32 (acc * 10) = acc * 10" using lt d Suc.prems(3) by (intro i32_id) simp_all
    moreover have "i32 (acc * 10 + ?d) = acc * 10 + ?d" using lt nn by (intro i32_id) simp_all
    ultimately show ?thesis by simp
  qed
  have "digits_from b (p + 1) n (acc * 10 + ?d) = Inr ((acc * 10 + ?d) * 10 ^ n + ?m)"
    by (rule Suc.IH) (use nn tot at Suc.prems(4) in simp_all)
  then show ?case using at(1) digit_char [OF d] d i tot by (simp add: digitToInt_eq)
qed

end
