(* ===== verification/Calendar.thy ===== *)
theory Calendar
  imports Prelude
begin

text \<open>
  The C library's calendar functions as far as the code uses them: \<open>struct tm\<close>, \<open>timegm\<close> (which
  accepts fields out of their usual range) and \<open>gmtime_r\<close>, on the proleptic Gregorian calendar
  without leap seconds.
\<close>

record tm =
  tm_year :: int
  tm_mon :: int
  tm_mday :: int
  tm_hour :: int
  tm_min :: int
  tm_sec :: int

definition leap :: "int \<Rightarrow> bool" where
  "leap y \<longleftrightarrow> (y mod 4 = 0 \<and> y mod 100 \<noteq> 0) \<or> y mod 400 = 0"

definition days_in_year :: "int \<Rightarrow> int" where
  "days_in_year y = (if leap y then 366 else 365)"

definition month_lengths :: "int \<Rightarrow> int list" where
  "month_lengths y = [31, if leap y then 29 else 28, 31, 30, 31, 30, 31, 31, 30, 31, 30, 31]"

text \<open>Days from 1 January 1970 to 1 January of a year.\<close>

definition days_before_year :: "int \<Rightarrow> int" where
  "days_before_year y =
     365 * (y - 1970) + ((y - 1) div 4 - (y - 1) div 100 + (y - 1) div 400) - 477"

definition timegm :: "tm \<Rightarrow> int" where
  "timegm t =
     (let y = tm_year t + 1900 + tm_mon t div 12; m = nat (tm_mon t mod 12);
          days = days_before_year y + sum_list (take m (month_lengths y)) + (tm_mday t - 1)
      in ((days * 24 + tm_hour t) * 60 + tm_min t) * 60 + tm_sec t)"

lemma days_in_year_pos: "0 < days_in_year y"
  by (simp add: days_in_year_def)

function year_of :: "int \<Rightarrow> int \<Rightarrow> int \<times> int" where
  "year_of y d = (if days_in_year y \<le> d then year_of (y + 1) (d - days_in_year y) else (y, d))"
  by pat_completeness auto
termination
  by (relation "measure (\<lambda>(y, d). nat d)") (auto simp: days_in_year_def split: if_splits)

declare year_of.simps [simp del]

fun month_of :: "int list \<Rightarrow> int \<Rightarrow> int \<Rightarrow> int \<times> int" where
  "month_of [] m d = (m, d)"
| "month_of (l # ls) m d = (if l \<le> d then month_of ls (m + 1) (d - l) else (m, d))"

text \<open>\<open>gmtime_r\<close> for times from 1970 on, the only ones the code converts.\<close>

definition gmtime :: "int \<Rightarrow> tm" where
  "gmtime t =
     (let r = t mod 86400; (y, yd) = year_of 1970 (t div 86400); (m, md) = month_of (month_lengths y) 0 yd
      in \<lparr>tm_year = y - 1900, tm_mon = m, tm_mday = md + 1,
          tm_hour = r div 3600, tm_min = r div 60 mod 60, tm_sec = r mod 60\<rparr>)"


section \<open>The two directions agree\<close>

lemma div_succ: "0 < k \<Longrightarrow> (y :: int) div k = (y - 1) div k + (if y mod k = 0 then 1 else 0)"
proof -
  assume k: "0 < k"
  show ?thesis
  proof (cases "y mod k = 0")
    case True
    then obtain q where "y = k * q" by auto
    moreover have "(k * q - 1) div k = q - 1"
    proof (rule int_div_pos_eq [of _ _ _ "k - 1"])
      show "k * q - 1 = k * (q - 1) + (k - 1)" by (simp add: algebra_simps)
    qed (use k in simp_all)
    ultimately show ?thesis using k by simp
  next
    case False
    have m: "0 \<le> y mod k" "y mod k < k" using k by simp_all
    have "(y - 1) div k = y div k"
    proof (rule int_div_pos_eq [of _ _ _ "y mod k - 1"])
      show "y - 1 = k * (y div k) + (y mod k - 1)" by simp
    qed (use m False in simp_all)
    then show ?thesis using False by simp
  qed
qed

lemma days_before_year_succ: "days_before_year (y + 1) = days_before_year y + days_in_year y"
proof -
  define i4 i100 i400 :: int where "i4 = (if y mod 4 = 0 then 1 else 0)"
    and "i100 = (if y mod 100 = 0 then 1 else 0)" and "i400 = (if y mod 400 = 0 then 1 else 0)"
  have "(400 :: int) dvd y \<Longrightarrow> 100 dvd y" by (rule dvd_trans [of _ 400]) simp_all
  moreover have "(100 :: int) dvd y \<Longrightarrow> 4 dvd y" by (rule dvd_trans [of _ 100]) simp_all
  ultimately have "days_in_year y = 365 + i4 - i100 + i400"
    by (auto simp: days_in_year_def leap_def i4_def i100_def i400_def mod_eq_0_iff_dvd)
  moreover have "y div 4 = (y - 1) div 4 + i4" "y div 100 = (y - 1) div 100 + i100"
    "y div 400 = (y - 1) div 400 + i400"
    unfolding i4_def i100_def i400_def by (rule div_succ; simp)+
  moreover have "365 * (y + 1 - 1970) + (q - r + s) - 477
      = 365 * (y - 1970) + (q' - r' + s') - 477 + (365 + i4 - i100 + i400)"
    if "q = q' + i4" "r = r' + i100" "s = s' + i400" for q q' r r' s s' using that by simp
  moreover have "y + 1 - 1 = y" by simp
  ultimately show ?thesis unfolding days_before_year_def by presburger
qed

lemma year_of_spec:
  "0 \<le> d \<Longrightarrow> year_of y d = (y', d') \<Longrightarrow>
   days_before_year y' + d' = days_before_year y + d \<and> 0 \<le> d' \<and> d' < days_in_year y' \<and> y \<le> y'"
proof (induction y d rule: year_of.induct)
  case (1 y d)
  show ?case
  proof (cases "days_in_year y \<le> d")
    case True
    with 1(3) have "year_of (y + 1) (d - days_in_year y) = (y', d')" by (simp add: year_of.simps [of y])
    with 1(1) [OF True] True days_before_year_succ [of y] show ?thesis by simp
  next
    case False
    with 1 show ?thesis by (simp add: year_of.simps [of y])
  qed
qed

lemma month_of_spec:
  "0 \<le> d \<Longrightarrow> d < sum_list ls \<Longrightarrow> month_of ls m d = (m', d') \<Longrightarrow>
   \<exists>k. k < length ls \<and> m' = m + int k \<and> sum_list (take k ls) + d' = d \<and> 0 \<le> d' \<and> d' < ls ! k"
proof (induction ls m d rule: month_of.induct)
  case (1 m d)
  then show ?case by simp
next
  case (2 l ls m d)
  show ?case
  proof (cases "l \<le> d")
    case True
    with 2 obtain k where "k < length ls" "m' = m + 1 + int k" "sum_list (take k ls) + d' = d - l"
      "0 \<le> d'" "d' < ls ! k" by auto
    then show ?thesis by (intro exI [of _ "Suc k"]) auto
  next
    case False
    with 2 show ?thesis by (intro exI [of _ 0]) auto
  qed
qed

lemma sum_month_lengths: "sum_list (month_lengths y) = days_in_year y"
  by (simp add: month_lengths_def days_in_year_def)

lemma length_month_lengths: "length (month_lengths y) = 12"
  by (simp add: month_lengths_def)

lemma month_length_le: "k < 12 \<Longrightarrow> month_lengths y ! k \<le> 31"
  by (auto simp: month_lengths_def nth_Cons' less_Suc_eq eval_nat_numeral)

lemma gmtime_bounds_timegm:
  assumes "0 \<le> t"
  shows "timegm (gmtime t) = t \<and> 70 \<le> tm_year (gmtime t)
     \<and> 0 \<le> tm_mon (gmtime t) \<and> tm_mon (gmtime t) < 12
     \<and> 1 \<le> tm_mday (gmtime t) \<and> tm_mday (gmtime t) \<le> 31
     \<and> 0 \<le> tm_hour (gmtime t) \<and> tm_hour (gmtime t) < 24
     \<and> 0 \<le> tm_min (gmtime t) \<and> tm_min (gmtime t) < 60
     \<and> 0 \<le> tm_sec (gmtime t) \<and> tm_sec (gmtime t) < 60"
proof -
  let ?r = "t mod 86400" and ?d = "t div 86400"
  obtain y yd where y: "year_of 1970 ?d = (y, yd)" by fastforce
  obtain m md where m: "month_of (month_lengths y) 0 yd = (m, md)" by fastforce
  have d0: "0 \<le> ?d" using assms by simp
  have 1: "days_before_year y + yd = ?d" "0 \<le> yd" "yd < days_in_year y" "1970 \<le> y"
    using year_of_spec [OF d0 y] by (simp_all add: days_before_year_def)
  obtain k where k: "k < 12" "m = int k" "sum_list (take k (month_lengths y)) + md = yd" "0 \<le> md"
    "md < month_lengths y ! k"
    using month_of_spec [OF 1(2) _ m] 1(3) by (auto simp: sum_month_lengths length_month_lengths)
  have md: "md < 31" using k month_length_le [of k y] by simp
  have r: "0 \<le> ?r" "?r < 86400" by simp_all
  have hms: "(?r div 3600 * 60 + ?r div 60 mod 60) * 60 + ?r mod 60 = ?r"
  proof -
    have "?r div 3600 = ?r div 60 div 60" by (simp flip: zdiv_zmult2_eq)
    then have "?r div 3600 * 60 + ?r div 60 mod 60 = ?r div 60" by simp
    then show ?thesis by simp
  qed
  have g: "gmtime t = \<lparr>tm_year = y - 1900, tm_mon = m, tm_mday = md + 1,
          tm_hour = ?r div 3600, tm_min = ?r div 60 mod 60, tm_sec = ?r mod 60\<rparr>"
    by (simp add: gmtime_def y m Let_def)
  have "timegm (gmtime t) = ((?d * 24 + ?r div 3600) * 60 + ?r div 60 mod 60) * 60 + ?r mod 60"
    using k 1(1) by (simp add: g timegm_def Let_def)
  also have "\<dots> = ?d * 86400 + ((?r div 3600 * 60 + ?r div 60 mod 60) * 60 + ?r mod 60)"
    by (simp only: algebra_simps)
  also have "\<dots> = t" unfolding hms by simp
  finally have tg: "timegm (gmtime t) = t" .
  have hr: "0 \<le> ?r div 3600" "?r div 3600 < 24" using r by simp_all
  have mn: "0 \<le> ?r div 60 mod 60" "?r div 60 mod 60 < 60" "0 \<le> ?r mod 60" "?r mod 60 < 60"
    by (rule pos_mod_sign pos_mod_bound; simp)+
  have fl: "70 \<le> y - 1900" "0 \<le> m" "m < 12" "1 \<le> md + 1" "md + 1 \<le> 31"
    using 1(4) k(1,2,4) md by simp_all
  show ?thesis
    using tg fl hr mn unfolding g tm.simps by blast
qed

lemma year_of_mono:
  "d < days_before_year (Y + 1) - days_before_year y \<Longrightarrow> y \<le> Y \<Longrightarrow> 0 \<le> d \<Longrightarrow> fst (year_of y d) \<le> Y"
proof (induction y d rule: year_of.induct)
  case (1 y d)
  show ?case
  proof (cases "days_in_year y \<le> d")
    case True
    have "d - days_in_year y < days_before_year (Y + 1) - days_before_year (y + 1)"
      using 1(2) days_before_year_succ [of y] by simp
    moreover have "y + 1 \<le> Y"
    proof (rule ccontr)
      assume "\<not> y + 1 \<le> Y"
      with 1(3) have "y = Y" by simp
      with 1(2) True days_before_year_succ [of y] show False by simp
    qed
    ultimately show ?thesis using 1(1) [OF True] True by (simp add: year_of.simps [of y])
  next
    case False
    with 1(3) show ?thesis by (simp add: year_of.simps [of y])
  qed
qed

lemma gmtime_four_digit_year:
  assumes "0 \<le> t" and "t < 253402300800"
  shows "tm_year (gmtime t) \<le> 8099"
proof -
  have "t div 86400 < 2932897" using assms by simp
  then have "fst (year_of 1970 (t div 86400)) \<le> 9999"
    using assms(1) by (intro year_of_mono) (simp_all add: days_before_year_def)
  moreover have "tm_year (gmtime t) = fst (year_of 1970 (t div 86400)) - 1900"
    by (simp add: gmtime_def Let_def case_prod_beta)
  ultimately show ?thesis by simp
qed

end
