(* ===== verification/Conversions.thy ===== *)
theory Conversions
  imports C_Strings Calendar
begin

text \<open>
  Times as text: \<open>libiec61850/src/common/conversions.c\<close>. A text is a byte buffer with a NUL;
  \<open>mktime\<close>, which depends on the local time zone, is an argument.
\<close>

section \<open>Printing\<close>

text \<open>The digits \<open>Conversions_intToStringBuffer\<close> computes; C division truncates.\<close>

fun int_digits :: "nat \<Rightarrow> int \<Rightarrow> int \<Rightarrow> byte list" where
  "int_digits 0 remaining digitBase = []"
| "int_digits (Suc n) remaining digitBase =
     word_of_int (remaining sdiv digitBase + 48)
     # int_digits n (remaining smod digitBase) (digitBase sdiv 10)"

definition int_text :: "int \<Rightarrow> nat \<Rightarrow> byte list" where
  "int_text v n = int_digits n v (i32 (10 ^ (n - 1))) @ [0]"

definition Conversions_intToStringBuffer :: "int \<Rightarrow> nat \<Rightarrow> byte list \<Rightarrow> int \<Rightarrow> byte list run" where
  "Conversions_intToStringBuffer intValue numberOfDigits b p =
     memcpy_to b p (int_text intValue numberOfDigits) (int numberOfDigits + 1)"

text \<open>Several stores into the same buffer, one after the other.\<close>

fun run_writes :: "(int \<times> byte list) list \<Rightarrow> byte list \<Rightarrow> byte list run" where
  "run_writes [] b = Inr b"
| "run_writes ((p, src) # ws) b = rbind (memcpy_to b p src (int (length src))) (run_writes ws)"

definition Conversions_msTimeToGeneralizedTime :: "u64 \<Rightarrow> byte list \<Rightarrow> byte list run" where
  "Conversions_msTimeToGeneralizedTime msTime b =
     (let msPart = uint msTime mod 1000; t = gmtime (uint msTime div 1000)
      in run_writes
           [(0, int_text (tm_year t + 1900) 4), (4, int_text (tm_mon t + 1) 2),
            (6, int_text (tm_mday t) 2), (8, int_text (tm_hour t) 2), (10, int_text (tm_min t) 2),
            (12, int_text (tm_sec t) 2), (14, [46]), (15, int_text msPart 3), (18, [90]), (19, [0])] b)"


section \<open>Parsing\<close>

definition getSecondsOffset :: "byte list \<Rightarrow> int \<Rightarrow> int run" where
  "getSecondsOffset b p =
     rbind (StringUtils_digitsToInt b p 2) (\<lambda>hourOffset.
       if hourOffset < 0 then Inr (-1)
       else rbind (StringUtils_digitsToInt b (p + 2) 2) (\<lambda>minOffset.
         if minOffset < 0 then Inr (-1) else Inr (hourOffset * (60 * 60) + minOffset * 60)))"

text \<open>A field of digits; a negative result leaves the function with -1.\<close>

definition digits_field :: "byte list \<Rightarrow> int \<Rightarrow> nat \<Rightarrow> (int \<Rightarrow> u64 run) \<Rightarrow> u64 run" where
  "digits_field b p n k = rbind (StringUtils_digitsToInt b p n) (\<lambda>v. if v < 0 then Inr (-1) else k v)"

text \<open>The number of digits from \<open>p\<close> on, and the power of ten that the loop computes with them.\<close>

fun count_digits :: "byte list \<Rightarrow> nat \<times> int" where
  "count_digits [] = (0, 1)"
| "count_digits (x # xs) =
     (if StringUtils_isDigit x then (let (n, v) = count_digits xs in (Suc n, i32 (v * 10))) else (0, 1))"

definition second_fraction :: "byte list \<Rightarrow> int \<Rightarrow> (int \<times> int) run" where
  "second_fraction b p =
     rbind (rd b p) (\<lambda>c.
       if c = 46 then
         rbind (cstr b (p + 1)) (\<lambda>t.
           let (n, secondValue) = count_digits t
           in if 0 < n
              then rbind (StringUtils_digitsToInt b (p + 1) n) (\<lambda>fractionOfSecond.
                     if secondValue = 0 then Inl Undefined_operation
                     else Inr (i32 (fractionOfSecond * 1000) sdiv secondValue, p + 1 + int n))
              else Inr (0, p + 1))
       else Inr (0, p))"

definition Conversions_generalizedTimeToMsTime :: "(tm \<Rightarrow> int) \<Rightarrow> byte list \<Rightarrow> u64 run" where
  "Conversions_generalizedTimeToMsTime mktime b =
     rbind (cstr b 0) (\<lambda>text0.
       if length text0 < 14 then Inr (-1)
       else digits_field b 0 4 (\<lambda>year. digits_field b 4 2 (\<lambda>month. digits_field b 6 2 (\<lambda>day.
            digits_field b 8 2 (\<lambda>hour. digits_field b 10 2 (\<lambda>minute. digits_field b 12 2 (\<lambda>seconds.
       let tmTime = \<lparr>tm_year = year - 1900, tm_mon = month - 1, tm_mday = day,
                     tm_hour = hour, tm_min = minute, tm_sec = seconds\<rparr>
       in rbind (second_fraction b 14) (\<lambda>(msOffset, parsePos).
          rbind (rd b parsePos) (\<lambda>c.
            if c = 0 then Inr (word_of_int (mktime tmTime) * 1000 + word_of_int msOffset)
            else if c = 90 then Inr (word_of_int (timegm tmTime) * 1000 + word_of_int msOffset)
            else if c = 43 then rbind (getSecondsOffset b (parsePos + 1)) (\<lambda>off.
                   Inr (word_of_int (timegm tmTime - off) * 1000 + word_of_int msOffset))
            else if c = 45 then rbind (getSecondsOffset b (parsePos + 1)) (\<lambda>off.
                   Inr (word_of_int (timegm tmTime + off) * 1000 + word_of_int msOffset))
            else Inr (-1))))))))))"

definition memcpyReverseByteOrder :: "byte list \<Rightarrow> byte list \<Rightarrow> nat \<Rightarrow> byte list run" where
  "memcpyReverseByteOrder dst src n =
     rbind (rd_n src 0 n) (\<lambda>xs. memcpy_to dst 0 (rev xs) (int n))"


section \<open>What is printed\<close>

lemma int_digits_decimal:
  "0 \<le> v \<Longrightarrow> v < 10 ^ Suc n \<Longrightarrow> int_digits (Suc n) v (10 ^ n) = decimal (Suc n) v"
proof (induction n arbitrary: v)
  case 0
  then show ?case by (simp add: signed_divide_int_def sgn_if)
next
  case (Suc n)
  have q: "v sdiv 10 ^ Suc n = v div 10 ^ Suc n" "v smod 10 ^ Suc n = v mod 10 ^ Suc n"
    using Suc.prems(1) by (simp_all add: signed_divide_int_def signed_modulo_int_def sgn_if minus_mult_div_eq_mod [symmetric] mult.commute)
  have t: "(10 :: int) ^ Suc n sdiv 10 = 10 ^ n" by (simp add: signed_divide_int_def sgn_if)
  have "int_digits (Suc n) (v mod 10 ^ Suc n) (10 ^ n) = decimal (Suc n) (v mod 10 ^ Suc n)"
    by (rule Suc.IH) simp_all
  then show ?case using q t by (simp only: int_digits.simps(2) [of "Suc n"] decimal.simps(2) [of "Suc n"])
qed

lemma int_text_decimal: "0 \<le> v \<Longrightarrow> v < 10 ^ n \<Longrightarrow> 0 < n \<Longrightarrow> n \<le> 9 \<Longrightarrow> int_text v n = decimal n v @ [0]"
proof -
  assume v: "0 \<le> v" "v < 10 ^ n" and n: "0 < n" "n \<le> 9"
  then obtain m where m: "n = Suc m" "m \<le> 8" by (cases n) auto
  have "(10 :: int) ^ m \<le> 10 ^ 8" using m(2) by (intro power_increasing) simp_all
  then have "(10 :: int) ^ m < 2 ^ 31" by simp
  moreover have "- (2 ^ 31) \<le> (10 :: int) ^ m" by (rule order_trans [of _ 0]) simp_all
  ultimately have "i32 (10 ^ m) = 10 ^ m" by (intro i32_id)
  with int_digits_decimal v m(1) show "int_text v n = decimal n v @ [0]" by (simp add: int_text_def)
qed

text \<open>A buffer that begins with given octets, and what a sequence of stores makes of it.\<close>

definition begins :: "byte list \<Rightarrow> byte list \<Rightarrow> bool" where
  "begins b w \<longleftrightarrow> (\<exists>junk. b = w @ junk)"

fun written :: "byte list \<Rightarrow> (int \<times> byte list) list \<Rightarrow> byte list" where
  "written w [] = w"
| "written w ((p, src) # ws) = written (take (nat p) w @ src) ws"

fun within :: "nat \<Rightarrow> byte list \<Rightarrow> (int \<times> byte list) list \<Rightarrow> bool" where
  "within n w [] = True"
| "within n w ((p, src) # ws) \<longleftrightarrow>
     0 \<le> p \<and> nat p \<le> length w \<and> nat p + length src \<le> n \<and> within n (take (nat p) w @ src) ws"

lemma run_writes_begins:
  "begins b w \<Longrightarrow> within n w ws \<Longrightarrow> n \<le> length b \<Longrightarrow>
   \<exists>b'. run_writes ws b = Inr b' \<and> begins b' (written w ws) \<and> length b' = length b"
proof (induction ws arbitrary: b w)
  case Nil
  then show ?case by simp
next
  case (Cons x ws)
  obtain p src where x: "x = (p, src)" by fastforce
  from Cons.prems(1) obtain junk where b: "b = w @ junk" by (auto simp: begins_def)
  have p: "0 \<le> p" "nat p \<le> length w" "nat p + length src \<le> length b"
    using Cons.prems(2,3) x by auto
  let ?b = "take (nat p) b @ src @ drop (nat (p + int (length src))) b"
  have m: "memcpy_to b p src (int (length src)) = Inr ?b" using p by (auto simp: memcpy_to_def)
  have "begins ?b (take (nat p) w @ src)" using p b by (auto simp: begins_def)
  moreover have "length ?b = length b" using p by (simp add: nat_add_distrib)
  ultimately show ?case using Cons.IH [of ?b "take (nat p) w @ src"] Cons.prems(2,3) x m by auto
qed

lemma begins_bytes_at: "begins b w \<Longrightarrow> bytes_at b 0 w"
  by (auto simp: begins_def bytes_at_self)

lemma begins_cstr:
  assumes "begins b (pre @ t @ [0])" and "0 \<notin> set t"
  shows "cstr b (int (length pre)) = Inr t"
proof -
  from assms(1) obtain junk where b: "b = pre @ t @ [0] @ junk" by (auto simp: begins_def)
  have "takeWhile (\<lambda>x. x \<noteq> 0) (t @ 0 # junk) = t" using assms(2) by (auto simp: takeWhile_append)
  then show ?thesis by (simp add: cstr_def b)
qed

lemma decimal_no_nul: "0 \<le> v \<Longrightarrow> v < 10 ^ n \<Longrightarrow> x \<in> set (decimal n v) \<Longrightarrow> is_digit x"
proof (induction n arbitrary: v)
  case (Suc n)
  from lead_digit Suc.prems(1,2) have d: "0 \<le> v div 10 ^ n" "v div 10 ^ n < 10" by blast+
  have "x \<in> set (decimal n (v mod 10 ^ n)) \<Longrightarrow> is_digit x" by (rule Suc.IH) simp_all
  with digit_char(2) [OF d] Suc.prems(3) show ?case by auto
qed simp

lemma digits_field_decimal:
  assumes "bytes_at b p (decimal n v)" and "0 \<le> v" and "v < 10 ^ n" and "n \<le> 9"
  shows "digits_field b p n k = k v"
proof -
  have "(10 :: int) ^ n \<le> 10 ^ 9" using assms(4) by (intro power_increasing) simp_all
  then have "v < 2 ^ 31" using assms(3) by simp
  then have "StringUtils_digitsToInt b p n = Inr v"
    using digits_from_decimal [of v n 0 b p] assms by (simp add: StringUtils_digitsToInt_def)
  then show ?thesis using assms(2) by (simp add: digits_field_def)
qed

lemma count_digits_decimal:
  "0 \<le> v \<Longrightarrow> v < 10 ^ n \<Longrightarrow> n \<le> 9 \<Longrightarrow> \<not> StringUtils_isDigit c \<Longrightarrow>
   count_digits (decimal n v @ c # t) = (n, 10 ^ n)"
proof (induction n arbitrary: v)
  case 0
  then show ?case by simp
next
  case (Suc n)
  from lead_digit Suc.prems(1,2) have d: "0 \<le> v div 10 ^ n" "v div 10 ^ n < 10" by blast+
  have IH: "count_digits (decimal n (v mod 10 ^ n) @ c # t) = (n, 10 ^ n)"
    by (rule Suc.IH) (use Suc.prems in simp_all)
  have "(10 :: int) ^ Suc n \<le> 10 ^ 9" using Suc.prems(3) by (intro power_increasing) simp_all
  then have "(10 :: int) ^ Suc n < 2 ^ 31" by simp
  moreover have "- (2 ^ 31) \<le> (10 :: int) ^ Suc n" by (rule order_trans [of _ 0]) simp_all
  ultimately have "i32 (10 ^ Suc n) = 10 ^ Suc n" by (intro i32_id)
  then have "i32 (10 ^ n * 10) = 10 ^ Suc n" by (simp add: mult.commute)
  with digit_char(2) [OF d] IH show ?case by (simp add: isDigit_eq)
qed

text \<open>The text of a time between 1970 and 9999.\<close>

definition generalized_text :: "int \<Rightarrow> byte list" where
  "generalized_text ms =
     (let t = gmtime (ms div 1000)
      in decimal 4 (tm_year t + 1900) @ decimal 2 (tm_mon t + 1) @ decimal 2 (tm_mday t) @ decimal 2 (tm_hour t)
         @ decimal 2 (tm_min t) @ decimal 2 (tm_sec t) @ [46] @ decimal 3 (ms mod 1000) @ [90])"

lemma gmtime_fields:
  assumes "0 \<le> ms" and "ms < 253402300800000"
  defines "t \<equiv> gmtime (ms div 1000)"
  shows "0 \<le> tm_year t + 1900" "tm_year t + 1900 < 10 ^ 4" "0 \<le> tm_mon t + 1" "tm_mon t + 1 < 10 ^ 2"
    "0 \<le> tm_mday t" "tm_mday t < 10 ^ 2" "0 \<le> tm_hour t" "tm_hour t < 10 ^ 2" "0 \<le> tm_min t" "tm_min t < 10 ^ 2"
    "0 \<le> tm_sec t" "tm_sec t < 10 ^ 2" "timegm t = ms div 1000"
proof -
  have s: "0 \<le> ms div 1000" "ms div 1000 < 253402300800" using assms(1,2) by simp_all
  note gmtime_bounds_timegm [OF s(1), folded t_def] gmtime_four_digit_year [OF s, folded t_def]
  then show "0 \<le> tm_year t + 1900" "tm_year t + 1900 < 10 ^ 4" "0 \<le> tm_mon t + 1" "tm_mon t + 1 < 10 ^ 2"
    "0 \<le> tm_mday t" "tm_mday t < 10 ^ 2" "0 \<le> tm_hour t" "tm_hour t < 10 ^ 2" "0 \<le> tm_min t" "tm_min t < 10 ^ 2"
    "0 \<le> tm_sec t" "tm_sec t < 10 ^ 2" "timegm t = ms div 1000" by simp_all
qed

lemma msTimeToGeneralizedTime_text:
  assumes "uint ms < 253402300800000" and "20 \<le> length b"
  shows "\<exists>b'. Conversions_msTimeToGeneralizedTime ms b = Inr b' \<and> begins b' (generalized_text (uint ms) @ [0])
           \<and> length b' = length b"
proof -
  let ?ms = "uint ms"
  have ms0: "0 \<le> ?ms" by simp
  note f = gmtime_fields [OF ms0 assms(1)]
  let ?t = "gmtime (?ms div 1000)"
  have m: "0 \<le> ?ms mod 1000" "?ms mod 1000 < 10 ^ 3" by simp_all
  let ?ws = "[(0, decimal 4 (tm_year ?t + 1900) @ [0]), (4, decimal 2 (tm_mon ?t + 1) @ [0]),
            (6, decimal 2 (tm_mday ?t) @ [0]), (8, decimal 2 (tm_hour ?t) @ [0]), (10, decimal 2 (tm_min ?t) @ [0]),
            (12, decimal 2 (tm_sec ?t) @ [0]), (14, [46]), (15, decimal 3 (?ms mod 1000) @ [0]), (18, [90]), (19, [0])]"
  have w: "Conversions_msTimeToGeneralizedTime ms b = run_writes ?ws b"
    unfolding Conversions_msTimeToGeneralizedTime_def Let_def
    by (simp only: int_text_decimal [OF f(1,2)] int_text_decimal [OF f(3,4)] int_text_decimal [OF f(5,6)]
          int_text_decimal [OF f(7,8)] int_text_decimal [OF f(9,10)] int_text_decimal [OF f(11,12)]
          int_text_decimal [OF m])
  have "begins b []" by (simp add: begins_def)
  moreover have "within 20 [] ?ws" by (simp del: decimal.simps)
  ultimately obtain b' where "run_writes ?ws b = Inr b'" "begins b' (written [] ?ws)" "length b' = length b"
    using run_writes_begins [of b "[]" 20 ?ws] assms(2) by blast
  moreover have "written [] ?ws = generalized_text ?ms @ [0]"
    by (simp add: generalized_text_def Let_def del: decimal.simps)
  ultimately show ?thesis unfolding w by metis
qed

lemma digits_no_nul: "(\<And>x. x \<in> set t \<Longrightarrow> is_digit x \<or> x = 46 \<or> x = 90 \<or> x = 45 \<or> x = 58 \<or> x = 84) \<Longrightarrow> 0 \<notin> set t"
  using digit_no_space by fastforce

text \<open>The millisecond part behind the point.\<close>

lemma second_fraction_ms:
  assumes at: "bytes_at b p ([46] @ decimal 3 v @ [90])" and c: "cstr b (p + 1) = Inr (decimal 3 v @ 90 # t)"
    and v: "0 \<le> v" "v < 1000"
  shows "second_fraction b p = Inr (v, p + 4)"
proof -
  have v3: "v < 10 ^ 3" using v(2) by simp
  have cd: "count_digits (decimal 3 v @ 90 # t) = (3, 10 ^ 3)"
    by (rule count_digits_decimal) (use v in \<open>simp_all add: isDigit_eq is_digit_def\<close>)
  have dat: "bytes_at b (p + 1) (decimal 3 v)" and c46: "rd b p = Inr 46"
    using at by (simp_all add: bytes_at_append del: decimal.simps)
  have di: "StringUtils_digitsToInt b (p + 1) 3 = Inr v"
    using digits_from_decimal [OF v(1) v3 _ _ dat, of 0] v by (simp add: StringUtils_digitsToInt_def)
  have "i32 (v * 1000) = v * 1000" using v by (intro i32_id) simp_all
  moreover have "v * 1000 sdiv 1000 = v" using v by (simp add: signed_divide_int_def sgn_if)
  ultimately have "i32 (v * 1000) sdiv 10 ^ 3 = v" by simp
  with c46 c cd di show ?thesis by (simp add: second_fraction_def)
qed

text \<open>
  A millisecond time up to the end of the year 9999 survives printing as ASN.1 generalized
  time and parsing back: \<open>Conversions_msTimeToGeneralizedTime\<close> stays within its 20 octets and
  \<open>Conversions_generalizedTimeToMsTime\<close> of the text is the time, in every local time zone.
\<close>

theorem generalizedTime_roundtrip:
  assumes "uint ms < 253402300800000" and "20 \<le> length b"
  shows "\<exists>b'. Conversions_msTimeToGeneralizedTime ms b = Inr b' \<and> length b' = length b
           \<and> Conversions_generalizedTimeToMsTime mktime b' = Inr ms"
proof -
  let ?ms = "uint ms"
  have ms0: "0 \<le> ?ms" by simp
  note f = gmtime_fields [OF ms0 assms(1)]
  let ?t = "gmtime (?ms div 1000)" and ?f = "?ms mod 1000"
  have m: "0 \<le> ?f" "?f < 1000" "?f < 10 ^ 3" by simp_all
  obtain b' where b': "Conversions_msTimeToGeneralizedTime ms b = Inr b'" "begins b' (generalized_text ?ms @ [0])"
    "length b' = length b" using msTimeToGeneralizedTime_text assms by blast
  let ?head = "decimal 4 (tm_year ?t + 1900) @ decimal 2 (tm_mon ?t + 1) @ decimal 2 (tm_mday ?t)
      @ decimal 2 (tm_hour ?t) @ decimal 2 (tm_min ?t) @ decimal 2 (tm_sec ?t)"
  have tx: "generalized_text ?ms = ?head @ [46] @ decimal 3 ?f @ [90]"
    by (simp only: generalized_text_def Let_def append.assoc)
  have dig: "is_digit x" if "x \<in> set ?head \<union> set (decimal 3 ?f)" for x
    using that decimal_no_nul [OF f(1,2)] decimal_no_nul [OF f(3,4)] decimal_no_nul [OF f(5,6)]
      decimal_no_nul [OF f(7,8)] decimal_no_nul [OF f(9,10)] decimal_no_nul [OF f(11,12)] decimal_no_nul [OF m(1,3)]
    by (auto simp del: decimal.simps)
  have nul: "0 \<notin> set (generalized_text ?ms)"
    unfolding tx by (rule digits_no_nul) (use dig in \<open>auto simp del: decimal.simps\<close>)
  have c0: "cstr b' 0 = Inr (generalized_text ?ms)"
    using begins_cstr [of b' "[]"] b'(2) nul by simp
  have len: "length (generalized_text ?ms) = 19" unfolding tx by (simp del: decimal.simps)
  have at: "bytes_at b' 0 (?head @ [46] @ decimal 3 ?f @ [90, 0])"
    using begins_bytes_at [OF b'(2)] unfolding tx by (simp only: append.assoc) (simp del: decimal.simps)
  have a: "bytes_at b' 0 (decimal 4 (tm_year ?t + 1900))" "bytes_at b' 4 (decimal 2 (tm_mon ?t + 1))"
    "bytes_at b' 6 (decimal 2 (tm_mday ?t))" "bytes_at b' 8 (decimal 2 (tm_hour ?t))"
    "bytes_at b' 10 (decimal 2 (tm_min ?t))" "bytes_at b' 12 (decimal 2 (tm_sec ?t))"
    "bytes_at b' 14 ([46] @ decimal 3 ?f @ [90])" "rd b' 18 = Inr 90"
    using at by (simp_all add: bytes_at_append del: decimal.simps)
  have "begins b' ((?head @ [46]) @ (decimal 3 ?f @ [90]) @ [0])" using b'(2) unfolding tx by (simp only: append.assoc)
  from begins_cstr [OF this] dig digit_no_space have c15: "cstr b' (14 + 1) = Inr (decimal 3 ?f @ 90 # [])"
    by (force simp del: decimal.simps)
  have fr: "second_fraction b' 14 = Inr (?f, 18)"
    using second_fraction_ms [OF a(7) c15 m(1,2)] by simp
  have tr: "\<lparr>tm_year = tm_year ?t, tm_mon = tm_mon ?t, tm_mday = tm_mday ?t, tm_hour = tm_hour ?t,
       tm_min = tm_min ?t, tm_sec = tm_sec ?t\<rparr> = ?t" by (rule tm.equality) simp_all
  have "Conversions_generalizedTimeToMsTime mktime b' = Inr (word_of_int (timegm ?t) * 1000 + word_of_int ?f)"
    unfolding Conversions_generalizedTimeToMsTime_def c0 rbind.simps len
      digits_field_decimal [OF a(1) f(1,2), simplified] digits_field_decimal [OF a(2) f(3,4), simplified]
      digits_field_decimal [OF a(3) f(5,6), simplified] digits_field_decimal [OF a(4) f(7,8), simplified]
      digits_field_decimal [OF a(5) f(9,10), simplified] digits_field_decimal [OF a(6) f(11,12), simplified] Let_def fr
    using a(8) by (simp add: tr)
  also have "word_of_int (timegm ?t) * 1000 + word_of_int ?f = (word_of_int (?ms div 1000 * 1000 + ?f) :: u64)"
    unfolding f(13) by (simp only: of_int_add of_int_mult of_int_numeral)
  also have "\<dots> = ms" unfolding div_mult_mod_eq by (rule word_of_int_uint)
  finally show ?thesis using b' by blast
qed

theorem generalizedTime_roundtrip_witness:
  "\<exists>b'. Conversions_msTimeToGeneralizedTime 1475582400123 (replicate 20 0) = Inr b' \<and> length b' = 20
     \<and> Conversions_generalizedTimeToMsTime (\<lambda>t. 0) b' = Inr 1475582400123"
  using generalizedTime_roundtrip [of 1475582400123 "replicate 20 0" "\<lambda>t. 0"] by simp

end
