(* ===== verification/Iec61850_Common.thy ===== *)
theory Iec61850_Common
  imports Conversions
begin

text \<open>
  Common types of IEC 61850, \<open>libiec61850/src/iec61850/common/iec61850_common.c\<close>: functional
  constraints and their names, quality words, and time stamps of eight octets.
\<close>

unbundle bit_operations_syntax

section \<open>Functional constraints\<close>

datatype FunctionalConstraint =
    FC_ST | FC_MX | FC_SP | FC_SV | FC_CF | FC_DC | FC_SG | FC_SE | FC_SR | FC_OR | FC_BL | FC_EX
  | FC_CO | FC_US | FC_MS | FC_RP | FC_BR | FC_LG | FC_ALL | FC_NONE

fun fc_code :: "FunctionalConstraint \<Rightarrow> int" where
  "fc_code FC_ST = 0" | "fc_code FC_MX = 1" | "fc_code FC_SP = 2" | "fc_code FC_SV = 3"
| "fc_code FC_CF = 4" | "fc_code FC_DC = 5" | "fc_code FC_SG = 6" | "fc_code FC_SE = 7"
| "fc_code FC_SR = 8" | "fc_code FC_OR = 9" | "fc_code FC_BL = 10" | "fc_code FC_EX = 11"
| "fc_code FC_CO = 12" | "fc_code FC_US = 13" | "fc_code FC_MS = 14" | "fc_code FC_RP = 15"
| "fc_code FC_BR = 16" | "fc_code FC_LG = 17" | "fc_code FC_ALL = 99" | "fc_code FC_NONE = -1"

fun FunctionalConstraint_toString :: "FunctionalConstraint \<Rightarrow> string option" where
  "FunctionalConstraint_toString FC_ST = Some ''ST''"
| "FunctionalConstraint_toString FC_MX = Some ''MX''"
| "FunctionalConstraint_toString FC_SP = Some ''SP''"
| "FunctionalConstraint_toString FC_SV = Some ''SV''"
| "FunctionalConstraint_toString FC_CF = Some ''CF''"
| "FunctionalConstraint_toString FC_DC = Some ''DC''"
| "FunctionalConstraint_toString FC_SG = Some ''SG''"
| "FunctionalConstraint_toString FC_SE = Some ''SE''"
| "FunctionalConstraint_toString FC_SR = Some ''SR''"
| "FunctionalConstraint_toString FC_OR = Some ''OR''"
| "FunctionalConstraint_toString FC_BL = Some ''BL''"
| "FunctionalConstraint_toString FC_EX = Some ''EX''"
| "FunctionalConstraint_toString FC_CO = Some ''CO''"
| "FunctionalConstraint_toString FC_US = Some ''US''"
| "FunctionalConstraint_toString FC_MS = Some ''MS''"
| "FunctionalConstraint_toString FC_RP = Some ''RP''"
| "FunctionalConstraint_toString FC_BR = Some ''BR''"
| "FunctionalConstraint_toString FC_LG = Some ''LG''"
| "FunctionalConstraint_toString _ = None"

text \<open>The character at an index of a string; at its length it is the terminating NUL.\<close>

definition char_at :: "string \<Rightarrow> nat \<Rightarrow> char" where
  "char_at s i = (if i < length s then s ! i else CHR 0x00)"

definition FunctionalConstraint_fromString :: "string \<Rightarrow> FunctionalConstraint" where
  "FunctionalConstraint_fromString s =
     (let c0 = char_at s 0; c1 = char_at s 1
      in if c0 = CHR ''S'' then
           (if c1 = CHR ''T'' then FC_ST else if c1 = CHR ''P'' then FC_SP
            else if c1 = CHR ''V'' then FC_SV else if c1 = CHR ''G'' then FC_SG
            else if c1 = CHR ''E'' then FC_SE else if c1 = CHR ''R'' then FC_SR else FC_NONE)
         else if c0 = CHR ''M'' then
           (if c1 = CHR ''X'' then FC_MX else if c1 = CHR ''S'' then FC_MS else FC_NONE)
         else if c0 = CHR ''C'' then
           (if c1 = CHR ''F'' then FC_CF else if c1 = CHR ''O'' then FC_CO else FC_NONE)
         else if c0 = CHR ''D'' then (if c1 = CHR ''C'' then FC_DC else FC_NONE)
         else if c0 = CHR ''O'' then (if c1 = CHR ''R'' then FC_OR else FC_NONE)
         else if c0 = CHR ''B'' then
           (if c1 = CHR ''L'' then FC_BL else if c1 = CHR ''R'' then FC_BR else FC_NONE)
         else if c0 = CHR ''E'' then (if c1 = CHR ''X'' then FC_EX else FC_NONE)
         else if c0 = CHR ''U'' then (if c1 = CHR ''S'' then FC_US else FC_NONE)
         else if c0 = CHR ''R'' then (if c1 = CHR ''P'' then FC_RP else FC_NONE)
         else if c0 = CHR ''L'' then (if c1 = CHR ''G'' then FC_LG else FC_NONE)
         else FC_NONE)"

lemma fromString_toString:
  "FunctionalConstraint_toString fc = Some s \<Longrightarrow> FunctionalConstraint_fromString (s @ t) = fc"
  by (cases fc) (auto simp: FunctionalConstraint_fromString_def char_at_def)

lemma fromString_name:
  assumes "FunctionalConstraint_fromString s = fc" and "fc \<noteq> FC_NONE"
  shows "FunctionalConstraint_toString fc = Some (take 2 s)"
proof -
  obtain x y t where s: "s = x # y # t"
    using assms
    by (cases s; cases "tl s") (auto simp: FunctionalConstraint_fromString_def char_at_def Let_def split: if_splits)
  show ?thesis
    using assms unfolding s FunctionalConstraint_fromString_def Let_def
    by (auto simp: char_at_def split: if_splits)
qed


section \<open>Quality\<close>

definition Quality_getValidity :: "u16 \<Rightarrow> u16" where
  "Quality_getValidity q = q AND 0x3"

definition Quality_setValidity :: "u16 \<Rightarrow> u16 \<Rightarrow> u16" where
  "Quality_setValidity q validity = (q AND 0xfffc) OR validity"

definition Quality_isFlagSet :: "u16 \<Rightarrow> u16 \<Rightarrow> bool" where
  "Quality_isFlagSet q flag \<longleftrightarrow> 0 < q AND flag"

definition Quality_setFlag :: "u16 \<Rightarrow> u16 \<Rightarrow> u16" where
  "Quality_setFlag q flag = q OR flag"

definition Quality_unsetFlag :: "u16 \<Rightarrow> u16 \<Rightarrow> u16" where
  "Quality_unsetFlag q flag = q AND NOT flag"

lemma quality_validity:
  assumes "v AND 0x3 = v"
  shows "Quality_getValidity (Quality_setValidity q v) = v"
proof -
  have "((q AND 0xfffc) OR v) AND 3 = ((q AND (0xfffc AND 3)) OR (v AND 3))"
    by (simp add: bit.conj_disj_distrib2 and.assoc)
  also have "(0xfffc AND 3 :: u16) = 0" by simp
  finally show ?thesis using assms by (simp add: Quality_getValidity_def Quality_setValidity_def)
qed


section \<open>Time stamps\<close>

type_synonym Timestamp = "byte list"

definition be_bytes32 :: "u32 \<Rightarrow> byte list" where
  "be_bytes32 w = rev (le_bytes32 w)"

definition Timestamp_clearFlags :: "Timestamp \<Rightarrow> Timestamp" where
  "Timestamp_clearFlags t = t[7 := 0]"

definition Timestamp_isLeapSecondKnown :: "Timestamp \<Rightarrow> bool" where
  "Timestamp_isLeapSecondKnown t \<longleftrightarrow> t ! 7 AND 0x80 \<noteq> 0"

definition Timestamp_setLeapSecondKnown :: "Timestamp \<Rightarrow> bool \<Rightarrow> Timestamp" where
  "Timestamp_setLeapSecondKnown t v = t[7 := (if v then t ! 7 OR 0x80 else t ! 7 AND 0x7f)]"

definition Timestamp_hasClockFailure :: "Timestamp \<Rightarrow> bool" where
  "Timestamp_hasClockFailure t \<longleftrightarrow> t ! 7 AND 0x40 \<noteq> 0"

definition Timestamp_setClockFailure :: "Timestamp \<Rightarrow> bool \<Rightarrow> Timestamp" where
  "Timestamp_setClockFailure t v = t[7 := (if v then t ! 7 OR 0x40 else t ! 7 AND 0xbf)]"

definition Timestamp_isClockNotSynchronized :: "Timestamp \<Rightarrow> bool" where
  "Timestamp_isClockNotSynchronized t \<longleftrightarrow> t ! 7 AND 0x20 \<noteq> 0"

definition Timestamp_setClockNotSynchronized :: "Timestamp \<Rightarrow> bool \<Rightarrow> Timestamp" where
  "Timestamp_setClockNotSynchronized t v = t[7 := (if v then t ! 7 OR 0x20 else t ! 7 AND 0xdf)]"

definition Timestamp_getSubsecondPrecision :: "Timestamp \<Rightarrow> int" where
  "Timestamp_getSubsecondPrecision t = uint (t ! 7 AND 0x1f)"

definition Timestamp_setSubsecondPrecision :: "Timestamp \<Rightarrow> int \<Rightarrow> Timestamp" where
  "Timestamp_setSubsecondPrecision t p = t[7 := (t ! 7 AND 0xe0) + (word_of_int p AND 0x1f)]"

definition Timestamp_setTimeInSeconds :: "Timestamp \<Rightarrow> u32 \<Rightarrow> Timestamp" where
  "Timestamp_setTimeInSeconds t secs = be_bytes32 secs @ [0, 0, 0] @ drop 7 t"

definition Timestamp_setTimeInMilliseconds :: "Timestamp \<Rightarrow> u64 \<Rightarrow> Timestamp" where
  "Timestamp_setTimeInMilliseconds t ms =
     (let timeval32 = ucast (ms div 1000) :: u32;
          remaining = ucast (ms mod 1000) :: u32;
          fractionOfSecond = remaining * 16777 + (remaining * 216) div 1000
      in be_bytes32 timeval32
         @ [ucast (drop_bit 16 fractionOfSecond AND 0xff), ucast (drop_bit 8 fractionOfSecond AND 0xff),
            ucast (fractionOfSecond AND 0xff)] @ drop 7 t)"

text \<open>The 32 bit value of four octets, most significant first.\<close>

definition be_value32 :: "byte list \<Rightarrow> u32" where
  "be_value32 t = (push_bit 24 (ucast (t ! 0)) OR push_bit 16 (ucast (t ! 1)))
                   OR (push_bit 8 (ucast (t ! 2)) OR ucast (t ! 3))"

definition Timestamp_getTimeInSeconds :: "Timestamp \<Rightarrow> u32" where
  "Timestamp_getTimeInSeconds t = be_value32 t"

definition Timestamp_getTimeInMs :: "Timestamp \<Rightarrow> u64" where
  "Timestamp_getTimeInMs t =
     (let fractionOfSecond = push_bit 16 (ucast (t ! 4)) + push_bit 8 (ucast (t ! 5)) + ucast (t ! 6) :: u32
      in ucast (be_value32 t) * 1000 + ucast (fractionOfSecond div 16777))"

lemma be_value32_bytes: "be_value32 (be_bytes32 w @ rest) = w"
proof (rule bit_word_eqI)
  fix n assume "n < LENGTH(32)"
  then have n: "n < 32" by simp
  show "bit (be_value32 (be_bytes32 w @ rest)) n = bit w n"
    using n unfolding be_value32_def be_bytes32_def le_bytes32_def
    by (cases "n < 8"; cases "n < 16"; cases "n < 24")
      (auto simp: bit_or_iff bit_push_bit_iff bit_ucast_iff bit_drop_bit_eq not_less less_diff_conv2)
qed

lemma ucast_low_octet: "(ucast (x AND 0xff :: u32) :: byte) = ucast x"
proof (rule bit_word_eqI)
  fix n assume "n < LENGTH(8)"
  moreover have "(0xff :: u32) = mask 8" by (simp add: mask_eq_exp_minus_1)
  ultimately show "bit (ucast (x AND 0xff) :: byte) n = bit (ucast x :: byte) n"
    by (simp only: bit_ucast_iff bit_and_iff bit_mask_iff) simp
qed

lemma fraction_octets:
  assumes "uint f < 2 ^ 24"
  shows "push_bit 16 (ucast (ucast (drop_bit 16 f AND 0xff) :: byte)) + push_bit 8 (ucast (ucast (drop_bit 8 f AND 0xff) :: byte))
         + ucast (ucast (f AND 0xff) :: byte) = (f :: u32)"
proof -
  let ?a = "push_bit 16 (ucast (ucast (drop_bit 16 f) :: byte)) :: u32"
  let ?b = "push_bit 8 (ucast (ucast (drop_bit 8 f) :: byte)) :: u32"
  let ?c = "ucast (ucast f :: byte) :: u32"
  have top: "\<not> bit f n" if "24 \<le> n" for n
  proof -
    have "f = take_bit 24 f"
    proof -
      have "take_bit 24 (uint f) = uint f" by (rule take_bit_int_eq_self) (use assms in simp_all)
      then show ?thesis by (simp add: word_uint_eq_iff unsigned_take_bit_eq)
    qed
    then have "bit f n = bit (take_bit 24 f) n" by simp
    then show ?thesis using that by (simp add: bit_take_bit_iff)
  qed
  have ba: "bit ?a n \<longleftrightarrow> 16 \<le> n \<and> n < 24 \<and> bit f n" for n
    by (cases "16 \<le> n") (auto simp: bit_push_bit_iff bit_ucast_iff bit_and_iff bit_drop_bit_eq less_diff_conv2 top)
  have bb: "bit ?b n \<longleftrightarrow> 8 \<le> n \<and> n < 16 \<and> bit f n" for n
    by (cases "8 \<le> n") (auto simp: bit_push_bit_iff bit_ucast_iff bit_and_iff bit_drop_bit_eq less_diff_conv2)
  have bc: "bit ?c n \<longleftrightarrow> n < 8 \<and> bit f n" for n
    by (auto simp: bit_ucast_iff)
  have "?a + ?b = ?a OR ?b" by (rule disjunctive_add) (simp add: ba bb)
  moreover have "(?a OR ?b) + ?c = (?a OR ?b) OR ?c" by (rule disjunctive_add) (auto simp: bit_or_iff ba bb bc)
  moreover have "(?a OR ?b) OR ?c = f"
    by (rule bit_word_eqI) (use top in \<open>force simp: bit_or_iff ba bb bc not_less\<close>)
  ultimately show ?thesis unfolding ucast_low_octet by simp
qed

text \<open>
  A functional constraint with a name is read back from that name, whatever follows it, and
  \<open>FunctionalConstraint_fromString\<close> finds a constraint only if the text begins with its name.
\<close>

theorem FunctionalConstraint_names:
  "(\<forall>s. FunctionalConstraint_toString fc = Some s \<longrightarrow> FunctionalConstraint_fromString (s @ t) = fc)
   \<and> (FunctionalConstraint_fromString s' \<noteq> FC_NONE \<longrightarrow>
        FunctionalConstraint_toString (FunctionalConstraint_fromString s') = Some (take 2 s'))"
  using fromString_toString fromString_name by blast

theorem FunctionalConstraint_names_witness:
  "FunctionalConstraint_fromString ''STx'' = FC_ST
   \<and> FunctionalConstraint_toString (FunctionalConstraint_fromString ''MX]'') = Some ''MX''"
  using FunctionalConstraint_names [of FC_ST "''x''" "''MX]''"]
  by (simp add: FunctionalConstraint_fromString_def char_at_def)

lemma millisecond_parts:
  fixes ms :: u64
  assumes "uint ms < 2 ^ 32 * 1000"
  defines "r \<equiv> (ucast (ms mod 1000) :: u32)"
  shows "uint (ucast (ms div 1000) :: u32) = uint ms div 1000" and "uint r = uint ms mod 1000"
    and "uint (r * 16777 + r * 216 div 1000) = uint r * 16777 + uint r * 216 div 1000"
proof -
  have d: "uint (ms div 1000) = uint ms div 1000" and m: "uint (ms mod 1000) = uint ms mod 1000"
    by (simp_all add: uint_div uint_mod)
  have "uint ms div 1000 < 2 ^ 32" using assms(1) by simp
  then have "take_bit 32 (uint ms div 1000) = uint ms div 1000" by (intro take_bit_int_eq_self) (simp_all add: pos_imp_zdiv_nonneg_iff)
  then show "uint (ucast (ms div 1000) :: u32) = uint ms div 1000"
    using d by (simp add: unsigned_ucast_eq)
  have "uint ms mod 1000 < 1000" by simp
  then show r: "uint r = uint ms mod 1000"
    using m unfolding r_def by (simp add: unsigned_ucast_eq take_bit_int_eq_self)
  then have rb: "0 \<le> uint r" "uint r < 1000" by simp_all
  have 1: "uint (r * 16777) = uint r * 16777" using rb by (simp add: uint_word_ariths)
  have 2: "uint (r * 216) = uint r * 216" using rb by (simp add: uint_word_ariths)
  have 3: "uint (r * 216 div 1000) = uint r * 216 div 1000" using 2 by (simp add: uint_div)
  have "uint r * 16777 + uint r * 216 div 1000 < 2 ^ 32" using rb by simp
  then show "uint (r * 16777 + r * 216 div 1000) = uint r * 16777 + uint r * 216 div 1000"
    using 1 3 rb by (simp add: uint_word_ariths(1) pos_imp_zdiv_nonneg_iff)
qed

lemma timestamp_ms:
  assumes "uint ms < 2 ^ 32 * 1000" and "length t = 8"
  shows "Timestamp_getTimeInMs (Timestamp_setTimeInMilliseconds t ms) = ms
         \<and> length (Timestamp_setTimeInMilliseconds t ms) = 8
         \<and> Timestamp_setTimeInMilliseconds t ms ! 7 = t ! 7"
proof -
  let ?r = "ucast (ms mod 1000) :: u32" and ?s = "ucast (ms div 1000) :: u32"
  let ?f = "?r * 16777 + ?r * 216 div 1000"
  let ?oct = "[ucast (drop_bit 16 ?f AND 0xff), ucast (drop_bit 8 ?f AND 0xff), ucast (?f AND 0xff)] :: byte list"
  note parts = millisecond_parts [OF assms(1)]
  have set_eq: "Timestamp_setTimeInMilliseconds t ms = be_bytes32 ?s @ ?oct @ drop 7 t"
    unfolding Timestamp_setTimeInMilliseconds_def Let_def ..
  have l4: "length (be_bytes32 ?s) = 4" by (simp add: be_bytes32_def)
  have rb: "0 \<le> uint ?r" "uint ?r < 1000" using parts(2) by simp_all
  have fv: "uint ?f = uint ?r * 16777 + uint ?r * 216 div 1000" by (rule parts(3))
  have f24: "uint ?f < 2 ^ 24" unfolding fv using rb by simp
  have div: "uint ?f div 16777 = uint ?r"
    unfolding fv by (rule int_div_pos_eq [where r = "uint ?r * 216 div 1000"]) (use rb in \<open>simp_all add: pos_imp_zdiv_nonneg_iff\<close>)
  have frac: "push_bit 16 (ucast ((be_bytes32 ?s @ ?oct @ drop 7 t) ! 4)) + push_bit 8 (ucast ((be_bytes32 ?s @ ?oct @ drop 7 t) ! 5))
      + ucast ((be_bytes32 ?s @ ?oct @ drop 7 t) ! 6) = ?f"
    using fraction_octets [OF f24] l4 by (simp add: nth_append)
  have q: "uint (ucast (?f div 16777) :: u64) = uint ?r"
    using div rb by (simp add: unsigned_ucast_eq uint_div take_bit_int_eq_self)
  have s: "uint (ucast ?s :: u64) = uint ms div 1000"
    using parts(1) by (simp add: uint_up_ucast is_up)
  have "Timestamp_getTimeInMs (Timestamp_setTimeInMilliseconds t ms) = ucast ?s * 1000 + ucast (?f div 16777)"
    unfolding Timestamp_getTimeInMs_def set_eq be_value32_bytes Let_def frac ..
  also have "\<dots> = word_of_int (uint (ucast ?s :: u64) * 1000 + uint (ucast (?f div 16777) :: u64))"
    by simp
  also have "\<dots> = ms" unfolding q s parts(2) div_mult_mod_eq by (rule word_of_int_uint)
  finally have "Timestamp_getTimeInMs (Timestamp_setTimeInMilliseconds t ms) = ms" .
  moreover have "drop 7 t = [t ! 7]" using assms(2) by (simp add: Cons_nth_drop_Suc [symmetric])
  ultimately show ?thesis using l4 unfolding set_eq by (simp add: nth_append)
qed

lemmas timestamp_read_back = timestamp_ms [THEN conjunct1]

text \<open>
  \<open>Timestamp_getTimeInMs\<close> gives back every millisecond time that
  \<open>Timestamp_setTimeInMilliseconds\<close> can store (up to \<open>2 ^ 32\<close> seconds), although
  the fraction of the second is kept as a binary fraction, and the time quality octet is not touched.
\<close>

theorem Timestamp_ms_roundtrip:
  assumes "uint ms < 2 ^ 32 * 1000" and "length t = 8"
  shows "Timestamp_getTimeInMs (Timestamp_setTimeInMilliseconds t ms) = ms
         \<and> length (Timestamp_setTimeInMilliseconds t ms) = 8
         \<and> Timestamp_setTimeInMilliseconds t ms ! 7 = t ! 7"
  using assms by (rule timestamp_ms)

theorem Timestamp_ms_roundtrip_witness:
  "Timestamp_getTimeInMs (Timestamp_setTimeInMilliseconds [0, 0, 0, 0, 0, 0, 0, 9] 1475582400123) = 1475582400123
   \<and> Timestamp_setTimeInMilliseconds [0, 0, 0, 0, 0, 0, 0, 9] 1475582400123 ! 7 = 9"
  using Timestamp_ms_roundtrip [of 1475582400123 "[0, 0, 0, 0, 0, 0, 0, 9]"] by simp

end
