(* ===== verification/Time_Iso8601.thy ===== *)
theory Time_Iso8601
  imports Conversions
begin

text \<open>
  ISO 8601 times: \<open>src/src/time_iso8601.c\<close>, the text form in which the DSA server passes
  report entry times to and takes them from its clients.
\<close>

unbundle bit_operations_syntax

section \<open>Parsing a point in time\<close>

text \<open>The date at the front: its three numbers and the position behind it.\<close>

definition parse_date :: "byte list \<Rightarrow> (int list \<times> int) option run" where
  "parse_date b =
     rbind (cstr b 0) (\<lambda>t.
       let a = sscanf [Num 4, Lit 45, Num 2, Lit 45, Num 2] t
       in if length a = 3 then Inr (Some (a, 10))
          else let a' = sscanf [Num 4, Num 2, Num 2] t
               in if length a' = 3 then Inr (Some (a', 8)) else Inr None)"

definition parse_hours_minutes :: "byte list \<Rightarrow> int \<Rightarrow> (int list \<times> int) option run" where
  "parse_hours_minutes b c =
     rbind (cstr b c) (\<lambda>t.
       let a = sscanf [Num 2, Num 2] t
       in if length a = 2 then Inr (Some (a, c + 4))
          else let a' = sscanf [Num 2, Lit 58, Num 2] t
               in if length a' = 2 then Inr (Some (a', c + 5)) else Inr None)"

definition date_tm :: "int list \<Rightarrow> int \<Rightarrow> int \<Rightarrow> int \<Rightarrow> tm" where
  "date_tm d hours minutes seconds =
     \<lparr>tm_year = d ! 0 - 1900, tm_mon = d ! 1 - 1, tm_mday = d ! 2,
      tm_hour = hours, tm_min = minutes, tm_sec = seconds\<rparr>"

text \<open>
  The time of day that starts at \<open>c\<close>; the result is the time and the position behind the seconds,
  or \<open>None\<close> for the early \<open>return 0\<close>.
\<close>

definition parse_time_of_day :: "byte list \<Rightarrow> int list \<Rightarrow> int \<Rightarrow> (int \<times> int) option run" where
  "parse_time_of_day b d c0 =
     rbind (parse_hours_minutes b c0) (\<lambda>r. case r of
       None \<Rightarrow> Inr None
     | Some (hm, c1) \<Rightarrow>
         rbind (rd b c1) (\<lambda>x.
           let c2 = (if x = 58 then c1 + 1 else c1)
           in rbind (rd b c2) (\<lambda>y.
                if y \<noteq> 0
                then rbind (cstr b c2) (\<lambda>t.
                       let s = sscanf [Num 2] t
                       in if length s = 1
                          then Inr (Some (timegm (date_tm d (hm ! 0) (hm ! 1) (s ! 0)), c2 + 2))
                          else Inr None)
                else Inr (Some (timegm (date_tm d (hm ! 0) (hm ! 1) 0), c2)))))"

text \<open>The milliseconds behind the point at \<open>c\<close>, which have to be followed by \<open>Z\<close>.\<close>

definition parse_milliseconds :: "byte list \<Rightarrow> int \<Rightarrow> int \<Rightarrow> u64 run" where
  "parse_milliseconds b isotime c =
     rbind (cstr b (c + 1)) (\<lambda>t.
       let s = sscanf [Num 3] t
       in if length s = 1
          then rbind (rd b (c + 4)) (\<lambda>z.
                 Inr (if z \<noteq> 90 then 0 else word_of_int (isotime * 1000 + s ! 0)))
          else Inr 0)"

definition parseIso8601 :: "byte list \<Rightarrow> u64 run" where
  "parseIso8601 b =
     rbind (parse_date b) (\<lambda>r. case r of
       None \<Rightarrow> Inr 0
     | Some (d, c) \<Rightarrow>
         rbind (rd b c) (\<lambda>x.
           if x = 0 then Inr (word_of_int (timegm (date_tm d 0 0 0) * 1000))
           else if x = 84 then
             rbind (parse_time_of_day b d (c + 1)) (\<lambda>r. case r of
               None \<Rightarrow> Inr 0
             | Some (isotime, c') \<Rightarrow>
                 rbind (rd b c') (\<lambda>z.
                   if z = 90 then Inr (word_of_int (isotime * 1000))
                   else if z = 46 then parse_milliseconds b isotime c'
                   else Inr 0))
           else Inr 0))"


section \<open>Durations\<close>

definition DAYFLAG :: u32 where "DAYFLAG = 0x001000"
definition DHMSFLAG :: u32 where "DHMSFLAG = 0x001111"
definition HMSFLAG :: u32 where "HMSFLAG = 0x000111"
definition MINFLAG :: u32 where "MINFLAG = 0x000010"
definition MSFLAG :: u32 where "MSFLAG = 0x000011"
definition SECFLAG :: u32 where "SECFLAG = 0x000001"

fun duration_number :: "int \<Rightarrow> byte list \<Rightarrow> int \<times> byte list" where
  "duration_number num [] = (num, [])"
| "duration_number num (x # xs) =
     (if 48 \<le> uint x \<and> uint x \<le> 57 then duration_number (i32 (i32 (10 * num + uint x) - 48)) xs
      else (num, x # xs))"

record duration_state =
  dateflags :: u32
  d_days :: int
  d_hours :: int
  d_minutes :: int
  d_seconds :: int

text \<open>One unit letter behind its number; \<open>None\<close> is \<open>return 0\<close>.\<close>

definition duration_unit :: "byte \<Rightarrow> int \<Rightarrow> duration_state \<Rightarrow> duration_state option" where
  "duration_unit u num s =
     (if u = 68 then
        (if dateflags s AND DHMSFLAG \<noteq> 0 then None
         else Some (s\<lparr>dateflags := dateflags s OR DAYFLAG, d_days := num\<rparr>))
      else if u = 72 then
        (if dateflags s AND HMSFLAG \<noteq> 0 then None
         else Some (s\<lparr>dateflags := dateflags s OR DAYFLAG, d_hours := num\<rparr>))
      else if u = 77 then
        (if dateflags s AND MSFLAG \<noteq> 0 then None
         else Some (s\<lparr>dateflags := dateflags s OR MINFLAG, d_minutes := num\<rparr>))
      else if u = 83 then
        (if dateflags s AND SECFLAG \<noteq> 0 then None
         else Some (s\<lparr>dateflags := dateflags s OR SECFLAG, d_seconds := num\<rparr>))
      else None)"

lemma duration_number_length: "length (snd (duration_number num t)) \<le> length t"
  by (induction num t rule: duration_number.induct) auto

function duration_units :: "byte list \<Rightarrow> duration_state \<Rightarrow> duration_state option" where
  "duration_units t s =
     (if t = [] then Some s
      else if snd (duration_number 0 t) = [] then None
      else case duration_unit (hd (snd (duration_number 0 t))) (fst (duration_number 0 t)) s of
             None \<Rightarrow> None
           | Some s' \<Rightarrow> duration_units (drop 1 (snd (duration_number 0 t))) s')"
  by pat_completeness auto
termination
proof (relation "measure (\<lambda>(t, s). length t)", goal_cases)
  case (2 t s x2)
  then show ?case using duration_number_length [of 0 t] by (cases "snd (duration_number 0 t)") auto
qed simp

declare duration_units.simps [simp del]

definition duration_seconds :: "duration_state \<Rightarrow> int" where
  "duration_seconds s = i32 (d_seconds s + 60 * d_minutes s + 3600 * d_hours s + 86400 * d_days s)"

text \<open>The result, \<open>*isotime\<close> and \<open>*flag\<close>.\<close>

definition parseIso8601Generic :: "byte list \<Rightarrow> (u64 \<times> int \<times> byte) run" where
  "parseIso8601Generic b =
     rbind (rd b 0) (\<lambda>p.
       if p = 80 then
         rbind (cstr b 1) (\<lambda>t.
           Inr (0, case duration_units t \<lparr>dateflags = 0, d_days = 0, d_hours = 0, d_minutes = 0, d_seconds = 0\<rparr> of
                     None \<Rightarrow> 0 | Some s \<Rightarrow> duration_seconds s, 68))
       else
         rbind (parse_date b) (\<lambda>r. case r of
           None \<Rightarrow> Inr (0, 0, 84)
         | Some (d, c) \<Rightarrow>
             rbind (rd b c) (\<lambda>x.
               if x = 0 then Inr (0, timegm (date_tm d 0 0 0), 84)
               else if x = 84 then
                 rbind (parse_time_of_day b d (c + 1)) (\<lambda>r. case r of
                   None \<Rightarrow> Inr (0, 0, 84)
                 | Some (isotime, c') \<Rightarrow>
                     rbind (rd b c') (\<lambda>z.
                       if z = 0 then Inr (word_of_int (isotime * 1000), isotime, 84)
                       else if z = 46 then rbind (parse_milliseconds b isotime c') (\<lambda>v. Inr (v, isotime, 84))
                       else Inr (0, isotime, 84)))
               else Inr (0, 0, 84))))"


section \<open>Printing\<close>

definition getUtcTimeString :: "u64 \<Rightarrow> byte list \<Rightarrow> byte list run" where
  "getUtcTimeString msTime b =
     (let msPart = uint msTime mod 1000; t = gmtime (uint msTime div 1000)
      in run_writes
           [(0, int_text (tm_year t + 1900) 4), (4, [45]), (5, int_text (tm_mon t + 1) 2), (7, [45]),
            (8, int_text (tm_mday t) 2), (10, [84]), (11, int_text (tm_hour t) 2), (13, [58]),
            (14, int_text (tm_min t) 2), (16, [58]), (17, int_text (tm_sec t) 2), (19, [46]),
            (20, int_text msPart 3), (23, [90]), (24, [0])] b)"

text \<open>The text of a time between 1970 and 9999.\<close>

definition utc_text :: "int \<Rightarrow> byte list" where
  "utc_text ms =
     (let t = gmtime (ms div 1000)
      in decimal 4 (tm_year t + 1900) @ [45] @ decimal 2 (tm_mon t + 1) @ [45] @ decimal 2 (tm_mday t) @ [84]
         @ decimal 2 (tm_hour t) @ [58] @ decimal 2 (tm_min t) @ [58] @ decimal 2 (tm_sec t)
         @ [46] @ decimal 3 (ms mod 1000) @ [90])"

lemma getUtcTimeString_text:
  assumes "uint ms < 253402300800000" and "25 \<le> length b"
  shows "\<exists>b'. getUtcTimeString ms b = Inr b' \<and> begins b' (utc_text (uint ms) @ [0]) \<and> length b' = length b"
proof -
  let ?ms = "uint ms"
  have ms0: "0 \<le> ?ms" by simp
  note f = gmtime_fields [OF ms0 assms(1)]
  let ?t = "gmtime (?ms div 1000)"
  have m: "0 \<le> ?ms mod 1000" "?ms mod 1000 < 10 ^ 3" by simp_all
  let ?ws = "[(0, decimal 4 (tm_year ?t + 1900) @ [0]), (4, [45]), (5, decimal 2 (tm_mon ?t + 1) @ [0]), (7, [45]),
            (8, decimal 2 (tm_mday ?t) @ [0]), (10, [84]), (11, decimal 2 (tm_hour ?t) @ [0]), (13, [58]),
            (14, decimal 2 (tm_min ?t) @ [0]), (16, [58]), (17, decimal 2 (tm_sec ?t) @ [0]), (19, [46]),
            (20, decimal 3 (?ms mod 1000) @ [0]), (23, [90]), (24, [0])]"
  have w: "getUtcTimeString ms b = run_writes ?ws b"
    unfolding getUtcTimeString_def Let_def
    by (simp only: int_text_decimal [OF f(1,2)] int_text_decimal [OF f(3,4)] int_text_decimal [OF f(5,6)]
          int_text_decimal [OF f(7,8)] int_text_decimal [OF f(9,10)] int_text_decimal [OF f(11,12)]
          int_text_decimal [OF m])
  have "begins b []" by (simp add: begins_def)
  moreover have "within 25 [] ?ws" by (simp del: decimal.simps)
  ultimately obtain b' where "run_writes ?ws b = Inr b'" "begins b' (written [] ?ws)" "length b' = length b"
    using run_writes_begins [of b "[]" 25 ?ws] assms(2) by blast
  moreover have "written [] ?ws = utc_text ?ms @ [0]"
    by (simp add: utc_text_def Let_def del: decimal.simps)
  ultimately show ?thesis unfolding w by metis
qed

lemma no_digit_stops: "\<not> is_space c \<Longrightarrow> \<not> is_digit c \<Longrightarrow> c \<noteq> 43 \<Longrightarrow> c \<noteq> 45 \<Longrightarrow> scan_int w (c # t) = None"
  by (simp add: scan_int_def starts_digit_def)

lemma separators: "\<not> is_space 58" "\<not> is_digit 58" "is_digit 90 = False" "is_digit 46 = False"
  by (simp_all add: is_space_def is_digit_def)

lemma utc_text_parsed:
  assumes "uint ms < 253402300800000" and "begins b' (utc_text (uint ms) @ [0])"
  shows "parseIso8601 b' = Inr ms \<and> 0 \<notin> set (utc_text (uint ms))"
proof -
  let ?ms = "uint ms"
  have ms0: "0 \<le> ?ms" by simp
  note f = gmtime_fields [OF ms0 assms(1)]
  let ?t = "gmtime (?ms div 1000)" and ?f = "?ms mod 1000"
  have m: "0 \<le> ?f" "?f < 10 ^ 3" by simp_all
  let ?date = "decimal 4 (tm_year ?t + 1900) @ [45] @ decimal 2 (tm_mon ?t + 1) @ [45] @ decimal 2 (tm_mday ?t)"
  let ?sec = "decimal 2 (tm_sec ?t) @ [46] @ decimal 3 ?f @ [90]"
  let ?time = "decimal 2 (tm_hour ?t) @ [58] @ decimal 2 (tm_min ?t) @ [58] @ ?sec"
  have tx: "utc_text ?ms = ?date @ [84] @ ?time"
    by (simp only: utc_text_def Let_def append.assoc)
  have dec: "0 \<notin> set (decimal n v)" if "0 \<le> v" "v < 10 ^ n" for n v
    using decimal_no_nul [OF that] digit_no_space by blast
  have nul: "0 \<notin> set ?date" "0 \<notin> set ?time" "0 \<notin> set ?sec" "0 \<notin> set (decimal 3 ?f @ [90])"
    using dec [OF f(1,2)] dec [OF f(3,4)] dec [OF f(5,6)] dec [OF f(7,8)] dec [OF f(9,10)] dec [OF f(11,12)] dec [OF m]
    by (simp_all del: decimal.simps)
  have bg: "begins b' (?date @ [84] @ ?time @ [0])" using assms(2) unfolding tx by (simp only: append.assoc)
  have c0: "cstr b' 0 = Inr (?date @ [84] @ ?time)"
    using begins_cstr [of b' "[]" "?date @ [84] @ ?time"] bg nul(1,2) by (simp del: decimal.simps)
  have "begins b' ((?date @ [84]) @ ?time @ [0])" using bg by (simp only: append.assoc)
  from begins_cstr [OF this nul(2)] have c11: "cstr b' 11 = Inr ?time" by (simp del: decimal.simps)
  have "begins b' ((?date @ [84] @ decimal 2 (tm_hour ?t) @ [58] @ decimal 2 (tm_min ?t) @ [58]) @ ?sec @ [0])"
    using bg by (simp only: append.assoc)
  from begins_cstr [OF this nul(3)] have c17: "cstr b' 17 = Inr ?sec" by (simp del: decimal.simps)
  have "begins b' ((?date @ [84] @ decimal 2 (tm_hour ?t) @ [58] @ decimal 2 (tm_min ?t) @ [58]
      @ decimal 2 (tm_sec ?t) @ [46]) @ (decimal 3 ?f @ [90]) @ [0])"
    using bg by (simp only: append.assoc)
  from begins_cstr [OF this nul(4)] have c20: "cstr b' (19 + 1) = Inr (decimal 3 ?f @ [90])" by (simp del: decimal.simps)
  obtain x xs where sx: "decimal 2 (tm_sec ?t) = x # xs" "is_digit x" using decimal_head [OF f(11,12)] by auto
  have at: "rd b' 10 = Inr 84" "rd b' 16 = Inr 58" "rd b' 17 = Inr x" "rd b' 19 = Inr 46" "rd b' 23 = Inr 90"
    using begins_bytes_at [OF bg] by (simp_all add: bytes_at_append del: decimal.simps) (simp add: sx(1) del: decimal.simps)
  have d: "parse_date b' = Inr (Some ([tm_year ?t + 1900, tm_mon ?t + 1, tm_mday ?t], 10))"
    unfolding parse_date_def c0
    using scan_int_decimal [OF f(1,2)] scan_int_decimal [OF f(3,4)] scan_int_decimal [OF f(5,6)]
    by (simp del: decimal.simps)
  have hm: "parse_hours_minutes b' 11 = Inr (Some ([tm_hour ?t, tm_min ?t], 16))"
    unfolding parse_hours_minutes_def c11
    using scan_int_decimal [OF f(7,8)] scan_int_decimal [OF f(9,10)]
    by (simp add: no_digit_stops separators del: decimal.simps)
  have tr: "date_tm [tm_year ?t + 1900, tm_mon ?t + 1, tm_mday ?t] (tm_hour ?t) (tm_min ?t) (tm_sec ?t) = ?t"
    by (rule tm.equality) (simp_all add: date_tm_def)
  have tod: "parse_time_of_day b' [tm_year ?t + 1900, tm_mon ?t + 1, tm_mday ?t] 11 = Inr (Some (?ms div 1000, 19))"
    unfolding parse_time_of_day_def hm
    using at c17 scan_int_decimal [OF f(11,12), of "[46] @ decimal 3 ?f @ [90]"] digit_no_space [OF sx(2)] f(13)
    by (simp add: tr del: decimal.simps)
  have ml: "parse_milliseconds b' (?ms div 1000) 19 = Inr (word_of_int (?ms div 1000 * 1000 + ?f))"
    unfolding parse_milliseconds_def c20
    using at(5) scan_int_decimal [OF m, of "[90]"] by (simp del: decimal.simps)
  have "parseIso8601 b' = Inr (word_of_int (?ms div 1000 * 1000 + ?f))"
    unfolding parseIso8601_def d using at tod ml by (simp del: decimal.simps)
  also have "(word_of_int (?ms div 1000 * 1000 + ?f) :: u64) = ms"
    unfolding div_mult_mod_eq by (rule word_of_int_uint)
  finally show ?thesis unfolding tx using nul(1,2) by (simp del: decimal.simps)
qed

text \<open>
  C34: a millisecond time up to the end of the year 9999 survives \<open>getUtcTimeString\<close> and
  \<open>parseIso8601\<close>: the printer stays within its 25 octets, and the parser reads the text back to
  the same millisecond.
\<close>

theorem utc_time_roundtrip:
  assumes "uint ms < 253402300800000" and "25 \<le> length b"
  shows "\<exists>b'. getUtcTimeString ms b = Inr b' \<and> length b' = length b \<and> parseIso8601 b' = Inr ms"
  using getUtcTimeString_text [OF assms] utc_text_parsed [OF assms(1)] by blast

theorem utc_time_roundtrip_witness:
  "\<exists>b'. getUtcTimeString 1475582400123 (replicate 25 7) = Inr b' \<and> length b' = 25
     \<and> parseIso8601 b' = Inr 1475582400123"
  using utc_time_roundtrip [of 1475582400123 "replicate 25 7"] by simp

section \<open>Durations and the documented forms\<close>

definition text_of :: "string \<Rightarrow> byte list" where
  "text_of s = map of_char s @ [0]"

lemma duration_number_decimal:
  "0 \<le> v \<Longrightarrow> v < 10 ^ n \<Longrightarrow> 0 \<le> acc \<Longrightarrow> acc * 10 ^ n + v < 2 ^ 31 - 48 \<Longrightarrow> \<not> is_digit u \<Longrightarrow>
   duration_number acc (decimal n v @ u # t) = (acc * 10 ^ n + v, u # t)"
proof (induction n arbitrary: v acc)
  case 0
  then show ?case by (auto simp: is_digit_def)
next
  case (Suc n)
  let ?d = "v div 10 ^ n" and ?m = "v mod 10 ^ n"
  have d: "0 \<le> ?d" "?d < 10" using lead_digit Suc.prems(1,2) by blast+
  have tot: "(acc * 10 + ?d) * 10 ^ n + ?m = acc * 10 ^ Suc n + v"
    using div_mult_mod_eq [of v "10 ^ n"] by (simp add: distrib_right)
  have nn: "0 \<le> acc * 10 + ?d" using d Suc.prems(3) by simp
  have "(1 :: int) \<le> 10 ^ n" by simp
  then have "acc * 10 + ?d \<le> (acc * 10 + ?d) * 10 ^ n" using nn by (simp add: mult_le_cancel_left1)
  moreover have "0 \<le> ?m" by simp
  ultimately have lt: "acc * 10 + ?d < 2 ^ 31 - 48" using tot Suc.prems(4) by linarith
  have "i32 (10 * acc + (?d + 48)) = 10 * acc + ?d + 48" using lt nn by (subst i32_id) simp_all
  moreover have "i32 (10 * acc + ?d) = acc * 10 + ?d" using lt nn by (subst i32_id) simp_all
  ultimately have i: "i32 (i32 (10 * acc + (?d + 48)) - 48) = acc * 10 + ?d" by simp
  have "duration_number (acc * 10 + ?d) (decimal n ?m @ u # t) = ((acc * 10 + ?d) * 10 ^ n + ?m, u # t)"
    by (rule Suc.IH) (use nn tot Suc.prems(4,5) in simp_all)
  moreover have "48 \<le> uint (word_of_int (?d + 48) :: byte) \<and> uint (word_of_int (?d + 48) :: byte) \<le> 57"
    using digit_char(2) [OF d] by (simp add: is_digit_def)
  ultimately show ?case using digit_char(1) [OF d] i tot by simp
qed

lemma duration_step:
  assumes "0 \<le> v" and "v < 10 ^ 4" and "\<not> is_digit u"
  shows "duration_units (decimal 4 v @ u # t) s
         = (case duration_unit u v s of None \<Rightarrow> None | Some s' \<Rightarrow> duration_units t s')"
proof -
  have n: "duration_number 0 (decimal 4 v @ u # t) = (v, u # t)"
    using duration_number_decimal [of v 4 0 u t] assms by simp
  have ne: "decimal 4 v @ u # t \<noteq> []" by simp
  show ?thesis
    by (subst duration_units.simps) (simp only: n ne fst_conv snd_conv list.sel if_False list.distinct list.simps drop_Suc_Cons drop_0 One_nat_def)
qed

text \<open>
  \<open>parseIso8601Generic\<close> reads a duration of days, hours, minutes and seconds into \<open>*isotime\<close>
  (in seconds) but returns 0, the value that its header reserves for failure.
\<close>

theorem duration_returns_failure:
  assumes "0 \<le> d" "d < 10 ^ 4" "0 \<le> h" "h < 10 ^ 4" "0 \<le> m" "m < 10 ^ 4" "0 \<le> s" "s < 10 ^ 4"
  shows "parseIso8601Generic ([80] @ decimal 4 d @ [68] @ decimal 4 h @ [72] @ decimal 4 m @ [77] @ decimal 4 s @ [83, 0])
         = Inr (0, s + 60 * m + 3600 * h + 86400 * d, 68)"
proof -
  let ?t = "decimal 4 d @ 68 # decimal 4 h @ 72 # decimal 4 m @ 77 # decimal 4 s @ [83]"
  have b: "begins ([80] @ ?t @ [0]) ([80] @ ?t @ [0])" by (simp add: begins_def)
  have "0 \<notin> set (decimal 4 v)" if "0 \<le> v" "v < 10 ^ 4" for v
    using decimal_no_nul [OF that] digit_no_space by blast
  then have nul: "0 \<notin> set ?t" using assms by (simp del: decimal.simps)
  have c: "cstr ([80] @ ?t @ [0]) 1 = Inr ?t" using begins_cstr [OF b nul] by simp
  have u: "\<not> is_digit 68" "\<not> is_digit 72" "\<not> is_digit 77" "\<not> is_digit 83" by (simp_all add: is_digit_def)
  let ?s0 = "\<lparr>dateflags = 0, d_days = 0, d_hours = 0, d_minutes = 0, d_seconds = 0\<rparr>"
  have units: "duration_units ?t ?s0
      = Some \<lparr>dateflags = DAYFLAG OR DAYFLAG OR MINFLAG OR SECFLAG, d_days = d, d_hours = h, d_minutes = m, d_seconds = s\<rparr>"
  proof -
    note fl = duration_unit_def DAYFLAG_def DHMSFLAG_def HMSFLAG_def MSFLAG_def MINFLAG_def SECFLAG_def
    show ?thesis
      by (simp add: duration_step [OF assms(1,2) u(1)] duration_step [OF assms(3,4) u(2)]
          duration_step [OF assms(5,6) u(3)] duration_step [OF assms(7,8) u(4)] fl duration_units.simps [of "[]"]
          del: decimal.simps)
  qed
  have "i32 (s + 60 * m + 3600 * h + 86400 * d) = s + 60 * m + 3600 * h + 86400 * d"
    using assms by (intro i32_id) simp_all
  with units have "(case duration_units ?t ?s0 of None \<Rightarrow> 0 | Some st \<Rightarrow> duration_seconds st)
      = s + 60 * m + 3600 * h + 86400 * d" by (simp add: duration_seconds_def)
  moreover have "[80] @ decimal 4 d @ [68] @ decimal 4 h @ [72] @ decimal 4 m @ [77] @ decimal 4 s @ [83, 0] = [80] @ ?t @ [0]"
    by (simp del: decimal.simps)
  moreover have "rd ([80] @ ?t @ [0]) 0 = Inr 80" by (simp add: rd_def)
  ultimately show ?thesis using c by (simp only: parseIso8601Generic_def rbind.simps if_True refl) 
qed

theorem duration_returns_failure_witness:
  "parseIso8601Generic ([80] @ decimal 4 1 @ [68] @ decimal 4 2 @ [72] @ decimal 4 3 @ [77] @ decimal 4 4 @ [83, 0])
   = Inr (0, 93784, 68)"
  using duration_returns_failure [of 1 2 3 4] by simp

text \<open>
  Four forms of the header comment and of the grammar that come out wrong: an hour field sets the day
  flag, so a second hour field is taken (a second minute field is refused); \<open>parseIso8601\<close>
  returns 0 for a point in time to the second without a zone, the form its own
  comment lists last; \<open>parseIso8601Generic\<close> returns 0 for a bare date, whose time it has computed; and
  a date with one-digit fields moves the position behind the terminating NUL.
\<close>

theorem iso_documented_forms:
  "parseIso8601Generic (text_of ''P1H2H'') = Inr (0, 7200, 68)
   \<and> parseIso8601Generic (text_of ''P1M2M'') = Inr (0, 0, 68)
   \<and> parseIso8601 (text_of ''2016-10-04T12:30:15'') = Inr 0
   \<and> parseIso8601Generic (text_of ''2016-10-04T12:30:15'') = Inr (1475584215000, 1475584215, 84)
   \<and> parseIso8601Generic (text_of ''2016-10-04'') = Inr (0, 1475539200, 84)
   \<and> parseIso8601 (text_of ''2016-10-04'') = Inr 1475539200000
   \<and> parseIso8601 (text_of ''2016-1-1'') = Inl Out_of_bounds"
  by code_simp

end
