(* ===== verification/Mms_Type.thy ===== *)
theory Mms_Type
  imports Ber_Integer
begin

text \<open>
  MMS types: the type codes of \<open>libiec61850/src/mms/inc/mms_common.h\<close>, the error codes of
  \<open>mms_value.h\<close>, and the type specifications of variables, \<open>mms_types.h\<close> with
  \<open>libiec61850/src/mms/iso_mms/common/mms_type_spec.c\<close>.
\<close>

text \<open>Recursive calls behind a step that may fail.\<close>

lemma rbind_cong [fundef_cong]:
  "m = m' \<Longrightarrow> (\<And>x. m' = Inr x \<Longrightarrow> f x = f' x) \<Longrightarrow> rbind m f = rbind m' f'"
  by (cases m') auto

datatype MmsType =
    MMS_ARRAY | MMS_STRUCTURE | MMS_BOOLEAN | MMS_BIT_STRING | MMS_INTEGER | MMS_UNSIGNED
  | MMS_FLOAT | MMS_OCTET_STRING | MMS_VISIBLE_STRING | MMS_GENERALIZED_TIME | MMS_BINARY_TIME
  | MMS_BCD | MMS_OBJ_ID | MMS_STRING | MMS_UTC_TIME | MMS_DATA_ACCESS_ERROR

datatype MmsDataAccessError =
    DATA_ACCESS_ERROR_NO_RESPONSE | DATA_ACCESS_ERROR_SUCCESS | DATA_ACCESS_ERROR_OBJECT_INVALIDATED
  | DATA_ACCESS_ERROR_HARDWARE_FAULT | DATA_ACCESS_ERROR_TEMPORARILY_UNAVAILABLE
  | DATA_ACCESS_ERROR_OBJECT_ACCESS_DENIED | DATA_ACCESS_ERROR_OBJECT_UNDEFINED
  | DATA_ACCESS_ERROR_INVALID_ADDRESS | DATA_ACCESS_ERROR_TYPE_UNSUPPORTED
  | DATA_ACCESS_ERROR_TYPE_INCONSISTENT | DATA_ACCESS_ERROR_OBJECT_ATTRIBUTE_INCONSISTENT
  | DATA_ACCESS_ERROR_OBJECT_ACCESS_UNSUPPORTED | DATA_ACCESS_ERROR_OBJECT_NONE_EXISTENT
  | DATA_ACCESS_ERROR_OBJECT_VALUE_INVALID | DATA_ACCESS_ERROR_UNKNOWN

fun error_code :: "MmsDataAccessError \<Rightarrow> int" where
  "error_code DATA_ACCESS_ERROR_NO_RESPONSE = -2"
| "error_code DATA_ACCESS_ERROR_SUCCESS = -1"
| "error_code DATA_ACCESS_ERROR_OBJECT_INVALIDATED = 0"
| "error_code DATA_ACCESS_ERROR_HARDWARE_FAULT = 1"
| "error_code DATA_ACCESS_ERROR_TEMPORARILY_UNAVAILABLE = 2"
| "error_code DATA_ACCESS_ERROR_OBJECT_ACCESS_DENIED = 3"
| "error_code DATA_ACCESS_ERROR_OBJECT_UNDEFINED = 4"
| "error_code DATA_ACCESS_ERROR_INVALID_ADDRESS = 5"
| "error_code DATA_ACCESS_ERROR_TYPE_UNSUPPORTED = 6"
| "error_code DATA_ACCESS_ERROR_TYPE_INCONSISTENT = 7"
| "error_code DATA_ACCESS_ERROR_OBJECT_ATTRIBUTE_INCONSISTENT = 8"
| "error_code DATA_ACCESS_ERROR_OBJECT_ACCESS_UNSUPPORTED = 9"
| "error_code DATA_ACCESS_ERROR_OBJECT_NONE_EXISTENT = 10"
| "error_code DATA_ACCESS_ERROR_OBJECT_VALUE_INVALID = 11"
| "error_code DATA_ACCESS_ERROR_UNKNOWN = 12"


section \<open>Type specifications\<close>

text \<open>
  The union of a specification. \<open>elementCount\<close> of a structure is the number of its elements; all the members
  that are an \<open>int\<close> start at the same address, so reading one of them reads whichever was written.
\<close>

datatype MmsVariableSpecification =
    MmsVariableSpecification (spec_type: MmsType) (spec_name: "string option") (typeSpec: uMmsTypeSpecification)
and uMmsTypeSpecification =
    T_array int MmsVariableSpecification | T_structure "MmsVariableSpecification list"
  | T_boolean int | T_integer int | T_unsignedInteger int | T_floatingpoint byte byte
  | T_bitString int | T_octetString int | T_visibleString int | T_mmsString int | T_utctime int | T_binaryTime int

fun int_member :: "uMmsTypeSpecification \<Rightarrow> int run" where
  "int_member (T_array n e) = Inr n"
| "int_member (T_structure es) = Inr (int (length es))"
| "int_member (T_floatingpoint e f) = Inl Undefined_operation"
| "int_member (T_boolean n) = Inr n"
| "int_member (T_integer n) = Inr n"
| "int_member (T_unsignedInteger n) = Inr n"
| "int_member (T_bitString n) = Inr n"
| "int_member (T_octetString n) = Inr n"
| "int_member (T_visibleString n) = Inr n"
| "int_member (T_mmsString n) = Inr n"
| "int_member (T_utctime n) = Inr n"
| "int_member (T_binaryTime n) = Inr n"

fun float_member :: "uMmsTypeSpecification \<Rightarrow> (byte \<times> byte) run" where
  "float_member (T_floatingpoint e f) = Inr (e, f)"
| "float_member _ = Inl Undefined_operation"

text \<open>
  The array of elements of a structure, as a loop over \<open>elementCount\<close> elements reads it: in another member the count is an unrelated
  number, and the pointer behind it means nothing unless there is nothing to read.
\<close>

fun elements_member :: "uMmsTypeSpecification \<Rightarrow> MmsVariableSpecification list run" where
  "elements_member (T_structure es) = Inr es"
| "elements_member t = rbind (int_member t) (\<lambda>n. if n \<le> 0 then Inr [] else Inl Undefined_operation)"

fun array_element :: "uMmsTypeSpecification \<Rightarrow> MmsVariableSpecification run" where
  "array_element (T_array n e) = Inr e"
| "array_element _ = Inl Undefined_operation"

text \<open>\<open>directChildStrLen\<close>: the length of the name up to the separator.\<close>

fun directChildStrLen :: "string \<Rightarrow> nat" where
  "directChildStrLen [] = 0"
| "directChildStrLen (c # cs) = (if c = CHR ''$'' then 0 else Suc (directChildStrLen cs))"

definition MmsVariableSpecification_getType :: "MmsVariableSpecification \<Rightarrow> MmsType" where
  "MmsVariableSpecification_getType self = spec_type self"

definition MmsVariableSpecification_getName :: "MmsVariableSpecification \<Rightarrow> string option" where
  "MmsVariableSpecification_getName self = spec_name self"

text \<open>The list of the names: \<open>copyString\<close> reads each of them.\<close>

fun copy_names :: "MmsVariableSpecification list \<Rightarrow> string list run" where
  "copy_names [] = Inr []"
| "copy_names (e # es) =
     (case spec_name e of None \<Rightarrow> Inl Null_pointer
      | Some s \<Rightarrow> rbind (copy_names es) (\<lambda>ss. Inr (s # ss)))"

definition MmsVariableSpecification_getStructureElements :: "MmsVariableSpecification \<Rightarrow> string list option run" where
  "MmsVariableSpecification_getStructureElements self =
     (if spec_type self \<noteq> MMS_STRUCTURE then Inr None
      else rbind (elements_member (typeSpec self)) (\<lambda>es. rbind (copy_names es) (\<lambda>ss. Inr (Some ss))))"

text \<open>The loops that look for an element by its name: the comparison with a name of its own length.\<close>

fun find_element :: "MmsVariableSpecification list \<Rightarrow> string \<Rightarrow> MmsVariableSpecification option run" where
  "find_element [] key = Inr None"
| "find_element (e # es) key =
     (case spec_name e of None \<Rightarrow> Inl Null_pointer
      | Some s \<Rightarrow> if s = key then Inr (Some e) else find_element es key)"

lemma directChildStrLen_le: "directChildStrLen s \<le> length s"
  by (induction s) auto

lemma rest_shorter: "directChildStrLen s \<noteq> length s \<Longrightarrow> length s - Suc (directChildStrLen s) < length s"
  using directChildStrLen_le [of s] by simp

text \<open>
  \<open>nameId\<close> with a separator: the element before it, whose specification (or that of its elements) is searched for the
  rest. With every call the name becomes shorter.
\<close>

function MmsVariableSpecification_getNamedVariableRecursive ::
    "MmsVariableSpecification \<Rightarrow> string \<Rightarrow> MmsVariableSpecification option run" where
  "MmsVariableSpecification_getNamedVariableRecursive variable nameId =
     (let k = directChildStrLen nameId in
      if k = length nameId then
        (if spec_type variable = MMS_STRUCTURE
         then rbind (elements_member (typeSpec variable)) (\<lambda>es. find_element es nameId)
         else Inr None)
      else rbind (elements_member (typeSpec variable)) (\<lambda>es. rbind (find_element es (take k nameId)) (\<lambda>found.
        case found of None \<Rightarrow> Inr None
        | Some namedVariable \<Rightarrow>
            if spec_type namedVariable = MMS_STRUCTURE
            then MmsVariableSpecification_getNamedVariableRecursive namedVariable (drop (Suc k) nameId)
            else if spec_type namedVariable = MMS_ARRAY
            then (case array_element (typeSpec namedVariable) of Inl e \<Rightarrow> Inl e
                  | Inr element \<Rightarrow> MmsVariableSpecification_getNamedVariableRecursive element (drop (Suc k) nameId))
            else Inr None)))"
  by pat_completeness auto

termination
  by (relation "measure (\<lambda>(v, s). length s)") (auto simp: rest_shorter)

declare MmsVariableSpecification_getNamedVariableRecursive.simps [simp del]

definition MmsVariableSpecification_getSize :: "MmsVariableSpecification \<Rightarrow> int run" where
  "MmsVariableSpecification_getSize self =
     (if spec_type self \<in> {MMS_STRUCTURE, MMS_ARRAY, MMS_INTEGER, MMS_UNSIGNED, MMS_BIT_STRING, MMS_BINARY_TIME,
        MMS_OCTET_STRING, MMS_VISIBLE_STRING, MMS_STRING} then int_member (typeSpec self)
      else if spec_type self = MMS_FLOAT then rbind (float_member (typeSpec self)) (\<lambda>(e, f). Inr (uint f))
      else Inr (-1))"

definition MmsVariableSpecification_getChildSpecificationByIndex ::
    "MmsVariableSpecification \<Rightarrow> int \<Rightarrow> MmsVariableSpecification option run" where
  "MmsVariableSpecification_getChildSpecificationByIndex self index =
     (if spec_type self \<noteq> MMS_STRUCTURE then Inr None
      else rbind (elements_member (typeSpec self)) (\<lambda>es.
        if index \<ge> int (length es) then Inr None
        else if index < 0 then Inr None
        else Inr (Some (es ! nat index))))"

definition MmsVariableSpecification_getArrayElementSpecification ::
    "MmsVariableSpecification \<Rightarrow> MmsVariableSpecification option run" where
  "MmsVariableSpecification_getArrayElementSpecification self =
     (if spec_type self \<noteq> MMS_ARRAY then Inr None
      else rbind (array_element (typeSpec self)) (\<lambda>e. Inr (Some e)))"

definition MmsVariableSpecification_getExponentWidth :: "MmsVariableSpecification \<Rightarrow> int run" where
  "MmsVariableSpecification_getExponentWidth self =
     (if spec_type self \<noteq> MMS_FLOAT then Inr (-1)
      else rbind (float_member (typeSpec self)) (\<lambda>(e, f). Inr (uint e)))"

end
