(* ===== verification/DSLink.thy ===== *)
theory DSLink
  imports Iec61850_Common Time_Iso8601 Mms_Type
begin

text \<open>
  What the link under \<open>src/src\<close> uses of its environment. The DSA SDK (node tree, maps, JSON values)
  is not part of the repository: its operations are the fields of a record of type
  \<open>sdk\<close> over a state type \<open>'s\<close> and a type \<open>'n\<close> of node handles, and every handler of the link takes
  the record as an argument. The answers of the IED, which come over the network through the
  MMS client, are a second such record, \<open>ied\<close>, over a type \<open>'c\<close> of connections and a type
  \<open>'r\<close> of report control blocks. A C string is a list of characters without its NUL.
\<close>

section \<open>Strings in fixed buffers\<close>

text \<open>A string stored into a buffer of \<open>cap\<close> characters, NUL included.\<close>

definition fit :: "nat \<Rightarrow> string \<Rightarrow> string run" where
  "fit cap s = (if length s < cap then Inr s else Inl Out_of_bounds)"

definition starts_with :: "string \<Rightarrow> string \<Rightarrow> bool" where
  "starts_with pre s \<longleftrightarrow> take (length pre) s = pre"

text \<open>\<open>strchr\<close>: the part before the first occurrence and the part behind it.\<close>

fun split_at :: "char \<Rightarrow> string \<Rightarrow> (string \<times> string) option" where
  "split_at c [] = None"
| "split_at c (x # xs) =
     (if x = c then Some ([], xs)
      else case split_at c xs of None \<Rightarrow> None | Some (a, b) \<Rightarrow> Some (x # a, b))"

definition replace_char :: "char \<Rightarrow> char \<Rightarrow> string \<Rightarrow> string" where
  "replace_char a b s = map (\<lambda>c. if c = a then b else c) s"

lemma split_at_spec:
  "split_at c s = (if c \<in> set s then Some (takeWhile (\<lambda>x. x \<noteq> c) s, drop 1 (dropWhile (\<lambda>x. x \<noteq> c) s)) else None)"
  by (induction s) auto

lemma split_at_append: "c \<notin> set a \<Longrightarrow> split_at c (a @ c # b) = Some (a, b)"
  by (induction a) auto

lemma split_at_Some: "split_at c s = Some (a, b) \<Longrightarrow> s = a @ c # b \<and> c \<notin> set a"
  by (induction s arbitrary: a) (auto split: if_splits option.splits)

lemma split_at_none: "split_at c s = None \<longleftrightarrow> c \<notin> set s"
  by (simp add: split_at_spec)


section \<open>Values\<close>

text \<open>JSON values as the link builds them; \<open>J_NULL\<close> is the null pointer.\<close>

datatype json =
    J_NULL | J_string string | J_int int | J_bool bool | J_real u64
  | J_array "json list" | J_object "(string \<times> json) list"

definition json_string :: "string option \<Rightarrow> json" where
  "json_string p = (case p of None \<Rightarrow> J_NULL | Some s \<Rightarrow> J_string s)"

text \<open>The parameters of an action, by the accessor that the handler uses.\<close>

record action_params =
  p_string :: "string \<Rightarrow> string option"
  p_int :: "string \<Rightarrow> int"
  p_bool :: "string \<Rightarrow> bool"
  p_number :: "string \<Rightarrow> int"
  p_float :: "string \<Rightarrow> u64"

text \<open>The values that the link distinguishes.\<close>

datatype MmsValue =
    V_integer int | V_unsigned int | V_boolean bool | V_visible_string "string option"
  | V_string "string option" | V_utc_time u64 | V_bit_string "bool list" | V_float u64 | V_other MmsType

text \<open>The callbacks that the link installs on its nodes.\<close>

datatype callback =
    Cb_addServer | Cb_serverSubbed | Cb_serverUnsubbed | Cb_discover | Cb_editServer | Cb_clearServer
  | Cb_removeServer | Cb_control | Cb_valueRead | Cb_valueWrite | Cb_daListOpened | Cb_addDAToDS
  | Cb_prepareDataset | Cb_removeDataset | Cb_removeMember | Cb_removePrepDS | Cb_createDS
  | Cb_rcbDatSetOpened | Cb_setRptId | Cb_setRptEna | Cb_setDatSet | Cb_setBufTm | Cb_setIntgPd
  | Cb_setOptFlds | Cb_setTrgOps | Cb_readRCB | Cb_forceGI


section \<open>The SDK\<close>

text \<open>What the \<open>data\<close> pointer of a node can hold.\<close>

datatype ('n, 'r) node_data = D_link | D_members "string list" | D_rcb 'r | D_node 'n

record 'c ts61850Server =
  hostname :: string
  tcpPort :: int
  iedConn :: "'c option"

text \<open>
  Operations with a result code give \<open>True\<close> for 0. \<open>node_get_path\<close> is \<open>dslink_node_get_path\<close>,
  \<open>node_child\<close> and \<open>take_child\<close> are \<open>dslink_map_get\<close> and \<open>dslink_map_remove_get\<close> on the children of
  a node, \<open>node_children\<close> the children in the order of \<open>dslink_map_foreach\<close>, \<open>node_string\<close> is
  \<open>json_string_value(node->value)\<close>; \<open>server_get\<close>, \<open>server_set\<close> and \<open>server_take\<close> are
  the operations on \<open>serverMap\<close>, \<open>server_map_ready\<close> allocates and initialises this map unless it exists. The
  parent of a node that is created may be a null pointer. \<open>depth\<close> bounds the depth of the node tree.
\<close>

record ('s, 'n, 'c, 'r) sdk =
  node_create :: "'s \<Rightarrow> 'n option \<Rightarrow> string \<Rightarrow> 's \<times> 'n option"
  node_set_meta :: "'s \<Rightarrow> 'n \<Rightarrow> string \<Rightarrow> json \<Rightarrow> 's \<times> bool"
  node_set_value :: "'s \<Rightarrow> 'n \<Rightarrow> json \<Rightarrow> 's \<times> bool"
  node_add_child :: "'s \<Rightarrow> 'n \<Rightarrow> 's \<times> bool"
  node_tree_free :: "'s \<Rightarrow> 'n \<Rightarrow> 's"
  node_set_callback :: "'s \<Rightarrow> 'n \<Rightarrow> callback \<Rightarrow> 's"
  node_get_path :: "'s \<Rightarrow> 'n \<Rightarrow> string \<Rightarrow> 'n option"
  node_child :: "'s \<Rightarrow> 'n \<Rightarrow> string \<Rightarrow> 'n option"
  node_children :: "'s \<Rightarrow> 'n \<Rightarrow> 'n list"
  take_child :: "'s \<Rightarrow> 'n \<Rightarrow> string \<Rightarrow> 's \<times> 'n option"
  node_name :: "'s \<Rightarrow> 'n \<Rightarrow> string"
  node_parent :: "'s \<Rightarrow> 'n \<Rightarrow> 'n option"
  node_string :: "'s \<Rightarrow> 'n \<Rightarrow> string option"
  node_meta_string :: "'s \<Rightarrow> 'n \<Rightarrow> string \<Rightarrow> string option"
  node_get_data :: "'s \<Rightarrow> 'n \<Rightarrow> ('n, 'r) node_data option"
  node_put_data :: "'s \<Rightarrow> 'n \<Rightarrow> ('n, 'r) node_data \<Rightarrow> 's"
  server_get :: "'s \<Rightarrow> 'n \<Rightarrow> 'c ts61850Server option"
  server_map_ready :: "'s \<Rightarrow> 's \<times> bool"
  server_set :: "'s \<Rightarrow> 'n \<Rightarrow> 'c ts61850Server \<Rightarrow> 's \<times> bool"
  server_take :: "'s \<Rightarrow> 'n \<Rightarrow> 's \<times> 'c ts61850Server option"
  send_closed :: "'s \<Rightarrow> 's"
  depth :: nat


section \<open>The IED\<close>

datatype IedConnectionState = IED_STATE_IDLE | IED_STATE_CONNECTED | IED_STATE_CLOSED | IED_STATE_OTHER

datatype ACSIClass = ACSI_CLASS_DATA_OBJECT | ACSI_CLASS_DATA_SET | ACSI_CLASS_URCB | ACSI_CLASS_BRCB

text \<open>The fields of a report control block that the link shows and sets.\<close>

record rcb_fields =
  f_rptId :: "string option"
  f_rptEna :: bool
  f_datSet :: "string option"
  f_confRev :: int
  f_bufTm :: int
  f_intgPd :: int
  f_optFlds :: u32
  f_trgOps :: u32

text \<open>
  Error codes are integers, 0 for \<open>IED_ERROR_OK\<close>; a list or value that the client does not deliver is
  \<open>None\<close>. \<open>ied_data_dir\<close> with \<open>FC_NONE\<close> is \<open>IedConnection_getDataDirectoryFC\<close>, with another constraint
  \<open>IedConnection_getDataDirectoryByFC\<close>. The elements that \<open>ied_set_rcb\<close> writes are
  given as the mask of the library.
\<close>

record ('s, 'n, 'c, 'r) ied =
  ied_create :: "'s \<Rightarrow> 's \<times> 'c"
  ied_destroy :: "'s \<Rightarrow> 'c option \<Rightarrow> 's"
  ied_state :: "'s \<Rightarrow> 'c \<Rightarrow> IedConnectionState"
  ied_connect :: "'s \<Rightarrow> 'c option \<Rightarrow> string \<Rightarrow> int \<Rightarrow> 's \<times> int"
  ied_read :: "'s \<Rightarrow> 'c \<Rightarrow> string option \<Rightarrow> FunctionalConstraint \<Rightarrow> 's \<times> MmsValue option"
  ied_write :: "'s \<Rightarrow> 'c \<Rightarrow> string option \<Rightarrow> FunctionalConstraint \<Rightarrow> MmsValue \<Rightarrow> 's \<times> int"
  ied_var_type :: "'s \<Rightarrow> 'c \<Rightarrow> string option \<Rightarrow> FunctionalConstraint \<Rightarrow> 's \<times> MmsType option"
  ied_data_dir :: "'s \<Rightarrow> 'c \<Rightarrow> string \<Rightarrow> FunctionalConstraint \<Rightarrow> 's \<times> string list option"
  ied_devices :: "'s \<Rightarrow> 'c option \<Rightarrow> 's \<times> string list option \<times> int"
  ied_device_dir :: "'s \<Rightarrow> 'c option \<Rightarrow> string \<Rightarrow> 's \<times> string list option"
  ied_node_dir :: "'s \<Rightarrow> 'c option \<Rightarrow> string \<Rightarrow> ACSIClass \<Rightarrow> 's \<times> string list option"
  ied_dataset_dir :: "'s \<Rightarrow> 'c option \<Rightarrow> string \<Rightarrow> 's \<times> (string list \<times> bool) option \<times> int"
  ied_create_dataset :: "'s \<Rightarrow> 'c option \<Rightarrow> string option \<Rightarrow> string list \<Rightarrow> 's \<times> int"
  ied_delete_dataset :: "'s \<Rightarrow> 'c \<Rightarrow> string \<Rightarrow> 's \<times> bool"
  ied_get_rcb :: "'s \<Rightarrow> 'c option \<Rightarrow> string \<Rightarrow> 'r option \<Rightarrow> 's \<times> 'r option \<times> int"
  ied_set_rcb :: "'s \<Rightarrow> 'c \<Rightarrow> 'r \<Rightarrow> int \<Rightarrow> 's \<times> int"
  ied_trigger_gi :: "'s \<Rightarrow> 'c \<Rightarrow> string \<Rightarrow> 's \<times> int"
  ied_install_report :: "'s \<Rightarrow> 'c option \<Rightarrow> string \<Rightarrow> string option \<Rightarrow> 'n \<Rightarrow> 's"
  rcb_read :: "'s \<Rightarrow> 'r \<Rightarrow> rcb_fields"
  rcb_write :: "'s \<Rightarrow> 'r \<Rightarrow> rcb_fields \<Rightarrow> 's"


section \<open>Building nodes\<close>

text \<open>
  The handlers build a node in steps. The result of a \<open>Must\<close> step is checked: when it fails, the node is
  freed and the handler goes on as after a failed creation. The result of \<open>Try_meta\<close> is ignored.
\<close>

datatype node_step =
    Must_meta string json | Try_meta string json | Must_value json | Install callback | Must_add

fun do_step :: "('s, 'n, 'c, 'r) sdk \<Rightarrow> 'n \<Rightarrow> node_step \<Rightarrow> 's \<Rightarrow> 's \<times> bool" where
  "do_step K n (Must_meta key v) s = node_set_meta K s n key v"
| "do_step K n (Try_meta key v) s = (fst (node_set_meta K s n key v), True)"
| "do_step K n (Must_value v) s = node_set_value K s n v"
| "do_step K n (Install cb) s = (node_set_callback K s n cb, True)"
| "do_step K n Must_add s = node_add_child K s n"

fun run_steps :: "('s, 'n, 'c, 'r) sdk \<Rightarrow> 'n \<Rightarrow> node_step list \<Rightarrow> 's \<Rightarrow> 's \<times> bool" where
  "run_steps K n [] s = (s, True)"
| "run_steps K n (st # sts) s =
     (let (s', ok) = do_step K n st s
      in if ok then run_steps K n sts s' else (node_tree_free K s' n, False))"

definition make_node_at ::
    "('s, 'n, 'c, 'r) sdk \<Rightarrow> 'n option \<Rightarrow> string \<Rightarrow> node_step list \<Rightarrow> 's \<Rightarrow> 's \<times> 'n option" where
  "make_node_at K parent key steps s =
     (case node_create K s parent key of
        (s1, None) \<Rightarrow> (s1, None)
      | (s1, Some n) \<Rightarrow> (let (s2, ok) = run_steps K n steps s1 in (s2, if ok then Some n else None)))"

definition make_node ::
    "('s, 'n, 'c, 'r) sdk \<Rightarrow> 'n \<Rightarrow> string \<Rightarrow> node_step list \<Rightarrow> 's \<Rightarrow> 's \<times> 'n option" where
  "make_node K parent key steps s = make_node_at K (Some parent) key steps s"

text \<open>Nodes that are created one after the other below the same parent; the first failure ends it.\<close>

fun make_nodes ::
    "('s, 'n, 'c, 'r) sdk \<Rightarrow> 'n \<Rightarrow> (string \<times> node_step list) list \<Rightarrow> 's \<Rightarrow> 's \<times> bool" where
  "make_nodes K parent [] s = (s, True)"
| "make_nodes K parent ((key, steps) # ns) s =
     (case make_node K parent key steps s of
        (s', None) \<Rightarrow> (s', False)
      | (s', Some _) \<Rightarrow> make_nodes K parent ns s')"

end
