(* ===== verification/Demo_SDK.thy ===== *)
theory Demo_SDK
  imports DSLink
begin

text \<open>
  A small instance of the two records of \<open>DSLink\<close>, to apply the theorems on: nodes are indices into a list,
  the state also keeps the servers and the nodes that were freed. Every operation succeeds, and a path is one name.
\<close>

record dnode =
  d_name :: string
  d_parent :: "nat option"
  d_kids :: "nat list"
  d_value :: json
  d_data :: "(nat, nat) node_data option"

record dstate =
  d_nodes :: "dnode list"
  d_servers :: "(nat \<times> nat ts61850Server) list"
  d_freed :: "nat list"

text \<open>A handle that is not in use stands for an empty node.\<close>

definition d_get :: "dstate \<Rightarrow> nat \<Rightarrow> dnode" where
  "d_get s n = (if n < length (d_nodes s) then d_nodes s ! n
     else \<lparr>d_name = [], d_parent = None, d_kids = [], d_value = J_NULL, d_data = None\<rparr>)"

definition d_update :: "(dnode \<Rightarrow> dnode) \<Rightarrow> nat \<Rightarrow> dstate \<Rightarrow> dstate" where
  "d_update f n s = s\<lparr>d_nodes := (d_nodes s)[n := f (d_get s n)]\<rparr>"

definition d_child :: "dstate \<Rightarrow> nat \<Rightarrow> string \<Rightarrow> nat option" where
  "d_child s n key = find (\<lambda>c. d_name (d_get s c) = key) (d_kids (d_get s n))"

definition d_create :: "dstate \<Rightarrow> nat option \<Rightarrow> string \<Rightarrow> dstate \<times> nat option" where
  "d_create s p key =
     (s\<lparr>d_nodes := d_nodes s @ [\<lparr>d_name = key, d_parent = p, d_kids = [], d_value = J_NULL, d_data = None\<rparr>]\<rparr>,
      Some (length (d_nodes s)))"

definition d_string :: "json \<Rightarrow> string option" where
  "d_string v = (case v of J_string t \<Rightarrow> Some t | _ \<Rightarrow> None)"

definition demo_sdk :: "(dstate, nat, nat, nat) sdk" where
  "demo_sdk =
     \<lparr>node_create = d_create,
      node_set_meta = (\<lambda>s n key v. (s, True)),
      node_set_value = (\<lambda>s n v. (d_update (\<lambda>d. d\<lparr>d_value := v\<rparr>) n s, True)),
      node_add_child = (\<lambda>s n. (case d_parent (d_get s n) of
           None \<Rightarrow> (s, True) | Some p \<Rightarrow> (d_update (\<lambda>d. d\<lparr>d_kids := d_kids d @ [n]\<rparr>) p s, True))),
      node_tree_free = (\<lambda>s n. s\<lparr>d_freed := d_freed s @ [n]\<rparr>),
      node_set_callback = (\<lambda>s n cb. s),
      node_get_path = d_child,
      node_child = d_child,
      node_children = (\<lambda>s n. d_kids (d_get s n)),
      take_child = (\<lambda>s n key. (case d_child s n key of
           None \<Rightarrow> (s, None) | Some c \<Rightarrow> (d_update (\<lambda>d. d\<lparr>d_kids := filter (\<lambda>x. x \<noteq> c) (d_kids d)\<rparr>) n s, Some c))),
      node_name = (\<lambda>s n. d_name (d_get s n)),
      node_parent = (\<lambda>s n. d_parent (d_get s n)),
      node_string = (\<lambda>s n. d_string (d_value (d_get s n))),
      node_meta_string = (\<lambda>s n key. None),
      node_get_data = (\<lambda>s n. d_data (d_get s n)),
      node_put_data = (\<lambda>s n v. d_update (\<lambda>d. d\<lparr>d_data := Some v\<rparr>) n s),
      server_get = (\<lambda>s n. map_of (d_servers s) n),
      server_map_ready = (\<lambda>s. (s, True)),
      server_set = (\<lambda>s n srv. (s\<lparr>d_servers := (n, srv) # d_servers s\<rparr>, True)),
      server_take = (\<lambda>s n. (s\<lparr>d_servers := filter (\<lambda>x. fst x \<noteq> n) (d_servers s)\<rparr>, map_of (d_servers s) n)),
      send_closed = (\<lambda>s. s),
      depth = 50\<rparr>"

text \<open>
  The tree of a server with the attribute \<open>LD/LN.a.stVal[ST]\<close>, a data set that has it as its member, and a
  report control block: the super root, the server, the logical device, the logical node, the object, the attribute, its value,
  the folder of data sets, the data set, the report control block and an action node of the server.
\<close>

definition d_node :: "string \<Rightarrow> nat option \<Rightarrow> nat list \<Rightarrow> (nat, nat) node_data option \<Rightarrow> dnode" where
  "d_node key p kids dat = \<lparr>d_name = key, d_parent = p, d_kids = kids, d_value = J_NULL, d_data = dat\<rparr>"

definition demo_state :: dstate where
  "demo_state =
     \<lparr>d_nodes =
        [d_node '''' None [1] None,
         d_node ''srv_ied'' (Some 0) [10, 2, 7, 9] (Some D_link),
         d_node ''ldn_LD'' (Some 1) [3] None,
         d_node ''LN'' (Some 2) [4] None,
         d_node ''a'' (Some 3) [5] None,
         d_node ''stVal[ST]'' (Some 4) [6] None,
         d_node ''Value'' (Some 5) [] None,
         d_node ''datasets'' (Some 1) [8] None,
         d_node ''dts_LD$LN.ds'' (Some 7) [] (Some (D_members [''LD/LN.a.stVal[ST]''])),
         d_node ''urc_r'' (Some 1) [] (Some (D_rcb 0)),
         d_node ''ndl_editserver'' (Some 1) [] None],
      d_servers = [(1, \<lparr>hostname = ''10.0.0.1'', tcpPort = 102, iedConn = Some 0\<rparr>)],
      d_freed = []\<rparr>"

definition demo_fields :: rcb_fields where
  "demo_fields = \<lparr>f_rptId = None, f_rptEna = True, f_datSet = Some ''LD/LN$ds'', f_confRev = 1, f_bufTm = 0,
     f_intgPd = 0, f_optFlds = 0, f_trgOps = 0\<rparr>"

text \<open>An IED that is connected and answers with empty lists.\<close>

definition demo_ied :: "(dstate, nat, nat, nat) ied" where
  "demo_ied =
     \<lparr>ied_create = (\<lambda>s. (s, 1)),
      ied_destroy = (\<lambda>s c. s),
      ied_state = (\<lambda>s c. IED_STATE_CONNECTED),
      ied_connect = (\<lambda>s c host port. (s, 0)),
      ied_read = (\<lambda>s c ref fc. (s, Some (V_boolean True))),
      ied_write = (\<lambda>s c ref fc v. (s, 0)),
      ied_var_type = (\<lambda>s c ref fc. (s, Some MMS_BOOLEAN)),
      ied_data_dir = (\<lambda>s c ref fc. (s, Some [])),
      ied_devices = (\<lambda>s c. (s, Some [], 0)),
      ied_device_dir = (\<lambda>s c d. (s, Some [])),
      ied_node_dir = (\<lambda>s c r a. (s, Some [])),
      ied_dataset_dir = (\<lambda>s c r. (s, Some ([], True), 0)),
      ied_create_dataset = (\<lambda>s c r m. (s, 0)),
      ied_delete_dataset = (\<lambda>s c r. (s, True)),
      ied_get_rcb = (\<lambda>s c r p. (s, Some 0, 0)),
      ied_set_rcb = (\<lambda>s c r e. (s, 0)),
      ied_trigger_gi = (\<lambda>s c r. (s, 0)),
      ied_install_report = (\<lambda>s c r i n. s),
      rcb_read = (\<lambda>s r. demo_fields),
      rcb_write = (\<lambda>s r f. s)\<rparr>"

end
