(* ===== verification/Server_Defs.thy ===== *)
theory Server_Defs
  imports Demo_SDK
begin

text \<open>
  Shared definitions of the link (\<open>src/src/iec61850_server_defs.c\<close> with its header): the server
  node of a node, functional constraints and MMS types as text, bit strings as text; and the status node
  (\<open>server_status.c\<close>).
\<close>

section \<open>Keys\<close>

definition SERVER_NODE_KEY_INIT :: string where "SERVER_NODE_KEY_INIT = ''srv_''"
definition NO_DELETE_NODE_KEY_INIT :: string where "NO_DELETE_NODE_KEY_INIT = ''ndl_''"
definition LOGICAL_DEVICE_NODE_KEY_INIT :: string where "LOGICAL_DEVICE_NODE_KEY_INIT = ''ldn_''"
definition DATASET_NODE_KEY_INIT :: string where "DATASET_NODE_KEY_INIT = ''dts_''"
definition DATASET_ELEMENT_NODE_KEY_INIT :: string where "DATASET_ELEMENT_NODE_KEY_INIT = ''dse_''"
definition BRCB_FOLDER_NODE_KEY :: string where "BRCB_FOLDER_NODE_KEY = ''brcbfolder''"
definition URCB_FOLDER_NODE_KEY :: string where "URCB_FOLDER_NODE_KEY = ''urcbfolder''"
definition URCB_NODE_KEY_INIT :: string where "URCB_NODE_KEY_INIT = ''urc_''"
definition BRCB_NODE_KEY_INIT :: string where "BRCB_NODE_KEY_INIT = ''brc_''"
definition DATASET_FOLDER_NODE_KEY :: string where "DATASET_FOLDER_NODE_KEY = ''datasets''"
definition DATASET_PREP_FOLDER_NODE_KEY :: string where "DATASET_PREP_FOLDER_NODE_KEY = ''dataset_prep''"
definition DS_OBJ_REF_NODE_KEY :: string where "DS_OBJ_REF_NODE_KEY = ''objref''"
definition DA_VALUE_REF_NODE_KEY :: string where "DA_VALUE_REF_NODE_KEY = ''Value''"
definition DA_OBJECT_REF_NODE_KEY :: string where "DA_OBJECT_REF_NODE_KEY = ''Object''"

lemmas key_defs = SERVER_NODE_KEY_INIT_def NO_DELETE_NODE_KEY_INIT_def LOGICAL_DEVICE_NODE_KEY_INIT_def
  DATASET_NODE_KEY_INIT_def DATASET_ELEMENT_NODE_KEY_INIT_def BRCB_FOLDER_NODE_KEY_def
  URCB_FOLDER_NODE_KEY_def URCB_NODE_KEY_INIT_def BRCB_NODE_KEY_INIT_def DATASET_FOLDER_NODE_KEY_def
  DATASET_PREP_FOLDER_NODE_KEY_def DS_OBJ_REF_NODE_KEY_def DA_VALUE_REF_NODE_KEY_def DA_OBJECT_REF_NODE_KEY_def


section \<open>The server of a node\<close>

text \<open>\<open>while (node->parent->parent) node = node->parent\<close>, at most \<open>depth\<close> rounds.\<close>

fun climb :: "nat \<Rightarrow> ('s, 'n, 'c, 'r) sdk \<Rightarrow> 's \<Rightarrow> 'n \<Rightarrow> 'n run" where
  "climb k K s node =
     (case node_parent K s node of
        None \<Rightarrow> Inl Null_pointer
      | Some p \<Rightarrow> (case node_parent K s p of
            None \<Rightarrow> Inr node
          | Some _ \<Rightarrow> (case k of 0 \<Rightarrow> Inl Out_of_fuel | Suc k' \<Rightarrow> climb k' K s p)))"

declare climb.simps [simp del]

definition getServerNode :: "('s, 'n, 'c, 'r) sdk \<Rightarrow> 's \<Rightarrow> 'n \<Rightarrow> 'n option run" where
  "getServerNode K s node =
     rbind (climb (depth K) K s node) (\<lambda>top.
       Inr (if starts_with SERVER_NODE_KEY_INIT (node_name K s top) then Some top else None))"

definition getServerIedConnection :: "('s, 'n, 'c, 'r) sdk \<Rightarrow> 's \<Rightarrow> 'n \<Rightarrow> 'c option run" where
  "getServerIedConnection K s node =
     rbind (getServerNode K s node) (\<lambda>r. case r of
       None \<Rightarrow> Inr None
     | Some srv \<Rightarrow> (case server_get K s srv of
           None \<Rightarrow> Inl Null_pointer
         | Some server \<Rightarrow> Inr (iedConn server)))"

text \<open>\<open>getDSLink\<close> gives the data of the server node, which has to be set.\<close>

definition getDSLink :: "('s, 'n, 'c, 'r) sdk \<Rightarrow> 's \<Rightarrow> 'n \<Rightarrow> ('n, 'r) node_data option run" where
  "getDSLink K s node =
     rbind (getServerNode K s node) (\<lambda>r. case r of
       None \<Rightarrow> Inr None
     | Some srv \<Rightarrow> (case node_get_data K s srv of
           None \<Rightarrow> Inl Null_pointer
         | Some d \<Rightarrow> Inr (Some d)))"

text \<open>The ancestors of a node, itself first, up to the super root.\<close>

inductive path_to_root :: "('s, 'n, 'c, 'r) sdk \<Rightarrow> 's \<Rightarrow> 'n list \<Rightarrow> bool" for K s where
  "node_parent K s r = None \<Longrightarrow> path_to_root K s [r]"
| "node_parent K s n = Some p \<Longrightarrow> path_to_root K s (p # ps) \<Longrightarrow> path_to_root K s (n # p # ps)"

inductive_cases path_ConsE: "path_to_root K s (n # p # ps)"
inductive_cases path_singleE: "path_to_root K s [r]"

lemma climb_path:
  "path_to_root K s ps \<Longrightarrow> 2 \<le> length ps \<Longrightarrow> length ps \<le> k + 2 \<Longrightarrow>
   climb k K s (hd ps) = Inr (ps ! (length ps - 2))"
proof (induction ps arbitrary: k rule: path_to_root.induct)
  case (1 r)
  then show ?case by simp
next
  case (2 n p ps)
  show ?case
  proof (cases ps)
    case Nil
    with 2 have "node_parent K s p = None" by (auto elim: path_singleE)
    with 2 Nil show ?thesis by (simp add: climb.simps)
  next
    case (Cons q qs)
    with 2 have q: "node_parent K s p = Some q" by (auto elim: path_ConsE)
    obtain k' where k: "k = Suc k'" using 2 Cons by (cases k) auto
    have "climb k' K s (hd (p # ps)) = Inr ((p # ps) ! (length (p # ps) - 2))"
      by (rule 2(3)) (use 2 Cons k in auto)
    with 2(1) q k Cons show ?thesis by (simp add: climb.simps [of "Suc k'" K s n])
  qed
qed

text \<open>
  \<open>getServerNode\<close> ends on every node below the super root whose depth is within the bound,
  without touching a null pointer, and gives the ancestor just below the super root if its key has the
  prefix of a server, and \<open>NULL\<close> otherwise; the super root itself makes it read through a null pointer.
\<close>

theorem getServerNode_top_ancestor:
  assumes "path_to_root K s ps" and "length ps \<le> depth K + 2"
  shows "getServerNode K s (hd ps)
    = (if length ps < 2 then Inl Null_pointer
       else Inr (if starts_with SERVER_NODE_KEY_INIT (node_name K s (ps ! (length ps - 2)))
                 then Some (ps ! (length ps - 2)) else None))"
proof (cases "length ps < 2")
  case True
  from assms(1) show ?thesis using True
    by cases (simp_all add: getServerNode_def climb.simps)
next
  case False
  with climb_path [OF assms(1) _ assms(2)] show ?thesis by (simp add: getServerNode_def)
qed

theorem getServerNode_top_ancestor_witness: "getServerNode demo_sdk demo_state 4 = Inr (Some 1)"
proof -
  have "path_to_root demo_sdk demo_state [4, 3, 2, 1, 0]"
    by (intro path_to_root.intros) (simp_all add: demo_sdk_def demo_state_def d_node_def d_get_def)
  moreover have "depth demo_sdk = 50" by (simp add: demo_sdk_def)
  ultimately show ?thesis
    using getServerNode_top_ancestor [of demo_sdk demo_state "[4, 3, 2, 1, 0]"]
    by (simp add: demo_sdk_def demo_state_def d_node_def d_get_def starts_with_def SERVER_NODE_KEY_INIT_def)
qed


section \<open>Functional constraints and types\<close>

definition isWritableFC :: "FunctionalConstraint \<Rightarrow> bool" where
  "isWritableFC fc \<longleftrightarrow> fc = FC_CF \<or> fc = FC_SE \<or> fc = FC_SP \<or> fc = FC_DC \<or> fc = FC_SV"

definition isWritableFCWithString :: "string \<Rightarrow> bool" where
  "isWritableFCWithString fcStr \<longleftrightarrow>
     starts_with ''CF'' fcStr \<or> starts_with ''SE'' fcStr \<or> starts_with ''SP'' fcStr
     \<or> starts_with ''DC'' fcStr \<or> starts_with ''SV'' fcStr"

fun getMmsTypeString :: "MmsType \<Rightarrow> string option" where
  "getMmsTypeString MMS_ARRAY = Some ''MMS_ARRAY''"
| "getMmsTypeString MMS_STRUCTURE = Some ''MMS_STRUCTURE''"
| "getMmsTypeString MMS_BOOLEAN = Some ''MMS_BOOLEAN''"
| "getMmsTypeString MMS_BIT_STRING = Some ''MMS_BIT_STRING''"
| "getMmsTypeString MMS_INTEGER = Some ''MMS_INTEGER''"
| "getMmsTypeString MMS_UNSIGNED = Some ''MMS_UNSIGNED''"
| "getMmsTypeString MMS_FLOAT = Some ''MMS_FLOAT''"
| "getMmsTypeString MMS_OCTET_STRING = Some ''MMS_OCTET_STRING''"
| "getMmsTypeString MMS_VISIBLE_STRING = Some ''MMS_VISIBLE_STRING''"
| "getMmsTypeString MMS_GENERALIZED_TIME = Some ''MMS_GENERALIZED_TIME''"
| "getMmsTypeString MMS_BINARY_TIME = Some ''MMS_BINARY_TIME''"
| "getMmsTypeString MMS_BCD = Some ''MMS_BCD''"
| "getMmsTypeString MMS_OBJ_ID = Some ''MMS_OBJ_ID''"
| "getMmsTypeString MMS_STRING = Some ''MMS_STRING''"
| "getMmsTypeString MMS_UTC_TIME = Some ''MMS_UTC_TIME''"
| "getMmsTypeString MMS_DATA_ACCESS_ERROR = Some ''MMS_DATA_ACCESS_ERROR''"

definition isMmsTypeFromString :: "string \<Rightarrow> MmsType \<Rightarrow> bool" where
  "isMmsTypeFromString str t \<longleftrightarrow> Some str = getMmsTypeString t"

definition fcExplains :: "string list" where
  "fcExplains = [''Status information'', ''Measurand - analog value'', ''Setpoint'', ''Substitution'',
     ''Configuration'', ''Description'', ''Setting group'', ''Setting group editable'',
     ''Service response / Service tracking'', ''Operate received'', ''Blocking'', ''Extended definition'',
     ''Control'', ''Unicast SV'', ''Multicast SV'', ''Unbuffered report'', ''Buffered report'',
     ''Log control block'']"

text \<open>The enumeration has a negative member, so the comparison with the size is signed.\<close>

definition getFCExplainString :: "FunctionalConstraint \<Rightarrow> string option run" where
  "getFCExplainString fc =
     (if fc_code fc < 18
      then (if fc_code fc < 0 then Inl Out_of_bounds else Inr (Some (fcExplains ! nat (fc_code fc))))
      else Inr None)"

text \<open>
  \<open>getFunctionalConstraint\<close> copies the two characters behind the bracket to \<open>fcStr\<close>. The value of
  \<open>FunctionalConstraint_fromString\<close> is not returned: with a bracket in the text the function ends
  without a return value, and the callers use what is left in the result register, \<open>leftover\<close>.
\<close>

definition getFunctionalConstraint ::
    "(FunctionalConstraint \<Rightarrow> FunctionalConstraint) \<Rightarrow> string \<Rightarrow> FunctionalConstraint \<times> string option" where
  "getFunctionalConstraint leftover daRef =
     (case split_at CHR ''['' daRef of
        None \<Rightarrow> (FC_NONE, None)
      | Some (_, rest) \<Rightarrow>
          (let fcStr = take 2 rest in (leftover (FunctionalConstraint_fromString fcStr), Some fcStr)))"

lemma isMmsTypeFromString_unique: "isMmsTypeFromString str t \<Longrightarrow> isMmsTypeFromString str u \<Longrightarrow> t = u"
  by (cases t; cases u) (simp_all add: isMmsTypeFromString_def)

text \<open>The two tests for a writable constraint agree on the names of constraints.\<close>

lemma isWritableFC_string:
  "FunctionalConstraint_toString fc = Some s \<Longrightarrow> isWritableFCWithString (s @ t) = isWritableFC fc"
  by (cases fc) (auto simp: isWritableFC_def isWritableFCWithString_def starts_with_def)

lemma getFCExplainString_none: "getFCExplainString FC_NONE = Inl Out_of_bounds"
  by (simp add: getFCExplainString_def)


section \<open>Bit strings as text\<close>

text \<open>
  The loop of \<open>parseBitString\<close>: \<open>j\<close> bits are stored, \<open>n\<close> is the size of the buffer. The last case of
  the function, a text that ends with a comma, leaves it without a return value.
\<close>

fun parse_bits :: "string \<Rightarrow> int \<Rightarrow> int \<Rightarrow> int run" where
  "parse_bits [] j n = Inl Undefined_operation"
| "parse_bits (c # cs) j n =
     (if c = CHR ''0'' \<or> c \<noteq> CHR ''1'' then
        (if j < n then
           (case cs of
              [] \<Rightarrow> Inr (if n = j + 1 + 1 then n else 0)
            | d # ds \<Rightarrow> if d = CHR '','' then parse_bits ds (j + 1) n else Inr 0)
         else Inl Out_of_bounds)
      else Inr 0)"

definition parseBitString :: "string \<Rightarrow> int run" where
  "parseBitString rawString =
     (let rawStrSize = (int (length rawString) + 1) div 2
      in if rawStrSize > 0 then parse_bits rawString 0 rawStrSize else Inr 0)"

lemma parse_bits_zero:
  "2 * j + int (length t) = l \<Longrightarrow> n = (l + 1) div 2 \<Longrightarrow>
   parse_bits t j n = Inr 0 \<or> (parse_bits t j n = Inl Undefined_operation)"
proof (induction t j n rule: parse_bits.induct)
  case (1 j n)
  then show ?case by simp
next
  case (2 c cs j n)
  have jn: "j < n" using 2(2,3) by simp
  show ?case
  proof (cases cs)
    case Nil
    with 2(2,3) have "n = j + 1" by simp
    with Nil jn show ?thesis by simp
  next
    case (Cons d ds)
    show ?thesis
    proof (cases "(c = CHR ''0'' \<or> c \<noteq> CHR ''1'') \<and> d = CHR '',''")
      case True
      have "2 * (j + 1) + int (length ds) = l" using 2(2) Cons by simp
      from 2(1) [OF _ jn Cons _ this 2(3)] True show ?thesis using Cons jn by auto
    next
      case False
      with Cons jn show ?thesis by auto
    qed
  qed
qed

lemma parseBitString_result:
  "parseBitString raw = Inr 0 \<or> (parseBitString raw = Inl Undefined_operation \<and> raw \<noteq> [] \<and> last raw = CHR '','')"
proof -
  have last_comma: "parse_bits t j n = Inl Undefined_operation \<Longrightarrow> t = [] \<or> last t = CHR '',''" for t j n
    by (induction t j n rule: parse_bits.induct) (auto split: if_splits list.splits)
  show ?thesis
    using parse_bits_zero [of 0 raw "int (length raw)" "(int (length raw) + 1) div 2"] last_comma [of raw 0]
    by (cases "raw = []") (auto simp: parseBitString_def Let_def)
qed

text \<open>
  \<open>parseBitString\<close> stays within its buffer but never gives the number of bits that its header
  promises: it takes every character except \<open>1\<close>, compares the size with one bit more than it has
  stored, and so returns 0 for every text (or ends without a value when the text ends
  with a comma).
\<close>

theorem parseBitString_never_succeeds:
  "parseBitString raw = Inr 0 \<or> (parseBitString raw = Inl Undefined_operation \<and> raw \<noteq> [] \<and> last raw = CHR '','')"
  by (rule parseBitString_result)


section \<open>The status node\<close>

definition status_text :: "IedConnectionState \<Rightarrow> string" where
  "status_text st =
     (case st of IED_STATE_IDLE \<Rightarrow> ''Not connected'' | IED_STATE_CONNECTED \<Rightarrow> ''Connected''
       | IED_STATE_CLOSED \<Rightarrow> ''Connection closed'' | IED_STATE_OTHER \<Rightarrow> ''??'')"

definition serverSubbed ::
    "('s, 'n, 'c, 'r) sdk \<Rightarrow> ('s, 'n, 'c, 'r) ied \<Rightarrow> 'n \<Rightarrow> 's \<Rightarrow> 's run" where
  "serverSubbed K I node s =
     (case node_parent K s node of
        None \<Rightarrow> Inl Null_pointer
      | Some p \<Rightarrow> (case server_get K s p of
            None \<Rightarrow> Inl Null_pointer
          | Some server \<Rightarrow> (case iedConn server of
                None \<Rightarrow> Inr s
              | Some con \<Rightarrow> Inr (fst (node_set_value K s node (J_string (status_text (ied_state I s con))))))))"

definition serverStatusCreate :: "('s, 'n, 'c, 'r) sdk \<Rightarrow> 'n \<Rightarrow> 's \<Rightarrow> 's" where
  "serverStatusCreate K root s =
     fst (make_node K root ''ndl_connstatus''
       [Install Cb_serverSubbed, Install Cb_serverUnsubbed, Must_meta ''$type'' (J_string ''string''),
        Must_meta ''$name'' (J_string ''Status''), Must_value (J_string ''Initializing''), Must_add] s)"

end
