(* ===== verification/Dataset_Handler.thy ===== *)
theory Dataset_Handler
  imports Server_Defs
begin

text \<open>
  The data sets of the link, \<open>src/src/dataset_handler.c\<close>: finding the node of a data attribute from its
  reference, the nodes of the data sets on the IED and of the data sets that are being prepared.
\<close>

section \<open>Lists for enumerations\<close>

text \<open>The names that are appended to an enumeration text in a buffer of \<open>cap\<close> characters.\<close>

fun append_items :: "nat \<Rightarrow> string \<Rightarrow> string list \<Rightarrow> string run" where
  "append_items cap acc [] = Inr acc"
| "append_items cap acc (x # xs) =
     rbind (fit cap (acc @ x)) (\<lambda>a. rbind (fit cap (a @ '','')) (\<lambda>b. append_items cap b xs))"

definition close_items :: "nat \<Rightarrow> string \<Rightarrow> string list \<Rightarrow> (string \<times> bool) run" where
  "close_items cap acc items =
     (if items = [] then rbind (fit cap (acc @ '']'')) (\<lambda>r. Inr (r, False))
      else rbind (append_items cap acc items) (\<lambda>r. Inr (butlast r @ '']'', True)))"

lemma append_items_text:
  "length acc + length (concat (map (\<lambda>x. x @ '','') items)) < cap \<Longrightarrow>
   append_items cap acc items = Inr (acc @ concat (map (\<lambda>x. x @ '','') items))"
  by (induction items arbitrary: acc) (auto simp: fit_def)


section \<open>Folders\<close>

definition server_folder :: "('s, 'n, 'c, 'r) sdk \<Rightarrow> 's \<Rightarrow> 'n \<Rightarrow> string \<Rightarrow> 'n option run" where
  "server_folder K s node key =
     rbind (getServerNode K s node) (\<lambda>r. Inr (case r of None \<Rightarrow> None | Some srv \<Rightarrow> node_get_path K s srv key))"

definition getMainDatasetNode :: "('s, 'n, 'c, 'r) sdk \<Rightarrow> 's \<Rightarrow> 'n \<Rightarrow> 'n option run" where
  "getMainDatasetNode K s node = server_folder K s node DATASET_FOLDER_NODE_KEY"

definition getMainPrepDatasetNode :: "('s, 'n, 'c, 'r) sdk \<Rightarrow> 's \<Rightarrow> 'n \<Rightarrow> 'n option run" where
  "getMainPrepDatasetNode K s node = server_folder K s node DATASET_PREP_FOLDER_NODE_KEY"

definition getPrepDSListEnumStr :: "('s, 'n, 'c, 'r) sdk \<Rightarrow> 's \<Rightarrow> 'n \<Rightarrow> string \<Rightarrow> (string \<times> bool) run" where
  "getPrepDSListEnumStr K s node enumStr =
     rbind (getMainPrepDatasetNode K s node) (\<lambda>r. case r of
       None \<Rightarrow> close_items 1000 enumStr []
     | Some m \<Rightarrow> close_items 1000 enumStr
         (map (\<lambda>c. drop 4 (node_name K s c))
            (filter (\<lambda>c. starts_with DATASET_NODE_KEY_INIT (node_name K s c)) (node_children K s m))))"

definition convertDataSetRefForNodeKey :: "string \<Rightarrow> string" where
  "convertDataSetRefForNodeKey dsRef = replace_char CHR ''/'' CHR ''$'' dsRef"


section \<open>The node of a data attribute\<close>

text \<open>One component of the path below the logical node: its key is the name alone or with the constraint.\<close>

definition find_component ::
    "('s, 'n, 'c, 'r) sdk \<Rightarrow> 's \<Rightarrow> string \<Rightarrow> 'n \<Rightarrow> string \<Rightarrow> 'n option run" where
  "find_component K s fcStr scanNode c =
     rbind (fit 100 c) (\<lambda>key. case node_get_path K s scanNode key of
       Some m \<Rightarrow> Inr (Some m)
     | None \<Rightarrow> rbind (fit 100 (key @ fcStr)) (\<lambda>key'. Inr (node_get_path K s scanNode key')))"

lemma split_at_length: "split_at c t = Some (a, b) \<Longrightarrow> length b < length t"
  by (induction t arbitrary: a b) (auto split: if_splits option.splits)

function find_components ::
    "('s, 'n, 'c, 'r) sdk \<Rightarrow> 's \<Rightarrow> string \<Rightarrow> 'n \<Rightarrow> string \<Rightarrow> 'n option run" where
  "find_components K s fcStr scanNode t =
     (case split_at CHR ''.'' t of
        None \<Rightarrow> find_component K s fcStr scanNode t
      | Some (c, rest) \<Rightarrow>
          rbind (find_component K s fcStr scanNode c) (\<lambda>r. case r of
            None \<Rightarrow> Inr None | Some m \<Rightarrow> find_components K s fcStr m rest))"
  by pat_completeness auto
termination
  by (relation "measure (\<lambda>(K, s, f, n, t). length t)") (auto simp: split_at_length)

declare find_components.simps [simp del]

definition getDANode :: "('s, 'n, 'c, 'r) sdk \<Rightarrow> 's \<Rightarrow> 'n \<Rightarrow> string \<Rightarrow> 'n option run" where
  "getDANode K s node daRefWithFC =
     rbind (getServerNode K s node) (\<lambda>serverNode.
     rbind (fit 300 daRefWithFC) (\<lambda>ref. case split_at CHR ''['' ref of
       None \<Rightarrow> Inr None
     | Some (daRef, rest) \<Rightarrow>
         (let fcStr = take 4 (CHR ''['' # rest)
          in case serverNode of
               None \<Rightarrow> Inr None
             | Some srv \<Rightarrow> (case split_at CHR ''/'' daRef of
                 None \<Rightarrow> Inr None
               | Some (ld, t1) \<Rightarrow>
                   rbind (fit 100 (LOGICAL_DEVICE_NODE_KEY_INIT @ ld)) (\<lambda>ldKey.
                     case node_get_path K s srv ldKey of
                       None \<Rightarrow> Inr None
                     | Some ldNode \<Rightarrow> (case split_at CHR ''.'' t1 of
                         None \<Rightarrow> Inr None
                       | Some (ln, t2) \<Rightarrow> (case node_get_path K s ldNode ln of
                           None \<Rightarrow> Inr None
                         | Some lnNode \<Rightarrow> find_components K s fcStr lnNode t2)))))))"


section \<open>Data sets of the IED\<close>

definition getDataSetNodeFromRef :: "('s, 'n, 'c, 'r) sdk \<Rightarrow> 's \<Rightarrow> 'n \<Rightarrow> string \<Rightarrow> 'n option run" where
  "getDataSetNodeFromRef K s node dataSetRef =
     rbind (fit 300 (DATASET_NODE_KEY_INIT @ dataSetRef)) (\<lambda>d.
     rbind (getMainDatasetNode K s node) (\<lambda>m. case m of
       None \<Rightarrow> Inl Null_pointer
     | Some mainNode \<Rightarrow> Inr (node_get_path K s mainNode
         (replace_char CHR ''/'' CHR ''$'' (replace_char CHR ''$'' CHR ''.'' d)))))"

text \<open>Removing a node from its parent and freeing it: the end of three handlers.\<close>

definition remove_from_parent :: "('s, 'n, 'c, 'r) sdk \<Rightarrow> 'n \<Rightarrow> 's \<Rightarrow> 's run" where
  "remove_from_parent K node s =
     (case node_parent K s node of
        None \<Rightarrow> Inl Null_pointer
      | Some p \<Rightarrow> (case take_child K s p (node_name K s node) of
            (s', None) \<Rightarrow> Inr s' | (s', Some n) \<Rightarrow> Inr (node_tree_free K s' n)))"

definition removeDatasetNode :: "('s, 'n, 'c, 'r) sdk \<Rightarrow> 'n \<Rightarrow> 's \<Rightarrow> 's run" where
  "removeDatasetNode K datasetNode s = remove_from_parent K datasetNode s"

text \<open>\<open>json_string_value(dslink_node_get_path(n, key)->value)\<close>\<close>

definition string_at :: "('s, 'n, 'c, 'r) sdk \<Rightarrow> 's \<Rightarrow> 'n \<Rightarrow> string \<Rightarrow> string option run" where
  "string_at K s n key =
     (case node_get_path K s n key of None \<Rightarrow> Inl Null_pointer | Some m \<Rightarrow> Inr (node_string K s m))"

text \<open>\<open>node->parent\<close> where the code goes on through it.\<close>

definition parent_of :: "('s, 'n, 'c, 'r) sdk \<Rightarrow> 's \<Rightarrow> 'n \<Rightarrow> 'n run" where
  "parent_of K s n = (case node_parent K s n of None \<Rightarrow> Inl Null_pointer | Some p \<Rightarrow> Inr p)"

definition remove_dataset_action ::
    "('s, 'n, 'c, 'r) sdk \<Rightarrow> ('s, 'n, 'c, 'r) ied \<Rightarrow> 'n \<Rightarrow> 's \<Rightarrow> 's run" where
  "remove_dataset_action K I node s =
     rbind (getServerIedConnection K s node) (\<lambda>con.
     rbind (parent_of K s node) (\<lambda>datasetNode.
     rbind (string_at K s datasetNode DS_OBJ_REF_NODE_KEY) (\<lambda>dsRef.
       case (con, dsRef) of
         (Some c, Some r) \<Rightarrow>
           (case ied_delete_dataset I s c r of
              (s', True) \<Rightarrow> removeDatasetNode K datasetNode s'
            | (s', False) \<Rightarrow> Inr s')
       | _ \<Rightarrow> Inr s)))"

definition createDatasetNode ::
    "('s, 'n, 'c, 'r) sdk \<Rightarrow> 'n option \<Rightarrow> string \<Rightarrow> bool \<Rightarrow> 's \<Rightarrow> ('s \<times> 'n option) run" where
  "createDatasetNode K mainDatasetNode dataSetRef isDeletable s =
     rbind (fit 300 (DATASET_NODE_KEY_INIT @ dataSetRef)) (\<lambda>d.
       case mainDatasetNode of
         None \<Rightarrow> Inr (s, None)
       | Some mainNode \<Rightarrow>
           (case make_node K mainNode (convertDataSetRefForNodeKey d)
                   [Must_meta ''$name'' (J_string dataSetRef), Must_add] s of
              (s1, None) \<Rightarrow> Inr (s1, None)
            | (s1, Some newDSNode) \<Rightarrow>
                (let (s2, ok) = make_nodes K newDSNode
                   [(DS_OBJ_REF_NODE_KEY,
                       [Must_meta ''$name'' (J_string ''Obj. Ref.''), Must_meta ''$type'' (J_string ''string''),
                        Must_value (J_string dataSetRef), Must_add]),
                    (''deletable'',
                       [Must_meta ''$name'' (J_string ''Deletable''), Must_meta ''$type'' (J_string ''boolean''),
                        Must_value (J_bool isDeletable), Must_add]),
                    (''removedataset'',
                       [Install Cb_removeDataset, Try_meta ''$name'' (J_string ''Remove''),
                        Try_meta ''$invokable'' (J_string ''read''), Must_add])] s1
                 in Inr (s2, if ok then Some newDSNode else None))))"

text \<open>A member reference as a node key: the first slash becomes a dollar sign, and there has to be one.\<close>

definition member_key :: "string \<Rightarrow> string run" where
  "member_key name0 =
     (case split_at CHR ''/'' name0 of None \<Rightarrow> Inl Null_pointer | Some (a, b) \<Rightarrow> Inr (a @ ''$'' @ b))"

definition addMemberToDatasetNode :: "('s, 'n, 'c, 'r) sdk \<Rightarrow> 'n option \<Rightarrow> string \<Rightarrow> 's \<Rightarrow> 's run" where
  "addMemberToDatasetNode K newDSNode memberName s =
     (case newDSNode of
        None \<Rightarrow> Inr s
      | Some dsNode \<Rightarrow>
          rbind (fit 200 memberName) (\<lambda>m. rbind (member_key m) (\<lambda>key.
            case make_node K dsNode key [Must_meta ''$name'' (J_string memberName), Must_add] s of
              (s1, None) \<Rightarrow> Inr s1
            | (s1, Some memberNode) \<Rightarrow>
                rbind (getDANode K s1 dsNode memberName) (\<lambda>r. case r of
                  None \<Rightarrow> Inr s1
                | Some daNode \<Rightarrow> Inr (node_put_data K s1 memberNode (D_node daNode))))))"

fun add_members :: "('s, 'n, 'c, 'r) sdk \<Rightarrow> 'n \<Rightarrow> string list \<Rightarrow> 's \<Rightarrow> 's run" where
  "add_members K dsNode [] s = Inr s"
| "add_members K dsNode (m # ms) s =
     rbind (addMemberToDatasetNode K (Some dsNode) m s) (\<lambda>s'. add_members K dsNode ms s')"

definition getDatasetInfoFromServerCreateNode ::
    "('s, 'n, 'c, 'r) sdk \<Rightarrow> ('s, 'n, 'c, 'r) ied \<Rightarrow> 'n \<Rightarrow> 'c option \<Rightarrow> string \<Rightarrow> 's \<Rightarrow> ('s \<times> bool) run" where
  "getDatasetInfoFromServerCreateNode K I currNode con dsRef s =
     (let (s1, answer, error) = ied_dataset_dir I s con dsRef
      in case answer of
           None \<Rightarrow> Inr (s1, False)
         | Some (members, isDeletable) \<Rightarrow>
             (if error = 0
              then rbind (getMainDatasetNode K s1 currNode) (\<lambda>mainNode.
                   rbind (createDatasetNode K mainNode dsRef isDeletable s1) (\<lambda>(s2, r). case r of
                     None \<Rightarrow> Inr (s2, False)
                   | Some newDSNode \<Rightarrow>
                       rbind (add_members K newDSNode members (node_put_data K s2 newDSNode (D_members members)))
                         (\<lambda>s3. Inr (s3, True))))
              else Inr (s1, False)))"


section \<open>Data sets in preparation\<close>

definition rm_member_prepds_action :: "('s, 'n, 'c, 'r) sdk \<Rightarrow> 'n \<Rightarrow> 's \<Rightarrow> 's run" where
  "rm_member_prepds_action K node s = rbind (parent_of K s node) (\<lambda>memberNode. remove_from_parent K memberNode s)"

definition addMemberToPrepDatasetNode :: "('s, 'n, 'c, 'r) sdk \<Rightarrow> 'n option \<Rightarrow> string \<Rightarrow> 's \<Rightarrow> 's run" where
  "addMemberToPrepDatasetNode K prepDSNode memberName s =
     (case prepDSNode of
        None \<Rightarrow> Inr s
      | Some prepNode \<Rightarrow>
          rbind (fit 400 (DATASET_ELEMENT_NODE_KEY_INIT @ memberName)) (\<lambda>m. rbind (member_key m) (\<lambda>key.
            case make_node K prepNode key [Must_meta ''$name'' (J_string memberName), Must_add] s of
              (s1, None) \<Rightarrow> Inr s1
            | (s1, Some memberNode) \<Rightarrow>
                Inr (fst (make_node K memberNode ''rm_mem_prepds''
                  [Install Cb_removeMember, Try_meta ''$name'' (J_string ''Remove''),
                   Try_meta ''$invokable'' (J_string ''read''), Must_add] s1)))))"

definition removePrepDS :: "('s, 'n, 'c, 'r) sdk \<Rightarrow> 'n \<Rightarrow> 's \<Rightarrow> 's run" where
  "removePrepDS K prepDSNode s = remove_from_parent K prepDSNode s"

definition remove_prepds_action :: "('s, 'n, 'c, 'r) sdk \<Rightarrow> 'n \<Rightarrow> 's \<Rightarrow> 's run" where
  "remove_prepds_action K node s = rbind (parent_of K s node) (\<lambda>p. removePrepDS K p s)"

text \<open>The member references of a prepared data set: the names of its element nodes.\<close>

fun element_names :: "('s, 'n, 'c, 'r) sdk \<Rightarrow> 's \<Rightarrow> 'n list \<Rightarrow> string list run" where
  "element_names K s [] = Inr []"
| "element_names K s (c # cs) =
     (if starts_with DATASET_ELEMENT_NODE_KEY_INIT (node_name K s c)
      then (case node_meta_string K s c ''$name'' of
              None \<Rightarrow> Inl Null_pointer
            | Some m \<Rightarrow> rbind (element_names K s cs) (\<lambda>ms. Inr (m # ms)))
      else element_names K s cs)"

definition create_ds_onserver_action ::
    "('s, 'n, 'c, 'r) sdk \<Rightarrow> ('s, 'n, 'c, 'r) ied \<Rightarrow> 'n \<Rightarrow> 's \<Rightarrow> 's run" where
  "create_ds_onserver_action K I node s =
     rbind (parent_of K s node) (\<lambda>datasetNode.
     rbind (element_names K s (node_children K s datasetNode)) (\<lambda>members.
     rbind (string_at K s datasetNode DS_OBJ_REF_NODE_KEY) (\<lambda>dsRef.
       if members = [] then Inr s
       else rbind (getServerIedConnection K s node) (\<lambda>con.
              let (s1, error) = ied_create_dataset I s con dsRef members
              in if error \<noteq> 0 then Inr s1
                 else (case dsRef of
                         None \<Rightarrow> Inl Null_pointer
                       | Some r \<Rightarrow>
                           rbind (getDatasetInfoFromServerCreateNode K I node con r s1) (\<lambda>(s2, created).
                             if created then removePrepDS K datasetNode s2 else Inr s2))))))"

definition createPrepDatasetNode :: "('s, 'n, 'c, 'r) sdk \<Rightarrow> 'n \<Rightarrow> string \<Rightarrow> 's \<Rightarrow> ('s \<times> bool) run" where
  "createPrepDatasetNode K lnNode dsRef s =
     rbind (getMainDatasetNode K s lnNode) (\<lambda>datasetNode.
     rbind (getMainPrepDatasetNode K s lnNode) (\<lambda>prepNode.
     rbind (fit 300 (DATASET_NODE_KEY_INIT @ dsRef)) (\<lambda>d.
       let dsKey = convertDataSetRefForNodeKey d
       in case (datasetNode, prepNode) of
            (Some dn, Some pn) \<Rightarrow>
              (if node_child K s dn dsKey \<noteq> None \<or> node_child K s pn dsKey \<noteq> None then Inr (s, False)
               else (case make_node K pn dsKey [Must_meta ''$name'' (J_string dsRef), Must_add] s of
                  (s1, None) \<Rightarrow> Inr (s1, False)
                | (s1, Some newDSNode) \<Rightarrow>
                    (case make_node K newDSNode DS_OBJ_REF_NODE_KEY
                            [Must_meta ''$name'' (J_string ''Obj. Ref.''), Must_meta ''$type'' (J_string ''string''),
                             Must_value (J_string dsRef), Must_add] s1 of
                       (s2, None) \<Rightarrow> Inr (s2, False)
                     | (s2, Some _) \<Rightarrow>
                         (case node_create K s2 (Some newDSNode) ''createdataset'' of
                            (s3, None) \<Rightarrow> Inr (s3, False)
                          | (s3, Some createNode) \<Rightarrow>
                              (let s4 = fst (run_steps K createNode
                                 [Install Cb_createDS, Try_meta ''$name'' (J_string ''Create on Server''),
                                  Try_meta ''$invokable'' (J_string ''read''), Must_add] s3);
                                 (s5, r) = make_node K newDSNode ''removedataset''
                                   [Install Cb_removePrepDS, Try_meta ''$name'' (J_string ''Remove''),
                                    Try_meta ''$invokable'' (J_string ''read''), Must_add] s4
                               in Inr (s5, r \<noteq> None))))))
          | _ \<Rightarrow> Inr (s, False))))"

section \<open>References and keys\<close>

fun join_dots :: "string list \<Rightarrow> string" where
  "join_dots [] = []"
| "join_dots [c] = c"
| "join_dots (c # d # cs) = c @ ''.'' @ join_dots (d # cs)"

text \<open>The node a path of components leads to; every component is looked up alone, then with its constraint.\<close>

fun walk :: "('s, 'n, 'c, 'r) sdk \<Rightarrow> 's \<Rightarrow> string \<Rightarrow> 'n \<Rightarrow> string list \<Rightarrow> 'n option" where
  "walk K s fc n [] = Some n"
| "walk K s fc n (c # cs) =
     (case node_get_path K s n c of
        Some m \<Rightarrow> walk K s fc m cs
      | None \<Rightarrow> (case node_get_path K s n (c @ fc) of Some m \<Rightarrow> walk K s fc m cs | None \<Rightarrow> None))"

definition resolve :: "('s, 'n, 'c, 'r) sdk \<Rightarrow> 's \<Rightarrow> 'n \<Rightarrow> string \<Rightarrow> string \<Rightarrow> string list \<Rightarrow> string \<Rightarrow> 'n option" where
  "resolve K s srv ld ln comps fc =
     (case node_get_path K s srv (LOGICAL_DEVICE_NODE_KEY_INIT @ ld) of
        None \<Rightarrow> None
      | Some ldNode \<Rightarrow> (case node_get_path K s ldNode ln of
            None \<Rightarrow> None | Some lnNode \<Rightarrow> walk K s fc lnNode comps))"

definition good_component :: "string \<Rightarrow> bool" where
  "good_component c \<longleftrightarrow> CHR ''.'' \<notin> set c \<and> CHR ''['' \<notin> set c \<and> CHR ''/'' \<notin> set c \<and> length c + 4 < 100"

lemma find_component_walk:
  assumes "length c + 4 < 100" and "length fc = 4"
  shows "find_component K s fc n c
         = Inr (case node_get_path K s n c of Some m \<Rightarrow> Some m | None \<Rightarrow> node_get_path K s n (c @ fc))"
  using assms by (auto simp: find_component_def fit_def split: option.splits)

lemma find_components_walk:
  "comps \<noteq> [] \<Longrightarrow> list_all good_component comps \<Longrightarrow> length fc = 4 \<Longrightarrow>
   find_components K s fc n (join_dots comps) = Inr (walk K s fc n comps)"
proof (induction comps arbitrary: n rule: join_dots.induct)
  case 1
  then show ?case by simp
next
  case (2 c)
  then have "split_at CHR ''.'' c = None" by (simp add: split_at_none good_component_def)
  with 2 show ?case
    by (subst find_components.simps)
      (auto simp: find_component_walk good_component_def split: option.splits)
next
  case (3 c d cs)
  have sp: "split_at CHR ''.'' (join_dots (c # d # cs)) = Some (c, join_dots (d # cs))"
    using 3(3) split_at_append [of "CHR ''.''" c "join_dots (d # cs)"] by (simp add: good_component_def)
  have IH: "find_components K s fc m (join_dots (d # cs)) = Inr (walk K s fc m (d # cs))" for m
    by (rule 3(1)) (use 3 in auto)
  have fc1: "find_component K s fc n c
      = Inr (case node_get_path K s n c of Some m \<Rightarrow> Some m | None \<Rightarrow> node_get_path K s n (c @ fc))"
    by (rule find_component_walk) (use 3 in \<open>auto simp: good_component_def\<close>)
  have "find_components K s fc n (join_dots (c # d # cs))
      = (case (case node_get_path K s n c of Some m \<Rightarrow> Some m | None \<Rightarrow> node_get_path K s n (c @ fc)) of
           None \<Rightarrow> Inr None | Some m \<Rightarrow> find_components K s fc m (join_dots (d # cs)))"
    by (subst find_components.simps) (simp only: sp fc1 option.case prod.case rbind.simps)
  then show ?case unfolding IH by (simp split: option.splits)
qed

lemma join_dots_chars: "comps \<noteq> [] \<Longrightarrow> set (join_dots comps) \<subseteq> insert (CHR ''.'') (\<Union> (set ` set comps))"
  by (induction comps rule: join_dots.induct) auto

text \<open>
  C33: \<open>getDANode\<close> resolves the reference \<open>LD/LN.c1. ... .cn[FC]\<close>: it goes from the server node to the
  logical device, the logical node and then along the components, each found under its name or else under
  its name with the constraint, and gives \<open>NULL\<close> as soon as one is missing; references within the
  sizes of its local buffers never write outside of them.
\<close>

theorem getDANode_resolves:
  assumes "getServerNode K s node = Inr (Some srv)"
    and "good_component ld" and "good_component ln" and "comps \<noteq> []" and "list_all good_component comps"
    and "length fc = 2" and "length ld + length ln + length (join_dots comps) + 6 < 300"
  shows "getDANode K s node (ld @ ''/'' @ ln @ ''.'' @ join_dots comps @ ''['' @ fc @ '']'')
         = Inr (resolve K s srv ld ln comps (''['' @ fc @ '']''))"
proof -
  let ?ref = "ld @ ''/'' @ ln @ ''.'' @ join_dots comps @ ''['' @ fc @ '']''"
  have nb: "CHR ''['' \<notin> set (ld @ ''/'' @ ln @ ''.'' @ join_dots comps)"
    using assms(2-5) join_dots_chars [OF assms(4)] by (auto simp: good_component_def list_all_iff)
  have f: "fit 300 ?ref = Inr ?ref" using assms(6,7) by (simp add: fit_def)
  have b: "split_at CHR ''['' ?ref = Some (ld @ ''/'' @ ln @ ''.'' @ join_dots comps, fc @ '']'')"
    using split_at_append [OF nb, of "fc @ '']''"] by simp
  have sl: "split_at CHR ''/'' (ld @ ''/'' @ ln @ ''.'' @ join_dots comps) = Some (ld, ln @ ''.'' @ join_dots comps)"
    using split_at_append [of "CHR ''/''" ld] assms(2) by (simp add: good_component_def)
  have dt: "split_at CHR ''.'' (ln @ ''.'' @ join_dots comps) = Some (ln, join_dots comps)"
    using split_at_append [of "CHR ''.''" ln] assms(3) by (simp add: good_component_def)
  have k: "fit 100 (LOGICAL_DEVICE_NODE_KEY_INIT @ ld) = Inr (LOGICAL_DEVICE_NODE_KEY_INIT @ ld)"
    using assms(2) by (simp add: fit_def good_component_def key_defs)
  have t4: "take 4 (CHR ''['' # fc @ '']'') = ''['' @ fc @ '']''" using assms(6) by simp
  have l4: "length (''['' @ fc @ '']'') = 4" using assms(6) by simp
  show ?thesis
    unfolding getDANode_def assms(1) rbind.simps f b option.case prod.case Let_def t4 sl k dt resolve_def
      find_components_walk [OF assms(4,5) l4]
    by (simp split: option.splits)
qed

theorem getDANode_resolves_witness:
  "getDANode demo_sdk demo_state 9 ''LD/LN.a.stVal[ST]'' = Inr (Some 5)"
proof -
  have "getServerNode demo_sdk demo_state 9 = Inr (Some 1)" by code_simp
  moreover have "list_all good_component [''a'', ''stVal''] \<and> good_component ''LD'' \<and> good_component ''LN''" by code_simp
  moreover have "resolve demo_sdk demo_state 1 ''LD'' ''LN'' [''a'', ''stVal''] ''[ST]'' = Some 5" by code_simp
  ultimately show ?thesis
    using getDANode_resolves [of demo_sdk demo_state 9 1 "''LD''" "''LN''" "[''a'', ''stVal'']" "''ST''"] by simp
qed

text \<open>
  The data set a report names is looked up under the key it was created with: for a reference without
  a dollar sign, the reference with dollar signs for points, as it comes from the IED, leads
  \<open>getDataSetNodeFromRef\<close> to the key that \<open>createDatasetNode\<close> and \<open>createPrepDatasetNode\<close> use.
\<close>

theorem dataset_key_agrees:
  assumes "CHR ''$'' \<notin> set r" and "length r + 4 < 300"
    and "getMainDatasetNode K s node = Inr (Some mainNode)"
  shows "getDataSetNodeFromRef K s node (replace_char CHR ''.'' CHR ''$'' r)
         = Inr (node_get_path K s mainNode (convertDataSetRefForNodeKey (DATASET_NODE_KEY_INIT @ r)))"
proof -
  have "replace_char CHR ''$'' CHR ''.'' (replace_char CHR ''.'' CHR ''$'' r) = r"
    using assms(1) by (auto simp: replace_char_def intro!: map_idI)
  then have "replace_char CHR ''$'' CHR ''.'' (DATASET_NODE_KEY_INIT @ replace_char CHR ''.'' CHR ''$'' r)
      = DATASET_NODE_KEY_INIT @ r"
    by (simp add: replace_char_def key_defs)
  moreover have "fit 300 (DATASET_NODE_KEY_INIT @ replace_char CHR ''.'' CHR ''$'' r)
      = Inr (DATASET_NODE_KEY_INIT @ replace_char CHR ''.'' CHR ''$'' r)"
    using assms(2) by (simp add: fit_def replace_char_def key_defs)
  ultimately show ?thesis using assms(3) by (simp add: getDataSetNodeFromRef_def convertDataSetRefForNodeKey_def)
qed

theorem dataset_key_agrees_witness:
  "getDataSetNodeFromRef demo_sdk demo_state 9 ''LD/LN$ds'' = Inr (Some 8)"
proof -
  have "getMainDatasetNode demo_sdk demo_state 9 = Inr (Some 7)" by code_simp
  moreover have "node_get_path demo_sdk demo_state 7 (convertDataSetRefForNodeKey (DATASET_NODE_KEY_INIT @ ''LD/LN.ds'')) = Some 8"
    by code_simp
  moreover have "replace_char CHR ''.'' CHR ''$'' ''LD/LN.ds'' = ''LD/LN$ds''" by code_simp
  ultimately show ?thesis
    using dataset_key_agrees [of "''LD/LN.ds''" demo_sdk demo_state 9 7] by simp
qed

end
