(* ===== verification/Client_Values.thy ===== *)
theory Client_Values
  imports Dataset_Handler
begin

text \<open>
  The values of data attributes and the control of objects, the first part of
  \<open>src/src/client_handler.c\<close>: showing an MMS value in its node, reading and writing a value, and the
  control action with its five control models.
\<close>

section \<open>Showing a value\<close>

definition string_of_bytes :: "byte list \<Rightarrow> string" where
  "string_of_bytes b = map (\<lambda>x. char_of (unat x)) (takeWhile (\<lambda>x. x \<noteq> 0) b)"

text \<open>
  The text of a bit string: a digit and a comma for every bit, then the last octet is overwritten by the NUL. The
  buffer has two octets for every bit, so that the text of no bits at all is written in front of it.
\<close>

definition bit_string_text :: "bool list \<Rightarrow> string run" where
  "bit_string_text bits =
     (if bits = [] then Inl Out_of_bounds
      else Inr (butlast (concat (map (\<lambda>b. [if b then CHR ''1'' else CHR ''0'', CHR '','']) bits))))"

lemma empty_bit_string_faults: "bit_string_text [] = Inl Out_of_bounds"
  by (simp add: bit_string_text_def)

definition shown_value :: "MmsValue \<Rightarrow> json option run" where
  "shown_value mmsVal =
     (case mmsVal of
        V_integer i \<Rightarrow> Inr (Some (J_int i))
      | V_unsigned i \<Rightarrow> Inr (Some (J_int i))
      | V_boolean b \<Rightarrow> Inr (Some (J_bool b))
      | V_visible_string t \<Rightarrow> Inr (Some (json_string t))
      | V_string t \<Rightarrow> Inr (Some (json_string t))
      | V_utc_time ms \<Rightarrow>
          rbind (getUtcTimeString ms (replicate 25 0)) (\<lambda>buf. Inr (Some (J_string (string_of_bytes buf))))
      | V_bit_string bits \<Rightarrow> rbind (bit_string_text bits) (\<lambda>t. Inr (Some (J_string t)))
      | V_float r \<Rightarrow> Inr (Some (J_real r))
      | V_other t \<Rightarrow> Inr None)"

definition setValueNodeFromMMS :: "('s, 'n, 'c, 'r) sdk \<Rightarrow> 'n \<Rightarrow> MmsValue option \<Rightarrow> 's \<Rightarrow> 's run" where
  "setValueNodeFromMMS K valNode mmsVal s =
     (case mmsVal of
        None \<Rightarrow> Inl Null_pointer
      | Some v \<Rightarrow> rbind (shown_value v) (\<lambda>j. Inr (case j of
            None \<Rightarrow> s | Some x \<Rightarrow> fst (node_set_value K s valNode x))))"


section \<open>Reading and writing\<close>

text \<open>The nodes \<open>FC\<close> and \<open>Object\<close> below the node of a data attribute.\<close>

definition fc_and_ref ::
    "('s, 'n, 'c, 'r) sdk \<Rightarrow> 's \<Rightarrow> 'n \<Rightarrow> (FunctionalConstraint \<times> string option) option run" where
  "fc_and_ref K s daNode =
     (case node_child K s daNode ''FC'' of
        None \<Rightarrow> Inr None
      | Some fcNode \<Rightarrow> (case node_child K s daNode DA_OBJECT_REF_NODE_KEY of
            None \<Rightarrow> Inr None
          | Some refNode \<Rightarrow> (case node_string K s fcNode of
                None \<Rightarrow> Inl Null_pointer
              | Some t \<Rightarrow> Inr (Some (FunctionalConstraint_fromString t, node_string K s refNode)))))"

definition nodeValueRead ::
    "('s, 'n, 'c, 'r) sdk \<Rightarrow> ('s, 'n, 'c, 'r) ied \<Rightarrow> 'n option \<Rightarrow> 's \<Rightarrow> 's run" where
  "nodeValueRead K I node0 s =
     (case node0 of
        None \<Rightarrow> Inr s
      | Some node \<Rightarrow>
          rbind (parent_of K s node) (\<lambda>daNode.
          rbind (fc_and_ref K s daNode) (\<lambda>r. case r of
            None \<Rightarrow> Inr s
          | Some (currFc, currObjRef) \<Rightarrow>
              rbind (getServerIedConnection K s node) (\<lambda>con. case con of
                None \<Rightarrow> Inr s
              | Some c \<Rightarrow>
                  (case ied_read I s c currObjRef currFc of
                     (s1, None) \<Rightarrow> Inr s1
                   | (s1, Some v) \<Rightarrow> setValueNodeFromMMS K node (Some v) s1)))))"

definition daValueReadAction ::
    "('s, 'n, 'c, 'r) sdk \<Rightarrow> ('s, 'n, 'c, 'r) ied \<Rightarrow> 'n \<Rightarrow> 's \<Rightarrow> 's run" where
  "daValueReadAction K I node s = nodeValueRead K I (node_parent K s node) s"

text \<open>
  The value that is written to a variable of a type, \<open>None\<close> when nothing is written. A number is
  converted to a 32 bit integer, undefined when it does not fit; \<open>p_float\<close> is the number rounded
  to a \<open>float\<close>. The buffer that \<open>parseBitString\<close> fills is not handed back to the caller, who would read
  the bits through its own uninitialised pointer.
\<close>

definition written_value :: "MmsType \<Rightarrow> action_params \<Rightarrow> MmsValue option run" where
  "written_value t params =
     (let key = DA_VALUE_REF_NODE_KEY
      in case t of
           MMS_INTEGER \<Rightarrow>
             (let v = p_number params key
              in if - (2 ^ 31) \<le> v \<and> v < 2 ^ 31 then Inr (Some (V_integer v)) else Inl Undefined_operation)
         | MMS_UNSIGNED \<Rightarrow>
             (let v = p_number params key
              in if 0 \<le> v \<and> v < 2 ^ 32 then Inr (Some (V_unsigned v)) else Inl Undefined_operation)
         | MMS_BOOLEAN \<Rightarrow> Inr (Some (V_boolean (p_bool params key)))
         | MMS_VISIBLE_STRING \<Rightarrow> Inr (Some (V_visible_string (p_string params key)))
         | MMS_STRING \<Rightarrow> Inr (Some (V_string (p_string params key)))
         | MMS_UTC_TIME \<Rightarrow>
             (case p_string params key of
                None \<Rightarrow> Inl Null_pointer
              | Some strValue \<Rightarrow> rbind (parseIso8601 (text_of strValue)) (\<lambda>msTime.
                    Inr (if msTime \<noteq> 0 then Some (V_utc_time msTime) else None)))
         | MMS_BIT_STRING \<Rightarrow>
             (case p_string params key of
                None \<Rightarrow> Inl Null_pointer
              | Some strValue \<Rightarrow> rbind (parseBitString strValue) (\<lambda>bitStrSize.
                    if bitStrSize \<noteq> 0 then Inl Uninitialised else Inr None))
         | MMS_FLOAT \<Rightarrow> Inr (Some (V_float (p_float params key)))
         | _ \<Rightarrow> Inr None)"

definition daValueWriteAction ::
    "('s, 'n, 'c, 'r) sdk \<Rightarrow> ('s, 'n, 'c, 'r) ied \<Rightarrow> 'n \<Rightarrow> action_params \<Rightarrow> 's \<Rightarrow> 's run" where
  "daValueWriteAction K I node params s =
     rbind (parent_of K s node) (\<lambda>valueNode.
     rbind (parent_of K s valueNode) (\<lambda>daNode.
     rbind (fc_and_ref K s daNode) (\<lambda>r. case r of
       None \<Rightarrow> Inr s
     | Some (currFc, currObjRef) \<Rightarrow>
         rbind (getServerIedConnection K s node) (\<lambda>con. case con of
           None \<Rightarrow> Inr s
         | Some c \<Rightarrow>
             (case ied_var_type I s c currObjRef currFc of
                (s1, None) \<Rightarrow> Inr s1
              | (s1, Some currMmsType) \<Rightarrow>
                  rbind (written_value currMmsType params) (\<lambda>value.
                    nodeValueRead K I (Some valueNode)
                      (case value of
                         None \<Rightarrow> s1
                       | Some v \<Rightarrow> fst (ied_write I s1 c currObjRef currFc v))))))))"


lemma text_of_string_of_bytes:
  assumes "begins b (t @ [0])" and "0 \<notin> set t"
  shows "text_of (string_of_bytes b) = t @ [0]"
proof -
  have "takeWhile (\<lambda>x. x \<noteq> 0) b = t" using assms by (auto simp: begins_def takeWhile_append)
  moreover have "(of_char (char_of (unat x)) :: byte) = x" for x :: byte
  proof -
    have "(of_char (char_of (unat x)) :: byte) = of_nat (of_char (char_of (unat x)))" by (simp only: of_nat_of_char)
    also have "\<dots> = of_nat (unat x mod 256)" by (simp only: of_char_of)
    also have "unat x mod 256 = unat x"
    proof -
      have "unat x < 2 ^ LENGTH(8)" by (rule unsigned_less)
      then show ?thesis by simp
    qed
    finally show ?thesis by simp
  qed
  ultimately show ?thesis by (simp add: text_of_def string_of_bytes_def comp_def)
qed

lemma bit_string_text_last:
  assumes "bits \<noteq> []"
  shows "\<exists>t. bit_string_text bits = Inr t \<and> last t \<noteq> CHR '',''"
proof -
  obtain bs b where "bits = bs @ [b]" using assms by (metis rev_exhaust)
  then show ?thesis by (simp add: bit_string_text_def butlast_append)
qed

text \<open>
  C37: what a value node shows can be written back for times but not for bit strings: a time up to the
  year 9999 (other than the start of 1970, which the parser cannot tell from a failure) is shown as a text whose writing
  gives the same time, while the text of a bit string, whatever its bits, is refused by the write action.
\<close>

theorem shown_text_written_back:
  assumes "uint ms < 253402300800000" and "ms \<noteq> 0" and "bits \<noteq> []"
  shows "(\<exists>t. shown_value (V_utc_time ms) = Inr (Some (J_string t))
             \<and> written_value MMS_UTC_TIME (params\<lparr>p_string := \<lambda>key. Some t\<rparr>) = Inr (Some (V_utc_time ms)))
    \<and> (\<exists>t. shown_value (V_bit_string bits) = Inr (Some (J_string t))
             \<and> written_value MMS_BIT_STRING (params\<lparr>p_string := \<lambda>key. Some t\<rparr>) = Inr None)"
proof
  obtain b' where b': "getUtcTimeString ms (replicate 25 0) = Inr b'" "begins b' (utc_text (uint ms) @ [0])"
    using getUtcTimeString_text [OF assms(1), of "replicate 25 0"] by auto
  have "0 \<notin> set (utc_text (uint ms))" using utc_text_parsed [OF assms(1) b'(2)] by simp
  then have "text_of (string_of_bytes b') = utc_text (uint ms) @ [0]"
    by (rule text_of_string_of_bytes [OF b'(2)])
  moreover have "parseIso8601 (utc_text (uint ms) @ [0]) = Inr ms"
    using utc_text_parsed [OF assms(1)] by (simp add: begins_def)
  ultimately have "written_value MMS_UTC_TIME (params\<lparr>p_string := \<lambda>key. Some (string_of_bytes b')\<rparr>)
      = Inr (Some (V_utc_time ms))"
    using assms(2) by (simp add: written_value_def)
  then show "\<exists>t. shown_value (V_utc_time ms) = Inr (Some (J_string t))
      \<and> written_value MMS_UTC_TIME (params\<lparr>p_string := \<lambda>key. Some t\<rparr>) = Inr (Some (V_utc_time ms))"
    using b'(1) by (simp add: shown_value_def)
next
  obtain t where t: "bit_string_text bits = Inr t" "last t \<noteq> CHR '',''"
    using bit_string_text_last [OF assms(3)] by blast
  with parseBitString_result [of t] have "parseBitString t = Inr 0" by auto
  then show "\<exists>t. shown_value (V_bit_string bits) = Inr (Some (J_string t))
      \<and> written_value MMS_BIT_STRING (params\<lparr>p_string := \<lambda>key. Some t\<rparr>) = Inr None"
    using t(1) by (simp add: shown_value_def written_value_def)
qed

theorem shown_text_written_back_witness:
  "\<exists>t. shown_value (V_bit_string [True, False]) = Inr (Some (J_string t))
     \<and> written_value MMS_BIT_STRING
         \<lparr>p_string = \<lambda>key. Some t, p_int = \<lambda>key. 0, p_bool = \<lambda>key. False, p_number = \<lambda>key. 0, p_float = \<lambda>key. 0\<rparr> = Inr None"
  using shown_text_written_back [of 1475582400123 "[True, False]"
      "\<lparr>p_string = \<lambda>key. None, p_int = \<lambda>key. 0, p_bool = \<lambda>key. False, p_number = \<lambda>key. 0, p_float = \<lambda>key. 0\<rparr>"]
  by simp

section \<open>Control\<close>

datatype ControlModel =
    CONTROL_MODEL_STATUS_ONLY | CONTROL_MODEL_DIRECT_NORMAL | CONTROL_MODEL_SBO_NORMAL
  | CONTROL_MODEL_DIRECT_ENHANCED | CONTROL_MODEL_SBO_ENHANCED | CONTROL_MODEL_OTHER

text \<open>The operations of the control client; creating a control object asks the IED and may fail.\<close>

record ('s, 'c, 'k) control_ops =
  control_create :: "'s \<Rightarrow> 'c \<Rightarrow> string option \<Rightarrow> 's \<times> 'k option"
  getControlModel :: "'s \<Rightarrow> 'k \<Rightarrow> ControlModel"
  control_setOrigin :: "'s \<Rightarrow> 'k \<Rightarrow> int \<Rightarrow> 's"
  control_setHandler :: "'s \<Rightarrow> 'k \<Rightarrow> 's"
  control_select :: "'s \<Rightarrow> 'k \<Rightarrow> 's \<times> bool"
  control_selectWithValue :: "'s \<Rightarrow> 'k \<Rightarrow> MmsValue \<Rightarrow> 's \<times> bool"
  control_operate :: "'s \<Rightarrow> 'k \<Rightarrow> MmsValue \<Rightarrow> 's \<times> bool"
  control_destroy :: "'s \<Rightarrow> 'k \<Rightarrow> 's"
  Thread_sleep :: "'s \<Rightarrow> nat \<Rightarrow> 's"

text \<open>The exchange with the IED for one control action, by control model.\<close>

definition control_exchange :: "('s, 'c, 'k) control_ops \<Rightarrow> 'k \<Rightarrow> MmsValue \<Rightarrow> 's \<Rightarrow> 's" where
  "control_exchange C control ctlVal s =
     (if getControlModel C s control = CONTROL_MODEL_DIRECT_NORMAL then
        fst (control_operate C (control_setOrigin C s control 3) control ctlVal)
      else if getControlModel C s control = CONTROL_MODEL_SBO_NORMAL then
        (case control_select C s control of
           (s1, True) \<Rightarrow> fst (control_operate C s1 control ctlVal)
         | (s1, False) \<Rightarrow> s1)
      else if getControlModel C s control = CONTROL_MODEL_DIRECT_ENHANCED then
        Thread_sleep C (fst (control_operate C (control_setHandler C s control) control ctlVal)) 1000
      else if getControlModel C s control = CONTROL_MODEL_SBO_ENHANCED then
        Thread_sleep C
          (case control_selectWithValue C (control_setHandler C s control) control ctlVal of
             (s1, True) \<Rightarrow> fst (control_operate C s1 control ctlVal)
           | (s1, False) \<Rightarrow> s1) 1000
      else s)"

definition setControlStVal :: "('s, 'n, 'c, 'r) sdk \<Rightarrow> ('s, 'n, 'c, 'r) ied \<Rightarrow> 'n \<Rightarrow> 's \<Rightarrow> 's run" where
  "setControlStVal K I node s =
     (case node_child K s node ''stVal[ST]'' of
        None \<Rightarrow> Inr s
      | Some stVal \<Rightarrow> (case node_child K s stVal DA_VALUE_REF_NODE_KEY of
            None \<Rightarrow> Inr s
          | Some valueNode \<Rightarrow> nodeValueRead K I (Some valueNode) s))"

definition control_value :: "string \<Rightarrow> action_params \<Rightarrow> MmsValue option" where
  "control_value mmsTypeStr params =
     (if isMmsTypeFromString mmsTypeStr MMS_BOOLEAN then Some (V_boolean (p_bool params DA_VALUE_REF_NODE_KEY))
      else if isMmsTypeFromString mmsTypeStr MMS_INTEGER
           then Some (V_integer (i32 (p_int params DA_VALUE_REF_NODE_KEY)))
      else None)"

text \<open>For a type that is not handled the action ends without destroying the control object.\<close>

definition controlAction ::
    "('s, 'n, 'c, 'r) sdk \<Rightarrow> ('s, 'n, 'c, 'r) ied \<Rightarrow> ('s, 'c, 'k) control_ops \<Rightarrow> 'n \<Rightarrow> action_params \<Rightarrow> 's \<Rightarrow> 's run" where
  "controlAction K I C node params s =
     rbind (parent_of K s node) (\<lambda>doNode.
       case node_child K s doNode DA_OBJECT_REF_NODE_KEY of
         None \<Rightarrow> Inr s
       | Some refNode \<Rightarrow> (case node_child K s doNode ''stVal[ST]'' of
           None \<Rightarrow> Inr s
         | Some stVal \<Rightarrow> (case node_child K s stVal ''MMS Type'' of
             None \<Rightarrow> Inr s
           | Some typeNode \<Rightarrow>
               rbind (getServerIedConnection K s node) (\<lambda>con. case con of
                 None \<Rightarrow> Inr s
               | Some c \<Rightarrow>
                   (let (s1, control) = control_create C s c (node_string K s refNode)
                    in case node_string K s typeNode of
                         None \<Rightarrow> Inl Null_pointer
                       | Some mmsTypeStr \<Rightarrow> (case control_value mmsTypeStr params of
                             None \<Rightarrow> Inr s1
                           | Some ctlVal \<Rightarrow> (case control of
                                 None \<Rightarrow> Inl Null_pointer
                               | Some k \<Rightarrow>
                                   rbind (setControlStVal K I doNode (control_exchange C k ctlVal s1)) (\<lambda>s2.
                                     Inr (control_destroy C s2 k)))))))))"


section \<open>What the IED sees of a control action\<close>

datatype control_event =
    Ev_origin int | Ev_handler | Ev_select bool | Ev_selectWithValue MmsValue bool | Ev_operate MmsValue bool
  | Ev_sleep nat | Ev_destroy

text \<open>The control client with a record of its calls and their results.\<close>

definition log_call :: "control_event \<Rightarrow> 's \<Rightarrow> control_event list \<Rightarrow> 's \<times> control_event list" where
  "log_call e s l = (s, l @ [e])"

definition logged :: "('s, 'c, 'k) control_ops \<Rightarrow> ('s \<times> control_event list, 'c, 'k) control_ops" where
  "logged C =
     \<lparr>control_create = (\<lambda>(s, l) c r. (let (s', k) = control_create C s c r in ((s', l), k))),
      getControlModel = (\<lambda>(s, l). getControlModel C s),
      control_setOrigin = (\<lambda>(s, l) k n. log_call (Ev_origin n) (control_setOrigin C s k n) l),
      control_setHandler = (\<lambda>(s, l) k. log_call Ev_handler (control_setHandler C s k) l),
      control_select = (\<lambda>(s, l) k. (let (s', r) = control_select C s k in (log_call (Ev_select r) s' l, r))),
      control_selectWithValue = (\<lambda>(s, l) k v.
         (let (s', r) = control_selectWithValue C s k v in (log_call (Ev_selectWithValue v r) s' l, r))),
      control_operate = (\<lambda>(s, l) k v. (let (s', r) = control_operate C s k v in (log_call (Ev_operate v r) s' l, r))),
      control_destroy = (\<lambda>(s, l) k. log_call Ev_destroy (control_destroy C s k) l),
      Thread_sleep = (\<lambda>(s, l) n. log_call (Ev_sleep n) (Thread_sleep C s n) l)\<rparr>"

lemmas control_log_simps = control_exchange_def logged_def log_call_def

fun is_operate :: "control_event \<Rightarrow> bool" where
  "is_operate (Ev_operate v r) = True"
| "is_operate _ = False"

lemma exchange_log:
  "\<exists>r q. snd (control_exchange (logged C) k v (s, [])) =
     (case getControlModel C s k of
        CONTROL_MODEL_DIRECT_NORMAL \<Rightarrow> [Ev_origin 3, Ev_operate v r]
      | CONTROL_MODEL_SBO_NORMAL \<Rightarrow> (if q then [Ev_select True, Ev_operate v r] else [Ev_select False])
      | CONTROL_MODEL_DIRECT_ENHANCED \<Rightarrow> [Ev_handler, Ev_operate v r, Ev_sleep 1000]
      | CONTROL_MODEL_SBO_ENHANCED \<Rightarrow>
          (if q then [Ev_handler, Ev_selectWithValue v True, Ev_operate v r, Ev_sleep 1000]
           else [Ev_handler, Ev_selectWithValue v False, Ev_sleep 1000])
      | _ \<Rightarrow> [])"
proof (cases "getControlModel C s k")
  case CONTROL_MODEL_SBO_NORMAL
  obtain s1 q where q: "control_select C s k = (s1, q)" by fastforce
  obtain s2 r where r: "control_operate C s1 k v = (s2, r)" by fastforce
  show ?thesis
    by (rule exI [of _ r], rule exI [of _ q]) (simp add: CONTROL_MODEL_SBO_NORMAL control_log_simps q r split: bool.split)
next
  case CONTROL_MODEL_SBO_ENHANCED
  obtain s1 q where q: "control_selectWithValue C (control_setHandler C s k) k v = (s1, q)" by fastforce
  obtain s2 r where r: "control_operate C s1 k v = (s2, r)" by fastforce
  show ?thesis
    by (rule exI [of _ r], rule exI [of _ q]) (simp add: CONTROL_MODEL_SBO_ENHANCED control_log_simps q r split: bool.split)
qed (auto simp: control_log_simps split: prod.splits)

text \<open>
  C16: a control action operates at most once, with the value of the action, and only when the control model
  allows it: never for a status-only or unknown model; for the two models with selection only directly after
  a selection that the IED has granted, with the same value in the enhanced model; and
  for the two enhanced models only after the handler of the command termination is installed.
\<close>

theorem control_selects_first:
  assumes "snd (control_exchange (logged C) k v (s, [])) = before @ Ev_operate w r # behind"
  shows "w = v \<and> list_all (\<lambda>e. \<not> is_operate e) (before @ behind)
    \<and> getControlModel C s k \<notin> {CONTROL_MODEL_STATUS_ONLY, CONTROL_MODEL_OTHER}
    \<and> (getControlModel C s k = CONTROL_MODEL_SBO_NORMAL \<longrightarrow> before = [Ev_select True])
    \<and> (getControlModel C s k = CONTROL_MODEL_SBO_ENHANCED \<longrightarrow> before = [Ev_handler, Ev_selectWithValue v True])
    \<and> (getControlModel C s k = CONTROL_MODEL_DIRECT_ENHANCED \<longrightarrow> before = [Ev_handler])"
proof -
  obtain r' q where "before @ Ev_operate w r # behind =
     (case getControlModel C s k of
        CONTROL_MODEL_DIRECT_NORMAL \<Rightarrow> [Ev_origin 3, Ev_operate v r']
      | CONTROL_MODEL_SBO_NORMAL \<Rightarrow> (if q then [Ev_select True, Ev_operate v r'] else [Ev_select False])
      | CONTROL_MODEL_DIRECT_ENHANCED \<Rightarrow> [Ev_handler, Ev_operate v r', Ev_sleep 1000]
      | CONTROL_MODEL_SBO_ENHANCED \<Rightarrow>
          (if q then [Ev_handler, Ev_selectWithValue v True, Ev_operate v r', Ev_sleep 1000]
           else [Ev_handler, Ev_selectWithValue v False, Ev_sleep 1000])
      | _ \<Rightarrow> [])"
    using exchange_log [of C k v s] assms by metis
  then show ?thesis
    by (cases "getControlModel C s k") (auto simp: append_eq_Cons_conv Cons_eq_append_conv split: if_splits)
qed

definition demo_control :: "(unit, nat, nat) control_ops" where
  "demo_control =
     \<lparr>control_create = (\<lambda>s c r. (s, Some 0)), getControlModel = (\<lambda>s k. CONTROL_MODEL_SBO_NORMAL),
      control_setOrigin = (\<lambda>s k n. s), control_setHandler = (\<lambda>s k. s), control_select = (\<lambda>s k. (s, True)),
      control_selectWithValue = (\<lambda>s k v. (s, True)), control_operate = (\<lambda>s k v. (s, True)),
      control_destroy = (\<lambda>s k. s), Thread_sleep = (\<lambda>s n. s)\<rparr>"

theorem control_selects_first_witness:
  "snd (control_exchange (logged demo_control) 0 (V_boolean True) ((), []))
     = [Ev_select True] @ Ev_operate (V_boolean True) True # []
   \<and> getControlModel demo_control () 0 \<notin> {CONTROL_MODEL_STATUS_ONLY, CONTROL_MODEL_OTHER}"
proof -
  have log: "snd (control_exchange (logged demo_control) 0 (V_boolean True) ((), []))
     = [Ev_select True] @ Ev_operate (V_boolean True) True # []"
    by (simp add: control_log_simps demo_control_def)
  from control_selects_first [OF this] log show ?thesis by blast
qed

end
