(* ===== verification/Report_Handler.thy ===== *)
theory Report_Handler
  imports Dataset_Handler
begin

text \<open>
  The report control blocks (RCBs) of the link, \<open>src/src/report_handler.c\<close>: their nodes, the texts of their
  option fields, and the actions that read and set them.
\<close>

unbundle bit_operations_syntax

section \<open>References and keys\<close>

text \<open>
  The four conversions replace the first occurrence of a character until there is none: a loop that ends when the
  two characters differ.
\<close>

function replace_loop :: "char \<Rightarrow> char \<Rightarrow> string \<Rightarrow> string option" where
  "replace_loop a b t =
     (case split_at a t of
        None \<Rightarrow> Some t
      | Some (x, y) \<Rightarrow> if a = b then None else replace_loop a b (x @ b # y))"
  by pat_completeness auto
termination
  by (relation "measure (\<lambda>(a, b, t). count_list t a)") (auto dest: split_at_Some)

declare replace_loop.simps [simp del]

definition convertRefToNodeKeyString :: "string \<Rightarrow> string option" where
  "convertRefToNodeKeyString rcbRef = replace_loop CHR ''/'' CHR ''$'' rcbRef"

definition convertNodeKeyToRefString :: "string \<Rightarrow> string option" where
  "convertNodeKeyToRefString rcbRef = replace_loop CHR ''$'' CHR ''/'' rcbRef"

definition convertDataSetRef :: "string \<Rightarrow> string option" where
  "convertDataSetRef dataSetRef = replace_loop CHR ''.'' CHR ''$'' dataSetRef"

definition convertDataSetRefToNormal :: "string \<Rightarrow> string option" where
  "convertDataSetRefToNormal rcbDataSetRef = replace_loop CHR ''$'' CHR ''.'' rcbDataSetRef"

lemma replace_loop_char: "a \<noteq> b \<Longrightarrow> replace_loop a b t = Some (replace_char a b t)"
proof (induction a b t rule: replace_loop.induct)
  case (1 a b t)
  show ?case
  proof (cases "split_at a t")
    case None
    then have "a \<notin> set t" by (simp add: split_at_none)
    then have "replace_char a b t = t" by (auto simp: replace_char_def intro!: map_idI)
    with None show ?thesis by (simp add: replace_loop.simps [of a])
  next
    case (Some xy)
    obtain x y where xy: "xy = (x, y)" by fastforce
    with Some have t: "t = x @ a # y" "a \<notin> set x" by (auto dest: split_at_Some)
    have "replace_char a b (x @ b # y) = replace_char a b t"
      using 1(2) by (simp add: replace_char_def t(1))
    with 1 Some xy show ?thesis by (simp add: replace_loop.simps [of a _ t])
  qed
qed

lemma replace_char_inverse: "b \<notin> set t \<Longrightarrow> replace_char b a (replace_char a b t) = t"
  by (auto simp: replace_char_def intro!: map_idI)


section \<open>Option fields as text\<close>

definition MAX_OPT_FLDS_STR_LEN :: nat where "MAX_OPT_FLDS_STR_LEN = 160"
definition MAX_TRG_OPS_STR_LEN :: nat where "MAX_TRG_OPS_STR_LEN = 100"

text \<open>Appending the names of the bits that are set, each with a comma.\<close>

fun append_names :: "nat \<Rightarrow> u32 \<Rightarrow> (u32 \<times> string) list \<Rightarrow> string \<Rightarrow> string run" where
  "append_names cap flags [] acc = Inr acc"
| "append_names cap flags ((m, name0) # ns) acc =
     (if flags AND m \<noteq> 0 then rbind (fit cap (acc @ name0 @ '','')) (append_names cap flags ns)
      else append_names cap flags ns acc)"

text \<open>The last character is overwritten by the NUL; in an empty text this is the one before the buffer.\<close>

definition cut_last :: "string \<Rightarrow> string run" where
  "cut_last t = (if t = [] then Inl Out_of_bounds else Inr (butlast t))"

definition RPT_OPTS :: "(u32 \<times> string) list" where
  "RPT_OPTS = [(1, ''SEQ_NUM''), (32, ''BUFFER_OVERFLOW''), (128, ''CONF_REV''), (16, ''DATA_REFERENCE''),
     (8, ''DATA_SET''), (64, ''ENTRY_ID''), (4, ''REASON_FOR_INCLUSION''), (2, ''TIME_STAMP'')]"

definition TRG_OPTS :: "(u32 \<times> string) list" where
  "TRG_OPTS = [(1, ''DATA_CHANGED''), (4, ''DATA_UPDATE''), (16, ''GI''), (8, ''INTEGRITY''), (2, ''QUALITY_CHANGED'')]"

definition getRCBOptFldsString :: "u32 \<Rightarrow> string run" where
  "getRCBOptFldsString optFlds =
     (if optFlds = 0 then Inr ''NONE''
      else rbind (append_names MAX_OPT_FLDS_STR_LEN optFlds RPT_OPTS '''') cut_last)"

definition getRCBTrgOpsString :: "u32 \<Rightarrow> string run" where
  "getRCBTrgOpsString trgOps =
     (if trgOps = 0 then Inr ''NONE''
      else rbind (append_names MAX_TRG_OPS_STR_LEN trgOps TRG_OPTS '''') cut_last)"

fun join_commas :: "string list \<Rightarrow> string" where
  "join_commas [] = []"
| "join_commas [x] = x"
| "join_commas (x # y # ys) = x @ '','' @ join_commas (y # ys)"

definition names_of :: "u32 \<Rightarrow> (u32 \<times> string) list \<Rightarrow> string list" where
  "names_of flags opts = map snd (filter (\<lambda>(m, _). flags AND m \<noteq> 0) opts)"

lemma append_names_text:
  "length acc + length (concat (map (\<lambda>(m, x). x @ '','') ns)) < cap \<Longrightarrow>
   append_names cap flags ns acc = Inr (acc @ concat (map (\<lambda>x. x @ '','') (names_of flags ns)))"
proof (induction cap flags ns acc rule: append_names.induct)
  case (1 cap flags acc)
  then show ?case by (simp add: names_of_def)
next
  case (2 cap flags m name0 ns acc)
  then show ?case by (auto simp: names_of_def fit_def)
qed

lemma commas_butlast: "xs \<noteq> [] \<Longrightarrow> butlast (concat (map (\<lambda>x. x @ '','') xs)) = join_commas xs"
proof (induction xs rule: join_commas.induct)
  case (3 x y ys)
  have "concat (map (\<lambda>x. x @ '','') (y # ys)) \<noteq> []" by simp
  with 3 show ?case by (simp add: butlast_append)
qed auto

lemma flag_text:
  assumes "length (concat (map (\<lambda>(m, x). x @ '','') opts)) < cap"
  shows "rbind (append_names cap flags opts '''') cut_last
         = (if names_of flags opts = [] then Inl Out_of_bounds else Inr (join_commas (names_of flags opts)))"
  using append_names_text [of "''''" opts cap flags] assms commas_butlast [of "names_of flags opts"]
  by (auto simp: cut_last_def)

lemma rpt_opts_fit: "length (concat (map (\<lambda>(m, x). x @ '','') RPT_OPTS)) < MAX_OPT_FLDS_STR_LEN"
  by code_simp

lemma trg_opts_fit: "length (concat (map (\<lambda>(m, x). x @ '','') TRG_OPTS)) < MAX_TRG_OPS_STR_LEN"
  by code_simp

text \<open>
  \<open>getRCBOptFldsString\<close> and \<open>getRCBTrgOpsString\<close> never overflow their buffers and list exactly the names of
  the bits that are set, separated by commas; but for a value that is not 0 and has none of the known
  bits they write before the beginning of the buffer.
\<close>

theorem option_text_names:
  "getRCBOptFldsString f = (if f = 0 then Inr ''NONE'' else if names_of f RPT_OPTS = [] then Inl Out_of_bounds
                            else Inr (join_commas (names_of f RPT_OPTS)))
   \<and> getRCBTrgOpsString f = (if f = 0 then Inr ''NONE'' else if names_of f TRG_OPTS = [] then Inl Out_of_bounds
                            else Inr (join_commas (names_of f TRG_OPTS)))"
  unfolding getRCBOptFldsString_def getRCBTrgOpsString_def flag_text [OF rpt_opts_fit] flag_text [OF trg_opts_fit]
  by simp


section \<open>Folders and lists\<close>

definition getURCBFolderNode :: "('s, 'n, 'c, 'r) sdk \<Rightarrow> 's \<Rightarrow> 'n \<Rightarrow> 'n option run" where
  "getURCBFolderNode K s node = server_folder K s node URCB_FOLDER_NODE_KEY"

definition getBRCBFolderNode :: "('s, 'n, 'c, 'r) sdk \<Rightarrow> 's \<Rightarrow> 'n \<Rightarrow> 'n option run" where
  "getBRCBFolderNode K s node = server_folder K s node BRCB_FOLDER_NODE_KEY"

text \<open>The references of the data sets, with dollar signs for points, appended to the enumeration text.\<close>

fun append_datasets :: "('s, 'n, 'c, 'r) sdk \<Rightarrow> 's \<Rightarrow> 'n list \<Rightarrow> string \<Rightarrow> string run" where
  "append_datasets K s [] acc = Inr acc"
| "append_datasets K s (c # cs) acc =
     (if starts_with DATASET_NODE_KEY_INIT (node_name K s c)
      then rbind (string_at K s c DS_OBJ_REF_NODE_KEY) (\<lambda>v. case v of
             None \<Rightarrow> Inl Null_pointer
           | Some r \<Rightarrow>
               rbind (fit 1000 (acc @ r)) (\<lambda>_. case convertDataSetRef r of
                 None \<Rightarrow> Inl Out_of_fuel
               | Some r' \<Rightarrow> rbind (fit 1000 (acc @ r' @ '','')) (append_datasets K s cs)))
      else append_datasets K s cs acc)"

definition getDataSetListEnumStrForRCB :: "('s, 'n, 'c, 'r) sdk \<Rightarrow> 's \<Rightarrow> 'n \<Rightarrow> string \<Rightarrow> (string \<times> bool) run" where
  "getDataSetListEnumStrForRCB K s node enumStr =
     rbind (getMainDatasetNode K s node) (\<lambda>r. case r of
       None \<Rightarrow> close_items 1000 enumStr []
     | Some m \<Rightarrow>
         (if filter (\<lambda>c. starts_with DATASET_NODE_KEY_INIT (node_name K s c)) (node_children K s m) = []
          then close_items 1000 enumStr []
          else rbind (append_datasets K s (node_children K s m) enumStr) (\<lambda>t. Inr (butlast t @ '']'', True))))"


section \<open>The nodes of an RCB\<close>

definition RCB_TYPE_KEY :: string where "RCB_TYPE_KEY = ''rcbtype''"
definition RCB_OBJ_REF_KEY :: string where "RCB_OBJ_REF_KEY = ''objref''"
definition RCB_RPT_ID_KEY :: string where "RCB_RPT_ID_KEY = ''rptid''"
definition RCB_RPT_ENA_KEY :: string where "RCB_RPT_ENA_KEY = ''rptena''"
definition RCB_DATASET_KEY :: string where "RCB_DATASET_KEY = ''rcbdatset''"
definition RCB_CONF_REV_KEY :: string where "RCB_CONF_REV_KEY = ''rcbconfrev''"
definition RCB_OPT_FLDS_KEY :: string where "RCB_OPT_FLDS_KEY = ''rcboptflds''"
definition RCB_BUF_TM_KEY :: string where "RCB_BUF_TM_KEY = ''rcbbuftm''"
definition RCB_TRG_OPS_KEY :: string where "RCB_TRG_OPS_KEY = ''rcbtrgops''"
definition RCB_INTG_PD_KEY :: string where "RCB_INTG_PD_KEY = ''rcbintgpd''"

definition createSubNodes ::
    "('s, 'n, 'c, 'r) sdk \<Rightarrow> 'n \<Rightarrow> string \<Rightarrow> string \<Rightarrow> string \<Rightarrow> json \<Rightarrow> 's \<Rightarrow> 's \<times> 'n option" where
  "createSubNodes K mainNode key name0 type0 v s =
     make_node K mainNode key
       [Must_meta ''$name'' (J_string name0), Must_meta ''$type'' (J_string type0), Must_value v, Must_add] s"

text \<open>Setting the value of the node below \<open>rcbNode\<close> with a given key.\<close>

definition put_value :: "('s, 'n, 'c, 'r) sdk \<Rightarrow> 'n \<Rightarrow> string \<Rightarrow> json \<Rightarrow> 's \<Rightarrow> 's run" where
  "put_value K rcbNode key v s =
     (case node_get_path K s rcbNode key of
        None \<Rightarrow> Inl Null_pointer
      | Some m \<Rightarrow> Inr (fst (node_set_value K s m v)))"

fun put_values :: "('s, 'n, 'c, 'r) sdk \<Rightarrow> 'n \<Rightarrow> (string \<times> json) list \<Rightarrow> 's \<Rightarrow> 's run" where
  "put_values K rcbNode [] s = Inr s"
| "put_values K rcbNode ((key, v) # vs) s = rbind (put_value K rcbNode key v s) (put_values K rcbNode vs)"

definition setNodeRCBValues ::
    "('s, 'n, 'c, 'r) sdk \<Rightarrow> ('s, 'n, 'c, 'r) ied \<Rightarrow> 'n \<Rightarrow> 'r \<Rightarrow> 's \<Rightarrow> 's run" where
  "setNodeRCBValues K I rcbNode rcb s =
     (let f = rcb_read I s rcb
      in rbind (put_values K rcbNode
           [(RCB_RPT_ID_KEY, json_string (f_rptId f)), (RCB_RPT_ENA_KEY, J_bool (f_rptEna f)),
            (RCB_DATASET_KEY, json_string (f_datSet f)), (RCB_CONF_REV_KEY, J_int (f_confRev f)),
            (RCB_BUF_TM_KEY, J_int (f_bufTm f)), (RCB_INTG_PD_KEY, J_int (f_intgPd f))] s) (\<lambda>s1.
         rbind (getRCBOptFldsString (f_optFlds f)) (\<lambda>optFldsStr.
         rbind (put_value K rcbNode RCB_OPT_FLDS_KEY (J_string optFldsStr) s1) (\<lambda>s2.
         rbind (getRCBTrgOpsString (f_trgOps f)) (\<lambda>trgOpsStr.
           put_value K rcbNode RCB_TRG_OPS_KEY (J_string trgOpsStr) s2)))))"


section \<open>Actions\<close>

text \<open>The block behind \<open>rcbNode->data->data\<close>.\<close>

definition rcb_of :: "('s, 'n, 'c, 'r) sdk \<Rightarrow> 's \<Rightarrow> 'n \<Rightarrow> 'r option run" where
  "rcb_of K s rcbNode =
     (case node_get_data K s rcbNode of
        None \<Rightarrow> Inl Null_pointer | Some (D_rcb r) \<Rightarrow> Inr (Some r) | Some _ \<Rightarrow> Inr None)"

definition readRCBAction :: "('s, 'n, 'c, 'r) sdk \<Rightarrow> ('s, 'n, 'c, 'r) ied \<Rightarrow> 'n \<Rightarrow> 's \<Rightarrow> 's run" where
  "readRCBAction K I node s =
     rbind (getServerIedConnection K s node) (\<lambda>con.
     rbind (parent_of K s node) (\<lambda>rcbNode.
     rbind (string_at K s rcbNode RCB_OBJ_REF_KEY) (\<lambda>rcbRef.
     rbind (rcb_of K s rcbNode) (\<lambda>rcb.
       case (con, rcbRef, rcb) of
         (Some c, Some ref, Some r) \<Rightarrow>
           (let (s1, _, error) = ied_get_rcb I s (Some c) ref (Some r)
            in if error \<noteq> 0 then Inr s1 else setNodeRCBValues K I rcbNode r s1)
       | _ \<Rightarrow> Inr s))))"

definition forceGIRCBAction :: "('s, 'n, 'c, 'r) sdk \<Rightarrow> ('s, 'n, 'c, 'r) ied \<Rightarrow> 'n \<Rightarrow> 's \<Rightarrow> 's run" where
  "forceGIRCBAction K I node s =
     rbind (getServerIedConnection K s node) (\<lambda>con.
     rbind (parent_of K s node) (\<lambda>rcbNode.
     rbind (string_at K s rcbNode RCB_OBJ_REF_KEY) (\<lambda>rcbRef.
     rbind (rcb_of K s rcbNode) (\<lambda>rcb.
       case (con, rcbRef, rcb) of
         (Some c, Some ref, Some r) \<Rightarrow> Inr (fst (ied_trigger_gi I s c ref))
       | _ \<Rightarrow> Inr s))))"

text \<open>
  The seven actions that set a field of the block have the same body: the field is set in the block, then
  shown in its node, then written to the IED (with the code of the element); when the IED refuses, the block is read again
  and shown. \<open>shown\<close> may fail because the text of a set of options may.
\<close>

definition set_rcb_field ::
    "('s, 'n, 'c, 'r) sdk \<Rightarrow> ('s, 'n, 'c, 'r) ied \<Rightarrow> 'n \<Rightarrow> (rcb_fields \<Rightarrow> rcb_fields) \<Rightarrow> string \<Rightarrow> json run \<Rightarrow> int
     \<Rightarrow> 's \<Rightarrow> 's run" where
  "set_rcb_field K I node upd key shown element s =
     rbind (getServerIedConnection K s node) (\<lambda>con.
     rbind (parent_of K s node) (\<lambda>p.
     rbind (parent_of K s p) (\<lambda>rcbNode.
     rbind (string_at K s rcbNode RCB_OBJ_REF_KEY) (\<lambda>rcbRef.
     rbind (rcb_of K s rcbNode) (\<lambda>rcb.
       case (con, rcbRef, rcb) of
         (Some c, Some ref, Some r) \<Rightarrow>
           (let s1 = rcb_write I s r (upd (rcb_read I s r))
            in rbind shown (\<lambda>v.
               rbind (put_value K rcbNode key v s1) (\<lambda>s2.
                 let (s3, error) = ied_set_rcb I s2 c r element
                 in if error = 0 then Inr s3
                    else (let (s4, _, _) = ied_get_rcb I s3 (Some c) ref (Some r)
                          in setNodeRCBValues K I rcbNode r s4))))
       | _ \<Rightarrow> Inr s)))))"

definition setRptEnaAction :: "('s, 'n, 'c, 'r) sdk \<Rightarrow> ('s, 'n, 'c, 'r) ied \<Rightarrow> 'n \<Rightarrow> action_params \<Rightarrow> 's \<Rightarrow> 's run" where
  "setRptEnaAction K I node params s =
     (let v = p_bool params DA_VALUE_REF_NODE_KEY
      in set_rcb_field K I node (\<lambda>f. f\<lparr>f_rptEna := v\<rparr>) RCB_RPT_ENA_KEY (Inr (J_bool v)) 2 s)"

definition setRptIdAction :: "('s, 'n, 'c, 'r) sdk \<Rightarrow> ('s, 'n, 'c, 'r) ied \<Rightarrow> 'n \<Rightarrow> action_params \<Rightarrow> 's \<Rightarrow> 's run" where
  "setRptIdAction K I node params s =
     (let v = p_string params DA_VALUE_REF_NODE_KEY
      in set_rcb_field K I node (\<lambda>f. f\<lparr>f_rptId := v\<rparr>) RCB_RPT_ID_KEY (Inr (json_string v)) 1 s)"

definition setDatSetAction :: "('s, 'n, 'c, 'r) sdk \<Rightarrow> ('s, 'n, 'c, 'r) ied \<Rightarrow> 'n \<Rightarrow> action_params \<Rightarrow> 's \<Rightarrow> 's run" where
  "setDatSetAction K I node params s =
     (let v = p_string params DA_VALUE_REF_NODE_KEY
      in set_rcb_field K I node (\<lambda>f. f\<lparr>f_datSet := v\<rparr>) RCB_DATASET_KEY (Inr (json_string v)) 8 s)"

text \<open>The number is converted to \<open>uint32_t\<close>.\<close>

definition setBufTmAction :: "('s, 'n, 'c, 'r) sdk \<Rightarrow> ('s, 'n, 'c, 'r) ied \<Rightarrow> 'n \<Rightarrow> action_params \<Rightarrow> 's \<Rightarrow> 's run" where
  "setBufTmAction K I node params s =
     (let v = p_int params DA_VALUE_REF_NODE_KEY mod 2 ^ 32
      in set_rcb_field K I node (\<lambda>f. f\<lparr>f_bufTm := v\<rparr>) RCB_BUF_TM_KEY (Inr (J_int v)) 64 s)"

definition setIntgPdAction :: "('s, 'n, 'c, 'r) sdk \<Rightarrow> ('s, 'n, 'c, 'r) ied \<Rightarrow> 'n \<Rightarrow> action_params \<Rightarrow> 's \<Rightarrow> 's run" where
  "setIntgPdAction K I node params s =
     (let v = p_int params DA_VALUE_REF_NODE_KEY mod 2 ^ 32
      in set_rcb_field K I node (\<lambda>f. f\<lparr>f_intgPd := v\<rparr>) RCB_INTG_PD_KEY (Inr (J_int v)) 512 s)"

text \<open>The option bits of the parameters that are true.\<close>

fun collect_bits :: "(string \<Rightarrow> bool) \<Rightarrow> (u32 \<times> string) list \<Rightarrow> u32 \<Rightarrow> u32" where
  "collect_bits chosen [] acc = acc"
| "collect_bits chosen ((m, name0) # ns) acc =
     collect_bits chosen ns (if chosen name0 then acc OR m else acc)"

definition optFlds_of :: "action_params \<Rightarrow> u32" where
  "optFlds_of params =
     collect_bits (p_bool params)
       [(1, ''SEQ_NUM''), (2, ''TIME_STAMP''), (4, ''REASON_FOR_INCLUSION''), (64, ''ENTRY_ID''), (8, ''DATA_SET''),
        (32, ''BUFFER_OVERFLOW''), (128, ''CONF_REV''), (16, ''DATA_REFERENCE'')] 0"

definition trgOps_of :: "action_params \<Rightarrow> u32" where
  "trgOps_of params =
     collect_bits (p_bool params)
       [(2, ''QUALITY_CHANGED''), (8, ''INTEGRITY''), (16, ''GI''), (4, ''DATA_UPDATE''), (1, ''DATA_CHANGED'')] 0"

definition json_text :: "string run \<Rightarrow> json run" where
  "json_text r = rbind r (\<lambda>t. Inr (J_string t))"

definition setOptFldsAction :: "('s, 'n, 'c, 'r) sdk \<Rightarrow> ('s, 'n, 'c, 'r) ied \<Rightarrow> 'n \<Rightarrow> action_params \<Rightarrow> 's \<Rightarrow> 's run" where
  "setOptFldsAction K I node params s =
     (let v = optFlds_of params
      in set_rcb_field K I node (\<lambda>f. f\<lparr>f_optFlds := v\<rparr>) RCB_OPT_FLDS_KEY (json_text (getRCBOptFldsString v)) 32 s)"

definition setTrgOpsAction :: "('s, 'n, 'c, 'r) sdk \<Rightarrow> ('s, 'n, 'c, 'r) ied \<Rightarrow> 'n \<Rightarrow> action_params \<Rightarrow> 's \<Rightarrow> 's run" where
  "setTrgOpsAction K I node params s =
     (let v = trgOps_of params
      in set_rcb_field K I node (\<lambda>f. f\<lparr>f_trgOps := v\<rparr>) RCB_TRG_OPS_KEY (json_text (getRCBTrgOpsString v)) 256 s)"

definition param_row :: "string \<Rightarrow> string \<Rightarrow> json" where
  "param_row name0 type0 = J_object [(''name'', J_string name0), (''type'', J_string type0)]"

definition rcbDatSetNodeOpenAction :: "('s, 'n, 'c, 'r) sdk \<Rightarrow> 'n \<Rightarrow> 's \<Rightarrow> 's run" where
  "rcbDatSetNodeOpenAction K node s =
     rbind (getDataSetListEnumStrForRCB K s node ''enum['') (\<lambda>(enumStr, _).
       case node_get_path K s node ''set'' of
         None \<Rightarrow> Inr s
       | Some setNode \<Rightarrow>
           Inr (fst (node_set_meta K s setNode ''$params'' (J_array [param_row DA_VALUE_REF_NODE_KEY enumStr]))))"


section \<open>Creating the nodes of an RCB\<close>

text \<open>
  A field of the block that can be set: its node and, below it, the action node \<open>set\<close>. Failures are
  logged and the creation goes on with the next field; \<open>extra\<close> is a further callback of the field node.
\<close>

definition field_with_set ::
    "('s, 'n, 'c, 'r) sdk \<Rightarrow> 'n \<Rightarrow> string \<Rightarrow> string \<Rightarrow> string \<Rightarrow> json \<Rightarrow> callback list \<Rightarrow> callback \<Rightarrow> json list \<Rightarrow> 's \<Rightarrow> 's" where
  "field_with_set K rcbNode key name0 type0 v extra cb rows s =
     (case createSubNodes K rcbNode key name0 type0 v s of
        (s1, None) \<Rightarrow> s1
      | (s1, Some fieldNode) \<Rightarrow>
          (case node_create K s1 (Some fieldNode) ''set'' of
             (s2, None) \<Rightarrow> s2
           | (s2, Some setNode) \<Rightarrow>
               (let s3 = foldl (\<lambda>t e. node_set_callback K t fieldNode e) s2 extra
                in fst (run_steps K setNode
                     [Install cb, Try_meta ''$name'' (J_string ''Set''), Try_meta ''$invokable'' (J_string ''read''),
                      Try_meta ''$params'' (J_array rows), Must_add] s3))))"

definition getRCBInfoAndCreateNode ::
    "('s, 'n, 'c, 'r) sdk \<Rightarrow> ('s, 'n, 'c, 'r) ied \<Rightarrow> 'n \<Rightarrow> 'c option \<Rightarrow> string \<Rightarrow> bool \<Rightarrow> 's \<Rightarrow> ('s \<times> 'n option) run" where
  "getRCBInfoAndCreateNode K I currNode con rcbRef isBuffered s =
     (let typeString = (if isBuffered then ''Buffered report control block (BRCB)''
                        else ''Unbuffered report control block (URCB)'');
          init = (if isBuffered then BRCB_NODE_KEY_INIT else URCB_NODE_KEY_INIT)
      in rbind (if isBuffered then getBRCBFolderNode K s currNode else getURCBFolderNode K s currNode) (\<lambda>folder.
         rbind (fit 200 (init @ rcbRef)) (\<lambda>k.
           case convertRefToNodeKeyString k of
             None \<Rightarrow> Inl Out_of_fuel
           | Some rcbNodeKey \<Rightarrow>
               (let (s1, rcb, error) = ied_get_rcb I s con rcbRef None
                in case folder of
                     None \<Rightarrow> Inr (s1, None)
                   | Some rcbMainFolderNode \<Rightarrow>
                       if error \<noteq> 0 then Inr (s1, None)
                       else (case make_node K rcbMainFolderNode rcbNodeKey
                                    [Must_meta ''$name'' (J_string rcbRef), Must_add] s1 of
                         (s2, None) \<Rightarrow> Inr (s2, None)
                       | (s2, Some newRCBNode) \<Rightarrow>
                           (case rcb of
                              None \<Rightarrow> Inl Null_pointer
                            | Some r \<Rightarrow>
                                (let s3 = node_put_data K s2 newRCBNode (D_rcb r);
                                     f = rcb_read I s3 r;
                                     s4 = ied_install_report I s3 con rcbRef (f_rptId f) newRCBNode;
                                     s5 = fst (createSubNodes K newRCBNode RCB_OBJ_REF_KEY ''Obj. Ref.'' ''string''
                                                 (J_string rcbRef) s4);
                                     s6 = fst (createSubNodes K newRCBNode RCB_TYPE_KEY ''Type'' ''string''
                                                 (J_string typeString) s5);
                                     s7 = field_with_set K newRCBNode RCB_RPT_ID_KEY ''RptId'' ''string''
                                            (json_string (f_rptId f)) [] Cb_setRptId
                                            [param_row DA_VALUE_REF_NODE_KEY ''string''] s6;
                                     s8 = field_with_set K newRCBNode RCB_RPT_ENA_KEY ''RptEna'' ''boolean''
                                            (J_bool (f_rptEna f)) [] Cb_setRptEna
                                            [param_row DA_VALUE_REF_NODE_KEY ''bool''] s7;
                                     s9 = field_with_set K newRCBNode RCB_DATASET_KEY ''DatSet'' ''string''
                                            (json_string (f_datSet f)) [Cb_rcbDatSetOpened] Cb_setDatSet
                                            [param_row DA_VALUE_REF_NODE_KEY ''enum[]''] s8;
                                     s10 = fst (createSubNodes K newRCBNode RCB_CONF_REV_KEY ''ConfRev'' ''number''
                                            (J_int (f_confRev f)) s9);
                                     s11 = field_with_set K newRCBNode RCB_BUF_TM_KEY ''BufTm'' ''number''
                                            (J_int (f_bufTm f)) [] Cb_setBufTm
                                            [param_row DA_VALUE_REF_NODE_KEY ''number''] s10;
                                     s12 = field_with_set K newRCBNode RCB_INTG_PD_KEY ''IntgPd'' ''number''
                                            (J_int (f_intgPd f)) [] Cb_setIntgPd
                                            [param_row DA_VALUE_REF_NODE_KEY ''number''] s11
                                 in rbind (getRCBOptFldsString (f_optFlds f)) (\<lambda>optFldsStr.
                                    let s13 = field_with_set K newRCBNode RCB_OPT_FLDS_KEY ''OptFlds'' ''string''
                                            (J_string optFldsStr) [] Cb_setOptFlds
                                            (map (\<lambda>o0. param_row o0 ''bool'')
                                               [''SEQ_NUM'', ''BUFFER_OVERFLOW'', ''CONF_REV'', ''DATA_REFERENCE'',
                                                ''DATA_SET'', ''ENTRY_ID'', ''REASON_FOR_INCLUSION'', ''TIME_STAMP'']) s12
                                    in rbind (getRCBTrgOpsString (f_trgOps f)) (\<lambda>trgOpsStr.
                                    let s14 = field_with_set K newRCBNode RCB_TRG_OPS_KEY ''TrgOps'' ''string''
                                            (J_string trgOpsStr) [] Cb_setTrgOps
                                            (map (\<lambda>o0. param_row o0 ''bool'')
                                               [''DATA_CHANGED'', ''DATA_UPDATE'', ''GI'', ''INTEGRITY'', ''QUALITY_CHANGED'']) s13;
                                        (s15, ok) = make_nodes K newRCBNode
                                          [(''readrcb'', [Install Cb_readRCB, Try_meta ''$name'' (J_string ''Read RCB''),
                                                          Try_meta ''$invokable'' (J_string ''read''), Must_add]),
                                           (''forcegi_rcb'', [Install Cb_forceGI, Try_meta ''$name'' (J_string ''Force GI''),
                                                          Try_meta ''$invokable'' (J_string ''read''), Must_add])] s14
                                    in Inr (s15, if ok then Some newRCBNode else None))))))))))"

end
