(* ===== verification/Client_Nodes.thy ===== *)
theory Client_Nodes
  imports Client_Values Report_Handler
begin

text \<open>
  The nodes of the data model, the second part of \<open>src/src/client_handler.c\<close>: the nodes of data attributes,
  data objects, logical nodes and devices, the discovery of an IED, and the reports.
\<close>

section \<open>Values\<close>

definition string_value_node :: "json \<Rightarrow> node_step list" where
  "string_value_node v = [Must_meta ''$type'' (J_string ''string''), Must_value v, Must_add]"

definition value_node_type :: "MmsType \<Rightarrow> string option" where
  "value_node_type t =
     (case t of
        MMS_INTEGER \<Rightarrow> Some ''number'' | MMS_UNSIGNED \<Rightarrow> Some ''number'' | MMS_BOOLEAN \<Rightarrow> Some ''bool''
      | MMS_VISIBLE_STRING \<Rightarrow> Some ''string'' | MMS_STRING \<Rightarrow> Some ''string'' | MMS_FLOAT \<Rightarrow> Some ''real''
      | MMS_UTC_TIME \<Rightarrow> Some ''string'' | MMS_BIT_STRING \<Rightarrow> Some ''string'' | _ \<Rightarrow> None)"

definition write_param_type :: "MmsType \<Rightarrow> string" where
  "write_param_type t =
     (case t of
        MMS_INTEGER \<Rightarrow> ''number'' | MMS_UNSIGNED \<Rightarrow> ''number'' | MMS_BOOLEAN \<Rightarrow> ''bool''
      | MMS_FLOAT \<Rightarrow> ''number'' | _ \<Rightarrow> ''string'')"

definition write_editor :: "MmsType \<Rightarrow> node_step list" where
  "write_editor t =
     (if t = MMS_INTEGER then [Try_meta ''$editor'' (J_string ''int'')]
      else if t = MMS_UTC_TIME then [Try_meta ''$editor'' (J_string ''date'')] else [])"

text \<open>A failure to add the value node frees it, and the function goes on with the freed node.\<close>

definition createValueNode ::
    "('s, 'n, 'c, 'r) sdk \<Rightarrow> 'n \<Rightarrow> FunctionalConstraint \<Rightarrow> MmsType \<Rightarrow> 's \<Rightarrow> 's run" where
  "createValueNode K parentNode fc mmsType s =
     (case node_create K s (Some parentNode) DA_VALUE_REF_NODE_KEY of
        (s1, None) \<Rightarrow> Inr s1
      | (s1, Some valueNode) \<Rightarrow>
          (case run_steps K valueNode
                  (case value_node_type mmsType of
                     None \<Rightarrow> [] | Some t \<Rightarrow> [Must_meta ''$type'' (J_string t)]) s1 of
             (s2, False) \<Rightarrow> Inr s2
           | (s2, True) \<Rightarrow>
               (case node_add_child K s2 valueNode of
                  (s3, False) \<Rightarrow> Inl Undefined_operation
                | (s3, True) \<Rightarrow>
                    Inr (fst (make_nodes K valueNode
                      ((''readvalue'', [Install Cb_valueRead, Try_meta ''$name'' (J_string ''Read''),
                          Try_meta ''$invokable'' (J_string ''read''), Must_add])
                       # (if isWritableFC fc
                          then [(''writevalue'',
                                  [Install Cb_valueWrite, Try_meta ''$name'' (J_string ''Write''),
                                   Try_meta ''$invokable'' (J_string ''read'')] @ write_editor mmsType
                                  @ [Try_meta ''$params''
                                       (J_array [param_row DA_VALUE_REF_NODE_KEY (write_param_type mmsType)]),
                                     Must_add])]
                          else [])) s3)))))"


section \<open>Data attributes\<close>

text \<open>\<open>prepDatasetNode\<close> is not assigned when there is no folder of prepared data sets.\<close>

definition addDAToDSAction :: "('s, 'n, 'c, 'r) sdk \<Rightarrow> 'n \<Rightarrow> action_params \<Rightarrow> 's \<Rightarrow> 's run" where
  "addDAToDSAction K node params s =
     (case p_string params ''Dataset'' of
        None \<Rightarrow> Inr s
      | Some dsName \<Rightarrow>
          (if dsName = [] then Inr s
           else rbind (fit 200 (DATASET_NODE_KEY_INIT @ dsName)) (\<lambda>dsKey.
                rbind (getMainPrepDatasetNode K s node) (\<lambda>mainPrepDSNode.
                rbind (parent_of K s node) (\<lambda>daNode.
                  case (node_get_path K s daNode DA_OBJECT_REF_NODE_KEY, node_get_path K s daNode ''FC'') of
                    (Some daObjRefNode, Some daFCNode) \<Rightarrow>
                      (case mainPrepDSNode of
                         None \<Rightarrow> Inl Uninitialised
                       | Some m \<Rightarrow> (case node_get_path K s m dsKey of
                           None \<Rightarrow> Inr s
                         | Some prepDatasetNode \<Rightarrow>
                             (case (node_string K s daObjRefNode, node_string K s daFCNode) of
                                (Some r, Some f) \<Rightarrow>
                                  rbind (fit 400 (r @ ''['' @ f @ '']'')) (\<lambda>daRefFull.
                                    addMemberToPrepDatasetNode K (Some prepDatasetNode) daRefFull s)
                              | _ \<Rightarrow> Inl Null_pointer)))
                  | _ \<Rightarrow> Inr s)))))"

definition daNodeListOpenedAction :: "('s, 'n, 'c, 'r) sdk \<Rightarrow> 'n \<Rightarrow> 's \<Rightarrow> 's run" where
  "daNodeListOpenedAction K node s =
     rbind (getPrepDSListEnumStr K s node ''enum['') (\<lambda>(prepDSListEnumStr, _).
       case node_get_path K s node ''adddataset'' of
         None \<Rightarrow> Inr s
       | Some addToDSNode \<Rightarrow>
           Inr (fst (node_set_meta K s addToDSNode ''$params'' (J_array [param_row ''Dataset'' prepDSListEnumStr]))))"

text \<open>
  The node \<open>Reference\<close> of a data object or a logical node. The result tells whether the creation
  goes on; a failure to add the node does not stop it.
\<close>

definition reference_node :: "('s, 'n, 'c, 'r) sdk \<Rightarrow> 'n \<Rightarrow> string \<Rightarrow> 's \<Rightarrow> 's \<times> bool" where
  "reference_node K n ref s =
     (case make_node K n ''Reference'' [Must_meta ''$type'' (J_string ''string''), Must_value (J_string ref)] s of
        (s1, None) \<Rightarrow> (s1, False)
      | (s1, Some refNode) \<Rightarrow> (fst (run_steps K refNode [Must_add] s1), True))"

definition createDONode ::
    "('s, 'n, 'c, 'r) sdk \<Rightarrow> 'n option \<Rightarrow> string \<Rightarrow> string \<Rightarrow> 's \<Rightarrow> 's \<times> 'n option" where
  "createDONode K lnNode doRef doName s =
     (case make_node_at K lnNode doName [Must_add] s of
        (s1, None) \<Rightarrow> (s1, None)
      | (s1, Some newDONode) \<Rightarrow>
          (let (s2, ok) = reference_node K newDONode doRef s1 in (s2, if ok then Some newDONode else None)))"

definition da_subnodes ::
    "string \<Rightarrow> string \<Rightarrow> FunctionalConstraint \<Rightarrow> string option \<Rightarrow> string option \<Rightarrow> (string \<times> node_step list) list" where
  "da_subnodes daRef fcStr fc fcExplain mmsTypeStr =
     (if fc \<noteq> FC_NONE
      then [(''FC'', string_value_node (J_string fcStr)), (''Type'', string_value_node (json_string fcExplain))]
      else [])
     @ [(DA_OBJECT_REF_NODE_KEY, string_value_node (J_string daRef))]
     @ (if fc \<noteq> FC_NONE then [(''MMS Type'', string_value_node (json_string mmsTypeStr))] else [])
     @ [(''adddataset'',
          [Install Cb_addDAToDS, Try_meta ''$name'' (J_string ''Add to dataset''),
           Try_meta ''$invokable'' (J_string ''read''),
           Try_meta ''$params'' (J_array [param_row ''Dataset'' ''enum[]'']), Must_add])]"

definition createDANode ::
    "('s, 'n, 'c, 'r) sdk \<Rightarrow> 'n option \<Rightarrow> string \<Rightarrow> string \<Rightarrow> string \<Rightarrow> FunctionalConstraint \<Rightarrow> string option
     \<Rightarrow> 's \<Rightarrow> ('s \<times> 'n option) run" where
  "createDANode K topNode daRef daNameFC fcStr fc mmsTypeStr s =
     (case make_node_at K topNode daNameFC [Must_add, Install Cb_daListOpened] s of
        (s1, None) \<Rightarrow> Inr (s1, None)
      | (s1, Some newDANode) \<Rightarrow>
          rbind (if fc = FC_NONE then Inr None else getFCExplainString fc) (\<lambda>fcExplain.
            let (s2, ok) = make_nodes K newDANode (da_subnodes daRef fcStr fc fcExplain mmsTypeStr) s1
            in Inr (s2, if ok then Some newDANode else None)))"

text \<open>
  The control node of an object with an operate service: it is created when the object has an attribute \<open>stVal\<close>
  of a type that can be controlled. The description of the variable is not checked for a null pointer.
\<close>

definition control_nodes :: "MmsType \<Rightarrow> string \<Rightarrow> (string \<times> node_step list) list" where
  "control_nodes t doRef =
     [(''control'',
        [Install Cb_control, Try_meta ''$name'' (J_string ''Control''), Try_meta ''$invokable'' (J_string ''read'')]
        @ (if t = MMS_INTEGER then [Try_meta ''$editor'' (J_string ''int'')] else [])
        @ [Try_meta ''$params'' (J_array [param_row DA_VALUE_REF_NODE_KEY
              (if t = MMS_INTEGER then ''number'' else ''bool'')]), Must_add]),
      (DA_OBJECT_REF_NODE_KEY, string_value_node (J_string doRef))]"

fun make_nodes_at ::
    "('s, 'n, 'c, 'r) sdk \<Rightarrow> 'n option \<Rightarrow> (string \<times> node_step list) list \<Rightarrow> 's \<Rightarrow> 's \<times> bool" where
  "make_nodes_at K parent [] s = (s, True)"
| "make_nodes_at K parent ((key, steps) # ns) s =
     (case make_node_at K parent key steps s of
        (s', None) \<Rightarrow> (s', False)
      | (s', Some _) \<Rightarrow> make_nodes_at K parent ns s')"

definition handleControllableNode ::
    "('s, 'n, 'c, 'r) sdk \<Rightarrow> ('s, 'n, 'c, 'r) ied \<Rightarrow> (FunctionalConstraint \<Rightarrow> FunctionalConstraint) \<Rightarrow> 'n option \<Rightarrow> 'c
     \<Rightarrow> string \<Rightarrow> 's \<Rightarrow> 's run" where
  "handleControllableNode K I leftover node con doRef s =
     (case ied_data_dir I s con doRef FC_NONE of
        (s1, None) \<Rightarrow> Inr s1
      | (s1, Some attributes) \<Rightarrow>
          (case find (starts_with ''stVal['') attributes of
             None \<Rightarrow> Inr s1
           | Some attribute \<Rightarrow>
               rbind (fit 129 (doRef @ ''.'' @ ''stVal'')) (\<lambda>daRef.
                 let (fc, _) = getFunctionalConstraint leftover attribute
                 in if fc = FC_NONE then Inr s1
                    else (case ied_var_type I s1 con (Some daRef) fc of
                            (s2, None) \<Rightarrow> Inl Null_pointer
                          | (s2, Some t) \<Rightarrow>
                              (if t = MMS_BOOLEAN \<or> t = MMS_INTEGER
                               then Inr (fst (make_nodes_at K node (control_nodes t doRef) s2)) else Inr s2)))))"


section \<open>Discovery of a data object\<close>

text \<open>
  The recursion of \<open>discoverDataDirectory\<close> follows the answers of the IED; \<open>visit_attributes\<close> is its loop, which calls
  the discovery of the next level. Every level makes the reference longer, and it is built in a buffer of 129 characters.
\<close>

fun visit_attributes ::
    "('s, 'n, 'c, 'r) sdk \<Rightarrow> ('s, 'n, 'c, 'r) ied \<Rightarrow> (FunctionalConstraint \<Rightarrow> FunctionalConstraint)
     \<Rightarrow> ('n \<Rightarrow> string \<Rightarrow> FunctionalConstraint \<Rightarrow> 's \<Rightarrow> 's run) \<Rightarrow> 'n option \<Rightarrow> 'c \<Rightarrow> string \<Rightarrow> string list \<Rightarrow> 's \<Rightarrow> 's run" where
  "visit_attributes K I leftover discover node con doRef [] s = Inr s"
| "visit_attributes K I leftover discover node con doRef (attribute # attributes) s =
     (let daName = (case split_at CHR ''['' attribute of None \<Rightarrow> attribute | Some (a, _) \<Rightarrow> a)
      in rbind (fit 129 (doRef @ ''.'' @ daName)) (\<lambda>daRef.
           let (fc, fcStr) = getFunctionalConstraint leftover attribute
           in rbind
                (if fc \<noteq> FC_NONE
                 then (case ied_var_type I s con (Some daRef) fc of
                         (s1, None) \<Rightarrow> Inl Null_pointer
                       | (s1, Some t) \<Rightarrow>
                           rbind (use_var fcStr) (\<lambda>f. createDANode K node daRef attribute f fc (getMmsTypeString t) s1))
                 else Inr (createDONode K node daRef daName s)) (\<lambda>(s2, created).
              rbind (case created of
                       None \<Rightarrow> Inr s2
                     | Some newDANode \<Rightarrow>
                         rbind (if daName = ''Oper'' then handleControllableNode K I leftover node con doRef s2 else Inr s2)
                           (\<lambda>s3. discover newDANode daRef fc s3)) (\<lambda>s4.
                visit_attributes K I leftover discover node con doRef attributes s4))))"

text \<open>A directory without entries belongs to a leaf, which gets the node of its value.\<close>

definition leaf_value ::
    "('s, 'n, 'c, 'r) sdk \<Rightarrow> ('s, 'n, 'c, 'r) ied \<Rightarrow> 'n option \<Rightarrow> 'c \<Rightarrow> 's \<Rightarrow> 's run" where
  "leaf_value K I node0 con s =
     (case node0 of
        None \<Rightarrow> Inl Null_pointer
      | Some node \<Rightarrow>
          rbind (fc_and_ref K s node) (\<lambda>r. case r of
            None \<Rightarrow> Inr s
          | Some (currFc, currObjRef) \<Rightarrow>
              (if currFc = FC_NONE then Inr s
               else (case ied_var_type I s con currObjRef currFc of
                       (s1, None) \<Rightarrow> Inr s1
                     | (s1, Some t) \<Rightarrow> createValueNode K node currFc t s1))))"

primrec discoverDataDirectory ::
    "nat \<Rightarrow> ('s, 'n, 'c, 'r) sdk \<Rightarrow> ('s, 'n, 'c, 'r) ied \<Rightarrow> (FunctionalConstraint \<Rightarrow> FunctionalConstraint) \<Rightarrow> 'n option
     \<Rightarrow> string \<Rightarrow> 'c \<Rightarrow> FunctionalConstraint \<Rightarrow> 's \<Rightarrow> 's run" where
  "discoverDataDirectory 0 K I leftover node doRef con inFC s = Inl Out_of_fuel"
| "discoverDataDirectory (Suc k) K I leftover node doRef con inFC s =
     (case ied_data_dir I s con doRef inFC of
        (s1, None) \<Rightarrow> Inr s1
      | (s1, Some attributes) \<Rightarrow>
          (if attributes = [] then leaf_value K I node con s1
           else visit_attributes K I leftover
                  (\<lambda>n ref fc t. discoverDataDirectory k K I leftover (Some n) ref con fc t) node con doRef attributes s1))"


section \<open>The recursion ends\<close>

lemma fit_fault: "fit n t \<noteq> Inl Out_of_fuel"
  by (simp add: fit_def)

lemma climb_no_string_fuel: "fc_and_ref K s n \<noteq> Inl Out_of_fuel"
  by (simp add: fc_and_ref_def split: option.splits)

lemma createValueNode_no_fuel: "createValueNode K n fc t s \<noteq> Inl Out_of_fuel"
  by (auto simp: createValueNode_def split: prod.splits option.splits bool.splits)

lemma leaf_value_no_fuel: "leaf_value K I node con s \<noteq> Inl Out_of_fuel"
  by (auto simp: leaf_value_def rbind_Inl_iff climb_no_string_fuel createValueNode_no_fuel
      split: option.splits prod.splits if_splits)

lemma createDANode_no_fuel: "createDANode K n r a f fc t s \<noteq> Inl Out_of_fuel"
  by (auto simp: createDANode_def rbind_Inl_iff getFCExplainString_def Let_def
      split: option.splits prod.splits if_splits)

lemma handleControllableNode_no_fuel: "handleControllableNode K I lo node con r s \<noteq> Inl Out_of_fuel"
  by (auto simp: handleControllableNode_def rbind_Inl_iff fit_fault split: option.splits prod.splits if_splits)

lemma visit_attributes_no_fuel:
  assumes "\<And>n ref fc t. length doRef < length ref \<Longrightarrow> length ref < 129 \<Longrightarrow> discover n ref fc t \<noteq> Inl Out_of_fuel"
  shows "visit_attributes K I lo discover node con doRef attributes s \<noteq> Inl Out_of_fuel"
proof (induction attributes arbitrary: s)
  case Nil
  then show ?case by simp
next
  case (Cons attribute attributes)
  have next_level: False if "discover n ref fc t = Inl Out_of_fuel" and "fit 129 (doRef @ CHR ''.'' # a) = Inr ref" for n ref fc t a
  proof -
    have "length doRef < length ref \<and> length ref < 129" using that(2) by (auto simp: fit_def split: if_splits)
    with assms that(1) show False by blast
  qed
  show ?case
    by (auto simp: Let_def rbind_Inl_iff fit_fault Cons.IH createDANode_no_fuel handleControllableNode_no_fuel
        split: prod.splits option.splits if_splits elim!: use_var.elims next_level)
qed

lemma discoverDataDirectory_no_fuel:
  "129 \<le> k + length doRef \<Longrightarrow> 0 < k \<Longrightarrow>
   discoverDataDirectory k K I lo node doRef con fc s \<noteq> Inl Out_of_fuel"
proof (induction k arbitrary: node doRef fc s)
  case 0
  then show ?case by simp
next
  case (Suc k)
  have step: "discoverDataDirectory k K I lo (Some n) ref con fc' t \<noteq> Inl Out_of_fuel"
    if "length doRef < length ref" "length ref < 129" for n ref fc' t
    by (rule Suc.IH) (use Suc.prems that in auto)
  show ?case
    by (auto simp: leaf_value_no_fuel visit_attributes_no_fuel [OF step] split: prod.splits option.splits)
qed


text \<open>More levels than the length of the buffer leaves room for are never used.\<close>

lemma visit_attributes_cong:
  assumes "\<And>n ref fc t. length doRef < length ref \<Longrightarrow> length ref < 129 \<Longrightarrow> d n ref fc t = d' n ref fc t"
  shows "visit_attributes K I lo d node con doRef attributes s = visit_attributes K I lo d' node con doRef attributes s"
proof (induction attributes arbitrary: s)
  case Nil
  then show ?case by simp
next
  case (Cons attribute attributes)
  have same: "d n ref fc t = d' n ref fc t" if "fit 129 (doRef @ ''.'' @ a) = Inr ref" for n ref fc t a
  proof -
    have "length doRef < length ref \<and> length ref < 129" using that by (auto simp: fit_def split: if_splits)
    with assms show ?thesis by blast
  qed
  let ?a = "case split_at CHR ''['' attribute of None \<Rightarrow> attribute | Some (a, _) \<Rightarrow> a"
  show ?case
  proof (cases "fit 129 (doRef @ ''.'' @ ?a)")
    case (Inr ref)
    have "d n ref fc = d' n ref fc" for n fc by (rule ext) (rule same [OF Inr])
    then show ?thesis unfolding visit_attributes.simps Let_def Inr rbind.simps Cons.IH by (simp only:)
  qed (simp add: Let_def)
qed

lemma discoverDataDirectory_Suc:
  "129 \<le> k + length doRef \<Longrightarrow> 0 < k \<Longrightarrow>
   discoverDataDirectory (Suc k) K I lo node doRef con fc s = discoverDataDirectory k K I lo node doRef con fc s"
proof (induction k arbitrary: node doRef fc s)
  case 0
  then show ?case by simp
next
  case (Suc k)
  have "discoverDataDirectory (Suc k) K I lo (Some n) ref con fc' t = discoverDataDirectory k K I lo (Some n) ref con fc' t"
    if "length doRef < length ref" "length ref < 129" for n ref fc' t
    by (rule Suc.IH) (use Suc.prems that in auto)
  then have "visit_attributes K I lo (\<lambda>n ref fc t. discoverDataDirectory (Suc k) K I lo (Some n) ref con fc t) node con doRef as t
      = visit_attributes K I lo (\<lambda>n ref fc t. discoverDataDirectory k K I lo (Some n) ref con fc t) node con doRef as t" for as t
    by (intro visit_attributes_cong)
  then show ?case by (simp only: discoverDataDirectory.simps(2))
qed

lemma discoverDataDirectory_more:
  assumes "129 \<le> k"
  shows "discoverDataDirectory k K I lo node doRef con fc s = discoverDataDirectory 129 K I lo node doRef con fc s"
proof -
  have "discoverDataDirectory (j + 129) K I lo node doRef con fc s = discoverDataDirectory 129 K I lo node doRef con fc s" for j
  proof (induction j)
    case (Suc j)
    have "discoverDataDirectory (Suc (j + 129)) K I lo node doRef con fc s = discoverDataDirectory (j + 129) K I lo node doRef con fc s"
      by (rule discoverDataDirectory_Suc) simp_all
    then show ?case by (simp only: Suc.IH add_Suc)
  qed simp
  from this [of "k - 129"] show ?thesis using assms by simp
qed

definition DISCOVERY_DEPTH :: nat where "DISCOVERY_DEPTH = 129"

text \<open>
  Nothing but the buffer stops the recursion. \<open>sdk_succeeds\<close>: every node can be created and added.
  \<open>answers_endlessly\<close>: the IED knows every variable, and no directory of it is empty, as in a cyclic data model.
\<close>

definition sdk_succeeds :: "('s, 'n, 'c, 'r) sdk \<Rightarrow> bool" where
  "sdk_succeeds K \<longleftrightarrow>
     (\<forall>s p key. snd (node_create K s p key) \<noteq> None) \<and> (\<forall>s n key v. snd (node_set_meta K s n key v))
     \<and> (\<forall>s n v. snd (node_set_value K s n v)) \<and> (\<forall>s n. snd (node_add_child K s n))"

definition answers_endlessly :: "('s, 'n, 'c, 'r) ied \<Rightarrow> 'c \<Rightarrow> bool" where
  "answers_endlessly I con \<longleftrightarrow>
     (\<forall>s ref fc. snd (ied_var_type I s con ref fc) \<noteq> None)
     \<and> (\<forall>s ref fc. \<exists>a as. snd (ied_data_dir I s con ref fc) = Some (a # as))"

lemma run_steps_succeed: "sdk_succeeds K \<Longrightarrow> snd (run_steps K n sts s)"
proof (induction sts arbitrary: s)
  case (Cons st sts)
  have "snd (do_step K n st s)" using Cons.prems by (cases st) (simp_all add: sdk_succeeds_def)
  with Cons show ?case by (simp add: Let_def split_beta)
qed simp

lemma make_node_at_succeeds: "sdk_succeeds K \<Longrightarrow> \<exists>s' n. make_node_at K p key sts s = (s', Some n)"
proof -
  assume K: "sdk_succeeds K"
  obtain s1 n where "node_create K s p key = (s1, Some n)"
    using K unfolding sdk_succeeds_def by (metis option.collapse prod.collapse)
  with run_steps_succeed [OF K] show ?thesis by (simp add: make_node_at_def Let_def split_beta)
qed

lemma make_nodes_succeed: "sdk_succeeds K \<Longrightarrow> snd (make_nodes K p ns s)"
proof (induction ns arbitrary: s)
  case (Cons d ns)
  obtain key sts where d: "d = (key, sts)" by (cases d)
  obtain s' n where "make_node_at K (Some p) key sts s = (s', Some n)" using make_node_at_succeeds [OF Cons.prems] by blast
  with Cons d show ?case by (simp add: make_node_def)
qed simp

lemma createDONode_succeeds:
  assumes K: "sdk_succeeds K"
  shows "\<exists>s' n. createDONode K p ref name s = (s', Some n)"
proof -
  obtain s1 n where 1: "make_node_at K p name [Must_add] s = (s1, Some n)" using make_node_at_succeeds [OF K] by blast
  obtain s2 m where "make_node_at K (Some n) ''Reference'' [Must_meta ''$type'' (J_string ''string''), Must_value (J_string ref)] s1
      = (s2, Some m)"
    using make_node_at_succeeds [OF K] by blast
  then have "snd (reference_node K n ref s1)" by (simp add: reference_node_def make_node_def)
  with 1 show ?thesis by (simp add: createDONode_def Let_def split_beta)
qed

lemma createDANode_succeeds:
  assumes K: "sdk_succeeds K"
  shows "\<exists>s' n. createDANode K p ref name f fc t s = Inr (s', Some n)"
proof -
  obtain s1 n where 1: "make_node_at K p name [Must_add, Install Cb_daListOpened] s = (s1, Some n)"
    using make_node_at_succeeds [OF K] by blast
  have 2: "\<exists>e. (if fc = FC_NONE then Inr None else getFCExplainString fc) = Inr e"
    by (cases fc) (simp_all add: getFCExplainString_def)
  then show ?thesis using 1 make_nodes_succeed [OF K] by (auto simp: createDANode_def Let_def split_beta)
qed

lemma handleControllableNode_endless:
  assumes "answers_endlessly I con"
  shows "(\<exists>s'. handleControllableNode K I lo node con r s = Inr s')
         \<or> handleControllableNode K I lo node con r s = Inl Out_of_bounds"
proof -
  have "snd (ied_var_type I t con ref fc) \<noteq> None" for t ref fc using assms by (simp add: answers_endlessly_def)
  then have "ied_var_type I t con ref fc \<noteq> (t', None)" for t ref fc t' by (metis snd_conv)
  then show ?thesis
    by (auto simp: handleControllableNode_def fit_def Let_def split: option.splits prod.splits)
qed

lemma visit_attributes_endless:
  assumes K: "sdk_succeeds K" and I: "answers_endlessly I con"
    and next_level: "\<And>n ref fc t. length doRef < length ref \<Longrightarrow> length ref < 129 \<Longrightarrow> discover n ref fc t = Inl Out_of_bounds"
  shows "visit_attributes K I lo discover node con doRef (attribute # attributes) s = Inl Out_of_bounds"
proof -
  let ?name = "case split_at CHR ''['' attribute of None \<Rightarrow> attribute | Some (a, _) \<Rightarrow> a"
  obtain fc f where f: "getFunctionalConstraint lo attribute = (fc, f)" by (cases "getFunctionalConstraint lo attribute")
  have known: "fc \<noteq> FC_NONE \<Longrightarrow> \<exists>x. f = Some x"
    using f by (auto simp: getFunctionalConstraint_def Let_def split: option.splits)
  obtain s1 t where t: "ied_var_type I s con (Some (doRef @ ''.'' @ ?name)) fc = (s1, Some t)"
    using I unfolding answers_endlessly_def by (metis option.collapse prod.collapse)
  show ?thesis
  proof (cases "length (doRef @ ''.'' @ ?name) < 129")
    case True
    have deeper: "discover n (doRef @ ''.'' @ ?name) fc t' = Inl Out_of_bounds" for n t'
      by (rule next_level) (use True in simp_all)
    have control: "rbind (if ?name = ''Oper'' then handleControllableNode K I lo node con doRef s2 else Inr s2)
        (\<lambda>s3. discover n (doRef @ ''.'' @ ?name) fc s3) = Inl Out_of_bounds" for s2 n
      using handleControllableNode_endless [OF I, of K lo node doRef s2] deeper by auto
    show ?thesis
    proof (cases "fc = FC_NONE")
      case True
      obtain s2 n where "createDONode K node (doRef @ ''.'' @ ?name) ?name s = (s2, Some n)"
        using createDONode_succeeds [OF K] by blast
      with True f control \<open>length _ < 129\<close> show ?thesis by (simp add: fit_def Let_def)
    next
      case False
      then obtain x where x: "f = Some x" using known by blast
      obtain s2 n where "createDANode K node (doRef @ ''.'' @ ?name) attribute x fc (getMmsTypeString t) s1 = Inr (s2, Some n)"
        using createDANode_succeeds [OF K] by blast
      with False f x t control \<open>length _ < 129\<close> show ?thesis by (simp add: fit_def Let_def)
    qed
  qed (simp add: fit_def Let_def)
qed

lemma discoverDataDirectory_endless:
  assumes K: "sdk_succeeds K" and I: "answers_endlessly I con"
  shows "129 \<le> k + length doRef \<Longrightarrow> 0 < k \<Longrightarrow>
    discoverDataDirectory k K I lo node doRef con fc s = Inl Out_of_bounds"
proof (induction k arbitrary: node doRef fc s)
  case (Suc k)
  obtain s1 a as where dir: "ied_data_dir I s con doRef fc = (s1, Some (a # as))"
    using I unfolding answers_endlessly_def by (metis prod.collapse)
  have "visit_attributes K I lo (\<lambda>n ref fc t. discoverDataDirectory k K I lo (Some n) ref con fc t) node con doRef (a # as) s1
      = Inl Out_of_bounds"
    by (rule visit_attributes_endless [OF K I]) (use Suc in auto)
  with dir show ?case by simp
qed simp

text \<open>
  C31: what bounds the recursion of \<open>discoverDataDirectory\<close> is the buffer \<open>daRef[129]\<close> alone, into which the
  code prints the reference without a check. Every level of the recursion prints a longer reference, so that for every IED
  the discovery comes back, or meets another fault, or writes beyond the buffer within 129 levels (more levels give the same
  result). And an IED without an empty directory (a cyclic data model) makes it write beyond the buffer, whatever the names
  it answers with, when all nodes can be created. The model stops at this write; the code overwrites its stack.
\<close>

theorem discovery_overruns_reference:
  "discoverDataDirectory DISCOVERY_DEPTH K I leftover node doRef con fc s \<noteq> Inl Out_of_fuel
   \<and> discoverDataDirectory (DISCOVERY_DEPTH + j) K I leftover node doRef con fc s
     = discoverDataDirectory DISCOVERY_DEPTH K I leftover node doRef con fc s
   \<and> (sdk_succeeds K \<and> answers_endlessly I con \<longrightarrow>
        discoverDataDirectory DISCOVERY_DEPTH K I leftover node doRef con fc s = Inl Out_of_bounds)"
  unfolding DISCOVERY_DEPTH_def
  by (intro conjI impI discoverDataDirectory_no_fuel discoverDataDirectory_more discoverDataDirectory_endless) simp_all

text \<open>
  An IED that answers every request with the attribute \<open>a[ST]\<close> overruns the buffer; one that has the attribute only
  below \<open>LD/LN.b\<close> is discovered to the end.
\<close>

definition cyclic_ied :: "(dstate, nat, nat, nat) ied" where
  "cyclic_ied = demo_ied\<lparr>ied_data_dir := (\<lambda>s c ref fc. (s, Some [''a[ST]'']))\<rparr>"

definition flat_ied :: "(dstate, nat, nat, nat) ied" where
  "flat_ied = demo_ied\<lparr>ied_data_dir := (\<lambda>s c ref fc. (s, Some (if ref = ''LD/LN.b'' then [''a[ST]''] else [])))\<rparr>"

lemma demo_sdk_succeeds: "sdk_succeeds demo_sdk"
  by (simp add: sdk_succeeds_def demo_sdk_def d_create_def split: option.splits)

theorem discovery_overruns_reference_witness:
  "discoverDataDirectory DISCOVERY_DEPTH demo_sdk cyclic_ied (\<lambda>fc. fc) (Some 3) ''LD/LN.b'' 0 FC_NONE demo_state = Inl Out_of_bounds
   \<and> (\<exists>s. discoverDataDirectory 2 demo_sdk flat_ied (\<lambda>fc. fc) (Some 3) ''LD/LN.b'' 0 FC_NONE demo_state = Inr s
          \<and> d_child s 3 ''a[ST]'' = Some 11)"
proof
  have "answers_endlessly cyclic_ied 0" by (simp add: answers_endlessly_def cyclic_ied_def demo_ied_def)
  with demo_sdk_succeeds show
    "discoverDataDirectory DISCOVERY_DEPTH demo_sdk cyclic_ied (\<lambda>fc. fc) (Some 3) ''LD/LN.b'' 0 FC_NONE demo_state = Inl Out_of_bounds"
    using discovery_overruns_reference [of demo_sdk cyclic_ied "\<lambda>fc. fc" "Some 3" "''LD/LN.b''" 0 FC_NONE demo_state 0] by blast
  have "(case discoverDataDirectory 2 demo_sdk flat_ied (\<lambda>fc. fc) (Some 3) ''LD/LN.b'' 0 FC_NONE demo_state of
      Inr s \<Rightarrow> d_child s 3 ''a[ST]'' = Some 11 | Inl _ \<Rightarrow> False)"
    by code_simp
  then show "\<exists>s. discoverDataDirectory 2 demo_sdk flat_ied (\<lambda>fc. fc) (Some 3) ''LD/LN.b'' 0 FC_NONE demo_state = Inr s
          \<and> d_child s 3 ''a[ST]'' = Some 11"
    by (auto split: sum.splits)
qed

end
