(* ===== verification/Discovery.thy ===== *)
theory Discovery
  imports Client_Nodes
begin

text \<open>
  Discovery of an IED and reports from it, the third part of \<open>src/src/client_handler.c\<close>: nodes of logical devices and
  logical nodes, the folders of a server, the walk over the whole IED, and the callback for reports.
\<close>

section \<open>Logical devices and nodes\<close>

definition prepare_dataset_action :: "('s, 'n, 'c, 'r) sdk \<Rightarrow> 'n \<Rightarrow> action_params \<Rightarrow> 's \<Rightarrow> 's run" where
  "prepare_dataset_action K node params s =
     (case p_string params ''Name'' of
        None \<Rightarrow> Inr s
      | Some name0 \<Rightarrow>
          rbind (parent_of K s node) (\<lambda>lnNode.
            case node_child K s lnNode ''Reference'' of
              None \<Rightarrow> Inr s
            | Some refNode \<Rightarrow> (case node_string K s refNode of
                  None \<Rightarrow> Inl Null_pointer
                | Some currObjRef \<Rightarrow>
                    rbind (fit 300 (currObjRef @ ''.'' @ name0)) (\<lambda>dsRef.
                    rbind (createPrepDatasetNode K lnNode dsRef s) (\<lambda>(s1, _). Inr s1)))))"

definition createLNNode ::
    "('s, 'n, 'c, 'r) sdk \<Rightarrow> 'n option \<Rightarrow> string \<Rightarrow> string \<Rightarrow> 's \<Rightarrow> 's \<times> 'n option" where
  "createLNNode K ldNode lnRef lnName s =
     (case make_node_at K ldNode lnName [Must_add] s of
        (s1, None) \<Rightarrow> (s1, None)
      | (s1, Some newLNNode) \<Rightarrow>
          (case reference_node K newLNNode lnRef s1 of
             (s2, False) \<Rightarrow> (s2, None)
           | (s2, True) \<Rightarrow>
               (let (s3, r) = make_node K newLNNode ''prepdataset''
                  [Install Cb_prepareDataset, Try_meta ''$name'' (J_string ''Prepare Dataset''),
                   Try_meta ''$invokable'' (J_string ''read''),
                   Try_meta ''$params'' (J_array [param_row ''Name'' ''string'']), Must_add] s2
                in (s3, if r \<noteq> None then Some newLNNode else None))))"

definition createLDNode :: "('s, 'n, 'c, 'r) sdk \<Rightarrow> 'n \<Rightarrow> string \<Rightarrow> 's \<Rightarrow> ('s \<times> 'n option) run" where
  "createLDNode K srvNode ldName s =
     rbind (fit 129 (LOGICAL_DEVICE_NODE_KEY_INIT @ ldName)) (\<lambda>ldKey.
       Inr (make_node K srvNode ldKey [Must_meta ''$name'' (J_string ldName), Must_add] s))"


section \<open>The folders of a server\<close>

definition folder_steps :: "string \<Rightarrow> node_step list" where
  "folder_steps name0 = [Must_meta ''$name'' (J_string name0), Must_add]"

definition createDatasetReportNodes :: "('s, 'n, 'c, 'r) sdk \<Rightarrow> 'n \<Rightarrow> 's \<Rightarrow> 's" where
  "createDatasetReportNodes K node s =
     (case make_node K node DATASET_FOLDER_NODE_KEY (folder_steps ''Data Sets'') s of
        (s1, None) \<Rightarrow> s1
      | (s1, Some _) \<Rightarrow>
          (case make_node K node DATASET_PREP_FOLDER_NODE_KEY (folder_steps ''Data Set Prep'') s1 of
             (s2, None) \<Rightarrow> s2
           | (s2, Some newPrepDSNode) \<Rightarrow>
               (case make_node K newPrepDSNode ''desc''
                       [Must_meta ''$name'' (J_string ''Description''), Must_meta ''$type'' (J_string ''string''),
                        Must_value (J_string ''Preparation for datasets to be created in the server''), Must_add] s2 of
                  (s3, None) \<Rightarrow> s3
                | (s3, Some _) \<Rightarrow>
                    fst (make_nodes K node
                      [(URCB_FOLDER_NODE_KEY, folder_steps ''Unbuffered Report Control Blocks''),
                       (BRCB_FOLDER_NODE_KEY, folder_steps ''Buffered Report Control Blocks'')] s3))))"


section \<open>The walk over the IED\<close>

fun run_list :: "('a \<Rightarrow> 's \<Rightarrow> 's run) \<Rightarrow> 'a list \<Rightarrow> 's \<Rightarrow> 's run" where
  "run_list f [] s = Inr s"
| "run_list f (x # xs) s = rbind (f x s) (run_list f xs)"

text \<open>A list that the client does not deliver is a null pointer, which the loop reads.\<close>

definition for_each :: "('a \<Rightarrow> 's \<Rightarrow> 's run) \<Rightarrow> 's \<times> 'a list option \<Rightarrow> 's run" where
  "for_each f r = (case r of (s, None) \<Rightarrow> Inl Null_pointer | (s, Some xs) \<Rightarrow> run_list f xs s)"

definition discover_object ::
    "('s, 'n, 'c, 'r) sdk \<Rightarrow> ('s, 'n, 'c, 'r) ied \<Rightarrow> (FunctionalConstraint \<Rightarrow> FunctionalConstraint) \<Rightarrow> 'n option \<Rightarrow> 'c
     \<Rightarrow> string \<Rightarrow> string \<Rightarrow> string \<Rightarrow> 's \<Rightarrow> 's run" where
  "discover_object K I leftover newLNNode con device logicalNode dataObjectName s =
     rbind (fit 129 (device @ ''/'' @ logicalNode @ ''.'' @ dataObjectName)) (\<lambda>doRef.
       let (s1, newDONode) = createDONode K newLNNode doRef dataObjectName s
       in discoverDataDirectory DISCOVERY_DEPTH K I leftover newDONode doRef con FC_NONE s1)"

definition discover_dataset ::
    "('s, 'n, 'c, 'r) sdk \<Rightarrow> ('s, 'n, 'c, 'r) ied \<Rightarrow> 'n option \<Rightarrow> 'c \<Rightarrow> string \<Rightarrow> string \<Rightarrow> 's \<Rightarrow> 's run" where
  "discover_dataset K I newLNNode con lnRef dataSetName s =
     rbind (fit 129 (lnRef @ ''.'' @ dataSetName)) (\<lambda>dataSetRef.
       case newLNNode of
         Some n \<Rightarrow> rbind (getDatasetInfoFromServerCreateNode K I n (Some con) dataSetRef s) (\<lambda>(s1, _). Inr s1)
       | None \<Rightarrow>
           (let (s1, answer, error) = ied_dataset_dir I s (Some con) dataSetRef
            in if answer \<noteq> None \<and> error = 0 then Inl Null_pointer else Inr s1))"

definition discover_report ::
    "('s, 'n, 'c, 'r) sdk \<Rightarrow> ('s, 'n, 'c, 'r) ied \<Rightarrow> 'n \<Rightarrow> 'c \<Rightarrow> string \<Rightarrow> bool \<Rightarrow> string \<Rightarrow> 's \<Rightarrow> 's run" where
  "discover_report K I node con lnRef isBuffered reportName s =
     rbind (fit 200 (lnRef @ (if isBuffered then ''.BR.'' else ''.RP.'') @ reportName)) (\<lambda>rcbRef.
     rbind (getRCBInfoAndCreateNode K I node (Some con) rcbRef isBuffered s) (\<lambda>(s1, _). Inr s1))"

definition discover_logical_node ::
    "('s, 'n, 'c, 'r) sdk \<Rightarrow> ('s, 'n, 'c, 'r) ied \<Rightarrow> (FunctionalConstraint \<Rightarrow> FunctionalConstraint) \<Rightarrow> 'n \<Rightarrow> 'n option \<Rightarrow> 'c
     \<Rightarrow> string \<Rightarrow> string \<Rightarrow> 's \<Rightarrow> 's run" where
  "discover_logical_node K I leftover node newLDNode con device logicalNode s =
     rbind (fit 129 (device @ ''/'' @ logicalNode)) (\<lambda>lnRef.
       let (s1, newLNNode) = createLNNode K newLDNode lnRef logicalNode s
       in rbind (for_each (discover_object K I leftover newLNNode con device logicalNode)
                   (ied_node_dir I s1 (Some con) lnRef ACSI_CLASS_DATA_OBJECT)) (\<lambda>s2.
          rbind (for_each (discover_dataset K I newLNNode con lnRef)
                   (ied_node_dir I s2 (Some con) lnRef ACSI_CLASS_DATA_SET)) (\<lambda>s3.
          rbind (for_each (discover_report K I node con lnRef False)
                   (ied_node_dir I s3 (Some con) lnRef ACSI_CLASS_URCB)) (\<lambda>s4.
          for_each (discover_report K I node con lnRef True)
                   (ied_node_dir I s4 (Some con) lnRef ACSI_CLASS_BRCB)))))"

definition discover_device ::
    "('s, 'n, 'c, 'r) sdk \<Rightarrow> ('s, 'n, 'c, 'r) ied \<Rightarrow> (FunctionalConstraint \<Rightarrow> FunctionalConstraint) \<Rightarrow> 'n \<Rightarrow> 'c
     \<Rightarrow> string \<Rightarrow> 's \<Rightarrow> 's run" where
  "discover_device K I leftover node con device s =
     rbind (createLDNode K node device s) (\<lambda>(s1, newLDNode).
       for_each (discover_logical_node K I leftover node newLDNode con device)
         (ied_device_dir I s1 (Some con) device))"

definition discover61850Server ::
    "('s, 'n, 'c, 'r) sdk \<Rightarrow> ('s, 'n, 'c, 'r) ied \<Rightarrow> (FunctionalConstraint \<Rightarrow> FunctionalConstraint) \<Rightarrow> 'n \<Rightarrow> 'c
     \<Rightarrow> 's \<Rightarrow> 's run" where
  "discover61850Server K I leftover node con s =
     (let (s1, deviceList, error) = ied_devices I (createDatasetReportNodes K node s) (Some con)
      in if error \<noteq> 0 then Inr s1 else for_each (discover_device K I leftover node con) (s1, deviceList))"

section \<open>Reports\<close>

text \<open>What a report brings for the members of its data set, by their index: whether it is included, and its value.\<close>

record client_report =
  rep_included :: "nat \<Rightarrow> bool"
  rep_value :: "nat \<Rightarrow> MmsValue option"

fun update_members ::
    "('s, 'n, 'c, 'r) sdk \<Rightarrow> 'n \<Rightarrow> client_report \<Rightarrow> nat \<Rightarrow> string list \<Rightarrow> 's \<Rightarrow> 's run" where
  "update_members K rcbNode report i [] s = Inr s"
| "update_members K rcbNode report i (entryName # entries) s =
     rbind
       (if rep_included report i
        then rbind (getDANode K s rcbNode entryName) (\<lambda>r. case r of
               None \<Rightarrow> Inr s
             | Some daNode \<Rightarrow> (case node_get_path K s daNode DA_VALUE_REF_NODE_KEY of
                   None \<Rightarrow> Inr s
                 | Some daValNode \<Rightarrow> setValueNodeFromMMS K daValNode (rep_value report i) s))
        else Inr s)
       (update_members K rcbNode report (Suc i) entries)"

definition reportCallbackFunction ::
    "('s, 'n, 'c, 'r) sdk \<Rightarrow> ('s, 'n, 'c, 'r) ied \<Rightarrow> 'n option \<Rightarrow> client_report \<Rightarrow> 's \<Rightarrow> 's run" where
  "reportCallbackFunction K I parameter report s =
     (case parameter of
        None \<Rightarrow> Inr s
      | Some rcbNode \<Rightarrow>
          rbind (getServerIedConnection K s rcbNode) (\<lambda>con.
          rbind (rcb_of K s rcbNode) (\<lambda>rcb. case rcb of
            None \<Rightarrow> Inl Null_pointer
          | Some r \<Rightarrow> (case f_datSet (rcb_read I s r) of
              None \<Rightarrow> Inl Null_pointer
            | Some dataSetRef \<Rightarrow>
                rbind (getDataSetNodeFromRef K s rcbNode dataSetRef) (\<lambda>dataSetNode.
                rbind (getDSLink K s rcbNode) (\<lambda>link. case (con, dataSetNode, link) of
                  (Some _, Some dsNode, Some _) \<Rightarrow>
                    (case node_get_data K s dsNode of
                       None \<Rightarrow> Inl Null_pointer
                     | Some (D_members members) \<Rightarrow> update_members K rcbNode report 0 members s
                     | Some _ \<Rightarrow> Inl Undefined_operation)
                | _ \<Rightarrow> Inr s))))))"


section \<open>What a report changes\<close>

text \<open>Setting the value of a node leaves the tree as it is: paths, parents and names.\<close>

definition value_laws :: "('s, 'n, 'c, 'r) sdk \<Rightarrow> bool" where
  "value_laws K \<longleftrightarrow>
     (\<forall>s n v. node_get_path K (fst (node_set_value K s n v)) = node_get_path K s
            \<and> node_parent K (fst (node_set_value K s n v)) = node_parent K s
            \<and> node_name K (fst (node_set_value K s n v)) = node_name K s)"

definition same_tree :: "('s, 'n, 'c, 'r) sdk \<Rightarrow> 's \<Rightarrow> 's \<Rightarrow> bool" where
  "same_tree K s t \<longleftrightarrow>
     node_get_path K t = node_get_path K s \<and> node_parent K t = node_parent K s \<and> node_name K t = node_name K s"

lemma climb_cong: "same_tree K s t \<Longrightarrow> climb k K t n = climb k K s n"
proof (induction k arbitrary: n)
  case 0
  then show ?case by (simp add: same_tree_def climb.simps split: option.split)
next
  case (Suc k)
  then show ?case by (simp add: same_tree_def climb.simps [of "Suc k"] split: option.split)
qed

lemma find_components_cong: "same_tree K s t \<Longrightarrow> find_components K t f n x = find_components K s f n x"
proof (induction "length x" arbitrary: n x rule: less_induct)
  case less
  have "node_get_path K t = node_get_path K s" using less.prems by (simp add: same_tree_def)
  then have fc: "find_component K t f n c = find_component K s f n c" for n c
    unfolding find_component_def by (simp only:)
  show ?case
  proof (cases "split_at CHR ''.'' x")
    case None
    then show ?thesis by (simp add: find_components.simps [of K _ f n x] fc)
  next
    case (Some p)
    obtain c rest where p: "p = (c, rest)" by fastforce
    have "find_components K t f m rest = find_components K s f m rest" for m
      by (rule less.hyps) (use Some p less.prems in \<open>auto simp: split_at_length\<close>)
    then show ?thesis by (simp add: find_components.simps [of K _ f n x] fc Some p)
  qed
qed

lemma getDANode_cong:
  assumes "same_tree K s t"
  shows "getDANode K t n e = getDANode K s n e"
proof -
  have "node_get_path K t = node_get_path K s" "node_name K t = node_name K s" using assms by (simp_all add: same_tree_def)
  then show ?thesis
    unfolding getDANode_def getServerNode_def climb_cong [OF assms] find_components_cong [OF assms] by (simp only:)
qed

text \<open>The nodes that a report for the data set sets, with what it sets them to, computed in the state the report finds.\<close>

fun report_updates ::
    "('s, 'n, 'c, 'r) sdk \<Rightarrow> 's \<Rightarrow> 'n \<Rightarrow> client_report \<Rightarrow> nat \<Rightarrow> string list \<Rightarrow> ('n \<times> json) list" where
  "report_updates K s rcbNode report i [] = []"
| "report_updates K s rcbNode report i (e # es) =
     (case (rep_included report i, getDANode K s rcbNode e) of
        (True, Inr (Some daNode)) \<Rightarrow>
          (case (node_get_path K s daNode DA_VALUE_REF_NODE_KEY, rep_value report i) of
             (Some v, Some x) \<Rightarrow> (case shown_value x of Inr (Some j) \<Rightarrow> [(v, j)] | _ \<Rightarrow> [])
           | _ \<Rightarrow> [])
      | _ \<Rightarrow> [])
     @ report_updates K s rcbNode report (Suc i) es"

definition well_formed_report ::
    "('s, 'n, 'c, 'r) sdk \<Rightarrow> 's \<Rightarrow> 'n \<Rightarrow> client_report \<Rightarrow> string list \<Rightarrow> bool" where
  "well_formed_report K s rcbNode report members \<longleftrightarrow>
     (\<forall>e \<in> set members. \<exists>r. getDANode K s rcbNode e = Inr r)
     \<and> (\<forall>i. rep_included report i \<longrightarrow> (\<exists>x j. rep_value report i = Some x \<and> shown_value x = Inr j))"

definition set_values :: "('s, 'n, 'c, 'r) sdk \<Rightarrow> ('n \<times> json) list \<Rightarrow> 's \<Rightarrow> 's" where
  "set_values K us s = fold (\<lambda>(n, j) t. fst (node_set_value K t n j)) us s"

lemma same_tree_set_value: "value_laws K \<Longrightarrow> same_tree K s t \<Longrightarrow> same_tree K s (fst (node_set_value K t n v))"
  by (simp add: value_laws_def same_tree_def)

lemma update_members_values:
  assumes "value_laws K"
  shows "same_tree K s t \<Longrightarrow> well_formed_report K s rcbNode report members \<Longrightarrow>
   update_members K rcbNode report i members t = Inr (set_values K (report_updates K s rcbNode report i members) t)"
proof (induction members arbitrary: i t)
  case Nil
  then show ?case by (simp add: set_values_def)
next
  case (Cons e es)
  obtain r where r: "getDANode K s rcbNode e = Inr r"
    using Cons.prems(2) by (auto simp: well_formed_report_def)
  have wf: "well_formed_report K s rcbNode report es" using Cons.prems(2) by (simp add: well_formed_report_def)
  note IH = Cons.IH [OF _ wf]
  have path: "node_get_path K t = node_get_path K s" using Cons.prems(1) by (simp add: same_tree_def)
  show ?case
  proof (cases "rep_included report i \<and> (\<exists>d v. r = Some d \<and> node_get_path K s d DA_VALUE_REF_NODE_KEY = Some v)")
    case True
    then obtain d v where d: "r = Some d" "node_get_path K s d DA_VALUE_REF_NODE_KEY = Some v" by blast
    obtain x j where x: "rep_value report i = Some x" "shown_value x = Inr j"
      using Cons.prems(2) True by (auto simp: well_formed_report_def)
    show ?thesis
      using True d x r Cons.prems(1) IH [OF Cons.prems(1)] IH [OF same_tree_set_value [OF assms Cons.prems(1)]]
      by (cases j) (simp_all add: getDANode_cong [OF Cons.prems(1)] path setValueNodeFromMMS_def set_values_def)
  next
    case False
    then show ?thesis
      using r Cons.prems(1) IH [OF Cons.prems(1)]
      by (auto simp: getDANode_cong [OF Cons.prems(1)] path set_values_def split: option.splits)
  qed
qed

text \<open>
  C1: a report for a data set sets exactly the value nodes of the members it includes, each to the value the report has
  for its index: when the report control block names a data set whose node is there and the values of the included members
  can be shown, the callback ends without a fault, in the state in which the values are set one after the other, and members
  without a node are passed over.
\<close>

theorem report_sets_included_members:
  assumes "value_laws K"
    and "getServerIedConnection K s rcbNode = Inr (Some con)" and "rcb_of K s rcbNode = Inr (Some r)"
    and "f_datSet (rcb_read I s r) = Some ref" and "getDataSetNodeFromRef K s rcbNode ref = Inr (Some dsNode)"
    and "getDSLink K s rcbNode = Inr (Some link)" and "node_get_data K s dsNode = Some (D_members members)"
    and "well_formed_report K s rcbNode report members"
  shows "reportCallbackFunction K I (Some rcbNode) report s
         = Inr (set_values K (report_updates K s rcbNode report 0 members) s)"
proof -
  have "same_tree K s s" by (simp add: same_tree_def)
  from update_members_values [OF assms(1) this assms(8)] show ?thesis
    using assms by (simp add: reportCallbackFunction_def)
qed

definition demo_report :: client_report where
  "demo_report = \<lparr>rep_included = (\<lambda>i. i = 0), rep_value = (\<lambda>i. Some (V_boolean True))\<rparr>"

lemma demo_value_laws: "value_laws demo_sdk"
proof -
  have f: "d_name (d_get (d_update (\<lambda>d. d\<lparr>d_value := v\<rparr>) n s) c) = d_name (d_get s c)
    \<and> d_kids (d_get (d_update (\<lambda>d. d\<lparr>d_value := v\<rparr>) n s) c) = d_kids (d_get s c)
    \<and> d_parent (d_get (d_update (\<lambda>d. d\<lparr>d_value := v\<rparr>) n s) c) = d_parent (d_get s c)" for v n s c
    by (auto simp: d_update_def d_get_def nth_list_update)
  show ?thesis by (simp add: value_laws_def demo_sdk_def d_child_def [abs_def] f)
qed

theorem report_sets_included_members_witness:
  "\<exists>s'. reportCallbackFunction demo_sdk demo_ied (Some 9) demo_report demo_state = Inr s'
     \<and> d_value (d_nodes s' ! 6) = J_bool True"
proof -
  have "getServerIedConnection demo_sdk demo_state 9 = Inr (Some 0)" by code_simp
  moreover have "rcb_of demo_sdk demo_state 9 = Inr (Some 0)" by code_simp
  moreover have "f_datSet (rcb_read demo_ied demo_state 0) = Some ''LD/LN$ds''" by code_simp
  moreover have "getDataSetNodeFromRef demo_sdk demo_state 9 ''LD/LN$ds'' = Inr (Some 8)" by code_simp
  moreover have "getDSLink demo_sdk demo_state 9 = Inr (Some D_link)" by code_simp
  moreover have "node_get_data demo_sdk demo_state 8 = Some (D_members [''LD/LN.a.stVal[ST]''])" by code_simp
  moreover have "getDANode demo_sdk demo_state 9 ''LD/LN.a.stVal[ST]'' = Inr (Some 5)" by code_simp
  then have "well_formed_report demo_sdk demo_state 9 demo_report [''LD/LN.a.stVal[ST]'']"
    by (simp add: well_formed_report_def demo_report_def shown_value_def)
  ultimately have "reportCallbackFunction demo_sdk demo_ied (Some 9) demo_report demo_state
      = Inr (set_values demo_sdk (report_updates demo_sdk demo_state 9 demo_report 0 [''LD/LN.a.stVal[ST]'']) demo_state)"
    by (rule report_sets_included_members [OF demo_value_laws])
  moreover have "report_updates demo_sdk demo_state 9 demo_report 0 [''LD/LN.a.stVal[ST]''] = [(6, J_bool True)]" by code_simp
  moreover have "d_value (d_nodes (set_values demo_sdk [(6, J_bool True)] demo_state) ! 6) = J_bool True" by code_simp
  ultimately show ?thesis by simp
qed

end
