(* ===== verification/Server_Handler.thy ===== *)
theory Server_Handler
  imports Discovery
begin

text \<open>
  The life of a server node, the last part of \<open>src/src/client_handler.c\<close>, and \<open>add_server.c\<close>: adding, editing,
  discovering, clearing and removing a server.
\<close>

section \<open>Servers\<close>

definition setServerMap :: "('s, 'n, 'c, 'r) sdk \<Rightarrow> 'n \<Rightarrow> 'c ts61850Server \<Rightarrow> 's \<Rightarrow> 's \<times> bool" where
  "setServerMap K node server s =
     (case server_map_ready K s of
        (s1, False) \<Rightarrow> (s1, False)
      | (s1, True) \<Rightarrow> server_set K s1 node server)"

definition connect_61850_ied ::
    "('s, 'n, 'c, 'r) ied \<Rightarrow> 'c option \<Rightarrow> string \<Rightarrow> int \<Rightarrow> 's \<Rightarrow> 's" where
  "connect_61850_ied I con host port s = fst (ied_connect I s con host port)"

definition action_steps :: "callback \<Rightarrow> string \<Rightarrow> node_step list" where
  "action_steps cb name0 =
     [Install cb, Try_meta ''$name'' (J_string name0), Try_meta ''$invokable'' (J_string ''read''), Must_add]"

definition server_action_nodes :: "string \<Rightarrow> string \<Rightarrow> int \<Rightarrow> (string \<times> node_step list) list" where
  "server_action_nodes name0 hostName port =
     [(''ndl_discoverserver'', action_steps Cb_discover ''Discover''),
      (''ndl_editserver'',
         [Install Cb_editServer, Try_meta ''$name'' (J_string ''Edit''), Try_meta ''$invokable'' (J_string ''read''),
          Try_meta ''$params'' (J_array
            [J_object [(''name'', J_string ''Name''), (''type'', J_string ''string''), (''default'', J_string name0)],
             J_object [(''name'', J_string ''Host''), (''type'', J_string ''string''), (''default'', J_string hostName)],
             J_object [(''name'', J_string ''Port''), (''type'', J_string ''number''), (''default'', J_int port)]]),
          Must_add]),
      (''ndl_clearserver'', action_steps Cb_clearServer ''Clear''),
      (''ndl_removeserver'', action_steps Cb_removeServer ''Remove'')]"

definition MAX_IEC61850_SERVER_HOSTNAME :: nat where "MAX_IEC61850_SERVER_HOSTNAME = 100"

definition responderInitClient ::
    "('s, 'n, 'c, 'r) sdk \<Rightarrow> ('s, 'n, 'c, 'r) ied \<Rightarrow> 'n \<Rightarrow> string \<Rightarrow> string \<Rightarrow> int \<Rightarrow> 's \<Rightarrow> 's run" where
  "responderInitClient K I root nodeName hostName port s =
     rbind (fit 129 (SERVER_NODE_KEY_INIT @ nodeName)) (\<lambda>srvKey.
       case node_create K s (Some root) srvKey of
         (s1, None) \<Rightarrow> Inr s1
       | (s1, Some serverNode) \<Rightarrow> (case node_set_meta K s1 serverNode ''$name'' (J_string nodeName) of
           (s2, False) \<Rightarrow> Inr s2
         | (s2, True) \<Rightarrow> (case run_steps K serverNode [Must_add] s2 of
             (s3, False) \<Rightarrow> Inr s3
           | (s3, True) \<Rightarrow>
               (let s4 = node_put_data K s3 serverNode D_link
                in case make_nodes K serverNode
                          (server_action_nodes (drop 4 (node_name K s4 serverNode)) hostName port) s4 of
                     (s5, False) \<Rightarrow> Inr s5
                   | (s5, True) \<Rightarrow>
                       (let (s6, con) = ied_create I s5
                        in rbind (fit MAX_IEC61850_SERVER_HOSTNAME hostName) (\<lambda>host.
                             let newServer = \<lparr>hostname = host, tcpPort = port, iedConn = Some con\<rparr>;
                                 s7 = fst (setServerMap K serverNode newServer s6);
                                 s8 = connect_61850_ied I (Some con) hostName port s7
                             in Inr (serverStatusCreate K serverNode s8)))))))"

definition invokeAddServer ::
    "('s, 'n, 'c, 'r) sdk \<Rightarrow> ('s, 'n, 'c, 'r) ied \<Rightarrow> 'n \<Rightarrow> action_params \<Rightarrow> 's \<Rightarrow> 's run" where
  "invokeAddServer K I node params s =
     (let portNo = i32 (p_int params ''Port'')
      in case (p_string params ''Name'', p_string params ''Host'') of
           (Some name0, Some host) \<Rightarrow>
             (if portNo \<noteq> 0
              then rbind (parent_of K s node) (\<lambda>root. responderInitClient K I root name0 host portNo s)
              else Inr s)
         | _ \<Rightarrow> Inr s)"

definition responderInitAddServer :: "('s, 'n, 'c, 'r) sdk \<Rightarrow> 'n \<Rightarrow> 's \<Rightarrow> 's" where
  "responderInitAddServer K root s =
     fst (make_node K root ''addserver''
       [Install Cb_addServer, Try_meta ''$name'' (J_string ''Add Server''), Try_meta ''$invokable'' (J_string ''read''),
        Try_meta ''$params'' (J_array
          [J_object [(''name'', J_string ''Name''), (''type'', J_string ''string'')],
           J_object [(''name'', J_string ''Host''), (''type'', J_string ''string''), (''default'', J_string ''0.0.0.0'')],
           J_object [(''name'', J_string ''Port''), (''type'', J_string ''number''), (''default'', J_int 102)]]),
        Must_add] s)"


section \<open>The data model of a server\<close>

definition isDiscovered :: "('s, 'n, 'c, 'r) sdk \<Rightarrow> 's \<Rightarrow> 'n \<Rightarrow> bool" where
  "isDiscovered K s node \<longleftrightarrow>
     starts_with SERVER_NODE_KEY_INIT (node_name K s node)
     \<and> list_ex (\<lambda>c. \<not> starts_with NO_DELETE_NODE_KEY_INIT (node_name K s c)) (node_children K s node)"

text \<open>
  \<open>removeAllDataModel\<close> frees a child in the round after the one that has taken it out of the map, and the last one
  behind the loop. \<open>nodeToRemove\<close> keeps its value in a round that takes nothing out. The children are visited
  in the order they have before the loop.
\<close>

fun remove_round ::
    "('s, 'n, 'c, 'r) sdk \<Rightarrow> 'n \<Rightarrow> 'n list \<Rightarrow> 'n option \<Rightarrow> 's \<Rightarrow> 's" where
  "remove_round K node [] nodeToRemove s =
     (case nodeToRemove of None \<Rightarrow> s | Some n \<Rightarrow> node_tree_free K s n)"
| "remove_round K node (c # cs) nodeToRemove s =
     (let s1 = (case nodeToRemove of None \<Rightarrow> s | Some n \<Rightarrow> node_tree_free K s n)
      in if \<not> starts_with NO_DELETE_NODE_KEY_INIT (node_name K s1 c)
         then (let (s2, r) = take_child K s1 node (node_name K s1 c) in remove_round K node cs r s2)
         else remove_round K node cs nodeToRemove s1)"

definition removeAllDataModel :: "('s, 'n, 'c, 'r) sdk \<Rightarrow> 'n \<Rightarrow> 's \<Rightarrow> 's" where
  "removeAllDataModel K node s = remove_round K node (node_children K s node) None s"

definition removeServerNode ::
    "('s, 'n, 'c, 'r) sdk \<Rightarrow> ('s, 'n, 'c, 'r) ied \<Rightarrow> 'n \<Rightarrow> 's \<Rightarrow> ('s \<times> bool) run" where
  "removeServerNode K I serverNode s =
     rbind (parent_of K s serverNode) (\<lambda>rootNode.
       case take_child K s rootNode (node_name K s serverNode) of
         (s1, None) \<Rightarrow> Inr (s1, False)
       | (s1, Some n) \<Rightarrow> (case server_take K s1 serverNode of
           (s2, None) \<Rightarrow> Inl Null_pointer
         | (s2, Some server) \<Rightarrow> Inr (node_tree_free K (ied_destroy I s2 (iedConn server)) n, True)))"


text \<open>
  What the environment does for the removal of the children of a node, with \<open>freed\<close> the nodes that were freed so far:
  taking out a child by its name gives this child and leaves the other children, freeing a node keeps the
  children and the names of the nodes that are not freed.
\<close>

definition removal_laws :: "('s, 'n, 'c, 'r) sdk \<Rightarrow> ('s \<Rightarrow> 'n list) \<Rightarrow> 'n \<Rightarrow> bool" where
  "removal_laws K freed node \<longleftrightarrow>
     (\<forall>s n. n \<noteq> node \<longrightarrow>
        node_children K (node_tree_free K s n) node = node_children K s node
        \<and> (\<forall>m. m \<noteq> n \<longrightarrow> node_name K (node_tree_free K s n) m = node_name K s m)
        \<and> freed (node_tree_free K s n) = freed s @ [n])
     \<and> (\<forall>s c. c \<in> set (node_children K s node) \<and> distinct (map (node_name K s) (node_children K s node)) \<longrightarrow>
        (\<exists>s'. take_child K s node (node_name K s c) = (s', Some c)
              \<and> node_children K s' node = filter (\<lambda>x. x \<noteq> c) (node_children K s node)
              \<and> node_name K s' = node_name K s \<and> freed s' = freed s))"

text \<open>The nodes freed by the rounds over \<open>cs\<close>, where \<open>P\<close> tells the children that are taken out.\<close>

fun frees :: "('n \<Rightarrow> bool) \<Rightarrow> 'n option \<Rightarrow> 'n list \<Rightarrow> 'n list" where
  "frees P p [] = (case p of None \<Rightarrow> [] | Some n \<Rightarrow> [n])"
| "frees P p (c # cs) = (case p of None \<Rightarrow> [] | Some n \<Rightarrow> [n]) @ (if P c then frees P (Some c) cs else frees P p cs)"

lemma frees_set: "set (frees P p cs) = set_option p \<union> {c \<in> set cs. P c}"
  by (induction P p cs rule: frees.induct) (auto split: option.splits if_splits)

lemma frees_repeats:
  assumes "list_all (\<lambda>c. \<not> P c) ks" and "behind = [] \<or> P (hd behind)"
  shows "frees P (Some r) (ks @ behind) = replicate (Suc (length ks)) r @ (case behind of [] \<Rightarrow> [] | h # t \<Rightarrow> frees P (Some h) t)"
  using assms by (induction ks) (auto split: list.splits)

lemma frees_before:
  assumes "r \<notin> set before" and "p \<noteq> Some r" and "P r"
  shows "\<exists>xs. r \<notin> set xs \<and> frees P p (before @ r # rest) = xs @ frees P (Some r) rest"
  using assms
proof (induction before arbitrary: p)
  case Nil
  then show ?case by (auto split: option.splits intro: exI [of _ "[]"] exI [of _ "[x]" for x])
next
  case (Cons x before)
  let ?q = "if P x then Some x else p"
  have "?q \<noteq> Some r" using Cons.prems by auto
  then obtain xs where "r \<notin> set xs" "frees P ?q (before @ r # rest) = xs @ frees P (Some r) rest"
    using Cons.IH [of ?q] Cons.prems by auto
  then show ?case using Cons.prems
    by (intro exI [of _ "(case p of None \<Rightarrow> [] | Some n \<Rightarrow> [n]) @ xs"]) (auto split: option.splits if_splits)
qed

text \<open>How often a removed child is freed: once more for every child that is kept directly behind it.\<close>

lemma frees_count:
  assumes d: "distinct (before @ r # ks @ behind)" and r: "P r" and ks: "list_all (\<lambda>c. \<not> P c) ks" "behind = [] \<or> P (hd behind)"
  shows "count_list (frees P None (before @ r # ks @ behind)) r = Suc (length ks)"
proof -
  obtain xs where xs: "r \<notin> set xs" "frees P None (before @ r # ks @ behind) = xs @ frees P (Some r) (ks @ behind)"
    using frees_before [of r before None P "ks @ behind"] d r by auto
  have "r \<notin> set (case behind of [] \<Rightarrow> [] | h # t \<Rightarrow> frees P (Some h) t)"
    using d by (auto simp: frees_set split: list.splits)
  moreover have "count_list (replicate n r) r = n" for n by (induction n) simp_all
  ultimately show ?thesis using xs by (simp add: frees_repeats [OF ks] count_list_0_iff [THEN iffD2])
qed

definition kept :: "string \<Rightarrow> bool" where
  "kept nm \<longleftrightarrow> starts_with NO_DELETE_NODE_KEY_INIT nm"

lemma tree_free_keeps:
  assumes "removal_laws K freed node" and "n \<noteq> node" and "n \<notin> set (node_children K s node)"
  shows "node_children K (node_tree_free K s n) node = node_children K s node
    \<and> (\<forall>x \<in> set (node_children K s node). node_name K (node_tree_free K s n) x = node_name K s x)
    \<and> freed (node_tree_free K s n) = freed s @ [n]"
proof -
  have "\<forall>m. m \<noteq> n \<longrightarrow> node_name K (node_tree_free K s n) m = node_name K s m"
      "node_children K (node_tree_free K s n) node = node_children K s node"
      "freed (node_tree_free K s n) = freed s @ [n]"
    using assms(1,2) by (auto simp: removal_laws_def)
  moreover have "\<forall>x \<in> set (node_children K s node). x \<noteq> n" using assms(3) by auto
  ultimately show ?thesis by simp
qed

lemma remove_round_frees:
  assumes laws: "removal_laws K freed node"
  shows "set cs \<subseteq> set (node_children K s node) \<Longrightarrow> distinct cs
     \<Longrightarrow> distinct (map (node_name K s) (node_children K s node)) \<Longrightarrow> node \<notin> set (node_children K s node)
     \<Longrightarrow> (\<And>n. p = Some n \<Longrightarrow> n \<notin> set (node_children K s node) \<and> n \<noteq> node)
     \<Longrightarrow> (\<And>c. c \<in> set (node_children K s node) \<Longrightarrow> node_name K s c = nm c)
     \<Longrightarrow> freed (remove_round K node cs p s) = freed s @ frees (\<lambda>c. \<not> kept (nm c)) p cs
       \<and> node_children K (remove_round K node cs p s) node
           = filter (\<lambda>c. kept (nm c) \<or> c \<notin> set cs) (node_children K s node)
       \<and> (\<forall>c \<in> set (node_children K (remove_round K node cs p s) node).
             node_name K (remove_round K node cs p s) c = nm c)"
proof (induction cs arbitrary: s p)
  case Nil
  show ?case
  proof (cases p)
    case None
    with Nil show ?thesis by simp
  next
    case (Some n)
    with Nil(5) have n: "n \<notin> set (node_children K s node)" "n \<noteq> node" by auto
    from tree_free_keeps [OF laws n(2,1)] Nil(6) Some show ?thesis by simp
  qed
next
  case (Cons c cs)
  define t where "t = (case p of None \<Rightarrow> s | Some n \<Rightarrow> node_tree_free K s n)"
  have t: "node_children K t node = node_children K s node"
      "\<forall>x \<in> set (node_children K s node). node_name K t x = node_name K s x"
      "freed t = freed s @ (case p of None \<Rightarrow> [] | Some n \<Rightarrow> [n])"
    unfolding t_def using Cons.prems(5) tree_free_keeps [OF laws] by (cases p; simp)+
  have dist: "distinct (map (node_name K t) (node_children K t node))"
    using Cons.prems(3) t(1,2) by (simp cong: map_cong)
  have c: "c \<in> set (node_children K t node)" "node_name K t c = nm c" using Cons.prems(1,6) t(1,2) by auto
  show ?case
  proof (cases "kept (nm c)")
    case True
    have step: "remove_round K node (c # cs) p s = remove_round K node cs p t"
      using True c(2) by (simp add: t_def kept_def)
    show ?thesis
    proof (cases p)
      case None
      then have "t = s" by (simp add: t_def)
      with Cons.IH [of s p] Cons.prems True None step show ?thesis by (auto intro!: filter_cong)
    next
      case (Some n)
      have IH: "freed (remove_round K node cs p t) = freed t @ frees (\<lambda>c. \<not> kept (nm c)) p cs
          \<and> node_children K (remove_round K node cs p t) node
              = filter (\<lambda>c. kept (nm c) \<or> c \<notin> set cs) (node_children K t node)
          \<and> (\<forall>c \<in> set (node_children K (remove_round K node cs p t) node).
                node_name K (remove_round K node cs p t) c = nm c)"
        by (rule Cons.IH) (use Cons.prems t dist in auto)
      then show ?thesis unfolding step using True t by (auto intro!: filter_cong)
    qed
  next
    case False
    obtain u where u: "take_child K t node (node_name K t c) = (u, Some c)"
        "node_children K u node = filter (\<lambda>x. x \<noteq> c) (node_children K t node)"
        "node_name K u = node_name K t" "freed u = freed t"
      using laws c(1) dist unfolding removal_laws_def by blast
    have step: "remove_round K node (c # cs) p s = remove_round K node cs (Some c) u"
      using False c(2) u(1) by (simp add: t_def kept_def Let_def)
    have "freed (remove_round K node cs (Some c) u) = freed u @ frees (\<lambda>c. \<not> kept (nm c)) (Some c) cs
        \<and> node_children K (remove_round K node cs (Some c) u) node
            = filter (\<lambda>c. kept (nm c) \<or> c \<notin> set cs) (node_children K u node)
        \<and> (\<forall>x \<in> set (node_children K (remove_round K node cs (Some c) u) node).
              node_name K (remove_round K node cs (Some c) u) x = nm x)"
      by (rule Cons.IH) (use Cons.prems t u c dist in \<open>auto simp: distinct_map inj_on_def\<close>)
    then show ?thesis unfolding step using False t u by (auto intro!: filter_cong)
  qed
qed


lemma demo_find_child:
  "distinct (map f xs) \<Longrightarrow> c \<in> set xs \<Longrightarrow> find (\<lambda>x. f x = f c) xs = Some c"
  by (induction xs) auto

lemma demo_removal_laws: "removal_laws demo_sdk d_freed node"
proof -
  have kids: "d_kids (d_get (d_update (\<lambda>d. d\<lparr>d_kids := xs\<rparr>) n s) n) = (if n < length (d_nodes s) then xs else [])"
      "d_name (d_get (d_update (\<lambda>d. d\<lparr>d_kids := xs\<rparr>) n s) m) = d_name (d_get s m)"
      "d_freed (d_update f n s) = d_freed s"
    for n s m xs f by (auto simp: d_get_def d_update_def nth_list_update)
  have none: "d_kids (d_get s n) = []" if "\<not> n < length (d_nodes s)" for s n
    using that by (simp add: d_get_def)
  have free: "d_get (s\<lparr>d_freed := l\<rparr>) n = d_get s n" for s l n by (simp add: d_get_def)
  have take: "\<exists>s'. take_child demo_sdk s node (node_name demo_sdk s c) = (s', Some c)
      \<and> node_children demo_sdk s' node = filter (\<lambda>x. x \<noteq> c) (node_children demo_sdk s node)
      \<and> node_name demo_sdk s' = node_name demo_sdk s \<and> d_freed s' = d_freed s"
    if c: "c \<in> set (node_children demo_sdk s node)"
      "distinct (map (node_name demo_sdk s) (node_children demo_sdk s node))" for s c
  proof -
    have "node < length (d_nodes s)" using c(1) none [of node s] by (cases "node < length (d_nodes s)") (auto simp: demo_sdk_def)
    moreover have "d_child s node (d_name (d_get s c)) = Some c"
      using demo_find_child [of "\<lambda>x. d_name (d_get s x)" "d_kids (d_get s node)" c] c
      by (simp add: demo_sdk_def d_child_def)
    moreover have "d_update (\<lambda>d. d\<lparr>d_kids := filter (\<lambda>x. x \<noteq> c) (d_kids d)\<rparr>) node s
        = d_update (\<lambda>d. d\<lparr>d_kids := filter (\<lambda>x. x \<noteq> c) (d_kids (d_get s node))\<rparr>) node s"
      by (simp add: d_update_def)
    ultimately show ?thesis by (simp add: demo_sdk_def kids)
  qed
  have "node_children demo_sdk (node_tree_free demo_sdk s n) m = node_children demo_sdk s m
      \<and> node_name demo_sdk (node_tree_free demo_sdk s n) m = node_name demo_sdk s m
      \<and> d_freed (node_tree_free demo_sdk s n) = d_freed s @ [n]" for s n m
    by (simp add: demo_sdk_def free)
  with take show ?thesis by (simp add: removal_laws_def)
qed

definition demo_state_late :: dstate where
  "demo_state_late = d_update (\<lambda>d. d\<lparr>d_kids := [2, 10, 7, 9]\<rparr>) 1 demo_state"


section \<open>Actions\<close>

definition edit_server_action ::
    "('s, 'n, 'c, 'r) sdk \<Rightarrow> ('s, 'n, 'c, 'r) ied \<Rightarrow> 'n \<Rightarrow> action_params \<Rightarrow> 's \<Rightarrow> 's run" where
  "edit_server_action K I node params s =
     rbind (parent_of K s node) (\<lambda>serverNode.
       case server_get K s serverNode of
         None \<Rightarrow> Inl Null_pointer
       | Some server \<Rightarrow> (case p_string params ''Name'' of
           None \<Rightarrow> Inl Null_pointer
         | Some newName \<Rightarrow>
             (if newName = [] then Inr s
              else (case p_string params ''Host'' of
                 None \<Rightarrow> Inl Null_pointer
               | Some newHost \<Rightarrow>
                   (let newTcpPort = i32 (p_int params ''Port'')
                    in if newHost = [] \<or> newTcpPort = 0 then Inr s
                       else if hostname server \<noteq> newHost \<or> node_name K s serverNode \<noteq> newName
                               \<or> tcpPort server \<noteq> newTcpPort
                       then rbind (parent_of K s serverNode) (\<lambda>rootNode.
                            rbind (removeServerNode K I serverNode s) (\<lambda>(s1, removed).
                              if removed then responderInitClient K I rootNode newName newHost newTcpPort s1
                              else Inr s1))
                       else Inr (connect_61850_ied I (iedConn server) newHost newTcpPort s))))))"

text \<open>
  Confirming the values that the edit dialog shows removes the server and adds it again: the name in the dialog lacks
  the prefix of the node.
\<close>

lemma edit_with_shown_values:
  assumes "parent_of K s node = Inr serverNode" and "server_get K s serverNode = Some server"
    and "node_name K s serverNode = SERVER_NODE_KEY_INIT @ nm" and "nm \<noteq> []"
    and "p_string params ''Name'' = Some nm" and "p_string params ''Host'' = Some (hostname server)"
    and "hostname server \<noteq> []" and "i32 (p_int params ''Port'') = tcpPort server" and "tcpPort server \<noteq> 0"
  shows "edit_server_action K I node params s
    = rbind (parent_of K s serverNode) (\<lambda>rootNode.
      rbind (removeServerNode K I serverNode s) (\<lambda>(s1, removed).
        if removed then responderInitClient K I rootNode nm (hostname server) (tcpPort server) s1 else Inr s1))"
proof -
  have "length (SERVER_NODE_KEY_INIT @ nm) \<noteq> length nm" by (simp add: SERVER_NODE_KEY_INIT_def)
  then have "SERVER_NODE_KEY_INIT @ nm \<noteq> nm" by metis
  with assms show ?thesis by (simp add: edit_server_action_def Let_def)
qed

definition remove_server_action ::
    "('s, 'n, 'c, 'r) sdk \<Rightarrow> ('s, 'n, 'c, 'r) ied \<Rightarrow> 'n \<Rightarrow> 's \<Rightarrow> 's run" where
  "remove_server_action K I node s =
     (let s1 = send_closed K s
      in rbind (parent_of K s1 node) (\<lambda>serverNode.
         rbind (removeServerNode K I serverNode s1) (\<lambda>(s2, _). Inr s2)))"

definition clear_server_action :: "('s, 'n, 'c, 'r) sdk \<Rightarrow> 'n \<Rightarrow> 's \<Rightarrow> 's run" where
  "clear_server_action K node s =
     (let s1 = send_closed K s
      in rbind (parent_of K s1 node) (\<lambda>serverNode. Inr (removeAllDataModel K serverNode s1)))"

definition discover_action ::
    "('s, 'n, 'c, 'r) sdk \<Rightarrow> ('s, 'n, 'c, 'r) ied \<Rightarrow> (FunctionalConstraint \<Rightarrow> FunctionalConstraint) \<Rightarrow> 'n \<Rightarrow> 's \<Rightarrow> 's run" where
  "discover_action K I leftover node s =
     (let s1 = send_closed K s
      in rbind (parent_of K s1 node) (\<lambda>serverNode.
           if isDiscovered K s1 serverNode then Inr s1
           else (case server_get K s1 serverNode of
                   None \<Rightarrow> Inl Null_pointer
                 | Some server \<Rightarrow> (case iedConn server of
                       None \<Rightarrow> Inl Null_pointer
                     | Some con \<Rightarrow> discover61850Server K I leftover serverNode con s1))))"

end
