(* ===== verification/Mms_Value.thy ===== *)
theory Mms_Value
  imports Mms_Type Conversions Iec61850_Common
begin

text \<open>
  MMS values: \<open>libiec61850/src/mms/iso_mms/common/mms_value.c\<close> with
  \<open>mms/inc_private/mms_value_internal.h\<close>.

  A value is the tree that its pointers span; the component of an array or a structure may be a null pointer. The
  union is a datatype, and reading a member other than the one that was written is \<open>Undefined_operation\<close>; the code
  checks the type in some of the setters only. The buffer of a string is its text
  and the number of octets that were allocated for it. Floating point numbers are bit patterns; the conversions between
  the two formats are arguments.
\<close>

unbundle bit_operations_syntax

section \<open>The representation\<close>

datatype sMmsValue = MmsValue (mtype: MmsType) (deleteValue: byte) (mvalue: uMmsValue)
and uMmsValue =
    U_zeroed
  | U_dataAccessError int
  | U_structure "sMmsValue option list"
  | U_boolean bool
  | U_integer Asn1PrimitiveValue
  | U_floatingPoint (exponentWidth: byte) (formatWidth: byte) (float_buf: "byte list")
  | U_octetString u16 u16 "byte list"
  | U_bitString int "byte list"
  | U_visibleString "(byte list \<times> int) option" int
  | U_utcTime "byte list"
  | U_binaryTime byte "byte list"

text \<open>Reading a member of the union.\<close>

definition structure_of :: "uMmsValue \<Rightarrow> sMmsValue option list run" where
  "structure_of u = (case u of U_structure cs \<Rightarrow> Inr cs | _ \<Rightarrow> Inl Undefined_operation)"

definition boolean_of :: "uMmsValue \<Rightarrow> bool run" where
  "boolean_of u = (case u of U_boolean b \<Rightarrow> Inr b | _ \<Rightarrow> Inl Undefined_operation)"

definition integer_of :: "uMmsValue \<Rightarrow> Asn1PrimitiveValue run" where
  "integer_of u = (case u of U_integer v \<Rightarrow> Inr v | _ \<Rightarrow> Inl Undefined_operation)"

definition float_of :: "uMmsValue \<Rightarrow> (byte \<times> byte \<times> byte list) run" where
  "float_of u = (case u of U_floatingPoint e f b \<Rightarrow> Inr (e, f, b) | _ \<Rightarrow> Inl Undefined_operation)"

definition octets_of :: "uMmsValue \<Rightarrow> (u16 \<times> u16 \<times> byte list) run" where
  "octets_of u = (case u of U_octetString n m b \<Rightarrow> Inr (n, m, b) | _ \<Rightarrow> Inl Undefined_operation)"

definition bits_of :: "uMmsValue \<Rightarrow> (int \<times> byte list) run" where
  "bits_of u = (case u of U_bitString n b \<Rightarrow> Inr (n, b) | _ \<Rightarrow> Inl Undefined_operation)"

definition string_member :: "uMmsValue \<Rightarrow> ((byte list \<times> int) option \<times> int) run" where
  "string_member u = (case u of U_visibleString b n \<Rightarrow> Inr (b, n) | _ \<Rightarrow> Inl Undefined_operation)"

definition utc_of :: "uMmsValue \<Rightarrow> byte list run" where
  "utc_of u = (case u of U_utcTime b \<Rightarrow> Inr b | _ \<Rightarrow> Inl Undefined_operation)"

definition binary_of :: "uMmsValue \<Rightarrow> (byte \<times> byte list) run" where
  "binary_of u = (case u of U_binaryTime n b \<Rightarrow> Inr (n, b) | _ \<Rightarrow> Inl Undefined_operation)"

definition error_of :: "uMmsValue \<Rightarrow> int run" where
  "error_of u = (case u of U_dataAccessError e \<Rightarrow> Inr e | _ \<Rightarrow> Inl Undefined_operation)"

lemmas member_defs = structure_of_def boolean_of_def integer_of_def float_of_def octets_of_def bits_of_def
  string_member_def utc_of_def binary_of_def error_of_def

text \<open>\<open>memcmp\<close> of \<open>n\<close> octets gives 0; \<open>memcpy\<close> to the front of a buffer.\<close>

definition same_octets :: "byte list \<Rightarrow> byte list \<Rightarrow> nat \<Rightarrow> bool run" where
  "same_octets a b n = rbind (rd_n a 0 n) (\<lambda>x. rbind (rd_n b 0 n) (\<lambda>y. Inr (x = y)))"

abbreviation is_complex :: "MmsType \<Rightarrow> bool" where
  "is_complex t \<equiv> t = MMS_ARRAY \<or> t = MMS_STRUCTURE"

definition bitStringByteSize :: "int \<Rightarrow> int" where
  "bitStringByteSize bitSize = bitSize div 8 + (if bitSize mod 8 > 0 then 1 else 0)"

definition MmsValue_getBitStringByteSize :: "sMmsValue \<Rightarrow> int run" where
  "MmsValue_getBitStringByteSize self = rbind (bits_of (mvalue self)) (\<lambda>(n, b). Inr (bitStringByteSize n))"

fun with_member :: "uMmsValue \<Rightarrow> sMmsValue \<Rightarrow> sMmsValue" where
  "with_member u (MmsValue t d _) = MmsValue t d u"


section \<open>Comparison\<close>

definition equal_member :: "MmsType \<Rightarrow> uMmsValue \<Rightarrow> uMmsValue \<Rightarrow> bool run" where
  "equal_member t u w =
     (case t of
        MMS_BOOLEAN \<Rightarrow> rbind (boolean_of u) (\<lambda>a. rbind (boolean_of w) (\<lambda>b. Inr (a = b)))
      | MMS_FLOAT \<Rightarrow> rbind (float_of u) (\<lambda>(e, f, a). rbind (float_of w) (\<lambda>(e', f', b).
          same_octets a b (unat f div 8)))
      | MMS_INTEGER \<Rightarrow> rbind (integer_of u) (\<lambda>a. rbind (integer_of w) (\<lambda>b. Asn1PrimitivaValue_compare a b))
      | MMS_UNSIGNED \<Rightarrow> rbind (integer_of u) (\<lambda>a. rbind (integer_of w) (\<lambda>b. Asn1PrimitivaValue_compare a b))
      | MMS_UTC_TIME \<Rightarrow> rbind (utc_of u) (\<lambda>a. rbind (utc_of w) (\<lambda>b. same_octets a b 8))
      | MMS_BIT_STRING \<Rightarrow> rbind (bits_of u) (\<lambda>(n, a). rbind (bits_of w) (\<lambda>(m, b).
          if n = m then same_octets a b (nat (bitStringByteSize n)) else Inr False))
      | MMS_BINARY_TIME \<Rightarrow> rbind (binary_of u) (\<lambda>(n, a). rbind (binary_of w) (\<lambda>(m, b).
          if n = m then same_octets a b (unat n) else Inr False))
      | MMS_OCTET_STRING \<Rightarrow> rbind (octets_of u) (\<lambda>(n, mx, a). rbind (octets_of w) (\<lambda>(m, mx', b).
          if n = m then same_octets a b (unat n) else Inr False))
      | MMS_VISIBLE_STRING \<Rightarrow> rbind (string_member u) (\<lambda>(a, n). rbind (string_member w) (\<lambda>(b, m).
          case a of Some (s, c) \<Rightarrow> (case b of Some (s', c') \<Rightarrow> Inr (s = s') | None \<Rightarrow> Inr False)
                  | None \<Rightarrow> Inr (b = None)))
      | MMS_STRING \<Rightarrow> rbind (string_member u) (\<lambda>(a, n). rbind (string_member w) (\<lambda>(b, m).
          case a of Some (s, c) \<Rightarrow> (case b of Some (s', c') \<Rightarrow> Inr (s = s') | None \<Rightarrow> Inr False)
                  | None \<Rightarrow> Inr (b = None)))
      | MMS_DATA_ACCESS_ERROR \<Rightarrow> rbind (error_of u) (\<lambda>a. rbind (error_of w) (\<lambda>b. Inr (a = b)))
      | _ \<Rightarrow> Inr False)"

fun MmsValue_equals :: "sMmsValue \<Rightarrow> sMmsValue \<Rightarrow> bool run"
and equal_components :: "sMmsValue option list \<Rightarrow> sMmsValue option list \<Rightarrow> bool run" where
  "MmsValue_equals (MmsValue t d u) other =
     (if t \<noteq> mtype other then Inr False
      else if is_complex t then
        (case u of
           U_structure cs \<Rightarrow>
             rbind (structure_of (mvalue other)) (\<lambda>cs'. if length cs = length cs' then equal_components cs cs' else Inr False)
         | _ \<Rightarrow> Inl Undefined_operation)
      else equal_member t u (mvalue other))"
| "equal_components [] cs' = Inr True"
| "equal_components (c # cs) cs' =
     (case c of None \<Rightarrow> Inl Null_pointer
      | Some v \<Rightarrow> (case cs' of
          Some v' # cs'' \<Rightarrow> rbind (MmsValue_equals v v') (\<lambda>b. if b then equal_components cs cs'' else Inr False)
        | None # _ \<Rightarrow> Inl Null_pointer
        | [] \<Rightarrow> Inl Out_of_bounds))"

fun MmsValue_equalTypes :: "sMmsValue \<Rightarrow> sMmsValue \<Rightarrow> bool run"
and equal_component_types :: "sMmsValue option list \<Rightarrow> sMmsValue option list \<Rightarrow> bool run" where
  "MmsValue_equalTypes (MmsValue t d u) other =
     (if t \<noteq> mtype other then Inr False
      else if is_complex t then
        (case u of
           U_structure cs \<Rightarrow>
             rbind (structure_of (mvalue other)) (\<lambda>cs'. if length cs = length cs' then equal_component_types cs cs' else Inr False)
         | _ \<Rightarrow> Inl Undefined_operation)
      else Inr True)"
| "equal_component_types [] cs' = Inr True"
| "equal_component_types (c # cs) cs' =
     (case c of None \<Rightarrow> Inl Null_pointer
      | Some v \<Rightarrow> (case cs' of
          Some v' # cs'' \<Rightarrow> rbind (MmsValue_equalTypes v v') (\<lambda>b. if b then equal_component_types cs cs'' else Inr False)
        | None # _ \<Rightarrow> Inl Null_pointer
        | [] \<Rightarrow> Inl Out_of_bounds))"


section \<open>Strings\<close>

definition i16 :: "int \<Rightarrow> int" where
  "i16 x = signed_take_bit 15 x"

lemma i16_id [simp]: "- 32768 \<le> x \<Longrightarrow> x < 32768 \<Longrightarrow> i16 x = x"
  unfolding i16_def by (rule signed_take_bit_int_eq_self) simp_all

text \<open>
  \<open>strncpy\<close> of \<open>size + 1\<close> octets into the buffer and a NUL at \<open>size\<close>; a negative count is a huge one. The size has
  16 bits.
\<close>

definition strncpy_terminated :: "(byte list \<times> int) \<Rightarrow> byte list \<Rightarrow> int \<Rightarrow> (byte list \<times> int) run" where
  "strncpy_terminated b s n =
     (if n < 0 \<or> snd b < n + 1 then Inl Out_of_bounds else Inr (take (nat n) s, snd b))"

definition setVisibleStringValue ::
    "(byte list \<times> int) option \<times> int \<Rightarrow> byte list option \<Rightarrow> ((byte list \<times> int) option \<times> int) run" where
  "setVisibleStringValue self str =
     (case fst self of
        None \<Rightarrow> Inr self
      | Some b \<Rightarrow>
          (case str of
             None \<Rightarrow> if snd b \<le> 0 then Inl Out_of_bounds else Inr (Some ([], snd b), snd self)
           | Some s \<Rightarrow>
               let newStringSize = int (length s);
                   (b', n) = (if newStringSize > snd self then (([], newStringSize + 1), i16 newStringSize) else (b, snd self))
               in rbind (strncpy_terminated b' s n) (\<lambda>b''. Inr (Some b'', n))))"

definition MmsValue_newString :: "byte list option \<Rightarrow> MmsType \<Rightarrow> sMmsValue run" where
  "MmsValue_newString str t =
     (case str of
        None \<Rightarrow> Inr (MmsValue t 0 (U_visibleString None 0))
      | Some s \<Rightarrow>
          let stringSize = int (length s)
          in rbind (setVisibleStringValue (Some ([], stringSize + 1), i16 stringSize) str) (\<lambda>(b, n).
               Inr (MmsValue t 0 (U_visibleString b n))))"

definition MmsValue_newVisibleString :: "byte list option \<Rightarrow> sMmsValue run" where
  "MmsValue_newVisibleString str = MmsValue_newString str MMS_VISIBLE_STRING"

definition MmsValue_newMmsString :: "byte list option \<Rightarrow> sMmsValue run" where
  "MmsValue_newMmsString str = MmsValue_newString str MMS_STRING"

text \<open>Memory for a negative number of octets is not to be had.\<close>

definition MmsValue_newStringWithSize :: "int \<Rightarrow> MmsType \<Rightarrow> sMmsValue option run" where
  "MmsValue_newStringWithSize n t =
     (if n + 1 < 0 then Inr None
      else if n + 1 = 0 then Inl Out_of_bounds
      else Inr (Some (MmsValue t 0 (U_visibleString (Some ([], n + 1)) (i16 n)))))"

definition MmsValue_newVisibleStringWithSize :: "int \<Rightarrow> sMmsValue option run" where
  "MmsValue_newVisibleStringWithSize n = MmsValue_newStringWithSize n MMS_VISIBLE_STRING"

definition MmsValue_newMmsStringWithSize :: "int \<Rightarrow> sMmsValue option run" where
  "MmsValue_newMmsStringWithSize n = MmsValue_newStringWithSize n MMS_STRING"

text \<open>\<open>createStringFromBuffer\<close>: the text ends at the first NUL among the \<open>n\<close> octets.\<close>

definition createStringFromBuffer :: "byte list \<Rightarrow> int \<Rightarrow> (byte list \<times> int) run" where
  "createStringFromBuffer buf n =
     (if n < 0 then Inl Out_of_bounds
      else rbind (rd_n buf 0 (nat n)) (\<lambda>xs. Inr (takeWhile (\<lambda>x. x \<noteq> 0) xs, n + 1)))"

definition MmsValue_newStringFromByteArray :: "byte list \<Rightarrow> int \<Rightarrow> MmsType \<Rightarrow> sMmsValue run" where
  "MmsValue_newStringFromByteArray byteArray n t =
     rbind (createStringFromBuffer byteArray n) (\<lambda>b. Inr (MmsValue t 0 (U_visibleString (Some b) (i16 n))))"

definition MmsValue_newVisibleStringFromByteArray :: "byte list \<Rightarrow> int \<Rightarrow> sMmsValue run" where
  "MmsValue_newVisibleStringFromByteArray byteArray n = MmsValue_newStringFromByteArray byteArray n MMS_VISIBLE_STRING"

definition MmsValue_newMmsStringFromByteArray :: "byte list \<Rightarrow> int \<Rightarrow> sMmsValue run" where
  "MmsValue_newMmsStringFromByteArray byteArray n = MmsValue_newStringFromByteArray byteArray n MMS_STRING"

definition set_string :: "sMmsValue \<Rightarrow> byte list option \<Rightarrow> sMmsValue run" where
  "set_string self str =
     rbind (string_member (mvalue self)) (\<lambda>m. rbind (setVisibleStringValue m str) (\<lambda>(b, n).
       Inr (with_member (U_visibleString b n) self)))"

definition MmsValue_setVisibleString :: "sMmsValue \<Rightarrow> byte list option \<Rightarrow> sMmsValue run" where
  "MmsValue_setVisibleString self str = (if mtype self = MMS_VISIBLE_STRING then set_string self str else Inr self)"

definition MmsValue_setMmsString :: "sMmsValue \<Rightarrow> byte list option \<Rightarrow> sMmsValue run" where
  "MmsValue_setMmsString self str = (if mtype self = MMS_STRING then set_string self str else Inr self)"

definition MmsValue_toString :: "sMmsValue \<Rightarrow> byte list option run" where
  "MmsValue_toString self =
     (if mtype self = MMS_VISIBLE_STRING \<or> mtype self = MMS_STRING
      then rbind (string_member (mvalue self)) (\<lambda>(b, n). Inr (map_option fst b))
      else Inr None)"

definition MmsValue_getStringSize :: "sMmsValue \<Rightarrow> int run" where
  "MmsValue_getStringSize self =
     (if mtype self = MMS_VISIBLE_STRING \<or> mtype self = MMS_STRING
      then rbind (string_member (mvalue self)) (\<lambda>(b, n). Inr n)
      else Inr 0)"


section \<open>Update\<close>

text \<open>What the code does with a value of a leaf type; the second component is the result.\<close>

definition update_member :: "MmsType \<Rightarrow> uMmsValue \<Rightarrow> uMmsValue \<Rightarrow> (uMmsValue \<times> bool) run" where
  "update_member t u w =
     (case t of
        MMS_BOOLEAN \<Rightarrow> rbind (boolean_of w) (\<lambda>b. rbind (boolean_of u) (\<lambda>_. Inr (U_boolean b, True)))
      | MMS_FLOAT \<Rightarrow> rbind (float_of u) (\<lambda>(e, f, a). rbind (float_of w) (\<lambda>(e', f', b).
          if f = f' then rbind (memcpy_to a 0 b (uint f div 8)) (\<lambda>a'. Inr (U_floatingPoint e' f a', True))
          else Inr (u, False)))
      | MMS_INTEGER \<Rightarrow> rbind (integer_of u) (\<lambda>a. rbind (integer_of w) (\<lambda>b.
          rbind (BerInteger_setFromBerInteger a b) (\<lambda>(a', r). Inr (U_integer a', r \<noteq> 0))))
      | MMS_UNSIGNED \<Rightarrow> rbind (integer_of u) (\<lambda>a. rbind (integer_of w) (\<lambda>b.
          rbind (BerInteger_setFromBerInteger a b) (\<lambda>(a', r). Inr (U_integer a', r \<noteq> 0))))
      | MMS_UTC_TIME \<Rightarrow> rbind (utc_of u) (\<lambda>a. rbind (utc_of w) (\<lambda>b.
          rbind (memcpy_to a 0 b 8) (\<lambda>a'. Inr (U_utcTime a', True))))
      | MMS_BIT_STRING \<Rightarrow> rbind (bits_of u) (\<lambda>(n, a). rbind (bits_of w) (\<lambda>(m, b).
          if n = m then rbind (memcpy_to a 0 b (bitStringByteSize n)) (\<lambda>a'. Inr (U_bitString n a', True))
          else Inr (u, False)))
      | MMS_OCTET_STRING \<Rightarrow> rbind (octets_of u) (\<lambda>(n, mx, a). rbind (octets_of w) (\<lambda>(m, mx', b).
          if mx = mx' then rbind (memcpy_to a 0 b (uint m)) (\<lambda>a'. Inr (U_octetString m mx a', True))
          else Inr (u, False)))
      | MMS_VISIBLE_STRING \<Rightarrow> rbind (string_member u) (\<lambda>m. rbind (string_member w) (\<lambda>(b, _).
          rbind (setVisibleStringValue m (map_option fst b)) (\<lambda>(b', n). Inr (U_visibleString b' n, True))))
      | MMS_STRING \<Rightarrow> rbind (string_member u) (\<lambda>m. rbind (string_member w) (\<lambda>(b, _).
          rbind (setVisibleStringValue m (map_option fst b)) (\<lambda>(b', n). Inr (U_visibleString b' n, True))))
      | MMS_BINARY_TIME \<Rightarrow> rbind (binary_of u) (\<lambda>(n, a). rbind (binary_of w) (\<lambda>(m, b).
          rbind (memcpy_to a 0 b (uint m)) (\<lambda>a'. Inr (U_binaryTime m a', True))))
      | _ \<Rightarrow> Inr (u, False))"

text \<open>\<open>updateStructuredComponent\<close> visits as many components as the updated value has, and drops the results.\<close>

fun MmsValue_update :: "sMmsValue \<Rightarrow> sMmsValue \<Rightarrow> (sMmsValue \<times> bool) run"
and updateStructuredComponent :: "sMmsValue option list \<Rightarrow> sMmsValue option list \<Rightarrow> sMmsValue option list run" where
  "MmsValue_update (MmsValue t d u) update =
     (if t \<noteq> mtype update then Inr (MmsValue t d u, False)
      else if is_complex t then
        (case u of
           U_structure cs \<Rightarrow>
             rbind (structure_of (mvalue update)) (\<lambda>ws. rbind (updateStructuredComponent cs ws) (\<lambda>cs'.
               Inr (MmsValue t d (U_structure cs'), True)))
         | _ \<Rightarrow> Inl Undefined_operation)
      else rbind (update_member t u (mvalue update)) (\<lambda>(u', r). Inr (MmsValue t d u', r)))"
| "updateStructuredComponent [] ws = Inr []"
| "updateStructuredComponent (c # cs) ws =
     (case c of None \<Rightarrow> Inl Null_pointer
      | Some v \<Rightarrow> (case ws of
          Some w # ws' \<Rightarrow> rbind (MmsValue_update v w) (\<lambda>(v', _). rbind (updateStructuredComponent cs ws') (\<lambda>cs'.
            Inr (Some v' # cs')))
        | None # _ \<Rightarrow> Inl Null_pointer
        | [] \<Rightarrow> Inl Out_of_bounds))"


section \<open>Bit strings\<close>

definition MmsValue_newBitString :: "int \<Rightarrow> sMmsValue" where
  "MmsValue_newBitString bitSize =
     MmsValue MMS_BIT_STRING 0 (U_bitString \<bar>bitSize\<bar> (replicate (nat (bitStringByteSize \<bar>bitSize\<bar>)) 0))"

text \<open>\<open>getBitStringByteSize\<close> is a second function with the same result.\<close>

definition getBitStringByteSize :: "int \<Rightarrow> int" where
  "getBitStringByteSize bitSize = (if bitSize mod 8 \<noteq> 0 then bitSize div 8 + 1 else bitSize div 8)"

text \<open>A loop that stores into the octets \<open>0..<n\<close> of a buffer.\<close>

definition fill_octets :: "byte list \<Rightarrow> int \<Rightarrow> byte \<Rightarrow> byte list run" where
  "fill_octets buf n x = memcpy_to buf 0 (replicate (nat n) x) n"

definition MmsValue_deleteAllBitStringBits :: "sMmsValue \<Rightarrow> sMmsValue run" where
  "MmsValue_deleteAllBitStringBits self =
     rbind (bits_of (mvalue self)) (\<lambda>(n, buf). rbind (fill_octets buf (getBitStringByteSize n) 0) (\<lambda>buf'.
       Inr (with_member (U_bitString n buf') self)))"

definition MmsValue_setAllBitStringBits :: "sMmsValue \<Rightarrow> sMmsValue run" where
  "MmsValue_setAllBitStringBits self =
     rbind (bits_of (mvalue self)) (\<lambda>(n, buf).
       let byteSize = getBitStringByteSize n
       in rbind (fill_octets buf byteSize 0xff) (\<lambda>buf'.
            let padding = byteSize * 8 - n; paddingMask = NOT (padding_sum (nat padding))
            in rbind (rd buf' (byteSize - 1)) (\<lambda>x. rbind (memcpy_to buf' (byteSize - 1) [x AND paddingMask] 1) (\<lambda>buf''.
                 Inr (with_member (U_bitString n buf'') self)))))"

definition MmsValue_getBitStringSize :: "sMmsValue \<Rightarrow> int run" where
  "MmsValue_getBitStringSize self = rbind (bits_of (mvalue self)) (\<lambda>(n, buf). Inr n)"

lemma drop_bit_less: "(b :: byte) \<noteq> 0 \<Longrightarrow> unat (drop_bit (Suc 0) b) < unat b"
proof -
  assume "b \<noteq> 0"
  then have "0 < unat b" by (simp add: unat_gt_0)
  moreover have "unat (drop_bit (Suc 0) b) = unat b div 2"
    by (simp add: unat_div drop_bit_eq_div del: drop_bit_Suc)
  ultimately show ?thesis by simp
qed

text \<open>The inner loop: the octet is shifted right until it is 0.\<close>

function set_bits :: "byte \<Rightarrow> int" where
  "set_bits currentByte =
     (if currentByte = 0 then 0
      else (if currentByte AND 1 = 1 then 1 else 0) + set_bits (drop_bit 1 currentByte))"
  by pat_completeness auto

termination
  by (relation "measure unat") (auto simp: drop_bit_less)

declare set_bits.simps [simp del]

definition MmsValue_getNumberOfSetBits :: "sMmsValue \<Rightarrow> int run" where
  "MmsValue_getNumberOfSetBits self =
     rbind (bits_of (mvalue self)) (\<lambda>(n, buf). rbind (rd_n buf 0 (nat (getBitStringByteSize n))) (\<lambda>xs.
       Inr (sum_list (map set_bits xs))))"

text \<open>
  Division by 8 truncates: a negative position has the octet 0 up to -7 and no bit in it; only the end of the string is checked.
\<close>

definition bytePos :: "int \<Rightarrow> int" where
  "bytePos bitPos = (if bitPos < 0 then - (- bitPos div 8) else bitPos div 8)"

definition bitPosInByte :: "int \<Rightarrow> int" where
  "bitPosInByte bitPos = 7 - (bitPos - 8 * bytePos bitPos)"

definition MmsValue_setBitStringBit :: "sMmsValue \<Rightarrow> int \<Rightarrow> bool \<Rightarrow> sMmsValue run" where
  "MmsValue_setBitStringBit self bitPos v =
     rbind (bits_of (mvalue self)) (\<lambda>(n, buf).
       if bitPos < n then
         rbind (rd buf (bytePos bitPos)) (\<lambda>x.
           let k = nat (bitPosInByte bitPos); x' = (if v then set_bit k x else unset_bit k x)
           in rbind (memcpy_to buf (bytePos bitPos) [x'] 1) (\<lambda>buf'. Inr (with_member (U_bitString n buf') self)))
       else Inr self)"

definition MmsValue_getBitStringBit :: "sMmsValue \<Rightarrow> int \<Rightarrow> bool run" where
  "MmsValue_getBitStringBit self bitPos =
     rbind (bits_of (mvalue self)) (\<lambda>(n, buf).
       if bitPos < n then rbind (rd buf (bytePos bitPos)) (\<lambda>x. Inr (bit x (nat (bitPosInByte bitPos))))
       else Inr False)"

text \<open>
  The conversions from and to integers are loops over the positions of the bits: \<open>i\<close> counts the rounds. A shift by more than 31
  positions is undefined.
\<close>

fun bits_value :: "sMmsValue \<Rightarrow> nat \<Rightarrow> int list \<Rightarrow> u32 \<Rightarrow> u32 run" where
  "bits_value self i [] v = Inr v"
| "bits_value self i (p # ps) v =
     rbind (MmsValue_getBitStringBit self p) (\<lambda>b.
       if b then (if i < 32 then bits_value self (Suc i) ps (v + push_bit i 1) else Inl Undefined_operation)
       else bits_value self (Suc i) ps v)"

fun store_bits :: "sMmsValue \<Rightarrow> int list \<Rightarrow> u32 \<Rightarrow> sMmsValue run" where
  "store_bits self [] v = Inr self"
| "store_bits self (p # ps) v =
     rbind (MmsValue_setBitStringBit self p (v AND 1 = 1)) (\<lambda>self'. store_bits self' ps (drop_bit 1 v))"

definition MmsValue_getBitStringAsInteger :: "sMmsValue \<Rightarrow> u32 run" where
  "MmsValue_getBitStringAsInteger self =
     rbind (MmsValue_getBitStringSize self) (\<lambda>n. bits_value self 0 (map int [0..<nat n]) 0)"

definition MmsValue_setBitStringFromInteger :: "sMmsValue \<Rightarrow> u32 \<Rightarrow> sMmsValue run" where
  "MmsValue_setBitStringFromInteger self intValue =
     rbind (MmsValue_getBitStringSize self) (\<lambda>n. store_bits self (map int [0..<nat n]) intValue)"

definition MmsValue_getBitStringAsIntegerBigEndian :: "sMmsValue \<Rightarrow> u32 run" where
  "MmsValue_getBitStringAsIntegerBigEndian self =
     rbind (MmsValue_getBitStringSize self) (\<lambda>n. bits_value self 0 (rev (map int [0..<nat n])) 0)"

definition MmsValue_setBitStringFromIntegerBigEndian :: "sMmsValue \<Rightarrow> u32 \<Rightarrow> sMmsValue run" where
  "MmsValue_setBitStringFromIntegerBigEndian self intValue =
     rbind (MmsValue_getBitStringSize self) (\<lambda>n. store_bits self (rev (map int [0..<nat n])) intValue)"


section \<open>Numbers\<close>

text \<open>The conversions between \<open>float\<close> and \<open>double\<close> of the machine, on bit patterns.\<close>

record float_ops =
  to_double :: "u32 \<Rightarrow> u64"
  to_float :: "u64 \<Rightarrow> u32"

text \<open>Reading and writing a machine word through a pointer into a buffer.\<close>

definition load_word :: "byte list \<Rightarrow> nat \<Rightarrow> 'a :: len word run" where
  "load_word buf n = rbind (rd_n buf 0 n) (\<lambda>xs. Inr (word_of_int (be_from 0 (rev xs))))"

definition store_word :: "byte list \<Rightarrow> nat \<Rightarrow> 'a :: len word \<Rightarrow> byte list run" where
  "store_word buf n w = memcpy_to buf 0 (le_octets n w) (int n)"

definition MmsValue_newFloat :: "u32 \<Rightarrow> sMmsValue" where
  "MmsValue_newFloat variable = MmsValue MMS_FLOAT 0 (U_floatingPoint 8 32 (le_octets 4 variable))"

definition MmsValue_newDouble :: "u64 \<Rightarrow> sMmsValue" where
  "MmsValue_newDouble variable = MmsValue MMS_FLOAT 0 (U_floatingPoint 11 64 (le_octets 8 variable))"

definition MmsValue_setFloat :: "float_ops \<Rightarrow> sMmsValue \<Rightarrow> u32 \<Rightarrow> sMmsValue run" where
  "MmsValue_setFloat F self newFloatValue =
     (if mtype self = MMS_FLOAT then
        rbind (float_of (mvalue self)) (\<lambda>(e, f, buf).
          if f = 32 then rbind (store_word buf 4 newFloatValue) (\<lambda>b. Inr (with_member (U_floatingPoint e f b) self))
          else if f = 64 then rbind (store_word buf 8 (to_double F newFloatValue)) (\<lambda>b.
                 Inr (with_member (U_floatingPoint e f b) self))
          else Inr self)
      else Inr self)"

definition MmsValue_setDouble :: "float_ops \<Rightarrow> sMmsValue \<Rightarrow> u64 \<Rightarrow> sMmsValue run" where
  "MmsValue_setDouble F self newFloatValue =
     (if mtype self = MMS_FLOAT then
        rbind (float_of (mvalue self)) (\<lambda>(e, f, buf).
          if f = 32 then rbind (store_word buf 4 (to_float F newFloatValue)) (\<lambda>b.
                 Inr (with_member (U_floatingPoint e f b) self))
          else if f = 64 then rbind (store_word buf 8 newFloatValue) (\<lambda>b. Inr (with_member (U_floatingPoint e f b) self))
          else Inr self)
      else Inr self)"

definition MmsValue_toFloat :: "float_ops \<Rightarrow> sMmsValue \<Rightarrow> u32 run" where
  "MmsValue_toFloat F self =
     (if mtype self = MMS_FLOAT then
        rbind (float_of (mvalue self)) (\<lambda>(e, f, buf).
          if f = 32 then load_word buf 4
          else if f = 64 then rbind (load_word buf 8) (\<lambda>d. Inr (to_float F d))
          else Inr 0)
      else Inr 0)"

definition MmsValue_toDouble :: "float_ops \<Rightarrow> sMmsValue \<Rightarrow> u64 run" where
  "MmsValue_toDouble F self =
     (if mtype self = MMS_FLOAT then
        rbind (float_of (mvalue self)) (\<lambda>(e, f, buf).
          if f = 32 then rbind (load_word buf 4) (\<lambda>v. Inr (to_double F v))
          else if f = 64 then load_word buf 8
          else Inr 0)
      else Inr 0)"


text \<open>Integers: 8 and 16 bit values are extended to 32 bits.\<close>

definition new_integer :: "MmsType \<Rightarrow> Asn1PrimitiveValue run \<Rightarrow> sMmsValue run" where
  "new_integer t r = rbind r (\<lambda>v. Inr (MmsValue t 0 (U_integer v)))"

definition MmsValue_newIntegerFromBerInteger :: "Asn1PrimitiveValue \<Rightarrow> sMmsValue" where
  "MmsValue_newIntegerFromBerInteger berInteger = MmsValue MMS_INTEGER 0 (U_integer berInteger)"

definition MmsValue_newUnsignedFromBerInteger :: "Asn1PrimitiveValue \<Rightarrow> sMmsValue" where
  "MmsValue_newUnsignedFromBerInteger berInteger = MmsValue MMS_UNSIGNED 0 (U_integer berInteger)"

definition MmsValue_newIntegerFromInt8 :: "byte \<Rightarrow> sMmsValue run" where
  "MmsValue_newIntegerFromInt8 i = new_integer MMS_INTEGER (BerInteger_createFromInt32 (scast i))"

definition MmsValue_newIntegerFromInt16 :: "u16 \<Rightarrow> sMmsValue run" where
  "MmsValue_newIntegerFromInt16 i = new_integer MMS_INTEGER (BerInteger_createFromInt32 (scast i))"

definition MmsValue_newIntegerFromInt32 :: "u32 \<Rightarrow> sMmsValue run" where
  "MmsValue_newIntegerFromInt32 i = new_integer MMS_INTEGER (BerInteger_createFromInt32 i)"

definition MmsValue_newUnsignedFromUint32 :: "u32 \<Rightarrow> sMmsValue run" where
  "MmsValue_newUnsignedFromUint32 i = new_integer MMS_UNSIGNED (BerInteger_createFromUint32 i)"

definition MmsValue_newIntegerFromInt64 :: "u64 \<Rightarrow> sMmsValue run" where
  "MmsValue_newIntegerFromInt64 i = new_integer MMS_INTEGER (BerInteger_createFromInt64 i)"

definition set_integer :: "MmsType \<Rightarrow> int \<Rightarrow> (Asn1PrimitiveValue \<Rightarrow> (Asn1PrimitiveValue \<times> int) run) \<Rightarrow> sMmsValue \<Rightarrow> sMmsValue run" where
  "set_integer t minSize setter self =
     (if mtype self = t then
        rbind (integer_of (mvalue self)) (\<lambda>v.
          if Asn1PrimitiveValue_getMaxSize v \<ge> minSize
          then rbind (setter v) (\<lambda>(v', _). Inr (with_member (U_integer v') self))
          else Inr self)
      else Inr self)"

definition MmsValue_setInt8 :: "sMmsValue \<Rightarrow> byte \<Rightarrow> sMmsValue run" where
  "MmsValue_setInt8 self i = set_integer MMS_INTEGER 1 (\<lambda>v. BerInteger_setInt32 v (scast i)) self"

definition MmsValue_setInt16 :: "sMmsValue \<Rightarrow> u16 \<Rightarrow> sMmsValue run" where
  "MmsValue_setInt16 self i = set_integer MMS_INTEGER 1 (\<lambda>v. BerInteger_setInt32 v (scast i)) self"

definition MmsValue_setInt32 :: "sMmsValue \<Rightarrow> u32 \<Rightarrow> sMmsValue run" where
  "MmsValue_setInt32 self i = set_integer MMS_INTEGER 4 (\<lambda>v. BerInteger_setInt32 v i) self"

definition MmsValue_setInt64 :: "sMmsValue \<Rightarrow> u64 \<Rightarrow> sMmsValue run" where
  "MmsValue_setInt64 self i = set_integer MMS_INTEGER 8 (\<lambda>v. BerInteger_setInt64 v i) self"

definition MmsValue_setUint32 :: "sMmsValue \<Rightarrow> u32 \<Rightarrow> sMmsValue run" where
  "MmsValue_setUint32 self i = set_integer MMS_UNSIGNED 4 (\<lambda>v. BerInteger_setUint32 v i) self"

definition MmsValue_setUint16 :: "sMmsValue \<Rightarrow> u16 \<Rightarrow> sMmsValue run" where
  "MmsValue_setUint16 self i = set_integer MMS_UNSIGNED 2 (\<lambda>v. BerInteger_setUint16 v i) self"

definition MmsValue_setUint8 :: "sMmsValue \<Rightarrow> byte \<Rightarrow> sMmsValue run" where
  "MmsValue_setUint8 self i = set_integer MMS_UNSIGNED 1 (\<lambda>v. BerInteger_setUint8 v i) self"

definition get_integer :: "(Asn1PrimitiveValue \<Rightarrow> 'a :: len word option run) \<Rightarrow> sMmsValue \<Rightarrow> 'a word run" where
  "get_integer reader self =
     (if mtype self = MMS_INTEGER \<or> mtype self = MMS_UNSIGNED then
        rbind (integer_of (mvalue self)) (\<lambda>v. rbind (reader v) (\<lambda>r.
          Inr (case r of None \<Rightarrow> 0 | Some i \<Rightarrow> i)))
      else Inr 0)"

definition MmsValue_toInt32 :: "sMmsValue \<Rightarrow> u32 run" where
  "MmsValue_toInt32 self = get_integer BerInteger_toInt32 self"

definition MmsValue_toUint32 :: "sMmsValue \<Rightarrow> u32 run" where
  "MmsValue_toUint32 self = get_integer BerInteger_toUint32 self"

definition MmsValue_toInt64 :: "sMmsValue \<Rightarrow> u64 run" where
  "MmsValue_toInt64 self = get_integer BerInteger_toInt64 self"

definition MmsValue_newInteger :: "int \<Rightarrow> sMmsValue" where
  "MmsValue_newInteger n =
     MmsValue MMS_INTEGER 0 (U_integer (if n \<le> 32 then BerInteger_createInt32 else BerInteger_createInt64))"

definition MmsValue_newUnsigned :: "int \<Rightarrow> sMmsValue" where
  "MmsValue_newUnsigned n =
     MmsValue MMS_UNSIGNED 0 (U_integer (if n \<le> 32 then BerInteger_createInt32 else BerInteger_createInt64))"

definition MmsValue_newBoolean :: "bool \<Rightarrow> sMmsValue" where
  "MmsValue_newBoolean b = MmsValue MMS_BOOLEAN 0 (U_boolean b)"

definition MmsValue_setBoolean :: "sMmsValue \<Rightarrow> bool \<Rightarrow> sMmsValue run" where
  "MmsValue_setBoolean self b = rbind (boolean_of (mvalue self)) (\<lambda>_. Inr (with_member (U_boolean b) self))"

definition MmsValue_getBoolean :: "sMmsValue \<Rightarrow> bool run" where
  "MmsValue_getBoolean self = boolean_of (mvalue self)"

definition MmsValue_newDataAccessError :: "MmsDataAccessError \<Rightarrow> sMmsValue" where
  "MmsValue_newDataAccessError accessError = MmsValue MMS_DATA_ACCESS_ERROR 0 (U_dataAccessError (error_code accessError))"

definition MmsValue_getDataAccessError :: "sMmsValue \<Rightarrow> int run" where
  "MmsValue_getDataAccessError self = error_of (mvalue self)"


section \<open>Octet strings\<close>

definition MmsValue_newOctetString :: "int \<Rightarrow> int \<Rightarrow> sMmsValue" where
  "MmsValue_newOctetString n mx =
     MmsValue MMS_OCTET_STRING 0 (U_octetString (word_of_int n) (word_of_int mx) (replicate (nat mx) 0))"

definition MmsValue_setOctetString :: "sMmsValue \<Rightarrow> byte list \<Rightarrow> int \<Rightarrow> sMmsValue run" where
  "MmsValue_setOctetString self buf n =
     rbind (octets_of (mvalue self)) (\<lambda>(m, mx, own).
       if n \<le> uint mx then rbind (memcpy_to own 0 buf n) (\<lambda>own'.
         Inr (with_member (U_octetString (word_of_int n) mx own') self))
       else Inr self)"

definition MmsValue_getOctetStringSize :: "sMmsValue \<Rightarrow> u16 run" where
  "MmsValue_getOctetStringSize self = rbind (octets_of (mvalue self)) (\<lambda>(n, mx, buf). Inr n)"

definition MmsValue_getOctetStringMaxSize :: "sMmsValue \<Rightarrow> u16 run" where
  "MmsValue_getOctetStringMaxSize self = rbind (octets_of (mvalue self)) (\<lambda>(n, mx, buf). Inr mx)"

definition MmsValue_getOctetStringBuffer :: "sMmsValue \<Rightarrow> byte list run" where
  "MmsValue_getOctetStringBuffer self = rbind (octets_of (mvalue self)) (\<lambda>(n, mx, buf). Inr buf)"


section \<open>Times\<close>

text \<open>Changing the eight octets of a UTC time.\<close>

definition set_utc :: "sMmsValue \<Rightarrow> (byte list \<Rightarrow> byte list run) \<Rightarrow> sMmsValue run" where
  "set_utc self f = rbind (utc_of (mvalue self)) (\<lambda>a. rbind (f a) (\<lambda>a'. Inr (with_member (U_utcTime a') self)))"

definition MmsValue_setUtcTime :: "sMmsValue \<Rightarrow> u32 \<Rightarrow> sMmsValue run" where
  "MmsValue_setUtcTime self timeval =
     set_utc self (\<lambda>valueArray. memcpyReverseByteOrder valueArray (le_bytes32 timeval) 4)"

definition MmsValue_setUtcTimeMs :: "sMmsValue \<Rightarrow> u64 \<Rightarrow> sMmsValue run" where
  "MmsValue_setUtcTimeMs self timeval =
     (let timeval32 = ucast (timeval div 1000) :: u32;
          remaining = ucast (timeval mod 1000) :: u32;
          fractionOfSecond = remaining * 16777 + (remaining * 216) div 1000
      in set_utc self (\<lambda>valueArray.
           rbind (memcpyReverseByteOrder valueArray (le_bytes32 timeval32) 4) (\<lambda>a.
             memcpy_to a 4 [ucast (drop_bit 16 fractionOfSecond AND 0xff), ucast (drop_bit 8 fractionOfSecond AND 0xff),
               ucast (fractionOfSecond AND 0xff), 0x0a] 4)))"

definition MmsValue_setUtcTimeQuality :: "sMmsValue \<Rightarrow> byte \<Rightarrow> sMmsValue run" where
  "MmsValue_setUtcTimeQuality self timeQuality = set_utc self (\<lambda>a. memcpy_to a 7 [timeQuality] 1)"

definition MmsValue_getUtcTimeQuality :: "sMmsValue \<Rightarrow> byte run" where
  "MmsValue_getUtcTimeQuality self = rbind (utc_of (mvalue self)) (\<lambda>a. rd a 7)"

definition MmsValue_setUtcTimeByBuffer :: "sMmsValue \<Rightarrow> byte list \<Rightarrow> sMmsValue run" where
  "MmsValue_setUtcTimeByBuffer self buf = set_utc self (\<lambda>a. memcpy_to a 0 buf 8)"

definition MmsValue_getUtcTimeBuffer :: "sMmsValue \<Rightarrow> byte list run" where
  "MmsValue_getUtcTimeBuffer self = utc_of (mvalue self)"

definition utc_seconds :: "byte list \<Rightarrow> u32 run" where
  "utc_seconds a = rbind (memcpyReverseByteOrder [0, 0, 0, 0] a 4) (\<lambda>t. load_word t 4)"

definition MmsValue_getUtcTimeInMs :: "sMmsValue \<Rightarrow> u64 run" where
  "MmsValue_getUtcTimeInMs self =
     rbind (utc_of (mvalue self)) (\<lambda>a. rbind (utc_seconds a) (\<lambda>timeval32.
     rbind (rd a 4) (\<lambda>b4. rbind (rd a 5) (\<lambda>b5. rbind (rd a 6) (\<lambda>b6.
       let fractionOfSecond = push_bit 16 (ucast b4) + push_bit 8 (ucast b5) + ucast b6 :: u32
       in Inr (ucast timeval32 * 1000 + ucast (fractionOfSecond div 16777)))))))"

definition MmsValue_getUtcTimeInMsWithUs :: "sMmsValue \<Rightarrow> (u64 \<times> u32) run" where
  "MmsValue_getUtcTimeInMsWithUs self =
     rbind (utc_of (mvalue self)) (\<lambda>a. rbind (utc_seconds a) (\<lambda>timeval32.
     rbind (rd a 4) (\<lambda>b4. rbind (rd a 5) (\<lambda>b5. rbind (rd a 6) (\<lambda>b6.
       let fractionOfSecond = push_bit 16 (ucast b4) + push_bit 8 (ucast b5) + ucast b6 :: u64;
           remaining = fractionOfSecond * 1000000 div 0x1000000
       in Inr (ucast timeval32 * 1000 + remaining div 1000, ucast (remaining mod 1000)))))))"

definition MmsValue_newUtcTime :: "u32 \<Rightarrow> sMmsValue" where
  "MmsValue_newUtcTime timeval = MmsValue MMS_UTC_TIME 0 (U_utcTime (rev (le_bytes32 timeval) @ [0, 0, 0, 0]))"

definition MmsValue_newUtcTimeByMsTime :: "u64 \<Rightarrow> sMmsValue run" where
  "MmsValue_newUtcTimeByMsTime timeval =
     MmsValue_setUtcTimeMs (MmsValue MMS_UTC_TIME 0 (U_utcTime (replicate 8 0))) timeval"

definition MmsValue_toUnixTimestamp :: "sMmsValue \<Rightarrow> u32 run" where
  "MmsValue_toUnixTimestamp self =
     rbind (utc_of (mvalue self)) (\<lambda>a. rbind (rd_n a 0 4) (\<lambda>xs. load_word (rev xs) 4))"

text \<open>Binary times: milliseconds since midnight and, in the long format, the days since 1984.\<close>

definition MmsValue_newBinaryTime :: "bool \<Rightarrow> sMmsValue" where
  "MmsValue_newBinaryTime timeOfDay =
     MmsValue MMS_BINARY_TIME 0 (U_binaryTime (if timeOfDay then 4 else 6) (replicate 6 0))"

definition MmsValue_setBinaryTime :: "sMmsValue \<Rightarrow> u64 \<Rightarrow> sMmsValue run" where
  "MmsValue_setBinaryTime self timestamp =
     (let mmsTime = (if timestamp > 441763200000 then timestamp - 441763200000 else 0);
          daysDiff = ucast (mmsTime div 86400000) :: u16;
          msSinceMidnight = ucast (mmsTime mod 86400000) :: u32
      in rbind (binary_of (mvalue self)) (\<lambda>(n, buf).
         rbind (if n = 6 then memcpy_to buf 4 (rev (le_octets 2 daysDiff)) 2 else Inr buf) (\<lambda>buf'.
         rbind (memcpy_to buf' 0 (rev (le_bytes32 msSinceMidnight)) 4) (\<lambda>buf''.
           Inr (with_member (U_binaryTime n buf'') self)))))"

definition MmsValue_getBinaryTimeAsUtcMs :: "sMmsValue \<Rightarrow> u64 run" where
  "MmsValue_getBinaryTimeAsUtcMs self =
     rbind (binary_of (mvalue self)) (\<lambda>(n, buf).
     rbind (if n = 6 then
              rbind (rd buf 4) (\<lambda>b4. rbind (rd buf 5) (\<lambda>b5.
                let daysDiff = ucast b4 * 256 + ucast b5 :: u16
                in Inr (ucast daysDiff * 86400000 + 441763200000 :: u64)))
            else Inr 0) (\<lambda>timestamp.
     rbind (rd buf 0) (\<lambda>b0. rbind (rd buf 1) (\<lambda>b1. rbind (rd buf 2) (\<lambda>b2. rbind (rd buf 3) (\<lambda>b3.
       let msSinceMidnight = push_bit 24 (ucast b0) + push_bit 16 (ucast b1) + push_bit 8 (ucast b2) + ucast b3 :: u32
       in Inr (timestamp + ucast msSinceMidnight)))))))"


section \<open>Copies\<close>

text \<open>What is copied of a leaf. The octets of new memory that are not written count as 0.\<close>

definition clone_string :: "(byte list \<times> int) option \<Rightarrow> int \<Rightarrow> uMmsValue run" where
  "clone_string b n =
     (case b of None \<Rightarrow> Inl Null_pointer
      | Some (s, c) \<Rightarrow> if n < int (length s) then Inl Out_of_bounds else Inr (U_visibleString (Some (s, n + 1)) n))"

definition clone_member :: "MmsType \<Rightarrow> uMmsValue \<Rightarrow> uMmsValue run" where
  "clone_member t u =
     (case t of
        MMS_INTEGER \<Rightarrow> rbind (integer_of u) (\<lambda>v. Inr (U_integer (Asn1PrimitiveValue_clone v)))
      | MMS_UNSIGNED \<Rightarrow> rbind (integer_of u) (\<lambda>v. Inr (U_integer (Asn1PrimitiveValue_clone v)))
      | MMS_FLOAT \<Rightarrow> rbind (float_of u) (\<lambda>(e, f, buf). rbind (rd_n buf 0 (unat f div 8)) (\<lambda>b. Inr (U_floatingPoint e f b)))
      | MMS_BIT_STRING \<Rightarrow> rbind (bits_of u) (\<lambda>(n, buf).
          rbind (rd_n buf 0 (nat (bitStringByteSize n))) (\<lambda>b. Inr (U_bitString n b)))
      | MMS_BOOLEAN \<Rightarrow> rbind (boolean_of u) (\<lambda>b. Inr (U_boolean b))
      | MMS_OCTET_STRING \<Rightarrow> rbind (octets_of u) (\<lambda>(n, mx, buf).
          rbind (memcpy_to (replicate (unat mx) 0) 0 buf (uint n)) (\<lambda>b. Inr (U_octetString n mx b)))
      | MMS_UTC_TIME \<Rightarrow> rbind (utc_of u) (\<lambda>a. rbind (rd_n a 0 8) (\<lambda>b. Inr (U_utcTime b)))
      | MMS_BINARY_TIME \<Rightarrow> rbind (binary_of u) (\<lambda>(n, buf). rbind (rd_n buf 0 6) (\<lambda>b. Inr (U_binaryTime n b)))
      | MMS_VISIBLE_STRING \<Rightarrow> rbind (string_member u) (\<lambda>(b, n). clone_string b n)
      | MMS_STRING \<Rightarrow> rbind (string_member u) (\<lambda>(b, n). clone_string b n)
      | MMS_DATA_ACCESS_ERROR \<Rightarrow> rbind (error_of u) (\<lambda>e. Inr (U_dataAccessError e))
      | _ \<Rightarrow> Inr U_zeroed)"

fun MmsValue_clone :: "sMmsValue \<Rightarrow> sMmsValue run"
and clone_components :: "sMmsValue option list \<Rightarrow> sMmsValue option list run" where
  "MmsValue_clone (MmsValue t d u) =
     (if is_complex t then
        (case u of
           U_structure cs \<Rightarrow> rbind (clone_components cs) (\<lambda>cs'. Inr (MmsValue t d (U_structure cs')))
         | _ \<Rightarrow> Inl Undefined_operation)
      else rbind (clone_member t u) (\<lambda>u'. Inr (MmsValue t d u')))"
| "clone_components [] = Inr []"
| "clone_components (c # cs) =
     (case c of None \<Rightarrow> Inl Null_pointer
      | Some v \<Rightarrow> rbind (MmsValue_clone v) (\<lambda>v'. rbind (clone_components cs) (\<lambda>cs'. Inr (Some v' # cs'))))"

text \<open>
  The sizes of the structures in memory depend on the machine. The copy in a caller's buffer: the value at the destination address, the
  areas of memory that are written (address and number of octets), and the address behind them.
\<close>

record memory_sizes =
  value_size :: int
  pointer_size :: int
  primitive_size :: int

definition leaf_size :: "memory_sizes \<Rightarrow> MmsType \<Rightarrow> uMmsValue \<Rightarrow> int run" where
  "leaf_size Z t u =
     (case t of
        MMS_BIT_STRING \<Rightarrow> rbind (bits_of u) (\<lambda>(n, buf). Inr (bitStringByteSize n))
      | MMS_INTEGER \<Rightarrow> rbind (integer_of u) (\<lambda>v. Inr (primitive_size Z + pmaxSize v))
      | MMS_UNSIGNED \<Rightarrow> rbind (integer_of u) (\<lambda>v. Inr (primitive_size Z + pmaxSize v))
      | MMS_FLOAT \<Rightarrow> rbind (float_of u) (\<lambda>(e, f, buf). Inr (uint f div 8))
      | MMS_OCTET_STRING \<Rightarrow> rbind (octets_of u) (\<lambda>(n, mx, buf). Inr (uint mx))
      | MMS_STRING \<Rightarrow> rbind (string_member u) (\<lambda>(b, n). case b of None \<Rightarrow> Inl Null_pointer | Some (s, c) \<Rightarrow> Inr (int (length s) + 1))
      | MMS_VISIBLE_STRING \<Rightarrow> rbind (string_member u) (\<lambda>(b, n). case b of None \<Rightarrow> Inl Null_pointer | Some (s, c) \<Rightarrow> Inr (int (length s) + 1))
      | _ \<Rightarrow> Inr 0)"

fun MmsValue_getSizeInMemory :: "memory_sizes \<Rightarrow> sMmsValue \<Rightarrow> int run"
and components_size :: "memory_sizes \<Rightarrow> sMmsValue option list \<Rightarrow> int run" where
  "MmsValue_getSizeInMemory Z (MmsValue t d u) =
     (if is_complex t then
        (case u of
           U_structure cs \<Rightarrow> rbind (components_size Z cs) (\<lambda>k. Inr (value_size Z + pointer_size Z * int (length cs) + k))
         | _ \<Rightarrow> Inl Undefined_operation)
      else rbind (leaf_size Z t u) (\<lambda>k. Inr (value_size Z + k)))"
| "components_size Z [] = Inr 0"
| "components_size Z (c # cs) =
     (case c of None \<Rightarrow> Inl Null_pointer
      | Some v \<Rightarrow> rbind (MmsValue_getSizeInMemory Z v) (\<lambda>k. rbind (components_size Z cs) (\<lambda>k'. Inr (k + k'))))"

text \<open>A leaf copied behind its structure: the new member and the areas.\<close>

definition leaf_to_buffer :: "memory_sizes \<Rightarrow> MmsType \<Rightarrow> uMmsValue \<Rightarrow> int \<Rightarrow> (uMmsValue \<times> (int \<times> int) list \<times> int) run" where
  "leaf_to_buffer Z t u dest =
     (if t = MMS_BIT_STRING then
        rbind (bits_of u) (\<lambda>(n, buf). rbind (rd_n buf 0 (nat (bitStringByteSize n))) (\<lambda>b.
          Inr (U_bitString n b, [(dest, bitStringByteSize n)], dest + bitStringByteSize n)))
      else if t = MMS_INTEGER \<or> t = MMS_UNSIGNED then
        rbind (integer_of u) (\<lambda>v. rbind (rd_n (octets v) 0 (nat (pmaxSize v))) (\<lambda>os.
          Inr (U_integer (v\<lparr>octets := os\<rparr>), [(dest, primitive_size Z), (dest + primitive_size Z, pmaxSize v)],
               dest + primitive_size Z + pmaxSize v)))
      else if t = MMS_FLOAT then
        rbind (float_of u) (\<lambda>(e, f, buf). rbind (rd_n buf 0 (unat f div 8)) (\<lambda>b.
          Inr (U_floatingPoint e f b, [(dest, uint f div 8)], dest + uint f div 8)))
      else if t = MMS_OCTET_STRING then
        rbind (octets_of u) (\<lambda>(n, mx, buf). rbind (rd_n buf 0 (unat mx)) (\<lambda>b.
          Inr (U_octetString n mx b, [(dest, uint mx)], dest + uint mx)))
      else if t = MMS_STRING \<or> t = MMS_VISIBLE_STRING then
        rbind (string_member u) (\<lambda>(b, n). case b of None \<Rightarrow> Inl Null_pointer
          | Some (s, c) \<Rightarrow> Inr (U_visibleString (Some (s, int (length s) + 1)) n, [(dest, int (length s) + 1)],
              dest + (int (length s) + 1)))
      else Inr (u, [], dest))"

fun MmsValue_cloneToBuffer :: "memory_sizes \<Rightarrow> sMmsValue \<Rightarrow> int \<Rightarrow> (sMmsValue \<times> (int \<times> int) list \<times> int) run"
and components_to_buffer ::
    "memory_sizes \<Rightarrow> sMmsValue option list \<Rightarrow> int \<Rightarrow> (sMmsValue option list \<times> (int \<times> int) list \<times> int) run" where
  "MmsValue_cloneToBuffer Z (MmsValue t d u) dest =
     (if is_complex t then
        (case u of
           U_structure cs \<Rightarrow>
             let pointers = dest + value_size Z; n = pointer_size Z * int (length cs)
             in rbind (components_to_buffer Z cs (pointers + n)) (\<lambda>(cs', areas, end').
                  Inr (MmsValue t d (U_structure cs'), (dest, value_size Z) # (pointers, n) # areas, end'))
         | _ \<Rightarrow> Inl Undefined_operation)
      else rbind (leaf_to_buffer Z t u (dest + value_size Z)) (\<lambda>(u', areas, end').
             Inr (MmsValue t d u', (dest, value_size Z) # areas, end')))"
| "components_to_buffer Z [] dest = Inr ([], [], dest)"
| "components_to_buffer Z (c # cs) dest =
     (case c of None \<Rightarrow> Inl Null_pointer
      | Some v \<Rightarrow> rbind (MmsValue_cloneToBuffer Z v dest) (\<lambda>(v', areas, dest').
          rbind (components_to_buffer Z cs dest') (\<lambda>(cs', areas', end').
            Inr (Some v' # cs', areas @ areas', end'))))"


section \<open>Values of a type\<close>

definition default_leaf :: "MmsType \<Rightarrow> uMmsTypeSpecification \<Rightarrow> sMmsValue option run" where
  "default_leaf t s =
     (case t of
        MMS_INTEGER \<Rightarrow> rbind (int_member s) (\<lambda>n. Inr (Some (MmsValue_newInteger n)))
      | MMS_UNSIGNED \<Rightarrow> rbind (int_member s) (\<lambda>n. Inr (Some (MmsValue_newUnsigned n)))
      | MMS_FLOAT \<Rightarrow> rbind (float_member s) (\<lambda>(e, f).
          Inr (Some (MmsValue MMS_FLOAT 0 (U_floatingPoint e f (replicate (unat f div 8) 0)))))
      | MMS_BIT_STRING \<Rightarrow> rbind (int_member s) (\<lambda>n.
          let bitSize = \<bar>n\<bar>
          in Inr (Some (MmsValue MMS_BIT_STRING 0
               (U_bitString bitSize (replicate (nat (bitSize div 8 + (if bitSize mod 8 > 0 then 1 else 0))) 0)))))
      | MMS_OCTET_STRING \<Rightarrow> rbind (int_member s) (\<lambda>n.
          Inr (Some (MmsValue MMS_OCTET_STRING 0
            (U_octetString (if n < 0 then 0 else word_of_int n) (word_of_int \<bar>n\<bar>) (replicate (nat \<bar>n\<bar>) 0)))))
      | MMS_VISIBLE_STRING \<Rightarrow> rbind (int_member s) (\<lambda>n. MmsValue_newVisibleStringWithSize \<bar>n\<bar>)
      | MMS_BOOLEAN \<Rightarrow> Inr (Some (MmsValue_newBoolean False))
      | MMS_UTC_TIME \<Rightarrow> Inr (Some (MmsValue MMS_UTC_TIME 0 (U_utcTime (replicate 8 0))))
      | MMS_STRING \<Rightarrow> rbind (int_member s) (\<lambda>n. MmsValue_newMmsStringWithSize \<bar>n\<bar>)
      | MMS_BINARY_TIME \<Rightarrow> rbind (int_member s) (\<lambda>n. Inr (Some (MmsValue_newBinaryTime (n = 4))))
      | _ \<Rightarrow> Inr None)"

text \<open>
  An array asks for the same default value in every round; without it the array is given up, and memory for a negative number of
  elements is not to be had. A structure keeps null pointers.
\<close>

definition new_array :: "int \<Rightarrow> sMmsValue option run \<Rightarrow> sMmsValue option run" where
  "new_array n element =
     (if n < 0 then Inr None
      else if n = 0 then Inr (Some (MmsValue MMS_ARRAY 0 (U_structure [])))
      else rbind element (\<lambda>v. case v of None \<Rightarrow> Inr None
             | Some _ \<Rightarrow> Inr (Some (MmsValue MMS_ARRAY 0 (U_structure (replicate (nat n) v))))))"

fun MmsValue_newDefaultValue :: "MmsVariableSpecification \<Rightarrow> sMmsValue option run"
and default_components :: "MmsVariableSpecification list \<Rightarrow> sMmsValue option list run" where
  "MmsValue_newDefaultValue (MmsVariableSpecification t nm s) =
     (case t of
        MMS_ARRAY \<Rightarrow> (case s of T_array n e \<Rightarrow> new_array n (MmsValue_newDefaultValue e) | _ \<Rightarrow> Inl Undefined_operation)
      | MMS_STRUCTURE \<Rightarrow> (case s of
          T_structure es \<Rightarrow> rbind (default_components es) (\<lambda>cs. Inr (Some (MmsValue MMS_STRUCTURE 0 (U_structure cs))))
        | _ \<Rightarrow> Inl Undefined_operation)
      | _ \<Rightarrow> default_leaf t s)"
| "default_components [] = Inr []"
| "default_components (e # es) =
     rbind (MmsValue_newDefaultValue e) (\<lambda>v. rbind (default_components es) (\<lambda>vs. Inr (v # vs)))"

definition MmsValue_newStructure :: "MmsVariableSpecification \<Rightarrow> sMmsValue run" where
  "MmsValue_newStructure spec =
     (case typeSpec spec of
        T_structure es \<Rightarrow> rbind (default_components es) (\<lambda>cs. Inr (MmsValue MMS_STRUCTURE 0 (U_structure cs)))
      | _ \<Rightarrow> Inl Undefined_operation)"

definition MmsValue_createArray :: "MmsVariableSpecification \<Rightarrow> int \<Rightarrow> sMmsValue option run" where
  "MmsValue_createArray elementType n = new_array n (MmsValue_newDefaultValue elementType)"

definition MmsValue_createEmptyArray :: "int \<Rightarrow> sMmsValue option" where
  "MmsValue_createEmptyArray n =
     (if n < 0 then None else Some (MmsValue MMS_ARRAY 0 (U_structure (replicate (nat n) None))))"

definition MmsValue_createEmptyStructure :: "int \<Rightarrow> sMmsValue option" where
  "MmsValue_createEmptyStructure n =
     (case MmsValue_createEmptyArray n of None \<Rightarrow> None | Some self \<Rightarrow> Some (MmsValue MMS_STRUCTURE (deleteValue self) (mvalue self)))"


section \<open>Components and flags\<close>

definition MmsValue_getArraySize :: "sMmsValue \<Rightarrow> int run" where
  "MmsValue_getArraySize self = rbind (structure_of (mvalue self)) (\<lambda>cs. Inr (int (length cs)))"

definition MmsValue_setElement :: "sMmsValue \<Rightarrow> int \<Rightarrow> sMmsValue option \<Rightarrow> sMmsValue run" where
  "MmsValue_setElement self index element =
     (if \<not> is_complex (mtype self) then Inr self
      else rbind (structure_of (mvalue self)) (\<lambda>cs.
        if index < 0 \<or> index \<ge> int (length cs) then Inr self
        else Inr (with_member (U_structure (cs[nat index := element])) self)))"

definition MmsValue_getElement :: "sMmsValue \<Rightarrow> int \<Rightarrow> sMmsValue option run" where
  "MmsValue_getElement self index =
     (if \<not> is_complex (mtype self) then Inr None
      else rbind (structure_of (mvalue self)) (\<lambda>cs.
        if index < 0 \<or> index \<ge> int (length cs) then Inr None else Inr (cs ! nat index)))"

definition MmsValue_setDeletable :: "sMmsValue \<Rightarrow> sMmsValue" where
  "MmsValue_setDeletable self = MmsValue (mtype self) 1 (mvalue self)"

fun MmsValue_setDeletableRecursive :: "sMmsValue \<Rightarrow> sMmsValue run"
and components_deletable :: "sMmsValue option list \<Rightarrow> sMmsValue option list run" where
  "MmsValue_setDeletableRecursive (MmsValue t d u) =
     (if is_complex t then
        (case u of
           U_structure cs \<Rightarrow> rbind (components_deletable cs) (\<lambda>cs'. Inr (MmsValue_setDeletable (MmsValue t d (U_structure cs'))))
         | _ \<Rightarrow> Inl Undefined_operation)
      else Inr (MmsValue_setDeletable (MmsValue t d u)))"
| "components_deletable [] = Inr []"
| "components_deletable (c # cs) =
     (case c of None \<Rightarrow> rbind (components_deletable cs) (\<lambda>cs'. Inr (None # cs'))
      | Some v \<Rightarrow> rbind (MmsValue_setDeletableRecursive v) (\<lambda>v'. rbind (components_deletable cs) (\<lambda>cs'. Inr (Some v' # cs'))))"

definition MmsValue_isDeletable :: "sMmsValue \<Rightarrow> byte" where
  "MmsValue_isDeletable self = deleteValue self"

definition MmsValue_getType :: "sMmsValue \<Rightarrow> MmsType" where
  "MmsValue_getType self = mtype self"

text \<open>
  Deleting: the values whose memory is given back, with their buffers, in the order of the calls. \<open>deleteConditional\<close> stops where the flag is not set.
\<close>

fun MmsValue_delete :: "sMmsValue \<Rightarrow> sMmsValue list run" and delete_components :: "sMmsValue option list \<Rightarrow> sMmsValue list run" where
  "MmsValue_delete (MmsValue t d u) =
     (if is_complex t then
        (case u of U_structure cs \<Rightarrow> rbind (delete_components cs) (\<lambda>freed. Inr (freed @ [MmsValue t d u]))
         | _ \<Rightarrow> Inl Undefined_operation)
      else Inr [MmsValue t d u])"
| "delete_components [] = Inr []"
| "delete_components (c # cs) =
     rbind (case c of None \<Rightarrow> Inr [] | Some v \<Rightarrow> MmsValue_delete v) (\<lambda>freed.
       rbind (delete_components cs) (\<lambda>freed'. Inr (freed @ freed')))"

definition MmsValue_deleteIfNotNull :: "sMmsValue option \<Rightarrow> sMmsValue list run" where
  "MmsValue_deleteIfNotNull p = (case p of None \<Rightarrow> Inr [] | Some self \<Rightarrow> MmsValue_delete self)"

fun MmsValue_deleteConditional :: "sMmsValue \<Rightarrow> sMmsValue list run"
and conditional_components :: "sMmsValue option list \<Rightarrow> sMmsValue list run" where
  "MmsValue_deleteConditional (MmsValue t d u) =
     (if d = 1 then
        (if is_complex t then
           (case u of U_structure cs \<Rightarrow> rbind (conditional_components cs) (\<lambda>freed. Inr (freed @ [MmsValue t d u]))
            | _ \<Rightarrow> Inl Undefined_operation)
         else Inr [MmsValue t d u])
      else Inr [])"
| "conditional_components [] = Inr []"
| "conditional_components (c # cs) =
     rbind (case c of None \<Rightarrow> Inr [] | Some v \<Rightarrow> MmsValue_deleteConditional v) (\<lambda>freed.
       rbind (conditional_components cs) (\<lambda>freed'. Inr (freed @ freed')))"

text \<open>
  \<open>getChildValue\<close> walks down the specification by the names between the separators and takes the component with the index of the
  element.
\<close>

fun component_at :: "uMmsValue \<Rightarrow> nat \<Rightarrow> sMmsValue option run" where
  "component_at u i = rbind (structure_of u) (\<lambda>cs. if i < length cs then Inr (cs ! i) else Inl Out_of_bounds)"

fun index_of :: "MmsVariableSpecification list \<Rightarrow> string \<Rightarrow> nat \<Rightarrow> (nat \<times> MmsVariableSpecification) option run" where
  "index_of [] key i = Inr None"
| "index_of (e # es) key i =
     (case spec_name e of None \<Rightarrow> Inl Null_pointer
      | Some s \<Rightarrow> if s = key then Inr (Some (i, e)) else index_of es key (Suc i))"

function MmsVariableSpecification_getChildValue ::
    "MmsVariableSpecification \<Rightarrow> sMmsValue option \<Rightarrow> string \<Rightarrow> sMmsValue option run" where
  "MmsVariableSpecification_getChildValue spec v childId =
     (if spec_type spec = MMS_STRUCTURE then
        rbind (elements_member (typeSpec spec)) (\<lambda>es.
          let childLen = directChildStrLen childId
          in rbind (index_of es (take childLen childId) 0) (\<lambda>found.
               case found of None \<Rightarrow> Inr None
               | Some (i, e) \<Rightarrow>
                   (case v of None \<Rightarrow> Inl Null_pointer
                    | Some self \<Rightarrow> rbind (component_at (mvalue self) i) (\<lambda>c.
                        if childLen = length childId then Inr c
                        else MmsVariableSpecification_getChildValue e c (drop (Suc childLen) childId)))))
      else Inr None)"
  by pat_completeness auto

termination
  by (relation "measure (\<lambda>(spec, v, s). length s)") (auto simp: rest_shorter)

declare MmsVariableSpecification_getChildValue.simps [simp del]

definition MmsValue_getSubElement :: "sMmsValue \<Rightarrow> MmsVariableSpecification \<Rightarrow> string \<Rightarrow> sMmsValue option run" where
  "MmsValue_getSubElement self varSpec mmsPath = MmsVariableSpecification_getChildValue varSpec (Some self) mmsPath"

fun MmsValue_getTypeString :: "MmsType \<Rightarrow> string" where
  "MmsValue_getTypeString MMS_ARRAY = ''array''"
| "MmsValue_getTypeString MMS_BCD = ''bcd''"
| "MmsValue_getTypeString MMS_BINARY_TIME = ''binary-time''"
| "MmsValue_getTypeString MMS_BIT_STRING = ''bit-string''"
| "MmsValue_getTypeString MMS_BOOLEAN = ''boolean''"
| "MmsValue_getTypeString MMS_DATA_ACCESS_ERROR = ''access-error''"
| "MmsValue_getTypeString MMS_FLOAT = ''float''"
| "MmsValue_getTypeString MMS_GENERALIZED_TIME = ''generalized-time''"
| "MmsValue_getTypeString MMS_INTEGER = ''integer''"
| "MmsValue_getTypeString MMS_OBJ_ID = ''oid''"
| "MmsValue_getTypeString MMS_STRING = ''mms-string''"
| "MmsValue_getTypeString MMS_STRUCTURE = ''structure''"
| "MmsValue_getTypeString MMS_OCTET_STRING = ''octet-string''"
| "MmsValue_getTypeString MMS_UNSIGNED = ''unsigned''"
| "MmsValue_getTypeString MMS_UTC_TIME = ''utc-time''"
| "MmsValue_getTypeString MMS_VISIBLE_STRING = ''visible-string''"

end
