(* ===== verification/Mms_Value_Correct.thy ===== *)
theory Mms_Value_Correct
  imports Mms_Value
begin

text \<open>
  What holds of MMS values: which values belong to a type specification, that the operations stay inside the type, that a value
  updated by another of its type equals it, copies, and the conversions of bit strings and times.
\<close>

section \<open>Values of a type\<close>

text \<open>The member that goes with a leaf type, with buffers of the right length; and the type specification it was made for.\<close>

definition leaf_ok :: "MmsType \<Rightarrow> uMmsValue \<Rightarrow> bool" where
  "leaf_ok t u \<longleftrightarrow>
     (case t of
        MMS_BOOLEAN \<Rightarrow> (\<exists>b. u = U_boolean b)
      | MMS_INTEGER \<Rightarrow> (\<exists>v. u = U_integer v \<and> value_ok v)
      | MMS_UNSIGNED \<Rightarrow> (\<exists>v. u = U_integer v \<and> value_ok v)
      | MMS_FLOAT \<Rightarrow> (\<exists>e f b. u = U_floatingPoint e f b \<and> length b = unat f div 8)
      | MMS_BIT_STRING \<Rightarrow> (\<exists>n b. u = U_bitString n b \<and> 0 \<le> n \<and> int (length b) = bitStringByteSize n)
      | MMS_OCTET_STRING \<Rightarrow> (\<exists>n mx b. u = U_octetString n mx b \<and> unat n \<le> unat mx \<and> length b = unat mx)
      | MMS_VISIBLE_STRING \<Rightarrow> (\<exists>s n. u = U_visibleString (Some (s, n + 1)) n \<and> int (length s) \<le> n \<and> n < 32768)
      | MMS_STRING \<Rightarrow> (\<exists>s n. u = U_visibleString (Some (s, n + 1)) n \<and> int (length s) \<le> n \<and> n < 32768)
      | MMS_UTC_TIME \<Rightarrow> (\<exists>b. u = U_utcTime b \<and> length b = 8)
      | MMS_BINARY_TIME \<Rightarrow> (\<exists>n b. u = U_binaryTime n b \<and> n \<in> {4, 6} \<and> length b = 6)
      | MMS_DATA_ACCESS_ERROR \<Rightarrow> (\<exists>e. u = U_dataAccessError e)
      | _ \<Rightarrow> False)"

definition leaf_conforms :: "MmsType \<Rightarrow> uMmsTypeSpecification \<Rightarrow> uMmsValue \<Rightarrow> bool" where
  "leaf_conforms t s u \<longleftrightarrow> leaf_ok t u \<and>
     (case t of
        MMS_INTEGER \<Rightarrow> (\<exists>n v. s = T_integer n \<and> u = U_integer v \<and> pmaxSize v = (if n \<le> 32 then 5 else 9))
      | MMS_UNSIGNED \<Rightarrow> (\<exists>n v. s = T_unsignedInteger n \<and> u = U_integer v \<and> pmaxSize v = (if n \<le> 32 then 5 else 9))
      | MMS_FLOAT \<Rightarrow> (\<exists>e f b. s = T_floatingpoint e f \<and> u = U_floatingPoint e f b)
      | MMS_BIT_STRING \<Rightarrow> (\<exists>n b. s = T_bitString n \<and> u = U_bitString \<bar>n\<bar> b)
      | MMS_OCTET_STRING \<Rightarrow> (\<exists>n m b. s = T_octetString n \<and> u = U_octetString m (word_of_int \<bar>n\<bar>) b)
      | MMS_VISIBLE_STRING \<Rightarrow> (\<exists>n. s = T_visibleString n)
      | MMS_STRING \<Rightarrow> (\<exists>n. s = T_mmsString n)
      | MMS_BINARY_TIME \<Rightarrow> (\<exists>n b. s = T_binaryTime n \<and> u = U_binaryTime (if n = 4 then 4 else 6) b)
      | MMS_DATA_ACCESS_ERROR \<Rightarrow> False
      | _ \<Rightarrow> True)"

fun conforms :: "MmsVariableSpecification \<Rightarrow> sMmsValue \<Rightarrow> bool"
and conforms_all :: "MmsVariableSpecification list \<Rightarrow> sMmsValue option list \<Rightarrow> bool" where
  "conforms (MmsVariableSpecification t nm s) v \<longleftrightarrow> mtype v = t \<and>
     (if t = MMS_ARRAY then
        (case s of
           T_array n e \<Rightarrow> (\<exists>cs. mvalue v = U_structure cs \<and> int (length cs) = n
                             \<and> (\<forall>c \<in> set cs. case c of None \<Rightarrow> False | Some w \<Rightarrow> conforms e w))
         | _ \<Rightarrow> False)
      else if t = MMS_STRUCTURE then
        (case s of T_structure es \<Rightarrow> (\<exists>cs. mvalue v = U_structure cs \<and> conforms_all es cs) | _ \<Rightarrow> False)
      else leaf_conforms t s (mvalue v))"
| "conforms_all [] cs \<longleftrightarrow> cs = []"
| "conforms_all (e # es) cs \<longleftrightarrow>
     (case cs of Some w # cs' \<Rightarrow> conforms e w \<and> conforms_all es cs' | _ \<Rightarrow> False)"

text \<open>Specifications with sizes that the fields of a value can hold.\<close>

definition leaf_spec_ok :: "MmsType \<Rightarrow> uMmsTypeSpecification \<Rightarrow> bool" where
  "leaf_spec_ok t s \<longleftrightarrow>
     (case t of
        MMS_BOOLEAN \<Rightarrow> True
      | MMS_UTC_TIME \<Rightarrow> True
      | MMS_INTEGER \<Rightarrow> (\<exists>n. s = T_integer n)
      | MMS_UNSIGNED \<Rightarrow> (\<exists>n. s = T_unsignedInteger n)
      | MMS_FLOAT \<Rightarrow> (\<exists>e f. s = T_floatingpoint e f)
      | MMS_BIT_STRING \<Rightarrow> (\<exists>n. s = T_bitString n)
      | MMS_OCTET_STRING \<Rightarrow> (\<exists>n. s = T_octetString n \<and> \<bar>n\<bar> < 65536)
      | MMS_VISIBLE_STRING \<Rightarrow> (\<exists>n. s = T_visibleString n \<and> \<bar>n\<bar> < 32768)
      | MMS_STRING \<Rightarrow> (\<exists>n. s = T_mmsString n \<and> \<bar>n\<bar> < 32768)
      | MMS_BINARY_TIME \<Rightarrow> (\<exists>n. s = T_binaryTime n)
      | _ \<Rightarrow> False)"

fun spec_ok :: "MmsVariableSpecification \<Rightarrow> bool" and specs_ok :: "MmsVariableSpecification list \<Rightarrow> bool" where
  "spec_ok (MmsVariableSpecification t nm s) \<longleftrightarrow>
     (if t = MMS_ARRAY then (case s of T_array n e \<Rightarrow> 0 \<le> n \<and> spec_ok e | _ \<Rightarrow> False)
      else if t = MMS_STRUCTURE then (case s of T_structure es \<Rightarrow> specs_ok es | _ \<Rightarrow> False)
      else leaf_spec_ok t s)"
| "specs_ok [] \<longleftrightarrow> True"
| "specs_ok (e # es) \<longleftrightarrow> spec_ok e \<and> specs_ok es"

text \<open>Induction along a specification, and along a value.\<close>

lemma spec_induct [case_names array struct leaf]:
  assumes array: "\<And>t nm n e. P e \<Longrightarrow> P (MmsVariableSpecification t nm (T_array n e))"
    and struct: "\<And>t nm es. (\<And>e. e \<in> set es \<Longrightarrow> P e) \<Longrightarrow> P (MmsVariableSpecification t nm (T_structure es))"
    and leaf: "\<And>t nm s. (\<And>n e. s \<noteq> T_array n e) \<Longrightarrow> (\<And>es. s \<noteq> T_structure es) \<Longrightarrow> P (MmsVariableSpecification t nm s)"
  shows "P spec"
proof -
  have "P spec" and "\<forall>t nm. P (MmsVariableSpecification t nm s)" for s
    by (induction spec and s) (use array struct leaf in auto)
  then show ?thesis by blast
qed

lemma value_induct [case_names struct leaf]:
  assumes struct: "\<And>t d cs. (\<And>v. Some v \<in> set cs \<Longrightarrow> P v) \<Longrightarrow> P (MmsValue t d (U_structure cs))"
    and leaf: "\<And>t d u. (\<And>cs. u \<noteq> U_structure cs) \<Longrightarrow> P (MmsValue t d u)"
  shows "P v"
proof -
  have "P v" and "\<forall>t d. P (MmsValue t d u)" for u
    by (induction v and u) (use struct leaf in auto)
  then show ?thesis by blast
qed

lemma conforms_all_iff: "conforms_all es cs \<longleftrightarrow> list_all2 (\<lambda>e c. \<exists>w. c = Some w \<and> conforms e w) es cs"
proof (induction es arbitrary: cs)
  case Nil
  then show ?case by simp
next
  case (Cons e es)
  then show ?case by (cases cs) (auto split: option.splits)
qed

lemma specs_ok_iff: "specs_ok es \<longleftrightarrow> (\<forall>e \<in> set es. spec_ok e)"
  by (induction es) auto


section \<open>Default values\<close>

lemmas leaf_simps = leaf_ok_def leaf_conforms_def leaf_spec_ok_def member_defs

lemma unat_of_int_16: "0 \<le> n \<Longrightarrow> n < 65536 \<Longrightarrow> unat (word_of_int n :: u16) = nat n"
  by (simp add: unat_eq_nat_uint uint_word_of_int)

lemma default_leaf_conforms:
  assumes "leaf_spec_ok t s" and "\<not> is_complex t"
  shows "\<exists>v. default_leaf t s = Inr (Some v) \<and> mtype v = t \<and> leaf_conforms t s (mvalue v)"
proof (cases t)
  case MMS_OCTET_STRING
  then obtain n where s: "s = T_octetString n" "\<bar>n\<bar> < 65536" using assms by (auto simp: leaf_spec_ok_def)
  have "unat (if n < 0 then 0 else word_of_int n :: u16) \<le> unat (word_of_int \<bar>n\<bar> :: u16)"
    using s(2) by (cases "n < 0") simp_all
  then show ?thesis using MMS_OCTET_STRING s by (auto simp: default_leaf_def leaf_simps unat_of_int_16)
next
  case MMS_BIT_STRING
  then obtain n where s: "s = T_bitString n" using assms by (auto simp: leaf_spec_ok_def)
  have "0 \<le> bitStringByteSize \<bar>n\<bar>" by (simp add: bitStringByteSize_def pos_imp_zdiv_nonneg_iff)
  then show ?thesis using MMS_BIT_STRING s
    by (simp add: default_leaf_def leaf_simps Let_def flip: bitStringByteSize_def)
qed (use assms in \<open>auto simp: default_leaf_def leaf_simps MmsValue_newInteger_def MmsValue_newUnsigned_def BerInteger_createInt32_def
  BerInteger_createInt64_def Asn1PrimitiveValue_create_def value_ok_def bitStringByteSize_def MmsValue_newBoolean_def
  MmsValue_newVisibleStringWithSize_def MmsValue_newMmsStringWithSize_def MmsValue_newStringWithSize_def
  MmsValue_newBinaryTime_def\<close>)

lemma default_components_conform:
  "(\<And>e. e \<in> set es \<Longrightarrow> \<exists>v. MmsValue_newDefaultValue e = Inr (Some v) \<and> conforms e v) \<Longrightarrow>
   \<exists>cs. default_components es = Inr cs \<and> conforms_all es cs"
proof (induction es)
  case Nil
  then show ?case by simp
next
  case (Cons e es)
  then obtain v cs where "MmsValue_newDefaultValue e = Inr (Some v)" "conforms e v"
    "default_components es = Inr cs" "conforms_all es cs" by force
  then show ?case by simp
qed

lemma newDefaultValue_conforms:
  "spec_ok spec \<Longrightarrow> \<exists>v. MmsValue_newDefaultValue spec = Inr (Some v) \<and> conforms spec v"
proof (induction spec rule: spec_induct)
  case (array t nm n e)
  show ?case
  proof (cases "t = MMS_ARRAY")
    case True
    with array obtain v where "0 \<le> n" "MmsValue_newDefaultValue e = Inr (Some v)" "conforms e v" by auto
    then show ?thesis using True by (auto simp: new_array_def)
  next
    case False
    with array.prems have "leaf_spec_ok t (T_array n e)" "\<not> is_complex t" by (auto split: if_splits)
    from default_leaf_conforms [OF this] this(2) show ?thesis by (cases t) auto
  qed
next
  case (struct t nm es)
  show ?case
  proof (cases "t = MMS_STRUCTURE")
    case True
    with struct have "\<exists>cs. default_components es = Inr cs \<and> conforms_all es cs"
      by (intro default_components_conform) (auto simp: specs_ok_iff)
    then show ?thesis using True by auto
  next
    case False
    with struct.prems have "leaf_spec_ok t (T_structure es)" "\<not> is_complex t" by (auto split: if_splits)
    from default_leaf_conforms [OF this] this(2) show ?thesis by (cases t) auto
  qed
next
  case (leaf t nm s)
  have "\<not> is_complex t" using leaf.prems leaf.hyps by (cases s) (auto split: if_splits)
  moreover from this have "leaf_spec_ok t s" using leaf.prems by auto
  ultimately show ?case using default_leaf_conforms [of t s] by (cases t) auto
qed


section \<open>Update\<close>

lemma memcpy_front:
  "0 \<le> n \<Longrightarrow> nat n \<le> length b \<Longrightarrow> nat n \<le> length a \<Longrightarrow> memcpy_to a 0 b n = Inr (take (nat n) b @ drop (nat n) a)"
  by (auto simp: memcpy_to_def)

lemma same_octets_front: "n \<le> length b \<Longrightarrow> same_octets (take n b @ r) b n = Inr True"
  by (simp add: same_octets_def rd_n_front)

lemma same_octets_refl: "n \<le> length b \<Longrightarrow> same_octets b b n = Inr True"
  by (simp add: same_octets_def rd_n_front)

lemma bitStringByteSize_nonneg: "0 \<le> n \<Longrightarrow> 0 \<le> bitStringByteSize n"
  by (simp add: bitStringByteSize_def pos_imp_zdiv_nonneg_iff)

lemma update_integer:
  assumes "value_ok a" and "value_ok b" and "pmaxSize a = pmaxSize b"
  shows "\<exists>a'. BerInteger_setFromBerInteger a b = Inr (a', 1) \<and> value_ok a' \<and> pmaxSize a' = pmaxSize b
           \<and> Asn1PrimitivaValue_compare a' b = Inr True"
proof -
  have l: "length (octets a) = nat (pmaxSize b)" "length (octets b) = nat (pmaxSize b)" "nat (psize b) \<le> nat (pmaxSize b)"
    using assms by (auto simp: value_ok_def)
  let ?a = "a\<lparr>psize := psize b, octets := take (nat (psize b)) (octets b) @ drop (nat (psize b)) (octets a)\<rparr>"
  have "BerInteger_setFromBerInteger a b = Inr (?a, 1)"
    using assms l by (auto simp: BerInteger_setFromBerInteger_def value_ok_def memcpy_front)
  moreover have "value_ok ?a" using assms l by (auto simp: value_ok_def)
  moreover have "Asn1PrimitivaValue_compare ?a b = Inr True"
    using l by (simp add: Asn1PrimitivaValue_compare_def rd_n_front)
  ultimately show ?thesis using assms(3) by auto
qed

text \<open>Setting the text of a string keeps the buffer and its size in step; a text that is longer gets a new buffer.\<close>

lemma set_string_ok:
  assumes "int (length s) \<le> n" and "n < 32768" and "int (length s') < 32768"
  shows "\<exists>n'. setVisibleStringValue (Some (s, n + 1), n) (Some s') = Inr (Some (s', n' + 1), n')
           \<and> int (length s') \<le> n' \<and> n' < 32768 \<and> n \<le> n'"
  using assms by (cases "int (length s') > n") (auto simp: setVisibleStringValue_def strncpy_terminated_def Let_def)

lemma update_leaf:
  assumes u: "leaf_conforms t s u" and w: "leaf_conforms t s w"
  shows "\<exists>u'. update_member t u w = Inr (u', True) \<and> leaf_conforms t s u' \<and> equal_member t u' w = Inr True"
proof (cases t)
  case MMS_INTEGER
  with u w obtain a b where ab: "u = U_integer a" "w = U_integer b" "value_ok a" "value_ok b" "pmaxSize a = pmaxSize b"
    by (auto simp: leaf_simps)
  from update_integer [OF ab(3-5)] w MMS_INTEGER ab show ?thesis
    by (auto simp: update_member_def equal_member_def leaf_simps)
next
  case MMS_UNSIGNED
  with u w obtain a b where ab: "u = U_integer a" "w = U_integer b" "value_ok a" "value_ok b" "pmaxSize a = pmaxSize b"
    by (auto simp: leaf_simps)
  from update_integer [OF ab(3-5)] w MMS_UNSIGNED ab show ?thesis
    by (auto simp: update_member_def equal_member_def leaf_simps)
next
  case MMS_VISIBLE_STRING
  with u w obtain a n b m where ab: "u = U_visibleString (Some (a, n + 1)) n" "w = U_visibleString (Some (b, m + 1)) m"
    "int (length a) \<le> n" "n < 32768" "int (length b) < 32768" by (auto simp: leaf_simps)
  from set_string_ok [OF ab(3-5)] w MMS_VISIBLE_STRING ab show ?thesis
    by (auto simp: update_member_def equal_member_def leaf_simps)
next
  case MMS_STRING
  with u w obtain a n b m where ab: "u = U_visibleString (Some (a, n + 1)) n" "w = U_visibleString (Some (b, m + 1)) m"
    "int (length a) \<le> n" "n < 32768" "int (length b) < 32768" by (auto simp: leaf_simps)
  from set_string_ok [OF ab(3-5)] w MMS_STRING ab show ?thesis
    by (auto simp: update_member_def equal_member_def leaf_simps)
next
  case MMS_BIT_STRING
  with u w obtain n a b where ab: "u = U_bitString n a" "w = U_bitString n b" "0 \<le> n"
    "length a = nat (bitStringByteSize n)" "length b = nat (bitStringByteSize n)" by (auto simp: leaf_simps)
  with MMS_BIT_STRING w bitStringByteSize_nonneg [OF ab(3)] show ?thesis
    by (auto simp: update_member_def equal_member_def leaf_simps memcpy_front same_octets_refl)
next
  case MMS_OCTET_STRING
  with u w obtain n m mx a b where ab: "u = U_octetString n mx a" "w = U_octetString m mx b" "unat m \<le> unat mx"
    "length a = unat mx" "length b = unat mx" by (auto simp: leaf_simps)
  with MMS_OCTET_STRING w show ?thesis
    by (auto simp: update_member_def equal_member_def leaf_simps memcpy_front same_octets_front)
next
  case MMS_FLOAT
  with u w obtain e f a b where ab: "u = U_floatingPoint e f a" "w = U_floatingPoint e f b"
    "length a = unat f div 8" "length b = unat f div 8" by (auto simp: leaf_simps)
  have "nat (uint f div 8) = unat f div 8" by (simp add: nat_div_distrib)
  with MMS_FLOAT w ab show ?thesis
    by (auto simp: update_member_def equal_member_def leaf_simps memcpy_front same_octets_refl pos_imp_zdiv_nonneg_iff)
next
  case MMS_BINARY_TIME
  with u w obtain k n a b where ab: "s = T_binaryTime k" "n = (if k = 4 then 4 else 6)" "u = U_binaryTime n a"
    "w = U_binaryTime n b" "length a = 6" "length b = 6" by (auto simp: leaf_simps)
  with MMS_BINARY_TIME show ?thesis
    by (cases "k = 4") (auto simp: update_member_def equal_member_def leaf_simps memcpy_front same_octets_front same_octets_refl)
next
  case MMS_UTC_TIME
  with u w show ?thesis
    by (auto simp: update_member_def equal_member_def leaf_simps memcpy_front same_octets_refl)
qed (use u w in \<open>auto simp: update_member_def equal_member_def leaf_simps\<close>)


text \<open>The contract of an update: it succeeds, stays in the type, and the value equals the update.\<close>

definition updates_to :: "MmsVariableSpecification \<Rightarrow> sMmsValue \<Rightarrow> sMmsValue \<Rightarrow> bool" where
  "updates_to spec v w \<longleftrightarrow>
     (\<exists>v'. MmsValue_update v w = Inr (v', True) \<and> conforms spec v' \<and> MmsValue_equals v' w = Inr True)"

lemma update_components:
  "list_all2 (\<lambda>e c. \<exists>v. c = Some v \<and> conforms e v) es cs \<Longrightarrow> list_all2 (\<lambda>e c. \<exists>w. c = Some w \<and> conforms e w) es ws
   \<Longrightarrow> (\<And>e v w. e \<in> set es \<Longrightarrow> conforms e v \<Longrightarrow> conforms e w \<Longrightarrow> updates_to e v w)
   \<Longrightarrow> \<exists>cs'. updateStructuredComponent cs ws = Inr cs' \<and> list_all2 (\<lambda>e c. \<exists>v. c = Some v \<and> conforms e v) es cs'
         \<and> length cs' = length ws \<and> equal_components cs' ws = Inr True"
proof (induction es arbitrary: cs ws)
  case Nil
  then show ?case by simp
next
  case (Cons e es)
  then obtain v cs1 w ws1 where s: "cs = Some v # cs1" "ws = Some w # ws1" "conforms e v" "conforms e w"
    "list_all2 (\<lambda>e c. \<exists>v. c = Some v \<and> conforms e v) es cs1" "list_all2 (\<lambda>e c. \<exists>w. c = Some w \<and> conforms e w) es ws1"
    by (auto simp: list_all2_Cons1)
  obtain cs' where cs': "updateStructuredComponent cs1 ws1 = Inr cs'" "length cs' = length ws1" "equal_components cs' ws1 = Inr True"
    "list_all2 (\<lambda>e c. \<exists>v. c = Some v \<and> conforms e v) es cs'"
    using Cons.IH [OF s(5,6)] Cons.prems(3) by auto
  from Cons.prems(3) [of e v w] s(3,4) obtain v' where "MmsValue_update v w = Inr (v', True)" "conforms e v'" "MmsValue_equals v' w = Inr True"
    by (auto simp: updates_to_def)
  with cs' s(1,2) show ?case by auto
qed

lemma array_all2:
  "(\<forall>c \<in> set cs. case c of None \<Rightarrow> False | Some w \<Rightarrow> conforms e w)
     \<longleftrightarrow> list_all2 (\<lambda>e c. \<exists>v. c = Some v \<and> conforms e v) (replicate (length cs) e) cs"
  by (induction cs) (auto split: option.splits)

lemma update_conforms:
  "conforms spec v \<Longrightarrow> conforms spec w \<Longrightarrow> updates_to spec v w"
proof (induction spec arbitrary: v w rule: spec_induct)
  case (array t nm n e)
  show ?case
  proof (cases "t = MMS_ARRAY")
    case True
    obtain d cs d' ws where vw: "v = MmsValue MMS_ARRAY d (U_structure cs)" "w = MmsValue MMS_ARRAY d' (U_structure ws)"
      and l: "int (length cs) = n" "int (length ws) = n"
      and c: "list_all2 (\<lambda>e c. \<exists>v. c = Some v \<and> conforms e v) (replicate (length cs) e) cs"
         "list_all2 (\<lambda>e c. \<exists>v. c = Some v \<and> conforms e v) (replicate (length ws) e) ws"
      using array.prems True by (cases v; cases w) (auto simp: array_all2)
    have "length cs = length ws" using l by simp
    with update_components [OF c(1), of ws] c(2) array.IH obtain cs' where
      "updateStructuredComponent cs ws = Inr cs'" "length cs' = length ws" "equal_components cs' ws = Inr True"
      "list_all2 (\<lambda>e c. \<exists>v. c = Some v \<and> conforms e v) (replicate (length ws) e) cs'"
      by auto
    then show ?thesis using vw l True by (auto simp: updates_to_def structure_of_def array_all2)
  next
    case False
    with array.prems have "leaf_conforms t (T_array n e) (mvalue v)" "leaf_conforms t (T_array n e) (mvalue w)" "\<not> is_complex t"
      by (auto split: if_splits)
    with update_leaf [OF this(1,2)] array.prems show ?thesis by (cases v; cases w) (auto simp: updates_to_def)
  qed
next
  case (struct t nm es)
  show ?case
  proof (cases "t = MMS_STRUCTURE")
    case True
    obtain d cs d' ws where vw: "v = MmsValue MMS_STRUCTURE d (U_structure cs)" "w = MmsValue MMS_STRUCTURE d' (U_structure ws)"
      and c: "list_all2 (\<lambda>e c. \<exists>v. c = Some v \<and> conforms e v) es cs"
         "list_all2 (\<lambda>e c. \<exists>v. c = Some v \<and> conforms e v) es ws"
      using struct.prems True by (cases v; cases w) (auto simp: conforms_all_iff)
    with update_components [OF c] struct.IH obtain cs' where
      "updateStructuredComponent cs ws = Inr cs'" "length cs' = length ws" "equal_components cs' ws = Inr True"
      "list_all2 (\<lambda>e c. \<exists>v. c = Some v \<and> conforms e v) es cs'"
      by auto
    then show ?thesis using vw True by (auto simp: updates_to_def structure_of_def conforms_all_iff)
  next
    case False
    with struct.prems have "leaf_conforms t (T_structure es) (mvalue v)" "leaf_conforms t (T_structure es) (mvalue w)" "\<not> is_complex t"
      by (auto split: if_splits)
    with update_leaf [OF this(1,2)] struct.prems show ?thesis by (cases v; cases w) (auto simp: updates_to_def)
  qed
next
  case (leaf t nm s)
  have nc: "\<not> is_complex t" using leaf.prems leaf.hyps by (cases s) (auto split: if_splits)
  then have "leaf_conforms t s (mvalue v)" "leaf_conforms t s (mvalue w)" using leaf.prems by auto
  with update_leaf [OF this] leaf.prems nc show ?case by (cases v; cases w) (auto simp: updates_to_def)
qed


section \<open>Copies\<close>

text \<open>Values without null pointers whose members go with their types.\<close>

fun value_typed :: "sMmsValue \<Rightarrow> bool" where
  "value_typed (MmsValue t d u) \<longleftrightarrow>
     (if is_complex t then
        (case u of U_structure cs \<Rightarrow> (\<forall>c \<in> set cs. case c of None \<Rightarrow> False | Some v \<Rightarrow> value_typed v) | _ \<Rightarrow> False)
      else leaf_ok t u)"

lemma conforms_typed: "conforms spec v \<Longrightarrow> value_typed v"
proof (induction spec arbitrary: v rule: spec_induct)
  case (array t nm n e)
  then show ?case by (cases v) (fastforce simp: leaf_conforms_def split: if_splits option.splits)
next
  case (struct t nm es)
  show ?case
  proof (cases "t = MMS_STRUCTURE")
    case True
    then obtain d cs where v: "v = MmsValue MMS_STRUCTURE d (U_structure cs)"
      "list_all2 (\<lambda>e c. \<exists>v. c = Some v \<and> conforms e v) es cs"
      using struct.prems by (cases v) (auto simp: conforms_all_iff)
    have "case c of None \<Rightarrow> False | Some v \<Rightarrow> value_typed v" if "c \<in> set cs" for c
    proof -
      from that obtain i where i: "i < length cs" "c = cs ! i" by (auto simp: in_set_conv_nth)
      with v(2) have "i < length es" "\<exists>v. c = Some v \<and> conforms (es ! i) v"
        by (auto simp: list_all2_conv_all_nth)
      with struct.IH show ?thesis by force
    qed
    with v show ?thesis by simp
  next
    case False
    with struct.prems show ?thesis by (cases v) (auto simp: leaf_conforms_def split: if_splits)
  qed
next
  case (leaf t nm s)
  have nc: "\<not> is_complex t" using leaf.prems leaf.hyps by (cases s) (auto split: if_splits)
  with leaf.prems show ?case by (cases v) (auto simp: leaf_conforms_def)
qed

lemma clone_integer:
  assumes "value_ok a"
  shows "value_ok (Asn1PrimitiveValue_clone a)" and "pmaxSize (Asn1PrimitiveValue_clone a) = pmaxSize a"
    and "Asn1PrimitivaValue_compare (Asn1PrimitiveValue_clone a) a = Inr True"
proof -
  have "length (octets a) = nat (pmaxSize a)" "nat (psize a) \<le> nat (pmaxSize a)"
    using assms by (auto simp: value_ok_def)
  with assms show "value_ok (Asn1PrimitiveValue_clone a)" and "pmaxSize (Asn1PrimitiveValue_clone a) = pmaxSize a"
    and "Asn1PrimitivaValue_compare (Asn1PrimitiveValue_clone a) a = Inr True"
    by (auto simp: Asn1PrimitiveValue_clone_def value_ok_def Asn1PrimitivaValue_compare_def rd_n_front)
qed

lemma clone_leaf:
  "leaf_ok t u \<Longrightarrow> \<exists>u'. clone_member t u = Inr u' \<and> leaf_ok t u' \<and> equal_member t u' u = Inr True
      \<and> (leaf_conforms t s u \<longrightarrow> leaf_conforms t s u')"
  by (cases t) (auto simp: clone_member_def equal_member_def leaf_simps clone_integer rd_n_front clone_string_def
     same_octets_refl same_octets_front memcpy_front bitStringByteSize_nonneg)


text \<open>A copy is of every type the original is of, and equals it.\<close>

definition clones :: "sMmsValue \<Rightarrow> sMmsValue \<Rightarrow> bool" where
  "clones v v' \<longleftrightarrow> MmsValue_clone v = Inr v' \<and> mtype v' = mtype v \<and> deleteValue v' = deleteValue v
     \<and> value_typed v' \<and> MmsValue_equals v' v = Inr True"

lemma clone_components_ok:
  "(\<And>v. Some v \<in> set cs \<Longrightarrow> value_typed v \<Longrightarrow> \<exists>v'. clones v v') \<Longrightarrow>
   \<forall>c \<in> set cs. case c of None \<Rightarrow> False | Some v \<Rightarrow> value_typed v \<Longrightarrow>
   \<exists>cs'. clone_components cs = Inr cs' \<and> list_all2 (\<lambda>c c'. \<exists>v v'. c = Some v \<and> c' = Some v' \<and> clones v v') cs cs'
     \<and> equal_components cs' cs = Inr True \<and> (\<forall>c \<in> set cs'. case c of None \<Rightarrow> False | Some v \<Rightarrow> value_typed v)"
proof (induction cs)
  case Nil
  then show ?case by simp
next
  case (Cons c cs)
  from Cons.prems obtain v where v: "c = Some v" "value_typed v" by (auto split: option.splits)
  with Cons.prems obtain v' where v': "clones v v'" by auto
  from Cons obtain cs' where "clone_components cs = Inr cs'"
    "list_all2 (\<lambda>c c'. \<exists>v v'. c = Some v \<and> c' = Some v' \<and> clones v v') cs cs'"
    "equal_components cs' cs = Inr True" "\<forall>c \<in> set cs'. case c of None \<Rightarrow> False | Some v \<Rightarrow> value_typed v" by auto
  with v v' show ?case by (auto simp: clones_def)
qed

lemma clone_typed: "value_typed v \<Longrightarrow> \<exists>v'. clones v v'"
proof (induction v rule: value_induct)
  case (struct t d cs)
  then have t: "is_complex t" and c: "\<forall>c \<in> set cs. case c of None \<Rightarrow> False | Some v \<Rightarrow> value_typed v"
    by (cases t; auto simp: leaf_ok_def)+
  from clone_components_ok [OF struct.IH c] obtain cs' where cs': "clone_components cs = Inr cs'" "length cs' = length cs"
    "equal_components cs' cs = Inr True" "\<forall>c \<in> set cs'. case c of None \<Rightarrow> False | Some v \<Rightarrow> value_typed v"
    by (auto dest: list_all2_lengthD)
  with t show ?case
    by (intro exI [of _ "MmsValue t d (U_structure cs')"]) (auto simp: clones_def structure_of_def)
next
  case (leaf t d u)
  then have t: "\<not> is_complex t" and u: "leaf_ok t u" by (auto split: if_splits uMmsValue.splits)
  from clone_leaf [OF u, of "T_boolean 0"] t show ?case by (auto simp: clones_def)
qed

text \<open>Areas of memory that lie one behind the other, from an address to another.\<close>

fun tiles :: "int \<Rightarrow> (int \<times> int) list \<Rightarrow> int \<Rightarrow> bool" where
  "tiles p [] e \<longleftrightarrow> p = e"
| "tiles p ((q, n) # as) e \<longleftrightarrow> q = p \<and> 0 \<le> n \<and> tiles (p + n) as e"

lemma tiles_append: "tiles p as q \<Longrightarrow> tiles q bs e \<Longrightarrow> tiles p (as @ bs) e"
  by (induction as arbitrary: p) auto

definition sizes_ok :: "memory_sizes \<Rightarrow> bool" where
  "sizes_ok Z \<longleftrightarrow> 0 < value_size Z \<and> 0 < pointer_size Z \<and> 0 < primitive_size Z"

text \<open>What a copy in a buffer has to be: the reported size is used up without a gap, and the copy equals the original.\<close>

definition copied_at :: "memory_sizes \<Rightarrow> sMmsValue \<Rightarrow> int \<Rightarrow> bool" where
  "copied_at Z v dest \<longleftrightarrow> (\<exists>v' areas k. MmsValue_cloneToBuffer Z v dest = Inr (v', areas, dest + k)
     \<and> MmsValue_getSizeInMemory Z v = Inr k \<and> tiles dest areas (dest + k) \<and> MmsValue_equals v' v = Inr True)"

lemma leaf_copied:
  "leaf_ok t u \<Longrightarrow> sizes_ok Z \<Longrightarrow> \<exists>u' areas k. leaf_to_buffer Z t u dest = Inr (u', areas, dest + k)
     \<and> leaf_size Z t u = Inr k \<and> tiles dest areas (dest + k) \<and> equal_member t u' u = Inr True"
proof (cases t)
  case MMS_FLOAT
  assume "leaf_ok t u"
  then show ?thesis using MMS_FLOAT
    by (auto simp: leaf_to_buffer_def leaf_size_def equal_member_def leaf_simps rd_n_front same_octets_refl pos_imp_zdiv_nonneg_iff)
next
  case MMS_OCTET_STRING
  assume "leaf_ok t u"
  then show ?thesis using MMS_OCTET_STRING
    by (auto simp: leaf_to_buffer_def leaf_size_def equal_member_def leaf_simps rd_n_front same_octets_refl)
qed (auto simp: leaf_to_buffer_def leaf_size_def equal_member_def leaf_simps rd_n_front same_octets_refl value_ok_def sizes_ok_def
    bitStringByteSize_nonneg Asn1PrimitivaValue_compare_def)


lemma components_copied:
  "(\<And>v dest. Some v \<in> set cs \<Longrightarrow> value_typed v \<Longrightarrow> copied_at Z v dest) \<Longrightarrow>
   \<forall>c \<in> set cs. case c of None \<Rightarrow> False | Some v \<Rightarrow> value_typed v \<Longrightarrow>
   \<exists>cs' areas k. components_to_buffer Z cs dest = Inr (cs', areas, dest + k) \<and> components_size Z cs = Inr k
     \<and> tiles dest areas (dest + k) \<and> length cs' = length cs \<and> equal_components cs' cs = Inr True"
proof (induction cs arbitrary: dest)
  case Nil
  then show ?case by simp
next
  case (Cons c cs)
  from Cons.prems obtain v where v: "c = Some v" "value_typed v" by (auto split: option.splits)
  with Cons.prems have "copied_at Z v dest" by auto
  then obtain v' as k where v': "MmsValue_cloneToBuffer Z v dest = Inr (v', as, dest + k)"
    "MmsValue_getSizeInMemory Z v = Inr k" "tiles dest as (dest + k)" "MmsValue_equals v' v = Inr True"
    by (auto simp: copied_at_def)
  have "\<exists>cs' areas k'. components_to_buffer Z cs (dest + k) = Inr (cs', areas, dest + k + k') \<and> components_size Z cs = Inr k'
     \<and> tiles (dest + k) areas (dest + k + k') \<and> length cs' = length cs \<and> equal_components cs' cs = Inr True"
    using Cons.prems by (intro Cons.IH) auto
  then obtain cs' bs k' where cs': "components_to_buffer Z cs (dest + k) = Inr (cs', bs, dest + k + k')"
    "components_size Z cs = Inr k'" "tiles (dest + k) bs (dest + k + k')" "length cs' = length cs" "equal_components cs' cs = Inr True"
    by blast
  from tiles_append [OF v'(3) cs'(3)] v v' cs' show ?case
    by (intro exI [of _ "Some v' # cs'"] exI [of _ "as @ bs"] exI [of _ "k + k'"]) (simp add: add.assoc)
qed

lemma typed_copied:
  assumes Z: "sizes_ok Z"
  shows "value_typed v \<Longrightarrow> copied_at Z v dest"
proof (induction v arbitrary: dest rule: value_induct)
  case (struct t d cs dest)
  then have t: "is_complex t" and c: "\<forall>c \<in> set cs. case c of None \<Rightarrow> False | Some v \<Rightarrow> value_typed v"
    by (cases t; auto simp: leaf_ok_def)+
  define p where "p = dest + value_size Z"
  define n where "n = pointer_size Z * int (length cs)"
  obtain cs' as k where cs': "components_to_buffer Z cs (p + n) = Inr (cs', as, p + n + k)" "components_size Z cs = Inr k"
    "tiles (p + n) as (p + n + k)" "length cs' = length cs" "equal_components cs' cs = Inr True"
    using components_copied [OF struct.IH c, where dest = "p + n"] by blast
  have pos: "0 \<le> value_size Z" "0 \<le> n" using Z by (simp_all add: sizes_ok_def n_def)
  have "MmsValue_cloneToBuffer Z (MmsValue t d (U_structure cs)) dest
        = Inr (MmsValue t d (U_structure cs'), (dest, value_size Z) # (p, n) # as, dest + (value_size Z + n + k))"
    using t cs'(1) by (auto simp: Let_def p_def n_def add.assoc)
  moreover have "MmsValue_getSizeInMemory Z (MmsValue t d (U_structure cs)) = Inr (value_size Z + n + k)"
    using t cs'(2) by (auto simp: n_def)
  moreover have "tiles dest ((dest, value_size Z) # (p, n) # as) (dest + (value_size Z + n + k))"
    using cs'(3) pos by (simp add: p_def add.assoc)
  moreover have "MmsValue_equals (MmsValue t d (U_structure cs')) (MmsValue t d (U_structure cs)) = Inr True"
    using t cs'(4,5) by (auto simp: structure_of_def)
  ultimately show ?case unfolding copied_at_def by blast
next
  case (leaf t d u dest)
  then have t: "\<not> is_complex t" and u: "leaf_ok t u" by (auto split: if_splits uMmsValue.splits)
  from leaf_copied [OF u Z, of "dest + value_size Z"] obtain u' as k where
    "leaf_to_buffer Z t u (dest + value_size Z) = Inr (u', as, dest + value_size Z + k)" "leaf_size Z t u = Inr k"
    "tiles (dest + value_size Z) as (dest + value_size Z + k)" "equal_member t u' u = Inr True" by blast
  with t Z show ?case
    unfolding copied_at_def
    by (intro exI [of _ "MmsValue t d u'"] exI [of _ "(dest, value_size Z) # as"] exI [of _ "value_size Z + k"])
      (simp add: sizes_ok_def add.assoc)
qed

text \<open>A copy in a buffer keeps the size of the string, but not the memory for it.\<close>

lemma copied_string_overflows:
  assumes "t = MMS_VISIBLE_STRING \<or> t = MMS_STRING" and "int (length s) < n" and "n < 32768" and "int (length s') \<le> n"
  shows "\<exists>v' areas e. MmsValue_cloneToBuffer Z (MmsValue t d (U_visibleString (Some (s, n + 1)) n)) dest = Inr (v', areas, e)
           \<and> (if t = MMS_STRING then MmsValue_setMmsString v' (Some s') else MmsValue_setVisibleString v' (Some s')) = Inl Out_of_bounds"
  using assms by (auto simp: leaf_to_buffer_def member_defs MmsValue_setMmsString_def MmsValue_setVisibleString_def
    set_string_def setVisibleStringValue_def strncpy_terminated_def)


text \<open>A value that was made deletable with all its components is deleted as a whole.\<close>

lemma components_deleted:
  "(\<And>v v'. Some v \<in> set cs \<Longrightarrow> MmsValue_setDeletableRecursive v = Inr v' \<Longrightarrow> MmsValue_deleteConditional v' = MmsValue_delete v')
   \<Longrightarrow> components_deletable cs = Inr cs' \<Longrightarrow> conditional_components cs' = delete_components cs'"
proof (induction cs arbitrary: cs')
  case Nil
  then show ?case by simp
next
  case (Cons c cs)
  have rest: "conditional_components xs = delete_components xs" if "components_deletable cs = Inr xs" for xs
    by (rule Cons.IH [OF _ that], rule Cons.prems(1)) auto
  have first: "MmsValue_deleteConditional x = MmsValue_delete x" if "c = Some v" "MmsValue_setDeletableRecursive v = Inr x" for v x
    by (rule Cons.prems(1) [OF _ that(2)]) (simp add: that(1))
  show ?case using Cons.prems(2) by (cases c) (auto simp: rbind_Inr_iff rest first)
qed

lemma deletable_is_deleted:
  "MmsValue_setDeletableRecursive v = Inr v' \<Longrightarrow> MmsValue_deleteConditional v' = MmsValue_delete v'"
proof (induction v arbitrary: v' rule: value_induct)
  case (struct t d cs v')
  show ?case
  proof (cases "is_complex t")
    case True
    with struct.prems obtain cs' where "components_deletable cs = Inr cs'" "v' = MmsValue t 1 (U_structure cs')"
      by (auto simp: rbind_Inr_iff MmsValue_setDeletable_def)
    with components_deleted [OF struct.IH] True show ?thesis by auto
  qed (use struct.prems in \<open>auto simp: MmsValue_setDeletable_def\<close>)
next
  case (leaf t d u v')
  then show ?case by (auto simp: MmsValue_setDeletable_def split: if_splits uMmsValue.splits)
qed

end
