(* ===== verification/Mms_Value_Numbers.thy ===== *)
theory Mms_Value_Numbers
  imports Mms_Value_Correct
begin

text \<open>
  Bit strings as integers, and times, of \<open>mms_value.c\<close>: the conversions are inverse to each other.
\<close>

unbundle bit_operations_syntax

section \<open>Bit strings\<close>

definition bit_at :: "byte list \<Rightarrow> int \<Rightarrow> bool" where
  "bit_at buf p = bit (buf ! nat (p div 8)) (nat (7 - p mod 8))"

definition put_bit :: "byte list \<Rightarrow> int \<Rightarrow> bool \<Rightarrow> byte list" where
  "put_bit buf p v =
     (let i = nat (p div 8); k = nat (7 - p mod 8)
      in buf[i := (if v then set_bit k (buf ! i) else unset_bit k (buf ! i))])"

lemma position_in_byte: "0 \<le> p \<Longrightarrow> bytePos p = p div 8" "0 \<le> p \<Longrightarrow> bitPosInByte p = 7 - p mod 8"
  by (simp_all add: bytePos_def bitPosInByte_def minus_mult_div_eq_mod)

lemma byte_inside: "0 \<le> p \<Longrightarrow> p < n \<Longrightarrow> int (length b) = bitStringByteSize n \<Longrightarrow> p div 8 < int (length b)"
proof -
  assume p: "0 \<le> p" "p < n" and b: "int (length b) = bitStringByteSize n"
  show "p div 8 < int (length b)"
  proof (cases "0 < n mod 8")
    case True
    have "p div 8 \<le> n div 8" using p(2) by (intro zdiv_mono1) simp_all
    then show ?thesis using b True by (simp add: bitStringByteSize_def)
  next
    case False
    moreover have "0 \<le> n mod 8" by simp
    ultimately have "n mod 8 = 0" by linarith
    then have "n = 8 * (n div 8)" using div_mult_mod_eq [of n 8] by simp
    then have "p < n div 8 * 8" using p(2) by simp
    then have "p div 8 < n div 8" by (simp add: div_less_iff_less_mult)
    then show ?thesis using b False by (simp add: bitStringByteSize_def)
  qed
qed

lemma get_bit_at:
  "mvalue self = U_bitString n b \<Longrightarrow> int (length b) = bitStringByteSize n \<Longrightarrow> 0 \<le> p \<Longrightarrow> p < n
   \<Longrightarrow> MmsValue_getBitStringBit self p = Inr (bit_at b p)"
  using byte_inside [of p n b]
  by (simp add: MmsValue_getBitStringBit_def bits_of_def rd_def position_in_byte bit_at_def pos_imp_zdiv_nonneg_iff)

lemma memcpy_one: "0 \<le> i \<Longrightarrow> i < int (length b) \<Longrightarrow> memcpy_to b i [x] 1 = Inr (b[nat i := x])"
  by (simp add: memcpy_to_def upd_conv_take_nth_drop nat_add_distrib)

lemma set_bit_at:
  "mvalue self = U_bitString n b \<Longrightarrow> int (length b) = bitStringByteSize n \<Longrightarrow> 0 \<le> p \<Longrightarrow> p < n
   \<Longrightarrow> MmsValue_setBitStringBit self p v = Inr (with_member (U_bitString n (put_bit b p v)) self)"
  using byte_inside [of p n b]
  by (simp add: MmsValue_setBitStringBit_def bits_of_def rd_def position_in_byte put_bit_def pos_imp_zdiv_nonneg_iff Let_def memcpy_one)

lemma bit_at_put_bit:
  assumes "0 \<le> p" "p < n" "0 \<le> q" "q < n" "int (length b) = bitStringByteSize n"
  shows "bit_at (put_bit b p v) q = (if q = p then v else bit_at b q)"
proof -
  have i: "nat (p div 8) < length b" "nat (q div 8) < length b"
    using byte_inside [of p n b] byte_inside [of q n b] assms by auto
  have k: "nat (7 - p mod 8) < 8" by simp
  show ?thesis
  proof (cases "q div 8 = p div 8")
    case True
    then have "(q = p) \<longleftrightarrow> q mod 8 = p mod 8" by (metis div_mult_mod_eq)
    also have "\<dots> \<longleftrightarrow> nat (7 - q mod 8) = nat (7 - p mod 8)"
    proof -
      have "q mod 8 < 8" "p mod 8 < 8" by simp_all
      then show ?thesis by linarith
    qed
    finally show ?thesis using True i k by (auto simp: bit_at_def put_bit_def Let_def bit_set_bit_iff bit_unset_bit_iff)
  next
    case False
    then have "nat (q div 8) \<noteq> nat (p div 8)" using assms by (simp add: nat_eq_iff pos_imp_zdiv_nonneg_iff)
    then show ?thesis using False by (auto simp: bit_at_def put_bit_def Let_def)
  qed
qed

lemma length_put_bit [simp]: "length (put_bit b p v) = length b"
  by (simp add: put_bit_def Let_def)

lemma mvalue_with_member [simp]: "mvalue (with_member u self) = u"
  by (cases self) simp

lemma with_member_twice [simp]: "with_member u (with_member w self) = with_member u self"
  by (cases self) simp

lemma store_bits_spec:
  "mvalue self = U_bitString n b \<Longrightarrow> int (length b) = bitStringByteSize n \<Longrightarrow> distinct ps \<Longrightarrow> \<forall>p \<in> set ps. 0 \<le> p \<and> p < n
   \<Longrightarrow> \<exists>b'. store_bits self ps v = Inr (with_member (U_bitString n b') self) \<and> int (length b') = bitStringByteSize n
         \<and> (\<forall>j < length ps. bit_at b' (ps ! j) = bit v j) \<and> (\<forall>q. 0 \<le> q \<longrightarrow> q < n \<longrightarrow> q \<notin> set ps \<longrightarrow> bit_at b' q = bit_at b q)"
proof (induction ps arbitrary: self b v)
  case Nil
  then show ?case by (cases self) auto
next
  case (Cons p ps)
  let ?b = "put_bit b p (v AND 1 = 1)"
  let ?self = "with_member (U_bitString n ?b) self"
  have "\<exists>b'. store_bits ?self ps (drop_bit 1 v) = Inr (with_member (U_bitString n b') ?self) \<and> int (length b') = bitStringByteSize n
         \<and> (\<forall>j < length ps. bit_at b' (ps ! j) = bit (drop_bit 1 v) j)
         \<and> (\<forall>q. 0 \<le> q \<longrightarrow> q < n \<longrightarrow> q \<notin> set ps \<longrightarrow> bit_at b' q = bit_at ?b q)"
    using Cons.prems by (intro Cons.IH) auto
  then obtain b' where b': "store_bits ?self ps (drop_bit 1 v) = Inr (with_member (U_bitString n b') self)"
    "int (length b') = bitStringByteSize n" "\<forall>j < length ps. bit_at b' (ps ! j) = bit (drop_bit 1 v) j"
    "\<forall>q. 0 \<le> q \<longrightarrow> q < n \<longrightarrow> q \<notin> set ps \<longrightarrow> bit_at b' q = bit_at ?b q" by auto
  have v: "(v AND 1 = 1) \<longleftrightarrow> bit v 0" by (simp add: and_one_eq bit_0 odd_iff_mod_2_eq_one)
  have "bit_at b' ((p # ps) ! j) = bit v j" if "j < length (p # ps)" for j
  proof (cases j)
    case 0
    then show ?thesis using b'(4) Cons.prems bit_at_put_bit [of p n p b "v AND 1 = 1"] v by simp
  next
    case (Suc i)
    then show ?thesis using b'(3) that by (simp add: bit_Suc drop_bit_Suc bit_drop_bit_eq)
  qed
  moreover have "bit_at b' q = bit_at b q" if "0 \<le> q" "q < n" "q \<notin> set (p # ps)" for q
    using b'(4) that Cons.prems bit_at_put_bit [of p n q b "v AND 1 = 1"] by simp
  moreover have "store_bits self (p # ps) v = Inr (with_member (U_bitString n b') self)"
    using Cons.prems b'(1) by (simp add: set_bit_at)
  ultimately show ?case using b'(2) by blast
qed

lemma bits_value_spec:
  "mvalue self = U_bitString n b \<Longrightarrow> int (length b) = bitStringByteSize n \<Longrightarrow> \<forall>p \<in> set ps. 0 \<le> p \<and> p < n
   \<Longrightarrow> \<forall>j < length ps. bit_at b (ps ! j) = bit w (i + j) \<Longrightarrow> i + length ps \<le> 32
   \<Longrightarrow> bits_value self i ps v = Inr (v + push_bit i (take_bit (length ps) (drop_bit i w)))"
proof (induction ps arbitrary: i v)
  case Nil
  then show ?case by simp
next
  case (Cons p ps)
  have g: "MmsValue_getBitStringBit self p = Inr (bit w i)"
    using Cons.prems get_bit_at [of self n b p] by force
  have ih: "bits_value self (Suc i) ps v' = Inr (v' + push_bit (Suc i) (take_bit (length ps) (drop_bit (Suc i) w)))" for v'
    using Cons.prems by (intro Cons.IH) force+
  have "take_bit (Suc (length ps)) (drop_bit i w) = of_bool (bit w i) + 2 * take_bit (length ps) (drop_bit (Suc i) w)"
    by (simp add: take_bit_Suc bit_iff_odd_drop_bit drop_bit_Suc drop_bit_half of_bool_def odd_iff_mod_2_eq_one)
  then have "push_bit i (take_bit (Suc (length ps)) (drop_bit i w))
      = push_bit i (of_bool (bit w i)) + push_bit (Suc i) (take_bit (length ps) (drop_bit (Suc i) w))"
    by (simp add: push_bit_add push_bit_double mult.commute [of 2])
  then show ?case using g Cons.prems by (auto simp: ih add.assoc)
qed


lemma store_then_read:
  assumes self: "mvalue self = U_bitString n b" "int (length b) = bitStringByteSize n" "0 \<le> n" "n \<le> 32"
    and ps: "distinct ps" "set ps = {0..<n}" "length ps = nat n"
  shows "\<exists>self'. store_bits self ps v = Inr self' \<and> mtype self' = mtype self
           \<and> MmsValue_getBitStringSize self' = Inr n \<and> bits_value self' 0 ps 0 = Inr (take_bit (nat n) v)"
proof -
  obtain b' where b': "store_bits self ps v = Inr (with_member (U_bitString n b') self)" "int (length b') = bitStringByteSize n"
    "\<forall>j < length ps. bit_at b' (ps ! j) = bit v j"
    using store_bits_spec [OF self(1,2) ps(1), of v] ps(2) by auto
  have "bits_value (with_member (U_bitString n b') self) 0 ps 0 = Inr (0 + push_bit 0 (take_bit (length ps) (drop_bit 0 v)))"
    using b' ps self(4) by (intro bits_value_spec) auto
  then show ?thesis using b'(1) ps(3) by (cases self) (auto simp: MmsValue_getBitStringSize_def bits_of_def)
qed

text \<open>
  C24: A bit string of at most 32 bits holds the low bits of an integer, in either order of the bits: reading gives back what was
  stored, and the size of the bit string stays.
\<close>

theorem bit_string_integer_roundtrip:
  assumes "value_typed self" and "mtype self = MMS_BIT_STRING" and "MmsValue_getBitStringSize self = Inr n" and "n \<le> 32"
  shows "(\<exists>self'. MmsValue_setBitStringFromInteger self v = Inr self' \<and> MmsValue_getBitStringSize self' = Inr n
            \<and> MmsValue_getBitStringAsInteger self' = Inr (take_bit (nat n) v))
       \<and> (\<exists>self'. MmsValue_setBitStringFromIntegerBigEndian self v = Inr self' \<and> MmsValue_getBitStringSize self' = Inr n
            \<and> MmsValue_getBitStringAsIntegerBigEndian self' = Inr (take_bit (nat n) v))"
proof -
  obtain d b where s: "self = MmsValue MMS_BIT_STRING d (U_bitString n b)" "0 \<le> n" "int (length b) = bitStringByteSize n"
    using assms by (cases self) (auto simp: leaf_ok_def MmsValue_getBitStringSize_def bits_of_def)
  let ?ps = "map int [0..<nat n]"
  have ps: "distinct ?ps" "set ?ps = {0..<n}" "length ?ps = nat n"
    using s(2) by (auto simp: distinct_map image_int_atLeastLessThan)
  have rs: "distinct (rev ?ps)" "set (rev ?ps) = {0..<n}" "length (rev ?ps) = nat n" using ps by auto
  have m: "mvalue self = U_bitString n b" using s(1) by simp
  from store_then_read [OF m s(3) s(2) assms(4) ps, of v] store_then_read [OF m s(3) s(2) assms(4) rs, of v]
  show ?thesis using assms(3)
    by (auto simp: MmsValue_setBitStringFromInteger_def MmsValue_getBitStringAsInteger_def
      MmsValue_setBitStringFromIntegerBigEndian_def MmsValue_getBitStringAsIntegerBigEndian_def)
qed

theorem bit_string_integer_roundtrip_witness:
  "\<exists>self'. MmsValue_setBitStringFromInteger (MmsValue_newBitString 13) 0x1234 = Inr self'
     \<and> MmsValue_getBitStringAsInteger self' = Inr 0x1234"
  using bit_string_integer_roundtrip [of "MmsValue_newBitString 13" 13 "0x1234"]
  by (auto simp: MmsValue_newBitString_def leaf_ok_def bitStringByteSize_def MmsValue_getBitStringSize_def bits_of_def
     take_bit_eq_mod)


section \<open>Times\<close>

lemma be_value32_eq: "4 \<le> length a \<Longrightarrow> be_value32 a = word_of_int (be_from 0 (take 4 a))"
proof -
  assume "4 \<le> length a"
  then obtain x0 x1 x2 x3 r where a: "a = x0 # x1 # x2 # x3 # r"
    by (auto simp: Suc_le_length_iff numeral_eq_Suc)
  show ?thesis unfolding foldl_or_word [where a = 0, symmetric]
    by (simp add: a be_value32_def push_bit_or or.assoc)
qed

lemma utc_seconds_eq: "length a = 8 \<Longrightarrow> utc_seconds a = Inr (be_value32 a)"
  by (simp add: utc_seconds_def memcpyReverseByteOrder_def rd_n_front memcpy_to_def load_word_def be_value32_eq)

lemma getUtcTimeInMs_timestamp:
  "mvalue self = U_utcTime a \<Longrightarrow> length a = 8 \<Longrightarrow> MmsValue_getUtcTimeInMs self = Inr (Timestamp_getTimeInMs a)"
  by (simp add: MmsValue_getUtcTimeInMs_def utc_of_def utc_seconds_eq rd_def Timestamp_getTimeInMs_def Let_def)

lemma setUtcTimeMs_timestamp:
  "mvalue self = U_utcTime a \<Longrightarrow> length a = 8 \<Longrightarrow> MmsValue_setUtcTimeMs self ms
     = Inr (with_member (U_utcTime ((Timestamp_setTimeInMilliseconds a ms)[7 := 0x0a])) self)"
proof -
  assume m: "mvalue self = U_utcTime a" and a: "length a = 8"
  then have "\<exists>x. drop 7 a = [x]" by (auto simp: length_Suc_conv numeral_eq_Suc)
  then obtain x where x: "drop 7 a = [x]" by blast
  show ?thesis using m a
    by (simp add: MmsValue_setUtcTimeMs_def set_utc_def utc_of_def memcpyReverseByteOrder_def rd_n_front memcpy_to_def Let_def
      Timestamp_setTimeInMilliseconds_def be_bytes32_def x list_update_append)
qed

text \<open>
  C23: The time stamps of the MMS layer and those of the IEC 61850 layer are two implementations of the same format: setting a time in
  milliseconds writes the same octets but for the time quality, reading gives the same time, and every time before the year 2106
  is read back unchanged.
\<close>

theorem utc_time_agrees_with_timestamp:
  assumes "mtype self = MMS_UTC_TIME" and "value_typed self" and "MmsValue_getUtcTimeBuffer self = Inr a"
  shows "MmsValue_getUtcTimeInMs self = Inr (Timestamp_getTimeInMs a)
       \<and> (\<exists>self' a'. MmsValue_setUtcTimeMs self ms = Inr self' \<and> MmsValue_getUtcTimeBuffer self' = Inr a'
            \<and> take 7 a' = take 7 (Timestamp_setTimeInMilliseconds a ms) \<and> MmsValue_getUtcTimeQuality self' = Inr 0x0a
            \<and> (uint ms < 2 ^ 32 * 1000 \<longrightarrow> MmsValue_getUtcTimeInMs self' = Inr ms))"
proof -
  obtain d where s: "self = MmsValue MMS_UTC_TIME d (U_utcTime a)" "length a = 8"
    using assms by (cases self) (auto simp: leaf_ok_def MmsValue_getUtcTimeBuffer_def utc_of_def)
  let ?a = "(Timestamp_setTimeInMilliseconds a ms)[7 := 0x0a]"
  have l: "length (Timestamp_setTimeInMilliseconds a ms) = 8"
    using s(2) by (simp add: Timestamp_setTimeInMilliseconds_def Let_def be_bytes32_def)
  have q: "Timestamp_getTimeInMs (t[7 := x]) = Timestamp_getTimeInMs t" for t x
    by (simp add: Timestamp_getTimeInMs_def be_value32_def)
  have "MmsValue_setUtcTimeMs self ms = Inr (MmsValue MMS_UTC_TIME d (U_utcTime ?a))"
    using setUtcTimeMs_timestamp [of self a ms] s by simp
  moreover have "MmsValue_getUtcTimeInMs (MmsValue MMS_UTC_TIME d (U_utcTime ?a)) = Inr (Timestamp_getTimeInMs (Timestamp_setTimeInMilliseconds a ms))"
    using getUtcTimeInMs_timestamp [of "MmsValue MMS_UTC_TIME d (U_utcTime ?a)" ?a] l by (simp add: q)
  moreover have "uint ms < 2 ^ 32 * 1000 \<Longrightarrow> Timestamp_getTimeInMs (Timestamp_setTimeInMilliseconds a ms) = ms"
    by (rule timestamp_read_back [OF _ s(2)])
  ultimately show ?thesis
    using getUtcTimeInMs_timestamp [of self a] s l
    by (auto simp: MmsValue_getUtcTimeBuffer_def MmsValue_getUtcTimeQuality_def utc_of_def rd_def take_update_cancel)
qed

theorem utc_time_agrees_with_timestamp_witness:
  "\<exists>self'. MmsValue_setUtcTimeMs (MmsValue_newUtcTime 0) 1475582400123 = Inr self' \<and> MmsValue_getUtcTimeInMs self' = Inr 1475582400123"
  using utc_time_agrees_with_timestamp [of "MmsValue_newUtcTime 0" "[0, 0, 0, 0, 0, 0, 0, 0]" 1475582400123]
  by (auto simp: MmsValue_newUtcTime_def leaf_ok_def MmsValue_getUtcTimeBuffer_def utc_of_def le_bytes32_def)


text \<open>Octets back to words, in the way the binary times are read.\<close>

lemma le_octets_2: "le_octets 2 (d :: u16) = [ucast d, ucast (drop_bit 8 d)]"
  by (simp add: le_octets_def numeral_2_eq_2)

lemma days_octets: "ucast (ucast (drop_bit 8 d) :: byte) * 256 + ucast (ucast d :: byte) = (d :: u16)"
proof -
  have "foldl (\<lambda>v x. push_bit 8 v + ucast x) (word_of_int 0) (rev (le_octets 2 d)) = d"
    unfolding foldl_add_word be_from_octets by (simp add: take_bit_word_eq_self)
  then show ?thesis by (simp add: le_octets_2 push_bit_eq_mult)
qed

lemma millisecond_octets:
  "push_bit 24 (ucast (ucast (drop_bit 24 w) :: byte)) + push_bit 16 (ucast (ucast (drop_bit 16 w) :: byte))
     + push_bit 8 (ucast (ucast (drop_bit 8 w) :: byte)) + ucast (ucast w :: byte) = (w :: u32)"
proof -
  have "foldl (\<lambda>v x. push_bit 8 v + ucast x) (word_of_int 0) (rev (le_bytes32 w)) = w"
    unfolding foldl_add_word be_from_octets32 ..
  then show ?thesis by (simp add: rev_le_bytes32 push_bit_add)
qed

lemma binary_time_parts:
  fixes m :: u64
  defines "d \<equiv> (ucast (m div 86400000) :: u16)" and "s \<equiv> (ucast (m mod 86400000) :: u32)"
  shows "ucast s = m mod 86400000" and "uint m < 65536 * 86400000 \<Longrightarrow> ucast d * 86400000 + ucast s = m"
proof -
  have sm: "uint (m mod 86400000) = uint m mod 86400000" "uint (m div 86400000) = uint m div 86400000"
    by (simp_all add: uint_mod uint_div)
  have b: "0 \<le> uint m mod 86400000" "uint m mod 86400000 < 86400000" by simp_all
  have us: "uint s = uint m mod 86400000"
    using sm(1) b unfolding s_def by (simp add: unsigned_ucast_eq take_bit_int_eq_self)
  have u64s: "uint (ucast s :: u64) = uint s" by (simp add: uint_up_ucast is_up)
  with us sm(1) show s: "ucast s = m mod 86400000" by (simp add: word_uint_eq_iff)
  assume "uint m < 65536 * 86400000"
  then have q: "0 \<le> uint m div 86400000" "uint m div 86400000 < 65536" by (simp_all add: pos_imp_zdiv_nonneg_iff)
  then have ud: "uint d = uint m div 86400000"
    using sm(2) unfolding d_def by (simp add: unsigned_ucast_eq take_bit_int_eq_self)
  have "ucast d = m div 86400000"
    using ud sm(2) by (simp add: word_uint_eq_iff uint_up_ucast is_up)
  then show "ucast d * 86400000 + ucast s = m" by (simp add: s word_mod_div_equality)
qed

text \<open>
  A binary time in the long format gives back every time from 1984 on for 65536 days (until June 2163), and 1984 for the
  times before; the short format keeps the milliseconds since midnight.
\<close>

theorem binary_time_roundtrip:
  assumes "mtype self = MMS_BINARY_TIME" and "value_typed self" and "uint ts < 441763200000 + 65536 * 86400000"
  shows "\<exists>self'. MmsValue_setBinaryTime self ts = Inr self' \<and>
           MmsValue_getBinaryTimeAsUtcMs self' =
             Inr (if mvalue self \<in> range (U_binaryTime 6) then max ts 441763200000
                  else if 441763200000 < ts then (ts - 441763200000) mod 86400000 else 0)"
proof -
  obtain dl n b where s: "self = MmsValue MMS_BINARY_TIME dl (U_binaryTime n b)" "n = 4 \<or> n = 6" "length b = 6"
    using assms by (cases self) (auto simp: leaf_ok_def)
  define m where "m = (if ts > 441763200000 then ts - 441763200000 else 0)"
  have um: "uint m < 65536 * 86400000"
    using assms(3) by (auto simp: m_def word_less_def uint_sub_lem [THEN iffD1] word_le_def)
  define d where "d = (ucast (m div 86400000) :: u16)"
  define t where "t = (ucast (m mod 86400000) :: u32)"
  note parts = binary_time_parts [of m, folded d_def t_def]
  have total: "ucast d * 86400000 + 441763200000 + ucast t = m + 441763200000"
    using parts(2) [OF um] by (simp add: add.commute add.left_commute)
  have max: "m + 441763200000 = max ts 441763200000" by (auto simp: m_def max_def)
  define b' where "b' = (if n = 6 then take 4 b @ [ucast (drop_bit 8 d), ucast d] else b)"
  have b': "(if n = 6 then memcpy_to b 4 (rev (le_octets 2 d)) 2 else Inr b) = Inr b'" "length b' = 6"
    "n = 6 \<Longrightarrow> b' ! 4 = ucast (drop_bit 8 d)" "n = 6 \<Longrightarrow> b' ! 5 = ucast d"
    using s(3) by (simp_all add: b'_def memcpy_to_def le_octets_2 nth_append)
  let ?w = "rev (le_bytes32 t)"
  have b'': "memcpy_to b' 0 ?w 4 = Inr (?w @ drop 4 b')" using b'(2) by (simp add: memcpy_to_def)
  have set: "MmsValue_setBinaryTime self ts = Inr (MmsValue MMS_BINARY_TIME dl (U_binaryTime n (?w @ drop 4 b')))"
    using s(1) b'(1) b'' by (cases "n = 6") (simp_all add: MmsValue_setBinaryTime_def binary_of_def Let_def flip: m_def d_def t_def)
  let ?v = "MmsValue MMS_BINARY_TIME dl (U_binaryTime n (?w @ drop 4 b'))"
  have "MmsValue_getBinaryTimeAsUtcMs ?v = Inr ((if n = 6 then ucast d * 86400000 + 441763200000 else 0) + ucast t)"
    using b'(2-4) days_octets [of d] millisecond_octets [of t]
    by (auto simp: MmsValue_getBinaryTimeAsUtcMs_def binary_of_def rd_def Let_def rev_le_bytes32 nth_append)
  moreover have "(if n = 6 then ucast d * 86400000 + 441763200000 else 0) + ucast t
      = (if n = 6 then max ts 441763200000 else if 441763200000 < ts then (ts - 441763200000) mod 86400000 else 0)"
  proof (cases "n = 6")
    case True
    then show ?thesis unfolding max [symmetric] using total by simp
  next
    case False
    then show ?thesis using parts(1) by (simp add: m_def)
  qed
  moreover have "mvalue self \<in> range (U_binaryTime 6) \<longleftrightarrow> n = 6" using s(1) by auto
  ultimately show ?thesis using set by simp
qed

theorem binary_time_roundtrip_witness:
  "\<exists>self'. MmsValue_setBinaryTime (MmsValue_newBinaryTime False) 1475582400123 = Inr self' \<and>
     MmsValue_getBinaryTimeAsUtcMs self' = Inr 1475582400123"
  using binary_time_roundtrip [of "MmsValue_newBinaryTime False" 1475582400123]
  by (auto simp: MmsValue_newBinaryTime_def leaf_ok_def max_def)

end
