(* ===== verification/Mms_Value_Types.thy ===== *)
theory Mms_Value_Types
  imports Mms_Value_Numbers
begin

text \<open>
  Type soundness of MMS values: default values, updates, copies and every setter stay in the type that the value was
  made for.
\<close>

section \<open>Copies stay in the type\<close>

lemma clone_components_conform:
  "list_all2 (\<lambda>e c. \<exists>v. c = Some v \<and> conforms e v) es cs \<Longrightarrow>
   (\<And>e v. e \<in> set es \<Longrightarrow> conforms e v \<Longrightarrow> \<exists>v'. MmsValue_clone v = Inr v' \<and> conforms e v') \<Longrightarrow>
   \<exists>cs'. clone_components cs = Inr cs' \<and> list_all2 (\<lambda>e c. \<exists>v. c = Some v \<and> conforms e v) es cs'"
proof (induction es arbitrary: cs)
  case Nil
  then show ?case by simp
next
  case (Cons e es)
  then obtain v cs1 where s: "cs = Some v # cs1" "conforms e v" "list_all2 (\<lambda>e c. \<exists>v. c = Some v \<and> conforms e v) es cs1"
    by (auto simp: list_all2_Cons1)
  from Cons.prems(2) [OF _ s(2)] obtain v' where "MmsValue_clone v = Inr v'" "conforms e v'" by auto
  moreover from Cons.IH [OF s(3)] Cons.prems(2) obtain cs' where
    "clone_components cs1 = Inr cs'" "list_all2 (\<lambda>e c. \<exists>v. c = Some v \<and> conforms e v) es cs'" by auto
  ultimately show ?case using s(1) by auto
qed

lemma clone_leaf_conforms:
  "leaf_conforms t s (mvalue v) \<Longrightarrow> mtype v = t \<Longrightarrow> \<not> is_complex t \<Longrightarrow>
   \<exists>v'. MmsValue_clone v = Inr v' \<and> mtype v' = t \<and> leaf_conforms t s (mvalue v')"
proof (cases v)
  case (MmsValue t' d u)
  assume a: "leaf_conforms t s (mvalue v)" "mtype v = t" "\<not> is_complex t"
  then have "leaf_ok t u" using MmsValue by (simp add: leaf_conforms_def)
  from clone_leaf [OF this, of s] a MmsValue show ?thesis by auto
qed

lemma clone_conforms:
  "conforms spec v \<Longrightarrow> \<exists>v'. MmsValue_clone v = Inr v' \<and> conforms spec v'"
proof (induction spec arbitrary: v rule: spec_induct)
  case (array t nm n e v)
  show ?case
  proof (cases "t = MMS_ARRAY")
    case True
    obtain d cs where v: "v = MmsValue MMS_ARRAY d (U_structure cs)" "int (length cs) = n"
      "list_all2 (\<lambda>e c. \<exists>v. c = Some v \<and> conforms e v) (replicate (length cs) e) cs"
      using array.prems True by (cases v) (auto simp: array_all2)
    from clone_components_conform [OF v(3)] array.IH obtain cs' where "clone_components cs = Inr cs'"
      "list_all2 (\<lambda>e c. \<exists>v. c = Some v \<and> conforms e v) (replicate (length cs) e) cs'" by auto
    moreover from this have "length cs' = length cs" by (auto dest: list_all2_lengthD)
    ultimately show ?thesis using v True by (auto simp: array_all2)
  next
    case False
    with array.prems have "leaf_conforms t (T_array n e) (mvalue v)" "mtype v = t" "\<not> is_complex t" by (auto split: if_splits)
    from clone_leaf_conforms [OF this] this(3) show ?thesis by auto
  qed
next
  case (struct t nm es v)
  show ?case
  proof (cases "t = MMS_STRUCTURE")
    case True
    obtain d cs where v: "v = MmsValue MMS_STRUCTURE d (U_structure cs)"
      "list_all2 (\<lambda>e c. \<exists>v. c = Some v \<and> conforms e v) es cs"
      using struct.prems True by (cases v) (auto simp: conforms_all_iff)
    from clone_components_conform [OF v(2)] struct.IH obtain cs' where "clone_components cs = Inr cs'"
      "list_all2 (\<lambda>e c. \<exists>v. c = Some v \<and> conforms e v) es cs'" by auto
    then show ?thesis using v True by (auto simp: conforms_all_iff)
  next
    case False
    with struct.prems have "leaf_conforms t (T_structure es) (mvalue v)" "mtype v = t" "\<not> is_complex t" by (auto split: if_splits)
    from clone_leaf_conforms [OF this] this(3) show ?thesis by auto
  qed
next
  case (leaf t nm s v)
  have nc: "\<not> is_complex t" using leaf.prems leaf.hyps by (cases s) (auto split: if_splits)
  then have "leaf_conforms t s (mvalue v)" "mtype v = t" using leaf.prems by auto
  from clone_leaf_conforms [OF this nc] nc show ?case by auto
qed


section \<open>Setters stay in the type\<close>

text \<open>One call of a setter that comes back; bit positions are those of the string, texts fit the 16 bit size of a string.\<close>

inductive set_step :: "float_ops \<Rightarrow> sMmsValue \<Rightarrow> sMmsValue \<Rightarrow> bool" for F where
  boolean: "MmsValue_setBoolean v b = Inr v' \<Longrightarrow> set_step F v v'"
| int8: "MmsValue_setInt8 v o8 = Inr v' \<Longrightarrow> set_step F v v'"
| int16: "MmsValue_setInt16 v h = Inr v' \<Longrightarrow> set_step F v v'"
| int32: "MmsValue_setInt32 v i = Inr v' \<Longrightarrow> set_step F v v'"
| int64: "MmsValue_setInt64 v l = Inr v' \<Longrightarrow> set_step F v v'"
| uint32: "MmsValue_setUint32 v i = Inr v' \<Longrightarrow> set_step F v v'"
| uint16: "MmsValue_setUint16 v h = Inr v' \<Longrightarrow> set_step F v v'"
| uint8: "MmsValue_setUint8 v o8 = Inr v' \<Longrightarrow> set_step F v v'"
| float: "MmsValue_setFloat F v i = Inr v' \<Longrightarrow> set_step F v v'"
| double: "MmsValue_setDouble F v l = Inr v' \<Longrightarrow> set_step F v v'"
| bit: "0 \<le> p \<Longrightarrow> MmsValue_setBitStringBit v p b = Inr v' \<Longrightarrow> set_step F v v'"
| no_bits: "MmsValue_deleteAllBitStringBits v = Inr v' \<Longrightarrow> set_step F v v'"
| all_bits: "MmsValue_setAllBitStringBits v = Inr v' \<Longrightarrow> set_step F v v'"
| octets: "0 \<le> k \<Longrightarrow> MmsValue_setOctetString v os k = Inr v' \<Longrightarrow> set_step F v v'"
| visible_string: "length s < 32768 \<Longrightarrow> MmsValue_setVisibleString v (Some s) = Inr v' \<Longrightarrow> set_step F v v'"
| mms_string: "length s < 32768 \<Longrightarrow> MmsValue_setMmsString v (Some s) = Inr v' \<Longrightarrow> set_step F v v'"
| utc_time: "MmsValue_setUtcTime v i = Inr v' \<Longrightarrow> set_step F v v'"
| utc_time_ms: "MmsValue_setUtcTimeMs v l = Inr v' \<Longrightarrow> set_step F v v'"
| utc_quality: "MmsValue_setUtcTimeQuality v o8 = Inr v' \<Longrightarrow> set_step F v v'"
| utc_buffer: "MmsValue_setUtcTimeByBuffer v os = Inr v' \<Longrightarrow> set_step F v v'"
| binary_time: "MmsValue_setBinaryTime v l = Inr v' \<Longrightarrow> set_step F v v'"

text \<open>What is common to them: the type stays, and the member is replaced by one for the same specification.\<close>

lemma memcpy_length: "memcpy_to a p b n = Inr a' \<Longrightarrow> length a' = length a"
  by (auto simp: memcpy_to_def split: if_splits)

lemma rbind_case: "rbind m f = Inr y \<Longrightarrow> (\<And>x. m = Inr x \<Longrightarrow> f x = Inr y \<Longrightarrow> P) \<Longrightarrow> P"
  by (cases m) auto

lemma leaf_conforms_integer:
  "leaf_conforms t s (U_integer v) \<Longrightarrow> value_ok w \<Longrightarrow> pmaxSize w = pmaxSize v \<Longrightarrow> leaf_conforms t s (U_integer w)"
  by (cases t) (simp_all add: leaf_simps split del: if_split)

lemma le_octets_Nil [simp]: "le_octets n w = [] \<longleftrightarrow> n = 0"
  by (simp add: le_octets_def)

lemma set_integer_keeps:
  assumes "leaf_conforms t s u" and "set_integer t' k f (MmsValue t d u) = Inr v'"
    and "\<And>v v' r. value_ok v \<Longrightarrow> f v = Inr (v', r) \<Longrightarrow> value_ok v' \<and> pmaxSize v' = pmaxSize v" and "t' = MMS_INTEGER \<or> t' = MMS_UNSIGNED"
  shows "mtype v' = t \<and> leaf_conforms t s (mvalue v')"
proof (cases "t = t'")
  case True
  with assms(1,4) obtain v where v: "u = U_integer v" "value_ok v" by (auto simp: leaf_simps)
  with assms(2) True consider "v' = MmsValue t d u" | v1 r where "f v = Inr (v1, r)" "v' = MmsValue t d (U_integer v1)"
    by (auto simp: set_integer_def integer_of_def rbind_Inr_iff split: if_splits)
  then show ?thesis
  proof cases
    case 2
    with assms(3) [OF v(2)] have "value_ok v1 \<and> pmaxSize v1 = pmaxSize v" by blast
    with 2 v assms(1) show ?thesis by (auto intro: leaf_conforms_integer)
  qed (use assms(1) in simp)
qed (use assms in \<open>auto simp: set_integer_def\<close>)


lemma store_word_length: "store_word b n w = Inr b' \<Longrightarrow> length b' = length b"
  unfolding store_word_def by (rule memcpy_length)

lemma set_utc_keeps:
  assumes "leaf_conforms t s u" and "\<not> is_complex t" and "set_utc (MmsValue t d u) f = Inr v'"
    and "\<And>a a'. f a = Inr a' \<Longrightarrow> length a' = length a"
  shows "mtype v' = t \<and> leaf_conforms t s (mvalue v')"
proof -
  from assms(3) obtain a a' where a: "u = U_utcTime a" "f a = Inr a'" "v' = MmsValue t d (U_utcTime a')"
    by (cases u) (auto simp: set_utc_def utc_of_def rbind_Inr_iff)
  with assms(1) have "t = MMS_UTC_TIME" by (cases t) (auto simp: leaf_simps)
  with a assms(1) assms(4) [OF a(2)] show ?thesis by (auto simp: leaf_simps)
qed

lemma set_string_keeps:
  assumes "leaf_conforms t s u" and "t = MMS_VISIBLE_STRING \<or> t = MMS_STRING" and "length x < 32768"
    and "set_string (MmsValue t d u) (Some x) = Inr v'"
  shows "mtype v' = t \<and> leaf_conforms t s (mvalue v')"
proof -
  from assms(1,2) obtain y n where y: "u = U_visibleString (Some (y, n + 1)) n" "int (length y) \<le> n" "n < 32768"
    by (auto simp: leaf_simps)
  from set_string_ok [OF y(2,3), of x] assms(3) obtain n' where
    "setVisibleStringValue (Some (y, n + 1), n) (Some x) = Inr (Some (x, n' + 1), n')" "int (length x) \<le> n'" "n' < 32768"
    by auto
  with assms y show ?thesis by (auto simp: set_string_def leaf_simps)
qed

lemma set_bits_keeps:
  assumes "leaf_conforms t s u" and "u = U_bitString n b" and "length b' = length b"
  shows "leaf_conforms t s (U_bitString n b')"
  using assms by (cases t) (auto simp: leaf_simps)

lemma u16_of_int_le: "0 \<le> k \<Longrightarrow> k \<le> uint (w :: u16) \<Longrightarrow> unat (word_of_int k :: u16) \<le> unat w"
proof -
  assume k: "0 \<le> k" "k \<le> uint w"
  have "uint w < 2 ^ LENGTH(16)" by (rule uint_lt2p)
  with k have "unat (word_of_int k :: u16) = nat k" by (intro unat_of_int_16) simp_all
  also have "\<dots> \<le> nat (uint w)" using k(2) by (rule nat_mono)
  finally show ?thesis by (simp only: unat_eq_nat_uint)
qed

lemma set_step_leaf:
  assumes u: "leaf_conforms t s u" and t: "\<not> is_complex t" and step: "set_step F (MmsValue t d u) v'"
  shows "mtype v' = t \<and> leaf_conforms t s (mvalue v')"
  using step
proof (cases rule: set_step.cases)
  case (boolean b)
  with u show ?thesis by (cases t; cases u) (auto simp: MmsValue_setBoolean_def leaf_simps)
next
  case (int8 x)
  then show ?thesis unfolding MmsValue_setInt8_def BerInteger_setInt32_def
    by (rule set_integer_keeps [OF u]) (auto dest!: setIntegerValue_ok [rotated 2])
next
  case (int16 x)
  then show ?thesis unfolding MmsValue_setInt16_def BerInteger_setInt32_def
    by (rule set_integer_keeps [OF u]) (auto dest!: setIntegerValue_ok [rotated 2])
next
  case (int32 x)
  then show ?thesis unfolding MmsValue_setInt32_def BerInteger_setInt32_def
    by (rule set_integer_keeps [OF u]) (auto dest!: setIntegerValue_ok [rotated 2])
next
  case (int64 x)
  then show ?thesis unfolding MmsValue_setInt64_def BerInteger_setInt64_def
    by (rule set_integer_keeps [OF u]) (auto dest!: setIntegerValue_ok [rotated 2])
next
  case (uint32 x)
  then show ?thesis unfolding MmsValue_setUint32_def BerInteger_setUint32_def
    by (rule set_integer_keeps [OF u]) (auto dest!: setIntegerValue_ok [rotated 2])
next
  case (uint16 x)
  then show ?thesis unfolding MmsValue_setUint16_def BerInteger_setUint16_def
    by (rule set_integer_keeps [OF u]) (auto dest!: setIntegerValue_ok [rotated 2])
next
  case (uint8 x)
  then show ?thesis unfolding MmsValue_setUint8_def BerInteger_setUint8_def
    by (rule set_integer_keeps [OF u]) (auto dest!: setIntegerValue_ok [rotated 2])
next
  case (float x)
  show ?thesis
  proof (cases "t = MMS_FLOAT")
    case True
    with float u show ?thesis
      by (auto simp: MmsValue_setFloat_def leaf_simps rbind_Inr_iff dest!: store_word_length split: if_splits)
  next
    case False
    with float have "v' = MmsValue t d u" by (simp add: MmsValue_setFloat_def)
    with u show ?thesis by simp
  qed
next
  case (double x)
  show ?thesis
  proof (cases "t = MMS_FLOAT")
    case True
    with double u show ?thesis
      by (auto simp: MmsValue_setDouble_def leaf_simps rbind_Inr_iff dest!: store_word_length split: if_splits)
  next
    case False
    with double have "v' = MmsValue t d u" by (simp add: MmsValue_setDouble_def)
    with u show ?thesis by simp
  qed
next
  case (bit p b)
  then show ?thesis using u
    by (cases u) (auto simp: MmsValue_setBitStringBit_def bits_of_def rbind_Inr_iff Let_def
      dest!: memcpy_length intro: set_bits_keeps split: if_splits)
next
  case no_bits
  then show ?thesis using u
    by (cases u) (auto simp: MmsValue_deleteAllBitStringBits_def fill_octets_def bits_of_def rbind_Inr_iff
      dest!: memcpy_length intro: set_bits_keeps)
next
  case all_bits
  then show ?thesis using u
    by (cases u) (auto simp: MmsValue_setAllBitStringBits_def fill_octets_def bits_of_def rbind_Inr_iff Let_def
      dest!: memcpy_length intro!: set_bits_keeps)
next
  case (octets k os)
  then show ?thesis using u
    by (cases u; cases t) (auto simp: MmsValue_setOctetString_def leaf_simps rbind_Inr_iff u16_of_int_le
      dest!: memcpy_length split: if_splits)
next
  case (visible_string x)
  then show ?thesis using u set_string_keeps [OF u, of x d v']
    by (auto simp: MmsValue_setVisibleString_def split: if_splits)
next
  case (mms_string x)
  then show ?thesis using u set_string_keeps [OF u, of x d v']
    by (auto simp: MmsValue_setMmsString_def split: if_splits)
next
  case (utc_time x)
  then show ?thesis unfolding MmsValue_setUtcTime_def memcpyReverseByteOrder_def
    by (rule set_utc_keeps [OF u t]) (auto simp: rbind_Inr_iff dest!: memcpy_length)
next
  case (utc_time_ms x)
  then show ?thesis unfolding MmsValue_setUtcTimeMs_def memcpyReverseByteOrder_def Let_def
    by (rule set_utc_keeps [OF u t]) (auto simp: rbind_Inr_iff dest!: memcpy_length)
next
  case (utc_quality x)
  then show ?thesis unfolding MmsValue_setUtcTimeQuality_def
    by (rule set_utc_keeps [OF u t]) (auto dest!: memcpy_length)
next
  case (utc_buffer x)
  then show ?thesis unfolding MmsValue_setUtcTimeByBuffer_def
    by (rule set_utc_keeps [OF u t]) (auto dest!: memcpy_length)
next
  case (binary_time x)
  then show ?thesis using u
    by (cases u; cases t) (auto simp: MmsValue_setBinaryTime_def leaf_simps rbind_Inr_iff Let_def
      dest!: memcpy_length split: if_splits)
qed


text \<open>The setters do not touch an array or a structure.\<close>

lemma set_step_complex:
  "set_step F (MmsValue t d (U_structure cs)) v' \<Longrightarrow> is_complex t \<Longrightarrow> v' = MmsValue t d (U_structure cs)"
  by (erule set_step.cases)
    (auto simp: MmsValue_setBoolean_def MmsValue_setInt8_def MmsValue_setInt16_def MmsValue_setInt32_def MmsValue_setInt64_def
      MmsValue_setUint32_def MmsValue_setUint16_def MmsValue_setUint8_def set_integer_def MmsValue_setFloat_def
      MmsValue_setDouble_def MmsValue_setBitStringBit_def MmsValue_deleteAllBitStringBits_def MmsValue_setAllBitStringBits_def
      MmsValue_setOctetString_def MmsValue_setVisibleString_def MmsValue_setMmsString_def MmsValue_setUtcTime_def
      MmsValue_setUtcTimeMs_def MmsValue_setUtcTimeQuality_def MmsValue_setUtcTimeByBuffer_def MmsValue_setBinaryTime_def
      set_utc_def member_defs Let_def)

lemma set_step_conforms:
  assumes "conforms spec v" and "set_step F v v'"
  shows "conforms spec v'"
proof (cases spec)
  case (MmsVariableSpecification t nm s)
  obtain d u where v: "v = MmsValue t d u" using assms(1) MmsVariableSpecification by (cases v) simp
  show ?thesis
  proof (cases "is_complex t")
    case True
    then obtain cs where "u = U_structure cs"
      using assms(1) v MmsVariableSpecification by (auto split: uMmsTypeSpecification.splits if_splits)
    with assms(2) v True have "v' = v" by (auto dest: set_step_complex)
    with assms(1) show ?thesis by simp
  next
    case False
    with assms(1) v MmsVariableSpecification have "leaf_conforms t s u" by simp
    from set_step_leaf [OF this False] assms(2) v False MmsVariableSpecification show ?thesis by simp
  qed
qed


section \<open>The properties\<close>

definition demo_spec :: MmsVariableSpecification where
  "demo_spec = MmsVariableSpecification MMS_STRUCTURE (Some ''A'')
     (T_structure [MmsVariableSpecification MMS_INTEGER (Some ''ctlNum'') (T_integer 8),
                   MmsVariableSpecification MMS_BIT_STRING (Some ''q'') (T_bitString (-13)),
                   MmsVariableSpecification MMS_ARRAY (Some ''v'')
                     (T_array 2 (MmsVariableSpecification MMS_VISIBLE_STRING (Some ''s'') (T_visibleString (-5))))])"

text \<open>
  C17: Every value that was made for a type specification remains a value of it: the default value is one, and so is what an
  update by a value of the type, any of the setters, and a copy make of one. So the type tag and the member of the union
  always agree, and every buffer has the length that its size fields promise.
\<close>

theorem values_stay_in_their_type:
  assumes "spec_ok spec"
  shows "(\<exists>v. MmsValue_newDefaultValue spec = Inr (Some v) \<and> conforms spec v)
       \<and> (\<forall>v. conforms spec v \<longrightarrow>
            (\<forall>w. conforms spec w \<longrightarrow> (\<exists>v'. MmsValue_update v w = Inr (v', True) \<and> conforms spec v'))
          \<and> (\<forall>F v'. set_step F v v' \<longrightarrow> conforms spec v')
          \<and> (\<exists>v'. MmsValue_clone v = Inr v' \<and> conforms spec v'))"
  using newDefaultValue_conforms [OF assms] update_conforms set_step_conforms clone_conforms
  unfolding updates_to_def by blast

theorem values_stay_in_their_type_witness:
  "\<exists>v v'. MmsValue_newDefaultValue demo_spec = Inr (Some v) \<and> MmsValue_clone v = Inr v' \<and> conforms demo_spec v'"
proof -
  have "spec_ok demo_spec" by (simp add: demo_spec_def leaf_spec_ok_def)
  from values_stay_in_their_type [OF this] show ?thesis by blast
qed

text \<open>
  C19: An update by a value of the same type succeeds, and afterwards the value equals the update, however deep the structure
  is; a copy of a value equals it.
\<close>

theorem update_and_clone_give_equal_values:
  assumes "conforms spec v" and "conforms spec w"
  shows "(\<exists>v'. MmsValue_update v w = Inr (v', True) \<and> MmsValue_equals v' w = Inr True)
       \<and> (\<exists>v'. MmsValue_clone v = Inr v' \<and> MmsValue_equals v' v = Inr True)"
  using update_conforms [OF assms] clone_typed [OF conforms_typed [OF assms(1)]]
  by (auto simp: updates_to_def clones_def)

definition demo_value :: "byte \<Rightarrow> byte list \<Rightarrow> sMmsValue" where
  "demo_value x s = MmsValue MMS_STRUCTURE 0 (U_structure [
     Some (MmsValue MMS_INTEGER 0 (U_integer \<lparr>psize = 1, pmaxSize = 5, octets = [x, 0, 0, 0, 0]\<rparr>)),
     Some (MmsValue MMS_BIT_STRING 0 (U_bitString 13 [x, 0])),
     Some (MmsValue MMS_ARRAY 0 (U_structure [Some (MmsValue MMS_VISIBLE_STRING 0 (U_visibleString (Some (s, 6)) 5)),
                                              Some (MmsValue MMS_VISIBLE_STRING 0 (U_visibleString (Some ([], 6)) 5))]))])"

lemma demo_value_conforms: "length s \<le> 5 \<Longrightarrow> conforms demo_spec (demo_value x s)"
  by (auto simp: demo_spec_def demo_value_def leaf_conforms_def leaf_ok_def value_ok_def bitStringByteSize_def)

theorem update_and_clone_give_equal_values_witness:
  "\<exists>v'. MmsValue_update (demo_value 1 [65]) (demo_value 7 [66, 67]) = Inr (v', True) \<and> MmsValue_equals v' (demo_value 7 [66, 67]) = Inr True"
  using update_and_clone_give_equal_values [of demo_spec "demo_value 1 [65]" "demo_value 7 [66, 67]"] demo_value_conforms
  by simp

text \<open>
  C20: The copy into a buffer of the caller takes exactly the number of octets that \<open>MmsValue_getSizeInMemory\<close> reports: the
  areas that it writes lie one behind the other from the given address to the address that is returned, and the copy equals the
  original.
\<close>

theorem cloneToBuffer_fills_reported_size:
  assumes "value_typed v" and "sizes_ok Z"
  shows "\<exists>v' areas k. MmsValue_getSizeInMemory Z v = Inr k \<and> MmsValue_cloneToBuffer Z v dest = Inr (v', areas, dest + k)
           \<and> tiles dest areas (dest + k) \<and> MmsValue_equals v' v = Inr True"
  using typed_copied [OF assms(2,1), of dest] by (auto simp: copied_at_def)

theorem cloneToBuffer_fills_reported_size_witness:
  "\<exists>v' areas k. MmsValue_getSizeInMemory \<lparr>value_size = 24, pointer_size = 8, primitive_size = 16\<rparr> (demo_value 1 [65]) = Inr k
     \<and> MmsValue_cloneToBuffer \<lparr>value_size = 24, pointer_size = 8, primitive_size = 16\<rparr> (demo_value 1 [65]) 1000 = Inr (v', areas, 1000 + k)
     \<and> tiles 1000 areas (1000 + k)"
  using cloneToBuffer_fills_reported_size [of "demo_value 1 [65]" "\<lparr>value_size = 24, pointer_size = 8, primitive_size = 16\<rparr>" 1000]
    conforms_typed [OF demo_value_conforms, of "[65]" 1] by (auto simp: sizes_ok_def)

text \<open>
  A copy of a string in a buffer keeps the size field of the original, but only the memory for the text it has. Where the
  original has room for more, setting any text the size field allows writes behind the memory of the copy.
\<close>

theorem copied_string_write_overflows:
  assumes "t = MMS_VISIBLE_STRING \<or> t = MMS_STRING" and "int (length s) < n" and "n < 32768" and "int (length s') \<le> n"
  shows "\<exists>v' areas e. MmsValue_cloneToBuffer Z (MmsValue t d (U_visibleString (Some (s, n + 1)) n)) dest = Inr (v', areas, e)
           \<and> (if t = MMS_STRING then MmsValue_setMmsString v' (Some s') else MmsValue_setVisibleString v' (Some s')) = Inl Out_of_bounds"
  using assms by (rule copied_string_overflows)

theorem copied_string_write_overflows_witness:
  "\<exists>v' areas e. MmsValue_cloneToBuffer \<lparr>value_size = 24, pointer_size = 8, primitive_size = 16\<rparr>
       (MmsValue MMS_VISIBLE_STRING 0 (U_visibleString (Some ([65], 6)) 5)) 0 = Inr (v', areas, e)
     \<and> MmsValue_setVisibleString v' (Some [66]) = Inl Out_of_bounds"
  using copied_string_write_overflows [of MMS_VISIBLE_STRING "[65]" 5 "[66]" "\<lparr>value_size = 24, pointer_size = 8, primitive_size = 16\<rparr>" 0 0]
  by simp

end
