(* ===== verification/Mms_Paths.thy ===== *)
theory Mms_Paths
  imports Mms_Value_Types
begin

text \<open>
  Names with separators: \<open>MmsVariableSpecification_getChildValue\<close> finds in a value what
  \<open>MmsVariableSpecification_getNamedVariableRecursive\<close> finds in its specification; the latter reads a wrong member of
  the union below an array of plain elements.
\<close>

text \<open>Every specification has a name.\<close>

fun named :: "MmsVariableSpecification \<Rightarrow> bool" and all_named :: "MmsVariableSpecification list \<Rightarrow> bool" where
  "named (MmsVariableSpecification t nm s) \<longleftrightarrow> nm \<noteq> None \<and>
     (case s of T_array n e \<Rightarrow> named e | T_structure es \<Rightarrow> all_named es | _ \<Rightarrow> True)"
| "all_named [] \<longleftrightarrow> True"
| "all_named (e # es) \<longleftrightarrow> named e \<and> all_named es"

lemma all_named_iff: "all_named es \<longleftrightarrow> (\<forall>e \<in> set es. named e)"
  by (induction es) auto

lemma named_has_name: "named e \<Longrightarrow> spec_name e \<noteq> None"
  by (cases e) simp

text \<open>Both loops find the first element with the name.\<close>

lemma index_of_spec:
  "all_named es \<Longrightarrow>
     (index_of es key i = Inr None \<and> find_element es key = Inr None)
   \<or> (\<exists>j < length es. index_of es key i = Inr (Some (i + j, es ! j)) \<and> find_element es key = Inr (Some (es ! j)))"
proof (induction es arbitrary: i)
  case Nil
  then show ?case by simp
next
  case (Cons e es)
  from Cons.prems named_has_name [of e] obtain s where s: "spec_name e = Some s" by auto
  show ?case
  proof (cases "s = key")
    case True
    then show ?thesis using s by (auto intro!: exI [of _ 0])
  next
    case False
    from Cons.IH [of "Suc i"] Cons.prems consider
      "index_of es key (Suc i) = Inr None" "find_element es key = Inr None"
      | j where "j < length es" "index_of es key (Suc i) = Inr (Some (Suc i + j, es ! j))" "find_element es key = Inr (Some (es ! j))"
      by auto
    then show ?thesis
    proof cases
      case (2 j)
      then show ?thesis using s False by (auto intro!: exI [of _ "Suc j"])
    qed (use s False in simp)
  qed
qed

lemma structure_parts:
  assumes "conforms spec v" and "spec_type spec = MMS_STRUCTURE"
  obtains nm es d cs where "spec = MmsVariableSpecification MMS_STRUCTURE nm (T_structure es)"
    "v = MmsValue MMS_STRUCTURE d (U_structure cs)" "list_all2 (\<lambda>e c. \<exists>w. c = Some w \<and> conforms e w) es cs"
  using assms by (cases spec; cases v) (auto simp: conforms_all_iff split: uMmsTypeSpecification.splits)

lemma separator_cases:
  "MmsVariableSpecification_getNamedVariableRecursive
       (MmsVariableSpecification MMS_STRUCTURE nm (T_structure es)) path =
     rbind (find_element es (take (directChildStrLen path) path)) (\<lambda>found.
       if directChildStrLen path = length path then Inr found
       else case found of None \<Rightarrow> Inr None
         | Some e \<Rightarrow>
            if spec_type e = MMS_STRUCTURE
            then MmsVariableSpecification_getNamedVariableRecursive e (drop (Suc (directChildStrLen path)) path)
            else if spec_type e = MMS_ARRAY
            then (case array_element (typeSpec e) of Inl f \<Rightarrow> Inl f
                  | Inr element \<Rightarrow> MmsVariableSpecification_getNamedVariableRecursive element (drop (Suc (directChildStrLen path)) path))
            else Inr None)"
proof -
  have "rbind m Inr = m" for m :: "MmsVariableSpecification option run" by (cases m) simp_all
  then show ?thesis
    by (subst MmsVariableSpecification_getNamedVariableRecursive.simps) (simp add: Let_def)
qed

lemma child_value_spec:
  "conforms spec v \<Longrightarrow> named spec \<Longrightarrow>
   \<exists>r. MmsVariableSpecification_getChildValue spec (Some v) path = Inr r
     \<and> (\<forall>w. r = Some w \<longrightarrow> (\<exists>e. MmsVariableSpecification_getNamedVariableRecursive spec path = Inr (Some e) \<and> conforms e w))"
proof (induction "length path" arbitrary: spec v path rule: less_induct)
  case less
  show ?case
  proof (cases "spec_type spec = MMS_STRUCTURE")
    case False
    then show ?thesis by (subst MmsVariableSpecification_getChildValue.simps) simp
  next
    case True
    with less.prems(1) obtain nm es d cs where s: "spec = MmsVariableSpecification MMS_STRUCTURE nm (T_structure es)"
      "v = MmsValue MMS_STRUCTURE d (U_structure cs)" "list_all2 (\<lambda>e c. \<exists>w. c = Some w \<and> conforms e w) es cs"
      by (rule structure_parts)
    have an: "all_named es" using less.prems(2) s(1) by simp
    let ?k = "directChildStrLen path"
    from index_of_spec [OF an, of "take ?k path" 0] consider
      "index_of es (take ?k path) 0 = Inr None"
      | j where "j < length es" "index_of es (take ?k path) 0 = Inr (Some (j, es ! j))" "find_element es (take ?k path) = Inr (Some (es ! j))"
      by auto
    then show ?thesis
    proof cases
      case 1
      then show ?thesis by (subst MmsVariableSpecification_getChildValue.simps) (simp add: s Let_def)
    next
      case (2 j)
      from s(3) 2(1) obtain w where w: "j < length cs" "cs ! j = Some w" "conforms (es ! j) w"
        by (auto simp: list_all2_conv_all_nth)
      have nj: "named (es ! j)" using an 2(1) by (simp add: all_named_iff)
      have gc: "MmsVariableSpecification_getChildValue spec (Some v) path =
          (if ?k = length path then Inr (Some w)
           else MmsVariableSpecification_getChildValue (es ! j) (Some w) (drop (Suc ?k) path))"
        by (subst MmsVariableSpecification_getChildValue.simps) (simp add: s 2 w structure_of_def Let_def)
      show ?thesis
      proof (cases "?k = length path")
        case True
        then show ?thesis using gc 2(3) w(3) s(1) by (simp add: separator_cases)
      next
        case False
        then have "length (drop (Suc ?k) path) < length path" using rest_shorter by simp
        from less.hyps [OF this w(3) nj] obtain r where r:
          "MmsVariableSpecification_getChildValue (es ! j) (Some w) (drop (Suc ?k) path) = Inr r"
          "\<forall>x. r = Some x \<longrightarrow> (\<exists>e. MmsVariableSpecification_getNamedVariableRecursive (es ! j) (drop (Suc ?k) path) = Inr (Some e) \<and> conforms e x)"
          by blast
        have "spec_type (es ! j) = MMS_STRUCTURE \<or> r = None"
          using r(1) by (subst (asm) MmsVariableSpecification_getChildValue.simps) (auto split: if_splits)
        then show ?thesis using gc False r 2(3) s(1) by (auto simp: separator_cases)
      qed
    qed
  qed
qed

text \<open>
  C22: Looking a value up by a name with separators never leaves the value, whatever the name is, and what it finds belongs to the
  specification that the same name has in the type.
\<close>

theorem child_values_have_the_named_type:
  assumes "conforms spec v" and "named spec"
  shows "\<exists>r. MmsValue_getSubElement v spec path = Inr r
     \<and> (\<forall>w. r = Some w \<longrightarrow> (\<exists>e. MmsVariableSpecification_getNamedVariableRecursive spec path = Inr (Some e) \<and> conforms e w))"
  unfolding MmsValue_getSubElement_def using assms by (rule child_value_spec)

theorem child_values_have_the_named_type_witness:
  "\<exists>r. MmsValue_getSubElement (demo_value 7 [66]) demo_spec ''q'' = Inr r
     \<and> (\<forall>w. r = Some w \<longrightarrow> (\<exists>e. MmsVariableSpecification_getNamedVariableRecursive demo_spec ''q'' = Inr (Some e) \<and> conforms e w))"
  using child_values_have_the_named_type [OF demo_value_conforms, of "[66]" 7 "''q''"] by (simp add: demo_spec_def)

text \<open>
  A name that goes on below the elements of an array of plain values makes the search read the number of elements and the
  pointer to them out of the description of a plain type.
\<close>

theorem name_below_array_of_leaves_undefined:
  assumes "spec_name a = Some ''a''" and "spec_type a = MMS_ARRAY" and "typeSpec a = T_array n (MmsVariableSpecification MMS_INTEGER nm (T_integer bits))"
    and "0 < bits"
  shows "MmsVariableSpecification_getNamedVariableRecursive
           (MmsVariableSpecification MMS_STRUCTURE nm' (T_structure [a])) ''a$b$c'' = Inl Undefined_operation"
proof -
  have "MmsVariableSpecification_getNamedVariableRecursive (MmsVariableSpecification MMS_INTEGER nm (T_integer bits)) ''b$c''
        = Inl Undefined_operation"
    by (subst MmsVariableSpecification_getNamedVariableRecursive.simps) (use assms(4) in \<open>simp add: Let_def\<close>)
  then show ?thesis using assms(1-3) by (simp add: separator_cases)
qed

theorem name_below_array_of_leaves_undefined_witness:
  "MmsVariableSpecification_getNamedVariableRecursive
     (MmsVariableSpecification MMS_STRUCTURE None (T_structure [MmsVariableSpecification MMS_ARRAY (Some ''a'')
        (T_array 3 (MmsVariableSpecification MMS_INTEGER None (T_integer 32)))])) ''a$b$c'' = Inl Undefined_operation"
  by (rule name_below_array_of_leaves_undefined [where n = 3 and bits = 32 and nm = None]) simp_all

end
