(* ===== verification/Mms_Print.thy ===== *)
theory Mms_Print
  imports Mms_Value_Numbers C_Strings
begin

text \<open>
  \<open>MmsValue_printToBuffer\<close> of \<open>mms_value.c\<close>: the text of a value in a buffer of the caller. The buffer is memory of some length
  with the place \<open>off\<close> where the text starts; \<open>bufferSize\<close> is what the caller says of it. The text of a floating point number (\<open>%f\<close>) is a parameter.
\<close>

section \<open>Formatted output\<close>

text \<open>\<open>snprintf\<close> and \<open>strncpy\<close>; a negative size is a huge one.\<close>

definition put_octets :: "byte list \<Rightarrow> int \<Rightarrow> byte list \<Rightarrow> byte list run" where
  "put_octets buf off xs = memcpy_to buf off xs (int (length xs))"

definition snprintf_at :: "byte list \<Rightarrow> int \<Rightarrow> int \<Rightarrow> byte list \<Rightarrow> byte list run" where
  "snprintf_at buf off n txt =
     (if n = 0 then Inr buf
      else put_octets buf off ((if n < 0 then txt else take (nat (n - 1)) txt) @ [0]))"

definition strncpy_at :: "byte list \<Rightarrow> int \<Rightarrow> int \<Rightarrow> byte list \<Rightarrow> byte list run" where
  "strncpy_at buf off n txt =
     (if n < 0 then Inl Out_of_bounds
      else put_octets buf off (take (nat n) txt @ replicate (nat n - length txt) 0))"

definition strncpy_ended :: "byte list \<Rightarrow> int \<Rightarrow> int \<Rightarrow> byte list \<Rightarrow> byte list run" where
  "strncpy_ended buf off n txt =
     rbind (strncpy_at buf off n txt) (\<lambda>b. if n > 0 then put_octets b (off + n - 1) [0] else Inr b)"

function decimal_digits :: "nat \<Rightarrow> byte list" where
  "decimal_digits n = (if n < 10 then [of_nat (48 + n)] else decimal_digits (n div 10) @ [of_nat (48 + n mod 10)])"
  by pat_completeness auto

termination
  by (relation "measure id") auto

declare decimal_digits.simps [simp del]

definition show_int :: "int \<Rightarrow> byte list" where
  "show_int i = (if i < 0 then 45 # decimal_digits (nat (- i)) else decimal_digits (nat i))"

definition hex_digit :: "nat \<Rightarrow> byte" where
  "hex_digit n = of_nat (if n < 10 then 48 + n else 87 + n)"

definition hex_octet :: "byte \<Rightarrow> byte list" where
  "hex_octet x = [hex_digit (unat x div 16), hex_digit (unat x mod 16)]"


section \<open>Printing\<close>

record print_ops = float_ops +
  float_text :: "u32 \<Rightarrow> byte list"

definition print_time :: "u64 run \<Rightarrow> byte list \<Rightarrow> int \<Rightarrow> int \<Rightarrow> byte list run" where
  "print_time t buf off bufferSize =
     rbind t (\<lambda>ms. rbind (Conversions_msTimeToGeneralizedTime ms (replicate 20 0)) (\<lambda>tempBuf.
       rbind (cstr tempBuf 0) (\<lambda>txt. snprintf_at buf off bufferSize txt)))"

text \<open>The loop over the octets of an octet string.\<close>

fun print_octets :: "byte list \<Rightarrow> byte list \<Rightarrow> int \<Rightarrow> int \<Rightarrow> int \<Rightarrow> byte list run" where
  "print_octets [] buf off bufferSize bufPos = Inr buf"
| "print_octets (x # xs) buf off bufferSize bufPos =
     rbind (snprintf_at buf (off + bufPos) (bufferSize - bufPos) (hex_octet x)) (\<lambda>buf'.
       if bufPos + 2 \<ge> bufferSize then Inr buf' else print_octets xs buf' off bufferSize (bufPos + 2))"

fun bit_texts :: "sMmsValue \<Rightarrow> nat \<Rightarrow> nat \<Rightarrow> byte list run" where
  "bit_texts self i 0 = Inr []"
| "bit_texts self i (Suc k) =
     rbind (MmsValue_getBitStringBit self (int i)) (\<lambda>b. rbind (bit_texts self (Suc i) k) (\<lambda>xs. Inr ((if b then 49 else 48) # xs)))"

definition print_leaf :: "print_ops \<Rightarrow> sMmsValue \<Rightarrow> byte list \<Rightarrow> int \<Rightarrow> int \<Rightarrow> byte list run" where
  "print_leaf P self buf off bufferSize =
     (case mtype self of
        MMS_BINARY_TIME \<Rightarrow> print_time (MmsValue_getBinaryTimeAsUtcMs self) buf off bufferSize
      | MMS_BIT_STRING \<Rightarrow> rbind (MmsValue_getBitStringSize self) (\<lambda>n.
          if n > bufferSize then (if bufferSize < 0 then Inl Out_of_bounds else put_octets buf off (replicate (nat bufferSize) 0))
          else rbind (bit_texts self 0 (nat n)) (\<lambda>xs. put_octets buf off (xs @ [0])))
      | MMS_BOOLEAN \<Rightarrow> rbind (MmsValue_getBoolean self) (\<lambda>b.
          strncpy_ended buf off bufferSize (ascii (if b then ''true'' else ''false'')))
      | MMS_DATA_ACCESS_ERROR \<Rightarrow> rbind (error_of (mvalue self)) (\<lambda>e.
          snprintf_at buf off bufferSize (ascii ''error '' @ show_int e))
      | MMS_FLOAT \<Rightarrow> rbind (MmsValue_toFloat (float_ops.truncate P) self) (\<lambda>f.
          snprintf_at buf off bufferSize (float_text P f))
      | MMS_GENERALIZED_TIME \<Rightarrow> strncpy_ended buf off bufferSize (ascii ''generalized time'')
      | MMS_INTEGER \<Rightarrow> rbind (MmsValue_toInt32 self) (\<lambda>i. snprintf_at buf off bufferSize (show_int (sint i)))
      | MMS_OCTET_STRING \<Rightarrow> rbind (octets_of (mvalue self)) (\<lambda>(n, mx, os). rbind (rd_n os 0 (unat n)) (\<lambda>xs.
          print_octets xs buf off bufferSize 0))
      | MMS_UNSIGNED \<Rightarrow> rbind (MmsValue_toUint32 self) (\<lambda>i. snprintf_at buf off bufferSize (show_int (uint i)))
      | MMS_UTC_TIME \<Rightarrow> print_time (MmsValue_getUtcTimeInMs self) buf off bufferSize
      | MMS_STRING \<Rightarrow> rbind (MmsValue_toString self) (\<lambda>s. case s of None \<Rightarrow> Inl Null_pointer
          | Some txt \<Rightarrow> strncpy_ended buf off bufferSize txt)
      | MMS_VISIBLE_STRING \<Rightarrow> rbind (MmsValue_toString self) (\<lambda>s. case s of None \<Rightarrow> Inl Null_pointer
          | Some txt \<Rightarrow> strncpy_ended buf off bufferSize txt)
      | _ \<Rightarrow> strncpy_ended buf off bufferSize (ascii ''unknown type''))"

text \<open>
  Arrays and structures: the components one after the other with commas between them, as long as there is room; \<open>strlen\<close> of what a component has
  printed moves the position.
\<close>

fun MmsValue_printToBuffer :: "print_ops \<Rightarrow> sMmsValue \<Rightarrow> byte list \<Rightarrow> int \<Rightarrow> int \<Rightarrow> byte list run"
and print_components :: "print_ops \<Rightarrow> sMmsValue option list \<Rightarrow> byte list \<Rightarrow> int \<Rightarrow> int \<Rightarrow> int \<Rightarrow> (byte list \<times> int) run" where
  "MmsValue_printToBuffer P (MmsValue t d u) buf off bufferSize =
     (if is_complex t then
        (case u of
           U_structure cs \<Rightarrow>
             rbind (put_octets buf off (ascii ''{'')) (\<lambda>buf1.
             rbind (print_components P cs buf1 off bufferSize 1) (\<lambda>(buf2, bufPos).
               if bufPos < bufferSize - 1 then put_octets buf2 (off + bufPos) (ascii ''}'' @ [0])
               else put_octets buf2 (off + bufferSize - 1) [0]))
         | _ \<Rightarrow> Inl Undefined_operation)
      else print_leaf P (MmsValue t d u) buf off bufferSize)"
| "print_components P [] buf off bufferSize bufPos = Inr (buf, bufPos)"
| "print_components P (c # cs) buf off bufferSize bufPos =
     (case c of None \<Rightarrow> Inl Null_pointer
      | Some v \<Rightarrow>
          rbind (MmsValue_printToBuffer P v buf (off + bufPos) (bufferSize - bufPos)) (\<lambda>buf1.
          rbind (cstr buf1 (off + bufPos)) (\<lambda>currentStr.
            let bufPos' = bufPos + int (length currentStr)
            in if bufPos' \<ge> bufferSize then Inr (buf1, bufPos')
               else if cs \<noteq> [] then
                 rbind (put_octets buf1 (off + bufPos') (ascii '','')) (\<lambda>buf2. print_components P cs buf2 off bufferSize (bufPos' + 1))
               else Inr (buf1, bufPos'))))"


section \<open>Where the text goes\<close>

text \<open>A buffer that differs from another one in the \<open>n\<close> octets from \<open>off\<close> only.\<close>

definition changed_within :: "int \<Rightarrow> int \<Rightarrow> byte list \<Rightarrow> byte list \<Rightarrow> bool" where
  "changed_within off n buf buf' \<longleftrightarrow> length buf' = length buf \<and> take (nat off) buf' = take (nat off) buf
     \<and> drop (nat (off + n)) buf' = drop (nat (off + n)) buf"

lemma changed_within_refl: "changed_within off n buf buf"
  by (simp add: changed_within_def)

lemma changed_within_trans: "changed_within off n a b \<Longrightarrow> changed_within off n b c \<Longrightarrow> changed_within off n a c"
  by (simp add: changed_within_def)

lemma put_octets_within:
  assumes "0 \<le> off" and "off \<le> p" and "p + int (length xs) \<le> off + n" and "off + n \<le> int (length buf)"
  shows "\<exists>buf'. put_octets buf p xs = Inr buf' \<and> changed_within off n buf buf'"
proof -
  let ?b = "take (nat p) buf @ xs @ drop (nat (p + int (length xs))) buf"
  have "put_octets buf p xs = Inr ?b" using assms by (simp add: put_octets_def memcpy_to_def)
  moreover have "length ?b = length buf" using assms by auto
  moreover have "take (nat off) ?b = take (nat off) buf"
  proof -
    have "length (take (nat p) buf) = nat p" "nat off \<le> nat p" using assms by simp_all
    then show ?thesis by (simp add: min_absorb1)
  qed
  moreover have "drop (nat (off + n)) ?b = drop (nat (off + n)) buf"
  proof -
    define m where "m = nat (off + n) - (nat p + length xs)"
    have q: "nat (p + int (length xs)) = nat p + length xs" using assms by (simp add: nat_add_distrib)
    have e: "nat (off + n) = nat p + length xs + m" unfolding m_def using assms by linarith
    have "length (take (nat p) buf) = nat p" using assms by simp
    then show ?thesis unfolding e q by (simp add: add.commute add.left_commute)
  qed
  ultimately show ?thesis by (auto simp: changed_within_def)
qed

lemma snprintf_within:
  assumes "0 \<le> off" and "off \<le> p" and "0 \<le> k" and "p + k \<le> off + n" and "off + n \<le> int (length buf)"
  shows "\<exists>buf'. snprintf_at buf p k txt = Inr buf' \<and> changed_within off n buf buf'"
proof (cases "k = 0")
  case True
  then show ?thesis by (simp add: snprintf_at_def changed_within_refl)
next
  case False
  have "length (take (nat (k - 1)) txt) \<le> nat (k - 1)" by simp
  then have "int (length (take (nat (k - 1)) txt @ [0 :: byte])) \<le> k" using assms(3) False by simp
  then have "p + int (length (take (nat (k - 1)) txt @ [0 :: byte])) \<le> off + n" using assms(4) by linarith
  from put_octets_within [OF assms(1,2) this assms(5)] show ?thesis using assms(3) False by (simp add: snprintf_at_def)
qed

lemma strncpy_within:
  assumes "0 \<le> off" and "0 < n" and "off + n \<le> int (length buf)"
  shows "\<exists>buf'. strncpy_ended buf off n txt = Inr buf' \<and> changed_within off n buf buf'"
proof -
  let ?xs = "take (nat n) txt @ replicate (nat n - length txt) (0 :: byte)"
  have "length ?xs = nat n" by simp
  then have "off + int (length ?xs) \<le> off + n" using assms(2) by linarith
  from put_octets_within [OF assms(1) order_refl this assms(3)] obtain b where
    b: "put_octets buf off ?xs = Inr b" "changed_within off n buf b" by blast
  then have l: "off + n \<le> int (length b)" using assms(3) by (simp add: changed_within_def)
  have "off \<le> off + n - 1" "off + n - 1 + int (length [0 :: byte]) \<le> off + n" using assms(2) by simp_all
  from put_octets_within [OF assms(1) this l] obtain b' where
    "put_octets b (off + n - 1) [0] = Inr b'" "changed_within off n b b'" by blast
  with b changed_within_trans show ?thesis using assms(2) by (auto simp: strncpy_ended_def strncpy_at_def)
qed

lemma print_octets_within:
  "0 \<le> off \<Longrightarrow> 0 \<le> k \<Longrightarrow> k \<le> n \<Longrightarrow> off + n \<le> int (length buf)
   \<Longrightarrow> \<exists>buf'. print_octets xs buf off n k = Inr buf' \<and> changed_within off n buf buf'"
proof (induction xs arbitrary: buf k)
  case Nil
  then show ?case by (simp add: changed_within_refl)
next
  case (Cons x xs)
  have "off \<le> off + k" "0 \<le> n - k" "off + k + (n - k) \<le> off + n" using Cons.prems by simp_all
  from snprintf_within [OF Cons.prems(1) this Cons.prems(4)] obtain b where
    b: "snprintf_at buf (off + k) (n - k) (hex_octet x) = Inr b" "changed_within off n buf b" by blast
  show ?case
  proof (cases "k + 2 \<ge> n")
    case True
    then show ?thesis using b by simp
  next
    case False
    have "off + n \<le> int (length b)" using b(2) Cons.prems(4) by (simp add: changed_within_def)
    from Cons.IH [OF Cons.prems(1) _ _ this, of "k + 2"] False Cons.prems b changed_within_trans show ?thesis by force
  qed
qed

text \<open>A time before the year 10000 has a text.\<close>

lemma print_time_within:
  assumes "t = Inr ms" and "uint ms < 253402300800000" and "0 \<le> off" and "0 < n" and "off + n \<le> int (length buf)"
  shows "\<exists>buf'. print_time t buf off n = Inr buf' \<and> changed_within off n buf buf'"
proof -
  from msTimeToGeneralizedTime_text [OF assms(2), of "replicate 20 0"] obtain b where
    b: "Conversions_msTimeToGeneralizedTime ms (replicate 20 0) = Inr b" "begins b (generalized_text (uint ms) @ [0])" by auto
  then obtain r where r: "b = generalized_text (uint ms) @ [0] @ r" by (auto simp: begins_def)
  then have "cstr b 0 = Inr (takeWhile (\<lambda>x. x \<noteq> 0) b)" by (simp add: cstr_def)
  with b(1) assms(1) snprintf_within [OF assms(3) order_refl, of n n buf "takeWhile (\<lambda>x. x \<noteq> 0) b"] assms(4,5)
  show ?thesis by (simp add: print_time_def)
qed


text \<open>What a value with the right member gives to the printer.\<close>

lemma bit_texts_typed:
  "mvalue self = U_bitString n b \<Longrightarrow> int (length b) = bitStringByteSize n \<Longrightarrow> int (i + k) \<le> n
   \<Longrightarrow> \<exists>xs. bit_texts self i k = Inr xs \<and> length xs = k"
proof (induction k arbitrary: i)
  case 0
  then show ?case by simp
next
  case (Suc k)
  then obtain xs where "bit_texts self (Suc i) k = Inr xs" "length xs = k" by force
  then show ?case using get_bit_at [of self n b "int i"] Suc.prems by auto
qed

lemma uint_mult_le: "uint (x * y :: 'a :: len word) \<le> uint x * uint y"
  by (simp add: uint_word_ariths zmod_le_nonneg_dividend)

lemma uint_ms_bound: "uint (ucast (s :: u32) * 1000 + ucast (f :: u32) :: u64) < 253402300800000"
proof -
  have "uint s < 2 ^ LENGTH(32)" "uint f < 2 ^ LENGTH(32)" by (rule uint_lt2p)+
  then have "uint (ucast s :: u64) < 4294967296" "uint (ucast f :: u64) < 4294967296" by (simp_all add: uint_up_ucast is_up)
  moreover have "uint (ucast s * 1000 :: u64) \<le> uint (ucast s :: u64) * 1000"
    using uint_mult_le [of "ucast s :: u64" 1000] by simp
  moreover have "uint (ucast s * 1000 + ucast f :: u64) \<le> uint (ucast s * 1000 :: u64) + uint (ucast f :: u64)"
    by (rule uint_add_le)
  ultimately show ?thesis by linarith
qed

lemma uint_binary_bound:
  "uint (ucast (d :: u16) * 86400000 + 441763200000 + ucast (t :: u32) :: u64) < 253402300800000"
  "uint (ucast (t :: u32) :: u64) < 253402300800000"
proof -
  have "uint d < 2 ^ LENGTH(16)" "uint t < 2 ^ LENGTH(32)" by (rule uint_lt2p)+
  then have b: "uint (ucast d :: u64) < 65536" "uint (ucast t :: u64) < 4294967296" by (simp_all add: uint_up_ucast is_up)
  have "uint (ucast d * 86400000 :: u64) \<le> uint (ucast d :: u64) * 86400000"
    using uint_mult_le [of "ucast d :: u64" 86400000] by simp
  moreover have "uint (ucast d * 86400000 + 441763200000 :: u64) \<le> uint (ucast d * 86400000 :: u64) + 441763200000"
    using uint_add_le [of "ucast d * 86400000 :: u64" 441763200000] by simp
  moreover have "uint (ucast d * 86400000 + 441763200000 + ucast t :: u64)
      \<le> uint (ucast d * 86400000 + 441763200000 :: u64) + uint (ucast t :: u64)" by (rule uint_add_le)
  ultimately show "uint (ucast d * 86400000 + 441763200000 + ucast t :: u64) < 253402300800000" using b by linarith
  show "uint (ucast t :: u64) < 253402300800000" using b(2) by linarith
qed

lemma utc_time_typed:
  "mvalue v = U_utcTime a \<Longrightarrow> length a = 8 \<Longrightarrow> \<exists>ms. MmsValue_getUtcTimeInMs v = Inr ms \<and> uint ms < 253402300800000"
  using uint_ms_bound by (simp add: getUtcTimeInMs_timestamp Timestamp_getTimeInMs_def Let_def)

lemma binary_time_typed:
  "mvalue v = U_binaryTime n b \<Longrightarrow> length b = 6 \<Longrightarrow> \<exists>ms. MmsValue_getBinaryTimeAsUtcMs v = Inr ms \<and> uint ms < 253402300800000"
  using uint_binary_bound by (cases b; cases "n = 6") (simp_all add: MmsValue_getBinaryTimeAsUtcMs_def binary_of_def rd_def Let_def)

lemma integers_typed:
  assumes "leaf_ok t u" and "t = MMS_INTEGER \<or> t = MMS_UNSIGNED"
  shows "\<exists>i. MmsValue_toInt32 (MmsValue t d u) = Inr i" and "\<exists>i. MmsValue_toUint32 (MmsValue t d u) = Inr i"
proof -
  from assms obtain v where v: "u = U_integer v" "value_ok v" by (auto simp: leaf_simps)
  have r: "\<exists>w. read_octets (start :: u32) v = Inr w" for start
    using v(2) by (simp add: read_octets_def rd_n_value)
  from r rd_first_value [OF v(2)] have "\<exists>x. BerInteger_toInt32 v = Inr x"
    by (auto simp: BerInteger_toInt32_def rbind_Inr_iff)
  then show "\<exists>i. MmsValue_toInt32 (MmsValue t d u) = Inr i"
    using assms(2) v(1) by (auto simp: MmsValue_toInt32_def get_integer_def integer_of_def)
  from r have "\<exists>x. BerInteger_toUint32 v = Inr x" by (auto simp: BerInteger_toUint32_def rbind_Inr_iff)
  then show "\<exists>i. MmsValue_toUint32 (MmsValue t d u) = Inr i"
    using assms(2) v(1) by (auto simp: MmsValue_toUint32_def get_integer_def integer_of_def)
qed

lemma float_typed: "leaf_ok MMS_FLOAT u \<Longrightarrow> \<exists>w. MmsValue_toFloat F (MmsValue MMS_FLOAT d u) = Inr w"
  by (auto simp: leaf_simps MmsValue_toFloat_def load_word_def rd_n_front)

lemma print_leaf_within:
  assumes u: "leaf_ok t u" and b: "0 \<le> off" "0 < n" "off + n \<le> int (length buf)"
    and bits: "\<And>k c. t = MMS_BIT_STRING \<Longrightarrow> u = U_bitString k c \<Longrightarrow> k \<noteq> n"
  shows "\<exists>buf'. print_leaf P (MmsValue t d u) buf off n = Inr buf' \<and> changed_within off n buf buf'"
proof -
  have n0: "0 \<le> n" using b(2) by simp
  note out = snprintf_within [OF b(1) order_refl n0 order_refl b(3)] strncpy_within [OF b(1,2,3)]
  show ?thesis
  proof (cases t)
    case MMS_BIT_STRING
    with u obtain k c where k: "u = U_bitString k c" "0 \<le> k" "int (length c) = bitStringByteSize k" by (auto simp: leaf_simps)
    with bits MMS_BIT_STRING have "k \<noteq> n" by blast
    show ?thesis
    proof (cases "k > n")
      case True
      from put_octets_within [OF b(1) order_refl _ b(3), of "replicate (nat n) 0"] n0 True k(1) MMS_BIT_STRING
      show ?thesis by (simp add: print_leaf_def MmsValue_getBitStringSize_def bits_of_def)
    next
      case False
      obtain xs where xs: "bit_texts (MmsValue t d u) 0 (nat k) = Inr xs" "length xs = nat k"
        using bit_texts_typed [of "MmsValue t d u" k c 0 "nat k"] k by auto
      have "off + int (length (xs @ [0 :: byte])) \<le> off + n" using xs(2) False \<open>k \<noteq> n\<close> k(2) by simp
      from put_octets_within [OF b(1) order_refl this b(3)] xs(1) False k(1) MMS_BIT_STRING
      show ?thesis by (simp add: print_leaf_def MmsValue_getBitStringSize_def bits_of_def)
    qed
  next
    case MMS_BINARY_TIME
    with u obtain k c where "u = U_binaryTime k c" "length c = 6" by (auto simp: leaf_simps)
    then obtain ms where "MmsValue_getBinaryTimeAsUtcMs (MmsValue t d u) = Inr ms" "uint ms < 253402300800000"
      using binary_time_typed [of "MmsValue t d u"] by auto
    from print_time_within [OF this b] MMS_BINARY_TIME show ?thesis by (simp add: print_leaf_def)
  next
    case MMS_UTC_TIME
    with u obtain c where "u = U_utcTime c" "length c = 8" by (auto simp: leaf_simps)
    then obtain ms where "MmsValue_getUtcTimeInMs (MmsValue t d u) = Inr ms" "uint ms < 253402300800000"
      using utc_time_typed [of "MmsValue t d u"] by auto
    from print_time_within [OF this b] MMS_UTC_TIME show ?thesis by (simp add: print_leaf_def)
  next
    case MMS_OCTET_STRING
    with u obtain k m c where c: "u = U_octetString k m c" "unat k \<le> length c" by (auto simp: leaf_simps)
    from print_octets_within [OF b(1) order_refl n0 b(3), of "take (unat k) c"] c MMS_OCTET_STRING
    show ?thesis by (simp add: print_leaf_def octets_of_def rd_n_front)
  next
    case MMS_INTEGER
    then obtain i where "MmsValue_toInt32 (MmsValue t d u) = Inr i" using integers_typed [OF u, of d] by auto
    with out(1) MMS_INTEGER show ?thesis by (simp add: print_leaf_def)
  next
    case MMS_UNSIGNED
    then obtain i where "MmsValue_toUint32 (MmsValue t d u) = Inr i" using integers_typed [OF u, of d] by auto
    with out(1) MMS_UNSIGNED show ?thesis by (simp add: print_leaf_def)
  next
    case MMS_FLOAT
    with u obtain w where "MmsValue_toFloat (float_ops.truncate P) (MmsValue t d u) = Inr w" using float_typed by blast
    with out(1) MMS_FLOAT show ?thesis by (simp add: print_leaf_def)
  qed (use u out in \<open>auto simp: print_leaf_def leaf_simps MmsValue_getBoolean_def MmsValue_toString_def\<close>)
qed

text \<open>
  C25: Printing a simple value changes nothing outside of the \<open>bufferSize\<close> octets of the caller, with one exception: a bit string
  of exactly \<open>bufferSize\<close> bits has its terminating NUL behind them.
\<close>

theorem simple_values_print_inside:
  assumes "value_typed v" and "\<not> is_complex (mtype v)" and "0 \<le> off" and "0 < n" and "int (length buf) = off + n"
  shows "if mtype v = MMS_BIT_STRING \<and> MmsValue_getBitStringSize v = Inr n
         then MmsValue_printToBuffer P v buf off n = Inl Out_of_bounds
         else \<exists>buf'. MmsValue_printToBuffer P v buf off n = Inr buf' \<and> changed_within off n buf buf'"
proof -
  obtain t d u where v: "v = MmsValue t d u" by (cases v)
  then have u: "leaf_ok t u" and t: "\<not> is_complex t" using assms(1,2) by auto
  show ?thesis
  proof (cases "mtype v = MMS_BIT_STRING \<and> MmsValue_getBitStringSize v = Inr n")
    case True
    with v u obtain c where c: "v = MmsValue MMS_BIT_STRING d (U_bitString n c)" "int (length c) = bitStringByteSize n"
      by (auto simp: leaf_simps MmsValue_getBitStringSize_def)
    then obtain xs where "bit_texts v 0 (nat n) = Inr xs" "length xs = nat n"
      using bit_texts_typed [of v n c 0 "nat n"] assms(4) by auto
    then have "MmsValue_printToBuffer P v buf off n = Inl Out_of_bounds"
      using c(1) assms(3-5) by (simp add: print_leaf_def put_octets_def memcpy_to_def MmsValue_getBitStringSize_def bits_of_def)
    with True show ?thesis by simp
  next
    case False
    have nb: "k \<noteq> n" if "t = MMS_BIT_STRING" "u = U_bitString k c" for k c
      using that v False by (auto simp: MmsValue_getBitStringSize_def bits_of_def)
    have "off + n \<le> int (length buf)" using assms(5) by simp
    from print_leaf_within [OF u assms(3,4) this nb, where P = P and d = d]
    have "\<exists>buf'. MmsValue_printToBuffer P v buf off n = Inr buf' \<and> changed_within off n buf buf'" using t v by simp
    then show ?thesis by (simp only: False if_False)
  qed
qed

theorem simple_values_print_inside_witness:
  "\<forall>P. MmsValue_printToBuffer P (MmsValue_newBitString 16) (replicate 16 0) 0 16 = Inl Out_of_bounds"
proof
  fix P
  show "MmsValue_printToBuffer P (MmsValue_newBitString 16) (replicate 16 0) 0 16 = Inl Out_of_bounds"
    using simple_values_print_inside [of "MmsValue_newBitString 16" 0 16 "replicate 16 0" P]
    by (simp add: MmsValue_newBitString_def leaf_ok_def bitStringByteSize_def MmsValue_getBitStringSize_def bits_of_def)
qed

end
