(* ===== verification/Mms_Data.thy ===== *)
theory Mms_Data
  imports Mms_Value
begin

text \<open>
  MMS data on the wire: \<open>libiec61850/src/mms/iso_mms/server/mms_access_result.c\<close>, which encodes a value as BER and decodes it. The encoder
  appends to the octets written so far; \<open>encoded_size\<close> is the same function asked for the size only.
\<close>

section \<open>Encoding\<close>

text \<open>The size of a value of a simple type, and its octets.\<close>

definition leaf_encoded_size :: "MmsType \<Rightarrow> uMmsValue \<Rightarrow> int run" where
  "leaf_encoded_size t u =
     (case t of
        MMS_BOOLEAN \<Rightarrow> Inr 3
      | MMS_DATA_ACCESS_ERROR \<Rightarrow> rbind (error_of u) (\<lambda>e. Inr (2 + BerEncoder_UInt32determineEncodedSize (word_of_int e)))
      | MMS_VISIBLE_STRING \<Rightarrow> rbind (string_member u) (\<lambda>(b, n). Inr (BerEncoder_determineEncodedStringSize (map_option fst b)))
      | MMS_UNSIGNED \<Rightarrow> rbind (integer_of u) (\<lambda>v. Inr (2 + psize v))
      | MMS_INTEGER \<Rightarrow> rbind (integer_of u) (\<lambda>v. Inr (2 + psize v))
      | MMS_UTC_TIME \<Rightarrow> Inr 10
      | MMS_BIT_STRING \<Rightarrow> rbind (bits_of u) (\<lambda>(n, b). Inr (BerEncoder_determineEncodedBitStringSize (nat n)))
      | MMS_BINARY_TIME \<Rightarrow> rbind (binary_of u) (\<lambda>(n, b). Inr (2 + uint n))
      | MMS_OCTET_STRING \<Rightarrow> rbind (octets_of u) (\<lambda>(n, mx, b).
          Inr (1 + BerEncoder_determineLengthSize (word_of_int (uint n)) + uint n))
      | MMS_FLOAT \<Rightarrow> rbind (float_of u) (\<lambda>(e, f, b). Inr (uint f div 8 + 1 + 2))
      | MMS_STRING \<Rightarrow> rbind (string_member u) (\<lambda>(b, n). Inr (BerEncoder_determineEncodedStringSize (map_option fst b)))
      | _ \<Rightarrow> Inr 0)"

definition encode_leaf :: "MmsType \<Rightarrow> uMmsValue \<Rightarrow> byte list \<Rightarrow> byte list run" where
  "encode_leaf t u out =
     (case t of
        MMS_BOOLEAN \<Rightarrow> rbind (boolean_of u) (\<lambda>b. Inr (BerEncoder_encodeBoolean 0x83 b out))
      | MMS_DATA_ACCESS_ERROR \<Rightarrow> rbind (error_of u) (\<lambda>e.
          Inr (BerEncoder_encodeUInt32 (word_of_int e)
                 (BerEncoder_encodeTL 0x80 (BerEncoder_UInt32determineEncodedSize (word_of_int e)) out)))
      | MMS_VISIBLE_STRING \<Rightarrow> rbind (string_member u) (\<lambda>(b, n). Inr (BerEncoder_encodeStringWithTag 0x8a (map_option fst b) out))
      | MMS_UNSIGNED \<Rightarrow> rbind (integer_of u) (\<lambda>v. BerEncoder_encodeAsn1PrimitiveValue 0x86 v out)
      | MMS_INTEGER \<Rightarrow> rbind (integer_of u) (\<lambda>v. BerEncoder_encodeAsn1PrimitiveValue 0x85 v out)
      | MMS_UTC_TIME \<Rightarrow> rbind (utc_of u) (\<lambda>a. BerEncoder_encodeOctetString 0x91 a 8 out)
      | MMS_BIT_STRING \<Rightarrow> rbind (bits_of u) (\<lambda>(n, b). BerEncoder_encodeBitString 0x84 (nat n) b out)
      | MMS_BINARY_TIME \<Rightarrow> rbind (binary_of u) (\<lambda>(n, b). BerEncoder_encodeOctetString 0x8c b (ucast n) out)
      | MMS_OCTET_STRING \<Rightarrow> rbind (octets_of u) (\<lambda>(n, mx, b). BerEncoder_encodeOctetString 0x89 b (ucast n) out)
      | MMS_FLOAT \<Rightarrow> rbind (float_of u) (\<lambda>(e, f, b).
          BerEncoder_encodeFloat b f e (BerEncoder_encodeTL 0x87 (uint f div 8 + 1) out))
      | MMS_STRING \<Rightarrow> rbind (string_member u) (\<lambda>(b, n). Inr (BerEncoder_encodeStringWithTag 0x90 (map_option fst b) out))
      | _ \<Rightarrow> Inr out)"

text \<open>
  Arrays and structures: tag, length of the components together, and the components. A component that is a null pointer is asked for its type.
\<close>

fun encoded_size :: "sMmsValue \<Rightarrow> int run" and components_encoded_size :: "sMmsValue option list \<Rightarrow> int run" where
  "encoded_size (MmsValue t d u) =
     (if is_complex t then
        (case u of
           U_structure cs \<Rightarrow> rbind (components_encoded_size cs) (\<lambda>k.
             Inr (1 + k + BerEncoder_determineLengthSize (word_of_int k)))
         | _ \<Rightarrow> Inl Undefined_operation)
      else leaf_encoded_size t u)"
| "components_encoded_size [] = Inr 0"
| "components_encoded_size (c # cs) =
     (case c of None \<Rightarrow> Inl Null_pointer
      | Some v \<Rightarrow> rbind (encoded_size v) (\<lambda>k. rbind (components_encoded_size cs) (\<lambda>k'. Inr (k + k'))))"

fun MmsValue_encodeMmsData :: "sMmsValue \<Rightarrow> byte list \<Rightarrow> byte list run"
and encode_components :: "sMmsValue option list \<Rightarrow> byte list \<Rightarrow> byte list run" where
  "MmsValue_encodeMmsData (MmsValue t d u) out =
     (if is_complex t then
        (case u of
           U_structure cs \<Rightarrow> rbind (components_encoded_size cs) (\<lambda>k.
             encode_components cs (BerEncoder_encodeLength (word_of_int k) (out @ [if t = MMS_ARRAY then 0xa1 else 0xa2])))
         | _ \<Rightarrow> Inl Undefined_operation)
      else encode_leaf t u out)"
| "encode_components [] out = Inr out"
| "encode_components (c # cs) out =
     (case c of None \<Rightarrow> Inl Null_pointer
      | Some v \<Rightarrow> rbind (MmsValue_encodeMmsData v out) (\<lambda>out'. encode_components cs out'))"


section \<open>Decoding\<close>

text \<open>
  \<open>getNumberOfElements\<close> runs over the elements without decoding them; \<open>elementLength\<close> is the parameter, reused for the length of the
  element. At most \<open>N\<close> rounds.
\<close>

definition element_tags :: "byte set" where
  "element_tags = {0x80, 0xa1, 0xa2, 0x83, 0x84, 0x85, 0x86, 0x87, 0x89, 0x8a, 0x8c, 0x91}"

definition element_round :: "byte list \<Rightarrow> int \<Rightarrow> int \<times> int \<times> int \<Rightarrow> (int \<times> int \<times> int, int) ctl run" where
  "element_round buf elementEndBufPos = (\<lambda>(bufPos, elementLength, elementIndex).
     rbind (rd buf bufPos) (\<lambda>tag. rbind (BerDecoder_decodeLength buf (Some elementLength) (bufPos + 1) elementEndBufPos) (\<lambda>(p, l).
     rbind (use_var l) (\<lambda>elementLength'.
       if i32 (p + elementLength') > elementEndBufPos then Inr (Return (-1))
       else if tag \<notin> element_tags then Inr (Return (-1))
       else Inr (Continue (i32 (p + elementLength'), elementLength', elementIndex + 1))))))"

definition getNumberOfElements :: "nat \<Rightarrow> byte list \<Rightarrow> int \<Rightarrow> int \<Rightarrow> int run" where
  "getNumberOfElements N buf bufPos elementLength =
     (let elementEndBufPos = i32 (bufPos + elementLength)
      in rbind (c_while N (\<lambda>(p, _, _). p < elementEndBufPos) (element_round buf elementEndBufPos) (bufPos, elementLength, 0)) (\<lambda>r.
           case r of Return x \<Rightarrow> Inr x | Continue (_, _, elementIndex) \<Rightarrow> Inr elementIndex))"

text \<open>\<open>memcpy\<close> from a position of the message.\<close>

definition memcpy_from :: "byte list \<Rightarrow> byte list \<Rightarrow> int \<Rightarrow> int \<Rightarrow> byte list run" where
  "memcpy_from dst buf p n = (if p < 0 then Inl Out_of_bounds else memcpy_to dst 0 (drop (nat p) buf) n)"

definition decode_integer :: "sMmsValue \<Rightarrow> byte list \<Rightarrow> int \<Rightarrow> int \<Rightarrow> sMmsValue option run" where
  "decode_integer self buf p n =
     rbind (integer_of (mvalue self)) (\<lambda>v. rbind (memcpy_from (octets v) buf p n) (\<lambda>os.
       Inr (Some (with_member (U_integer (v\<lparr>octets := os, psize := n\<rparr>)) self))))"

definition decode_leaf :: "byte \<Rightarrow> byte list \<Rightarrow> int \<Rightarrow> int \<Rightarrow> sMmsValue option run" where
  "decode_leaf tag buf p n =
     (if tag = 0x80 then
        rbind (BerDecoder_decodeUint32 buf n p) (\<lambda>e. Inr (Some (MmsValue MMS_DATA_ACCESS_ERROR 0 (U_dataAccessError (sint e)))))
      else if tag = 0x83 then rbind (BerDecoder_decodeBoolean buf p) (\<lambda>b. Inr (Some (MmsValue_newBoolean b)))
      else if tag = 0x84 then
        rbind (rd buf p) (\<lambda>padding.
          let v = MmsValue_newBitString (8 * (n - 1) - uint padding)
          in rbind (bits_of (mvalue v)) (\<lambda>(k, b). rbind (memcpy_from b buf (p + 1) (n - 1)) (\<lambda>b'.
               Inr (Some (with_member (U_bitString k b') v)))))
      else if tag = 0x85 then decode_integer (MmsValue_newInteger (n * 8)) buf p n
      else if tag = 0x86 then decode_integer (MmsValue_newUnsigned (n * 8)) buf p n
      else if tag = 0x87 then
        (if n = 9 then rbind (BerDecoder_decodeDouble buf p) (\<lambda>d. Inr (Some (MmsValue_newDouble d)))
         else if n = 5 then rbind (BerDecoder_decodeFloat buf p) (\<lambda>f. Inr (Some (MmsValue_newFloat f)))
         else Inr None)
      else if tag = 0x89 then
        rbind (memcpy_from (replicate (nat n) 0) buf p n) (\<lambda>b.
          Inr (Some (MmsValue MMS_OCTET_STRING 0 (U_octetString (word_of_int n) (word_of_int n) b))))
      else if tag = 0x8a then
        (if p < 0 then Inl Out_of_bounds
         else rbind (MmsValue_newVisibleStringFromByteArray (drop (nat p) buf) n) (\<lambda>v. Inr (Some v)))
      else if tag = 0x8c then
        (if n = 4 \<or> n = 6 then
           rbind (memcpy_from (replicate 6 0) buf p n) (\<lambda>b. Inr (Some (MmsValue MMS_BINARY_TIME 0 (U_binaryTime (word_of_int n) b))))
         else Inr None)
      else if tag = 0x90 then
        (if p < 0 then Inl Out_of_bounds
         else rbind (MmsValue_newVisibleStringFromByteArray (drop (nat p) buf) n) (\<lambda>v.
                Inr (Some (MmsValue MMS_STRING (deleteValue v) (mvalue v)))))
      else if tag = 0x91 then
        (if n = 8 then
           (if p < 0 then Inl Out_of_bounds
            else rbind (MmsValue_setUtcTimeByBuffer (MmsValue_newUtcTime 0) (drop (nat p) buf)) (\<lambda>v. Inr (Some v)))
         else Inr None)
      else Inr None)"

text \<open>
  The nesting is followed at most \<open>k\<close> levels. Every element is handed the length of the whole structure; \<open>None\<close> is the null
  pointer of an error.
\<close>

function (sequential) MmsValue_decodeMmsData :: "nat \<Rightarrow> nat \<Rightarrow> byte list \<Rightarrow> int \<Rightarrow> int \<Rightarrow> sMmsValue option run"
and decode_elements :: "nat \<Rightarrow> nat \<Rightarrow> byte list \<Rightarrow> nat \<Rightarrow> int \<Rightarrow> int \<Rightarrow> int \<Rightarrow> sMmsValue list option run" where
  "MmsValue_decodeMmsData N 0 buf bufPos bufferLength = Inl Out_of_fuel"
| "MmsValue_decodeMmsData N (Suc k) buf bufPos bufferLength =
     (let dataEndBufPos = i32 (bufPos + bufferLength)
      in rbind (rd buf bufPos) (\<lambda>tag. rbind (BerDecoder_decodeLength buf None (bufPos + 1) dataEndBufPos) (\<lambda>(p, l).
         rbind (use_var l) (\<lambda>dataLength.
           if i32 (p + dataLength) > dataEndBufPos then Inr None
           else if tag = 0xa1 \<or> tag = 0xa2 then
             rbind (getNumberOfElements N buf p dataLength) (\<lambda>elementCount.
               if elementCount < 0 then Inr None
               else rbind (decode_elements N k buf (nat elementCount) p dataLength dataEndBufPos) (\<lambda>es.
                      case es of None \<Rightarrow> Inr None
                      | Some vs \<Rightarrow> Inr (Some (MmsValue (if tag = 0xa1 then MMS_ARRAY else MMS_STRUCTURE) 0 (U_structure (map Some vs))))))
           else decode_leaf tag buf p dataLength))))"
| "decode_elements N k buf 0 bufPos dataLength dataEndBufPos = Inr (Some [])"
| "decode_elements N k buf (Suc i) bufPos dataLength dataEndBufPos =
     rbind (BerDecoder_decodeLength buf None (bufPos + 1) dataEndBufPos) (\<lambda>(newBufPos, l).
       if newBufPos = -1 then Inr None
       else rbind (MmsValue_decodeMmsData N k buf bufPos dataLength) (\<lambda>v.
              case v of None \<Rightarrow> Inr None
              | Some element \<Rightarrow> rbind (use_var l) (\<lambda>elementLength.
                  rbind (decode_elements N k buf i (i32 (newBufPos + elementLength)) dataLength dataEndBufPos) (\<lambda>rest.
                    case rest of None \<Rightarrow> Inr None | Some vs \<Rightarrow> Inr (Some (element # vs))))))"
  by pat_completeness auto

termination
  by (relation "inv_image (less_than <*lex*> less_than)
       (\<lambda>x. case x of Inl (N, k, buf, p, n) \<Rightarrow> (2 * k, 0) | Inr (N, k, buf, c, p, n, e) \<Rightarrow> (2 * k + 1, c))") auto

end
