(* ===== verification/Goose_Publisher.thy ===== *)
theory Goose_Publisher
  imports Mms_Data
begin

text \<open>
  The GOOSE publisher: \<open>libiec61850/src/goose/goose_publisher.c\<close>. The frame buffer is a list of its 1518 octets; the clock, the MAC address of
  the interface and the contents of fresh memory are arguments. The packet that is handed to \<open>Ethernet_sendPacket\<close> is part of the result.
\<close>

definition GOOSE_MAX_MESSAGE_SIZE :: int where "GOOSE_MAX_MESSAGE_SIZE = 1518"

record CommParameters =
  vlanPriority :: byte
  vlanId :: u16
  appId :: u16
  dstAddress :: "byte list"

record sGoosePublisher =
  pbuffer :: "byte list"
  lengthField :: int
  payloadStart :: int
  goID :: "byte list option"
  goCBRef :: "byte list option"
  dataSetRef :: "byte list option"
  confRev :: u32
  stNum :: u32
  sqNum :: u32
  timeAllowedToLive :: u32
  needsCommission :: bool
  simulation :: bool
  timestamp :: sMmsValue


section \<open>Creation and setters\<close>

text \<open>The default addresses and numbers of \<open>stack_config.h\<close>.\<close>

definition default_parameters :: CommParameters where
  "default_parameters = \<lparr>vlanPriority = 4, vlanId = 0, appId = 0x1000, dstAddress = [0x01, 0x0c, 0xcd, 0x01, 0x00, 0x01]\<rparr>"

text \<open>The octets in front of the payload: addresses, VLAN tag, EtherType, APPID, length and reserved fields.\<close>

definition frame_header :: "CommParameters \<Rightarrow> byte list \<Rightarrow> byte list" where
  "frame_header parameters srcAddr =
     take 6 (dstAddress parameters) @ take 6 srcAddr
     @ [0x81, 0x00, push_bit 5 (vlanPriority parameters) + ucast (vlanId parameters div 256), ucast (vlanId parameters mod 256)]
     @ [0x88, 0xb8]
     @ [ucast (appId parameters div 256), ucast (appId parameters mod 256)]
     @ [0x00, 0x08, 0x00, 0x00, 0x00, 0x00]"

text \<open>\<open>fresh\<close> is what \<open>malloc\<close> gives for the buffer.\<close>

definition prepareGooseBuffer :: "byte list \<Rightarrow> byte list \<Rightarrow> CommParameters option \<Rightarrow> sGoosePublisher \<Rightarrow> sGoosePublisher run" where
  "prepareGooseBuffer srcAddr fresh parameters self =
     (let header = frame_header (case parameters of None \<Rightarrow> default_parameters | Some p \<Rightarrow> p) srcAddr
      in rbind (memcpy_to fresh 0 header (int (length header))) (\<lambda>b.
           Inr (self\<lparr>pbuffer := b, lengthField := 20, payloadStart := 26\<rparr>)))"

definition GoosePublisher_reset :: "sGoosePublisher \<Rightarrow> sGoosePublisher" where
  "GoosePublisher_reset self = self\<lparr>sqNum := 0, stNum := 1\<rparr>"

definition zero_publisher :: sGoosePublisher where
  "zero_publisher = \<lparr>pbuffer = [], lengthField = 0, payloadStart = 0, goID = None, goCBRef = None, dataSetRef = None, confRev = 0, stNum = 0,
     sqNum = 0, timeAllowedToLive = 0, needsCommission = False, simulation = False, timestamp = MmsValue MMS_UTC_TIME 0 (U_utcTime [])\<rparr>"

definition GoosePublisher_create :: "u64 \<Rightarrow> byte list \<Rightarrow> byte list \<Rightarrow> CommParameters option \<Rightarrow> sGoosePublisher run" where
  "GoosePublisher_create now srcAddr fresh parameters =
     rbind (prepareGooseBuffer srcAddr fresh parameters zero_publisher) (\<lambda>self.
     rbind (MmsValue_newUtcTimeByMsTime now) (\<lambda>t.
       Inr (GoosePublisher_reset (self\<lparr>timestamp := t\<rparr>))))"

text \<open>\<open>copyString\<close> of a null pointer is a fault.\<close>

definition copied :: "byte list option \<Rightarrow> byte list option run" where
  "copied str = (case str of None \<Rightarrow> Inl Null_pointer | Some s \<Rightarrow> Inr (Some s))"

definition GoosePublisher_setGoID :: "sGoosePublisher \<Rightarrow> byte list option \<Rightarrow> sGoosePublisher run" where
  "GoosePublisher_setGoID self str = rbind (copied str) (\<lambda>s. Inr (self\<lparr>goID := s\<rparr>))"

definition GoosePublisher_setGoCbRef :: "sGoosePublisher \<Rightarrow> byte list option \<Rightarrow> sGoosePublisher run" where
  "GoosePublisher_setGoCbRef self str = rbind (copied str) (\<lambda>s. Inr (self\<lparr>goCBRef := s\<rparr>))"

definition GoosePublisher_setDataSetRef :: "sGoosePublisher \<Rightarrow> byte list option \<Rightarrow> sGoosePublisher run" where
  "GoosePublisher_setDataSetRef self str = rbind (copied str) (\<lambda>s. Inr (self\<lparr>dataSetRef := s\<rparr>))"

definition GoosePublisher_setConfRev :: "sGoosePublisher \<Rightarrow> u32 \<Rightarrow> sGoosePublisher" where
  "GoosePublisher_setConfRev self c = self\<lparr>confRev := c\<rparr>"

definition GoosePublisher_setSimulation :: "sGoosePublisher \<Rightarrow> bool \<Rightarrow> sGoosePublisher" where
  "GoosePublisher_setSimulation self b = self\<lparr>simulation := b\<rparr>"

definition GoosePublisher_setNeedsCommission :: "sGoosePublisher \<Rightarrow> bool \<Rightarrow> sGoosePublisher" where
  "GoosePublisher_setNeedsCommission self b = self\<lparr>needsCommission := b\<rparr>"

definition GoosePublisher_setTimeAllowedToLive :: "sGoosePublisher \<Rightarrow> u32 \<Rightarrow> sGoosePublisher" where
  "GoosePublisher_setTimeAllowedToLive self t = self\<lparr>timeAllowedToLive := t\<rparr>"

definition GoosePublisher_increaseStNum :: "u64 \<Rightarrow> sGoosePublisher \<Rightarrow> (sGoosePublisher \<times> u64) run" where
  "GoosePublisher_increaseStNum now self =
     rbind (MmsValue_setUtcTimeMs (timestamp self) now) (\<lambda>t.
       Inr (self\<lparr>timestamp := t, stNum := stNum self + 1, sqNum := 0\<rparr>, now))"


section \<open>Publishing\<close>

text \<open>\<open>goosePduLength\<close>: the announced sizes of the fields together; \<open>k\<close> is \<open>dataSetSize\<close>.\<close>

definition goose_pdu_length :: "sGoosePublisher \<Rightarrow> int \<Rightarrow> int \<Rightarrow> u32" where
  "goose_pdu_length self n k =
     word_of_int
      (BerEncoder_determineEncodedStringSize (goCBRef self)
       + BerEncoder_determineEncodedStringSize (dataSetRef self)
       + BerEncoder_determineEncodedStringSize (if goID self \<noteq> None then goID self else goCBRef self)
       + (2 + BerEncoder_UInt32determineEncodedSize (timeAllowedToLive self))
       + (2 + 8)
       + (2 + BerEncoder_UInt32determineEncodedSize (sqNum self))
       + (2 + BerEncoder_UInt32determineEncodedSize (stNum self))
       + (2 + BerEncoder_UInt32determineEncodedSize (confRev self))
       + 6
       + (2 + BerEncoder_UInt32determineEncodedSize (word_of_int n))
       + (k + BerEncoder_determineLengthSize (word_of_int k) + 1))"

text \<open>The fields in front of the data, after the tag and the length of the PDU.\<close>

definition encode_fields :: "sGoosePublisher \<Rightarrow> int \<Rightarrow> byte list \<Rightarrow> byte list run" where
  "encode_fields self n out =
     (let out = BerEncoder_encodeStringWithTag 0x80 (goCBRef self) out;
          out = BerEncoder_encodeUInt32WithTL 0x81 (timeAllowedToLive self) out;
          out = BerEncoder_encodeStringWithTag 0x82 (dataSetRef self) out;
          out = BerEncoder_encodeStringWithTag 0x83 (if goID self \<noteq> None then goID self else goCBRef self) out
      in rbind (utc_of (mvalue (timestamp self))) (\<lambda>t. rbind (BerEncoder_encodeOctetString 0x84 t 8 out) (\<lambda>out.
           let out = BerEncoder_encodeUInt32WithTL 0x85 (stNum self) out;
               out = BerEncoder_encodeUInt32WithTL 0x86 (sqNum self) out;
               out = BerEncoder_encodeBoolean 0x87 (simulation self) out;
               out = BerEncoder_encodeUInt32WithTL 0x88 (confRev self) out;
               out = BerEncoder_encodeBoolean 0x89 (needsCommission self) out
           in Inr (BerEncoder_encodeUInt32WithTL 0x8a (word_of_int n) out))))"

text \<open>The octets of the payload; \<open>None\<close> is the result -1.\<close>

definition createGoosePayload :: "sGoosePublisher \<Rightarrow> sMmsValue option list \<Rightarrow> int \<Rightarrow> byte list option run" where
  "createGoosePayload self dataSetValues maxPayloadSize =
     (let numberOfDataSetEntries = int (length dataSetValues)
      in rbind (components_encoded_size dataSetValues) (\<lambda>dataSetSize.
         let goosePduLength = goose_pdu_length self numberOfDataSetEntries dataSetSize
         in if uint goosePduLength > maxPayloadSize then Inr None
            else rbind (encode_fields self numberOfDataSetEntries (BerEncoder_encodeTL 0x61 (uint goosePduLength) [])) (\<lambda>out.
                 rbind (encode_components dataSetValues (BerEncoder_encodeTL 0xab dataSetSize out)) (\<lambda>out. Inr (Some out)))))"

text \<open>The new state, the packet that is sent and the result.\<close>

definition GoosePublisher_publish :: "sGoosePublisher \<Rightarrow> sMmsValue option list \<Rightarrow> (sGoosePublisher \<times> byte list option \<times> int) run" where
  "GoosePublisher_publish self dataSet =
     rbind (createGoosePayload self dataSet (GOOSE_MAX_MESSAGE_SIZE - payloadStart self)) (\<lambda>payload.
       case payload of
         None \<Rightarrow> Inr (self\<lparr>sqNum := sqNum self + 1\<rparr>, None, -1)
       | Some os \<Rightarrow>
           let payloadLength = int (length os); gooseLength = payloadLength + 8
           in rbind (memcpy_to (pbuffer self) (payloadStart self) os payloadLength) (\<lambda>b.
              rbind (memcpy_to b (lengthField self) [word_of_int (gooseLength div 256), word_of_int (gooseLength mod 256)] 2) (\<lambda>b.
              rbind (rd_n b 0 (nat (payloadStart self + payloadLength))) (\<lambda>packet.
                Inr (self\<lparr>sqNum := sqNum self + 1, pbuffer := b\<rparr>, Some packet, 0)))))"

end
