(* ===== verification/Mms_Data_Correct.thy ===== *)
theory Mms_Data_Correct
  imports Mms_Data Mms_Value_Correct Ber_Elements
begin

text \<open>
  MMS data survives encoding and decoding. \<open>data_octets\<close> is the BER encoding of a value, as a function of the value alone; the encoder
  appends exactly these octets, announces their number, and the decoder reads an equal value from them.
\<close>

unbundle bit_operations_syntax

section \<open>The encoding as a function\<close>

fun data_tag :: "MmsType \<Rightarrow> byte" where
  "data_tag MMS_ARRAY = 0xa1"
| "data_tag MMS_STRUCTURE = 0xa2"
| "data_tag MMS_DATA_ACCESS_ERROR = 0x80"
| "data_tag MMS_BOOLEAN = 0x83"
| "data_tag MMS_BIT_STRING = 0x84"
| "data_tag MMS_INTEGER = 0x85"
| "data_tag MMS_UNSIGNED = 0x86"
| "data_tag MMS_FLOAT = 0x87"
| "data_tag MMS_OCTET_STRING = 0x89"
| "data_tag MMS_VISIBLE_STRING = 0x8a"
| "data_tag MMS_BINARY_TIME = 0x8c"
| "data_tag MMS_STRING = 0x90"
| "data_tag MMS_UTC_TIME = 0x91"
| "data_tag _ = 0"

text \<open>The number of unused bits in the last octet of a bit string.\<close>

definition unused_bits :: "int \<Rightarrow> nat" where
  "unused_bits n = bit_byteSize (nat n) * 8 - nat n"

fun leaf_content :: "uMmsValue \<Rightarrow> byte list" where
  "leaf_content (U_boolean b) = [if b then 0xff else 0]"
| "leaf_content (U_dataAccessError e) = uint32_octets (word_of_int e)"
| "leaf_content (U_integer v) = value_octets v"
| "leaf_content (U_floatingPoint e f b) = e # rev b"
| "leaf_content (U_octetString n mx b) = take (unat n) b"
| "leaf_content (U_bitString n b) = of_nat (unused_bits n) # b"
| "leaf_content (U_visibleString b n) = (case b of None \<Rightarrow> [] | Some (s, c) \<Rightarrow> s)"
| "leaf_content (U_utcTime a) = a"
| "leaf_content (U_binaryTime n b) = take (unat n) b"
| "leaf_content _ = []"

text \<open>
  Simple values that can be encoded: the bits of a bit string that are not used are 0, its length field is not at one of the two sizes that
  the encoder miscounts; integers have at most nine octets; strings contain no NUL; the formats of floating point numbers are 32 and 64 bits.
\<close>

definition leaf_encodable :: "MmsType \<Rightarrow> uMmsValue \<Rightarrow> bool" where
  "leaf_encodable t u \<longleftrightarrow> leaf_ok t u \<and>
     (case u of
        U_bitString n b \<Rightarrow> 0 < n \<and> length b < 65535 \<and> length b \<noteq> 127 \<and> length b \<noteq> 255
           \<and> last b AND NOT (mask (unused_bits n)) = last b
      | U_integer v \<Rightarrow> psize v \<le> 9
      | U_floatingPoint e f b \<Rightarrow> f = 32 \<or> f = 64
      | U_visibleString b n \<Rightarrow> (case b of None \<Rightarrow> False | Some (s, c) \<Rightarrow> 0 \<notin> set s)
      | U_dataAccessError e \<Rightarrow> 0 \<le> e \<and> e < 2 ^ 31
      | _ \<Rightarrow> True)"

fun data_octets :: "sMmsValue \<Rightarrow> byte list" and all_octets :: "sMmsValue option list \<Rightarrow> byte list" where
  "data_octets (MmsValue t d u) =
     (let content = (case u of U_structure cs \<Rightarrow> all_octets cs | _ \<Rightarrow> leaf_content u)
      in data_tag t # len_bytes (int (length content)) @ content)"
| "all_octets [] = []"
| "all_octets (c # cs) = (case c of None \<Rightarrow> [] | Some v \<Rightarrow> data_octets v) @ all_octets cs"

text \<open>Inside of arrays and structures the decoder knows no MMS strings.\<close>

fun encodable :: "sMmsValue \<Rightarrow> bool" and all_encodable :: "sMmsValue option list \<Rightarrow> bool" where
  "encodable (MmsValue t d u) \<longleftrightarrow>
     (if is_complex t then
        (case u of U_structure cs \<Rightarrow> all_encodable cs \<and> length (all_octets cs) < 65536 | _ \<Rightarrow> False)
      else leaf_encodable t u)"
| "all_encodable [] \<longleftrightarrow> True"
| "all_encodable (c # cs) \<longleftrightarrow>
     (case c of None \<Rightarrow> False | Some v \<Rightarrow> encodable v \<and> mtype v \<noteq> MMS_STRING) \<and> all_encodable cs"

lemma leaf_not_structure: "leaf_ok t u \<Longrightarrow> u \<noteq> U_structure cs"
  by (cases t) (auto simp: leaf_ok_def)

lemma encodable_leaf:
  "leaf_encodable t u \<Longrightarrow> data_octets (MmsValue t d u) = data_tag t # len_bytes (int (length (leaf_content u))) @ leaf_content u"
  using leaf_not_structure [of t u] by (cases u) (auto simp: leaf_encodable_def Let_def)


section \<open>Simple values\<close>

lemma bit_byteSize_eq: "0 \<le> n \<Longrightarrow> int (bit_byteSize (nat n)) = bitStringByteSize n"
proof -
  assume "0 \<le> n"
  then obtain m where n: "n = int m" by (rule nonneg_int_cases)
  have "int m mod 8 = int (m mod 8)" "int m div 8 = int (m div 8)" by (simp_all add: zmod_int zdiv_int)
  then show ?thesis by (simp add: n bit_byteSize_def bitStringByteSize_def)
qed

lemma leaf_content_length: "leaf_encodable t u \<Longrightarrow> length (leaf_content u) < 65536"
proof (cases u)
  case (U_dataAccessError e)
  then show ?thesis using uint32_octets_length [of "word_of_int e"] by simp
next
  case (U_octetString n mx b)
  have "unat n < 2 ^ LENGTH(16)" by (rule unsigned_less)
  then show ?thesis using U_octetString by (simp add: min_def)
next
  case (U_binaryTime n b)
  have "unat n < 2 ^ LENGTH(8)" by (rule unsigned_less)
  then show ?thesis using U_binaryTime by (simp add: min_def)
next
  case (U_floatingPoint e f b)
  assume "leaf_encodable t u"
  with U_floatingPoint show ?thesis by (cases t) (auto simp: leaf_encodable_def leaf_ok_def)
qed (auto simp: leaf_encodable_def leaf_ok_def value_octets_def value_ok_def split: MmsType.splits)


text \<open>The encoder writes these octets and announces their number.\<close>

lemma short_length: "n < 128 \<Longrightarrow> len_bytes (int n) = [word_of_int (int n)]"
  by (simp add: len_bytes_def)

lemma encode_octet_string:
  "unat k \<le> length b \<Longrightarrow> unat k < 65536 \<Longrightarrow>
   BerEncoder_encodeOctetString tag b k out = Inr (out @ tag # len_bytes (int (unat k)) @ take (unat k) b)"
proof -
  assume k: "unat k \<le> length b" "unat k < 65536"
  have "BerEncoder_encodeLength k (out @ [tag]) = (out @ [tag]) @ len_bytes (int (unat k))"
    using encode_length_octets [OF k(2), of "out @ [tag]"] by simp
  then show ?thesis using k(1) by (simp add: BerEncoder_encodeOctetString_def rd_n_front)
qed

definition encodes_to :: "MmsType \<Rightarrow> uMmsValue \<Rightarrow> bool" where
  "encodes_to t u \<longleftrightarrow> (\<forall>out. encode_leaf t u out
       = Inr (out @ data_tag t # len_bytes (int (length (leaf_content u))) @ leaf_content u))
     \<and> leaf_encoded_size t u = Inr (int (length (data_tag t # len_bytes (int (length (leaf_content u))) @ leaf_content u)))"

lemma integer_encodes:
  assumes "value_ok v" and "psize v \<le> 9"
  shows "BerEncoder_encodeAsn1PrimitiveValue tag v out = Inr (out @ tag # len_bytes (int (length (value_octets v))) @ value_octets v)"
    and "2 + psize v = int (length (tag # len_bytes (int (length (value_octets v))) @ value_octets v))"
proof -
  have l: "psize v = int (length (value_octets v))" "length (value_octets v) < 128"
    using assms psize_value_octets [OF assms(1)] by auto
  show "BerEncoder_encodeAsn1PrimitiveValue tag v out = Inr (out @ tag # len_bytes (int (length (value_octets v))) @ value_octets v)"
    using l encode_length_octets [of "length (value_octets v)"] rd_n_value [OF assms(1)]
    by (simp add: BerEncoder_encodeAsn1PrimitiveValue_def)
  show "2 + psize v = int (length (tag # len_bytes (int (length (value_octets v))) @ value_octets v))"
    using l short_length [of "length (value_octets v)"] by simp
qed

lemma bit_string_encodes:
  assumes "0 < n" and "int (length b) = bitStringByteSize n" and "length b < 65535"
    and "last b AND NOT (mask (unused_bits n)) = last b"
  shows "BerEncoder_encodeBitString tag (nat n) b out
     = Inr (out @ tag # len_bytes (int (length b) + 1) @ of_nat (unused_bits n) # b)"
proof -
  have s: "bit_byteSize (nat n) = length b" using bit_byteSize_eq [of n] assms(1,2) by simp
  have "0 < nat n" using assms(1) by simp
  moreover have "nat n \<le> 8 * length b" using bit_byteSize_bounds(1) [of "nat n"] s by (simp add: mult.commute)
  moreover have ne: "b \<noteq> []" using s bit_byteSize_pos [of "nat n"] assms(1) by auto
  moreover have "unused_bits n = length b * 8 - nat n" using s by (simp add: unused_bits_def)
  ultimately show ?thesis
    using encodeBitString_octets [of "nat n" b tag out, unfolded s] assms(3,4) append_butlast_last_id [OF ne] by simp
qed

lemma leaf_encodes: "leaf_encodable t u \<Longrightarrow> encodes_to t u"
proof (cases t)
  case MMS_BIT_STRING
  assume "leaf_encodable t u"
  with MMS_BIT_STRING obtain n b where b: "u = U_bitString n b" "0 < n" "int (length b) = bitStringByteSize n" "length b < 65535"
    "length b \<noteq> 127" "length b \<noteq> 255" "last b AND NOT (mask (unused_bits n)) = last b"
    by (auto simp: leaf_encodable_def leaf_ok_def)
  have s: "bit_byteSize (nat n) = length b" using bit_byteSize_eq [of n] b(2,3) by simp
  have "BerEncoder_determineEncodedBitStringSize (nat n) = 2 + int (length (len_bytes (int (length b)))) + int (length b)"
    using s b(4) length_size [of "length b"] by (simp add: BerEncoder_determineEncodedBitStringSize_def)
  moreover have "len_size (int (length b)) = len_size (int (length b) + 1)"
    using b(5,6) by (auto simp: len_size_def)
  ultimately show ?thesis
    using MMS_BIT_STRING b(1) bit_string_encodes [OF b(2,3,4,7)]
    by (simp add: encodes_to_def encode_leaf_def leaf_encoded_size_def bits_of_def add.commute)
next
  case MMS_INTEGER
  assume "leaf_encodable t u"
  with MMS_INTEGER obtain v where v: "u = U_integer v" "value_ok v" "psize v \<le> 9"
    by (auto simp: leaf_encodable_def leaf_ok_def)
  from integer_encodes [OF v(2,3), of "0x85"] v(1) MMS_INTEGER show ?thesis
    by (simp add: encodes_to_def encode_leaf_def leaf_encoded_size_def integer_of_def)
next
  case MMS_UNSIGNED
  assume "leaf_encodable t u"
  with MMS_UNSIGNED obtain v where v: "u = U_integer v" "value_ok v" "psize v \<le> 9"
    by (auto simp: leaf_encodable_def leaf_ok_def)
  from integer_encodes [OF v(2,3), of "0x86"] v(1) MMS_UNSIGNED show ?thesis
    by (simp add: encodes_to_def encode_leaf_def leaf_encoded_size_def integer_of_def)
next
  case MMS_OCTET_STRING
  assume "leaf_encodable t u"
  with MMS_OCTET_STRING obtain n mx b where b: "u = U_octetString n mx b" "unat n \<le> length b"
    by (auto simp: leaf_encodable_def leaf_ok_def)
  have "unat n < 2 ^ LENGTH(16)" by (rule unsigned_less)
  then have n: "unat (ucast n :: u32) = unat n" "unat n < 65536"
    by (simp_all add: unsigned_ucast_eq take_bit_nat_eq_self)
  from encode_octet_string [of "ucast n" b "0x89"] n b MMS_OCTET_STRING length_size [OF n(2)] show ?thesis
    by (simp add: encodes_to_def encode_leaf_def leaf_encoded_size_def octets_of_def)
next
  case MMS_BINARY_TIME
  assume "leaf_encodable t u"
  with MMS_BINARY_TIME obtain n b where b: "u = U_binaryTime n b" "n = 4 \<or> n = 6" "length b = 6"
    by (auto simp: leaf_encodable_def leaf_ok_def)
  from encode_octet_string [of "4 :: u32" b "0x8c"] encode_octet_string [of "6 :: u32" b "0x8c"] b MMS_BINARY_TIME show ?thesis
    by (auto simp: encodes_to_def encode_leaf_def leaf_encoded_size_def binary_of_def len_bytes_def)
next
  case MMS_UTC_TIME
  assume "leaf_encodable t u"
  with MMS_UTC_TIME obtain b where b: "u = U_utcTime b" "length b = 8"
    by (auto simp: leaf_encodable_def leaf_ok_def)
  from encode_octet_string [of "8 :: u32" b "0x91"] b MMS_UTC_TIME show ?thesis
    by (auto simp: encodes_to_def encode_leaf_def leaf_encoded_size_def utc_of_def len_bytes_def)
next
  case MMS_FLOAT
  assume "leaf_encodable t u"
  with MMS_FLOAT obtain e f b where b: "u = U_floatingPoint e f b" "f = 32 \<or> f = 64" "length b = unat f div 8"
    by (auto simp: leaf_encodable_def leaf_ok_def)
  have "BerEncoder_revertByteOrder b (length b) = rev b" by (rule revertByteOrder_rev)
  with b MMS_FLOAT show ?thesis
    by (auto simp: encodes_to_def encode_leaf_def leaf_encoded_size_def float_of_def len_bytes_def BerEncoder_encodeFloat_def
      BerEncoder_encodeTL_def BerEncoder_encodeLength_def rd_n_front Let_def)
next
  case MMS_DATA_ACCESS_ERROR
  assume "leaf_encodable t u"
  with MMS_DATA_ACCESS_ERROR obtain e where e: "u = U_dataAccessError e" by (auto simp: leaf_encodable_def leaf_ok_def)
  have l: "length (uint32_octets (word_of_int e)) < 128" using uint32_octets_length [of "word_of_int e"] by simp
  with encode_length_octets [of "length (uint32_octets (word_of_int e))"] short_length [OF l] e MMS_DATA_ACCESS_ERROR show ?thesis
    by (simp add: encodes_to_def encode_leaf_def leaf_encoded_size_def error_of_def BerEncoder_encodeUInt32_def BerEncoder_encodeTL_def
      BerEncoder_UInt32determineEncodedSize_def)
next
  case MMS_VISIBLE_STRING
  assume "leaf_encodable t u"
  with MMS_VISIBLE_STRING obtain s n where s: "u = U_visibleString (Some (s, n + 1)) n" "length s < 65536"
    by (auto simp: leaf_encodable_def leaf_ok_def)
  from encode_length_octets [OF s(2)] length_size [OF s(2)] s(1) MMS_VISIBLE_STRING show ?thesis
    by (simp add: encodes_to_def encode_leaf_def leaf_encoded_size_def string_member_def BerEncoder_encodeStringWithTag_def
      BerEncoder_determineEncodedStringSize_def)
next
  case MMS_STRING
  assume "leaf_encodable t u"
  with MMS_STRING obtain s n where s: "u = U_visibleString (Some (s, n + 1)) n" "length s < 65536"
    by (auto simp: leaf_encodable_def leaf_ok_def)
  from encode_length_octets [OF s(2)] length_size [OF s(2)] s(1) MMS_STRING show ?thesis
    by (simp add: encodes_to_def encode_leaf_def leaf_encoded_size_def string_member_def BerEncoder_encodeStringWithTag_def
      BerEncoder_determineEncodedStringSize_def)
next
  case MMS_BOOLEAN
  assume "leaf_encodable t u"
  with MMS_BOOLEAN show ?thesis
    by (auto simp: leaf_encodable_def leaf_ok_def encodes_to_def encode_leaf_def leaf_encoded_size_def boolean_of_def
      BerEncoder_encodeBoolean_def len_bytes_def)
qed (auto simp: leaf_encodable_def leaf_ok_def)


section \<open>Whole values\<close>

definition encodes_value :: "sMmsValue \<Rightarrow> bool" where
  "encodes_value v \<longleftrightarrow> (\<forall>out. MmsValue_encodeMmsData v out = Inr (out @ data_octets v))
     \<and> encoded_size v = Inr (int (length (data_octets v)))"

lemma components_encode:
  "(\<And>v. Some v \<in> set cs \<Longrightarrow> encodable v \<Longrightarrow> encodes_value v) \<Longrightarrow> all_encodable cs \<Longrightarrow>
   (\<forall>out. encode_components cs out = Inr (out @ all_octets cs)) \<and> components_encoded_size cs = Inr (int (length (all_octets cs)))"
proof (induction cs)
  case Nil
  then show ?case by simp
next
  case (Cons c cs)
  then obtain v where "c = Some v" "encodable v" "all_encodable cs" by (auto split: option.splits)
  with Cons show ?case by (auto simp: encodes_value_def)
qed

lemma encode_value: "encodable v \<Longrightarrow> encodes_value v"
proof (induction v rule: value_induct)
  case (struct t d cs)
  then have t: "is_complex t" by (auto simp: leaf_encodable_def dest: leaf_not_structure split: if_splits)
  with struct.prems have c: "all_encodable cs" "length (all_octets cs) < 65536" by auto
  from components_encode [OF struct.IH c(1)] have
    "\<And>out. encode_components cs out = Inr (out @ all_octets cs)" "components_encoded_size cs = Inr (int (length (all_octets cs)))"
    by simp_all
  with t encode_length_octets [OF c(2)] length_size [OF c(2)] show ?case
    by (auto simp: encodes_value_def Let_def)
next
  case (leaf t d u)
  then have t: "\<not> is_complex t" and u: "leaf_encodable t u" by (auto split: if_splits uMmsValue.splits)
  from leaf_encodes [OF u] encodable_leaf [OF u, of d] t show ?case
    by (simp add: encodes_value_def encodes_to_def)
qed


section \<open>Decoding simple values\<close>

lemma bytes_at_nonneg: "bytes_at buf p (x # xs) \<Longrightarrow> 0 \<le> p"
  by (simp add: rd_Inr_iff)

lemma memcpy_from_at:
  assumes "bytes_at buf p xs" and "0 \<le> p" and "length xs \<le> length dst"
  shows "memcpy_from dst buf p (int (length xs)) = Inr (xs @ drop (length xs) dst)"
proof -
  have "take (length xs) (drop (nat p) buf) = xs" using assms(1,2) by (rule bytes_at_eq_take_drop)
  moreover from this have "length xs \<le> length (drop (nat p) buf)" by (metis length_take min.cobounded1)
  ultimately show ?thesis using assms(2,3) by (simp add: memcpy_from_def memcpy_to_def)
qed

lemma rd_n_at: "bytes_at buf p xs \<Longrightarrow> n = length xs \<Longrightarrow> rd_n buf p n = Inr xs"
  by (simp add: rd_n_bytes_at)

definition decodes_to :: "byte \<Rightarrow> byte list \<Rightarrow> int \<Rightarrow> int \<Rightarrow> MmsType \<Rightarrow> uMmsValue \<Rightarrow> bool" where
  "decodes_to tag buf p n t u \<longleftrightarrow> (\<exists>u'. decode_leaf tag buf p n = Inr (Some (MmsValue t 0 u')) \<and> leaf_ok t u' \<and> equal_member t u' u = Inr True)"

lemma integer_decodes:
  assumes v: "value_ok v" "psize v \<le> 9" and at: "bytes_at buf p (value_octets v)" "0 \<le> p"
  shows "\<exists>w. decode_integer (MmsValue t 0 (U_integer (if psize v * 8 \<le> 32 then BerInteger_createInt32 else BerInteger_createInt64))) buf p (psize v)
           = Inr (Some (MmsValue t 0 (U_integer w))) \<and> value_ok w \<and> Asn1PrimitivaValue_compare w v = Inr True"
proof -
  let ?mx = "if psize v * 8 \<le> 32 then 5 else 9 :: int"
  let ?new = "if psize v * 8 \<le> 32 then BerInteger_createInt32 else BerInteger_createInt64"
  have n: "?new = \<lparr>psize = 1, pmaxSize = ?mx, octets = replicate (nat ?mx) 0\<rparr>"
    by (simp add: BerInteger_createInt32_def BerInteger_createInt64_def Asn1PrimitiveValue_create_def)
  have l: "psize v = int (length (value_octets v))" by (rule psize_value_octets [OF v(1)])
  have s: "0 < psize v" "psize v \<le> ?mx" using v by (auto simp: value_ok_def)
  let ?w = "\<lparr>psize = psize v, pmaxSize = ?mx, octets = value_octets v @ drop (length (value_octets v)) (replicate (nat ?mx) 0)\<rparr>"
  have fits: "length (value_octets v) \<le> length (replicate (nat ?mx) (0 :: byte))" using s(2) l by simp
  have "decode_integer (MmsValue t 0 (U_integer ?new)) buf p (psize v) = Inr (Some (MmsValue t 0 (U_integer ?w)))"
    using memcpy_from_at [OF at fits] unfolding n by (simp add: decode_integer_def integer_of_def flip: l)
  moreover have "value_ok ?w" using s fits l by (auto simp: value_ok_def)
  moreover have "Asn1PrimitivaValue_compare ?w v = Inr True"
    using l rd_n_value [OF v(1)] rd_n_front [of "length (value_octets v)" "value_octets v @ drop (length (value_octets v)) (replicate (nat ?mx) 0)"]
    by (simp add: Asn1PrimitivaValue_compare_def)
  ultimately show ?thesis by blast
qed


text \<open>The memory image of the word that octets stand for.\<close>

lemma le_octets_Suc: "le_octets (Suc n) (v :: 'a :: len word) = ucast v # le_octets n (drop_bit 8 v)"
proof -
  have "[0..<Suc n] = 0 # map Suc [0..<n]" by (simp add: upt_conv_Cons map_Suc_upt)
  then show ?thesis by (simp add: le_octets_def add.commute del: upt_Suc)
qed

lemma be_from_snoc: "be_from a (xs @ [x]) = be_from a xs * 256 + uint x"
  by (simp add: be_from_def)

lemma octets_of_word:
  "8 * length b \<le> LENGTH('a) \<Longrightarrow> le_octets (length b) (word_of_int (be_from 0 (rev b)) :: 'a :: len word) = b"
proof (induction b)
  case Nil
  then show ?case by (simp add: le_octets_def)
next
  case (Cons x xs)
  let ?w = "be_from 0 (rev xs)"
  define v where "v = (word_of_int (be_from 0 (rev (x # xs))) :: 'a word)"
  have w: "0 \<le> ?w" "?w < 256 ^ length xs" using be_from_bounds [of 0 "rev xs"] by simp_all
  have "(256 :: int) ^ length xs * 256 \<le> 2 ^ LENGTH('a)"
  proof -
    have "(256 :: int) ^ length xs * 256 = (2 ^ 8) ^ length (x # xs)" by simp
    also have "\<dots> = 2 ^ (8 * length (x # xs))" by (rule power_mult [symmetric])
    also have "\<dots> \<le> 2 ^ LENGTH('a)" using Cons.prems by (intro power_increasing) simp_all
    finally show ?thesis .
  qed
  then have b: "?w * 256 + uint x < 2 ^ LENGTH('a)" "0 \<le> ?w * 256 + uint x" "?w < 2 ^ LENGTH('a)"
    using w by (simp_all add: add_nonneg_nonneg) (smt (verit) uint_byte_bounds(3))+
  have "uint v = (?w * 256 + uint x) mod 2 ^ LENGTH('a)" by (simp only: v_def rev.simps be_from_snoc uint_word_of_int)
  with b have u: "uint v = ?w * 256 + uint x" by (simp only: mod_pos_pos_trivial)
  have "ucast v = x"
  proof -
    have "uint (ucast v :: byte) = (?w * 256 + uint x) mod 256" by (simp add: unsigned_ucast_eq u take_bit_eq_mod)
    then show ?thesis by (simp add: word_uint_eq_iff)
  qed
  moreover have "drop_bit 8 v = word_of_int ?w"
  proof -
    have "uint (drop_bit 8 v) = drop_bit 8 (uint v)" by (simp only: unsigned_drop_bit_eq take_bit_int_eq_self uint_ge_0 uint_lt2p)
    also have "\<dots> = (?w * 256 + uint x) div 256" by (simp add: u drop_bit_eq_div)
    also have "\<dots> = ?w" by simp
    also have "\<dots> = uint (word_of_int ?w :: 'a word)" using w(1) b(3) by (simp add: uint_word_of_int)
    finally show ?thesis by (simp add: word_uint_eq_iff)
  qed
  moreover have "le_octets (length xs) (word_of_int ?w :: 'a word) = xs" using Cons by simp
  ultimately have "le_octets (Suc (length xs)) v = x # xs" by (simp only: le_octets_Suc)
  then show ?case by (simp add: v_def)
qed


lemma bit_string_decodes:
  assumes "0 < n" and "int (length b) = bitStringByteSize n" and at: "bytes_at buf p (of_nat (unused_bits n) # b)"
  shows "decode_leaf 0x84 buf p (int (length b) + 1) = Inr (Some (MmsValue MMS_BIT_STRING 0 (U_bitString n b)))"
proof -
  have s: "bit_byteSize (nat n) = length b" using bit_byteSize_eq [of n] assms(1,2) by simp
  have u: "unused_bits n = length b * 8 - nat n" "unused_bits n < 8" "nat n \<le> length b * 8"
    using s bit_byteSize_bounds [of "nat n"] by (simp_all add: unused_bits_def)
  have pad: "uint (of_nat (unused_bits n) :: byte) = int (unused_bits n)" using u(2) by (simp add: unsigned_of_nat take_bit_nat_eq_self)
  have n: "8 * int (length b) - int (unused_bits n) = n" using u(1,3) assms(1) by linarith
  have new: "MmsValue_newBitString n = MmsValue MMS_BIT_STRING 0 (U_bitString n (replicate (length b) 0))"
    using assms(1,2) by (simp add: MmsValue_newBitString_def flip: assms(2))
  have at': "bytes_at buf (p + 1) b" "0 \<le> p + 1" "rd buf p = Inr (of_nat (unused_bits n))"
    using at bytes_at_nonneg [OF at] by simp_all
  have "memcpy_from (replicate (length b) 0) buf (p + 1) (int (length b)) = Inr b"
    using memcpy_from_at [OF at'(1,2), of "replicate (length b) 0"] by simp
  then show ?thesis using at'(3) pad n new by (simp add: decode_leaf_def Let_def bits_of_def)
qed

lemma string_decodes:
  assumes "0 \<notin> set s" and "length s < 32768" and "bytes_at buf p s" and "0 \<le> p"
  shows "MmsValue_newStringFromByteArray (drop (nat p) buf) (int (length s)) t
         = Inr (MmsValue t 0 (U_visibleString (Some (s, int (length s) + 1)) (int (length s))))"
proof -
  have t: "take (length s) (drop (nat p) buf) = s" using assms(3,4) by (rule bytes_at_eq_take_drop)
  moreover from this have "length s \<le> length (drop (nat p) buf)" by (metis length_take min.cobounded1)
  ultimately have "rd_n (drop (nat p) buf) 0 (length s) = Inr s" by (simp add: rd_n_front)
  moreover have "takeWhile (\<lambda>x. x \<noteq> 0) s = s" using assms(1) by (simp add: takeWhile_eq_all_conv) blast
  ultimately show ?thesis using assms(2) by (simp add: MmsValue_newStringFromByteArray_def createStringFromBuffer_def)
qed


lemma sint_of_small: "0 \<le> e \<Longrightarrow> e < 2 ^ 31 \<Longrightarrow> sint (word_of_int e :: u32) = e"
  by (simp add: sint_uint uint_word_of_int signed_take_bit_int_eq_self)

lemma leaf_decodes:
  assumes u: "leaf_encodable t u" and at: "bytes_at buf p (leaf_content u)" and p: "0 \<le> p"
  shows "decodes_to (data_tag t) buf p (int (length (leaf_content u))) t u"
proof (cases t)
  case MMS_BIT_STRING
  with u obtain n b where b: "u = U_bitString n b" "0 < n" "int (length b) = bitStringByteSize n"
    by (auto simp: leaf_encodable_def leaf_ok_def)
  from bit_string_decodes [OF b(2,3)] at b(1) have
    "decode_leaf 0x84 buf p (int (length b) + 1) = Inr (Some (MmsValue MMS_BIT_STRING 0 (U_bitString n b)))" by simp
  with b MMS_BIT_STRING show ?thesis
    by (simp add: decodes_to_def leaf_ok_def equal_member_def bits_of_def same_octets_refl add.commute flip: b(3))
next
  case MMS_INTEGER
  with u obtain v where v: "u = U_integer v" "value_ok v" "psize v \<le> 9" by (auto simp: leaf_encodable_def leaf_ok_def)
  from integer_decodes [OF v(2,3) _ p, of buf MMS_INTEGER] at v(1) psize_value_octets [OF v(2)] MMS_INTEGER show ?thesis
    by (auto simp: decodes_to_def decode_leaf_def MmsValue_newInteger_def leaf_ok_def equal_member_def integer_of_def)
next
  case MMS_UNSIGNED
  with u obtain v where v: "u = U_integer v" "value_ok v" "psize v \<le> 9" by (auto simp: leaf_encodable_def leaf_ok_def)
  from integer_decodes [OF v(2,3) _ p, of buf MMS_UNSIGNED] at v(1) psize_value_octets [OF v(2)] MMS_UNSIGNED show ?thesis
    by (auto simp: decodes_to_def decode_leaf_def MmsValue_newUnsigned_def leaf_ok_def equal_member_def integer_of_def)
next
  case MMS_OCTET_STRING
  with u obtain n mx b where b: "u = U_octetString n mx b" "unat n \<le> length b" by (auto simp: leaf_encodable_def leaf_ok_def)
  have l: "length (leaf_content u) = unat n" using b by simp
  from memcpy_from_at [OF at p, of "replicate (unat n) 0"] b l
  have "memcpy_from (replicate (unat n) 0) buf p (int (unat n)) = Inr (take (unat n) b)" by simp
  with b l MMS_OCTET_STRING show ?thesis
    by (auto simp: decodes_to_def decode_leaf_def leaf_ok_def equal_member_def octets_of_def same_octets_def rd_n_front)
next
  case MMS_BINARY_TIME
  with u obtain n b where b: "u = U_binaryTime n b" "n = 4 \<or> n = 6" "length b = 6" by (auto simp: leaf_encodable_def leaf_ok_def)
  from memcpy_from_at [OF at p, of "replicate 6 0"] b
  have "memcpy_from (replicate 6 0) buf p (uint n) = Inr (take (unat n) b @ drop (unat n) (replicate 6 0))" by auto
  with b MMS_BINARY_TIME show ?thesis
    by (auto simp: decodes_to_def decode_leaf_def leaf_ok_def equal_member_def binary_of_def same_octets_front same_octets_refl)
next
  case MMS_UTC_TIME
  with u obtain b where b: "u = U_utcTime b" "length b = 8" by (auto simp: leaf_encodable_def leaf_ok_def)
  from at b(1) p have t: "take 8 (drop (nat p) buf) = b" using bytes_at_eq_take_drop [of buf p b] b(2) by simp
  then have "8 \<le> length (drop (nat p) buf)" by (metis b(2) length_take min.cobounded1)
  with t p b MMS_UTC_TIME show ?thesis
    by (simp add: decodes_to_def decode_leaf_def leaf_ok_def equal_member_def utc_of_def MmsValue_setUtcTimeByBuffer_def set_utc_def
      MmsValue_newUtcTime_def memcpy_front same_octets_refl)
next
  case MMS_FLOAT
  with u obtain e f b where b: "u = U_floatingPoint e f b" "f = 32 \<and> length b = 4 \<or> f = 64 \<and> length b = 8"
    by (auto simp: leaf_encodable_def leaf_ok_def)
  from at b(1) have at': "bytes_at buf (p + 1) (rev b)" by simp
  have l: "length (leaf_content u) = Suc (length b)" using b(1) by simp
  from b(2) show ?thesis
  proof
    assume f: "f = 32 \<and> length b = 4"
    have "BerDecoder_decodeFloat buf p = Inr (word_of_int (be_from 0 (rev b)))"
      using rd_n_at [OF at'] f foldl_or_word [of 0 "rev b", where 'a = 32] by (simp add: BerDecoder_decodeFloat_def)
    moreover have "le_octets 4 (word_of_int (be_from 0 (rev b)) :: u32) = b" using octets_of_word [of b, where 'a = 32] f by simp
    ultimately show ?thesis using b(1) f l MMS_FLOAT
      by (simp add: decodes_to_def decode_leaf_def leaf_ok_def equal_member_def float_of_def MmsValue_newFloat_def same_octets_refl)
  next
    assume f: "f = 64 \<and> length b = 8"
    have "BerDecoder_decodeDouble buf p = Inr (word_of_int (be_from 0 (rev b)))"
      using rd_n_at [OF at'] f foldl_or_word [of 0 "rev b", where 'a = 64] by (simp add: BerDecoder_decodeDouble_def)
    moreover have "le_octets 8 (word_of_int (be_from 0 (rev b)) :: u64) = b" using octets_of_word [of b, where 'a = 64] f by simp
    ultimately show ?thesis using b(1) f l MMS_FLOAT
      by (simp add: decodes_to_def decode_leaf_def leaf_ok_def equal_member_def float_of_def MmsValue_newDouble_def same_octets_refl)
  qed
next
  case MMS_DATA_ACCESS_ERROR
  with u obtain e where e: "u = U_dataAccessError e" "0 \<le> e" "e < 2 ^ 31" by (auto simp: leaf_encodable_def leaf_ok_def)
  from rd_n_at [OF at, of "length (leaf_content u)"] e(1) foldl_add_word [of 0 "uint32_octets (word_of_int e)", where 'a = 32]
  have "BerDecoder_decodeUint32 buf (int (length (leaf_content u))) p = Inr (word_of_int e)"
    by (simp add: BerDecoder_decodeUint32_def be_from_uint32_octets)
  with e MMS_DATA_ACCESS_ERROR sint_of_small [OF e(2,3)] show ?thesis
    by (simp add: decodes_to_def decode_leaf_def leaf_ok_def equal_member_def error_of_def)
next
  case MMS_VISIBLE_STRING
  with u obtain s n where s: "u = U_visibleString (Some (s, n + 1)) n" "length s < 32768" "0 \<notin> set s"
    by (auto simp: leaf_encodable_def leaf_ok_def)
  from string_decodes [OF s(3,2) _ p, of buf MMS_VISIBLE_STRING] at p s MMS_VISIBLE_STRING show ?thesis
    by (simp add: decodes_to_def decode_leaf_def leaf_ok_def equal_member_def string_member_def MmsValue_newVisibleStringFromByteArray_def)
next
  case MMS_STRING
  with u obtain s n where s: "u = U_visibleString (Some (s, n + 1)) n" "length s < 32768" "0 \<notin> set s"
    by (auto simp: leaf_encodable_def leaf_ok_def)
  from string_decodes [OF s(3,2) _ p, of buf MMS_VISIBLE_STRING] at p s MMS_STRING show ?thesis
    by (simp add: decodes_to_def decode_leaf_def leaf_ok_def equal_member_def string_member_def MmsValue_newVisibleStringFromByteArray_def)
next
  case MMS_BOOLEAN
  with u obtain b where b: "u = U_boolean b" by (auto simp: leaf_encodable_def leaf_ok_def)
  with at have "BerDecoder_decodeBoolean buf p = Inr b" by (cases b) (simp_all add: BerDecoder_decodeBoolean_def)
  with b MMS_BOOLEAN show ?thesis
    by (simp add: decodes_to_def decode_leaf_def leaf_ok_def equal_member_def boolean_of_def MmsValue_newBoolean_def)
qed (use u in \<open>auto simp: leaf_encodable_def leaf_ok_def\<close>)


section \<open>Decoding whole values\<close>

definition content_of :: "sMmsValue \<Rightarrow> byte list" where
  "content_of v = (case mvalue v of U_structure cs \<Rightarrow> all_octets cs | _ \<Rightarrow> leaf_content (mvalue v))"

lemma data_octets_split: "data_octets v = data_tag (mtype v) # len_bytes (int (length (content_of v))) @ content_of v"
  by (cases v) (auto simp: content_of_def Let_def split: uMmsValue.splits)

definition content_at :: "int \<Rightarrow> sMmsValue \<Rightarrow> int" where
  "content_at p v = p + 1 + len_size (int (length (content_of v)))"

lemma content_at_gt: "p < content_at p v"
  using len_size_pos(1) [of "int (length (content_of v))"] unfolding content_at_def by linarith

lemma content_end: "content_at p v + int (length (content_of v)) = p + int (length (data_octets v))"
  by (simp add: content_at_def data_octets_split)

lemma data_octets_at:
  "bytes_at buf p (data_octets v) \<longleftrightarrow>
     rd buf p = Inr (data_tag (mtype v)) \<and> bytes_at buf (p + 1) (len_bytes (int (length (content_of v)))) \<and> bytes_at buf (content_at p v) (content_of v)"
  by (simp add: data_octets_split bytes_at_append content_at_def)

lemma encodable_content: "encodable v \<Longrightarrow> length (content_of v) < 65536"
proof (induction v rule: value_induct)
  case (struct t d cs)
  then show ?case by (auto simp: content_of_def leaf_encodable_def dest: leaf_not_structure split: if_splits)
next
  case (leaf t d u)
  then show ?case using leaf_content_length [of t u]
    by (cases u) (auto simp: content_of_def split: if_splits)
qed

lemma encodable_tag: "encodable v \<Longrightarrow> mtype v \<noteq> MMS_STRING \<Longrightarrow> data_tag (mtype v) \<in> element_tags"
  by (cases v) (auto simp: element_tags_def leaf_encodable_def leaf_ok_def split: MmsType.splits if_splits)

text \<open>The length field of an element is read.\<close>

lemma element_length:
  assumes "encodable v" and "bytes_at buf p (data_octets v)" and "p + int (length (data_octets v)) \<le> mx"
  shows "BerDecoder_decodeLength buf l (p + 1) mx = Inr (content_at p v, Some (int (length (content_of v))))"
  using decodeLength_at [of "int (length (content_of v))" buf "p + 1" mx l] encodable_content [OF assms(1)] assms(2,3)
    content_end [of p v] by (simp add: data_octets_at content_at_def)

lemma octets_positive: "0 < length (data_octets v)"
  by (simp add: data_octets_split)


text \<open>Counting the elements.\<close>

lemma elements_counted:
  "all_encodable cs \<Longrightarrow> bytes_at buf p (all_octets cs) \<Longrightarrow> 0 \<le> p \<Longrightarrow> p + int (length (all_octets cs)) = e \<Longrightarrow> e < 2 ^ 31 \<Longrightarrow>
   length (all_octets cs) \<le> N \<Longrightarrow>
   \<exists>l'. c_while N (\<lambda>(p, _, _). p < e) (element_round buf e) (p, l, i) = Inr (Continue (e, l', i + int (length cs)))"
proof (induction cs arbitrary: p l i N)
  case Nil
  then show ?case by (auto simp: c_while_done)
next
  case (Cons c cs)
  then obtain v where v: "c = Some v" "encodable v" "mtype v \<noteq> MMS_STRING" "all_encodable cs" by (auto split: option.splits)
  let ?q = "p + int (length (data_octets v))"
  have at: "bytes_at buf p (data_octets v)" "bytes_at buf ?q (all_octets cs)" using Cons.prems(2) v(1) by (simp_all add: bytes_at_append)
  have e: "?q + int (length (all_octets cs)) = e" "?q \<le> e" using Cons.prems(4) v(1) by simp_all
  obtain M where N: "N = Suc M" using Cons.prems(6) octets_positive [of v] v(1) by (cases N) auto
  have end_p: "i32 (content_at p v + int (length (content_of v))) = ?q"
    using e(2) Cons.prems(3,5) content_end [of p v] by simp
  have "element_round buf e (p, l, i) = Inr (Continue (?q, int (length (content_of v)), i + 1))"
    using element_length [OF v(2) at(1) e(2), of "Some l"] encodable_tag [OF v(2,3)] at(1) end_p e(2)
    by (simp add: element_round_def data_octets_at)
  moreover have "p < e" using e octets_positive [of v] by linarith
  ultimately have "c_while N (\<lambda>(p, _, _). p < e) (element_round buf e) (p, l, i)
      = c_while M (\<lambda>(p, _, _). p < e) (element_round buf e) (?q, int (length (content_of v)), i + 1)"
    by (simp add: N)
  moreover have "length (all_octets cs) \<le> M" using Cons.prems(6) octets_positive [of v] v(1) N by (simp del: length_greater_0_conv)
  moreover have "0 \<le> ?q" using Cons.prems(3) by simp
  ultimately obtain l' where
    "c_while N (\<lambda>(p, _, _). p < e) (element_round buf e) (p, l, i) = Inr (Continue (e, l', i + 1 + int (length cs)))"
    using Cons.IH [OF v(4) at(2) _ e(1) Cons.prems(5), of M "int (length (content_of v))" "i + 1"] by metis
  moreover have "i + 1 + int (length cs) = i + int (length (c # cs))" by simp
  ultimately show ?case by metis
qed

lemma number_of_elements:
  assumes "all_encodable cs" and "bytes_at buf p (all_octets cs)" and "0 \<le> p" and "p + int (length (all_octets cs)) < 2 ^ 31"
    and "length (all_octets cs) \<le> N"
  shows "getNumberOfElements N buf p (int (length (all_octets cs))) = Inr (int (length cs))"
  using elements_counted [OF assms(1-3) refl assms(4,5), of "int (length (all_octets cs))" 0] assms(3,4)
  by (auto simp: getNumberOfElements_def)



text \<open>
  Decoding at the position of the octets, whatever length is handed over, as long as it reaches behind them.
\<close>

definition decodes_value :: "byte list \<Rightarrow> sMmsValue \<Rightarrow> bool" where
  "decodes_value buf v \<longleftrightarrow> (\<forall>p n N k. bytes_at buf p (data_octets v) \<longrightarrow> 0 \<le> p \<longrightarrow> int (length (data_octets v)) \<le> n \<longrightarrow> p + n < 2 ^ 31 \<longrightarrow>
     length (data_octets v) \<le> N \<longrightarrow> length (data_octets v) \<le> k \<longrightarrow>
     (\<exists>v'. MmsValue_decodeMmsData N k buf p n = Inr (Some v') \<and> value_typed v' \<and> MmsValue_equals v' v = Inr True))"

lemma decodes_valueD:
  "decodes_value buf v \<Longrightarrow> bytes_at buf p (data_octets v) \<Longrightarrow> 0 \<le> p \<Longrightarrow> int (length (data_octets v)) \<le> n \<Longrightarrow> p + n < 2 ^ 31 \<Longrightarrow>
   length (data_octets v) \<le> N \<Longrightarrow> length (data_octets v) \<le> k \<Longrightarrow>
   \<exists>v'. MmsValue_decodeMmsData N k buf p n = Inr (Some v') \<and> value_typed v' \<and> MmsValue_equals v' v = Inr True"
  by (simp add: decodes_value_def)

lemma elements_decode:
  assumes buf: "int (length buf) < 2 ^ 31 - 65536" and n: "n < 65536" and e: "e < 2 ^ 31"
  shows "(\<And>v. Some v \<in> set cs \<Longrightarrow> encodable v \<Longrightarrow> decodes_value buf v) \<Longrightarrow> all_encodable cs \<Longrightarrow>
    bytes_at buf p (all_octets cs) \<Longrightarrow> 0 \<le> p \<Longrightarrow> int (length (all_octets cs)) \<le> n \<Longrightarrow> p + int (length (all_octets cs)) \<le> e \<Longrightarrow>
    length (all_octets cs) \<le> N \<Longrightarrow> length (all_octets cs) \<le> k \<Longrightarrow>
    \<exists>vs. decode_elements N k buf (length cs) p n e = Inr (Some vs) \<and> list_all value_typed vs
      \<and> equal_components (map Some vs) cs = Inr True \<and> length vs = length cs"
proof (induction cs arbitrary: p)
  case Nil
  then show ?case by simp
next
  case (Cons c cs)
  then obtain v where v: "c = Some v" "encodable v" "all_encodable cs" by (auto split: option.splits)
  let ?q = "p + int (length (data_octets v))"
  have at: "bytes_at buf p (data_octets v)" "bytes_at buf ?q (all_octets cs)" using Cons.prems(3) v(1) by (simp_all add: bytes_at_append)
  have l: "length (data_octets v) \<le> N" "length (data_octets v) \<le> k" "length (all_octets cs) \<le> N" "length (all_octets cs) \<le> k"
      "int (length (data_octets v)) \<le> n" "int (length (all_octets cs)) \<le> n" "?q + int (length (all_octets cs)) \<le> e" "?q \<le> e"
    using Cons.prems v(1) by simp_all
  have "p < int (length buf)" using bytes_at_bounds [OF at(1)] octets_positive [of v] by (cases "data_octets v") auto
  then have "p + n < 2 ^ 31" using buf n by simp
  then obtain v' where v': "MmsValue_decodeMmsData N k buf p n = Inr (Some v')" "value_typed v'" "MmsValue_equals v' v = Inr True"
    using decodes_valueD [OF Cons.prems(1) [of v] at(1) Cons.prems(4) l(5) _ l(1,2)] v by auto
  obtain vs where vs: "decode_elements N k buf (length cs) ?q n e = Inr (Some vs)" "list_all value_typed vs"
      "equal_components (map Some vs) cs = Inr True" "length vs = length cs"
    using Cons.IH [OF _ v(3) at(2) _ l(6,7,3,4)] Cons.prems(1,4) by auto
  have "content_at p v \<noteq> -1" using content_at_gt [of p v] Cons.prems(4) by linarith
  moreover have "i32 (content_at p v + int (length (content_of v))) = ?q"
    using l(8) e Cons.prems(4) content_end [of p v] by simp
  ultimately have "decode_elements N k buf (length (c # cs)) p n e = Inr (Some (v' # vs))"
    using element_length [OF v(2) at(1) l(8), of None] v'(1) vs(1) by simp
  with v' vs v(1) show ?case by simp
qed

lemma value_decodes:
  assumes buf: "int (length buf) < 2 ^ 31 - 65536"
  shows "encodable v \<Longrightarrow> decodes_value buf v"
proof (induction v rule: value_induct)
  case (struct t d cs)
  let ?v = "MmsValue t d (U_structure cs)"
  from struct have t: "is_complex t" and c: "all_encodable cs" "length (all_octets cs) < 65536"
    by (auto simp: leaf_encodable_def dest: leaf_not_structure split: if_splits)
  show ?case
    unfolding decodes_value_def
  proof (intro allI impI)
    fix p n N k
    assume at: "bytes_at buf p (data_octets ?v)" and b: "0 \<le> p" "int (length (data_octets ?v)) \<le> n" "p + n < 2 ^ 31"
      "length (data_octets ?v) \<le> N" "length (data_octets ?v) \<le> k"
    have cont: "content_of ?v = all_octets cs" by (simp add: content_of_def)
    let ?q = "content_at p ?v"
    have q: "?q + int (length (all_octets cs)) \<le> p + n" "0 \<le> ?q" "length (all_octets cs) < length (data_octets ?v)"
      using content_end [of p ?v] b(1,2) content_at_gt [of p ?v] cont by simp_all
    obtain j where k: "k = Suc j" using b(5) octets_positive [of ?v] by (cases k) auto
    have at': "bytes_at buf ?q (all_octets cs)" "rd buf p = Inr (data_tag t)" using at cont data_octets_at [of buf p ?v] by (simp_all del: data_octets.simps)
    have count: "getNumberOfElements N buf ?q (int (length (all_octets cs))) = Inr (int (length cs))"
      using number_of_elements [OF c(1) at'(1) q(2)] q(1,3) b(3,4) by simp
    obtain vs where vs: "decode_elements N j buf (length cs) ?q (int (length (all_octets cs))) (p + n) = Inr (Some vs)" "list_all value_typed vs"
      "equal_components (map Some vs) cs = Inr True" "length vs = length cs"
      using elements_decode [OF buf _ b(3) struct.IH c(1) at'(1) q(2) order.refl q(1), of N j] c(2) q(3) b(4,5) k by auto
    have "BerDecoder_decodeLength buf None (p + 1) (p + n) = Inr (?q, Some (int (length (all_octets cs))))"
      using element_length [OF struct.prems at, of "p + n" None] b(2) cont by simp
    then have "MmsValue_decodeMmsData N k buf p n = Inr (Some (MmsValue t 0 (U_structure (map Some vs))))"
      using at'(2) count vs(1) q b t k by (auto simp: Let_def)
    then show "\<exists>v'. MmsValue_decodeMmsData N k buf p n = Inr (Some v') \<and> value_typed v' \<and> MmsValue_equals v' ?v = Inr True"
      using vs t by (auto simp: list_all_iff structure_of_def)
  qed
next
  case (leaf t d u)
  let ?v = "MmsValue t d u"
  from leaf have t: "\<not> is_complex t" and u: "leaf_encodable t u" by (auto split: if_splits uMmsValue.splits)
  have cont: "content_of ?v = leaf_content u" using leaf.hyps by (cases u) (auto simp: content_of_def)
  show ?case
    unfolding decodes_value_def
  proof (intro allI impI)
    fix p n N k
    assume at: "bytes_at buf p (data_octets ?v)" and b: "0 \<le> p" "int (length (data_octets ?v)) \<le> n" "p + n < 2 ^ 31"
      "length (data_octets ?v) \<le> N" "length (data_octets ?v) \<le> k"
    let ?q = "content_at p ?v"
    have q: "?q + int (length (leaf_content u)) \<le> p + n" "0 \<le> ?q" "p + n < 2 ^ 31"
      using content_end [of p ?v] b(1-3) content_at_gt [of p ?v] cont by simp_all
    obtain j where k: "k = Suc j" using b(5) octets_positive [of ?v] by (cases k) auto
    have at': "bytes_at buf ?q (leaf_content u)" "rd buf p = Inr (data_tag t)" using at cont data_octets_at [of buf p ?v] by (simp_all del: data_octets.simps)
    have len: "BerDecoder_decodeLength buf None (p + 1) (p + n) = Inr (?q, Some (int (length (leaf_content u))))"
      using element_length [OF leaf.prems at, of "p + n" None] b(2) cont by simp
    have "data_tag t \<noteq> 0xa1 \<and> data_tag t \<noteq> 0xa2" using t by (cases t) auto
    then have "MmsValue_decodeMmsData N k buf p n = decode_leaf (data_tag t) buf ?q (int (length (leaf_content u)))"
      using at'(2) len q b k by (auto simp: Let_def)
    then show "\<exists>v'. MmsValue_decodeMmsData N k buf p n = Inr (Some v') \<and> value_typed v' \<and> MmsValue_equals v' ?v = Inr True"
      using leaf_decodes [OF u at'(1) q(2)] t by (auto simp: decodes_to_def)
  qed
qed



section \<open>The round trip\<close>

text \<open>
  C18: The encoder writes as many octets as it announces, and the decoder makes an equal value from them, wherever they lie in a message and
  whatever follows. This holds for every value whose structures contain no MMS strings, whose integers have at most nine octets and whose
  contents have less than 65536 octets.
\<close>

theorem mms_data_roundtrip:
  assumes "encodable v"
  shows "\<exists>bs. (\<forall>out. MmsValue_encodeMmsData v out = Inr (out @ bs)) \<and> encoded_size v = Inr (int (length bs))
    \<and> (\<forall>pre post N k. length bs \<le> N \<longrightarrow> length bs \<le> k \<longrightarrow> length (pre @ bs @ post) < 2 ^ 31 - 65536 \<longrightarrow>
         (\<exists>v'. MmsValue_decodeMmsData N k (pre @ bs @ post) (int (length pre)) (int (length bs)) = Inr (Some v')
            \<and> value_typed v' \<and> MmsValue_equals v' v = Inr True))"
proof -
  have "\<exists>v'. MmsValue_decodeMmsData N k (pre @ data_octets v @ post) (int (length pre)) (int (length (data_octets v))) = Inr (Some v')
          \<and> value_typed v' \<and> MmsValue_equals v' v = Inr True"
    if "length (data_octets v) \<le> N" "length (data_octets v) \<le> k" "length (pre @ data_octets v @ post) < 2 ^ 31 - 65536" for pre post N k
    using that by (intro decodes_valueD [OF value_decodes [OF _ assms] bytes_at_middle]) auto
  with encode_value [OF assms] show ?thesis unfolding encodes_value_def by blast
qed

definition data_example :: sMmsValue where
  "data_example = MmsValue MMS_STRUCTURE 0 (U_structure
     [Some (MmsValue MMS_BOOLEAN 0 (U_boolean True)), Some (MmsValue MMS_BIT_STRING 0 (U_bitString 3 [0xa0])),
      Some (MmsValue MMS_ARRAY 0 (U_structure [Some (MmsValue MMS_UTC_TIME 0 (U_utcTime [1, 2, 3, 4, 5, 6, 7, 8]))]))])"

lemma data_example_encodable: "encodable data_example"
  by (simp add: data_example_def leaf_encodable_def leaf_ok_def unused_bits_def bit_byteSize_def bitStringByteSize_def len_bytes_def Let_def
      mask_eq_decr_exp exI [of _ True])

lemma mms_data_roundtrip_witness:
  "\<exists>bs. (\<forall>out. MmsValue_encodeMmsData data_example out = Inr (out @ bs)) \<and> encoded_size data_example = Inr (int (length bs))"
  using mms_data_roundtrip [OF data_example_encodable] by blast


text \<open>A structure with an MMS string inside is encoded, and the decoder takes its own encoding for an error.\<close>

theorem mms_string_inside_refused:
  "\<exists>bs. MmsValue_encodeMmsData (MmsValue MMS_STRUCTURE 0 (U_structure [Some (MmsValue MMS_STRING 0 (U_visibleString (Some ([0x61], 2)) 1))])) [] = Inr bs
     \<and> MmsValue_decodeMmsData 9 9 bs 0 (int (length bs)) = Inr None"
proof -
  have "MmsValue_encodeMmsData (MmsValue MMS_STRUCTURE 0 (U_structure [Some (MmsValue MMS_STRING 0 (U_visibleString (Some ([0x61], 2)) 1))])) []
      = Inr [0xa2, 3, 0x90, 1, 0x61]"
    by code_simp
  moreover have "MmsValue_decodeMmsData 9 9 [0xa2, 3, 0x90, 1, 0x61] 0 5 = Inr None" by code_simp
  ultimately show ?thesis by simp
qed

end
