(* ===== verification/Goose_Publish_Correct.thy ===== *)
theory Goose_Publish_Correct
  imports Goose_Publisher Mms_Data_Correct
begin

text \<open>
  What \<open>GoosePublisher_publish\<close> sends: the header of the buffer with the length filled in, and one BER element with the fields and the data.
\<close>

section \<open>The message as a list of elements\<close>

definition text_octets :: "byte list option \<Rightarrow> byte list" where
  "text_octets str = (case str of None \<Rightarrow> [] | Some s \<Rightarrow> s)"

definition sent_goID :: "sGoosePublisher \<Rightarrow> byte list option" where
  "sent_goID self = (if goID self \<noteq> None then goID self else goCBRef self)"

definition timestamp_octets :: "sGoosePublisher \<Rightarrow> byte list" where
  "timestamp_octets self = leaf_content (mvalue (timestamp self))"

definition goose_items :: "sGoosePublisher \<Rightarrow> sMmsValue option list \<Rightarrow> (byte \<times> byte list) list" where
  "goose_items self vs =
     [(0x80, text_octets (goCBRef self)), (0x81, uint32_octets (timeAllowedToLive self)), (0x82, text_octets (dataSetRef self)),
      (0x83, text_octets (sent_goID self)), (0x84, timestamp_octets self), (0x85, uint32_octets (stNum self)),
      (0x86, uint32_octets (sqNum self)), (0x87, [if simulation self then 0xff else 0]), (0x88, uint32_octets (confRev self)),
      (0x89, [if needsCommission self then 0xff else 0]), (0x8a, uint32_octets (word_of_int (int (length vs)))), (0xab, all_octets vs)]"

definition goose_content :: "sGoosePublisher \<Rightarrow> sMmsValue option list \<Rightarrow> byte list" where
  "goose_content self vs = concat (map tlv_octets (goose_items self vs))"

text \<open>A publisher that was created and given its references, and the data it can send.\<close>

definition publisher_ok :: "sGoosePublisher \<Rightarrow> bool" where
  "publisher_ok self \<longleftrightarrow> length (pbuffer self) = 1518 \<and> lengthField self = 20 \<and> payloadStart self = 26
     \<and> (\<exists>d ts. timestamp self = MmsValue MMS_UTC_TIME d (U_utcTime ts) \<and> length ts = 8)
     \<and> length (text_octets (goCBRef self)) < 65536 \<and> length (text_octets (dataSetRef self)) < 65536
     \<and> length (text_octets (goID self)) < 65536"

definition data_ok :: "sMmsValue option list \<Rightarrow> bool" where
  "data_ok vs \<longleftrightarrow> all_encodable vs \<and> length (all_octets vs) < 65536"

lemma data_encodes:
  "all_encodable vs \<Longrightarrow> encode_components vs out = Inr (out @ all_octets vs)"
  "all_encodable vs \<Longrightarrow> components_encoded_size vs = Inr (int (length (all_octets vs)))"
  using components_encode [of vs] encode_value by blast+

lemma sent_goID_length: "publisher_ok self \<Longrightarrow> length (text_octets (sent_goID self)) < 65536"
  by (auto simp: sent_goID_def publisher_ok_def)

lemma short_uint32: "length (uint32_octets v) < 65536"
  using uint32_octets_length [of v] by simp

lemma goose_items_ok:
  assumes "publisher_ok self" and "data_ok vs"
  shows "list_all tlv_ok (goose_items self vs)"
  using assms sent_goID_length [OF assms(1)]
  by (auto simp: goose_items_def publisher_ok_def data_ok_def timestamp_octets_def short_uint32)

lemma tlv_length_bound: "length v < 65536 \<Longrightarrow> length (tlv t v) < 65540"
  using len_size_pos(2) [of "int (length v)"] length_tlv [of t v] unfolding tlv_size_def by linarith

lemma tlvs_length_bound: "list_all tlv_ok its \<Longrightarrow> length (concat (map tlv_octets its)) \<le> 65540 * length its"
proof (induction its)
  case (Cons it its)
  obtain t v where "it = (t, v)" by (cases it)
  with Cons tlv_length_bound [of v t] show ?case by simp
qed simp

lemma goose_content_bound: "publisher_ok self \<Longrightarrow> data_ok vs \<Longrightarrow> length (goose_content self vs) < 1000000"
  using tlvs_length_bound [OF goose_items_ok, of self vs] by (simp add: goose_content_def goose_items_def)

text \<open>The announced length is that of the contents, and the fields and the data are encoded in their order.\<close>

lemma goose_length:
  assumes "publisher_ok self" and "data_ok vs"
  shows "uint (goose_pdu_length self (int (length vs)) (int (length (all_octets vs)))) = int (length (goose_content self vs))"
proof -
  have short: "length (text_octets (goCBRef self)) < 65536" "length (text_octets (dataSetRef self)) < 65536"
      "length (text_octets (sent_goID self)) < 65536" "length (all_octets vs) < 65536"
    using assms sent_goID_length [OF assms(1)] by (simp_all add: publisher_ok_def data_ok_def)
  have str: "BerEncoder_determineEncodedStringSize s = int (length (tlv t (text_octets s)))" if "length (text_octets s) < 65536" for s t
    using encodedStringSize_tlv [of s t] that by (simp add: text_octets_def)
  have time: "length (timestamp_octets self) = 8" using assms(1) by (auto simp: publisher_ok_def timestamp_octets_def)
  have bool: "length (tlv t [x]) = 3" "length (tlv t (timestamp_octets self)) = 10" for t x
    using small_tlv [of "[x]" t] small_tlv [of "timestamp_octets self" t] time by simp_all
  have data: "int (length (all_octets vs)) + BerEncoder_determineLengthSize (word_of_int (int (length (all_octets vs)))) + 1
      = int (length (tlv 0xab (all_octets vs)))"
    using length_size [OF short(4)] by (simp add: tlv_def)
  have "goose_pdu_length self (int (length vs)) (int (length (all_octets vs))) = word_of_int (int (length (goose_content self vs)))"
    unfolding goose_pdu_length_def data str [OF short(1), of "0x80"] str [OF short(2), of "0x82"]
      str [OF short(3), of "0x83", unfolded sent_goID_def] encodedUInt32Size_tlv [of "timeAllowedToLive self" "0x81"]
      encodedUInt32Size_tlv [of "sqNum self" "0x86"] encodedUInt32Size_tlv [of "stNum self" "0x85"]
      encodedUInt32Size_tlv [of "confRev self" "0x88"] encodedUInt32Size_tlv [of "word_of_int (int (length vs))" "0x8a"]
    by (simp add: goose_content_def goose_items_def bool sent_goID_def)
  then show ?thesis using goose_content_bound [OF assms] by (simp only: uint_word_of_int) simp
qed

lemma goose_fields:
  assumes "publisher_ok self" and "data_ok vs"
  shows "rbind (encode_fields self (int (length vs)) out) (\<lambda>out.
           encode_components vs (BerEncoder_encodeTL 0xab (int (length (all_octets vs))) out)) = Inr (out @ goose_content self vs)"
proof -
  obtain d ts where t: "timestamp self = MmsValue MMS_UTC_TIME d (U_utcTime ts)" "length ts = 8"
    using assms(1) by (auto simp: publisher_ok_def)
  have short: "length (text_octets (goCBRef self)) < 65536" "length (text_octets (dataSetRef self)) < 65536"
      "length (text_octets (sent_goID self)) < 65536" "length (all_octets vs) < 65536"
    using assms sent_goID_length [OF assms(1)] by (simp_all add: publisher_ok_def data_ok_def)
  have str: "BerEncoder_encodeStringWithTag tag s out = out @ tlv tag (text_octets s)" if "length (text_octets s) < 65536" for s tag out
    using encodeStringWithTag_tlv [of s tag out] that by (simp add: text_octets_def)
  have data: "encode_components vs (BerEncoder_encodeTL 0xab (int (length (all_octets vs))) out) = Inr (out @ tlv 0xab (all_octets vs))" for out
    using encodeTL_tlv [OF short(4), of "0xab" out] data_encodes(1) [of vs] assms(2) by (simp add: data_ok_def)
  show ?thesis
    using t str [OF short(1)] str [OF short(2)] str [OF short(3), unfolded sent_goID_def] encodeOctetString_tlv [of 8 ts "0x84"] data
    by (simp add: encode_fields_def utc_of_def Let_def encodeUInt32_tlv encodeBoolean_tlv goose_content_def goose_items_def
        timestamp_octets_def sent_goID_def)
qed

lemma payload_octets:
  assumes "publisher_ok self" and "data_ok vs"
  shows "createGoosePayload self vs 1492 =
    Inr (if length (goose_content self vs) > 1492 then None else Some (tlv 0x61 (goose_content self vs)))"
proof -
  have "rbind (encode_fields self (int (length vs)) out) (\<lambda>out.
      rbind (encode_components vs (BerEncoder_encodeTL 0xab (int (length (all_octets vs))) out)) (\<lambda>out. Inr (Some out)))
      = rbind (rbind (encode_fields self (int (length vs)) out) (\<lambda>out.
           encode_components vs (BerEncoder_encodeTL 0xab (int (length (all_octets vs))) out))) (\<lambda>out. Inr (Some out))" for out
    by (cases "encode_fields self (int (length vs)) out") simp_all
  then show ?thesis
    using goose_length [OF assms] goose_fields [OF assms] data_encodes(2) [of vs] assms(2)
      encodeTL_tlv [of "goose_content self vs" "0x61" "[]"]
    by (auto simp: createGoosePayload_def data_ok_def Let_def)
qed


section \<open>What is sent\<close>

text \<open>The packet: the header with the length of the payload and the eight octets in front of it, and the payload.\<close>

definition goose_packet :: "sGoosePublisher \<Rightarrow> sMmsValue option list \<Rightarrow> byte list" where
  "goose_packet self vs =
     (let payload = tlv 0x61 (goose_content self vs); n = int (length payload) + 8
      in take 20 (pbuffer self) @ [word_of_int (n div 256), word_of_int (n mod 256)] @ take 4 (drop 22 (pbuffer self)) @ payload)"

lemma packet_length: "publisher_ok self \<Longrightarrow> length (goose_packet self vs) = 26 + length (tlv 0x61 (goose_content self vs))"
  by (simp add: goose_packet_def publisher_ok_def Let_def)

lemma publish_octets:
  assumes "publisher_ok self" and "data_ok vs" and n: "length (goose_content self vs) \<le> 1488"
  shows "GoosePublisher_publish self vs =
    Inr (self\<lparr>sqNum := sqNum self + 1, pbuffer := goose_packet self vs @ drop (length (goose_packet self vs)) (pbuffer self)\<rparr>,
         Some (goose_packet self vs), 0)"
proof -
  let ?n = "length (goose_content self vs)" and ?p = "tlv 0x61 (goose_content self vs)" and ?b = "pbuffer self"
  have ok: "length ?b = 1518" "lengthField self = 20" "payloadStart self = 26" using assms(1) by (simp_all add: publisher_ok_def)
  have len: "int (length ?p) = 1 + len_size (int ?n) + int ?n" by (simp add: length_tlv tlv_size_def)
  have fits: "26 + length ?p \<le> 1518" using n len len_size_pos(2) [of "int ?n"] by linarith
  let ?h = "[word_of_int ((int (length ?p) + 8) div 256), word_of_int ((int (length ?p) + 8) mod 256)] :: byte list"
  have "memcpy_to ?b 26 ?p (int (length ?p)) = Inr (take 26 ?b @ ?p @ drop (26 + length ?p) ?b)"
    using fits ok(1) by (simp add: memcpy_to_def nat_add_distrib)
  moreover have "memcpy_to (take 26 ?b @ ?p @ drop (26 + length ?p) ?b) 20 ?h 2
      = Inr (take 20 ?b @ ?h @ take 4 (drop 22 ?b) @ ?p @ drop (26 + length ?p) ?b)"
    using ok(1) fits by (simp add: memcpy_to_def min_def drop_take)
  moreover have packet: "goose_packet self vs = take 20 ?b @ ?h @ take 4 (drop 22 ?b) @ ?p"
      "length (goose_packet self vs) = 26 + length ?p"
    using ok(1) by (simp_all add: goose_packet_def Let_def)
  moreover have "rd_n (goose_packet self vs @ drop (26 + length ?p) ?b) 0 (26 + length ?p) = Inr (goose_packet self vs)"
    using rd_n_front [of "26 + length ?p" "goose_packet self vs @ drop (26 + length ?p) ?b"] packet(2) by simp
  moreover have "nat (26 + int (length ?p)) = 26 + length ?p" by simp
  ultimately show ?thesis using payload_octets [OF assms(1,2)] ok n
    by (simp add: GoosePublisher_publish_def GOOSE_MAX_MESSAGE_SIZE_def Let_def)
qed

text \<open>
  C9: A publisher sends its message, or refuses it because the fields and the data have more than 1492 octets. Between 1489 and 1492
  octets the check passes, but tag and length of the PDU do not fit: the message is written beyond the end of the buffer.
\<close>

theorem publish_sends_refuses_or_overruns:
  assumes "publisher_ok self" and "data_ok vs"
  shows "GoosePublisher_publish self vs =
    (if length (goose_content self vs) > 1492 then Inr (self\<lparr>sqNum := sqNum self + 1\<rparr>, None, -1)
     else if length (goose_content self vs) > 1488 then Inl Out_of_bounds
     else Inr (self\<lparr>sqNum := sqNum self + 1,
                    pbuffer := goose_packet self vs @ drop (length (goose_packet self vs)) (pbuffer self)\<rparr>,
               Some (goose_packet self vs), 0))"
proof -
  let ?n = "length (goose_content self vs)" and ?p = "tlv 0x61 (goose_content self vs)" and ?b = "pbuffer self"
  have ok: "length ?b = 1518" "lengthField self = 20" "payloadStart self = 26" using assms(1) by (simp_all add: publisher_ok_def)
  have len: "int (length ?p) = 1 + len_size (int ?n) + int ?n" by (simp add: length_tlv tlv_size_def)
  consider "?n > 1492" | "1488 < ?n" "?n \<le> 1492" | "?n \<le> 1488" by linarith
  then show ?thesis
  proof cases
    case 1
    then show ?thesis using payload_octets [OF assms] ok by (simp add: GoosePublisher_publish_def GOOSE_MAX_MESSAGE_SIZE_def)
  next
    case 2
    then have "len_size (int ?n) = 3" by (simp add: len_size_def)
    with 2 len have "1518 < 26 + int (length ?p)" by simp
    then show ?thesis using payload_octets [OF assms] ok 2
      by (simp add: GoosePublisher_publish_def GOOSE_MAX_MESSAGE_SIZE_def Let_def memcpy_to_def)
  next
    case 3
    then show ?thesis using publish_octets [OF assms] by simp
  qed
qed

definition full_publisher :: sGoosePublisher where
  "full_publisher = zero_publisher\<lparr>pbuffer := replicate 1518 0, lengthField := 20, payloadStart := 26,
     timestamp := MmsValue MMS_UTC_TIME 0 (U_utcTime (replicate 8 0))\<rparr>"

definition full_data :: "sMmsValue option list" where
  "full_data = [Some (MmsValue MMS_OCTET_STRING 0 (U_octetString 1444 1444 (replicate 1444 0)))]"

theorem publish_sends_refuses_or_overruns_witness:
  "GoosePublisher_publish full_publisher full_data = Inl Out_of_bounds"
proof -
  have ok: "publisher_ok full_publisher" by (simp add: publisher_ok_def full_publisher_def zero_publisher_def text_octets_def)
  have content: "all_octets full_data = tlv 0x89 (replicate 1444 0)" by (simp add: full_data_def tlv_def Let_def)
  have "length (tlv 0x89 (replicate 1444 0)) = 1448" by (simp add: tlv_def len_bytes_def)
  with content have data: "length (all_octets full_data) = 1448" by simp
  have "all_encodable full_data" by (simp add: full_data_def leaf_encodable_def leaf_ok_def)
  then have d: "data_ok full_data" using data by (simp add: data_ok_def)
  have "uint32_octets 0 = [0]" "uint32_octets 1 = [1]" by code_simp+
  moreover have "length (tlv 0xab (all_octets full_data)) = 1452" using data by (simp add: tlv_def len_bytes_def)
  ultimately have "length (goose_content full_publisher full_data) = 1489"
    by (simp add: goose_content_def goose_items_def)
      (simp add: full_publisher_def full_data_def zero_publisher_def text_octets_def sent_goID_def timestamp_octets_def small_tlv)
  then show ?thesis using publish_sends_refuses_or_overruns [OF ok d] by simp
qed

end
