(* ===== verification/Goose_Subscriber.thy ===== *)
theory Goose_Subscriber
  imports Mms_Data
begin

text \<open>
  Receiving GOOSE messages: \<open>libiec61850/src/goose/goose_receiver.c\<close>, \<open>goose_subscriber.c\<close>. The subscribers are objects in a store
  that receivers refer to by address. A position in the received frame is the index in the frame: the C pointer \<open>buffer + bufPos\<close> of a
  function that was called with the pointer \<open>base\<close> has the index \<open>base + bufPos\<close>.
\<close>

section \<open>Subscribers\<close>

text \<open>\<open>listener\<close> is the address of a function, \<open>listenerParameter\<close> its argument.\<close>

record sGooseSubscriber =
  goCBRef :: "byte list"
  goCBRefLen :: int
  timeAllowedToLive :: u32
  stNum :: u32
  sqNum :: u32
  confRev :: u32
  timestamp :: sMmsValue
  simulation :: bool
  ndsCom :: bool
  invalidityTime :: u64
  stateValid :: bool
  appId :: int
  dataSetValues :: "sMmsValue option"
  dataSetValuesSelfAllocated :: bool
  listener :: "nat option"
  listenerParameter :: nat

definition GooseSubscriber_create :: "byte list \<Rightarrow> sMmsValue option \<Rightarrow> sGooseSubscriber" where
  "GooseSubscriber_create goCbRef values =
     \<lparr>goCBRef = goCbRef, goCBRefLen = int (length goCbRef), timeAllowedToLive = 0, stNum = 0, sqNum = 0, confRev = 0,
      timestamp = MmsValue_newUtcTime 0, simulation = False, ndsCom = False, invalidityTime = 0, stateValid = False, appId = -1,
      dataSetValues = values, dataSetValuesSelfAllocated = False, listener = None, listenerParameter = 0\<rparr>"

definition GooseSubscriber_isValid :: "u64 \<Rightarrow> sGooseSubscriber \<Rightarrow> bool" where
  "GooseSubscriber_isValid now self =
     (if \<not> stateValid self then False
      else if now > invalidityTime self then False
      else True)"

definition GooseSubscriber_setAppId :: "sGooseSubscriber \<Rightarrow> u16 \<Rightarrow> sGooseSubscriber" where
  "GooseSubscriber_setAppId self a = self\<lparr>appId := uint a\<rparr>"

text \<open>The values that are freed; those of the user are kept.\<close>

definition GooseSubscriber_destroy :: "sGooseSubscriber \<Rightarrow> sMmsValue list run" where
  "GooseSubscriber_destroy self =
     rbind (MmsValue_delete (timestamp self)) (\<lambda>t.
       if dataSetValuesSelfAllocated self
       then (case dataSetValues self of None \<Rightarrow> Inl Null_pointer
             | Some v \<Rightarrow> rbind (MmsValue_delete v) (\<lambda>vs. Inr (t @ vs)))
       else Inr t)"

definition GooseSubscriber_setListener :: "sGooseSubscriber \<Rightarrow> nat option \<Rightarrow> nat \<Rightarrow> sGooseSubscriber" where
  "GooseSubscriber_setListener self l parameter = self\<lparr>listener := l, listenerParameter := parameter\<rparr>"

definition GooseSubscriber_getStNum :: "sGooseSubscriber \<Rightarrow> u32" where
  "GooseSubscriber_getStNum self = stNum self"

definition GooseSubscriber_getSqNum :: "sGooseSubscriber \<Rightarrow> u32" where
  "GooseSubscriber_getSqNum self = sqNum self"

definition GooseSubscriber_isTest :: "sGooseSubscriber \<Rightarrow> bool" where
  "GooseSubscriber_isTest self = simulation self"

definition GooseSubscriber_getConfRev :: "sGooseSubscriber \<Rightarrow> u32" where
  "GooseSubscriber_getConfRev self = confRev self"

definition GooseSubscriber_needsCommission :: "sGooseSubscriber \<Rightarrow> bool" where
  "GooseSubscriber_needsCommission self = ndsCom self"

definition GooseSubscriber_getTimeAllowedToLive :: "sGooseSubscriber \<Rightarrow> u32" where
  "GooseSubscriber_getTimeAllowedToLive self = timeAllowedToLive self"

definition GooseSubscriber_getTimestamp :: "sGooseSubscriber \<Rightarrow> u64 run" where
  "GooseSubscriber_getTimestamp self = MmsValue_getUtcTimeInMs (timestamp self)"

definition GooseSubscriber_getDataSetValues :: "sGooseSubscriber \<Rightarrow> sMmsValue option" where
  "GooseSubscriber_getDataSetValues self = dataSetValues self"


section \<open>Data set values\<close>

text \<open>\<open>BerDecoder_decodeLength\<close> with a pointer into the frame: the failure -1 is a position in front of that pointer.\<close>

definition decode_length_from :: "int \<Rightarrow> byte list \<Rightarrow> int option \<Rightarrow> int \<Rightarrow> int \<Rightarrow> (int \<times> int option) run" where
  "decode_length_from base buf len p mx =
     rbind (BerDecoder_decodeLength buf len p mx) (\<lambda>(q, l). Inr (if q = -1 then base - 1 else q, l))"

text \<open>\<open>bufPos + elementLength\<close> of the C code, as an index of the frame.\<close>

definition advance :: "int \<Rightarrow> int \<Rightarrow> int \<Rightarrow> int" where
  "advance base p l = base + i32 (p - base + l)"

text \<open>
  Updating an existing value by an element of a simple type: the value is only touched when it has the type of the element. A string whose
  buffer is large enough keeps its size field.
\<close>

definition createNewStringFromBufferElement :: "sMmsValue \<Rightarrow> byte list \<Rightarrow> int \<Rightarrow> int \<Rightarrow> sMmsValue run" where
  "createNewStringFromBufferElement v buf p n =
     rbind (memcpy_from (replicate (nat n + 1) 0) buf p n) (\<lambda>b.
       Inr (with_member (U_visibleString (Some (takeWhile (\<lambda>x. x \<noteq> 0) b, n + 1)) (i16 n)) v))"

definition set_octets :: "Asn1PrimitiveValue \<Rightarrow> byte list \<Rightarrow> int \<Rightarrow> int \<Rightarrow> sMmsValue \<Rightarrow> sMmsValue run" where
  "set_octets i buf p n v =
     (if n \<le> pmaxSize i then rbind (memcpy_from (octets i) buf p n) (\<lambda>os. Inr (with_member (U_integer (i\<lparr>octets := os, psize := n\<rparr>)) v))
      else Inr v)"

definition set_string_octets :: "sMmsValue \<Rightarrow> byte list \<Rightarrow> int \<Rightarrow> int \<Rightarrow> sMmsValue run" where
  "set_string_octets v buf p n =
     rbind (string_member (mvalue v)) (\<lambda>(b, sz).
       case b of
         None \<Rightarrow> createNewStringFromBufferElement v buf p n
       | Some (s, capacity) \<Rightarrow>
           if sz \<ge> n then
             rbind (memcpy_from (replicate (nat capacity) 0) buf p n) (\<lambda>b.
               if n < capacity
               then Inr (with_member (U_visibleString (Some (takeWhile (\<lambda>x. x \<noteq> 0) (take (nat n) b), capacity)) sz) v)
               else Inl Out_of_bounds)
           else createNewStringFromBufferElement v buf p n)"

definition set_element :: "float_ops \<Rightarrow> byte \<Rightarrow> byte list \<Rightarrow> int \<Rightarrow> int \<Rightarrow> sMmsValue \<Rightarrow> sMmsValue run" where
  "set_element F tag buf p n v =
     (if tag = 0x83 then
        (if mtype v = MMS_BOOLEAN then rbind (BerDecoder_decodeBoolean buf p) (\<lambda>b. MmsValue_setBoolean v b) else Inr v)
      else if tag = 0x84 then
        (if mtype v = MMS_BIT_STRING then
           rbind (rd buf p) (\<lambda>padding. rbind (bits_of (mvalue v)) (\<lambda>(k, b).
             if 8 * (n - 1) - uint padding = k
             then rbind (memcpy_from b buf (p + 1) (n - 1)) (\<lambda>b'. Inr (with_member (U_bitString k b') v))
             else Inr v))
         else Inr v)
      else if tag = 0x85 then
        (if mtype v = MMS_INTEGER then rbind (integer_of (mvalue v)) (\<lambda>i. set_octets i buf p n v) else Inr v)
      else if tag = 0x86 then
        (if mtype v = MMS_UNSIGNED then rbind (integer_of (mvalue v)) (\<lambda>i. set_octets i buf p n v) else Inr v)
      else if tag = 0x87 then
        (if mtype v = MMS_FLOAT then
           (if n = 9 then rbind (BerDecoder_decodeDouble buf p) (MmsValue_setDouble F v)
            else if n = 5 then rbind (BerDecoder_decodeFloat buf p) (MmsValue_setFloat F v)
            else Inr v)
         else Inr v)
      else if tag = 0x89 then
        (if mtype v = MMS_OCTET_STRING then
           rbind (octets_of (mvalue v)) (\<lambda>(k, mx, b).
             if n \<le> uint mx
             then rbind (memcpy_from b buf p n) (\<lambda>b'. Inr (with_member (U_octetString (word_of_int n) mx b') v))
             else Inr v)
         else Inr v)
      else if tag = 0x8a then
        (if mtype v = MMS_VISIBLE_STRING then set_string_octets v buf p n else Inr v)
      else if tag = 0x8c then
        (if mtype v = MMS_BINARY_TIME then
           (if n = 4 \<or> n = 6
            then rbind (binary_of (mvalue v)) (\<lambda>(k, b). rbind (memcpy_from b buf p n) (\<lambda>b'. Inr (with_member (U_binaryTime k b') v)))
            else Inr v)
         else Inr v)
      else if tag = 0x91 then
        (if n = 8 then
           (if mtype v = MMS_UTC_TIME then (if p < 0 then Inl Out_of_bounds else MmsValue_setUtcTimeByBuffer v (drop (nat p) buf)) else Inr v)
         else Inr v)
      else Inr v)"

text \<open>
  \<open>parseAllData\<close> updates the elements of \<open>dataSetValues\<close>: the result and the value afterwards. The values are nested at most \<open>k\<close> levels deep and
  a loop has at most \<open>N\<close> rounds; \<open>nested\<close> is the call for the next level. A nested result of -1 counts as success.
\<close>

definition all_data_round ::
    "float_ops \<Rightarrow> (int \<Rightarrow> int \<Rightarrow> sMmsValue \<Rightarrow> (int \<times> sMmsValue) run) \<Rightarrow> byte list \<Rightarrow> int \<Rightarrow> int
     \<Rightarrow> int \<times> int \<times> int \<times> sMmsValue \<Rightarrow> (int \<times> int \<times> int \<times> sMmsValue, int \<times> sMmsValue) ctl run" where
  "all_data_round F nested buf base n = (\<lambda>(p, elementLength, elementIndex, values).
     rbind (rd buf p) (\<lambda>tag. rbind (MmsValue_getArraySize values) (\<lambda>sz.
     if elementIndex > sz - 1 then Inr (Return (0, values))
     else rbind (MmsValue_getElement values elementIndex) (\<lambda>element.
       rbind (decode_length_from base buf (Some elementLength) (p + 1) (base + n)) (\<lambda>(q, l). rbind (use_var l) (\<lambda>elementLength.
         if i32 (q - base + elementLength) > n then Inr (Return (0, values))
         else if tag = 0x80 \<or> tag \<notin> element_tags then Inr (Continue (advance base q elementLength, elementLength, elementIndex + 1, values))
         else if tag = 0x91 \<and> elementLength \<noteq> 8 then Inr (Continue (advance base q elementLength, elementLength, elementIndex + 1, values))
         else (case element of None \<Rightarrow> Inl Null_pointer
          | Some v \<Rightarrow>
              if tag = 0xa1 \<and> mtype v = MMS_ARRAY \<or> tag = 0xa2 \<and> mtype v = MMS_STRUCTURE then
                rbind (nested q elementLength v) (\<lambda>(r, v').
                rbind (MmsValue_setElement values elementIndex (Some v')) (\<lambda>values'.
                  if r = 0 then Inr (Return (-1, values'))
                  else Inr (Continue (advance base q elementLength, elementLength, elementIndex + 1, values'))))
              else
                rbind (set_element F tag buf q elementLength v) (\<lambda>v'.
                rbind (MmsValue_setElement values elementIndex (Some v')) (\<lambda>values'.
                  Inr (Continue (advance base q elementLength, elementLength, elementIndex + 1, values')))))))))))"

primrec parseAllData :: "nat \<Rightarrow> float_ops \<Rightarrow> nat \<Rightarrow> byte list \<Rightarrow> int \<Rightarrow> int \<Rightarrow> sMmsValue \<Rightarrow> (int \<times> sMmsValue) run" where
  "parseAllData 0 = (\<lambda>F N buf base n values. Inl Out_of_fuel)"
| "parseAllData (Suc k) = (\<lambda>F N buf base n values.
     rbind (MmsValue_getArraySize values) (\<lambda>_.
     rbind (c_while N (\<lambda>(p, _). p < base + n) (all_data_round F (parseAllData k F N buf) buf base n) (base, 0, 0, values)) (\<lambda>r.
       case r of Return x \<Rightarrow> Inr x | Continue (_, _, _, values') \<Rightarrow> Inr (1, values'))))"

text \<open>The first pass of \<open>parseAllDataUnknownValue\<close> counts the elements; \<open>None\<close> is the jump to the error exit.\<close>

definition count_round :: "byte list \<Rightarrow> int \<Rightarrow> int \<Rightarrow> int \<times> int \<times> int \<Rightarrow> (int \<times> int \<times> int, unit) ctl run" where
  "count_round buf base n = (\<lambda>(p, elementLength, elementIndex).
     rbind (rd buf p) (\<lambda>tag. rbind (decode_length_from base buf (Some elementLength) (p + 1) (base + n)) (\<lambda>(q, l). rbind (use_var l) (\<lambda>elementLength.
       if i32 (q - base + elementLength) > n then Inr (Return ())
       else if tag \<notin> element_tags then Inr (Return ())
       else Inr (Continue (advance base q elementLength, elementLength, elementIndex + 1))))))"

text \<open>
  The second pass makes the values; its branches for the simple types are those of \<open>decode_leaf\<close>. An element that gives no value (a float
  or a time of the wrong length) is left out, and the values behind it move forward.
\<close>

definition new_value_round ::
    "(int \<Rightarrow> int \<Rightarrow> bool \<Rightarrow> (sMmsValue option \<times> bool) run) \<Rightarrow> byte list \<Rightarrow> int \<Rightarrow> int
     \<Rightarrow> int \<times> int \<times> int \<times> sMmsValue \<times> bool \<Rightarrow> (int \<times> int \<times> int \<times> sMmsValue \<times> bool, bool) ctl run" where
  "new_value_round nested buf base n = (\<lambda>(p, elementLength, elementIndex, values, selfAllocated).
     rbind (rd buf p) (\<lambda>tag. rbind (decode_length_from base buf (Some elementLength) (p + 1) (base + n)) (\<lambda>(q, l). rbind (use_var l) (\<lambda>elementLength.
       if i32 (q - base + elementLength) > n then Inr (Return selfAllocated)
       else if tag = 0xa1 \<or> tag = 0xa2 then
         rbind (nested q elementLength (tag = 0xa2)) (\<lambda>(v, b). case v of None \<Rightarrow> Inr (Return (selfAllocated \<or> b))
         | Some _ \<Rightarrow> rbind (MmsValue_setElement values elementIndex v) (\<lambda>values'.
             Inr (Continue (advance base q elementLength, elementLength, elementIndex + 1, values', selfAllocated \<or> b))))
       else if tag = 0x80 \<or> tag \<notin> element_tags then Inr (Return selfAllocated)
       else rbind (decode_leaf tag buf q elementLength) (\<lambda>v. case v of
           None \<Rightarrow> Inr (Continue (advance base q elementLength, elementLength, elementIndex, values, selfAllocated))
         | Some _ \<Rightarrow> rbind (MmsValue_setElement values elementIndex v) (\<lambda>values'.
             Inr (Continue (advance base q elementLength, elementLength, elementIndex + 1, values', selfAllocated))))))))"

text \<open>
  The values, or \<open>None\<close>, and whether \<open>dataSetValuesSelfAllocated\<close> has been set: by the call itself at its end, or by a nested call,
  also where the outer one fails later.
\<close>

primrec parseAllDataUnknownValue :: "nat \<Rightarrow> nat \<Rightarrow> byte list \<Rightarrow> int \<Rightarrow> int \<Rightarrow> bool \<Rightarrow> (sMmsValue option \<times> bool) run" where
  "parseAllDataUnknownValue 0 = (\<lambda>N buf base n isStructure. Inl Out_of_fuel)"
| "parseAllDataUnknownValue (Suc k) = (\<lambda>N buf base n isStructure.
     rbind (c_while N (\<lambda>(p, _). p < base + n) (count_round buf base n) (base, 0, 0)) (\<lambda>r. case r of
       Return _ \<Rightarrow> Inr (None, False)
     | Continue (_, l, elementIndex) \<Rightarrow>
         (case (if isStructure then MmsValue_createEmptyStructure elementIndex else MmsValue_createEmptyArray elementIndex) of
            None \<Rightarrow> Inl Null_pointer
          | Some values \<Rightarrow>
              rbind (c_while N (\<lambda>(p, _). p < base + n) (new_value_round (parseAllDataUnknownValue k N buf) buf base n) (base, l, 0, values, False)) (\<lambda>r.
                case r of Return b \<Rightarrow> Inr (None, b) | Continue (_, _, _, values', _) \<Rightarrow> Inr (Some values', True)))))"


section \<open>The payload\<close>

text \<open>The local variables of \<open>parseGoosePayload\<close>. The matching subscriber and the two pointers into the frame may be null.\<close>

record goose_locals =
  l_timeAllowedToLive :: u32
  l_stNum :: u32
  l_sqNum :: u32
  l_confRev :: "u32 option"
  l_simulation :: bool
  l_ndsCom :: bool
  matchingSubscriber :: "nat option"
  timestampBufPos :: "int option"
  dataSetBufferAddress :: "int option"
  dataSetBufferLength :: int
  numberOfDatSetEntries :: u32

definition initial_locals :: goose_locals where
  "initial_locals = \<lparr>l_timeAllowedToLive = 0, l_stNum = 0, l_sqNum = 0, l_confRev = None, l_simulation = False, l_ndsCom = False,
     matchingSubscriber = None, timestampBufPos = None, dataSetBufferAddress = None, dataSetBufferLength = 0, numberOfDatSetEntries = 0\<rparr>"

type_synonym subscriber_store = "nat \<Rightarrow> sGooseSubscriber"

text \<open>The search for the first subscriber with the control block reference of the message.\<close>

fun match_reference :: "subscriber_store \<Rightarrow> byte list \<Rightarrow> int \<Rightarrow> int \<Rightarrow> nat list \<Rightarrow> nat option run" where
  "match_reference st buf p n [] = Inr None"
| "match_reference st buf p n (a # as) =
     (if goCBRefLen (st a) = n then
        rbind (rd_n buf p (nat n)) (\<lambda>xs. if goCBRef (st a) = xs then Inr (Some a) else match_reference st buf p n as)
      else match_reference st buf p n as)"

text \<open>One element; \<open>Return\<close> leaves the function with its result.\<close>

definition payload_element :: "subscriber_store \<Rightarrow> nat list \<Rightarrow> byte list \<Rightarrow> byte \<Rightarrow> int \<Rightarrow> int \<Rightarrow> goose_locals \<Rightarrow> (goose_locals, int) ctl run" where
  "payload_element st subs buf tag q n l =
     (if tag = 0x80 then
        rbind (match_reference st buf q n subs) (\<lambda>m.
          let l = (if m = None then l else l\<lparr>matchingSubscriber := m\<rparr>)
          in if matchingSubscriber l = None then Inr (Return 0) else Inr (Continue l))
      else if tag = 0x81 then rbind (BerDecoder_decodeUint32 buf n q) (\<lambda>v. Inr (Continue (l\<lparr>l_timeAllowedToLive := v\<rparr>)))
      else if tag = 0x84 then Inr (Continue (l\<lparr>timestampBufPos := Some q\<rparr>))
      else if tag = 0x85 then rbind (BerDecoder_decodeUint32 buf n q) (\<lambda>v. Inr (Continue (l\<lparr>l_stNum := v\<rparr>)))
      else if tag = 0x86 then rbind (BerDecoder_decodeUint32 buf n q) (\<lambda>v. Inr (Continue (l\<lparr>l_sqNum := v\<rparr>)))
      else if tag = 0x87 then rbind (BerDecoder_decodeBoolean buf q) (\<lambda>v. Inr (Continue (l\<lparr>l_simulation := v\<rparr>)))
      else if tag = 0x88 then rbind (BerDecoder_decodeUint32 buf n q) (\<lambda>v. Inr (Continue (l\<lparr>l_confRev := Some v\<rparr>)))
      else if tag = 0x89 then rbind (BerDecoder_decodeBoolean buf q) (\<lambda>v. Inr (Continue (l\<lparr>l_ndsCom := v\<rparr>)))
      else if tag = 0x8a then rbind (BerDecoder_decodeUint32 buf n q) (\<lambda>v. Inr (Continue (l\<lparr>numberOfDatSetEntries := v\<rparr>)))
      else if tag = 0xab then Inr (Continue (l\<lparr>dataSetBufferAddress := Some q, dataSetBufferLength := n\<rparr>))
      else Inr (Continue l))"

definition payload_round ::
    "subscriber_store \<Rightarrow> nat list \<Rightarrow> byte list \<Rightarrow> int \<Rightarrow> int \<Rightarrow> int \<times> goose_locals \<Rightarrow> (int \<times> goose_locals, int) ctl run" where
  "payload_round st subs buf base apduLength = (\<lambda>(p, l).
     rbind (rd buf p) (\<lambda>tag. rbind (decode_length_from base buf None (p + 1) (base + apduLength)) (\<lambda>(q, len). rbind (use_var len) (\<lambda>elementLength.
       if i32 (q - base + elementLength) > apduLength then Inr (Return (-1))
       else if q = base - 1 then Inr (Return (-1))
       else rbind (payload_element st subs buf tag q elementLength l) (\<lambda>r. case r of
              Return x \<Rightarrow> Inr (Return x)
            | Continue l' \<Rightarrow> Inr (Continue (advance base q elementLength, l')))))))"

text \<open>
  What is done with the matching subscriber: its new state and the call of its listener. The time is that of \<open>Hal_getTimeInMs\<close>. The result
  of \<open>parseAllData\<close> is not looked at. The null pointer of a message without data is only handed on with the length 0.
\<close>

definition update_values :: "nat \<Rightarrow> nat \<Rightarrow> float_ops \<Rightarrow> byte list \<Rightarrow> goose_locals \<Rightarrow> sGooseSubscriber \<Rightarrow> sGooseSubscriber run" where
  "update_values N k F buf l s =
     (let base = (case dataSetBufferAddress l of None \<Rightarrow> 0 | Some a \<Rightarrow> a); n = dataSetBufferLength l
      in case dataSetValues s of
           None \<Rightarrow> rbind (parseAllDataUnknownValue k N buf base n False) (\<lambda>(v, b).
             Inr (s\<lparr>dataSetValues := v, dataSetValuesSelfAllocated := (dataSetValuesSelfAllocated s \<or> b)\<rparr>))
         | Some v \<Rightarrow> rbind (parseAllData k F N buf base n v) (\<lambda>(_, v'). Inr (s\<lparr>dataSetValues := Some v'\<rparr>)))"

definition update_subscriber ::
    "nat \<Rightarrow> nat \<Rightarrow> float_ops \<Rightarrow> u64 \<Rightarrow> byte list \<Rightarrow> goose_locals \<Rightarrow> sGooseSubscriber \<Rightarrow> sGooseSubscriber run" where
  "update_subscriber N k F now buf l s =
     rbind (use_var (l_confRev l)) (\<lambda>c.
     let s = s\<lparr>timeAllowedToLive := l_timeAllowedToLive l, confRev := c, ndsCom := l_ndsCom l, simulation := l_simulation l\<rparr>
     in case timestampBufPos l of
          None \<Rightarrow> Inl Null_pointer
        | Some t \<Rightarrow>
            if t < 0 then Inl Out_of_bounds
            else rbind (MmsValue_setUtcTimeByBuffer (timestamp s) (drop (nat t) buf)) (\<lambda>ts.
                 rbind (update_values N k F buf l (s\<lparr>timestamp := ts\<rparr>)) (\<lambda>s.
                 let isValid = \<not> (stNum s = l_stNum l \<and> sqNum s \<ge> l_sqNum l)
                 in Inr (s\<lparr>stateValid := isValid, stNum := l_stNum l, sqNum := l_sqNum l,
                           invalidityTime := now + ucast (l_timeAllowedToLive l)\<rparr>))))"

text \<open>The result, the subscribers and the address of the one whose listener is called.\<close>

type_synonym goose_result = "int \<times> subscriber_store \<times> nat option"

definition payload_done ::
    "nat \<Rightarrow> nat \<Rightarrow> float_ops \<Rightarrow> u64 \<Rightarrow> subscriber_store \<Rightarrow> byte list \<Rightarrow> goose_locals \<Rightarrow> goose_result run" where
  "payload_done N k F now st buf l =
     (case matchingSubscriber l of
        None \<Rightarrow> Inr (0, st, None)
      | Some a \<Rightarrow> rbind (update_subscriber N k F now buf l (st a)) (\<lambda>s.
          Inr (1, st(a := s), if listener s = None then None else Some a)))"

definition parseGoosePayload ::
    "nat \<Rightarrow> nat \<Rightarrow> float_ops \<Rightarrow> u64 \<Rightarrow> subscriber_store \<Rightarrow> nat list \<Rightarrow> byte list \<Rightarrow> int \<Rightarrow> int \<Rightarrow> goose_result run" where
  "parseGoosePayload N k F now st subs buf base apduLength =
     rbind (rd buf base) (\<lambda>tag.
       if tag = 0x61 then
         rbind (decode_length_from base buf None (base + 1) (base + apduLength)) (\<lambda>(q, len). rbind (use_var len) (\<lambda>gooseLength.
           let gooseEnd = advance base q gooseLength
           in rbind (c_while N (\<lambda>(p, _). p < gooseEnd) (payload_round st subs buf base apduLength) (q, initial_locals)) (\<lambda>r. case r of
                Return x \<Rightarrow> Inr (x, st, None)
              | Continue (_, l) \<Rightarrow> payload_done N k F now st buf l)))
       else Inr (-1, st, None))"


section \<open>The receiver\<close>

record 'e sGooseReceiver =
  running :: bool
  stopped :: bool
  interfaceId :: "byte list option"
  rbuffer :: "byte list"
  ethSocket :: "'e option"
  subscriberList :: "nat list"

definition ETH_BUFFER_LENGTH :: nat where "ETH_BUFFER_LENGTH = 1518"

text \<open>\<open>fresh\<close> is what \<open>malloc\<close> gives for the buffer.\<close>

definition GooseReceiver_create :: "byte list \<Rightarrow> bool \<Rightarrow> 'e sGooseReceiver" where
  "GooseReceiver_create fresh some_bool =
     \<lparr>running = False, stopped = some_bool, interfaceId = None, rbuffer = take ETH_BUFFER_LENGTH fresh, ethSocket = None, subscriberList = []\<rparr>"

definition GooseReceiver_addSubscriber :: "'e sGooseReceiver \<Rightarrow> nat \<Rightarrow> 'e sGooseReceiver" where
  "GooseReceiver_addSubscriber self a = self\<lparr>subscriberList := subscriberList self @ [a]\<rparr>"

definition GooseReceiver_removeSubscriber :: "'e sGooseReceiver \<Rightarrow> nat \<Rightarrow> 'e sGooseReceiver" where
  "GooseReceiver_removeSubscriber self a = self\<lparr>subscriberList := remove1 a (subscriberList self)\<rparr>"

definition GooseReceiver_setInterfaceId :: "'e sGooseReceiver \<Rightarrow> byte list \<Rightarrow> 'e sGooseReceiver" where
  "GooseReceiver_setInterfaceId self i = self\<lparr>interfaceId := Some i\<rparr>"

text \<open>\<open>eth\<close> opens a socket on an interface; \<open>''eth0''\<close> is the configured one.\<close>

definition GooseReceiver_startThreadless :: "(byte list \<Rightarrow> 'e) \<Rightarrow> 'e sGooseReceiver \<Rightarrow> 'e sGooseReceiver" where
  "GooseReceiver_startThreadless eth self =
     self\<lparr>ethSocket := Some (eth (case interfaceId self of None \<Rightarrow> [0x65, 0x74, 0x68, 0x30] | Some i \<Rightarrow> i)), running := True\<rparr>"

definition GooseReceiver_stopThreadless :: "'e sGooseReceiver \<Rightarrow> 'e sGooseReceiver" where
  "GooseReceiver_stopThreadless self = self\<lparr>running := False\<rparr>"

definition parseGooseMessage ::
    "nat \<Rightarrow> nat \<Rightarrow> float_ops \<Rightarrow> u64 \<Rightarrow> subscriber_store \<Rightarrow> 'e sGooseReceiver \<Rightarrow> int \<Rightarrow> goose_result run" where
  "parseGooseMessage N k F now st self numbytes =
     (let buf = rbuffer self in
      if numbytes < 22 then Inr (0, st, None)
      else rbind (rd buf 12) (\<lambda>b0. rbind (rd buf 13) (\<lambda>b1.
        let p = (if b0 = 0x81 \<and> b1 = 0x00 then 16 else 12);
            headerLength = (if b0 = 0x81 \<and> b1 = 0x00 then 18 else 14)
        in rbind (rd buf p) (\<lambda>t0. if t0 \<noteq> 0x88 then Inr (0, st, None)
        else rbind (rd buf (p + 1)) (\<lambda>t1. if t1 \<noteq> 0xb8 then Inr (0, st, None)
        else rbind (rd buf (p + 2)) (\<lambda>a0. rbind (rd buf (p + 3)) (\<lambda>a1. rbind (rd buf (p + 4)) (\<lambda>l0. rbind (rd buf (p + 5)) (\<lambda>l1.
          let msgAppId = uint (ucast a0 * 0x100 + ucast a1 :: u16);
              msgLength = uint (ucast l0 * 0x100 + ucast l1 :: u16);
              apduLength = msgLength - 8
          in if numbytes < msgLength + headerLength then Inr (0, st, None)
             else if \<exists>a \<in> set (subscriberList self). appId (st a) = msgAppId
             then parseGoosePayload N k F now st (subscriberList self) buf (p + 10) apduLength
             else Inr (0, st, None))))))))))"

text \<open>
  A tick: the socket puts a packet into the buffer (\<open>received\<close>, cut off at the size of the buffer) or has none. The result is whether there
  was one.
\<close>

definition GooseReceiver_tick ::
    "nat \<Rightarrow> nat \<Rightarrow> float_ops \<Rightarrow> u64 \<Rightarrow> subscriber_store \<Rightarrow> byte list option \<Rightarrow> 'e sGooseReceiver
     \<Rightarrow> ('e sGooseReceiver \<times> bool \<times> subscriber_store \<times> nat option) run" where
  "GooseReceiver_tick N k F now st received self =
     (case received of
        None \<Rightarrow> Inr (self, False, st, None)
      | Some packet \<Rightarrow>
          let packetSize = min (length packet) ETH_BUFFER_LENGTH
          in if packetSize = 0 then Inr (self, False, st, None)
             else let self = self\<lparr>rbuffer := take packetSize packet @ drop packetSize (rbuffer self)\<rparr>
                  in rbind (parseGooseMessage N k F now st self (int packetSize)) (\<lambda>(_, st', called). Inr (self, True, st', called)))"

end
