(* ===== verification/Goose_Payload.thy ===== *)
theory Goose_Payload
  imports Goose_Subscriber Mms_Data_Correct
begin

text \<open>
  What \<open>parseGoosePayload\<close> does with a well-formed message: the loop over the elements is an instance of \<open>item_loop_from\<close>, its meaning the view
  of the message that \<open>goose_eff\<close> builds.
\<close>

section \<open>The meaning of the elements\<close>

record goose_view =
  g_timeAllowedToLive :: u32
  g_stNum :: u32
  g_sqNum :: u32
  g_confRev :: "u32 option"
  g_simulation :: bool
  g_ndsCom :: bool
  g_subscriber :: "nat option"
  g_time :: "byte list option"
  g_data :: "byte list option"

definition empty_view :: goose_view where
  "empty_view = \<lparr>g_timeAllowedToLive = 0, g_stNum = 0, g_sqNum = 0, g_confRev = None, g_simulation = False, g_ndsCom = False,
     g_subscriber = None, g_time = None, g_data = None\<rparr>"

definition unsigned32 :: "byte list \<Rightarrow> u32" where
  "unsigned32 v = word_of_int (be_from 0 v)"

definition with_reference :: "subscriber_store \<Rightarrow> byte list \<Rightarrow> nat list \<Rightarrow> nat option" where
  "with_reference st v subs = List.find (\<lambda>a. goCBRef (st a) = v) subs"

fun goose_eff :: "subscriber_store \<Rightarrow> nat list \<Rightarrow> goose_view \<Rightarrow> byte \<times> byte list \<Rightarrow> goose_view option" where
  "goose_eff st subs a (t, v) =
     (if t = 0x80 then
        (case with_reference st v subs of
           Some s \<Rightarrow> Some (a\<lparr>g_subscriber := Some s\<rparr>)
         | None \<Rightarrow> if g_subscriber a = None then None else Some a)
      else Some
       (if t = 0x81 then a\<lparr>g_timeAllowedToLive := unsigned32 v\<rparr>
        else if t = 0x84 then a\<lparr>g_time := Some v\<rparr>
        else if t = 0x85 then a\<lparr>g_stNum := unsigned32 v\<rparr>
        else if t = 0x86 then a\<lparr>g_sqNum := unsigned32 v\<rparr>
        else if t = 0x87 then a\<lparr>g_simulation := (hd v \<noteq> 0)\<rparr>
        else if t = 0x88 then a\<lparr>g_confRev := Some (unsigned32 v)\<rparr>
        else if t = 0x89 then a\<lparr>g_ndsCom := (hd v \<noteq> 0)\<rparr>
        else if t = 0xab then a\<lparr>g_data := Some v\<rparr>
        else a))"

text \<open>Booleans have at least one octet; the other conditions are about the subscribers and the place of the message in the frame.\<close>

fun goose_item_ok :: "byte \<times> byte list \<Rightarrow> bool" where
  "goose_item_ok (t, v) \<longleftrightarrow> length v < 65536 \<and> ((t = 0x87 \<or> t = 0x89) \<longrightarrow> v \<noteq> [])"

definition references_ok :: "subscriber_store \<Rightarrow> bool" where
  "references_ok st \<longleftrightarrow> (\<forall>a. goCBRefLen (st a) = int (length (goCBRef (st a))))"

definition located :: "byte list \<Rightarrow> int option \<Rightarrow> byte list option \<Rightarrow> bool" where
  "located buf p v = (case v of None \<Rightarrow> p = None | Some xs \<Rightarrow> (\<exists>q. p = Some q \<and> 0 \<le> q \<and> bytes_at buf q xs))"

definition goose_rel :: "byte list \<Rightarrow> goose_locals \<Rightarrow> goose_view \<Rightarrow> bool" where
  "goose_rel buf l a \<longleftrightarrow> l_timeAllowedToLive l = g_timeAllowedToLive a \<and> l_stNum l = g_stNum a \<and> l_sqNum l = g_sqNum a
     \<and> l_confRev l = g_confRev a \<and> l_simulation l = g_simulation a \<and> l_ndsCom l = g_ndsCom a \<and> matchingSubscriber l = g_subscriber a
     \<and> located buf (timestampBufPos l) (g_time a) \<and> located buf (dataSetBufferAddress l) (g_data a)
     \<and> dataSetBufferLength l = (case g_data a of None \<Rightarrow> 0 | Some v \<Rightarrow> int (length v))"

lemma match_reference_finds:
  "references_ok st \<Longrightarrow> bytes_at buf p v \<Longrightarrow> match_reference st buf p (int (length v)) subs = Inr (with_reference st v subs)"
  by (induction subs) (auto simp: with_reference_def references_ok_def rd_n_bytes_at)

lemma goose_rel_fields:
  assumes "goose_rel buf l a"
  shows "goose_rel buf (l\<lparr>l_timeAllowedToLive := x\<rparr>) (a\<lparr>g_timeAllowedToLive := x\<rparr>)"
    and "goose_rel buf (l\<lparr>l_stNum := x\<rparr>) (a\<lparr>g_stNum := x\<rparr>)"
    and "goose_rel buf (l\<lparr>l_sqNum := x\<rparr>) (a\<lparr>g_sqNum := x\<rparr>)"
    and "goose_rel buf (l\<lparr>l_confRev := y\<rparr>) (a\<lparr>g_confRev := y\<rparr>)"
    and "goose_rel buf (l\<lparr>l_simulation := b\<rparr>) (a\<lparr>g_simulation := b\<rparr>)"
    and "goose_rel buf (l\<lparr>l_ndsCom := b\<rparr>) (a\<lparr>g_ndsCom := b\<rparr>)"
    and "goose_rel buf (l\<lparr>matchingSubscriber := m\<rparr>) (a\<lparr>g_subscriber := m\<rparr>)"
    and "goose_rel buf (l\<lparr>numberOfDatSetEntries := x\<rparr>) a"
    and "0 \<le> q \<Longrightarrow> bytes_at buf q v \<Longrightarrow> goose_rel buf (l\<lparr>timestampBufPos := Some q\<rparr>) (a\<lparr>g_time := Some v\<rparr>)"
    and "0 \<le> q \<Longrightarrow> bytes_at buf q v \<Longrightarrow>
      goose_rel buf (l\<lparr>dataSetBufferAddress := Some q, dataSetBufferLength := int (length v)\<rparr>) (a\<lparr>g_data := Some v\<rparr>)"
  using assms by (simp_all add: goose_rel_def located_def)

lemma boolean_at: "bytes_at buf q v \<Longrightarrow> v \<noteq> [] \<Longrightarrow> BerDecoder_decodeBoolean buf q = Inr (hd v \<noteq> 0)"
  by (cases v) (simp_all add: BerDecoder_decodeBoolean_def)

lemma payload_element_meaning:
  assumes "references_ok st" and "goose_item_ok (t, v)" and at: "bytes_at buf q v" "0 \<le> q" and rel: "goose_rel buf l a"
  shows "case goose_eff st subs a (t, v) of
      Some a' \<Rightarrow> \<exists>l'. payload_element st subs buf t q (int (length v)) l = Inr (Continue l') \<and> goose_rel buf l' a'
    | None \<Rightarrow> payload_element st subs buf t q (int (length v)) l = Inr (Return 0)"
proof -
  note [simp] = match_reference_finds [OF assms(1) at(1)] boolean_at [OF at(1)] decodeUint32_at [OF at(1) refl, folded unsigned32_def]
  note [intro] = goose_rel_fields [OF rel] goose_rel_fields(9,10) [OF rel at(2,1)]
  have m: "matchingSubscriber l = g_subscriber a" using rel by (simp add: goose_rel_def)
  consider "t = 0x80" | "t \<noteq> 0x80" by blast
  then show ?thesis
  proof cases
    case 1
    with m rel show ?thesis by (auto simp: payload_element_def split: option.splits)
  next
    case 2
    with assms(2) rel show ?thesis by (auto simp: payload_element_def)
  qed
qed

text \<open>The length of an element, read through a pointer into the frame.\<close>

lemma element_at:
  assumes "length v < 65536" and at: "bytes_at buf p (tlv t v)" and "p + int (length (tlv t v)) \<le> base + n" and "0 \<le> p"
    and "base \<le> p" and "0 \<le> base" and "base + n < 2 ^ 31"
  shows "decode_length_from base buf l (p + 1) (base + n) = Inr (inside p v, Some (int (length v)))"
    and "i32 (inside p v - base + int (length v)) = inside p v - base + int (length v)"
    and "inside p v - base + int (length v) \<le> n" and "inside p v \<noteq> base - 1" and "0 \<le> inside p v"
    and "advance base (inside p v) (int (length v)) = p + int (length (tlv t v))"
proof -
  note q = inside_gt [of p v] inside_end [of p v t]
  show "decode_length_from base buf l (p + 1) (base + n) = Inr (inside p v, Some (int (length v)))"
    using decodeLength_tlv [OF assms(1-3), of l] q(1) assms(4) by (simp add: decode_length_from_def)
  have d: "0 \<le> inside p v - base + int (length v)" "inside p v - base + int (length v) \<le> n" "n < 2 ^ 31"
    using q assms(3,5,6,7) by linarith+
  then show i: "i32 (inside p v - base + int (length v)) = inside p v - base + int (length v)" by (intro i32_id) simp_all
  show "inside p v - base + int (length v) \<le> n" by (rule d)
  show "inside p v \<noteq> base - 1" "0 \<le> inside p v" using q(1) assms(4,5) by linarith+
  show "advance base (inside p v) (int (length v)) = p + int (length (tlv t v))"
    using i q(2) by (simp add: advance_def)
qed

lemma payload_round_item:
  assumes st: "references_ok st" and i: "goose_item_ok (t, v)" and at: "bytes_at buf p (tlv t v)"
    and e: "p + int (length (tlv t v)) \<le> base + n" "base + n < 2 ^ 31" and p: "base \<le> p" "0 \<le> base" and rel: "goose_rel buf l a"
  shows "case goose_eff st subs a (t, v) of
      Some a' \<Rightarrow> \<exists>l'. payload_round st subs buf base n (p, l) = Inr (Continue (p + int (length (tlv t v)), l')) \<and> goose_rel buf l' a'
    | None \<Rightarrow> payload_round st subs buf base n (p, l) = Inr (Return 0)"
proof -
  have short: "length v < 65536" using i by simp
  have p0: "0 \<le> p" using p by linarith
  note el = element_at [OF short at e(1) p0 p e(2)]
  have at': "bytes_at buf (inside p v) v" "rd buf p = Inr t" using at by (simp_all add: bytes_at_tlv)
  show ?thesis
    using payload_element_meaning [OF st i at'(1) el(5) rel, of subs] el at'(2)
    by (cases "goose_eff st subs a (t, v)") (auto simp: payload_round_def simp del: goose_eff.simps)
qed

lemma tlv_octets_nonempty [simp]: "tlv_octets i \<noteq> []"
  by (cases i) simp

interpretation goose_loop: item_loop_from "payload_round st subs buf base n" buf "base + n" tlv_octets
  "\<lambda>i. goose_item_ok i \<and> references_ok st \<and> 0 \<le> base" "goose_eff st subs" "goose_rel buf" "\<lambda>r. r = 0" base
  for st subs buf base n
proof unfold_locales
  fix i p l a
  assume "goose_item_ok i \<and> references_ok st \<and> 0 \<le> base" "base \<le> p" "bytes_at buf p (tlv_octets i)"
    "p + int (length (tlv_octets i)) \<le> base + n" "base + n < 2 ^ 31" "goose_rel buf l a"
  then show "case goose_eff st subs a i of
         Some a' \<Rightarrow> \<exists>l'. payload_round st subs buf base n (p, l) = Inr (Continue (p + int (length (tlv_octets i)), l')) \<and> goose_rel buf l' a'
       | None \<Rightarrow> \<exists>r. payload_round st subs buf base n (p, l) = Inr (Return r) \<and> r = 0"
    using payload_round_item [of st "fst i" "snd i" buf p base n l a subs]
    by (cases "goose_eff st subs a i"; cases i) (simp_all del: goose_eff.simps goose_item_ok.simps)
qed simp

lemma empty_rel: "goose_rel buf initial_locals empty_view"
  by (simp add: goose_rel_def initial_locals_def empty_view_def located_def)

lemma items_fit: "length its \<le> length (concat (map tlv_octets its))"
proof (induction its)
  case (Cons i its)
  have "0 < length (tlv_octets i)" by simp
  with Cons show ?case unfolding list.map concat.simps length_append list.size by linarith
qed simp

text \<open>A whole message: refused without a subscriber, or handed on with the locals of its view.\<close>

lemma payload_items:
  assumes ok: "list_all goose_item_ok its" "references_ok st" and at: "bytes_at buf base (tlv 0x61 (concat (map tlv_octets its)))"
    and base: "0 \<le> base" "base + n < 2 ^ 31" "n = int (length (tlv 0x61 (concat (map tlv_octets its))))"
    and short: "length (concat (map tlv_octets its)) < 65536" and N: "length (concat (map tlv_octets its)) \<le> N"
  shows "case opt_fold (goose_eff st subs) empty_view its of
      Some a \<Rightarrow> \<exists>l. parseGoosePayload N k F now st subs buf base n = payload_done N k F now st buf l \<and> goose_rel buf l a
    | None \<Rightarrow> parseGoosePayload N k F now st subs buf base n = Inr (0, st, None)"
proof -
  let ?c = "concat (map tlv_octets its)"
  let ?q = "inside base ?c"
  have fits: "base + int (length (tlv 0x61 ?c)) \<le> base + n" using base(3) by simp
  note el = element_at [OF short at fits base(1) order.refl base(1,2)]
  have e: "advance base ?q (int (length ?c)) = base + n" using el(6) base(3) by simp
  have at': "bytes_at buf ?q ?c" "rd buf base = Inr 0x61" using at by (simp_all add: bytes_at_tlv)
  have items: "list_all (\<lambda>i. goose_item_ok i \<and> references_ok st \<and> 0 \<le> base) its"
    using ok base(1) by (simp add: list_all_iff)
  have q: "base \<le> ?q" "base + n = ?q + int (length ?c)" using inside_gt [of base ?c] inside_end [of base ?c "0x61"] base(3) by linarith+
  have "length its \<le> N" using items_fit [of its] N by linarith
  from goose_loop.loop_items [OF items q(1) at'(1) q(2) base(2) empty_rel this, of subs]
  show ?thesis using el(1) e at'(2)
    by (cases "opt_fold (goose_eff st subs) empty_view its") (auto simp: parseGoosePayload_def Let_def)
qed

end
