(* ===== verification/Goose_Data.thy ===== *)
theory Goose_Data
  imports Goose_Payload
begin

text \<open>
  The data of a GOOSE message: \<open>parseAllDataUnknownValue\<close> makes equal values from the octets of the encoder, \<open>parseAllData\<close> makes values of the
  same shape equal to them.
\<close>

section \<open>Values that can be sent\<close>

text \<open>The receiver knows neither MMS strings nor access errors.\<close>

fun goose_value :: "sMmsValue \<Rightarrow> bool" where
  "goose_value (MmsValue t d u) \<longleftrightarrow> t \<noteq> MMS_STRING \<and> t \<noteq> MMS_DATA_ACCESS_ERROR \<and>
     (case u of U_structure cs \<Rightarrow> (\<forall>c \<in> set cs. case c of None \<Rightarrow> False | Some v \<Rightarrow> goose_value v) | _ \<Rightarrow> True)"

definition sendable :: "sMmsValue \<Rightarrow> bool" where
  "sendable v \<longleftrightarrow> encodable v \<and> goose_value v"

lemma all_encodable_iff: "all_encodable cs \<longleftrightarrow> (\<forall>c \<in> set cs. \<exists>v. c = Some v \<and> encodable v \<and> mtype v \<noteq> MMS_STRING)"
  by (induction cs) (auto split: option.splits)

lemma sendable_components: "sendable (MmsValue t d (U_structure cs)) \<Longrightarrow> \<exists>vs. cs = map Some vs \<and> list_all sendable vs"
proof -
  assume s: "sendable (MmsValue t d (U_structure cs))"
  then have "is_complex t" by (auto simp: sendable_def leaf_encodable_def dest: leaf_not_structure split: if_splits)
  with s have e: "all_encodable cs" and g: "\<forall>c \<in> set cs. case c of None \<Rightarrow> False | Some v \<Rightarrow> goose_value v"
    by (auto simp: sendable_def)
  have "\<forall>c \<in> set cs. \<exists>v. c = Some v \<and> sendable v"
    using e g unfolding all_encodable_iff sendable_def by (fastforce split: option.splits)
  then show ?thesis
  proof (induction cs)
    case (Cons c cs)
    then obtain v vs where "c = Some v" "sendable v" "cs = map Some vs" "list_all sendable vs" by auto
    then show ?case by (intro exI [of _ "v # vs"]) simp
  qed simp
qed

lemma sendable_type: "sendable v \<Longrightarrow> mtype v \<noteq> MMS_STRING \<and> mtype v \<noteq> MMS_DATA_ACCESS_ERROR"
  by (cases v) (simp add: sendable_def)

lemma sendable_tag:
  assumes "sendable v"
  shows "data_tag (mtype v) \<in> element_tags" and "data_tag (mtype v) \<noteq> 0x80"
    and "data_tag (mtype v) = 0xa1 \<longleftrightarrow> mtype v = MMS_ARRAY" and "data_tag (mtype v) = 0xa2 \<longleftrightarrow> mtype v = MMS_STRUCTURE"
proof -
  show "data_tag (mtype v) \<in> element_tags" using assms encodable_tag sendable_type by (auto simp: sendable_def)
  show "data_tag (mtype v) \<noteq> 0x80" using sendable_type [OF assms] by (cases "mtype v") auto
  show "data_tag (mtype v) = 0xa1 \<longleftrightarrow> mtype v = MMS_ARRAY" "data_tag (mtype v) = 0xa2 \<longleftrightarrow> mtype v = MMS_STRUCTURE"
    by (cases "mtype v"; simp)+
qed

text \<open>An encoded value is an element.\<close>

lemma data_octets_tlv: "data_octets v = tlv (data_tag (mtype v)) (content_of v)"
  by (simp add: data_octets_split tlv_def)

lemma all_octets_values: "all_octets (map Some vs) = concat (map data_octets vs)"
  by (induction vs) simp_all

lemma sendable_element:
  assumes v: "sendable v" and at: "bytes_at buf p (data_octets v)" and e: "p + int (length (data_octets v)) \<le> base + n"
    and p: "0 \<le> p" "base \<le> p" "0 \<le> base" "base + n < 2 ^ 31"
  shows "rd buf p = Inr (data_tag (mtype v))" and "bytes_at buf (inside p (content_of v)) (content_of v)"
    and "decode_length_from base buf l (p + 1) (base + n) = Inr (inside p (content_of v), Some (int (length (content_of v))))"
    and "i32 (inside p (content_of v) - base + int (length (content_of v))) \<le> n" and "0 \<le> inside p (content_of v)"
    and "advance base (inside p (content_of v)) (int (length (content_of v))) = p + int (length (data_octets v))"
    and "inside p (content_of v) + int (length (content_of v)) \<le> base + n"
proof -
  have short: "length (content_of v) < 65536" using v encodable_content by (simp add: sendable_def)
  note el = element_at [OF short at [unfolded data_octets_tlv] e [unfolded data_octets_tlv] p]
  show "rd buf p = Inr (data_tag (mtype v))" "bytes_at buf (inside p (content_of v)) (content_of v)"
    using at by (simp_all add: data_octets_tlv bytes_at_tlv)
  show "decode_length_from base buf l (p + 1) (base + n) = Inr (inside p (content_of v), Some (int (length (content_of v))))"
    by (rule el(1))
  show "i32 (inside p (content_of v) - base + int (length (content_of v))) \<le> n" using el(2,3) by simp
  show "0 \<le> inside p (content_of v)" by (rule el(5))
  show "advance base (inside p (content_of v)) (int (length (content_of v))) = p + int (length (data_octets v))"
    using el(6) by (simp add: data_octets_tlv)
  show "inside p (content_of v) + int (length (content_of v)) \<le> base + n"
    using inside_end [of p "content_of v" "data_tag (mtype v)"] e by (simp add: data_octets_tlv)
qed


section \<open>New values\<close>

interpretation count_loop: item_loop_from "count_round buf base n" buf "base + n" data_octets
  "\<lambda>v. sendable v \<and> 0 \<le> base" "\<lambda>a v. Some (a + 1)" "\<lambda>s a. snd s = a" "\<lambda>_. False" base
  for buf base n
proof unfold_locales
  fix v p a and s :: "int \<times> int"
  assume v: "sendable v \<and> 0 \<le> base" and a: "base \<le> p" "bytes_at buf p (data_octets v)" "p + int (length (data_octets v)) \<le> base + n"
    "base + n < 2 ^ 31" "snd s = a"
  obtain l where s: "s = (l, a)" using a(5) by (cases s) simp
  have p: "0 \<le> p" using v a(1) by linarith
  note el = sendable_element [OF conjunct1 [OF v] a(2,3) p a(1) conjunct2 [OF v] a(4)]
  show "case Some (a + 1) of
      Some a' \<Rightarrow> \<exists>s'. count_round buf base n (p, s) = Inr (Continue (p + int (length (data_octets v)), s')) \<and> snd s' = a'
    | None \<Rightarrow> \<exists>r. count_round buf base n (p, s) = Inr (Return r) \<and> False"
    using el sendable_tag(1) [OF conjunct1 [OF v]] by (simp add: count_round_def s)
qed (simp add: data_octets_tlv)

definition makes_value :: "sMmsValue \<Rightarrow> sMmsValue \<Rightarrow> bool" where
  "makes_value v' v \<longleftrightarrow> value_typed v' \<and> MmsValue_equals v' v = Inr True"

definition makes_values :: "(int \<Rightarrow> int \<Rightarrow> bool \<Rightarrow> (sMmsValue option \<times> bool) run) \<Rightarrow> byte list \<Rightarrow> bool \<Rightarrow> sMmsValue list \<Rightarrow> bool" where
  "makes_values f buf isStructure vs \<longleftrightarrow>
     (\<forall>q. bytes_at buf q (concat (map data_octets vs)) \<longrightarrow> 0 \<le> q \<longrightarrow> q + int (length (concat (map data_octets vs))) < 2 ^ 31 \<longrightarrow>
       (\<exists>vs'. f q (int (length (concat (map data_octets vs)))) isStructure
             = Inr (Some (MmsValue (if isStructure then MMS_STRUCTURE else MMS_ARRAY) 0 (U_structure (map Some vs'))), True)
          \<and> list_all2 makes_value vs' vs))"

text \<open>An item: a value that can be sent, whose components the nested call can make.\<close>

definition new_item_ok :: "(int \<Rightarrow> int \<Rightarrow> bool \<Rightarrow> (sMmsValue option \<times> bool) run) \<Rightarrow> byte list \<Rightarrow> sMmsValue \<Rightarrow> bool" where
  "new_item_ok f buf v \<longleftrightarrow> sendable v \<and>
     (\<forall>vs. mvalue v = U_structure (map Some vs) \<longrightarrow> makes_values f buf (mtype v = MMS_STRUCTURE) vs)"

text \<open>The values made so far stand at the front; the rest is empty.\<close>

definition new_rel :: "MmsType \<Rightarrow> nat \<Rightarrow> int \<times> int \<times> sMmsValue \<times> bool \<Rightarrow> sMmsValue list \<Rightarrow> bool" where
  "new_rel t m s vs \<longleftrightarrow> (case s of (l, i, values, _) \<Rightarrow> i = int (length vs) \<and>
     (\<exists>vs'. values = MmsValue t 0 (U_structure (map Some (take m vs') @ replicate (m - length vs') None)) \<and> list_all2 makes_value vs' vs))"

lemma set_next_element:
  assumes "is_complex t"
  shows "MmsValue_setElement (MmsValue t 0 (U_structure (map Some (take m vs) @ replicate (m - length vs) None))) (int (length vs)) (Some v)
    = Inr (MmsValue t 0 (U_structure (map Some (take m (vs @ [v])) @ replicate (m - length (vs @ [v])) None)))"
proof (cases "length vs < m")
  case True
  then obtain j where m: "m = Suc (length vs + j)" using less_imp_Suc_add by blast
  show ?thesis using assms by (auto simp: MmsValue_setElement_def structure_of_def m list_update_append)
next
  case False
  then show ?thesis using assms by (auto simp: MmsValue_setElement_def structure_of_def)
qed

lemma makes_list_equal: "list_all2 makes_value vs' vs \<Longrightarrow> equal_components (map Some vs') (map Some vs) = Inr True \<and> length vs' = length vs \<and> list_all value_typed vs'"
  by (induction rule: list_all2_induct) (auto simp: makes_value_def)

lemma makes_structure:
  "is_complex t \<Longrightarrow> list_all2 makes_value vs' vs \<Longrightarrow>
   makes_value (MmsValue t 0 (U_structure (map Some vs'))) (MmsValue t d (U_structure (map Some vs)))"
  using makes_list_equal [of vs' vs] by (simp add: makes_value_def structure_of_def list_all_iff)

lemma new_value_item:
  assumes v: "new_item_ok f buf v" and p: "base \<le> p" "0 \<le> base" and at: "bytes_at buf p (data_octets v)"
    and e: "p + int (length (data_octets v)) \<le> base + n" "base + n < 2 ^ 31" and rel: "new_rel t m s vs" and t: "is_complex t"
  shows "\<exists>s'. new_value_round f buf base n (p, s) = Inr (Continue (p + int (length (data_octets v)), s')) \<and> new_rel t m s' (vs @ [v])"
proof -
  have sv: "sendable v" using v by (simp add: new_item_ok_def)
  have p0: "0 \<le> p" using p by linarith
  note el = sendable_element [OF sv at e(1) p0 p e(2)]
  note tag = sendable_tag [OF sv]
  let ?q = "inside p (content_of v)" and ?k = "int (length (content_of v))"
  obtain l vs' b where s: "s = (l, int (length vs), MmsValue t 0 (U_structure (map Some (take m vs') @ replicate (m - length vs') None)), b)"
    and eq: "list_all2 makes_value vs' vs" using rel by (auto simp: new_rel_def)
  have len: "length vs' = length vs" using eq by (rule list_all2_lengthD)
  have "\<exists>v'. (if is_complex (mtype v) then f ?q ?k (data_tag (mtype v) = 0xa2) = Inr (Some v', True)
        else decode_leaf (data_tag (mtype v)) buf ?q ?k = Inr (Some v')) \<and> makes_value v' v"
  proof (cases "\<exists>cs. mvalue v = U_structure cs")
    case True
    then obtain d cs where vd: "v = MmsValue (mtype v) d (U_structure cs)" by (cases v) auto
    obtain ws where ws: "cs = map Some ws" using sendable_components sv vd by metis
    have c: "is_complex (mtype v)" using sv vd by (cases v) (auto simp: sendable_def leaf_encodable_def dest: leaf_not_structure split: if_splits)
    have cont: "content_of v = concat (map data_octets ws)" using vd ws by (cases v) (auto simp: content_of_def all_octets_values)
    have "makes_values f buf (mtype v = MMS_STRUCTURE) ws" using v vd ws by (cases v) (auto simp: new_item_ok_def)
    then obtain ws' where "f ?q ?k (mtype v = MMS_STRUCTURE)
        = Inr (Some (MmsValue (if mtype v = MMS_STRUCTURE then MMS_STRUCTURE else MMS_ARRAY) 0 (U_structure (map Some ws'))), True)"
        "list_all2 makes_value ws' ws"
      using el(2,5,7) e(2) cont unfolding makes_values_def by force
    moreover have "(if mtype v = MMS_STRUCTURE then MMS_STRUCTURE else MMS_ARRAY) = mtype v" using c by auto
    ultimately show ?thesis using c tag(4) makes_structure [OF c, of ws' ws d] vd ws by auto
  next
    case False
    then obtain d u where vd: "v = MmsValue (mtype v) d u" "\<And>cs. u \<noteq> U_structure cs" by (cases v) auto
    then have c: "\<not> is_complex (mtype v)" "leaf_encodable (mtype v) u"
      using sv by (cases v; auto simp: sendable_def split: if_splits uMmsValue.splits)+
    have cont: "content_of v = leaf_content u" using vd by (cases v; cases u) (auto simp: content_of_def)
    from leaf_decodes [OF c(2), of buf ?q] el(2,5) cont obtain u' where
      "decode_leaf (data_tag (mtype v)) buf ?q ?k = Inr (Some (MmsValue (mtype v) 0 u'))" "leaf_ok (mtype v) u'" "equal_member (mtype v) u' u = Inr True"
      by (auto simp: decodes_to_def)
    moreover have "makes_value (MmsValue (mtype v) 0 u') (MmsValue (mtype v) d u)" using calculation c by (simp add: makes_value_def)
    ultimately show ?thesis using c vd(1) by auto
  qed
  then obtain v' where v': "if is_complex (mtype v) then f ?q ?k (data_tag (mtype v) = 0xa2) = Inr (Some v', True)
        else decode_leaf (data_tag (mtype v)) buf ?q ?k = Inr (Some v')" "makes_value v' v" by blast
  let ?made = "MmsValue t 0 (U_structure (map Some (take m (vs' @ [v'])) @ replicate (m - length (vs' @ [v'])) None))"
  have "new_value_round f buf base n (p, s) = Inr (Continue (p + int (length (data_octets v)), ?k, int (length vs) + 1, ?made, b \<or> is_complex (mtype v)))"
    using el(1,3,4,6) tag v'(1) set_next_element [OF t, of m vs' v'] len
    by (auto simp: new_value_round_def s split: if_splits)
  moreover have "new_rel t m (?k, int (length vs) + 1, ?made, b \<or> is_complex (mtype v)) (vs @ [v])"
    unfolding new_rel_def using eq v'(2) by (auto intro!: exI [of _ "vs' @ [v']"] list_all2_appendI)
  ultimately show ?thesis by blast
qed

interpretation new_loop: item_loop_from "new_value_round f buf base n" buf "base + n" data_octets
  "\<lambda>v. new_item_ok f buf v \<and> 0 \<le> base \<and> is_complex t" "\<lambda>a v. Some (a @ [v])" "new_rel t m" "\<lambda>_. False" base
  for f buf base n t m
proof unfold_locales
  fix v p a s
  assume "new_item_ok f buf v \<and> 0 \<le> base \<and> is_complex t" "base \<le> p" "bytes_at buf p (data_octets v)"
    "p + int (length (data_octets v)) \<le> base + n" "base + n < 2 ^ 31" "new_rel t m s a"
  then show "case Some (a @ [v]) of
      Some a' \<Rightarrow> \<exists>s'. new_value_round f buf base n (p, s) = Inr (Continue (p + int (length (data_octets v)), s')) \<and> new_rel t m s' a'
    | None \<Rightarrow> \<exists>r. new_value_round f buf base n (p, s) = Inr (Return r) \<and> False"
    using new_value_item [of f buf v base p n t m s a] by simp
qed (simp add: data_octets_tlv)

lemma count_fold: "opt_fold (\<lambda>a v. Some (a + 1)) a vs = Some (a + int (length vs))"
  by (induction vs arbitrary: a) simp_all

lemma collect_fold: "opt_fold (\<lambda>a v. Some (a @ [v])) a vs = Some (a @ vs)"
  by (induction vs arbitrary: a) simp_all

lemma values_fit: "length vs \<le> length (concat (map data_octets vs))"
proof (induction vs)
  case (Cons v vs)
  have "0 < length (data_octets v)" by (rule octets_positive)
  with Cons show ?case unfolding list.map concat.simps length_append list.size by linarith
qed simp

lemma value_octets_in: "v \<in> set vs \<Longrightarrow> length (data_octets v) \<le> length (concat (map data_octets vs))"
  by (induction vs) auto

lemma component_octets:
  "mvalue v = U_structure (map Some ws) \<Longrightarrow> length (concat (map data_octets ws)) < length (data_octets v)"
proof -
  assume "mvalue v = U_structure (map Some ws)"
  then have "content_of v = concat (map data_octets ws)" by (simp add: content_of_def all_octets_values)
  then show ?thesis by (simp add: data_octets_split)
qed

lemma all_sendable_components: "sendable v \<Longrightarrow> mvalue v = U_structure (map Some ws) \<Longrightarrow> list_all sendable ws"
proof -
  assume v: "sendable v" "mvalue v = U_structure (map Some ws)"
  obtain t d where "v = MmsValue t d (U_structure (map Some ws))" using v(2) by (cases v) simp
  with sendable_components [of t d "map Some ws"] v(1) show ?thesis by (auto simp: inj_map_eq_map)
qed

lemma unknown_values_made:
  "list_all sendable vs \<Longrightarrow> length (concat (map data_octets vs)) < k \<Longrightarrow> length (concat (map data_octets vs)) \<le> N \<Longrightarrow>
   makes_values (parseAllDataUnknownValue k N buf) buf isStructure vs"
proof (induction k arbitrary: vs isStructure)
  case 0
  then show ?case by simp
next
  case (Suc k)
  let ?c = "concat (map data_octets vs)" and ?t = "if isStructure then MMS_STRUCTURE else MMS_ARRAY"
  let ?f = "parseAllDataUnknownValue k N buf"
  have nested: "new_item_ok ?f buf v" if "v \<in> set vs" for v
  proof -
    have v: "sendable v" using Suc.prems(1) that by (simp add: list_all_iff)
    have "makes_values ?f buf (mtype v = MMS_STRUCTURE) ws" if "mvalue v = U_structure (map Some ws)" for ws
    proof (rule Suc.IH [OF all_sendable_components [OF v that]])
      show "length (concat (map data_octets ws)) < k" "length (concat (map data_octets ws)) \<le> N"
        using component_octets [OF that] value_octets_in [OF \<open>v \<in> set vs\<close>] Suc.prems(2,3) by linarith+
    qed
    with v show ?thesis by (simp add: new_item_ok_def)
  qed
  show ?case
    unfolding makes_values_def
  proof (intro allI impI)
    fix q
    assume at: "bytes_at buf q ?c" and q: "0 \<le> q" "q + int (length ?c) < 2 ^ 31"
    let ?e = "q + int (length ?c)"
    have ok: "list_all (\<lambda>v. sendable v \<and> 0 \<le> q) vs" using Suc.prems(1) q(1) by (simp add: list_all_iff)
    have n: "length vs \<le> N" using values_fit [of vs] Suc.prems(3) by linarith
    obtain l where count: "c_while N (\<lambda>(p, _). p < ?e) (count_round buf q (int (length ?c))) (q, 0, 0)
        = Inr (Continue (?e, l, int (length vs)))"
      using count_loop.loop_items [OF ok order.refl at refl q(2), of "(0, 0)" 0, OF _ n] by (auto simp: count_fold)
    have ok': "list_all (\<lambda>v. new_item_ok ?f buf v \<and> 0 \<le> q \<and> is_complex ?t) vs" using nested q(1) by (simp add: list_all_iff)
    have start: "new_rel ?t (length vs) (l, 0, MmsValue ?t 0 (U_structure (replicate (length vs) None)), False) []"
      by (simp add: new_rel_def)
    obtain s' where made: "c_while N (\<lambda>(p, _). p < ?e) (new_value_round ?f buf q (int (length ?c)))
        (q, l, 0, MmsValue ?t 0 (U_structure (replicate (length vs) None)), False) = Inr (Continue (?e, s'))" and s': "new_rel ?t (length vs) s' vs"
      using new_loop.loop_items [OF ok' order.refl at refl q(2) start n] by (auto simp: collect_fold)
    from s' obtain l' vs' b where v': "s' = (l', int (length vs), MmsValue ?t 0 (U_structure (map Some (take (length vs) vs') @ replicate (length vs - length vs') None)), b)"
      "list_all2 makes_value vs' vs" by (auto simp: new_rel_def)
    have "length vs' = length vs" using v'(2) by (rule list_all2_lengthD)
    then have "s' = (l', int (length vs), MmsValue ?t 0 (U_structure (map Some vs')), b)" using v'(1) by simp
    then show "\<exists>vs'. parseAllDataUnknownValue (Suc k) N buf q (int (length ?c)) isStructure
        = Inr (Some (MmsValue ?t 0 (U_structure (map Some vs'))), True) \<and> list_all2 makes_value vs' vs"
      using count made v'(2) by (auto simp: MmsValue_createEmptyStructure_def MmsValue_createEmptyArray_def)
  qed
qed



section \<open>Existing values\<close>

text \<open>
  The value of the subscriber has the shape of the value that is sent: the same type, bit strings and times of the same size, and room
  for the octets of integers and octet strings.
\<close>

definition leaf_fits :: "MmsType \<Rightarrow> uMmsValue \<Rightarrow> uMmsValue \<Rightarrow> bool" where
  "leaf_fits t u w \<longleftrightarrow> leaf_ok t u \<and>
     (case (u, w) of
        (U_bitString n b, U_bitString n' b') \<Rightarrow> n = n'
      | (U_integer v, U_integer v') \<Rightarrow> psize v' \<le> pmaxSize v
      | (U_octetString n mx b, U_octetString n' mx' b') \<Rightarrow> unat n' \<le> unat mx
      | (U_floatingPoint e f b, U_floatingPoint e' f' b') \<Rightarrow> f = f'
      | (U_binaryTime n b, U_binaryTime n' b') \<Rightarrow> n = n'
      | _ \<Rightarrow> True)"

fun fits :: "sMmsValue \<Rightarrow> sMmsValue \<Rightarrow> bool" where
  "fits (MmsValue t d u) v \<longleftrightarrow> t = mtype v \<and>
     (if is_complex t then
        (case (u, mvalue v) of
           (U_structure ws, U_structure vs) \<Rightarrow> list_all2 (\<lambda>w v. case (w, v) of (Some w, Some v) \<Rightarrow> fits w v | _ \<Rightarrow> False) ws vs
         | _ \<Rightarrow> False)
      else leaf_fits t u (mvalue v))"

definition sets_to :: "float_ops \<Rightarrow> byte list \<Rightarrow> int \<Rightarrow> MmsType \<Rightarrow> byte \<Rightarrow> uMmsValue \<Rightarrow> uMmsValue \<Rightarrow> bool" where
  "sets_to F buf p t d u w \<longleftrightarrow> (\<exists>u'. set_element F (data_tag t) buf p (int (length (leaf_content w))) (MmsValue t d u) = Inr (MmsValue t d u')
     \<and> leaf_ok t u' \<and> equal_member t u' w = Inr True)"

lemma integer_set:
  assumes v: "value_ok i" "value_ok j" "psize j \<le> pmaxSize i" and at: "bytes_at buf p (value_octets j)" "0 \<le> p"
  shows "\<exists>i'. set_octets i buf p (psize j) (MmsValue t d (U_integer i)) = Inr (MmsValue t d (U_integer i')) \<and> value_ok i'
    \<and> Asn1PrimitivaValue_compare i' j = Inr True"
proof -
  have l: "psize j = int (length (value_octets j))" using psize_value_octets [OF v(2)] by simp
  have "length (value_octets j) \<le> length (octets i)" using v(1,3) l by (simp add: value_ok_def)
  from memcpy_from_at [OF at this] have m: "memcpy_from (octets i) buf p (psize j) = Inr (value_octets j @ drop (length (value_octets j)) (octets i))"
    by (simp add: l)
  let ?i = "i\<lparr>octets := value_octets j @ drop (length (value_octets j)) (octets i), psize := psize j\<rparr>"
  have ok: "value_ok ?i" using v l \<open>length (value_octets j) \<le> length (octets i)\<close> by (simp add: value_ok_def)
  have "value_octets ?i = value_octets j" using l by (simp add: value_octets_def)
  then have "Asn1PrimitivaValue_compare ?i j = Inr True"
    using rd_n_value [OF ok] rd_n_value [OF v(2)] by (simp add: Asn1PrimitivaValue_compare_def)
  with m v(3) ok show ?thesis by (auto simp: set_octets_def)
qed

lemma leaf_sets:
  assumes w: "leaf_encodable t w" and fit: "leaf_fits t u w" and at: "bytes_at buf p (leaf_content w)" "0 \<le> p"
    and t: "t \<noteq> MMS_STRING" "t \<noteq> MMS_DATA_ACCESS_ERROR"
  shows "sets_to F buf p t d u w"
proof -
  have ok: "leaf_ok t w" "leaf_ok t u" using w fit by (simp_all add: leaf_encodable_def leaf_fits_def)
  show ?thesis
  proof (cases t)
    case MMS_BOOLEAN
    with ok obtain b b' where b: "w = U_boolean b" "u = U_boolean b'" by (auto simp: leaf_ok_def)
    with at have "BerDecoder_decodeBoolean buf p = Inr b" by (cases b) (simp_all add: BerDecoder_decodeBoolean_def)
    with b MMS_BOOLEAN show ?thesis
      by (simp add: sets_to_def set_element_def MmsValue_setBoolean_def boolean_of_def leaf_ok_def equal_member_def)
  next
    case MMS_BIT_STRING
    with w fit obtain n b b' where b: "w = U_bitString n b" "u = U_bitString n b'" "0 < n" "int (length b) = bitStringByteSize n"
      "int (length b') = bitStringByteSize n"
      by (auto simp: leaf_encodable_def leaf_fits_def leaf_ok_def)
    have len: "length b' = length b" using b(4,5) by simp
    have at': "bytes_at buf p (of_nat (unused_bits n) # b)" using at(1) b(1) by simp
    then have at2: "rd buf p = Inr (of_nat (unused_bits n))" "bytes_at buf (p + 1) b" by simp_all
    have s: "bit_byteSize (nat n) = length b" using bit_byteSize_eq [of n] b(3,4) by simp
    have un: "unused_bits n < 8" "unused_bits n = length b * 8 - nat n" "nat n \<le> length b * 8"
      using s bit_byteSize_bounds [of "nat n"] by (simp_all add: unused_bits_def)
    have pad: "uint (of_nat (unused_bits n) :: byte) = int (unused_bits n)" using un(1) by (simp add: unsigned_of_nat take_bit_nat_eq_self)
    have n: "8 * int (length b) - int (unused_bits n) = n" using un(2,3) b(3) by linarith
    have mem: "memcpy_from b' buf (p + 1) (int (length b)) = Inr b"
      using memcpy_from_at [OF at2(2), of b'] at(2) len by simp
    have "set_element F 0x84 buf p (int (length b) + 1) (MmsValue MMS_BIT_STRING d (U_bitString n b')) = Inr (MmsValue MMS_BIT_STRING d (U_bitString n b))"
      by (simp add: set_element_def at2(1) bits_of_def pad n mem)
    moreover have "nat (bitStringByteSize n) = length b" using b(4) by simp
    ultimately show ?thesis using b(1-4) MMS_BIT_STRING
      by (simp add: sets_to_def bits_of_def leaf_ok_def equal_member_def same_octets_refl add.commute)
  next
    case MMS_INTEGER
    with w fit obtain i j where b: "w = U_integer j" "u = U_integer i" "value_ok j" "value_ok i" "psize j \<le> pmaxSize i"
      by (auto simp: leaf_encodable_def leaf_fits_def leaf_ok_def)
    from integer_set [OF b(4,3,5) _ at(2), of buf t d] at(1) b psize_value_octets [OF b(3)] MMS_INTEGER show ?thesis
      by (auto simp: sets_to_def set_element_def integer_of_def leaf_ok_def equal_member_def)
  next
    case MMS_UNSIGNED
    with w fit obtain i j where b: "w = U_integer j" "u = U_integer i" "value_ok j" "value_ok i" "psize j \<le> pmaxSize i"
      by (auto simp: leaf_encodable_def leaf_fits_def leaf_ok_def)
    from integer_set [OF b(4,3,5) _ at(2), of buf t d] at(1) b psize_value_octets [OF b(3)] MMS_UNSIGNED show ?thesis
      by (auto simp: sets_to_def set_element_def integer_of_def leaf_ok_def equal_member_def)
  next
    case MMS_OCTET_STRING
    with w fit obtain n mx b n' mx' b' where b: "w = U_octetString n mx b" "unat n \<le> length b" "u = U_octetString n' mx' b'"
      "length b' = unat mx'" "unat n \<le> unat mx'"
      by (auto simp: leaf_encodable_def leaf_fits_def leaf_ok_def)
    have l: "length (leaf_content w) = unat n" using b by simp
    have "length (leaf_content w) \<le> length b'" using l b(4,5) by simp
    from memcpy_from_at [OF at this] b l have "memcpy_from b' buf p (int (unat n)) = Inr (take (unat n) b @ drop (unat n) b')" by simp
    moreover have "int (unat n) \<le> uint mx'" using b(5) by (metis uint_nat of_nat_le_iff)
    moreover have "(word_of_int (int (unat n)) :: u16) = n" by simp
    moreover have "same_octets (take (unat n) b @ drop (unat n) b') b (unat n) = Inr True"
      using b(2) by (rule same_octets_front)
    ultimately show ?thesis using b l MMS_OCTET_STRING
      by (simp add: sets_to_def set_element_def leaf_ok_def equal_member_def octets_of_def)
  next
    case MMS_BINARY_TIME
    with w fit obtain n b b' where b: "w = U_binaryTime n b" "n = 4 \<or> n = 6" "length b = 6" "u = U_binaryTime n b'" "length b' = 6"
      by (auto simp: leaf_encodable_def leaf_fits_def leaf_ok_def)
    have l: "length (leaf_content w) \<le> length b'" using b by auto
    from memcpy_from_at [OF at l] b
    have "memcpy_from b' buf p (uint n) = Inr (take (unat n) b @ drop (unat n) b')" by auto
    with b MMS_BINARY_TIME show ?thesis
      by (auto simp: sets_to_def set_element_def leaf_ok_def equal_member_def binary_of_def same_octets_front same_octets_refl)
  next
    case MMS_UTC_TIME
    with w fit obtain b b' where b: "w = U_utcTime b" "length b = 8" "u = U_utcTime b'" "length b' = 8"
      by (auto simp: leaf_encodable_def leaf_fits_def leaf_ok_def)
    from at b(1) have tk: "take 8 (drop (nat p) buf) = b" using bytes_at_eq_take_drop [of buf p b] b(2) by simp
    then have "8 \<le> length (drop (nat p) buf)" by (metis b(2) length_take min.cobounded1)
    with tk at(2) b MMS_UTC_TIME show ?thesis
      by (simp add: sets_to_def set_element_def leaf_ok_def equal_member_def utc_of_def MmsValue_setUtcTimeByBuffer_def set_utc_def
        memcpy_front same_octets_refl)
  next
    case MMS_FLOAT
    with w fit obtain e f b e' b' where b: "w = U_floatingPoint e f b" "f = 32 \<and> length b = 4 \<and> length b' = 4 \<or> f = 64 \<and> length b = 8 \<and> length b' = 8"
      "u = U_floatingPoint e' f b'"
      by (auto simp: leaf_encodable_def leaf_fits_def leaf_ok_def)
    from at b(1) have at': "bytes_at buf (p + 1) (rev b)" by simp
    have l: "length (leaf_content w) = Suc (length b)" using b(1) by simp
    from b(2) show ?thesis
    proof
      assume f: "f = 32 \<and> length b = 4 \<and> length b' = 4"
      have "BerDecoder_decodeFloat buf p = Inr (word_of_int (be_from 0 (rev b)))"
        using rd_n_at [OF at'] f foldl_or_word [of 0 "rev b", where 'a = 32] by (simp add: BerDecoder_decodeFloat_def)
      moreover have "le_octets 4 (word_of_int (be_from 0 (rev b)) :: u32) = b" using octets_of_word [of b, where 'a = 32] f by simp
      ultimately show ?thesis using b(1,3) f l MMS_FLOAT
        by (simp add: sets_to_def set_element_def leaf_ok_def equal_member_def float_of_def MmsValue_setFloat_def store_word_def memcpy_front
            same_octets_refl)
    next
      assume f: "f = 64 \<and> length b = 8 \<and> length b' = 8"
      have "BerDecoder_decodeDouble buf p = Inr (word_of_int (be_from 0 (rev b)))"
        using rd_n_at [OF at'] f foldl_or_word [of 0 "rev b", where 'a = 64] by (simp add: BerDecoder_decodeDouble_def)
      moreover have "le_octets 8 (word_of_int (be_from 0 (rev b)) :: u64) = b" using octets_of_word [of b, where 'a = 64] f by simp
      ultimately show ?thesis using b(1,3) f l MMS_FLOAT
        by (simp add: sets_to_def set_element_def leaf_ok_def equal_member_def float_of_def MmsValue_setDouble_def store_word_def memcpy_front
            same_octets_refl)
    qed
  next
    case MMS_VISIBLE_STRING
    with w ok obtain s n s' n' where b: "w = U_visibleString (Some (s, n + 1)) n" "int (length s) \<le> n" "n < 32768" "0 \<notin> set s"
      "u = U_visibleString (Some (s', n' + 1)) n'" "int (length s') \<le> n'" "n' < 32768"
      by (auto simp: leaf_encodable_def leaf_ok_def)
    have at': "bytes_at buf p s" using at(1) b(1) by simp
    have tw: "takeWhile (\<lambda>x. x \<noteq> 0) s = s" using b(4) by (simp add: takeWhile_eq_all_conv) blast
    show ?thesis
    proof (cases "int (length s) \<le> n'")
      case True
      have "length s \<le> length (replicate (nat (n' + 1)) (0 :: byte))" using True by simp
      from memcpy_from_at [OF at' at(2) this] True b MMS_VISIBLE_STRING show ?thesis
        by (simp add: tw sets_to_def set_element_def set_string_octets_def string_member_def leaf_ok_def equal_member_def)
    next
      case False
      have "length s \<le> length (replicate (length s + 1) (0 :: byte))" by simp
      moreover have "drop (length s) (0 # replicate (length s) 0) = [0 :: byte]"
        using drop_replicate [of "length s" "Suc (length s)" "0 :: byte"] by simp
      moreover have "takeWhile (\<lambda>x. x \<noteq> 0) (s @ [0]) = s" by (subst takeWhile_append2) (use b(4) in auto)
      moreover note memcpy_from_at [OF at' at(2), of "replicate (length s + 1) 0"]
      ultimately show ?thesis using False b MMS_VISIBLE_STRING
        by (simp add: sets_to_def set_element_def set_string_octets_def string_member_def leaf_ok_def equal_member_def
            createNewStringFromBufferElement_def)
    qed
  qed (use ok t in \<open>auto simp: leaf_ok_def\<close>)
qed

text \<open>A nested call makes the components of the value it is given equal to those of the message.\<close>

definition updates_values :: "(int \<Rightarrow> int \<Rightarrow> sMmsValue \<Rightarrow> (int \<times> sMmsValue) run) \<Rightarrow> byte list \<Rightarrow> sMmsValue list \<Rightarrow> bool" where
  "updates_values f buf vs \<longleftrightarrow>
     (\<forall>q t d ws. bytes_at buf q (concat (map data_octets vs)) \<longrightarrow> 0 \<le> q \<longrightarrow> q + int (length (concat (map data_octets vs))) < 2 ^ 31 \<longrightarrow>
       is_complex t \<longrightarrow> list_all2 fits ws vs \<longrightarrow>
       (\<exists>ws'. f q (int (length (concat (map data_octets vs)))) (MmsValue t d (U_structure (map Some ws)))
             = Inr (1, MmsValue t d (U_structure (map Some ws'))) \<and> list_all2 makes_value ws' vs))"

lemma updates_valuesD:
  "updates_values f buf vs \<Longrightarrow> bytes_at buf q (concat (map data_octets vs)) \<Longrightarrow> 0 \<le> q \<Longrightarrow>
   q + int (length (concat (map data_octets vs))) < 2 ^ 31 \<Longrightarrow> is_complex t \<Longrightarrow> list_all2 fits ws vs \<Longrightarrow>
   \<exists>ws'. f q (int (length (concat (map data_octets vs)))) (MmsValue t d (U_structure (map Some ws)))
             = Inr (1, MmsValue t d (U_structure (map Some ws'))) \<and> list_all2 makes_value ws' vs"
  unfolding updates_values_def by blast

lemma fits_structure:
  assumes "fits w (MmsValue t d (U_structure (map Some vs)))" and "is_complex t"
  shows "\<exists>d' ws. w = MmsValue t d' (U_structure (map Some ws)) \<and> list_all2 fits ws vs"
proof -
  obtain d' cs where w: "w = MmsValue t d' (U_structure cs)"
    and cs: "list_all2 (\<lambda>w v. case (w, v) of (Some w, Some v) \<Rightarrow> fits w v | _ \<Rightarrow> False) cs (map Some vs)"
    using assms by (cases w) (auto split: uMmsValue.splits)
  have "\<exists>ws. cs = map Some ws \<and> list_all2 fits ws vs"
    using cs
  proof (induction vs arbitrary: cs)
    case (Cons v vs)
    then obtain c cs' where c: "cs = c # cs'" "case (c, Some v) of (Some w, Some v) \<Rightarrow> fits w v | _ \<Rightarrow> False"
      "list_all2 (\<lambda>w v. case (w, v) of (Some w, Some v) \<Rightarrow> fits w v | _ \<Rightarrow> False) cs' (map Some vs)"
      by (auto simp: list_all2_Cons2)
    from Cons.IH [OF c(3)] obtain ws where "cs' = map Some ws" "list_all2 fits ws vs" by blast
    with c(1,2) show ?case by (intro exI [of _ "the c # ws"]) (auto split: option.splits)
  qed simp
  with w show ?thesis by blast
qed

lemma fits_type: "fits w v \<Longrightarrow> mtype w = mtype v"
  by (cases w) simp

text \<open>One value: by the nested call or by its octets.\<close>

definition updated_by :: "float_ops \<Rightarrow> (int \<Rightarrow> int \<Rightarrow> sMmsValue \<Rightarrow> (int \<times> sMmsValue) run) \<Rightarrow> byte list \<Rightarrow> int \<Rightarrow> sMmsValue \<Rightarrow> sMmsValue \<Rightarrow> (int \<times> sMmsValue) run" where
  "updated_by F f buf q v w =
     (if is_complex (mtype v) then f q (int (length (content_of v))) w
      else rbind (set_element F (data_tag (mtype v)) buf q (int (length (content_of v))) w) (\<lambda>w'. Inr (1, w')))"

lemma value_updated:
  assumes v: "sendable v" and w: "fits w v" and at: "bytes_at buf q (content_of v)" "0 \<le> q" "q + int (length (content_of v)) < 2 ^ 31"
    and f: "\<And>vs. mvalue v = U_structure (map Some vs) \<Longrightarrow> updates_values f buf vs"
  shows "\<exists>w'. updated_by F f buf q v w = Inr (1, w') \<and> makes_value w' v"
proof (cases "\<exists>cs. mvalue v = U_structure cs")
  case True
  then obtain t d cs where vd: "v = MmsValue t d (U_structure cs)" by (cases v) auto
  obtain vs where vs: "cs = map Some vs" using sendable_components v vd by blast
  have c: "is_complex t" using v vd by (auto simp: sendable_def leaf_encodable_def dest: leaf_not_structure split: if_splits)
  have cont: "content_of v = concat (map data_octets vs)" using vd vs by (simp add: content_of_def all_octets_values)
  obtain d' ws where ws: "w = MmsValue t d' (U_structure (map Some ws))" "list_all2 fits ws vs"
    using fits_structure [of w t d vs] w c vd vs by auto
  obtain ws' where "f q (int (length (content_of v))) w = Inr (1, MmsValue t d' (U_structure (map Some ws')))" "list_all2 makes_value ws' vs"
    using updates_valuesD [OF f at(1) [unfolded cont] at(2) at(3) [unfolded cont] c ws(2)] vd vs ws(1) cont by auto
  moreover have "makes_value (MmsValue t d' (U_structure (map Some ws'))) v"
    using makes_list_equal [OF calculation(2)] c vd vs by (simp add: makes_value_def structure_of_def list_all_iff)
  ultimately show ?thesis using c vd by (auto simp: updated_by_def)
next
  case False
  then obtain t d u where vd: "v = MmsValue t d u" "\<And>cs. u \<noteq> U_structure cs" by (cases v) auto
  then have c: "\<not> is_complex t" "leaf_encodable t u"
    using v by (auto simp: sendable_def split: if_splits uMmsValue.splits)
  have cont: "content_of v = leaf_content u" using vd by (cases u) (auto simp: content_of_def)
  obtain d' u0 where wd: "w = MmsValue t d' u0" "leaf_fits t u0 u" using w c vd by (cases w) auto
  have t: "t \<noteq> MMS_STRING" "t \<noteq> MMS_DATA_ACCESS_ERROR" using sendable_type [OF v] vd by simp_all
  from leaf_sets [OF c(2) wd(2), of buf q F d'] at cont t obtain u' where
    "set_element F (data_tag t) buf q (int (length (content_of v))) w = Inr (MmsValue t d' u')" "leaf_ok t u'" "equal_member t u' u = Inr True"
    by (auto simp: sets_to_def wd(1))
  then show ?thesis using c vd(1) by (auto simp: updated_by_def makes_value_def)
qed

text \<open>A round, with the values before the element already updated.\<close>

lemma update_round:
  assumes v: "sendable v" and w: "fits w v" and p: "base \<le> p" "0 \<le> base" and at: "bytes_at buf p (data_octets v)"
    and e: "p + int (length (data_octets v)) \<le> base + n" "base + n < 2 ^ 31" and t: "is_complex t"
    and f: "\<And>vs. mvalue v = U_structure (map Some vs) \<Longrightarrow> updates_values f buf vs"
  shows "\<exists>l' w'. all_data_round F f buf base n (p, l, int (length us), MmsValue t d (U_structure (map Some (us @ w # ws))))
      = Inr (Continue (p + int (length (data_octets v)), l', int (length us) + 1, MmsValue t d (U_structure (map Some (us @ w' # ws)))))
    \<and> makes_value w' v"
proof -
  have p0: "0 \<le> p" using p by linarith
  note el = sendable_element [OF v at e(1) p0 p e(2)]
  note tag = sendable_tag [OF v]
  let ?q = "inside p (content_of v)" and ?k = "int (length (content_of v))"
  obtain w' where w': "updated_by F f buf ?q v w = Inr (1, w')" "makes_value w' v"
    using value_updated [OF v w el(2,5) _ f] el(7) e(2) by fastforce
  let ?vs = "MmsValue t d (U_structure (map Some (us @ w # ws)))"
  have get: "MmsValue_getArraySize ?vs = Inr (int (length us + 1 + length ws))" "MmsValue_getElement ?vs (int (length us)) = Inr (Some w)"
    "MmsValue_setElement ?vs (int (length us)) (Some w') = Inr (MmsValue t d (U_structure (map Some (us @ w' # ws))))"
    using t by (auto simp: MmsValue_getArraySize_def MmsValue_getElement_def MmsValue_setElement_def structure_of_def nth_append list_update_append)
  have utc: "data_tag (mtype v) = 0x91 \<longrightarrow> ?k = 8"
  proof
    assume "data_tag (mtype v) = 0x91"
    then have "mtype v = MMS_UTC_TIME" by (cases "mtype v") auto
    with v show "?k = 8" by (cases v) (auto simp: sendable_def leaf_encodable_def leaf_ok_def content_of_def)
  qed
  have "all_data_round F f buf base n (p, l, int (length us), ?vs)
      = Inr (Continue (p + int (length (data_octets v)), ?k, int (length us) + 1, MmsValue t d (U_structure (map Some (us @ w' # ws)))))"
    using el(1,3,4,6) tag utc w'(1) get fits_type [OF w]
    by (cases "is_complex (mtype v)") (auto simp: all_data_round_def updated_by_def rbind_Inr_iff)
  with w'(2) show ?thesis by blast
qed

lemma update_loop:
  assumes base: "0 \<le> base" and e: "base + n < 2 ^ 31" and t: "is_complex t"
  shows "list_all2 fits ws vs \<Longrightarrow> list_all sendable vs \<Longrightarrow>
    (\<And>v vs'. v \<in> set vs \<Longrightarrow> mvalue v = U_structure (map Some vs') \<Longrightarrow> updates_values f buf vs') \<Longrightarrow>
    base \<le> p \<Longrightarrow> bytes_at buf p (concat (map data_octets vs)) \<Longrightarrow> base + n = p + int (length (concat (map data_octets vs))) \<Longrightarrow> length vs \<le> N \<Longrightarrow>
    \<exists>l' ws'. c_while N (\<lambda>(p, _). p < base + n) (all_data_round F f buf base n) (p, l, int (length us), MmsValue t d (U_structure (map Some (us @ ws))))
      = Inr (Continue (base + n, l', int (length us + length vs), MmsValue t d (U_structure (map Some (us @ ws'))))) \<and> list_all2 makes_value ws' vs"
proof (induction ws vs arbitrary: p l us N rule: list_all2_induct)
  case Nil
  then show ?case by (auto simp: c_while_done)
next
  case (Cons w ws v vs)
  let ?q = "p + int (length (data_octets v))"
  have at: "bytes_at buf p (data_octets v)" "bytes_at buf ?q (concat (map data_octets vs))" using Cons.prems(4) by (simp_all add: bytes_at_append)
  have e': "base + n = ?q + int (length (concat (map data_octets vs)))" "?q \<le> base + n" "base \<le> ?q" using Cons.prems(3,5) by simp_all
  have lt: "p < base + n" using e'(2) octets_positive [of v] by linarith
  obtain M where N: "N = Suc M" "length vs \<le> M" using Cons.prems(6) by (cases N) auto
  have v: "sendable v" using Cons.prems(1) by simp
  have nested: "updates_values f buf vs'" if "mvalue v = U_structure (map Some vs')" for vs'
    using Cons.prems(2) [of v vs'] that by simp
  obtain l1 w' where r: "all_data_round F f buf base n (p, l, int (length us), MmsValue t d (U_structure (map Some (us @ w # ws))))
      = Inr (Continue (?q, l1, int (length us) + 1, MmsValue t d (U_structure (map Some (us @ w' # ws)))))" "makes_value w' v"
    using update_round [OF v Cons.hyps(1) Cons.prems(3) base at(1) e'(2) e t nested] by blast
  have rest: "\<exists>l' ws'. c_while M (\<lambda>(p, _). p < base + n) (all_data_round F f buf base n)
      (?q, l1, int (length (us @ [w'])), MmsValue t d (U_structure (map Some ((us @ [w']) @ ws))))
      = Inr (Continue (base + n, l', int (length (us @ [w']) + length vs), MmsValue t d (U_structure (map Some ((us @ [w']) @ ws'))))) \<and> list_all2 makes_value ws' vs"
    using Cons.prems(1) Cons.prems(2) by (intro Cons.IH [OF _ _ e'(3) at(2) e'(1) N(2)]) auto
  then obtain l' ws' where l': "c_while M (\<lambda>(p, _). p < base + n) (all_data_round F f buf base n)
      (?q, l1, int (length us) + 1, MmsValue t d (U_structure (map Some (us @ w' # ws))))
      = Inr (Continue (base + n, l', int (length us + length (v # vs)), MmsValue t d (U_structure (map Some (us @ w' # ws')))))"
      "list_all2 makes_value ws' vs"
    by (auto simp: add_ac)
  have "c_while N (\<lambda>(p, _). p < base + n) (all_data_round F f buf base n) (p, l, int (length us), MmsValue t d (U_structure (map Some (us @ w # ws))))
      = c_while M (\<lambda>(p, _). p < base + n) (all_data_round F f buf base n)
      (?q, l1, int (length us) + 1, MmsValue t d (U_structure (map Some (us @ w' # ws))))"
    using lt r(1) by (simp add: N(1))
  with l' r(2) show ?case by (intro exI [of _ l'] exI [of _ "w' # ws'"]) simp
qed

lemma existing_values_updated:
  "list_all sendable vs \<Longrightarrow> length (concat (map data_octets vs)) < k \<Longrightarrow> length (concat (map data_octets vs)) \<le> N \<Longrightarrow>
   updates_values (parseAllData k F N buf) buf vs"
proof (induction k arbitrary: vs)
  case 0
  then show ?case by simp
next
  case (Suc k)
  let ?c = "concat (map data_octets vs)" and ?f = "parseAllData k F N buf"
  have nested: "updates_values ?f buf ws" if "v \<in> set vs" "mvalue v = U_structure (map Some ws)" for v ws
  proof (rule Suc.IH)
    show "list_all sendable ws" using all_sendable_components [OF _ that(2)] Suc.prems(1) that(1) by (simp add: list_all_iff)
    show "length (concat (map data_octets ws)) < k" "length (concat (map data_octets ws)) \<le> N"
      using component_octets [OF that(2)] value_octets_in [OF that(1)] Suc.prems(2,3) by linarith+
  qed
  show ?case
    unfolding updates_values_def
  proof (intro allI impI)
    fix q t d ws
    assume at: "bytes_at buf q ?c" and q: "0 \<le> q" "q + int (length ?c) < 2 ^ 31" and t: "is_complex t" and ws: "list_all2 fits ws vs"
    have len: "length vs \<le> N" using values_fit [of vs] Suc.prems(3) by linarith
    have "\<exists>l' ws'. c_while N (\<lambda>(p, _). p < q + int (length ?c)) (all_data_round F ?f buf q (int (length ?c)))
        (q, 0, int (length ([] :: sMmsValue list)), MmsValue t d (U_structure (map Some ([] @ ws))))
      = Inr (Continue (q + int (length ?c), l', int (length ([] :: sMmsValue list) + length vs), MmsValue t d (U_structure (map Some ([] @ ws'))))) \<and> list_all2 makes_value ws' vs"
      by (rule update_loop [OF q t ws Suc.prems(1) _ order.refl at refl len]) (rule nested)
    then show "\<exists>ws'. parseAllData (Suc k) F N buf q (int (length ?c)) (MmsValue t d (U_structure (map Some ws)))
        = Inr (1, MmsValue t d (U_structure (map Some ws'))) \<and> list_all2 makes_value ws' vs"
      by (auto simp: MmsValue_getArraySize_def structure_of_def)
  qed
qed

end
