(* ===== verification/Goose_Correct.thy ===== *)
theory Goose_Correct
  imports Goose_Publish_Correct Goose_Data
begin

text \<open>
  From the publisher to the subscriber: a message that is sent reaches the subscriber of its control block with all its fields and values;
  and what malformed messages do.
\<close>

section \<open>The header\<close>

lemma two_octets_word:
  assumes "0 \<le> n" and "n < 65536"
  shows "uint (ucast (word_of_int (n div 256) :: byte) * 0x100 + ucast (word_of_int (n mod 256) :: byte) :: u16) = n"
proof -
  have b: "n div 256 < 256" "0 \<le> n div 256" using assms by auto
  have "uint (ucast (word_of_int (n div 256) :: byte) :: u16) = n div 256" "uint (ucast (word_of_int (n mod 256) :: byte) :: u16) = n mod 256"
    using b by (simp_all add: unsigned_ucast_eq uint_word_of_int take_bit_int_eq_self)
  then have "(ucast (word_of_int (n div 256) :: byte) :: u16) = word_of_int (n div 256)" "(ucast (word_of_int (n mod 256) :: byte) :: u16) = word_of_int (n mod 256)"
    by (metis word_of_int_uint)+
  then have "ucast (word_of_int (n div 256) :: byte) * 0x100 + ucast (word_of_int (n mod 256) :: byte) = (word_of_int (n div 256 * 256 + n mod 256) :: u16)"
    by (simp only: of_int_add of_int_mult of_int_numeral)
  then show ?thesis using assms by (simp add: uint_word_of_int)
qed

lemma octets_of_u16: "(ucast (x div 256 :: u16) :: byte) = word_of_int (uint x div 256)" "(ucast (x mod 256 :: u16) :: byte) = word_of_int (uint x mod 256)"
  by (simp_all add: word_uint_eq_iff unsigned_ucast_eq uint_word_of_int uint_div uint_mod take_bit_eq_mod)

text \<open>The first octets of the buffer of a publisher were made by \<open>prepareGooseBuffer\<close>.\<close>

definition publishes_to :: "CommParameters \<Rightarrow> byte list \<Rightarrow> sGoosePublisher \<Rightarrow> bool" where
  "publishes_to parameters src self \<longleftrightarrow> publisher_ok self \<and> length (dstAddress parameters) = 6 \<and> length src = 6
     \<and> take 20 (pbuffer self) = take 20 (frame_header parameters src)"

lemma created_publishes:
  assumes "length (dstAddress parameters) = 6" and "length src = 6" and "length fresh = 1518"
  shows "\<exists>self. GoosePublisher_create now src fresh (Some parameters) = Inr self \<and> publishes_to parameters src self"
proof -
  have h: "length (frame_header parameters src) = 26" using assms(1,2) by (simp add: frame_header_def)
  then obtain self where "prepareGooseBuffer src fresh (Some parameters) zero_publisher = Inr self"
    "self = zero_publisher\<lparr>pbuffer := frame_header parameters src @ drop 26 fresh, lengthField := 20, payloadStart := 26\<rparr>"
    using assms(3) by (simp add: prepareGooseBuffer_def memcpy_front)
  moreover obtain ts where "MmsValue_newUtcTimeByMsTime now = Inr (MmsValue MMS_UTC_TIME 0 (U_utcTime ts))" "length ts = 8"
    by (auto simp: MmsValue_newUtcTimeByMsTime_def MmsValue_setUtcTimeMs_def set_utc_def utc_of_def memcpyReverseByteOrder_def rd_n_front
        memcpy_to_def Let_def)
  ultimately show ?thesis using assms h
    by (auto simp: GoosePublisher_create_def GoosePublisher_reset_def publishes_to_def publisher_ok_def zero_publisher_def text_octets_def)
qed

lemma frame_header_octets:
  assumes "length (dstAddress parameters) = 6" and "length src = 6"
  shows "take 20 (frame_header parameters src) = dstAddress parameters @ src
     @ [0x81, 0x00, push_bit 5 (vlanPriority parameters) + ucast (vlanId parameters div 256), ucast (vlanId parameters mod 256), 0x88, 0xb8,
        ucast (CommParameters.appId parameters div 256), ucast (CommParameters.appId parameters mod 256)]"
  using assms by (simp add: frame_header_def)

text \<open>The octets of a packet in the buffer of the receiver.\<close>

lemma packet_octets:
  assumes pub: "publishes_to parameters src self" and n: "length (goose_content self vs) \<le> 1488"
  shows "\<exists>r. goose_packet self vs = dstAddress parameters @ src
     @ [0x81, 0x00, push_bit 5 (vlanPriority parameters) + ucast (vlanId parameters div 256), ucast (vlanId parameters mod 256), 0x88, 0xb8,
        word_of_int (uint (CommParameters.appId parameters) div 256), word_of_int (uint (CommParameters.appId parameters) mod 256),
        word_of_int ((int (length (tlv 0x61 (goose_content self vs))) + 8) div 256), word_of_int ((int (length (tlv 0x61 (goose_content self vs))) + 8) mod 256)]
     @ r @ tlv 0x61 (goose_content self vs) \<and> length r = 4"
proof -
  have "length (take 4 (drop 22 (pbuffer self))) = 4" using pub by (simp add: publishes_to_def publisher_ok_def)
  moreover have "take 20 (pbuffer self) = dstAddress parameters @ src
     @ [0x81, 0x00, push_bit 5 (vlanPriority parameters) + ucast (vlanId parameters div 256), ucast (vlanId parameters mod 256), 0x88, 0xb8,
        word_of_int (uint (CommParameters.appId parameters) div 256), word_of_int (uint (CommParameters.appId parameters) mod 256)]"
    using pub frame_header_octets [of parameters src] by (simp add: publishes_to_def octets_of_u16)
  ultimately show ?thesis by (intro exI [of _ "take 4 (drop 22 (pbuffer self))"]) (simp add: goose_packet_def Let_def)
qed

lemma rd_append_at: "length xs = n \<Longrightarrow> rd (xs @ y # ys) (int n) = Inr y"
  by (auto simp: rd_def nth_append)

lemma header_parsed:
  assumes "rd (rbuffer r) 12 = Inr 0x81" "rd (rbuffer r) 13 = Inr 0" "rd (rbuffer r) 16 = Inr 0x88" "rd (rbuffer r) 17 = Inr 0xb8"
    and "rd (rbuffer r) 18 = Inr a0" "rd (rbuffer r) 19 = Inr a1" "rd (rbuffer r) 20 = Inr l0" "rd (rbuffer r) 21 = Inr l1"
    and "uint (ucast a0 * 0x100 + ucast a1 :: u16) = A" and "uint (ucast l0 * 0x100 + ucast l1 :: u16) = L"
    and "22 \<le> numbytes" and "L + 18 \<le> numbytes" and "a \<in> set (subscriberList r)" and "sGooseSubscriber.appId (st a) = A"
  shows "parseGooseMessage N k F now st r numbytes = parseGoosePayload N k F now st (subscriberList r) (rbuffer r) 26 (L - 8)"
proof -
  have "\<exists>b \<in> set (subscriberList r). sGooseSubscriber.appId (st b) = A" using assms(13,14) by blast
  then show ?thesis using assms(1-12) by (simp add: parseGooseMessage_def Let_def)
qed

lemma message_parsed:
  assumes pub: "publishes_to parameters src self" and n: "length (goose_content self vs) \<le> 1488"
    and buf: "rbuffer r = goose_packet self vs @ rest" and a: "a \<in> set (subscriberList r)" "sGooseSubscriber.appId (st a) = uint (CommParameters.appId parameters)"
  shows "parseGooseMessage N k F now st r (int (length (goose_packet self vs)))
    = parseGoosePayload N k F now st (subscriberList r) (rbuffer r) 26 (int (length (tlv 0x61 (goose_content self vs))))"
    and "bytes_at (rbuffer r) 26 (tlv 0x61 (goose_content self vs))"
proof -
  let ?p = "tlv 0x61 (goose_content self vs)" and ?v1 = "push_bit 5 (vlanPriority parameters) + ucast (vlanId parameters div 256)"
  and ?v2 = "ucast (vlanId parameters mod 256) :: byte" and ?A = "uint (CommParameters.appId parameters)" and ?L = "int (length (tlv 0x61 (goose_content self vs))) + 8"
  obtain x where x: "goose_packet self vs = dstAddress parameters @ src @ [0x81, 0x00, ?v1, ?v2, 0x88, 0xb8, word_of_int (?A div 256), word_of_int (?A mod 256),
      word_of_int (?L div 256), word_of_int (?L mod 256)] @ x @ ?p" "length x = 4"
    using packet_octets [OF pub n] by blast
  have l: "length (dstAddress parameters @ src) = 12" using pub by (simp add: publishes_to_def)
  define h where "h = dstAddress parameters @ src"
  have b: "rbuffer r = h @ [0x81, 0x00, ?v1, ?v2, 0x88, 0xb8, word_of_int (?A div 256), word_of_int (?A mod 256),
      word_of_int (?L div 256), word_of_int (?L mod 256)] @ x @ ?p @ rest" using buf x(1) by (simp add: h_def)
  have h: "length h = 12" using l by (simp add: h_def)
  have at: "bytes_at (rbuffer r) 12 [0x81, 0x00, ?v1, ?v2, 0x88, 0xb8, word_of_int (?A div 256), word_of_int (?A mod 256),
      word_of_int (?L div 256), word_of_int (?L mod 256)]"
    using bytes_at_middle [of h] h b by (metis of_nat_numeral)
  have "rbuffer r = (h @ [0x81, 0x00, ?v1, ?v2, 0x88, 0xb8, word_of_int (?A div 256), word_of_int (?A mod 256),
      word_of_int (?L div 256), word_of_int (?L mod 256)] @ x) @ ?p @ rest" using b by simp
  moreover have "int (length (h @ [0x81, 0x00, ?v1, ?v2, 0x88, 0xb8, word_of_int (?A div 256), word_of_int (?A mod 256),
      word_of_int (?L div 256), word_of_int (?L mod 256)] @ x)) = 26" using h x(2) by simp
  ultimately show "bytes_at (rbuffer r) 26 ?p" using bytes_at_middle by metis
  have pl: "int (length ?p) \<le> 1492"
    using n len_size_pos(2) [of "int (length (goose_content self vs))"] unfolding length_tlv tlv_size_def by linarith
  have len: "int (length (goose_packet self vs)) = 26 + int (length ?p)" using x h by (simp add: h_def)
  have A: "uint (ucast (word_of_int (?A div 256) :: byte) * 0x100 + ucast (word_of_int (?A mod 256) :: byte) :: u16) = ?A"
    by (rule two_octets_word) (use uint_lt2p [of "CommParameters.appId parameters"] in simp_all)
  have L: "uint (ucast (word_of_int (?L div 256) :: byte) * 0x100 + ucast (word_of_int (?L mod 256) :: byte) :: u16) = ?L"
    by (rule two_octets_word) (use pl in simp_all)
  have "rd (rbuffer r) 12 = Inr 0x81" "rd (rbuffer r) 13 = Inr 0" "rd (rbuffer r) 16 = Inr 0x88" "rd (rbuffer r) 17 = Inr 0xb8"
    "rd (rbuffer r) 18 = Inr (word_of_int (?A div 256))" "rd (rbuffer r) 19 = Inr (word_of_int (?A mod 256))"
    "rd (rbuffer r) 20 = Inr (word_of_int (?L div 256))" "rd (rbuffer r) 21 = Inr (word_of_int (?L mod 256))"
    using at by simp_all
  from header_parsed [OF this A L _ _ a(1), where st = st, OF _ _ a(2), of "int (length (goose_packet self vs))" N k F now]
  show "parseGooseMessage N k F now st r (int (length (goose_packet self vs)))
      = parseGoosePayload N k F now st (subscriberList r) (rbuffer r) 26 (int (length ?p))"
    by (simp add: len)
qed



section \<open>The view of a published message\<close>

definition published_view :: "sGoosePublisher \<Rightarrow> sMmsValue option list \<Rightarrow> nat \<Rightarrow> goose_view" where
  "published_view self vs a =
     \<lparr>g_timeAllowedToLive = sGoosePublisher.timeAllowedToLive self, g_stNum = sGoosePublisher.stNum self, g_sqNum = sGoosePublisher.sqNum self,
      g_confRev = Some (sGoosePublisher.confRev self), g_simulation = sGoosePublisher.simulation self, g_ndsCom = needsCommission self,
      g_subscriber = Some a, g_time = Some (timestamp_octets self), g_data = Some (all_octets vs)\<rparr>"

lemma unsigned32_octets: "unsigned32 (uint32_octets v) = v"
  by (simp add: unsigned32_def be_from_uint32_octets)

lemma reference_found:
  assumes "a \<in> set subs" and "sGooseSubscriber.goCBRef (st a) = v" and "\<And>b. b \<in> set subs \<Longrightarrow> sGooseSubscriber.goCBRef (st b) = v \<Longrightarrow> b = a"
  shows "with_reference st v subs = Some a"
  using assms
proof (induction subs)
  case (Cons c subs)
  show ?case
  proof (cases "sGooseSubscriber.goCBRef (st c) = v")
    case True
    with Cons.prems(3) [of c] show ?thesis by (simp add: with_reference_def)
  next
    case False
    with Cons.prems(1,2) have "a \<in> set subs" by auto
    then have "with_reference st v subs = Some a"
      by (rule Cons.IH [OF _ Cons.prems(2)]) (rule Cons.prems(3), simp_all)
    with False show ?thesis by (simp add: with_reference_def)
  qed
qed simp

lemma published_meaning:
  assumes "with_reference st (text_octets (sGoosePublisher.goCBRef self)) subs = Some a"
  shows "opt_fold (goose_eff st subs) empty_view (goose_items self vs) = Some (published_view self vs a)"
  using assms by (simp add: goose_items_def empty_view_def published_view_def unsigned32_octets)

lemma goose_items_accepted: "publisher_ok self \<Longrightarrow> data_ok vs \<Longrightarrow> list_all goose_item_ok (goose_items self vs)"
  using goose_items_ok [of self vs] by (simp add: goose_items_def)

text \<open>The data of a message are part of its contents.\<close>

lemma small_data: "all_encodable vs \<Longrightarrow> length (goose_content self vs) < 65536 \<Longrightarrow> data_ok vs"
  using length_tlv [of "0xab" "all_octets vs"] len_size_pos(1) [of "int (length (all_octets vs))"]
  by (auto simp: data_ok_def goose_content_def goose_items_def tlv_def)

lemma sendable_encodable: "list_all sendable vs \<Longrightarrow> all_encodable (map Some vs)"
  using sendable_type by (auto simp: all_encodable_iff list_all_iff sendable_def)


section \<open>Delivery\<close>

text \<open>What a subscriber has to be: a time object, and no values yet or values of the shape of the message.\<close>

definition receives :: "sGooseSubscriber \<Rightarrow> sMmsValue list \<Rightarrow> bool" where
  "receives s vs \<longleftrightarrow> (\<exists>d b. sGooseSubscriber.timestamp s = MmsValue MMS_UTC_TIME d (U_utcTime b) \<and> length b = 8)
     \<and> (\<forall>v. dataSetValues s = Some v \<longrightarrow> (\<exists>t d ws. v = MmsValue t d (U_structure (map Some ws)) \<and> is_complex t \<and> list_all2 fits ws vs))"

definition holds_values :: "sGooseSubscriber \<Rightarrow> sMmsValue list \<Rightarrow> bool" where
  "holds_values s vs \<longleftrightarrow> (\<exists>t d ws. dataSetValues s = Some (MmsValue t d (U_structure (map Some ws))) \<and> list_all2 makes_value ws vs)"

lemma values_received:
  assumes vs: "list_all sendable vs" and rel: "goose_rel buf l a" and d: "g_data a = Some (concat (map data_octets vs))"
    and s: "receives s vs" and buf: "length buf < 2 ^ 31" and N: "length (concat (map data_octets vs)) < k" "length (concat (map data_octets vs)) \<le> N"
  shows "\<exists>v b. update_values N k F buf l s = Inr (s\<lparr>dataSetValues := Some v, dataSetValuesSelfAllocated := b\<rparr>)
    \<and> holds_values (s\<lparr>dataSetValues := Some v, dataSetValuesSelfAllocated := b\<rparr>) vs"
proof -
  let ?c = "concat (map data_octets vs)"
  obtain q where q: "dataSetBufferAddress l = Some q" "0 \<le> q" "bytes_at buf q ?c" "dataSetBufferLength l = int (length ?c)"
    using rel d by (auto simp: goose_rel_def located_def)
  show ?thesis
  proof (cases "dataSetValues s")
    case None
    have lim: "?c \<noteq> [] \<Longrightarrow> q + int (length ?c) < 2 ^ 31" using bytes_at_bounds [OF q(3)] buf by simp
    show ?thesis
    proof (cases "?c = []")
      case True
      then have "parseAllDataUnknownValue k N buf q 0 False = Inr (Some (MmsValue MMS_ARRAY 0 (U_structure [])), True)"
        using N(1) by (cases k) (simp_all add: MmsValue_createEmptyArray_def c_while_done)
      moreover have "vs = []" using True data_octets_tlv by (cases vs) auto
      ultimately show ?thesis using None q(1,4) True
        by (intro exI [of _ "MmsValue MMS_ARRAY 0 (U_structure [])"] exI [of _ True]) (simp add: update_values_def holds_values_def)
    next
      case False
      from unknown_values_made [OF vs N, of buf False] lim [OF False] q(2,3) obtain ws where
        "parseAllDataUnknownValue k N buf q (int (length ?c)) False = Inr (Some (MmsValue MMS_ARRAY 0 (U_structure (map Some ws))), True)"
        "list_all2 makes_value ws vs" unfolding makes_values_def by auto
      with None q(1,4) show ?thesis by (auto simp: update_values_def holds_values_def)
    qed
  next
    case (Some v)
    then obtain t dl ws where v: "v = MmsValue t dl (U_structure (map Some ws))" "is_complex t" "list_all2 fits ws vs"
      using s by (auto simp: receives_def)
    show ?thesis
    proof (cases "?c = []")
      case True
      then have "parseAllData k F N buf q 0 v = Inr (1, v)"
        using N(1) v(1) by (cases k) (simp_all add: MmsValue_getArraySize_def structure_of_def c_while_done)
      moreover have "vs = []" using True data_octets_tlv by (cases vs) auto
      ultimately show ?thesis using Some q(1,4) True v
        by (intro exI [of _ v] exI [of _ "dataSetValuesSelfAllocated s"]) (auto simp: update_values_def holds_values_def)
    next
      case False
      then have "q + int (length ?c) < 2 ^ 31" using bytes_at_bounds [OF q(3)] buf by simp
      from updates_valuesD [OF existing_values_updated [OF vs N] q(3,2) this v(2,3)] obtain ws' where
        "parseAllData k F N buf q (int (length ?c)) v = Inr (1, MmsValue t dl (U_structure (map Some ws')))" "list_all2 makes_value ws' vs"
        unfolding v(1) by blast
      with Some q(1,4) show ?thesis
        by (intro exI [of _ "MmsValue t dl (U_structure (map Some ws'))"] exI [of _ "dataSetValuesSelfAllocated s"])
          (auto simp: update_values_def holds_values_def)
    qed
  qed
qed

text \<open>The fields and values of the message are those of the subscriber; the rest of it is as before.\<close>

definition delivered :: "u64 \<Rightarrow> sGoosePublisher \<Rightarrow> sMmsValue list \<Rightarrow> sGooseSubscriber \<Rightarrow> sGooseSubscriber \<Rightarrow> bool" where
  "delivered now self vs s s' \<longleftrightarrow>
     s' = s\<lparr>sGooseSubscriber.timeAllowedToLive := sGoosePublisher.timeAllowedToLive self,
            sGooseSubscriber.stNum := sGoosePublisher.stNum self, sGooseSubscriber.sqNum := sGoosePublisher.sqNum self,
            sGooseSubscriber.confRev := sGoosePublisher.confRev self, sGooseSubscriber.simulation := sGoosePublisher.simulation self,
            ndsCom := needsCommission self,
            sGooseSubscriber.timestamp := with_member (U_utcTime (timestamp_octets self)) (sGooseSubscriber.timestamp s),
            invalidityTime := now + ucast (sGoosePublisher.timeAllowedToLive self),
            stateValid := (sGooseSubscriber.stNum s \<noteq> sGoosePublisher.stNum self \<or> sGooseSubscriber.sqNum s < sGoosePublisher.sqNum self),
            dataSetValues := dataSetValues s', dataSetValuesSelfAllocated := dataSetValuesSelfAllocated s'\<rparr>
     \<and> holds_values s' vs"

lemma delivered_listener: "delivered now self vs s s' \<Longrightarrow> listener s' = listener s"
  by (cases s; cases s') (simp add: delivered_def)

lemma subscriber_updated:
  assumes vs: "list_all sendable vs" and rel: "goose_rel buf l (published_view self (map Some vs) a)" and s: "receives s vs"
    and pub: "publisher_ok self" and buf: "length buf < 2 ^ 31"
    and N: "length (concat (map data_octets vs)) < k" "length (concat (map data_octets vs)) \<le> N"
  shows "\<exists>s'. update_subscriber N k F now buf l s = Inr s' \<and> delivered now self vs s s'"
proof -
  obtain d b where ts: "sGooseSubscriber.timestamp s = MmsValue MMS_UTC_TIME d (U_utcTime b)" "length b = 8"
    using s by (auto simp: receives_def)
  have t8: "length (timestamp_octets self) = 8" using pub by (auto simp: publisher_ok_def timestamp_octets_def)
  obtain q where q: "timestampBufPos l = Some q" "0 \<le> q" "bytes_at buf q (timestamp_octets self)"
    using rel by (auto simp: goose_rel_def located_def published_view_def)
  have tk: "take 8 (drop (nat q) buf) = timestamp_octets self" using bytes_at_eq_take_drop [OF q(3,2)] t8 by simp
  then have "8 \<le> length (drop (nat q) buf)" by (metis t8 length_take min.cobounded1)
  then have time: "MmsValue_setUtcTimeByBuffer (sGooseSubscriber.timestamp s) (drop (nat q) buf)
      = Inr (with_member (U_utcTime (timestamp_octets self)) (sGooseSubscriber.timestamp s))"
    using tk ts by (simp add: MmsValue_setUtcTimeByBuffer_def set_utc_def utc_of_def memcpy_front)
  let ?s1 = "s\<lparr>sGooseSubscriber.timeAllowedToLive := sGoosePublisher.timeAllowedToLive self, sGooseSubscriber.confRev := sGoosePublisher.confRev self,
      ndsCom := needsCommission self, sGooseSubscriber.simulation := sGoosePublisher.simulation self,
      sGooseSubscriber.timestamp := with_member (U_utcTime (timestamp_octets self)) (sGooseSubscriber.timestamp s)\<rparr>"
  have "receives ?s1 vs" using s t8 ts by (simp add: receives_def)
  moreover have "g_data (published_view self (map Some vs) a) = Some (concat (map data_octets vs))"
    by (simp add: published_view_def all_octets_values)
  ultimately obtain v c where v: "update_values N k F buf l ?s1 = Inr (?s1\<lparr>dataSetValues := Some v, dataSetValuesSelfAllocated := c\<rparr>)"
    "holds_values (?s1\<lparr>dataSetValues := Some v, dataSetValuesSelfAllocated := c\<rparr>) vs"
    using values_received [OF vs rel _ _ buf N] by blast
  have l: "l_timeAllowedToLive l = sGoosePublisher.timeAllowedToLive self" "l_stNum l = sGoosePublisher.stNum self"
      "l_sqNum l = sGoosePublisher.sqNum self" "l_confRev l = Some (sGoosePublisher.confRev self)"
      "l_simulation l = sGoosePublisher.simulation self" "l_ndsCom l = needsCommission self"
    using rel by (simp_all add: goose_rel_def published_view_def)
  let ?s2 = "?s1\<lparr>dataSetValues := Some v, dataSetValuesSelfAllocated := c\<rparr>"
  let ?s3 = "?s2\<lparr>stateValid := \<not> (sGooseSubscriber.stNum s = sGoosePublisher.stNum self \<and> sGooseSubscriber.sqNum s \<ge> sGoosePublisher.sqNum self),
      sGooseSubscriber.stNum := sGoosePublisher.stNum self, sGooseSubscriber.sqNum := sGoosePublisher.sqNum self,
      invalidityTime := now + ucast (sGoosePublisher.timeAllowedToLive self)\<rparr>"
  have "update_subscriber N k F now buf l s = Inr ?s3"
    using v(1) time q(1,2) l by (simp add: update_subscriber_def Let_def)
  moreover have "delivered now self vs s ?s3"
    using v(2) by (simp add: delivered_def holds_values_def not_le)
  ultimately show ?thesis by blast
qed

text \<open>
  C8: A message a publisher sends reaches the subscriber of its control block, whether the subscriber has no values yet or values of
  the same shape: all fields and values arrive, no other subscriber changes, and the state is valid exactly if the state number changed
  or the sequence number went up. It is enough that some subscriber of the receiver has the APPID of the message; that of the subscriber
  itself is not looked at.
\<close>

theorem goose_end_to_end:
  assumes pub: "publishes_to parameters src self" and vs: "list_all sendable vs" and n: "length (goose_content self (map Some vs)) \<le> 1488"
    and r: "length (rbuffer r) = 1518" "references_ok st" "a \<in> set (subscriberList r)"
    and a: "sGooseSubscriber.goCBRef (st a) = text_octets (sGoosePublisher.goCBRef self)"
    and b: "b \<in> set (subscriberList r)" "sGooseSubscriber.appId (st b) = uint (CommParameters.appId parameters)"
    and first: "\<And>c. c \<in> set (subscriberList r) \<Longrightarrow> sGooseSubscriber.goCBRef (st c) = sGooseSubscriber.goCBRef (st a) \<Longrightarrow> c = a"
    and s: "receives (st a) vs" and N: "1518 \<le> N" "1518 \<le> k"
  shows "\<exists>self' packet r' s'. GoosePublisher_publish self (map Some vs) = Inr (self', Some packet, 0)
    \<and> GooseReceiver_tick N k F now st (Some packet) r = Inr (r', True, st(a := s'), if listener (st a) = None then None else Some a)
    \<and> delivered now self vs (st a) s'"
proof -
  let ?c = "goose_content self (map Some vs)" and ?p = "goose_packet self (map Some vs)"
  have ok: "publisher_ok self" "data_ok (map Some vs)"
    using pub small_data [OF sendable_encodable [OF vs], of self] n by (simp_all add: publishes_to_def)
  have sent: "\<exists>self'. GoosePublisher_publish self (map Some vs) = Inr (self', Some ?p, 0)"
    using publish_octets [OF ok n] by blast
  have pl: "length ?p = 26 + length (tlv 0x61 ?c)" "length (tlv 0x61 ?c) \<le> 1492"
    using packet_length [OF ok(1)] n len_size_pos(2) [of "int (length ?c)"] length_tlv [of "0x61" ?c] unfolding tlv_size_def by (auto, linarith)
  let ?r = "r\<lparr>rbuffer := ?p @ drop (length ?p) (rbuffer r)\<rparr>"
  have fit: "min (length ?p) ETH_BUFFER_LENGTH = length ?p" "length ?p \<noteq> 0" using pl by (simp_all add: ETH_BUFFER_LENGTH_def)
  have buf: "rbuffer ?r = ?p @ drop (length ?p) (rbuffer r)" by simp
  have in_r: "b \<in> set (subscriberList ?r)" using b(1) by simp
  note parsed = message_parsed [OF pub n buf in_r, where st = st, OF b(2)]
  have found: "with_reference st (text_octets (sGoosePublisher.goCBRef self)) (subscriberList r) = Some a"
    using reference_found [of a "subscriberList r" st, OF r(3) a first] a by simp
  have len: "length ?c < 65536" "length ?c \<le> N" using n N by linarith+
  have base: "26 + int (length (tlv 0x61 ?c)) < 2 ^ 31" using pl(2) by simp
  from payload_items [OF goose_items_accepted [OF ok] r(2), of "rbuffer ?r" 26, folded goose_content_def, OF parsed(2) _ base refl len,
      where subs = "subscriberList r" and k = k and F = F and now = now] published_meaning [OF found]
  obtain l where l: "parseGoosePayload N k F now st (subscriberList r) (rbuffer ?r) 26 (int (length (tlv 0x61 ?c)))
      = payload_done N k F now st (rbuffer ?r) l" "goose_rel (rbuffer ?r) l (published_view self (map Some vs) a)"
    by auto
  have small: "length (concat (map data_octets vs)) \<le> length ?c"
    by (simp add: goose_content_def goose_items_def tlv_def all_octets_values)
  have "length (rbuffer ?r) < 2 ^ 31" using r(1) pl by simp
  from subscriber_updated [OF vs l(2) s ok(1) this, of k N F now] small n N obtain s' where
    s': "update_subscriber N k F now (rbuffer ?r) l (st a) = Inr s'" "delivered now self vs (st a) s'" by auto
  have "listener s' = listener (st a)" using s'(2) by (rule delivered_listener)
  moreover have "matchingSubscriber l = Some a" using l(2) by (simp add: goose_rel_def published_view_def)
  ultimately have "payload_done N k F now st (rbuffer ?r) l = Inr (1, st(a := s'), if listener (st a) = None then None else Some a)"
    using s'(1) by (simp add: payload_done_def)
  then have "GooseReceiver_tick N k F now st (Some ?p) r = Inr (?r, True, st(a := s'), if listener (st a) = None then None else Some a)"
    using parsed(1) l(1) fit by (simp add: GooseReceiver_tick_def Let_def)
  with sent s'(2) show ?thesis by blast
qed

text \<open>A publisher, a receiver and two subscribers; the one that gets the message has another APPID.\<close>

definition example_publisher :: sGoosePublisher where
  "example_publisher = zero_publisher\<lparr>pbuffer := frame_header default_parameters (replicate 6 0) @ replicate 1492 0, lengthField := 20,
     payloadStart := 26, sGoosePublisher.goCBRef := Some [0x41], sGoosePublisher.stNum := 1,
     sGoosePublisher.timestamp := MmsValue MMS_UTC_TIME 0 (U_utcTime (replicate 8 1))\<rparr>"

definition example_receiver :: "unit sGooseReceiver" where
  "example_receiver = \<lparr>running = True, stopped = False, interfaceId = None, rbuffer = replicate 1518 0, ethSocket = None, subscriberList = [0, 1]\<rparr>"

definition example_store :: subscriber_store where
  "example_store n = (if n = 1 then GooseSubscriber_setListener (GooseSubscriber_setAppId (GooseSubscriber_create [0x41] None) 7) (Some 5) 0
     else GooseSubscriber_setAppId (GooseSubscriber_create [] None) 0x1000)"

definition example_data :: "sMmsValue list" where
  "example_data = [MmsValue MMS_BOOLEAN 0 (U_boolean True), MmsValue MMS_STRUCTURE 0 (U_structure [Some (MmsValue MMS_UTC_TIME 0 (U_utcTime (replicate 8 3)))])]"

lemma example_octets: "all_octets (map Some example_data) = [0x83, 1, 0xff, 0xa2, 10, 0x91, 8] @ replicate 8 3"
  by (simp add: example_data_def len_bytes_def Let_def)

lemma example_sendable: "list_all sendable example_data"
  by (auto simp: example_data_def sendable_def leaf_encodable_def leaf_ok_def len_bytes_def Let_def)

lemma example_publishes: "publishes_to default_parameters (replicate 6 0) example_publisher"
  by (simp add: publishes_to_def example_publisher_def publisher_ok_def default_parameters_def frame_header_def text_octets_def zero_publisher_def)

lemma example_content: "length (goose_content example_publisher (map Some example_data)) = 56"
proof -
  have "uint32_octets 0 = [0]" "uint32_octets 1 = [1]" "uint32_octets 2 = [2]" by code_simp+
  then show ?thesis
    by (simp add: goose_content_def goose_items_def example_octets)
      (simp add: example_publisher_def example_data_def zero_publisher_def text_octets_def sent_goID_def timestamp_octets_def small_tlv)
qed

theorem goose_end_to_end_witness:
  "\<exists>self' packet r' s'. GoosePublisher_publish example_publisher (map Some example_data) = Inr (self', Some packet, 0)
    \<and> GooseReceiver_tick 1518 1518 \<lparr>to_double = ucast, to_float = ucast\<rparr> 0 example_store (Some packet) example_receiver
      = Inr (r', True, example_store(1 := s'), Some 1)
    \<and> delivered 0 example_publisher example_data (example_store 1) s'"
proof -
  have st: "references_ok example_store"
    by (simp add: references_ok_def example_store_def GooseSubscriber_create_def GooseSubscriber_setAppId_def GooseSubscriber_setListener_def)
  have one: "sGooseSubscriber.goCBRef (example_store 1) = [0x41]" "sGooseSubscriber.goCBRef (example_store 0) = []"
    "sGooseSubscriber.appId (example_store 0) = 0x1000" "listener (example_store 1) = Some 5"
    by (simp_all add: example_store_def GooseSubscriber_create_def GooseSubscriber_setAppId_def GooseSubscriber_setListener_def)
  have rec: "receives (example_store 1) example_data"
    by (simp add: receives_def example_store_def GooseSubscriber_create_def GooseSubscriber_setAppId_def GooseSubscriber_setListener_def MmsValue_newUtcTime_def)
  have "c = 1" if "c \<in> set (subscriberList example_receiver)" "sGooseSubscriber.goCBRef (example_store c) = sGooseSubscriber.goCBRef (example_store 1)" for c
    using that one by (auto simp: example_receiver_def)
  from goose_end_to_end [OF example_publishes example_sendable _ _ st _ _ _ _ _ rec,
      where r = example_receiver and b = 0 and N = 1518 and k = 1518 and F = "\<lparr>to_double = ucast, to_float = ucast\<rparr>" and now = 0]
    this
  show ?thesis using one example_content
    by (simp add: example_receiver_def example_publisher_def text_octets_def default_parameters_def)
qed



section \<open>Malformed messages\<close>

text \<open>
  C11: A message for a subscriber that has no time stamp makes the receiver read through a null pointer, whatever else is in it.
\<close>

theorem message_without_time_crashes:
  assumes "list_all goose_item_ok its" and "references_ok st" and "length (concat (map tlv_octets its)) < 65536"
    and "opt_fold (goose_eff st subs) empty_view its = Some a" and "g_subscriber a \<noteq> None" and "g_confRev a \<noteq> None" and "g_time a = None"
    and "length (concat (map tlv_octets its)) \<le> N"
  shows "parseGoosePayload N k F now st subs (tlv 0x61 (concat (map tlv_octets its)) @ rest) 0 (int (length (tlv 0x61 (concat (map tlv_octets its)))))
    = Inl Null_pointer"
proof -
  let ?p = "tlv 0x61 (concat (map tlv_octets its))"
  have "int (length ?p) < 2 ^ 31" using tlv_length_bound [OF assms(3), of "0x61"] by simp
  with payload_items [OF assms(1,2) bytes_at_self [of ?p rest], where n = "int (length ?p)" and N = N and subs = subs and k = k and F = F and now = now] assms(3,4,8)
  obtain l where l: "parseGoosePayload N k F now st subs (?p @ rest) 0 (int (length ?p)) = payload_done N k F now st (?p @ rest) l"
    "goose_rel (?p @ rest) l a" by auto
  have "matchingSubscriber l = g_subscriber a" "l_confRev l = g_confRev a" "timestampBufPos l = None"
    using l(2) assms(7) by (simp_all add: goose_rel_def located_def)
  with l(1) assms(5,6) show ?thesis by (auto simp: payload_done_def update_subscriber_def Let_def)
qed

theorem message_without_time_crashes_witness:
  "parseGoosePayload 9 9 \<lparr>to_double = ucast, to_float = ucast\<rparr> 0 example_store [1] (tlv 0x61 (concat (map tlv_octets [(0x80, [0x41]), (0x88, [1])])) @ []) 0
     (int (length (tlv 0x61 (concat (map tlv_octets [(0x80, [0x41]), (0x88, [1])]))))) = Inl Null_pointer"
proof -
  have st: "references_ok example_store" "sGooseSubscriber.goCBRef (example_store 1) = [0x41]"
    by (simp_all add: references_ok_def example_store_def GooseSubscriber_create_def GooseSubscriber_setAppId_def GooseSubscriber_setListener_def)
  have "opt_fold (goose_eff example_store [1]) empty_view [(0x80, [0x41]), (0x88, [1])]
      = Some (empty_view\<lparr>g_subscriber := Some 1, g_confRev := Some (unsigned32 [1])\<rparr>)"
    using st(2) by (simp add: with_reference_def)
  from message_without_time_crashes [OF _ st(1) _ this] show ?thesis by (simp add: empty_view_def small_tlv)
qed

text \<open>An element of the length -6: the position behind it is that of its tag.\<close>

definition looping_frame :: "byte list" where
  "looping_frame = replicate 12 0 @ [0x81, 0, 0x80, 0, 0x88, 0xb8, 0x10, 0x00, 0, 16, 0, 0, 0, 0, 0x61, 6, 0x00, 0x84, 0xff, 0xff, 0xff, 0xfa]"

text \<open>
  C10: One frame of 34 octets keeps a receiver busy forever: an element with a negative length makes \<open>parseGoosePayload\<close> come back to the same
  position in every round.
\<close>

theorem negative_element_length_never_ends:
  assumes "length (rbuffer r) = 1518" and "a \<in> set (subscriberList r)" and "sGooseSubscriber.appId (st a) = 0x1000"
  shows "GooseReceiver_tick N k F now st (Some looping_frame) r = Inl Out_of_fuel"
proof -
  let ?r = "r\<lparr>rbuffer := looping_frame @ drop 34 (rbuffer r)\<rparr>"
  define buf where "buf = looping_frame @ drop 34 (rbuffer r)"
  have at: "bytes_at buf 12 [0x81, 0, 0x80, 0, 0x88, 0xb8, 0x10, 0x00, 0, 16, 0, 0, 0, 0, 0x61, 6, 0x00, 0x84, 0xff, 0xff, 0xff, 0xfa]"
    using bytes_at_middle [of "replicate 12 0"] by (simp only: buf_def looping_frame_def append_assoc) (metis length_replicate of_nat_numeral)
  have len: "length looping_frame = 34" by (simp add: looping_frame_def)
  have b: "rd buf 26 = Inr 0x61" "rd buf 27 = Inr 6" "rd buf 28 = Inr 0" "rd buf 29 = Inr 0x84" "rd buf 30 = Inr 0xff" "rd buf 31 = Inr 0xff"
    "rd buf 32 = Inr 0xff" "rd buf 33 = Inr 0xfa" using at by simp_all
  have gl: "decode_length_from 26 buf None 27 34 = Inr (28, Some 6)"
    using b by (simp add: decode_length_from_def BerDecoder_decodeLength_def)
  have four: "(4 :: nat) = Suc (Suc (Suc (Suc 0)))" by simp
  have i: "i32 255 = 255" "i32 65280 = 65280" "i32 65535 = 65535" "i32 16776960 = 16776960" "i32 16777215 = 16777215" "i32 4294967040 = -256"
    by (simp_all add: i32_def signed_take_bit_eq_take_bit_shift take_bit_eq_mod)
  have "decode_length_octets buf 4 0 30 34 = Inr (34, -6)"
    unfolding four using b by (simp add: i)
  then have el: "decode_length_from 26 buf None 29 34 = Inr (34, Some (-6))"
    using b by (simp add: decode_length_from_def BerDecoder_decodeLength_def)
  have "payload_round st (subscriberList r) buf 26 8 (28, initial_locals) = Inr (Continue (28, initial_locals))"
    using el b(3) by (simp add: payload_round_def payload_element_def advance_def)
  then have loop: "c_while N (\<lambda>(p, _). p < 34) (payload_round st (subscriberList r) buf 26 8) (28, initial_locals) = Inl Out_of_fuel"
    by (intro c_while_diverges) simp_all
  have "parseGoosePayload N k F now st (subscriberList r) buf 26 8 = Inl Out_of_fuel"
    using b(1) gl loop by (simp add: parseGoosePayload_def advance_def Let_def)
  moreover have "parseGooseMessage N k F now st ?r 34 = parseGoosePayload N k F now st (subscriberList r) buf 26 (16 - 8)"
    using header_parsed [of ?r "0x10" 0 0 16 "0x1000" 16 34 a st N k F now] at assms(2,3) by (simp add: buf_def)
  ultimately show ?thesis using len by (simp add: GooseReceiver_tick_def ETH_BUFFER_LENGTH_def)
qed

theorem negative_element_length_never_ends_witness:
  "GooseReceiver_tick 1000 9 \<lparr>to_double = ucast, to_float = ucast\<rparr> 0 example_store (Some looping_frame) example_receiver = Inl Out_of_fuel"
  by (rule negative_element_length_never_ends [of _ 0])
    (simp_all add: example_receiver_def example_store_def GooseSubscriber_create_def GooseSubscriber_setAppId_def)

end
