(* ===== verification/Control_Object.thy ===== *)
theory Control_Object
  imports Mms_Value C_Strings
begin

text \<open>
  The control service of the server: \<open>libiec61850/src/iec61850/server/mms_mapping/control.c\<close>, with the client connections of
  \<open>server/impl/client_connection.c\<close> and \<open>server/impl/ied_server.c\<close> and the end of a connection in \<open>mms_mapping.c\<close>.

  A control object is a record with the fields of \<open>struct sControlObject\<close> that the code uses; the lock around the state is left out.
  \<open>oper\<close>, \<open>sbow\<close> and \<open>cancel\<close> point into the components of \<open>mmsValue\<close>, here they are indices of components. \<open>sboClass\<close>
  and \<open>sboTimeout\<close> point to variables of the data model; the fields hold their values. An MMS connection is a number, a null pointer
  is \<open>None\<close>. What goes out on connections, and the calls of the application's handlers, are events in the order they
  happen; the answer of a handler depends on the moment of the operation, which is an argument. The number of running tasks of a connection is not
  bounded here. Memory is always available.
\<close>

section \<open>The data\<close>

datatype control_state =
    STATE_UNSELECTED | STATE_READY | STATE_WAIT_FOR_ACTIVATION_TIME | STATE_PERFORM_TEST | STATE_WAIT_FOR_EXECUTION | STATE_OPERATE

datatype CheckHandlerResult =
    CONTROL_ACCEPTED | CONTROL_HARDWARE_FAULT | CONTROL_TEMPORARILY_UNAVAILABLE | CONTROL_OBJECT_ACCESS_DENIED
  | CONTROL_OBJECT_UNDEFINED

datatype ControlHandlerResult = CONTROL_RESULT_FAILED | CONTROL_RESULT_OK | CONTROL_RESULT_WAITING

datatype ControlAddCause =
    ADD_CAUSE_UNKNOWN | ADD_CAUSE_NOT_SUPPORTED | ADD_CAUSE_BLOCKED_BY_SWITCHING_HIERARCHY | ADD_CAUSE_SELECT_FAILED
  | ADD_CAUSE_INVALID_POSITION | ADD_CAUSE_POSITION_REACHED | ADD_CAUSE_PARAMETER_CHANGE_IN_EXECUTION | ADD_CAUSE_STEP_LIMIT
  | ADD_CAUSE_BLOCKED_BY_MODE | ADD_CAUSE_BLOCKED_BY_PROCESS | ADD_CAUSE_BLOCKED_BY_INTERLOCKING
  | ADD_CAUSE_BLOCKED_BY_SYNCHROCHECK | ADD_CAUSE_COMMAND_ALREADY_IN_EXECUTION | ADD_CAUSE_BLOCKED_BY_HEALTH
  | ADD_CAUSE_1_OF_N_CONTROL | ADD_CAUSE_ABORTION_BY_CANCEL | ADD_CAUSE_TIME_LIMIT_OVER | ADD_CAUSE_ABORTION_BY_TRIP
  | ADD_CAUSE_OBJECT_NOT_SELECTED | ADD_CAUSE_OBJECT_ALREADY_SELECTED | ADD_CAUSE_NO_ACCESS_AUTHORITY
  | ADD_CAUSE_ENDED_WITH_OVERSHOOT | ADD_CAUSE_ABORTION_DUE_TO_DEVIATION | ADD_CAUSE_ABORTION_BY_COMMUNICATION_LOSS
  | ADD_CAUSE_ABORTION_BY_COMMAND | ADD_CAUSE_NONE | ADD_CAUSE_INCONSISTENT_PARAMETERS | ADD_CAUSE_LOCKED_BY_OTHER_CLIENT

definition all_causes :: "ControlAddCause list" where
  "all_causes =
     [ADD_CAUSE_UNKNOWN, ADD_CAUSE_NOT_SUPPORTED, ADD_CAUSE_BLOCKED_BY_SWITCHING_HIERARCHY, ADD_CAUSE_SELECT_FAILED,
      ADD_CAUSE_INVALID_POSITION, ADD_CAUSE_POSITION_REACHED, ADD_CAUSE_PARAMETER_CHANGE_IN_EXECUTION, ADD_CAUSE_STEP_LIMIT,
      ADD_CAUSE_BLOCKED_BY_MODE, ADD_CAUSE_BLOCKED_BY_PROCESS, ADD_CAUSE_BLOCKED_BY_INTERLOCKING,
      ADD_CAUSE_BLOCKED_BY_SYNCHROCHECK, ADD_CAUSE_COMMAND_ALREADY_IN_EXECUTION, ADD_CAUSE_BLOCKED_BY_HEALTH,
      ADD_CAUSE_1_OF_N_CONTROL, ADD_CAUSE_ABORTION_BY_CANCEL, ADD_CAUSE_TIME_LIMIT_OVER, ADD_CAUSE_ABORTION_BY_TRIP,
      ADD_CAUSE_OBJECT_NOT_SELECTED, ADD_CAUSE_OBJECT_ALREADY_SELECTED, ADD_CAUSE_NO_ACCESS_AUTHORITY,
      ADD_CAUSE_ENDED_WITH_OVERSHOOT, ADD_CAUSE_ABORTION_DUE_TO_DEVIATION, ADD_CAUSE_ABORTION_BY_COMMUNICATION_LOSS,
      ADD_CAUSE_ABORTION_BY_COMMAND, ADD_CAUSE_NONE, ADD_CAUSE_INCONSISTENT_PARAMETERS, ADD_CAUSE_LOCKED_BY_OTHER_CLIENT]"

fun position_of :: "'a \<Rightarrow> 'a list \<Rightarrow> nat" where
  "position_of x [] = 0"
| "position_of x (y # ys) = (if x = y then 0 else Suc (position_of x ys))"

definition cause_code :: "ControlAddCause \<Rightarrow> u32" where
  "cause_code c = of_nat (position_of c all_causes)"

abbreviation CONTROL_ERROR_NO_ERROR :: u32 where "CONTROL_ERROR_NO_ERROR \<equiv> 0"
abbreviation CONTROL_ERROR_UNKOWN :: u32 where "CONTROL_ERROR_UNKOWN \<equiv> 1"

type_synonym connection = nat
type_synonym moment = nat

type_synonym ControlHandler = "moment \<Rightarrow> sMmsValue option \<Rightarrow> bool \<Rightarrow> ControlHandlerResult"
type_synonym ControlPerformCheckHandler = "moment \<Rightarrow> sMmsValue option \<Rightarrow> bool \<Rightarrow> bool \<Rightarrow> connection option \<Rightarrow> CheckHandlerResult"
type_synonym ControlWaitForExecutionHandler = "moment \<Rightarrow> sMmsValue option \<Rightarrow> bool \<Rightarrow> bool \<Rightarrow> ControlHandlerResult"

record sMmsDomain =
  domainAddress :: nat
  domainName :: string

record sControlObject =
  mmsDomain :: sMmsDomain
  lnName :: string
  objName :: string
  ctlState :: control_state
  mmsValue :: "sMmsValue option"
  ctlTypeSpec :: "MmsVariableSpecification option"
  oper :: "nat option"
  sbo :: "sMmsValue option"
  sbow :: "nat option"
  cancel :: "nat option"
  ctlVal :: "sMmsValue option"
  ctlNum :: "sMmsValue option"
  origin :: "sMmsValue option"
  ctlObjectName :: "string option"
  applError :: "sMmsValue option"
  addCause :: "sMmsValue option"
  selected :: bool
  selectTime :: u64
  selectTimeout :: u32
  sboClass :: "sMmsValue option"
  sboTimeout :: "sMmsValue option"
  timeActivatedOperate :: bool
  operateTime :: u64
  mmsConnection :: "connection option"
  emptyString :: "sMmsValue option"
  ctlInitialized :: bool
  ctlModel :: u32
  testMode :: bool
  interlockCheck :: bool
  synchroCheck :: bool
  operateInvokeId :: u32
  operateHandler :: "ControlHandler option"
  checkHandler :: "ControlPerformCheckHandler option"
  waitForExecutionHandler :: "ControlWaitForExecutionHandler option"

record sClientConnection =
  tasksCount :: int
  serverConnectionHandle :: connection

text \<open>A variable of an information report: domain, item and value.\<close>

datatype server_event =
    WriteResponse connection u32 MmsDataAccessError
  | InformationReport connection "(string option \<times> string \<times> sMmsValue option) list"
  | VmdSpecificReport connection string sMmsValue
  | CheckCalled "sMmsValue option" bool bool "connection option"
  | WaitCalled "sMmsValue option" bool bool
  | OperateCalled "sMmsValue option" bool

record control_env =
  clientConnections :: "sClientConnection list"
  events :: "server_event list"

record sMmsMapping =
  controlObjects :: "sControlObject list"
  iedServer :: control_env

text \<open>Reading through a pointer, and adding an event.\<close>

definition through :: "'a option \<Rightarrow> 'a run" where
  "through p = (case p of None \<Rightarrow> Inl Null_pointer | Some x \<Rightarrow> Inr x)"

definition emit :: "server_event \<Rightarrow> control_env \<Rightarrow> control_env" where
  "emit e env = env\<lparr>events := events env @ [e]\<rparr>"


section \<open>Client connections\<close>

definition private_ClientConnection_create :: "connection \<Rightarrow> sClientConnection" where
  "private_ClientConnection_create handle = \<lparr>tasksCount = 0, serverConnectionHandle = handle\<rparr>"

definition private_ClientConnection_getTasksCount :: "sClientConnection \<Rightarrow> int" where
  "private_ClientConnection_getTasksCount self = tasksCount self"

definition private_ClientConnection_increaseTasksCount :: "sClientConnection \<Rightarrow> sClientConnection" where
  "private_ClientConnection_increaseTasksCount self = self\<lparr>tasksCount := tasksCount self + 1\<rparr>"

definition private_ClientConnection_decreaseTasksCount :: "sClientConnection \<Rightarrow> sClientConnection" where
  "private_ClientConnection_decreaseTasksCount self = self\<lparr>tasksCount := tasksCount self - 1\<rparr>"

fun private_IedServer_getClientConnectionByHandle :: "sClientConnection list \<Rightarrow> connection option \<Rightarrow> sClientConnection option" where
  "private_IedServer_getClientConnectionByHandle [] handle = None"
| "private_IedServer_getClientConnectionByHandle (c # cs) handle =
     (if Some (serverConnectionHandle c) = handle then Some c else private_IedServer_getClientConnectionByHandle cs handle)"

definition private_IedServer_addNewClientConnection :: "sClientConnection \<Rightarrow> sClientConnection list \<Rightarrow> sClientConnection list" where
  "private_IedServer_addNewClientConnection c cs = cs @ [c]"

text \<open>The connection that is found is the one that is changed.\<close>

fun with_connection :: "(sClientConnection \<Rightarrow> sClientConnection) \<Rightarrow> connection option \<Rightarrow> sClientConnection list \<Rightarrow> sClientConnection list" where
  "with_connection f handle [] = []"
| "with_connection f handle (c # cs) =
     (if Some (serverConnectionHandle c) = handle then f c # cs else c # with_connection f handle cs)"

text \<open>The handle of the connection that a handler is given.\<close>

definition client_of :: "control_env \<Rightarrow> connection option \<Rightarrow> connection option" where
  "client_of env handle =
     map_option serverConnectionHandle (private_IedServer_getClientConnectionByHandle (clientConnections env) handle)"


section \<open>States and selection\<close>

definition setState :: "control_state \<Rightarrow> sControlObject \<Rightarrow> sControlObject" where
  "setState s self = self\<lparr>ctlState := s\<rparr>"

definition getState :: "sControlObject \<Rightarrow> control_state" where
  "getState self = ctlState self"

abbreviation is_sbo :: "sControlObject \<Rightarrow> bool" where
  "is_sbo self \<equiv> ctlModel self = 2 \<or> ctlModel self = 4"

definition updateSboTimeoutValue :: "sControlObject \<Rightarrow> sControlObject run" where
  "updateSboTimeoutValue self =
     (case sboTimeout self of
        Some v \<Rightarrow> rbind (MmsValue_toInt32 v) (\<lambda>t. Inr (self\<lparr>selectTimeout := t\<rparr>))
      | None \<Rightarrow> Inr (self\<lparr>selectTimeout := 15000\<rparr>))"

text \<open>\<open>StringUtils_createStringInBuffer\<close> in a buffer of \<open>n\<close> octets.\<close>

definition string_in_buffer :: "nat \<Rightarrow> string list \<Rightarrow> string run" where
  "string_in_buffer n texts = (if length (concat texts) < n then Inr (concat texts) else Inl Out_of_bounds)"

text \<open>The variables of the data model are looked up by their domain and item.\<close>

definition initialize_model :: "(sMmsDomain \<Rightarrow> string \<Rightarrow> sMmsValue option) \<Rightarrow> sMmsValue \<Rightarrow> sControlObject \<Rightarrow> sControlObject run" where
  "initialize_model cache modelValue self =
     rbind (MmsValue_toInt32 modelValue) (\<lambda>ctlModelVal.
       let self = self\<lparr>ctlModel := ctlModelVal\<rparr>
       in if is_sbo self then
            rbind (MmsValue_newVisibleString (Some (ascii (concat [domainName (mmsDomain self), ''/'', lnName self, ''$'', objName self, ''$SBO''])))) (\<lambda>r.
              rbind (updateSboTimeoutValue (self\<lparr>sbo := Some r,
                  sboTimeout := cache (mmsDomain self) (concat [lnName self, ''$CF$'', objName self, ''$sboTimeout''])\<rparr>)) (\<lambda>self.
                Inr (setState STATE_UNSELECTED self)))
          else rbind (MmsValue_newVisibleString None) (\<lambda>r. Inr (setState STATE_READY (self\<lparr>sbo := Some r\<rparr>))))"

definition initialize :: "(sMmsDomain \<Rightarrow> string \<Rightarrow> sMmsValue option) \<Rightarrow> sControlObject \<Rightarrow> sControlObject run" where
  "initialize cache self =
     (if ctlInitialized self then Inr self
      else rbind (MmsValue_newVisibleString None) (\<lambda>empty.
           rbind (string_in_buffer 130 [domainName (mmsDomain self), ''/'', lnName self, ''$CO$'', objName self]) (\<lambda>reference.
           rbind (MmsValue_newIntegerFromInt32 0) (\<lambda>zero.
             let self = self\<lparr>emptyString := Some empty,
                   sboClass := cache (mmsDomain self) (concat [lnName self, ''$CF$'', objName self, ''$sboClass'']),
                   ctlObjectName := Some reference, applError := Some zero, addCause := Some zero\<rparr>
             in rbind (case cache (mmsDomain self) (concat [lnName self, ''$CF$'', objName self, ''$ctlModel'']) of
                         None \<Rightarrow> Inr self | Some modelValue \<Rightarrow> initialize_model cache modelValue self) (\<lambda>self.
                  Inr (self\<lparr>ctlInitialized := True\<rparr>))))))"

definition isSboClassOperateOnce :: "sControlObject \<Rightarrow> bool run" where
  "isSboClassOperateOnce self =
     (case sboClass self of Some v \<Rightarrow> rbind (MmsValue_toInt32 v) (\<lambda>c. Inr (c \<noteq> 1)) | None \<Rightarrow> Inr True)"

definition selectObject :: "u64 \<Rightarrow> connection \<Rightarrow> sControlObject \<Rightarrow> sControlObject run" where
  "selectObject t conn self =
     rbind (updateSboTimeoutValue self) (\<lambda>self.
       Inr (setState STATE_READY (self\<lparr>selected := True, selectTime := t, mmsConnection := Some conn\<rparr>)))"

definition unselectObject :: "sControlObject \<Rightarrow> sControlObject" where
  "unselectObject self = setState STATE_UNSELECTED self"

definition checkSelectTimeout :: "u64 \<Rightarrow> sControlObject \<Rightarrow> sControlObject" where
  "checkSelectTimeout currentTime self =
     (if is_sbo self \<and> getState self = STATE_READY \<and> selectTimeout self > 0
         \<and> currentTime > selectTime self + ucast (selectTimeout self)
      then unselectObject self else self)"


section \<open>The components of a request\<close>

text \<open>A component of a structure by the number of its components.\<close>

fun component_by_size :: "sMmsValue \<Rightarrow> (int \<times> int) list \<Rightarrow> sMmsValue option run" where
  "component_by_size v [] = Inr None"
| "component_by_size v ((n, i) # places) =
     rbind (MmsValue_getArraySize v) (\<lambda>k. if k = n then MmsValue_getElement v i else component_by_size v places)"

definition structure_component :: "sMmsValue \<Rightarrow> (int \<times> int) list \<Rightarrow> sMmsValue option run" where
  "structure_component v places = (if MmsValue_getType v = MMS_STRUCTURE then component_by_size v places else Inr None)"

definition getOperParameterOperTime :: "sMmsValue \<Rightarrow> sMmsValue option run" where
  "getOperParameterOperTime v = structure_component v [(7, 1)]"

definition getCtlVal :: "sMmsValue \<Rightarrow> sMmsValue option run" where
  "getCtlVal v =
     (if MmsValue_getType v = MMS_STRUCTURE then
        rbind (MmsValue_getArraySize v) (\<lambda>n. if n > 5 then MmsValue_getElement v 0 else Inr None)
      else Inr None)"

definition getOperParameterCtlNum :: "sMmsValue \<Rightarrow> sMmsValue option run" where
  "getOperParameterCtlNum v = structure_component v [(7, 3), (6, 2)]"

definition getCancelParameterCtlNum :: "sMmsValue \<Rightarrow> sMmsValue option run" where
  "getCancelParameterCtlNum v = structure_component v [(6, 3), (5, 2)]"

definition getCancelParameterOrigin :: "sMmsValue \<Rightarrow> sMmsValue option run" where
  "getCancelParameterOrigin v = structure_component v [(6, 2), (5, 1)]"

definition getOperParameterTest :: "sMmsValue \<Rightarrow> sMmsValue option run" where
  "getOperParameterTest v = structure_component v [(7, 5), (6, 4)]"

definition getOperParameterCheck :: "sMmsValue \<Rightarrow> sMmsValue option run" where
  "getOperParameterCheck v = structure_component v [(7, 6), (6, 5)]"

definition getOperParameterOrigin :: "sMmsValue \<Rightarrow> sMmsValue option run" where
  "getOperParameterOrigin v = structure_component v [(7, 2), (6, 1)]"

definition getOperParameterTime :: "sMmsValue \<Rightarrow> sMmsValue option run" where
  "getOperParameterTime v =
     rbind (structure_component v [(7, 4), (6, 3)]) (\<lambda>p. case p of
       None \<Rightarrow> Inr None
     | Some t \<Rightarrow> Inr (if MmsValue_getType t = MMS_UTC_TIME \<or> MmsValue_getType t = MMS_BINARY_TIME then Some t else None))"

definition checkValidityOfOriginParameter :: "sMmsValue option \<Rightarrow> bool run" where
  "checkValidityOfOriginParameter p =
     rbind (through p) (\<lambda>v.
       if MmsValue_getType v \<noteq> MMS_STRUCTURE then Inr False
       else rbind (MmsValue_getArraySize v) (\<lambda>n. if n \<noteq> 2 then Inr False
       else rbind (MmsValue_getElement v 1) (\<lambda>e. rbind (through e) (\<lambda>orIdent.
         if MmsValue_getType orIdent \<noteq> MMS_OCTET_STRING then Inr False
         else rbind (MmsValue_getOctetStringSize orIdent) (\<lambda>k. if uint k > 64 then Inr False
         else rbind (MmsValue_getElement v 0) (\<lambda>e'. rbind (through e') (\<lambda>orCat.
           if MmsValue_getType orCat \<noteq> MMS_INTEGER then Inr False
           else rbind (MmsValue_toInt32 orCat) (\<lambda>i. Inr (\<not> (sint i < 0 \<or> sint i > 8))))))))))"

section \<open>Messages to the client\<close>

text \<open>The value that \<open>oper\<close>, \<open>sbow\<close> or \<open>cancel\<close> points to, and a change of the value of \<open>oper\<close>.\<close>

definition pointed_value :: "sControlObject \<Rightarrow> nat option \<Rightarrow> sMmsValue option run" where
  "pointed_value self p =
     (case p of None \<Rightarrow> Inr None
      | Some i \<Rightarrow> rbind (through (mmsValue self)) (\<lambda>v. component_at (mvalue v) i))"

definition change_oper :: "(sMmsValue \<Rightarrow> sMmsValue run) \<Rightarrow> sControlObject \<Rightarrow> sControlObject run" where
  "change_oper f self =
     rbind (through (oper self)) (\<lambda>i. rbind (through (mmsValue self)) (\<lambda>v.
     rbind (component_at (mvalue v) i) (\<lambda>c. rbind (through c) (\<lambda>operValue.
     rbind (f operValue) (\<lambda>operValue'. rbind (structure_of (mvalue v)) (\<lambda>cs.
       Inr (self\<lparr>mmsValue := Some (with_member (U_structure (cs[i := Some operValue'])) v)\<rparr>)))))))"

definition ControlObject_sendCommandTerminationPositive :: "sControlObject \<Rightarrow> control_env \<Rightarrow> control_env run" where
  "ControlObject_sendCommandTerminationPositive self env =
     rbind (string_in_buffer 68 [lnName self, ''$CO$'', objName self, ''$Oper'']) (\<lambda>itemId.
     rbind (pointed_value self (oper self)) (\<lambda>operValue.
     rbind (through (mmsConnection self)) (\<lambda>conn.
       Inr (emit (InformationReport conn [(Some (domainName (mmsDomain self)), itemId, operValue)]) env))))"

text \<open>The structure \<open>LastApplError\<close>; the error and the cause are values of the control object and keep what is stored.\<close>

definition last_appl_error ::
    "string \<Rightarrow> u32 \<Rightarrow> ControlAddCause \<Rightarrow> sMmsValue option \<Rightarrow> sMmsValue option \<Rightarrow> sControlObject \<Rightarrow> (sMmsValue \<times> sControlObject) run" where
  "last_appl_error ctlObj err cause num orig self =
     rbind (through (applError self)) (\<lambda>e. rbind (MmsValue_setInt32 e err) (\<lambda>e'.
     rbind (through (addCause self)) (\<lambda>a. rbind (MmsValue_setInt32 a (cause_code cause)) (\<lambda>a'.
       Inr (MmsValue MMS_STRUCTURE 0 (U_structure
              [Some (MmsValue MMS_VISIBLE_STRING 0 (U_visibleString (Some (ascii ctlObj, 130)) 130)),
               Some e', orig, num, Some a']),
            self\<lparr>applError := Some e', addCause := Some a'\<rparr>)))))"

definition ControlObject_sendCommandTerminationNegative ::
    "sControlObject \<Rightarrow> control_env \<Rightarrow> (sControlObject \<times> control_env) run" where
  "ControlObject_sendCommandTerminationNegative self env =
     rbind (through (ctlObjectName self)) (\<lambda>reference.
     rbind (string_in_buffer 130 [reference, ''$Oper'']) (\<lambda>ctlObj.
     rbind (last_appl_error ctlObj CONTROL_ERROR_UNKOWN ADD_CAUSE_UNKNOWN (ctlNum self) (origin self) self) (\<lambda>(lastApplError, self).
     rbind (string_in_buffer 130 [lnName self, ''$CO$'', objName self, ''$Oper'']) (\<lambda>itemId.
     rbind (pointed_value self (oper self)) (\<lambda>operValue.
     rbind (through (mmsConnection self)) (\<lambda>conn.
       Inr (self, emit (InformationReport conn
         [(None, ''LastApplError'', Some lastApplError), (Some (domainName (mmsDomain self)), itemId, operValue)]) env)))))))"

definition ControlObject_sendLastApplError ::
    "connection option \<Rightarrow> string \<Rightarrow> u32 \<Rightarrow> ControlAddCause \<Rightarrow> sMmsValue option \<Rightarrow> sMmsValue option
      \<Rightarrow> sControlObject \<Rightarrow> control_env \<Rightarrow> (sControlObject \<times> control_env) run" where
  "ControlObject_sendLastApplError connection ctlVariable err cause num orig self env =
     rbind (through (ctlObjectName self)) (\<lambda>reference.
     rbind (string_in_buffer 130 [reference, ''$'', ctlVariable]) (\<lambda>ctlObj.
     rbind (last_appl_error ctlObj err cause num orig self) (\<lambda>(lastApplError, self).
     rbind (through connection) (\<lambda>conn.
       Inr (self, emit (VmdSpecificReport conn ''LastApplError'' lastApplError) env)))))"

definition MmsServerConnection_sendWriteResponse ::
    "connection option \<Rightarrow> u32 \<Rightarrow> MmsDataAccessError \<Rightarrow> control_env \<Rightarrow> control_env run" where
  "MmsServerConnection_sendWriteResponse connection invokeId indication env =
     rbind (through connection) (\<lambda>conn. Inr (emit (WriteResponse conn invokeId indication) env))"


section \<open>Tasks\<close>

definition initiateControlTask :: "sControlObject \<Rightarrow> control_env \<Rightarrow> control_env" where
  "initiateControlTask self env =
     env\<lparr>clientConnections :=
       with_connection private_ClientConnection_increaseTasksCount (mmsConnection self) (clientConnections env)\<rparr>"

definition exitControlTask :: "sControlObject \<Rightarrow> control_env \<Rightarrow> control_env" where
  "exitControlTask self env =
     env\<lparr>clientConnections :=
       with_connection private_ClientConnection_decreaseTasksCount (mmsConnection self) (clientConnections env)\<rparr>"

definition abortControlOperation :: "sControlObject \<Rightarrow> control_env \<Rightarrow> (sControlObject \<times> control_env) run" where
  "abortControlOperation self env =
     rbind (if is_sbo self
            then rbind (isSboClassOperateOnce self) (\<lambda>once. Inr (if once then unselectObject self else setState STATE_READY self))
            else Inr (setState STATE_READY self)) (\<lambda>self.
       Inr (self, exitControlTask self env))"

definition operateControl ::
    "moment \<Rightarrow> sMmsValue option \<Rightarrow> u64 \<Rightarrow> bool \<Rightarrow> sControlObject \<Rightarrow> control_env \<Rightarrow> ControlHandlerResult \<times> sControlObject \<times> control_env" where
  "operateControl m v currentTime testCondition self env =
     (let self = self\<lparr>selectTime := currentTime\<rparr>
      in case operateHandler self of
           Some handler \<Rightarrow> (handler m v testCondition, self, emit (OperateCalled v testCondition) env)
         | None \<Rightarrow> (CONTROL_RESULT_OK, self, env))"

text \<open>The end of an operation or of a failed one: it is aborted, and the task is left.\<close>

definition finish_task :: "sControlObject \<Rightarrow> control_env \<Rightarrow> (sControlObject \<times> control_env) run" where
  "finish_task self env =
     rbind (abortControlOperation self env) (\<lambda>(self, env). Inr (self, exitControlTask self env))"

text \<open>The branch \<open>STATE_OPERATE\<close>; \<open>now\<close> is the time the clock shows.\<close>

definition execute_operate :: "moment \<Rightarrow> u64 \<Rightarrow> sControlObject \<Rightarrow> control_env \<Rightarrow> (sControlObject \<times> control_env) run" where
  "execute_operate m now self env =
     (let (result, self, env) = operateControl m (ctlVal self) now (testMode self) self env
      in if result = CONTROL_RESULT_WAITING then Inr (self, env)
         else rbind (if ctlModel self = 4 \<or> ctlModel self = 3 then
                       (if result = CONTROL_RESULT_OK
                        then rbind (ControlObject_sendCommandTerminationPositive self env) (\<lambda>env. Inr (self, env))
                        else ControlObject_sendCommandTerminationNegative self env)
                     else Inr (self, env)) (\<lambda>(self, env).
                finish_task self env))"

definition call_wait_handler :: "moment \<Rightarrow> sControlObject \<Rightarrow> control_env \<Rightarrow> ControlHandlerResult \<times> control_env" where
  "call_wait_handler m self env =
     (case waitForExecutionHandler self of
        Some handler \<Rightarrow> (handler m (ctlVal self) (testMode self) (synchroCheck self),
                         emit (WaitCalled (ctlVal self) (testMode self) (synchroCheck self)) env)
      | None \<Rightarrow> (CONTROL_RESULT_OK, env))"

text \<open>\<open>MmsValue_setUtcTime (operTm, 0)\<close> on the component of \<open>oper\<close>.\<close>

definition clear_operate_time :: "sMmsValue \<Rightarrow> sMmsValue run" where
  "clear_operate_time operValue =
     rbind (getOperParameterOperTime operValue) (\<lambda>p. rbind (through p) (\<lambda>operTm. rbind (MmsValue_setUtcTime operTm 0) (\<lambda>operTm'.
       MmsValue_setElement operValue 1 (Some operTm'))))"

definition executeControlTask :: "moment \<Rightarrow> u64 \<Rightarrow> sControlObject \<Rightarrow> control_env \<Rightarrow> (sControlObject \<times> control_env) run" where
  "executeControlTask m now self env =
     (let state = getState self
      in if state = STATE_WAIT_FOR_ACTIVATION_TIME \<or> state = STATE_WAIT_FOR_EXECUTION then
           let isTimeActivatedControl = (state = STATE_WAIT_FOR_ACTIVATION_TIME);
               (dynamicCheckResult, env) = call_wait_handler m self env
           in case dynamicCheckResult of
                CONTROL_RESULT_FAILED \<Rightarrow>
                  rbind (if isTimeActivatedControl
                         then ControlObject_sendLastApplError (mmsConnection self) ''Oper'' CONTROL_ERROR_NO_ERROR
                                ADD_CAUSE_BLOCKED_BY_SYNCHROCHECK (ctlNum self) (origin self) self env
                         else rbind (MmsServerConnection_sendWriteResponse (mmsConnection self) (operateInvokeId self)
                                DATA_ACCESS_ERROR_OBJECT_ACCESS_DENIED env) (\<lambda>env. Inr (self, env))) (\<lambda>(self, env).
                    finish_task self env)
              | CONTROL_RESULT_OK \<Rightarrow>
                  rbind (if isTimeActivatedControl
                         then rbind (ControlObject_sendCommandTerminationPositive self env) (\<lambda>env.
                              rbind (change_oper clear_operate_time self) (\<lambda>self. Inr (self, env)))
                         else rbind (MmsServerConnection_sendWriteResponse (mmsConnection self) (operateInvokeId self)
                                DATA_ACCESS_ERROR_SUCCESS env) (\<lambda>env. Inr (self, env))) (\<lambda>(self, env).
                    execute_operate m now (setState STATE_OPERATE self) env)
              | CONTROL_RESULT_WAITING \<Rightarrow> Inr (self, env)
         else if state = STATE_OPERATE then execute_operate m now self env
         else Inr (self, env))"

definition ControlObject_unselect :: "connection \<Rightarrow> sControlObject \<Rightarrow> control_env \<Rightarrow> (bool \<times> sControlObject \<times> control_env) run" where
  "ControlObject_unselect conn self env =
     (if mmsConnection self = Some conn
      then rbind (abortControlOperation self env) (\<lambda>(self, env). Inr (True, self, env))
      else Inr (False, self, env))"

text \<open>The operative tests: the check handler, where there is one.\<close>

definition call_check_handler ::
    "moment \<Rightarrow> sMmsValue option \<Rightarrow> bool \<Rightarrow> bool \<Rightarrow> connection option \<Rightarrow> sControlObject \<Rightarrow> control_env \<Rightarrow> CheckHandlerResult \<times> control_env" where
  "call_check_handler m v test interlock connection self env =
     (case checkHandler self of
        Some handler \<Rightarrow> (let client = client_of env connection
                         in (handler m v test interlock client, emit (CheckCalled v test interlock client) env))
      | None \<Rightarrow> (CONTROL_ACCEPTED, env))"

text \<open>One control object in the loop of \<open>Control_processControlActions\<close>.\<close>

definition process_control_object ::
    "moment \<Rightarrow> u64 \<Rightarrow> u64 \<Rightarrow> sControlObject \<Rightarrow> control_env \<Rightarrow> (sControlObject \<times> control_env) run" where
  "process_control_object m currentTimeInMs now self env =
     (if ctlState self = STATE_WAIT_FOR_ACTIVATION_TIME then
        (if operateTime self \<le> currentTimeInMs then
           let self = self\<lparr>timeActivatedOperate := False\<rparr>;
               (checkResult, env) = call_check_handler m (ctlVal self) (testMode self) (interlockCheck self) (mmsConnection self) self env
           in if checkResult = CONTROL_ACCEPTED then executeControlTask m now self env
              else rbind (ControlObject_sendLastApplError (mmsConnection self) ''Oper'' CONTROL_ERROR_NO_ERROR
                     ADD_CAUSE_BLOCKED_BY_INTERLOCKING (ctlNum self) (origin self) self env) (\<lambda>(self, env).
                   abortControlOperation self env)
         else Inr (self, env))
      else if \<not> (ctlState self = STATE_UNSELECTED \<or> ctlState self = STATE_READY) then executeControlTask m now self env
      else Inr (self, env))"

fun process_objects :: "moment \<Rightarrow> u64 \<Rightarrow> u64 \<Rightarrow> sControlObject list \<Rightarrow> control_env \<Rightarrow> (sControlObject list \<times> control_env) run" where
  "process_objects m t now [] env = Inr ([], env)"
| "process_objects m t now (c # cs) env =
     rbind (process_control_object m t now c env) (\<lambda>(c', env).
     rbind (process_objects m t now cs env) (\<lambda>(cs', env). Inr (c' # cs', env)))"

definition Control_processControlActions :: "moment \<Rightarrow> u64 \<Rightarrow> u64 \<Rightarrow> sMmsMapping \<Rightarrow> sMmsMapping run" where
  "Control_processControlActions m currentTimeInMs now self =
     rbind (process_objects m currentTimeInMs now (controlObjects self) (iedServer self)) (\<lambda>(cs, env).
       Inr (self\<lparr>controlObjects := cs, iedServer := env\<rparr>))"

section \<open>Making and finding control objects\<close>

text \<open>What \<open>GLOBAL_CALLOC\<close> leaves in the record, with the names that are set.\<close>

definition ControlObject_create :: "sMmsDomain \<Rightarrow> string \<Rightarrow> string \<Rightarrow> sControlObject" where
  "ControlObject_create domain ln objectName =
     \<lparr>mmsDomain = domain, lnName = ln, objName = objectName, ctlState = STATE_UNSELECTED, mmsValue = None, ctlTypeSpec = None,
      oper = None, sbo = None, sbow = None, cancel = None, ctlVal = None, ctlNum = None, origin = None, ctlObjectName = None,
      applError = None, addCause = None, selected = False, selectTime = 0, selectTimeout = 0, sboClass = None, sboTimeout = None,
      timeActivatedOperate = False, operateTime = 0, mmsConnection = None, emptyString = None, ctlInitialized = False,
      ctlModel = 0, testMode = False, interlockCheck = False, synchroCheck = False, operateInvokeId = 0,
      operateHandler = None, checkHandler = None, waitForExecutionHandler = None\<rparr>"

definition ControlObject_setOper :: "nat option \<Rightarrow> sControlObject \<Rightarrow> sControlObject" where
  "ControlObject_setOper p self = self\<lparr>oper := p\<rparr>"

definition ControlObject_setCancel :: "nat option \<Rightarrow> sControlObject \<Rightarrow> sControlObject" where
  "ControlObject_setCancel p self = self\<lparr>cancel := p\<rparr>"

definition ControlObject_setSBOw :: "nat option \<Rightarrow> sControlObject \<Rightarrow> sControlObject" where
  "ControlObject_setSBOw p self = self\<lparr>sbow := p\<rparr>"

definition ControlObject_setSBO :: "sMmsValue option \<Rightarrow> sControlObject \<Rightarrow> sControlObject" where
  "ControlObject_setSBO v self = self\<lparr>sbo := v\<rparr>"

definition ControlObject_setCtlVal :: "sMmsValue option \<Rightarrow> sControlObject \<Rightarrow> sControlObject" where
  "ControlObject_setCtlVal v self = self\<lparr>ctlVal := v\<rparr>"

definition ControlObject_getName :: "sControlObject \<Rightarrow> string" where
  "ControlObject_getName self = objName self"

definition ControlObject_getLNName :: "sControlObject \<Rightarrow> string" where
  "ControlObject_getLNName self = lnName self"

definition ControlObject_getDomain :: "sControlObject \<Rightarrow> sMmsDomain" where
  "ControlObject_getDomain self = mmsDomain self"

definition ControlObject_getOper :: "sControlObject \<Rightarrow> sMmsValue option run" where
  "ControlObject_getOper self = pointed_value self (oper self)"

definition ControlObject_getSBOw :: "sControlObject \<Rightarrow> sMmsValue option run" where
  "ControlObject_getSBOw self = pointed_value self (sbow self)"

definition ControlObject_getSBO :: "sControlObject \<Rightarrow> sMmsValue option" where
  "ControlObject_getSBO self = sbo self"

definition ControlObject_getCancel :: "sControlObject \<Rightarrow> sMmsValue option run" where
  "ControlObject_getCancel self = pointed_value self (cancel self)"

definition ControlObject_setMmsValue :: "sMmsValue option \<Rightarrow> sControlObject \<Rightarrow> sControlObject" where
  "ControlObject_setMmsValue v self = self\<lparr>mmsValue := v\<rparr>"

definition ControlObject_setTypeSpec :: "MmsVariableSpecification option \<Rightarrow> sControlObject \<Rightarrow> sControlObject" where
  "ControlObject_setTypeSpec spec self = self\<lparr>ctlTypeSpec := spec\<rparr>"

definition ControlObject_getTypeSpec :: "sControlObject \<Rightarrow> MmsVariableSpecification option" where
  "ControlObject_getTypeSpec self = ctlTypeSpec self"

definition ControlObject_getMmsValue :: "sControlObject \<Rightarrow> sMmsValue option" where
  "ControlObject_getMmsValue self = mmsValue self"

definition ControlObject_installListener :: "ControlHandler \<Rightarrow> sControlObject \<Rightarrow> sControlObject" where
  "ControlObject_installListener listener self = self\<lparr>operateHandler := Some listener\<rparr>"

definition ControlObject_installCheckHandler :: "ControlPerformCheckHandler \<Rightarrow> sControlObject \<Rightarrow> sControlObject" where
  "ControlObject_installCheckHandler handler self = self\<lparr>checkHandler := Some handler\<rparr>"

definition ControlObject_installWaitForExecutionHandler :: "ControlWaitForExecutionHandler \<Rightarrow> sControlObject \<Rightarrow> sControlObject" where
  "ControlObject_installWaitForExecutionHandler handler self = self\<lparr>waitForExecutionHandler := Some handler\<rparr>"

text \<open>The index of the control object in the list of the mapping; the domain is compared by its address.\<close>

fun lookup_control :: "sControlObject list \<Rightarrow> nat \<Rightarrow> string \<Rightarrow> string \<Rightarrow> nat option" where
  "lookup_control [] domain ln objectName = None"
| "lookup_control (c # cs) domain ln objectName =
     (if domainAddress (ControlObject_getDomain c) = domain \<and> ControlObject_getLNName c = ln \<and> ControlObject_getName c = objectName
      then Some 0 else map_option Suc (lookup_control cs domain ln objectName))"

definition Control_lookupControlObject :: "sMmsMapping \<Rightarrow> sMmsDomain \<Rightarrow> string \<Rightarrow> string \<Rightarrow> nat option" where
  "Control_lookupControlObject self domain ln objectName = lookup_control (controlObjects self) (domainAddress domain) ln objectName"


section \<open>The name in a request\<close>

definition MmsMapping_getNextNameElement :: "string \<Rightarrow> string option" where
  "MmsMapping_getNextNameElement s =
     (case strchr s (CHR ''$'') of
        None \<Rightarrow> None
      | Some separator \<Rightarrow> if drop 1 separator = [] then None else Some (drop 1 separator))"

fun doesElementEquals :: "string \<Rightarrow> string \<Rightarrow> bool" where
  "doesElementEquals element [] = (element = [] \<or> hd element = CHR ''$'')"
| "doesElementEquals [] (n # ns) = False"
| "doesElementEquals (c # cs) (n # ns) = (c = n \<and> doesElementEquals cs ns)"

definition is_service_name :: "string \<Rightarrow> bool" where
  "is_service_name varName =
     (doesElementEquals varName ''Oper'' \<or> doesElementEquals varName ''SBO'' \<or> doesElementEquals varName ''SBOw''
      \<or> doesElementEquals varName ''Cancel'')"

lemma next_name_shorter: "MmsMapping_getNextNameElement s = Some t \<Longrightarrow> length t < length s"
  using strchr_length by (auto simp: MmsMapping_getNextNameElement_def split: option.splits if_splits dest!: strchr_length)

function find_service_name :: "string \<Rightarrow> string option" where
  "find_service_name varName =
     (if is_service_name varName then Some varName
      else case MmsMapping_getNextNameElement varName of None \<Rightarrow> None | Some nextVarName \<Rightarrow> find_service_name nextVarName)"
  by pat_completeness auto

termination
  by (relation "measure length") (auto simp: next_name_shorter)

declare find_service_name.simps [simp del]

text \<open>
  The names of the logical node and of the object, and the element after them, from the first \<open>n\<close> characters of the identifier.
  The NUL before the element that is found ends the name of the object.
\<close>

definition control_name :: "nat \<Rightarrow> string \<Rightarrow> (string \<times> string \<times> string option) option" where
  "control_name n variableIdOrig =
     (let variableId = take n variableIdOrig
      in case strchr variableId (CHR ''$'') of
           None \<Rightarrow> None
         | Some separator \<Rightarrow>
             (let ln = take (length variableId - length separator) variableId
              in case MmsMapping_getNextNameElement (drop 1 separator) of
                   None \<Rightarrow> None
                 | Some objectName \<Rightarrow>
                     (case MmsMapping_getNextNameElement objectName of
                        None \<Rightarrow> Some (ln, objectName, None)
                      | Some varName \<Rightarrow>
                          (case find_service_name varName of
                             None \<Rightarrow> Some (ln, objectName, None)
                           | Some found \<Rightarrow> Some (ln, take (length objectName - length found - 1) objectName, Some found)))))"

lemma control_name_of_oper: "control_name 64 ''GGIO1$CO$SPCSO1$Oper'' = Some (''GGIO1'', ''SPCSO1'', Some ''Oper'')"
  by (simp add: control_name_def find_service_name.simps MmsMapping_getNextNameElement_def is_service_name_def)


section \<open>Read access\<close>

text \<open>The select of a control object with normal security, a read of \<open>SBO\<close>.\<close>

definition read_sbo ::
    "moment \<Rightarrow> u64 \<Rightarrow> connection \<Rightarrow> sControlObject \<Rightarrow> control_env \<Rightarrow> (sMmsValue option \<times> sControlObject \<times> control_env) run" where
  "read_sbo m currentTime conn self env =
     (if ctlModel self = 2 then
        (let self = checkSelectTimeout currentTime self
         in if getState self = STATE_UNSELECTED then
              (let (checkResult, env) = call_check_handler m None False False (Some conn) self env
               in if checkResult = CONTROL_ACCEPTED
                  then rbind (selectObject currentTime conn self) (\<lambda>self. Inr (ControlObject_getSBO self, self, env))
                  else Inr (emptyString self, self, env))
            else Inr (emptyString self, self, env))
      else Inr (ControlObject_getSBO self, self, env))"

definition read_element ::
    "moment \<Rightarrow> u64 \<Rightarrow> connection \<Rightarrow> string option \<Rightarrow> sControlObject \<Rightarrow> control_env
      \<Rightarrow> (sMmsValue option \<times> sControlObject \<times> control_env) run" where
  "read_element m currentTime conn element self env =
     (case element of
        None \<Rightarrow> Inr (ControlObject_getMmsValue self, self, env)
      | Some varName \<Rightarrow>
          if varName = ''Oper'' then rbind (ControlObject_getOper self) (\<lambda>v. Inr (v, self, env))
          else if varName = ''SBOw'' then rbind (ControlObject_getSBOw self) (\<lambda>v. Inr (v, self, env))
          else if varName = ''SBO'' then read_sbo m currentTime conn self env
          else if varName = ''Cancel'' then rbind (ControlObject_getCancel self) (\<lambda>v. Inr (v, self, env))
          else rbind (through (ControlObject_getTypeSpec self)) (\<lambda>spec.
               rbind (MmsVariableSpecification_getChildValue spec (ControlObject_getMmsValue self) varName) (\<lambda>v.
                 Inr (v, self, env))))"

definition change_control :: "nat \<Rightarrow> sControlObject \<Rightarrow> control_env \<Rightarrow> sMmsMapping \<Rightarrow> sMmsMapping" where
  "change_control i c env self = self\<lparr>controlObjects := (controlObjects self)[i := c], iedServer := env\<rparr>"

definition Control_readAccessControlObject ::
    "(sMmsDomain \<Rightarrow> string \<Rightarrow> sMmsValue option) \<Rightarrow> moment \<Rightarrow> u64 \<Rightarrow> sMmsDomain \<Rightarrow> string \<Rightarrow> connection \<Rightarrow> sMmsMapping
      \<Rightarrow> (sMmsValue option \<times> sMmsMapping) run" where
  "Control_readAccessControlObject cache m currentTime domain variableIdOrig conn self =
     (case control_name 128 variableIdOrig of
        None \<Rightarrow> Inr (None, self)
      | Some (ln, objectName, varName) \<Rightarrow>
          (case Control_lookupControlObject self domain ln objectName of
             None \<Rightarrow> Inr (None, self)
           | Some i \<Rightarrow>
               rbind (initialize cache (controlObjects self ! i)) (\<lambda>c.
               rbind (read_element m currentTime conn varName c (iedServer self)) (\<lambda>(v, c, env).
                 Inr (v, change_control i c env self)))))"

section \<open>Write access\<close>

text \<open>The result of a request, with the control object and the environment after it.\<close>

type_synonym written = "(MmsDataAccessError \<times> sControlObject \<times> control_env) run"

definition updateControlParameters ::
    "sMmsValue option \<Rightarrow> sMmsValue option \<Rightarrow> sMmsValue option \<Rightarrow> sControlObject \<Rightarrow> sControlObject run" where
  "updateControlParameters v num orig self =
     rbind (through v) (\<lambda>v. rbind (MmsValue_clone v) (\<lambda>v'.
     rbind (through num) (\<lambda>n. rbind (MmsValue_clone n) (\<lambda>n'.
     rbind (through orig) (\<lambda>r. rbind (MmsValue_clone r) (\<lambda>r'.
       Inr (self\<lparr>ctlVal := Some v', ctlNum := Some n', origin := Some r'\<rparr>)))))))"

fun getDataAccessErrorFromCheckHandlerResult :: "CheckHandlerResult \<Rightarrow> MmsDataAccessError" where
  "getDataAccessErrorFromCheckHandlerResult CONTROL_HARDWARE_FAULT = DATA_ACCESS_ERROR_HARDWARE_FAULT"
| "getDataAccessErrorFromCheckHandlerResult CONTROL_TEMPORARILY_UNAVAILABLE = DATA_ACCESS_ERROR_TEMPORARILY_UNAVAILABLE"
| "getDataAccessErrorFromCheckHandlerResult CONTROL_OBJECT_UNDEFINED = DATA_ACCESS_ERROR_OBJECT_UNDEFINED"
| "getDataAccessErrorFromCheckHandlerResult CONTROL_OBJECT_ACCESS_DENIED = DATA_ACCESS_ERROR_OBJECT_ACCESS_DENIED"
| "getDataAccessErrorFromCheckHandlerResult CONTROL_ACCEPTED = DATA_ACCESS_ERROR_SUCCESS"

text \<open>An indication together with the report \<open>LastApplError\<close>.\<close>

definition refuse ::
    "MmsDataAccessError \<Rightarrow> connection \<Rightarrow> string \<Rightarrow> ControlAddCause \<Rightarrow> sMmsValue option \<Rightarrow> sMmsValue option
      \<Rightarrow> sControlObject \<Rightarrow> control_env \<Rightarrow> written" where
  "refuse indication conn ctlVariable cause num orig self env =
     rbind (ControlObject_sendLastApplError (Some conn) ctlVariable CONTROL_ERROR_NO_ERROR cause num orig self env) (\<lambda>(self, env).
       Inr (indication, self, env))"

text \<open>\<open>SBOw\<close>: select with value.\<close>

definition select_with_value ::
    "moment \<Rightarrow> u64 \<Rightarrow> connection \<Rightarrow> sMmsValue \<Rightarrow> sMmsValue option \<Rightarrow> sMmsValue option \<Rightarrow> sMmsValue option \<Rightarrow> sMmsValue option
      \<Rightarrow> sControlObject \<Rightarrow> control_env \<Rightarrow> written" where
  "select_with_value m currentTime conn v num orig check test self env =
     rbind (through check) (\<lambda>chk. rbind (MmsValue_getBitStringBit chk 1) (\<lambda>interlock.
     rbind (through test) (\<lambda>tst. rbind (MmsValue_getBoolean tst) (\<lambda>testCondition.
       let (checkResult, env) = call_check_handler m (Some v) testCondition interlock (Some conn) self env
       in if checkResult = CONTROL_ACCEPTED then
            rbind (selectObject currentTime conn self) (\<lambda>self.
            rbind (updateControlParameters (Some v) num orig self) (\<lambda>self.
              Inr (DATA_ACCESS_ERROR_SUCCESS, self, env)))
          else refuse (getDataAccessErrorFromCheckHandlerResult checkResult) conn ''SBOw'' ADD_CAUSE_SELECT_FAILED num orig self env))))"

definition write_sbow :: "moment \<Rightarrow> u64 \<Rightarrow> connection \<Rightarrow> sMmsValue \<Rightarrow> sControlObject \<Rightarrow> control_env \<Rightarrow> written" where
  "write_sbow m currentTime conn value self env =
     (if ctlModel self \<noteq> 4 then Inr (DATA_ACCESS_ERROR_OBJECT_ACCESS_DENIED, self, env)
      else rbind (getCtlVal value) (\<lambda>p. case p of
             None \<Rightarrow> Inr (DATA_ACCESS_ERROR_OBJECT_VALUE_INVALID, self, env)
           | Some v \<Rightarrow>
               rbind (getOperParameterCtlNum value) (\<lambda>num. rbind (getOperParameterOrigin value) (\<lambda>orig.
               rbind (getOperParameterCheck value) (\<lambda>check. rbind (getOperParameterTest value) (\<lambda>test.
               rbind (checkValidityOfOriginParameter orig) (\<lambda>valid.
                 if \<not> valid then Inr (DATA_ACCESS_ERROR_OBJECT_VALUE_INVALID, self, env)
                 else
                   let self = checkSelectTimeout currentTime self
                   in if getState self \<noteq> STATE_UNSELECTED
                      then refuse DATA_ACCESS_ERROR_TEMPORARILY_UNAVAILABLE conn ''SBOw''
                             (if Some conn \<noteq> mmsConnection self then ADD_CAUSE_LOCKED_BY_OTHER_CLIENT else ADD_CAUSE_OBJECT_ALREADY_SELECTED)
                             num orig self env
                      else select_with_value m currentTime conn v num orig check test self env)))))))"

text \<open>The parameters of \<open>Oper\<close>, where none of them is missing: value, number, origin, check and test.\<close>

definition oper_parameters :: "sMmsValue \<Rightarrow> (sMmsValue \<times> sMmsValue \<times> sMmsValue \<times> sMmsValue \<times> sMmsValue) option run" where
  "oper_parameters value =
     rbind (getCtlVal value) (\<lambda>v. rbind (getOperParameterTest value) (\<lambda>test.
     rbind (getOperParameterCtlNum value) (\<lambda>num. rbind (getOperParameterOrigin value) (\<lambda>orig.
     rbind (getOperParameterCheck value) (\<lambda>check. rbind (getOperParameterTime value) (\<lambda>timeParameter.
       Inr (case (v, num, orig, check, test, timeParameter) of
              (Some v, Some num, Some orig, Some check, Some test, Some t) \<Rightarrow> Some (v, num, orig, check, test)
            | _ \<Rightarrow> None)))))))"

text \<open>A parameter is compared with the one of the select.\<close>

definition same_parameter :: "sMmsValue \<Rightarrow> sMmsValue option \<Rightarrow> bool run" where
  "same_parameter v p = rbind (through p) (\<lambda>own. MmsValue_equals v own)"

definition same_parameters :: "sMmsValue \<Rightarrow> sMmsValue \<Rightarrow> sMmsValue \<Rightarrow> sControlObject \<Rightarrow> bool run" where
  "same_parameters v num orig self =
     rbind (same_parameter v (ctlVal self)) (\<lambda>a. if \<not> a then Inr False
     else rbind (same_parameter orig (origin self)) (\<lambda>b. if \<not> b then Inr False
     else same_parameter num (ctlNum self)))"

text \<open>A time activated operate: the start time in the request is not 0.\<close>

definition activate :: "connection \<Rightarrow> sMmsValue \<Rightarrow> bool \<Rightarrow> bool \<Rightarrow> sControlObject \<Rightarrow> control_env \<Rightarrow> written" where
  "activate conn value interlock synchro self env =
     rbind (getOperParameterOperTime value) (\<lambda>p. case p of
       None \<Rightarrow> Inr (DATA_ACCESS_ERROR_OBJECT_ACCESS_DENIED, self, env)
     | Some operTm \<Rightarrow>
         rbind (MmsValue_getUtcTimeInMs operTm) (\<lambda>t.
           let self = self\<lparr>operateTime := t\<rparr>
           in if t \<noteq> 0
              then let self = self\<lparr>timeActivatedOperate := True, synchroCheck := synchro, interlockCheck := interlock,
                         mmsConnection := Some conn\<rparr>
                   in Inr (DATA_ACCESS_ERROR_SUCCESS, setState STATE_WAIT_FOR_ACTIVATION_TIME self, initiateControlTask self env)
              else Inr (DATA_ACCESS_ERROR_OBJECT_ACCESS_DENIED, self, env)))"

text \<open>The operate that is not time activated: the tests, and then the object waits for the execution.\<close>

definition start_operate ::
    "moment \<Rightarrow> connection \<Rightarrow> u32 \<Rightarrow> sMmsValue \<Rightarrow> bool \<Rightarrow> bool \<Rightarrow> sControlObject \<Rightarrow> control_env \<Rightarrow> written" where
  "start_operate m conn invokeId v testCondition interlock self env =
     (let (checkResult, env) = call_check_handler m (Some v) testCondition interlock (Some conn) self env
      in if checkResult = CONTROL_ACCEPTED
         then let self = setState STATE_WAIT_FOR_EXECUTION (self\<lparr>mmsConnection := Some conn, operateInvokeId := invokeId\<rparr>)
              in Inr (DATA_ACCESS_ERROR_NO_RESPONSE, self, initiateControlTask self env)
         else rbind (abortControlOperation self env) (\<lambda>(self, env).
                Inr (getDataAccessErrorFromCheckHandlerResult checkResult, self, env)))"

definition update_oper :: "sMmsValue \<Rightarrow> sControlObject \<Rightarrow> sControlObject run" where
  "update_oper value = change_oper (\<lambda>own. rbind (MmsValue_update own value) (\<lambda>(own', _). Inr own'))"

text \<open>The operate of an object that is ready: what is checked first, and what follows.\<close>

definition operate_accepted ::
    "moment \<Rightarrow> connection \<Rightarrow> u32 \<Rightarrow> sMmsValue \<Rightarrow> sMmsValue \<times> sMmsValue \<times> sMmsValue \<Rightarrow> bool \<times> bool \<times> bool
      \<Rightarrow> sControlObject \<Rightarrow> control_env \<Rightarrow> written" where
  "operate_accepted m conn invokeId value pars checks self env =
     (case pars of (v, num, orig) \<Rightarrow> case checks of (interlock, synchro, testCondition) \<Rightarrow>
      rbind (updateControlParameters (Some v) (Some num) (Some orig) self) (\<lambda>self.
      rbind (activate conn value interlock synchro self env) (\<lambda>(indication, self, env).
      rbind (update_oper value self) (\<lambda>self.
        if timeActivatedOperate self then Inr (indication, self, env)
        else start_operate m conn invokeId v testCondition interlock self env))))"

definition operate_ready ::
    "moment \<Rightarrow> connection \<Rightarrow> u32 \<Rightarrow> sMmsValue \<Rightarrow> sMmsValue \<times> sMmsValue \<times> sMmsValue \<times> sMmsValue \<times> sMmsValue
      \<Rightarrow> sControlObject \<Rightarrow> control_env \<Rightarrow> written" where
  "operate_ready m conn invokeId value pars self env =
     (case pars of (v, num, orig, check, test) \<Rightarrow>
      rbind (MmsValue_getBitStringBit check 1) (\<lambda>interlock. rbind (MmsValue_getBitStringBit check 0) (\<lambda>synchro.
      rbind (MmsValue_getBoolean test) (\<lambda>testCondition.
        let self = self\<lparr>testMode := testCondition\<rparr>;
            go = operate_accepted m conn invokeId value (v, num, orig) (interlock, synchro, testCondition) self env
        in if is_sbo self then
             (if mmsConnection self \<noteq> Some conn then Inr (DATA_ACCESS_ERROR_TEMPORARILY_UNAVAILABLE, self, env)
              else if ctlModel self = 4 then
                rbind (same_parameters v num orig self) (\<lambda>same.
                  if \<not> same then refuse DATA_ACCESS_ERROR_TYPE_INCONSISTENT conn ''Oper'' ADD_CAUSE_INCONSISTENT_PARAMETERS
                                  (Some num) (Some orig) self env
                  else go)
              else go)
           else go))))"

definition write_oper :: "moment \<Rightarrow> u64 \<Rightarrow> connection \<Rightarrow> u32 \<Rightarrow> sMmsValue \<Rightarrow> sControlObject \<Rightarrow> control_env \<Rightarrow> written" where
  "write_oper m currentTime conn invokeId value self env =
     rbind (oper_parameters value) (\<lambda>p. case p of
       None \<Rightarrow> Inr (DATA_ACCESS_ERROR_OBJECT_VALUE_INVALID, self, env)
     | Some (v, num, orig, check, test) \<Rightarrow>
         rbind (checkValidityOfOriginParameter (Some orig)) (\<lambda>valid.
           if \<not> valid then Inr (DATA_ACCESS_ERROR_OBJECT_VALUE_INVALID, self, env)
           else
             let self = checkSelectTimeout currentTime self
             in if getState self = STATE_WAIT_FOR_ACTIVATION_TIME
                then refuse DATA_ACCESS_ERROR_TEMPORARILY_UNAVAILABLE conn ''Oper'' ADD_CAUSE_COMMAND_ALREADY_IN_EXECUTION
                       (Some num) (Some orig) self env
                else if getState self = STATE_READY then operate_ready m conn invokeId value (v, num, orig, check, test) self env
                else if getState self = STATE_UNSELECTED
                then refuse DATA_ACCESS_ERROR_OBJECT_ACCESS_DENIED conn ''Oper'' ADD_CAUSE_OBJECT_NOT_SELECTED
                       (Some num) (Some orig) self env
                else Inr (DATA_ACCESS_ERROR_OBJECT_ACCESS_DENIED, self, env)))"

text \<open>The part of \<open>Cancel\<close> after the one for the control models with select.\<close>

definition cancel_activated :: "MmsDataAccessError \<Rightarrow> sControlObject \<Rightarrow> control_env \<Rightarrow> written" where
  "cancel_activated indication self env =
     (if timeActivatedOperate self
      then rbind (abortControlOperation (self\<lparr>timeActivatedOperate := False\<rparr>) env) (\<lambda>(self, env).
             Inr (DATA_ACCESS_ERROR_SUCCESS, self, env))
      else Inr (indication, self, env))"

definition write_cancel :: "connection \<Rightarrow> sMmsValue \<Rightarrow> sControlObject \<Rightarrow> control_env \<Rightarrow> written" where
  "write_cancel conn value self env =
     rbind (getCancelParameterCtlNum value) (\<lambda>num. rbind (getCancelParameterOrigin value) (\<lambda>orig.
       if num = None \<or> orig = None then Inr (DATA_ACCESS_ERROR_TYPE_INCONSISTENT, self, env)
       else if is_sbo self \<and> getState self \<noteq> STATE_UNSELECTED
       then (if mmsConnection self = Some conn then Inr (DATA_ACCESS_ERROR_SUCCESS, unselectObject self, env)
             else rbind (refuse DATA_ACCESS_ERROR_TEMPORARILY_UNAVAILABLE conn ''Cancel'' ADD_CAUSE_LOCKED_BY_OTHER_CLIENT num orig self env)
                    (\<lambda>(indication, self, env). cancel_activated indication self env))
       else cancel_activated DATA_ACCESS_ERROR_OBJECT_ACCESS_DENIED self env))"

definition write_element ::
    "moment \<Rightarrow> u64 \<Rightarrow> connection \<Rightarrow> u32 \<Rightarrow> string \<Rightarrow> sMmsValue \<Rightarrow> sControlObject \<Rightarrow> control_env \<Rightarrow> written" where
  "write_element m currentTime conn invokeId varName value self env =
     (if varName = ''SBOw'' then write_sbow m currentTime conn value self env
      else if varName = ''Oper'' then write_oper m currentTime conn invokeId value self env
      else if varName = ''Cancel'' then write_cancel conn value self env
      else Inr (DATA_ACCESS_ERROR_OBJECT_ACCESS_DENIED, self, env))"

definition Control_writeAccessControlObject ::
    "(sMmsDomain \<Rightarrow> string \<Rightarrow> sMmsValue option) \<Rightarrow> moment \<Rightarrow> u64 \<Rightarrow> u32 \<Rightarrow> sMmsDomain \<Rightarrow> string \<Rightarrow> sMmsValue \<Rightarrow> connection
      \<Rightarrow> sMmsMapping \<Rightarrow> (MmsDataAccessError \<times> sMmsMapping) run" where
  "Control_writeAccessControlObject cache m currentTime invokeId domain variableIdOrig value conn self =
     (case control_name 64 variableIdOrig of
        Some (ln, objectName, Some varName) \<Rightarrow>
          (case Control_lookupControlObject self domain ln objectName of
             None \<Rightarrow> Inr (DATA_ACCESS_ERROR_OBJECT_ACCESS_DENIED, self)
           | Some i \<Rightarrow>
               rbind (initialize cache (controlObjects self ! i)) (\<lambda>c.
               rbind (write_element m currentTime conn invokeId varName value c (iedServer self)) (\<lambda>(indication, c, env).
                 Inr (indication, change_control i c env self))))
      | _ \<Rightarrow> Inr (DATA_ACCESS_ERROR_OBJECT_ACCESS_DENIED, self))"


section \<open>Connections come and go\<close>

fun unselect_first :: "connection \<Rightarrow> sControlObject list \<Rightarrow> control_env \<Rightarrow> (sControlObject list \<times> control_env) run" where
  "unselect_first conn [] env = Inr ([], env)"
| "unselect_first conn (c # cs) env =
     rbind (ControlObject_unselect conn c env) (\<lambda>(done, c', env).
       if done then Inr (c' # cs, env)
       else rbind (unselect_first conn cs env) (\<lambda>(cs', env). Inr (c' # cs', env)))"

definition unselectControlsForConnection :: "connection \<Rightarrow> sMmsMapping \<Rightarrow> sMmsMapping run" where
  "unselectControlsForConnection conn self =
     rbind (unselect_first conn (controlObjects self) (iedServer self)) (\<lambda>(cs, env).
       Inr (self\<lparr>controlObjects := cs, iedServer := env\<rparr>))"

text \<open>
  \<open>mmsConnectionHandler\<close>: a new connection; and a connection that is closed, which is taken out of the list at once and then waited for.
  The first part of the second gives the connection that is waited for, \<open>None\<close> is a null pointer.
\<close>

definition connection_opened :: "connection \<Rightarrow> sMmsMapping \<Rightarrow> sMmsMapping" where
  "connection_opened conn self =
     self\<lparr>iedServer := (iedServer self)\<lparr>clientConnections :=
       private_IedServer_addNewClientConnection (private_ClientConnection_create conn) (clientConnections (iedServer self))\<rparr>\<rparr>"

fun remove_connection :: "connection \<Rightarrow> sClientConnection list \<Rightarrow> sClientConnection list" where
  "remove_connection conn [] = []"
| "remove_connection conn (c # cs) = (if serverConnectionHandle c = conn then cs else c # remove_connection conn cs)"

definition connection_removed :: "connection \<Rightarrow> sMmsMapping \<Rightarrow> sClientConnection option \<times> sMmsMapping" where
  "connection_removed conn self =
     (private_IedServer_getClientConnectionByHandle (clientConnections (iedServer self)) (Some conn),
      self\<lparr>iedServer := (iedServer self)\<lparr>clientConnections := remove_connection conn (clientConnections (iedServer self))\<rparr>\<rparr>)"

text \<open>The condition of the loop that waits for the tasks, and what follows it for the control objects.\<close>

definition still_waiting :: "sClientConnection \<Rightarrow> bool" where
  "still_waiting c = (private_ClientConnection_getTasksCount c > 0)"

end
