(* ===== verification/Control_System.thy ===== *)
theory Control_System
  imports Control_Object
begin

text \<open>
  The control objects of a server and their clients as a state machine: the requests of the clients, the periodic processing, and the connections
  that come and go, in any order. A closed connection is taken out of the list of the server and kept in \<open>closing\<close>, where the thread that
  closes it waits for its tasks; each round of the loop is an action.
\<close>

section \<open>Actions\<close>

datatype server_action =
    Read_request moment u64 sMmsDomain string connection
  | Write_request moment u64 u32 sMmsDomain string sMmsValue connection
  | Process moment u64 u64
  | Opened connection
  | Closed connection
  | Wait_round connection

datatype control_reply = No_reply | Read_reply "sMmsValue option" | Write_reply MmsDataAccessError

record control_system =
  mapping :: sMmsMapping
  closing :: "sClientConnection list"

type_synonym model_cache = "sMmsDomain \<Rightarrow> string \<Rightarrow> sMmsValue option"

text \<open>A round of the loop that waits for the tasks of a closed connection, and what follows the loop.\<close>

definition wait_round :: "connection \<Rightarrow> control_system \<Rightarrow> control_system run" where
  "wait_round conn s =
     (case private_IedServer_getClientConnectionByHandle (closing s) (Some conn) of
        None \<Rightarrow> Inr s
      | Some c \<Rightarrow>
          if still_waiting c then Inr s
          else rbind (unselectControlsForConnection conn (mapping s)) (\<lambda>mp.
                 Inr (s\<lparr>mapping := mp, closing := remove_connection conn (closing s)\<rparr>)))"

fun control_action :: "model_cache \<Rightarrow> server_action \<Rightarrow> control_system \<Rightarrow> (control_reply \<times> control_system) run" where
  "control_action cache (Read_request m t domain item conn) s =
     rbind (Control_readAccessControlObject cache m t domain item conn (mapping s)) (\<lambda>(v, mp).
       Inr (Read_reply v, s\<lparr>mapping := mp\<rparr>))"
| "control_action cache (Write_request m t invokeId domain item value conn) s =
     rbind (Control_writeAccessControlObject cache m t invokeId domain item value conn (mapping s)) (\<lambda>(indication, mp).
       Inr (Write_reply indication, s\<lparr>mapping := mp\<rparr>))"
| "control_action cache (Process m t now) s =
     rbind (Control_processControlActions m t now (mapping s)) (\<lambda>mp. Inr (No_reply, s\<lparr>mapping := mp\<rparr>))"
| "control_action cache (Opened conn) s = Inr (No_reply, s\<lparr>mapping := connection_opened conn (mapping s)\<rparr>)"
| "control_action cache (Closed conn) s =
     (let (c, mp) = connection_removed conn (mapping s)
      in Inr (No_reply, s\<lparr>mapping := mp, closing := closing s @ (case c of None \<Rightarrow> [] | Some c \<Rightarrow> [c])\<rparr>))"
| "control_action cache (Wait_round conn) s = rbind (wait_round conn s) (\<lambda>s. Inr (No_reply, s))"

text \<open>A run from a state: the actions with the states after them.\<close>

inductive control_run :: "model_cache \<Rightarrow> control_system \<Rightarrow> (server_action \<times> control_system) list \<Rightarrow> control_system \<Rightarrow> bool"
  for cache and s where
  start: "control_run cache s [] s"
| step: "control_run cache s tr s' \<Longrightarrow> control_action cache a s' = Inr (r, s'') \<Longrightarrow> control_run cache s (tr @ [(a, s'')]) s''"

inductive_cases step_case: "control_run cache s (tr @ [x]) s'"

abbreviation controls :: "control_system \<Rightarrow> sControlObject list" where
  "controls s \<equiv> controlObjects (mapping s)"


section \<open>What an action does with one control object\<close>

text \<open>The object is the one that a request names, and the service is the element it names.\<close>

definition names :: "nat \<Rightarrow> sMmsDomain \<Rightarrow> string \<Rightarrow> string \<Rightarrow> sMmsMapping \<Rightarrow> nat \<Rightarrow> bool" where
  "names n domain item service mp i \<longleftrightarrow>
     (\<exists>ln objectName. control_name n item = Some (ln, objectName, Some service) \<and> Control_lookupControlObject mp domain ln objectName = Some i)"

text \<open>The changes of an object: none, by a request, by the processing, at the end of a connection.\<close>

inductive object_change :: "model_cache \<Rightarrow> server_action \<Rightarrow> sMmsMapping \<Rightarrow> nat \<Rightarrow> sControlObject \<Rightarrow> sControlObject \<Rightarrow> bool" where
  unchanged: "object_change cache a mp i c c"
| by_read: "initialize cache c = Inr c1 \<Longrightarrow> read_element m t conn element c1 env = Inr (v, c', env')
     \<Longrightarrow> (\<And>s. element = Some s \<Longrightarrow> names 128 domain item s mp i)
     \<Longrightarrow> object_change cache (Read_request m t domain item conn) mp i c c'"
| by_write: "initialize cache c = Inr c1 \<Longrightarrow> write_element m t conn invokeId service value c1 env = Inr (ind, c', env')
     \<Longrightarrow> names 64 domain item service mp i
     \<Longrightarrow> object_change cache (Write_request m t invokeId domain item value conn) mp i c c'"
| by_process: "process_control_object m t now c env = Inr (c', env') \<Longrightarrow> object_change cache (Process m t now) mp i c c'"
| by_close: "ControlObject_unselect conn c env = Inr (r, c', env') \<Longrightarrow> object_change cache (Wait_round conn) mp i c c'"

lemma process_objects_nth:
  "process_objects m t now cs env = Inr (cs', env') \<Longrightarrow>
     length cs' = length cs \<and> (\<forall>i < length cs. \<exists>e e'. process_control_object m t now (cs ! i) e = Inr (cs' ! i, e'))"
proof (induction cs arbitrary: env cs')
  case (Cons c cs)
  from Cons.prems obtain c1 e1 cs1 where h: "process_control_object m t now c env = Inr (c1, e1)"
    "process_objects m t now cs e1 = Inr (cs1, env')" "cs' = c1 # cs1"
    by (auto simp: rbind_Inr_iff)
  from Cons.IH [OF h(2)] h(1,3) show ?case by (auto simp: less_Suc_eq_0_disj)
qed simp

lemma unselect_first_nth:
  "unselect_first conn cs env = Inr (cs', env') \<Longrightarrow>
     length cs' = length cs \<and> (\<forall>i < length cs. cs' ! i = cs ! i \<or> (\<exists>e r e'. ControlObject_unselect conn (cs ! i) e = Inr (r, cs' ! i, e')))"
proof (induction cs arbitrary: env cs')
  case (Cons c cs)
  from Cons.prems obtain d c1 e1 where h: "ControlObject_unselect conn c env = Inr (d, c1, e1)"
    by (auto simp: rbind_Inr_iff)
  show ?case
  proof (cases d)
    case True
    with Cons.prems h have "cs' = c1 # cs" by auto
    with h show ?thesis by (auto simp: less_Suc_eq_0_disj)
  next
    case False
    with Cons.prems h obtain cs1 where r: "unselect_first conn cs e1 = Inr (cs1, env')" "cs' = c1 # cs1"
      by (auto simp: rbind_Inr_iff)
    from Cons.IH [OF r(1)] r(2) h show ?thesis by (auto simp: less_Suc_eq_0_disj)
  qed
qed simp

lemma lookup_control_bound: "lookup_control cs d ln ob = Some i \<Longrightarrow> i < length cs"
  by (induction cs arbitrary: i) (auto split: if_splits)

lemma change_control_nth:
  "i < length (controlObjects mp) \<Longrightarrow> controlObjects (change_control j c env mp) ! i = (if j = i then c else controlObjects mp ! i)"
  "length (controlObjects (change_control j c env mp)) = length (controlObjects mp)"
  by (auto simp: change_control_def)

lemma read_result:
  assumes "Control_readAccessControlObject cache m t domain item conn mp = Inr (v, mp')"
  shows "mp' = mp \<or> (\<exists>ln ob el j c1 v c env'. control_name 128 item = Some (ln, ob, el)
    \<and> Control_lookupControlObject mp domain ln ob = Some j \<and> initialize cache (controlObjects mp ! j) = Inr c1
    \<and> read_element m t conn el c1 (iedServer mp) = Inr (v, c, env') \<and> mp' = change_control j c env' mp)"
proof (cases "control_name 128 item")
  case (Some nm)
  show ?thesis
  proof (cases nm)
    case (fields ln ob el)
    show ?thesis
    proof (cases "Control_lookupControlObject mp domain ln ob")
      case (Some j)
      show ?thesis using assms \<open>control_name 128 item = Some nm\<close> fields Some
        by (cases el) (fastforce simp: Control_readAccessControlObject_def rbind_pair_Inr_iff rbind_Inr_iff [of "initialize cache c" for c])+
    qed (use assms Some fields in \<open>auto simp: Control_readAccessControlObject_def split: option.splits\<close>)
  qed
qed (use assms in \<open>auto simp: Control_readAccessControlObject_def\<close>)

lemma read_changes:
  assumes "Control_readAccessControlObject cache m t domain item conn mp = Inr (v, mp')" and "i < length (controlObjects mp)"
  shows "length (controlObjects mp') = length (controlObjects mp)
    \<and> object_change cache (Read_request m t domain item conn) mp i (controlObjects mp ! i) (controlObjects mp' ! i)"
proof -
  from read_result [OF assms(1)] consider (same) "mp' = mp"
    | (found) ln ob el j c1 v c env' where "control_name 128 item = Some (ln, ob, el)"
        "Control_lookupControlObject mp domain ln ob = Some j" "initialize cache (controlObjects mp ! j) = Inr c1"
        "read_element m t conn el c1 (iedServer mp) = Inr (v, c, env')" "mp' = change_control j c env' mp"
    by blast
  then show ?thesis
  proof cases
    case same
    then show ?thesis by (simp add: unchanged)
  next
    case found
    show ?thesis
    proof (cases "j = i")
      case True
      have "object_change cache (Read_request m t domain item conn) mp i (controlObjects mp ! i) c"
        using found(1-4) unfolding True by (intro by_read) (auto simp: names_def)
      then show ?thesis using True found(5) assms(2) by (simp add: change_control_nth)
    qed (use found(5) assms(2) in \<open>simp add: change_control_nth unchanged\<close>)
  qed
qed

lemma write_result:
  assumes "Control_writeAccessControlObject cache m t invokeId domain item value conn mp = Inr (ind, mp')"
  shows "(mp' = mp \<and> ind = DATA_ACCESS_ERROR_OBJECT_ACCESS_DENIED) \<or> (\<exists>ln ob el j c1 c env'. control_name 64 item = Some (ln, ob, Some el)
    \<and> Control_lookupControlObject mp domain ln ob = Some j \<and> initialize cache (controlObjects mp ! j) = Inr c1
    \<and> write_element m t conn invokeId el value c1 (iedServer mp) = Inr (ind, c, env') \<and> mp' = change_control j c env' mp)"
proof (cases "control_name 64 item")
  case (Some nm)
  show ?thesis
  proof (cases nm)
    case (fields ln ob el)
    show ?thesis
    proof (cases "Control_lookupControlObject mp domain ln ob")
      case (Some j)
      show ?thesis using assms \<open>control_name 64 item = Some nm\<close> fields Some
        by (cases el) (fastforce simp: Control_writeAccessControlObject_def rbind_pair_Inr_iff rbind_Inr_iff [of "initialize cache c" for c])+
    qed (use assms Some fields in \<open>auto simp: Control_writeAccessControlObject_def split: option.splits\<close>)
  qed
qed (use assms in \<open>auto simp: Control_writeAccessControlObject_def\<close>)

lemma write_changes:
  assumes "Control_writeAccessControlObject cache m t invokeId domain item value conn mp = Inr (ind, mp')"
    and "i < length (controlObjects mp)"
  shows "length (controlObjects mp') = length (controlObjects mp)
    \<and> object_change cache (Write_request m t invokeId domain item value conn) mp i (controlObjects mp ! i) (controlObjects mp' ! i)"
proof -
  from write_result [OF assms(1)] consider (same) "mp' = mp"
    | (found) ln ob el j c1 c env' where "control_name 64 item = Some (ln, ob, Some el)"
        "Control_lookupControlObject mp domain ln ob = Some j" "initialize cache (controlObjects mp ! j) = Inr c1"
        "write_element m t conn invokeId el value c1 (iedServer mp) = Inr (ind, c, env')" "mp' = change_control j c env' mp"
    by blast
  then show ?thesis
  proof cases
    case same
    then show ?thesis by (simp add: unchanged)
  next
    case found
    show ?thesis
    proof (cases "j = i")
      case True
      have "object_change cache (Write_request m t invokeId domain item value conn) mp i (controlObjects mp ! i) c"
        using found(1-4) unfolding True by (intro by_write) (auto simp: names_def)
      then show ?thesis using True found(5) assms(2) by (simp add: change_control_nth)
    qed (use found(5) assms(2) in \<open>simp add: change_control_nth unchanged\<close>)
  qed
qed

lemma unselect_changes:
  assumes "unselectControlsForConnection conn mp = Inr mp'" and "i < length (controlObjects mp)"
  shows "length (controlObjects mp') = length (controlObjects mp)
    \<and> object_change cache (Wait_round conn) mp0 i (controlObjects mp ! i) (controlObjects mp' ! i)"
  using assms unselect_first_nth [of conn "controlObjects mp" "iedServer mp"]
  by (fastforce simp: unselectControlsForConnection_def rbind_Inr_iff intro: unchanged by_close)

lemma action_changes:
  assumes a: "control_action cache a s = Inr (r, s')" and i: "i < length (controls s)"
  shows "length (controls s') = length (controls s) \<and> object_change cache a (mapping s) i (controls s ! i) (controls s' ! i)"
proof (cases a)
  case (Read_request m t d it conn)
  then show ?thesis using a i by (auto simp: rbind_Inr_iff dest!: read_changes)
next
  case (Write_request m t k d it v conn)
  then show ?thesis using a i by (auto simp: rbind_Inr_iff dest!: write_changes)
next
  case (Process m t now)
  then show ?thesis using a i process_objects_nth [of m t now "controls s" "iedServer (mapping s)"]
    by (fastforce simp: rbind_Inr_iff Control_processControlActions_def intro: by_process)
next
  case (Wait_round conn)
  then show ?thesis using a i
    by (auto simp: rbind_Inr_iff wait_round_def split: option.splits if_splits dest!: unselect_changes [where i = i and cache = cache and ?mp0.0 = "mapping s"] intro: unchanged)
qed (use a i in \<open>auto simp: connection_opened_def connection_removed_def intro: unchanged\<close>)

end
