(* ===== verification/Control_Correct.thy ===== *)
theory Control_Correct
  imports Control_System Mms_Value_Types
begin

text \<open>
  What the control service guarantees, and where it fails: an object with select before operate is held by the client
  that selected it, operations carry out the selected value; tasks of closed connections are waited for in vain, and a
  cancelled activation blocks the object.
\<close>

section \<open>Small steps keep the object\<close>

text \<open>
  The configuration of an object, which no request changes once it is there; \<open>held\<close> is an object with select before
  operate that is not unselected.
\<close>

definition held :: "sControlObject \<Rightarrow> bool" where
  "held c \<longleftrightarrow> ctlInitialized c \<and> is_sbo c \<and> ctlState c \<noteq> STATE_UNSELECTED"

definition operate_once :: "sControlObject \<Rightarrow> bool" where
  "operate_once c \<longleftrightarrow> isSboClassOperateOnce c = Inr True"

definition same_configuration :: "sControlObject \<Rightarrow> sControlObject \<Rightarrow> bool" where
  "same_configuration c c' \<longleftrightarrow>
     ctlModel c' = ctlModel c \<and> sboClass c' = sboClass c \<and> ctlInitialized c' = ctlInitialized c"

text \<open>
  A step keeps the configuration; of an object with select before operate that is released after every operation it
  also keeps the connection, and it does not select it.
\<close>

definition same_hold :: "sControlObject \<Rightarrow> sControlObject \<Rightarrow> bool" where
  "same_hold c c' \<longleftrightarrow> same_configuration c c' \<and>
     (operate_once c \<and> is_sbo c \<longrightarrow>
        mmsConnection c' = mmsConnection c \<and> (ctlState c = STATE_UNSELECTED \<longrightarrow> ctlState c' = STATE_UNSELECTED))"

lemmas hold_defs = same_hold_def same_configuration_def

lemma same_hold_refl [simp, intro]: "same_hold c c"
  by (simp add: hold_defs)

lemma configuration_once: "same_configuration c c' \<Longrightarrow> operate_once c' = operate_once c"
  by (simp add: operate_once_def isSboClassOperateOnce_def same_configuration_def)

lemma configuration_sbo: "same_configuration c c' \<Longrightarrow> is_sbo c' = is_sbo c"
  by (simp add: same_configuration_def)

lemma same_hold_trans [trans]: "same_hold a b \<Longrightarrow> same_hold b c \<Longrightarrow> same_hold a c"
  unfolding same_hold_def using configuration_once [of a b] configuration_sbo [of a b] by (auto simp: same_configuration_def)

text \<open>A step that does not touch what counts.\<close>

lemma same_holdI:
  "ctlModel c' = ctlModel c \<Longrightarrow> sboClass c' = sboClass c \<Longrightarrow> ctlInitialized c' = ctlInitialized c
    \<Longrightarrow> mmsConnection c' = mmsConnection c \<Longrightarrow> (ctlState c = STATE_UNSELECTED \<Longrightarrow> ctlState c' = STATE_UNSELECTED) \<Longrightarrow> same_hold c c'"
  by (simp add: hold_defs)

lemma last_appl_error_hold:
  "last_appl_error ctlObj err cause num orig c = Inr (v, c') \<Longrightarrow>
     same_hold c c' \<and> ctlState c' = ctlState c \<and> timeActivatedOperate c' = timeActivatedOperate c"
  by (auto simp: last_appl_error_def rbind_Inr_iff intro!: same_holdI)

lemma report_hold:
  "ControlObject_sendLastApplError conn name err cause num orig c env = Inr (c', env') \<Longrightarrow>
     same_hold c c' \<and> ctlState c' = ctlState c \<and> timeActivatedOperate c' = timeActivatedOperate c"
  "ControlObject_sendCommandTerminationNegative c env = Inr (c', env') \<Longrightarrow>
     same_hold c c' \<and> ctlState c' = ctlState c \<and> timeActivatedOperate c' = timeActivatedOperate c"
  by (auto simp: ControlObject_sendLastApplError_def ControlObject_sendCommandTerminationNegative_def
      rbind_pair_Inr_iff rbind_Inr_iff dest!: last_appl_error_hold)

lemma refuse_hold:
  "refuse ind conn name cause num orig c env = Inr (ind', c', env') \<Longrightarrow>
     ind' = ind \<and> same_hold c c' \<and> ctlState c' = ctlState c \<and> timeActivatedOperate c' = timeActivatedOperate c"
  by (auto simp: refuse_def rbind_pair_Inr_iff dest!: report_hold)

text \<open>An aborted operation ends in the state that belongs to the class of the object.\<close>

lemma abort_state:
  assumes "abortControlOperation c env = Inr (c', env')"
  shows "\<exists>s. c' = setState s c \<and> env' = exitControlTask c' env \<and> (operate_once c \<and> is_sbo c \<longrightarrow> s = STATE_UNSELECTED)
    \<and> (\<not> (operate_once c \<and> is_sbo c) \<longrightarrow> s = STATE_READY)"
proof (cases "is_sbo c")
  case True
  then obtain b where "isSboClassOperateOnce c = Inr b" using assms by (auto simp: abortControlOperation_def rbind_Inr_iff)
  then show ?thesis using assms True
    by (cases b) (auto simp: abortControlOperation_def operate_once_def unselectObject_def)
qed (use assms in \<open>auto simp: abortControlOperation_def\<close>)

lemma setState_hold: "(ctlState c = STATE_UNSELECTED \<and> operate_once c \<and> is_sbo c \<Longrightarrow> s = STATE_UNSELECTED) \<Longrightarrow> same_hold c (setState s c)"
  by (auto simp: hold_defs setState_def)

lemma abort_hold: "abortControlOperation c env = Inr (c', env') \<Longrightarrow> same_hold c c'"
  using abort_state [of c env c' env'] by (auto intro!: setState_hold)

lemma finish_hold: "finish_task c env = Inr (c', env') \<Longrightarrow> same_hold c c'"
  by (auto simp: finish_task_def rbind_pair_Inr_iff dest!: abort_hold)

lemma operate_call_hold: "operateControl m v now b c env = (r, c', env') \<Longrightarrow> same_hold c c'"
  by (auto simp: operateControl_def Let_def intro!: same_holdI split: option.splits)

lemma termination_hold:
  "(if ctlModel c = 4 \<or> ctlModel c = 3 then
      (if r = CONTROL_RESULT_OK then rbind (ControlObject_sendCommandTerminationPositive c env) (\<lambda>env. Inr (c, env))
       else ControlObject_sendCommandTerminationNegative c env)
    else Inr (c, env)) = Inr (c', env') \<Longrightarrow> same_hold c c'"
  by (auto simp: rbind_Inr_iff split: if_splits dest!: report_hold)

lemma execute_operate_hold:
  assumes "execute_operate m now c env = Inr (c', env')"
  shows "same_hold c c'"
proof -
  obtain r c1 e1 where op: "operateControl m (ctlVal c) now (testMode c) c env = (r, c1, e1)" by (rule prod_cases3)
  show ?thesis
  proof (cases "r = CONTROL_RESULT_WAITING")
    case True
    then show ?thesis using assms op by (auto simp: execute_operate_def dest: operate_call_hold)
  next
    case False
    then obtain c2 e2 where "same_hold c1 c2" "finish_task c2 e2 = Inr (c', env')"
      using assms op unfolding execute_operate_def by (auto simp: rbind_pair_Inr_iff dest: termination_hold)
    then show ?thesis using operate_call_hold [OF op] finish_hold same_hold_trans by blast
  qed
qed

lemma change_oper_hold:
  "change_oper f c = Inr c' \<Longrightarrow> same_hold c c' \<and> mmsConnection c' = mmsConnection c \<and> ctlState c' = ctlState c
     \<and> timeActivatedOperate c' = timeActivatedOperate c"
  by (auto simp: change_oper_def rbind_Inr_iff intro!: same_holdI)

lemma set_operate_hold: "ctlState c \<noteq> STATE_UNSELECTED \<Longrightarrow> same_hold c (setState s c)"
  by (simp add: hold_defs setState_def)

lemma executeControlTask_hold:
  assumes x: "executeControlTask m now c env = Inr (c', env')"
  shows "same_hold c c'"
proof (cases "ctlState c = STATE_WAIT_FOR_ACTIVATION_TIME \<or> ctlState c = STATE_WAIT_FOR_EXECUTION")
  case True
  obtain r e1 where w: "call_wait_handler m c env = (r, e1)" by fastforce
  show ?thesis
  proof (cases r)
    case CONTROL_RESULT_FAILED
    then obtain c1 e2 where "same_hold c c1" "finish_task c1 e2 = Inr (c', env')"
      using x True w by (auto simp: executeControlTask_def getState_def rbind_pair_Inr_iff rbind_Inr_iff split: if_splits dest!: report_hold)
    then show ?thesis using finish_hold same_hold_trans by blast
  next
    case CONTROL_RESULT_OK
    then obtain c1 e2 where h: "same_hold c c1" "ctlState c1 = ctlState c" "execute_operate m now (setState STATE_OPERATE c1) e2 = Inr (c', env')"
      using x True w by (auto simp: executeControlTask_def getState_def rbind_pair_Inr_iff rbind_Inr_iff split: if_splits dest!: change_oper_hold)
    then have "same_hold c1 (setState STATE_OPERATE c1)" using True by (auto intro!: set_operate_hold)
    then show ?thesis using h execute_operate_hold same_hold_trans by blast
  qed (use x True w in \<open>auto simp: executeControlTask_def getState_def\<close>)
qed (use x in \<open>auto simp: executeControlTask_def getState_def Let_def split: if_splits dest: execute_operate_hold\<close>)

lemma process_hold:
  assumes "process_control_object m t now c env = Inr (c', env')"
  shows "same_hold c c'"
proof (cases "ctlState c = STATE_WAIT_FOR_ACTIVATION_TIME \<and> operateTime c \<le> t")
  case True
  let ?c = "c\<lparr>timeActivatedOperate := False\<rparr>"
  obtain r e1 where k: "call_check_handler m (ctlVal c) (testMode c) (interlockCheck c) (mmsConnection c) ?c env = (r, e1)" by fastforce
  have "same_hold ?c c'"
  proof (cases "r = CONTROL_ACCEPTED")
    case True
    then show ?thesis using assms \<open>_ \<and> _\<close> k by (auto simp: process_control_object_def intro: executeControlTask_hold)
  next
    case False
    then obtain c1 e2 where "same_hold ?c c1" "abortControlOperation c1 e2 = Inr (c', env')"
      using assms \<open>_ \<and> _\<close> k by (auto simp: process_control_object_def rbind_pair_Inr_iff dest!: report_hold)
    then show ?thesis using abort_hold same_hold_trans by blast
  qed
  moreover have "same_hold c ?c" by (auto intro!: same_holdI)
  ultimately show ?thesis using same_hold_trans by blast
qed (use assms in \<open>auto simp: process_control_object_def split: if_splits dest: executeControlTask_hold\<close>)

lemma unselect_hold: "ControlObject_unselect conn c env = Inr (r, c', env') \<Longrightarrow> same_hold c c'"
  by (auto simp: ControlObject_unselect_def rbind_pair_Inr_iff split: if_splits dest: abort_hold)

lemma timeout_hold: "same_hold c (checkSelectTimeout t c)"
  by (auto simp: checkSelectTimeout_def unselectObject_def setState_def intro!: same_holdI)


lemma select_hold:
  "selectObject t conn c = Inr c' \<Longrightarrow> same_configuration c c' \<and> mmsConnection c' = Some conn \<and> ctlState c' = STATE_READY"
  by (auto simp: selectObject_def updateSboTimeoutValue_def setState_def same_configuration_def rbind_Inr_iff split: option.splits)

lemma parameters_hold:
  "updateControlParameters v num orig c = Inr c' \<Longrightarrow> same_hold c c' \<and> mmsConnection c' = mmsConnection c \<and> ctlState c' = ctlState c
     \<and> timeActivatedOperate c' = timeActivatedOperate c"
  by (auto simp: updateControlParameters_def rbind_Inr_iff intro!: same_holdI)

text \<open>What a request can do: nothing that matters, or a selection for the connection of the request.\<close>

definition selects_for :: "connection \<Rightarrow> sControlObject \<Rightarrow> sControlObject \<Rightarrow> bool" where
  "selects_for conn c c' \<longleftrightarrow> same_configuration c c' \<and> mmsConnection c' = Some conn"

lemma hold_selects_trans: "same_hold c c1 \<Longrightarrow> selects_for conn c1 c' \<Longrightarrow> selects_for conn c c'"
  by (simp add: selects_for_def hold_defs)

lemma read_sbo_hold:
  assumes "read_sbo m t conn c env = Inr (v, c', env')"
  shows "same_hold c c' \<or> selects_for conn c c'"
proof -
  have "same_hold c c' \<or> (\<exists>c1. same_hold c c1 \<and> selects_for conn c1 c')"
    using assms timeout_hold [of c t]
    by (auto simp: read_sbo_def Let_def rbind_Inr_iff selects_for_def split: if_splits prod.splits dest!: select_hold)
  then show ?thesis using hold_selects_trans by blast
qed

lemma read_hold:
  assumes "read_element m t conn el c env = Inr (v, c', env')"
  shows "same_hold c c' \<or> (el = Some ''SBO'' \<and> selects_for conn c c')"
  using assms read_sbo_hold [of m t conn c env v c' env']
  by (auto simp: read_element_def rbind_Inr_iff split: option.splits if_splits)

lemma select_with_value_hold:
  assumes "select_with_value m t conn v num orig check test c env = Inr (ind, c', env')"
  shows "same_hold c c' \<or> selects_for conn c c'"
proof -
  obtain b i where x: "(let (checkResult, env) = call_check_handler m (Some v) b i (Some conn) c env
       in if checkResult = CONTROL_ACCEPTED then
            rbind (selectObject t conn c) (\<lambda>self. rbind (updateControlParameters (Some v) num orig self) (\<lambda>self.
              Inr (DATA_ACCESS_ERROR_SUCCESS, self, env)))
          else refuse (getDataAccessErrorFromCheckHandlerResult checkResult) conn ''SBOw'' ADD_CAUSE_SELECT_FAILED num orig c env)
      = Inr (ind, c', env')"
    using assms by (auto simp: select_with_value_def rbind_Inr_iff)
  obtain r e1 where k: "call_check_handler m (Some v) b i (Some conn) c env = (r, e1)" by fastforce
  show ?thesis
  proof (cases "r = CONTROL_ACCEPTED")
    case True
    then obtain c1 where "selectObject t conn c = Inr c1" "updateControlParameters (Some v) num orig c1 = Inr c'"
      using x k by (auto simp: rbind_Inr_iff)
    then show ?thesis by (auto simp: selects_for_def same_hold_def same_configuration_def dest!: select_hold parameters_hold)
  qed (use x k in \<open>auto dest!: refuse_hold\<close>)
qed

lemma write_sbow_hold:
  assumes "write_sbow m t conn value c env = Inr (ind, c', env')"
  shows "same_hold c c' \<or> selects_for conn c c'"
proof -
  have "same_hold c c' \<or> (\<exists>c1. same_hold c c1 \<and> (same_hold c1 c' \<or> selects_for conn c1 c'))"
    using assms timeout_hold [of c t]
    by (fastforce simp: write_sbow_def rbind_Inr_iff Let_def split: if_splits option.splits dest!: select_with_value_hold refuse_hold)
  then show ?thesis using hold_selects_trans same_hold_trans by blast
qed

text \<open>An operate comes from the connection the object is held by, or the object has no select.\<close>

definition operable :: "connection \<Rightarrow> sControlObject \<Rightarrow> bool" where
  "operable conn c \<longleftrightarrow> ctlState c = STATE_READY \<and> (is_sbo c \<longrightarrow> mmsConnection c = Some conn)"

lemma activate_hold:
  assumes "activate conn value interlock synchro c env = Inr (ind, c', env')" and "operable conn c"
  shows "same_hold c c' \<and> (timeActivatedOperate c' \<or> operable conn c')"
proof -
  have "same_hold c c' \<and> mmsConnection c' \<in> {mmsConnection c, Some conn} \<and> ctlModel c' = ctlModel c
      \<and> (timeActivatedOperate c' \<or> ctlState c' = ctlState c)"
    using assms by (auto simp: activate_def rbind_Inr_iff Let_def setState_def hold_defs operable_def split: option.splits if_splits)
  then show ?thesis using assms(2) by (auto simp: operable_def)
qed

lemma start_hold:
  assumes "start_operate m conn k v b i c env = Inr (ind, c', env')" and "operable conn c"
  shows "same_hold c c'"
  using assms
  by (auto simp: start_operate_def Let_def rbind_pair_Inr_iff split: prod.splits if_splits dest!: abort_hold)
    (auto simp: hold_defs setState_def operable_def)

lemma operate_accepted_hold:
  assumes x: "operate_accepted m conn k value pars checks c env = Inr (ind, c', env')" and o: "operable conn c"
  shows "same_hold c c'"
proof -
  obtain v num orig i sy te where p: "pars = (v, num, orig)" "checks = (i, sy, te)" by (metis prod_cases3)
  obtain c1 ind1 c2 e2 c3 where h: "updateControlParameters (Some v) (Some num) (Some orig) c = Inr c1"
    "activate conn value i sy c1 env = Inr (ind1, c2, e2)" "update_oper value c2 = Inr c3"
    and r: "(if timeActivatedOperate c3 then Inr (ind1, c3, e2) else start_operate m conn k v te i c3 e2) = Inr (ind, c', env')"
    using x by (auto simp: operate_accepted_def p rbind_Inr_iff rbind_pair_Inr_iff)
  have h1: "same_hold c c1" "operable conn c1" using parameters_hold [OF h(1)] o by (auto simp: operable_def hold_defs)
  note h2 = activate_hold [OF h(2) h1(2)]
  have h3: "same_hold c2 c3" "timeActivatedOperate c3 \<or> operable conn c3"
    using change_oper_hold [OF h(3) [unfolded update_oper_def]] h2 by (auto simp: operable_def hold_defs)
  have "same_hold c3 c'" using r h3(2) start_hold by (auto split: if_splits)
  with h1 h2 h3 show ?thesis using same_hold_trans by blast
qed


lemma operate_ready_hold:
  assumes x: "operate_ready m conn k value pars c env = Inr (ind, c', env')" and r: "ctlState c = STATE_READY"
  shows "same_hold c c'"
proof -
  obtain v num orig check test where p: "pars = (v, num, orig, check, test)" by (metis prod_cases5)
  obtain i sy te where b: "MmsValue_getBitStringBit check 1 = Inr i" "MmsValue_getBitStringBit check 0 = Inr sy"
    "MmsValue_getBoolean test = Inr te"
    using x by (auto simp: operate_ready_def p rbind_Inr_iff)
  let ?c = "c\<lparr>testMode := te\<rparr>"
  have "c' = ?c \<or> same_hold ?c c'
      \<or> (operable conn ?c \<and> operate_accepted m conn k value (v, num, orig) (i, sy, te) ?c env = Inr (ind, c', env'))"
    using x r by (auto simp: operate_ready_def p b Let_def rbind_Inr_iff operable_def split: if_split_asm dest!: refuse_hold)
  then have "same_hold ?c c'" using operate_accepted_hold by auto
  moreover have "same_hold c ?c" by (auto intro!: same_holdI)
  ultimately show ?thesis using same_hold_trans by blast
qed

lemma write_oper_hold:
  assumes "write_oper m t conn k value c env = Inr (ind, c', env')"
  shows "same_hold c c'"
proof -
  obtain p where p: "oper_parameters value = Inr p" using assms by (auto simp: write_oper_def rbind_Inr_iff)
  show ?thesis
  proof (cases p)
    case (Some q)
    obtain v num orig check test where q: "q = (v, num, orig, check, test)" by (metis prod_cases5)
    have "c' = c \<or> c' = checkSelectTimeout t c \<or> same_hold (checkSelectTimeout t c) c'"
      using assms unfolding write_oper_def p Some q
      by (auto simp: rbind_Inr_iff Let_def getState_def split: if_split_asm dest!: refuse_hold operate_ready_hold)
    then show ?thesis using timeout_hold [of c t] same_hold_trans by auto
  qed (use assms p in \<open>auto simp: write_oper_def\<close>)
qed

lemma cancel_activated_hold: "cancel_activated ind c env = Inr (ind', c', env') \<Longrightarrow> same_hold c c'"
proof (cases "timeActivatedOperate c")
  case True
  assume "cancel_activated ind c env = Inr (ind', c', env')"
  then have "same_hold (c\<lparr>timeActivatedOperate := False\<rparr>) c'"
    using True by (auto simp: cancel_activated_def rbind_pair_Inr_iff dest: abort_hold)
  moreover have "same_hold c (c\<lparr>timeActivatedOperate := False\<rparr>)" by (auto intro!: same_holdI)
  ultimately show ?thesis using same_hold_trans by blast
qed (auto simp: cancel_activated_def)

lemma write_cancel_hold:
  assumes "write_cancel conn value c env = Inr (ind, c', env')"
  shows "same_hold c c'"
proof -
  have "c' = c \<or> c' = unselectObject c \<or> (\<exists>c1. same_hold c c1 \<and> same_hold c1 c')"
    using assms by (fastforce simp: write_cancel_def rbind_Inr_iff rbind_pair_Inr_iff split: if_split_asm
        dest!: refuse_hold cancel_activated_hold)
  moreover have "same_hold c (unselectObject c)" by (auto simp: unselectObject_def intro: setState_hold)
  ultimately show ?thesis using same_hold_trans by auto
qed

lemma write_hold:
  assumes "write_element m t conn k service value c env = Inr (ind, c', env')"
  shows "same_hold c c' \<or> (service = ''SBOw'' \<and> selects_for conn c c')"
  using assms write_sbow_hold [where c = c and c' = c']
  by (auto simp: write_element_def split: if_split_asm dest: write_oper_hold write_cancel_hold)


section \<open>Selection comes before operation\<close>

text \<open>Until it is initialised the control model of an object is 0, as it was made.\<close>

definition well_made :: "sControlObject \<Rightarrow> bool" where
  "well_made c \<longleftrightarrow> ctlInitialized c \<or> ctlModel c = 0"

lemma update_timeout: "updateSboTimeoutValue c = Inr c' \<Longrightarrow> \<exists>t. c' = c\<lparr>selectTimeout := t\<rparr>"
  by (auto simp: updateSboTimeoutValue_def rbind_Inr_iff split: option.split_asm)

lemma model_state:
  assumes "initialize_model cache v c = Inr c'" and "is_sbo c'"
  shows "ctlState c' = STATE_UNSELECTED"
proof -
  obtain k where k: "MmsValue_toInt32 v = Inr k" using assms(1) by (auto simp: initialize_model_def rbind_Inr_iff)
  show ?thesis
  proof (cases "k = 2 \<or> k = 4")
    case True
    then show ?thesis using assms(1) k by (auto simp: initialize_model_def rbind_Inr_iff Let_def setState_def dest!: update_timeout)
  next
    case False
    then have "ctlModel c' = k" using assms(1) k by (auto simp: initialize_model_def rbind_Inr_iff Let_def setState_def)
    then show ?thesis using False assms(2) by simp
  qed
qed

lemma initialize_hold:
  assumes "initialize cache c = Inr c'" and "well_made c"
  shows "(ctlInitialized c \<and> c' = c) \<or> (ctlInitialized c' \<and> \<not> held c')"
proof (cases "ctlInitialized c")
  case False
  then have "\<exists>c1 found. ctlModel c1 = ctlModel c
      \<and> rbind (case found of None \<Rightarrow> Inr c1 | Some v \<Rightarrow> initialize_model cache v c1) (\<lambda>c2. Inr (c2\<lparr>ctlInitialized := True\<rparr>)) = Inr c'"
    using assms(1)
    by (auto simp: initialize_def Let_def rbind_Inr_iff [of "MmsValue_newVisibleString x" for x] rbind_Inr_iff [of "string_in_buffer n x" for n x]
        rbind_Inr_iff [of "MmsValue_newIntegerFromInt32 x" for x])
      (rule exI, rule conjI [rotated], rule exI, assumption, simp)
  then obtain c1 c2 where i: "c' = c2\<lparr>ctlInitialized := True\<rparr>" "ctlModel c1 = ctlModel c"
    "c2 = c1 \<or> (\<exists>v. initialize_model cache v c1 = Inr c2)"
    by (fastforce simp: rbind_Inr_iff split: option.split_asm)
  have "is_sbo c2 \<Longrightarrow> ctlState c2 = STATE_UNSELECTED"
    using i assms(2) False by (auto simp: well_made_def dest: model_state)
  then show ?thesis using i by (auto simp: held_def)
qed (use assms in \<open>simp add: initialize_def\<close>)

text \<open>The request selects the object: a read of \<open>SBO\<close>, a write of \<open>SBOw\<close>.\<close>

definition selects :: "server_action \<Rightarrow> sMmsMapping \<Rightarrow> nat \<Rightarrow> connection \<Rightarrow> bool" where
  "selects a mp i conn \<longleftrightarrow>
     (\<exists>m t domain item. a = Read_request m t domain item conn \<and> names 128 domain item ''SBO'' mp i)
   \<or> (\<exists>m t k domain item value. a = Write_request m t k domain item value conn \<and> names 64 domain item ''SBOw'' mp i)"

lemma hold_held:
  "same_hold c c' \<Longrightarrow> held c' \<Longrightarrow> operate_once c' \<Longrightarrow> held c \<and> operate_once c \<and> mmsConnection c' = mmsConnection c"
  using configuration_once [of c c'] configuration_sbo [of c c'] by (auto simp: same_hold_def held_def same_configuration_def)

lemma change_held:
  assumes "object_change cache a mp i c c'" and "well_made c" and "held c'" and "operate_once c'"
  shows "(held c \<and> operate_once c \<and> mmsConnection c' = mmsConnection c) \<or> (\<exists>conn. mmsConnection c' = Some conn \<and> selects a mp i conn)"
  using assms
proof (cases rule: object_change.cases)
  case (by_read c1 m t conn el env v env' item domain)
  from read_hold [OF by_read(3)] consider (hold) "same_hold c1 c'" | (sel) "el = Some ''SBO''" "selects_for conn c1 c'" by blast
  then show ?thesis
  proof cases
    case hold
    from hold_held [OF hold assms(3,4)] initialize_hold [OF by_read(2) assms(2)] show ?thesis by auto
  next
    case sel
    then show ?thesis using by_read by (auto simp: selects_def selects_for_def)
  qed
next
  case (by_write c1 m t conn k service val env ind env' item domain)
  from write_hold [OF by_write(3)] consider (hold) "same_hold c1 c'" | (sel) "service = ''SBOw''" "selects_for conn c1 c'" by blast
  then show ?thesis
  proof cases
    case hold
    from hold_held [OF hold assms(3,4)] initialize_hold [OF by_write(2) assms(2)] show ?thesis by auto
  next
    case sel
    then show ?thesis using by_write by (auto simp: selects_def selects_for_def)
  qed
qed (auto dest!: process_hold unselect_hold hold_held)


lemma configuration_made: "same_configuration c c' \<Longrightarrow> well_made c \<Longrightarrow> well_made c'"
  by (simp add: same_configuration_def well_made_def)

lemma initialize_made: "initialize cache c = Inr c' \<Longrightarrow> ctlInitialized c'"
  by (auto simp: initialize_def rbind_Inr_iff Let_def split: if_split_asm)

lemma change_made:
  assumes "object_change cache a mp i c c'" and "well_made c"
  shows "well_made c'"
  using assms
proof (cases rule: object_change.cases)
  case (by_read c1 m t conn el env v env' item domain)
  from read_hold [OF by_read(3)] have "same_configuration c1 c'" by (auto simp: same_hold_def selects_for_def)
  moreover have "well_made c1" using initialize_made [OF by_read(2)] by (simp add: well_made_def)
  ultimately show ?thesis by (rule configuration_made)
next
  case (by_write c1 m t conn k service val env ind env' item domain)
  from write_hold [OF by_write(3)] have "same_configuration c1 c'" by (auto simp: same_hold_def selects_for_def)
  moreover have "well_made c1" using initialize_made [OF by_write(2)] by (simp add: well_made_def)
  ultimately show ?thesis by (rule configuration_made)
qed (use assms(2) in \<open>auto simp: same_hold_def dest!: process_hold unselect_hold intro: configuration_made\<close>)

lemma run_objects:
  assumes "control_run cache s tr s'" and "\<forall>c \<in> set (controls s). well_made c"
  shows "length (controls s') = length (controls s) \<and> (\<forall>c \<in> set (controls s'). well_made c)"
  using assms(1)
proof induction
  case (step tr s1 a r s2)
  have "length (controls s2) = length (controls s1) \<and> (\<forall>i < length (controls s1). well_made (controls s2 ! i))"
  proof (cases "controls s1 = []")
    case True
    then show ?thesis using step.hyps(2) by (cases a) (auto simp: rbind_Inr_iff rbind_pair_Inr_iff Control_processControlActions_def
          connection_opened_def connection_removed_def wait_round_def unselectControlsForConnection_def change_control_def Let_def
          split: option.split_asm if_split_asm dest!: read_result write_result)
  next
    case False
    then have "0 < length (controls s1)" by simp
    then have "length (controls s2) = length (controls s1)" using action_changes [OF step.hyps(2)] by blast
    moreover have "well_made (controls s2 ! i)" if "i < length (controls s1)" for i
      using action_changes [OF step.hyps(2) that] change_made step.IH that by (meson nth_mem)
    ultimately show ?thesis by simp
  qed
  with step.IH show ?case by (simp add: all_set_conv_all_nth)
qed (use assms(2) in simp)

text \<open>C3: An object that is held was selected by the connection that holds it, and has been held by it since.\<close>

theorem held_since_selected:
  assumes "control_run cache s tr s'" and "\<forall>c \<in> set (controls s). well_made c \<and> \<not> held c"
    and "i < length (controls s)" and "held (controls s' ! i)" and "operate_once (controls s' ! i)"
  shows "\<exists>conn tr1 a s1 tr2. tr = tr1 @ (a, s1) # tr2 \<and> mmsConnection (controls s' ! i) = Some conn
    \<and> (\<exists>s0. control_run cache s tr1 s0 \<and> selects a (mapping s0) i conn)
    \<and> (\<forall>(b, s2) \<in> set ((a, s1) # tr2). held (controls s2 ! i) \<and> mmsConnection (controls s2 ! i) = Some conn)"
  using assms(1,4,5)
proof induction
  case start
  then show ?case using assms(2,3) by simp
next
  case (step tr s1 a r s2)
  have made: "\<forall>c \<in> set (controls s). well_made c" using assms(2) by simp
  note obj = run_objects [OF step.hyps(1) made]
  then have i: "i < length (controls s1)" "well_made (controls s1 ! i)" using assms(3) by simp_all
  from action_changes [OF step.hyps(2) i(1)]
  have ch: "object_change cache a (mapping s1) i (controls s1 ! i) (controls s2 ! i)" by simp
  from change_held [OF ch i(2) step.prems] consider
      (kept) "held (controls s1 ! i)" "operate_once (controls s1 ! i)" "mmsConnection (controls s2 ! i) = mmsConnection (controls s1 ! i)"
    | (new) conn where "mmsConnection (controls s2 ! i) = Some conn" "selects a (mapping s1) i conn" by blast
  then show ?case
  proof cases
    case kept
    from step.IH [OF kept(1,2)] obtain conn tr1 b s3 tr2 where h: "tr = tr1 @ (b, s3) # tr2" "mmsConnection (controls s1 ! i) = Some conn"
      "\<exists>s0. control_run cache s tr1 s0 \<and> selects b (mapping s0) i conn"
      "\<forall>(b, s2) \<in> set ((b, s3) # tr2). held (controls s2 ! i) \<and> mmsConnection (controls s2 ! i) = Some conn" by blast
    have "tr @ [(a, s2)] = tr1 @ (b, s3) # (tr2 @ [(a, s2)])" using h(1) by simp
    moreover have "\<forall>(b, s4) \<in> set ((b, s3) # tr2 @ [(a, s2)]). held (controls s4 ! i) \<and> mmsConnection (controls s4 ! i) = Some conn"
      using h(2,4) kept(3) step.prems(1) by auto
    moreover have "mmsConnection (controls s2 ! i) = Some conn" using h(2) kept(3) by simp
    ultimately show ?thesis using h(3)
      by - (rule exI [of _ conn], rule exI [of _ tr1], rule exI [of _ b], rule exI [of _ s3], rule exI [of _ "tr2 @ [(a, s2)]"], blast)
  next
    case new
    have "\<exists>s0. control_run cache s tr s0 \<and> selects a (mapping s0) i conn" using step.hyps(1) new(2) by blast
    moreover have "\<forall>(b, s4) \<in> set ((a, s2) # []). held (controls s4 ! i) \<and> mmsConnection (controls s4 ! i) = Some conn"
      using new(1) step.prems(1) by simp
    ultimately show ?thesis using new(1)
      by - (rule exI [of _ conn], rule exI [of _ tr], rule exI [of _ a], rule exI [of _ s2], rule exI [of _ "[]"], blast)
  qed
qed


text \<open>A small server: one control object, the control model of its data model is an argument.\<close>

definition demo_integer :: "u32 \<Rightarrow> sMmsValue option" where
  "demo_integer n = (case MmsValue_newIntegerFromInt32 n of Inr v \<Rightarrow> Some v | Inl _ \<Rightarrow> None)"

definition demo_cache :: "u32 \<Rightarrow> model_cache" where
  "demo_cache model domain item = (if item = ''GGIO1$CF$SPCSO1$ctlModel'' then demo_integer model else None)"

definition demo_domain :: sMmsDomain where
  "demo_domain = \<lparr>domainAddress = 1, domainName = ''LD''\<rparr>"

definition demo_start :: control_system where
  "demo_start = \<lparr>mapping = \<lparr>controlObjects = [ControlObject_create demo_domain ''GGIO1'' ''SPCSO1''],
     iedServer = \<lparr>clientConnections = [], events = []\<rparr>\<rparr>, closing = []\<rparr>"

definition demo_select :: server_action where
  "demo_select = Read_request 0 100 demo_domain ''GGIO1$CO$SPCSO1$SBO'' 5"

lemma demo_selected: "case control_action (demo_cache 2) demo_select demo_start of
   Inr (r, s) \<Rightarrow> held (controls s ! 0) \<and> operate_once (controls s ! 0) | Inl e \<Rightarrow> False"
  by code_simp

theorem held_since_selected_witness:
  "\<exists>a s s'. control_run (demo_cache 2) s [(a, s')] s' \<and> held (controls s' ! 0)
     \<and> (\<exists>conn. mmsConnection (controls s' ! 0) = Some conn \<and> selects a (mapping s) 0 conn)"
proof -
  obtain r s' where a: "control_action (demo_cache 2) demo_select demo_start = Inr (r, s')"
    and h: "held (controls s' ! 0)" "operate_once (controls s' ! 0)"
    using demo_selected by (auto split: sum.split_asm)
  have run: "control_run (demo_cache 2) demo_start [(demo_select, s')] s'"
    using control_run.step [OF control_run.start a] by simp
  have ok: "\<forall>c \<in> set (controls demo_start). well_made c \<and> \<not> held c"
    by (simp add: demo_start_def well_made_def held_def ControlObject_create_def)
  from held_since_selected [OF run ok _ h] obtain conn tr1 a s1 tr2 s0 where
    f: "[(demo_select, s')] = tr1 @ (a, s1) # tr2" "mmsConnection (controls s' ! 0) = Some conn"
      "control_run (demo_cache 2) demo_start tr1 s0" "selects a (mapping s0) 0 conn"
    by (auto simp: demo_start_def)
  then have "tr1 = []" "a = demo_select" by (auto simp: Cons_eq_append_conv)
  moreover from this(1) f(3) have "s0 = demo_start" by (auto elim: control_run.cases)
  ultimately show ?thesis using run h f(2,4) by blast
qed

end
