(* ===== verification/Control_Tasks.thy ===== *)
theory Control_Tasks
  imports Control_Correct
begin

text \<open>
  The tasks of a connection: an operate starts one, the end of the operation takes two away, and a connection that is closed while it
  has one is waited for without end, because it is no longer found when the task ends.
\<close>

section \<open>The connections an operation leaves alone\<close>

definition tasks :: "control_env \<Rightarrow> connection \<Rightarrow> int option" where
  "tasks env conn = map_option tasksCount (private_IedServer_getClientConnectionByHandle (clientConnections env) (Some conn))"

abbreviation same_clients :: "control_env \<Rightarrow> control_env \<Rightarrow> bool" where
  "same_clients env env' \<equiv> clientConnections env' = clientConnections env"

lemma emit_clients [simp]: "clientConnections (emit e env) = clientConnections env"
  by (simp add: emit_def)

lemma report_clients:
  "ControlObject_sendLastApplError conn name err cause num orig c env = Inr (c', env') \<Longrightarrow> same_clients env env'"
  "ControlObject_sendCommandTerminationNegative c env = Inr (c', env') \<Longrightarrow> same_clients env env'"
  "ControlObject_sendCommandTerminationPositive c env = Inr env' \<Longrightarrow> same_clients env env'"
  "MmsServerConnection_sendWriteResponse conn k ind env = Inr env' \<Longrightarrow> same_clients env env'"
  by (auto simp: ControlObject_sendLastApplError_def ControlObject_sendCommandTerminationNegative_def
      ControlObject_sendCommandTerminationPositive_def MmsServerConnection_sendWriteResponse_def rbind_pair_Inr_iff rbind_Inr_iff)

lemma check_clients: "call_check_handler m v b i conn c env = (r, env') \<Longrightarrow> same_clients env env'"
  by (auto simp: call_check_handler_def Let_def split: option.split_asm)

lemma wait_clients: "call_wait_handler m c env = (r, env') \<Longrightarrow> same_clients env env'"
  by (auto simp: call_wait_handler_def split: option.split_asm)

lemma operate_call_clients: "operateControl m v now b c env = (r, c', env') \<Longrightarrow> same_clients env env'"
  by (auto simp: operateControl_def Let_def split: option.split_asm)


section \<open>Counting\<close>

lemma found_handle: "private_IedServer_getClientConnectionByHandle cs h = Some c \<Longrightarrow> Some (serverConnectionHandle c) = h"
  by (induction cs) (auto split: if_split_asm)

lemma with_connection_found:
  assumes "\<And>c. serverConnectionHandle (f c) = serverConnectionHandle c"
  shows "private_IedServer_getClientConnectionByHandle (with_connection f h cs) h
    = map_option f (private_IedServer_getClientConnectionByHandle cs h)"
  using assms by (induction cs) auto

lemma task_started: "mmsConnection c = Some conn \<Longrightarrow> tasks (initiateControlTask c env) conn = map_option (\<lambda>n. n + 1) (tasks env conn)"
  by (simp add: tasks_def initiateControlTask_def with_connection_found private_ClientConnection_increaseTasksCount_def
      option.map_comp comp_def)

lemma task_left: "mmsConnection c = Some conn \<Longrightarrow> tasks (exitControlTask c env) conn = map_option (\<lambda>n. n - 1) (tasks env conn)"
  by (simp add: tasks_def exitControlTask_def with_connection_found private_ClientConnection_decreaseTasksCount_def
      option.map_comp comp_def)

lemma same_tasks: "same_clients env env' \<Longrightarrow> tasks env' = tasks env"
  by (simp add: tasks_def fun_eq_iff)

lemma finish_tasks:
  assumes "finish_task c env = Inr (c', env')" and "mmsConnection c = Some conn"
  shows "tasks env' conn = map_option (\<lambda>n. n - 2) (tasks env conn) \<and> ctlState c' \<in> {STATE_UNSELECTED, STATE_READY}"
proof -
  obtain c1 e1 where a: "abortControlOperation c env = Inr (c1, e1)" "c' = c1" "env' = exitControlTask c1 e1"
    using assms(1) by (auto simp: finish_task_def rbind_pair_Inr_iff)
  from abort_state [OF a(1)] obtain s where "c1 = setState s c" "e1 = exitControlTask c1 env" "s \<in> {STATE_UNSELECTED, STATE_READY}" by auto
  then show ?thesis using a(2,3) assms(2) by (auto simp: task_left setState_def option.map_comp comp_def)
qed


section \<open>Starting an operation\<close>

lemma code_of_check: "getDataAccessErrorFromCheckHandlerResult r \<noteq> DATA_ACCESS_ERROR_NO_RESPONSE"
  by (cases r) auto

lemma start_operate_started:
  assumes "start_operate m conn k v b i c env = Inr (DATA_ACCESS_ERROR_NO_RESPONSE, c', env')"
  shows "\<exists>e. same_clients env e \<and> env' = initiateControlTask c' e \<and> c' = setState STATE_WAIT_FOR_EXECUTION (c\<lparr>mmsConnection := Some conn, operateInvokeId := k\<rparr>)
    \<and> call_check_handler m (Some v) b i (Some conn) c env = (CONTROL_ACCEPTED, e)"
proof -
  obtain r e1 where h: "call_check_handler m (Some v) b i (Some conn) c env = (r, e1)" by fastforce
  show ?thesis
  proof (cases "r = CONTROL_ACCEPTED")
    case True
    then show ?thesis using assms h check_clients [OF h] by (auto simp: start_operate_def Let_def initiateControlTask_def setState_def)
  next
    case False
    then show ?thesis using assms h code_of_check [of r] by (auto simp: start_operate_def rbind_pair_Inr_iff)
  qed
qed

lemma activate_indication:
  assumes "activate conn value i sy c env = Inr (ind, c', env')"
  shows "ind \<noteq> DATA_ACCESS_ERROR_NO_RESPONSE
    \<and> (timeActivatedOperate c' \<or> (env' = env \<and> ctlState c' = ctlState c \<and> (\<exists>t. c' = c\<lparr>operateTime := t\<rparr>)))"
proof -
  obtain p where p: "getOperParameterOperTime value = Inr p" using assms by (auto simp: activate_def rbind_Inr_iff)
  show ?thesis
  proof (cases p)
    case None
    then have "ind = DATA_ACCESS_ERROR_OBJECT_ACCESS_DENIED" "env' = env" "c' = c"
      using assms p by (simp_all add: activate_def)
    moreover have "c = c\<lparr>operateTime := operateTime c\<rparr>" by simp
    ultimately show ?thesis by blast
  next
    case (Some operTm)
    then obtain t where "MmsValue_getUtcTimeInMs operTm = Inr t" using assms p by (auto simp: activate_def rbind_Inr_iff)
    then show ?thesis using assms p Some by (cases "t = 0") (auto simp: activate_def Let_def setState_def)
  qed
qed

text \<open>What is known of an object after an operate that is answered later.\<close>

lemma operate_accepted_started:
  assumes "operate_accepted m conn k value pars checks c env = Inr (DATA_ACCESS_ERROR_NO_RESPONSE, c', env')"
  shows "\<exists>c3 v num orig i sy te e. pars = (v, num, orig) \<and> checks = (i, sy, te)
    \<and> (\<exists>v'. MmsValue_clone v = Inr v' \<and> ctlVal c3 = Some v') \<and> testMode c3 = testMode c
    \<and> operateHandler c3 = operateHandler c \<and> waitForExecutionHandler c3 = waitForExecutionHandler c \<and> synchroCheck c3 = synchroCheck c
    \<and> same_clients env e \<and> env' = initiateControlTask c' e
    \<and> call_check_handler m (Some v) te i (Some conn) c3 env = (CONTROL_ACCEPTED, e)
    \<and> c' = setState STATE_WAIT_FOR_EXECUTION (c3\<lparr>mmsConnection := Some conn, operateInvokeId := k\<rparr>)"
proof -
  obtain v num orig i sy te where p: "pars = (v, num, orig)" "checks = (i, sy, te)" by (metis prod_cases3)
  obtain c1 ind1 c2 e2 c3 where h: "updateControlParameters (Some v) (Some num) (Some orig) c = Inr c1"
    "activate conn value i sy c1 env = Inr (ind1, c2, e2)" "update_oper value c2 = Inr c3"
    and r: "(if timeActivatedOperate c3 then Inr (ind1, c3, e2) else start_operate m conn k v te i c3 e2) = Inr (DATA_ACCESS_ERROR_NO_RESPONSE, c', env')"
    using assms by (auto simp: operate_accepted_def p rbind_Inr_iff rbind_pair_Inr_iff)
  note ac = activate_indication [OF h(2)]
  from r ac have s: "start_operate m conn k v te i c3 e2 = Inr (DATA_ACCESS_ERROR_NO_RESPONSE, c', env')" "\<not> timeActivatedOperate c3"
    by (auto split: if_split_asm)
  have t: "timeActivatedOperate c2 = timeActivatedOperate c3" using h(3) by (auto simp: update_oper_def dest: change_oper_hold)
  with ac s(2) obtain tm where c2: "e2 = env" "c2 = c1\<lparr>operateTime := tm\<rparr>" by auto
  have "\<exists>x. c3 = c2\<lparr>mmsValue := x\<rparr>" using h(3) by (auto simp: update_oper_def change_oper_def rbind_Inr_iff)
  moreover have "\<exists>v' n' r'. MmsValue_clone v = Inr v' \<and> c1 = c\<lparr>ctlVal := Some v', ctlNum := n', origin := r'\<rparr>"
    using h(1) by (auto simp: updateControlParameters_def through_def rbind_Inr_iff)
  ultimately have "(\<exists>v'. MmsValue_clone v = Inr v' \<and> ctlVal c3 = Some v') \<and> testMode c3 = testMode c
    \<and> operateHandler c3 = operateHandler c \<and> waitForExecutionHandler c3 = waitForExecutionHandler c \<and> synchroCheck c3 = synchroCheck c"
    using c2 by auto
  moreover obtain e where "same_clients env e" "env' = initiateControlTask c' e"
      "call_check_handler m (Some v) te i (Some conn) c3 env = (CONTROL_ACCEPTED, e)"
      "c' = setState STATE_WAIT_FOR_EXECUTION (c3\<lparr>mmsConnection := Some conn, operateInvokeId := k\<rparr>)"
    using start_operate_started [OF s(1)] c2(1) by auto
  ultimately show ?thesis using p by blast
qed


text \<open>A request that is answered later is an \<open>Oper\<close> of an object that is ready.\<close>

lemma select_with_value_answered:
  "select_with_value m t conn v num orig check test c env = Inr (ind, c', env') \<Longrightarrow> ind \<noteq> DATA_ACCESS_ERROR_NO_RESPONSE"
proof -
  assume a: "select_with_value m t conn v num orig check test c env = Inr (ind, c', env')"
  then obtain b i where x: "(let (checkResult, env) = call_check_handler m (Some v) b i (Some conn) c env
       in if checkResult = CONTROL_ACCEPTED then
            rbind (selectObject t conn c) (\<lambda>self. rbind (updateControlParameters (Some v) num orig self) (\<lambda>self.
              Inr (DATA_ACCESS_ERROR_SUCCESS, self, env)))
          else refuse (getDataAccessErrorFromCheckHandlerResult checkResult) conn ''SBOw'' ADD_CAUSE_SELECT_FAILED num orig c env)
      = Inr (ind, c', env')"
    by (auto simp: select_with_value_def rbind_Inr_iff)
  obtain r e1 where k: "call_check_handler m (Some v) b i (Some conn) c env = (r, e1)" by fastforce
  show ?thesis
  proof (cases "r = CONTROL_ACCEPTED")
    case False
    with x k have "refuse (getDataAccessErrorFromCheckHandlerResult r) conn ''SBOw'' ADD_CAUSE_SELECT_FAILED num orig c e1 = Inr (ind, c', env')"
      by simp
    from refuse_hold [OF this] code_of_check [of r] show ?thesis by simp
  qed (use x k in \<open>auto simp: rbind_Inr_iff\<close>)
qed

lemma write_sbow_answered: "write_sbow m t conn value c env = Inr (ind, c', env') \<Longrightarrow> ind \<noteq> DATA_ACCESS_ERROR_NO_RESPONSE"
  by (fastforce simp: write_sbow_def rbind_Inr_iff Let_def split: if_split_asm option.split_asm
      dest: refuse_hold select_with_value_answered)

lemma cancel_activated_answer:
  "cancel_activated ind c env = Inr (ind', c', env') \<Longrightarrow> ind' = ind \<or> ind' = DATA_ACCESS_ERROR_SUCCESS"
  by (auto simp: cancel_activated_def rbind_pair_Inr_iff split: if_split_asm)

lemma write_cancel_answered: "write_cancel conn value c env = Inr (ind, c', env') \<Longrightarrow> ind \<noteq> DATA_ACCESS_ERROR_NO_RESPONSE"
  by (fastforce simp: write_cancel_def rbind_Inr_iff rbind_pair_Inr_iff split: if_split_asm
      dest: refuse_hold cancel_activated_answer)

lemma operate_ready_started:
  assumes "operate_ready m conn k value (v, num, orig, check, test) c env = Inr (DATA_ACCESS_ERROR_NO_RESPONSE, c', env')"
  shows "\<exists>i sy te. MmsValue_getBoolean test = Inr te
    \<and> operate_accepted m conn k value (v, num, orig) (i, sy, te) (c\<lparr>testMode := te\<rparr>) env = Inr (DATA_ACCESS_ERROR_NO_RESPONSE, c', env')"
proof -
  obtain i sy te where b: "MmsValue_getBitStringBit check 1 = Inr i" "MmsValue_getBitStringBit check 0 = Inr sy"
    "MmsValue_getBoolean test = Inr te"
    using assms by (auto simp: operate_ready_def rbind_Inr_iff)
  have "operate_accepted m conn k value (v, num, orig) (i, sy, te) (c\<lparr>testMode := te\<rparr>) env = Inr (DATA_ACCESS_ERROR_NO_RESPONSE, c', env')"
    using assms by (auto simp: operate_ready_def b Let_def rbind_Inr_iff split: if_split_asm dest: refuse_hold)
  with b(3) show ?thesis by blast
qed

lemma write_started:
  assumes "write_element m t conn k service value c env = Inr (DATA_ACCESS_ERROR_NO_RESPONSE, c', env')"
  shows "service = ''Oper'' \<and> (\<exists>v num orig check test i sy te. oper_parameters value = Inr (Some (v, num, orig, check, test))
    \<and> MmsValue_getBoolean test = Inr te \<and> ctlState (checkSelectTimeout t c) = STATE_READY
    \<and> operate_accepted m conn k value (v, num, orig) (i, sy, te) ((checkSelectTimeout t c)\<lparr>testMode := te\<rparr>) env
        = Inr (DATA_ACCESS_ERROR_NO_RESPONSE, c', env'))"
proof -
  have w: "service = ''Oper''" "write_oper m t conn k value c env = Inr (DATA_ACCESS_ERROR_NO_RESPONSE, c', env')"
    using assms by (auto simp: write_element_def split: if_split_asm dest: write_sbow_answered write_cancel_answered)
  obtain p where p: "oper_parameters value = Inr p" using w(2) by (auto simp: write_oper_def rbind_Inr_iff)
  with w(2) obtain q where q: "p = Some q" by (cases p) (auto simp: write_oper_def)
  obtain v num orig check test where t: "q = (v, num, orig, check, test)" by (metis prod_cases5)
  have "ctlState (checkSelectTimeout t c) = STATE_READY
     \<and> operate_ready m conn k value (v, num, orig, check, test) (checkSelectTimeout t c) env = Inr (DATA_ACCESS_ERROR_NO_RESPONSE, c', env')"
    using w(2) unfolding write_oper_def p q t
    by (auto simp: rbind_Inr_iff Let_def getState_def split: if_split_asm dest: refuse_hold)
  then show ?thesis using operate_ready_started w(1) p q t by metis
qed

text \<open>The task that is started is one of the connection of the request.\<close>

lemma write_starts_task:
  assumes "write_element m t conn k service value c env = Inr (DATA_ACCESS_ERROR_NO_RESPONSE, c', env')"
  shows "tasks env' conn = map_option (\<lambda>n. n + 1) (tasks env conn) \<and> ctlState c' = STATE_WAIT_FOR_EXECUTION
    \<and> mmsConnection c' = Some conn"
proof -
  obtain v num orig i sy te c1 where x:
    "operate_accepted m conn k value (v, num, orig) (i, sy, te) c1 env = Inr (DATA_ACCESS_ERROR_NO_RESPONSE, c', env')"
    using write_started [OF assms] by blast
  from operate_accepted_started [OF x] obtain e c3 where e: "same_clients env e" "env' = initiateControlTask c' e"
    "c' = setState STATE_WAIT_FOR_EXECUTION (c3\<lparr>mmsConnection := Some conn, operateInvokeId := k\<rparr>)" by blast
  then have "mmsConnection c' = Some conn" "ctlState c' = STATE_WAIT_FOR_EXECUTION" by (simp_all add: setState_def)
  with e show ?thesis using task_started [of c' conn e] same_tasks [OF e(1)] by simp
qed



section \<open>Closing a connection in the middle of an operation\<close>

text \<open>A closed connection with tasks stays where it is, whatever the server and the clients do.\<close>

lemma kept_closing:
  assumes "c \<in> set cs" and "private_IedServer_getClientConnectionByHandle cs (Some conn) = Some x" and "x \<noteq> c"
  shows "c \<in> set (remove_connection conn cs)"
  using assms by (induction cs) (auto split: if_split_asm)

lemma action_keeps_closing:
  assumes "control_action cache a s = Inr (r, s')" and "c \<in> set (closing s)" and "still_waiting c"
  shows "c \<in> set (closing s')"
  using assms
  by (cases a) (auto simp: rbind_Inr_iff rbind_pair_Inr_iff wait_round_def connection_removed_def intro: kept_closing
      split: option.split_asm if_split_asm)

lemma run_keeps_closing:
  "control_run cache s tr s' \<Longrightarrow> c \<in> set (closing s) \<Longrightarrow> still_waiting c \<Longrightarrow> c \<in> set (closing s')"
  by (induction rule: control_run.induct) (auto intro: action_keeps_closing)

text \<open>
  C5: the count of tasks of a connection at the moment it is closed decides over the wait of the thread that closes it. With a
  positive count the connection is waited for forever, whatever the server and the clients do later: no later end of an operation
  lowers the count. With a count of 0 or less the first round of the wait ends it and the connection is gone, even if
  an operation of it is pending.
\<close>

theorem close_waits_for_count:
  assumes c: "control_action cache (Closed conn) s = Inr (r, s2)"
    and n: "tasks (iedServer (mapping s)) conn = Some n"
  shows "(0 < n \<longrightarrow> (\<forall>tr s3. control_run cache s2 tr s3 \<longrightarrow>
            (\<exists>c \<in> set (closing s3). serverConnectionHandle c = conn \<and> tasksCount c = n \<and> still_waiting c)))
    \<and> (n \<le> 0 \<longrightarrow> closing s = [] \<longrightarrow>
            (\<forall>r' s3. control_action cache (Wait_round conn) s2 = Inr (r', s3) \<longrightarrow> closing s3 = []))"
proof -
  obtain x where x: "private_IedServer_getClientConnectionByHandle (clientConnections (iedServer (mapping s))) (Some conn) = Some x"
    "tasksCount x = n" using n by (auto simp: tasks_def)
  then have h: "serverConnectionHandle x = conn" using found_handle [OF x(1)] by simp
  have s2: "closing s2 = closing s @ [x]" using c x(1) by (auto simp: connection_removed_def)
  have waits: "still_waiting x \<longleftrightarrow> 0 < n" using x(2) by (simp add: still_waiting_def private_ClientConnection_getTasksCount_def)
  have "\<exists>c \<in> set (closing s3). serverConnectionHandle c = conn \<and> tasksCount c = n \<and> still_waiting c"
    if "0 < n" "control_run cache s2 tr s3" for tr s3
    using run_keeps_closing [OF that(2), of x] that(1) s2 waits h x(2) by auto
  moreover have "closing s3 = []" if "n \<le> 0" "closing s = []" "control_action cache (Wait_round conn) s2 = Inr (r', s3)" for r' s3
    using that s2 waits h by (auto simp: wait_round_def rbind_Inr_iff)
  ultimately show ?thesis by blast
qed


text \<open>The server with an open connection and an object that has an \<open>Oper\<close>, and the requests for it.\<close>

definition demo_origin :: sMmsValue where
  "demo_origin = MmsValue MMS_STRUCTURE 0 (U_structure [demo_integer 2, Some (MmsValue_newOctetString 0 4)])"

definition demo_oper :: "bool \<Rightarrow> sMmsValue" where
  "demo_oper v = MmsValue MMS_STRUCTURE 0 (U_structure [Some (MmsValue_newBoolean v), Some demo_origin, demo_integer 7,
     Some (MmsValue_newUtcTime 0), Some (MmsValue_newBoolean False), Some (MmsValue_newBitString 2)])"

definition demo_object :: sControlObject where
  "demo_object = ControlObject_setOper (Some 0) (ControlObject_setMmsValue
     (Some (MmsValue MMS_STRUCTURE 0 (U_structure [Some (demo_oper False)]))) (ControlObject_create demo_domain ''GGIO1'' ''SPCSO1''))"

definition demo_server :: control_system where
  "demo_server = \<lparr>mapping = \<lparr>controlObjects = [demo_object], iedServer = \<lparr>clientConnections = [private_ClientConnection_create 5], events = []\<rparr>\<rparr>,
     closing = []\<rparr>"

abbreviation demo_operate :: server_action where
  "demo_operate \<equiv> Write_request 0 100 33 demo_domain ''GGIO1$CO$SPCSO1$Oper'' (demo_oper True) 5"

lemma demo_operate_pending:
  "case control_action (demo_cache 1) demo_operate demo_server of
     Inr (Write_reply ind, s) \<Rightarrow> ind = DATA_ACCESS_ERROR_NO_RESPONSE | _ \<Rightarrow> False"
  by code_simp

text \<open>
  The connection is closed while its first operate is pending, and the wait never ends; it is closed while its second one is pending,
  and the wait ends at once, because the first operation has lowered the count twice.
\<close>

definition demo_first_pending :: "control_system run" where
  "demo_first_pending = rbind (control_action (demo_cache 1) demo_operate demo_server) (\<lambda>(_, s). Inr s)"

definition demo_second_pending :: "control_system run" where
  "demo_second_pending =
     rbind demo_first_pending (\<lambda>s.
     rbind (control_action (demo_cache 1) (Process 0 200 200) s) (\<lambda>(_, s).
     rbind (control_action (demo_cache 1) demo_operate s) (\<lambda>(_, s). Inr s)))"

lemma demo_second_counts:
  "rbind demo_first_pending (\<lambda>s. Inr (map ctlState (controlObjects (mapping s)), closing s, tasks (iedServer (mapping s)) 5))
     = Inr ([STATE_WAIT_FOR_EXECUTION], [], Some 1)"
  "rbind demo_second_pending (\<lambda>s. Inr (map ctlState (controlObjects (mapping s)), closing s, tasks (iedServer (mapping s)) 5))
     = Inr ([STATE_WAIT_FOR_EXECUTION], [], Some 0)"
  by code_simp+

theorem close_waits_for_count_witness:
  "(\<exists>s s2. demo_first_pending = Inr s \<and> control_action (demo_cache 1) (Closed 5) s = Inr (No_reply, s2)
      \<and> (\<forall>tr s3. control_run (demo_cache 1) s2 tr s3 \<longrightarrow> (\<exists>c \<in> set (closing s3). serverConnectionHandle c = 5 \<and> still_waiting c)))
   \<and> (\<exists>s s2. demo_second_pending = Inr s \<and> map ctlState (controlObjects (mapping s)) = [STATE_WAIT_FOR_EXECUTION]
      \<and> control_action (demo_cache 1) (Closed 5) s = Inr (No_reply, s2)
      \<and> (\<forall>r' s3. control_action (demo_cache 1) (Wait_round 5) s2 = Inr (r', s3) \<longrightarrow> closing s3 = []))"
proof
  obtain s where s: "demo_first_pending = Inr s" "tasks (iedServer (mapping s)) 5 = Some 1"
    using demo_second_counts(1) by (auto simp: rbind_Inr_iff)
  obtain s2 where c: "control_action (demo_cache 1) (Closed 5) s = Inr (No_reply, s2)" by (simp add: split_beta)
  from close_waits_for_count [OF c s(2)] s(1) c
  show "\<exists>s s2. demo_first_pending = Inr s \<and> control_action (demo_cache 1) (Closed 5) s = Inr (No_reply, s2)
      \<and> (\<forall>tr s3. control_run (demo_cache 1) s2 tr s3 \<longrightarrow> (\<exists>c \<in> set (closing s3). serverConnectionHandle c = 5 \<and> still_waiting c))"
    by (metis zero_less_one)
next
  obtain s where s: "demo_second_pending = Inr s" "map ctlState (controlObjects (mapping s)) = [STATE_WAIT_FOR_EXECUTION]"
      "closing s = []" "tasks (iedServer (mapping s)) 5 = Some 0"
    using demo_second_counts(2) by (auto simp: rbind_Inr_iff)
  obtain s2 where c: "control_action (demo_cache 1) (Closed 5) s = Inr (No_reply, s2)" by (simp add: split_beta)
  from close_waits_for_count [OF c s(4)] s(1-3) c
  show "\<exists>s s2. demo_second_pending = Inr s \<and> map ctlState (controlObjects (mapping s)) = [STATE_WAIT_FOR_EXECUTION]
      \<and> control_action (demo_cache 1) (Closed 5) s = Inr (No_reply, s2)
      \<and> (\<forall>r' s3. control_action (demo_cache 1) (Wait_round 5) s2 = Inr (r', s3) \<longrightarrow> closing s3 = [])"
    by (metis order_refl)
qed


section \<open>The number of tasks after an operation\<close>

lemma report_changes:
  "ControlObject_sendLastApplError conn name err cause num orig c env = Inr (c', env') \<Longrightarrow>
     (\<exists>e a. c' = c\<lparr>applError := e, addCause := a\<rparr>) \<and> same_clients env env'"
  "ControlObject_sendCommandTerminationNegative c env = Inr (c', env') \<Longrightarrow>
     (\<exists>e a. c' = c\<lparr>applError := e, addCause := a\<rparr>) \<and> same_clients env env'"
  by (auto simp: ControlObject_sendLastApplError_def ControlObject_sendCommandTerminationNegative_def last_appl_error_def
      rbind_pair_Inr_iff rbind_Inr_iff)

lemma execute_operate_tasks:
  assumes x: "execute_operate m now c env = Inr (c', env')" and m: "mmsConnection c = Some conn" "ctlState c = STATE_OPERATE"
    and f: "ctlState c' \<in> {STATE_UNSELECTED, STATE_READY}"
  shows "tasks env' conn = map_option (\<lambda>n. n - 2) (tasks env conn)"
proof -
  obtain r c1 e1 where op: "operateControl m (ctlVal c) now (testMode c) c env = (r, c1, e1)" by (rule prod_cases3)
  have c1: "mmsConnection c1 = Some conn" "ctlState c1 = STATE_OPERATE"
    using op m by (auto simp: operateControl_def Let_def split: option.split_asm)
  have r: "r \<noteq> CONTROL_RESULT_WAITING" using x op c1(2) f by (auto simp: execute_operate_def)
  obtain c2 e2 where t: "(if ctlModel c1 = 4 \<or> ctlModel c1 = 3 then
        (if r = CONTROL_RESULT_OK then rbind (ControlObject_sendCommandTerminationPositive c1 e1) (\<lambda>env. Inr (c1, env))
         else ControlObject_sendCommandTerminationNegative c1 e1)
      else Inr (c1, e1)) = Inr (c2, e2)" and fin: "finish_task c2 e2 = Inr (c', env')"
    using x op r by (auto simp: execute_operate_def rbind_pair_Inr_iff)
  have "mmsConnection c2 = Some conn \<and> same_clients e1 e2"
    using t c1(1) by (auto simp: rbind_Inr_iff split: if_split_asm dest: report_clients(3) dest!: report_changes(2))
  then have "mmsConnection c2 = Some conn" "same_clients env e2" using operate_call_clients [OF op] by auto
  then show ?thesis using finish_tasks [OF fin] same_tasks [of env e2] by auto
qed

lemma process_tasks:
  assumes x: "process_control_object m t now c env = Inr (c', env')" and m: "mmsConnection c = Some conn" "ctlState c = STATE_WAIT_FOR_EXECUTION"
    and f: "ctlState c' \<in> {STATE_UNSELECTED, STATE_READY}"
  shows "tasks env' conn = map_option (\<lambda>n. n - 2) (tasks env conn)"
proof -
  have x': "executeControlTask m now c env = Inr (c', env')" using x m(2) by (simp add: process_control_object_def)
  obtain r e1 where w: "call_wait_handler m c env = (r, e1)" by fastforce
  show ?thesis
  proof (cases r)
    case CONTROL_RESULT_FAILED
    then obtain e2 where s: "same_clients e1 e2" "finish_task c e2 = Inr (c', env')"
      using x' m(2) w by (auto simp: executeControlTask_def getState_def rbind_pair_Inr_iff rbind_Inr_iff dest: report_clients)
    then show ?thesis using finish_tasks [OF s(2) m(1)] same_tasks [of env e2] wait_clients [OF w] by auto
  next
    case CONTROL_RESULT_OK
    then obtain e2 where s: "same_clients e1 e2" "execute_operate m now (setState STATE_OPERATE c) e2 = Inr (c', env')"
      using x' m(2) w by (auto simp: executeControlTask_def getState_def rbind_pair_Inr_iff rbind_Inr_iff dest: report_clients)
    then show ?thesis using execute_operate_tasks [OF s(2) _ _ f] m(1) same_tasks [of env e2] wait_clients [OF w]
      by (auto simp: setState_def)
  next
    case CONTROL_RESULT_WAITING
    then show ?thesis using x' m(2) w f by (auto simp: executeControlTask_def getState_def)
  qed
qed


lemma demo_operation_ends:
  "rbind (initialize (demo_cache 1) demo_object) (\<lambda>c.
   rbind (write_element 0 100 5 33 ''Oper'' (demo_oper True) c (iedServer (mapping demo_server))) (\<lambda>(ind, c1, env1).
   rbind (process_control_object 0 200 200 c1 env1) (\<lambda>(c2, env2).
     Inr (ind, ctlState c2)))) = Inr (DATA_ACCESS_ERROR_NO_RESPONSE, STATE_READY)"
  by code_simp


end
