(* ===== verification/Control_Cancel.thy ===== *)
theory Control_Cancel
  imports Control_Tasks
begin

text \<open>
  What an operate carries out, and the requests around a time activated operate: its cancellation blocks the object for plain
  operates, and another client can cancel it.
\<close>

section \<open>An operate carries out the value of the request\<close>

lemma finish_events: "finish_task c env = Inr (c', env') \<Longrightarrow> events env' = events env"
  by (auto simp: finish_task_def rbind_pair_Inr_iff exitControlTask_def dest!: abort_state)

text \<open>After the handler has been called at most a report to the client follows.\<close>

lemma execute_operate_events:
  assumes x: "execute_operate m now c env = Inr (c', env')" and h: "operateHandler c = Some h" and m: "mmsConnection c = Some conn"
  shows "\<exists>reports. events env' = events env @ OperateCalled (ctlVal c) (testMode c) # reports
    \<and> (\<forall>e \<in> set reports. \<exists>vs. e = InformationReport conn vs)"
proof -
  let ?c = "c\<lparr>selectTime := now\<rparr>" and ?e = "emit (OperateCalled (ctlVal c) (testMode c)) env"
  let ?r = "h m (ctlVal c) (testMode c)"
  have op: "operateControl m (ctlVal c) now (testMode c) c env = (?r, ?c, ?e)" using h by (simp add: operateControl_def)
  show ?thesis
  proof (cases "?r = CONTROL_RESULT_WAITING")
    case True
    then have "events env' = events ?e" using x op by (simp add: execute_operate_def)
    then show ?thesis by (simp add: emit_def)
  next
    case False
    obtain c2 e2 where t: "(if ctlModel ?c = 4 \<or> ctlModel ?c = 3 then
          (if ?r = CONTROL_RESULT_OK then rbind (ControlObject_sendCommandTerminationPositive ?c ?e) (\<lambda>env. Inr (?c, env))
           else ControlObject_sendCommandTerminationNegative ?c ?e)
        else Inr (?c, ?e)) = Inr (c2, e2)" and fin: "finish_task c2 e2 = Inr (c', env')"
      using x op False by (auto simp: execute_operate_def rbind_pair_Inr_iff)
    have "e2 = ?e \<or> (\<exists>vs. e2 = emit (InformationReport conn vs) ?e)"
      using t m by (auto simp: rbind_Inr_iff rbind_pair_Inr_iff ControlObject_sendCommandTerminationPositive_def
          ControlObject_sendCommandTerminationNegative_def last_appl_error_def through_def split: if_split_asm)
    then show ?thesis using finish_events [OF fin] by (auto simp: emit_def)
  qed
qed

lemma timeout_fields:
  "operateHandler (checkSelectTimeout t c) = operateHandler c"
  "waitForExecutionHandler (checkSelectTimeout t c) = waitForExecutionHandler c"
  "timeActivatedOperate (checkSelectTimeout t c) = timeActivatedOperate c"
  by (simp_all add: checkSelectTimeout_def unselectObject_def setState_def)

lemma oper_parameters_value:
  assumes "oper_parameters value = Inr (Some (v, r))"
  shows "getCtlVal value = Inr (Some v)"
proof -
  obtain a num orig check test and tm :: "sMmsValue option" where p: "getCtlVal value = Inr a"
    "(case (a, num, orig, check, test, tm) of
        (Some v, Some num, Some orig, Some check, Some test, Some t) \<Rightarrow> Some (v, num, orig, check, test)
      | _ \<Rightarrow> None) = Some (v, r)"
    using assms unfolding oper_parameters_def rbind_Inr_iff sum.inject by (elim exE conjE) (rule that, assumption, assumption)
  then show ?thesis by (cases a; cases num; cases orig; cases check; cases test; cases tm) auto
qed


definition demo_handled :: sControlObject where
  "demo_handled = ControlObject_installListener (\<lambda>m v b. CONTROL_RESULT_OK) demo_object"

lemma demo_operation_runs:
  "rbind (initialize (demo_cache 1) demo_handled) (\<lambda>c.
   rbind (write_element 0 100 5 33 ''Oper'' (demo_oper True) c (iedServer (mapping demo_server))) (\<lambda>(ind, c1, env1).
   rbind (process_control_object 0 200 200 c1 env1) (\<lambda>(c2, env2).
     Inr (ind, Option.is_none (operateHandler c), fst (call_wait_handler 0 c1 env1)))))
   = Inr (DATA_ACCESS_ERROR_NO_RESPONSE, False, CONTROL_RESULT_OK)"
  by code_simp




section \<open>A cancelled activation blocks the object\<close>

text \<open>An object that waits for a start time it will never look at again: the flag is set, but no activation is pending.\<close>

definition blocked :: "sControlObject \<Rightarrow> bool" where
  "blocked c \<longleftrightarrow> ctlInitialized c \<and> is_sbo c \<and> timeActivatedOperate c \<and> ctlState c \<in> {STATE_UNSELECTED, STATE_READY}"

definition no_start_time :: "sMmsValue \<Rightarrow> bool" where
  "no_start_time value \<longleftrightarrow> getOperParameterOperTime value = Inr None
     \<or> (\<exists>tm. getOperParameterOperTime value = Inr (Some tm) \<and> MmsValue_getUtcTimeInMs tm = Inr 0)"

text \<open>Everything clients and server do with an object, except for cancelling and for operates with a start time.\<close>

inductive plain_run :: "sControlObject \<Rightarrow> sControlObject \<Rightarrow> bool" for c where
  at_start: "plain_run c c"
| after_read: "plain_run c c1 \<Longrightarrow> read_element m t conn el c1 env = Inr (v, c2, env') \<Longrightarrow> plain_run c c2"
| after_write: "plain_run c c1 \<Longrightarrow> service = ''Oper'' \<and> no_start_time val \<or> service = ''SBOw''
    \<Longrightarrow> write_element m t conn k service val c1 env = Inr (ind, c2, env') \<Longrightarrow> plain_run c c2"
| after_process: "plain_run c c1 \<Longrightarrow> process_control_object m t now c1 env = Inr (c2, env') \<Longrightarrow> plain_run c c2"
| after_close: "plain_run c c1 \<Longrightarrow> ControlObject_unselect conn c1 env = Inr (r, c2, env') \<Longrightarrow> plain_run c c2"

lemma blocked_config: "blocked c \<Longrightarrow> same_configuration c c' \<Longrightarrow> timeActivatedOperate c' = timeActivatedOperate c
    \<Longrightarrow> ctlState c' \<in> {STATE_UNSELECTED, STATE_READY} \<Longrightarrow> blocked c'"
  by (simp add: blocked_def same_configuration_def)

lemma blocked_timeout: "blocked c \<Longrightarrow> blocked (checkSelectTimeout t c)"
  by (simp add: blocked_def checkSelectTimeout_def unselectObject_def setState_def)

lemma blocked_select: "blocked c \<Longrightarrow> selectObject t conn c = Inr c' \<Longrightarrow> blocked c'"
  by (auto simp: selectObject_def rbind_Inr_iff blocked_def setState_def dest!: update_timeout)

lemma blocked_refuse: "blocked c \<Longrightarrow> refuse ind conn name cause num orig c env = Inr (ind', c', env') \<Longrightarrow> blocked c'"
  using refuse_hold [of ind conn name cause num orig c env ind' c' env'] blocked_config [of c c']
  by (auto simp: blocked_def same_hold_def)

lemma blocked_parameters: "blocked c \<Longrightarrow> updateControlParameters v num orig c = Inr c' \<Longrightarrow> blocked c'"
  using parameters_hold [of v num orig c c'] blocked_config [of c c'] by (auto simp: blocked_def same_hold_def)

lemma blocked_abort: "blocked c \<Longrightarrow> abortControlOperation c env = Inr (c', env') \<Longrightarrow> blocked c'"
  using abort_state [of c env c' env'] by (auto simp: blocked_def setState_def)

lemma blocked_read:
  assumes b: "blocked c" and r: "read_element m t conn el c env = Inr (v, c', env')"
  shows "blocked c'"
proof -
  have "blocked c'" if x: "read_sbo m t conn c env = Inr (v, c', env')"
  proof -
    obtain r e1 where k: "call_check_handler m None False False (Some conn) (checkSelectTimeout t c) env = (r, e1)" by fastforce
    have "c' = c \<or> c' = checkSelectTimeout t c \<or> selectObject t conn (checkSelectTimeout t c) = Inr c'"
      using x k by (auto simp: read_sbo_def Let_def rbind_Inr_iff split: if_split_asm)
    then show ?thesis using b blocked_timeout blocked_select by blast
  qed
  then show ?thesis using b r by (auto simp: read_element_def rbind_Inr_iff split: option.split_asm if_split_asm)
qed

lemma blocked_sbow:
  assumes b: "blocked c" and w: "write_sbow m t conn val c env = Inr (ind, c', env')"
  shows "blocked c'"
proof -
  have s: "blocked c2" if c1: "blocked c1" and x: "select_with_value m t conn v num orig check test c1 env = Inr (ind, c2, e2)" for c1 c2 e2 v num orig check test
  proof -
    obtain bt il where y: "(let (checkResult, env) = call_check_handler m (Some v) bt il (Some conn) c1 env
       in if checkResult = CONTROL_ACCEPTED then
            rbind (selectObject t conn c1) (\<lambda>self. rbind (updateControlParameters (Some v) num orig self) (\<lambda>self.
              Inr (DATA_ACCESS_ERROR_SUCCESS, self, env)))
          else refuse (getDataAccessErrorFromCheckHandlerResult checkResult) conn ''SBOw'' ADD_CAUSE_SELECT_FAILED num orig c1 env)
      = Inr (ind, c2, e2)"
      using x by (auto simp: select_with_value_def rbind_Inr_iff)
    obtain r e1 where k: "call_check_handler m (Some v) bt il (Some conn) c1 env = (r, e1)" by fastforce
    show ?thesis using y k c1
      by (cases "r = CONTROL_ACCEPTED") (auto simp: rbind_Inr_iff intro: blocked_select blocked_parameters blocked_refuse)
  qed
  show ?thesis using w b blocked_timeout [OF b, of t]
    by (auto simp: write_sbow_def rbind_Inr_iff Let_def split: if_split_asm option.split_asm intro: s blocked_refuse)
qed

lemma blocked_operate:
  assumes b: "blocked c" and n: "no_start_time val" and r: "ctlState c = STATE_READY"
    and w: "operate_accepted m conn k val pars checks c env = Inr (ind, c', env')"
  shows "blocked c'"
proof -
  obtain v num orig i sy te where p: "pars = (v, num, orig)" "checks = (i, sy, te)" by (metis prod_cases3)
  obtain c1 ind1 c2 e2 c3 where h: "updateControlParameters (Some v) (Some num) (Some orig) c = Inr c1"
    "activate conn val i sy c1 env = Inr (ind1, c2, e2)" "update_oper val c2 = Inr c3"
    and x: "(if timeActivatedOperate c3 then Inr (ind1, c3, e2) else start_operate m conn k v te i c3 e2) = Inr (ind, c', env')"
    using w by (auto simp: operate_accepted_def p rbind_Inr_iff rbind_pair_Inr_iff)
  have b1: "blocked c1" using blocked_parameters [OF b h(1)] .
  then have "blocked c2" using h(2) n by (auto simp: activate_def no_start_time_def rbind_Inr_iff Let_def blocked_def)
  then have "blocked c3" using change_oper_hold [OF h(3) [unfolded update_oper_def]] blocked_config [of c2 c3]
    by (auto simp: same_hold_def blocked_def)
  then show ?thesis using x by (auto simp: blocked_def)
qed

lemma blocked_oper:
  assumes b: "blocked c" and n: "no_start_time val" and w: "write_oper m t conn k val c env = Inr (ind, c', env')"
  shows "blocked c'"
proof -
  let ?c = "checkSelectTimeout t c"
  have bc: "blocked ?c" using b by (rule blocked_timeout)
  obtain p where p: "oper_parameters val = Inr p" using w by (auto simp: write_oper_def rbind_Inr_iff)
  show ?thesis
  proof (cases p)
    case (Some q)
    obtain v num orig check test where q: "q = (v, num, orig, check, test)" by (metis prod_cases5)
    have "blocked c' \<or> (ctlState ?c = STATE_READY \<and> operate_ready m conn k val (v, num, orig, check, test) ?c env = Inr (ind, c', env'))"
      using w b bc unfolding write_oper_def p Some q
      by (auto simp: rbind_Inr_iff Let_def getState_def split: if_split_asm dest: blocked_refuse)
    moreover have "blocked c'" if r: "ctlState ?c = STATE_READY" and x: "operate_ready m conn k val (v, num, orig, check, test) ?c env = Inr (ind, c', env')"
    proof -
      obtain i sy te where bb: "MmsValue_getBitStringBit check 1 = Inr i" "MmsValue_getBitStringBit check 0 = Inr sy"
        "MmsValue_getBoolean test = Inr te"
        using x by (auto simp: operate_ready_def rbind_Inr_iff)
      let ?d = "?c\<lparr>testMode := te\<rparr>"
      have d: "blocked ?d" "ctlState ?d = STATE_READY" using bc r by (simp_all add: blocked_def)
      have "blocked c' \<or> operate_accepted m conn k val (v, num, orig) (i, sy, te) ?d env = Inr (ind, c', env')"
        using x d by (auto simp: operate_ready_def bb Let_def rbind_Inr_iff split: if_split_asm dest: blocked_refuse)
      then show ?thesis using blocked_operate [OF d(1) n d(2)] by blast
    qed
    ultimately show ?thesis by blast
  qed (use w p b in \<open>auto simp: write_oper_def\<close>)
qed

lemma blocked_run: "plain_run c c' \<Longrightarrow> blocked c \<Longrightarrow> blocked c'"
proof (induction rule: plain_run.induct)
  case (after_read c1 m t conn el env v c2 env')
  then show ?case using blocked_read by blast
next
  case (after_write c1 service val m t conn k env ind c2 env')
  then have "blocked c1" by simp
  moreover from after_write.hyps(2,3)
  have "write_oper m t conn k val c1 env = Inr (ind, c2, env') \<and> no_start_time val \<or> write_sbow m t conn val c1 env = Inr (ind, c2, env')"
    by (elim disjE conjE) (simp_all add: write_element_def)
  ultimately show ?case using blocked_sbow blocked_oper by blast
next
  case (after_process c1 m t now env c2 env')
  then show ?case by (auto simp: blocked_def process_control_object_def split: if_split_asm)
next
  case (after_close c1 conn env r c2 env')
  then show ?case by (auto simp: ControlObject_unselect_def rbind_pair_Inr_iff split: if_split_asm intro: blocked_abort)
qed

text \<open>
  C6: the client that holds an object cancels its time activated operate: the object is released, but the flag of the activation
  stays. From then on no operate without a start time is carried out, whoever selects the object, in every run of
  reads, selections, operates without a start time, rounds of the processing and closed connections (\<open>plain_run\<close>): as long
  as no further \<open>Cancel\<close> and no operate with a start time arrives. A further \<open>Cancel\<close> of the released object clears the flag.
\<close>

theorem cancelled_activation_blocks:
  assumes c: "ctlInitialized c" "is_sbo c" "ctlState c = STATE_WAIT_FOR_ACTIVATION_TIME" "timeActivatedOperate c"
    and o: "mmsConnection c = Some conn"
    and p: "getCancelParameterCtlNum val = Inr (Some num)" "getCancelParameterOrigin val = Inr (Some orig)"
  shows "\<exists>c'. write_cancel conn val c env = Inr (DATA_ACCESS_ERROR_SUCCESS, c', env) \<and> ctlState c' = STATE_UNSELECTED
    \<and> (\<forall>c2 m t now e. plain_run c' c2 \<longrightarrow> process_control_object m t now c2 e = Inr (c2, e))
    \<and> (\<forall>c2 c3 m t con2 k v2 e e' ind. plain_run c' c2 \<longrightarrow> no_start_time v2
          \<longrightarrow> write_element m t con2 k ''Oper'' v2 c2 e = Inr (ind, c3, e') \<longrightarrow> ind \<noteq> DATA_ACCESS_ERROR_NO_RESPONSE \<and> blocked c3)
    \<and> (\<forall>c2 c3 con2 e e' ind. plain_run c' c2 \<longrightarrow> ctlState c2 = STATE_UNSELECTED
          \<longrightarrow> write_cancel con2 val c2 e = Inr (ind, c3, e') \<longrightarrow> \<not> timeActivatedOperate c3)"
proof -
  let ?c = "unselectObject c"
  have w: "write_cancel conn val c env = Inr (DATA_ACCESS_ERROR_SUCCESS, ?c, env)"
    using c o p by (simp add: write_cancel_def getState_def)
  have b: "blocked ?c" using c by (simp add: blocked_def unselectObject_def setState_def)
  have u: "ctlState ?c = STATE_UNSELECTED" by (simp add: unselectObject_def setState_def)
  have pr: "process_control_object m t now c2 e = Inr (c2, e)" if "plain_run ?c c2" for c2 m t now e
    using blocked_run [OF that b] by (auto simp: blocked_def process_control_object_def)
  have wr: "ind \<noteq> DATA_ACCESS_ERROR_NO_RESPONSE \<and> blocked c3"
    if "plain_run ?c c2" "no_start_time v2" "write_element m t con2 k ''Oper'' v2 c2 e = Inr (ind, c3, e')"
    for c2 c3 m t con2 k v2 e e' ind
  proof -
    have "blocked c3" using blocked_run [OF plain_run.after_write [OF that(1) _ that(3)] b] that(2) by simp
    moreover from this have "ctlState c3 \<noteq> STATE_WAIT_FOR_EXECUTION" by (auto simp: blocked_def)
    ultimately show ?thesis using write_starts_task [of m t con2 k "''Oper''" v2 c2 e c3 e'] that(3) by metis
  qed
  have again: "\<not> timeActivatedOperate c3"
    if "plain_run ?c c2" "ctlState c2 = STATE_UNSELECTED" "write_cancel con2 val c2 e = Inr (ind, c3, e')" for c2 c3 con2 e e' ind
    using that(2,3) p by (auto simp: write_cancel_def getState_def cancel_activated_def rbind_pair_Inr_iff setState_def
        split: if_split_asm dest!: abort_state)
  show ?thesis
    by (rule exI [of _ ?c], intro conjI allI impI w u)
      (erule pr, erule (2) wr [THEN conjunct1], erule (2) wr [THEN conjunct2], erule (2) again)
qed


text \<open>A run of requests that ends in a pending activation: select, and an operate with a start time.\<close>

definition demo_timed :: "bool \<Rightarrow> sMmsValue" where
  "demo_timed v = MmsValue MMS_STRUCTURE 0 (U_structure [Some (MmsValue_newBoolean v), Some (MmsValue_newUtcTime 1000), Some demo_origin,
     demo_integer 7, Some (MmsValue_newUtcTime 0), Some (MmsValue_newBoolean False), Some (MmsValue_newBitString 2)])"

definition demo_cancel :: sMmsValue where
  "demo_cancel = MmsValue MMS_STRUCTURE 0 (U_structure [Some (MmsValue_newBoolean True), Some demo_origin, demo_integer 7,
     Some (MmsValue_newUtcTime 0), Some (MmsValue_newBoolean False)])"

definition demo_timed_object :: sControlObject where
  "demo_timed_object = ControlObject_setOper (Some 0) (ControlObject_setMmsValue
     (Some (MmsValue MMS_STRUCTURE 0 (U_structure [Some (demo_timed False)]))) (ControlObject_create demo_domain ''GGIO1'' ''SPCSO1''))"

definition demo_activation :: "(sControlObject \<times> control_env) run" where
  "demo_activation =
     rbind (initialize (demo_cache 2) demo_timed_object) (\<lambda>c.
     rbind (read_element 0 100 5 (Some ''SBO'') c (iedServer (mapping demo_server))) (\<lambda>(v, c, env).
     rbind (write_element 0 110 5 33 ''Oper'' (demo_timed True) c env) (\<lambda>(ind, c, env). Inr (c, env))))"

text \<open>A value that can take every 32 bit integer, and an object that can report an error.\<close>

definition int32_cell :: "sMmsValue option \<Rightarrow> bool" where
  "int32_cell p = (case p of
     Some (MmsValue MMS_INTEGER d (U_integer v)) \<Rightarrow> value_ok v \<and> 4 \<le> pmaxSize v
   | _ \<Rightarrow> False)"

lemma no_int32_cell [simp]: "\<not> int32_cell None"
  by (simp add: int32_cell_def)

definition can_report :: "sControlObject \<Rightarrow> bool" where
  "can_report c \<longleftrightarrow> (case ctlObjectName c of Some ref \<Rightarrow> length ref < 120 | None \<Rightarrow> False)
     \<and> int32_cell (applError c) \<and> int32_cell (addCause c)"

lemma demo_activation_pending:
  "rbind demo_activation (\<lambda>(c, env).
     Inr (ctlInitialized c, ctlModel c, ctlState c, timeActivatedOperate c, mmsConnection c, can_report c, operate_once c))
   = Inr (True, 2, STATE_WAIT_FOR_ACTIVATION_TIME, True, Some 5, True, True)"
  by code_simp

lemma demo_cancel_parameters:
  "(case getCancelParameterCtlNum demo_cancel of Inr (Some num) \<Rightarrow> True | _ \<Rightarrow> False)
    \<and> (case getCancelParameterOrigin demo_cancel of Inr (Some orig) \<Rightarrow> True | _ \<Rightarrow> False)"
  by code_simp

lemma demo_parameters: "\<exists>num orig. getCancelParameterCtlNum demo_cancel = Inr (Some num) \<and> getCancelParameterOrigin demo_cancel = Inr (Some orig)"
  using demo_cancel_parameters by (auto split: sum.split_asm option.split_asm)

theorem cancelled_activation_blocks_witness:
  "\<exists>c env c'. demo_activation = Inr (c, env) \<and> write_cancel 5 demo_cancel c env = Inr (DATA_ACCESS_ERROR_SUCCESS, c', env)
     \<and> (\<forall>c2 m t now e. plain_run c' c2 \<longrightarrow> process_control_object m t now c2 e = Inr (c2, e))"
proof -
  obtain c env where d: "demo_activation = Inr (c, env)" "ctlInitialized c" "is_sbo c" "ctlState c = STATE_WAIT_FOR_ACTIVATION_TIME"
    "timeActivatedOperate c" "mmsConnection c = Some 5"
    using demo_activation_pending by (auto simp: rbind_pair_Inr_iff)
  obtain num orig where p: "getCancelParameterCtlNum demo_cancel = Inr (Some num)" "getCancelParameterOrigin demo_cancel = Inr (Some orig)"
    using demo_parameters by blast
  from cancelled_activation_blocks [OF d(2-6) p, of env] obtain c' where
    w: "write_cancel 5 demo_cancel c env = Inr (DATA_ACCESS_ERROR_SUCCESS, c', env)"
      "\<forall>c2 m t now e. plain_run c' c2 \<longrightarrow> process_control_object m t now c2 e = Inr (c2, e)"
    by (elim exE conjE) (rule that)
  show ?thesis by (rule exI [of _ c], rule exI [of _ env], rule exI [of _ c'], intro conjI d(1) w)
qed


section \<open>Another client can cancel\<close>

lemma int32_cell_set: "int32_cell (Some e) \<Longrightarrow> \<exists>e'. MmsValue_setInt32 e x = Inr e'"
proof -
  assume "int32_cell (Some e)"
  then obtain d v where e: "e = MmsValue MMS_INTEGER d (U_integer v)" "value_ok v" "4 \<le> pmaxSize v"
    by (auto simp: int32_cell_def split: sMmsValue.split_asm MmsType.split_asm uMmsValue.split_asm)
  from setInteger_roundtrip [OF e(2), of 4 x] e(3) obtain v' where "BerInteger_setInt32 v x = Inr (v', 1)"
    by (auto simp: BerInteger_setInt32_def)
  then show ?thesis using e by (simp add: MmsValue_setInt32_def set_integer_def integer_of_def Asn1PrimitiveValue_getMaxSize_def)
qed

lemma can_report_error:
  assumes "can_report c" and "length name < 9"
  shows "\<exists>ref v c' env'. ctlObjectName c = Some ref
    \<and> last_appl_error (ref @ ''$'' @ name) err cause num orig c = Inr (v, c')
    \<and> ControlObject_sendLastApplError (Some conn) name err cause num orig c env = Inr (c', emit (VmdSpecificReport conn ''LastApplError'' v) env)"
proof -
  obtain ref e a where r: "ctlObjectName c = Some ref" "length ref < 120" "applError c = Some e" "addCause c = Some a"
      "int32_cell (Some e)" "int32_cell (Some a)"
    using assms(1) by (cases "ctlObjectName c"; cases "applError c"; cases "addCause c") (auto simp: can_report_def)
  obtain e' a' where "MmsValue_setInt32 e err = Inr e'" "MmsValue_setInt32 a (cause_code cause) = Inr a'"
    using int32_cell_set r(5,6) by metis
  then show ?thesis using r assms(2)
    by (auto simp: ControlObject_sendLastApplError_def last_appl_error_def through_def string_in_buffer_def)
qed

text \<open>
  C7: A cancel of another client than the one that holds the object is answered with an error report and still aborts the
  pending activation.
\<close>

theorem foreign_cancel_aborts:
  assumes c: "is_sbo c" "ctlState c = STATE_WAIT_FOR_ACTIVATION_TIME" "timeActivatedOperate c" "operate_once c" "can_report c"
    and o: "mmsConnection c \<noteq> Some conn"
    and p: "getCancelParameterCtlNum val = Inr (Some num)" "getCancelParameterOrigin val = Inr (Some orig)"
  shows "\<exists>ref v c1 c' env'. ctlObjectName c = Some ref
    \<and> last_appl_error (ref @ ''$Cancel'') CONTROL_ERROR_NO_ERROR ADD_CAUSE_LOCKED_BY_OTHER_CLIENT (Some num) (Some orig) c = Inr (v, c1)
    \<and> write_cancel conn val c env = Inr (DATA_ACCESS_ERROR_SUCCESS, c', env')
    \<and> events env' = events env @ [VmdSpecificReport conn ''LastApplError'' v]
    \<and> ctlState c' = STATE_UNSELECTED \<and> \<not> timeActivatedOperate c'"
proof -
  have "length ''Cancel'' < 9" by simp
  from can_report_error [OF c(5) this, of CONTROL_ERROR_NO_ERROR ADD_CAUSE_LOCKED_BY_OTHER_CLIENT "Some num" "Some orig" conn env]
  obtain ref v c1 where r: "ctlObjectName c = Some ref"
    "last_appl_error (ref @ ''$Cancel'') CONTROL_ERROR_NO_ERROR ADD_CAUSE_LOCKED_BY_OTHER_CLIENT (Some num) (Some orig) c = Inr (v, c1)"
    "ControlObject_sendLastApplError (Some conn) ''Cancel'' CONTROL_ERROR_NO_ERROR ADD_CAUSE_LOCKED_BY_OTHER_CLIENT (Some num) (Some orig) c env
       = Inr (c1, emit (VmdSpecificReport conn ''LastApplError'' v) env)"
    by auto
  let ?e = "emit (VmdSpecificReport conn ''LastApplError'' v) env" and ?d = "c1\<lparr>timeActivatedOperate := False\<rparr>"
  obtain e a where c1: "c1 = c\<lparr>applError := e, addCause := a\<rparr>" using report_changes(1) [OF r(3)] by blast
  have once: "isSboClassOperateOnce ?d = Inr True" using c(4) c1 by (simp add: operate_once_def isSboClassOperateOnce_def)
  have "abortControlOperation ?d ?e = Inr (unselectObject ?d, exitControlTask (unselectObject ?d) ?e)"
    using c(1) c1 once by (auto simp: abortControlOperation_def)
  then have "write_cancel conn val c env = Inr (DATA_ACCESS_ERROR_SUCCESS, unselectObject ?d, exitControlTask (unselectObject ?d) ?e)"
    using c o p r(3) c1 by (simp add: write_cancel_def getState_def refuse_def cancel_activated_def)
  then show ?thesis using r(1,2) by (auto simp: exitControlTask_def emit_def unselectObject_def setState_def)
qed

theorem foreign_cancel_aborts_witness:
  "\<exists>c env c' env'. demo_activation = Inr (c, env) \<and> mmsConnection c = Some 5
     \<and> write_cancel 6 demo_cancel c env = Inr (DATA_ACCESS_ERROR_SUCCESS, c', env') \<and> ctlState c' = STATE_UNSELECTED"
proof -
  obtain c env where d: "demo_activation = Inr (c, env)" "is_sbo c" "ctlState c = STATE_WAIT_FOR_ACTIVATION_TIME"
    "timeActivatedOperate c" "operate_once c" "can_report c" "mmsConnection c = Some 5"
    using demo_activation_pending by (auto simp: rbind_pair_Inr_iff)
  obtain num orig where p: "getCancelParameterCtlNum demo_cancel = Inr (Some num)" "getCancelParameterOrigin demo_cancel = Inr (Some orig)"
    using demo_parameters by blast
  have "mmsConnection c \<noteq> Some 6" using d(7) by simp
  from foreign_cancel_aborts [OF d(2-6) this p, of env] obtain c' env' where
    w: "write_cancel 6 demo_cancel c env = Inr (DATA_ACCESS_ERROR_SUCCESS, c', env')" "ctlState c' = STATE_UNSELECTED"
    by (elim exE conjE) (rule that)
  show ?thesis by (rule exI [of _ c], rule exI [of _ env], rule exI [of _ c'], rule exI [of _ env'], intro conjI d(1,7) w)
qed

end
