(* ===== verification/Spec2Isabelle.thy ===== *)
theory Spec2Isabelle
  imports Linked_List Ber_Integer Iso_Association Presentation_Outcome Server_Handler Mms_Value_Types Mms_Paths Mms_Print Goose_Correct Control_Cancel
begin

text \<open>
  A verification development for the IEC 61850 DSLink.

  The program. \<open>src/src\<close> is a DSA link: an administrator adds IEC 61850 servers (IEDs) by name, host and port; the link
  connects, discovers the data model, the data sets and the report control blocks of the IED, mirrors them in a tree of
  nodes, and offers actions on the nodes (read and write a value, operate a control, prepare and create a data
  set, set the fields of a report control block). Below it \<open>src/libiec61850\<close> is the protocol stack: TPKT and COTP,
  session, presentation, ACSE, MMS, and the IEC 61850 client and server.

  Theories and sources.
  \<^item> \<open>Prelude\<close>: C integers, faults (\<open>'a run\<close>), checked buffer access, bounded loops and the locale \<open>measured_loop\<close>.
  \<^item> \<open>Linked_List\<close>: \<open>common/linked_list.c\<close> over an explicit heap of cells.
  \<^item> \<open>Byte_Buffer\<close>: \<open>common/byte_buffer.c\<close>, \<open>common/buffer_chain.c\<close>.
  \<^item> \<open>Ber\<close>, \<open>Ber_Integer\<close>: \<open>mms/asn1\<close>, the BER encoder, decoder and integers.
  \<^item> \<open>Cotp\<close>, \<open>Cotp_Correct\<close>, \<open>Cotp_Connect\<close>: \<open>mms/iso_cotp/cotp.c\<close>, its data transfer and its connection
    set-up; the locale \<open>payload_sink\<close> is the interface between the two.
  \<^item> \<open>Iso_Parameters\<close>: \<open>mms/iso_common/iso_connection_parameters.c\<close>.
  \<^item> \<open>Session\<close>, \<open>Session_Correct\<close>: \<open>mms/iso_session/iso_session.c\<close>.
  \<^item> \<open>Presentation\<close>, \<open>Presentation_Correct\<close>, \<open>Presentation_Messages\<close>, \<open>Presentation_Outcome\<close>:
    \<open>mms/iso_presentation/iso_presentation.c\<close>.
  \<^item> \<open>Acse\<close>, \<open>Acse_Correct\<close>, \<open>Acse_Messages\<close>: \<open>mms/iso_acse/acse.c\<close>. The parsers of these layers take an encoded item per
    round; the locale \<open>item_loop\<close> of \<open>Prelude\<close> lifts the meaning of an item to that of the list,
    \<open>outcome_loop\<close> of \<open>Presentation_Outcome\<close> that of one which may make the parser read in front of the message.
  \<^item> \<open>Iso_Connection\<close>: \<open>mms/iso_server/iso_connection.c\<close>; \<open>Iso_Client\<close>: \<open>mms/iso_client/iso_client_connection.c\<close>, each one
    composing the four layers; \<open>Iso_Correct\<close> and \<open>Iso_Association\<close> run a client against a server.
  \<^item> \<open>Mms_Type\<close>, \<open>Mms_Value\<close>: \<open>mms/iso_mms/common/mms_type_spec.c\<close>, \<open>mms_value.c\<close>, with \<open>Mms_Value_Correct\<close> (typing),
    \<open>Mms_Value_Numbers\<close> (bit strings and times), \<open>Mms_Value_Types\<close> (operations keep the type), \<open>Mms_Paths\<close> (components by name),
    \<open>Mms_Print\<close> (texts). \<open>Mms_Data\<close>, \<open>Mms_Data_Correct\<close>: \<open>mms/iso_mms/server/mms_access_result.c\<close>, values on the wire.
  \<^item> \<open>Ber_Elements\<close>: lists of BER elements, what the encoder writes for them and where the decoder finds them.
  \<^item> \<open>Goose_Publisher\<close>: \<open>goose/goose_publisher.c\<close>; \<open>Goose_Subscriber\<close>: \<open>goose_receiver.c\<close>, \<open>goose_subscriber.c\<close>; with
    \<open>Goose_Publish_Correct\<close> (the octets that are sent), \<open>Goose_Payload\<close> (the meaning of a message), \<open>Goose_Data\<close> (its values) and
    \<open>Goose_Correct\<close> (from publisher to subscriber, malformed messages).
  \<^item> \<open>Control_Object\<close>: \<open>iec61850/server/mms_mapping/control.c\<close> with \<open>server/impl/client_connection.c\<close>: the control objects of a server;
    \<open>Control_System\<close>: requests, processing and connections (\<open>mms_mapping.c\<close>) as actions on all of them, and the runs of the server;
    \<open>Control_Correct\<close> (who holds an object), \<open>Control_Tasks\<close> (the tasks of a connection), \<open>Control_Cancel\<close> (what an operate
    carries out, cancelled activations).
  \<^item> \<open>C_Strings\<close>, \<open>Calendar\<close>, \<open>Conversions\<close>: \<open>sscanf\<close>, the calendar functions of the C library, \<open>common/conversions.c\<close>.
  \<^item> \<open>Time_Iso8601\<close>: \<open>src/src/time_iso8601.c\<close>.
  \<^item> \<open>Iec61850_Common\<close>: \<open>iec61850/common/iec61850_common.c\<close>.
  \<^item> \<open>DSLink\<close>, \<open>Demo_SDK\<close>: the environment of the link as two records of operations, and a small instance.
  \<^item> \<open>Server_Defs\<close>: \<open>src/src/iec61850_server_defs.c\<close>, \<open>server_status.c\<close>.
  \<^item> \<open>Dataset_Handler\<close>: \<open>src/src/dataset_handler.c\<close>. \<open>Report_Handler\<close>: \<open>src/src/report_handler.c\<close>.
  \<^item> \<open>Client_Values\<close>, \<open>Client_Nodes\<close>, \<open>Discovery\<close>, \<open>Server_Handler\<close>: \<open>src/src/client_handler.c\<close> in the order of the file,
    and \<open>add_server.c\<close>.

  How the state corresponds. Functions on buffers take and give back lists of octets; reading or writing outside of
  them, using an unassigned variable, a null pointer or a freed node, and operations C leaves undefined are faults of the
  result type. Node tree, server map and network belong to the environment: they are a state \<open>'s\<close> that every handler
  passes on, changed only by the operations of the records \<open>sdk\<close> and \<open>ied\<close> (and \<open>control_ops\<close> for control objects). A
  handler is one definition with all its calls that change state in the order of the code; logging and
  reference counting are left out. Local character buffers keep their sizes: \<open>fit\<close> fails where the text leaves them.

  What the lemmas show. For the stack: round trips of lengths, integers, times, connection requests and whole messages
  over the transport, framing of the incoming stream, bounds of the buffers, the end of the option loop, the refinement
  of the session, presentation and ACSE parsers to the meaning of the elements they parse, round trips of their messages,
  an association and a data exchange from client to server and back through all layers,
  what the authenticator of a server guards,
  the typing of MMS values, their copies, texts and encoding, GOOSE messages from publisher to subscriber, selection before
  operation in every run of the control service and what an operate carries out, and the places where the code is wrong. For the link: resolution of references along the node tree, agreement of the
  keys of data sets, the effect of a report on the value nodes, the order of selection and operation in a control, the buffer that
  bounds the discovery, the removal of the data model and what it frees twice, texts of options, times and bit strings.

  Bounds. \<open>c_while\<close> takes the number of rounds; every loop comes with a lemma that enough rounds end it. The discovery
  recurses at most \<open>DISCOVERY_DEPTH\<close> levels, since every level makes a reference longer and the model stops with a fault
  where the code prints it beyond its buffer of 129 characters; \<open>depth\<close> of the node tree bounds the climb to the server node.

  Not modelled: MMS PDUs and services, the mapping of the data model and the reporting of the server, the client library of the stack
  (its operations are the record \<open>ied\<close>); sampled values, generated ASN.1 code, sockets, threads, files and logging.
\<close>

end
